(* ===== verification/Prelude.thy ===== *)
theory Prelude
  imports Main "HOL-Library.Word"
begin

text \<open>
  Shared vocabulary of the development: the machine integer types of the Rust sources
  (\<open>u32\<close>, \<open>u64\<close>, \<dots> are words, so that \<open>+\<close>, \<open>-\<close> and \<open>*\<close> wrap as in a release build;
  \<open>usize\<close> lengths and indices of in-memory data are \<open>nat\<close>), the result type of fallible
  operations, the development's collections of simplification rules, and generic lemmas on
  lists, options and words that several components use.
\<close>

section \<open>Machine integers\<close>

type_synonym u8 = "8 word"
type_synonym u16 = "16 word"
type_synonym u32 = "32 word"
type_synonym u64 = "64 word"
type_synonym i32 = "32 word"
type_synonym i64 = "64 word"

text \<open>Rust's \<open>as u32\<close> on a \<open>usize\<close>, and \<open>saturating_sub\<close> on \<open>u32\<close>.\<close>

definition as_u32 :: "nat \<Rightarrow> u32" where
  "as_u32 n = of_nat n"

definition saturating_sub :: "'a::len word \<Rightarrow> 'a word \<Rightarrow> 'a word" where
  "saturating_sub a b = (if b \<le> a then a - b else 0)"

lemma unat_saturating_sub: "unat (saturating_sub a b) = unat a - unat b"
proof (cases "b \<le> a")
  case True
  then show ?thesis by (simp add: saturating_sub_def unat_sub)
next
  case False
  then have "unat a \<le> unat b" by (simp add: word_le_nat_alt)
  with False show ?thesis by (simp add: saturating_sub_def)
qed

lemma word_Suc_le: "(n::'a::len word) < m \<Longrightarrow> unat (n + 1) = Suc (unat n)"
proof -
  assume "n < m"
  then have "unat n < unat m" by (simp add: word_less_nat_alt)
  moreover have "unat m < 2 ^ LENGTH('a)" by (rule unsigned_less)
  ultimately have "Suc (unat n) < 2 ^ LENGTH('a)" by linarith
  then show ?thesis by (simp add: unat_word_ariths)
qed

section \<open>Results\<close>

text \<open>A Rust \<open>Result<T, E>\<close> is a sum: \<open>Inl\<close> the error, \<open>Inr\<close> the value.\<close>

type_synonym ('e, 'a) result = "'e + 'a"

definition bind_result :: "('e, 'a) result \<Rightarrow> ('a \<Rightarrow> ('e, 'b) result) \<Rightarrow> ('e, 'b) result" where
  "bind_result r f = (case r of Inl e \<Rightarrow> Inl e | Inr a \<Rightarrow> f a)"

lemma bind_result_simps [simp]:
  "bind_result (Inl e) f = Inl e"
  "bind_result (Inr a) f = f a"
  by (simp_all add: bind_result_def)

lemma bind_result_Inr_iff:
  "bind_result r f = Inr b \<longleftrightarrow> (\<exists>a. r = Inr a \<and> f a = Inr b)"
  by (cases r) auto

definition ok_or :: "'a option \<Rightarrow> 'e \<Rightarrow> ('e, 'a) result" where
  "ok_or x e = (case x of None \<Rightarrow> Inl e | Some a \<Rightarrow> Inr a)"

lemma ok_or_simps [simp]:
  "ok_or None e = Inl e"
  "ok_or (Some a) e = Inr a"
  by (simp_all add: ok_or_def)

definition unwrap_or :: "'a option \<Rightarrow> 'a \<Rightarrow> 'a" where
  "unwrap_or x d = (case x of None \<Rightarrow> d | Some a \<Rightarrow> a)"

lemma unwrap_or_simps [simp]:
  "unwrap_or None d = d"
  "unwrap_or (Some a) d = a"
  by (simp_all add: unwrap_or_def)

text \<open>
  The \<open>?\<close> operator inside a loop over a list: the results of the items in order, or the first
  error.
\<close>

fun collect_results :: "('a \<Rightarrow> ('e, 'b) result) \<Rightarrow> 'a list \<Rightarrow> ('e, 'b list) result" where
  "collect_results f [] = Inr []"
| "collect_results f (x # xs) =
     bind_result (f x) (\<lambda>y. bind_result (collect_results f xs) (\<lambda>ys. Inr (y # ys)))"

lemma collect_results_Inr:
  "collect_results f xs = Inr ys \<longleftrightarrow> list_all2 (\<lambda>x y. f x = Inr y) xs ys"
proof (induction xs arbitrary: ys)
  case (Cons x xs)
  then show ?case by (auto simp: bind_result_Inr_iff list_all2_Cons1)
qed auto

section \<open>Lists\<close>

text \<open>\<open>Vec::dedup\<close>: drop an element equal to its predecessor.\<close>

fun dedup :: "'a list \<Rightarrow> 'a list" where
  "dedup [] = []"
| "dedup [x] = [x]"
| "dedup (x # y # ys) = (if x = y then dedup (y # ys) else x # dedup (y # ys))"

lemma set_dedup [simp]: "set (dedup xs) = set xs"
  by (induction xs rule: dedup.induct) auto

lemma dedup_hd: "xs \<noteq> [] \<Longrightarrow> dedup xs \<noteq> [] \<and> hd (dedup xs) = hd xs"
  by (induction xs rule: dedup.induct) auto

lemma distinct_dedup_sorted: "sorted xs \<Longrightarrow> distinct (dedup xs)"
proof (induction xs rule: dedup.induct)
  case (3 x y ys)
  show ?case
  proof (cases "x = y")
    case True
    with 3 show ?thesis by simp
  next
    case False
    with "3.prems" have "x \<notin> set (y # ys)" by fastforce
    with False 3 show ?thesis by simp
  qed
qed simp_all

lemma sorted_dedup: "sorted xs \<Longrightarrow> sorted (dedup xs)"
  by (induction xs rule: dedup.induct) auto

text \<open>\<open>iter().position(p)\<close>: index of the first element that satisfies \<open>p\<close>.\<close>

fun position :: "('a \<Rightarrow> bool) \<Rightarrow> 'a list \<Rightarrow> nat option" where
  "position p [] = None"
| "position p (x # xs) = (if p x then Some 0 else map_option Suc (position p xs))"

lemma position_Some:
  "position p xs = Some i \<Longrightarrow> i < length xs \<and> p (xs ! i) \<and> (\<forall>j < i. \<not> p (xs ! j))"
proof (induction xs arbitrary: i)
  case (Cons x xs)
  then show ?case by (auto split: if_splits simp: less_Suc_eq_0_disj nth_Cons split: nat.split)
qed simp

lemma position_None: "position p xs = None \<longleftrightarrow> (\<forall>x \<in> set xs. \<not> p x)"
  by (induction xs) auto

text \<open>\<open>iter().find_map(id)\<close>: the first value present.\<close>

fun first_some :: "'a option list \<Rightarrow> 'a option" where
  "first_some [] = None"
| "first_some (None # xs) = first_some xs"
| "first_some (Some a # xs) = Some a"

lemma first_some_in: "first_some xs = Some a \<Longrightarrow> Some a \<in> set xs"
  by (induction xs rule: first_some.induct) auto

text \<open>\<open>iter().get(i)\<close>.\<close>

definition get :: "'a list \<Rightarrow> nat \<Rightarrow> 'a option" where
  "get xs i = (if i < length xs then Some (xs ! i) else None)"

lemma position_get:
  "position p xs = Some i \<Longrightarrow> \<exists>x. get xs i = Some x \<and> p x"
  by (auto simp: get_def dest: position_Some)

text \<open>Update of the first element that satisfies a predicate (\<open>iter_mut().find\<close>).\<close>

fun update_first :: "('a \<Rightarrow> bool) \<Rightarrow> ('a \<Rightarrow> 'a) \<Rightarrow> 'a list \<Rightarrow> 'a list" where
  "update_first p f [] = []"
| "update_first p f (x # xs) = (if p x then f x # xs else x # update_first p f xs)"

lemma length_update_first [simp]: "length (update_first p f xs) = length xs"
  by (induction xs) auto

lemma update_first_None: "\<not> (\<exists>x \<in> set xs. p x) \<Longrightarrow> update_first p f xs = xs"
  by (induction xs) auto

lemma map_update_first:
  "(\<And>x. g (f x) = g x) \<Longrightarrow> map g (update_first p f xs) = map g xs"
  by (induction xs) auto

lemma set_update_first: "set (update_first p f xs) \<subseteq> set xs \<union> f ` {x \<in> set xs. p x}"
  by (induction xs) auto

end
