(* ===== verification/Rust_Text.thy ===== *)
theory Rust_Text
  imports Prelude
begin

text \<open>
  The string operations of Rust's standard library that the sources use, on \<open>string\<close>
  (a list of bytes). Sources handled by the pipeline are taken to be ASCII: \<open>is_whitespace\<close>,
  \<open>is_alphanumeric\<close>, \<open>is_uppercase\<close> and \<open>to_lowercase\<close> are the ASCII cases of the Unicode
  predicates, and character and byte indices agree. Searching, splitting, replacing and joining
  are byte-wise in Rust as well, so they hold for any UTF-8 text.
\<close>

named_theorems text_simps \<open>unfolding the string operations on concrete text\<close>

section \<open>Characters\<close>

definition newline :: char where "newline = CHR 0x0A"
definition cr :: char where "cr = CHR 0x0D"
definition quote :: char where "quote = CHR 0x22"
definition backslash :: char where "backslash = CHR 0x5C"
definition em_dash :: string where "em_dash = [CHR 0xE2, CHR 0x80, CHR 0x94]"
definition backtick :: char where "backtick = CHR 0x60"

definition is_whitespace :: "char \<Rightarrow> bool" where
  "is_whitespace c = (let n = of_char c :: nat in (9 \<le> n \<and> n \<le> 13) \<or> n = 32)"

definition is_digit :: "char \<Rightarrow> bool" where
  "is_digit c = (let n = of_char c :: nat in 48 \<le> n \<and> n \<le> 57)"

definition is_uppercase :: "char \<Rightarrow> bool" where
  "is_uppercase c = (let n = of_char c :: nat in 65 \<le> n \<and> n \<le> 90)"

definition is_lowercase :: "char \<Rightarrow> bool" where
  "is_lowercase c = (let n = of_char c :: nat in 97 \<le> n \<and> n \<le> 122)"

definition is_alphanumeric :: "char \<Rightarrow> bool" where
  "is_alphanumeric c = (is_digit c \<or> is_uppercase c \<or> is_lowercase c)"

definition is_word_char :: "char \<Rightarrow> bool" where
  "is_word_char c = (is_alphanumeric c \<or> c = CHR ''_'')"

definition lower_char :: "char \<Rightarrow> char" where
  "lower_char c = (if is_uppercase c then char_of (of_char c + 32 :: nat) else c)"

definition to_lowercase :: "string \<Rightarrow> string" where
  "to_lowercase s = map lower_char s"

section \<open>Searching\<close>

fun starts_with :: "string \<Rightarrow> string \<Rightarrow> bool" where
  "starts_with s [] = True"
| "starts_with [] (p # ps) = False"
| "starts_with (c # cs) (p # ps) = (c = p \<and> starts_with cs ps)"

lemma starts_with_iff: "starts_with s p \<longleftrightarrow> (\<exists>t. s = p @ t)"
  by (induction s p rule: starts_with.induct) auto

lemma starts_with_append [simp]: "starts_with (p @ t) p"
  by (auto simp: starts_with_iff)

lemma starts_with_take: "starts_with s p \<longleftrightarrow> take (length p) s = p"
  by (induction s p rule: starts_with.induct) auto

definition ends_with :: "string \<Rightarrow> string \<Rightarrow> bool" where
  "ends_with s p = starts_with (rev s) (rev p)"

definition strip_prefix :: "string \<Rightarrow> string \<Rightarrow> string option" where
  "strip_prefix s p = (if starts_with s p then Some (drop (length p) s) else None)"

definition strip_suffix :: "string \<Rightarrow> string \<Rightarrow> string option" where
  "strip_suffix s p = (if ends_with s p then Some (take (length s - length p) s) else None)"

lemma strip_prefix_Some: "strip_prefix s p = Some t \<longleftrightarrow> s = p @ t"
  by (auto simp: strip_prefix_def starts_with_iff split: if_splits)

fun contains :: "string \<Rightarrow> string \<Rightarrow> bool" where
  "contains [] p = (p = [])"
| "contains (c # cs) p = (starts_with (c # cs) p \<or> contains cs p)"

lemma contains_iff: "contains s p \<longleftrightarrow> (\<exists>u v. s = u @ p @ v)"
proof (induction s)
  case (Cons c cs)
  show ?case
  proof
    assume "contains (c # cs) p"
    then consider "starts_with (c # cs) p" | "contains cs p" by auto
    then show "\<exists>u v. c # cs = u @ p @ v"
    proof cases
      case 1
      then show ?thesis by (metis append_Nil starts_with_iff)
    next
      case 2
      with Cons.IH show ?thesis by (metis append_Cons)
    qed
  next
    assume "\<exists>u v. c # cs = u @ p @ v"
    then obtain u v where uv: "c # cs = u @ p @ v" by blast
    show "contains (c # cs) p"
    proof (cases u)
      case Nil
      with uv show ?thesis by (metis append_Nil contains.simps(2) starts_with_append)
    next
      case (Cons a as)
      with uv \<open>contains cs p = (\<exists>u v. cs = u @ p @ v)\<close> show ?thesis by auto
    qed
  qed
qed simp

lemma contains_prepend: "contains s p \<Longrightarrow> contains (a @ s) p"
  by (metis append.assoc contains_iff)

lemma contains_append: "contains s p \<Longrightarrow> contains (s @ b) p"
  by (metis append.assoc contains_iff)

lemma contains_infix: "contains (a @ p @ b) p"
  by (auto simp: contains_iff)

fun find_str :: "string \<Rightarrow> string \<Rightarrow> nat option" where
  "find_str [] p = (if p = [] then Some 0 else None)"
| "find_str (c # cs) p =
     (if starts_with (c # cs) p then Some 0 else map_option Suc (find_str cs p))"

definition find_char :: "string \<Rightarrow> char \<Rightarrow> nat option" where
  "find_char s c = position (\<lambda>x. x = c) s"

lemma find_str_contains: "find_str s p = None \<longleftrightarrow> \<not> contains s p"
  by (induction s) auto

lemma find_str_Some:
  "find_str s p = Some i \<Longrightarrow> i + length p \<le> length s \<and> take (length p) (drop i s) = p"
proof (induction s arbitrary: i)
  case (Cons c cs)
  show ?case
  proof (cases "starts_with (c # cs) p")
    case True
    with Cons.prems have "i = 0" by simp
    moreover obtain t where "c # cs = p @ t" using True by (auto simp: starts_with_iff)
    ultimately show ?thesis by simp
  next
    case False
    with Cons show ?thesis by auto
  qed
qed (auto split: if_splits)

text \<open>
  \<open>s.matches(p).count()\<close> and \<open>s.replace(p, r)\<close>: non-overlapping matches from the left, for a
  non-empty pattern. The patterns of the sources are never empty; Rust's \<open>replace("", r)\<close> is
  written out for completeness.
\<close>

function count_matches :: "string \<Rightarrow> string \<Rightarrow> nat" where
  "count_matches s p =
     (if p = [] then Suc (length s)
      else if s = [] then 0
      else if starts_with s p then Suc (count_matches (drop (length p) s) p)
      else count_matches (tl s) p)"
  by pat_completeness auto
termination
  by (relation "measure (\<lambda>(s, p). length s)") auto

declare count_matches.simps [simp del]

lemma count_matches_Nil [simp]: "p \<noteq> [] \<Longrightarrow> count_matches [] p = 0"
  by (simp add: count_matches.simps)

lemma count_matches_le: "p \<noteq> [] \<Longrightarrow> count_matches s p \<le> length s"
proof (induction s p rule: count_matches.induct)
  case (1 s p)
  show ?case
  proof (cases "s = []")
    case True
    with "1.prems" show ?thesis by simp
  next
    case False
    show ?thesis
    proof (cases "starts_with s p")
      case True
      with False 1 have "count_matches (drop (length p) s) p \<le> length s - length p" by fastforce
      moreover have "0 < length p" "0 < length s" using "1.prems" False by auto
      ultimately have "Suc (count_matches (drop (length p) s) p) \<le> length s" by linarith
      then show ?thesis
        using True False "1.prems" by (simp add: count_matches.simps [of s p])
    next
      case nsw: False
      with False 1 have "count_matches (tl s) p \<le> length s - 1" by fastforce
      with nsw False "1.prems" show ?thesis by (simp add: count_matches.simps [of s p])
    qed
  qed
qed

function replace_all :: "string \<Rightarrow> string \<Rightarrow> string \<Rightarrow> string" where
  "replace_all s p r =
     (if p = [] then r @ concat (map (\<lambda>c. c # r) s)
      else if s = [] then []
      else if starts_with s p then r @ replace_all (drop (length p) s) p r
      else hd s # replace_all (tl s) p r)"
  by pat_completeness auto
termination
  by (relation "measure (\<lambda>(s, p, r). length s)") auto

declare replace_all.simps [simp del]

lemma replace_all_absent: "p \<noteq> [] \<Longrightarrow> \<not> contains s p \<Longrightarrow> replace_all s p r = s"
proof (induction s)
  case Nil
  then show ?case by (simp add: replace_all.simps)
next
  case (Cons c cs)
  then show ?case by (simp add: replace_all.simps [of "c # cs"])
qed

text \<open>\<open>s.replacen(p, r, 1)\<close>.\<close>

definition replace_first :: "string \<Rightarrow> string \<Rightarrow> string \<Rightarrow> string" where
  "replace_first s p r =
     (case find_str s p of None \<Rightarrow> s
      | Some i \<Rightarrow> take i s @ r @ drop (i + length p) s)"

section \<open>Trimming, splitting, joining\<close>

definition trim_start :: "string \<Rightarrow> string" where
  "trim_start s = dropWhile is_whitespace s"

definition trim_end :: "string \<Rightarrow> string" where
  "trim_end s = rev (dropWhile is_whitespace (rev s))"

definition trim :: "string \<Rightarrow> string" where
  "trim s = trim_end (trim_start s)"

definition trim_end_matches :: "(char \<Rightarrow> bool) \<Rightarrow> string \<Rightarrow> string" where
  "trim_end_matches p s = rev (dropWhile p (rev s))"

definition trim_start_matches :: "(char \<Rightarrow> bool) \<Rightarrow> string \<Rightarrow> string" where
  "trim_start_matches p s = dropWhile p s"

definition is_blank :: "string \<Rightarrow> bool" where
  "is_blank s = (trim s = [])"

lemma trim_eq_Nil: "trim s = [] \<longleftrightarrow> list_all is_whitespace s"
proof -
  have "trim_end t = [] \<longleftrightarrow> list_all is_whitespace t" for t
    by (simp add: trim_end_def dropWhile_eq_Nil_conv list_all_iff)
  moreover have "list_all is_whitespace (trim_start s) \<longleftrightarrow> list_all is_whitespace s"
    by (induction s) (auto simp: trim_start_def)
  ultimately show ?thesis by (simp add: trim_def)
qed

lemma length_trim: "length (trim s) \<le> length s"
proof -
  have "length (trim_end t) \<le> length t" for t
    unfolding trim_end_def using length_dropWhile_le [of is_whitespace "rev t"] by simp
  moreover have "length (trim_start s) \<le> length s"
    unfolding trim_start_def by (rule length_dropWhile_le)
  ultimately show ?thesis unfolding trim_def by (meson le_trans)
qed

text \<open>\<open>s.lines()\<close>: a final empty line is dropped; \<open>\r\<close> before \<open>\n\<close> is part of the ending.\<close>

definition strip_cr :: "string \<Rightarrow> string" where
  "strip_cr l = (if l \<noteq> [] \<and> last l = cr then butlast l else l)"

function lines :: "string \<Rightarrow> string list" where
  "lines s =
     (if s = [] then []
      else (case dropWhile (\<lambda>c. c \<noteq> newline) s of
              [] \<Rightarrow> [s]
            | _ # rest \<Rightarrow> strip_cr (takeWhile (\<lambda>c. c \<noteq> newline) s) # lines rest))"
  by pat_completeness auto
termination
proof (relation "measure length", goal_cases)
  case (2 s x rest)
  then have "length (x # rest) \<le> length s"
    using length_dropWhile_le [of "\<lambda>c. c \<noteq> newline" s] by simp
  then show ?case by simp
qed simp

declare lines.simps [simp del]

text \<open>
  The loop of \<open>lines\<close> in terms of the first newline, used by the proofs below.
\<close>

lemma first_newline:
  "newline \<notin> set s \<and> dropWhile (\<lambda>c. c \<noteq> newline) s = [] \<or>
   (\<exists>l r. newline \<notin> set l \<and> s = l @ newline # r \<and>
     dropWhile (\<lambda>c. c \<noteq> newline) s = newline # r \<and> takeWhile (\<lambda>c. c \<noteq> newline) s = l)"
proof (induction s)
  case (Cons c cs)
  show ?case
  proof (cases "c = newline")
    case False
    from Cons.IH show ?thesis
    proof (elim disjE exE conjE, goal_cases)
      case 1
      with False show ?case by auto
    next
      case (2 l r)
      then show ?case
        using False by (intro disjI2 exI [of _ "c # l"] exI [of _ r]) auto
    qed
  qed auto
qed simp

lemma lines_Nil [simp]: "lines [] = []"
  by (simp add: lines.simps)

lemma lines_eq_Nil [simp]: "lines s = [] \<longleftrightarrow> s = []"
  by (subst lines.simps) (auto split: list.splits)

lemma lines_no_newline: "s \<noteq> [] \<Longrightarrow> newline \<notin> set s \<Longrightarrow> lines s = [s]"
  using first_newline [of s] by (subst lines.simps) (metis in_set_conv_decomp list.simps(4))

lemma takeWhile_newline:
  "newline \<notin> set l \<Longrightarrow> takeWhile (\<lambda>c. c \<noteq> newline) (l @ newline # r) = l"
  by (induction l) auto

lemma dropWhile_newline:
  "newline \<notin> set l \<Longrightarrow> dropWhile (\<lambda>c. c \<noteq> newline) (l @ newline # r) = newline # r"
  by (induction l) auto

lemma lines_append_newline:
  "newline \<notin> set l \<Longrightarrow> lines (l @ newline # rest) = strip_cr l # lines rest"
  by (subst lines.simps) (simp add: takeWhile_newline dropWhile_newline)

lemma lines_cases [case_names Nil Single Newline]:
  obtains "s = []"
  | "s \<noteq> []" "newline \<notin> set s" "lines s = [s]"
  | l r where "newline \<notin> set l" "s = l @ newline # r" "lines s = strip_cr l # lines r"
  using first_newline [of s] by (metis lines_append_newline lines_no_newline)

text \<open>Induction along the lines of a text.\<close>

lemma lines_induct [case_names Nil Single Newline]:
  assumes "P []"
    and "\<And>s. s \<noteq> [] \<Longrightarrow> newline \<notin> set s \<Longrightarrow> P s"
    and "\<And>l r. newline \<notin> set l \<Longrightarrow> P r \<Longrightarrow> P (l @ newline # r)"
  shows "P s"
proof (induction s rule: length_induct)
  case (1 s)
  show ?case
  proof (cases s rule: lines_cases)
    case Newline
    with 1 assms(3) show ?thesis by (metis add_Suc_right le_add2 length_Cons length_append less_Suc_eq_le)
  qed (use assms(1,2) in auto)
qed

lemma lines_no_newline_in: "l \<in> set (lines s) \<Longrightarrow> newline \<notin> set l"
proof (induction s rule: lines_induct)
  case (Newline k r)
  then show ?case
    by (auto simp: lines_append_newline strip_cr_def split: if_splits dest: in_set_butlastD)
qed (auto simp: lines_no_newline)

text \<open>\<open>xs.join(sep)\<close>.\<close>

fun join :: "string \<Rightarrow> string list \<Rightarrow> string" where
  "join sep [] = []"
| "join sep [x] = x"
| "join sep (x # y # ys) = x @ sep @ join sep (y # ys)"

abbreviation unlines :: "string list \<Rightarrow> string" where
  "unlines \<equiv> join [newline]"

lemma join_Cons: "xs \<noteq> [] \<Longrightarrow> join sep (x # xs) = x @ sep @ join sep xs"
  by (cases xs) auto

lemma join_append:
  "xs \<noteq> [] \<Longrightarrow> ys \<noteq> [] \<Longrightarrow> join sep (xs @ ys) = join sep xs @ sep @ join sep ys"
proof (induction xs)
  case (Cons x xs)
  then show ?case by (cases "xs = []") (auto simp: join_Cons)
qed simp

text \<open>
  A list of lines survives printing with \<open>join("\n")\<close> and reading back with \<open>lines()\<close> when no
  line holds a line ending and the last line is not empty.
\<close>

definition plain_line :: "string \<Rightarrow> bool" where
  "plain_line l = (newline \<notin> set l \<and> (l = [] \<or> last l \<noteq> cr))"

lemma strip_cr_plain [simp]: "plain_line l \<Longrightarrow> strip_cr l = l"
  by (auto simp: strip_cr_def plain_line_def)

lemma lines_unlines:
  "list_all plain_line ls \<Longrightarrow> ls = [] \<or> last ls \<noteq> [] \<Longrightarrow> lines (unlines ls) = ls"
proof (induction ls)
  case (Cons x xs)
  show ?case
  proof (cases "xs = []")
    case True
    with Cons.prems show ?thesis by (simp add: lines_no_newline plain_line_def)
  next
    case False
    with Cons.prems have "newline \<notin> set x" and sx: "strip_cr x = x"
      by (auto simp: plain_line_def strip_cr_def)
    then have "lines (x @ newline # unlines xs) = x # lines (unlines xs)"
      by (simp add: lines_append_newline)
    with Cons False show ?thesis by (simp add: join_Cons)
  qed
qed simp

text \<open>\<open>s.split(c)\<close> on a character: always at least one piece.\<close>

fun split_char :: "char \<Rightarrow> string \<Rightarrow> string list" where
  "split_char d [] = [[]]"
| "split_char d (c # cs) =
     (if c = d then [] # split_char d cs
      else (case split_char d cs of [] \<Rightarrow> [[c]] | p # ps \<Rightarrow> (c # p) # ps))"

lemma split_char_not_Nil [simp]: "split_char d s \<noteq> []"
  by (cases s) (auto split: list.splits)

lemma join_split_char: "join [d] (split_char d s) = s"
proof (induction s)
  case (Cons c cs)
  then show ?case
    by (cases "split_char d cs") (auto simp: join_Cons, cases "tl (split_char d cs)", auto)
qed simp

text \<open>\<open>s.split_whitespace()\<close>: maximal runs of non-whitespace.\<close>

function split_whitespace :: "string \<Rightarrow> string list" where
  "split_whitespace s =
     (case dropWhile is_whitespace s of
        [] \<Rightarrow> []
      | c # cs \<Rightarrow> takeWhile (\<lambda>x. \<not> is_whitespace x) (c # cs)
                  # split_whitespace (dropWhile (\<lambda>x. \<not> is_whitespace x) (c # cs)))"
  by pat_completeness auto
termination
proof (relation "measure length", goal_cases)
  case (2 s c cs)
  then have "length (c # cs) \<le> length s"
    by (metis length_dropWhile_le)
  moreover have "\<not> is_whitespace c"
    using 2 by (metis hd_dropWhile list.distinct(1) list.sel(1))
  moreover have "length (dropWhile (\<lambda>x. \<not> is_whitespace x) cs) \<le> length cs"
    by (rule length_dropWhile_le)
  ultimately show ?case by simp
qed simp

declare split_whitespace.simps [simp del]

lemma split_whitespace_words:
  "w \<in> set (split_whitespace s) \<Longrightarrow> w \<noteq> [] \<and> (\<forall>c \<in> set w. \<not> is_whitespace c)"
proof (induction s rule: split_whitespace.induct)
  case (1 s)
  show ?case
  proof (cases "dropWhile is_whitespace s")
    case Nil
    with "1.prems" show ?thesis by (simp add: split_whitespace.simps [of s])
  next
    case (Cons c cs)
    have nw: "\<not> is_whitespace c"
      using Cons by (metis hd_dropWhile list.distinct(1) list.sel(1))
    let ?w = "takeWhile (\<lambda>x. \<not> is_whitespace x) (c # cs)"
    have "?w \<noteq> [] \<and> (\<forall>c \<in> set ?w. \<not> is_whitespace c)"
      using nw by (auto dest: set_takeWhileD)
    moreover have "w = ?w \<or> w \<in> set (split_whitespace (dropWhile (\<lambda>x. \<not> is_whitespace x) (c # cs)))"
      using "1.prems" Cons by (subst (asm) split_whitespace.simps) auto
    ultimately show ?thesis using "1.IH" [OF Cons] by metis
  qed
qed

section \<open>Line counts\<close>

text \<open>\<open>s.lines().filter(|l| !l.trim().is_empty()).count()\<close>.\<close>

definition nonblank_line_count :: "string \<Rightarrow> nat" where
  "nonblank_line_count s = length (filter (\<lambda>l. \<not> is_blank l) (lines s))"

definition line_count_of :: "string \<Rightarrow> nat" where
  "line_count_of s = length (lines s)"

lemma nonblank_le_lines: "nonblank_line_count s \<le> line_count_of s"
  by (simp add: nonblank_line_count_def line_count_of_def)

text \<open>Decimal printing of a \<open>usize\<close>/\<open>u32\<close> (\<open>format!("{n}")\<close>).\<close>

fun show_nat :: "nat \<Rightarrow> string" where
  "show_nat n = (if n < 10 then [char_of (48 + n)] else show_nat (n div 10) @ [char_of (48 + n mod 10)])"

declare show_nat.simps [simp del]

text \<open>The same for a signed integer, and \<open>{:?}\<close> of a string: quotes and escapes.\<close>

definition show_int :: "int \<Rightarrow> string" where
  "show_int i = (if i < 0 then CHR ''-'' # show_nat (nat (- i)) else show_nat (nat i))"

fun hex_digits :: "nat \<Rightarrow> string" where
  "hex_digits n = (if n < 16 then [''0123456789abcdef'' ! n]
     else hex_digits (n div 16) @ [''0123456789abcdef'' ! (n mod 16)])"

declare hex_digits.simps [simp del]

definition escape_debug :: "char \<Rightarrow> string" where
  "escape_debug c =
     (let n = of_char c :: nat
      in if n = 0 then [backslash, CHR ''0'']
         else if n = 9 then [backslash, CHR ''t'']
         else if n = 10 then [backslash, CHR ''n'']
         else if n = 13 then [backslash, CHR ''r'']
         else if c = backslash \<or> c = quote then [backslash, c]
         else if n < 32 \<or> n = 127 then [backslash] @ ''u{'' @ hex_digits n @ ''}''
         else [c])"

definition debug_str :: "string \<Rightarrow> string" where
  "debug_str s = [quote] @ concat (map escape_debug s) @ [quote]"

text \<open>\<open>trim_start_matches\<close> and \<open>trim_end_matches\<close> with a string: it is removed as often as it is there.\<close>

function strip_prefixes :: "string \<Rightarrow> string \<Rightarrow> string" where
  "strip_prefixes p s = (if p \<noteq> [] \<and> starts_with s p then strip_prefixes p (drop (length p) s) else s)"
  by pat_completeness auto
termination
  by (relation "measure (\<lambda>(p, s). length s)") (auto simp: starts_with_iff)

declare strip_prefixes.simps [simp del]

definition strip_suffixes :: "string \<Rightarrow> string \<Rightarrow> string" where
  "strip_suffixes p s = rev (strip_prefixes (rev p) (rev s))"

end
