(* ===== verification/Diff_Test.thy ===== *)
theory Diff_Test
  imports Rust_Text
begin

text \<open>
  Differential testing (\<open>crates/noricum-tools/src/diff_test.rs\<close>, \<open>multi_input_test.rs\<close>): both
  programs are compiled, both are run, and standard output and exit codes are compared. The C and
  Rust compilers, the file system and the child processes are not part of the sources; they are
  the fields of the record \<open>toolchain\<close>, an argument of every operation that uses them. The
  waiting loop of \<open>run_exe\<close>, which polls the child until it exits or the ten second limit is
  passed, is modelled with the time of each poll written out.
\<close>

section \<open>Errors, outputs, results\<close>

datatype tool_error =
    C2RustFailed string
  | CompilationFailed string
  | CommandNotFound string
  | Io string
  | Timeout u64

fun show_tool_error :: "tool_error \<Rightarrow> string" where
  "show_tool_error (C2RustFailed s) = ''C2Rust transpilation failed: '' @ s"
| "show_tool_error (CompilationFailed s) = ''compilation failed: '' @ s"
| "show_tool_error (CommandNotFound s) = ''command not found: '' @ s"
| "show_tool_error (Io s) = ''I/O error: '' @ s"
| "show_tool_error (Timeout n) = ''execution timed out after '' @ show_nat (unat n) @ ''s''"

record exec_output =
  stdout :: string
  stderr :: string
  exit_code :: i32

record diff_test_result =
  dt_passed :: bool
  c_output :: string
  rust_stdout :: string
  c_compiled :: bool
  rust_compiled :: bool
  c_exit_code :: i32
  rust_exit_code :: i32
  c_stderr :: string
  rust_stderr :: string

text \<open>
  A child process: what \<open>try_wait\<close> answers at each poll (an error, still running, or an exit
  status whose code is missing when a signal killed it) and what its pipes deliver.
\<close>

record child =
  try_wait :: "nat \<Rightarrow> (string, i32 option option) result"
  child_stdout :: string
  child_stderr :: string

record 'exe toolchain =
  write_sources :: "string \<Rightarrow> string \<Rightarrow> (tool_error, unit) result"
  cc_output :: "string \<Rightarrow> 'exe option option"
  rustc_output :: "string \<Rightarrow> 'exe option option"
  spawn :: "'exe \<Rightarrow> string option \<Rightarrow> string list \<Rightarrow> (string, child) result"

section \<open>Compiling and running\<close>

definition compile_c_exe :: "'exe toolchain \<Rightarrow> string \<Rightarrow> (tool_error, 'exe option) result" where
  "compile_c_exe tc src = ok_or (cc_output tc src) (CommandNotFound ''cc'')"

definition compile_rust_exe :: "'exe toolchain \<Rightarrow> string \<Rightarrow> (tool_error, 'exe option) result" where
  "compile_rust_exe tc src = ok_or (rustc_output tc src) (CommandNotFound ''rustc'')"

definition run_timeout_secs :: u64 where
  "run_timeout_secs = 10"

text \<open>
  The polling loop: poll number \<open>k\<close> happens after \<open>k\<close> sleeps of 50 ms. It stops at the first poll
  that reports an exit status or an error, and at the first one made after the time limit.
\<close>

function wait_child :: "child \<Rightarrow> nat \<Rightarrow> (tool_error, exec_output) result" where
  "wait_child ch k =
     (case try_wait ch k of
        Inl e \<Rightarrow> Inl (Io e)
      | Inr (Some code) \<Rightarrow> Inr \<lparr>stdout = child_stdout ch, stderr = child_stderr ch,
                             exit_code = unwrap_or code (-1)\<rparr>
      | Inr None \<Rightarrow> if unat run_timeout_secs * 1000 < 50 * k then Inl (Timeout run_timeout_secs)
                   else wait_child ch (Suc k))"
  by pat_completeness auto
termination
  by (relation "measure (\<lambda>(ch, k). 1000 - k)") (auto simp: run_timeout_secs_def)

declare wait_child.simps [simp del]

definition run_exe ::
  "'exe toolchain \<Rightarrow> 'exe \<Rightarrow> string option \<Rightarrow> string list \<Rightarrow> (tool_error, exec_output) result" where
  "run_exe tc exe stdin_input args =
     (case spawn tc exe stdin_input args of
        Inl e \<Rightarrow> Inl (Io e)
      | Inr ch \<Rightarrow> wait_child ch 0)"

section \<open>Comparing outputs\<close>

text \<open>
  \<open>approximate_match\<close>. The floating point numbers are a parameter: \<open>parse_f64\<close> for
  \<open>str::parse::<f64>\<close> and \<open>far eps a b\<close> for \<open>(a - b).abs() > eps\<close>.
\<close>

fun lines_match ::
  "(string \<Rightarrow> 'f option) \<Rightarrow> ('f \<Rightarrow> 'f \<Rightarrow> bool) \<Rightarrow> string list \<Rightarrow> string list \<Rightarrow> bool" where
  "lines_match parse_f64 far_apart (al # als) (bl # bls) =
     (case (parse_f64 (trim al), parse_f64 (trim bl)) of
        (Some af, Some bf) \<Rightarrow>
          if far_apart af bf then False else lines_match parse_f64 far_apart als bls
      | _ \<Rightarrow> if al \<noteq> bl then False else lines_match parse_f64 far_apart als bls)"
| "lines_match parse_f64 far_apart _ _ = True"

definition approximate_match ::
  "(string \<Rightarrow> 'f option) \<Rightarrow> ('f \<Rightarrow> 'f \<Rightarrow> 'f \<Rightarrow> bool) \<Rightarrow> string \<Rightarrow> string \<Rightarrow> 'f \<Rightarrow> bool" where
  "approximate_match parse_f64 far a b eps =
     (let a_lines = lines a; b_lines = lines b
      in if length a_lines \<noteq> length b_lines then False
         else lines_match parse_f64 (far eps) a_lines b_lines)"

section \<open>Differential tests\<close>

definition compile_failure :: "bool \<Rightarrow> bool \<Rightarrow> diff_test_result" where
  "compile_failure c_ok rust_ok = \<lparr>dt_passed = False, c_output = [], rust_stdout = [],
     c_compiled = c_ok, rust_compiled = rust_ok, c_exit_code = 0, rust_exit_code = 0,
     c_stderr = [], rust_stderr = []\<rparr>"

definition compare_runs :: "(string \<Rightarrow> string \<Rightarrow> bool) \<Rightarrow> exec_output \<Rightarrow> exec_output \<Rightarrow> diff_test_result" where
  "compare_runs same c r =
     (let stdout_match = same (stdout c) (stdout r);
          exit_code_match = exit_code c = exit_code r
      in \<lparr>dt_passed = (stdout_match \<and> exit_code_match), c_output = stdout c, rust_stdout = stdout r,
          c_compiled = True, rust_compiled = True, c_exit_code = exit_code c,
          rust_exit_code = exit_code r, c_stderr = stderr c, rust_stderr = stderr r\<rparr>)"

text \<open>
  The comparison \<open>same\<close> is equality under the default options and \<open>approximate_match\<close> when
  \<open>float_tolerance\<close> is set.
\<close>

definition stdout_comparison ::
  "(string \<Rightarrow> 'f option) \<Rightarrow> ('f \<Rightarrow> 'f \<Rightarrow> 'f \<Rightarrow> bool) \<Rightarrow> 'f option \<Rightarrow> string \<Rightarrow> string \<Rightarrow> bool" where
  "stdout_comparison parse_f64 far float_tolerance a b =
     (case float_tolerance of
        Some eps \<Rightarrow> approximate_match parse_f64 far a b eps
      | None \<Rightarrow> a = b)"

definition run_diff_test_with_options ::
  "'exe toolchain \<Rightarrow> (string \<Rightarrow> string \<Rightarrow> bool) \<Rightarrow> string \<Rightarrow> string
   \<Rightarrow> (tool_error, diff_test_result) result" where
  "run_diff_test_with_options tc same c_src rust_src =
     bind_result (write_sources tc c_src rust_src) (\<lambda>_.
     bind_result (compile_c_exe tc c_src) (\<lambda>c_exe.
     bind_result (compile_rust_exe tc rust_src) (\<lambda>rs_exe.
       case (c_exe, rs_exe) of
         (Some ce, Some re) \<Rightarrow>
           bind_result (run_exe tc ce None []) (\<lambda>c_result.
           bind_result (run_exe tc re None []) (\<lambda>rust_result.
             Inr (compare_runs same c_result rust_result)))
       | _ \<Rightarrow> Inr (compile_failure (c_exe \<noteq> None) (rs_exe \<noteq> None)))))"

definition run_diff_test ::
  "'exe toolchain \<Rightarrow> string \<Rightarrow> string \<Rightarrow> (tool_error, diff_test_result) result" where
  "run_diff_test tc c_src rust_src = run_diff_test_with_options tc (=) c_src rust_src"

text \<open>The multi-input variant: one compilation, one comparison per input.\<close>

record test_input =
  input_label :: string
  input_stdin :: string
  input_args :: "string list"

record multi_input_result =
  multi_all_passed :: bool
  multi_results :: "(string \<times> diff_test_result) list"

definition stdin_of :: "string \<Rightarrow> string option" where
  "stdin_of s = (if s = [] then None else Some s)"

definition run_one ::
  "'exe toolchain \<Rightarrow> 'exe \<Rightarrow> 'exe \<Rightarrow> string \<Rightarrow> string option \<Rightarrow> string list
   \<Rightarrow> (tool_error, string \<times> diff_test_result) result" where
  "run_one tc c_exe rs_exe nm stdin_input args =
     bind_result (run_exe tc c_exe stdin_input args) (\<lambda>c_out.
     bind_result (run_exe tc rs_exe stdin_input args) (\<lambda>r_out.
       Inr (nm, compare_runs (=) c_out r_out)))"

definition run_multi_input_diff_test ::
  "'exe toolchain \<Rightarrow> string \<Rightarrow> string \<Rightarrow> test_input list \<Rightarrow> (tool_error, multi_input_result) result" where
  "run_multi_input_diff_test tc c_src rust_src inputs =
     bind_result (write_sources tc c_src rust_src) (\<lambda>_.
     bind_result (compile_c_exe tc c_src) (\<lambda>c_exe.
     bind_result (compile_rust_exe tc rust_src) (\<lambda>rs_exe.
       case (c_exe, rs_exe) of
         (Some ce, Some re) \<Rightarrow>
           bind_result
             (if inputs = [] then collect_results (\<lambda>nm. run_one tc ce re nm None []) [''default'']
              else collect_results
                     (\<lambda>i. run_one tc ce re (input_label i) (stdin_of (input_stdin i)) (input_args i))
                     inputs)
             (\<lambda>results. Inr \<lparr>multi_all_passed = list_all (\<lambda>(_, r). dt_passed r) results,
                             multi_results = results\<rparr>)
       | _ \<Rightarrow> Inr \<lparr>multi_all_passed = False,
                  multi_results = [(''compilation'', compile_failure (c_exe \<noteq> None) (rs_exe \<noteq> None))]\<rparr>)))"

section \<open>What a run and a test return\<close>

definition exit_report :: "child \<Rightarrow> (string, i32 option option) result \<Rightarrow> (tool_error, exec_output) result" where
  "exit_report ch r =
     (case r of
        Inl e \<Rightarrow> Inl (Io e)
      | Inr (Some code) \<Rightarrow> Inr \<lparr>stdout = child_stdout ch, stderr = child_stderr ch,
                             exit_code = unwrap_or code (-1)\<rparr>
      | Inr None \<Rightarrow> Inl (Timeout run_timeout_secs))"

lemma wait_child_from:
  "k \<le> 201 \<Longrightarrow> wait_child ch k =
     (case find (\<lambda>r. r \<noteq> Inr None) (map (try_wait ch) [k..<202]) of
        None \<Rightarrow> Inl (Timeout run_timeout_secs)
      | Some r \<Rightarrow> exit_report ch r)"
proof (induction "201 - k" arbitrary: k)
  case 0
  then have "k = 201" by simp
  then show ?case
    by (subst wait_child.simps)
       (auto simp: run_timeout_secs_def exit_report_def upt_rec split: sum.splits option.splits)
next
  case (Suc d)
  then have k: "k < 201" and ih: "wait_child ch (Suc k) =
     (case find (\<lambda>r. r \<noteq> Inr None) (map (try_wait ch) [Suc k..<202]) of
        None \<Rightarrow> Inl (Timeout run_timeout_secs) | Some r \<Rightarrow> exit_report ch r)"
    by auto
  have upt: "[k..<202] = k # [Suc k..<202]" using k by (simp add: upt_rec)
  show ?case
    using k
    by (subst wait_child.simps)
       (auto simp: ih upt run_timeout_secs_def exit_report_def split: sum.splits option.splits)
qed

text \<open>
  Running an executable always returns. At most 202 polls are made (one per 50 ms up to the
  ten second limit): the first that reports an exit status or an error decides the result, and
  when none does the result is the timeout error.
\<close>

theorem run_exe_bounded:
  "run_exe tc exe inp args =
     (case spawn tc exe inp args of
        Inl e \<Rightarrow> Inl (Io e)
      | Inr ch \<Rightarrow> (case find (\<lambda>r. r \<noteq> Inr None) (map (try_wait ch) [0..<202]) of
                     None \<Rightarrow> Inl (Timeout 10)
                   | Some r \<Rightarrow> exit_report ch r))"
  by (simp add: run_exe_def wait_child_from run_timeout_secs_def split: sum.splits option.splits)

definition same_behaviour :: "exec_output \<Rightarrow> exec_output \<Rightarrow> bool" where
  "same_behaviour c r = (stdout c = stdout r \<and> exit_code c = exit_code r)"

lemma compare_runs_passed [simp]:
  "dt_passed (compare_runs (=) c r) = same_behaviour c r"
  by (simp add: compare_runs_def same_behaviour_def Let_def)

lemma compile_failure_passed [simp]: "\<not> dt_passed (compile_failure a b)"
  by (simp add: compile_failure_def)

lemma run_diff_test_passed_iff_aux:
  "(\<exists>res. run_diff_test tc c_src rust_src = Inr res \<and> dt_passed res) \<longleftrightarrow>
   write_sources tc c_src rust_src = Inr () \<and>
    (\<exists>ce re c r. cc_output tc c_src = Some (Some ce) \<and> rustc_output tc rust_src = Some (Some re)
       \<and> run_exe tc ce None [] = Inr c \<and> run_exe tc re None [] = Inr r \<and> same_behaviour c r)"
  unfolding run_diff_test_def run_diff_test_with_options_def compile_c_exe_def compile_rust_exe_def
  by (auto simp: bind_result_Inr_iff ok_or_def split: option.splits)

text \<open>
  A differential test passes exactly when both programs compile and both runs end with
  equal standard output and equal exit codes; an error of a tool never yields a passed test.
\<close>

theorem run_diff_test_passed_iff:
  "(\<exists>res. run_diff_test tc c_src rust_src = Inr res \<and> dt_passed res) =
   (write_sources tc c_src rust_src = Inr () \<and>
    (\<exists>ce re c r. cc_output tc c_src = Some (Some ce) \<and> rustc_output tc rust_src = Some (Some re)
       \<and> run_exe tc ce None [] = Inr c \<and> run_exe tc re None [] = Inr r \<and> same_behaviour c r))"
  by (rule run_diff_test_passed_iff_aux)

lemma run_one_Inr:
  "run_one tc ce re nm si args = Inr y \<longleftrightarrow>
     (\<exists>c r. run_exe tc ce si args = Inr c \<and> run_exe tc re si args = Inr r
        \<and> y = (nm, compare_runs (=) c r))"
  by (auto simp: run_one_def bind_result_Inr_iff)

lemma run_multi_Inr:
  assumes "run_multi_input_diff_test tc c_src rust_src inputs = Inr m" "inputs \<noteq> []"
    and "cc_output tc c_src = Some (Some ce)" "rustc_output tc rust_src = Some (Some re)"
  shows "list_all2 (\<lambda>i y. run_one tc ce re (input_label i) (stdin_of (input_stdin i)) (input_args i)
            = Inr y) inputs (multi_results m)"
    and "multi_all_passed m = list_all (\<lambda>(_, r). dt_passed r) (multi_results m)"
  using assms
  by (auto simp: run_multi_input_diff_test_def compile_c_exe_def compile_rust_exe_def
      bind_result_Inr_iff collect_results_Inr)

text \<open>
  When a multi-input test over a non-empty list of inputs reports success, every input was
  run through both programs and behaved the same in both, and the report has one entry per
  input, in the order of the inputs.
\<close>

theorem multi_input_sound:
  assumes "run_multi_input_diff_test tc c_src rust_src inputs = Inr m"
    and "inputs \<noteq> []" and "multi_all_passed m"
    and "cc_output tc c_src = Some (Some ce)" and "rustc_output tc rust_src = Some (Some re)"
  shows "map fst (multi_results m) = map input_label inputs \<and>
     (\<forall>i \<in> set inputs. \<exists>c r. run_exe tc ce (stdin_of (input_stdin i)) (input_args i) = Inr c
        \<and> run_exe tc re (stdin_of (input_stdin i)) (input_args i) = Inr r \<and> same_behaviour c r)"
proof -
  note runs = run_multi_Inr(1) [OF assms(1,2,4,5)]
  have "list_all2 (\<lambda>i y. fst y = input_label i) inputs (multi_results m)"
    by (rule list_all2_mono [OF runs]) (auto simp: run_one_Inr)
  then have "map fst (multi_results m) = map input_label inputs"
    by (induction rule: list_all2_induct) auto
  moreover have "\<exists>c r. run_exe tc ce (stdin_of (input_stdin i)) (input_args i) = Inr c
      \<and> run_exe tc re (stdin_of (input_stdin i)) (input_args i) = Inr r \<and> same_behaviour c r"
    if "i \<in> set inputs" for i
  proof -
    from that obtain n where n: "n < length inputs" "i = inputs ! n" by (auto simp: in_set_conv_nth)
    with runs have y: "run_one tc ce re (input_label i) (stdin_of (input_stdin i)) (input_args i)
        = Inr (multi_results m ! n)" and len: "n < length (multi_results m)"
      by (auto simp: list_all2_conv_all_nth)
    have "dt_passed (snd (multi_results m ! n))"
      using assms(3) run_multi_Inr(2) [OF assms(1,2,4,5)] len
      by (auto simp: list_all_length case_prod_beta)
    with y show ?thesis by (auto simp: run_one_Inr)
  qed
  ultimately show ?thesis by blast
qed

text \<open>
  A concrete toolchain for the witnesses: every program compiles, and a run echoes its standard
  input, exits with code 0 and is seen to have exited at the third poll.
\<close>

definition echo_toolchain :: "string toolchain" where
  "echo_toolchain = \<lparr>write_sources = (\<lambda>_ _. Inr ()), cc_output = (\<lambda>s. Some (Some s)),
     rustc_output = (\<lambda>s. Some (Some s)),
     spawn = (\<lambda>exe i args. Inr \<lparr>try_wait = (\<lambda>k. if k < 2 then Inr None else Inr (Some (Some 0))),
                                 child_stdout = unwrap_or i [], child_stderr = []\<rparr>)\<rparr>"

lemma echo_run:
  "run_exe echo_toolchain exe i args = Inr \<lparr>stdout = unwrap_or i [], stderr = [], exit_code = 0\<rparr>"
  by (simp add: run_exe_def echo_toolchain_def wait_child.simps run_timeout_secs_def)

lemma echo_compiles:
  "write_sources echo_toolchain a b = Inr ()"
  "cc_output echo_toolchain a = Some (Some a)"
  "rustc_output echo_toolchain a = Some (Some a)"
  by (simp_all add: echo_toolchain_def)

theorem multi_input_sound_witness:
  "\<exists>c. run_exe echo_toolchain ''c'' (Some ''hi'') [''1''] = Inr c \<and> stdout c = ''hi''"
proof -
  let ?i = "\<lparr>input_label = ''a'', input_stdin = ''hi'', input_args = [''1'']\<rparr>"
  obtain m where m: "run_multi_input_diff_test echo_toolchain ''c'' ''r'' [?i] = Inr m"
    and passed: "multi_all_passed m"
    by (auto simp: run_multi_input_diff_test_def compile_c_exe_def compile_rust_exe_def echo_compiles
        run_one_def echo_run same_behaviour_def)
  have "\<exists>c r. run_exe echo_toolchain ''c'' (Some ''hi'') [''1''] = Inr c
      \<and> run_exe echo_toolchain ''r'' (Some ''hi'') [''1''] = Inr r \<and> same_behaviour c r"
    using multi_input_sound [OF m _ passed echo_compiles(2) echo_compiles(3)]
    by (simp add: stdin_of_def)
  then show ?thesis by (auto simp: echo_run)
qed

end
