(* ===== verification/Fuzz_Test.thy ===== *)
theory Fuzz_Test
  imports Diff_Test
begin

text \<open>
  Fuzz testing (\<open>crates/noricum-tools/src/fuzz_test.rs\<close>): detection of the input mode from the C
  text, generation of the inputs (edge cases, then random ones up to the iteration count) and the
  run that collects the divergences. The random generator \<open>SmallRng\<close>, a third-party package, is
  the record \<open>rng\<close> of its draws, threaded as a state; \<open>random_range\<close> panics on an empty range,
  so the model speaks of configurations whose ranges are not empty. The clock that seeds a run
  without a configured seed is an argument.
\<close>

section \<open>Configuration and input modes\<close>

record fuzz_config =
  iterations :: u32
  seed_opt :: "u64 option"
  max_string_len :: nat
  int_range :: "int \<times> int"
  include_edge_cases :: bool
  timeout_secs :: u64

definition fuzz_config_default :: fuzz_config where
  "fuzz_config_default = \<lparr>iterations = 100, seed_opt = None, max_string_len = 256,
     int_range = (-1000000, 1000000), include_edge_cases = True, timeout_secs = 5\<rparr>"

datatype input_type = IntInput | FloatInput | StringInput | CharInput

datatype input_mode =
    Args nat
  | Stdin "input_type list"
  | NoInput

definition detect_input_mode_ast :: "string \<Rightarrow> input_mode option" where
  "detect_input_mode_ast c_src =
     (let has_argc = contains c_src ''argc'' \<or> contains c_src ''argv'';
          has_scanf = contains c_src ''scanf'';
          has_fgets = contains c_src ''fgets'';
          has_getchar = contains c_src ''getchar'';
          has_stdin = has_scanf \<or> has_fgets \<or> has_getchar
      in if has_argc then
           (let atoi_count = count_matches c_src ''atoi'' + count_matches c_src ''atol''
                             + count_matches c_src ''strtol''
            in Some (Args (if 0 < atoi_count then atoi_count else 1)))
         else if has_stdin then
           (let hints =
              (if has_scanf then
                 (if contains c_src ''%d'' \<or> contains c_src ''%i'' then [IntInput] else [])
                 @ (if contains c_src ''%f'' \<or> contains c_src ''%lf'' then [FloatInput] else [])
                 @ (if contains c_src ''%s'' then [StringInput] else [])
                 @ (if contains c_src ''%c'' then [CharInput] else [])
               else [])
            in Some (Stdin (if hints = [] then [StringInput] else hints)))
         else Some NoInput)"

definition detect_input_mode_regex :: "string \<Rightarrow> input_mode" where
  "detect_input_mode_regex c_src =
     (if contains c_src ''argc'' \<or> contains c_src ''argv'' then Args 1
      else if contains c_src ''scanf'' \<or> contains c_src ''fgets'' \<or> contains c_src ''getchar''
      then Stdin [StringInput] else NoInput)"

definition detect_input_mode :: "string \<Rightarrow> input_mode" where
  "detect_input_mode c_src =
     (case detect_input_mode_ast c_src of Some mode \<Rightarrow> mode
      | None \<Rightarrow> detect_input_mode_regex c_src)"

section \<open>Generating inputs\<close>

record 'g rng =
  rng_i64 :: "'g \<Rightarrow> int \<Rightarrow> int \<Rightarrow> int \<times> 'g"
  rng_float_text :: "'g \<Rightarrow> string \<times> 'g"
  rng_usize :: "'g \<Rightarrow> nat \<Rightarrow> nat \<Rightarrow> nat \<times> 'g"
  rng_lowercase :: "'g \<Rightarrow> char \<times> 'g"

text \<open>\<open>(0..n).map(|_| draw(&mut rng)).collect()\<close>.\<close>

fun draw_many :: "('g \<Rightarrow> 'a \<times> 'g) \<Rightarrow> nat \<Rightarrow> 'g \<Rightarrow> 'a list \<times> 'g" where
  "draw_many draw 0 g = ([], g)"
| "draw_many draw (Suc n) g =
     (let (x, g1) = draw g; (xs, g2) = draw_many draw n g1 in (x # xs, g2))"

lemma length_draw_many [simp]: "length (fst (draw_many draw n g)) = n"
  by (induction n arbitrary: g) (auto simp: case_prod_beta Let_def)

lemma draw_many_all:
  "(\<And>g. P (fst (draw g))) \<Longrightarrow> x \<in> set (fst (draw_many draw n g)) \<Longrightarrow> P x"
  by (induction n arbitrary: g) (auto simp: case_prod_beta Let_def)

definition arg_input :: "string \<Rightarrow> string list \<Rightarrow> test_input" where
  "arg_input lbl as = \<lparr>input_label = lbl, input_stdin = [], input_args = as\<rparr>"

definition stdin_input :: "string \<Rightarrow> string \<Rightarrow> test_input" where
  "stdin_input lbl s = \<lparr>input_label = lbl, input_stdin = s, input_args = []\<rparr>"

definition arg_edge_cases :: "nat \<Rightarrow> test_input list" where
  "arg_edge_cases n =
     [arg_input ''zeros'' (replicate n ''0''),
      arg_input ''ones'' (replicate n ''1''),
      arg_input ''negative'' (replicate n ''-1''),
      arg_input ''max_i32'' (replicate n ''2147483647''),
      arg_input ''min_i32'' (replicate n ''-2147483648'')]"

definition stdin_edge_cases :: "test_input list" where
  "stdin_edge_cases =
     [stdin_input ''empty_stdin'' [],
      stdin_input ''zero'' (''0'' @ [newline]),
      stdin_input ''negative'' (''-1'' @ [newline])]"

fun hint_text :: "'g rng \<Rightarrow> fuzz_config \<Rightarrow> input_type \<Rightarrow> 'g \<Rightarrow> string \<times> 'g" where
  "hint_text r cfg IntInput g =
     (let (v, g1) = rng_i64 r g (fst (int_range cfg)) (snd (int_range cfg)) in (show_int v, g1))"
| "hint_text r cfg FloatInput g = rng_float_text r g"
| "hint_text r cfg StringInput g =
     (let (len, g1) = rng_usize r g 1 (min (max_string_len cfg) 32)
      in draw_many (rng_lowercase r) len g1)"
| "hint_text r cfg CharInput g = (let (c, g1) = rng_lowercase r g in ([c], g1))"

fun hint_texts :: "'g rng \<Rightarrow> fuzz_config \<Rightarrow> input_type list \<Rightarrow> 'g \<Rightarrow> string list \<times> 'g" where
  "hint_texts r cfg [] g = ([], g)"
| "hint_texts r cfg (h # hs) g =
     (let (s, g1) = hint_text r cfg h g; (ss, g2) = hint_texts r cfg hs g1 in (s # ss, g2))"

definition generate_stdin_input ::
  "'g rng \<Rightarrow> input_type list \<Rightarrow> fuzz_config \<Rightarrow> 'g \<Rightarrow> string \<times> 'g" where
  "generate_stdin_input r hints cfg g =
     (let (parts, g1) = hint_texts r cfg hints g in (join '' '' parts @ [newline], g1))"

definition label_random :: "('a \<Rightarrow> string \<Rightarrow> test_input) \<Rightarrow> 'a list \<Rightarrow> test_input list" where
  "label_random mk xs = map (\<lambda>(i, x). mk x (''random_'' @ show_nat i)) (enumerate 0 xs)"

lemma length_label_random [simp]: "length (label_random mk xs) = length xs"
  by (simp add: label_random_def)

definition generate_fuzz_inputs ::
  "'g rng \<Rightarrow> (u64 \<Rightarrow> 'g) \<Rightarrow> u64 \<Rightarrow> input_mode \<Rightarrow> fuzz_config \<Rightarrow> test_input list" where
  "generate_fuzz_inputs r seed_from_u64 now mode cfg =
     (let seed = unwrap_or (seed_opt cfg) now; g = seed_from_u64 seed
      in case mode of
           Args n \<Rightarrow>
             (let edge = (if include_edge_cases cfg then arg_edge_cases n else []);
                  remaining = saturating_sub (iterations cfg) (as_u32 (length edge));
                  draw_args = draw_many (\<lambda>g. let (v, g1) = rng_i64 r g (fst (int_range cfg))
                                                              (snd (int_range cfg))
                                            in (show_int v, g1)) n
              in edge @ label_random (\<lambda>as lbl. arg_input lbl as)
                          (fst (draw_many draw_args (unat remaining) g)))
         | Stdin hints \<Rightarrow>
             (let edge = (if include_edge_cases cfg then stdin_edge_cases else []);
                  remaining = saturating_sub (iterations cfg) (as_u32 (length edge))
              in edge @ label_random (\<lambda>s lbl. stdin_input lbl s)
                          (fst (draw_many (generate_stdin_input r hints cfg) (unat remaining) g)))
         | NoInput \<Rightarrow> [stdin_input ''default'' []])"

section \<open>Running the fuzz test\<close>

record fuzz_divergence =
  div_input :: test_input
  div_c_output :: string
  div_rust_output :: string
  div_c_exit_code :: i32
  div_rust_exit_code :: i32

record fuzz_result =
  fuzz_all_passed :: bool
  iterations_run :: u32
  failures :: u32
  first_divergence :: "fuzz_divergence option"
  divergences :: "fuzz_divergence list"
  fuzz_seed :: u64

text \<open>One pass of the loop: execution errors of either program skip the input.\<close>

definition fuzz_step ::
  "'exe toolchain \<Rightarrow> 'exe \<Rightarrow> 'exe \<Rightarrow> test_input \<Rightarrow> fuzz_divergence list \<times> u32
   \<Rightarrow> fuzz_divergence list \<times> u32" where
  "fuzz_step tc c_exe rs_exe input st =
     (let (divs, n) = st; n = n + 1; si = stdin_of (input_stdin input)
      in case run_exe tc c_exe si (input_args input) of
           Inl e \<Rightarrow> (divs, n)
         | Inr c \<Rightarrow>
             (case run_exe tc rs_exe si (input_args input) of
                Inl e \<Rightarrow> (divs, n)
              | Inr r \<Rightarrow>
                  if stdout c \<noteq> stdout r \<or> exit_code c \<noteq> exit_code r then
                    (divs @ [\<lparr>div_input = input, div_c_output = stdout c, div_rust_output = stdout r,
                              div_c_exit_code = exit_code c, div_rust_exit_code = exit_code r\<rparr>], n)
                  else (divs, n)))"

definition fuzz_loop ::
  "'exe toolchain \<Rightarrow> 'exe \<Rightarrow> 'exe \<Rightarrow> test_input list \<Rightarrow> fuzz_divergence list \<times> u32" where
  "fuzz_loop tc c_exe rs_exe inputs = fold (fuzz_step tc c_exe rs_exe) inputs ([], 0)"

definition run_fuzz_test ::
  "'exe toolchain \<Rightarrow> 'g rng \<Rightarrow> (u64 \<Rightarrow> 'g) \<Rightarrow> u64 \<Rightarrow> u64 \<Rightarrow> string \<Rightarrow> string \<Rightarrow> fuzz_config
   \<Rightarrow> (tool_error, fuzz_result) result" where
  "run_fuzz_test tc r seed_from_u64 now1 now2 c_src rust_src cfg =
     (let seed = unwrap_or (seed_opt cfg) now1;
          mode = detect_input_mode c_src;
          inputs = generate_fuzz_inputs r seed_from_u64 now2 mode cfg
      in bind_result (write_sources tc c_src rust_src) (\<lambda>_.
         bind_result (compile_c_exe tc c_src) (\<lambda>c_exe.
         bind_result (compile_rust_exe tc rust_src) (\<lambda>rs_exe.
           case (c_exe, rs_exe) of
             (Some ce, Some re) \<Rightarrow>
               (let (divs, n) = fuzz_loop tc ce re inputs; fails = as_u32 (length divs)
                in Inr \<lparr>fuzz_all_passed = (fails = 0), iterations_run = n, failures = fails,
                        first_divergence = get divs 0, divergences = divs, fuzz_seed = seed\<rparr>)
           | _ \<Rightarrow> Inr \<lparr>fuzz_all_passed = False, iterations_run = 0, failures = 1,
                      first_divergence = None, divergences = [], fuzz_seed = seed\<rparr>))))"

section \<open>The inputs\<close>

lemma unat_small: "n < 4294967296 \<Longrightarrow> unat (as_u32 n) = n"
  by (simp add: as_u32_def unat_of_nat)

lemma as_u32_eq_0: "n < 4294967296 \<Longrightarrow> as_u32 n = 0 \<longleftrightarrow> n = 0"
  using unat_small [of n] unat_eq_zero [of "as_u32 n"] by auto

lemma edge_and_random:
  "k < 4294967296 \<Longrightarrow>
   k + unat (saturating_sub (iterations cfg) (as_u32 k)) = max k (unat (iterations cfg))"
  by (simp add: unat_saturating_sub unat_small)

lemma length_edge_cases [simp]:
  "length (arg_edge_cases n) = 5" "length stdin_edge_cases = 3"
  by (simp_all add: arg_edge_cases_def stdin_edge_cases_def)

text \<open>
  The number of fuzz inputs. A program that reads arguments gets the five edge cases and
  random inputs up to the iteration count (so \<open>max 5 iterations\<close> inputs), one that reads standard
  input three edge cases, a program without input a single run; and without edge cases it is the
  iteration count exactly.
\<close>

theorem fuzz_input_count:
  "length (generate_fuzz_inputs r sd now mode cfg) =
     (case mode of
        Args n \<Rightarrow> max (if include_edge_cases cfg then 5 else 0) (unat (iterations cfg))
      | Stdin hints \<Rightarrow> max (if include_edge_cases cfg then 3 else 0) (unat (iterations cfg))
      | NoInput \<Rightarrow> 1)"
  using edge_and_random [of 5 cfg] edge_and_random [of 3 cfg] edge_and_random [of 0 cfg]
  by (auto simp: generate_fuzz_inputs_def Let_def split: input_mode.splits)

lemma fuzz_inputs_bound: "length (generate_fuzz_inputs r sd now mode cfg) < 4294967296"
proof -
  have "unat (iterations cfg) < 4294967296"
    using unsigned_less [of "iterations cfg"] by simp
  then have "max 5 (unat (iterations cfg)) < 4294967296" "max 3 (unat (iterations cfg)) < 4294967296"
    by auto
  moreover have "length (generate_fuzz_inputs r sd now mode cfg)
      \<le> max 5 (unat (iterations cfg)) \<or> length (generate_fuzz_inputs r sd now mode cfg)
      \<le> max 3 (unat (iterations cfg))"
    by (cases mode; cases "include_edge_cases cfg")
       (auto simp: generate_fuzz_inputs_def Let_def edge_and_random unat_saturating_sub unat_small)
  ultimately show ?thesis by linarith
qed

section \<open>The divergences\<close>

definition diverges :: "'exe toolchain \<Rightarrow> 'exe \<Rightarrow> 'exe \<Rightarrow> test_input \<Rightarrow> bool" where
  "diverges tc ce re i =
     (\<exists>c r. run_exe tc ce (stdin_of (input_stdin i)) (input_args i) = Inr c
        \<and> run_exe tc re (stdin_of (input_stdin i)) (input_args i) = Inr r \<and> \<not> same_behaviour c r)"

lemma fuzz_step_inputs:
  "map div_input (fst (fuzz_step tc ce re i st))
     = map div_input (fst st) @ (if diverges tc ce re i then [i] else [])"
  "snd (fuzz_step tc ce re i st) = snd st + 1"
  by (auto simp: fuzz_step_def diverges_def same_behaviour_def Let_def case_prod_beta split: sum.splits)

lemma fuzz_fold_inputs:
  "map div_input (fst (fold (fuzz_step tc ce re) is st))
     = map div_input (fst st) @ filter (diverges tc ce re) is"
  "snd (fold (fuzz_step tc ce re) is st) = snd st + of_nat (length is)"
  by (induction "is" arbitrary: st) (simp_all add: fuzz_step_inputs add_ac)

lemma fuzz_loop_inputs:
  "map div_input (fst (fuzz_loop tc ce re is)) = filter (diverges tc ce re) is"
  "snd (fuzz_loop tc ce re is) = of_nat (length is)"
  by (simp_all add: fuzz_loop_def fuzz_fold_inputs)

lemma length_fuzz_loop:
  "length (fst (fuzz_loop tc ce re is)) = length (filter (diverges tc ce re) is)"
  by (metis fuzz_loop_inputs(1) length_map)

text \<open>
  The verdict of a fuzz run whose programs compile. Its divergences are exactly the inputs on
  which both programs ran to completion and differed, in the order of the inputs; every input is
  counted once, with no wrap of the counters; and the run passes exactly when there is no such
  input. An input on which either program fails to run is skipped, so it never fails the run.
\<close>

theorem fuzz_verdict:
  assumes "run_fuzz_test tc r sd now1 now2 c_src rust_src cfg = Inr res"
    and "cc_output tc c_src = Some (Some ce)" and "rustc_output tc rust_src = Some (Some re)"
    and "inputs = generate_fuzz_inputs r sd now2 (detect_input_mode c_src) cfg"
  shows "map div_input (divergences res) = filter (diverges tc ce re) inputs
    \<and> unat (iterations_run res) = length inputs
    \<and> fuzz_all_passed res = (\<forall>i \<in> set inputs. \<not> diverges tc ce re i)"
proof (intro conjI)
  define L where "L = fuzz_loop tc ce re inputs"
  have res: "res = \<lparr>fuzz_all_passed = (as_u32 (length (fst L)) = 0), iterations_run = snd L,
      failures = as_u32 (length (fst L)), first_divergence = get (fst L) 0,
      divergences = fst L, fuzz_seed = unwrap_or (seed_opt cfg) now1\<rparr>"
    using assms
    by (auto simp: run_fuzz_test_def compile_c_exe_def compile_rust_exe_def bind_result_Inr_iff
        Let_def case_prod_beta L_def)
  show "map div_input (divergences res) = filter (diverges tc ce re) inputs"
    by (simp add: res L_def fuzz_loop_inputs)
  have bound: "length inputs < 4294967296"
    unfolding assms(4) by (rule fuzz_inputs_bound)
  then show "unat (iterations_run res) = length inputs"
    using unat_small [of "length inputs"] by (simp add: res L_def fuzz_loop_inputs as_u32_def)
  have "length (fst L) < 4294967296"
    unfolding L_def length_fuzz_loop by (rule le_less_trans [OF length_filter_le bound])
  then have "as_u32 (length (fst L)) = 0 \<longleftrightarrow> length (fst L) = 0"
    by (rule as_u32_eq_0)
  then show "fuzz_all_passed res = (\<forall>i \<in> set inputs. \<not> diverges tc ce re i)"
    by (simp add: res L_def length_fuzz_loop filter_empty_conv)
qed

text \<open>A generator for the witnesses: every draw is the lower end of its range.\<close>

definition low_rng :: "unit rng" where
  "low_rng = \<lparr>rng_i64 = (\<lambda>g lo hi. (lo, g)), rng_float_text = (\<lambda>g. (''0.000000'', g)),
     rng_usize = (\<lambda>g lo hi. (lo, g)), rng_lowercase = (\<lambda>g. (CHR ''a'', g))\<rparr>"

lemma echo_never_diverges: "\<not> diverges echo_toolchain ce re i"
  by (simp add: diverges_def echo_run same_behaviour_def)

theorem fuzz_verdict_witness:
  "\<exists>res. run_fuzz_test echo_toolchain low_rng (\<lambda>_. ()) 1 2 ''scanf'' ''fn main'' fuzz_config_default
       = Inr res \<and> fuzz_all_passed res \<and> divergences res = []"
proof -
  let ?run = "run_fuzz_test echo_toolchain low_rng (\<lambda>_. ()) 1 2 ''scanf'' ''fn main'' fuzz_config_default"
  obtain res where res: "?run = Inr res"
    by (auto simp: run_fuzz_test_def compile_c_exe_def compile_rust_exe_def echo_compiles
        Let_def case_prod_beta)
  show ?thesis
    using fuzz_verdict [OF res echo_compiles(2,3) refl] res
    by (simp add: echo_never_diverges)
qed

end
