(* ===== verification/Kahn.thy ===== *)
theory Kahn
  imports Main "HOL-Library.Multiset"
begin

text \<open>
  Kahn's algorithm in the form the dependency graph uses it three times
  (\<open>crates/noricum-core/src/dependency.rs\<close>): in-degrees in a map, a queue of nodes without
  unprocessed predecessors, and the decrements when a node is processed. The loop has fuel, one
  unit per processed node; the locale \<open>call_graph\<close> shows that the number of nodes is enough.
\<close>

section \<open>The loop\<close>

type_synonym 'a degrees = "'a \<Rightarrow> nat option"

text \<open>\<open>in_degree.entry(c).or_insert(0) += 1\<close>, for every edge target.\<close>

definition bump :: "'a \<Rightarrow> 'a degrees \<Rightarrow> 'a degrees" where
  "bump c deg = deg(c := Some (case deg c of None \<Rightarrow> 1 | Some d \<Rightarrow> Suc d))"

definition in_degrees :: "'a list \<Rightarrow> 'a list \<Rightarrow> 'a degrees" where
  "in_degrees nodes targets = fold bump targets (map_of (map (\<lambda>n. (n, 0)) nodes))"

text \<open>The decrements for one processed node, and the targets whose degree reached zero.\<close>

fun relax :: "'a list \<Rightarrow> 'a degrees \<Rightarrow> 'a degrees \<times> 'a list" where
  "relax [] deg = (deg, [])"
| "relax (c # cs) deg =
     (case deg c of
        None \<Rightarrow> relax cs deg
      | Some d \<Rightarrow> (let (deg', next) = relax cs (deg(c := Some (d - 1)))
                  in (deg', if d - 1 = 0 then c # next else next)))"

fun kahn :: "nat \<Rightarrow> ('a \<Rightarrow> 'a list) \<Rightarrow> ('a list \<Rightarrow> 'a list) \<Rightarrow> 'a list \<Rightarrow> 'a degrees \<Rightarrow> 'a list option" where
  "kahn fuel succs arrange [] deg = Some []"
| "kahn 0 succs arrange (n # q) deg = None"
| "kahn (Suc k) succs arrange (n # q) deg =
     (let (deg', next) = relax (succs n) deg
      in map_option (\<lambda>r. n # r) (kahn k succs arrange (q @ arrange next) deg'))"

section \<open>Degrees and decrements\<close>

lemma fold_bump:
  "fold bump cs deg x =
     (if x \<in> set cs then Some ((case deg x of None \<Rightarrow> 0 | Some d \<Rightarrow> d) + count_list cs x) else deg x)"
  by (induction cs arbitrary: deg) (auto simp: bump_def split: option.splits)

lemma in_degrees_eq:
  "in_degrees nodes cs x =
     (if x \<in> set nodes \<union> set cs then Some (count_list cs x) else None)"
proof -
  have "map_of (map (\<lambda>n. (n, 0)) nodes) x = (if x \<in> set nodes then Some (0::nat) else None)"
    by (induction nodes) auto
  then show ?thesis
    by (auto simp: in_degrees_def fold_bump)
qed

lemma relax_spec:
  "\<forall>c \<in> set cs. \<exists>d. deg c = Some d \<and> count_list cs c \<le> d \<Longrightarrow>
   fst (relax cs deg) x = (if x \<in> set cs then map_option (\<lambda>d. d - count_list cs x) (deg x) else deg x)
   \<and> distinct (snd (relax cs deg))
   \<and> set (snd (relax cs deg)) = {y \<in> set cs. deg y = Some (count_list cs y)}"
proof (induction cs arbitrary: deg x)
  case (Cons c cs)
  from Cons.prems obtain d where d: "deg c = Some d" "Suc (count_list cs c) \<le> d"
    by auto
  define D where "D = deg(c := Some (d - 1))"
  have D: "D c = Some (d - 1)" "\<And>y. y \<noteq> c \<Longrightarrow> D y = deg y" by (simp_all add: D_def)
  have pre: "\<forall>y \<in> set cs. \<exists>e. D y = Some e \<and> count_list cs y \<le> e"
  proof
    fix y assume y: "y \<in> set cs"
    show "\<exists>e. D y = Some e \<and> count_list cs y \<le> e"
      using Cons.prems y d D by (cases "y = c") auto
  qed
  have ih: "fst (relax cs D) x = (if x \<in> set cs then map_option (\<lambda>d. d - count_list cs x) (D x) else D x)"
    "distinct (snd (relax cs D))"
    "set (snd (relax cs D)) = {y \<in> set cs. D y = Some (count_list cs y)}"
    using Cons.IH [OF pre, of x] by blast+
  have 1: "fst (relax (c # cs) deg) x = fst (relax cs D) x"
    and 2: "snd (relax (c # cs) deg) = (if d - 1 = 0 then c # snd (relax cs D) else snd (relax cs D))"
    using d by (simp_all add: case_prod_beta Let_def D_def)
  have c0: "c \<notin> set cs" if "d - 1 = 0"
    using that d(2) count_list_0_iff [of cs c] by simp
  have A: "fst (relax (c # cs) deg) x =
      (if x \<in> set (c # cs) then map_option (\<lambda>d. d - count_list (c # cs) x) (deg x) else deg x)"
    unfolding 1 ih(1) using d D by (cases "x = c") (auto simp: count_list_0_iff)
  have B: "distinct (snd (relax (c # cs) deg))"
    unfolding 2 using ih c0 by auto
  have C: "set (snd (relax (c # cs) deg)) = {y \<in> set (c # cs). deg y = Some (count_list (c # cs) y)}"
  proof (intro set_eqI iffI)
    fix y assume "y \<in> set (snd (relax (c # cs) deg))"
    then have "(y = c \<and> d - 1 = 0) \<or> (y \<in> set cs \<and> D y = Some (count_list cs y))"
      unfolding 2 using ih(3) by (auto split: if_splits)
    then show "y \<in> {y \<in> set (c # cs). deg y = Some (count_list (c # cs) y)}"
      using d D c0 by (cases "y = c") (auto simp: count_list_0_iff)
  next
    fix y assume y: "y \<in> {y \<in> set (c # cs). deg y = Some (count_list (c # cs) y)}"
    show "y \<in> set (snd (relax (c # cs) deg))"
    proof (cases "y = c")
      case True
      with y d D show ?thesis unfolding 2 using ih(3) by (cases "c \<in> set cs") auto
    next
      case False
      with y D show ?thesis unfolding 2 using ih(3) by auto
    qed
  qed
  from A B C show ?case by blast
qed simp

section \<open>The graph interface\<close>

text \<open>Edges into \<open>x\<close> from nodes that are not processed yet.\<close>

definition pending_edges :: "'a list \<Rightarrow> ('a \<Rightarrow> 'a list) \<Rightarrow> 'a list \<Rightarrow> 'a \<Rightarrow> nat" where
  "pending_edges nodes succs done x =
     sum_list (map (\<lambda>m. count_list (succs m) x) (filter (\<lambda>m. m \<notin> set done) nodes))"

definition edge_rel :: "'a list \<Rightarrow> ('a \<Rightarrow> 'a list) \<Rightarrow> ('a \<times> 'a) set" where
  "edge_rel nodes succs = {(u, v). u \<in> set nodes \<and> v \<in> set (succs u)}"

lemma pending_edges_0:
  "pending_edges nodes succs done x = 0 \<longleftrightarrow>
     (\<forall>u \<in> set nodes. x \<in> set (succs u) \<longrightarrow> u \<in> set done)"
  by (auto simp: pending_edges_def count_list_0_iff)

lemma pending_edges_nil:
  "pending_edges nodes succs [] x = count_list (concat (map succs nodes)) x"
  by (induction nodes) (auto simp: pending_edges_def)

lemma pending_edges_step:
  "distinct nodes \<Longrightarrow> n \<in> set nodes \<Longrightarrow> n \<notin> set done \<Longrightarrow>
   pending_edges nodes succs done x = count_list (succs n) x + pending_edges nodes succs (done @ [n]) x"
proof (induction nodes)
  case (Cons m nodes)
  show ?case
  proof (cases "m = n")
    case True
    with Cons.prems have "filter (\<lambda>m. m \<notin> set done) nodes = filter (\<lambda>m. m \<notin> set (done @ [n])) nodes"
      by (intro filter_cong) auto
    with True Cons.prems show ?thesis by (simp add: pending_edges_def)
  next
    case False
    with Cons show ?thesis by (simp add: pending_edges_def)
  qed
qed simp

locale call_graph =
  fixes nodes :: "'a list" and succs :: "'a \<Rightarrow> 'a list" and arrange :: "'a list \<Rightarrow> 'a list"
  assumes distinct_nodes: "distinct nodes"
    and succs_nodes: "n \<in> set nodes \<Longrightarrow> set (succs n) \<subseteq> set nodes"
    and arrange_mset: "mset (arrange xs) = mset xs"
begin

text \<open>The invariant of the loop: what is done, what is queued, and exact degrees.\<close>

lemma arrange_simps [simp]: "set (arrange xs) = set xs" "distinct (arrange xs) = distinct xs"
  using arrange_mset [of xs] by (metis set_mset_mset, metis distinct_count_atmost_1 set_mset_mset)

lemma step:
  assumes dist: "distinct (dn @ n # q)" and sub: "set (dn @ n # q) \<subseteq> set nodes"
    and deg: "\<forall>x \<in> set nodes. deg x = Some (pending_edges nodes succs dn x)"
    and zero: "\<forall>x \<in> set nodes. pending_edges nodes succs dn x = 0 \<longleftrightarrow> x \<in> set (dn @ n # q)"
  defines "deg' \<equiv> fst (relax (succs n) deg)" and "nxt \<equiv> snd (relax (succs n) deg)"
  shows "distinct ((dn @ [n]) @ q @ arrange nxt)"
    and "set ((dn @ [n]) @ q @ arrange nxt) \<subseteq> set nodes"
    and "\<forall>x \<in> set nodes. deg' x = Some (pending_edges nodes succs (dn @ [n]) x)"
    and "\<forall>x \<in> set nodes. pending_edges nodes succs (dn @ [n]) x = 0
           \<longleftrightarrow> x \<in> set ((dn @ [n]) @ q @ arrange nxt)"
proof -
  have n: "n \<in> set nodes" "n \<notin> set dn" using dist sub by auto
  note split = pending_edges_step [OF distinct_nodes n]
  have succ_in: "set (succs n) \<subseteq> set nodes" by (rule succs_nodes [OF n(1)])
  have pre: "\<forall>c \<in> set (succs n). \<exists>d. deg c = Some d \<and> count_list (succs n) c \<le> d"
    using deg succ_in split by (metis le_add1 subsetD)
  note rel = relax_spec [OF pre, folded deg'_def nxt_def]
  have set_nxt: "set nxt = {y \<in> set (succs n). pending_edges nodes succs (dn @ [n]) y = 0}"
    using rel deg succ_in split by auto
  have fresh: "y \<notin> set (dn @ n # q)" if "y \<in> set nxt" for y
  proof -
    have y: "y \<in> set nodes" "y \<in> set (succs n)" using that set_nxt succ_in by auto
    then have "pending_edges nodes succs dn y \<noteq> 0"
      using n by (auto simp: pending_edges_0)
    with bspec [OF zero y(1)] show ?thesis by simp
  qed
  show "distinct ((dn @ [n]) @ q @ arrange nxt)"
    using dist rel fresh by auto
  show "set ((dn @ [n]) @ q @ arrange nxt) \<subseteq> set nodes"
    using sub set_nxt succ_in by auto
  show "\<forall>x \<in> set nodes. deg' x = Some (pending_edges nodes succs (dn @ [n]) x)"
    using rel deg split by (auto simp: count_list_0_iff)
  show "\<forall>x \<in> set nodes. pending_edges nodes succs (dn @ [n]) x = 0
           \<longleftrightarrow> x \<in> set ((dn @ [n]) @ q @ arrange nxt)"
  proof
    fix x assume x: "x \<in> set nodes"
    show "pending_edges nodes succs (dn @ [n]) x = 0 \<longleftrightarrow> x \<in> set ((dn @ [n]) @ q @ arrange nxt)"
    proof (cases "x \<in> set (succs n)")
      case True
      then have "pending_edges nodes succs dn x \<noteq> 0" using n by (auto simp: pending_edges_0)
      with bspec [OF zero x] have "x \<notin> set (dn @ n # q)" by simp
      with True set_nxt show ?thesis by auto
    next
      case False
      then have "pending_edges nodes succs dn x = pending_edges nodes succs (dn @ [n]) x"
        using split [of succs x] by (simp add: count_list_0_iff)
      with False zero x set_nxt show ?thesis by auto
    qed
  qed
qed

text \<open>
  A run from a state that satisfies the invariant, with at least one unit of fuel per node that
  is not done: it returns, and every node it lists had all its predecessors done before.
\<close>

lemma run:
  assumes "distinct (dn @ q)" and "set (dn @ q) \<subseteq> set nodes"
    and "\<forall>x \<in> set nodes. deg x = Some (pending_edges nodes succs dn x)"
    and "\<forall>x \<in> set nodes. pending_edges nodes succs dn x = 0 \<longleftrightarrow> x \<in> set (dn @ q)"
    and "length nodes - length dn \<le> fuel"
  shows "\<exists>res. kahn fuel succs arrange q deg = Some res \<and> distinct (dn @ res)
     \<and> set (dn @ res) \<subseteq> set nodes
     \<and> (\<forall>x \<in> set nodes. pending_edges nodes succs (dn @ res) x = 0 \<longleftrightarrow> x \<in> set (dn @ res))
     \<and> (\<forall>ys v zs. res = ys @ v # zs \<longrightarrow> pending_edges nodes succs (dn @ ys) v = 0)"
  using assms
proof (induction fuel arbitrary: dn q deg)
  case 0
  have "card (set (dn @ q)) \<le> card (set nodes)"
    by (rule card_mono) (use 0 in auto)
  then have "length (dn @ q) \<le> length nodes"
    using 0 distinct_card [of "dn @ q"] distinct_card [OF distinct_nodes] by simp
  moreover have "length nodes \<le> length dn" using 0 by simp
  ultimately have "length q = 0" unfolding length_append by linarith
  with 0 show ?case by auto
next
  case (Suc fuel)
  show ?case
  proof (cases q)
    case Nil
    with Suc.prems show ?thesis by auto
  next
    case (Cons n q')
    note prems = Suc.prems [unfolded Cons]
    define deg' where "deg' = fst (relax (succs n) deg)"
    define nxt where "nxt = snd (relax (succs n) deg)"
    note st = step [OF prems(1-4), folded deg'_def nxt_def]
    have "length dn < length nodes"
    proof -
      have "card (set (dn @ n # q')) \<le> card (set nodes)"
        by (rule card_mono) (use prems(2) in auto)
      then show ?thesis
        using prems(1) distinct_card [of "dn @ n # q'"] distinct_card [OF distinct_nodes] by simp
    qed
    then have "length nodes - length (dn @ [n]) \<le> fuel" using prems(5) by simp
    from Suc.IH [OF st this] obtain res where
      res: "kahn fuel succs arrange (q' @ arrange nxt) deg' = Some res"
        "distinct ((dn @ [n]) @ res)" "set ((dn @ [n]) @ res) \<subseteq> set nodes"
        "\<forall>x \<in> set nodes. pending_edges nodes succs ((dn @ [n]) @ res) x = 0
           \<longleftrightarrow> x \<in> set ((dn @ [n]) @ res)"
        "\<forall>ys v zs. res = ys @ v # zs \<longrightarrow> pending_edges nodes succs ((dn @ [n]) @ ys) v = 0"
      by blast
    have "kahn (Suc fuel) succs arrange q deg = Some (n # res)"
      using res(1) by (simp add: Cons case_prod_beta Let_def deg'_def nxt_def)
    moreover have "pending_edges nodes succs (dn @ ys) v = 0" if "n # res = ys @ v # zs" for ys v zs
    proof (cases ys)
      case Nil
      with that have "v = n" by simp
      moreover have "n \<in> set nodes" using prems(2) by simp
      ultimately show ?thesis using Nil bspec [OF prems(4), of n] by simp
    next
      case (Cons y ys')
      with that have "res = ys' @ v # zs" "y = n" by auto
      with res(5) Cons show ?thesis by simp
    qed
    ultimately show ?thesis
      using res(2-4) by (intro exI [of _ "n # res"]) simp
  qed
qed

text \<open>
  From the start: \<open>initial\<close> are the nodes of degree zero, in any order. The result is a list of
  distinct nodes in which every predecessor of a node stands before it; a node is missing only if
  one of its predecessors is.
\<close>

lemma run_from_start:
  assumes "\<forall>x \<in> set nodes. deg x = Some (count_list (concat (map succs nodes)) x)"
    and "mset initial = mset (filter (\<lambda>n. deg n = Some 0) nodes)"
  obtains res where "kahn (length nodes) succs arrange initial deg = Some res"
    and "distinct res" and "set res \<subseteq> set nodes"
    and "\<forall>v \<in> set nodes - set res. \<exists>u \<in> set nodes - set res. v \<in> set (succs u)"
    and "\<forall>ys v zs. res = ys @ v # zs \<longrightarrow> (\<forall>u \<in> set nodes. v \<in> set (succs u) \<longrightarrow> u \<in> set ys)"
proof -
  have set_init: "set initial = {n \<in> set nodes. deg n = Some 0}"
    using assms(2) by (metis mset_eq_setD set_filter)
  have dist_init: "distinct initial"
    using assms(2) distinct_nodes by (metis distinct_filter mset_eq_imp_distinct_iff)
  have "\<exists>res. kahn (length nodes) succs arrange initial deg = Some res \<and> distinct ([] @ res)
     \<and> set ([] @ res) \<subseteq> set nodes
     \<and> (\<forall>x \<in> set nodes. pending_edges nodes succs ([] @ res) x = 0 \<longleftrightarrow> x \<in> set ([] @ res))
     \<and> (\<forall>ys v zs. res = ys @ v # zs \<longrightarrow> pending_edges nodes succs ([] @ ys) v = 0)"
    by (rule run) (use assms set_init dist_init in \<open>auto simp: pending_edges_nil\<close>)
  then obtain res where res: "kahn (length nodes) succs arrange initial deg = Some res"
    "distinct res" "set res \<subseteq> set nodes"
    "\<forall>x \<in> set nodes. pending_edges nodes succs res x = 0 \<longleftrightarrow> x \<in> set res"
    "\<forall>ys v zs. res = ys @ v # zs \<longrightarrow> pending_edges nodes succs ys v = 0"
    by auto
  show ?thesis
  proof (rule that [OF res(1-3)])
    show "\<forall>v \<in> set nodes - set res. \<exists>u \<in> set nodes - set res. v \<in> set (succs u)"
      using res(4) by (auto simp: pending_edges_0)
    show "\<forall>ys v zs. res = ys @ v # zs \<longrightarrow> (\<forall>u \<in> set nodes. v \<in> set (succs u) \<longrightarrow> u \<in> set ys)"
      using res(5) by (auto simp: pending_edges_0)
  qed
qed

text \<open>Without cycles, every non-empty set of nodes has one without a predecessor in the set.\<close>

lemma acyclic_visits_all:
  assumes "acyclic (edge_rel nodes succs)" and "R \<subseteq> set nodes"
    and "\<forall>v \<in> R. \<exists>u \<in> R. v \<in> set (succs u)"
  shows "R = {}"
proof -
  have "edge_rel nodes succs \<subseteq> set nodes \<times> set nodes"
    using succs_nodes by (auto simp: edge_rel_def)
  then have "finite (edge_rel nodes succs)" by (rule finite_subset) simp
  then have wf: "wf (edge_rel nodes succs)" using assms(1) by (rule finite_acyclic_wf)
  show ?thesis
  proof (rule ccontr)
    assume "R \<noteq> {}"
    then obtain z where "z \<in> R" "\<And>y. (y, z) \<in> edge_rel nodes succs \<Longrightarrow> y \<notin> R"
      using wf by (metis ex_in_conv wfE_min)
    with assms(2,3) show False by (auto simp: edge_rel_def)
  qed
qed

text \<open>The decrements alone, for one node and for a whole wave of nodes.\<close>

lemma relax_degrees:
  assumes "n \<in> set nodes" "n \<notin> set dn"
    and "\<forall>x \<in> set nodes. deg x = Some (pending_edges nodes succs dn x)"
  shows "\<forall>x \<in> set nodes. fst (relax (succs n) deg) x = Some (pending_edges nodes succs (dn @ [n]) x)"
proof
  fix x assume x: "x \<in> set nodes"
  note split = pending_edges_step [OF distinct_nodes assms(1,2)]
  have pre: "\<forall>c \<in> set (succs n). \<exists>d. deg c = Some d \<and> count_list (succs n) c \<le> d"
    using assms(3) succs_nodes [OF assms(1)] split by (metis le_add1 subsetD)
  show "fst (relax (succs n) deg) x = Some (pending_edges nodes succs (dn @ [n]) x)"
    using relax_spec [OF pre, of x] assms(3) x split [of succs x] by (simp add: count_list_0_iff)
qed

lemma relax_wave:
  assumes "distinct (dn @ wave)" "set wave \<subseteq> set nodes"
    and "\<forall>x \<in> set nodes. deg x = Some (pending_edges nodes succs dn x)"
  shows "\<forall>x \<in> set nodes. fold (\<lambda>i deg. fst (relax (succs i) deg)) wave deg x
           = Some (pending_edges nodes succs (dn @ wave) x)"
  using assms
proof (induction wave arbitrary: dn deg)
  case (Cons n wave)
  have "\<forall>x \<in> set nodes. fst (relax (succs n) deg) x = Some (pending_edges nodes succs (dn @ [n]) x)"
    by (rule relax_degrees) (use Cons.prems in auto)
  from Cons.IH [OF _ _ this] Cons.prems show ?case by simp
qed simp

end

end
