(* ===== verification/Migration_Ir.thy ===== *)
theory Migration_Ir
  imports Rust_Text Complex_Main
begin

text \<open>
  The semantic code map of \<open>crates/noricum-ir/src/lib.rs\<close>: migration states, difficulty
  classes, semantic hints and their prompt lines, the function unit with its metrics, and the
  migration project with its progress summary. Costs in US dollars are exact rationals; the
  rounding of \<open>f64\<close> is not modelled.
\<close>

section \<open>States, difficulty, hints\<close>

datatype migration_state =
    Pending
  | Extracted
  | Characterized
  | C2RustDone
  | Analyzed
  | Refined
  | Validated
  | Repairing u32
  | CompilesUnsafe
  | CompilesLowScore
  | NearlyCompiles
  | FallbackUnsafe

datatype difficulty = Easy | Medium | Hard

datatype semantic_hint =
    MemoryManagement "string list" string
  | DataStructure string "string list" string
  | Algorithm string "string list" string
  | ControlFlow string "string list" string
  | IoPattern string "string list" string
  | Concurrency string "string list" string

fun to_prompt_line :: "semantic_hint \<Rightarrow> string" where
  "to_prompt_line (MemoryManagement functions suggestion) =
     ''- Functions '' @ join '', '' functions @ '' implement memory management -> '' @ suggestion"
| "to_prompt_line (DataStructure kind involved rust_type) =
     ''- '' @ kind @ '' pattern detected in '' @ join '', '' involved @ '' -> consider '' @ rust_type"
| "to_prompt_line (Algorithm kind functions suggestion) =
     ''- '' @ kind @ '' algorithm in '' @ join '', '' functions @ '' -> '' @ suggestion"
| "to_prompt_line (ControlFlow kind functions suggestion) =
     ''- '' @ kind @ '' pattern in '' @ join '', '' functions @ '' -> '' @ suggestion"
| "to_prompt_line (IoPattern kind functions suggestion) =
     ''- '' @ kind @ '' I/O in '' @ join '', '' functions @ '' -> '' @ suggestion"
| "to_prompt_line (Concurrency kind functions suggestion) =
     ''- '' @ kind @ '' concurrency in '' @ join '', '' functions @ '' -> '' @ suggestion"

section \<open>Function units\<close>

record migration_metrics =
  total_ms :: u64
  analysis_ms :: u64
  translation_ms :: u64
  repair_ms :: u64
  test_gen_ms :: u64
  repair_iterations :: u32
  llm_calls :: u32
  m_c_lines :: u32
  m_rust_lines :: u32
  metrics_diff_test_passed :: "bool option"
  fuzz_test_passed :: "bool option"
  fuzz_divergence_count :: u32
  input_tokens :: u64
  output_tokens :: u64
  estimated_cost_usd :: rat
  metrics_provider :: "string option"
  metrics_model :: "string option"
  spec_count :: nat
  specs_passed :: nat
  ensemble_used :: bool
  ensemble_candidates :: u32
  ensemble_compiled :: u32
  ensemble_cost_usd :: rat

definition metrics_default :: migration_metrics where
  "metrics_default = \<lparr>total_ms = 0, analysis_ms = 0, translation_ms = 0, repair_ms = 0,
     test_gen_ms = 0, repair_iterations = 0, llm_calls = 0, m_c_lines = 0, m_rust_lines = 0,
     metrics_diff_test_passed = None, fuzz_test_passed = None, fuzz_divergence_count = 0,
     input_tokens = 0, output_tokens = 0, estimated_cost_usd = 0, metrics_provider = None,
     metrics_model = None, spec_count = 0, specs_passed = 0, ensemble_used = False,
     ensemble_candidates = 0, ensemble_compiled = 0, ensemble_cost_usd = 0\<rparr>"

definition compute_cost :: "migration_metrics \<Rightarrow> migration_metrics" where
  "compute_cost m = m\<lparr>estimated_cost_usd :=
     (of_nat (unat (input_tokens m)) / 1000000) * 3
     + (of_nat (unat (output_tokens m)) / 1000000) * 15\<rparr>"

record function_unit =
  unit_name :: string
  source_path :: string
  c_source :: string
  preprocessed_source :: "string option"
  c2rust_output :: "string option"
  rust_output :: "string option"
  unit_state :: migration_state
  unit_difficulty :: "difficulty option"
  dependencies :: "string list"
  last_errors :: "string list"
  last_diff_feedback :: "string list"
  idiomatic_score :: "u32 option"
  unsafe_count :: "u32 option"
  generated_tests :: "string option"
  metrics :: migration_metrics

definition new_unit :: "string \<Rightarrow> string \<Rightarrow> string \<Rightarrow> function_unit" where
  "new_unit nm path src = \<lparr>unit_name = nm, source_path = path, c_source = src,
     preprocessed_source = None, c2rust_output = None, rust_output = None,
     unit_state = Pending, unit_difficulty = None, dependencies = [], last_errors = [],
     last_diff_feedback = [], idiomatic_score = None, unsafe_count = None,
     generated_tests = None, metrics = metrics_default\<rparr>"

section \<open>Projects\<close>

record migration_project =
  project_name :: string
  source_dir :: string
  units :: "function_unit list"

definition new_project :: "string \<Rightarrow> string \<Rightarrow> migration_project" where
  "new_project nm dir = \<lparr>project_name = nm, source_dir = dir, units = []\<rparr>"

definition add_unit :: "migration_project \<Rightarrow> function_unit \<Rightarrow> migration_project" where
  "add_unit p u = p\<lparr>units := units p @ [u]\<rparr>"

definition pending_units :: "migration_project \<Rightarrow> function_unit list" where
  "pending_units p = filter (\<lambda>u. unit_state u = Pending) (units p)"

record progress_summary =
  total_count :: nat
  validated_count :: nat
  failed_count :: nat
  in_progress :: nat

definition is_failed_state :: "migration_state \<Rightarrow> bool" where
  "is_failed_state s = (case s of FallbackUnsafe \<Rightarrow> True | CompilesUnsafe \<Rightarrow> True
     | CompilesLowScore \<Rightarrow> True | NearlyCompiles \<Rightarrow> True | _ \<Rightarrow> False)"

definition progress_summary_of :: "migration_project \<Rightarrow> progress_summary" where
  "progress_summary_of p =
     (let t = length (units p);
          v = length (filter (\<lambda>u. unit_state u = Validated) (units p));
          f = length (filter (\<lambda>u. is_failed_state (unit_state u)) (units p))
      in \<lparr>total_count = t, validated_count = v, failed_count = f, in_progress = t - v - f\<rparr>)"

definition is_active_state :: "migration_state \<Rightarrow> bool" where
  "is_active_state s = (s \<noteq> Validated \<and> \<not> is_failed_state s)"

lemma three_way_count:
  "length (filter (\<lambda>u. unit_state u = Validated) us)
   + length (filter (\<lambda>u. is_failed_state (unit_state u)) us)
   + length (filter (\<lambda>u. is_active_state (unit_state u)) us) = length us"
  by (induction us) (auto simp: is_active_state_def is_failed_state_def)

text \<open>
  The progress summary of a project never underflows: the subtraction that computes
  \<open>in_progress\<close> counts exactly the units that are neither validated nor in one of the four
  failed end states, and the three counts add up to the number of units.
\<close>

theorem progress_summary_partition:
  "in_progress (progress_summary_of p)
     = length (filter (\<lambda>u. is_active_state (unit_state u)) (units p))
   \<and> validated_count (progress_summary_of p) + failed_count (progress_summary_of p)
     + in_progress (progress_summary_of p) = total_count (progress_summary_of p)"
  using three_way_count [of "units p"] by (simp add: progress_summary_of_def Let_def)

end
