(* ===== verification/C_Ast.thy ===== *)
theory C_Ast
  imports Migration_Ir "HOL-Library.List_Lexorder" "HOL-Library.Char_ord"
begin

text \<open>
  Analysis of C and Rust sources on syntax trees (first part of
  \<open>crates/noricum-tools/src/ast.rs\<close>, and the unsafe counter of \<open>compiler.rs\<close>): functions, calls,
  types, difficulty. The tree-sitter parsers and the regular expressions, third-party packages,
  are the fields of \<open>parsers\<close>; a tree is a rose tree of nodes with a kind and a byte range.
  Strings are ordered byte by byte (\<open>List_Lexorder\<close>), as Rust orders them.
\<close>

section \<open>Syntax trees\<close>

datatype ts_node =
  TsNode (kind: string) (start_byte: nat) (end_byte: nat) (children: "ts_node list")

record parsers =
  c_tree :: "string \<Rightarrow> ts_node option"
  rust_tree :: "string \<Rightarrow> ts_node option"
  re_c_function :: "string \<Rightarrow> string list"
  re_c_call :: "string \<Rightarrow> string list"
  re_c_type :: "string \<Rightarrow> string list"
  re_rust_fn :: "string \<Rightarrow> string list"

text \<open>A slice \<open>&s[a..b]\<close> of a string; it is used on ranges with \<open>a \<le> b \<le> len\<close>.\<close>

definition slice :: "string \<Rightarrow> nat \<Rightarrow> nat \<Rightarrow> string" where
  "slice s a b = take (b - a) (drop a s)"

definition node_text :: "string \<Rightarrow> ts_node \<Rightarrow> string" where
  "node_text src n = slice src (start_byte n) (end_byte n)"

text \<open>
  \<open>walk_tree\<close> visits the nodes in preorder; the visits are a list, each with the node's
  ancestors, nearest first (\<open>Node::parent\<close>).
\<close>

fun visits :: "ts_node list \<Rightarrow> ts_node \<Rightarrow> (ts_node list \<times> ts_node) list" where
  "visits anc (TsNode k a b cs) =
     (anc, TsNode k a b cs) # concat (map (visits (TsNode k a b cs # anc)) cs)"

definition walk_tree :: "ts_node \<Rightarrow> (ts_node list \<times> ts_node) list" where
  "walk_tree tree = visits [] tree"

section \<open>Functions\<close>

record c_function =
  fn_name :: string
  fn_return_type :: string
  fn_body :: string
  fn_start :: nat
  fn_end :: nat

fun find_identifier :: "string \<Rightarrow> ts_node \<Rightarrow> string option" where
  "find_identifier src (TsNode k a b cs) =
     (if k = ''identifier'' then Some (slice src a b)
      else first_some (map (find_identifier src) cs))"

text \<open>The loop over the children: the declarator so far, the return type, the body.\<close>

fun def_child ::
  "string \<Rightarrow> ts_node \<Rightarrow> ts_node option \<times> string \<times> string \<Rightarrow> ts_node option \<times> string \<times> string" where
  "def_child src child (decl, ret, body) =
     (if kind child = ''function_declarator'' \<or> kind child = ''pointer_declarator''
      then (Some child, ret, body)
      else if kind child = ''compound_statement'' then (decl, ret, node_text src child)
      else if decl = None then
        (decl, (if ret \<noteq> [] then ret @ '' '' else ret) @ node_text src child, body)
      else (decl, ret, body))"

definition parse_function_def :: "string \<Rightarrow> ts_node \<Rightarrow> c_function option" where
  "parse_function_def src n =
     (let (decl, ret, body) = fold (def_child src) (children n) (None, [], [])
      in case decl of
           None \<Rightarrow> None
         | Some d \<Rightarrow>
             (case find_identifier src d of
                None \<Rightarrow> None
              | Some nm \<Rightarrow> Some \<lparr>fn_name = nm, fn_return_type = ret, fn_body = body,
                                fn_start = start_byte n, fn_end = end_byte n\<rparr>))"

definition extract_c_functions_ast :: "parsers \<Rightarrow> string \<Rightarrow> c_function list option" where
  "extract_c_functions_ast ps src =
     map_option (\<lambda>tree. List.map_filter (\<lambda>(anc, n).
         if kind n = ''function_definition'' then parse_function_def src n else None)
         (walk_tree tree))
       (c_tree ps src)"

definition fn_keywords :: "string list" where
  "fn_keywords = [''if'', ''while'', ''for'', ''switch'', ''return'', ''sizeof'', ''typeof'',
     ''defined'', ''main'', ''__attribute__'']"

definition extract_c_functions_regex :: "parsers \<Rightarrow> string \<Rightarrow> c_function list" where
  "extract_c_functions_regex ps src =
     map (\<lambda>nm. \<lparr>fn_name = nm, fn_return_type = [], fn_body = [], fn_start = 0, fn_end = 0\<rparr>)
       (filter (\<lambda>nm. nm \<notin> set fn_keywords \<and> \<not> starts_with nm ''_'') (re_c_function ps src))"

definition extract_c_functions :: "parsers \<Rightarrow> string \<Rightarrow> c_function list" where
  "extract_c_functions ps src =
     (case extract_c_functions_ast ps src of
        Some funcs \<Rightarrow> if funcs \<noteq> [] then funcs else extract_c_functions_regex ps src
      | None \<Rightarrow> extract_c_functions_regex ps src)"

section \<open>Calls\<close>

definition sort_dedup :: "string list \<Rightarrow> string list" where
  "sort_dedup xs = dedup (sort xs)"

lemma set_sort_dedup [simp]: "set (sort_dedup xs) = set xs"
  by (simp add: sort_dedup_def)

lemma distinct_sort_dedup [simp]: "distinct (sort_dedup xs)"
  by (simp add: sort_dedup_def distinct_dedup_sorted)

lemma sorted_sort_dedup [simp]: "sorted (sort_dedup xs)"
  by (simp add: sort_dedup_def sorted_dedup)

definition call_name :: "string list \<Rightarrow> string \<Rightarrow> ts_node \<Rightarrow> string option" where
  "call_name known src n =
     (if kind n = ''call_expression'' then
        (case get (children n) 0 of
           None \<Rightarrow> None
         | Some f \<Rightarrow> if node_text src f \<in> set known then Some (node_text src f) else None)
      else None)"

definition extract_c_calls_ast :: "parsers \<Rightarrow> string \<Rightarrow> string list \<Rightarrow> string list option" where
  "extract_c_calls_ast ps src known =
     map_option (\<lambda>tree. sort_dedup (List.map_filter (\<lambda>(anc, n). call_name known src n) (walk_tree tree)))
       (c_tree ps src)"

definition call_keywords :: "string list" where
  "call_keywords = [''if'', ''while'', ''for'', ''switch'', ''return'', ''sizeof'', ''typeof'',
     ''defined'', ''__attribute__'']"

definition extract_c_calls_regex :: "parsers \<Rightarrow> string \<Rightarrow> string list \<Rightarrow> string list" where
  "extract_c_calls_regex ps src known =
     sort_dedup (filter (\<lambda>nm. nm \<in> set known \<and> nm \<notin> set call_keywords) (re_c_call ps src))"

definition extract_c_calls :: "parsers \<Rightarrow> string \<Rightarrow> string list \<Rightarrow> string list" where
  "extract_c_calls ps src known =
     (case extract_c_calls_ast ps src known of
        Some calls \<Rightarrow> calls | None \<Rightarrow> extract_c_calls_regex ps src known)"

lemma extract_c_calls_known: "set (extract_c_calls ps src known) \<subseteq> set known"
  by (auto simp: extract_c_calls_def extract_c_calls_ast_def extract_c_calls_regex_def call_name_def
      map_filter_def split: option.splits if_splits)

lemma extract_c_calls_distinct: "distinct (extract_c_calls ps src known)"
  by (auto simp: extract_c_calls_def extract_c_calls_ast_def extract_c_calls_regex_def
      split: option.splits)

section \<open>Difficulty\<close>

definition kind_count :: "string \<Rightarrow> ts_node \<Rightarrow> nat" where
  "kind_count k tree = length (filter (\<lambda>(anc, n). kind n = k) (walk_tree tree))"

definition is_void_ptr_type :: "string \<Rightarrow> ts_node \<Rightarrow> bool" where
  "is_void_ptr_type src n = (kind n = ''type_descriptor''
     \<and> contains (node_text src n) ''void'' \<and> contains (node_text src n) ''*'')"

definition is_callback :: "ts_node list \<Rightarrow> ts_node \<Rightarrow> bool" where
  "is_callback anc n = (kind n = ''function_declarator'' \<and>
     (case anc of parent # grandparent # _ \<Rightarrow>
        kind parent = ''pointer_declarator'' \<and> kind grandparent = ''parameter_declaration''
      | _ \<Rightarrow> False))"

definition count_true :: "bool list \<Rightarrow> nat" where
  "count_true bs = length (filter (\<lambda>b. b) bs)"

definition classify_difficulty_ast_inner :: "parsers \<Rightarrow> string \<Rightarrow> difficulty option" where
  "classify_difficulty_ast_inner ps src =
     (case c_tree ps src of
        None \<Rightarrow> None
      | Some tree \<Rightarrow>
         (let goto_count = kind_count ''goto_statement'' tree;
              union_count = kind_count ''union_specifier'' tree;
              pointer_decl_count = kind_count ''pointer_declarator'' tree;
              cast_count = kind_count ''cast_expression'' tree;
              line_count = length (lines src);
              void_ptr = (\<exists>(anc, n) \<in> set (walk_tree tree). is_void_ptr_type src n)
                         \<or> contains src ''void *'' \<or> contains src ''void*'';
              callback = (\<exists>(anc, n) \<in> set (walk_tree tree). is_callback anc n);
              hard_signals = count_true [0 < goto_count, 0 < union_count, void_ptr, callback];
              medium_signals = count_true [0 < pointer_decl_count, 0 < cast_count]
          in if 1 \<le> hard_signals \<or> (2 \<le> medium_signals \<and> 50 < line_count) then Some Hard
             else if 1 \<le> medium_signals \<or> 2 < pointer_decl_count \<or> 30 < line_count
                     \<or> contains src ''malloc'' then Some Medium
             else Some Easy))"

definition classify_difficulty_regex :: "string \<Rightarrow> difficulty" where
  "classify_difficulty_regex src =
     (let has_pointers = contains src ''*'' \<and> \<not> contains src ''/*'';
          has_malloc = contains src ''malloc'' \<or> contains src ''calloc'';
          has_void_ptr = contains src ''void *'' \<or> contains src ''void*'';
          has_cast = contains src '')('';
          has_goto = contains src ''goto '';
          has_union = contains src ''union '';
          has_callback = contains src ''(*'' \<and> contains src '')('';
          line_count = length (lines src);
          hard_signals = count_true [has_void_ptr, has_goto, has_union, has_callback];
          medium_signals = count_true [has_pointers, has_malloc, has_cast]
      in if 1 \<le> hard_signals \<or> (2 \<le> medium_signals \<and> 50 < line_count) then Hard
         else if 1 \<le> medium_signals \<or> 30 < line_count then Medium
         else Easy)"

definition classify_difficulty_ast :: "parsers \<Rightarrow> string \<Rightarrow> difficulty" where
  "classify_difficulty_ast ps src =
     (case classify_difficulty_ast_inner ps src of Some d \<Rightarrow> d | None \<Rightarrow> classify_difficulty_regex src)"

section \<open>Types\<close>

definition tag_names :: "string \<Rightarrow> ts_node \<Rightarrow> string list" where
  "tag_names src n =
     map (node_text src)
       (filter (\<lambda>c. kind c = ''type_identifier'' \<or> kind c = ''identifier'') (children n))"

definition typedef_name :: "string \<Rightarrow> ts_node \<Rightarrow> string list" where
  "typedef_name src n =
     (case get (children n) (length (children n) - 2) of
        None \<Rightarrow> []
      | Some c \<Rightarrow> if kind c = ''type_identifier'' then [node_text src c] else [])"

definition type_names :: "string \<Rightarrow> ts_node \<Rightarrow> string list" where
  "type_names src n =
     (if kind n = ''struct_specifier'' \<or> kind n = ''enum_specifier'' \<or> kind n = ''union_specifier''
      then tag_names src n
      else if kind n = ''type_definition'' then typedef_name src n else [])"

definition extract_c_types_ast :: "parsers \<Rightarrow> string \<Rightarrow> string list option" where
  "extract_c_types_ast ps src =
     map_option (\<lambda>tree. sort_dedup (concat (map (\<lambda>(anc, n). type_names src n) (walk_tree tree))))
       (c_tree ps src)"

definition extract_c_types_regex :: "parsers \<Rightarrow> string \<Rightarrow> string list" where
  "extract_c_types_regex ps src = sort_dedup (re_c_type ps src)"

definition extract_c_types :: "parsers \<Rightarrow> string \<Rightarrow> string list" where
  "extract_c_types ps src =
     (case extract_c_types_ast ps src of
        Some types \<Rightarrow> if types \<noteq> [] then types else extract_c_types_regex ps src
      | None \<Rightarrow> extract_c_types_regex ps src)"

section \<open>Unsafe code in Rust sources\<close>

text \<open>
  \<open>has_unsafe_modifier\<close> is the loop over the children of a function item: it stops at the first
  modifier list, at \<open>fn\<close>, at the identifier or at the parameters.
\<close>

fun has_unsafe_modifier :: "ts_node list \<Rightarrow> bool" where
  "has_unsafe_modifier [] = False"
| "has_unsafe_modifier (c # cs) =
     (if kind c = ''function_modifiers'' then list_ex (\<lambda>m. kind m = ''unsafe'') (children c)
      else if kind c = ''fn'' \<or> kind c = ''identifier'' \<or> kind c = ''parameters'' then False
      else has_unsafe_modifier cs)"

definition unsafe_here :: "ts_node \<Rightarrow> u32" where
  "unsafe_here n =
     (if kind n = ''unsafe_block'' then 1
      else if kind n = ''function_item'' \<and> has_unsafe_modifier (children n) then 1 else 0)"

fun count_unsafe_recursive :: "ts_node \<Rightarrow> u32" where
  "count_unsafe_recursive (TsNode k a b cs) =
     unsafe_here (TsNode k a b cs) + sum_list (map count_unsafe_recursive cs)"

definition count_unsafe_blocks_tree_sitter :: "parsers \<Rightarrow> string \<Rightarrow> u32 option" where
  "count_unsafe_blocks_tree_sitter ps src = map_option count_unsafe_recursive (rust_tree ps src)"

text \<open>The counter of \<open>ast.rs\<close>: unsafe blocks, and functions whose text starts with a known prefix.\<close>

definition counts_as_unsafe :: "string \<Rightarrow> ts_node \<Rightarrow> bool" where
  "counts_as_unsafe src n =
     (kind n = ''unsafe_block''
      \<or> (kind n = ''function_item''
         \<and> (let trimmed = trim (node_text src n)
             in starts_with trimmed ''unsafe '' \<or> starts_with trimmed ''pub unsafe ''
                \<or> starts_with trimmed ''pub(crate) unsafe '')))"

definition count_unsafe_blocks_ts :: "parsers \<Rightarrow> string \<Rightarrow> u32 option" where
  "count_unsafe_blocks_ts ps src =
     map_option (\<lambda>tree. of_nat (length (filter (\<lambda>(anc, n). counts_as_unsafe src n) (walk_tree tree))))
       (rust_tree ps src)"

lemma count_unsafe_walk:
  "count_unsafe_recursive t = of_nat (length (filter (\<lambda>(anc, n). unsafe_here n = 1) (visits anc0 t)))"
proof (induction t arbitrary: anc0)
  case (TsNode k a b cs)
  let ?t = "TsNode k a b cs"
  have "sum_list (map count_unsafe_recursive ds) =
      of_nat (length (filter (\<lambda>(anc, n). unsafe_here n = 1) (concat (map (visits (?t # anc0)) ds))))"
    if "set ds \<subseteq> set cs" for ds
    using that
  proof (induction ds)
    case (Cons d ds)
    have "count_unsafe_recursive d =
        of_nat (length (filter (\<lambda>(anc, n). unsafe_here n = 1) (visits (?t # anc0) d)))"
      by (rule TsNode.IH) (use Cons.prems in auto)
    with Cons show ?case by simp
  qed simp
  moreover have "unsafe_here ?t = 1 \<or> unsafe_here ?t = 0"
    by (simp add: unsafe_here_def)
  ultimately show ?case by auto
qed

text \<open>
  The recursive tree walk of the unsafe counter returns the number of nodes that are unsafe
  blocks or function items with an \<open>unsafe\<close> modifier (modulo the width of the counter).
\<close>

theorem unsafe_count_counts_nodes:
  "count_unsafe_blocks_tree_sitter ps src =
     map_option (\<lambda>t. of_nat (length (filter (\<lambda>(anc, n). unsafe_here n = 1) (walk_tree t))))
       (rust_tree ps src)"
  by (cases "rust_tree ps src")
     (simp_all add: count_unsafe_blocks_tree_sitter_def walk_tree_def count_unsafe_walk [of _ "[]"])

text \<open>A concrete set of parsers for the witnesses: a Rust text parses to an empty file.\<close>

definition no_parsers :: parsers where
  "no_parsers = \<lparr>c_tree = (\<lambda>_. None), rust_tree = (\<lambda>_. Some (TsNode ''source_file'' 0 0 [])),
     re_c_function = (\<lambda>_. []), re_c_call = (\<lambda>_. []), re_c_type = (\<lambda>_. []), re_rust_fn = (\<lambda>_. [])\<rparr>"

lemma no_parsers_unsafe [simp]: "count_unsafe_blocks_tree_sitter no_parsers src = Some 0"
  by (simp add: count_unsafe_blocks_tree_sitter_def no_parsers_def unsafe_here_def)

end
