(* ===== verification/Chunking.thy ===== *)
theory Chunking
  imports C_Ast "HOL-Library.Multiset"
begin

text \<open>
  Splitting of large C sources (second part of \<open>crates/noricum-tools/src/ast.rs\<close>): chunks for
  multi-pass translation, data blocks, structural chunks, logical modules, and the helpers that
  compare C and Rust functions. Functions are taken in the order the parser lists them.
\<close>

section \<open>Shared context\<close>

definition nonblank_lines :: "string \<Rightarrow> string list" where
  "nonblank_lines s = filter (\<lambda>l. \<not> is_blank l) (lines s)"

definition function_text :: "string \<Rightarrow> c_function \<Rightarrow> string" where
  "function_text src f = slice src (fn_start f) (fn_end f)"

definition signature_line :: "string \<Rightarrow> c_function \<Rightarrow> string list" where
  "signature_line src f =
     (case lines (function_text src f) of
        [] \<Rightarrow> []
      | l # _ \<Rightarrow> [trim_end_matches (\<lambda>c. c = CHR ''{'') (trim l) @ '' // ...''])"

text \<open>
  The loop over the functions with the position after the last one; \<open>sigs\<close> says whether the
  signature lines are kept (they are in the chunkers, not in the module splitter).
\<close>

fun shared_lines :: "bool \<Rightarrow> string \<Rightarrow> nat \<Rightarrow> c_function list \<Rightarrow> string list" where
  "shared_lines sigs src pos [] =
     (if pos < length src then nonblank_lines (drop pos src) else [])"
| "shared_lines sigs src pos (f # fs) =
     (if pos < fn_start f then nonblank_lines (slice src pos (fn_start f)) else [])
     @ (if sigs then signature_line src f else [])
     @ shared_lines sigs src (fn_end f) fs"

definition shared_context_of :: "bool \<Rightarrow> string \<Rightarrow> c_function list \<Rightarrow> string" where
  "shared_context_of sigs src fs = unlines (shared_lines sigs src 0 fs)"

section \<open>Chunks\<close>

record c_chunk =
  chunk_context :: string
  functions_source :: string
  chunk_names :: "string list"
  chunk_lines :: nat
  is_data_chunk :: bool

text \<open>The pending chunk: source, names, number of lines.\<close>

type_synonym pending = "string \<times> string list \<times> nat"

definition add_text :: "string \<Rightarrow> string \<Rightarrow> string" where
  "add_text cur txt = (if cur \<noteq> [] then cur @ [newline, newline] else cur) @ txt"

definition code_chunk :: "string \<Rightarrow> pending \<Rightarrow> c_chunk" where
  "code_chunk ctx p = (case p of (cur, names, n) \<Rightarrow>
     \<lparr>chunk_context = ctx, functions_source = cur, chunk_names = names, chunk_lines = n,
      is_data_chunk = False\<rparr>)"

fun group_functions :: "nat \<Rightarrow> string \<Rightarrow> string \<Rightarrow> pending \<Rightarrow> c_function list \<Rightarrow> c_chunk list" where
  "group_functions target src ctx (cur, names, n) [] =
     (if names \<noteq> [] then [code_chunk ctx (cur, names, n)] else [])"
| "group_functions target src ctx (cur, names, n) (f # fs) =
     (let txt = function_text src f; k = length (lines txt)
      in if names \<noteq> [] \<and> target < n + k then
           code_chunk ctx (cur, names, n)
           # group_functions target src ctx (add_text [] txt, [fn_name f], k) fs
         else group_functions target src ctx (add_text cur txt, names @ [fn_name f], n + k) fs)"

definition chunk_c_source :: "parsers \<Rightarrow> string \<Rightarrow> nat \<Rightarrow> c_chunk list" where
  "chunk_c_source ps src target =
     (let functions = extract_c_functions ps src
      in if functions = [] then
           [\<lparr>chunk_context = src, functions_source = [], chunk_names = [],
             chunk_lines = length (lines src), is_data_chunk = False\<rparr>]
         else group_functions target src (shared_context_of True src functions) ([], [], 0) functions)"

definition is_data_model_function :: "c_function \<Rightarrow> string list \<Rightarrow> bool" where
  "is_data_model_function f known_types =
     (let nm = to_lowercase (fn_name f);
          is_short = length (lines (fn_body f)) < 20;
          has_model_prefix = contains nm ''create'' \<or> contains nm ''new'' \<or> contains nm ''init''
            \<or> contains nm ''is_'' \<or> contains nm ''get_'' \<or> contains nm ''set_'';
          has_cstyle_prefix = list_ex (\<lambda>t. starts_with nm (to_lowercase t)
            \<and> (contains nm ''create'' \<or> contains nm ''is'' \<or> contains nm ''get'' \<or> contains nm ''set''))
            known_types
      in is_short \<and> (has_model_prefix \<or> has_cstyle_prefix))"

section \<open>Static data blocks\<close>

definition count_char :: "char \<Rightarrow> string \<Rightarrow> nat" where
  "count_char c s = length (filter (\<lambda>x. x = c) s)"

definition brace_delta :: "string \<Rightarrow> int" where
  "brace_delta s = int (count_char (CHR ''{'') s) - int (count_char (CHR ''}'') s)"

definition is_static_array :: "string \<Rightarrow> bool" where
  "is_static_array trimmed =
     ((starts_with trimmed ''static '' \<or> starts_with trimmed ''const '')
      \<and> contains trimmed ''['' \<and> (contains trimmed ''= {'' \<or> ends_with trimmed ''= {''))"

definition block_name :: "string \<Rightarrow> string" where
  "block_name trimmed =
     (let ws = split_whitespace (hd (split_char (CHR ''['') trimmed))
      in if ws = [] then ''data'' else last ws)"

text \<open>
  The lines after the first of the block: the loop stops at the line where the braces balance.
\<close>

fun block_end :: "string list \<Rightarrow> int \<Rightarrow> nat \<Rightarrow> nat" where
  "block_end [] depth j = j - 1"
| "block_end (l # ls) depth j =
     (let depth = depth + brace_delta l
      in if depth \<le> 0 \<and> 0 < count_char (CHR ''{'') l + count_char (CHR ''}'') l then j
         else block_end ls depth (j + 1))"

lemma block_end_ge: "ls \<noteq> [] \<or> 0 < j \<Longrightarrow> j \<le> Suc (block_end ls depth j)"
  by (induction ls depth j rule: block_end.induct) (force simp: Let_def)+

definition byte_offset :: "string list \<Rightarrow> nat \<Rightarrow> nat" where
  "byte_offset ls k = sum_list (map (\<lambda>l. length l + 1) (take k ls))"

lemma block_end_first: "ls \<noteq> [] \<Longrightarrow> j \<le> block_end ls depth j"
proof (induction ls depth j rule: block_end.induct)
  case (2 l ls depth j)
  show ?case
  proof (cases "ls = []")
    case False
    with 2 show ?thesis by (auto simp: Let_def dest: Suc_leD)
  qed (simp add: Let_def)
qed simp

function data_blocks_from :: "string \<Rightarrow> string list \<Rightarrow> nat \<Rightarrow> (nat \<times> nat \<times> string) list" where
  "data_blocks_from src ls i =
     (if length ls \<le> i then []
      else (let trimmed = trim (ls ! i)
            in if is_static_array trimmed then
                 (let end_line = block_end (drop i ls) 0 i;
                      block_lines = end_line - i + 1
                  in (if 30 < block_lines then
                        [(min (byte_offset ls i) (length src),
                          min (byte_offset ls (end_line + 1)) (length src), block_name trimmed)]
                      else [])
                     @ data_blocks_from src ls (end_line + 1))
               else data_blocks_from src ls (i + 1)))"
  by pat_completeness auto
termination
proof (relation "measure (\<lambda>(src, ls, i). length ls - i)", goal_cases)
  case (2 src ls i trimmed end_line block_lines)
  then have "i \<le> block_end (drop i ls) 0 i" by (intro block_end_first) auto
  with 2 show ?case by auto
qed auto

declare data_blocks_from.simps [simp del]

definition detect_static_data_blocks :: "string \<Rightarrow> (nat \<times> nat \<times> string) list" where
  "detect_static_data_blocks src = data_blocks_from src (lines src) 0"

section \<open>Structural chunks\<close>

definition join_texts :: "string list \<Rightarrow> string" where
  "join_texts txts = fold (\<lambda>txt cur. add_text cur txt) txts []"

definition model_chunk :: "string \<Rightarrow> string \<Rightarrow> c_function list \<Rightarrow> c_chunk" where
  "model_chunk src ctx fs =
     \<lparr>chunk_context = ctx, functions_source = join_texts (map (function_text src) fs),
      chunk_names = map fn_name fs,
      chunk_lines = sum_list (map (\<lambda>f. length (lines (function_text src f))) fs),
      is_data_chunk = False\<rparr>"

definition data_chunks :: "string \<Rightarrow> string \<Rightarrow> c_chunk list" where
  "data_chunks src ctx =
     (let blocks = detect_static_data_blocks src;
          texts = map (\<lambda>(a, b, nm). slice src a b) blocks;
          data_lines = sum_list (map (\<lambda>t. length (lines t)) texts)
      in if blocks \<noteq> [] \<and> 0 < data_lines then
           [\<lparr>chunk_context = ctx, functions_source = join_texts texts,
             chunk_names = map (\<lambda>(a, b, nm). nm) blocks, chunk_lines = data_lines,
             is_data_chunk = True\<rparr>]
         else [])"

definition chunk_c_source_structural :: "parsers \<Rightarrow> string \<Rightarrow> nat \<Rightarrow> c_chunk list" where
  "chunk_c_source_structural ps src target =
     (let functions = extract_c_functions ps src;
          types = extract_c_types ps src
      in if types = [] \<or> functions = [] then chunk_c_source ps src target
         else (let model_funcs = filter (\<lambda>f. is_data_model_function f types) functions;
                   logic_funcs = filter (\<lambda>f. \<not> is_data_model_function f types) functions
               in if model_funcs = [] then chunk_c_source ps src target
                  else (let ctx = shared_context_of True src functions
                        in model_chunk src ctx model_funcs # data_chunks src ctx
                           @ group_functions target src ctx ([], [], 0) logic_funcs)))"

section \<open>Modules\<close>

record c_module =
  cm_name :: string
  module_source :: string
  module_functions :: "string list"
  module_lines :: nat

record module_split =
  split_modules :: "c_module list"
  split_context :: string

definition mk_module :: "string \<Rightarrow> string \<Rightarrow> string list \<Rightarrow> c_module" where
  "mk_module nm source names = \<lparr>cm_name = nm, module_source = source,
     module_functions = names, module_lines = length (lines source)\<rparr>"

definition camel_end :: "string \<Rightarrow> nat option" where
  "camel_end nm = find (\<lambda>i. is_uppercase (nm ! i) \<and> is_lowercase (nm ! (i - 1))) [1..<length nm]"

definition extract_function_prefix :: "string \<Rightarrow> string" where
  "extract_function_prefix nm =
     (case find_char nm (CHR ''_'') of
        Some idx \<Rightarrow> if 1 < idx then to_lowercase (take idx nm)
                    else (case camel_end nm of Some e \<Rightarrow> if 1 < e then to_lowercase (take e nm)
                                                         else to_lowercase nm
                          | None \<Rightarrow> to_lowercase nm)
      | None \<Rightarrow> (case camel_end nm of Some e \<Rightarrow> if 1 < e then to_lowercase (take e nm)
                                                 else to_lowercase nm
                 | None \<Rightarrow> to_lowercase nm))"

text \<open>\<open>groups.entry(k).or_default().push(v)\<close> on a \<open>BTreeMap\<close>: an association list sorted by key.\<close>

fun entry_push :: "'k::linorder \<Rightarrow> 'v \<Rightarrow> ('k \<times> 'v list) list \<Rightarrow> ('k \<times> 'v list) list" where
  "entry_push k v [] = [(k, [v])]"
| "entry_push k v ((k', vs) # rest) =
     (if k = k' then (k', vs @ [v]) # rest
      else if k < k' then (k, [v]) # (k', vs) # rest
      else (k', vs) # entry_push k v rest)"

definition function_lines :: "string \<Rightarrow> c_function \<Rightarrow> nat" where
  "function_lines src f = length (lines (function_text src f))"

definition part_header :: "string \<Rightarrow> nat \<Rightarrow> string" where
  "part_header prefix part =
     [newline, newline] @ ''// === Module functions ('' @ prefix @ '' part '' @ show_nat part
     @ '') ==='' @ [newline]"

definition part_name :: "string \<Rightarrow> nat \<Rightarrow> string" where
  "part_name prefix part = prefix @ ''_p'' @ show_nat part"

fun sub_split :: "nat \<Rightarrow> string \<Rightarrow> string \<Rightarrow> string \<Rightarrow> nat \<Rightarrow> pending \<Rightarrow> c_function list \<Rightarrow> c_module list" where
  "sub_split target prefix src ctx part (cur, names, n) [] =
     (if names \<noteq> [] then
        [if 1 < part then mk_module (part_name prefix part) (ctx @ part_header prefix part @ cur) names
         else mk_module prefix
                (ctx @ [newline, newline] @ ''// === Module functions ==='' @ [newline] @ cur) names]
      else [])"
| "sub_split target prefix src ctx part (cur, names, n) (f # fs) =
     (let txt = function_text src f; k = length (lines txt)
      in if names \<noteq> [] \<and> target < n + k then
           mk_module (part_name prefix part) (ctx @ part_header prefix part @ cur) names
           # sub_split target prefix src ctx (part + 1) (newline # txt, [fn_name f], k) fs
         else sub_split target prefix src ctx part (cur @ newline # txt, names @ [fn_name f], n + k) fs)"

definition sub_split_function_group ::
  "string \<Rightarrow> c_function list \<Rightarrow> string \<Rightarrow> string \<Rightarrow> nat \<Rightarrow> c_module list" where
  "sub_split_function_group prefix funcs src ctx target =
     sub_split target prefix src ctx 1 ([], [], 0) funcs"

text \<open>One module for a group, or several when it has more than \<open>max_loc\<close> lines.\<close>

definition group_modules ::
  "nat \<Rightarrow> nat \<Rightarrow> string \<Rightarrow> string \<Rightarrow> string \<Rightarrow> string \<Rightarrow> c_function list \<Rightarrow> c_module list" where
  "group_modules max_loc sub_target src ctx title prefix funcs =
     (if max_loc < sum_list (map (function_lines src) funcs)
      then sub_split_function_group prefix funcs src ctx sub_target
      else [mk_module prefix
              (ctx @ [newline, newline] @ ''// === '' @ title @ '' functions ==='' @ [newline]
               @ concat (map (\<lambda>f. newline # function_text src f) funcs))
              (map fn_name funcs)])"

definition is_misc_group :: "string \<times> c_function list \<Rightarrow> bool" where
  "is_misc_group g = (length (snd g) < 2 \<or> fst g = ''main'')"

definition split_into_modules :: "parsers \<Rightarrow> string \<Rightarrow> nat option \<Rightarrow> module_split" where
  "split_into_modules ps src target_module_loc =
     (let functions = extract_c_functions ps src
      in if length functions < 4 then
           \<lparr>split_modules = [mk_module ''main'' src (map fn_name functions)], split_context = []\<rparr>
         else
           (let ctx = shared_context_of False src functions;
                groups = fold (\<lambda>f gs. entry_push (extract_function_prefix (fn_name f)) f gs) functions [];
                max_loc = unwrap_or target_module_loc 1000;
                sub_target = (max_loc * 3) div 5;
                misc = concat (map snd (filter is_misc_group groups));
                mods = concat (map (\<lambda>(prefix, fs). group_modules max_loc sub_target src ctx ''Module'' prefix fs)
                                (filter (\<lambda>g. \<not> is_misc_group g) groups))
            in \<lparr>split_modules = mods @ (if misc \<noteq> [] then
                     group_modules max_loc sub_target src ctx ''Miscellaneous'' ''misc'' misc else []),
                split_context = ctx\<rparr>))"

section \<open>Comparing with the Rust output\<close>

definition extract_rust_signatures :: "string \<Rightarrow> string list" where
  "extract_rust_signatures src =
     map (\<lambda>l. let t = trim l
               in (case find_char t (CHR ''{'') of Some b \<Rightarrow> trim (take b t) | None \<Rightarrow> t))
       (filter (\<lambda>l. let t = trim l
                     in (starts_with t ''pub fn '' \<or> starts_with t ''fn '') \<and> contains t ''('')
          (lines src))"

definition extract_rust_function_names :: "parsers \<Rightarrow> string \<Rightarrow> string list" where
  "extract_rust_function_names ps src = re_rust_fn ps src"

text \<open>The previous character decides whether an underscore is put before an upper case letter.\<close>

fun snake_from :: "char option \<Rightarrow> string \<Rightarrow> string" where
  "snake_from prev [] = []"
| "snake_from prev (c # cs) =
     (case prev of
        Some p \<Rightarrow> if is_uppercase c \<and> (is_lowercase p \<or> is_digit p) then ''_'' else []
      | None \<Rightarrow> []) @ lower_char c # snake_from (Some c) cs"

definition to_snake_case :: "string \<Rightarrow> string" where
  "to_snake_case nm = snake_from None nm"

definition find_missing_c_functions :: "parsers \<Rightarrow> c_function list \<Rightarrow> string \<Rightarrow> c_function list" where
  "find_missing_c_functions ps fs rust_src =
     (let rust_names = map to_lowercase (extract_rust_function_names ps rust_src);
          rust_lower = to_lowercase rust_src
      in filter (\<lambda>cf. let c_name = to_lowercase (fn_name cf); snake = to_snake_case (fn_name cf)
                      in c_name \<notin> set rust_names \<and> snake \<notin> set rust_names
                         \<and> \<not> contains rust_lower (''fn '' @ c_name @ ''('')
                         \<and> \<not> contains rust_lower (''fn '' @ snake @ ''('')) fs)"

section \<open>Rust type definitions\<close>

definition starts_definition :: "string \<Rightarrow> bool" where
  "starts_definition t = list_ex (starts_with t)
     [''pub struct '', ''struct '', ''pub enum '', ''enum '', ''pub const '', ''const '',
      ''pub type '', ''type '', ''impl '']"

text \<open>The lines up to the one that balances the braces (or to the end), and the rest.\<close>

fun until_balanced :: "int \<Rightarrow> string list \<Rightarrow> string list \<times> string list" where
  "until_balanced depth [] = ([], [])"
| "until_balanced depth (l # ls) =
     (if 0 < depth then
        (let (taken, rest) = until_balanced (depth + brace_delta l) ls in (l # taken, rest))
      else ([], l # ls))"

lemma until_balanced_split: "fst (until_balanced d ls) @ snd (until_balanced d ls) = ls"
  by (induction d ls rule: until_balanced.induct) (auto simp: case_prod_beta Let_def)

function definition_blocks :: "string list \<Rightarrow> string list list" where
  "definition_blocks [] = []"
| "definition_blocks (l # ls) =
     (if starts_definition (trim l) then
        (let (taken, rest) = until_balanced (brace_delta l) ls
         in (l # taken) # definition_blocks rest)
      else definition_blocks ls)"
  by pat_completeness auto
termination
proof (relation "measure length", goal_cases)
  case (2 l ls x taken rest)
  then have "length taken + length rest = length ls"
    using until_balanced_split [of "brace_delta l" ls] by (metis fst_conv length_append snd_conv)
  then show ?case by simp
qed auto

definition extract_rust_type_definitions :: "string \<Rightarrow> string list" where
  "extract_rust_type_definitions src = map unlines (definition_blocks (lines src))"

section \<open>No function is lost\<close>

lemma group_names:
  "concat (map chunk_names (group_functions t src ctx p fs)) = fst (snd p) @ map fn_name fs"
  by (induction t src ctx p fs rule: group_functions.induct) (auto simp: Let_def code_chunk_def)

lemma group_not_data: "c \<in> set (group_functions t src ctx p fs) \<Longrightarrow> \<not> is_data_chunk c"
  by (induction t src ctx p fs rule: group_functions.induct)
     (auto simp: Let_def code_chunk_def split: if_splits)

lemma group_sizes:
  "c \<in> set (group_functions t src ctx p fs) \<Longrightarrow>
   (fst (snd p) = [] \<longrightarrow> snd (snd p) = 0) \<Longrightarrow> length (fst (snd p)) \<le> 1 \<or> snd (snd p) \<le> t \<Longrightarrow>
   chunk_names c \<noteq> [] \<and> (length (chunk_names c) = 1 \<or> chunk_lines c \<le> t)"
proof (induction t src ctx p fs rule: group_functions.induct)
  case (1 target src ctx cur names n)
  then show ?case
    by (cases names) (auto simp: code_chunk_def split: if_splits)
next
  case (2 target src ctx cur names n f fs)
  let ?k = "length (lines (function_text src f))"
  show ?case
  proof (cases "names \<noteq> [] \<and> target < n + ?k")
    case True
    then have "c = code_chunk ctx (cur, names, n) \<or>
        c \<in> set (group_functions target src ctx (add_text [] (function_text src f), [fn_name f], ?k) fs)"
      using "2.prems"(1) by (auto simp: Let_def)
    then show ?thesis
    proof
      assume "c = code_chunk ctx (cur, names, n)"
      then show ?thesis using True "2.prems"(3) by (cases names) (auto simp: code_chunk_def)
    next
      assume "c \<in> set (group_functions target src ctx (add_text [] (function_text src f), [fn_name f], ?k) fs)"
      then show ?thesis by (intro "2.IH"(1) [OF refl refl]) (use True in auto)
    qed
  next
    case False
    then have "c \<in> set (group_functions target src ctx
        (add_text cur (function_text src f), names @ [fn_name f], n + ?k) fs)"
      using "2.prems"(1) by (auto simp: Let_def split: if_splits)
    then show ?thesis
      by (intro "2.IH"(2) [OF refl refl]) (use False in auto)
  qed
qed

text \<open>
  Chunking a C source that has functions: the chunks list every function once, in source
  order; no chunk is empty; and a chunk longer than the target holds a single function.
\<close>

theorem chunks_keep_functions:
  assumes "extract_c_functions ps src \<noteq> []"
  shows "concat (map chunk_names (chunk_c_source ps src target)) = map fn_name (extract_c_functions ps src)
     \<and> (\<forall>c \<in> set (chunk_c_source ps src target).
          chunk_names c \<noteq> [] \<and> (length (chunk_names c) = 1 \<or> chunk_lines c \<le> target))"
proof -
  have eq: "chunk_c_source ps src target = group_functions target src
      (shared_context_of True src (extract_c_functions ps src)) ([], [], 0) (extract_c_functions ps src)"
    using assms by (simp add: chunk_c_source_def Let_def)
  show ?thesis unfolding eq using group_sizes by (auto simp: group_names)
qed

lemma filter_all_data: "(\<And>c. c \<in> set cs \<Longrightarrow> P c) \<Longrightarrow> filter P cs = cs"
  by (simp add: filter_id_conv)

text \<open>
  Structural chunking neither loses nor repeats a function: the code chunks together name
  each function as often as the source defines it, the data model functions first. The data
  blocks only appear in chunks marked as data.
\<close>

theorem structural_chunks_keep_functions:
  "mset (concat (map chunk_names (filter (\<lambda>c. \<not> is_data_chunk c) (chunk_c_source_structural ps src target))))
     = mset (map fn_name (extract_c_functions ps src))"
proof -
  let ?fs = "extract_c_functions ps src" and ?ts = "extract_c_types ps src"
  let ?m = "filter (\<lambda>f. is_data_model_function f ?ts) ?fs"
  let ?l = "filter (\<lambda>f. \<not> is_data_model_function f ?ts) ?fs"
  have plain: "filter (\<lambda>c. \<not> is_data_chunk c) (group_functions target src ctx p fs)
      = group_functions target src ctx p fs" for ctx p fs
    using group_not_data by (intro filter_all_data) blast
  have chunked: "mset (concat (map chunk_names (filter (\<lambda>c. \<not> is_data_chunk c) (chunk_c_source ps src target))))
      = mset (map fn_name ?fs)"
    by (simp add: chunk_c_source_def Let_def plain group_names)
  show ?thesis
  proof (cases "?ts = [] \<or> ?fs = [] \<or> ?m = []")
    case True
    then have "chunk_c_source_structural ps src target = chunk_c_source ps src target"
      by (auto simp: chunk_c_source_structural_def Let_def)
    then show ?thesis using chunked by simp
  next
    case False
    define ctx where "ctx = shared_context_of True src ?fs"
    have data: "filter (\<lambda>c. \<not> is_data_chunk c) (data_chunks src ctx) = []"
      by (simp add: data_chunks_def Let_def)
    have "chunk_c_source_structural ps src target = model_chunk src ctx ?m # data_chunks src ctx
        @ group_functions target src ctx ([], [], 0) ?l"
      using False by (simp add: chunk_c_source_structural_def Let_def ctx_def)
    then have "concat (map chunk_names (filter (\<lambda>c. \<not> is_data_chunk c)
          (chunk_c_source_structural ps src target))) = map fn_name ?m @ map fn_name ?l"
      using data by (simp add: plain group_names model_chunk_def)
    then show ?thesis by (simp flip: image_mset_union) 
  qed
qed

text \<open>Parsers for the witnesses: no tree, and the expressions find two functions.\<close>

definition two_functions :: parsers where
  "two_functions = no_parsers\<lparr>re_c_function := (\<lambda>_. [''hash_put'', ''hash_get''])\<rparr>"

lemma two_functions_extracted:
  "map fn_name (extract_c_functions two_functions src) = [''hash_put'', ''hash_get'']"
  by (simp add: extract_c_functions_def extract_c_functions_ast_def extract_c_functions_regex_def
      two_functions_def no_parsers_def fn_keywords_def)

theorem chunks_keep_functions_witness:
  "concat (map chunk_names (chunk_c_source two_functions ''int x;'' 10)) = [''hash_put'', ''hash_get'']"
proof -
  have "extract_c_functions two_functions ''int x;'' \<noteq> []"
    using two_functions_extracted [of "''int x;''"] by auto
  from chunks_keep_functions [OF this, of 10] show ?thesis
    by (simp add: two_functions_extracted)
qed

lemma mset_entry_push:
  "mset (concat (map snd (entry_push k v gs))) = add_mset v (mset (concat (map snd gs)))"
  by (induction k v gs rule: entry_push.induct) auto

lemma mset_groups:
  "mset (concat (map snd (fold (\<lambda>f gs. entry_push (key f) f gs) fs gs)))
     = mset (concat (map snd gs)) + mset fs"
  by (induction fs arbitrary: gs) (auto simp: mset_entry_push)

lemma entry_push_nonempty: "[] \<notin> snd ` set gs \<Longrightarrow> [] \<notin> snd ` set (entry_push k v gs)"
  by (induction k v gs rule: entry_push.induct) auto

lemma groups_nonempty:
  "[] \<notin> snd ` set gs \<Longrightarrow> [] \<notin> snd ` set (fold (\<lambda>f gs. entry_push (key f) f gs) fs gs)"
  by (induction fs arbitrary: gs) (auto dest: entry_push_nonempty)

lemma mset_partition:
  "mset (concat (map snd (filter P gs))) + mset (concat (map snd (filter (\<lambda>g. \<not> P g) gs)))
     = mset (concat (map snd gs))"
  by (induction gs) (auto simp: ac_simps)

text \<open>
  What a module is to hold: the functions it lists, and as its text the context, a title and the text of each of these
  functions once, in order. All have the prefix of the module, or it is the module for the rest; and it has at most
  \<open>max_loc\<close> lines of functions, or a single function.
\<close>

definition holds_functions :: "nat \<Rightarrow> string \<Rightarrow> string \<Rightarrow> c_function list \<Rightarrow> c_module \<Rightarrow> bool" where
  "holds_functions max_loc src ctx fs m \<longleftrightarrow>
     fs \<noteq> [] \<and> module_functions m = map fn_name fs
     \<and> (sum_list (map (function_lines src) fs) \<le> max_loc \<or> length fs = 1)
     \<and> module_lines m = length (lines (module_source m))
     \<and> (\<exists>prefix title k.
          (prefix = ''misc'' \<or> (\<forall>f \<in> set fs. extract_function_prefix (fn_name f) = prefix))
          \<and> (title = ''Module functions'' \<and> cm_name m = prefix
             \<or> title = ''Miscellaneous functions'' \<and> cm_name m = prefix \<and> prefix = ''misc''
             \<or> title = ''Module functions ('' @ prefix @ '' part '' @ show_nat k @ '')'' \<and> cm_name m = prefix @ ''_p'' @ show_nat k)
          \<and> module_source m = ctx @ [newline, newline] @ ''// === '' @ title @ '' ==='' @ [newline]
               @ concat (map (\<lambda>f. newline # function_text src f) fs))"

definition same_prefix :: "string \<Rightarrow> c_function list \<Rightarrow> bool" where
  "same_prefix prefix fs \<longleftrightarrow> prefix = ''misc'' \<or> (\<forall>f \<in> set fs. extract_function_prefix (fn_name f) = prefix)"

abbreviation function_texts :: "string \<Rightarrow> c_function list \<Rightarrow> string" where
  "function_texts src fs \<equiv> concat (map (\<lambda>f. newline # function_text src f) fs)"

lemma part_holds:
  assumes "fs \<noteq> []" "same_prefix prefix fs" "sum_list (map (function_lines src) fs) \<le> max_loc \<or> length fs = 1"
  shows "holds_functions max_loc src ctx fs
      (mk_module (part_name prefix k) (ctx @ part_header prefix k @ function_texts src fs) (map fn_name fs))"
    and "holds_functions max_loc src ctx fs (mk_module prefix
      (ctx @ [newline, newline] @ ''// === Module functions ==='' @ [newline] @ function_texts src fs) (map fn_name fs))"
    and "prefix = ''misc'' \<Longrightarrow> holds_functions max_loc src ctx fs (mk_module prefix
      (ctx @ [newline, newline] @ ''// === Miscellaneous functions ==='' @ [newline] @ function_texts src fs) (map fn_name fs))"
proof -
  show "holds_functions max_loc src ctx fs
      (mk_module (part_name prefix k) (ctx @ part_header prefix k @ function_texts src fs) (map fn_name fs))"
    unfolding holds_functions_def mk_module_def
    by (intro conjI exI [of _ prefix] exI [of _ "''Module functions ('' @ prefix @ '' part '' @ show_nat k @ '')''"] exI [of _ k])
      (use assms in \<open>simp_all add: same_prefix_def part_name_def part_header_def\<close>)
  show "holds_functions max_loc src ctx fs (mk_module prefix
      (ctx @ [newline, newline] @ ''// === Module functions ==='' @ [newline] @ function_texts src fs) (map fn_name fs))"
    unfolding holds_functions_def mk_module_def
    by (intro conjI exI [of _ prefix] exI [of _ "''Module functions''"] exI [of _ 0])
      (use assms in \<open>simp_all add: same_prefix_def\<close>)
  show "prefix = ''misc'' \<Longrightarrow> holds_functions max_loc src ctx fs (mk_module prefix
      (ctx @ [newline, newline] @ ''// === Miscellaneous functions ==='' @ [newline] @ function_texts src fs) (map fn_name fs))"
    unfolding holds_functions_def mk_module_def
    by (intro conjI exI [of _ prefix] exI [of _ "''Miscellaneous functions''"] exI [of _ 0])
      (use assms in \<open>simp_all add: same_prefix_def\<close>)
qed

text \<open>The loop of the sub-modules: the pending module holds the functions \<open>done\<close>.\<close>

lemma sub_split_holds:
  assumes "same_prefix prefix (dn @ fs)" "target \<le> max_loc"
    and "sum_list (map (function_lines src) dn) \<le> target \<or> length dn = 1"
  shows "\<exists>fss. concat fss = dn @ fs \<and> list_all2 (holds_functions max_loc src ctx) fss
    (sub_split target prefix src ctx part
      (function_texts src dn, map fn_name dn, sum_list (map (function_lines src) dn)) fs)"
  using assms(1,3)
proof (induction fs arbitrary: dn part)
  case Nil
  show ?case
  proof (cases "dn = []")
    case False
    then show ?thesis
      using Nil assms(2) part_holds [of dn prefix src max_loc ctx] by (intro exI [of _ "[dn]"]) auto
  qed (auto intro: exI [of _ "[]"])
next
  case (Cons f fs)
  define size where "size = sum_list (map (function_lines src) dn)"
  define k where "k = function_lines src f"
  have len: "length (lines (function_text src f)) = k" by (simp add: k_def function_lines_def)
  show ?case
  proof (cases "dn \<noteq> [] \<and> target < size + k")
    case True
    have "same_prefix prefix ([f] @ fs)" "same_prefix prefix dn" using Cons.prems(1) by (auto simp: same_prefix_def)
    with Cons.IH [of "[f]" "part + 1"] obtain fss where "concat fss = [f] @ fs" "list_all2 (holds_functions max_loc src ctx) fss
        (sub_split target prefix src ctx (part + 1) (newline # function_text src f, [fn_name f], k) fs)"
      by (auto simp: k_def)
    moreover have "holds_functions max_loc src ctx dn
        (mk_module (part_name prefix part) (ctx @ part_header prefix part @ function_texts src dn) (map fn_name dn))"
      using True Cons.prems(2) assms(2) \<open>same_prefix prefix dn\<close> by (intro part_holds) auto
    ultimately show ?thesis
      using True by (intro exI [of _ "dn # fss"]) (simp add: Let_def size_def [symmetric] len)
  next
    case False
    have "same_prefix prefix ((dn @ [f]) @ fs)" using Cons.prems(1) by simp
    moreover have "sum_list (map (function_lines src) (dn @ [f])) \<le> target \<or> length (dn @ [f]) = 1"
      using False by (auto simp: size_def k_def)
    ultimately obtain fss where "concat fss = (dn @ [f]) @ fs" "list_all2 (holds_functions max_loc src ctx) fss
        (sub_split target prefix src ctx part (function_texts src (dn @ [f]), map fn_name (dn @ [f]),
           sum_list (map (function_lines src) (dn @ [f]))) fs)"
      using Cons.IH by blast
    then show ?thesis
      using False by (intro exI [of _ fss]) (auto simp: Let_def size_def [symmetric] len simp flip: k_def)
  qed
qed

lemma group_modules_holds:
  assumes "fs \<noteq> []" "same_prefix prefix fs" "target \<le> max_loc"
    and "title = ''Module'' \<or> title = ''Miscellaneous'' \<and> prefix = ''misc''"
  shows "\<exists>fss. concat fss = fs \<and> list_all2 (holds_functions max_loc src ctx) fss
    (group_modules max_loc target src ctx title prefix fs)"
proof (cases "max_loc < sum_list (map (function_lines src) fs)")
  case True
  then show ?thesis
    using sub_split_holds [of prefix "[]" fs target max_loc src ctx 1] assms(2,3)
    by (simp add: group_modules_def sub_split_function_group_def)
next
  case False
  then show ?thesis
    using part_holds(2,3) [of fs prefix src max_loc ctx] assms
    by (intro exI [of _ "[fs]"]) (auto simp: group_modules_def)
qed

lemma concat_groups_hold:
  assumes "\<forall>(prefix, fs) \<in> set gs. fs \<noteq> [] \<and> same_prefix prefix fs" "target \<le> max_loc"
  shows "\<exists>fss. concat fss = concat (map snd gs) \<and> list_all2 (holds_functions max_loc src ctx) fss
    (concat (map (\<lambda>(prefix, fs). group_modules max_loc target src ctx ''Module'' prefix fs) gs))"
  using assms(1)
proof (induction gs)
  case (Cons g gs)
  obtain prefix fs where g: "g = (prefix, fs)" by fastforce
  from Cons obtain fss where fss: "concat fss = concat (map snd gs)" "list_all2 (holds_functions max_loc src ctx) fss
    (concat (map (\<lambda>(prefix, fs). group_modules max_loc target src ctx ''Module'' prefix fs) gs))" by auto
  from Cons.prems g group_modules_holds [of fs prefix target max_loc "''Module''" src ctx] assms(2) obtain ffs where
    "concat ffs = fs" "list_all2 (holds_functions max_loc src ctx) ffs (group_modules max_loc target src ctx ''Module'' prefix fs)"
    by auto
  with fss show ?case by (intro exI [of _ "ffs @ fss"]) (auto simp: g intro: list_all2_appendI)
qed (auto intro: exI [of _ "[]"])

lemma entry_push_keys:
  "\<forall>(k, vs) \<in> set gs. \<forall>v \<in> set vs. key v = k \<Longrightarrow> \<forall>(k, vs) \<in> set (entry_push (key v) v gs). \<forall>v \<in> set vs. key v = k"
  by (induction "key v" v gs rule: entry_push.induct) auto

lemma groups_keys:
  "\<forall>(k, vs) \<in> set gs. \<forall>v \<in> set vs. key v = k \<Longrightarrow>
   \<forall>(k, vs) \<in> set (fold (\<lambda>f gs. entry_push (key f) f gs) fs gs). \<forall>v \<in> set vs. key v = k"
proof (induction fs arbitrary: gs)
  case (Cons f fs)
  from Cons.IH [OF entry_push_keys [OF Cons.prems, of f]] show ?case by simp
qed simp

lemma split_modules_large:
  fixes target_loc :: "nat option"
  assumes "\<not> length (extract_c_functions ps src) < 4"
  defines "groups \<equiv> fold (\<lambda>f gs. entry_push (extract_function_prefix (fn_name f)) f gs)
                        (extract_c_functions ps src) []"
  defines "ctx \<equiv> shared_context_of False src (extract_c_functions ps src)"
  defines "ml \<equiv> unwrap_or target_loc 1000"
  shows "split_modules (split_into_modules ps src target_loc) =
     concat (map (\<lambda>(prefix, fs). group_modules ml (ml * 3 div 5) src ctx ''Module'' prefix fs)
               (filter (\<lambda>g. \<not> is_misc_group g) groups))
     @ (if concat (map snd (filter is_misc_group groups)) \<noteq> [] then
          group_modules ml (ml * 3 div 5) src ctx ''Miscellaneous'' ''misc''
            (concat (map snd (filter is_misc_group groups))) else [])"
  using assms by (simp add: split_into_modules_def Let_def del: concat_eq_Nil_conv)

text \<open>
  C38: Splitting into modules. A source with fewer than four functions is one module with the whole text. Otherwise the
  functions of the source are distributed over the modules, each function definition to exactly one: a module
  lists the names of its functions and its text is the shared context, a title and the text of each of its functions
  once, in order. Its functions have the same prefix, unless it is one for the rest, and their lines
  are at most the limit, unless it holds a single function.
\<close>

theorem modules_keep_functions:
  "if length (extract_c_functions ps src) < 4
   then split_modules (split_into_modules ps src loc)
          = [\<lparr>cm_name = ''main'', module_source = src, module_functions = map fn_name (extract_c_functions ps src),
              module_lines = length (lines src)\<rparr>]
   else \<exists>fss. mset (concat fss) = mset (extract_c_functions ps src)
     \<and> list_all2 (holds_functions (unwrap_or loc 1000) src (shared_context_of False src (extract_c_functions ps src)))
         fss (split_modules (split_into_modules ps src loc))"
proof (cases "length (extract_c_functions ps src) < 4")
  case True
  then show ?thesis by (simp add: split_into_modules_def Let_def mk_module_def)
next
  case False
  let ?fs = "extract_c_functions ps src"
  define gs where "gs = fold (\<lambda>f gs. entry_push (extract_function_prefix (fn_name f)) f gs) ?fs []"
  define ctx where "ctx = shared_context_of False src ?fs"
  define ml where "ml = unwrap_or loc 1000"
  note mods = split_modules_large [OF False, of loc, folded gs_def ctx_def ml_def]
  have "mset (concat (map snd gs)) = mset ?fs"
    unfolding gs_def by (simp add: mset_groups)
  then have all: "mset (concat (map snd (filter (\<lambda>g. \<not> is_misc_group g) gs)))
      + mset (concat (map snd (filter is_misc_group gs))) = mset ?fs"
    using mset_partition [of is_misc_group gs] by (simp add: ac_simps)
  have "[] \<notin> snd ` set gs" unfolding gs_def by (rule groups_nonempty) simp
  moreover have "\<forall>(k, vs) \<in> set gs. \<forall>v \<in> set vs. extract_function_prefix (fn_name v) = k"
    unfolding gs_def by (rule groups_keys) simp
  ultimately have "\<forall>(prefix, fs) \<in> set (filter (\<lambda>g. \<not> is_misc_group g) gs). fs \<noteq> [] \<and> same_prefix prefix fs"
    by (force simp: same_prefix_def)
  moreover have le: "ml * 3 div 5 \<le> ml" by linarith
  ultimately obtain fss where
    fss: "concat fss = concat (map snd (filter (\<lambda>g. \<not> is_misc_group g) gs))"
      "list_all2 (holds_functions ml src ctx) fss (concat (map (\<lambda>(prefix, fs).
         group_modules ml (ml * 3 div 5) src ctx ''Module'' prefix fs) (filter (\<lambda>g. \<not> is_misc_group g) gs)))"
    using concat_groups_hold [of "filter (\<lambda>g. \<not> is_misc_group g) gs" "ml * 3 div 5" ml src ctx] by blast
  let ?misc = "concat (map snd (filter is_misc_group gs))"
  obtain rest where rest: "concat rest = ?misc"
      "list_all2 (holds_functions ml src ctx) rest
        (if ?misc \<noteq> [] then group_modules ml (ml * 3 div 5) src ctx ''Miscellaneous'' ''misc'' ?misc else [])"
  proof (cases "?misc = []")
    case empty: True
    then show ?thesis using that [of "[]"] by simp
  next
    case False
    then show ?thesis
      using group_modules_holds [of ?misc "''misc''" "ml * 3 div 5" ml "''Miscellaneous''" src ctx] that le
      by (auto simp: same_prefix_def)
  qed
  have "mset (concat (fss @ rest)) = mset ?fs" using fss(1) rest(1) all by simp
  moreover have "list_all2 (holds_functions ml src ctx) (fss @ rest) (split_modules (split_into_modules ps src loc))"
    unfolding mods by (rule list_all2_appendI [OF fss(2) rest(2)])
  ultimately show ?thesis unfolding if_not_P [OF False] ml_def [symmetric] ctx_def [symmetric] by blast
qed

text \<open>A source with four functions of one line, and its tree. The limit is two lines.\<close>

definition listed_source :: string where
  "listed_source = ''aa_f{};aa_g{};aa_h{};bb_f{};''"

definition listed_node :: "nat \<Rightarrow> ts_node" where
  "listed_node i = TsNode ''function_definition'' i (i + 7)
     [TsNode ''function_declarator'' i (i + 4) [TsNode ''identifier'' i (i + 4) []]]"

definition listed_parsers :: parsers where
  "listed_parsers = no_parsers\<lparr>c_tree := (\<lambda>_. Some (TsNode ''translation_unit'' 0 28 (map listed_node [0, 7, 14, 21])))\<rparr>"

definition listed_function :: "string \<Rightarrow> nat \<Rightarrow> c_function" where
  "listed_function nm i = \<lparr>fn_name = nm, fn_return_type = [], fn_body = [], fn_start = i, fn_end = i + 7\<rparr>"

lemma listed_extracted: "extract_c_functions listed_parsers listed_source =
    [listed_function ''aa_f'' 0, listed_function ''aa_g'' 7, listed_function ''aa_h'' 14, listed_function ''bb_f'' 21]"
  by code_simp

lemma listed_modules:
  "map cm_name (split_modules (split_into_modules listed_parsers listed_source (Some 2))) = [''aa_p1'', ''aa_p2'', ''aa_p3'', ''misc'']"
  "map module_functions (split_modules (split_into_modules listed_parsers listed_source (Some 2)))
     = [[''aa_f''], [''aa_g''], [''aa_h''], [''bb_f'']]"
  by code_simp+

text \<open>The second part holds its function and no other.\<close>

theorem modules_keep_functions_witness:
  "\<exists>m title. get (split_modules (split_into_modules listed_parsers listed_source (Some 2))) 1 = Some m \<and> cm_name m = ''aa_p2''
     \<and> module_functions m = [''aa_g''] \<and> module_source m = [newline, newline] @ ''// === '' @ title @ '' ==='' @ [newline]
         @ newline # ''aa_g{};''"
proof -
  let ?ms = "split_modules (split_into_modules listed_parsers listed_source (Some 2))"
  have four: "\<not> length (extract_c_functions listed_parsers listed_source) < 4" by (simp add: listed_extracted)
  have ctx: "shared_context_of False listed_source (extract_c_functions listed_parsers listed_source) = []"
    unfolding listed_extracted by code_simp
  from modules_keep_functions [of listed_parsers listed_source "Some 2", unfolded if_not_P [OF four] ctx] obtain fss where
    m: "mset (concat fss) = mset (extract_c_functions listed_parsers listed_source)"
    and all: "list_all2 (holds_functions (unwrap_or (Some 2) 1000) listed_source []) fss ?ms" by blast
  have len: "length ?ms = 4" "map cm_name ?ms ! 1 = ''aa_p2''" "map module_functions ?ms ! 1 = [''aa_g'']"
    unfolding listed_modules by (simp_all flip: length_map [of cm_name ?ms] add: listed_modules)
  have fss: "length fss = 4" using all len(1) by (simp add: list_all2_lengthD)
  have holds: "holds_functions (unwrap_or (Some 2) 1000) listed_source [] (fss ! 1) (?ms ! 1)"
    using list_all2_nthD2 [OF all, of 1] len(1) by simp
  then have "map fn_name (fss ! 1) = [''aa_g'']" using len by (simp add: holds_functions_def)
  then obtain f where f: "fss ! 1 = [f]" "fn_name f = ''aa_g''" by auto
  then have "f \<in> set (concat fss)" using fss by (metis UN_I list.set_intros(1) nth_mem one_less_numeral_iff semiring_norm(76) set_concat)
  then have "f \<in> set (extract_c_functions listed_parsers listed_source)" using m by (metis mset_eq_setD)
  with f(2) have "f = listed_function ''aa_g'' 7" unfolding listed_extracted by (auto simp: listed_function_def)
  moreover have "function_text listed_source (listed_function ''aa_g'' 7) = ''aa_g{};''" by code_simp
  ultimately have "function_text listed_source f = ''aa_g{};''" by simp
  with holds f(1) show ?thesis
    using len by (auto simp: holds_functions_def get_def)
qed

end
