(* ===== verification/Dependency.thy ===== *)
theory Dependency
  imports Kahn Chunking "HOL-Library.AList"
begin

text \<open>
  The dependency graph (\<open>crates/noricum-core/src/dependency.rs\<close>): call edges between the functions
  of a project, the topological order of functions, the order of modules and the waves of modules
  that can be migrated in parallel. A \<open>HashMap\<close> is an association list with distinct keys, in an
  arbitrary order; the iteration order of a \<open>HashSet<usize>\<close> is the argument \<open>iter\<close>. The three
  loops are instances of Kahn's algorithm (theory \<open>Kahn\<close>).
\<close>

section \<open>Building the graph\<close>

type_synonym call_edges = "(string \<times> string list) list"

definition extract_functions :: "parsers \<Rightarrow> string \<Rightarrow> string list" where
  "extract_functions ps src = sort_dedup (map fn_name (extract_c_functions ps src))"

definition extract_calls :: "parsers \<Rightarrow> string \<Rightarrow> string list \<Rightarrow> string list" where
  "extract_calls ps src known = extract_c_calls ps src known"

text \<open>A directory entry: the extension of its path and the result of reading it.\<close>

record dir_entry =
  extension :: "string option"
  content :: "(string, string) result"

definition read_matching :: "string \<Rightarrow> dir_entry list \<Rightarrow> (string, string list) result" where
  "read_matching ext es = collect_results content (filter (\<lambda>e. extension e = Some ext) es)"

text \<open>\<open>edges.entry(f).or_default().extend(calls)\<close>.\<close>

fun entry_extend :: "string \<Rightarrow> string list \<Rightarrow> call_edges \<Rightarrow> call_edges" where
  "entry_extend f calls [] = [(f, calls)]"
| "entry_extend f calls ((g, cs) # es) =
     (if f = g then (g, cs @ calls) # es else (g, cs) # entry_extend f calls es)"

definition add_source :: "parsers \<Rightarrow> string list \<Rightarrow> string \<Rightarrow> call_edges \<Rightarrow> call_edges" where
  "add_source ps all_functions src es =
     fold (\<lambda>func es. entry_extend func
             (filter (\<lambda>c. c \<noteq> func) (extract_calls ps src all_functions)) es)
       (extract_functions ps src) es"

definition dedup_edges :: "call_edges \<Rightarrow> call_edges" where
  "dedup_edges es = map (\<lambda>(f, cs). (f, sort_dedup cs)) es"

definition from_directory :: "parsers \<Rightarrow> dir_entry list \<Rightarrow> (string, call_edges) result" where
  "from_directory ps entries =
     bind_result (read_matching ''c'' entries) (\<lambda>c_sources.
     bind_result (read_matching ''h'' entries) (\<lambda>h_sources.
       let all_sources = c_sources @ h_sources;
           all_functions = sort_dedup (concat (map (extract_functions ps) all_sources))
       in Inr (dedup_edges (fold (add_source ps all_functions) all_sources []))))"

definition from_source :: "parsers \<Rightarrow> string \<Rightarrow> call_edges" where
  "from_source ps src =
     (let functions = extract_functions ps src
      in dedup_edges
           (fold (\<lambda>f es. AList.update (fn_name f)
                    (filter (\<lambda>c. c \<noteq> fn_name f) (extract_calls ps (function_text src f) functions)) es)
              (extract_c_functions ps src) []))"

definition dependencies_of :: "call_edges \<Rightarrow> string \<Rightarrow> string list" where
  "dependencies_of es f = unwrap_or (map_of es f) []"

section \<open>Topological order of the functions\<close>

definition all_nodes :: "call_edges \<Rightarrow> string list" where
  "all_nodes es = remdups (concat (map (\<lambda>(f, cs). f # cs) es))"

definition topological_sort :: "call_edges \<Rightarrow> string list option" where
  "topological_sort es =
     (let nodes = all_nodes es;
          in_degree = in_degrees nodes (concat (map snd es));
          zero_degree = sort (filter (\<lambda>n. in_degree n = Some 0) nodes)
      in map_option (\<lambda>result. if length result < length nodes then sort nodes else result)
           (kahn (length nodes) (dependencies_of es) sort zero_degree in_degree))"

section \<open>Order and waves of modules\<close>

definition func_to_module :: "c_module list \<Rightarrow> string \<Rightarrow> nat option" where
  "func_to_module ms =
     map_of (rev (concat (map (\<lambda>(i, m). map (\<lambda>f. (f, i)) (module_functions m)) (enumerate 0 ms))))"

text \<open>\<open>mod_deps[i]\<close>: the other modules that hold a callee of a function of module \<open>i\<close>.\<close>

definition module_deps :: "call_edges \<Rightarrow> c_module list \<Rightarrow> nat \<Rightarrow> nat list" where
  "module_deps es ms i =
     remdups (filter (\<lambda>t. t \<noteq> i)
       (List.map_filter (func_to_module ms)
         (concat (map (dependencies_of es) (module_functions (ms ! i))))))"

definition module_succs :: "(nat list \<Rightarrow> nat list) \<Rightarrow> call_edges \<Rightarrow> c_module list \<Rightarrow> nat \<Rightarrow> nat list" where
  "module_succs iter es ms i = iter (module_deps es ms i)"

definition module_degrees :: "(nat list \<Rightarrow> nat list) \<Rightarrow> call_edges \<Rightarrow> c_module list \<Rightarrow> nat degrees" where
  "module_degrees iter es ms =
     in_degrees [0..<length ms] (concat (map (module_succs iter es ms) [0..<length ms]))"

definition module_order :: "(nat list \<Rightarrow> nat list) \<Rightarrow> call_edges \<Rightarrow> c_module list \<Rightarrow> nat list option" where
  "module_order iter es ms =
     (let n = length ms;
          in_degree = module_degrees iter es ms;
          queue = filter (\<lambda>i. in_degree i = Some 0) [0..<n]
      in map_option (\<lambda>order. if length order < n
                              then order @ filter (\<lambda>i. i \<notin> set order) [0..<n] else order)
           (kahn n (module_succs iter es ms) (\<lambda>next. next) queue in_degree))"

text \<open>The loop of \<open>module_waves\<close>: the waves, and the modules left over.\<close>

function waves_loop :: "(nat \<Rightarrow> nat list) \<Rightarrow> nat list \<Rightarrow> nat degrees \<Rightarrow> nat list list \<times> nat list" where
  "waves_loop succs remaining in_degree =
     (let wave = filter (\<lambda>i. in_degree i = Some 0) remaining
      in if wave = [] then ([], remaining)
         else (let in_degree' = fold (\<lambda>i deg. fst (relax (succs i) deg)) wave in_degree;
                   (waves, leftover) = waves_loop succs (filter (\<lambda>i. i \<notin> set wave) remaining) in_degree'
               in (wave # waves, leftover)))"
  by pat_completeness auto
termination
proof (relation "measure (\<lambda>(s, remaining, d). length remaining)", goal_cases)
  case (2 succs remaining in_degree wave x)
  then have "hd wave \<in> set wave" by (intro hd_in_set) simp
  moreover have "set wave \<subseteq> set remaining" using 2 by auto
  ultimately have "hd wave \<in> set remaining" "\<not> hd wave \<notin> set wave" by blast+
  then have "length (filter (\<lambda>i. i \<notin> set wave) remaining) < length remaining"
    by (rule length_filter_less)
  then show ?case by simp
qed simp

declare waves_loop.simps [simp del]

definition module_waves :: "(nat list \<Rightarrow> nat list) \<Rightarrow> call_edges \<Rightarrow> c_module list \<Rightarrow> nat list list" where
  "module_waves iter es ms =
     (let n = length ms;
          (waves, leftover) = waves_loop (module_succs iter es ms) [0..<n] (module_degrees iter es ms)
      in if leftover \<noteq> [] then waves @ [leftover] else waves)"

section \<open>The functions in order\<close>

lemma map_of_calls: "map_of es f = Some cs \<Longrightarrow> (f, cs) \<in> set es"
  by (rule map_of_SomeD)

lemma set_all_nodes: "set (all_nodes es) = fst ` set es \<union> \<Union> (set ` snd ` set es)"
  by (force simp: all_nodes_def)

interpretation calls: call_graph "all_nodes es" "dependencies_of es" sort for es
proof
  show "distinct (all_nodes es)" by (simp add: all_nodes_def)
  show "set (dependencies_of es n) \<subseteq> set (all_nodes es)" for n
    by (cases "map_of es n") (auto simp: dependencies_of_def set_all_nodes dest!: map_of_calls)
  show "mset (sort xs) = mset xs" for xs :: "string list" by simp
qed

lemma sum_over_edges:
  assumes "distinct (map fst es)"
  shows "count_list (concat (map (dependencies_of es) (all_nodes es))) x = count_list (concat (map snd es)) x"
proof -
  let ?g = "\<lambda>n. count_list (dependencies_of es n) x"
  have "count_list (concat (map (dependencies_of es) ns)) x = sum_list (map ?g ns)" for ns
    by (induction ns) auto
  then have "count_list (concat (map (dependencies_of es) (all_nodes es))) x = sum ?g (set (all_nodes es))"
    by (simp add: all_nodes_def sum_list_distinct_conv_sum_set)
  also have "\<dots> = sum ?g (fst ` set es)"
  proof (rule sum.mono_neutral_right)
    show "fst ` set es \<subseteq> set (all_nodes es)" by (auto simp: set_all_nodes)
    have "map_of es n = None" if "n \<notin> fst ` set es" for n
      using that by (simp add: map_of_eq_None_iff)
    then show "\<forall>n \<in> set (all_nodes es) - fst ` set es. ?g n = 0"
      by (auto simp: dependencies_of_def)
  qed simp
  also have "\<dots> = sum_list (map (\<lambda>e. ?g (fst e)) es)"
    using sum.distinct_set_conv_list [OF assms, of ?g] by (simp add: o_def)
  also have "\<dots> = sum_list (map (\<lambda>e. count_list (snd e) x) es)"
    using assms by (intro arg_cong [of _ _ sum_list] map_cong) (auto simp: dependencies_of_def)
  also have "\<dots> = count_list (concat (map snd es)) x"
    by (induction es) auto
  finally show ?thesis .
qed

definition calls_before :: "('a \<Rightarrow> 'a list) \<Rightarrow> 'a list \<Rightarrow> bool" where
  "calls_before succs xs \<longleftrightarrow>
     (\<forall>ys v zs. xs = ys @ v # zs \<longrightarrow> (\<forall>u \<in> set xs. v \<in> set (succs u) \<longrightarrow> u \<in> set ys))"

lemma topological_sort_run:
  assumes "distinct (map fst es)"
  obtains res where "topological_sort es =
        Some (if length res < length (all_nodes es) then sort (all_nodes es) else res)"
    and "distinct res" "set res \<subseteq> set (all_nodes es)"
    and "\<forall>v \<in> set (all_nodes es) - set res.
           \<exists>u \<in> set (all_nodes es) - set res. v \<in> set (dependencies_of es u)"
    and "\<forall>ys v zs. res = ys @ v # zs \<longrightarrow>
           (\<forall>u \<in> set (all_nodes es). v \<in> set (dependencies_of es u) \<longrightarrow> u \<in> set ys)"
proof -
  let ?deg = "in_degrees (all_nodes es) (concat (map snd es))"
  let ?zero = "sort (filter (\<lambda>n. ?deg n = Some 0) (all_nodes es))"
  have "\<forall>x \<in> set (all_nodes es). ?deg x = Some (count_list (concat (map (dependencies_of es) (all_nodes es))) x)"
    by (simp add: in_degrees_eq sum_over_edges [OF assms])
  moreover have "mset ?zero = mset (filter (\<lambda>n. ?deg n = Some 0) (all_nodes es))" by simp
  ultimately obtain res where
    "kahn (length (all_nodes es)) (dependencies_of es) sort ?zero ?deg = Some res"
    "distinct res" "set res \<subseteq> set (all_nodes es)"
    "\<forall>v \<in> set (all_nodes es) - set res.
       \<exists>u \<in> set (all_nodes es) - set res. v \<in> set (dependencies_of es u)"
    "\<forall>ys v zs. res = ys @ v # zs \<longrightarrow>
       (\<forall>u \<in> set (all_nodes es). v \<in> set (dependencies_of es u) \<longrightarrow> u \<in> set ys)"
    by (rule calls.run_from_start)
  then show ?thesis by (intro that [of res]) (simp_all add: topological_sort_def Let_def)
qed

text \<open>
  The topological sort of a dependency graph returns for every graph, cyclic or not, and its
  result lists every function of the graph exactly once.
\<close>

theorem topological_sort_total:
  assumes "distinct (map fst es)"
  shows "\<exists>order. topological_sort es = Some order \<and> distinct order \<and> set order = set (all_nodes es)"
proof -
  obtain res where res: "topological_sort es =
        Some (if length res < length (all_nodes es) then sort (all_nodes es) else res)"
    "distinct res" "set res \<subseteq> set (all_nodes es)"
    by (rule topological_sort_run [OF assms])
  show ?thesis
  proof (cases "length res < length (all_nodes es)")
    case True
    with res show ?thesis using calls.distinct_nodes [of es] by simp
  next
    case False
    then have "card (set (all_nodes es)) \<le> card (set res)"
      using res(2) calls.distinct_nodes [of es] by (simp add: distinct_card)
    then have "set res = set (all_nodes es)" using res(3) by (intro card_seteq) auto
    with False res show ?thesis by simp
  qed
qed

text \<open>
  On a graph without cycles every function stands before the functions it calls: callers
  come first.
\<close>

theorem topological_sort_callers_first:
  assumes "distinct (map fst es)" and "acyclic (edge_rel (all_nodes es) (dependencies_of es))"
    and "topological_sort es = Some order"
  shows "calls_before (dependencies_of es) order"
proof -
  obtain res where res: "topological_sort es =
        Some (if length res < length (all_nodes es) then sort (all_nodes es) else res)"
    "distinct res" "set res \<subseteq> set (all_nodes es)"
    and missing: "\<forall>v \<in> set (all_nodes es) - set res.
           \<exists>u \<in> set (all_nodes es) - set res. v \<in> set (dependencies_of es u)"
    and before: "\<forall>ys v zs. res = ys @ v # zs \<longrightarrow>
           (\<forall>u \<in> set (all_nodes es). v \<in> set (dependencies_of es u) \<longrightarrow> u \<in> set ys)"
    by (rule topological_sort_run [OF assms(1)])
  have "set (all_nodes es) - set res = {}"
    using calls.acyclic_visits_all [OF assms(2) _ missing] by blast
  then have "card (set (all_nodes es)) \<le> card (set res)" by (intro card_mono) auto
  then have "length (all_nodes es) \<le> length res"
    using res(2) calls.distinct_nodes [of es] by (simp add: distinct_card)
  with res(1) assms(3) have "order = res" by simp
  with before res(3) show ?thesis by (auto simp: calls_before_def)
qed

section \<open>The modules in order\<close>

lemma func_to_module_bound: "func_to_module ms f = Some i \<Longrightarrow> i < length ms"
  by (auto simp: func_to_module_def in_set_enumerate_eq dest!: map_of_SomeD)

lemma module_deps_bound: "set (module_deps es ms i) \<subseteq> {..<length ms}"
  by (auto simp: module_deps_def map_filter_def dest: func_to_module_bound)

lemma module_deps_other: "i \<notin> set (module_deps es ms i)"
  by (auto simp: module_deps_def)

lemma module_graph:
  assumes "\<forall>xs. set (iter xs) = set xs"
  shows "call_graph [0..<length ms] (module_succs iter es ms) (\<lambda>next. next)"
proof
  show "set (module_succs iter es ms n) \<subseteq> set [0..<length ms]" for n
    using assms module_deps_bound [of es ms n] by (auto simp: module_succs_def)
qed auto

lemma module_degrees_eq:
  "x < length ms \<Longrightarrow> module_degrees iter es ms x =
     Some (count_list (concat (map (module_succs iter es ms) [0..<length ms])) x)"
  by (simp add: module_degrees_def in_degrees_eq)

lemma module_order_run:
  assumes "\<forall>xs. set (iter xs) = set xs"
  obtains res where "module_order iter es ms =
        Some (if length res < length ms then res @ filter (\<lambda>i. i \<notin> set res) [0..<length ms] else res)"
    and "distinct res" "set res \<subseteq> {..<length ms}"
    and "\<forall>v \<in> {..<length ms} - set res. \<exists>u \<in> {..<length ms} - set res. v \<in> set (module_succs iter es ms u)"
    and "\<forall>ys v zs. res = ys @ v # zs \<longrightarrow>
           (\<forall>u < length ms. v \<in> set (module_succs iter es ms u) \<longrightarrow> u \<in> set ys)"
proof -
  let ?n = "length ms" and ?deg = "module_degrees iter es ms"
  have "\<forall>x \<in> set [0..<?n]. ?deg x = Some (count_list (concat (map (module_succs iter es ms) [0..<?n])) x)"
    by (auto simp: module_degrees_eq)
  moreover have "mset (filter (\<lambda>i. ?deg i = Some 0) [0..<?n]) = mset (filter (\<lambda>i. ?deg i = Some 0) [0..<?n])"
    by (rule refl)
  ultimately obtain res where
    "kahn (length [0..<?n]) (module_succs iter es ms) (\<lambda>next. next) (filter (\<lambda>i. ?deg i = Some 0) [0..<?n]) ?deg = Some res"
    "distinct res" "set res \<subseteq> set [0..<?n]"
    "\<forall>v \<in> set [0..<?n] - set res. \<exists>u \<in> set [0..<?n] - set res. v \<in> set (module_succs iter es ms u)"
    "\<forall>ys v zs. res = ys @ v # zs \<longrightarrow> (\<forall>u \<in> set [0..<?n]. v \<in> set (module_succs iter es ms u) \<longrightarrow> u \<in> set ys)"
    by (rule call_graph.run_from_start [OF module_graph [OF assms]])
  then show ?thesis
    by (intro that [of res]) (auto simp: module_order_def Let_def atLeast0LessThan)
qed

text \<open>
  Whatever the dependencies, cycles included, the module order is defined and is a
  permutation of the module indices: no module is migrated twice and none is dropped.
\<close>

theorem module_order_permutation:
  assumes "\<forall>xs. set (iter xs) = set xs"
  shows "\<exists>order. module_order iter es ms = Some order \<and> mset order = mset [0..<length ms]"
proof -
  obtain res where res: "module_order iter es ms =
        Some (if length res < length ms then res @ filter (\<lambda>i. i \<notin> set res) [0..<length ms] else res)"
    "distinct res" "set res \<subseteq> {..<length ms}"
    by (rule module_order_run [OF assms])
  have len: "length res = card (set res)" using res(2) by (simp add: distinct_card)
  let ?order = "if length res < length ms then res @ filter (\<lambda>i. i \<notin> set res) [0..<length ms] else res"
  have "distinct ?order" using res(2) by auto
  moreover have "set ?order = set [0..<length ms]"
  proof (cases "length res < length ms")
    case False
    then have "set res = {..<length ms}" using res(3) len by (intro card_seteq) auto
    with False show ?thesis by (simp add: atLeast0LessThan)
  qed (use res(3) in auto)
  ultimately have "mset ?order = mset [0..<length ms]"
    by (metis distinct_upt set_eq_iff_mset_eq_distinct)
  with res(1) show ?thesis by blast
qed

text \<open>
  When the modules depend on each other without cycles, every module stands before the
  modules that hold the callees of its functions.
\<close>

theorem module_order_callers_first:
  assumes "\<forall>xs. set (iter xs) = set xs"
    and "acyclic (edge_rel [0..<length ms] (module_deps es ms))"
    and "module_order iter es ms = Some order"
  shows "calls_before (module_deps es ms) order"
proof -
  have succs: "set (module_succs iter es ms i) = set (module_deps es ms i)" for i
    using assms(1) by (simp add: module_succs_def)
  obtain res where res: "module_order iter es ms =
        Some (if length res < length ms then res @ filter (\<lambda>i. i \<notin> set res) [0..<length ms] else res)"
    "distinct res" "set res \<subseteq> {..<length ms}"
    and missing: "\<forall>v \<in> {..<length ms} - set res. \<exists>u \<in> {..<length ms} - set res. v \<in> set (module_succs iter es ms u)"
    and before: "\<forall>ys v zs. res = ys @ v # zs \<longrightarrow>
           (\<forall>u < length ms. v \<in> set (module_succs iter es ms u) \<longrightarrow> u \<in> set ys)"
    by (rule module_order_run [OF assms(1)])
  have "edge_rel [0..<length ms] (module_succs iter es ms) = edge_rel [0..<length ms] (module_deps es ms)"
    by (simp add: edge_rel_def succs)
  with assms(2) have acyc: "acyclic (edge_rel [0..<length ms] (module_succs iter es ms))" by simp
  have "{..<length ms} - set res \<subseteq> set [0..<length ms]" by auto
  then have "{..<length ms} - set res = {}"
    by (rule call_graph.acyclic_visits_all [OF module_graph [OF assms(1)] acyc _ missing])
  then have "card {..<length ms} \<le> card (set res)" by (intro card_mono) auto
  then have "length ms \<le> length res" using res(2) by (simp add: distinct_card)
  with res(1) assms(3) have "order = res" by simp
  show ?thesis
    unfolding calls_before_def
  proof (intro allI impI ballI)
    fix ys v zs u
    assume "order = ys @ v # zs" "u \<in> set order" "v \<in> set (module_deps es ms u)"
    moreover from this have "u < length ms" using res(3) \<open>order = res\<close> by auto
    ultimately show "u \<in> set ys" using before \<open>order = res\<close> by (auto simp: succs)
  qed
qed

lemma waves_loop_run:
  assumes graph: "call_graph nodes succs arrange"
    and "distinct (dn @ remaining)" "set (dn @ remaining) = set nodes"
    and "\<forall>x \<in> set nodes. deg x = Some (pending_edges nodes succs dn x)"
    and "waves_loop succs remaining deg = (waves, leftover)"
  shows "mset (concat waves @ leftover) = mset remaining \<and> [] \<notin> set waves
     \<and> (\<forall>pre w post. waves = pre @ w # post \<longrightarrow>
          (\<forall>v \<in> set w. pending_edges nodes succs (dn @ concat pre) v = 0))
     \<and> (\<forall>pre w w' post. waves = pre @ w # w' # post \<longrightarrow>
          (\<forall>v \<in> set w'. pending_edges nodes succs (dn @ concat pre) v \<noteq> 0))
     \<and> (\<forall>v \<in> set leftover. pending_edges nodes succs (dn @ concat waves) v \<noteq> 0)"
  using assms(2-)
proof (induction "length remaining" arbitrary: remaining dn deg waves leftover rule: less_induct)
  case less
  define wave where "wave = filter (\<lambda>i. deg i = Some 0) remaining"
  have zero: "pending_edges nodes succs dn v = 0" if "v \<in> set wave" for v
  proof -
    have "v \<in> set nodes" using that less.prems(2) by (auto simp: wave_def)
    then show ?thesis using that bspec [OF less.prems(3), of v] by (simp add: wave_def)
  qed
  show ?case
  proof (cases "wave = []")
    case True
    then have "waves = []" "leftover = remaining"
      using less.prems(4) by (auto simp: waves_loop.simps [of succs remaining] wave_def)
    moreover have "pending_edges nodes succs dn v \<noteq> 0" if "v \<in> set remaining" for v
    proof -
      have "v \<in> set nodes" using that less.prems(2) by auto
      then show ?thesis
        using that True bspec [OF less.prems(3), of v] by (auto simp: wave_def filter_empty_conv)
    qed
    ultimately show ?thesis by simp
  next
    case False
    define rem' where "rem' = filter (\<lambda>i. i \<notin> set wave) remaining"
    define deg' where "deg' = fold (\<lambda>i deg. fst (relax (succs i) deg)) wave deg"
    obtain ws where ws: "waves_loop succs rem' deg' = (ws, leftover)" and waves: "waves = wave # ws"
      using less.prems(4) False
      by (auto simp: waves_loop.simps [of succs remaining] wave_def [symmetric] rem'_def [symmetric]
          deg'_def [symmetric] Let_def split: prod.splits)
    have sub: "set wave \<subseteq> set remaining" by (auto simp: wave_def)
    have dist: "distinct (dn @ wave)" using less.prems(1) sub by (auto simp: wave_def)
    have "hd wave \<in> set remaining" "\<not> hd wave \<notin> set wave" using False sub by auto
    then have "length rem' < length remaining" unfolding rem'_def by (rule length_filter_less)
    moreover have "distinct ((dn @ wave) @ rem')" using less.prems(1) dist by (auto simp: rem'_def)
    moreover have "set ((dn @ wave) @ rem') = set nodes" using less.prems(2) sub by (auto simp: rem'_def)
    moreover have "\<forall>x \<in> set nodes. deg' x = Some (pending_edges nodes succs (dn @ wave) x)"
      unfolding deg'_def
      by (rule call_graph.relax_wave [OF graph dist]) (use sub less.prems(2,3) in auto)
    ultimately have ih: "mset (concat ws @ leftover) = mset rem'" "[] \<notin> set ws"
      "\<forall>pre w post. ws = pre @ w # post \<longrightarrow>
          (\<forall>v \<in> set w. pending_edges nodes succs ((dn @ wave) @ concat pre) v = 0)"
      "\<forall>pre w w' post. ws = pre @ w # w' # post \<longrightarrow>
          (\<forall>v \<in> set w'. pending_edges nodes succs ((dn @ wave) @ concat pre) v \<noteq> 0)"
      "\<forall>v \<in> set leftover. pending_edges nodes succs ((dn @ wave) @ concat ws) v \<noteq> 0"
      using less.hyps [OF _ _ _ _ ws] by blast+
    have "wave = filter (\<lambda>i. i \<in> set wave) remaining" unfolding wave_def by (rule filter_cong) auto
    then have "mset wave + mset rem' = mset remaining"
      by (metis mset_filter multiset_partition rem'_def)
    then have "mset (concat waves @ leftover) = mset remaining"
      using ih(1) by (simp add: waves ac_simps)
    moreover have "[] \<notin> set waves" using ih(2) False by (simp add: waves)
    moreover have "\<forall>v \<in> set w. pending_edges nodes succs (dn @ concat pre) v = 0"
      if "waves = pre @ w # post" for pre w post
      using that zero ih(3) by (cases pre) (auto simp: waves)
    moreover have "\<forall>v \<in> set w'. pending_edges nodes succs (dn @ concat pre) v \<noteq> 0"
      if two: "waves = pre @ w # w' # post" for pre w w' post
    proof (cases pre)
      case Nil
      with two have "ws = w' # post" by (simp add: waves)
      then have "set w' \<subseteq> set rem'" using mset_eq_setD [OF ih(1)] by auto
      have "pending_edges nodes succs dn v \<noteq> 0" if "v \<in> set w'" for v
      proof -
        from that \<open>set w' \<subseteq> set rem'\<close> have v: "v \<in> set remaining" "deg v \<noteq> Some 0" by (auto simp: rem'_def wave_def)
        then have "v \<in> set nodes" using less.prems(2) by auto
        with v(2) less.prems(3) show ?thesis by auto
      qed
      with Nil show ?thesis by simp
    qed (use two ih(4) in \<open>auto simp: waves\<close>)
    moreover have "\<forall>v \<in> set leftover. pending_edges nodes succs (dn @ concat waves) v \<noteq> 0"
      using ih(5) by (simp add: waves)
    ultimately show ?thesis by blast
  qed
qed

lemma module_waves_run:
  assumes "\<forall>xs. set (iter xs) = set xs"
  obtains waves leftover where "module_waves iter es ms = (if leftover \<noteq> [] then waves @ [leftover] else waves)"
    and "mset (concat waves @ leftover) = mset [0..<length ms]" and "[] \<notin> set waves"
    and "\<forall>pre w post. waves = pre @ w # post \<longrightarrow>
          (\<forall>v \<in> set w. \<forall>u < length ms. v \<in> set (module_deps es ms u) \<longrightarrow> u \<in> set (concat pre))"
    and "\<forall>pre w w' post. waves = pre @ w # w' # post \<longrightarrow>
          (\<forall>v \<in> set w'. \<exists>u < length ms. v \<in> set (module_deps es ms u) \<and> u \<notin> set (concat pre))"
    and "\<forall>v \<in> set leftover. \<exists>u < length ms. v \<in> set (module_deps es ms u) \<and> u \<notin> set (concat waves)"
proof -
  let ?n = "length ms"
  have succs: "set (module_succs iter es ms i) = set (module_deps es ms i)" for i
    using assms by (simp add: module_succs_def)
  obtain waves leftover where run: "waves_loop (module_succs iter es ms) [0..<?n] (module_degrees iter es ms)
      = (waves, leftover)"
    by (cases "waves_loop (module_succs iter es ms) [0..<?n] (module_degrees iter es ms)")
  have "\<forall>x \<in> set [0..<?n]. module_degrees iter es ms x =
      Some (pending_edges [0..<?n] (module_succs iter es ms) [] x)"
    by (auto simp: module_degrees_eq pending_edges_nil)
  from waves_loop_run [OF module_graph [OF assms], of "[]", OF _ _ this run]
  have spec: "mset (concat waves @ leftover) = mset [0..<?n]" "[] \<notin> set waves"
    "\<forall>pre w post. waves = pre @ w # post \<longrightarrow>
        (\<forall>v \<in> set w. pending_edges [0..<?n] (module_succs iter es ms) (concat pre) v = 0)"
    "\<forall>pre w w' post. waves = pre @ w # w' # post \<longrightarrow>
        (\<forall>v \<in> set w'. pending_edges [0..<?n] (module_succs iter es ms) (concat pre) v \<noteq> 0)"
    "\<forall>v \<in> set leftover. pending_edges [0..<?n] (module_succs iter es ms) (concat waves) v \<noteq> 0"
    by simp_all
  show ?thesis
  proof (rule that [of leftover waves])
    show "module_waves iter es ms = (if leftover \<noteq> [] then waves @ [leftover] else waves)"
      using run by (simp add: module_waves_def Let_def)
    show "\<forall>pre w post. waves = pre @ w # post \<longrightarrow>
          (\<forall>v \<in> set w. \<forall>u < length ms. v \<in> set (module_deps es ms u) \<longrightarrow> u \<in> set (concat pre))"
      using spec(3) by (simp add: pending_edges_0 succs)
    show "\<forall>pre w w' post. waves = pre @ w # w' # post \<longrightarrow>
          (\<forall>v \<in> set w'. \<exists>u < length ms. v \<in> set (module_deps es ms u) \<and> u \<notin> set (concat pre))"
      using spec(4) by (fastforce simp: pending_edges_0 succs)
    show "\<forall>v \<in> set leftover. \<exists>u < length ms. v \<in> set (module_deps es ms u) \<and> u \<notin> set (concat waves)"
      using spec(5) by (fastforce simp: pending_edges_0 succs)
  qed (use spec in auto)
qed

text \<open>
  The waves of modules partition the modules: every module is in exactly one wave and no wave
  is empty, also when the dependencies have cycles.
\<close>

theorem module_waves_partition:
  assumes "\<forall>xs. set (iter xs) = set xs"
  shows "mset (concat (module_waves iter es ms)) = mset [0..<length ms] \<and> [] \<notin> set (module_waves iter es ms)"
proof -
  obtain waves leftover where
    w: "module_waves iter es ms = (if leftover \<noteq> [] then waves @ [leftover] else waves)"
    and m: "mset (concat waves @ leftover) = mset [0..<length ms]" "[] \<notin> set waves"
    by (rule module_waves_run [OF assms])
  then show ?thesis by (cases "leftover = []") auto
qed



section \<open>Graphs the code builds\<close>

lemma keys_entry_extend: "set (map fst (entry_extend f cs es)) = insert f (set (map fst es))"
  by (induction f cs es rule: entry_extend.induct) auto

lemma distinct_entry_extend: "distinct (map fst es) \<Longrightarrow> distinct (map fst (entry_extend f cs es))"
proof (induction f cs es rule: entry_extend.induct)
  case (2 f calls g cs es)
  then show ?case using keys_entry_extend [of f calls es] by auto
qed simp

lemma dedup_edges_keys: "map fst (dedup_edges es) = map fst es"
  by (induction es) (auto simp: dedup_edges_def)

lemma distinct_add_source: "distinct (map fst es) \<Longrightarrow> distinct (map fst (add_source ps all src es))"
proof -
  have "distinct (map fst es) \<Longrightarrow> distinct (map fst (fold (\<lambda>f es. entry_extend f (g f) es) fs es))" for g fs
    by (induction fs arbitrary: es) (auto intro: distinct_entry_extend)
  then show "distinct (map fst es) \<Longrightarrow> ?thesis" by (simp add: add_source_def)
qed

lemma from_directory_keys: "from_directory ps entries = Inr es \<Longrightarrow> distinct (map fst es)"
proof -
  have "distinct (map fst es) \<Longrightarrow> distinct (map fst (fold (add_source ps all) srcs es))" for all srcs es
    by (induction srcs arbitrary: es) (auto intro: distinct_add_source)
  then show "from_directory ps entries = Inr es \<Longrightarrow> ?thesis"
    by (auto simp: from_directory_def bind_result_Inr_iff Let_def dedup_edges_keys)
qed

lemma set_alist_update: "set (AList.update k v al) \<subseteq> insert (k, v) (set al)"
  by (induction al) auto

lemma keys_alist_update: "set (map fst (AList.update k v al)) = insert k (set (map fst al))"
  by (induction al) auto

lemma source_edges:
  fixes calls_of :: "c_function \<Rightarrow> string list"
  defines "build \<equiv> \<lambda>fs es. fold (\<lambda>f es. AList.update (fn_name f) (calls_of f) es) fs es"
  shows "distinct (map fst es) \<Longrightarrow> distinct (map fst (build fs es))"
    and "set (map fst (build fs es)) = fn_name ` set fs \<union> set (map fst es)"
    and "set (build fs es) \<subseteq> (\<lambda>f. (fn_name f, calls_of f)) ` set fs \<union> set es"
proof -
  show "distinct (map fst es) \<Longrightarrow> distinct (map fst (build fs es))"
    unfolding build_def by (induction fs arbitrary: es) (auto intro: distinct_update)
  show "set (map fst (build fs es)) = fn_name ` set fs \<union> set (map fst es)"
    unfolding build_def
  proof (induction fs arbitrary: es)
    case (Cons f fs)
    show ?case using Cons [of "AList.update (fn_name f) (calls_of f) es"]
        keys_alist_update [of "fn_name f" "calls_of f" es] by auto
  qed simp
  show "set (build fs es) \<subseteq> (\<lambda>f. (fn_name f, calls_of f)) ` set fs \<union> set es"
    unfolding build_def
  proof (induction fs arbitrary: es)
    case (Cons f fs)
    show ?case using Cons [of "AList.update (fn_name f) (calls_of f) es"]
        set_alist_update [of "fn_name f" "calls_of f" es] by auto
  qed simp
qed

text \<open>
  The graph built from one C source satisfies what the orders rely on: one entry for each
  defined function, no function among its own callees, and every callee a function defined in the
  source, sorted without repetition.
\<close>

theorem from_source_graph:
  "distinct (map fst (from_source ps src))
   \<and> set (map fst (from_source ps src)) = set (extract_functions ps src)
   \<and> (\<forall>(f, cs) \<in> set (from_source ps src).
        f \<notin> set cs \<and> set cs \<subseteq> set (extract_functions ps src) \<and> sorted cs \<and> distinct cs)"
proof -
  define calls_of where "calls_of = (\<lambda>f. filter (\<lambda>c. c \<noteq> fn_name f)
      (extract_calls ps (function_text src f) (extract_functions ps src)))"
  define raw where "raw = fold (\<lambda>f es. AList.update (fn_name f) (calls_of f) es) (extract_c_functions ps src) []"
  have src: "from_source ps src = dedup_edges raw"
    by (simp add: from_source_def Let_def raw_def calls_of_def)
  have keys: "map fst (from_source ps src) = map fst raw"
    by (simp add: src dedup_edges_keys)
  have "f \<notin> set cs \<and> set cs \<subseteq> set (extract_functions ps src)" if "(f, cs) \<in> set raw" for f cs
  proof -
    from that obtain g where "f = fn_name g" "cs = calls_of g"
      using source_edges(3) [of calls_of "extract_c_functions ps src" "[]"] by (auto simp: raw_def)
    then show ?thesis
      using extract_c_calls_known [of ps "function_text src g" "extract_functions ps src"]
      by (auto simp: calls_of_def extract_calls_def)
  qed
  then have "\<forall>(f, cs) \<in> set (from_source ps src).
      f \<notin> set cs \<and> set cs \<subseteq> set (extract_functions ps src) \<and> sorted cs \<and> distinct cs"
    by (force simp: src dedup_edges_def)
  moreover have "distinct (map fst raw)"
    unfolding raw_def by (rule source_edges(1)) simp
  moreover have "set (map fst raw) = set (extract_functions ps src)"
    using source_edges(2) [of calls_of "extract_c_functions ps src" "[]"]
    by (simp add: raw_def extract_functions_def)
  ultimately show ?thesis unfolding keys by blast
qed

text \<open>Concrete graphs of the witnesses: \<open>a\<close> calls \<open>b\<close>, each in a module of its own.\<close>

definition two_edges :: call_edges where
  "two_edges = [(''a'', [''b'']), (''b'', [])]"

definition two_modules :: "c_module list" where
  "two_modules = [mk_module ''ma'' [] [''a''], mk_module ''mb'' [] [''b'']]"

lemma two_edges_sorted: "topological_sort two_edges = Some [''a'', ''b'']"
  by code_simp

lemma two_edges_acyclic: "acyclic (edge_rel (all_nodes two_edges) (dependencies_of two_edges))"
proof (rule acyclicI_order [where f = "\<lambda>n. if n = ''a'' then 1 else (0::nat)"])
  fix u v assume "(u, v) \<in> edge_rel (all_nodes two_edges) (dependencies_of two_edges)"
  then have "u = ''a'' \<and> v = ''b''"
    by (auto simp: edge_rel_def two_edges_def dependencies_of_def all_nodes_def split: if_splits)
  then show "(if v = ''a'' then 1 else 0) < (if u = ''a'' then 1 else (0::nat))" by simp
qed

lemma two_modules_deps:
  "module_deps two_edges two_modules 0 = [1]" "module_deps two_edges two_modules 1 = []"
  "length two_modules = 2"
  by code_simp+

lemma two_modules_acyclic: "acyclic (edge_rel [0..<length two_modules] (module_deps two_edges two_modules))"
proof (rule acyclicI_order [where f = "\<lambda>n. if n = 0 then 1 else (0::nat)"])
  fix u v assume uv: "(u, v) \<in> edge_rel [0..<length two_modules] (module_deps two_edges two_modules)"
  then have "u = 0 \<or> u = 1" by (auto simp: edge_rel_def two_modules_deps(3))
  with uv have "u = 0 \<and> v = 1"
    using two_modules_deps by (auto simp: edge_rel_def)
  then show "(if v = 0 then 1 else 0) < (if u = 0 then 1 else (0::nat))" by simp
qed

lemma two_indices: "mset [0..<length two_modules] = {#0, 1#}"
  by (simp add: two_modules_deps(3) upt_rec del: mset_upt)

theorem topological_sort_total_witness:
  "\<exists>order. topological_sort two_edges = Some order \<and> distinct order"
  using topological_sort_total [of two_edges] by (auto simp: two_edges_def)

theorem topological_sort_callers_first_witness:
  "calls_before (dependencies_of two_edges) [''a'', ''b'']"
  by (rule topological_sort_callers_first [OF _ two_edges_acyclic two_edges_sorted])
     (simp add: two_edges_def)

theorem module_order_permutation_witness:
  "\<exists>order. module_order (\<lambda>xs. xs) two_edges two_modules = Some order \<and> mset order = {#0, 1#}"
  using module_order_permutation [of "\<lambda>xs. xs" two_edges two_modules]
  unfolding two_indices by simp

theorem module_order_callers_first_witness:
  "calls_before (module_deps two_edges two_modules) [0, 1]"
proof -
  have "module_order (\<lambda>xs. xs) two_edges two_modules = Some [0, 1]" by code_simp
  with two_modules_acyclic show ?thesis by (intro module_order_callers_first) auto
qed

theorem module_waves_partition_witness:
  "mset (concat (module_waves (\<lambda>xs. xs) two_edges two_modules)) = {#0, 1#}"
  using module_waves_partition [of "\<lambda>xs. xs" two_edges two_modules]
  unfolding two_indices by simp



definition put_calls_get :: parsers where
  "put_calls_get = two_functions\<lparr>re_c_call := (\<lambda>_. [''hash_get''])\<rparr>"

theorem from_source_graph_witness:
  "(''hash_put'', [''hash_get'']) \<in> set (from_source put_calls_get ''int x;'')
   \<and> ''hash_put'' \<notin> set [''hash_get''] \<and> distinct [''hash_get'']"
proof
  show edge: "(''hash_put'', [''hash_get'']) \<in> set (from_source put_calls_get ''int x;'')" by code_simp
  show "''hash_put'' \<notin> set [''hash_get''] \<and> distinct [''hash_get'']"
    using from_source_graph [of put_calls_get "''int x;''"] edge by fast
qed

end
