(* ===== verification/Harness_Gen.thy ===== *)
theory Harness_Gen
  imports Rust_Text
begin

text \<open>
  The test harness generator (\<open>crates/noricum-tools/src/harness_gen.rs\<close>): for a C library
  function without \<open>main()\<close> it reads the signature off the source line by line, refuses pointer
  and struct parameters it cannot build values for, and appends a \<open>main\<close> that calls the function
  with representative values and prints the results.
\<close>

section \<open>Signatures\<close>

record c_param =
  type_name :: string
  param_name :: string

record c_signature =
  return_type :: string
  sig_name :: string
  params :: "c_param list"

text \<open>One piece of the parameter list: the last token is the name, leading stars go to the type.\<close>

definition parse_param :: "nat \<Rightarrow> string \<Rightarrow> c_param option" where
  "parse_param i part =
     (let part = trim part
      in if part = [] then None
         else (let tokens = split_whitespace part
               in if tokens = [] then None
                  else if length tokens = 1 then
                    Some \<lparr>type_name = tokens ! 0, param_name = ''arg'' @ show_nat i\<rparr>
                  else (let final = last tokens;
                            nm = trim_start_matches (\<lambda>c. c = CHR ''*'') final;
                            stars = length final - length nm
                        in Some \<lparr>type_name = join '' '' (butlast tokens) @ replicate stars (CHR ''*''),
                                 param_name = (if nm = [] then ''arg'' @ show_nat i else nm)\<rparr>)))"

definition parse_params :: "string \<Rightarrow> c_param list" where
  "parse_params params_str =
     (let trimmed = trim params_str
      in if trimmed = [] \<or> trimmed = ''void'' then []
         else List.map_filter (\<lambda>(i, part). parse_param i part)
                (enumerate 0 (split_char (CHR '','') trimmed)))"

definition skipped_line :: "string \<Rightarrow> bool" where
  "skipped_line trimmed = (starts_with trimmed ''//'' \<or> starts_with trimmed ''/*''
     \<or> starts_with trimmed ''#'' \<or> trimmed = [])"

text \<open>
  The loop over the lines. A candidate line whose parameter list is not closed on the same line
  ends the search with \<open>None\<close> (the \<open>?\<close> on \<open>rest.find(')')\<close>), the other mismatches continue.
\<close>

fun signature_in_lines :: "string \<Rightarrow> string list \<Rightarrow> c_signature option" where
  "signature_in_lines fn_name [] = None"
| "signature_in_lines fn_name (l # ls) =
     (let trimmed = trim l
      in if skipped_line trimmed then signature_in_lines fn_name ls
         else case find_str trimmed fn_name of
             None \<Rightarrow> signature_in_lines fn_name ls
           | Some name_pos \<Rightarrow>
               (let after_name = drop (name_pos + length fn_name) trimmed;
                    ret = trim (take name_pos trimmed)
                in if \<not> starts_with after_name ''('' then signature_in_lines fn_name ls
                   else if ret = [] then signature_in_lines fn_name ls
                   else (let rest = drop (name_pos + length fn_name + 1) trimmed
                         in case find_char rest (CHR '')'') of
                              None \<Rightarrow> None
                            | Some paren_end \<Rightarrow>
                                Some \<lparr>return_type = ret, sig_name = fn_name,
                                      params = parse_params (take paren_end rest)\<rparr>)))"

definition parse_c_signature :: "string \<Rightarrow> string \<Rightarrow> c_signature option" where
  "parse_c_signature c_src fn_name = signature_in_lines fn_name (lines c_src)"

definition has_int_params :: "c_signature \<Rightarrow> bool" where
  "has_int_params sg = (\<exists>p \<in> set (params sg). let t = trim (type_name p) in
     t = ''int'' \<or> t = ''long'' \<or> t = ''short'' \<or> t = ''unsigned int'' \<or> t = ''unsigned'')"

section \<open>Test values and calls\<close>

definition param_values :: "c_param \<Rightarrow> string list" where
  "param_values p =
     (let t = trim (type_name p)
      in if contains t ''char*'' \<or> contains t ''char *'' \<or> contains t ''const char''
         then [[quote] @ ''hello'' @ [quote], [quote, quote]]
         else if contains t ''double'' \<or> contains t ''float''
         then [''0.0'', ''1.0'', ''-1.5'', ''3.14'']
         else if contains t ''int*'' \<or> contains t ''int *''
         then [''(int[]){1, 2, 3, 4, 5}'']
         else [''0'', ''1'', ''-1'', ''42''])"

definition generate_param_test_values :: "c_param list \<Rightarrow> string list list" where
  "generate_param_test_values ps =
     (if ps = [] then [[]]
      else (let per_param = map param_values ps;
                max_len = fold max (map length per_param) 0
            in map (\<lambda>i. map (\<lambda>values. values ! (i mod length values)) per_param) [0..<max_len]))"

definition test_call_line :: "c_signature \<Rightarrow> nat \<Rightarrow> string list \<Rightarrow> string" where
  "test_call_line sg i values =
     (let call = sig_name sg @ ''('' @ join '', '' values @ '')'';
          t = trim (return_type sg);
          fmt = (\<lambda>spec cast. ''    printf('' @ [quote] @ spec @ [backslash] @ ''n'' @ [quote] @ '', ''
                   @ cast @ call @ '');'' @ [newline])
      in if t = ''void'' then ''    /* test '' @ show_nat (i + 1) @ '' */ '' @ call @ '';'' @ [newline]
         else if contains t ''double'' \<or> contains t ''float'' then fmt ''%f'' ''(double)''
         else if contains t ''char*'' \<or> contains t ''char *'' then fmt ''%s'' ''''
         else fmt ''%d'' ''(int)'')"

definition generate_test_calls :: "c_signature \<Rightarrow> string list" where
  "generate_test_calls sg =
     map (\<lambda>(i, values). test_call_line sg i values)
       (enumerate 0 (generate_param_test_values (params sg)))"

section \<open>The harness\<close>

definition unsupported_param :: "c_param \<Rightarrow> bool" where
  "unsupported_param p =
     (let t = trim (type_name p)
      in contains t ''void*'' \<or> contains t ''void *'' \<or> contains t ''struct''
         \<or> contains t ''(*'' \<or> contains t ''FILE'')"

definition include_if_missing :: "string \<Rightarrow> string \<Rightarrow> string" where
  "include_if_missing c_src header =
     (if contains c_src header then [] else header @ [newline])"

definition generate_test_harness :: "string \<Rightarrow> string \<Rightarrow> string option" where
  "generate_test_harness c_src fn_name =
     (case parse_c_signature c_src fn_name of
        None \<Rightarrow> None
      | Some sg \<Rightarrow>
          if list_ex unsupported_param (params sg) then None
          else Some (include_if_missing c_src ''#include <stdio.h>''
                     @ include_if_missing c_src ''#include <stdlib.h>''
                     @ (if has_int_params sg then include_if_missing c_src ''#include <limits.h>'' else [])
                     @ [newline] @ c_src @ [newline, newline]
                     @ ''int main(void) {'' @ [newline]
                     @ concat (generate_test_calls sg)
                     @ ''    return 0;'' @ [newline] @ ''}'' @ [newline]))"

section \<open>What a harness contains\<close>

lemma fold_max_ge: "(x::nat) \<in> set xs \<or> x = a \<Longrightarrow> x \<le> fold max xs a"
proof -
  assume "x \<in> set xs \<or> x = a"
  then have "x \<le> Max (set (a # xs))" by (intro Max_ge) auto
  then show ?thesis by (simp only: Max.set_eq_fold)
qed

lemma param_values_not_Nil: "param_values p \<noteq> []"
  by (simp add: param_values_def Let_def)

lemma test_values_not_Nil: "generate_param_test_values ps \<noteq> []"
proof (cases ps)
  case (Cons p rest)
  have "length (param_values p) \<le> fold max (map length (map param_values ps)) 0"
    by (rule fold_max_ge) (simp add: Cons)
  moreover have "0 < length (param_values p)" using param_values_not_Nil by simp
  ultimately have "0 < fold max (map length (map param_values ps)) 0" by linarith
  then show ?thesis by (simp add: generate_param_test_values_def Let_def Cons)
qed (simp add: generate_param_test_values_def)

text \<open>
  The combinations of test values: at least one is made, every one has a value for each
  parameter taken from that parameter's own values (the modulo by the number of values is never
  a division by zero), and every value of every parameter is used in some combination.
\<close>

theorem test_values_cover:
  "generate_param_test_values ps \<noteq> [] \<and>
   (\<forall>combo \<in> set (generate_param_test_values ps).
      list_all2 (\<lambda>p v. v \<in> set (param_values p)) ps combo) \<and>
   (\<forall>k < length ps. \<forall>v \<in> set (param_values (ps ! k)).
      \<exists>combo \<in> set (generate_param_test_values ps). combo ! k = v)"
proof (cases "ps = []")
  case False
  let ?pp = "map param_values ps"
  let ?m = "fold max (map length ?pp) 0"
  have gen: "generate_param_test_values ps
      = map (\<lambda>i. map (\<lambda>values. values ! (i mod length values)) ?pp) [0..<?m]"
    using False by (simp add: generate_param_test_values_def Let_def)
  have le: "length (param_values p) \<le> ?m" if "p \<in> set ps" for p
    by (rule fold_max_ge) (use that in auto)
  have 1: "generate_param_test_values ps \<noteq> []" by (rule test_values_not_Nil)
  have 2: "list_all2 (\<lambda>p v. v \<in> set (param_values p)) ps combo"
    if "combo \<in> set (generate_param_test_values ps)" for combo
    using that param_values_not_Nil by (auto simp: gen list_all2_conv_all_nth)
  have 3: "\<exists>combo \<in> set (generate_param_test_values ps). combo ! k = v"
    if k: "k < length ps" and v: "v \<in> set (param_values (ps ! k))" for k v
  proof -
    from v obtain i where i: "i < length (param_values (ps ! k))" "param_values (ps ! k) ! i = v"
      by (auto simp: in_set_conv_nth)
    let ?c = "map (\<lambda>values. values ! (i mod length values)) ?pp"
    have "i < ?m" using i le [of "ps ! k"] k by simp
    then have "?c \<in> set (generate_param_test_values ps)" by (auto simp: gen)
    moreover have "?c ! k = v" using k i by simp
    ultimately show ?thesis by blast
  qed
  from 1 2 3 show ?thesis by blast
qed (simp add: generate_param_test_values_def)

theorem test_values_cover_witness:
  "\<exists>combo \<in> set (generate_param_test_values [\<lparr>type_name = ''int'', param_name = ''a''\<rparr>]). combo ! 0 = ''42''"
proof -
  have "''42'' \<in> set (param_values \<lparr>type_name = ''int'', param_name = ''a''\<rparr>)" by code_simp
  then show ?thesis
    using test_values_cover [of "[\<lparr>type_name = ''int'', param_name = ''a''\<rparr>]"] by simp
qed

lemma harness_Some:
  "generate_test_harness c_src fn_name = Some h \<longleftrightarrow>
   (\<exists>sg. parse_c_signature c_src fn_name = Some sg \<and> \<not> list_ex unsupported_param (params sg) \<and>
      h = include_if_missing c_src ''#include <stdio.h>''
          @ include_if_missing c_src ''#include <stdlib.h>''
          @ (if has_int_params sg then include_if_missing c_src ''#include <limits.h>'' else [])
          @ [newline] @ c_src @ [newline, newline]
          @ ''int main(void) {'' @ [newline] @ concat (generate_test_calls sg)
          @ ''    return 0;'' @ [newline] @ ''}'' @ [newline])"
  by (auto simp: generate_test_harness_def split: option.splits)

lemma signature_in_lines_name:
  "signature_in_lines f ls = Some sg \<Longrightarrow> sig_name sg = f \<and> return_type sg \<noteq> []"
  by (induction f ls rule: signature_in_lines.induct)
     (auto simp: Let_def split: if_splits option.splits)

text \<open>
  A generated harness contains the C source unchanged, a \<open>main\<close> after it, and a call of the
  requested function; its parameters are all of supported types.
\<close>

theorem harness_contains_source_and_call:
  assumes "generate_test_harness c_src fn_name = Some h"
  shows "\<exists>before calls sg. h = before @ c_src @ [newline, newline] @ ''int main(void) {'' @ [newline]
            @ concat calls @ ''    return 0;'' @ [newline] @ ''}'' @ [newline]
          \<and> calls \<noteq> [] \<and> (\<forall>l \<in> set calls. contains l (fn_name @ ''(''))
          \<and> parse_c_signature c_src fn_name = Some sg \<and> (\<forall>p \<in> set (params sg). \<not> unsupported_param p)"
proof -
  from assms obtain sg where sg: "parse_c_signature c_src fn_name = Some sg"
    and sup: "\<not> list_ex unsupported_param (params sg)"
    and h: "h = (include_if_missing c_src ''#include <stdio.h>''
          @ include_if_missing c_src ''#include <stdlib.h>''
          @ (if has_int_params sg then include_if_missing c_src ''#include <limits.h>'' else [])
          @ [newline]) @ c_src @ [newline, newline] @ ''int main(void) {'' @ [newline]
          @ concat (generate_test_calls sg) @ ''    return 0;'' @ [newline] @ ''}'' @ [newline]"
    by (auto simp: harness_Some)
  have nm: "sig_name sg = fn_name"
    using sg by (auto simp: parse_c_signature_def dest: signature_in_lines_name)
  have "contains (test_call_line sg i vs) (fn_name @ ''('')" for i vs
  proof -
    let ?call = "sig_name sg @ ''('' @ join '', '' vs @ '')''"
    have "contains ?call (fn_name @ ''('')"
      using contains_infix [of "[]" "fn_name @ ''(''" "join '', '' vs @ '')''"] by (simp add: nm)
    then have "contains (a @ ?call @ b) (fn_name @ ''('')" for a b
      by (rule contains_prepend [OF contains_append])
    moreover have "\<exists>a b. test_call_line sg i vs = a @ ?call @ b"
      unfolding test_call_line_def Let_def by (metis append.assoc append_Nil)
    ultimately show ?thesis by (metis append.assoc)
  qed
  then have "\<forall>l \<in> set (generate_test_calls sg). contains l (fn_name @ ''('')"
    by (auto simp: generate_test_calls_def)
  moreover have "generate_test_calls sg \<noteq> []"
    using test_values_not_Nil [of "params sg"]
    by (simp add: generate_test_calls_def flip: length_greater_0_conv)
  moreover have "\<forall>p \<in> set (params sg). \<not> unsupported_param p"
    using sup by (simp add: list_ex_iff)
  ultimately show ?thesis
    by (intro exI conjI) (rule h, assumption+, rule sg, assumption)
qed

lemma harness_example: "generate_test_harness ''int f(int a);'' ''f'' \<noteq> None"
  by code_simp

theorem harness_contains_source_and_call_witness:
  "\<exists>h. generate_test_harness ''int f(int a);'' ''f'' = Some h \<and>
     (\<exists>before after. h = before @ ''int f(int a);'' @ after)"
proof -
  obtain h where h: "generate_test_harness ''int f(int a);'' ''f'' = Some h"
    using harness_example by auto
  show ?thesis using harness_contains_source_and_call [OF h] h by metis
qed

end
