(* ===== verification/Validation.thy ===== *)
theory Validation
  imports C_Ast Diff_Test Harness_Gen
begin

text \<open>
  The verification pipeline (\<open>crates/noricum-validation/src/lib.rs\<close>) with the helpers it calls in
  \<open>crates/noricum-tools/src/compiler.rs\<close>: compile check, clippy, counting of \<open>unsafe\<close>, the
  idiomatic score, the differential test, the pass verdict, and the state update that drives the
  repair loop. The Rust compiler, clippy and the tree-sitter parser are fields of \<open>workbench\<close>.
  Counts of pattern occurrences, \<open>i32\<close> in the source, are unbounded integers here: a wrap needs
  more than 700 million occurrences in one text.
\<close>

section \<open>The compiler tools\<close>

record compile_result =
  success :: bool
  cr_stdout :: string
  cr_stderr :: string

record 'exe workbench =
  chain :: "'exe toolchain"
  write_check :: "string \<Rightarrow> (tool_error, unit) result"
  rustc_lib :: "string \<Rightarrow> compile_result option"
  clippy_stderr :: "string \<Rightarrow> string option"
  grammars :: parsers

definition check_rust_compiles :: "'exe workbench \<Rightarrow> string \<Rightarrow> (tool_error, compile_result) result" where
  "check_rust_compiles wb src =
     bind_result (write_check wb src) (\<lambda>_. ok_or (rustc_lib wb src) (CommandNotFound ''rustc''))"

definition run_clippy_on_source :: "'exe workbench \<Rightarrow> string \<Rightarrow> (tool_error, string list) result" where
  "run_clippy_on_source wb src =
     bind_result (write_check wb src) (\<lambda>_.
       case clippy_stderr wb src of
         Some err \<Rightarrow> Inr (filter (\<lambda>l. contains l ''warning'') (lines err))
       | None \<Rightarrow> Inr [])"

definition strip_line_comment :: "string \<Rightarrow> string" where
  "strip_line_comment l = (case find_str l ''//'' of Some idx \<Rightarrow> take idx l | None \<Rightarrow> l)"

definition unsafe_in_line :: "string \<Rightarrow> u32" where
  "unsafe_in_line l =
     (let trimmed = trim l;
          block = (contains trimmed ''unsafe'' \<and> contains trimmed ''{''
                   \<and> \<not> contains trimmed ''unsafe fn'' \<and> \<not> contains trimmed ''unsafe impl''
                   \<and> \<not> contains trimmed ''unsafe trait''
                   \<and> (case find_str trimmed ''unsafe'' of None \<Rightarrow> False
                      | Some pos \<Rightarrow> starts_with (trim_start (drop (pos + 6) trimmed)) ''{''))
      in (if block then 1 else 0)
         + (if contains trimmed ''unsafe fn '' \<or> contains trimmed ''unsafe fn('' then 1 else 0))"

definition count_unsafe_blocks_heuristic :: "string \<Rightarrow> u32" where
  "count_unsafe_blocks_heuristic src =
     (let stripped = unlines (map strip_line_comment (lines src))
      in sum_list (map unsafe_in_line (lines stripped)))"

definition count_unsafe_blocks :: "'exe workbench \<Rightarrow> string \<Rightarrow> u32" where
  "count_unsafe_blocks wb src =
     (case count_unsafe_blocks_tree_sitter (grammars wb) src of Some n \<Rightarrow> n | None \<Rightarrow> count_unsafe_blocks_heuristic src)"

definition count_unsafe_blocks_ast :: "'exe workbench \<Rightarrow> string \<Rightarrow> u32" where
  "count_unsafe_blocks_ast wb src =
     (case count_unsafe_blocks_ts (grammars wb) src of Some n \<Rightarrow> n | None \<Rightarrow> count_unsafe_blocks wb src)"

section \<open>Counting functions\<close>

text \<open>
  \<open>scan_body\<close> reads to the brace that closes the body (or to the end of the text) and returns
  the body and the rest; \<open>scan_functions\<close> is the character loop of \<open>count_empty_functions\<close>.
\<close>

fun scan_body :: "string \<Rightarrow> nat \<Rightarrow> string \<times> string" where
  "scan_body [] depth = ([], [])"
| "scan_body (c # cs) depth =
     (if c = CHR ''{'' then (let (b, r) = scan_body cs (depth + 1) in (c # b, r))
      else if c = CHR ''}'' then
        (if depth - 1 = 0 then ([], cs)
         else (let (b, r) = scan_body cs (depth - 1) in (c # b, r)))
      else (let (b, r) = scan_body cs depth in (c # b, r)))"

lemma scan_body_rest: "length (snd (scan_body cs d)) \<le> length cs"
proof (induction cs d rule: scan_body.induct)
  case (2 c cs depth)
  then show ?case by (auto simp: case_prod_beta Let_def le_SucI)
qed simp

definition empty_body :: "string \<Rightarrow> bool" where
  "empty_body b = (trim b = [] \<or> trim b = ''todo!()'')"

function scan_functions :: "string \<Rightarrow> bool \<Rightarrow> nat" where
  "scan_functions [] in_fn = 0"
| "scan_functions (c # cs) in_fn =
     (let is_fn = (c = CHR ''f'' \<and> starts_with cs ''n'');
          cs1 = (if is_fn then tl cs else cs);
          in1 = (if is_fn \<and> (starts_with cs1 '' '' \<or> starts_with cs1 ''('') then True else in_fn)
      in if in1 \<and> c = CHR ''{'' then
           (let (body, rest) = scan_body cs1 1
            in (if empty_body body then 1 else 0) + scan_functions rest False)
         else scan_functions cs1 in1)"
  by pat_completeness auto
termination
proof (relation "measure (\<lambda>(cs, b). length cs)", goal_cases)
  case (2 c cs in_fn is_fn cs1 in1 x body rest)
  then have "length rest \<le> length cs1" by (metis scan_body_rest snd_conv)
  also have "\<dots> \<le> length cs" using 2 by auto
  finally show ?case by simp
qed auto

definition count_empty_functions :: "string \<Rightarrow> nat" where
  "count_empty_functions src = scan_functions src False"

definition count_total_functions :: "string \<Rightarrow> nat" where
  "count_total_functions src =
     length (filter (\<lambda>l. let t = trim l
       in (starts_with t ''fn '' \<or> starts_with t ''pub fn '' \<or> starts_with t ''pub(crate) fn '')
          \<and> contains t ''('') (lines src))"

section \<open>The idiomatic score\<close>

definition compute_idiomatic_score :: "u32 \<Rightarrow> u32 \<Rightarrow> u32" where
  "compute_idiomatic_score unsafes warnings =
     (let penalty = unsafes * 10 + warnings * 2 in saturating_sub 100 penalty)"

definition clamp :: "int \<Rightarrow> int \<Rightarrow> int \<Rightarrow> int" where
  "clamp lo hi x = max lo (min hi x)"

definition positive_patterns :: "string list" where
  "positive_patterns =
     [''Result<'', ''Option<'', ''.iter()'', ''.into()'', ''impl '', ''From<'', ''Into<'', ''enum '',
      ''.collect()'', ''.map('', ''.filter('', ''.unwrap_or('', ''.unwrap_or_else('', ''Vec<'',
      ''String'', ''HashMap<'', ''&['', ''&str'']"

definition has_substance_score :: "nat \<Rightarrow> nat \<Rightarrow> bool" where
  "has_substance_score c_lines rust_lines =
     (if 20 < c_lines then c_lines div 4 \<le> rust_lines else 1 \<le> rust_lines)"

definition as_cast_count :: "string \<Rightarrow> nat" where
  "as_cast_count src = length (filter (\<lambda>w. w = ''as'') (split_whitespace src))"

definition manual_index_count :: "string \<Rightarrow> nat" where
  "manual_index_count src =
     count_matches src ''[i]'' + count_matches src ''[j]'' + count_matches src ''[idx]''"

definition signal_bonus :: "string \<Rightarrow> nat \<Rightarrow> nat \<Rightarrow> int" where
  "signal_bonus rust_src c_lines rust_lines =
     sum_list (map (\<lambda>p. min (int (count_matches rust_src p)) 3 * 2) positive_patterns)
     - int (count_matches rust_src ''.unwrap()'') * 3
     - int (as_cast_count rust_src)
     - int (manual_index_count rust_src) * 2
     + (if 5 < c_lines \<and> 0 < rust_lines \<and> rust_lines < c_lines then 5 else 0)"

text \<open>
  The ratio test \<open>empty as f32 / total as f32 > 0.3\<close> is the exact \<open>10 * empty > 3 * total\<close>; the
  rounding of the quotient does not change it for counts below a million.
\<close>

definition compute_idiomatic_score_from_source :: "u32 \<Rightarrow> u32 \<Rightarrow> string \<Rightarrow> string \<Rightarrow> u32" where
  "compute_idiomatic_score_from_source unsafes warnings rust_src c_src =
     (let base = int (unat (compute_idiomatic_score unsafes warnings));
          c_lines = nonblank_line_count c_src;
          rust_lines = nonblank_line_count rust_src
      in if \<not> has_substance_score c_lines rust_lines then of_int (clamp 0 15 base)
         else (let empty_fns = count_empty_functions rust_src;
                   total_fns = count_total_functions rust_src
               in if 3 < total_fns \<and> 3 * total_fns < 10 * empty_fns then of_int (clamp 0 20 base)
                  else of_int (clamp 0 100 (base + signal_bonus rust_src c_lines rust_lines))))"

section \<open>The validation pipeline\<close>

datatype validation_error =
    NoRustOutput
  | ValidationCompilationFailed string
  | DifferentialTestFailed string string
  | Tool tool_error

record validation_result =
  compiles :: bool
  compiler_errors :: "string list"
  clippy_warnings :: "string list"
  vr_unsafe_count :: u32
  vr_idiomatic_score :: u32
  diff_test_passed :: "bool option"
  diff_test_feedback :: "string list"
  passed :: bool

definition lift_tool :: "(tool_error, 'a) result \<Rightarrow> (validation_error, 'a) result" where
  "lift_tool r = (case r of Inl e \<Rightarrow> Inl (Tool e) | Inr a \<Rightarrow> Inr a)"

definition mismatch_feedback :: "diff_test_result \<Rightarrow> string list" where
  "mismatch_feedback d =
     (if \<not> rust_compiled d then [''Rust binary compilation failed (standalone)'']
      else [''Output mismatch:'' @ [newline] @ ''  C output:    '' @ debug_str (c_output d) @ [newline]
             @ ''  Rust output: '' @ debug_str (rust_stdout d)]
           @ (if c_exit_code d \<noteq> rust_exit_code d
              then [''Exit code mismatch: C='' @ show_int (sint (c_exit_code d))
                    @ '', Rust='' @ show_int (sint (rust_exit_code d))]
              else []))"

text \<open>The C program to test with: the source itself, or a generated harness.\<close>

definition test_c_source :: "function_unit \<Rightarrow> string option" where
  "test_c_source u =
     (if contains (c_source u) ''int main('' then Some (c_source u)
      else generate_test_harness (c_source u) (unit_name u))"

definition diff_step ::
  "'exe workbench \<Rightarrow> function_unit \<Rightarrow> string \<Rightarrow> bool \<Rightarrow> bool option \<times> string list" where
  "diff_step wb u rust_src compiled =
     (if compiled then
        (case test_c_source u of
           Some c_test \<Rightarrow>
             (case run_diff_test (chain wb) c_test rust_src of
                Inr d \<Rightarrow> if dt_passed d then (Some True, []) else (Some False, mismatch_feedback d)
              | Inl e \<Rightarrow> (Some False, [''Diff test error: '' @ show_tool_error e]))
         | None \<Rightarrow> (None, []))
      else (None, []))"

definition verdict :: "bool \<Rightarrow> u32 \<Rightarrow> u32 \<Rightarrow> bool option \<Rightarrow> bool" where
  "verdict compiled score min_score diff =
     (if diff = None then (let elevated_threshold = max min_score 80
                           in compiled \<and> elevated_threshold \<le> score)
      else compiled \<and> min_score \<le> score \<and> unwrap_or diff False)"

definition validate_with_threshold ::
  "'exe workbench \<Rightarrow> function_unit \<Rightarrow> u32 \<Rightarrow> (validation_error, validation_result) result" where
  "validate_with_threshold wb u min_score =
     bind_result (ok_or (rust_output u) NoRustOutput) (\<lambda>rust_src.
     bind_result (lift_tool (check_rust_compiles wb rust_src)) (\<lambda>cr.
     bind_result (lift_tool (run_clippy_on_source wb rust_src)) (\<lambda>warnings.
       let errors = (if \<not> success cr then filter (\<lambda>l. contains l ''error'') (lines (cr_stderr cr)) else []);
           unsafes = count_unsafe_blocks wb rust_src;
           score = compute_idiomatic_score_from_source unsafes (as_u32 (length warnings)) rust_src (c_source u);
           (diff, feedback) = diff_step wb u rust_src (success cr)
       in Inr \<lparr>compiles = success cr, compiler_errors = errors, clippy_warnings = warnings,
               vr_unsafe_count = unsafes, vr_idiomatic_score = score, diff_test_passed = diff,
               diff_test_feedback = feedback, passed = verdict (success cr) score min_score diff\<rparr>)))"

definition validate :: "'exe workbench \<Rightarrow> function_unit \<Rightarrow> (validation_error, validation_result) result" where
  "validate wb u = validate_with_threshold wb u 60"

section \<open>Hints for the repair agent\<close>

definition cast_hint :: "string \<Rightarrow> string" where
  "cast_hint src =
     (let as_usize = count_matches src ''as usize'';
          as_i32 = count_matches src ''as i32'';
          as_f64 = count_matches src ''as f64''
      in ''Reduce `as` casts ('' @ show_nat (as_cast_count src) @ '' found). ''
         @ (if 3 < as_usize then show_nat as_usize @ ''x `as usize` '' @ em_dash
              @ '' consider using `usize` for fields used as array indices. '' else [])
         @ (if 3 < as_i32 then show_nat as_i32 @ ''x `as i32` '' @ em_dash
              @ '' consider using consistent integer types. '' else [])
         @ (if 3 < as_f64 then show_nat as_f64 @ ''x `as f64` '' @ em_dash
              @ '' consider using `f64` for fields used in floating-point math. '' else []))"

definition index_hint :: "nat \<Rightarrow> string" where
  "index_hint n =
     ''Reduce manual array indexing ('' @ show_nat n @ '' occurrences of [i]/[j]/[idx]). ''
     @ ''Use iterator methods (.iter(), .enumerate(), .zip(), chunks()) where possible. ''
     @ ''For neural network weight/output arrays, consider using split_at_mut() or chunks_exact_mut() ''
     @ ''to iterate over weight groups instead of manual index arithmetic.''"

definition unwrap_hint :: "nat \<Rightarrow> string" where
  "unwrap_hint n =
     ''Replace '' @ show_nat n @ '' `.unwrap()` calls with `?` operator, `.unwrap_or()`, ''
     @ ''or `.expect()` with meaningful messages.''"

definition hint_preamble :: string where
  "hint_preamble =
     ''IMPORTANT: The code compiles and produces correct output. ''
     @ ''Do NOT change any logic or behavior. Only refactor for idiomatic Rust style. ''
     @ ''The output must remain byte-exact identical.''"

definition generate_idiomatic_hints :: "string \<Rightarrow> string list" where
  "generate_idiomatic_hints src =
     (let unwraps = count_matches src ''.unwrap()'';
          hints = (if 5 < as_cast_count src then [cast_hint src] else [])
                  @ (if 5 < manual_index_count src then [index_hint (manual_index_count src)] else [])
                  @ (if 2 < unwraps then [unwrap_hint unwraps] else [])
      in if hints \<noteq> [] then hint_preamble # hints else hints)"

section \<open>Updating the unit\<close>

definition next_state :: "migration_state \<Rightarrow> bool \<Rightarrow> u32 \<Rightarrow> migration_state" where
  "next_state st ok max_repair =
     (if ok then Validated
      else case st of
          Repairing n \<Rightarrow> if max_repair \<le> n then FallbackUnsafe else Repairing (n + 1)
        | _ \<Rightarrow> Repairing 1)"

definition apply_validation_with_max ::
  "function_unit \<Rightarrow> validation_result \<Rightarrow> u32 \<Rightarrow> function_unit" where
  "apply_validation_with_max u r max_repair =
     u\<lparr>idiomatic_score := Some (vr_idiomatic_score r),
       unsafe_count := Some (vr_unsafe_count r),
       last_errors := compiler_errors r,
       last_diff_feedback := diff_test_feedback r,
       unit_state := next_state (unit_state u) (passed r) max_repair\<rparr>"

definition apply_validation :: "function_unit \<Rightarrow> validation_result \<Rightarrow> function_unit" where
  "apply_validation u r = apply_validation_with_max u r 5"

section \<open>Bounds of the score\<close>

lemma uint_clamp:
  "0 \<le> lo \<Longrightarrow> lo \<le> hi \<Longrightarrow> hi < 4294967296 \<Longrightarrow> uint (of_int (clamp lo hi x) :: u32) = clamp lo hi x"
proof -
  assume "0 \<le> lo" "lo \<le> hi" "hi < 4294967296"
  then have "0 \<le> clamp lo hi x" "clamp lo hi x < 2 ^ 32" by (auto simp: clamp_def)
  then show ?thesis by (simp add: uint_word_of_int_eq take_bit_int_eq_self)
qed

lemma score_cases:
  "uint (compute_idiomatic_score_from_source u w r c) =
     (let base = uint (compute_idiomatic_score u w);
          cl = nonblank_line_count c; rl = nonblank_line_count r
      in if \<not> has_substance_score cl rl then clamp 0 15 base
         else if 3 < count_total_functions r \<and> 3 * count_total_functions r < 10 * count_empty_functions r
         then clamp 0 20 base else clamp 0 100 (base + signal_bonus r cl rl))"
  by (simp add: compute_idiomatic_score_from_source_def Let_def uint_clamp)

text \<open>
  The idiomatic score is at most 100 whatever the signals in the text; it is at most 15 for a
  translation without substance (under a quarter of the lines of a C text of more than 20, or no
  line at all) and at most 20 when more than three tenths of more than three functions are empty.
\<close>

theorem idiomatic_score_bounds:
  "uint (compute_idiomatic_score_from_source u w r c) \<le> 100 \<and>
   (\<not> has_substance_score (nonblank_line_count c) (nonblank_line_count r) \<longrightarrow>
      uint (compute_idiomatic_score_from_source u w r c) \<le> 15) \<and>
   (3 < count_total_functions r \<and> 3 * count_total_functions r < 10 * count_empty_functions r \<longrightarrow>
      uint (compute_idiomatic_score_from_source u w r c) \<le> 20)"
  unfolding score_cases by (auto simp: Let_def clamp_def min_le_iff_disj)

theorem idiomatic_score_bounds_witness:
  "uint (compute_idiomatic_score_from_source 0 0 [] ''int x;'') \<le> 15"
proof -
  have "\<not> has_substance_score (nonblank_line_count ''int x;'') (nonblank_line_count [])"
    by code_simp
  then show ?thesis using idiomatic_score_bounds [of 0 0 "[]" "''int x;''"] by blast
qed

text \<open>
  The basic score is 100 less ten points per unsafe block and two per warning, stopping at
  zero, as long as the penalty fits in 32 bits.
\<close>

theorem basic_score_exact:
  assumes "10 * unat u + 2 * unat w < 4294967296"
  shows "unat (compute_idiomatic_score u w) = 100 - (10 * unat u + 2 * unat w)"
proof -
  have "unat (u * 10) = unat u * 10" "unat (w * 2) = unat w * 2"
    using assms by (auto simp: unat_word_ariths)
  with assms have "unat (u * 10 + w * 2) = 10 * unat u + 2 * unat w"
    by (simp add: unat_word_ariths)
  then show ?thesis by (simp add: compute_idiomatic_score_def unat_saturating_sub)
qed

theorem basic_score_exact_witness: "unat (compute_idiomatic_score 3 4) = 62"
  using basic_score_exact [of 3 4] by simp

lemma basic_score_wraps: "compute_idiomatic_score 429496730 0 = 96"
  by (simp add: compute_idiomatic_score_def saturating_sub_def)

section \<open>Soundness of the verdict\<close>

lemma lift_tool_Inr [simp]: "lift_tool r = Inr a \<longleftrightarrow> r = Inr a"
  by (auto simp: lift_tool_def split: sum.splits)

lemma validate_Inr:
  "validate_with_threshold wb u m = Inr res \<longleftrightarrow>
     (\<exists>rust_src cr ws. rust_output u = Some rust_src \<and> check_rust_compiles wb rust_src = Inr cr
        \<and> run_clippy_on_source wb rust_src = Inr ws \<and>
        (let score = compute_idiomatic_score_from_source (count_unsafe_blocks wb rust_src)
                       (as_u32 (length ws)) rust_src (c_source u);
             d = diff_step wb u rust_src (success cr)
         in res = \<lparr>compiles = success cr,
              compiler_errors = (if \<not> success cr then filter (\<lambda>l. contains l ''error'') (lines (cr_stderr cr)) else []),
              clippy_warnings = ws, vr_unsafe_count = count_unsafe_blocks wb rust_src,
              vr_idiomatic_score = score, diff_test_passed = fst d, diff_test_feedback = snd d,
              passed = verdict (success cr) score m (fst d)\<rparr>))"
  by (auto simp: validate_with_threshold_def bind_result_Inr_iff ok_or_def Let_def case_prod_beta
      split: option.splits)

lemma diff_step_Some_True:
  "fst (diff_step wb u r ok) = Some True \<Longrightarrow>
     \<exists>c d. test_c_source u = Some c \<and> run_diff_test (chain wb) c r = Inr d \<and> dt_passed d"
  by (auto simp: diff_step_def split: if_splits option.splits sum.splits)

lemma diff_step_None:
  "fst (diff_step wb u r ok) = None \<Longrightarrow> ok \<Longrightarrow> test_c_source u = None"
  by (auto simp: diff_step_def split: if_splits option.splits sum.splits)

text \<open>
  C2: A unit passes validation only when its Rust text compiles, its score reaches the threshold,
  and either the differential test against the C source (or the generated harness) passed, or no
  test program could be made and the score reaches the raised threshold of at least 80.
\<close>

theorem validation_sound:
  assumes "validate_with_threshold wb u m = Inr res" and "passed res"
  shows "\<exists>rust_src cr. rust_output u = Some rust_src \<and> check_rust_compiles wb rust_src = Inr cr
     \<and> success cr \<and> m \<le> vr_idiomatic_score res \<and>
     ((\<exists>c d. test_c_source u = Some c \<and> run_diff_test (chain wb) c rust_src = Inr d \<and> dt_passed d)
      \<or> (test_c_source u = None \<and> 80 \<le> vr_idiomatic_score res))"
proof -
  from assms(1) obtain rust_src cr ws where src: "rust_output u = Some rust_src"
    and cr: "check_rust_compiles wb rust_src = Inr cr"
    and d: "diff_test_passed res = fst (diff_step wb u rust_src (success cr))"
    and v: "passed res = verdict (success cr) (vr_idiomatic_score res) m (diff_test_passed res)"
    by (auto simp: validate_Inr Let_def)
  have "success cr \<and> m \<le> vr_idiomatic_score res \<and>
     ((\<exists>c d. test_c_source u = Some c \<and> run_diff_test (chain wb) c rust_src = Inr d \<and> dt_passed d)
      \<or> (test_c_source u = None \<and> 80 \<le> vr_idiomatic_score res))"
  proof (cases "diff_test_passed res")
    case None
    with v assms(2) have ok: "success cr" "max m 80 \<le> vr_idiomatic_score res"
      by (auto simp: verdict_def Let_def)
    moreover have "test_c_source u = None" using diff_step_None [of wb u rust_src] None d ok by simp
    ultimately show ?thesis by auto
  next
    case (Some b)
    with v assms(2) have ok: "success cr" "m \<le> vr_idiomatic_score res" "b"
      by (auto simp: verdict_def)
    then show ?thesis using diff_step_Some_True [of wb u rust_src "success cr"] Some d by auto
  qed
  with src cr show ?thesis by blast
qed

section \<open>The repair states\<close>

lemma state_apply [simp]:
  "unit_state (apply_validation_with_max u r mx) = next_state (unit_state u) (passed r) mx"
  by (simp add: apply_validation_with_max_def)

definition apply_all :: "u32 \<Rightarrow> validation_result list \<Rightarrow> function_unit \<Rightarrow> function_unit" where
  "apply_all mx rs u = fold (\<lambda>r u. apply_validation_with_max u r mx) rs u"

lemma repairing_run:
  "unit_state u = Repairing n \<Longrightarrow> \<forall>r \<in> set rs. \<not> passed r \<Longrightarrow> unat n + length rs \<le> unat mx \<Longrightarrow>
     unit_state (apply_all mx rs u) = Repairing (n + of_nat (length rs))"
proof (induction rs arbitrary: u n)
  case (Cons r rs)
  then have lt: "unat n < unat mx" by simp
  then have nmx: "n < mx" by (simp add: word_less_nat_alt)
  have "unit_state (apply_validation_with_max u r mx) = Repairing (n + 1)"
    using Cons.prems nmx by (simp add: next_state_def)
  moreover have "unat (n + 1) + length rs \<le> unat mx"
    using Cons.prems word_Suc_le [OF nmx] by simp
  ultimately have "unit_state (apply_all mx rs (apply_validation_with_max u r mx))
      = Repairing (n + 1 + of_nat (length rs))"
    using Cons.prems by (intro Cons.IH) auto
  then show ?case by (simp add: apply_all_def add_ac)
qed (simp add: apply_all_def)

lemma apply_all_append: "apply_all mx (xs @ ys) u = apply_all mx ys (apply_all mx xs u)"
  by (simp add: apply_all_def)

text \<open>
  C1: Consecutive failed validations of a unit that was not under repair: after \<open>k\<close> of them, up
  to the configured maximum, the state is \<open>Repairing k\<close>; the next failure ends in
  \<open>FallbackUnsafe\<close>. The counter never wraps.
\<close>

theorem failed_validations_run:
  assumes "\<forall>n. unit_state u \<noteq> Repairing n" and "\<forall>r \<in> set rs. \<not> passed r"
    and "1 \<le> unat mx" and "rs \<noteq> []" and "length rs \<le> unat mx + 1"
  shows "unit_state (apply_all mx rs u) =
     (if length rs \<le> unat mx then Repairing (of_nat (length rs)) else FallbackUnsafe)"
proof -
  have upto: "unit_state (apply_all mx xs u) = Repairing (of_nat (length xs))"
    if ne: "xs \<noteq> []" and le: "length xs \<le> unat mx" and fails: "\<forall>r \<in> set xs. \<not> passed r" for xs
  proof -
    obtain r ys where xs: "xs = r # ys" using ne by (cases xs) auto
    let ?u = "apply_validation_with_max u r mx"
    have "unit_state ?u = Repairing 1"
      using assms(1) fails xs by (auto simp: next_state_def split: migration_state.splits)
    then have "unit_state (apply_all mx ys ?u) = Repairing (1 + of_nat (length ys))"
      using le fails xs by (intro repairing_run) auto
    then show ?thesis by (simp add: xs apply_all_def)
  qed
  show ?thesis
  proof (cases "length rs \<le> unat mx")
    case True
    then show ?thesis using upto [of rs] assms by simp
  next
    case False
    with assms(5) have len: "length rs = unat mx + 1" by simp
    then obtain xs r where rs: "rs = xs @ [r]" by (metis Suc_eq_plus1 length_Suc_conv_rev)
    with len have xs: "length xs = unat mx" by simp
    have "xs \<noteq> []" using xs assms(3) by (metis list.size(3) not_one_le_zero)
    then have "unit_state (apply_all mx xs u) = Repairing mx"
      using upto [of xs] xs rs assms(2) by simp
    then show ?thesis
      using False rs assms(2) by (simp add: apply_all_append) (simp add: apply_all_def next_state_def)
  qed
qed

text \<open>Concrete inputs of the witnesses.\<close>

definition failed_result :: validation_result where
  "failed_result = \<lparr>compiles = False, compiler_errors = [''error''], clippy_warnings = [],
     vr_unsafe_count = 0, vr_idiomatic_score = 40, diff_test_passed = None,
     diff_test_feedback = [], passed = False\<rparr>"

theorem failed_validations_run_witness:
  "unit_state (apply_all 2 [failed_result, failed_result, failed_result] (new_unit [] [] [])) = FallbackUnsafe"
  using failed_validations_run [of "new_unit [] [] []" "[failed_result, failed_result, failed_result]" 2]
  by (simp add: new_unit_def failed_result_def)

definition clean_workbench :: "string workbench" where
  "clean_workbench = \<lparr>chain = echo_toolchain, write_check = (\<lambda>_. Inr ()),
     rustc_lib = (\<lambda>_. Some \<lparr>success = True, cr_stdout = [], cr_stderr = []\<rparr>),
     clippy_stderr = (\<lambda>_. None), grammars = no_parsers\<rparr>"

definition main_unit :: function_unit where
  "main_unit = (new_unit ''m'' ''m.c'' ''int main(void);'')\<lparr>rust_output := Some ''fn main() {}''\<rparr>"

lemma main_unit_score:
  "60 \<le> compute_idiomatic_score_from_source 0 0 ''fn main() {}'' ''int main(void);''"
  by code_simp

lemma echo_diff_test: "\<exists>d. run_diff_test echo_toolchain c r = Inr d \<and> dt_passed d"
  unfolding run_diff_test_passed_iff_aux by (simp add: echo_compiles echo_run same_behaviour_def)

theorem validation_sound_witness:
  "\<exists>res. validate_with_threshold clean_workbench main_unit 60 = Inr res \<and> passed res \<and>
     60 \<le> vr_idiomatic_score res"
proof -
  have c: "contains ''int main(void);'' ''int main(''" by code_simp
  obtain d where "run_diff_test echo_toolchain ''int main(void);'' ''fn main() {}'' = Inr d" "dt_passed d"
    using echo_diff_test by blast
  then have "diff_step clean_workbench main_unit ''fn main() {}'' True = (Some True, [])"
    using c by (simp add: diff_step_def test_c_source_def clean_workbench_def main_unit_def new_unit_def)
  then obtain res where res: "validate_with_threshold clean_workbench main_unit 60 = Inr res"
    and p: "passed res"
    using main_unit_score
    by (auto simp: validate_Inr Let_def check_rust_compiles_def run_clippy_on_source_def
        count_unsafe_blocks_def clean_workbench_def main_unit_def new_unit_def verdict_def as_u32_def)
  show ?thesis using validation_sound [OF res p] res p by blast
qed

end
