(* ===== verification/Ensemble.thy ===== *)
theory Ensemble
  imports Validation "HOL-Library.Product_Lexorder"
begin

text \<open>
  Ensemble translation (\<open>crates/noricum-agents/src/ensemble_translation.rs\<close> and
  \<open>crates/noricum-core/src/ensemble.rs\<close>): when several translations of one unit are generated, they
  are graded, ranked by one of three strategies, and the winner replaces the unit's output when it
  is better. Generating a candidate (prompting a language model) is a parameter; costs, ratios and
  temperatures are exact rationals.
\<close>

section \<open>Configuration and candidates\<close>

datatype provider_kind = Anthropic | DeepSeek | Ollama

record candidate_config =
  cc_provider :: provider_kind
  cc_temperature :: rat
  cc_label :: string

datatype selection_strategy = BestScore | FirstCompiles | Tournament

record ensemble_config =
  max_candidates :: nat
  candidate_configs :: "candidate_config list"
  strategy :: selection_strategy
  run_parallel :: bool
  max_ensemble_cost_usd :: rat

definition ensemble_config_default :: ensemble_config where
  "ensemble_config_default = \<lparr>max_candidates = 4,
     candidate_configs =
       [\<lparr>cc_provider = Anthropic, cc_temperature = 3/10, cc_label = ''claude-low''\<rparr>,
        \<lparr>cc_provider = DeepSeek, cc_temperature = 3/10, cc_label = ''deepseek-low''\<rparr>,
        \<lparr>cc_provider = Anthropic, cc_temperature = 6/10, cc_label = ''claude-high''\<rparr>,
        \<lparr>cc_provider = DeepSeek, cc_temperature = 6/10, cc_label = ''deepseek-high''\<rparr>],
     strategy = BestScore, run_parallel = True, max_ensemble_cost_usd = 5\<rparr>"

record candidate =
  config_label :: string
  cand_provider :: provider_kind
  cand_temperature :: rat
  cand_source :: string
  cand_compiles :: bool
  cand_errors :: "string list"
  cand_score :: u32
  cand_unsafe :: u32
  cand_cost :: rat
  cand_specs_passed :: "nat option"
  cand_specs_total :: "nat option"

record ensemble_result =
  winner :: "candidate option"
  all_candidates :: "candidate list"
  total_cost_usd :: rat
  compiled_count :: nat

section \<open>Grading\<close>

definition evaluate_candidate ::
  "'exe workbench \<Rightarrow> string \<Rightarrow> string \<Rightarrow> string \<Rightarrow> provider_kind \<Rightarrow> rat \<Rightarrow> rat \<Rightarrow> candidate" where
  "evaluate_candidate wb rust_src c_src lbl provider temp est_cost =
     (let (compiled, errors) =
            (case check_rust_compiles wb rust_src of
               Inr r \<Rightarrow> (success r, if \<not> success r
                                   then filter (\<lambda>l. contains l ''error'') (lines (cr_stderr r)) else [])
             | Inl e \<Rightarrow> (False, [''Compilation check error: '' @ show_tool_error e]));
          unsafes = count_unsafe_blocks wb rust_src;
          score = compute_idiomatic_score_from_source unsafes 0 rust_src c_src
      in \<lparr>config_label = lbl, cand_provider = provider, cand_temperature = temp,
          cand_source = rust_src, cand_compiles = compiled, cand_errors = errors,
          cand_score = score, cand_unsafe = unsafes, cand_cost = est_cost,
          cand_specs_passed = None, cand_specs_total = None\<rparr>)"

text \<open>The optional gate: \<open>run_specs\<close> is \<open>validate_against_specs\<close> on the mined traces.\<close>

definition evaluate_candidate_with_specs ::
  "'exe workbench \<Rightarrow> (string \<Rightarrow> 't list \<Rightarrow> ('e, nat \<times> nat) result) \<Rightarrow> string \<Rightarrow> string \<Rightarrow> string
   \<Rightarrow> provider_kind \<Rightarrow> rat \<Rightarrow> rat \<Rightarrow> 't list option \<Rightarrow> candidate" where
  "evaluate_candidate_with_specs wb run_specs rust_src c_src lbl provider temp est_cost traces =
     (let c = evaluate_candidate wb rust_src c_src lbl provider temp est_cost
      in case traces of
           None \<Rightarrow> c
         | Some ts \<Rightarrow>
             if cand_compiles c \<and> ts \<noteq> [] then
               (case run_specs rust_src ts of
                  Inr (p, t) \<Rightarrow> c\<lparr>cand_specs_passed := Some p, cand_specs_total := Some t\<rparr>
                | Inl e \<Rightarrow> c)
             else c)"

section \<open>Selection\<close>

definition spec_ratio :: "candidate \<Rightarrow> rat" where
  "spec_ratio c = (case (cand_specs_passed c, cand_specs_total c) of
     (Some p, Some t) \<Rightarrow> if 0 < t then of_nat p / of_nat t else 1/2
   | _ \<Rightarrow> 1/2)"

text \<open>\<open>max_by_key\<close> keeps the last of several maximal elements.\<close>

fun max_by_key :: "('a \<Rightarrow> 'k::linorder) \<Rightarrow> 'a list \<Rightarrow> 'a option" where
  "max_by_key key [] = None"
| "max_by_key key (x # xs) = Some (fold (\<lambda>y best. if key best \<le> key y then y else best) xs x)"

text \<open>The comparison of the sort: ratio descending, score descending, unsafe ascending.\<close>

definition rank_key :: "candidate \<Rightarrow> rat \<times> int \<times> int" where
  "rank_key c = (- spec_ratio c, - uint (cand_score c), uint (cand_unsafe c))"

definition select_best_score :: "candidate list \<Rightarrow> candidate option" where
  "select_best_score cs =
     (let compiling = filter cand_compiles cs
      in if compiling = [] then max_by_key cand_score cs
         else get (sort_key rank_key compiling) 0)"

definition select_first_compiles :: "candidate list \<Rightarrow> candidate option" where
  "select_first_compiles cs =
     (case find cand_compiles cs of Some c \<Rightarrow> Some c | None \<Rightarrow> get cs 0)"

definition compare_candidates :: "candidate \<Rightarrow> candidate \<Rightarrow> candidate" where
  "compare_candidates a b =
     (if cand_compiles a \<and> \<not> cand_compiles b then a
      else if cand_compiles b \<and> \<not> cand_compiles a then b
      else if cand_score b < cand_score a then a
      else if cand_score a < cand_score b then b
      else if cand_unsafe a < cand_unsafe b then a
      else if cand_unsafe b < cand_unsafe a then b
      else if cand_cost a \<le> cand_cost b then a else b)"

fun next_round :: "candidate list \<Rightarrow> candidate list" where
  "next_round [] = []"
| "next_round [x] = [x]"
| "next_round (x # y # rest) = compare_candidates x y # next_round rest"

lemma length_next_round: "length (next_round cs) = (length cs + 1) div 2"
proof (induction cs rule: next_round.induct)
  case (3 x y rest)
  then show ?case by simp
qed simp_all

function tournament_rounds :: "candidate list \<Rightarrow> candidate list" where
  "tournament_rounds cs =
     (if 1 < length cs then tournament_rounds (next_round cs) else cs)"
  by pat_completeness auto
termination
  by (relation "measure length") (auto simp: length_next_round)

declare tournament_rounds.simps [simp del]

definition select_tournament :: "candidate list \<Rightarrow> candidate option" where
  "select_tournament cs =
     (if length cs \<le> 1 then get cs 0 else get (tournament_rounds cs) 0)"

definition select_best :: "candidate list \<Rightarrow> selection_strategy \<Rightarrow> candidate option" where
  "select_best cs strat =
     (if cs = [] then None
      else case strat of BestScore \<Rightarrow> select_best_score cs
           | FirstCompiles \<Rightarrow> select_first_compiles cs
           | Tournament \<Rightarrow> select_tournament cs)"

section \<open>Generating\<close>

definition estimate_candidate_cost :: "u64 \<Rightarrow> u64 \<Rightarrow> provider_kind \<Rightarrow> rat" where
  "estimate_candidate_cost inp outp provider =
     (let (i, o_rate) = (case provider of Anthropic \<Rightarrow> (3, 15) | DeepSeek \<Rightarrow> (14/100, 28/100) | Ollama \<Rightarrow> (0, 0))
      in of_nat (unat inp) / 1000000 * i + of_nat (unat outp) / 1000000 * o_rate)"

text \<open>
  \<open>generate\<close> is \<open>generate_single_candidate\<close> (for the parallel mode, the joined task: a panic is an
  error like the others). The parallel loop stops after the candidate that passes the budget, the
  sequential one before the next.
\<close>

fun collect_parallel ::
  "rat \<Rightarrow> ('e, candidate) result list \<Rightarrow> candidate list \<Rightarrow> rat \<Rightarrow> candidate list \<times> rat" where
  "collect_parallel budget [] acc cost = (acc, cost)"
| "collect_parallel budget (Inr c # rs) acc cost =
     (let cost = cost + cand_cost c; acc = acc @ [c]
      in if budget < cost then (acc, cost) else collect_parallel budget rs acc cost)"
| "collect_parallel budget (Inl e # rs) acc cost = collect_parallel budget rs acc cost"

fun collect_sequential ::
  "(candidate_config \<Rightarrow> ('e, candidate) result) \<Rightarrow> rat \<Rightarrow> candidate_config list \<Rightarrow> candidate list \<Rightarrow> rat
   \<Rightarrow> candidate list \<times> rat" where
  "collect_sequential generate budget [] acc cost = (acc, cost)"
| "collect_sequential generate budget (cc # ccs) acc cost =
     (if budget < cost then (acc, cost)
      else (case generate cc of
              Inr c \<Rightarrow> collect_sequential generate budget ccs (acc @ [c]) (cost + cand_cost c)
            | Inl e \<Rightarrow> collect_sequential generate budget ccs acc cost))"

definition generate_candidates ::
  "(candidate_config \<Rightarrow> ('e, candidate) result) \<Rightarrow> ensemble_config \<Rightarrow> ensemble_result" where
  "generate_candidates generate cfg =
     (let n = min (max_candidates cfg) (length (candidate_configs cfg));
          chosen = take n (candidate_configs cfg);
          (cands, cost) =
            (if run_parallel cfg
             then collect_parallel (max_ensemble_cost_usd cfg) (map generate chosen) [] 0
             else collect_sequential generate (max_ensemble_cost_usd cfg) chosen [] 0)
      in \<lparr>winner = select_best cands (strategy cfg), all_candidates = cands, total_cost_usd = cost,
          compiled_count = length (filter cand_compiles cands)\<rparr>)"

section \<open>Triggering and applying\<close>

definition ensemble_trigger_score :: u32 where "ensemble_trigger_score = 70"
definition ensemble_trigger_repair_iters :: u32 where "ensemble_trigger_repair_iters = 2"

definition should_trigger_ensemble :: "function_unit \<Rightarrow> bool \<Rightarrow> bool" where
  "should_trigger_ensemble u enabled =
     (if \<not> enabled then False
      else case unit_state u of
          Repairing n \<Rightarrow>
            if ensemble_trigger_repair_iters \<le> n then
              (let score = unwrap_or (idiomatic_score u) 0; compiled = last_errors u = []
               in \<not> compiled \<or> score < ensemble_trigger_score)
            else False
        | FallbackUnsafe \<Rightarrow> True
        | _ \<Rightarrow> False)"

definition apply_ensemble_result :: "function_unit \<Rightarrow> ensemble_result \<Rightarrow> function_unit" where
  "apply_ensemble_result u r =
     (case winner r of
        None \<Rightarrow> u
      | Some w \<Rightarrow>
          (let current_score = unwrap_or (idiomatic_score u) 0;
               current_compiles = last_errors u = [];
               winner_better = (cand_compiles w \<and> \<not> current_compiles) \<or> current_score < cand_score w
           in if winner_better then
                u\<lparr>rust_output := Some (cand_source w), idiomatic_score := Some (cand_score w),
                  unsafe_count := Some (cand_unsafe w), last_errors := cand_errors w,
                  unit_state := Refined\<rparr>
              else u))"

section \<open>The winner\<close>

lemma max_by_key_max:
  "max_by_key key xs = Some m \<Longrightarrow> m \<in> set xs \<and> (\<forall>x \<in> set xs. key x \<le> key m)"
proof (cases xs)
  case (Cons x rest)
  have "fold (\<lambda>y best. if key best \<le> key y then y else best) ys b \<in> insert b (set ys) \<and>
      (\<forall>y \<in> insert b (set ys). key y \<le> key (fold (\<lambda>y best. if key best \<le> key y then y else best) ys b))"
    for ys b
  proof (induction ys arbitrary: b)
    case (Cons y ys)
    show ?case
    proof (cases "key b \<le> key y")
      case True
      with Cons.IH [of y] show ?thesis by auto
    next
      case False
      with Cons.IH [of b] show ?thesis by (auto intro: order.trans [OF less_imp_le])
    qed
  qed simp
  then show "max_by_key key xs = Some m \<Longrightarrow> ?thesis" using Cons by auto
qed simp

text \<open>The preference order of \<open>compare_candidates\<close>.\<close>

definition duel_key :: "candidate \<Rightarrow> bool \<times> int \<times> int \<times> rat" where
  "duel_key c = (cand_compiles c, uint (cand_score c), - uint (cand_unsafe c), - cand_cost c)"

lemma compare_candidates_max:
  "compare_candidates a b \<in> {a, b} \<and> duel_key a \<le> duel_key (compare_candidates a b)
     \<and> duel_key b \<le> duel_key (compare_candidates a b)"
  by (auto simp: compare_candidates_def duel_key_def word_less_def less_eq_prod_def less_prod_def
      word_uint_eq_iff)

lemma next_round_max:
  "set (next_round cs) \<subseteq> set cs \<and> (\<forall>c \<in> set cs. \<exists>w \<in> set (next_round cs). duel_key c \<le> duel_key w)"
proof (induction cs rule: next_round.induct)
  case (3 x y rest)
  then show ?case using compare_candidates_max [of x y] by auto
qed auto

lemma tournament_max:
  "cs \<noteq> [] \<Longrightarrow> \<exists>w. tournament_rounds cs = [w] \<and> w \<in> set cs \<and> (\<forall>c \<in> set cs. duel_key c \<le> duel_key w)"
proof (induction cs rule: tournament_rounds.induct)
  case (1 cs)
  show ?case
  proof (cases "1 < length cs")
    case True
    then have "next_round cs \<noteq> []" by (cases cs rule: next_round.cases) auto
    with 1 True obtain w where "tournament_rounds (next_round cs) = [w]"
      "w \<in> set (next_round cs)" "\<forall>c \<in> set (next_round cs). duel_key c \<le> duel_key w" by blast
    then show ?thesis
      using True next_round_max [of cs]
      by (subst tournament_rounds.simps) (auto, meson order_trans)
  next
    case False
    with "1.prems" obtain w where "cs = [w]" by (cases cs) auto
    then show ?thesis by (simp add: tournament_rounds.simps)
  qed
qed

text \<open>
  The tournament is a maximum: whatever the pairing, the winner is one of the candidates and no
  candidate is preferred to it, where a compiling candidate is preferred, then the higher score,
  then fewer unsafe blocks, then the lower cost.
\<close>

theorem tournament_selects_maximum:
  assumes "cs \<noteq> []"
  shows "\<exists>w. select_tournament cs = Some w \<and> w \<in> set cs \<and> (\<forall>c \<in> set cs. duel_key c \<le> duel_key w)"
proof (cases "length cs \<le> 1")
  case True
  with assms obtain w where "cs = [w]" by (cases cs) auto
  then show ?thesis by (simp add: select_tournament_def get_def)
next
  case False
  then show ?thesis using tournament_max [OF assms] by (auto simp: select_tournament_def get_def)
qed

lemma sort_key_first:
  assumes "xs \<noteq> []"
  shows "\<exists>w. get (sort_key f xs) 0 = Some w \<and> w \<in> set xs \<and> (\<forall>x \<in> set xs. f w \<le> f x)"
proof -
  obtain w ws where w: "sort_key f xs = w # ws"
    using assms by (cases "sort_key f xs") (auto dest: arg_cong [of _ _ length])
  have "sorted (map f (w # ws))" using sorted_sort_key [of f xs] by (simp only: w)
  moreover have "set xs = insert w (set ws)" using set_sort [of f xs] by (simp only: w list.set)
  ultimately show ?thesis using w by (auto simp: get_def)
qed

text \<open>
  Every strategy picks a candidate of the list, and one that compiles whenever any candidate
  compiles. The best-score strategy picks, among those, one with the best share of passed
  specifications, and among these the highest score.
\<close>

theorem select_best_sound:
  assumes "cs \<noteq> []"
  shows "\<exists>w. select_best cs strat = Some w \<and> w \<in> set cs
     \<and> ((\<exists>c \<in> set cs. cand_compiles c) \<longrightarrow> cand_compiles w)
     \<and> (strat = BestScore \<and> cand_compiles w \<longrightarrow>
          (\<forall>c \<in> set cs. cand_compiles c \<longrightarrow> spec_ratio c \<le> spec_ratio w
             \<and> (spec_ratio c = spec_ratio w \<longrightarrow> cand_score c \<le> cand_score w)))"
proof (cases strat)
  case BestScore
  let ?comp = "filter cand_compiles cs"
  show ?thesis
  proof (cases "?comp = []")
    case True
    then have none: "\<forall>c \<in> set cs. \<not> cand_compiles c" by (auto simp: filter_empty_conv)
    obtain w where "max_by_key cand_score cs = Some w" using assms by (cases cs) auto
    with none True BestScore assms show ?thesis
      using max_by_key_max [of cand_score cs w] by (auto simp: select_best_def select_best_score_def Let_def)
  next
    case False
    obtain w where w: "get (sort_key rank_key ?comp) 0 = Some w" "w \<in> set ?comp"
      "\<forall>c \<in> set ?comp. rank_key w \<le> rank_key c"
      using sort_key_first [OF False, of rank_key] by blast
    have "spec_ratio c \<le> spec_ratio w \<and> (spec_ratio c = spec_ratio w \<longrightarrow> cand_score c \<le> cand_score w)"
      if "c \<in> set ?comp" for c
      using bspec [OF w(3) that] by (auto simp: rank_key_def less_eq_prod_def less_prod_def word_le_def)
    then show ?thesis
      using w False BestScore assms by (auto simp: select_best_def select_best_score_def Let_def)
  qed
next
  case FirstCompiles
  show ?thesis
  proof (cases "find cand_compiles cs")
    case None
    moreover from this have "\<forall>c \<in> set cs. \<not> cand_compiles c" by (auto simp: find_None_iff)
    moreover have "get cs 0 = Some (cs ! 0)" "cs ! 0 \<in> set cs" using assms by (simp_all add: get_def)
    ultimately show ?thesis
      using FirstCompiles assms by (auto simp: select_best_def select_first_compiles_def)
  next
    case (Some c)
    moreover from this have "c \<in> set cs" "cand_compiles c" by (auto simp: find_Some_iff)
    ultimately show ?thesis
      using FirstCompiles assms by (simp add: select_best_def select_first_compiles_def)
  qed
next
  case Tournament
  obtain w where w: "select_tournament cs = Some w" "w \<in> set cs" "\<forall>c \<in> set cs. duel_key c \<le> duel_key w"
    using tournament_max [OF assms] assms
    by (cases "length cs \<le> 1"; cases cs) (auto simp: select_tournament_def get_def)
  have "cand_compiles w" if "c \<in> set cs" "cand_compiles c" for c
    using bspec [OF w(3) that(1)] that(2) by (auto simp: duel_key_def less_eq_prod_def)
  with w Tournament assms show ?thesis by (auto simp: select_best_def)
qed

lemma select_best_nonempty: "cs \<noteq> [] \<Longrightarrow> select_best cs strat \<noteq> None"
proof -
  assume ne: "cs \<noteq> []"
  have "max_by_key cand_score cs \<noteq> None" using ne by (cases cs) auto
  moreover have "filter cand_compiles cs \<noteq> [] \<Longrightarrow> get (sort_key rank_key (filter cand_compiles cs)) 0 \<noteq> None"
    using sort_key_first [of "filter cand_compiles cs" rank_key] by auto
  moreover have "get cs 0 \<noteq> None" using ne by (simp add: get_def)
  moreover have "get (tournament_rounds cs) 0 \<noteq> None" using tournament_max [OF ne] by (auto simp: get_def)
  ultimately show ?thesis
    using ne by (auto simp: select_best_def select_best_score_def select_first_compiles_def
        select_tournament_def Let_def split: selection_strategy.splits option.splits)
qed

text \<open>
  Applying an ensemble result either leaves the unit alone or installs the winner with its
  source, score and errors in state \<open>Refined\<close>; and it installs the winner only when the winner
  compiles and the unit's output does not, or when the winner scores strictly higher.
\<close>

theorem apply_ensemble_no_regression:
  "apply_ensemble_result u r = u
   \<or> (\<exists>w. winner r = Some w
        \<and> ((cand_compiles w \<and> last_errors u \<noteq> []) \<or> unwrap_or (idiomatic_score u) 0 < cand_score w)
        \<and> apply_ensemble_result u r
            = u\<lparr>rust_output := Some (cand_source w), idiomatic_score := Some (cand_score w),
                unsafe_count := Some (cand_unsafe w), last_errors := cand_errors w, unit_state := Refined\<rparr>)"
  by (auto simp: apply_ensemble_result_def Let_def split: option.splits)

lemma apply_ensemble_may_lose_compilation:
  "\<exists>u r. last_errors u = [] \<and> last_errors (apply_ensemble_result u r) \<noteq> []"
proof -
  let ?w = "\<lparr>config_label = [], cand_provider = Ollama, cand_temperature = 0, cand_source = [],
     cand_compiles = False, cand_errors = [''error''], cand_score = 90, cand_unsafe = 0, cand_cost = 0,
     cand_specs_passed = None, cand_specs_total = None\<rparr>"
  let ?u = "(new_unit [] [] [])\<lparr>idiomatic_score := Some 80\<rparr>"
  let ?r = "\<lparr>winner = Some ?w, all_candidates = [?w], total_cost_usd = 0, compiled_count = 0\<rparr>"
  have "last_errors ?u = [] \<and> last_errors (apply_ensemble_result ?u ?r) \<noteq> []"
    by (simp add: apply_ensemble_result_def new_unit_def)
  then show ?thesis by blast
qed

definition costs_of :: "candidate list \<Rightarrow> rat" where
  "costs_of cs = sum_list (map cand_cost cs)"

lemma collect_parallel_costs:
  "cost = costs_of acc \<Longrightarrow> snd (collect_parallel b rs acc cost) = costs_of (fst (collect_parallel b rs acc cost))
     \<and> length (fst (collect_parallel b rs acc cost)) \<le> length acc + length rs"
  by (induction b rs acc cost rule: collect_parallel.induct) (auto simp: Let_def costs_of_def)

lemma collect_sequential_costs:
  "cost = costs_of acc \<Longrightarrow>
   snd (collect_sequential gen b ccs acc cost) = costs_of (fst (collect_sequential gen b ccs acc cost))
     \<and> length (fst (collect_sequential gen b ccs acc cost)) \<le> length acc + length ccs"
  by (induction gen b ccs acc cost rule: collect_sequential.induct)
     (auto simp: costs_of_def split: sum.splits)

text \<open>
  A generated ensemble has at most \<open>max_candidates\<close> candidates, its total cost is the sum of the
  costs of its candidates, and it has a winner whenever it has a candidate, in both modes.
\<close>

theorem generate_candidates_bounded:
  "length (all_candidates (generate_candidates gen cfg)) \<le> max_candidates cfg
   \<and> total_cost_usd (generate_candidates gen cfg) = costs_of (all_candidates (generate_candidates gen cfg))
   \<and> (winner (generate_candidates gen cfg) = None) = (all_candidates (generate_candidates gen cfg) = [])"
proof -
  let ?r = "generate_candidates gen cfg"
  let ?chosen = "take (min (max_candidates cfg) (length (candidate_configs cfg))) (candidate_configs cfg)"
  let ?p = "collect_parallel (max_ensemble_cost_usd cfg) (map gen ?chosen) [] 0"
  let ?s = "collect_sequential gen (max_ensemble_cost_usd cfg) ?chosen [] 0"
  have r: "all_candidates ?r = fst (if run_parallel cfg then ?p else ?s)"
    "total_cost_usd ?r = snd (if run_parallel cfg then ?p else ?s)"
    "winner ?r = select_best (all_candidates ?r) (strategy cfg)"
    by (simp_all add: generate_candidates_def Let_def case_prod_beta)
  have p: "snd ?p = costs_of (fst ?p) \<and> length (fst ?p) \<le> length ([] :: candidate list) + length (map gen ?chosen)"
    by (rule collect_parallel_costs) (simp add: costs_of_def)
  have s: "snd ?s = costs_of (fst ?s) \<and> length (fst ?s) \<le> length ([] :: candidate list) + length ?chosen"
    by (rule collect_sequential_costs) (simp add: costs_of_def)
  have "length (all_candidates ?r) \<le> max_candidates cfg"
    "total_cost_usd ?r = costs_of (all_candidates ?r)"
    using p s by (cases "run_parallel cfg"; simp add: r(1,2))+
  moreover have "(winner ?r = None) = (all_candidates ?r = [])"
    using select_best_nonempty [of "all_candidates ?r" "strategy cfg"] r(3) by (auto simp: select_best_def)
  ultimately show ?thesis by blast
qed

section \<open>Witnesses\<close>

definition plain_candidate :: "string \<Rightarrow> bool \<Rightarrow> u32 \<Rightarrow> candidate" where
  "plain_candidate lbl compiled score = \<lparr>config_label = lbl, cand_provider = Ollama,
     cand_temperature = 0, cand_source = ''fn f() {}'', cand_compiles = compiled, cand_errors = [],
     cand_score = score, cand_unsafe = 0, cand_cost = 0, cand_specs_passed = None,
     cand_specs_total = None\<rparr>"

theorem tournament_selects_maximum_witness:
  "\<exists>w. select_tournament [plain_candidate ''a'' False 90, plain_candidate ''b'' True 60] = Some w
     \<and> cand_compiles w"
  using tournament_selects_maximum [of "[plain_candidate ''a'' False 90, plain_candidate ''b'' True 60]"]
  by (auto simp: duel_key_def plain_candidate_def less_eq_prod_def)

theorem select_best_sound_witness:
  "\<exists>w. select_best [plain_candidate ''a'' False 90, plain_candidate ''b'' True 60] BestScore = Some w
     \<and> cand_compiles w"
  using select_best_sound [of "[plain_candidate ''a'' False 90, plain_candidate ''b'' True 60]" BestScore]
  by (auto simp: plain_candidate_def)

end
