(* ===== verification/Pipeline_Control.thy ===== *)
theory Pipeline_Control
  imports Ensemble
begin

text \<open>
  The control decisions of the pipeline (\<open>crates/noricum-core/src\<close>): error classification
  (\<open>lib.rs\<close>), budgets (\<open>budget.rs\<close>), warm start (\<open>warmstart.rs\<close>), the graduated end states and the
  substance test (\<open>module_migration.rs\<close>), incremental state (\<open>incremental.rs\<close>), the audit filter
  (\<open>audit.rs\<close>) and the router (\<open>router.rs\<close>). Call counts and token counts keep their widths.
\<close>

section \<open>Errors\<close>

datatype error_severity = Low | Medium_Severity | High

datatype core_error =
    Orchestration string
  | NoSourceFiles string
  | AgentError string
  | ToolFailure tool_error
  | ValidationFailure validation_error
  | IoError string
  | BudgetExceeded u64 u64

fun severity :: "core_error \<Rightarrow> error_severity" where
  "severity (ValidationFailure _) = Low"
| "severity (ToolFailure _) = Low"
| "severity (AgentError _) = Medium_Severity"
| "severity (NoSourceFiles _) = Medium_Severity"
| "severity (Orchestration _) = Medium_Severity"
| "severity (IoError _) = High"
| "severity (BudgetExceeded _ _) = High"

fun error_code :: "core_error \<Rightarrow> string" where
  "error_code (Orchestration _) = ''E_ORCHESTRATION''"
| "error_code (NoSourceFiles _) = ''E_NO_SOURCE''"
| "error_code (AgentError _) = ''E_AGENT''"
| "error_code (ToolFailure _) = ''E_TOOL''"
| "error_code (ValidationFailure _) = ''E_VALIDATION''"
| "error_code (IoError _) = ''E_IO''"
| "error_code (BudgetExceeded _ _) = ''E_BUDGET''"

section \<open>Budgets\<close>

datatype budget_phase_t = Normal | SkipRepairs | AssembleNow | SaveAndExit

definition budget_phase :: "u32 option \<Rightarrow> u32 \<Rightarrow> budget_phase_t" where
  "budget_phase max_llm_calls current =
     (case max_llm_calls of
        None \<Rightarrow> Normal
      | Some max_calls \<Rightarrow>
          if max_calls = 0 then Normal
          else (let pct = (current * 100) div max_calls
                in if 100 \<le> pct then SaveAndExit
                   else if 95 \<le> pct then AssembleNow
                   else if 80 \<le> pct then SkipRepairs
                   else Normal))"

definition compute_adaptive_budget :: "nat \<Rightarrow> u32 option \<Rightarrow> u32" where
  "compute_adaptive_budget module_count user_limit =
     (let adaptive = as_u32 module_count * 10 + 25
      in case user_limit of Some limit \<Rightarrow> max adaptive limit | None \<Rightarrow> adaptive)"

definition check_budget :: "u64 option \<Rightarrow> u32 option \<Rightarrow> migration_metrics \<Rightarrow> (core_error, unit) result" where
  "check_budget max_tokens max_calls m =
     (let used = input_tokens m + output_tokens m;
          over = (case max_tokens of Some budget \<Rightarrow> budget < used | None \<Rightarrow> False)
      in if over then Inl (BudgetExceeded used (unwrap_or max_tokens 0))
         else case max_calls of
             Some mc \<Rightarrow>
               if mc + mc div 5 < llm_calls m then
                 Inl (Orchestration (''LLM call hard limit exceeded: '' @ show_nat (unat (llm_calls m))
                        @ '' calls (max '' @ show_nat (unat mc) @ '' + 20% grace)''))
               else Inr ()
           | None \<Rightarrow> Inr ())"

section \<open>Warm start\<close>

record module_artifact =
  ma_name :: string
  ma_state :: string
  ma_score :: rat
  ma_compiles :: bool
  ma_unsafe_count :: u32

datatype warm_action = Skip | SeedRepair | Retranslate

definition warm_start_action :: "module_artifact \<Rightarrow> warm_action" where
  "warm_start_action a =
     (if (ma_state a = ''Validated'' \<or> ma_state a = ''CompilesUnsafe'') \<and> 70 \<le> ma_score a then Skip
      else if ma_state a = ''NearlyCompiles'' \<and> 50 \<le> ma_score a then SeedRepair
      else if ma_compiles a \<and> 40 \<le> ma_score a then SeedRepair
      else Retranslate)"

section \<open>Modules\<close>

definition medium_file_loc :: nat where "medium_file_loc = 800"
definition very_large_file_loc :: nat where "very_large_file_loc = 2000"
definition massive_file_loc :: nat where "massive_file_loc = 5000"
definition modular_file_loc :: nat where "modular_file_loc = 2000"
definition retranslate_error_threshold :: nat where "retranslate_error_threshold = 100"

definition graduated_state :: "bool \<Rightarrow> u32 \<Rightarrow> u32 \<Rightarrow> u32 \<Rightarrow> nat \<Rightarrow> migration_state" where
  "graduated_state compiled unsafes score threshold error_count =
     (if compiled \<and> unsafes = 0 \<and> threshold \<le> score then Validated
      else if compiled \<and> 0 < unsafes \<and> 50 \<le> score then CompilesUnsafe
      else if compiled \<and> score < threshold then CompilesLowScore
      else if \<not> compiled \<and> error_count \<le> 5 \<and> 50 \<le> score then NearlyCompiles
      else FallbackUnsafe)"

definition should_retranslate :: "nat \<Rightarrow> u32 \<Rightarrow> bool" where
  "should_retranslate error_count attempts =
     (retranslate_error_threshold < error_count \<and> attempts = 0)"

definition has_substance :: "string \<Rightarrow> string \<Rightarrow> bool" where
  "has_substance rust_src c_src =
     (let c_nl = nonblank_line_count c_src;
          r_lines = nonblank_line_count rust_src;
          efn = count_empty_functions rust_src;
          tfn = count_total_functions rust_src
      in \<not> ((20 < c_nl \<and> r_lines < c_nl div 4) \<or> (3 < tfn \<and> 3 * tfn < 10 * efn)))"

section \<open>Incremental migration\<close>

record function_migration_state =
  migrated :: bool
  fms_state :: string
  fms_score :: "u32 option"
  fms_unsafe :: "u32 option"
  fms_source :: "string option"

record incremental_state =
  source_file :: string
  fn_states :: "string \<rightharpoonup> function_migration_state"
  last_run :: string

definition new_incremental :: "string \<Rightarrow> string \<Rightarrow> incremental_state" where
  "new_incremental now src_file = \<lparr>source_file = src_file, fn_states = Map.empty, last_run = now\<rparr>"

definition unmigrated_functions :: "incremental_state \<Rightarrow> string list \<Rightarrow> string list" where
  "unmigrated_functions st all =
     filter (\<lambda>nm. unwrap_or (map_option (\<lambda>s. \<not> migrated s) (fn_states st nm)) True) all"

definition mark_migrated ::
  "incremental_state \<Rightarrow> string \<Rightarrow> string \<Rightarrow> u32 option \<Rightarrow> u32 option \<Rightarrow> string option \<Rightarrow> incremental_state" where
  "mark_migrated st nm state_name score unsafes src =
     st\<lparr>fn_states := (fn_states st)(nm \<mapsto> \<lparr>migrated = True, fms_state = state_name, fms_score = score,
                                          fms_unsafe = unsafes, fms_source = src\<rparr>)\<rparr>"

text \<open>The state file is a parameter: what \<open>serde_json\<close> reads from and writes to it.\<close>

definition load_or_create ::
  "string \<Rightarrow> string option \<Rightarrow> (string \<Rightarrow> (string, incremental_state) result) \<Rightarrow> string
   \<Rightarrow> (core_error, incremental_state) result" where
  "load_or_create now file_content parse_state src_file =
     (case file_content of
        Some text \<Rightarrow>
          (case parse_state text of
             Inr st \<Rightarrow> Inr st
           | Inl e \<Rightarrow> Inl (Orchestration (''failed to parse incremental state: '' @ e)))
      | None \<Rightarrow> Inr (new_incremental now src_file))"

datatype function_filter = Names "string list" | Pattern string | AllFunctions

text \<open>\<open>is_match\<close> is the regex package: \<open>None\<close> when the pattern does not compile.\<close>

fun filter_matches :: "(string \<Rightarrow> string \<Rightarrow> bool option) \<Rightarrow> function_filter \<Rightarrow> string \<Rightarrow> bool" where
  "filter_matches is_match (Names names) nm = (nm \<in> set names)"
| "filter_matches is_match (Pattern p) nm = unwrap_or (is_match p nm) False"
| "filter_matches is_match AllFunctions nm = True"

section \<open>Audit\<close>

datatype audit_level = Summary | Detailed | Full

definition audit_level_from_str :: "string \<Rightarrow> (string, audit_level) result" where
  "audit_level_from_str s =
     (let l = to_lowercase s
      in if l = ''summary'' then Inr Summary
         else if l = ''detailed'' then Inr Detailed
         else if l = ''full'' then Inr Full
         else Inl (''unknown audit level: '' @ s @ '' (expected: summary, detailed, full)''))"

datatype audit_event =
    PipelineStart string string u32
  | DifficultyClassified string string
  | ModelSelected string string string string
  | AgentPromptSent string string string nat
  | AgentResponseReceived string string string nat
  | StateTransition string string string
  | ValidationResultEvent string bool u32 u32 "bool option" bool
  | RepairIteration string u32 u32 nat nat
  | PipelineComplete string string u64 u32
  | ErrorEvent string string

record audit_trail =
  audit_level_of :: audit_level
  written :: "audit_event list"

definition should_log :: "audit_level \<Rightarrow> audit_event \<Rightarrow> bool" where
  "should_log level e =
     (case level of
        Summary \<Rightarrow> (case e of PipelineStart _ _ _ \<Rightarrow> True | PipelineComplete _ _ _ _ \<Rightarrow> True
                   | ValidationResultEvent _ _ _ _ _ _ \<Rightarrow> True | ErrorEvent _ _ \<Rightarrow> True
                   | DifficultyClassified _ _ \<Rightarrow> True | _ \<Rightarrow> False)
      | Detailed \<Rightarrow> True
      | Full \<Rightarrow> True)"

definition audit_log :: "audit_trail \<Rightarrow> audit_event \<Rightarrow> audit_trail" where
  "audit_log t e = (if should_log (audit_level_of t) e then t\<lparr>written := written t @ [e]\<rparr> else t)"

definition classify_difficulty :: "parsers \<Rightarrow> string \<Rightarrow> difficulty" where
  "classify_difficulty ps src = classify_difficulty_ast ps src"

section \<open>Facts about the decisions\<close>

lemma pct_le:
  assumes "unat cur * 100 < 4294967296" and "mx \<noteq> (0::u32)" and "p \<le> 100"
  shows "of_nat p \<le> (cur * 100) div mx \<longleftrightarrow> p * unat mx \<le> 100 * unat cur"
proof -
  have m: "unat (cur * 100) = unat cur * 100" using assms(1) by (simp add: unat_word_ariths)
  have pos: "0 < unat mx" using assms(2) by (simp add: unat_gt_0)
  have p: "unat (of_nat p :: u32) = p" using assms(3) by (simp add: unat_of_nat)
  have "of_nat p \<le> (cur * 100) div mx \<longleftrightarrow> p \<le> (unat cur * 100) div unat mx"
    by (simp add: word_le_nat_alt unat_div m p)
  also have "\<dots> \<longleftrightarrow> p * unat mx \<le> unat cur * 100"
    using pos by (rule less_eq_div_iff_mult_less_eq)
  finally show ?thesis by (simp add: mult.commute)
qed

text \<open>
  The budget phases for a positive limit and a call count whose hundredfold fits in 32 bits:
  exit as soon as the limit is reached, assemble from 95 per cent of it, skip repairs from 80 per
  cent, exactly and without rounding.
\<close>

theorem budget_phase_exact:
  assumes "mx \<noteq> 0" and "unat cur * 100 < 4294967296"
  shows "budget_phase (Some mx) cur =
    (if unat mx \<le> unat cur then SaveAndExit
     else if 95 * unat mx \<le> 100 * unat cur then AssembleNow
     else if 80 * unat mx \<le> 100 * unat cur then SkipRepairs
     else Normal)"
  using pct_le [OF assms(2,1), of 100] pct_le [OF assms(2,1), of 95] pct_le [OF assms(2,1), of 80] assms(1)
  by (simp add: budget_phase_def Let_def)

theorem budget_phase_exact_witness:
  "budget_phase (Some 50) 48 = AssembleNow"
  using budget_phase_exact [of 50 48] by simp

lemma budget_phase_wraps: "budget_phase (Some 100) 42949673 = Normal"
  by (simp add: budget_phase_def Let_def)

lemma graduated_Validated:
  "graduated_state compiled unsafes score threshold errs = Validated \<longleftrightarrow>
     compiled \<and> unsafes = 0 \<and> threshold \<le> score"
  by (auto simp: graduated_state_def)

lemma graduated_compiled_safe:
  "compiled \<Longrightarrow> unsafes = 0 \<Longrightarrow>
     graduated_state compiled unsafes score threshold errs \<in> {Validated, CompilesLowScore}"
  by (auto simp: graduated_state_def)

text \<open>
  The end state of a module that compiles is never \<open>NearlyCompiles\<close>, it is \<open>Validated\<close> exactly
  when the code has no unsafe block and reaches the threshold, and it is the fallback only for code
  with unsafe blocks and a score under 50 that nevertheless reaches the threshold; a module that
  does not compile is never counted as compiling.
\<close>

theorem graduated_state_classes:
  "(graduated_state True n s t e = Validated) = (n = 0 \<and> t \<le> s)
   \<and> (graduated_state True n s t e = FallbackUnsafe) = (n \<noteq> 0 \<and> s < 50 \<and> t \<le> s)
   \<and> graduated_state True n s t e \<noteq> NearlyCompiles
   \<and> graduated_state False n s t e \<in> {NearlyCompiles, FallbackUnsafe}"
  by (auto simp: graduated_state_def word_neq_0_conv)

lemma mark_migrated_states:
  "fn_states (fold (\<lambda>nm st. mark_migrated st nm s sc un src) names st) nm =
     (if nm \<in> set names then Some \<lparr>migrated = True, fms_state = s, fms_score = sc, fms_unsafe = un,
        fms_source = src\<rparr> else fn_states st nm)"
  by (induction names arbitrary: st) (auto simp: mark_migrated_def)

text \<open>
  After marking some functions as migrated, the functions still to migrate are exactly those
  that were to migrate before and were not marked, in the same order.
\<close>

theorem unmigrated_after_marking:
  "unmigrated_functions (fold (\<lambda>nm st. mark_migrated st nm s sc un src) names st) all
     = filter (\<lambda>nm. nm \<notin> set names) (unmigrated_functions st all)"
  by (induction all) (auto simp: unmigrated_functions_def mark_migrated_states)

lemma summary_subset: "should_log Summary e \<Longrightarrow> should_log level e"
  by (cases level) (auto simp: should_log_def)

end
