(* ===== verification/Artifacts.thy ===== *)
theory Artifacts
  imports Pipeline_Control
begin

text \<open>
  Artifact persistence (\<open>crates/noricum-core/src/artifacts.rs\<close>): the layout of a run directory, the
  save operations, the load operations of the warm start and the crate copy. The disk is a map from
  paths to contents with the paths that refuse a write; JSON encoding is a parameter. The locale
  \<open>text_store\<close> states what the modular pipeline relies on: a saved module is loaded back.
\<close>

section \<open>Disk and paths\<close>

record disk =
  files :: "string \<rightharpoonup> string"
  write_fault :: "string \<Rightarrow> string option"

definition safe_char :: "char \<Rightarrow> char" where
  "safe_char c = (if is_alphanumeric c \<or> c = CHR ''_'' \<or> c = CHR ''-'' then c else CHR ''_'')"

definition sanitize_name :: "string \<Rightarrow> string" where
  "sanitize_name nm = map safe_char nm"

record artifact_store =
  run_dir :: string

definition path_join :: "string \<Rightarrow> string \<Rightarrow> string" where
  "path_join a b = a @ ''/'' @ b"

text \<open>\<open>Path::parent\<close> on paths of files.\<close>

definition parent_dir :: "string \<Rightarrow> string option" where
  "parent_dir p =
     (if p = [] \<or> p = ''/'' then None
      else case find_char (rev p) (CHR ''/'') of
        None \<Rightarrow> Some []
      | Some k \<Rightarrow> (let dir = take (length p - Suc k) p in Some (if dir = [] then ''/'' else dir)))"

definition new_store :: "string \<Rightarrow> string \<Rightarrow> string \<Rightarrow> artifact_store" where
  "new_store timestamp base_dir fn = \<lparr>run_dir = path_join base_dir (sanitize_name fn @ ''-'' @ timestamp)\<rparr>"

definition write_artifact :: "artifact_store \<Rightarrow> string \<Rightarrow> string \<Rightarrow> disk \<Rightarrow> (string, disk) result" where
  "write_artifact st rel text d =
     (let full = path_join (run_dir st) rel
      in case write_fault d full of
           Some e \<Rightarrow> Inl e
         | None \<Rightarrow> Inr (d\<lparr>files := (files d)(full \<mapsto> text)\<rparr>))"

definition pad2 :: "nat \<Rightarrow> string" where
  "pad2 n = (if n < 10 then ''0'' @ show_nat n else show_nat n)"

section \<open>Saving\<close>

definition save_c_source where "save_c_source st = write_artifact st ''00-c-source.c''"
definition save_analysis where "save_analysis st = write_artifact st ''01-analysis.json''"
definition save_c2rust where "save_c2rust st = write_artifact st ''02-c2rust.rs''"
definition save_type_contract where "save_type_contract st = write_artifact st ''02-type-contract.rs''"
definition save_translation_final where
  "save_translation_final st = write_artifact st ''03-translation/final.rs''"
definition save_translation_chunk where
  "save_translation_chunk st i = write_artifact st (''03-translation/chunk-'' @ pad2 i @ ''.rs'')"
definition save_agreed_signatures where
  "save_agreed_signatures st = write_artifact st ''03-translation/agreed-signatures.rs''"
definition save_foundation where "save_foundation st = write_artifact st ''03-translation/foundation.rs''"

definition module_path :: "string \<Rightarrow> string" where
  "module_path nm = ''03-translation/module-'' @ sanitize_name nm @ ''.rs''"

definition save_translation_module :: "artifact_store \<Rightarrow> string \<Rightarrow> string \<Rightarrow> disk \<Rightarrow> (string, disk) result" where
  "save_translation_module st nm = write_artifact st (module_path nm)"

definition save_retranslation where
  "save_retranslation st reason = write_artifact st (''03-translation/retranslation-'' @ sanitize_name reason @ ''.rs'')"
definition save_initial_validation where
  "save_initial_validation st = write_artifact st ''04-validation-initial.json''"

definition iter_stem :: "string \<Rightarrow> u32 \<Rightarrow> string" where
  "iter_stem dir i = dir @ ''iter-'' @ pad2 (unat i)"

definition save_two :: "artifact_store \<Rightarrow> string \<Rightarrow> string \<Rightarrow> string \<Rightarrow> string \<Rightarrow> disk \<Rightarrow> (string, disk) result" where
  "save_two st p1 t1 p2 t2 d = bind_result (write_artifact st p1 t1 d) (write_artifact st p2 t2)"

definition save_repair_iteration :: "artifact_store \<Rightarrow> u32 \<Rightarrow> string \<Rightarrow> string \<Rightarrow> disk \<Rightarrow> (string, disk) result" where
  "save_repair_iteration st i src json =
     save_two st (iter_stem ''05-repair/'' i @ ''.rs'') src (iter_stem ''05-repair/'' i @ ''-validation.json'') json"
definition save_repair_rejected where
  "save_repair_rejected st i = write_artifact st (iter_stem ''05-repair/'' i @ ''-rejected.rs'')"
definition save_retranslation_stall where
  "save_retranslation_stall st = write_artifact st ''05-repair/retranslation-stall.rs''"

definition show_bool :: "bool \<Rightarrow> string" where
  "show_bool b = (if b then ''true'' else ''false'')"

definition best_version_meta :: "u32 \<Rightarrow> u32 \<Rightarrow> bool \<Rightarrow> string" where
  "best_version_meta score unsafes compiled =
     ''{'' @ [quote] @ ''score'' @ [quote] @ '':'' @ show_nat (unat score) @ '','' @ [quote]
     @ ''unsafe_count'' @ [quote] @ '':'' @ show_nat (unat unsafes) @ '','' @ [quote]
     @ ''compiles'' @ [quote] @ '':'' @ show_bool compiled @ ''}''"

definition save_best_version ::
  "artifact_store \<Rightarrow> string \<Rightarrow> u32 \<Rightarrow> u32 \<Rightarrow> bool \<Rightarrow> disk \<Rightarrow> (string, disk) result" where
  "save_best_version st src score unsafes compiled =
     save_two st ''05-repair/best-version.rs'' src
       ''05-repair/best-version-meta.json'' (best_version_meta score unsafes compiled)"

definition module_repair_dir :: "string \<Rightarrow> string" where
  "module_repair_dir nm = ''05-repair/'' @ sanitize_name nm @ ''/''"

definition save_module_repair_iteration ::
  "artifact_store \<Rightarrow> string \<Rightarrow> u32 \<Rightarrow> string \<Rightarrow> string \<Rightarrow> disk \<Rightarrow> (string, disk) result" where
  "save_module_repair_iteration st nm i src json =
     save_two st (iter_stem (module_repair_dir nm) i @ ''.rs'') src
       (iter_stem (module_repair_dir nm) i @ ''-validation.json'') json"
definition save_module_repair_rejected where
  "save_module_repair_rejected st nm i = write_artifact st (iter_stem (module_repair_dir nm) i @ ''-rejected.rs'')"
definition save_final_output where "save_final_output st = write_artifact st ''06-final.rs''"
definition save_generated_tests where "save_generated_tests st = write_artifact st ''07-tests.rs''"
definition save_manifest where "save_manifest st = write_artifact st ''manifest.json''"

section \<open>Copying a crate\<close>

datatype fs_node = FileNode string | DirNode "(string \<times> fs_node) list"

fun is_dir :: "fs_node \<Rightarrow> bool" where
  "is_dir (FileNode _) = False"
| "is_dir (DirNode _) = True"

text \<open>
  The writes of \<open>copy_dir_recursive\<close>, in order: the files under the directory with their target
  paths, directories called \<open>target\<close> left out.
\<close>

fun copy_writes :: "string \<Rightarrow> fs_node \<Rightarrow> (string \<times> string) list" where
  "copy_writes dest (FileNode text) = [(dest, text)]"
| "copy_writes dest (DirNode es) =
     concat (map (\<lambda>(nm, n). if is_dir n \<and> nm = ''target'' then [] else copy_writes (path_join dest nm) n) es)"

fun perform_writes :: "(string \<times> string) list \<Rightarrow> disk \<Rightarrow> (string, disk) result" where
  "perform_writes [] d = Inr d"
| "perform_writes ((p, t) # ws) d =
     (case write_fault d p of
        Some e \<Rightarrow> Inl e
      | None \<Rightarrow> perform_writes ws (d\<lparr>files := (files d)(p \<mapsto> t)\<rparr>))"

definition save_crate_output :: "artifact_store \<Rightarrow> fs_node \<Rightarrow> disk \<Rightarrow> (string, disk) result" where
  "save_crate_output st crate_dir d = perform_writes (copy_writes (path_join (run_dir st) ''08-crate'') crate_dir) d"

section \<open>Manifest and loading\<close>

record artifact_manifest =
  am_version :: u32
  am_function_name :: string
  am_timestamp :: string
  am_modules :: "module_artifact list"

definition save_manifest_v2 ::
  "(artifact_manifest \<Rightarrow> (string, string) result) \<Rightarrow> artifact_store \<Rightarrow> artifact_manifest \<Rightarrow> disk
   \<Rightarrow> (string, disk) result" where
  "save_manifest_v2 to_json st m d =
     bind_result (to_json m) (\<lambda>json. write_artifact st ''manifest.json'' json d)"

definition read_to_string :: "string \<Rightarrow> disk \<Rightarrow> (string, string) result" where
  "read_to_string p d = ok_or (files d p) ''not found''"

definition load_manifest ::
  "(string \<Rightarrow> (string, artifact_manifest) result) \<Rightarrow> artifact_store \<Rightarrow> disk \<Rightarrow> (string, artifact_manifest) result" where
  "load_manifest from_json st d =
     bind_result (read_to_string (path_join (run_dir st) ''manifest.json'') d) from_json"

definition load_translation_module :: "artifact_store \<Rightarrow> string \<Rightarrow> disk \<Rightarrow> (string, string option) result" where
  "load_translation_module st nm d =
     (let path = path_join (run_dir st) (module_path nm)
      in case files d path of
           Some _ \<Rightarrow> bind_result (read_to_string path d) (\<lambda>t. Inr (Some t))
         | None \<Rightarrow> Inr None)"

definition from_existing :: "string \<Rightarrow> bool \<Rightarrow> (string, artifact_store) result" where
  "from_existing path path_exists =
     (if \<not> path_exists then Inl (''artifact directory not found: '' @ path) else Inr \<lparr>run_dir = path\<rparr>)"

section \<open>The store interface\<close>

text \<open>
  What a client of a keyed text store relies on; \<open>key\<close> is the part of a name the store
  distinguishes.
\<close>

locale text_store =
  fixes save :: "string \<Rightarrow> string \<Rightarrow> 'd \<Rightarrow> (string, 'd) result"
    and load :: "string \<Rightarrow> 'd \<Rightarrow> (string, string option) result"
    and key :: "string \<Rightarrow> string"
  assumes load_saved: "save nm t d = Inr d' \<Longrightarrow> load nm d' = Inr (Some t)"
    and load_other: "save nm t d = Inr d' \<Longrightarrow> key nm' \<noteq> key nm \<Longrightarrow> load nm' d' = load nm' d"
    and load_key: "key nm = key nm' \<Longrightarrow> load nm d = load nm' d"
begin

fun save_all :: "(string \<times> string) list \<Rightarrow> 'd \<Rightarrow> (string, 'd) result" where
  "save_all [] d = Inr d"
| "save_all ((nm, t) # rest) d = bind_result (save nm t d) (save_all rest)"

lemma load_untouched:
  "save_all xs d = Inr d' \<Longrightarrow> key nm \<notin> key ` fst ` set xs \<Longrightarrow> load nm d' = load nm d"
proof (induction xs arbitrary: d)
  case (Cons x xs)
  then show ?case by (cases x) (auto simp: bind_result_Inr_iff load_other)
qed simp

lemma load_all_saved:
  "save_all xs d = Inr d' \<Longrightarrow> distinct (map (key \<circ> fst) xs) \<Longrightarrow> (nm, t) \<in> set xs \<Longrightarrow>
     load nm d' = Inr (Some t)"
proof (induction xs arbitrary: d)
  case (Cons x xs)
  obtain nm1 t1 where x: "x = (nm1, t1)" by (cases x)
  from Cons.prems x obtain d1 where d1: "save nm1 t1 d = Inr d1" "save_all xs d1 = Inr d'"
    by (auto simp: bind_result_Inr_iff)
  show ?case
  proof (cases "(nm, t) \<in> set xs")
    case True
    with Cons d1 show ?thesis by auto
  next
    case False
    with Cons.prems x have "nm = nm1" "t = t1" by auto
    moreover have "key nm1 \<notin> key ` fst ` set xs" using Cons.prems(2) x by (auto simp: image_image)
    ultimately show ?thesis using load_untouched [OF d1(2)] load_saved [OF d1(1)] by simp
  qed
qed simp

end

lemma write_artifact_Inr:
  "write_artifact st rel t d = Inr d' \<longleftrightarrow>
     write_fault d (path_join (run_dir st) rel) = None
     \<and> d' = d\<lparr>files := (files d)(path_join (run_dir st) rel \<mapsto> t)\<rparr>"
  by (auto simp: write_artifact_def Let_def split: option.splits)

lemma module_path_eq: "module_path a = module_path b \<longleftrightarrow> sanitize_name a = sanitize_name b"
  by (simp add: module_path_def)

interpretation modules: text_store "save_translation_module st" "load_translation_module st" sanitize_name for st
proof
  fix nm t d d'
  assume "save_translation_module st nm t d = Inr d'"
  then show "load_translation_module st nm d' = Inr (Some t)"
    by (auto simp: save_translation_module_def load_translation_module_def write_artifact_Inr
        read_to_string_def Let_def)
next
  fix nm t d d' nm'
  assume "save_translation_module st nm t d = Inr d'" "sanitize_name nm' \<noteq> sanitize_name nm"
  then show "load_translation_module st nm' d' = load_translation_module st nm' d"
    by (auto simp: save_translation_module_def load_translation_module_def write_artifact_Inr
        read_to_string_def Let_def path_join_def module_path_eq split: option.splits)
next
  fix nm nm' d
  assume "sanitize_name nm = sanitize_name nm'"
  then show "load_translation_module st nm d = load_translation_module st nm' d"
    by (simp add: load_translation_module_def module_path_def)
qed

definition save_modules :: "artifact_store \<Rightarrow> (string \<times> string) list \<Rightarrow> disk \<Rightarrow> (string, disk) result" where
  "save_modules st = modules.save_all st"

text \<open>
  Modules saved in a run, under names that differ after sanitising, are all loaded back with
  exactly their texts by a later warm start from the same directory.
\<close>

theorem saved_modules_load_back:
  assumes "save_modules st xs d = Inr d'" and "distinct (map (sanitize_name \<circ> fst) xs)"
    and "(nm, t) \<in> set xs"
  shows "load_translation_module st nm d' = Inr (Some t)"
  using assms unfolding save_modules_def by (rule modules.load_all_saved)

lemma modules_collide: "sanitize_name ''a.b'' = sanitize_name ''a_b''"
  by code_simp

definition free_disk :: disk where
  "free_disk = \<lparr>files = Map.empty, write_fault = (\<lambda>_. None)\<rparr>"

theorem saved_modules_load_back_witness:
  "\<exists>d'. save_modules \<lparr>run_dir = ''run''\<rparr> [(''a'', ''fn a() {}''), (''b'', ''fn b() {}'')] free_disk = Inr d'
     \<and> load_translation_module \<lparr>run_dir = ''run''\<rparr> ''a'' d' = Inr (Some ''fn a() {}'')"
proof -
  let ?xs = "[(''a'', ''fn a() {}''), (''b'', ''fn b() {}'')]"
  obtain d' where d': "save_modules \<lparr>run_dir = ''run''\<rparr> ?xs free_disk = Inr d'"
    by (auto simp: save_modules_def save_translation_module_def write_artifact_def free_disk_def Let_def)
  have "distinct (map (sanitize_name \<circ> fst) ?xs)" by code_simp
  from saved_modules_load_back [OF d' this, of "''a''"] d' show ?thesis by simp
qed

lemma sanitize_name_idem: "sanitize_name (sanitize_name nm) = sanitize_name nm"
  by (simp add: sanitize_name_def safe_char_def)

lemma sanitize_name_safe: "CHR ''/'' \<notin> set (sanitize_name nm) \<and> CHR ''.'' \<notin> set (sanitize_name nm)"
  by (auto simp: sanitize_name_def safe_char_def is_alphanumeric_def is_digit_def is_uppercase_def
      is_lowercase_def split: if_splits)

text \<open>
  A module name never leaves the directory of the run: its file is directly under
  \<open>03-translation\<close>, whatever characters the name has, since the sanitised name has neither a
  slash nor a dot.
\<close>

theorem module_file_stays_inside:
  "\<exists>stem. module_path nm = ''03-translation/module-'' @ stem @ ''.rs''
     \<and> length stem = length nm \<and> CHR ''/'' \<notin> set stem \<and> CHR ''.'' \<notin> set stem"
  using sanitize_name_safe [of nm] by (auto simp: module_path_def sanitize_name_def)

end
