(* ===== verification/Line_Fold.thy ===== *)
theory Line_Fold
  imports Rust_Text
begin

text \<open>
  Folding over the lines of a text. A value computed line by line, such as the brace depth or the
  names a text defines, is the combination of the values of its parts whenever an empty line
  counts for nothing and a carriage return before the line end does not matter.
\<close>

lemma trim_strip_cr: "trim (strip_cr l) = trim l"
proof (cases "l \<noteq> [] \<and> last l = cr")
  case True
  then obtain k where k: "l = k @ [cr]" by (metis append_butlast_last_id)
  have ws: "is_whitespace cr" by (simp add: is_whitespace_def cr_def)
  have strip: "strip_cr l = k" by (simp add: strip_cr_def k)
  show ?thesis
  proof (cases "list_all is_whitespace k")
    case True
    then have "trim k = []" "trim l = []" using ws by (simp_all add: trim_eq_Nil k)
    then show ?thesis by (simp add: strip)
  next
    case False
    then have "dropWhile is_whitespace (k @ [cr]) = dropWhile is_whitespace k @ [cr]"
      by (induction k) auto
    then show ?thesis unfolding strip using ws by (simp add: k trim_def trim_start_def trim_end_def)
  qed
qed (auto simp: strip_cr_def)

locale line_fold =
  fixes f :: "string \<Rightarrow> 'm" and add :: "'m \<Rightarrow> 'm \<Rightarrow> 'm" and zero :: 'm
  assumes assoc: "add (add a b) c = add a (add b c)"
    and left_zero: "add zero a = a"
    and right_zero: "add a zero = a"
    and empty_line: "f [] = zero"
    and carriage_return: "f (strip_cr l) = f l"
begin

lemma fold_line:
  "newline \<notin> set l \<Longrightarrow> foldr (\<lambda>l. add (f l)) (lines l) zero = f l"
  by (cases "l = []") (simp_all add: lines_no_newline empty_line right_zero)

lemma fold_first_line:
  "newline \<notin> set l \<Longrightarrow>
     foldr (\<lambda>l. add (f l)) (lines (l @ newline # r)) zero = add (f l) (foldr (\<lambda>l. add (f l)) (lines r) zero)"
  by (simp add: lines_append_newline carriage_return)

lemma fold_append_newline:
  "foldr (\<lambda>l. add (f l)) (lines (s @ newline # t)) zero
     = add (foldr (\<lambda>l. add (f l)) (lines s) zero) (foldr (\<lambda>l. add (f l)) (lines t) zero)"
proof (induction s rule: lines_induct)
  case Nil
  then show ?case using fold_first_line [of "[]" t] by (simp add: empty_line)
next
  case (Single s)
  then show ?case by (simp add: fold_first_line fold_line)
next
  case (Newline l r)
  then have "foldr (\<lambda>l. add (f l)) (lines ((l @ newline # r) @ newline # t)) zero
      = add (f l) (foldr (\<lambda>l. add (f l)) (lines (r @ newline # t)) zero)"
    using fold_first_line [of l "r @ newline # t"] by simp
  with Newline show ?case by (simp add: fold_first_line assoc)
qed

lemma fold_newline: "foldr (\<lambda>l. add (f l)) (lines (newline # t)) zero = foldr (\<lambda>l. add (f l)) (lines t) zero"
  using fold_first_line [of "[]" t] by (simp add: empty_line left_zero)

lemma fold_blocks:
  "foldr (\<lambda>l. add (f l)) (lines (join [newline, newline] xs)) zero
     = foldr (\<lambda>s. add (foldr (\<lambda>l. add (f l)) (lines s) zero)) xs zero"
proof (induction xs)
  case (Cons x xs)
  then show ?case
    by (cases "xs = []") (simp_all add: join_Cons fold_append_newline fold_newline right_zero)
qed simp

lemma fold_statements:
  "foldr (\<lambda>l. add (f l)) (lines (concat (map (\<lambda>s. s @ [newline]) xs) @ t)) zero
     = foldr (\<lambda>s. add (foldr (\<lambda>l. add (f l)) (lines s) zero)) xs (foldr (\<lambda>l. add (f l)) (lines t) zero)"
  by (induction xs) (simp_all add: fold_append_newline)

lemma fold_unlines:
  "\<forall>l \<in> set ls. newline \<notin> set l \<Longrightarrow>
     foldr (\<lambda>l. add (f l)) (lines (unlines ls)) zero = foldr (\<lambda>l. add (f l)) ls zero"
proof (induction ls)
  case (Cons l ls)
  then show ?case
    by (cases "ls = []") (simp_all add: fold_line join_Cons fold_append_newline right_zero)
qed simp

end

text \<open>
  When white space around a line does not matter either, the value does not change when the text
  is trimmed.
\<close>

lemma trim_snoc: "is_whitespace c \<Longrightarrow> trim (s @ [c]) = trim s"
proof (cases "list_all is_whitespace s")
  case True
  moreover assume "is_whitespace c"
  ultimately show ?thesis using trim_eq_Nil [of s] trim_eq_Nil [of "s @ [c]"] by simp
next
  case False
  moreover assume "is_whitespace c"
  ultimately have "dropWhile is_whitespace (s @ [c]) = dropWhile is_whitespace s @ [c]"
    by (induction s) auto
  then show ?thesis using \<open>is_whitespace c\<close> by (simp add: trim_def trim_start_def trim_end_def)
qed

lemma trim_Cons: "is_whitespace c \<Longrightarrow> trim (c # s) = trim s"
  by (simp add: trim_def trim_start_def)

lemma split_trim:
  obtains u v where "s = u @ trim s @ v" "list_all is_whitespace u" "list_all is_whitespace v"
proof -
  let ?t = "dropWhile is_whitespace s"
  have "s = takeWhile is_whitespace s @ ?t" by simp
  moreover have "?t = trim s @ rev (takeWhile is_whitespace (rev ?t))"
    unfolding trim_def trim_start_def trim_end_def
    by (metis rev_append rev_rev_ident takeWhile_dropWhile_id)
  ultimately have "s = takeWhile is_whitespace s @ trim s @ rev (takeWhile is_whitespace (rev ?t))"
    by metis
  then show thesis
    by (rule that) (auto simp: list_all_iff dest: set_takeWhileD)
qed

locale trim_fold = line_fold +
  assumes trimmed: "f (trim l) = f l"
begin

lemma same_trim: "trim k = trim l \<Longrightarrow> f k = f l"
  by (metis trimmed)

lemma fold_Cons_space:
  assumes "is_whitespace c"
  shows "foldr (\<lambda>l. add (f l)) (lines (c # s)) zero = foldr (\<lambda>l. add (f l)) (lines s) zero"
proof (cases "c = newline")
  case True
  then show ?thesis using fold_first_line [of "[]" s] by (simp add: empty_line left_zero)
next
  case False
  have c: "f (c # l) = f l" for l using assms by (intro same_trim trim_Cons)
  show ?thesis
  proof (cases s rule: lines_cases)
    case Nil
    then show ?thesis using False fold_line [of "[c]"] c [of "[]"] by (simp add: empty_line)
  next
    case Single
    then show ?thesis using False fold_line [of "c # s"] fold_line [of s] c [of s] by simp
  next
    case (Newline l r)
    then show ?thesis using False fold_first_line [of "c # l" r] fold_first_line [of l r] c [of l] by simp
  qed
qed

lemma fold_snoc_space:
  assumes "is_whitespace c"
  shows "foldr (\<lambda>l. add (f l)) (lines (s @ [c])) zero = foldr (\<lambda>l. add (f l)) (lines s) zero"
proof (cases "c = newline")
  case True
  then show ?thesis using fold_append_newline [of s "[]"] by (simp add: right_zero)
next
  case False
  have c: "f (l @ [c]) = f l" for l using assms by (intro same_trim trim_snoc)
  show ?thesis
  proof (induction s rule: lines_induct)
    case Nil
    then show ?case using False fold_line [of "[c]"] c [of "[]"] by (simp add: empty_line)
  next
    case (Single s)
    then show ?case using False fold_line [of "s @ [c]"] fold_line [of s] c [of s] by simp
  next
    case (Newline l r)
    then show ?case using fold_first_line [of l "r @ [c]"] fold_first_line [of l r] by simp
  qed
qed

lemma fold_spaces:
  "list_all is_whitespace u \<Longrightarrow> list_all is_whitespace v \<Longrightarrow>
     foldr (\<lambda>l. add (f l)) (lines (u @ s @ v)) zero = foldr (\<lambda>l. add (f l)) (lines s) zero"
proof (induction u)
  case Nil
  then show ?case
  proof (induction v rule: rev_induct)
    case (snoc c v)
    then show ?case using fold_snoc_space [of c "s @ v"] by simp
  qed simp
qed (simp add: fold_Cons_space)

lemma fold_trim: "foldr (\<lambda>l. add (f l)) (lines (trim s)) zero = foldr (\<lambda>l. add (f l)) (lines s) zero"
  by (metis fold_spaces split_trim)

end

lemma trim_Nil [simp]: "trim [] = []"
  by (simp add: trim_eq_Nil)

lemma set_trim: "set (trim s) \<subseteq> set s"
  unfolding trim_def trim_start_def trim_end_def by (auto dest!: set_dropWhileD)

text \<open>A value that is a list: the fold is the concatenation over the lines.\<close>

lemma foldr_append_concat: "foldr (\<lambda>l. (@) (f l)) ls ys = concat (map f ls) @ ys"
  by (induction ls) auto

lemma trim_trim [simp]: "trim (trim s) = trim s"
proof -
  have start: "dropWhile p (dropWhile p t) = dropWhile p t" for p and t :: string by (rule dropWhile_idem)
  have ends: "trim_start (trim_end t) = trim_end t" if "trim_start t = t" for t
  proof (cases t)
    case (Cons c cs)
    with that have "\<not> is_whitespace c" by (auto simp: trim_start_def split: if_splits)
        (metis dropWhile.simps(2) hd_dropWhile list.sel(1) list.distinct(1))+
    then have "\<exists>r. trim_end t = c # r"
      unfolding trim_end_def Cons by (simp add: dropWhile_append) (metis rev_rev_ident)
    with \<open>\<not> is_whitespace c\<close> show ?thesis by (auto simp: trim_start_def)
  qed (simp add: trim_start_def trim_end_def)
  have "trim_start (trim s) = trim s"
    unfolding trim_def by (rule ends) (simp add: trim_start_def start)
  then show ?thesis unfolding trim_def by (simp add: trim_end_def start)
qed

end
