(* ===== verification/Brace_Balance.thy ===== *)
theory Brace_Balance
  imports Line_Fold
begin

text \<open>
  Brace counting and the repair of truncated output
  (\<open>check_brace_balance\<close> and \<open>auto_close_braces\<close> of \<open>crates/noricum-tools/src/repair_rules.rs\<close>).
  The scanner restarts on each line; it skips line comments, string literals and escapes.
  The depth, of 32 bits in the code, is an integer here: they agree up to 2^31 braces.
\<close>

section \<open>The scanner\<close>

text \<open>The loop over the characters of a line: in a string, escape pending, depth so far.\<close>

fun scan_line :: "bool \<Rightarrow> bool \<Rightarrow> int \<Rightarrow> string \<Rightarrow> int" where
  "scan_line in_string escape_next depth [] = depth"
| "scan_line in_string escape_next depth (ch # rest) =
     (if escape_next then scan_line in_string False depth rest
      else if ch = backslash \<and> in_string then scan_line in_string True depth rest
      else if ch = quote then scan_line (\<not> in_string) False depth rest
      else if in_string then scan_line in_string False depth rest
      else if ch = CHR ''/'' \<and> starts_with rest ''/'' then depth
      else if ch = CHR ''{'' then scan_line in_string False (depth + 1) rest
      else if ch = CHR ''}'' then scan_line in_string False (depth - 1) rest
      else scan_line in_string False depth rest)"

definition line_depth :: "string \<Rightarrow> int" where
  "line_depth line =
     (let trimmed = trim line
      in if starts_with trimmed ''//'' then 0 else scan_line False False 0 trimmed)"

definition check_brace_balance :: "string \<Rightarrow> int" where
  "check_brace_balance src = sum_list (map line_depth (lines src))"

section \<open>Closing truncated output\<close>

text \<open>The running depth over the lines, and the last line at which it is zero.\<close>

fun last_balanced :: "string list \<Rightarrow> nat \<Rightarrow> int \<Rightarrow> nat option \<Rightarrow> nat option" where
  "last_balanced [] i running best = best"
| "last_balanced (l # ls) i running best =
     (let running = running + line_depth l
      in last_balanced ls (i + 1) running (if running = 0 then Some i else best))"

definition truncation_note :: "nat \<Rightarrow> string" where
  "truncation_note n = ''// P32: truncated '' @ show_nat n @ '' lines of incomplete code''"

definition auto_close_braces :: "string \<Rightarrow> string" where
  "auto_close_braces src =
     (let depth = check_brace_balance src
      in if depth \<le> 0 then src
         else (let ls = lines src;
                   fallback = src @ [newline] @ replicate (nat depth) (CHR ''}'')
                              @ '' // auto-closed: truncated output''
               in case last_balanced ls 0 0 None of
                    Some cut_line \<Rightarrow>
                      if cut_line + 1 < length ls then
                        unlines (take (cut_line + 1) ls) @ [newline]
                        @ truncation_note (length ls - cut_line - 1)
                      else fallback
                  | None \<Rightarrow> fallback))"

section \<open>Depth of composed texts\<close>

lemma scan_line_offset: "scan_line s e d t = d + scan_line s e 0 t"
proof (induction t arbitrary: s e d)
  case (Cons c t)
  have ih: "NO_MATCH 0 k \<Longrightarrow> scan_line s' e' k t = k + scan_line s' e' 0 t" for s' e' k
    by (rule Cons.IH)
  show ?case by (simp add: ih)
qed simp

lemma line_depth_strip_cr [simp]: "line_depth (strip_cr l) = line_depth l"
  by (simp add: line_depth_def trim_strip_cr)

lemma line_depth_Nil [simp]: "line_depth [] = 0"
  by (simp add: line_depth_def trim_def trim_start_def trim_end_def)

lemma balance_Nil [simp]: "check_brace_balance [] = 0"
  by (simp add: check_brace_balance_def)

lemma balance_line: "newline \<notin> set l \<Longrightarrow> check_brace_balance l = line_depth l"
  by (cases "l = []") (simp_all add: check_brace_balance_def lines_no_newline)

interpretation depth: line_fold line_depth "(+)" 0
  by unfold_locales simp_all

lemma balance_is_fold: "check_brace_balance s = foldr (\<lambda>l. (+) (line_depth l)) (lines s) 0"
  by (simp add: check_brace_balance_def sum_list.eq_foldr foldr_map comp_def)

lemma balance_append_newline:
  "check_brace_balance (s @ newline # t) = check_brace_balance s + check_brace_balance t"
  unfolding balance_is_fold by (rule depth.fold_append_newline)

lemma balance_unlines:
  "\<forall>l \<in> set ls. newline \<notin> set l \<Longrightarrow> check_brace_balance (unlines ls) = sum_list (map line_depth ls)"
proof (induction ls)
  case (Cons l ls)
  then show ?case
    by (cases "ls = []") (simp_all add: balance_line join_Cons balance_append_newline)
qed simp

lemma last_balanced_Some:
  "last_balanced ls i d best = Some k \<Longrightarrow>
     best = Some k \<or> (i \<le> k \<and> k < i + length ls \<and> d + sum_list (map line_depth (take (Suc k - i) ls)) = 0)"
proof (induction ls arbitrary: i d best)
  case (Cons l ls)
  let ?d = "d + line_depth l"
  from Cons.prems have "last_balanced ls (i + 1) ?d (if ?d = 0 then Some i else best) = Some k"
    by (simp add: Let_def)
  from Cons.IH [OF this] show ?case
  proof
    assume "(if ?d = 0 then Some i else best) = Some k"
    then show ?thesis by (auto split: if_splits)
  next
    assume k: "i + 1 \<le> k \<and> k < i + 1 + length ls \<and> ?d + sum_list (map line_depth (take (Suc k - (i + 1)) ls)) = 0"
    then have "i < k" by linarith
    then have "Suc k - i = Suc (Suc k - (i + 1))" by linarith
    with k show ?thesis by (simp add: add.assoc)
  qed
qed simp

lemma starts_with_trim_comment:
  "starts_with (trim (CHR ''/'' # CHR ''/'' # t)) ''//''"
proof -
  have ns: "\<not> is_whitespace (CHR ''/'')" by (simp add: is_whitespace_def)
  have "\<exists>v. dropWhile is_whitespace (u @ [CHR ''/'', CHR ''/'']) = v @ [CHR ''/'', CHR ''/'']" for u
    using ns by (induction u) auto
  then obtain v where "dropWhile is_whitespace (rev t @ [CHR ''/'', CHR ''/'']) = v @ [CHR ''/'', CHR ''/'']"
    by blast
  then show ?thesis using ns by (simp add: trim_def trim_start_def trim_end_def)
qed

lemma line_depth_comment [simp]: "line_depth (CHR ''/'' # CHR ''/'' # t) = 0"
  using starts_with_trim_comment by (simp add: line_depth_def)

text \<open>A run of closing braces counts down once per brace, and the note after it is not counted.\<close>

lemma scan_line_closes:
  "scan_line False False d (replicate n (CHR ''}'') @ t) = scan_line False False (d - int n) t"
proof (induction n arbitrary: d)
  case (Suc n)
  have "d - 1 - int n = d - int (Suc n)" by simp
  moreover have "scan_line False False d (replicate (Suc n) (CHR ''}'') @ t) = scan_line False False (d - 1 - int n) t"
    using Suc [of "d - 1"] by (simp add: backslash_def quote_def)
  ultimately show ?case by metis
qed simp

lemma trim_no_outer_whitespace:
  "s \<noteq> [] \<Longrightarrow> \<not> is_whitespace (hd s) \<Longrightarrow> \<not> is_whitespace (last s) \<Longrightarrow> trim s = s"
proof -
  assume s: "s \<noteq> []" "\<not> is_whitespace (hd s)" "\<not> is_whitespace (last s)"
  then have "trim_start s = s" by (cases s) (simp_all add: trim_start_def)
  moreover have "trim_end s = s"
    using s by (cases s rule: rev_cases) (simp_all add: trim_end_def)
  ultimately show ?thesis by (simp add: trim_def)
qed

lemma line_depth_closes:
  assumes "0 < n"
  shows "line_depth (replicate n (CHR ''}'') @ '' // auto-closed: truncated output'') = - int n"
proof -
  let ?s = "replicate n (CHR ''}'') @ '' // auto-closed: truncated output''"
  obtain m where m: "n = Suc m" using assms by (cases n) auto
  have "trim ?s = ?s"
    by (rule trim_no_outer_whitespace) (simp_all add: m is_whitespace_def)
  moreover have "\<not> starts_with ?s ''//''" by (simp add: m)
  moreover have "scan_line False False (- int n) '' // auto-closed: truncated output'' = - int n"
    by (simp add: backslash_def quote_def)
  ultimately show ?thesis by (simp add: line_depth_def scan_line_closes)
qed

lemma newline_not_in_note: "newline \<notin> set (truncation_note n)"
proof -
  have "newline \<notin> set (show_nat k)" for k
  proof (induction k rule: show_nat.induct)
    case (1 k)
    have digit: "d < 10 \<Longrightarrow> char_of (48 + d) \<noteq> newline" for d :: nat
    proof -
      assume "d < 10"
      then have "of_char (char_of (48 + d) :: char) = (48 + d :: nat)" by simp
      moreover have "of_char newline = (10 :: nat)" by (simp add: newline_def)
      ultimately show "char_of (48 + d) \<noteq> newline" by fastforce
    qed
    show ?case using 1 digit [of k] digit [of "k mod 10"]
      by (subst show_nat.simps) auto
  qed
  then show ?thesis by (simp add: truncation_note_def newline_def)
qed

lemma balance_note [simp]: "check_brace_balance (truncation_note n) = 0"
  using newline_not_in_note [of n] by (simp add: balance_line) (simp add: truncation_note_def)

text \<open>
  The repaired text is balanced whenever the input had braces open: either it ends after a line
  at which every brace was closed, or it gets exactly the missing ones.
\<close>

lemma balance_auto_close: "check_brace_balance (auto_close_braces s) = min 0 (check_brace_balance s)"
proof (cases "check_brace_balance s \<le> 0")
  case True
  then show ?thesis by (simp add: auto_close_braces_def)
next
  case False
  define d where "d = nat (check_brace_balance s)"
  have d: "0 < d" "check_brace_balance s = int d" using False by (simp_all add: d_def)
  define closes where "closes = replicate d (CHR ''}'') @ '' // auto-closed: truncated output''"
  have "newline \<notin> set closes" by (auto simp: closes_def newline_def)
  then have "check_brace_balance closes = - int d"
    using line_depth_closes [OF d(1)] by (simp add: balance_line closes_def)
  then have fallback: "check_brace_balance (s @ newline # closes) = 0"
    using d by (simp add: balance_append_newline)
  show ?thesis
  proof (cases "\<exists>k. last_balanced (lines s) 0 0 None = Some k \<and> k + 1 < length (lines s)")
    case True
    then obtain k where k: "last_balanced (lines s) 0 0 None = Some k" "k + 1 < length (lines s)" by blast
    from last_balanced_Some [OF k(1)]
    have "sum_list (map line_depth (take (k + 1) (lines s))) = 0" by simp
    moreover have "\<forall>l \<in> set (take (k + 1) (lines s)). newline \<notin> set l"
      using lines_no_newline_in in_set_takeD by metis
    ultimately have "check_brace_balance (unlines (take (k + 1) (lines s))) = 0"
      by (simp add: balance_unlines)
    then show ?thesis using False k
      by (simp add: auto_close_braces_def Let_def balance_append_newline)
  next
    case none: False
    then have "auto_close_braces s = s @ newline # closes"
      using False by (auto simp: auto_close_braces_def Let_def closes_def d_def split: option.splits)
    with fallback False show ?thesis by simp
  qed
qed

end
