(* ===== verification/Regex_Engine.thy ===== *)
theory Regex_Engine
  imports Rust_Text
begin

text \<open>
  The interface of the \<open>regex\<close> package as the repair rules use it. The package is not part of
  the repository: an engine is a parameter of every rule, and the rules only rely on what they
  do with its answers. Patterns are built as in the sources; every group a rule indexes takes
  part in each match of its pattern, so indexing a capture is total here.
\<close>

record captures =
  cap_index :: "nat \<Rightarrow> string"
  cap_name :: "string \<Rightarrow> string option"

record regex_engine =
  re_is_match :: "string \<Rightarrow> string \<Rightarrow> bool"
  re_find :: "string \<Rightarrow> string \<Rightarrow> string option"
  re_captures :: "string \<Rightarrow> string \<Rightarrow> captures option"
  re_captures_iter :: "string \<Rightarrow> string \<Rightarrow> captures list"
  re_replace :: "string \<Rightarrow> string \<Rightarrow> (captures \<Rightarrow> string) \<Rightarrow> string"
  re_replace_all :: "string \<Rightarrow> string \<Rightarrow> (captures \<Rightarrow> string) \<Rightarrow> string"
  re_escape :: "string \<Rightarrow> string"

definition cap_named :: "captures \<Rightarrow> string \<Rightarrow> string" where
  "cap_named c n = unwrap_or (cap_name c n) []"

text \<open>A pattern as written in the source, with \<open>%\<close> for the backslash.\<close>

definition raw :: "string \<Rightarrow> string" where
  "raw s = map (\<lambda>c. if c = CHR ''%'' then backslash else c) s"

text \<open>\<open>str::parse::<usize>\<close>: decimal digits after an optional sign, within 64 bits.\<close>

fun digits_value :: "nat \<Rightarrow> string \<Rightarrow> nat" where
  "digits_value acc [] = acc"
| "digits_value acc (c # cs) = digits_value (acc * 10 + (of_char c - 48)) cs"

definition parse_usize :: "string \<Rightarrow> nat option" where
  "parse_usize s =
     (let d = (case s of c # cs \<Rightarrow> if c = CHR ''+'' then cs else s | [] \<Rightarrow> s)
      in if d = [] \<or> \<not> list_all is_digit d \<or> 2 ^ 64 \<le> digits_value 0 d then None
         else Some (digits_value 0 d))"

end
