(* ===== verification/Repair_Rules.thy ===== *)
theory Repair_Rules
  imports Brace_Balance Regex_Engine "HOL-Library.Sublist"
begin

text \<open>
  The mechanical repair rules R0 to R14 of \<open>crates/noricum-tools/src/repair_rules.rs\<close>, each a
  function of the text and the parsed compiler errors, and their fixed sequence
  \<open>apply_all_rules\<close>. A rule whose errors are absent leaves the text alone (locale
  \<open>guarded_rule\<close>); the sequence ends with the brace repair of \<open>Brace_Balance\<close>.
\<close>

section \<open>Parsed errors\<close>

record compiler_error =
  code :: string
  err_line :: nat
  message :: string

definition coded_pattern :: string where
  "coded_pattern = raw ''error%[(?P<code>E%d+)%]: (?P<message>[^%n]+)%n%s*--> [^:]+:(?P<line>%d+):%d+''"

definition syntax_pattern :: string where
  "syntax_pattern = raw ''(?m)^error: (?P<message>[^%n]+)%n%s*--> [^:]+:(?P<line>%d+):%d+''"

definition error_line :: "captures \<Rightarrow> nat" where
  "error_line cap = unwrap_or (Option.bind (cap_name cap ''line'') parse_usize) 0"

definition coded_error :: "captures \<Rightarrow> compiler_error option" where
  "coded_error cap =
     (case cap_name cap ''code'' of None \<Rightarrow> None
      | Some c \<Rightarrow> (case cap_name cap ''message'' of None \<Rightarrow> None
          | Some m \<Rightarrow> Some \<lparr>code = c, err_line = error_line cap, message = m\<rparr>))"

definition syntax_error :: "captures \<Rightarrow> compiler_error option" where
  "syntax_error cap =
     (case cap_name cap ''message'' of None \<Rightarrow> None
      | Some msg \<Rightarrow>
          if starts_with msg ''aborting due to'' \<or> starts_with msg ''could not compile'' then None
          else Some \<lparr>code = ''SYNTAX'', err_line = error_line cap, message = msg\<rparr>)"

definition parse_rustc_errors :: "regex_engine \<Rightarrow> string \<Rightarrow> compiler_error list" where
  "parse_rustc_errors re stderr_text =
     List.map_filter coded_error (re_captures_iter re coded_pattern stderr_text)
     @ List.map_filter syntax_error (re_captures_iter re syntax_pattern stderr_text)"

section \<open>R0: markdown fences\<close>

definition is_fence :: "string \<Rightarrow> bool" where
  "is_fence line = starts_with (trim line) [backtick, backtick, backtick]"

definition rule_strip_markdown_fences :: "string \<Rightarrow> string" where
  "rule_strip_markdown_fences src = unlines (filter (\<lambda>line. \<not> is_fence line) (lines src))"

section \<open>R1: Clone bounds on generics\<close>

definition fn_generics_pattern :: string where
  "fn_generics_pattern = raw ''fn%s+%w+%s*<([^>]+)>''"

definition bound_pattern :: string where
  "bound_pattern = raw ''(%w+)%s*:%s*([^,>]+)''"

definition clone_error :: "compiler_error \<Rightarrow> bool" where
  "clone_error e = (code e = ''E0599'' \<and> contains (message e) ''trait bounds were not satisfied'')"

definition add_clone :: "captures \<Rightarrow> string" where
  "add_clone bcaps =
     (let name = cap_index bcaps 1; bounds = trim (cap_index bcaps 2)
      in if contains bounds ''Clone'' then name @ '': '' @ bounds
         else name @ '': '' @ bounds @ '' + Clone'')"

definition clone_fn_text :: "regex_engine \<Rightarrow> string \<Rightarrow> string" where
  "clone_fn_text re fn_text =
     re_replace re fn_generics_pattern fn_text
       (\<lambda>caps. replace_all (cap_index caps 0) (cap_index caps 1)
                 (re_replace_all re bound_pattern (cap_index caps 1) add_clone))"

text \<open>The search from the error line upwards for the enclosing function.\<close>

fun clone_scan :: "regex_engine \<Rightarrow> nat \<Rightarrow> nat \<Rightarrow> string list \<Rightarrow> string list" where
  "clone_scan re error_line_idx idx result_lines =
     (let line = result_lines ! idx
      in case re_find re fn_generics_pattern line of
           Some fn_text \<Rightarrow>
             if contains fn_text ''Clone'' then result_lines
             else result_lines[idx := replace_all line fn_text (clone_fn_text re fn_text)]
         | None \<Rightarrow>
             if idx < error_line_idx
                \<and> (starts_with (trim line) ''fn '' \<or> starts_with (trim line) ''pub fn '')
             then result_lines
             else (case idx of 0 \<Rightarrow> result_lines
                   | Suc k \<Rightarrow> clone_scan re error_line_idx k result_lines))"

declare clone_scan.simps [simp del]

definition clone_step :: "regex_engine \<Rightarrow> nat \<Rightarrow> string list \<Rightarrow> compiler_error \<Rightarrow> string list" where
  "clone_step re line_total result_lines err =
     (let error_line_idx = err_line err - 1
      in if line_total \<le> error_line_idx then result_lines
         else clone_scan re error_line_idx error_line_idx result_lines)"

definition rule_clone_bounds :: "regex_engine \<Rightarrow> string \<Rightarrow> compiler_error list \<Rightarrow> string" where
  "rule_clone_bounds re src errors =
     (let clone_errors = filter clone_error errors
      in if clone_errors = [] then src
         else unlines (foldl (clone_step re (length (lines src))) (lines src) clone_errors))"

section \<open>R2: duplicate functions\<close>

text \<open>Brace counting over the characters of a line, then over the lines from a start index.\<close>

fun count_braces :: "int \<Rightarrow> bool \<Rightarrow> string \<Rightarrow> int \<times> bool" where
  "count_braces depth found_open [] = (depth, found_open)"
| "count_braces depth found_open (ch # rest) =
     (if ch = CHR ''{'' then count_braces (depth + 1) True rest
      else if ch = CHR ''}'' then count_braces (depth - 1) found_open rest
      else count_braces depth found_open rest)"

fun skip_body :: "string list \<Rightarrow> nat \<Rightarrow> nat \<Rightarrow> int \<Rightarrow> bool \<Rightarrow> nat" where
  "skip_body [] i n depth found_open = n"
| "skip_body (l # ls) i n depth found_open =
     (case count_braces depth found_open l of (depth', found_open') \<Rightarrow>
        if found_open' \<and> depth' \<le> 0 then i + 1 else skip_body ls (i + 1) n depth' found_open')"

definition skip_function_body :: "string list \<Rightarrow> nat \<Rightarrow> nat" where
  "skip_function_body ls start_idx = skip_body (drop start_idx ls) start_idx (length ls) 0 False"

lemma skip_body_bounds:
  "i + length ls = n \<Longrightarrow> ls \<noteq> [] \<Longrightarrow> i < skip_body ls i n d f \<and> skip_body ls i n d f \<le> n"
proof (induction ls arbitrary: i d f)
  case (Cons l ls)
  obtain d' f' where c: "count_braces d f l = (d', f')" by fastforce
  show ?case
  proof (cases "ls = []")
    case False
    with Cons.IH [of "i + 1" d' f'] Cons.prems show ?thesis by (simp add: c)
  qed (use Cons.prems c in auto)
qed simp

lemma skip_function_body_bounds:
  assumes "i < length ls"
  shows "i < skip_function_body ls i" "skip_function_body ls i \<le> length ls"
  using skip_body_bounds [of i "drop i ls" "length ls"] assms
  by (simp_all add: skip_function_body_def)

definition dup_error :: "compiler_error \<Rightarrow> bool" where
  "dup_error e = (code e = ''E0428'' \<and> contains (message e) ''defined multiple times'')"

definition dup_name_pattern :: string where
  "dup_name_pattern = raw ''name `(%w+)` is defined multiple times''"

definition dup_fn_pattern :: "regex_engine \<Rightarrow> string \<Rightarrow> string" where
  "dup_fn_pattern re name =
     raw ''(?:pub(?:%([^)]*%))?%s+)?(?:unsafe%s+)?fn%s+'' @ re_escape re name @ raw ''%s*[%(<]''"

definition names_to_dedup :: "regex_engine \<Rightarrow> compiler_error list \<Rightarrow> string list" where
  "names_to_dedup re errors =
     List.map_filter (\<lambda>e. map_option (\<lambda>c. cap_index c 1) (re_captures re dup_name_pattern (message e)))
       (filter dup_error errors)"

definition defines_fn :: "regex_engine \<Rightarrow> string \<Rightarrow> string \<Rightarrow> bool" where
  "defines_fn re name line = re_is_match re (dup_fn_pattern re name) (trim line)"

text \<open>The loop over the lines for one name: the ranges of its second and later definitions.\<close>

function dup_ranges :: "(string \<Rightarrow> bool) \<Rightarrow> string list \<Rightarrow> bool \<Rightarrow> nat \<Rightarrow> (nat \<times> nat) list" where
  "dup_ranges is_def ls first_seen i =
     (if i < length ls then
        (if is_def (ls ! i) then
           (let e = skip_function_body ls i
            in if \<not> first_seen then dup_ranges is_def ls True e
               else (i, e) # dup_ranges is_def ls first_seen e)
         else dup_ranges is_def ls first_seen (i + 1))
      else [])"
  by pat_completeness auto
termination
  by (relation "measure (\<lambda>(p, ls, f, i). length ls - i)")
     (auto intro: diff_less_mono2 skip_function_body_bounds)

declare dup_ranges.simps [simp del]

text \<open>
  Removal of line ranges, shared by R2 and R9: the first range that starts at a line is dropped,
  ranges that start inside a dropped one are passed over.
\<close>

fun drop_ranges :: "(nat \<times> nat) list \<Rightarrow> nat \<Rightarrow> nat \<Rightarrow> string list \<Rightarrow> string list" where
  "drop_ranges ranges skip_until i [] = []"
| "drop_ranges ranges skip_until i (l # ls) =
     (if i < skip_until then drop_ranges ranges skip_until (i + 1) ls
      else (case map_of ranges i of
              Some e \<Rightarrow> drop_ranges ranges e (i + 1) ls
            | None \<Rightarrow> l # drop_ranges ranges skip_until (i + 1) ls))"

definition remove_ranges :: "string list \<Rightarrow> (nat \<times> nat) list \<Rightarrow> string list" where
  "remove_ranges ls ranges = drop_ranges (sort_key fst ranges) 0 0 ls"

definition rule_dedup_functions :: "regex_engine \<Rightarrow> string \<Rightarrow> compiler_error list \<Rightarrow> string" where
  "rule_dedup_functions re src errors =
     (let names = names_to_dedup re errors; ls = lines src;
          ranges = concat (map (\<lambda>name. dup_ranges (defines_fn re name) ls False 0) names)
      in if filter dup_error errors = [] then src
         else if names = [] then src
         else if ranges = [] then src
         else unlines (remove_ranges ls ranges))"

section \<open>R3: moved optional references\<close>

definition move_error :: "compiler_error \<Rightarrow> bool" where
  "move_error e = (code e = ''E0382'' \<and> contains (message e) ''use of moved value'')"

definition moved_pattern :: string where
  "moved_pattern = raw ''use of moved value: `(%w+)`''"

definition push_new :: "'a list \<Rightarrow> 'a option \<Rightarrow> 'a list" where
  "push_new xs x = (case x of None \<Rightarrow> xs | Some a \<Rightarrow> if a \<in> set xs then xs else xs @ [a])"

definition captured_names :: "regex_engine \<Rightarrow> string \<Rightarrow> compiler_error list \<Rightarrow> string list" where
  "captured_names re pattern errors =
     foldl (\<lambda>names e. push_new names (map_option (\<lambda>c. cap_index c 1) (re_captures re pattern (message e))))
       [] errors"

definition mut_option_step :: "regex_engine \<Rightarrow> string \<Rightarrow> string \<Rightarrow> string" where
  "mut_option_step re result var_name =
     (let var = re_escape re var_name;
          param = raw ''(?P<pre>%b)'' @ var @ raw ''%s*:%s*Option%s*<%s*&mut%s+'';
          binding = raw ''(?P<before>[(,]%s*)(?P<name>'' @ var @ raw '')%s*:%s*(?P<type>Option%s*<%s*&mut%s+)'';
          mut_check = raw ''mut%s+'' @ var @ raw ''%s*:%s*Option%s*<%s*&mut%s+'';
          some = raw ''if%s+let%s+Some%(%s*(?P<inner>%w+)%s*%)%s*=%s*'' @ var @ raw ''%b''
      in if \<not> re_is_match re param result then result
         else (let result1 =
                     (if \<not> re_is_match re mut_check result then
                        re_replace_all re binding result
                          (\<lambda>caps. cap_named caps ''before'' @ ''mut '' @ cap_named caps ''name'' @ '': ''
                                  @ cap_named caps ''type'')
                      else result)
               in re_replace_all re some result1
                    (\<lambda>caps. ''if let Some(ref mut '' @ cap_named caps ''inner'' @ '') = '' @ var_name)))"

definition rule_mut_option_ref :: "regex_engine \<Rightarrow> string \<Rightarrow> compiler_error list \<Rightarrow> string" where
  "rule_mut_option_ref re src errors =
     (let move_errors = filter move_error errors
      in if move_errors = [] then src
         else (let moved_vars = captured_names re moved_pattern move_errors
               in if moved_vars = [] then src else foldl (mut_option_step re) src moved_vars))"

section \<open>R5 and R6: inner attributes and inner doc comments\<close>

definition inner_attr_error :: "compiler_error \<Rightarrow> bool" where
  "inner_attr_error e = contains (message e) ''inner attribute is not permitted in this context''"

definition rule_inner_attribute_to_outer :: "string \<Rightarrow> compiler_error list \<Rightarrow> string" where
  "rule_inner_attribute_to_outer src errors =
     (let inner_attr_errors = filter inner_attr_error errors;
          error_lines = map err_line inner_attr_errors
      in if inner_attr_errors = [] then src
         else unlines (map (\<lambda>(i, line).
                let line_num = i + 1
                in if line_num \<in> set error_lines \<and> 5 < line_num \<and> starts_with (trim line) ''#!['' then
                     replace_first line ''#!['' ''#[''
                   else line) (enumerate 0 (lines src))))"

definition inner_doc_error :: "compiler_error \<Rightarrow> bool" where
  "inner_doc_error e = (code e = ''E0753'' \<or> contains (message e) ''expected outer doc comment'')"

definition rule_inner_doc_to_comment :: "string \<Rightarrow> compiler_error list \<Rightarrow> string" where
  "rule_inner_doc_to_comment src errors =
     (let doc_errors = filter inner_doc_error errors;
          error_lines = map err_line doc_errors
      in if doc_errors = [] then src
         else unlines (map (\<lambda>(i, line).
                let line_num = i + 1
                in if line_num \<in> set error_lines \<and> 5 < line_num \<and> starts_with (trim line) ''//!'' then
                     replace_first line ''//!'' ''//''
                   else line) (enumerate 0 (lines src))))"

section \<open>R7: duplicate imports\<close>

definition dup_import_error :: "compiler_error \<Rightarrow> bool" where
  "dup_import_error e = (code e = ''E0252'' \<and> contains (message e) ''defined multiple times'')"

definition is_use :: "string \<Rightarrow> bool" where
  "is_use trimmed = (starts_with trimmed ''use '' \<or> starts_with trimmed ''pub use '')"

fun import_seen :: "string list \<Rightarrow> string \<Rightarrow> string set \<Rightarrow> bool \<times> string set" where
  "import_seen [] trimmed seen_imports = (False, seen_imports)"
| "import_seen (name # names) trimmed seen_imports =
     (if contains trimmed (''::'' @ name) \<or> ends_with trimmed (name @ '';'') then
        (if name @ '':SEEN'' \<in> seen_imports then (True, seen_imports)
         else import_seen names trimmed (insert (name @ '':SEEN'') seen_imports))
      else import_seen names trimmed seen_imports)"

fun dedup_imports :: "string list \<Rightarrow> string set \<Rightarrow> string list \<Rightarrow> string list" where
  "dedup_imports names seen_imports [] = []"
| "dedup_imports names seen_imports (line # ls) =
     (if is_use (trim line) then
        (case import_seen names (trim line) seen_imports of (is_dup, seen_imports') \<Rightarrow>
           (if is_dup then dedup_imports names seen_imports' ls
            else line # dedup_imports names seen_imports' ls))
      else line # dedup_imports names seen_imports ls)"

definition rule_dedup_use_imports :: "regex_engine \<Rightarrow> string \<Rightarrow> compiler_error list \<Rightarrow> string" where
  "rule_dedup_use_imports re src errors =
     (let dup_errors = filter dup_import_error errors
      in if dup_errors = [] then src
         else (let dup_names = captured_names re dup_name_pattern dup_errors
               in if dup_names = [] then src
                  else unlines (dedup_imports dup_names {} (lines src))))"

section \<open>R8: orphaned derives\<close>

definition derive_error :: "compiler_error \<Rightarrow> bool" where
  "derive_error e =
     (code e = ''E0774''
      \<or> contains (message e) ''derive may only be applied to structs, enums and unions'')"

definition derive_pattern :: string where
  "derive_pattern = raw ''^%s*#%[derive%(''"

definition derive_targets :: "string list" where
  "derive_targets =
     [''struct '', ''pub struct '', ''pub(crate) struct '',
      ''enum '', ''pub enum '', ''pub(crate) enum '',
      ''union '', ''pub union '', ''pub(crate) union '']"

definition is_valid_target :: "string list \<Rightarrow> nat \<Rightarrow> bool" where
  "is_valid_target ls idx =
     (case dropWhile is_blank (drop (idx + 1) ls) of
        [] \<Rightarrow> False
      | next_line # _ \<Rightarrow> list_ex (starts_with (trim next_line)) derive_targets)"

definition orphaned_derive :: "regex_engine \<Rightarrow> string list \<Rightarrow> nat \<Rightarrow> nat option" where
  "orphaned_derive re ls line_num =
     (let idx = line_num - 1
      in if idx < length ls \<and> re_is_match re derive_pattern (ls ! idx) \<and> \<not> is_valid_target ls idx
         then Some idx else None)"

definition rule_orphaned_derive :: "regex_engine \<Rightarrow> string \<Rightarrow> compiler_error list \<Rightarrow> string" where
  "rule_orphaned_derive re src errors =
     (let derive_errors = filter derive_error errors; ls = lines src;
          remove_lines = List.map_filter (orphaned_derive re ls) (map err_line derive_errors)
      in if derive_errors = [] then src
         else if remove_lines = [] then src
         else unlines (map snd (filter (\<lambda>(i, _). i \<notin> set remove_lines) (enumerate 0 ls))))"

section \<open>R9: conflicting implementations\<close>

definition conflict_error :: "compiler_error \<Rightarrow> bool" where
  "conflict_error e = (code e = ''E0119'' \<and> contains (message e) ''conflicting implementations'')"

definition conflict_pattern :: string where
  "conflict_pattern = raw ''conflicting implementations of trait `(%w+)` for type `([^`]+)`''"

definition to_remove :: "regex_engine \<Rightarrow> compiler_error list \<Rightarrow> (string \<times> string \<times> nat) list" where
  "to_remove re errors =
     List.map_filter
       (\<lambda>e. map_option (\<lambda>c. (cap_index c 1, cap_index c 2, err_line e)) (re_captures re conflict_pattern (message e)))
       (filter conflict_error errors)"

definition impl_pattern :: "regex_engine \<Rightarrow> string \<Rightarrow> string \<Rightarrow> string" where
  "impl_pattern re trait_name type_name =
     raw ''^%s*impl%s+(?:%w+::)*'' @ re_escape re trait_name @ raw ''%s+for%s+(?:%w+::)*''
     @ re_escape re type_name"

fun conflict_scan :: "(string \<Rightarrow> bool) \<Rightarrow> string list \<Rightarrow> nat \<Rightarrow> nat \<Rightarrow> bool \<Rightarrow> nat list \<Rightarrow> (nat \<times> nat) option" where
  "conflict_scan is_impl ls search_start search_end found_first [] = None"
| "conflict_scan is_impl ls search_start search_end found_first (i # is) =
     (if is_impl (ls ! i) then
        (if \<not> found_first then conflict_scan is_impl ls search_start search_end True is
         else if search_start \<le> i + 1 \<and> i + 1 \<le> search_end + 5 then Some (i, skip_function_body ls i)
         else conflict_scan is_impl ls search_start search_end found_first is)
      else conflict_scan is_impl ls search_start search_end found_first is)"

definition conflict_range :: "regex_engine \<Rightarrow> string list \<Rightarrow> string \<times> string \<times> nat \<Rightarrow> (nat \<times> nat) option" where
  "conflict_range re ls x =
     (case x of (trait_name, type_name, line) \<Rightarrow>
        conflict_scan (\<lambda>l. re_is_match re (impl_pattern re trait_name type_name) (trim l)) ls
          (line - 3) (min (line + 2) (length ls)) False [0..<length ls])"

definition rule_conflicting_trait_impls :: "regex_engine \<Rightarrow> string \<Rightarrow> compiler_error list \<Rightarrow> string" where
  "rule_conflicting_trait_impls re src errors =
     (let removals = to_remove re errors; ls = lines src;
          ranges = List.map_filter (conflict_range re ls) removals
      in if filter conflict_error errors = [] then src
         else if removals = [] then src
         else if ranges = [] then src
         else unlines (remove_ranges ls ranges))"

section \<open>R10 and R11: external crates and Windows code\<close>

definition external_crates :: "string list" where
  "external_crates =
     [''miniz_oxide'', ''crc32fast'', ''flate2'', ''libc'', ''nix'', ''winapi'', ''num_traits'',
      ''byteorder'', ''rand'', ''serde'', ''tokio'']"

definition unresolved_error :: "compiler_error \<Rightarrow> bool" where
  "unresolved_error e =
     ((code e = ''E0432'' \<or> code e = ''E0433'')
      \<and> (contains (message e) ''unresolved'' \<or> contains (message e) ''could not find''))"

definition external_line :: "nat list \<Rightarrow> nat \<Rightarrow> string \<Rightarrow> bool" where
  "external_line error_lines line_num trimmed =
     ((error_lines \<noteq> [] \<and> line_num \<in> set error_lines \<and> is_use trimmed
         \<and> list_ex (contains trimmed) external_crates)
      \<or> (starts_with trimmed ''extern crate '' \<and> list_ex (contains trimmed) external_crates))"

definition rule_strip_external_crate_imports :: "string \<Rightarrow> compiler_error list \<Rightarrow> string" where
  "rule_strip_external_crate_imports src errors =
     (let error_lines = map err_line (filter unresolved_error errors);
          marked = map (\<lambda>(i, line). (external_line error_lines (i + 1) (trim line), line)) (enumerate 0 (lines src));
          changed = list_ex fst marked
      in if \<not> changed then src
         else unlines (map (\<lambda>(ext, line). if ext then ''// R10: '' @ trim line else line) marked))"

definition windows_error :: "compiler_error \<Rightarrow> bool" where
  "windows_error e =
     ((code e = ''E0432'' \<or> code e = ''E0433'' \<or> code e = ''SYNTAX'')
      \<and> (contains (message e) ''windows'' \<or> contains (message e) ''FILE_SHARE''))"

definition cfg_windows :: "string list" where
  "cfg_windows = [''#[cfg(target_os = '' @ [quote] @ ''windows'' @ [quote] @ '')]'', ''#[cfg(windows)]'']"

text \<open>The item after a \<open>cfg\<close> line, commented out up to the line that closes its first brace.\<close>

fun strip_item :: "int \<Rightarrow> bool \<Rightarrow> string list \<Rightarrow> string list \<times> string list" where
  "strip_item depth found_brace [] = ([], [])"
| "strip_item depth found_brace (l # ls) =
     (case count_braces depth found_brace l of (depth', found_brace') \<Rightarrow>
        if found_brace' \<and> depth' \<le> 0 then ([''// R11: '' @ trim l], ls)
        else (case strip_item depth' found_brace' ls of (out, rest) \<Rightarrow>
                ((''// R11: '' @ trim l) # out, rest)))"

lemma length_strip_item: "length (snd (strip_item d f ls)) \<le> length ls"
proof (induction d f ls rule: strip_item.induct)
  case (2 d f l ls)
  obtain d' f' where c: "count_braces d f l = (d', f')" by fastforce
  with 2 show ?case by (auto split: prod.splits)
qed simp

function strip_windows :: "string list \<Rightarrow> string list" where
  "strip_windows ls =
     (case ls of [] \<Rightarrow> []
      | l # rest \<Rightarrow>
          (let trimmed = trim l
           in if starts_with trimmed ''use std::os::windows'' \<or> starts_with trimmed ''pub use std::os::windows'' then
                (''// R11 (non-Windows): '' @ trimmed) # strip_windows rest
              else if trimmed \<in> set cfg_windows then
                (let item = strip_item 0 False rest
                 in (''// R11 (non-Windows): '' @ trimmed) # fst item @ strip_windows (snd item))
              else l # strip_windows rest))"
  by pat_completeness auto
termination
  by (relation "measure length") (auto simp: less_Suc_eq_le length_strip_item)

declare strip_windows.simps [simp del]

definition rule_strip_windows_imports :: "string \<Rightarrow> compiler_error list \<Rightarrow> string" where
  "rule_strip_windows_imports src errors =
     (if filter windows_error errors = [] then src else unlines (strip_windows (lines src)))"

section \<open>R12: functions truncated at module boundaries\<close>

definition is_boundary :: "string \<Rightarrow> bool" where
  "is_boundary trimmed = (starts_with trimmed ''// --- Module:'' \<or> starts_with trimmed ''// ---Module:'')"

text \<open>The search backwards from line \<open>i\<close>: the index where it stops and whether it is a signature.\<close>

function look_back :: "string list \<Rightarrow> nat \<Rightarrow> nat \<Rightarrow> nat \<times> bool" where
  "look_back ls i j =
     (if 0 < j \<and> i - 10 < j then
        (let prev = trim (ls ! j)
         in if prev = [] \<or> starts_with prev ''//'' then look_back ls i (j - 1)
            else if (contains prev ''pub fn '' \<or> contains prev ''fn '') \<and> CHR ''{'' \<notin> set prev then (j, True)
            else if ends_with prev '','' then look_back ls i (j - 1)
            else if CHR ''{'' \<notin> set prev \<and> CHR ''}'' \<notin> set prev \<and> \<not> ends_with prev '';'' then look_back ls i (j - 1)
            else (j, False))
      else (j, False))"
  by pat_completeness auto
termination
  by (relation "measure (\<lambda>(ls, i, j). j)") auto

declare look_back.simps [simp del]

definition stub_lines :: "string \<Rightarrow> string list" where
  "stub_lines fn_line =
     [''// R12: truncated function stubbed at module boundary'',
      trim (hd (split_char (CHR ''('') fn_line)) @ ''() -> bool { false }'', [] ]"

definition boundary_step :: "string list \<Rightarrow> string list \<Rightarrow> nat \<Rightarrow> string list" where
  "boundary_step ls result_lines i =
     (let result_lines' =
            (if is_boundary (trim (ls ! i)) then
               (case look_back ls i (i - 1) of
                  (j, found_incomplete) \<Rightarrow>
                    if found_incomplete then take j result_lines @ stub_lines (trim (ls ! j))
                    else result_lines)
             else result_lines)
      in result_lines' @ [ls ! i])"

definition rule_fix_truncated_module_boundary :: "string \<Rightarrow> string" where
  "rule_fix_truncated_module_boundary src =
     (let ls = lines src in unlines (foldl (boundary_step ls) [] [0..<length ls]))"

section \<open>R13: field name prefixes\<close>

definition field_error :: "compiler_error \<Rightarrow> bool" where
  "field_error e = (code e = ''E0609'')"

definition field_pattern :: string where
  "field_pattern = raw ''no field `(%w+)` on type''"

text \<open>The rewrite of a field name on the error line and its neighbours.\<close>

definition rename_near :: "nat \<Rightarrow> string \<Rightarrow> string \<Rightarrow> string \<Rightarrow> string" where
  "rename_near line old_pattern new_pattern result =
     (let ls = lines result
      in if 0 < line \<and> line \<le> length ls then
           (let line_idx = line - 1; start = line_idx - 1; stop = min (line_idx + 2) (length ls)
            in unlines (map (\<lambda>(idx, l).
                   if start \<le> idx \<and> idx < stop \<and> contains l old_pattern
                   then replace_all l old_pattern new_pattern else l) (enumerate 0 ls)))
         else result)"

definition field_step :: "regex_engine \<Rightarrow> string \<Rightarrow> compiler_error \<Rightarrow> string" where
  "field_step re result err =
     (case re_captures re field_pattern (message err) of
        None \<Rightarrow> result
      | Some caps \<Rightarrow>
          (let bad_field = cap_index caps 1
           in case strip_prefix bad_field ''m_'' of
                Some stripped \<Rightarrow> rename_near (err_line err) (''.'' @ bad_field) (''.'' @ stripped) result
              | None \<Rightarrow>
                  if \<not> starts_with bad_field ''m_'' then
                    rename_near (err_line err) (''.'' @ bad_field) (''.'' @ ''m_'' @ bad_field) result
                  else result))"

definition rule_field_name_prefix :: "regex_engine \<Rightarrow> string \<Rightarrow> compiler_error list \<Rightarrow> string" where
  "rule_field_name_prefix re src errors =
     (let field_errors = filter field_error errors
      in if field_errors = [] then src else foldl (field_step re) src field_errors)"

section \<open>R14: method calls on free functions\<close>

definition method_error :: "compiler_error \<Rightarrow> bool" where
  "method_error e = (code e = ''E0599'' \<and> contains (message e) ''no method named'')"

definition method_pattern :: string where
  "method_pattern = raw ''no method named `(%w+)` found''"

definition free_fn_name :: "string \<Rightarrow> string option" where
  "free_fn_name line =
     (let trimmed = trim line
      in if (starts_with trimmed ''pub fn '' \<or> starts_with trimmed ''fn '')
            \<and> \<not> starts_with trimmed ''pub fn new'' \<and> CHR ''('' \<in> set trimmed
         then Some (last (split_char (CHR '' '') (trim (hd (split_char (CHR ''('') trimmed)))))
         else None)"

definition method_line :: "string \<Rightarrow> string \<Rightarrow> string" where
  "method_line method_name line =
     (let self_call = ''self.'' @ method_name @ ''('';
          line1 = (if contains line self_call then replace_all line self_call (method_name @ ''(self, '') else line);
          assoc_call = ''Self::'' @ method_name @ ''(''
      in if contains line1 assoc_call then replace_all line1 assoc_call (method_name @ ''('') else line1)"

definition method_step :: "regex_engine \<Rightarrow> string set \<Rightarrow> string \<Rightarrow> compiler_error \<Rightarrow> string" where
  "method_step re free_fns result err =
     (case re_captures re method_pattern (message err) of
        None \<Rightarrow> result
      | Some caps \<Rightarrow>
          (let method_name = cap_index caps 1; ls = lines result
           in if method_name \<in> free_fns \<and> 0 < err_line err \<and> err_line err \<le> length ls then
                unlines (ls[err_line err - 1 := method_line method_name (ls ! (err_line err - 1))])
              else result))"

definition rule_method_to_free_fn :: "regex_engine \<Rightarrow> string \<Rightarrow> compiler_error list \<Rightarrow> string" where
  "rule_method_to_free_fn re src errors =
     (let method_errors = filter method_error errors
      in if method_errors = [] then src
         else foldl (method_step re (set (List.map_filter free_fn_name (lines src)))) src method_errors)"

section \<open>The sequence of rules\<close>

definition apply_all_rules :: "regex_engine \<Rightarrow> string \<Rightarrow> compiler_error list \<Rightarrow> string" where
  "apply_all_rules re src errors =
     (let result = rule_strip_markdown_fences src;
          result = rule_inner_attribute_to_outer result errors;
          result = rule_inner_doc_to_comment result errors;
          result = rule_dedup_use_imports re result errors;
          result = rule_orphaned_derive re result errors;
          result = rule_dedup_functions re result errors;
          result = rule_conflicting_trait_impls re result errors;
          result = rule_strip_external_crate_imports result errors;
          result = rule_strip_windows_imports result errors;
          result = rule_clone_bounds re result errors;
          result = rule_mut_option_ref re result errors;
          result = rule_fix_truncated_module_boundary result;
          result = rule_field_name_prefix re result errors;
          result = rule_method_to_free_fn re result errors
      in auto_close_braces result)"

section \<open>Rules fire on their errors only\<close>

text \<open>
  The contract shared by the error-driven rules: a rule depends only on the errors it selects, in
  order, and does nothing when there is none.
\<close>

locale guarded_rule =
  fixes rule :: "string \<Rightarrow> compiler_error list \<Rightarrow> string"
    and relevant :: "compiler_error \<Rightarrow> bool"
  assumes idle: "filter relevant errors = [] \<Longrightarrow> rule src errors = src"
    and selects: "rule src (filter relevant errors) = rule src errors"
begin

lemma no_errors: "rule src [] = src"
  by (rule idle) simp

lemma irrelevant_errors: "\<forall>e \<in> set errors. \<not> relevant e \<Longrightarrow> rule src errors = src"
  by (rule idle) (simp add: filter_empty_conv)

lemma irrelevant_prefix: "\<forall>e \<in> set other. \<not> relevant e \<Longrightarrow> rule src (other @ errors) = rule src errors"
  by (metis filter_append filter_False self_append_conv2 selects)

end

lemma filter_twice [simp]: "filter p (filter p xs) = filter p xs"
  by (induction xs) auto

interpretation r1: guarded_rule "rule_clone_bounds re" clone_error for re
  by unfold_locales (simp_all add: rule_clone_bounds_def)

interpretation r2: guarded_rule "rule_dedup_functions re" dup_error for re
  by unfold_locales (simp_all add: rule_dedup_functions_def names_to_dedup_def)

interpretation r3: guarded_rule "rule_mut_option_ref re" move_error for re
  by unfold_locales (simp_all add: rule_mut_option_ref_def)

interpretation r5: guarded_rule rule_inner_attribute_to_outer inner_attr_error
  by unfold_locales (simp_all add: rule_inner_attribute_to_outer_def)

interpretation r6: guarded_rule rule_inner_doc_to_comment inner_doc_error
  by unfold_locales (simp_all add: rule_inner_doc_to_comment_def)

interpretation r7: guarded_rule "rule_dedup_use_imports re" dup_import_error for re
  by unfold_locales (simp_all add: rule_dedup_use_imports_def)

interpretation r8: guarded_rule "rule_orphaned_derive re" derive_error for re
  by unfold_locales (simp_all add: rule_orphaned_derive_def)

interpretation r9: guarded_rule "rule_conflicting_trait_impls re" conflict_error for re
  by unfold_locales (simp_all add: rule_conflicting_trait_impls_def to_remove_def)

interpretation r11: guarded_rule rule_strip_windows_imports windows_error
  by unfold_locales (simp_all add: rule_strip_windows_imports_def)

interpretation r13: guarded_rule "rule_field_name_prefix re" field_error for re
  by unfold_locales (simp_all add: rule_field_name_prefix_def)

interpretation r14: guarded_rule "rule_method_to_free_fn re" method_error for re
  by unfold_locales (simp_all add: rule_method_to_free_fn_def)

lemmas no_error_rules =
  r1.no_errors r2.no_errors r3.no_errors r5.no_errors r6.no_errors r7.no_errors r8.no_errors
  r9.no_errors r11.no_errors r13.no_errors r14.no_errors

text \<open>
  Without compiler errors the rule sequence only strips fences, comments out
  \<open>extern crate\<close> lines of known crates, stubs truncated signatures and closes braces.
\<close>

theorem apply_all_rules_no_errors:
  "apply_all_rules re src [] =
     auto_close_braces (rule_fix_truncated_module_boundary
       (rule_strip_external_crate_imports (rule_strip_markdown_fences src) []))"
  by (simp add: apply_all_rules_def no_error_rules)

text \<open>
  C39: Whatever the text, the errors and the regular expression engine, the text handed back to
  the compiler never has braces left open, by the rules' own count.
\<close>

theorem apply_all_rules_closes_braces:
  "check_brace_balance (apply_all_rules re src errors) \<le> 0"
  by (simp add: apply_all_rules_def Let_def balance_auto_close)

section \<open>Fences\<close>

lemma lines_unlines_subset:
  "\<forall>l \<in> set ls. newline \<notin> set l \<Longrightarrow> set (lines (unlines ls)) \<subseteq> set ls \<union> strip_cr ` set ls"
proof (induction ls)
  case (Cons l ls)
  show ?case
  proof (cases "ls = []")
    case True
    with Cons.prems show ?thesis by (cases "l = []") (auto simp: lines_no_newline)
  next
    case False
    with Cons have "lines (unlines (l # ls)) = strip_cr l # lines (unlines ls)"
      by (simp add: join_Cons lines_append_newline)
    with Cons show ?thesis by auto
  qed
qed simp

lemma is_fence_strip_cr [simp]: "is_fence (strip_cr l) = is_fence l"
  by (simp add: is_fence_def trim_strip_cr)

text \<open>
  After R0 no line of the text is a markdown fence, and R0 invents no line: each line is a
  line of the source, up to a carriage return at its end.
\<close>

theorem strip_fences_leaves_none:
  "set (lines (rule_strip_markdown_fences src))
     \<subseteq> {l. \<not> is_fence l} \<inter> (set (lines src) \<union> strip_cr ` set (lines src))"
proof -
  let ?kept = "filter (\<lambda>l. \<not> is_fence l) (lines src)"
  have "set (lines (unlines ?kept)) \<subseteq> set ?kept \<union> strip_cr ` set ?kept"
    by (rule lines_unlines_subset) (auto dest: lines_no_newline_in)
  then show ?thesis by (fastforce simp: rule_strip_markdown_fences_def)
qed

section \<open>Removal of ranges\<close>

lemma map_of_sort_key: "map_of (sort_key fst (xs :: (nat \<times> nat) list)) = map_of xs"
proof -
  have "map_of (insort_key fst x xs) = (map_of xs)(fst x \<mapsto> snd x)" for x :: "nat \<times> nat" and xs
  proof (induction xs)
    case (Cons y ys)
    then show ?case by (cases "fst x = fst y") (auto simp: fun_upd_twist)
  qed simp
  then show ?thesis by (induction xs) (auto simp: sort_key_def)
qed

lemma map_of_repeat:
  "xs \<noteq> [] \<Longrightarrow> set xs = {x} \<Longrightarrow> map_of (concat (map f xs)) = map_of (f x)"
proof (induction xs)
  case (Cons y ys)
  then show ?case
  proof (cases "ys = []")
    case False
    with Cons have "set ys = {x}" by (metis set_empty2 set_subset_Cons subset_singletonD list.set_intros(1) singletonD)
    with Cons False show ?thesis by (auto simp: map_add_def fun_eq_iff split: option.splits)
  qed (use Cons in auto)
qed simp

lemma drop_ranges_skip:
  "i \<le> e \<Longrightarrow> drop_ranges rs e i ls = drop_ranges rs e e (drop (e - i) ls)"
proof (induction ls arbitrary: i)
  case (Cons l ls)
  show ?case
  proof (cases "i = e")
    case False
    with Cons.prems have "i < e" "e - i = Suc (e - (i + 1))" by linarith+
    with Cons.IH [of "i + 1"] show ?thesis by simp
  qed simp
qed simp

lemma drop_ranges_past:
  "a \<le> i \<Longrightarrow> b \<le> i \<Longrightarrow> drop_ranges rs a i ls = drop_ranges rs b i ls"
proof (induction ls arbitrary: i)
  case (Cons l ls)
  then show ?case by (auto split: option.splits)
qed simp

lemma dup_ranges_from: "(j, e) \<in> set (dup_ranges p ls f i) \<Longrightarrow> i \<le> j"
proof (induction p ls f i rule: dup_ranges.induct)
  case (1 p ls f i)
  show ?case
  proof (cases "i < length ls \<and> p (ls ! i)")
    case True
    then have "i < skip_function_body ls i" by (simp add: skip_function_body_bounds)
    with True 1 show ?thesis
      by (subst (asm) (3) dup_ranges.simps) (cases f; fastforce simp: Let_def)
  next
    case False
    with 1 show ?thesis
      by (subst (asm) (3) dup_ranges.simps) (fastforce split: if_splits)
  qed
qed

lemma dup_ranges_def_line:
  assumes "i < length ls" "p (ls ! i)"
  shows "dup_ranges p ls True i = (i, skip_function_body ls i) # dup_ranges p ls True (skip_function_body ls i)"
    and "dup_ranges p ls False i = dup_ranges p ls True (skip_function_body ls i)"
proof -
  show "dup_ranges p ls True i = (i, skip_function_body ls i) # dup_ranges p ls True (skip_function_body ls i)"
    using assms by (subst dup_ranges.simps) (simp add: Let_def)
  show "dup_ranges p ls False i = dup_ranges p ls True (skip_function_body ls i)"
    using assms by (subst dup_ranges.simps) (simp add: Let_def)
qed

lemma dup_ranges_other_line:
  "i < length ls \<Longrightarrow> \<not> p (ls ! i) \<Longrightarrow> dup_ranges p ls f i = dup_ranges p ls f (i + 1)"
  by (subst dup_ranges.simps) simp

lemma dup_ranges_end: "length ls \<le> i \<Longrightarrow> dup_ranges p ls f i = []"
  by (subst dup_ranges.simps) simp

text \<open>The scan before the first definition records nothing.\<close>

lemma dup_ranges_first:
  "position p (drop i ls) = Some k \<Longrightarrow> i \<le> length ls \<Longrightarrow>
     dup_ranges p ls False i = dup_ranges p ls True (skip_function_body ls (i + k))"
proof (induction k arbitrary: i)
  case 0
  then have "i < length ls" by (cases "i = length ls") auto
  moreover from this 0 have "p (ls ! i)" by (simp add: Cons_nth_drop_Suc [symmetric] split: if_splits)
  ultimately show ?case by (simp add: dup_ranges_def_line)
next
  case (Suc k)
  then have i: "i < length ls" by (cases "i = length ls") auto
  with Suc.prems have "\<not> p (ls ! i)" "position p (drop (i + 1) ls) = Some k"
    by (auto simp: Cons_nth_drop_Suc [symmetric] split: if_splits)
  with i Suc.IH [of "i + 1"] show ?case by (simp add: dup_ranges_other_line)
qed

text \<open>
  The body of a function that starts at line \<open>i\<close>: it ends before the first line \<open>e\<close> at which a brace was opened and
  as many were closed, or with the text.
\<close>

definition closes_body :: "string list \<Rightarrow> bool" where
  "closes_body ls \<longleftrightarrow>
     CHR ''{'' \<in> set (concat ls) \<and> count_list (concat ls) (CHR ''{'') \<le> count_list (concat ls) (CHR ''}'')"

definition body_end :: "string list \<Rightarrow> nat \<Rightarrow> nat \<Rightarrow> bool" where
  "body_end ls i e \<longleftrightarrow>
     i < e \<and> e \<le> length ls \<and> (\<forall>j. i < j \<and> j < e \<longrightarrow> \<not> closes_body (take (j - i) (drop i ls)))
     \<and> (e = length ls \<or> closes_body (take (e - i) (drop i ls)))"

text \<open>The lines from \<open>i\<close> on without the bodies that start with a line of \<open>p\<close>: all others are kept.\<close>

inductive keeps_others :: "(string \<Rightarrow> bool) \<Rightarrow> string list \<Rightarrow> nat \<Rightarrow> string list \<Rightarrow> bool" for p ls where
  at_end: "length ls \<le> i \<Longrightarrow> keeps_others p ls i []"
| kept_line: "i < length ls \<Longrightarrow> \<not> p (ls ! i) \<Longrightarrow> keeps_others p ls (i + 1) rest \<Longrightarrow> keeps_others p ls i (ls ! i # rest)"
| removed_body: "i < length ls \<Longrightarrow> p (ls ! i) \<Longrightarrow> body_end ls i e \<Longrightarrow> keeps_others p ls e rest \<Longrightarrow> keeps_others p ls i rest"

lemma count_braces_eq:
  "count_braces d f l = (d + int (count_list l (CHR ''{'')) - int (count_list l (CHR ''}'')), f \<or> CHR ''{'' \<in> set l)"
  by (induction l arbitrary: d f) auto

text \<open>The scan of a body from the middle, with \<open>d\<close> braces open.\<close>

definition closes_from :: "int \<Rightarrow> bool \<Rightarrow> string list \<Rightarrow> bool" where
  "closes_from d f ls \<longleftrightarrow> (f \<or> CHR ''{'' \<in> set (concat ls))
     \<and> d + int (count_list (concat ls) (CHR ''{'')) \<le> int (count_list (concat ls) (CHR ''}''))"

lemma closes_from_simps [simp]:
  "closes_from d f [] \<longleftrightarrow> f \<and> d \<le> 0"
  "closes_from d f (l # ls) \<longleftrightarrow> (case count_braces d f l of (d', f') \<Rightarrow> closes_from d' f' ls)"
  by (auto simp: closes_from_def count_braces_eq)

lemma closes_body_from: "closes_body ls = closes_from 0 False ls"
  by (simp add: closes_body_def closes_from_def)

lemma skip_body_end:
  "i + length ls = n \<Longrightarrow>
     (\<forall>m. 0 < m \<and> i + m < skip_body ls i n d f \<longrightarrow> \<not> closes_from d f (take m ls))
     \<and> (skip_body ls i n d f = n \<or> closes_from d f (take (skip_body ls i n d f - i) ls))"
proof (induction ls arbitrary: i d f)
  case (Cons l ls)
  obtain d' f' where c: "count_braces d f l = (d', f')" by fastforce
  show ?case
  proof (cases "f' \<and> d' \<le> 0")
    case False
    let ?e = "skip_body ls (i + 1) n d' f'"
    have e: "skip_body (l # ls) i n d f = ?e" using False by (auto simp: c)
    have ih: "0 < m \<Longrightarrow> i + 1 + m < ?e \<Longrightarrow> \<not> closes_from d' f' (take m ls)"
      "?e = n \<or> closes_from d' f' (take (?e - (i + 1)) ls)" for m
      using Cons.IH [of "i + 1" d' f'] Cons.prems by simp_all
    have "\<not> closes_from d f (take m (l # ls))" if "0 < m" "i + m < ?e" for m
      using that ih(1) [of "m - 1"] False by (cases m; cases "m = 1") (auto simp: c)
    moreover have "?e = n \<or> closes_from d f (take (?e - i) (l # ls))"
    proof (cases "?e = n")
      case no: False
      then have "ls \<noteq> []" by auto
      then have "i + 1 < ?e" using skip_body_bounds [of "i + 1" ls n d' f'] Cons.prems by simp
      then have "take (?e - i) (l # ls) = l # take (?e - (i + 1)) ls" by (simp add: take_Cons')
      with ih(2) no show ?thesis by (simp add: c)
    qed simp
    ultimately show ?thesis unfolding e by blast
  qed (auto simp: c)
qed simp

lemma skip_function_body_end:
  assumes "i < length ls"
  shows "body_end ls i (skip_function_body ls i)"
proof -
  let ?e = "skip_function_body ls i"
  have "\<not> closes_body (take (j - i) (drop i ls))" if "i < j" "j < ?e" for j
    using skip_body_end [of i "drop i ls" "length ls" 0 False] assms that
    by (auto simp: closes_body_from skip_function_body_def dest: spec [of _ "j - i"])
  then show ?thesis
    using skip_body_end [of i "drop i ls" "length ls" 0 False] skip_function_body_bounds [OF assms] assms
    by (simp add: body_end_def closes_body_from skip_function_body_def)
qed

text \<open>Dropping the recorded ranges removes the bodies of the definitions and keeps every other line.\<close>

lemma drop_dup_ranges:
  "\<forall>j \<ge> i. map_of rs j = map_of (dup_ranges p ls True i) j \<Longrightarrow>
     keeps_others p ls i (drop_ranges rs 0 i (drop i ls))"
proof (induction "length ls - i" arbitrary: i rule: less_induct)
  case less
  show ?case
  proof (cases "i < length ls")
    case True
    then have drop: "drop i ls = ls ! i # drop (i + 1) ls" by (simp add: Cons_nth_drop_Suc)
    show ?thesis
    proof (cases "p (ls ! i)")
      case def: True
      define e where "e = skip_function_body ls i"
      have e: "i + 1 \<le> e" "e \<le> length ls" using skip_function_body_bounds [OF True] by (simp_all add: e_def)
      have rs: "dup_ranges p ls True i = (i, e) # dup_ranges p ls True e"
        using True def by (simp add: dup_ranges_def_line e_def)
      with less.prems have "map_of rs i = Some e" by simp
      then have "drop_ranges rs 0 i (drop i ls) = drop_ranges rs e (i + 1) (drop (i + 1) ls)"
        by (simp add: drop)
      also have "\<dots> = drop_ranges rs e e (drop e ls)" using drop_ranges_skip [OF e(1)] e by simp
      also have "\<dots> = drop_ranges rs 0 e (drop e ls)" by (rule drop_ranges_past) simp_all
      finally have step: "drop_ranges rs 0 i (drop i ls) = drop_ranges rs 0 e (drop e ls)" .
      have "\<forall>j \<ge> e. map_of rs j = map_of (dup_ranges p ls True e) j"
        using less.prems rs e by simp
      with less.hyps [of e] True e have "keeps_others p ls e (drop_ranges rs 0 e (drop e ls))" by simp
      with step skip_function_body_end [OF True] show ?thesis
        unfolding e_def [symmetric] by (auto intro: removed_body True def)
    next
      case other: False
      have rs: "dup_ranges p ls True i = dup_ranges p ls True (i + 1)"
        using True other by (rule dup_ranges_other_line)
      have "map_of (dup_ranges p ls True (i + 1)) i = None"
        using dup_ranges_from by (fastforce simp: map_of_eq_None_iff)
      with less.prems rs have none: "map_of rs i = None" by simp
      have "\<forall>j \<ge> i + 1. map_of rs j = map_of (dup_ranges p ls True (i + 1)) j"
        using less.prems rs by simp
      with less.hyps [of "i + 1"] True
      have "keeps_others p ls (i + 1) (drop_ranges rs 0 (i + 1) (drop (i + 1) ls))" by simp
      with none other True show ?thesis by (auto simp: drop intro: kept_line)
    qed
  qed (auto intro: at_end)
qed

lemma keeps_others_none: "keeps_others p ls i rest \<Longrightarrow> l \<in> set rest \<Longrightarrow> \<not> p l"
  by (induction rule: keeps_others.induct) auto

lemma dup_ranges_def_at: "(j, e) \<in> set (dup_ranges p ls f i) \<Longrightarrow> j < length ls \<and> p (ls ! j)"
proof (induction p ls f i rule: dup_ranges.induct)
  case (1 p ls f i)
  show ?case
  proof (cases "i < length ls \<and> p (ls ! i)")
    case True
    with 1 show ?thesis by (subst (asm) (3) dup_ranges.simps) (cases f; fastforce simp: Let_def)
  next
    case False
    with 1 show ?thesis by (subst (asm) (3) dup_ranges.simps) (fastforce split: if_splits)
  qed
qed

lemma drop_ranges_keep:
  "\<forall>j. i \<le> j \<and> j < i + k \<longrightarrow> map_of rs j = None \<Longrightarrow> k \<le> length ls \<Longrightarrow>
     drop_ranges rs 0 i ls = take k ls @ drop_ranges rs 0 (i + k) (drop k ls)"
proof (induction k arbitrary: i ls)
  case (Suc k)
  then obtain l ls' where ls: "ls = l # ls'" by (cases ls) auto
  from Suc.prems have "map_of rs i = None" by simp
  moreover have "drop_ranges rs 0 (i + 1) ls' = take k ls' @ drop_ranges rs 0 (i + 1 + k) (drop k ls')"
    using Suc.prems by (intro Suc.IH) (simp_all add: ls)
  ultimately show ?case by (simp add: ls)
qed simp

text \<open>
  C19: Deduplication of one function: when the errors name only \<open>name\<close>, the text up to the end of its first
  definition is kept as it is; of the later lines exactly the bodies of further definitions of \<open>name\<close> are removed, each
  from its signature to the line that closes its last brace, and every other line is kept in order. Without a further
  definition the text is not changed.
\<close>

theorem dedup_keeps_first_definition:
  assumes "set (names_to_dedup re errors) = {name}"
    and "position (defines_fn re name) (lines src) = Some k"
  shows "\<exists>e rest. body_end (lines src) k e \<and> keeps_others (defines_fn re name) (lines src) e rest
    \<and> (\<forall>l \<in> set rest. \<not> defines_fn re name l)
    \<and> rule_dedup_functions re src errors
        = (if rest = drop e (lines src) then src else unlines (take e (lines src) @ rest))"
proof -
  let ?ls = "lines src" and ?p = "defines_fn re name" and ?e = "skip_function_body (lines src) k"
  let ?names = "names_to_dedup re errors"
  define ranges where "ranges = concat (map (\<lambda>n. dup_ranges (defines_fn re n) ?ls False 0) ?names)"
  have ne: "?names \<noteq> []" by (metis assms(1) empty_set insert_not_empty)
  have "filter dup_error errors = [] \<Longrightarrow> ?names = []"
    by (simp add: names_to_dedup_def map_filter_simps)
  with ne have err: "filter dup_error errors \<noteq> []" by blast
  have k: "k < length ?ls" using position_Some [OF assms(2)] by simp
  then have e: "?e \<le> length ?ls" by (rule skip_function_body_bounds)
  have first: "dup_ranges ?p ?ls False 0 = dup_ranges ?p ?ls True ?e"
    using dup_ranges_first [of ?p 0 ?ls k] assms(2) by simp
  have lookup: "map_of (sort_key fst ranges) = map_of (dup_ranges ?p ?ls True ?e)"
    unfolding map_of_sort_key ranges_def map_of_repeat [OF ne assms(1)] first ..
  have before: "map_of (sort_key fst ranges) j = None" if "j < ?e" for j
    unfolding lookup using dup_ranges_from that by (fastforce simp: map_of_eq_None_iff)
  define rest where "rest = drop_ranges (sort_key fst ranges) 0 ?e (drop ?e ?ls)"
  have removed: "remove_ranges ?ls ranges = take ?e ?ls @ rest"
    unfolding remove_ranges_def rest_def using drop_ranges_keep [of 0 ?e _ ?ls] before e by simp
  have rest: "keeps_others ?p ?ls ?e rest"
    unfolding rest_def by (rule drop_dup_ranges) (simp add: lookup)
  have out: "rule_dedup_functions re src errors = (if ranges = [] then src else unlines (take ?e ?ls @ rest))"
    unfolding rule_dedup_functions_def Let_def ranges_def [symmetric] removed
    using err ne by (simp only: if_False)
  have same: "ranges = [] \<longleftrightarrow> rest = drop ?e ?ls"
  proof
    assume none: "ranges = []"
    have "drop_ranges [] 0 i xs = xs" for i and xs :: "string list"
      by (induction xs arbitrary: i) auto
    then show "rest = drop ?e ?ls" by (simp add: rest_def none)
  next
    assume same: "rest = drop ?e ?ls"
    show "ranges = []"
    proof (rule ccontr)
      assume "ranges \<noteq> []"
      then have "map_of (sort_key fst ranges) \<noteq> Map.empty" by (simp add: map_of_sort_key)
      then have "dup_ranges ?p ?ls True ?e \<noteq> []" unfolding lookup by auto
      then obtain j e' where "(j, e') \<in> set (dup_ranges ?p ?ls True ?e)"
        by (cases "dup_ranges ?p ?ls True ?e") auto
      then have j: "?e \<le> j" "j < length ?ls" "?p (?ls ! j)" using dup_ranges_from dup_ranges_def_at by blast+
      then have "?ls ! j \<in> set (drop ?e ?ls)"
        unfolding in_set_conv_nth by (intro exI [of _ "j - ?e"]) simp
      with j(3) rest same show False using keeps_others_none by blast
    qed
  qed
  show ?thesis
    by (rule exI [of _ ?e], rule exI [of _ rest], intro conjI ballI skip_function_body_end [OF k] rest
        keeps_others_none [OF rest] out [unfolded same])
qed

section \<open>Two truncated signatures\<close>

text \<open>
  R12 cuts the output at an index of the source. After a first stub the two differ, so a second
  one can remove complete items before the signature it repairs.
\<close>

definition two_boundaries :: "string list" where
  "two_boundaries =
     [''struct S;'', ''pub fn a('', ''// --- Module: m2 ---'', ''const A: u8 = 1;'', ''const B: u8 = 2;'',
      ''pub fn b('', ''// --- Module: m3 ---'']"

lemma boundary_fix_drops_lines:
  "''const A: u8 = 1;'' \<in> set two_boundaries
   \<and> ''const A: u8 = 1;'' \<notin> set (foldl (boundary_step two_boundaries) [] [0..<length two_boundaries])"
  by code_simp

section \<open>Example\<close>

text \<open>An engine that answers the two patterns of R2 for the function \<open>f\<close>, for the example below.\<close>

definition example_engine :: regex_engine where
  "example_engine =
     \<lparr>re_is_match = (\<lambda>pat t. starts_with t ''fn f(''), re_find = (\<lambda>pat t. None),
      re_captures = (\<lambda>pat t. if contains t ''name `f` is'' then Some \<lparr>cap_index = (\<lambda>n. ''f''), cap_name = (\<lambda>n. None)\<rparr> else None),
      re_captures_iter = (\<lambda>pat t. []), re_replace = (\<lambda>pat t f. t), re_replace_all = (\<lambda>pat t f. t), re_escape = (\<lambda>s. s)\<rparr>"

definition example_error :: compiler_error where
  "example_error = \<lparr>code = ''E0428'', err_line = 2, message = ''name `f` is defined multiple times''\<rparr>"

definition example_source :: string where
  "example_source = unlines [''fn f() {}'', ''fn g() {}'', ''fn f() { 1 }'', ''fn h() {}'']"

lemma example_lines: "lines example_source = [''fn f() {}'', ''fn g() {}'', ''fn f() { 1 }'', ''fn h() {}'']"
  unfolding example_source_def
  by (rule lines_unlines) (simp_all add: plain_line_def newline_def cr_def)

lemma body_end_unique: "body_end ls i e \<Longrightarrow> body_end ls i e' \<Longrightarrow> e = e'"
  by (rule linorder_cases [of e e']) (auto simp: body_end_def)

lemma body_end_skip: "i < length ls \<Longrightarrow> body_end ls i e \<longleftrightarrow> e = skip_function_body ls i"
  using skip_function_body_end body_end_unique by blast

lemma keeps_others_step:
  "length ls \<le> i \<Longrightarrow> keeps_others p ls i rest \<longleftrightarrow> rest = []"
  "i < length ls \<Longrightarrow> \<not> p (ls ! i) \<Longrightarrow>
     keeps_others p ls i rest \<longleftrightarrow> (\<exists>r. rest = ls ! i # r \<and> keeps_others p ls (i + 1) r)"
  "i < length ls \<Longrightarrow> p (ls ! i) \<Longrightarrow>
     keeps_others p ls i rest \<longleftrightarrow> keeps_others p ls (skip_function_body ls i) rest"
proof -
  show "length ls \<le> i \<Longrightarrow> keeps_others p ls i rest \<longleftrightarrow> rest = []"
    by (subst keeps_others.simps) auto
  show "i < length ls \<Longrightarrow> \<not> p (ls ! i) \<Longrightarrow>
     keeps_others p ls i rest \<longleftrightarrow> (\<exists>r. rest = ls ! i # r \<and> keeps_others p ls (i + 1) r)"
    by (subst keeps_others.simps) auto
  assume i: "i < length ls" "p (ls ! i)"
  then show "keeps_others p ls i rest \<longleftrightarrow> keeps_others p ls (skip_function_body ls i) rest"
    by (subst keeps_others.simps) (auto simp: body_end_skip [OF i(1)])
qed

theorem dedup_keeps_first_definition_witness:
  "rule_dedup_functions example_engine example_source [example_error]
     = unlines [''fn f() {}'', ''fn g() {}'', ''fn h() {}'']"
proof -
  let ?p = "defines_fn example_engine ''f''"
  have names: "set (names_to_dedup example_engine [example_error]) = {''f''}"
    by (simp add: names_to_dedup_def example_error_def example_engine_def dup_error_def map_filter_simps)
  have p: "?p ''fn f() {}''" "\<not> ?p ''fn g() {}''" "?p ''fn f() { 1 }''" "\<not> ?p ''fn h() {}''"
    by (simp_all add: defines_fn_def example_engine_def trim_def trim_start_def trim_end_def is_whitespace_def)
  have first: "position ?p (lines example_source) = Some 0" using p by (simp add: example_lines)
  have body: "skip_function_body (lines example_source) 0 = 1" "skip_function_body (lines example_source) 2 = 3"
    by (simp_all add: example_lines skip_function_body_def)
  from dedup_keeps_first_definition [OF names first] obtain e rest where
    e: "body_end (lines example_source) 0 e" and rest: "keeps_others ?p (lines example_source) e rest"
    and out: "rule_dedup_functions example_engine example_source [example_error]
        = (if rest = drop e (lines example_source) then example_source else unlines (take e (lines example_source) @ rest))"
    by blast
  have one: "e = 1" using e body_end_skip [of 0 "lines example_source"] body by (simp add: example_lines)
  have "rest = [''fn g() {}'', ''fn h() {}'']"
    using rest [unfolded one] p body by (auto simp: example_lines keeps_others_step numeral_2_eq_2)
  with out one show ?thesis by (simp add: example_lines)
qed

end
