(* ===== verification/Surgical_Repair.thy ===== *)
theory Surgical_Repair
  imports Repair_Rules C_Ast
begin

text \<open>
  Function-level repair (\<open>crates/noricum-core/src/surgical_repair.rs\<close>): the function around an
  error line is extracted, its context is gathered, and the repaired function is spliced back.
\<close>

section \<open>Locating functions\<close>

definition fn_decl_pattern :: string where
  "fn_decl_pattern = raw ''^%s*(?:pub%s+)?(?:async%s+)?fn%s+(%w+)''"

definition fn_decl :: "regex_engine \<Rightarrow> string \<Rightarrow> string option" where
  "fn_decl re line = map_option (\<lambda>caps. cap_index caps 1) (re_captures re fn_decl_pattern line)"

fun closing_from :: "nat \<Rightarrow> string list \<Rightarrow> nat \<Rightarrow> int \<Rightarrow> bool \<Rightarrow> nat" where
  "closing_from start_idx [] i brace_depth found_open = start_idx"
| "closing_from start_idx (l # ls) i brace_depth found_open =
     (case count_braces brace_depth found_open l of (depth', found') \<Rightarrow>
        if found' \<and> depth' = 0 then i else closing_from start_idx ls (i + 1) depth' found')"

definition find_closing_brace :: "string list \<Rightarrow> nat \<Rightarrow> nat" where
  "find_closing_brace ls start_idx = closing_from start_idx (drop start_idx ls) start_idx 0 False"

lemma closing_from_bounds:
  "closing_from s ls i d f = s \<or> (i \<le> closing_from s ls i d f \<and> closing_from s ls i d f < i + length ls)"
proof (induction s ls i d f rule: closing_from.induct)
  case (2 s l ls i d f)
  obtain d' f' where c: "count_braces d f l = (d', f')" by fastforce
  with 2 show ?case by fastforce
qed simp

lemma find_closing_brace_bounds:
  assumes "s < length ls"
  shows "s \<le> find_closing_brace ls s" "find_closing_brace ls s < length ls"
  using closing_from_bounds [of s "drop s ls" s 0 False] assms
  by (auto simp: find_closing_brace_def)

text \<open>The search backwards from a line for a declaration, and the block it opens.\<close>

fun decl_above :: "regex_engine \<Rightarrow> string list \<Rightarrow> nat \<Rightarrow> (nat \<times> string) option" where
  "decl_above re ls 0 = map_option (Pair 0) (fn_decl re (ls ! 0))"
| "decl_above re ls (Suc k) =
     (case fn_decl re (ls ! Suc k) of Some n \<Rightarrow> Some (Suc k, n) | None \<Rightarrow> decl_above re ls k)"

definition line_range :: "string list \<Rightarrow> nat \<Rightarrow> nat \<Rightarrow> string" where
  "line_range ls a b = unlines (take (b + 1 - a) (drop a ls))"

definition extract_function_at_line :: "regex_engine \<Rightarrow> string \<Rightarrow> nat \<Rightarrow> (string \<times> string) option" where
  "extract_function_at_line re src target_line =
     (let ls = lines src; target_idx = target_line - 1
      in if target_line = 0 \<or> length ls < target_line then None
         else (case decl_above re ls target_idx of
                 None \<Rightarrow> None
               | Some (first_line, fname) \<Rightarrow>
                   (let last_line = find_closing_brace ls first_line
                    in if last_line < target_idx then None
                       else Some (fname, line_range ls first_line last_line))))"

definition fn_position :: "regex_engine \<Rightarrow> string list \<Rightarrow> string \<Rightarrow> nat option" where
  "fn_position re ls fname = position (\<lambda>line. fn_decl re line = Some fname) ls"

section \<open>Context of a function\<close>

definition type_builtins :: "string list" where
  "type_builtins =
     [''Some'', ''None'', ''Ok'', ''Err'', ''Self'', ''String'', ''Vec'', ''Box'', ''Option'', ''Result'',
      ''HashMap'', ''HashSet'', ''BTreeMap'', ''Arc'', ''Rc'', ''Mutex'', ''RefCell'', ''Cow'', ''Pin'',
      ''Future'', ''Iterator'', ''Display'', ''Debug'', ''Clone'', ''Copy'', ''Default'', ''From'', ''Into'',
      ''Send'', ''Sync'', ''Sized'', ''Unpin'', ''Drop'', ''Fn'', ''FnMut'', ''FnOnce'', ''Ord'', ''Eq'',
      ''PartialOrd'', ''PartialEq'', ''Hash'', ''Serialize'', ''Deserialize'']"

definition not_calls :: "string list" where
  "not_calls =
     [''if'', ''for'', ''while'', ''match'', ''loop'', ''return'', ''let'', ''mut'', ''fn'', ''pub'', ''use'',
      ''impl'', ''struct'', ''enum'', ''type'', ''where'', ''as'', ''in'', ''ref'', ''self'', ''super'',
      ''crate'', ''mod'', ''const'', ''static'', ''unsafe'', ''extern'', ''async'', ''await'', ''move'',
      ''println'', ''eprintln'', ''format'', ''write'', ''writeln'', ''vec'', ''todo'', ''unimplemented'',
      ''panic'', ''assert'', ''assert_eq'', ''assert_ne'', ''debug_assert'', ''Some'', ''None'', ''Ok'', ''Err'']"

definition type_pattern :: string where "type_pattern = raw ''%b([A-Z]%w+)%b''"
definition call_pattern :: string where "call_pattern = raw ''%b(%w+)%s*%(''"
definition struct_enum_pattern :: string where
  "struct_enum_pattern = raw ''^%s*(?:pub%s+)?(?:struct|enum)%s+(%w+)''"

definition captured_words :: "regex_engine \<Rightarrow> string \<Rightarrow> string \<Rightarrow> string list" where
  "captured_words re pat text = sort_dedup (map (\<lambda>c. cap_index c 1) (re_captures_iter re pat text))"

fun signature_lines :: "string list \<Rightarrow> string" where
  "signature_lines [] = []"
| "signature_lines (l # ls) =
     (if CHR ''{'' \<in> set l then l else l @ [newline] @ signature_lines ls)"

definition signature_text :: "string list \<Rightarrow> string" where
  "signature_text ls =
     (let sig = signature_lines ls
      in case find_char sig (CHR ''{'') of Some brace_pos \<Rightarrow> trim_end (take brace_pos sig) | None \<Rightarrow> sig)"

definition gather_context :: "regex_engine \<Rightarrow> string \<Rightarrow> string \<Rightarrow> string" where
  "gather_context re src fname =
     (let ls = lines src
      in case fn_position re ls fname of
           None \<Rightarrow> []
         | Some first_line \<Rightarrow>
             (let last_line = find_closing_brace ls first_line
              in if last_line = first_line then []
                 else (let fbody = line_range ls first_line last_line;
                           referenced_types = filter (\<lambda>t. t \<notin> set type_builtins) (captured_words re type_pattern fbody);
                           called_fns = filter (\<lambda>f. f \<noteq> fname \<and> f \<notin> set not_calls) (captured_words re call_pattern fbody);
                           defs = List.map_filter (\<lambda>(i, line).
                                    case re_captures re struct_enum_pattern line of
                                      Some caps \<Rightarrow> if cap_index caps 1 \<in> set referenced_types
                                                   then Some (line_range ls i (find_closing_brace ls i)) else None
                                    | None \<Rightarrow> None) (enumerate 0 ls);
                           sigs = List.map_filter (\<lambda>(i, line).
                                    case fn_decl re line of
                                      Some name \<Rightarrow> if name \<in> set called_fns
                                                   then Some (signature_text (drop i ls) @ '';'') else None
                                    | None \<Rightarrow> None) (enumerate 0 ls)
                       in join [newline, newline] (defs @ sigs))))"

section \<open>Splicing\<close>

definition splice_function :: "regex_engine \<Rightarrow> string \<Rightarrow> string \<Rightarrow> string \<Rightarrow> string" where
  "splice_function re src fname new_fn =
     (let ls = lines src
      in case fn_position re ls fname of
           None \<Rightarrow> src
         | Some first_line \<Rightarrow>
             unlines (take first_line ls @ [trim_end new_fn] @ drop (find_closing_brace ls first_line + 1) ls))"

lemma decl_above_Some:
  "decl_above re ls i = Some (s, n) \<Longrightarrow> s \<le> i \<and> fn_decl re (ls ! s) = Some n"
  by (induction re ls i rule: decl_above.induct) (auto split: option.splits)

lemma extract_function_Some:
  assumes "extract_function_at_line re src t = Some (n, body)"
  obtains s where "0 < t" "t \<le> length (lines src)" "s \<le> t - 1" "fn_decl re (lines src ! s) = Some n"
    "t - 1 \<le> find_closing_brace (lines src) s"
    "body = line_range (lines src) s (find_closing_brace (lines src) s)"
  using assms
  by (auto simp: extract_function_at_line_def Let_def split: option.splits if_splits dest: decl_above_Some)

lemma unlines_split3:
  assumes "a \<le> b" "b < length ls"
  shows "unlines (take a ls @ [line_range ls a b] @ drop (b + 1) ls) = unlines ls"
proof -
  define m where "m = take (b + 1 - a) (drop a ls)"
  have m: "m \<noteq> []" using assms by (simp add: m_def)
  have "ls = take a ls @ drop a ls" by simp
  also have "drop a ls = m @ drop (b + 1) ls"
    using assms append_take_drop_id [of "b + 1 - a" "drop a ls"] by (simp add: m_def)
  finally have ls: "ls = take a ls @ m @ drop (b + 1) ls" .
  have join1: "join [newline] (x @ [join [newline] m] @ y) = join [newline] (x @ m @ y)" for x y
    using m by (cases "x = []"; cases "y = []") (simp_all add: join_append join_Cons)
  show ?thesis unfolding line_range_def m_def [symmetric] join1 using ls by simp
qed

lemma position_unique:
  "length (filter p xs) = 1 \<Longrightarrow> i < length xs \<Longrightarrow> p (xs ! i) \<Longrightarrow> position p xs = Some i"
proof (induction xs arbitrary: i)
  case (Cons x xs)
  show ?case
  proof (cases i)
    case 0
    with Cons.prems show ?thesis by simp
  next
    case (Suc k)
    with Cons.prems have "p (xs ! k)" "k < length xs" by simp_all
    then have "xs ! k \<in> set (filter p xs)" by simp
    then have "\<not> p x" using Cons.prems by (auto simp: filter_empty_conv)
    with Suc Cons show ?thesis by simp
  qed
qed simp

text \<open>
  C16: Surgical repair is local. When a function is extracted at an error line and its name is
  declared once, splicing any text back keeps every line before and after a range that holds
  the error line, and splicing the extracted text back unchanged restores the source.
\<close>

theorem splice_extract_local:
  assumes "extract_function_at_line re src t = Some (n, body)"
    and "length (filter (\<lambda>l. fn_decl re l = Some n) (lines src)) = 1"
  shows "\<exists>a b. a < t \<and> t \<le> b \<and> b \<le> length (lines src)
      \<and> body = unlines (take (b - a) (drop a (lines src)))
      \<and> (\<forall>new. splice_function re src n new = unlines (take a (lines src) @ [trim_end new] @ drop b (lines src)))
      \<and> (trim_end body = body \<longrightarrow> splice_function re src n body = unlines (lines src))"
proof -
  let ?ls = "lines src"
  obtain s where s: "0 < t" "t \<le> length ?ls" "s \<le> t - 1" "fn_decl re (?ls ! s) = Some n"
    "t - 1 \<le> find_closing_brace ?ls s" "body = line_range ?ls s (find_closing_brace ?ls s)"
    using assms(1) by (rule extract_function_Some)
  let ?e = "find_closing_brace ?ls s"
  have sl: "s < length ?ls" using s by linarith
  note bounds = find_closing_brace_bounds [OF sl]
  have pos: "fn_position re ?ls n = Some s"
    unfolding fn_position_def using assms(2) sl s(4) by (intro position_unique) simp_all
  have splice: "splice_function re src n new = unlines (take s ?ls @ [trim_end new] @ drop (?e + 1) ?ls)" for new
    by (simp add: splice_function_def pos Let_def)
  have restore: "trim_end body = body \<Longrightarrow> splice_function re src n body = unlines ?ls"
    unfolding splice using unlines_split3 [OF bounds] s(6) by simp
  show ?thesis
  proof (intro exI conjI)
    show "s < t" "t \<le> ?e + 1" "?e + 1 \<le> length ?ls" using s bounds by linarith+
    show "body = unlines (take (?e + 1 - s) (drop s ?ls))" using s(6) by (simp add: line_range_def)
    show "\<forall>new. splice_function re src n new = unlines (take s ?ls @ [trim_end new] @ drop (?e + 1) ?ls)"
      using splice by blast
    show "trim_end body = body \<longrightarrow> splice_function re src n body = unlines ?ls" using restore by blast
  qed
qed

section \<open>Examples\<close>

text \<open>An engine that recognises the declarations of \<open>new\<close> and \<open>run\<close>.\<close>

definition decl_engine :: regex_engine where
  "decl_engine = example_engine\<lparr>re_captures := (\<lambda>pat t.
     if contains t ''fn new'' then Some \<lparr>cap_index = (\<lambda>k. ''new''), cap_name = (\<lambda>k. None)\<rparr>
     else if contains t ''fn run'' then Some \<lparr>cap_index = (\<lambda>k. ''run''), cap_name = (\<lambda>k. None)\<rparr>
     else None)\<rparr>"

definition two_impls :: string where
  "two_impls = unlines
     [''impl A {'', ''fn new() -> A {'', ''A'', ''}'', ''}'',
      ''impl B {'', ''fn new() -> B {'', ''bad'', ''}'', ''fn run() {'', ''bad'', ''}'', ''}'']"

theorem splice_extract_local_witness:
  "\<exists>a b. a < 11 \<and> 11 \<le> b
     \<and> (\<forall>new. splice_function decl_engine two_impls ''run'' new
           = unlines (take a (lines two_impls) @ [trim_end new] @ drop b (lines two_impls)))"
proof -
  have "extract_function_at_line decl_engine two_impls 11 = Some (''run'', unlines [''fn run() {'', ''bad'', ''}''])"
    by code_simp
  moreover have "length (filter (\<lambda>l. fn_decl decl_engine l = Some ''run'') (lines two_impls)) = 1"
    by code_simp
  ultimately show ?thesis using splice_extract_local by blast
qed

text \<open>
  The name alone does not identify a method: the function extracted at line 8 is the second
  \<open>new\<close>, but the splice replaces the first one.
\<close>

lemma splice_replaces_other_method:
  "extract_function_at_line decl_engine two_impls 8 = Some (''new'', unlines [''fn new() -> B {'', ''bad'', ''}''])
   \<and> take 5 (lines (splice_function decl_engine two_impls ''new'' ''fn new() -> B { B }''))
       = [''impl A {'', ''fn new() -> B { B }'', ''}'', ''impl B {'', ''fn new() -> B {'']"
  by code_simp

end
