(* ===== verification/Assembly.thy ===== *)
theory Assembly
  imports Surgical_Repair Validation "HOL-Library.Product_Lexorder"
begin

text \<open>
  Assembly of module outputs (\<open>crates/noricum-core/src/assembly.rs\<close>): modules that were migrated
  one by one are joined into one source, with shared \<open>use\<close> statements merged and type definitions
  kept once. A module output is its name, its code and whether it compiles.
\<close>

type_synonym module_output = "string \<times> string \<times> bool"

section \<open>Validation in context\<close>

definition build_assembly_context :: "module_output list \<Rightarrow> string" where
  "build_assembly_context outs =
     (let compilable = map (fst \<circ> snd) (filter (snd \<circ> snd) outs)
      in if compilable = [] then [] else join [newline, newline] compilable)"

definition module_header :: "string \<Rightarrow> string" where
  "module_header mod_name = ''// --- Module: '' @ mod_name @ '' ---'' @ [newline]"

definition validate_module_with_assembly ::
  "'exe workbench \<Rightarrow> function_unit \<Rightarrow> string \<Rightarrow> module_output list \<Rightarrow> u32
   \<Rightarrow> (validation_error, validation_result) result" where
  "validate_module_with_assembly wb mod_unit mod_name outs threshold =
     (let context = build_assembly_context outs
      in if context = [] then validate_with_threshold wb mod_unit threshold
         else validate_with_threshold wb
                (mod_unit\<lparr>rust_output := Some (context @ [newline, newline] @ module_header mod_name
                                               @ unwrap_or (rust_output mod_unit) [])\<rparr>) threshold)"

section \<open>Definitions and blocks\<close>

definition definition_prefixes :: "string list" where
  "definition_prefixes =
     [''pub struct '', ''struct '', ''pub enum '', ''enum '', ''pub const '', ''const '', ''pub type '', ''type '']"

definition name_after :: "string \<Rightarrow> string \<Rightarrow> string option" where
  "name_after line pre =
     (case strip_prefix line pre of
        None \<Rightarrow> None
      | Some rest \<Rightarrow> (let name = takeWhile is_word_char rest in if name = [] then None else Some name))"

definition extract_definition_name :: "string \<Rightarrow> string option" where
  "extract_definition_name line = first_some (map (name_after line) definition_prefixes)"

definition extract_impl_target :: "string \<Rightarrow> string option" where
  "extract_impl_target line =
     (let trimmed = trim line
      in if \<not> starts_with trimmed ''impl '' then None
         else (let rest = drop 5 trimmed;
                   for_name = (case find_str rest '' for '' of
                                 None \<Rightarrow> None
                               | Some for_pos \<Rightarrow>
                                   (let name = takeWhile is_word_char (drop (for_pos + 5) rest)
                                    in if name = [] then None else Some name));
                   name = takeWhile is_word_char rest
               in case for_name of Some n \<Rightarrow> Some n
                  | None \<Rightarrow> if name = [] then None else Some name))"

definition net_braces :: "string \<Rightarrow> int" where
  "net_braces l = fst (count_braces 0 False l)"

fun skip_depth :: "string list \<Rightarrow> nat \<Rightarrow> int \<Rightarrow> nat" where
  "skip_depth [] i depth = i"
| "skip_depth (l # ls) i depth =
     (if depth \<le> 0 then i else skip_depth ls (i + 1) (depth + net_braces l))"

definition skip_braced_block :: "string list \<Rightarrow> nat \<Rightarrow> nat" where
  "skip_braced_block ls start =
     (let depth = net_braces (ls ! start); i = start + 1
      in if depth \<le> 0 then i else skip_depth (drop i ls) i depth)"

lemma skip_depth_ge: "i \<le> skip_depth ls i d"
  by (induction ls i d rule: skip_depth.induct) (auto intro: order.trans [OF _ _])

lemma skip_braced_block_gt: "i < skip_braced_block ls i"
proof -
  have "Suc i \<le> skip_depth xs (Suc i) d" for xs d by (rule skip_depth_ge)
  then have "i < skip_depth xs (Suc i) d" for xs d by (simp add: Suc_le_eq)
  then show ?thesis by (simp add: skip_braced_block_def Let_def)
qed

definition trim_empty_lines :: "string list \<Rightarrow> string list" where
  "trim_empty_lines ls = rev (dropWhile is_blank (rev (dropWhile is_blank ls)))"

section \<open>Deduplication of a module\<close>

text \<open>
  The loop over the lines of a module, with the \<open>use\<close> statements and the names seen so far. The
  test of \<open>impl\<close> targets keeps the line in either case.
\<close>

function dedup_from :: "string list \<Rightarrow> nat \<Rightarrow> string list \<Rightarrow> string set \<Rightarrow> string list \<times> string list \<times> string set" where
  "dedup_from ls i all_uses defined_types =
     (if i < length ls then
        (let trimmed = trim (ls ! i)
         in if starts_with trimmed ''use '' \<and> ends_with trimmed '';'' then
              dedup_from ls (i + 1)
                (if trimmed \<notin> set all_uses then all_uses @ [trimmed] else all_uses) defined_types
            else (case extract_definition_name trimmed of
                    Some tname \<Rightarrow>
                      if tname \<in> defined_types then
                        dedup_from ls (skip_braced_block ls i) all_uses defined_types
                      else (case dedup_from ls (i + 1) all_uses (insert tname defined_types) of
                              (out, rest) \<Rightarrow> (ls ! i # out, rest))
                  | None \<Rightarrow>
                      (case dedup_from ls (i + 1) all_uses defined_types of
                         (out, rest) \<Rightarrow> (ls ! i # out, rest))))
      else ([], all_uses, defined_types))"
  by pat_completeness auto
termination
  by (relation "measure (\<lambda>(ls, i, u, d). length ls - i)")
     (auto intro: diff_less_mono2 skip_braced_block_gt)

declare dedup_from.simps [simp del]

definition dedup_module_definitions ::
  "string \<Rightarrow> string list \<Rightarrow> string set \<Rightarrow> string list \<times> string list \<times> string set" where
  "dedup_module_definitions rust_code all_uses defined_types = dedup_from (lines rust_code) 0 all_uses defined_types"

section \<open>Merging imports\<close>

definition brace_use_pattern :: string where
  "brace_use_pattern = raw ''^use%s+(?P<path>[^{;]+)::%{(?P<items>[^}]+)%};$''"

definition simple_use_pattern :: string where
  "simple_use_pattern = raw ''^use%s+(?P<full>[^{]+);$''"

text \<open>The ordered map from paths to ordered sets of items, and the ordered set of simple imports.\<close>

fun insert_item :: "string \<Rightarrow> string list \<Rightarrow> string list" where
  "insert_item x [] = [x]"
| "insert_item x (y # ys) = (if x < y then x # y # ys else if x = y then y # ys else y # insert_item x ys)"

fun entry_items :: "string \<Rightarrow> string list \<Rightarrow> (string \<times> string list) list \<Rightarrow> (string \<times> string list) list" where
  "entry_items path items [] = [(path, fold insert_item items [])]"
| "entry_items path items ((p, its) # gs) =
     (if path < p then (path, fold insert_item items []) # (p, its) # gs
      else if path = p then (p, fold insert_item items its) # gs
      else (p, its) # entry_items path items gs)"

definition add_use ::
  "regex_engine \<Rightarrow> string \<Rightarrow> (string \<times> string list) list \<times> string list \<Rightarrow> (string \<times> string list) list \<times> string list" where
  "add_use re u st =
     (let trimmed = trim u; (groups, simple_uses) = st
      in case re_captures re brace_use_pattern trimmed of
           Some caps \<Rightarrow>
             (entry_items (trim (cap_named caps ''path''))
                (filter (\<lambda>s. s \<noteq> []) (map trim (split_char (CHR '','') (cap_named caps ''items'')))) groups,
              simple_uses)
         | None \<Rightarrow>
             if re_is_match re simple_use_pattern trimmed then (groups, insert_item trimmed simple_uses)
             else (groups, simple_uses))"

definition brace_use :: "string \<times> string list \<Rightarrow> string" where
  "brace_use g =
     ''use '' @ fst g @ ''::{'' @ join '', '' (sort_key (\<lambda>a. (a \<noteq> ''self'', a)) (snd g)) @ ''};''"

definition covered_use :: "string \<Rightarrow> string \<times> string list \<Rightarrow> bool" where
  "covered_use s g =
     (case strip_prefix s (''use '' @ fst g @ ''::'') of
        Some rest \<Rightarrow> trim (trim_end_matches (\<lambda>c. c = CHR '';'') rest) \<in> set (snd g)
      | None \<Rightarrow> False)"

definition merge_use_statements :: "regex_engine \<Rightarrow> string list \<Rightarrow> string list" where
  "merge_use_statements re uses =
     (let (groups, simple_uses) = fold (add_use re) uses ([], [])
      in sort (map brace_use groups @ filter (\<lambda>s. \<not> list_ex (covered_use s) groups) simple_uses))"

section \<open>Assembly\<close>

definition contract_names :: "string option \<Rightarrow> string set" where
  "contract_names contract =
     (case contract of None \<Rightarrow> {}
      | Some c \<Rightarrow> set (List.map_filter (\<lambda>l. extract_definition_name (trim l)) (lines c)))"

definition contract_block :: "string option \<Rightarrow> string" where
  "contract_block contract =
     (case contract of None \<Rightarrow> []
      | Some c \<Rightarrow> ''// === P33: Type Contract (shared types) ==='' @ [newline] @ c @ [newline]
                  @ ''// === End Type Contract ==='' @ [newline, newline])"

text \<open>The loop over the modules: the code parts and the imports collected.\<close>

fun assemble_parts :: "module_output list \<Rightarrow> string list \<Rightarrow> string set \<Rightarrow> string list \<times> string list" where
  "assemble_parts [] all_uses defined_types = ([], all_uses)"
| "assemble_parts ((mod_name, rust_code, builds) # ms) all_uses defined_types =
     (let clean_code = rule_strip_markdown_fences rust_code;
          (mod_code_lines, all_uses', defined_types') = dedup_module_definitions clean_code all_uses defined_types;
          trimmed_lines = trim_empty_lines mod_code_lines;
          (parts, uses) = assemble_parts ms all_uses' defined_types'
      in (if trimmed_lines \<noteq> [] then (module_header mod_name @ unlines trimmed_lines) # parts else parts, uses))"

definition module_code :: "module_output list \<Rightarrow> string option \<Rightarrow> string" where
  "module_code ms contract = join [newline, newline] (fst (assemble_parts ms [] (contract_names contract)))"

definition collected_uses :: "module_output list \<Rightarrow> string option \<Rightarrow> string list" where
  "collected_uses ms contract = snd (assemble_parts ms [] (contract_names contract))"

definition assemble_module_outputs :: "regex_engine \<Rightarrow> module_output list \<Rightarrow> string option \<Rightarrow> string" where
  "assemble_module_outputs re ms contract =
     (let all_uses = collected_uses ms contract
      in (if all_uses \<noteq> [] then unlines (merge_use_statements re all_uses) @ [newline, newline] else [])
         @ contract_block contract @ module_code ms contract @ [newline])"

section \<open>Names defined by a text\<close>

definition line_names :: "string \<Rightarrow> string list" where
  "line_names l = (case extract_definition_name (trim l) of None \<Rightarrow> [] | Some n \<Rightarrow> [n])"

definition defined_names :: "string \<Rightarrow> string list" where
  "defined_names s = concat (map line_names (lines s))"

lemma extract_definition_name_Nil [simp]: "extract_definition_name [] = None"
  by (simp add: extract_definition_name_def definition_prefixes_def name_after_def strip_prefix_def)

lemma line_names_blank: "is_blank l \<Longrightarrow> line_names l = []"
  by (simp add: line_names_def is_blank_def)

lemma line_names_Nil [simp]: "line_names [] = []"
  by (rule line_names_blank) (simp add: is_blank_def trim_eq_Nil)

interpretation names: line_fold line_names "(@)" "[]"
  by unfold_locales (simp_all add: line_names_def trim_strip_cr)

lemma defined_names_fold: "defined_names s = foldr (\<lambda>l. (@) (line_names l)) (lines s) []"
proof -
  have "concat (map line_names ls) = foldr (\<lambda>l. (@) (line_names l)) ls []" for ls
    by (induction ls) auto
  then show ?thesis by (simp add: defined_names_def)
qed

lemma defined_names_append: "defined_names (s @ newline # t) = defined_names s @ defined_names t"
  unfolding defined_names_fold by (rule names.fold_append_newline)

lemma defined_names_unlines:
  "\<forall>l \<in> set ls. newline \<notin> set l \<Longrightarrow> defined_names (unlines ls) = concat (map line_names ls)"
proof -
  assume "\<forall>l \<in> set ls. newline \<notin> set l"
  then have "defined_names (unlines ls) = foldr (\<lambda>l. (@) (line_names l)) ls []"
    unfolding defined_names_fold by (rule names.fold_unlines)
  also have "\<dots> = concat (map line_names ls)" by (induction ls) auto
  finally show ?thesis .
qed

lemma defined_names_Nil [simp]: "defined_names [] = []"
  by (simp add: defined_names_def)

lemma defined_names_parts:
  "defined_names (join [newline, newline] parts) = concat (map defined_names parts)"
proof (induction parts)
  case (Cons p ps)
  then show ?case
    using defined_names_append [of "[]" "join [newline, newline] ps"]
    by (cases "ps = []") (simp_all add: join_Cons defined_names_append)
qed simp

lemma not_definition_comment: "starts_with t ''//'' \<Longrightarrow> extract_definition_name t = None"
  by (auto simp: starts_with_iff extract_definition_name_def definition_prefixes_def name_after_def strip_prefix_def)

lemma defined_names_header:
  assumes "newline \<notin> set nm"
  shows "defined_names (module_header nm @ t) = defined_names t"
proof -
  let ?h = "CHR ''/'' # CHR ''/'' # '' --- Module: '' @ nm @ '' ---''"
  have "newline \<notin> set ?h" using assms by (auto simp: newline_def)
  then have "defined_names ?h = line_names ?h" by (simp add: defined_names_def lines_no_newline)
  also have "\<dots> = []"
    using not_definition_comment [OF starts_with_trim_comment] by (simp add: line_names_def)
  finally show ?thesis
    using defined_names_append [of ?h t] by (simp add: module_header_def)
qed

lemma names_trim_empty: "concat (map line_names (trim_empty_lines ls)) = concat (map line_names ls)"
proof -
  have drop: "concat (map line_names (dropWhile is_blank xs)) = concat (map line_names xs)" for xs
    by (induction xs) (auto simp: line_names_blank)
  have drop_end: "concat (map line_names (rev (dropWhile is_blank xs))) = concat (map line_names (rev xs))" for xs
    by (induction xs) (auto simp: line_names_blank)
  show ?thesis by (simp add: trim_empty_lines_def drop drop_end)
qed

section \<open>Each name is defined once\<close>

lemma dedup_from_names:
  "dedup_from ls i us ds = (out, us', ds') \<Longrightarrow>
     distinct (concat (map line_names out)) \<and> set (concat (map line_names out)) \<inter> ds = {}
     \<and> ds' = ds \<union> set (concat (map line_names out)) \<and> set out \<subseteq> set ls"
proof (induction ls i us ds arbitrary: out rule: dedup_from.induct)
  case (1 ls i us ds)
  show ?case
  proof (cases "i < length ls")
    case False
    with "1.prems" show ?thesis by (subst (asm) dedup_from.simps) auto
  next
    case i: True
    let ?t = "trim (ls ! i)"
    show ?thesis
    proof (cases "starts_with ?t ''use '' \<and> ends_with ?t '';''")
      case True
      with "1.prems" i
      have "dedup_from ls (i + 1) (if ?t \<notin> set us then us @ [?t] else us) ds = (out, us', ds')"
        by (subst (asm) dedup_from.simps) (simp add: Let_def)
      with "1.IH"(1) [OF i refl True] show ?thesis by blast
    next
      case nouse: False
      show ?thesis
      proof (cases "extract_definition_name ?t")
        case None
        with "1.prems" i nouse obtain out2 where
          rec: "dedup_from ls (i + 1) us ds = (out2, us', ds')" and out: "out = ls ! i # out2"
          by (subst (asm) dedup_from.simps) (auto simp: Let_def split: prod.splits)
        from "1.IH"(2) [OF i refl nouse None rec] i None show ?thesis
          by (simp add: out line_names_def)
      next
        case (Some n)
        show ?thesis
        proof (cases "n \<in> ds")
          case True
          with "1.prems" i nouse Some have "dedup_from ls (skip_braced_block ls i) us ds = (out, us', ds')"
            by (subst (asm) dedup_from.simps) (simp add: Let_def)
          with "1.IH"(3) [OF i refl nouse Some True] show ?thesis by blast
        next
          case False
          with "1.prems" i nouse Some obtain out2 where
            rec: "dedup_from ls (i + 1) us (insert n ds) = (out2, us', ds')" and out: "out = ls ! i # out2"
            by (subst (asm) dedup_from.simps) (auto simp: Let_def split: prod.splits)
          from "1.IH"(4) [OF i refl nouse Some False rec] i Some False show ?thesis
            by (simp add: out line_names_def)
        qed
      qed
    qed
  qed
qed

lemma assemble_parts_names:
  assumes "\<forall>m \<in> set ms. newline \<notin> set (fst m)"
  shows "distinct (concat (map defined_names (fst (assemble_parts ms us ds))))
     \<and> set (concat (map defined_names (fst (assemble_parts ms us ds)))) \<inter> ds = {}"
  using assms
proof (induction ms us ds rule: assemble_parts.induct)
  case (2 nm code cmp ms us ds)
  obtain out us' ds' where d: "dedup_module_definitions (rule_strip_markdown_fences code) us ds = (out, us', ds')"
    using prod_cases3 by blast
  obtain parts uses where rec: "assemble_parts ms us' ds' = (parts, uses)" by fastforce
  have out: "distinct (concat (map line_names out))" "set (concat (map line_names out)) \<inter> ds = {}"
    "ds' = ds \<union> set (concat (map line_names out))"
    "set out \<subseteq> set (lines (rule_strip_markdown_fences code))"
    using dedup_from_names d unfolding dedup_module_definitions_def by blast+
  have "\<forall>l \<in> set (trim_empty_lines out). newline \<notin> set l"
    using out(4) by (auto simp: trim_empty_lines_def dest!: set_dropWhileD dest: lines_no_newline_in)
  then have part: "defined_names (module_header nm @ unlines (trim_empty_lines out)) = concat (map line_names out)"
    using "2.prems" by (simp add: defined_names_header defined_names_unlines names_trim_empty)
  have empty: "trim_empty_lines out = [] \<Longrightarrow> concat (map line_names out) = []"
    using names_trim_empty [of out] by simp
  have ih: "distinct (concat (map defined_names parts))" "set (concat (map defined_names parts)) \<inter> ds' = {}"
    using "2.IH" [OF refl d [symmetric] refl refl refl] "2.prems" rec by simp_all
  have step: "fst (assemble_parts ((nm, code, cmp) # ms) us ds)
      = (if trim_empty_lines out \<noteq> [] then (module_header nm @ unlines (trim_empty_lines out)) # parts else parts)"
    by (simp add: d rec Let_def)
  have "concat (map defined_names (fst (assemble_parts ((nm, code, cmp) # ms) us ds)))
      = concat (map line_names out) @ concat (map defined_names parts)"
  proof (cases "trim_empty_lines out = []")
    case True
    with empty show ?thesis by (simp only: step if_not_P append_Nil not_True_eq_False if_False simp_thms)
  next
    case False
    with part show ?thesis by (simp only: step if_P list.map concat.simps simp_thms if_True)
  qed
  with out ih show ?case by auto
qed simp

text \<open>
  C17: Assembly keeps one definition of each type, constant or alias. Behind the imports and the
  type contract, no two lines of the module code define the same name, and none defines a name
  the contract defines, whatever the modules contain.
\<close>

theorem assembled_names_unique:
  assumes "\<forall>m \<in> set ms. newline \<notin> set (fst m)"
  shows "distinct (defined_names (module_code ms contract))
     \<and> set (defined_names (module_code ms contract)) \<inter> contract_names contract = {}
     \<and> ends_with (assemble_module_outputs re ms contract) (module_code ms contract @ [newline])"
proof -
  have "ends_with (a @ b) b" for a b by (simp add: ends_with_def)
  from this [of "(if collected_uses ms contract \<noteq> []
      then unlines (merge_use_statements re (collected_uses ms contract)) @ [newline, newline] else [])
      @ contract_block contract" "module_code ms contract @ [newline]"]
  have "ends_with (assemble_module_outputs re ms contract) (module_code ms contract @ [newline])"
    by (simp add: assemble_module_outputs_def Let_def)
  then show ?thesis
    using assemble_parts_names [OF assms] by (simp add: module_code_def defined_names_parts)
qed

theorem assembled_names_unique_witness:
  "distinct (defined_names (module_code
      [(''a'', ''struct P { x: i32 }'', True), (''b'', ''struct P { x: i32 }'', True)] None))"
  using assembled_names_unique
    [of "[(''a'', ''struct P { x: i32 }'', True), (''b'', ''struct P { x: i32 }'', True)]" None]
  by (simp add: newline_def)

text \<open>
  Names are collected from every line, so the associated type of a second trait implementation
  counts as a duplicate and is dropped.
\<close>

lemma associated_type_dropped:
  "fst (dedup_from [''impl Iterator for A {'', ''type Item = u8;'', ''}'',
                    ''impl Iterator for B {'', ''type Item = u8;'', ''}''] 0 [] {})
   = [''impl Iterator for A {'', ''type Item = u8;'', ''}'', ''impl Iterator for B {'', ''}'']"
  by code_simp

end
