(* ===== verification/Pattern_Store.thy ===== *)
theory Pattern_Store
  imports Migration_Ir "HOL-Library.Multiset"
begin

text \<open>
  The store of migration examples (\<open>crates/noricum-ir/src/pattern_store.rs\<close>): patterns read from
  markdown files, ranked by relevance for a C source. The files of the pattern directory are a
  list of names and contents, in the order the directory lists them.
\<close>

record migration_pattern =
  mp_name :: string
  c_pattern :: string
  rust_pattern :: string
  mp_tags :: "string list"
  usage_count :: u32

record pattern_store =
  patterns :: "migration_pattern list"

definition empty_patterns :: pattern_store where
  "empty_patterns = \<lparr>patterns = []\<rparr>"

definition add_pattern :: "pattern_store \<Rightarrow> migration_pattern \<Rightarrow> pattern_store" where
  "add_pattern st p = st\<lparr>patterns := patterns st @ [p]\<rparr>"

section \<open>Reading\<close>

definition fence_mark :: string where
  "fence_mark = [backtick, backtick, backtick]"

text \<open>The lines of the first fenced block; a block that is not closed runs to the end.\<close>

fun fenced :: "bool \<Rightarrow> string list \<Rightarrow> string list" where
  "fenced in_fence [] = []"
| "fenced in_fence (line # ls) =
     (if starts_with line fence_mark then (if in_fence then [] else fenced True ls)
      else if in_fence then line # fenced in_fence ls
      else fenced in_fence ls)"

definition extract_code_after_header :: "string \<Rightarrow> string \<Rightarrow> string option" where
  "extract_code_after_header content header_text =
     (let ls = lines content
      in case position (\<lambda>line. starts_with line ''## '' \<and> contains line header_text) ls of
           None \<Rightarrow> None
         | Some header_idx \<Rightarrow>
             (let code_lines = fenced False (drop (header_idx + 1) ls)
              in if code_lines = [] then None else Some (unlines code_lines)))"

definition parse_pattern_markdown :: "string \<Rightarrow> string \<Rightarrow> string list \<Rightarrow> migration_pattern option" where
  "parse_pattern_markdown content nm tags =
     (case extract_code_after_header content ''C Pattern'' of
        None \<Rightarrow> None
      | Some c \<Rightarrow>
          (case extract_code_after_header content ''Rust Equivalent'' of
             None \<Rightarrow> None
           | Some r \<Rightarrow> Some \<lparr>mp_name = nm, c_pattern = c, rust_pattern = r, mp_tags = tags, usage_count = 0\<rparr>))"

text \<open>The entries of the directory with extension \<open>md\<close>: their stems and readable contents.\<close>

definition load_seed_patterns :: "(string \<times> string) list \<Rightarrow> pattern_store" where
  "load_seed_patterns files =
     foldl (\<lambda>st (nm, content).
        case parse_pattern_markdown content nm (split_char (CHR ''_'') nm) of
          Some p \<Rightarrow> add_pattern st p | None \<Rightarrow> st) empty_patterns files"

section \<open>Ranking\<close>

fun split_where :: "(char \<Rightarrow> bool) \<Rightarrow> string \<Rightarrow> string list" where
  "split_where p [] = [[]]"
| "split_where p (c # cs) =
     (if p c then [] # split_where p cs
      else (case split_where p cs of [] \<Rightarrow> [[c]] | w # ws \<Rightarrow> (c # w) # ws))"

text \<open>The set of words of a text, as a list without repetition.\<close>

definition words_of :: "string \<Rightarrow> string list" where
  "words_of s =
     remdups (filter (\<lambda>w. 2 \<le> length w) (split_whitespace s @ split_where (\<lambda>c. \<not> is_alphanumeric c) s))"

definition relevance :: "string \<Rightarrow> migration_pattern \<Rightarrow> nat" where
  "relevance source_lower p =
     10 * length (filter (\<lambda>tag. contains source_lower (to_lowercase tag)) (mp_tags p))
     + length (filter (\<lambda>w. w \<in> set (words_of source_lower)) (words_of (to_lowercase (c_pattern p))))
     + unat (usage_count p)"

definition find_relevant :: "pattern_store \<Rightarrow> string \<Rightarrow> nat \<Rightarrow> migration_pattern list" where
  "find_relevant st c_src max_results =
     (let source_lower = to_lowercase c_src;
          scored = map (\<lambda>p. (relevance source_lower p, p)) (patterns st)
      in map snd (take max_results (sort_key (\<lambda>sp. - int (fst sp)) scored)))"

definition record_usage :: "pattern_store \<Rightarrow> string \<Rightarrow> pattern_store" where
  "record_usage st nm =
     st\<lparr>patterns := update_first (\<lambda>p. mp_name p = nm) (\<lambda>p. p\<lparr>usage_count := usage_count p + 1\<rparr>) (patterns st)\<rparr>"

section \<open>Facts\<close>

lemma sorted_take_best:
  assumes "x \<in> set (take n (sort_key f xs))" and "y \<in> set (drop n (sort_key f xs))"
  shows "f x \<le> (f y :: 'b::linorder)"
proof -
  have "sorted (map f (take n (sort_key f xs)) @ map f (drop n (sort_key f xs)))"
    by (metis append_take_drop_id map_append sorted_sort_key)
  then show ?thesis using assms by (auto simp: sorted_append)
qed

text \<open>
  The patterns handed to the translation prompt are the best ones: at most the requested
  number, all from the store, and no pattern that is left out is more relevant than one chosen.
\<close>

theorem find_relevant_best:
  "length (find_relevant st src n) = min n (length (patterns st))
   \<and> (\<exists>rest. mset (find_relevant st src n) + mset rest = mset (patterns st)
        \<and> (\<forall>p \<in> set (find_relevant st src n). \<forall>q \<in> set rest.
              relevance (to_lowercase src) q \<le> relevance (to_lowercase src) p))"
proof -
  define scored where "scored = map (\<lambda>p. (relevance (to_lowercase src) p, p)) (patterns st)"
  define ranked where "ranked = sort_key (\<lambda>sp. - int (fst sp)) scored"
  have found: "find_relevant st src n = map snd (take n ranked)"
    by (simp add: find_relevant_def Let_def ranked_def scored_def)
  have snd_scored: "map snd scored = patterns st" by (simp add: scored_def comp_def)
  have "mset (map snd ranked) = mset (patterns st)"
    using snd_scored by (metis mset_map mset_sort ranked_def)
  moreover have "mset (map snd (take n ranked)) + mset (map snd (drop n ranked)) = mset (map snd ranked)"
    by (metis append_take_drop_id map_append mset_append)
  ultimately have parts: "mset (find_relevant st src n) + mset (map snd (drop n ranked)) = mset (patterns st)"
    by (simp add: found)
  have key: "s = relevance (to_lowercase src) p" if "(s, p) \<in> set ranked" for s p
    using that by (auto simp: ranked_def scored_def)
  have "relevance (to_lowercase src) q \<le> relevance (to_lowercase src) p"
    if "p \<in> set (find_relevant st src n)" "q \<in> set (map snd (drop n ranked))" for p q
  proof -
    from that obtain s t where st: "(s, p) \<in> set (take n ranked)" "(t, q) \<in> set (drop n ranked)"
      by (auto simp: found)
    then have "- int (fst (s, p)) \<le> - int (fst (t, q))"
      unfolding ranked_def by (rule sorted_take_best)
    moreover have "s = relevance (to_lowercase src) p" "t = relevance (to_lowercase src) q"
      using st by (auto dest: in_set_takeD in_set_dropD intro: key)
    ultimately show ?thesis by simp
  qed
  moreover have "length (find_relevant st src n) = min n (length (patterns st))"
    by (simp add: found ranked_def scored_def)
  ultimately show ?thesis using parts by blast
qed

definition two_patterns :: pattern_store where
  "two_patterns = \<lparr>patterns =
     [\<lparr>mp_name = ''a'', c_pattern = ''int f'', rust_pattern = [], mp_tags = [''loop''], usage_count = 0\<rparr>,
      \<lparr>mp_name = ''b'', c_pattern = ''char g'', rust_pattern = [], mp_tags = [''malloc''], usage_count = 0\<rparr>]\<rparr>"

theorem find_relevant_best_witness:
  "length (find_relevant two_patterns ''p = malloc(3);'' 1) = 1"
  using find_relevant_best [of two_patterns "''p = malloc(3);''" 1] by (simp add: two_patterns_def)

end
