(* ===== verification/Llm_Agents.thy ===== *)
theory Llm_Agents
  imports Validation Pattern_Store Ensemble
begin

text \<open>
  The agents that talk to a language model (\<open>crates/noricum-agents/src\<close>: \<open>lib.rs\<close>, \<open>providers.rs\<close>,
  \<open>translation.rs\<close>, \<open>repair.rs\<close>): model selection, token estimates, extraction of code from answers,
  prompts and the retry loop. A client is a function of the number of the call and the prompt, so
  that equal prompts may be answered differently; the call number is threaded through. The
  system prompts (files of \<open>prompts/\<close>) are parameters; temperatures are exact rationals.
\<close>

section \<open>Errors and tokens\<close>

datatype agent_error = Provider string | NoProvider string | Parse string | MaxRetries

definition debug_agent_error :: "agent_error \<Rightarrow> string" where
  "debug_agent_error e =
     (case e of Provider s \<Rightarrow> ''Provider('' @ debug_str s @ '')''
      | NoProvider s \<Rightarrow> ''NoProvider('' @ debug_str s @ '')''
      | Parse s \<Rightarrow> ''Parse('' @ debug_str s @ '')''
      | MaxRetries \<Rightarrow> ''MaxRetries'')"

definition show_agent_error :: "agent_error \<Rightarrow> string" where
  "show_agent_error e =
     (case e of Provider s \<Rightarrow> ''LLM provider error: '' @ s
      | NoProvider s \<Rightarrow> ''no provider configured for role: '' @ s
      | Parse s \<Rightarrow> ''failed to parse LLM response: '' @ s
      | MaxRetries \<Rightarrow> ''max retries exceeded'')"

text \<open>The scan over the characters: words and punctuation seen so far.\<close>

fun scan_tokens :: "bool \<Rightarrow> u64 \<Rightarrow> string \<Rightarrow> u64" where
  "scan_tokens in_word tokens [] = tokens"
| "scan_tokens in_word tokens (ch # rest) =
     (if is_word_char ch then scan_tokens True (if in_word then tokens else tokens + 1) rest
      else scan_tokens False (if is_whitespace ch then tokens else tokens + 1) rest)"

definition estimate_tokens :: "string \<Rightarrow> u64" where
  "estimate_tokens text =
     (if text = [] then 0
      else (let tokens = scan_tokens False 0 text;
                tokens = tokens + of_nat (length (filter is_word_char text)) div 8;
                tokens = tokens + of_nat (length (lines text) - 1) div 4
            in max tokens 1))"

section \<open>Extracting code\<close>

definition extract_from_generic_fence :: "string \<Rightarrow> string" where
  "extract_from_generic_fence response =
     (case find_str response fence_mark of
        None \<Rightarrow> trim response
      | Some start \<Rightarrow>
          (let after_fence = drop (start + 3) response;
               code_start = (case find_char after_fence newline of Some i \<Rightarrow> i + 1 | None \<Rightarrow> 0);
               after_lang = drop code_start after_fence
           in case find_str after_lang fence_mark of
                Some stop \<Rightarrow> trim (take stop after_lang)
              | None \<Rightarrow> trim response))"

definition extract_rust_code :: "string \<Rightarrow> string" where
  "extract_rust_code response =
     (case find_str response (fence_mark @ ''rust'') of
        Some start \<Rightarrow>
          (let after_fence = drop (start + 7) response
           in case find_str after_fence fence_mark of
                Some stop \<Rightarrow> trim (take stop after_fence)
              | None \<Rightarrow> extract_from_generic_fence response)
      | None \<Rightarrow> extract_from_generic_fence response)"

section \<open>Model selection\<close>

record provider_config =
  primary_provider :: string
  anthropic_api_key :: "string option"
  deepseek_api_key :: "string option"
  ollama_url :: string
  ollama_model :: string
  ollama_num_ctx :: u64

record model_selection =
  sel_provider :: provider_kind
  sel_model :: string

definition deepseek_model :: "difficulty \<Rightarrow> string" where
  "deepseek_model d = (case d of Hard \<Rightarrow> ''deepseek-reasoner'' | _ \<Rightarrow> ''deepseek-chat'')"

definition anthropic_model :: "difficulty \<Rightarrow> string \<Rightarrow> string" where
  "anthropic_model d task =
     (case d of Hard \<Rightarrow> ''claude-opus-4-6''
      | Medium \<Rightarrow> ''claude-sonnet-4-6''
      | Easy \<Rightarrow> if task = ''analysis'' then ''claude-sonnet-4-6'' else ''claude-haiku-4-5-20251001'')"

definition select_model :: "provider_config \<Rightarrow> difficulty \<Rightarrow> string \<Rightarrow> (agent_error, model_selection) result" where
  "select_model cfg d task =
     (if primary_provider cfg = ''ollama'' then Inr \<lparr>sel_provider = Ollama, sel_model = ollama_model cfg\<rparr>
      else if primary_provider cfg = ''deepseek'' \<and> deepseek_api_key cfg \<noteq> None
        then Inr \<lparr>sel_provider = DeepSeek, sel_model = deepseek_model d\<rparr>
      else if anthropic_api_key cfg \<noteq> None
        then Inr \<lparr>sel_provider = Anthropic, sel_model = anthropic_model d task\<rparr>
      else if deepseek_api_key cfg \<noteq> None
        then Inr \<lparr>sel_provider = DeepSeek, sel_model = deepseek_model d\<rparr>
      else Inr \<lparr>sel_provider = Ollama, sel_model = ollama_model cfg\<rparr>)"

definition select_repair_model :: "provider_config \<Rightarrow> difficulty \<Rightarrow> (agent_error, model_selection) result" where
  "select_repair_model cfg d =
     (if primary_provider cfg = ''ollama'' then Inr \<lparr>sel_provider = Ollama, sel_model = ollama_model cfg\<rparr>
      else if primary_provider cfg = ''deepseek'' \<and> deepseek_api_key cfg \<noteq> None
        then Inr \<lparr>sel_provider = DeepSeek, sel_model = ''deepseek-chat''\<rparr>
      else select_model cfg d ''repair'')"

section \<open>Prompts and retries\<close>

record prompt =
  pr_model :: string
  pr_preamble :: string
  pr_temperature :: rat
  pr_max_tokens :: u64
  pr_message :: string

type_synonym llm_client = "nat \<Rightarrow> prompt \<Rightarrow> (agent_error, string) result"

definition is_transient_error :: "agent_error \<Rightarrow> bool" where
  "is_transient_error err =
     (let msg = debug_agent_error err
      in list_ex (contains msg)
           [''502'', ''503'', ''504'', ''Bad Gateway'', ''Service Unavailable'',
            ''error decoding response body'', ''connection reset'', ''timed out''])"

definition retry_delays :: "nat list" where
  "retry_delays = [5, 15, 30]"

text \<open>The attempts that remain after the first; the waits in between do not change any state.\<close>

fun run_with_retries :: "llm_client \<Rightarrow> prompt \<Rightarrow> nat \<Rightarrow> nat \<Rightarrow> (agent_error, string) result \<times> nat" where
  "run_with_retries client p 0 n = (client n p, n + 1)"
| "run_with_retries client p (Suc k) n =
     (case client n p of
        Inr r \<Rightarrow> (Inr r, n + 1)
      | Inl e \<Rightarrow> if is_transient_error e then run_with_retries client p k (n + 1) else (Inl e, n + 1))"

definition prompt_with_retries :: "llm_client \<Rightarrow> prompt \<Rightarrow> nat \<Rightarrow> (agent_error, string) result \<times> nat" where
  "prompt_with_retries client p n =
     (case run_with_retries client p (length retry_delays) n of
        (Inr r, n') \<Rightarrow> (Inr (extract_rust_code r), n')
      | (Inl e, n') \<Rightarrow> (Inl e, n'))"

definition clamp_tokens :: "u64 \<Rightarrow> u64 \<Rightarrow> string \<Rightarrow> u64" where
  "clamp_tokens lo hi text = max lo (min hi ((of_nat (length text) div 4) * 2))"

lemma run_with_retries_calls: "n < snd (run_with_retries client p k n) \<and> snd (run_with_retries client p k n) \<le> n + k + 1"
  by (induction client p k n rule: run_with_retries.induct) (fastforce split: sum.splits)+

section \<open>Translation\<close>

record analysis_result =
  an_difficulty :: string
  an_patterns :: "string list"
  an_json :: string

text \<open>
  The structural summary: one pass over the lines with the position relative to a struct body,
  the brace depth and the four lists collected.
\<close>

record summary_state =
  in_struct :: bool
  sm_depth :: int
  structs :: "string list"
  signatures :: "string list"
  typedefs :: "string list"
  globals :: "string list"

definition char_count :: "char \<Rightarrow> string \<Rightarrow> int" where
  "char_count c s = int (length (filter (\<lambda>x. x = c) s))"

definition before_brace :: "string \<Rightarrow> string" where
  "before_brace s = trim (hd (split_char (CHR ''{'') s))"

definition is_signature_line :: "string \<Rightarrow> bool" where
  "is_signature_line t =
     (\<not> starts_with t ''//'' \<and> \<not> starts_with t ''#'' \<and> \<not> starts_with t ''typedef''
      \<and> CHR ''('' \<in> set t \<and> (ends_with t ''{'' \<or> ends_with t '')'')
      \<and> \<not> starts_with t ''if'' \<and> \<not> starts_with t ''while'' \<and> \<not> starts_with t ''for'')"

definition is_global_line :: "string \<Rightarrow> bool" where
  "is_global_line t =
     (\<not> starts_with t ''//'' \<and> \<not> starts_with t ''#'' \<and> CHR ''='' \<in> set t \<and> ends_with t '';''
      \<and> CHR ''('' \<notin> set t)"

definition summary_step :: "summary_state \<Rightarrow> string \<Rightarrow> summary_state" where
  "summary_step st line =
     (let t = trim line; opens = char_count (CHR ''{'') t; closes = char_count (CHR ''}'') t;
          enter = (\<lambda>d s. if d \<le> 0 then s\<lparr>in_struct := False, sm_depth := 0\<rparr>
                         else s\<lparr>in_struct := True, sm_depth := d\<rparr>)
      in if in_struct st then enter (sm_depth st + opens - closes) st
         else if (starts_with t ''struct '' \<or> starts_with t ''enum '' \<or> starts_with t ''union '')
                 \<and> CHR ''{'' \<in> set t
           then enter (opens - closes) (st\<lparr>structs := structs st @ [before_brace t]\<rparr>)
         else if starts_with t ''typedef'' then st\<lparr>typedefs := typedefs st @ [t]\<rparr>
         else (let sig = before_brace t;
                   st1 = (if sm_depth st = 0 \<and> is_signature_line t \<and> sig \<noteq> []
                          then st\<lparr>signatures := signatures st @ [sig]\<rparr> else st);
                   st2 = (if sm_depth st = 0 \<and> is_global_line t then st1\<lparr>globals := globals st1 @ [t]\<rparr> else st1)
               in st2\<lparr>sm_depth := max 0 (sm_depth st + opens - closes)\<rparr>))"

definition build_structural_summary :: "string \<Rightarrow> string" where
  "build_structural_summary c_src =
     (let st = foldl summary_step \<lparr>in_struct = False, sm_depth = 0, structs = [], signatures = [],
                                   typedefs = [], globals = []\<rparr> (lines c_src);
          n = (\<lambda>xs. show_nat (length xs))
      in (if typedefs st \<noteq> [] then ''**Typedefs ('' @ n (typedefs st) @ ''):** '' @ join ''; '' (typedefs st) @ [newline] else [])
         @ (if structs st \<noteq> [] then ''**Structs/Enums ('' @ n (structs st) @ ''):** '' @ join '', '' (structs st) @ [newline] else [])
         @ (if signatures st \<noteq> [] then
              ''**Functions ('' @ n (signatures st) @ ''):**'' @ [newline]
              @ concat (map (\<lambda>f. ''- '' @ [backtick] @ f @ [backtick, newline]) (signatures st)) else [])
         @ (if globals st \<noteq> [] then
              ''**Globals ('' @ n (globals st) @ ''):** '' @ join ''; '' (take 10 (globals st))
              @ (if 10 < length (globals st) then '' ... and '' @ show_nat (length (globals st) - 10) @ '' more'' else [])
              @ [newline] else []))"

definition max_c2rust_lines :: nat where "max_c2rust_lines = 3000"

definition fenced_block :: "string \<Rightarrow> string \<Rightarrow> string" where
  "fenced_block lang body = fence_mark @ lang @ [newline] @ body @ [newline] @ fence_mark @ [newline]"

definition c2rust_section :: "string \<Rightarrow> string" where
  "c2rust_section c2rust =
     (let ls = lines c2rust
      in if max_c2rust_lines < length ls then
           [newline] @ ''## C2Rust output (unsafe Rust, truncated)'' @ [newline]
           @ fenced_block ''rust'' (unlines (take max_c2rust_lines ls) @ [newline] @ ''// ... (''
                                    @ show_nat (length ls - max_c2rust_lines) @ '' more lines truncated)'')
         else [newline] @ ''## C2Rust output (unsafe Rust)'' @ [newline] @ fenced_block ''rust'' c2rust)"

definition pattern_section :: "migration_pattern \<Rightarrow> string" where
  "pattern_section p =
     [newline] @ ''### Pattern: '' @ mp_name p @ [newline] @ ''C:'' @ [newline] @ fenced_block ''c'' (c_pattern p)
     @ ''Rust:'' @ [newline] @ fenced_block ''rust'' (rust_pattern p)"

definition translation_message ::
  "string \<Rightarrow> string option \<Rightarrow> analysis_result \<Rightarrow> migration_pattern list \<Rightarrow> string" where
  "translation_message c_src c2rust analysis ps =
     (let c_lines = length (lines c_src)
      in (if 800 < c_lines then
            ''## Structural summary ('' @ show_nat c_lines @ '' lines)'' @ [newline]
            @ build_structural_summary c_src @ [newline, newline] else [])
         @ ''## Original C source'' @ [newline] @ ''<c_source>'' @ [newline] @ c_src @ [newline]
         @ ''</c_source>'' @ [newline, newline] @ ''## Analysis'' @ [newline] @ fenced_block ''json'' (an_json analysis)
         @ (case c2rust of Some c \<Rightarrow> c2rust_section c | None \<Rightarrow> [])
         @ (if ps \<noteq> [] then
              [newline] @ ''## Relevant migration patterns (examples from past translations)'' @ [newline]
              @ concat (map pattern_section ps) else [])
         @ [newline] @ ''Translate the C function to safe, idiomatic Rust. Output ONLY the Rust code.'')"

definition translate_function_with_patterns_and_temperature ::
  "llm_client \<Rightarrow> string \<Rightarrow> string \<Rightarrow> string \<Rightarrow> string option \<Rightarrow> analysis_result \<Rightarrow> migration_pattern list
   \<Rightarrow> rat option \<Rightarrow> nat \<Rightarrow> (agent_error, string) result \<times> nat" where
  "translate_function_with_patterns_and_temperature client preamble model c_src c2rust analysis ps temp n =
     prompt_with_retries client
       \<lparr>pr_model = model, pr_preamble = preamble, pr_temperature = unwrap_or temp (3/10),
        pr_max_tokens = clamp_tokens 8192 65536 c_src,
        pr_message = translation_message c_src c2rust analysis ps\<rparr> n"

end
