(* ===== verification/Repair_Agent.thy ===== *)
theory Repair_Agent
  imports Llm_Agents
begin

text \<open>
  The repair agent (\<open>crates/noricum-agents/src/repair.rs\<close>): the prompt built from the current
  Rust source, its errors and the C source, and the abbreviation of long C sources.
\<close>

section \<open>Abbreviation of the C source\<close>

record abbrev_state =
  ab_out :: "string list"
  ab_depth :: int
  in_function_body :: bool
  body_omitted :: bool

definition is_declaration_line :: "string \<Rightarrow> bool" where
  "is_declaration_line t =
     list_ex (starts_with t) [''#include'', ''#define'', ''typedef'', ''struct '', ''enum '', ''union '']"

definition is_main_line :: "string \<Rightarrow> bool" where
  "is_main_line t = list_ex (starts_with t) [''int main'', ''void main'', ''int main('']"

definition omission_line :: string where
  "omission_line = ''    // ... (body abbreviated for context)''"

definition abbrev_step :: "abbrev_state \<Rightarrow> string \<Rightarrow> abbrev_state" where
  "abbrev_step st line =
     (let t = trim line;
          opens = char_count (CHR ''{'') t; closes = char_count (CHR ''}'') t;
          in_body = in_function_body st \<and> \<not> is_main_line t
      in if ab_depth st = 0 \<and> 0 < opens \<and> \<not> is_declaration_line t \<and> \<not> is_main_line t then
           \<lparr>ab_out = ab_out st @ [line], ab_depth = ab_depth st + (opens - closes),
            in_function_body = True, body_omitted = False\<rparr>
         else if in_body \<and> 0 < ab_depth st then
           (let out = (if \<not> body_omitted st then ab_out st @ [omission_line] else ab_out st);
                depth = ab_depth st + (opens - closes)
            in if depth \<le> 0 then
                 \<lparr>ab_out = out @ [''}''], ab_depth = 0, in_function_body = False, body_omitted = True\<rparr>
               else \<lparr>ab_out = out, ab_depth = depth, in_function_body = True, body_omitted = True\<rparr>)
         else \<lparr>ab_out = ab_out st @ [line], ab_depth = max 0 (ab_depth st + (opens - closes)),
               in_function_body = in_body, body_omitted = body_omitted st\<rparr>)"

definition abbreviate_c_source :: "string \<Rightarrow> nat \<Rightarrow> string" where
  "abbreviate_c_source c_src max_lines =
     (let ls = lines c_src
      in if length ls \<le> max_lines then c_src
         else unlines (ab_out (foldl abbrev_step
                \<lparr>ab_out = [], ab_depth = 0, in_function_body = False, body_omitted = False\<rparr> ls)))"

section \<open>The repair prompt\<close>

definition attempt_section :: "u32 \<Rightarrow> u32 \<Rightarrow> string" where
  "attempt_section iteration max_iterations =
     ''## IMPORTANT: This is repair attempt '' @ show_nat (unat iteration) @ '' of ''
     @ show_nat (unat max_iterations) @ ''.'' @ [newline]
     @ ''Previous attempts with the SAME errors have failed. You MUST try a fundamentally ''
     @ ''different approach this time. Do not repeat the same fix.'' @ [newline, newline]"

definition rust_hints :: string where
  "rust_hints =
     ''## Hints for common Rust issues:'' @ [newline]
     @ ''- `vec![value; N]` requires `Clone`. Use `(0..N).map(|_| Default::default()).collect()` instead.'' @ [newline]
     @ ''- Recursive types need `Box<>`. Use `Option<Box<T>>` for optional recursive fields.'' @ [newline]
     @ ''- Mutable borrows: you can't hold multiple `&mut` to the same data. Restructure the logic.'' @ [newline]
     @ ''- Use `.to_string()` or `.clone()` to avoid move issues with `String`.'' @ [newline, newline]"

definition errors_section :: "u32 \<Rightarrow> string list \<Rightarrow> string" where
  "errors_section iteration errors =
     ''## Compiler errors'' @ [newline]
     @ fenced_block [] (unlines (map (\<lambda>(i, e). ''Error '' @ show_nat (i + 1) @ '': '' @ e) (enumerate 0 errors)))
     @ [newline]
     @ (if 2 \<le> iteration then rust_hints else [])"

definition feedback_section :: "string list \<Rightarrow> string" where
  "feedback_section feedback =
     (let text = unlines feedback
      in if list_ex (\<lambda>f. contains f ''Do NOT change any logic'') feedback then
           ''## Idiomatic improvement required'' @ [newline]
           @ ''The code compiles and produces correct output, but the idiomatic score is too low.'' @ [newline]
           @ ''Refactor ONLY for style '' @ em_dash @ '' do NOT change any logic or behavior.'' @ [newline]
           @ text @ [newline, newline]
         else
           ''## Behavioral mismatch (diff test failed)'' @ [newline]
           @ ''The code compiles but produces different output than the original C program.'' @ [newline]
           @ fenced_block [] text @ [newline])"

definition repair_message ::
  "string \<Rightarrow> string list \<Rightarrow> string list \<Rightarrow> string \<Rightarrow> u32 \<Rightarrow> u32 \<Rightarrow> nat option \<Rightarrow> string" where
  "repair_message rust_src errors feedback c_src iteration max_iterations limit =
     (if 1 < iteration then attempt_section iteration max_iterations else [])
     @ ''## Current Rust source'' @ [newline] @ fenced_block ''rust'' rust_src @ [newline]
     @ (if errors \<noteq> [] then errors_section iteration errors else [])
     @ (if feedback \<noteq> [] then feedback_section feedback else [])
     @ ''## Original C source (for reference)'' @ [newline] @ ''<c_source>'' @ [newline]
     @ abbreviate_c_source c_src (unwrap_or limit 300) @ [newline] @ ''</c_source>'' @ [newline, newline]
     @ ''Fix all issues. The Rust output must match the C output exactly byte-for-byte. ''
     @ ''Output ONLY the complete corrected Rust source code.''"

definition repair_temperature :: "rat option \<Rightarrow> u32 \<Rightarrow> rat" where
  "repair_temperature base iteration =
     min (unwrap_or base (2/10) + of_nat (unat (saturating_sub iteration 1)) * (1/10)) 1"

definition repair_function_full ::
  "llm_client \<Rightarrow> string \<Rightarrow> string \<Rightarrow> string \<Rightarrow> string list \<Rightarrow> string list \<Rightarrow> string \<Rightarrow> u32 \<Rightarrow> u32 \<Rightarrow> rat option
   \<Rightarrow> nat option \<Rightarrow> nat \<Rightarrow> (agent_error, string) result \<times> nat" where
  "repair_function_full client preamble model rust_src errors feedback c_src iteration max_iterations base limit n =
     (if errors = [] \<and> feedback = [] then (Inr rust_src, n)
      else prompt_with_retries client
             \<lparr>pr_model = model, pr_preamble = preamble, pr_temperature = repair_temperature base iteration,
              pr_max_tokens = clamp_tokens 8192 65536 rust_src,
              pr_message = repair_message rust_src errors feedback c_src iteration max_iterations limit\<rparr> n)"

definition surgical_preamble :: string where
  "surgical_preamble =
     ''You are a Rust compiler error repair specialist. ''
     @ ''You receive a single function with a compilation error and its type context. ''
     @ ''Return ONLY the fixed function '' @ em_dash @ '' no markdown fences, no explanations, no type redefinitions.''"

definition repair_with_prompt ::
  "llm_client \<Rightarrow> string \<Rightarrow> string \<Rightarrow> nat \<Rightarrow> (agent_error, string) result \<times> nat" where
  "repair_with_prompt client model text n =
     (case client n \<lparr>pr_model = model, pr_preamble = surgical_preamble, pr_temperature = 2/10,
                     pr_max_tokens = clamp_tokens 4096 16384 text, pr_message = text\<rparr> of
        Inr r \<Rightarrow> (Inr (extract_rust_code r), n + 1)
      | Inl e \<Rightarrow> (Inl e, n + 1))"

section \<open>Facts\<close>

lemma repair_temperature_le: "repair_temperature base i \<le> 1"
  by (simp add: repair_temperature_def)

lemma repair_calls:
  "snd (repair_function_full client pre model rs es fb cs i mx base limit n) \<le> n + 4"
  using run_with_retries_calls [of n client _ "length retry_delays"]
  by (auto simp: repair_function_full_def prompt_with_retries_def retry_delays_def split: prod.splits sum.splits)

end
