(* ===== verification/Spec_Mining.thy ===== *)
theory Spec_Mining
  imports C_Ast Diff_Test
begin

text \<open>
  Specification mining (\<open>crates/noricum-tools/src/spec_mining.rs\<close>): functions of a C program are
  wrapped so that every call is logged, the program runs, the log lines are read back as traces, the
  traces become Rust tests, and the tests run against a translation. The C parser, the JSON decoder,
  compilers and processes are parameters. Where the code would panic on a slice, the result is \<open>None\<close>.
\<close>

section \<open>Data\<close>

record trace_value =
  tv_type :: string
  tv_value :: string

record function_trace =
  tr_function :: string
  tr_inputs :: "trace_value list"
  tr_output :: "trace_value option"
  tr_index :: u32

record instrumentable_function =
  if_name :: string
  if_return :: string
  if_params :: "(string \<times> string) list"
  if_ok :: bool
  if_reason :: "string option"

definition trace_prefix :: string where "trace_prefix = ''NORICUM_TRACE|''"

definition scalar_types :: "string list" where
  "scalar_types =
     [''int'', ''unsigned int'', ''unsigned'', ''long'', ''unsigned long'', ''short'', ''unsigned short'',
      ''char'', ''unsigned char'', ''float'', ''double'', ''long double'', ''size_t'', ''ssize_t'',
      ''int8_t'', ''int16_t'', ''int32_t'', ''int64_t'', ''uint8_t'', ''uint16_t'', ''uint32_t'',
      ''uint64_t'', ''bool'', ''_Bool'']"

definition string_types :: "string list" where
  "string_types = [''const char*'', ''const char *'', ''char*'', ''char *'']"

section \<open>Signatures\<close>

definition is_star :: "char \<Rightarrow> bool" where "is_star c \<longleftrightarrow> c = CHR ''*''"

text \<open>\<open>rfind\<close> of a character.\<close>

definition rfind_char :: "string \<Rightarrow> char \<Rightarrow> nat option" where
  "rfind_char s c = map_option (\<lambda>i. length s - 1 - i) (find_char (rev s) c)"

definition starred_type :: "string \<Rightarrow> string list \<Rightarrow> string" where
  "starred_type param tokens =
     (if CHR ''*'' \<in> set param then
        join '' '' (filter (\<lambda>t. t \<noteq> []) (map (trim_end_matches is_star) (butlast tokens)))
        @ replicate (length (filter is_star param)) (CHR ''*'')
      else join '' '' (butlast tokens))"

definition push_param :: "(string \<times> string) list \<Rightarrow> string \<Rightarrow> (string \<times> string) list" where
  "push_param params raw_param =
     (let param = trim raw_param; tokens = split_whitespace param
      in if param = ''...'' then params @ [(''...'', ''...'')]
         else if 2 \<le> length tokens
           then params @ [(trim_start_matches is_star (last tokens), starred_type param tokens)]
         else if length tokens = 1 then params @ [(''_arg'' @ show_nat (length params), hd tokens)]
         else params)"

definition parse_params_from_signature :: "string \<Rightarrow> (string \<times> string) list option" where
  "parse_params_from_signature sig_line =
     (case (find_char sig_line (CHR ''(''), rfind_char sig_line (CHR '')'')) of
        (Some op, Some cl) \<Rightarrow>
          if cl < op then None
          else
            (let param_str = take (cl - (op + 1)) (drop (op + 1) sig_line)
             in if trim param_str = ''void'' \<or> trim param_str = [] then Some []
                else Some (foldl push_param [] (split_char (CHR '','') param_str)))
      | _ \<Rightarrow> Some [])"

definition pointer_to_scalar :: "string \<Rightarrow> bool" where
  "pointer_to_scalar t \<longleftrightarrow>
     ends_with t ''*''
     \<and> list_ex (\<lambda>st. trim (trim_end_matches is_star t) = st \<or> trim (trim_end_matches is_star t) = ''const '' @ st)
          scalar_types"

definition param_problem :: "string \<Rightarrow> string option" where
  "param_problem raw_type =
     (let t = trim raw_type
      in if contains t ''void*'' \<or> contains t ''void *'' then Some (''void* parameter: '' @ t)
         else if starts_with t ''struct '' \<or> starts_with t ''union '' then Some (''struct/union parameter: '' @ t)
         else if contains t ''(*'' then Some (''function pointer parameter: '' @ t)
         else if contains t ''FILE'' then Some (''FILE parameter: '' @ t)
         else if t \<notin> set scalar_types \<and> t \<notin> set string_types \<and> \<not> pointer_to_scalar t
           then Some (''unsupported parameter type: '' @ t)
         else None)"

definition check_instrumentable :: "string \<Rightarrow> (string \<times> string) list \<Rightarrow> string \<Rightarrow> bool \<times> string option" where
  "check_instrumentable ret params sig_line =
     (if contains sig_line ''...'' then (False, Some ''variadic function'')
      else case first_some (map (\<lambda>(_, ty). param_problem ty) params) of
        Some reason \<Rightarrow> (False, Some reason)
      | None \<Rightarrow>
          (let rt = trim ret
           in if rt \<noteq> ''void'' \<and> rt \<notin> set scalar_types \<and> rt \<notin> set string_types \<and> \<not> ends_with rt ''*''
              then (False, Some (''unsupported return type: '' @ rt)) else (True, None)))"

definition instrumentable_of :: "string \<Rightarrow> c_function \<Rightarrow> instrumentable_function option" where
  "instrumentable_of src f =
     (let sig_line = (case lines (slice src (fn_start f) (fn_end f)) of [] \<Rightarrow> [] | l # _ \<Rightarrow> l);
          ret = trim (fn_return_type f)
      in map_option (\<lambda>params.
           (case check_instrumentable ret params sig_line of (ok, reason) \<Rightarrow>
              \<lparr>if_name = fn_name f, if_return = ret, if_params = params, if_ok = ok,
               if_reason = reason\<rparr>))
           (parse_params_from_signature sig_line))"

definition find_instrumentable_functions :: "parsers \<Rightarrow> string \<Rightarrow> instrumentable_function list option" where
  "find_instrumentable_functions ps src = those (map (instrumentable_of src) (extract_c_functions ps src))"

section \<open>Instrumentation\<close>

record instrumented_source =
  instrumented_text :: string
  instrumented_functions :: "string list"

definition orig_name :: "string \<Rightarrow> string" where "orig_name nm = ''__noricum_orig_'' @ nm"

definition wrappable :: "instrumentable_function \<Rightarrow> bool" where
  "wrappable f \<longleftrightarrow> if_ok f \<and> if_name f \<noteq> ''main''"

text \<open>The first pass: the state is the source and the names renamed so far.\<close>

definition rename_one :: "string \<times> string list \<Rightarrow> instrumentable_function \<Rightarrow> string \<times> string list" where
  "rename_one st f =
     (let (src, wrapped) = st; pat = if_return f @ '' '' @ if_name f @ ''(''
      in if wrappable f \<and> contains src pat
         then (replace_first src pat (if_return f @ '' '' @ orig_name (if_name f) @ ''(''), wrapped @ [if_name f])
         else (src, wrapped))"

definition param_decls :: "instrumentable_function \<Rightarrow> string" where
  "param_decls f = join '', '' (map (\<lambda>(nm, ty). ty @ '' '' @ nm) (if_params f))"

definition forward_declaration :: "instrumentable_function \<Rightarrow> string" where
  "forward_declaration f = if_return f @ '' '' @ if_name f @ ''('' @ param_decls f @ '');'' @ [newline]"

definition trace_format_spec :: "string \<Rightarrow> string" where
  "trace_format_spec ty =
     (let t = trim ty
      in if contains t ''char*'' \<or> contains t ''char *'' then ''%s''
         else if contains t ''double'' \<or> contains t ''float'' then ''%.17g''
         else if contains t ''unsigned long'' \<or> t = ''size_t'' then ''%lu''
         else if contains t ''long'' then ''%ld''
         else ''%d'')"

definition trace_fprintf_arg :: "string \<Rightarrow> string \<Rightarrow> string" where
  "trace_fprintf_arg nm ty =
     (let t = trim ty
      in if contains t ''char*'' \<or> contains t ''char *''
         then ''('' @ nm @ '' ? '' @ nm @ '' : '' @ [quote] @ ''(null)'' @ [quote] @ '')''
         else nm)"

text \<open>A text between escaped quotes, as the generated C string literal holds it.\<close>

definition escaped :: "string \<Rightarrow> string" where
  "escaped s = [backslash, quote] @ s @ [backslash, quote]"

definition value_format :: "string \<Rightarrow> string" where
  "value_format ty =
     ''{'' @ escaped ''c_type'' @ '':'' @ escaped (replace_all ty [quote] [backslash, backslash, backslash, quote])
     @ '','' @ escaped ''value'' @ '':'' @ escaped (trace_format_spec ty) @ ''}''"

definition wrapper_text :: "instrumentable_function \<Rightarrow> string" where
  "wrapper_text f =
     (let counter = ''__noricum_call_count_'' @ if_name f;
          arg_names = join '', '' (map fst (if_params f));
          is_void = (trim (if_return f) = ''void'')
      in ''static int '' @ counter @ '' = 0;'' @ [newline]
         @ if_return f @ '' '' @ if_name f @ ''('' @ param_decls f @ '') {'' @ [newline]
         @ (if is_void then ''    '' @ orig_name (if_name f) @ ''('' @ arg_names @ '');'' @ [newline]
            else ''    '' @ if_return f @ '' __noricum_result = '' @ orig_name (if_name f) @ ''('' @ arg_names
                 @ '');'' @ [newline])
         @ ''    fprintf(stderr, '' @ [quote] @ ''NORICUM_TRACE|{'' @ escaped ''function_name'' @ '':''
         @ escaped (if_name f) @ '','' @ escaped ''inputs'' @ '':[''
         @ join '','' (map (\<lambda>(_, ty). value_format ty) (if_params f))
         @ ''],'' @ escaped ''output'' @ '':''
         @ (if is_void then ''null'' else value_format (if_return f))
         @ '','' @ escaped ''call_index'' @ '':%d}'' @ [backslash, CHR ''n'', quote] @ '', ''
         @ concat (map (\<lambda>(nm, ty). trace_fprintf_arg nm ty @ '', '') (if_params f))
         @ (if is_void then [] else trace_fprintf_arg ''__noricum_result'' (if_return f) @ '', '')
         @ counter @ ''++);'' @ [newline]
         @ (if is_void then [] else ''    return __noricum_result;'' @ [newline])
         @ ''}'' @ [newline, newline])"

definition instrument :: "string \<Rightarrow> instrumentable_function list \<Rightarrow> instrumented_source" where
  "instrument src functions =
     (let (modified, wrapped) = foldl rename_one (src, []) functions;
          chosen = filter (\<lambda>f. wrappable f \<and> if_name f \<in> set wrapped) functions
      in \<lparr>instrumented_text =
            ''#include <stdio.h>'' @ [newline] @ ''#include <string.h>'' @ [newline, newline]
            @ ''// === NORICUM FORWARD DECLARATIONS ==='' @ [newline]
            @ concat (map forward_declaration chosen) @ [newline]
            @ modified @ [newline, newline] @ ''// === NORICUM INSTRUMENTATION WRAPPERS ==='' @ [newline, newline]
            @ concat (map wrapper_text chosen),
          instrumented_functions = wrapped\<rparr>)"

definition generate_instrumented_source :: "parsers \<Rightarrow> string \<Rightarrow> instrumented_source option" where
  "generate_instrumented_source ps src = map_option (instrument src) (find_instrumentable_functions ps src)"

section \<open>Traces\<close>

record 'exe spec_tools =
  spec_chain :: "'exe toolchain"
  write_text :: "string \<Rightarrow> (tool_error, unit) result"
  rustc_test :: "string \<Rightarrow> (string + 'exe) option"
  trace_of_json :: "string \<Rightarrow> function_trace option"

definition parse_traces :: "(string \<Rightarrow> function_trace option) \<Rightarrow> string \<Rightarrow> function_trace list" where
  "parse_traces from_json err_text =
     List.map_filter
       (\<lambda>l. case strip_prefix (trim l) trace_prefix of None \<Rightarrow> None | Some json \<Rightarrow> from_json json)
       (lines err_text)"

definition collect_traces ::
  "'exe spec_tools \<Rightarrow> string \<Rightarrow> string list \<Rightarrow> string option \<Rightarrow> (tool_error, function_trace list) result" where
  "collect_traces tk src args stdin_input =
     bind_result (write_text tk src) (\<lambda>_.
     bind_result (compile_c_exe (spec_chain tk) src) (\<lambda>compiled.
       case compiled of
         None \<Rightarrow> Inr []
       | Some exe \<Rightarrow>
           bind_result (run_exe (spec_chain tk) exe stdin_input args) (\<lambda>out.
             Inr (parse_traces (trace_of_json tk) (stderr out)))))"

definition mine_specs ::
  "parsers \<Rightarrow> 'exe spec_tools \<Rightarrow> string \<Rightarrow> (tool_error, function_trace list) result option" where
  "mine_specs ps tk src =
     map_option (\<lambda>ins. if instrumented_functions ins = [] then Inr []
                       else collect_traces tk (instrumented_text ins) [] None)
       (generate_instrumented_source ps src)"

section \<open>Rust tests\<close>

record spec_test =
  test_source :: string
  st_function :: string
  case_count :: nat

definition rust_literal_for_trace_value :: "trace_value \<Rightarrow> string" where
  "rust_literal_for_trace_value tv =
     (let t = trim (tv_type tv); v = tv_value tv
      in if contains t ''char*'' \<or> contains t ''char *'' then
           [quote] @ replace_all (replace_all v [backslash] [backslash, backslash]) [quote] [backslash, quote] @ [quote]
         else if contains t ''double'' \<or> contains t ''float'' then
           v @ ''_'' @ (if contains t ''float'' then ''f32'' else ''f64'')
         else if contains t ''unsigned long'' \<or> t = ''size_t'' then v @ ''_u64''
         else if contains t ''unsigned'' then v @ ''_u32''
         else if contains t ''long'' then v @ ''_i64''
         else v @ ''_i32'')"

definition assertion_text :: "function_trace \<Rightarrow> string" where
  "assertion_text tr =
     (case tr_output tr of
        None \<Rightarrow> []
      | Some out \<Rightarrow>
          (let call = tr_function tr @ ''('' @ join '', '' (map rust_literal_for_trace_value (tr_inputs tr)) @ '')'';
               expected = rust_literal_for_trace_value out;
               label = [quote] @ ''call_index='' @ show_nat (unat (tr_index tr)) @ [quote]
           in if contains (tv_type out) ''double'' \<or> contains (tv_type out) ''float''
              then ''    assert!(('' @ call @ '' - '' @ expected @ '').abs() < 1e-10, '' @ label @ '');'' @ [newline]
              else ''    assert_eq!('' @ call @ '', '' @ expected @ '', '' @ label @ '');'' @ [newline]))"

definition spec_test_of :: "function_trace list \<Rightarrow> string \<Rightarrow> spec_test" where
  "spec_test_of traces nm =
     (let group = filter (\<lambda>tr. tr_function tr = nm) traces
      in \<lparr>test_source = ''#[test]'' @ [newline] @ ''fn spec_'' @ nm @ ''() {'' @ [newline]
                          @ concat (map assertion_text group) @ ''}'' @ [newline],
          st_function = nm, case_count = length group\<rparr>)"

text \<open>One test per function, in the order of the names (a \<open>BTreeMap\<close>).\<close>

definition generate_spec_tests :: "function_trace list \<Rightarrow> spec_test list" where
  "generate_spec_tests traces = map (spec_test_of traces) (sort_dedup (map tr_function traces))"

definition generate_spec_test_module :: "function_trace list \<Rightarrow> string" where
  "generate_spec_test_module traces =
     (let tests = generate_spec_tests traces
      in if tests = [] then []
         else [newline] @ ''#[cfg(test)]'' @ [newline] @ ''mod spec_tests {'' @ [newline]
              @ ''    use super::*;'' @ [newline, newline]
              @ concat (map (\<lambda>t. concat (map (\<lambda>l. ''    '' @ l @ [newline]) (lines (test_source t))) @ [newline]) tests)
              @ ''}'' @ [newline])"

section \<open>Validation\<close>

record spec_validation_result =
  total_specs :: nat
  specs_ok :: nat
  specs_failed :: nat
  spec_failures :: "string list"

definition test_line :: "string \<Rightarrow> string \<Rightarrow> bool" where
  "test_line verdict_text l \<longleftrightarrow> contains l ''test '' \<and> contains l verdict_text"

definition read_test_report :: "string \<Rightarrow> spec_validation_result" where
  "read_test_report all_output =
     (let ok = length (filter (test_line ''... ok'') (lines all_output));
          failed_lines = filter (test_line ''... FAILED'') (lines all_output)
      in \<lparr>total_specs = ok + length failed_lines, specs_ok = ok, specs_failed = length failed_lines,
          spec_failures = failed_lines\<rparr>)"

definition validate_against_specs ::
  "'exe spec_tools \<Rightarrow> string \<Rightarrow> function_trace list \<Rightarrow> (tool_error, spec_validation_result) result" where
  "validate_against_specs tk rust_source traces =
     (let spec_module = generate_spec_test_module traces
      in if spec_module = [] then Inr \<lparr>total_specs = 0, specs_ok = 0, specs_failed = 0, spec_failures = []\<rparr>
         else
           (let combined = rust_source @ [newline] @ spec_module
            in bind_result (write_text tk combined) (\<lambda>_.
               bind_result (ok_or (rustc_test tk combined) (CommandNotFound ''rustc'')) (\<lambda>compiled.
                 case compiled of
                   Inl err_text \<Rightarrow>
                     Inr \<lparr>total_specs = length traces, specs_ok = 0, specs_failed = length traces,
                          spec_failures = [''Spec tests failed to compile: '' @ unlines (take 5 (lines err_text))]\<rparr>
                 | Inr exe \<Rightarrow>
                     bind_result (run_exe (spec_chain tk) exe None []) (\<lambda>out.
                       Inr (read_test_report (stdout out @ [newline] @ stderr out)))))))"

section \<open>Facts\<close>

lemma count_by_key:
  "distinct ks \<Longrightarrow> f ` set xs \<subseteq> set ks \<Longrightarrow> (\<Sum>k\<leftarrow>ks. length (filter (\<lambda>x. f x = k) xs)) = length xs"
proof (induction xs)
  case (Cons x xs)
  have one: "(\<Sum>k\<leftarrow>ks. if f x = k then 1 else 0) = (1::nat)" if "distinct ks" "f x \<in> set ks" for ks
    using that
  proof (induction ks)
    case (Cons k ks)
    show ?case
    proof (cases "f x = k")
      case True
      with Cons.prems have "map (\<lambda>k. if f x = k then 1 else 0::nat) ks = map (\<lambda>_. 0) ks" by auto
      then have "(\<Sum>k\<leftarrow>ks. if f x = k then 1 else 0::nat) = 0" by (metis sum_list_0)
      with True show ?thesis by simp
    qed (use Cons in auto)
  qed simp
  have "(\<Sum>k\<leftarrow>ks. length (filter (\<lambda>x. f x = k) (x # xs)))
      = (\<Sum>k\<leftarrow>ks. (if f x = k then 1 else 0) + length (filter (\<lambda>x. f x = k) xs))"
    by (intro arg_cong [of _ _ sum_list] map_cong) auto
  also have "\<dots> = (\<Sum>k\<leftarrow>ks. if f x = k then 1 else 0) + (\<Sum>k\<leftarrow>ks. length (filter (\<lambda>x. f x = k) xs))"
    by (rule sum_list_addf)
  finally show ?case using Cons one [of ks] by simp
qed (simp add: sum_list_0)

text \<open>
  The generated tests cover the traces: there is one test per traced function, in the order of the
  names, every trace is counted in exactly one test, and the assertion of every trace with a result
  is in the test of its function.
\<close>

theorem spec_tests_cover_traces:
  "map st_function (generate_spec_tests traces) = sort_dedup (map tr_function traces)
   \<and> (\<Sum>t\<leftarrow>generate_spec_tests traces. case_count t) = length traces
   \<and> (\<forall>tr \<in> set traces. \<exists>t \<in> set (generate_spec_tests traces).
        st_function t = tr_function tr \<and> contains (test_source t) (assertion_text tr))"
proof (intro conjI ballI)
  show "map st_function (generate_spec_tests traces) = sort_dedup (map tr_function traces)"
    by (simp add: generate_spec_tests_def comp_def spec_test_of_def Let_def)
  show "(\<Sum>t\<leftarrow>generate_spec_tests traces. case_count t) = length traces"
    using count_by_key [of "sort_dedup (map tr_function traces)" tr_function traces]
    by (simp add: generate_spec_tests_def comp_def spec_test_of_def Let_def)
  fix tr
  assume tr: "tr \<in> set traces"
  let ?t = "spec_test_of traces (tr_function tr)"
  have "tr \<in> set (filter (\<lambda>t. tr_function t = tr_function tr) traces)" using tr by simp
  then obtain xs ys where "filter (\<lambda>t. tr_function t = tr_function tr) traces = xs @ tr # ys"
    by (meson split_list)
  then have "test_source ?t = (''#[test]'' @ [newline] @ ''fn spec_'' @ tr_function tr @ ''() {'' @ [newline]
      @ concat (map assertion_text xs)) @ assertion_text tr @ (concat (map assertion_text ys) @ ''}'' @ [newline])"
    by (simp add: spec_test_of_def Let_def)
  then have "contains (test_source ?t) (assertion_text tr)" by (metis contains_infix)
  moreover have "?t \<in> set (generate_spec_tests traces)" using tr by (simp add: generate_spec_tests_def)
  ultimately show "\<exists>t \<in> set (generate_spec_tests traces).
      st_function t = tr_function tr \<and> contains (test_source t) (assertion_text tr)"
    by (intro bexI [of _ ?t]) (simp_all add: spec_test_of_def Let_def)
qed

definition sample_trace :: function_trace where
  "sample_trace = \<lparr>tr_function = ''add'', tr_inputs = [\<lparr>tv_type = ''int'', tv_value = ''2''\<rparr>],
     tr_output = Some \<lparr>tv_type = ''int'', tv_value = ''3''\<rparr>, tr_index = 0\<rparr>"

theorem spec_tests_cover_traces_witness:
  "\<exists>t \<in> set (generate_spec_tests [sample_trace]).
     st_function t = ''add'' \<and> contains (test_source t) (assertion_text sample_trace)"
proof -
  have "tr_function sample_trace = ''add''" by (simp add: sample_trace_def)
  with spec_tests_cover_traces [of "[sample_trace]"] show ?thesis by (metis list.set_intros(1))
qed

text \<open>A text that arises from another one by inserting a prefix a number of times.\<close>

inductive inserted :: "string \<Rightarrow> nat \<Rightarrow> string \<Rightarrow> string \<Rightarrow> bool" for p where
  inserted_none: "inserted p 0 s s"
| inserted_one: "inserted p n s (u @ v) \<Longrightarrow> inserted p (Suc n) s (u @ p @ v)"

lemma rename_one_inserts:
  assumes "inserted ''__noricum_orig_'' (length ws) src t" "rename_one (t, ws) f = (t', ws')"
  shows "inserted ''__noricum_orig_'' (length ws') src t'"
proof (cases "wrappable f \<and> contains t (if_return f @ '' '' @ if_name f @ ''('')")
  case True
  let ?pat = "if_return f @ '' '' @ if_name f @ ''(''"
  obtain i where i: "find_str t ?pat = Some i" using True find_str_contains [of t ?pat] by auto
  have parts: "t = (take i t @ if_return f @ '' '') @ (if_name f @ ''('' @ drop (i + length ?pat) t)"
    using find_str_Some [OF i] append_take_drop_id [of i t] append_take_drop_id [of "length ?pat" "drop i t"]
    by (metis append.assoc drop_drop add.commute)
  have t': "t' = (take i t @ if_return f @ '' '') @ ''__noricum_orig_'' @ (if_name f @ ''('' @ drop (i + length ?pat) t)"
    and ws: "ws' = ws @ [if_name f]"
    using assms(2) True i by (simp_all add: rename_one_def Let_def replace_first_def orig_name_def)
  have "inserted ''__noricum_orig_'' (length ws) src
      ((take i t @ if_return f @ '' '') @ (if_name f @ ''('' @ drop (i + length ?pat) t))"
    using assms(1) parts by (simp only: parts [symmetric])
  from inserted_one [OF this] show ?thesis unfolding t' ws by (simp only: length_append list.size) simp
next
  case False
  with assms show ?thesis by (auto simp: rename_one_def Let_def)
qed


lemma rename_all_inserts:
  "inserted ''__noricum_orig_'' (length ws) src t \<Longrightarrow> foldl rename_one (t, ws) fs = (t', ws') \<Longrightarrow>
     inserted ''__noricum_orig_'' (length ws') src t'
     \<and> set ws' \<subseteq> set ws \<union> {nm. \<exists>f \<in> set fs. wrappable f \<and> if_name f = nm}"
proof (induction fs arbitrary: t ws)
  case (Cons f fs)
  obtain u vs where step: "rename_one (t, ws) f = (u, vs)" by (cases "rename_one (t, ws) f") auto
  have "inserted ''__noricum_orig_'' (length vs) src u" by (rule rename_one_inserts [OF Cons.prems(1) step])
  moreover have "set vs \<subseteq> set ws \<union> {nm. wrappable f \<and> if_name f = nm}"
    using step by (auto simp: rename_one_def Let_def split: if_splits)
  ultimately show ?case using Cons.IH [of vs u] Cons.prems(2) step by auto
qed simp

lemma contains_concat_map: "x \<in> set xs \<Longrightarrow> contains (concat (map f xs)) (f x)"
proof -
  assume "x \<in> set xs"
  then obtain ys zs where "xs = ys @ x # zs" by (meson split_list)
  then have "concat (map f xs) = concat (map f ys) @ f x @ concat (map f zs)" by simp
  then show ?thesis by (metis contains_infix)
qed

text \<open>
  Instrumentation changes the program only by renaming: the instrumented source is the given source
  with the prefix \<open>__noricum_orig_\<close> inserted once per instrumented function, between a header that
  declares and a trailer that defines a wrapper for each of them; \<open>main\<close> and functions that cannot be
  instrumented are left alone.
\<close>

theorem instrument_only_renames:
  "\<exists>header modified trailer.
     instrumented_text (instrument src fs) = header @ modified @ trailer
     \<and> inserted ''__noricum_orig_'' (length (instrumented_functions (instrument src fs))) src modified
     \<and> (\<forall>nm \<in> set (instrumented_functions (instrument src fs)).
          nm \<noteq> ''main''
          \<and> (\<exists>f \<in> set fs. if_name f = nm \<and> if_ok f
                \<and> contains header (forward_declaration f) \<and> contains trailer (wrapper_text f)))"
proof -
  obtain t ws where fold: "foldl rename_one (src, []) fs = (t, ws)" by (cases "foldl rename_one (src, []) fs") auto
  let ?chosen = "filter (\<lambda>f. wrappable f \<and> if_name f \<in> set ws) fs"
  let ?header = "(''#include <stdio.h>'' @ [newline] @ ''#include <string.h>'' @ [newline, newline]
      @ ''// === NORICUM FORWARD DECLARATIONS ==='' @ [newline]) @ concat (map forward_declaration ?chosen) @ [newline]"
  let ?trailer = "([newline, newline] @ ''// === NORICUM INSTRUMENTATION WRAPPERS ==='' @ [newline, newline])
      @ concat (map wrapper_text ?chosen)"
  have ins: "instrumented_text (instrument src fs) = ?header @ t @ ?trailer" "instrumented_functions (instrument src fs) = ws"
    by (simp_all add: instrument_def fold Let_def)
  have all: "inserted ''__noricum_orig_'' (length ws) src t \<and> set ws \<subseteq> {nm. \<exists>f \<in> set fs. wrappable f \<and> if_name f = nm}"
    using rename_all_inserts [OF _ fold] inserted_none by force
  have "nm \<noteq> ''main'' \<and> (\<exists>f \<in> set fs. if_name f = nm \<and> if_ok f
      \<and> contains ?header (forward_declaration f) \<and> contains ?trailer (wrapper_text f))" if "nm \<in> set ws" for nm
  proof -
    from all that obtain f where f: "f \<in> set fs" "wrappable f" "if_name f = nm" by blast
    with that have "f \<in> set ?chosen" by simp
    then have d: "contains (concat (map forward_declaration ?chosen)) (forward_declaration f)"
      and w: "contains (concat (map wrapper_text ?chosen)) (wrapper_text f)" by (rule contains_concat_map)+
    have "contains ?header (forward_declaration f)" by (rule contains_prepend, rule contains_append, rule d)
    moreover have "contains ?trailer (wrapper_text f)" by (rule contains_prepend, rule w)
    ultimately show ?thesis using f unfolding wrappable_def by blast
  qed
  with ins all show ?thesis by blast
qed

definition sample_function :: instrumentable_function where
  "sample_function = \<lparr>if_name = ''add'', if_return = ''int'', if_params = [(''a'', ''int'')], if_ok = True, if_reason = None\<rparr>"

definition sample_source :: string where "sample_source = ''int add(int a) { return a; }''"

theorem instrument_only_renames_witness:
  "instrumented_functions (instrument sample_source [sample_function]) = [''add'']
   \<and> (\<exists>header modified trailer.
        instrumented_text (instrument sample_source [sample_function]) = header @ modified @ trailer
        \<and> inserted ''__noricum_orig_'' (length [''add'']) sample_source modified)"
proof -
  have found: "contains sample_source (if_return sample_function @ '' '' @ if_name sample_function @ ''('')"
    by code_simp
  have wrap: "wrappable sample_function" by code_simp
  have nm: "if_name sample_function = ''add''" by code_simp
  have one: "instrumented_functions (instrument sample_source [sample_function]) = [''add'']"
    using found wrap by (simp add: instrument_def rename_one_def Let_def nm)
  show ?thesis
    using instrument_only_renames [of sample_source "[sample_function]"] unfolding one by blast
qed

text \<open>
  The exit code of the test program is not looked at: a run that crashes before it reports anything
  counts as one without failures.
\<close>

lemma read_empty_report: "specs_failed (read_test_report [newline]) = 0 \<and> total_specs (read_test_report [newline]) = 0"
  by code_simp

lemma crashed_tests_have_no_failures:
  assumes "traces \<noteq> []" "write_text tk (src @ [newline] @ generate_spec_test_module traces) = Inr ()"
    and "rustc_test tk (src @ [newline] @ generate_spec_test_module traces) = Some (Inr exe)"
    and "run_exe (spec_chain tk) exe None [] = Inr \<lparr>stdout = [], stderr = [], exit_code = code\<rparr>"
  shows "\<exists>r. validate_against_specs tk src traces = Inr r \<and> specs_failed r = 0"
proof -
  have "generate_spec_tests traces \<noteq> []"
    using assms(1) set_sort_dedup [of "map tr_function traces"]
    by (metis generate_spec_tests_def list.map_disc_iff set_empty)
  then have "generate_spec_test_module traces \<noteq> []" by (simp add: generate_spec_test_module_def Let_def)
  with assms read_empty_report show ?thesis by (simp add: validate_against_specs_def Let_def)
qed

text \<open>
  A signature that goes on after its first line is read as one without parameters.
\<close>

lemma multi_line_signature_loses_params: "parse_params_from_signature ''int add(int a,'' = Some []"
  by code_simp

end
