(* ===== verification/Repair_Loop.thy ===== *)
theory Repair_Loop
  imports Repair_Agent Surgical_Repair Pipeline_Control Spec_Mining
begin

text \<open>
  Stages 7 and 8 of the pipeline (\<open>crates/noricum-core/src/orchestrator.rs\<close>): the repair loop with
  its quality floor, best version, stall detection and retranslation, the hybrid repair of large
  outputs, and the graduated end state. The state holds the unit, the number of client calls, the
  audit trail and the list of artifact saves (whose failures the code ignores).
\<close>

section \<open>Configuration, environment and state\<close>

record migration_config =
  max_repair_iterations :: u32
  min_idiomatic_score :: u32
  generate_tests :: bool
  fuzz_test :: bool
  fuzz_iterations :: u32
  preprocess :: bool
  analysis_temperature :: "rat option"
  translation_temperature :: "rat option"
  repair_base_temperature :: "rat option"
  test_gen_temperature :: "rat option"
  max_tokens_budget :: "u64 option"
  max_llm_calls :: "u32 option"
  skip_c2rust :: bool
  module_target_loc :: "nat option"
  max_unsafe_blocks :: "u32 option"
  warm_start :: "string option"
  crate_output_dir :: "string option"
  providers :: provider_config

record 'exe environment =
  bench :: "'exe workbench"
  client :: llm_client
  regexes :: regex_engine
  repair_preamble :: string
  translation_preamble :: string
  pattern_files :: "(string \<times> string) list"

datatype artifact_save =
    SavedRepair u32 string
  | SavedRejected u32 string
  | SavedStall string
  | SavedBest string u32 u32 bool
  | SavedCSource string
  | SavedC2Rust string
  | SavedAnalysis analysis_result
  | SavedTraces "function_trace list"
  | SavedChunk nat string
  | SavedSignatures string
  | SavedFoundation string
  | SavedRetranslation string string
  | SavedTranslation string
  | SavedValidation validation_result
  | SavedOutput string
  | SavedTests string
  | SavedManifest function_unit
  | SavedContract string
  | SavedModule string string
  | SavedModuleRepair string u32 string string
  | SavedModuleRejected string u32 string
  | SavedModuleManifest string "module_artifact list"

record pipeline =
  work :: function_unit
  calls_made :: nat
  trail :: "audit_trail option"
  saves :: "artifact_save list"

record repair_state = pipeline +
  best_version :: "string option"
  best_score :: u32
  best_unsafe :: u32
  best_compiles :: bool
  iteration :: u32
  prev_error_count :: "nat option"
  stall_count :: u32
  retranslated_on_stall :: bool

definition large_file_loc :: nat where "large_file_loc = 1000"
definition stall_threshold :: u32 where "stall_threshold = 2"

definition effective_repair_iterations :: "u32 \<Rightarrow> nat \<Rightarrow> bool \<Rightarrow> u32" where
  "effective_repair_iterations configured_max c_lines was_chunked =
     (if was_chunked then max configured_max 8
      else if massive_file_loc < c_lines then min configured_max 3
      else if very_large_file_loc < c_lines then min configured_max 2
      else if large_file_loc < c_lines then min configured_max 3
      else configured_max)"

definition save :: "artifact_save \<Rightarrow> 'z pipeline_scheme \<Rightarrow> 'z pipeline_scheme" where
  "save a st = st\<lparr>saves := saves st @ [a]\<rparr>"

definition audit :: "audit_event \<Rightarrow> 'z pipeline_scheme \<Rightarrow> 'z pipeline_scheme" where
  "audit e st = st\<lparr>trail := map_option (\<lambda>t. audit_log t e) (trail st)\<rparr>"

definition update_work :: "(function_unit \<Rightarrow> function_unit) \<Rightarrow> 'z pipeline_scheme \<Rightarrow> 'z pipeline_scheme" where
  "update_work f st = st\<lparr>work := f (work st)\<rparr>"

definition update_metrics :: "(migration_metrics \<Rightarrow> migration_metrics) \<Rightarrow> 'z pipeline_scheme \<Rightarrow> 'z pipeline_scheme" where
  "update_metrics f = update_work (\<lambda>u. u\<lparr>metrics := f (metrics u)\<rparr>)"

definition count_llm_call :: "migration_metrics \<Rightarrow> migration_metrics" where
  "count_llm_call m = m\<lparr>llm_calls := llm_calls m + 1\<rparr>"

definition validate_unit ::
  "'exe environment \<Rightarrow> u32 \<Rightarrow> function_unit \<Rightarrow> (core_error, validation_result) result" where
  "validate_unit env min_score u =
     (case validate_with_threshold (bench env) u min_score of
        Inl e \<Rightarrow> Inl (ValidationFailure e) | Inr v \<Rightarrow> Inr v)"

definition unit_has_substance :: "function_unit \<Rightarrow> bool" where
  "unit_has_substance u =
     (case rust_output u of Some r \<Rightarrow> has_substance r (c_source u) | None \<Rightarrow> False)"

section \<open>The best version\<close>

text \<open>P1 and P6b: a validated output replaces the best version if it has substance, stays under
  the cap, and scores higher or is the first that compiles.\<close>

definition improves :: "u32 \<Rightarrow> validation_result \<Rightarrow> repair_state \<Rightarrow> bool" where
  "improves unsafe_ceiling v st =
     (unit_has_substance (work st) \<and> vr_unsafe_count v \<le> unsafe_ceiling
      \<and> (best_score st < vr_idiomatic_score v \<or> (compiles v \<and> \<not> best_compiles st)))"

definition track_best :: "u32 \<Rightarrow> validation_result \<Rightarrow> repair_state \<Rightarrow> repair_state" where
  "track_best unsafe_ceiling v st =
     (if improves unsafe_ceiling v st then
        (let st' = st\<lparr>best_version := rust_output (work st), best_score := vr_idiomatic_score v,
                      best_unsafe := vr_unsafe_count v, best_compiles := compiles v\<rparr>
         in case best_version st' of
              Some b \<Rightarrow> save (SavedBest b (vr_idiomatic_score v) (vr_unsafe_count v) (compiles v)) st'
            | None \<Rightarrow> st')
      else st)"

definition start_repair :: "pipeline \<Rightarrow> validation_result \<Rightarrow> repair_state" where
  "start_repair p v =
     (let substance = unit_has_substance (work p)
      in pipeline.extend p
           \<lparr>best_version = (if substance then rust_output (work p) else None),
            best_score = (if substance then vr_idiomatic_score v else 0),
            best_unsafe = vr_unsafe_count v,
            best_compiles = (if substance then compiles v else False),
            iteration = 1, prev_error_count = None, stall_count = 0, retranslated_on_stall = False\<rparr>)"

section \<open>One iteration\<close>

datatype control = Continue | Break

definition next_iteration :: "repair_state \<Rightarrow> repair_state" where
  "next_iteration st = st\<lparr>iteration := iteration st + 1\<rparr>"

text \<open>P5: what the agent is told besides compiler errors.\<close>

definition effective_feedback :: "migration_config \<Rightarrow> function_unit \<Rightarrow> string list" where
  "effective_feedback cfg u =
     (let hints = (if last_errors u = [] \<and> last_diff_feedback u = []
                      \<and> unwrap_or (idiomatic_score u) 0 < min_idiomatic_score cfg
                   then generate_idiomatic_hints (unwrap_or (rust_output u) []) else [])
      in if hints = [] then last_diff_feedback u else hints)"

definition detect_stall :: "nat \<Rightarrow> repair_state \<Rightarrow> repair_state" where
  "detect_stall current st =
     st\<lparr>stall_count := (case prev_error_count st of
            Some prev \<Rightarrow> if current = prev \<and> 0 < current then stall_count st + 1 else 0
          | None \<Rightarrow> stall_count st),
        prev_error_count := Some current\<rparr>"

text \<open>P22: after three iterations the agent may use unsafe code.\<close>

definition unsafe_permission :: "u32 \<Rightarrow> string" where
  "unsafe_permission cap =
     ''IMPORTANT: If you cannot fix the compilation errors with safe code, ''
     @ ''you MAY use up to '' @ show_nat (unat cap) @ '' unsafe block(s) to make the code compile. ''
     @ ''A compiling program with minimal unsafe is better than one that doesn't compile. ''
     @ ''Wrap only the minimum necessary code in unsafe.''"

text \<open>The current output is validated again and the outcome recorded.\<close>

definition revalidate ::
  "'exe environment \<Rightarrow> migration_config \<Rightarrow> u32 \<Rightarrow> repair_state
   \<Rightarrow> (core_error, validation_result \<times> repair_state) result" where
  "revalidate env cfg max_iters st =
     bind_result (validate_unit env (min_idiomatic_score cfg) (work st)) (\<lambda>v.
       Inr (v, update_work (\<lambda>u. apply_validation_with_max u v max_iters) st))"

text \<open>The branch after a stall: a fresh translation replaces the output.\<close>

definition adopt_retranslation ::
  "'exe environment \<Rightarrow> migration_config \<Rightarrow> u32 \<Rightarrow> u32 \<Rightarrow> string \<Rightarrow> repair_state
   \<Rightarrow> (core_error, control \<times> repair_state) result" where
  "adopt_retranslation env cfg max_iters cap fresh st =
     (let st1 = save (SavedStall fresh) (update_work (\<lambda>u. u\<lparr>rust_output := Some fresh\<rparr>) st);
          st2 = (update_metrics count_llm_call st1)\<lparr>stall_count := 0, prev_error_count := None\<rparr>
      in bind_result (revalidate env cfg max_iters st2) (\<lambda>(v, st3).
           (let st4 = track_best cap v st3
            in if passed v then Inr (Break, st4) else Inr (Continue, next_iteration st4))))"

text \<open>The branch for a repair that is accepted by the quality floor.\<close>

definition adopt_repair ::
  "'exe environment \<Rightarrow> migration_config \<Rightarrow> u32 \<Rightarrow> u32 \<Rightarrow> string \<Rightarrow> string \<Rightarrow> repair_state
   \<Rightarrow> (core_error, control \<times> repair_state) result" where
  "adopt_repair env cfg max_iters cap current_rust repaired st =
     (let i = iteration st;
          st1 = update_work (\<lambda>u. u\<lparr>rust_output := Some repaired, unit_state := Repairing i\<rparr>) st;
          st2 = update_metrics (\<lambda>m. (count_llm_call m)
                  \<lparr>input_tokens := input_tokens m + estimate_tokens current_rust,
                   output_tokens := output_tokens m + estimate_tokens repaired,
                   repair_iterations := i\<rparr>) st1
      in bind_result (check_budget (max_tokens_budget cfg) (max_llm_calls cfg) (metrics (work st2))) (\<lambda>_.
         bind_result (revalidate env cfg max_iters st2) (\<lambda>(v, st3).
           (let st4 = save (SavedRepair i (unwrap_or (rust_output (work st3)) [])) st3;
                st5 = track_best cap v st4
            in if passed v then Inr (Break, st5) else Inr (Continue, next_iteration st5)))))"

definition skip_repair :: "repair_state \<Rightarrow> repair_state" where
  "skip_repair st =
     next_iteration (update_metrics (\<lambda>m. (count_llm_call m)\<lparr>repair_iterations := iteration st\<rparr>) st)"

text \<open>P0: the repair proper; it is rejected when it has more unsafe blocks than the ceiling.\<close>

definition repair_step ::
  "'exe environment \<Rightarrow> migration_config \<Rightarrow> string \<Rightarrow> u32 \<Rightarrow> u32 \<Rightarrow> nat \<Rightarrow> string list \<Rightarrow> repair_state
   \<Rightarrow> (core_error, control \<times> repair_state) result" where
  "repair_step env cfg model max_iters cap c_lines feedback st =
     (let u = work st; errors = last_errors u; i = iteration st;
          current_rust = unwrap_or (rust_output u) [];
          st1 = audit (RepairIteration (unit_name u) i max_iters (length errors) (length feedback)) st;
          feedback' = (if errors \<noteq> [] \<and> 3 \<le> i \<and> 0 < cap
                       then feedback @ [unsafe_permission cap] else feedback);
          (answer, n) = repair_function_full (client env) (repair_preamble env) model current_rust errors
                          feedback' (c_source u) i max_iters (repair_base_temperature cfg)
                          (if c_lines < 1500 then None else Some 500) (calls_made st1);
          st2 = st1\<lparr>calls_made := n\<rparr>
      in case answer of
           Inl e \<Rightarrow> Inr (Continue, skip_repair st2)
         | Inr repaired \<Rightarrow>
             if cap < count_unsafe_blocks_ast (bench env) repaired
             then Inr (Continue, skip_repair (save (SavedRejected i repaired) st2))
             else adopt_repair env cfg max_iters cap current_rust repaired st2)"

definition retranslate ::
  "'exe environment \<Rightarrow> string \<Rightarrow> analysis_result \<Rightarrow> repair_state \<Rightarrow> (agent_error, string) result \<times> nat" where
  "retranslate env model analysis st =
     translate_function_with_patterns_and_temperature (client env) (translation_preamble env) model
       (c_source (work st)) (c2rust_output (work st)) analysis
       (find_relevant (load_seed_patterns (pattern_files env)) (c_source (work st)) 3) (Some (7/10)) (calls_made st)"

definition repair_iteration ::
  "'exe environment \<Rightarrow> migration_config \<Rightarrow> string \<Rightarrow> analysis_result \<Rightarrow> u32 \<Rightarrow> u32 \<Rightarrow> nat \<Rightarrow> repair_state
   \<Rightarrow> (core_error, control \<times> repair_state) result" where
  "repair_iteration env cfg model analysis max_iters cap c_lines st =
     (let feedback = effective_feedback cfg (work st);
          st1 = detect_stall (length (last_errors (work st)) + length feedback) st
      in if stall_threshold \<le> stall_count st1 \<and> \<not> retranslated_on_stall st1 \<and> \<not> modular_file_loc < c_lines then
           (case retranslate env model analysis st1 of
              (Inr fresh, n) \<Rightarrow>
                adopt_retranslation env cfg max_iters cap fresh
                  (st1\<lparr>retranslated_on_stall := True, calls_made := n\<rparr>)
            | (Inl e, n) \<Rightarrow>
                repair_step env cfg model max_iters cap c_lines feedback
                  (st1\<lparr>retranslated_on_stall := True, calls_made := n\<rparr>))
         else repair_step env cfg model max_iters cap c_lines feedback st1)"

text \<open>The loop; \<open>None\<close> when the fuel is used up before it ends.\<close>

fun repair_loop ::
  "nat \<Rightarrow> 'exe environment \<Rightarrow> migration_config \<Rightarrow> string \<Rightarrow> analysis_result \<Rightarrow> u32 \<Rightarrow> u32 \<Rightarrow> nat
   \<Rightarrow> repair_state \<Rightarrow> (core_error, repair_state) result option" where
  "repair_loop fuel env cfg model analysis max_iters cap c_lines st =
     (if max_iters < iteration st then Some (Inr st)
      else case fuel of
          0 \<Rightarrow> None
        | Suc k \<Rightarrow>
            (case repair_iteration env cfg model analysis max_iters cap c_lines st of
               Inl e \<Rightarrow> Some (Inl e)
             | Inr (Break, st') \<Rightarrow> Some (Inr st')
             | Inr (Continue, st') \<Rightarrow> repair_loop k env cfg model analysis max_iters cap c_lines st'))"

declare repair_loop.simps [simp del]

section \<open>Stage 8\<close>

definition finish_repair :: "repair_state \<Rightarrow> repair_state" where
  "finish_repair st =
     (if unit_state (work st) = Validated then st
      else update_work (\<lambda>u.
             (let error_count = length (last_errors u);
                  u1 = (case best_version st of
                          Some b \<Rightarrow> u\<lparr>rust_output := Some b, idiomatic_score := Some (best_score st),
                                     unsafe_count := Some (best_unsafe st)\<rparr>
                        | None \<Rightarrow> (case c2rust_output u of Some c \<Rightarrow> u\<lparr>rust_output := Some c\<rparr> | None \<Rightarrow> u))
              in u1\<lparr>unit_state := graduated_state (best_compiles st) (best_unsafe st) (best_score st) 80 error_count\<rparr>)) st)"

definition unsafe_ceiling :: "migration_config \<Rightarrow> validation_result \<Rightarrow> u32" where
  "unsafe_ceiling cfg v =
     (case max_unsafe_blocks cfg of None \<Rightarrow> vr_unsafe_count v | Some m \<Rightarrow> max m (vr_unsafe_count v))"

definition lift_agent :: "(agent_error, 'a) result \<Rightarrow> (core_error, 'a) result" where
  "lift_agent r = (case r of Inl e \<Rightarrow> Inl (AgentError (debug_agent_error e)) | Inr a \<Rightarrow> Inr a)"

text \<open>The repair stage for outputs that the hybrid repair does not handle.\<close>

definition legacy_repair ::
  "nat \<Rightarrow> 'exe environment \<Rightarrow> migration_config \<Rightarrow> difficulty \<Rightarrow> analysis_result \<Rightarrow> u32 \<Rightarrow> nat
   \<Rightarrow> validation_result \<Rightarrow> pipeline \<Rightarrow> (core_error, repair_state) result option" where
  "legacy_repair fuel env cfg d analysis max_iters c_lines v p =
     (case lift_agent (select_repair_model (providers cfg) d) of
        Inl e \<Rightarrow> Some (Inl e)
      | Inr sel \<Rightarrow>
          (let max_iters' = (if modular_file_loc < c_lines then min max_iters 3 else max_iters)
           in case repair_loop fuel env cfg (sel_model sel) analysis max_iters' (unsafe_ceiling cfg v) c_lines
                     (start_repair p v) of
                None \<Rightarrow> None
              | Some (Inl e) \<Rightarrow> Some (Inl e)
              | Some (Inr st) \<Rightarrow> Some (Inr (finish_repair st))))"

section \<open>What the helpers leave alone\<close>

named_theorems pipeline_simps \<open>fields that the operations on the repair state keep\<close>

lemma save_fields [pipeline_simps]:
  "work (save a st) = work st" "iteration (save a st) = iteration st"
  "best_version (save a st) = best_version st" "best_score (save a st) = best_score st"
  "best_unsafe (save a st) = best_unsafe st" "best_compiles (save a st) = best_compiles st"
  by (simp_all add: save_def)

lemma audit_fields [pipeline_simps]:
  "work (audit e st) = work st" "iteration (audit e st) = iteration st"
  "best_version (audit e st) = best_version st" "best_score (audit e st) = best_score st"
  "best_unsafe (audit e st) = best_unsafe st" "best_compiles (audit e st) = best_compiles st"
  by (simp_all add: audit_def)

lemma update_work_fields [pipeline_simps]:
  "work (update_work f st) = f (work st)" "iteration (update_work f st) = iteration st"
  "best_version (update_work f st) = best_version st" "best_score (update_work f st) = best_score st"
  "best_unsafe (update_work f st) = best_unsafe st" "best_compiles (update_work f st) = best_compiles st"
  by (simp_all add: update_work_def)

lemma track_best_fields [pipeline_simps]:
  "work (track_best cap v st) = work st" "iteration (track_best cap v st) = iteration st"
  by (auto simp: track_best_def Let_def pipeline_simps split: option.splits)

section \<open>Grades\<close>

text \<open>The grades the validator gives to a text, independent of the unit that carries it.\<close>

definition graded_as :: "'exe workbench \<Rightarrow> string \<Rightarrow> string \<Rightarrow> u32 \<Rightarrow> u32 \<Rightarrow> bool \<Rightarrow> bool" where
  "graded_as wb c_src rust_src score unsafes builds =
     (\<exists>r warnings. check_rust_compiles wb rust_src = Inr r \<and> run_clippy_on_source wb rust_src = Inr warnings
        \<and> builds = success r \<and> unsafes = count_unsafe_blocks wb rust_src
        \<and> score = compute_idiomatic_score_from_source unsafes (as_u32 (length warnings)) rust_src c_src)"

lemma validation_grades:
  assumes "validate_unit env m u = Inr v"
  shows "\<exists>s. rust_output u = Some s
     \<and> graded_as (bench env) (c_source u) s (vr_idiomatic_score v) (vr_unsafe_count v) (compiles v)"
proof -
  from assms have v: "validate_with_threshold (bench env) u m = Inr v"
    by (auto simp: validate_unit_def split: sum.splits)
  obtain s where s: "rust_output u = Some s" using v
    by (cases "rust_output u") (auto simp: validate_with_threshold_def)
  obtain cr where cr: "check_rust_compiles (bench env) s = Inr cr" using v s
    by (cases "check_rust_compiles (bench env) s") (auto simp: validate_with_threshold_def lift_tool_def)
  obtain ws where ws: "run_clippy_on_source (bench env) s = Inr ws" using v s cr
    by (cases "run_clippy_on_source (bench env) s") (auto simp: validate_with_threshold_def lift_tool_def)
  from v s cr ws show ?thesis
    by (auto simp: validate_with_threshold_def lift_tool_def graded_as_def Let_def case_prod_beta)
qed

lemma validate_same_sources:
  assumes "rust_output u' = rust_output u" "c_source u' = c_source u" "unit_name u' = unit_name u"
  shows "validate_unit env m u' = validate_unit env m u"
proof -
  have "diff_step wb u' s b = diff_step wb u s b" for wb :: "'a workbench" and s b
    using assms by (simp add: diff_step_def test_c_source_def)
  then show ?thesis
    using assms by (simp add: validate_unit_def validate_with_threshold_def)
qed

definition best_is_graded :: "'exe environment \<Rightarrow> u32 \<Rightarrow> repair_state \<Rightarrow> bool" where
  "best_is_graded env cap st =
     (best_unsafe st \<le> cap \<and> (best_compiles st \<longrightarrow> best_version st \<noteq> None)
      \<and> (\<forall>b. best_version st = Some b \<longrightarrow>
            graded_as (bench env) (c_source (work st)) b (best_score st) (best_unsafe st) (best_compiles st)))"

lemma best_graded_keep:
  assumes "best_is_graded env cap st" "best_version st' = best_version st" "best_score st' = best_score st"
    "best_unsafe st' = best_unsafe st" "best_compiles st' = best_compiles st"
    "c_source (work st') = c_source (work st)"
  shows "best_is_graded env cap st'"
  using assms by (simp add: best_is_graded_def)

lemma track_best_graded:
  assumes "best_is_graded env cap st" and "validate_unit env m (work st) = Inr v"
  shows "best_is_graded env cap (track_best cap v st)"
proof (cases "improves cap v st")
  case True
  obtain s where s: "rust_output (work st) = Some s"
    "graded_as (bench env) (c_source (work st)) s (vr_idiomatic_score v) (vr_unsafe_count v) (compiles v)"
    using validation_grades [OF assms(2)] by blast
  moreover have "vr_unsafe_count v \<le> cap" using True by (simp add: improves_def)
  ultimately show ?thesis using True
    by (simp add: track_best_def Let_def best_is_graded_def save_def)
next
  case False
  with assms show ?thesis by (simp add: track_best_def)
qed

definition loop_inv :: "'exe environment \<Rightarrow> u32 \<Rightarrow> repair_state \<Rightarrow> bool" where
  "loop_inv env cap st = (unit_state (work st) \<noteq> Validated \<and> best_is_graded env cap st)"

text \<open>The unit is validated, and its present output passes when it is validated again.\<close>

definition passes :: "'exe environment \<Rightarrow> migration_config \<Rightarrow> function_unit \<Rightarrow> bool" where
  "passes env cfg u =
     (unit_state u = Validated
      \<and> (\<exists>v. validate_unit env (min_idiomatic_score cfg) u = Inr v \<and> passed v))"

text \<open>The common end of both branches: validate, record, track, and stop or go on.\<close>

lemma revalidate_outcome:
  assumes "revalidate env cfg mx st = Inr (v, st')" and "best_is_graded env cap st"
  shows "validate_unit env (min_idiomatic_score cfg) (work st') = Inr v"
    and "best_is_graded env cap st'" "iteration st' = iteration st"
    and "c_source (work st') = c_source (work st)"
    and "metrics (work st') = metrics (work st)"
    and "passed v \<Longrightarrow> passes env cfg (work st')"
    and "\<not> passed v \<Longrightarrow> unit_state (work st') \<noteq> Validated"
proof -
  from assms(1) have v: "validate_unit env (min_idiomatic_score cfg) (work st) = Inr v"
    and st': "st' = update_work (\<lambda>u. apply_validation_with_max u v mx) st"
    by (auto simp: revalidate_def bind_result_Inr_iff)
  have same: "validate_unit env (min_idiomatic_score cfg) (work st')
      = validate_unit env (min_idiomatic_score cfg) (work st)"
    by (rule validate_same_sources) (simp_all add: st' pipeline_simps apply_validation_with_max_def)
  then show again: "validate_unit env (min_idiomatic_score cfg) (work st') = Inr v" using v by simp
  show "best_is_graded env cap st'"
    by (rule best_graded_keep [OF assms(2)]) (simp_all add: st' pipeline_simps apply_validation_with_max_def)
  show "iteration st' = iteration st" "c_source (work st') = c_source (work st)"
    "metrics (work st') = metrics (work st)"
    by (simp_all add: st' pipeline_simps apply_validation_with_max_def)
  show "passed v \<Longrightarrow> passes env cfg (work st')"
    using again by (simp add: passes_def st' pipeline_simps apply_validation_with_max_def next_state_def)
  show "\<not> passed v \<Longrightarrow> unit_state (work st') \<noteq> Validated"
    by (simp add: st' pipeline_simps apply_validation_with_max_def next_state_def split: migration_state.splits)
qed

section \<open>One iteration keeps the invariant\<close>

definition step_ok ::
  "'exe environment \<Rightarrow> migration_config \<Rightarrow> u32 \<Rightarrow> repair_state \<Rightarrow> control \<times> repair_state \<Rightarrow> bool" where
  "step_ok env cfg cap st out =
     (case out of (ctl, st') \<Rightarrow>
        llm_calls (metrics (work st')) = llm_calls (metrics (work st)) + 1
        \<and> c_source (work st') = c_source (work st)
        \<and> (case ctl of
             Continue \<Rightarrow> loop_inv env cap st' \<and> iteration st' = iteration st + 1
           | Break \<Rightarrow> best_is_graded env cap st' \<and> passes env cfg (work st')))"

text \<open>The end of a branch after the validation of its output.\<close>

lemma conclude_ok:
  assumes "revalidate env cfg mx st1 = Inr (v, st2)" and "best_is_graded env cap st1"
    and "llm_calls (metrics (work st1)) = llm_calls (metrics (work st)) + 1"
    and "c_source (work st1) = c_source (work st)" and "iteration st1 = iteration st"
    and "st3 = st2 \<or> (\<exists>a. st3 = save a st2)"
    and "out = (if passed v then (Break, track_best cap v st3) else (Continue, next_iteration (track_best cap v st3)))"
  shows "step_ok env cfg cap st out"
proof -
  note r = revalidate_outcome [OF assms(1,2)]
  have w3: "work st3 = work st2" "iteration st3 = iteration st2"
    using assms(6) by (auto simp: pipeline_simps)
  have "best_is_graded env cap st3"
    by (rule best_graded_keep [OF r(2)]) (use assms(6) in \<open>auto simp: pipeline_simps\<close>)
  then have best: "best_is_graded env cap (track_best cap v st3)"
    by (rule track_best_graded) (use r(1) w3 in simp)
  have "best_is_graded env cap (next_iteration (track_best cap v st3))"
    by (rule best_graded_keep [OF best]) (simp_all add: next_iteration_def)
  then show ?thesis
    using assms(3-5,7) best r w3
    by (cases "passed v") (simp_all add: step_ok_def loop_inv_def pipeline_simps next_iteration_def)
qed

lemma adopt_retranslation_ok:
  assumes "adopt_retranslation env cfg mx cap fresh st = Inr out" and "best_is_graded env cap st"
  shows "step_ok env cfg cap st out"
proof -
  define st1 where "st1 = (update_metrics count_llm_call
      (save (SavedStall fresh) (update_work (\<lambda>u. u\<lparr>rust_output := Some fresh\<rparr>) st)))
      \<lparr>stall_count := 0, prev_error_count := None\<rparr>"
  obtain v st2 where r: "revalidate env cfg mx st1 = Inr (v, st2)"
    and out: "out = (if passed v then (Break, track_best cap v st2) else (Continue, next_iteration (track_best cap v st2)))"
    using assms(1)
    by (auto simp: adopt_retranslation_def Let_def st1_def bind_result_Inr_iff split: if_splits)
  have best: "best_is_graded env cap st1"
    by (rule best_graded_keep [OF assms(2)]) (simp_all add: st1_def pipeline_simps update_metrics_def)
  show ?thesis
    by (rule conclude_ok [OF r best _ _ _ _ out])
       (simp_all add: st1_def pipeline_simps update_metrics_def count_llm_call_def)
qed

lemma adopt_repair_ok:
  assumes "adopt_repair env cfg mx cap cur repaired st = Inr out" and "best_is_graded env cap st"
  shows "step_ok env cfg cap st out"
proof -
  define st1 where "st1 = update_metrics (\<lambda>m. (count_llm_call m)
                  \<lparr>input_tokens := input_tokens m + estimate_tokens cur,
                   output_tokens := output_tokens m + estimate_tokens repaired,
                   repair_iterations := iteration st\<rparr>)
      (update_work (\<lambda>u. u\<lparr>rust_output := Some repaired, unit_state := Repairing (iteration st)\<rparr>) st)"
  obtain v st2 where r: "revalidate env cfg mx st1 = Inr (v, st2)"
    and out: "out = (let st3 = save (SavedRepair (iteration st) (unwrap_or (rust_output (work st2)) [])) st2
       in if passed v then (Break, track_best cap v st3) else (Continue, next_iteration (track_best cap v st3)))"
    using assms(1)
    by (auto simp: adopt_repair_def Let_def st1_def bind_result_Inr_iff split: if_splits)
  have best: "best_is_graded env cap st1"
    by (rule best_graded_keep [OF assms(2)]) (simp_all add: st1_def pipeline_simps update_metrics_def)
  show ?thesis
    by (rule conclude_ok [OF r best, where ?st3.0 = "save (SavedRepair (iteration st) (unwrap_or (rust_output (work st2)) [])) st2"])
       (use out in \<open>auto simp: st1_def pipeline_simps update_metrics_def count_llm_call_def Let_def\<close>)
qed

lemma skip_repair_ok:
  assumes "loop_inv env cap st" and "work st' = work st" "iteration st' = iteration st"
    "best_version st' = best_version st" "best_score st' = best_score st"
    "best_unsafe st' = best_unsafe st" "best_compiles st' = best_compiles st"
  shows "step_ok env cfg cap st (Continue, skip_repair st')"
proof -
  have "best_is_graded env cap (skip_repair st')"
    by (rule best_graded_keep [of _ _ st])
       (use assms in \<open>simp_all add: loop_inv_def skip_repair_def next_iteration_def pipeline_simps update_metrics_def\<close>)
  with assms show ?thesis
    by (simp add: step_ok_def loop_inv_def skip_repair_def next_iteration_def pipeline_simps update_metrics_def
        count_llm_call_def)
qed

lemma step_ok_same_work:
  "step_ok env cfg cap st out \<Longrightarrow> work st' = work st \<Longrightarrow> iteration st' = iteration st \<Longrightarrow> step_ok env cfg cap st' out"
  by (cases out) (simp add: step_ok_def split: control.splits)

lemma repair_step_ok:
  assumes "repair_step env cfg model mx cap n fb st = Inr out" and "loop_inv env cap st"
  shows "step_ok env cfg cap st out"
proof -
  define fb' where "fb' = (if last_errors (work st) \<noteq> [] \<and> 3 \<le> iteration st \<and> 0 < cap
      then fb @ [unsafe_permission cap] else fb)"
  define st1 where "st1 = audit (RepairIteration (unit_name (work st)) (iteration st) mx
      (length (last_errors (work st))) (length fb)) st"
  obtain answer k where a: "repair_function_full (client env) (repair_preamble env) model
      (unwrap_or (rust_output (work st)) []) (last_errors (work st)) fb' (c_source (work st)) (iteration st) mx
      (repair_base_temperature cfg) (if n < 1500 then None else Some 500) (calls_made st1) = (answer, k)"
    by fastforce
  define st2 where "st2 = st1\<lparr>calls_made := k\<rparr>"
  have same: "work st2 = work st" "iteration st2 = iteration st" "best_version st2 = best_version st"
    "best_score st2 = best_score st" "best_unsafe st2 = best_unsafe st" "best_compiles st2 = best_compiles st"
    by (simp_all add: st2_def st1_def pipeline_simps)
  have step: "(case answer of Inl e \<Rightarrow> Inr (Continue, skip_repair st2)
      | Inr repaired \<Rightarrow>
          if cap < count_unsafe_blocks_ast (bench env) repaired
          then Inr (Continue, skip_repair (save (SavedRejected (iteration st) repaired) st2))
          else adopt_repair env cfg mx cap (unwrap_or (rust_output (work st)) []) repaired st2) = Inr out"
    using assms(1) a
    by (cases answer) (auto simp: repair_step_def Let_def fb'_def st1_def st2_def split: if_splits)
  have best: "best_is_graded env cap st2"
    by (rule best_graded_keep [of _ _ st]) (use assms(2) same in \<open>simp_all add: loop_inv_def\<close>)
  show ?thesis
  proof (cases answer)
    case (Inl e)
    with step have "out = (Continue, skip_repair st2)" by simp
    with skip_repair_ok [OF assms(2) same] show ?thesis by simp
  next
    case (Inr repaired)
    show ?thesis
    proof (cases "cap < count_unsafe_blocks_ast (bench env) repaired")
      case True
      with step Inr have "out = (Continue, skip_repair (save (SavedRejected (iteration st) repaired) st2))" by simp
      moreover have "step_ok env cfg cap st (Continue, skip_repair (save (SavedRejected (iteration st) repaired) st2))"
        by (rule skip_repair_ok [OF assms(2)]) (simp_all add: pipeline_simps same)
      ultimately show ?thesis by simp
    next
      case False
      with step Inr have "adopt_repair env cfg mx cap (unwrap_or (rust_output (work st)) []) repaired st2 = Inr out"
        by simp
      from adopt_repair_ok [OF this best] show ?thesis by (rule step_ok_same_work) (simp_all add: same)
    qed
  qed
qed

lemma repair_iteration_ok:
  assumes "repair_iteration env cfg model analysis mx cap n st = Inr out" and "loop_inv env cap st"
  shows "step_ok env cfg cap st out"
proof -
  define fb where "fb = effective_feedback cfg (work st)"
  define st1 where "st1 = detect_stall (length (last_errors (work st)) + length fb) st"
  have keep: "loop_inv env cap (st1\<lparr>retranslated_on_stall := b, calls_made := k\<rparr>)" for b k
    using assms(2) by (simp add: loop_inv_def best_is_graded_def st1_def detect_stall_def)
  have keep1: "loop_inv env cap st1"
    using assms(2) by (simp add: loop_inv_def best_is_graded_def st1_def detect_stall_def)
  have same: "work st = work st1" "iteration st = iteration st1"
    by (simp_all add: st1_def detect_stall_def)
  obtain answer k where a: "retranslate env model analysis st1 = (answer, k)" by fastforce
  define st2 where "st2 = st1\<lparr>retranslated_on_stall := True, calls_made := k\<rparr>"
  have same2: "work st = work st2" "iteration st = iteration st2"
    by (simp_all add: st2_def same)
  have inv2: "loop_inv env cap st2" unfolding st2_def by (rule keep)
  consider "repair_step env cfg model mx cap n fb st1 = Inr out"
    | fresh where "adopt_retranslation env cfg mx cap fresh st2 = Inr out"
    | "repair_step env cfg model mx cap n fb st2 = Inr out"
    using assms(1) a
    by (auto simp: repair_iteration_def Let_def fb_def [symmetric] st1_def [symmetric] st2_def split: if_splits sum.splits)
  then show ?thesis
  proof cases
    case 1
    from repair_step_ok [OF this keep1] show ?thesis by (rule step_ok_same_work) (rule same)+
  next
    case 2
    have "best_is_graded env cap st2" using inv2 by (simp add: loop_inv_def)
    from adopt_retranslation_ok [OF 2 this] show ?thesis by (rule step_ok_same_work) (rule same2)+
  next
    case 3
    from repair_step_ok [OF this inv2] show ?thesis by (rule step_ok_same_work) (rule same2)+
  qed
qed

section \<open>The loop\<close>

text \<open>With room for the counter the loop ends within its iterations, and what it ends with.\<close>

lemma repair_loop_ends:
  assumes "loop_inv env cap st" and "unat mx + 1 < 2 ^ 32" and "unat mx + 1 \<le> unat (iteration st) + fuel"
  shows "\<exists>r. repair_loop fuel env cfg model analysis mx cap n st = Some r
    \<and> (\<forall>st'. r = Inr st' \<longrightarrow>
          (loop_inv env cap st' \<or> (best_is_graded env cap st' \<and> passes env cfg (work st')))
          \<and> c_source (work st') = c_source (work st)
          \<and> (\<exists>k \<le> unat mx + 1 - unat (iteration st).
                llm_calls (metrics (work st')) = llm_calls (metrics (work st)) + of_nat k))"
  using assms
proof (induction fuel arbitrary: st)
  case 0
  then have "mx < iteration st" by (simp add: word_less_nat_alt)
  with 0 show ?case by (subst repair_loop.simps) (auto intro: exI [of _ 0])
next
  case (Suc k)
  show ?case
  proof (cases "mx < iteration st")
    case True
    with Suc.prems show ?thesis by (subst repair_loop.simps) (auto intro: exI [of _ 0])
  next
    case False
    then have le: "unat (iteration st) \<le> unat mx" by (simp add: word_le_nat_alt not_less)
    show ?thesis
    proof (cases "repair_iteration env cfg model analysis mx cap n st")
      case (Inl e)
      with False show ?thesis by (subst repair_loop.simps) simp
    next
      case (Inr out)
      obtain ctl st1 where out: "out = (ctl, st1)" by fastforce
      have ok: "step_ok env cfg cap st (ctl, st1)"
        using repair_iteration_ok [OF Inr [unfolded out] Suc.prems(1)] .
      show ?thesis
      proof (cases ctl)
        case Break
        with ok have "llm_calls (metrics (work st1)) = llm_calls (metrics (work st)) + of_nat 1"
          by (simp add: step_ok_def)
        moreover have "1 \<le> unat mx + 1 - unat (iteration st)" using le by simp
        ultimately show ?thesis using False Inr out Break ok
          by (subst repair_loop.simps) (auto simp: step_ok_def intro!: exI [of _ "1::nat"])
      next
        case Continue
        have nxt: "unat (iteration st1) = Suc (unat (iteration st))"
        proof -
          have "iteration st1 = iteration st + 1" using ok Continue by (simp add: step_ok_def)
          moreover have "Suc (unat (iteration st)) < 2 ^ LENGTH(32)" using le Suc.prems(2) by simp
          ultimately show ?thesis by (simp add: unat_word_ariths)
        qed
        have inv1: "loop_inv env cap st1" using ok Continue by (simp add: step_ok_def)
        have "unat mx + 1 \<le> unat (iteration st1) + k" using Suc.prems(3) nxt by simp
        from Suc.IH [OF inv1 Suc.prems(2) this] obtain r where
          r: "repair_loop k env cfg model analysis mx cap n st1 = Some r"
          and rest: "\<And>st'. r = Inr st' \<Longrightarrow>
            (loop_inv env cap st' \<or> (best_is_graded env cap st' \<and> passes env cfg (work st')))
            \<and> c_source (work st') = c_source (work st1)
            \<and> (\<exists>j \<le> unat mx + 1 - unat (iteration st1).
                llm_calls (metrics (work st')) = llm_calls (metrics (work st1)) + of_nat j)"
          by blast
        have "repair_loop (Suc k) env cfg model analysis mx cap n st = Some r"
          using False Inr out Continue r by (subst repair_loop.simps) simp
        moreover have "\<exists>j \<le> unat mx + 1 - unat (iteration st).
            llm_calls (metrics (work st')) = llm_calls (metrics (work st)) + of_nat j" if "r = Inr st'" for st'
        proof -
          from rest [OF that] obtain j where j: "j \<le> unat mx + 1 - unat (iteration st1)"
            "llm_calls (metrics (work st')) = llm_calls (metrics (work st1)) + of_nat j" by blast
          then have "llm_calls (metrics (work st')) = llm_calls (metrics (work st)) + of_nat (Suc j)"
            using ok by (simp add: step_ok_def)
          moreover have "Suc j \<le> unat mx + 1 - unat (iteration st)" using j(1) nxt le by simp
          ultimately show ?thesis by blast
        qed
        ultimately show ?thesis using rest ok by (fastforce simp: step_ok_def)
      qed
    qed
  qed
qed

lemma start_repair_inv:
  assumes "validate_unit env m (work p) = Inr v" and "unit_state (work p) \<noteq> Validated"
    and "vr_unsafe_count v \<le> cap"
  shows "loop_inv env cap (start_repair p v)"
  using validation_grades [OF assms(1)] assms(2,3)
  by (auto simp: loop_inv_def best_is_graded_def start_repair_def Let_def pipeline.defs)

lemma start_repair_fields:
  "work (start_repair p v) = work p" "iteration (start_repair p v) = 1"
  by (simp_all add: start_repair_def Let_def pipeline.defs)

lemma select_repair_model_total: "\<exists>sel. select_repair_model cfg d = Inr sel"
  by (auto simp: select_repair_model_def select_model_def)

lemma unsafe_ceiling_ge: "vr_unsafe_count v \<le> unsafe_ceiling cfg v"
  by (simp add: unsafe_ceiling_def split: option.splits)

text \<open>The repair stage in terms of the loop it runs.\<close>

lemma legacy_repair_loop:
  obtains model mx where "mx \<le> max_iters"
    "legacy_repair fuel env cfg d analysis max_iters n v p
       = map_option (map_sum id finish_repair)
           (repair_loop fuel env cfg model analysis mx (unsafe_ceiling cfg v) n (start_repair p v))"
proof -
  obtain sel where sel: "select_repair_model (providers cfg) d = Inr sel"
    using select_repair_model_total by blast
  define mx where "mx = (if modular_file_loc < n then min max_iters 3 else max_iters)"
  have "legacy_repair fuel env cfg d analysis max_iters n v p
       = map_option (map_sum id finish_repair)
           (repair_loop fuel env cfg (sel_model sel) analysis mx (unsafe_ceiling cfg v) n (start_repair p v))"
    by (cases "repair_loop fuel env cfg (sel_model sel) analysis mx (unsafe_ceiling cfg v) n (start_repair p v)")
       (auto simp: legacy_repair_def sel lift_agent_def mx_def [symmetric] Let_def split: sum.splits)
  moreover have "mx \<le> max_iters" by (simp add: mx_def)
  ultimately show thesis using that by blast
qed

lemma legacy_repair_result:
  assumes "validate_unit env (min_idiomatic_score cfg) (work p) = Inr v"
    and "unit_state (work p) \<noteq> Validated" and "unat max_iters + 1 < 2 ^ 32" and "unat max_iters \<le> fuel"
  shows "\<exists>r. legacy_repair fuel env cfg d analysis max_iters n v p = Some r
     \<and> (\<forall>st. r = Inr st \<longrightarrow> (\<exists>st0. st = finish_repair st0
          \<and> (loop_inv env (unsafe_ceiling cfg v) st0
             \<or> (best_is_graded env (unsafe_ceiling cfg v) st0 \<and> passes env cfg (work st0)))
          \<and> c_source (work st0) = c_source (work p)
          \<and> (\<exists>k \<le> unat max_iters. llm_calls (metrics (work st0)) = llm_calls (metrics (work p)) + of_nat k)))"
proof -
  obtain model mx where mx: "mx \<le> max_iters"
    and run: "legacy_repair fuel env cfg d analysis max_iters n v p
       = map_option (map_sum id finish_repair)
           (repair_loop fuel env cfg model analysis mx (unsafe_ceiling cfg v) n (start_repair p v))"
    by (rule legacy_repair_loop)
  have le: "unat mx \<le> unat max_iters" using mx by (simp add: word_le_nat_alt)
  have inv: "loop_inv env (unsafe_ceiling cfg v) (start_repair p v)"
    using assms(1,2) unsafe_ceiling_ge by (rule start_repair_inv)
  from repair_loop_ends [OF inv, of mx fuel] le assms(3,4)
  obtain r where r: "repair_loop fuel env cfg model analysis mx (unsafe_ceiling cfg v) n (start_repair p v) = Some r"
    and out: "\<And>st'. r = Inr st' \<Longrightarrow>
          (loop_inv env (unsafe_ceiling cfg v) st' \<or> (best_is_graded env (unsafe_ceiling cfg v) st' \<and> passes env cfg (work st')))
          \<and> c_source (work st') = c_source (work p)
          \<and> (\<exists>k \<le> unat mx. llm_calls (metrics (work st')) = llm_calls (metrics (work p)) + of_nat k)"
    by (fastforce simp: start_repair_fields)
  show ?thesis
  proof (rule exI [of _ "map_sum id finish_repair r"], rule conjI, goal_cases)
    case 1
    show ?case by (simp add: run r)
  next
    case 2
    show ?case
    proof (rule allI, rule impI)
    fix st assume "map_sum id finish_repair r = Inr st"
    then obtain st0 where st0: "r = Inr st0" "st = finish_repair st0" by (cases r) auto
    from out [OF st0(1)] le st0(2)
    show "\<exists>st0. st = finish_repair st0
          \<and> (loop_inv env (unsafe_ceiling cfg v) st0
             \<or> (best_is_graded env (unsafe_ceiling cfg v) st0 \<and> passes env cfg (work st0)))
          \<and> c_source (work st0) = c_source (work p)
          \<and> (\<exists>k \<le> unat max_iters. llm_calls (metrics (work st0)) = llm_calls (metrics (work p)) + of_nat k)"
      by (intro exI [of _ st0]) (auto intro: order.trans)
    qed
  qed
qed

lemma finish_repair_metrics: "metrics (work (finish_repair st)) = metrics (work st)"
  by (simp add: finish_repair_def pipeline_simps Let_def split: option.splits)

text \<open>
  C4: The repair stage always ends: for a limit of \<open>max_iters\<close> iterations (below the largest
  \<open>u32\<close>) as much fuel is enough: it returns with an error or a final state, and it has counted at
  most \<open>max_iters\<close> further calls of the model.
\<close>

theorem legacy_repair_terminates:
  assumes "validate_unit env (min_idiomatic_score cfg) (work p) = Inr v"
    and "unit_state (work p) \<noteq> Validated" and "unat max_iters + 1 < 2 ^ 32" and "unat max_iters \<le> fuel"
  shows "\<exists>r. legacy_repair fuel env cfg d analysis max_iters n v p = Some r
     \<and> (\<forall>st. r = Inr st \<longrightarrow> (\<exists>k \<le> unat max_iters.
            llm_calls (metrics (work st)) = llm_calls (metrics (work p)) + of_nat k))"
  using legacy_repair_result [OF assms, of d analysis n] by (fastforce simp: finish_repair_metrics)

text \<open>
  C3: What the repair stage hands on. Either the unit is validated and its output passes when it
  is validated again; or its end state is the graduated state of the best version, and when there
  is a best version it is the unit's output, it does not exceed the ceiling of unsafe blocks, and
  the score, the unsafe count and the compile flag recorded are those of exactly this output.
\<close>

theorem repair_outcome_sound:
  assumes "validate_unit env (min_idiomatic_score cfg) (work p) = Inr v"
    and "unit_state (work p) \<noteq> Validated" and "unat max_iters + 1 < 2 ^ 32" and "unat max_iters \<le> fuel"
    and "legacy_repair fuel env cfg d analysis max_iters n v p = Some (Inr st)"
  shows "passes env cfg (work st)
     \<or> ((\<exists>e. unit_state (work st) = graduated_state (best_compiles st) (best_unsafe st) (best_score st) 80 e)
        \<and> best_unsafe st \<le> unsafe_ceiling cfg v
        \<and> (\<forall>b. best_version st = Some b \<longrightarrow>
              rust_output (work st) = Some b \<and> idiomatic_score (work st) = Some (best_score st)
              \<and> unsafe_count (work st) = Some (best_unsafe st)
              \<and> graded_as (bench env) (c_source (work p)) b (best_score st) (best_unsafe st) (best_compiles st)))"
proof -
  obtain st0 where st0: "st = finish_repair st0"
    and cases: "loop_inv env (unsafe_ceiling cfg v) st0 \<or> passes env cfg (work st0)"
    and src: "c_source (work st0) = c_source (work p)"
    using legacy_repair_result [OF assms(1-4), of d analysis n] assms(5) by auto
  show ?thesis
  proof (cases "passes env cfg (work st0)")
    case True
    then have "finish_repair st0 = st0" by (simp add: finish_repair_def passes_def)
    with True st0 show ?thesis by simp
  next
    case False
    with cases have inv: "unit_state (work st0) \<noteq> Validated" "best_is_graded env (unsafe_ceiling cfg v) st0"
      by (simp_all add: loop_inv_def)
    then have "best_version st = best_version st0" "best_score st = best_score st0"
      "best_unsafe st = best_unsafe st0" "best_compiles st = best_compiles st0"
      by (simp_all add: st0 finish_repair_def pipeline_simps)
    moreover have "\<exists>e. unit_state (work st) = graduated_state (best_compiles st0) (best_unsafe st0) (best_score st0) 80 e"
      using inv by (auto simp: st0 finish_repair_def pipeline_simps Let_def split: option.splits)
    moreover have "rust_output (work st) = Some b \<and> idiomatic_score (work st) = Some (best_score st0)
        \<and> unsafe_count (work st) = Some (best_unsafe st0)" if "best_version st0 = Some b" for b
      using inv that by (simp add: st0 finish_repair_def pipeline_simps Let_def)
    ultimately show ?thesis using inv(2) src by (auto simp: best_is_graded_def)
  qed
qed

section \<open>A run\<close>

definition failing_environment :: "string environment" where
  "failing_environment =
     \<lparr>bench = clean_workbench\<lparr>rustc_lib := (\<lambda>_. Some \<lparr>success = False, cr_stdout = [], cr_stderr = ''error: x''\<rparr>)\<rparr>,
      client = (\<lambda>n p. Inl MaxRetries), regexes = example_engine, repair_preamble = [],
      translation_preamble = [], pattern_files = []\<rparr>"

definition plain_config :: migration_config where
  "plain_config =
     \<lparr>max_repair_iterations = 5, min_idiomatic_score = 60, generate_tests = False, fuzz_test = False,
      fuzz_iterations = 100, preprocess = False, analysis_temperature = None, translation_temperature = None,
      repair_base_temperature = None, test_gen_temperature = None, max_tokens_budget = None,
      max_llm_calls = None, skip_c2rust = True, module_target_loc = None, max_unsafe_blocks = None,
      warm_start = None, crate_output_dir = None,
      providers = \<lparr>primary_provider = ''ollama'', anthropic_api_key = None, deepseek_api_key = None,
                   ollama_url = [], ollama_model = ''m'', ollama_num_ctx = 0\<rparr>\<rparr>"

definition failed_pipeline :: pipeline where
  "failed_pipeline =
     \<lparr>work = main_unit\<lparr>unit_state := Repairing 1, last_errors := [''error: x'']\<rparr>, calls_made = 0, trail = None, saves = []\<rparr>"

lemma failing_validation: "\<exists>v. validate_unit failing_environment 60 (work failed_pipeline) = Inr v"
  by (simp add: validate_unit_def failing_environment_def failed_pipeline_def main_unit_def new_unit_def
      validate_with_threshold_def lift_tool_def check_rust_compiles_def run_clippy_on_source_def clean_workbench_def
      Let_def case_prod_beta)

definition plain_analysis :: analysis_result where
  "plain_analysis = \<lparr>an_difficulty = ''easy'', an_patterns = [], an_json = ''{}''\<rparr>"

theorem legacy_repair_terminates_witness:
  "\<exists>v r. validate_unit failing_environment 60 (work failed_pipeline) = Inr v
     \<and> legacy_repair 5 failing_environment plain_config Easy plain_analysis 5 10 v failed_pipeline = Some r"
proof -
  obtain v where v: "validate_unit failing_environment 60 (work failed_pipeline) = Inr v"
    using failing_validation by blast
  have "\<exists>r. legacy_repair (unat (5::u32)) failing_environment plain_config Easy plain_analysis 5 10 v failed_pipeline = Some r"
    using legacy_repair_terminates [of failing_environment plain_config failed_pipeline v 5 "unat (5::u32)" Easy plain_analysis 10] v
    by (auto simp: plain_config_def failed_pipeline_def)
  with v show ?thesis by auto
qed

text \<open>One iteration in which the client fails.\<close>

lemma failing_repair:
  "\<exists>n'. repair_function_full (client failing_environment) pre m rs [e] fb c i mx base limit n = (Inl MaxRetries, n')"
proof -
  have transient: "\<not> is_transient_error MaxRetries" by (simp add: is_transient_error_def debug_agent_error_def contains_def)
  have "run_with_retries (client failing_environment) q k n = (Inl MaxRetries, n + 1)" for q k n
    by (cases k) (simp_all add: failing_environment_def transient)
  then show ?thesis by (simp add: repair_function_full_def prompt_with_retries_def)
qed

lemma failing_run:
  "\<exists>st. legacy_repair 1 failing_environment plain_config Easy plain_analysis 1 10 v failed_pipeline = Some (Inr st)
     \<and> llm_calls (metrics (work st)) = 1"
proof -
  define st0 where "st0 = start_repair failed_pipeline v"
  have st0: "last_errors (work st0) = [''error: x'']" "last_diff_feedback (work st0) = []"
    "stall_count st0 = 0" "prev_error_count st0 = None" "iteration st0 = 1" "llm_calls (metrics (work st0)) = 0"
    by (simp_all add: st0_def start_repair_def Let_def pipeline.defs failed_pipeline_def main_unit_def
        new_unit_def metrics_default_def)
  have step: "\<exists>st. repair_iteration failing_environment plain_config m plain_analysis 1 cap 10 st0 = Inr (Continue, st)
      \<and> iteration st = 2 \<and> llm_calls (metrics (work st)) = 1" for m cap
  proof -
    define st1 where "st1 = audit (RepairIteration (unit_name (work st0)) 1 1 1 0) (detect_stall 1 st0)"
    obtain n where n: "repair_function_full (client failing_environment) [] m
        (unwrap_or (rust_output (work st0)) []) [''error: x''] [] (c_source (work st0)) 1 1 None None (calls_made st1)
        = (Inl MaxRetries, n)"
      using failing_repair by blast
    have early: "\<not> (3::u32) \<le> 1" by (simp add: word_le_nat_alt)
    have "repair_iteration failing_environment plain_config m plain_analysis 1 cap 10 st0
        = Inr (Continue, skip_repair (st1\<lparr>calls_made := n\<rparr>))"
      using n early by (simp add: repair_iteration_def effective_feedback_def detect_stall_def st0 stall_threshold_def
          repair_step_def Let_def st1_def audit_def failing_environment_def plain_config_def)
    moreover have "iteration (skip_repair (st1\<lparr>calls_made := n\<rparr>)) = 2"
      "llm_calls (metrics (work (skip_repair (st1\<lparr>calls_made := n\<rparr>)))) = 1"
      by (simp_all add: skip_repair_def next_iteration_def update_metrics_def update_work_def count_llm_call_def
          st1_def audit_def detect_stall_def st0)
    ultimately show ?thesis by blast
  qed
  obtain sel where sel: "select_repair_model (providers plain_config) Easy = Inr sel"
    using select_repair_model_total by blast
  obtain st where st: "repair_iteration failing_environment plain_config (sel_model sel) plain_analysis 1
      (unsafe_ceiling plain_config v) 10 st0 = Inr (Continue, st)" "iteration st = 2" "llm_calls (metrics (work st)) = 1"
    using step by blast
  have "repair_loop 1 failing_environment plain_config (sel_model sel) plain_analysis 1
      (unsafe_ceiling plain_config v) 10 st0 = Some (Inr st)"
    using st by (subst repair_loop.simps) (simp add: st0 repair_loop.simps [of 0])
  then have "legacy_repair 1 failing_environment plain_config Easy plain_analysis 1 10 v failed_pipeline
      = Some (Inr (finish_repair st))"
    by (simp add: legacy_repair_def sel lift_agent_def modular_file_loc_def st0_def)
  then show ?thesis using st(3) by (auto simp: finish_repair_metrics)
qed

theorem repair_outcome_sound_witness:
  "\<exists>v st. legacy_repair 1 failing_environment plain_config Easy plain_analysis 1 10 v failed_pipeline = Some (Inr st)
     \<and> llm_calls (metrics (work st)) = 1
     \<and> (passes failing_environment plain_config (work st) \<or> best_unsafe st \<le> unsafe_ceiling plain_config v)"
proof -
  obtain v where v: "validate_unit failing_environment 60 (work failed_pipeline) = Inr v"
    using failing_validation by blast
  obtain st where st: "legacy_repair 1 failing_environment plain_config Easy plain_analysis 1 10 v failed_pipeline = Some (Inr st)"
    "llm_calls (metrics (work st)) = 1"
    using failing_run by blast
  have "legacy_repair (unat (1::u32)) failing_environment plain_config Easy plain_analysis 1 10 v failed_pipeline = Some (Inr st)"
    using st by simp
  then have "passes failing_environment plain_config (work st) \<or> best_unsafe st \<le> unsafe_ceiling plain_config v"
    using repair_outcome_sound [of failing_environment plain_config failed_pipeline v 1 "unat (1::u32)" Easy plain_analysis 10 st] v
    by (auto simp: plain_config_def failed_pipeline_def)
  with st show ?thesis by blast
qed

section \<open>A failed differential test can end as validated\<close>

text \<open>
  Stage 8 grades by compilation, unsafe blocks and score alone. A best version that compiles
  without unsafe code and scores at least 80 becomes \<open>Validated\<close> although the validation failed,
  for instance because its output differs from that of the C program.
\<close>

lemma graduated_to_validated:
  assumes "unit_state (work st) \<noteq> Validated" and "best_compiles st" "best_unsafe st = 0" "80 \<le> best_score st"
  shows "unit_state (work (finish_repair st)) = Validated"
  using assms by (simp add: finish_repair_def pipeline_simps Let_def graduated_state_def split: option.splits)

text \<open>The output kept by the tracking can be worse: a higher score replaces a version that compiles.\<close>

lemma track_best_may_lose_compilation:
  assumes "unit_has_substance (work st)" "vr_unsafe_count v \<le> cap" "best_score st < vr_idiomatic_score v"
    and "best_compiles st" "\<not> compiles v" "rust_output (work st) \<noteq> None"
  shows "\<not> best_compiles (track_best cap v st)"
  using assms by (auto simp: track_best_def improves_def Let_def save_def)

end
