(* ===== verification/Repair_Stage.thy ===== *)
theory Repair_Stage
  imports Repair_Loop
begin

text \<open>
  The hybrid repair of large outputs and the whole repair stage
  (\<open>hybrid_repair\<close> and stage 7 of \<open>migrate_file\<close> in \<open>crates/noricum-core/src/orchestrator.rs\<close>):
  mechanical rules first, then up to five surgical repairs of single functions; smaller outputs
  go through the repair loop of \<open>Repair_Loop\<close>.
\<close>

definition check_unit :: "'exe environment \<Rightarrow> string \<Rightarrow> (core_error, compile_result) result" where
  "check_unit env src =
     (case check_rust_compiles (bench env) src of Inl e \<Rightarrow> Inl (ToolFailure e) | Inr r \<Rightarrow> Inr r)"

definition surgical_prompt :: "compiler_error \<Rightarrow> string \<Rightarrow> string \<Rightarrow> string" where
  "surgical_prompt err context fbody =
     ''Fix this Rust function. The compiler error is:'' @ [newline]
     @ code err @ '': '' @ message err @ [newline, newline]
     @ ''These types and function signatures are already defined (DO NOT redefine them):'' @ [newline]
     @ context @ [newline, newline]
     @ ''Here is the function to fix:'' @ [newline]
     @ fbody @ [newline, newline]
     @ ''Return ONLY the fixed function, nothing else. No markdown fences.''"

definition max_surgical :: nat where "max_surgical = 5"

definition set_output :: "string \<Rightarrow> 'z pipeline_scheme \<Rightarrow> 'z pipeline_scheme" where
  "set_output src = update_work (\<lambda>u. u\<lparr>rust_output := Some src\<rparr>)"

text \<open>
  The cycles of phase 2, with the cycles left and the current source: it ends with \<open>True\<close> when the
  source compiles, and with \<open>False\<close> when it breaks off or the cycles are used up.
\<close>

fun surgical_cycles ::
  "nat \<Rightarrow> 'exe environment \<Rightarrow> string \<Rightarrow> string \<Rightarrow> pipeline \<Rightarrow> (core_error, bool \<times> string \<times> pipeline) result" where
  "surgical_cycles 0 env model current_source p = Inr (False, current_source, p)"
| "surgical_cycles (Suc left) env model current_source p =
     bind_result (check_unit env current_source) (\<lambda>check.
       if success check then Inr (True, current_source, p)
       else (case parse_rustc_errors (regexes env) (cr_stderr check) of
               [] \<Rightarrow> Inr (False, current_source, p)
             | err # _ \<Rightarrow>
                 (case extract_function_at_line (regexes env) current_source (err_line err) of
                    None \<Rightarrow> Inr (False, current_source, p)
                  | Some (fname, fbody) \<Rightarrow>
                      (case repair_with_prompt (client env) model
                              (surgical_prompt err (gather_context (regexes env) current_source fname) fbody)
                              (calls_made p) of
                         (Inl e, n) \<Rightarrow> Inr (False, current_source, p\<lparr>calls_made := n\<rparr>)
                       | (Inr fixed_fn, n) \<Rightarrow>
                           (let spliced = splice_function (regexes env) current_source fname fixed_fn;
                                cycle = max_surgical - Suc left
                            in surgical_cycles left env model spliced
                                 (save (SavedRepair (as_u32 (cycle + 1)) spliced)
                                   (update_metrics count_llm_call (p\<lparr>calls_made := n\<rparr>))))))))"

definition hybrid_repair ::
  "'exe environment \<Rightarrow> migration_config \<Rightarrow> difficulty \<Rightarrow> pipeline \<Rightarrow> (core_error, bool \<times> pipeline) result" where
  "hybrid_repair env cfg d p =
     (let rust_src = unwrap_or (rust_output (work p)) []
      in bind_result (check_unit env rust_src) (\<lambda>first.
           if success first then Inr (True, p)
           else (let fixed = apply_all_rules (regexes env) rust_src (parse_rustc_errors (regexes env) (cr_stderr first))
                 in bind_result (check_unit env fixed) (\<lambda>post_rules.
                      let p1 = save (SavedRepair 0 fixed) (set_output fixed p)
                      in if success post_rules then Inr (True, p1)
                         else bind_result (lift_agent (select_repair_model (providers cfg) d)) (\<lambda>sel.
                              bind_result (surgical_cycles max_surgical env (sel_model sel) fixed p1) (\<lambda>(fin, src, p2).
                                let p3 = set_output src p2
                                in if fin then Inr (True, p3)
                                   else bind_result (check_unit env src) (\<lambda>final. Inr (success final, p3))))))))"

text \<open>
  Stage 7 after a failed validation. Large outputs are only given the hybrid repair; when it fails
  the unit is left as it is (P34b).
\<close>

definition repair_stage ::
  "nat \<Rightarrow> 'exe environment \<Rightarrow> migration_config \<Rightarrow> difficulty \<Rightarrow> analysis_result \<Rightarrow> u32 \<Rightarrow> nat
   \<Rightarrow> validation_result \<Rightarrow> pipeline \<Rightarrow> (core_error, pipeline) result option" where
  "repair_stage fuel env cfg d analysis max_iters c_lines v p =
     (if passed v then Some (Inr p)
      else if modular_file_loc < c_lines then
        Some (bind_result (hybrid_repair env cfg d p) (\<lambda>(resolved, p1).
          if resolved then
            bind_result (validate_unit env (min_idiomatic_score cfg) (work p1)) (\<lambda>v'.
              Inr (update_work (\<lambda>u. apply_validation_with_max u v' max_iters) p1))
          else Inr p1))
      else map_option (map_sum id pipeline.truncate) (legacy_repair fuel env cfg d analysis max_iters c_lines v p))"

section \<open>Facts\<close>

lemma set_output_fields [pipeline_simps]:
  "work (set_output s p) = (work p)\<lparr>rust_output := Some s\<rparr>"
  by (simp add: set_output_def update_work_def)

lemma surgical_cycles_result:
  "surgical_cycles k env model src p = Inr (fin, src', p') \<Longrightarrow>
     (fin \<longrightarrow> (\<exists>r. check_unit env src' = Inr r \<and> success r))
     \<and> c_source (work p') = c_source (work p)
     \<and> unit_state (work p') = unit_state (work p)
     \<and> calls_made p' \<le> calls_made p + k"
proof (induction k arbitrary: src p)
  case (Suc k)
  from Suc.prems obtain check where check: "check_unit env src = Inr check"
    by (auto simp: bind_result_Inr_iff)
  show ?case
  proof (cases "success check")
    case True
    with Suc.prems check show ?thesis by auto
  next
    case False
    show ?thesis
    proof (cases "\<exists>err rest fname fbody fixed_fn n. parse_rustc_errors (regexes env) (cr_stderr check) = err # rest
        \<and> extract_function_at_line (regexes env) src (err_line err) = Some (fname, fbody)
        \<and> repair_with_prompt (client env) model
            (surgical_prompt err (gather_context (regexes env) src fname) fbody) (calls_made p) = (Inr fixed_fn, n)")
      case True
      then obtain err rest fname fbody fixed_fn n where
        found: "parse_rustc_errors (regexes env) (cr_stderr check) = err # rest"
          "extract_function_at_line (regexes env) src (err_line err) = Some (fname, fbody)"
        and answer: "repair_with_prompt (client env) model
            (surgical_prompt err (gather_context (regexes env) src fname) fbody) (calls_made p) = (Inr fixed_fn, n)"
        by blast
      define spliced where "spliced = splice_function (regexes env) src fname fixed_fn"
      define p1 where "p1 = save (SavedRepair (as_u32 (max_surgical - Suc k + 1)) spliced)
          (update_metrics count_llm_call (p\<lparr>calls_made := n\<rparr>))"
      have n: "n = calls_made p + 1" using answer
        by (auto simp: repair_with_prompt_def split: sum.splits)
      have keep: "c_source (work p1) = c_source (work p)" "unit_state (work p1) = unit_state (work p)"
        "calls_made p1 = n"
        by (simp_all add: p1_def save_def update_metrics_def update_work_def)
      have "surgical_cycles k env model spliced p1 = Inr (fin, src', p')"
        using Suc.prems check False found answer by (simp add: p1_def spliced_def Let_def)
      from Suc.IH [OF this] show ?thesis using keep n by simp
    next
      case stop: False
      have calls: "snd (repair_with_prompt (client env) model t (calls_made p)) = calls_made p + 1" for t
        by (simp add: repair_with_prompt_def split: sum.splits)
      from Suc.prems check False stop have "src' = src" "fin = False"
        "p' = p \<or> (\<exists>t. p' = p\<lparr>calls_made := snd (repair_with_prompt (client env) model t (calls_made p))\<rparr>)"
        by (auto split: list.splits option.splits prod.splits sum.splits) (metis snd_conv)+
      then show ?thesis using calls by auto
    qed
  qed
qed auto

lemma hybrid_repair_result:
  assumes "hybrid_repair env cfg d p = Inr (resolved, p')"
  shows "(resolved \<longrightarrow> (\<exists>r. check_rust_compiles (bench env) (unwrap_or (rust_output (work p')) []) = Inr r \<and> success r))
     \<and> c_source (work p') = c_source (work p) \<and> unit_state (work p') = unit_state (work p)
     \<and> calls_made p' \<le> calls_made p + 5"
proof -
  let ?src = "unwrap_or (rust_output (work p)) []"
  have check: "check_unit env s = Inr r \<longleftrightarrow> check_rust_compiles (bench env) s = Inr r" for s r
    by (auto simp: check_unit_def split: sum.splits)
  have frame: "work (save a q) = work q" "calls_made (save a q) = calls_made q"
    "calls_made (set_output s q) = calls_made q" for a s and q :: pipeline
    by (simp_all add: save_def set_output_def update_work_def)
  obtain first where first: "check_unit env ?src = Inr first"
    using assms by (auto simp: hybrid_repair_def Let_def bind_result_Inr_iff)
  show ?thesis
  proof (cases "success first")
    case True
    then have "resolved = True" "p' = p"
      using assms first by (simp_all add: hybrid_repair_def Let_def)
    with True first check show ?thesis by auto
  next
    case False
    define fixed where "fixed = apply_all_rules (regexes env) ?src (parse_rustc_errors (regexes env) (cr_stderr first))"
    define p1 where "p1 = save (SavedRepair 0 fixed) (set_output fixed p)"
    obtain post where post: "check_unit env fixed = Inr post"
      using assms first False by (auto simp: hybrid_repair_def Let_def bind_result_Inr_iff fixed_def)
    have p1: "rust_output (work p1) = Some fixed" "c_source (work p1) = c_source (work p)"
      "unit_state (work p1) = unit_state (work p)" "calls_made p1 = calls_made p"
      by (simp_all add: p1_def frame set_output_fields)
    show ?thesis
    proof (cases "success post")
      case True
      then have "p' = p1"
        using assms first False post by (simp add: hybrid_repair_def Let_def fixed_def p1_def)
      with True post check p1 show ?thesis by auto
    next
      case nocomp: False
      obtain sel where sel: "select_repair_model (providers cfg) d = Inr sel"
        using select_repair_model_total by blast
      have run: "bind_result (surgical_cycles max_surgical env (sel_model sel) fixed p1) (\<lambda>(fin, src, p2).
            let p3 = set_output src p2
            in if fin then Inr (True, p3)
               else bind_result (check_unit env src) (\<lambda>final. Inr (success final, p3))) = Inr (resolved, p')"
        using assms first False post nocomp
        by (simp add: hybrid_repair_def Let_def lift_agent_def sel fixed_def p1_def)
      obtain fin src p2 where cycles: "surgical_cycles max_surgical env (sel_model sel) fixed p1 = Inr (fin, src, p2)"
        using run by (cases "surgical_cycles max_surgical env (sel_model sel) fixed p1") auto
      have finish: "(if fin then Inr (True, set_output src p2)
          else bind_result (check_unit env src) (\<lambda>final. Inr (success final, set_output src p2))) = Inr (resolved, p')"
        using run by (simp add: cycles Let_def)
      note r = surgical_cycles_result [OF cycles]
      have p': "p' = set_output src p2"
        using finish by (auto simp: bind_result_Inr_iff split: if_splits)
      have "resolved \<Longrightarrow> \<exists>r. check_unit env src = Inr r \<and> success r"
        using finish r by (auto simp: bind_result_Inr_iff split: if_splits)
      with r p1 check show ?thesis
        by (auto simp: p' set_output_fields frame max_surgical_def)
    qed
  qed
qed

text \<open>
  C15: The hybrid repair is honest and bounded: when it reports success the output it leaves in
  the unit is accepted by the compiler, it never touches the C source or the state, and it makes
  at most five calls of the model.
\<close>

theorem hybrid_repair_sound:
  assumes "hybrid_repair env cfg d p = Inr (resolved, p')"
  shows "(resolved \<longrightarrow> (\<exists>r. check_rust_compiles (bench env) (unwrap_or (rust_output (work p')) []) = Inr r \<and> success r))
     \<and> c_source (work p') = c_source (work p) \<and> unit_state (work p') = unit_state (work p)
     \<and> calls_made p' \<le> calls_made p + 5"
  using assms by (rule hybrid_repair_result)

text \<open>An environment whose compiler accepts exactly the text \<open>fn f() {}\<close>.\<close>

definition picky_environment :: "string environment" where
  "picky_environment = failing_environment\<lparr>bench := clean_workbench\<lparr>rustc_lib :=
     (\<lambda>s. Some \<lparr>success = (s = ''fn f() {}''), cr_stdout = [], cr_stderr = []\<rparr>)\<rparr>\<rparr>"

theorem hybrid_repair_sound_witness:
  "\<exists>p'. hybrid_repair picky_environment plain_config Easy
          (failed_pipeline\<lparr>work := main_unit\<lparr>rust_output := Some ''fn f() {}''\<rparr>\<rparr>) = Inr (True, p')
     \<and> (\<exists>r. check_rust_compiles (bench picky_environment) (unwrap_or (rust_output (work p')) []) = Inr r \<and> success r)"
proof -
  let ?p = "failed_pipeline\<lparr>work := main_unit\<lparr>rust_output := Some ''fn f() {}''\<rparr>\<rparr>"
  have run: "hybrid_repair picky_environment plain_config Easy ?p = Inr (True, ?p)"
    by (simp add: hybrid_repair_def Let_def check_unit_def check_rust_compiles_def picky_environment_def
        failing_environment_def clean_workbench_def)
  from hybrid_repair_sound [OF this] run show ?thesis by blast
qed

text \<open>
  A large output that the hybrid repair cannot fix skips stage 8 as well: the unit is returned in
  a repairing state, neither validated nor in one of the end states.
\<close>

lemma large_output_left_repairing:
  assumes "hybrid_repair env cfg d p = Inr (False, p')" and "\<not> passed v" and "modular_file_loc < n"
    and "unit_state (work p) = Repairing k"
  shows "\<exists>q. repair_stage fuel env cfg d analysis mx n v p = Some (Inr q) \<and> unit_state (work q) = Repairing k"
  using assms hybrid_repair_result [OF assms(1)] by (simp add: repair_stage_def)

end
