(* ===== verification/Front_Tools.thy ===== *)
theory Front_Tools
  imports Artifacts
begin

text \<open>
  The tools in front of the translation: the C preprocessor
  (\<open>crates/noricum-tools/src/preprocessor.rs\<close>) and C2Rust (\<open>crates/noricum-tools/src/c2rust.rs\<close>).
  Running a command, reading and writing files are parameters; what is done with the output is modelled.
\<close>

section \<open>Preprocessor\<close>

record preprocessor_config =
  include_paths :: "string list"
  pp_defines :: "string list"
  pp_command :: "string option"

definition default_preprocessor :: preprocessor_config where
  "default_preprocessor = \<lparr>include_paths = [], pp_defines = [], pp_command = None\<rparr>"

record preprocessed_source =
  pp_source :: string
  pp_original :: string
  was_preprocessed :: bool

text \<open>
  A command ends with its standard output, fails with its standard error, or cannot be started. The
  name of a file and its last component are what \<open>Path\<close> reports.
\<close>

record pp_tools =
  read_c_file :: "string \<Rightarrow> (tool_error, string) result"
  run_command :: "string \<Rightarrow> string list \<Rightarrow> (string + string) option"
  last_component :: "string \<Rightarrow> string"
  temp_c_file :: "string \<Rightarrow> (tool_error, string) result"

definition is_line_directive :: "string \<Rightarrow> bool" where
  "is_line_directive line \<longleftrightarrow> starts_with line ''#'' \<and> quote \<in> set line"

definition strip_line_directives :: "string \<Rightarrow> string" where
  "strip_line_directives out = unlines (filter (\<lambda>l. \<not> is_line_directive l) (lines out))"

definition names_original :: "string \<Rightarrow> string \<Rightarrow> string \<Rightarrow> bool" where
  "names_original file_str file_name line \<longleftrightarrow>
     contains line file_str \<or> contains line file_name \<or> contains line ([quote] @ ''<stdin>'' @ [quote])"

fun original_lines :: "string \<Rightarrow> string \<Rightarrow> bool \<Rightarrow> string list \<Rightarrow> string list" where
  "original_lines file_str file_name in_original [] = []"
| "original_lines file_str file_name in_original (l # ls) =
     (if is_line_directive l then original_lines file_str file_name (names_original file_str file_name l) ls
      else if in_original \<and> \<not> is_blank l then l # original_lines file_str file_name in_original ls
      else original_lines file_str file_name in_original ls)"

definition strip_preprocessor_output :: "string \<Rightarrow> string \<Rightarrow> string \<Rightarrow> string" where
  "strip_preprocessor_output out file_str file_name =
     (let kept = concat (map (\<lambda>l. l @ [newline]) (original_lines file_str file_name False (lines out)))
      in if kept = [] then strip_line_directives out else kept)"

definition pp_args :: "preprocessor_config \<Rightarrow> string \<Rightarrow> string list" where
  "pp_args cfg c_file =
     [''-E''] @ concat (map (\<lambda>p. [''-I'', p]) (include_paths cfg)) @ map (\<lambda>d. ''-D'' @ d) (pp_defines cfg) @ [c_file]"

fun try_preprocessors :: "pp_tools \<Rightarrow> string list \<Rightarrow> string list \<Rightarrow> string option" where
  "try_preprocessors pt args [] = None"
| "try_preprocessors pt args (cmd # cmds) =
     (case run_command pt cmd args of
        Some (Inr out) \<Rightarrow> Some out
      | _ \<Rightarrow> try_preprocessors pt args cmds)"

definition preprocess_file ::
  "pp_tools \<Rightarrow> string \<Rightarrow> preprocessor_config \<Rightarrow> (tool_error, preprocessed_source) result" where
  "preprocess_file pt c_file cfg =
     bind_result (read_c_file pt c_file) (\<lambda>original.
       let cmds = (case pp_command cfg of Some c \<Rightarrow> [c] | None \<Rightarrow> [''gcc'', ''cc'', ''cpp''])
       in case try_preprocessors pt (pp_args cfg c_file) cmds of
            Some out \<Rightarrow>
              Inr \<lparr>pp_source = strip_preprocessor_output out c_file (last_component pt c_file),
                   pp_original = original, was_preprocessed = True\<rparr>
          | None \<Rightarrow> Inr \<lparr>pp_source = original, pp_original = original, was_preprocessed = False\<rparr>)"

definition preprocess_source ::
  "pp_tools \<Rightarrow> string \<Rightarrow> preprocessor_config \<Rightarrow> (tool_error, preprocessed_source) result" where
  "preprocess_source pt c_src cfg =
     bind_result (temp_c_file pt c_src) (\<lambda>c_file. preprocess_file pt c_file cfg)"

definition preprocessor_available :: "pp_tools \<Rightarrow> bool" where
  "preprocessor_available pt =
     list_ex (\<lambda>cmd. case run_command pt cmd [''--version''] of Some (Inr _) \<Rightarrow> True | _ \<Rightarrow> False)
       [''gcc'', ''cc'', ''cpp'']"

section \<open>C2Rust\<close>

text \<open>
  Running C2Rust on a file: whether it succeeded, its exit status as text, its standard error, and the
  output directory afterwards.
\<close>

record c2rust_tools =
  canonical :: "string \<Rightarrow> (string, string) result"
  write_compile_commands :: "string \<Rightarrow> (tool_error, unit) result"
  run_c2rust :: "string \<Rightarrow> (bool \<times> string \<times> string \<times> (string \<times> fs_node) list) option"
  stem_of :: "string \<Rightarrow> string option"

record c2rust_output =
  c2_source :: string
  c2_warnings :: "string list"

fun walk_files :: "fs_node \<Rightarrow> (string \<times> string) list" and walk_dir :: "(string \<times> fs_node) list \<Rightarrow> (string \<times> string) list" where
  "walk_files (FileNode body) = []"
| "walk_files (DirNode es) = walk_dir es"
| "walk_dir [] = []"
| "walk_dir ((nm, n) # es) =
     (case n of FileNode body \<Rightarrow> [(nm, body)] | DirNode _ \<Rightarrow> walk_files n) @ walk_dir es"

definition find_rust_output :: "(string \<times> fs_node) list \<Rightarrow> string \<Rightarrow> (tool_error, string) result" where
  "find_rust_output dir stem =
     (case List.find (\<lambda>(nm, _). nm = stem @ ''.rs'') (walk_dir dir) of
        Some (_, body) \<Rightarrow> Inr body
      | None \<Rightarrow> Inl (C2RustFailed (''c2rust did not produce '' @ stem @ ''.rs in output directory'')))"

definition transpile :: "c2rust_tools \<Rightarrow> string \<Rightarrow> (tool_error, c2rust_output) result" where
  "transpile ct c_file =
     (case canonical ct c_file of
        Inl e \<Rightarrow> Inl (C2RustFailed (''source file not found: '' @ e))
      | Inr path \<Rightarrow>
          bind_result (write_compile_commands ct path) (\<lambda>_.
          bind_result (ok_or (run_c2rust ct path) (CommandNotFound ''c2rust'')) (\<lambda>(ok, status, err_text, dir).
            if \<not> ok then Inl (C2RustFailed (''c2rust exited with '' @ status @ '': '' @ err_text))
            else
              bind_result (ok_or (stem_of ct path) (C2RustFailed ''source file has no stem'')) (\<lambda>stem.
              bind_result (find_rust_output dir stem) (\<lambda>src.
                Inr \<lparr>c2_source = src, c2_warnings = filter (\<lambda>l. contains l ''warning'') (lines err_text)\<rparr>)))))"

section \<open>Facts\<close>

lemma original_lines_kept:
  "l \<in> set (original_lines fs fname b ls) \<Longrightarrow> l \<in> set ls \<and> \<not> is_line_directive l \<and> \<not> is_blank l"
  by (induction fs fname b ls rule: original_lines.induct) (auto split: if_splits)

lemma lines_of_kept:
  "\<forall>l \<in> set ls. newline \<notin> set l \<Longrightarrow> lines (concat (map (\<lambda>l. l @ [newline]) ls)) = map strip_cr ls"
  by (induction ls) (auto simp: lines_append_newline)

lemma lines_of_unlines:
  "\<forall>l \<in> set ls. newline \<notin> set l \<Longrightarrow> set (lines (unlines ls)) \<subseteq> set ls \<union> strip_cr ` set ls"
proof (induction ls)
  case (Cons l ls)
  show ?case
  proof (cases "ls = []")
    case True
    with Cons.prems show ?thesis by (cases "l = []") (auto simp: lines_no_newline)
  next
    case False
    with Cons show ?thesis by (auto simp: join_Cons lines_append_newline)
  qed
qed simp

lemma strip_cr_directive: "is_line_directive (strip_cr l) = is_line_directive l"
proof (cases "l \<noteq> [] \<and> last l = cr")
  case True
  then obtain k where "l = k @ [cr]" by (metis append_butlast_last_id)
  then show ?thesis
    by (cases k) (auto simp: is_line_directive_def strip_cr_def cr_def quote_def)
qed (auto simp: strip_cr_def)

text \<open>
  The preprocessed text holds no line directive, whichever branch produced it: no line of it starts
  with a hash sign and has a quotation mark.
\<close>

theorem no_directive_left:
  "list_all (\<lambda>l. \<not> is_line_directive l) (lines (strip_preprocessor_output out file_str file_name))"
proof -
  let ?ls = "original_lines file_str file_name False (lines out)"
  have plain: "\<forall>l \<in> set ?ls. newline \<notin> set l \<and> \<not> is_line_directive l"
    using original_lines_kept lines_no_newline_in by blast
  then have "lines (concat (map (\<lambda>l. l @ [newline]) ?ls)) = map strip_cr ?ls" by (intro lines_of_kept) blast
  then have kept: "list_all (\<lambda>l. \<not> is_line_directive l) (lines (concat (map (\<lambda>l. l @ [newline]) ?ls)))"
    using plain by (simp add: list_all_iff strip_cr_directive)
  have "\<forall>l \<in> set (filter (\<lambda>l. \<not> is_line_directive l) (lines out)). newline \<notin> set l"
    using lines_no_newline_in by auto
  from lines_of_unlines [OF this]
  have "list_all (\<lambda>l. \<not> is_line_directive l) (lines (strip_line_directives out))"
    by (auto simp: strip_line_directives_def list_all_iff strip_cr_directive dest!: subsetD)
  with kept show ?thesis by (simp add: strip_preprocessor_output_def Let_def)
qed

end
