(* ===== verification/Rule_Expr.thy ===== *)
theory Rule_Expr
  imports Line_Fold
begin

text \<open>
  Expressions and types of the rule-based translator
  (\<open>crates/noricum-tools/src/rule_translate/expressions.rs\<close> and the type table of
  \<open>functions.rs\<close>). A C expression is text; it is taken apart at operators outside parentheses and
  put together again as Rust text. \<open>None\<close> means that the expression is too complex.
\<close>

section \<open>Types\<close>

definition c_types :: "(string \<times> string) list" where
  "c_types =
     [(''int'', ''i32''), (''unsigned int'', ''u32''), (''unsigned'', ''u32''), (''long'', ''i64''),
      (''long long'', ''i64''), (''unsigned long'', ''u64''), (''unsigned long long'', ''u64''),
      (''short'', ''i16''), (''unsigned short'', ''u16''), (''char'', ''i8''), (''unsigned char'', ''u8''),
      (''float'', ''f32''), (''double'', ''f64''), (''void'', ''()''), (''size_t'', ''usize''),
      (''int32_t'', ''i32''), (''uint32_t'', ''u32''), (''int64_t'', ''i64''), (''uint64_t'', ''u64''),
      (''int16_t'', ''i16''), (''uint16_t'', ''u16''), (''int8_t'', ''i8''), (''uint8_t'', ''u8''),
      (''bool'', ''bool''), (''_Bool'', ''bool'')]"

definition c_type_to_rust :: "string \<Rightarrow> string option" where
  "c_type_to_rust c_type = map_of c_types (trim c_type)"

definition default_for_type :: "string \<Rightarrow> string" where
  "default_for_type rust_type =
     (if rust_type = ''f32'' \<or> rust_type = ''f64'' then ''0.0''
      else if rust_type = ''bool'' then ''false'' else ''0'')"

section \<open>Literals\<close>

text \<open>The texts that \<open>str::parse::<f64>\<close> accepts; those of \<open>i64\<close> are among them.\<close>

definition is_digits :: "string \<Rightarrow> bool" where
  "is_digits s \<longleftrightarrow> s \<noteq> [] \<and> list_all is_digit s"

definition drop_sign :: "string \<Rightarrow> string" where
  "drop_sign s = (case s of c # cs \<Rightarrow> if c = CHR ''+'' \<or> c = CHR ''-'' then cs else s | [] \<Rightarrow> [])"

definition is_mantissa :: "string \<Rightarrow> bool" where
  "is_mantissa s =
     (case dropWhile is_digit s of
        [] \<Rightarrow> s \<noteq> []
      | c # cs \<Rightarrow> c = CHR ''.'' \<and> list_all is_digit cs \<and> (takeWhile is_digit s \<noteq> [] \<or> cs \<noteq> []))"

definition is_exponent_mark :: "char \<Rightarrow> bool" where
  "is_exponent_mark c \<longleftrightarrow> c = CHR ''e'' \<or> c = CHR ''E''"

definition float_words :: "string list" where
  "float_words = [''inf'', ''infinity'', ''nan'']"

definition is_float_text :: "string \<Rightarrow> bool" where
  "is_float_text s =
     (let t = drop_sign s
      in to_lowercase t \<in> set float_words
         \<or> (case dropWhile (\<lambda>c. \<not> is_exponent_mark c) t of
              [] \<Rightarrow> is_mantissa t
            | _ # e \<Rightarrow> is_mantissa (takeWhile (\<lambda>c. \<not> is_exponent_mark c) t) \<and> is_digits (drop_sign e)))"

definition is_hexdigit :: "char \<Rightarrow> bool" where
  "is_hexdigit c = (is_digit c \<or> c \<in> set ''abcdefABCDEF'')"

definition int_suffix :: "char \<Rightarrow> bool" where "int_suffix c \<longleftrightarrow> c \<in> set ''uUlL''"
definition number_suffix :: "char \<Rightarrow> bool" where "number_suffix c \<longleftrightarrow> c \<in> set ''lLuUfF''"

definition is_numeric_literal :: "string \<Rightarrow> bool" where
  "is_numeric_literal s =
     (if starts_with s ''0x'' \<or> starts_with s ''0X'' then
        (let hex = trim_end_matches int_suffix s
         in 2 < length hex \<and> list_all (\<lambda>c. is_hexdigit c \<or> c = CHR ''_'') (drop 2 hex))
      else is_float_text (trim_end_matches number_suffix s))"

definition clean_numeric_literal :: "string \<Rightarrow> string" where
  "clean_numeric_literal s = trim_end_matches number_suffix s"

section \<open>Operators and arguments\<close>

definition paren_depth :: "char \<Rightarrow> int" where
  "paren_depth c = (if c = CHR ''('' then 1 else if c = CHR '')'' then - 1 else 0)"

fun split_args_from :: "int \<Rightarrow> string \<Rightarrow> string \<Rightarrow> string list" where
  "split_args_from depth current [] = (if trim current = [] then [] else [trim current])"
| "split_args_from depth current (c # cs) =
     (if c = CHR '','' \<and> depth = 0 then trim current # split_args_from depth [] cs
      else split_args_from (depth + paren_depth c) (current @ [c]) cs)"

definition split_args :: "string \<Rightarrow> string list" where
  "split_args s = split_args_from 0 [] s"

fun find_operator_from :: "int \<Rightarrow> nat \<Rightarrow> string \<Rightarrow> string \<Rightarrow> nat option" where
  "find_operator_from depth i [] op = None"
| "find_operator_from depth i (c # cs) op =
     (let depth' = depth + paren_depth c
      in if depth' = 0 \<and> starts_with (c # cs) op then Some i
         else find_operator_from depth' (i + 1) cs op)"

definition find_operator :: "string \<Rightarrow> string \<Rightarrow> nat option" where
  "find_operator expr op = find_operator_from 0 0 expr op"

definition binary_ops :: "string list" where
  "binary_ops = ['' && '', '' || '', '' == '', '' != '', '' <= '', '' >= '', '' < '', '' > '',
                 '' << '', '' >> '', '' & '', '' | '', '' ^ '', '' + '', '' - '', '' * '', '' / '', '' % '']"

fun first_operator :: "string list \<Rightarrow> string \<Rightarrow> (string \<times> nat) option" where
  "first_operator [] expr = None"
| "first_operator (op # ops) expr =
     (case find_operator expr op of Some pos \<Rightarrow> Some (op, pos) | None \<Rightarrow> first_operator ops expr)"

fun parens_balanced_from :: "int \<Rightarrow> string \<Rightarrow> bool" where
  "parens_balanced_from depth [] = (depth = 0)"
| "parens_balanced_from depth (c # cs) =
     (if depth + paren_depth c < 0 then False else parens_balanced_from (depth + paren_depth c) cs)"

definition parens_balanced :: "string \<Rightarrow> bool" where
  "parens_balanced s = parens_balanced_from 0 s"

text \<open>The parts of a conditional expression, a cast, a call and a parenthesised expression.\<close>

definition ternary_parts :: "string \<Rightarrow> (string \<times> string \<times> string) option" where
  "ternary_parts expr =
     (case find_operator expr '' ? '' of
        None \<Rightarrow> None
      | Some q \<Rightarrow>
          (let rest = drop (q + 3) expr
           in case find_operator rest '' : '' of
                None \<Rightarrow> None
              | Some c \<Rightarrow> Some (take q expr, take c rest, drop (c + 3) rest)))"

definition cast_parts :: "string \<Rightarrow> (string \<times> string) option" where
  "cast_parts expr =
     (if starts_with expr ''('' then
        (case find_char expr (CHR '')'') of
           None \<Rightarrow> None
         | Some close \<Rightarrow>
             (case c_type_to_rust (trim (take (close - 1) (tl expr))) of
                None \<Rightarrow> None
              | Some ty \<Rightarrow> if close + 1 < length expr then Some (ty, drop (close + 1) expr) else None))
      else None)"

definition call_parts :: "string \<Rightarrow> (string \<times> string list) option" where
  "call_parts expr =
     (case find_char expr (CHR ''('') of
        None \<Rightarrow> None
      | Some paren \<Rightarrow>
          if ends_with expr '')'' \<and> take paren expr \<noteq> [] \<and> list_all is_word_char (take paren expr)
          then Some (take paren expr, split_args (butlast (drop (paren + 1) expr)))
          else None)"

definition paren_inner :: "string \<Rightarrow> string option" where
  "paren_inner expr =
     (if starts_with expr ''('' \<and> ends_with expr '')'' \<and> 2 \<le> length expr \<and> parens_balanced (butlast (tl expr))
      then Some (butlast (tl expr)) else None)"

section \<open>Lengths\<close>

lemma find_operator_from_bound:
  "find_operator_from d i s op = Some p \<Longrightarrow> i \<le> p \<and> p + length op \<le> i + length s"
proof (induction s arbitrary: d i)
  case (Cons c cs)
  show ?case
  proof (cases "d + paren_depth c = 0 \<and> starts_with (c # cs) op")
    case True
    then have "length op \<le> length (c # cs)" by (metis starts_with_iff length_append le_add1)
    with True Cons.prems show ?thesis by auto
  next
    case False
    with Cons.prems have "find_operator_from (d + paren_depth c) (i + 1) cs op = Some p"
      by (auto simp: Let_def)
    from Cons.IH [OF this] show ?thesis by simp
  qed
qed simp

lemma find_operator_bound: "find_operator s op = Some p \<Longrightarrow> p + length op \<le> length s"
  using find_operator_from_bound [of 0 0 s op p] by (simp add: find_operator_def)

lemma first_operator_Some: "first_operator ops s = Some (op, p) \<Longrightarrow> op \<in> set ops \<and> find_operator s op = Some p"
  by (induction ops) (auto split: option.splits)

lemma binary_ops_length: "op \<in> set binary_ops \<Longrightarrow> 3 \<le> length op"
  by (auto simp: binary_ops_def)

lemma split_args_from_length: "a \<in> set (split_args_from d cur s) \<Longrightarrow> length a \<le> length cur + length s"
proof (induction d cur s rule: split_args_from.induct)
  case (1 d cur)
  then show ?case using length_trim [of cur] by (auto split: if_splits)
next
  case (2 d cur c cs)
  show ?case
  proof (cases "c = CHR '','' \<and> d = 0")
    case True
    with "2.prems" have "a = trim cur \<or> a \<in> set (split_args_from d [] cs)" by simp
    then show ?thesis using "2.IH"(1) [OF True] length_trim [of cur] by fastforce
  next
    case False
    with "2.prems" have "a \<in> set (split_args_from (d + paren_depth c) (cur @ [c]) cs)" by simp
    from "2.IH"(2) [OF False this] show ?thesis by simp
  qed
qed

lemma cast_parts_length: "cast_parts e = Some (ty, r) \<Longrightarrow> length r < length e"
  by (auto simp: cast_parts_def split: if_splits option.splits)

lemma call_parts_length: "call_parts e = Some (nm, args) \<Longrightarrow> a \<in> set args \<Longrightarrow> length a < length e"
proof -
  assume call: "call_parts e = Some (nm, args)" and a: "a \<in> set args"
  then obtain p where p: "find_char e (CHR ''('') = Some p" "args = split_args (butlast (drop (p + 1) e))"
    by (auto simp: call_parts_def split: option.splits if_splits)
  have "p < length e" using position_Some [OF p(1) [unfolded find_char_def]] by simp
  with a p(2) split_args_from_length [of a 0 "[]" "butlast (drop (p + 1) e)"] show ?thesis
    by (simp add: split_args_def)
qed

lemma ternary_parts_length:
  "ternary_parts e = Some (c, a, b) \<Longrightarrow> length c < length e \<and> length a < length e \<and> length b < length e"
  using find_operator_bound by (fastforce simp: ternary_parts_def Let_def split: option.splits)

lemma length_trim_less: "length s < n \<Longrightarrow> length (trim s) < n"
  using length_trim [of s] by simp

section \<open>Expressions\<close>

definition combine3 :: "string option \<Rightarrow> string option \<Rightarrow> string option \<Rightarrow> string option" where
  "combine3 c a b =
     (case (c, a, b) of
        (Some x, Some y, Some z) \<Rightarrow> Some (''if '' @ x @ '' { '' @ y @ '' } else { '' @ z @ '' }'')
      | _ \<Rightarrow> None)"

text \<open>The texts that are taken over as they are, up to the suffix of a number.\<close>

definition literal_expr :: "string \<Rightarrow> string option option" where
  "literal_expr expr =
     (if expr = [] then Some None
      else if expr = ''true'' \<or> expr = ''false'' then Some (Some expr)
      else if list_all is_word_char expr then Some (Some expr)
      else if is_numeric_literal expr then Some (Some (clean_numeric_literal expr))
      else if starts_with expr ''-'' \<and> 1 < length expr \<and> is_numeric_literal (tl expr)
        then Some (Some (CHR ''-'' # clean_numeric_literal (tl expr)))
      else None)"

text \<open>What remains is taken apart in this order.\<close>

datatype expr_view =
    Binary string string string
  | Prefixed char string
  | CastTo string string
  | CallOf string "string list"
  | Parens string
  | TooComplex

definition view_expr :: "string \<Rightarrow> expr_view" where
  "view_expr expr =
     (case first_operator binary_ops expr of
        Some (op, pos) \<Rightarrow> Binary (take pos expr) op (drop (pos + length op) expr)
      | None \<Rightarrow>
          if starts_with expr ''!'' then Prefixed (CHR ''!'') (tl expr)
          else if starts_with expr ''-'' \<and> 1 < length expr then Prefixed (CHR ''-'') (tl expr)
          else (case cast_parts expr of
                  Some (ty, r) \<Rightarrow> CastTo ty r
                | None \<Rightarrow>
                    (case call_parts expr of
                       Some (nm, args) \<Rightarrow> CallOf nm (filter (\<lambda>a. a \<noteq> []) (map trim args))
                     | None \<Rightarrow> (case paren_inner expr of Some inner \<Rightarrow> Parens inner | None \<Rightarrow> TooComplex))))"

lemma view_expr_length:
  "view_expr e = Binary l op r \<Longrightarrow> length l < length e \<and> length r < length e"
  "view_expr e = Prefixed c x \<Longrightarrow> length x < length e"
  "view_expr e = CastTo ty x \<Longrightarrow> length x < length e"
  "view_expr e = CallOf nm args \<Longrightarrow> a \<in> set args \<Longrightarrow> length a < length e"
  "view_expr e = Parens x \<Longrightarrow> length x < length e"
proof -
  show "length l < length e \<and> length r < length e" if "view_expr e = Binary l op r"
  proof -
    from that obtain pos where pos: "first_operator binary_ops e = Some (op, pos)" "l = take pos e"
      "r = drop (pos + length op) e"
      by (auto simp: view_expr_def split: option.splits if_splits prod.splits)
    with find_operator_bound [of e op pos] binary_ops_length [of op] first_operator_Some [OF pos(1)]
    show ?thesis by auto
  qed
  show "length x < length e" if "view_expr e = Prefixed c x"
    using that by (cases e) (auto simp: view_expr_def split: option.splits if_splits prod.splits)
  show "length x < length e" if "view_expr e = CastTo ty x"
    using that cast_parts_length [of e ty x]
    by (auto simp: view_expr_def split: option.splits if_splits prod.splits)
  show "length a < length e" if "view_expr e = CallOf nm args" "a \<in> set args"
  proof -
    from that obtain as where "call_parts e = Some (nm, as)" "a \<in> trim ` set as"
      by (auto simp: view_expr_def split: option.splits if_splits prod.splits)
    then show ?thesis using call_parts_length length_trim by (metis imageE le_less_trans)
  qed
  show "length x < length e" if "view_expr e = Parens x"
    using that by (auto simp: view_expr_def paren_inner_def split: option.splits if_splits prod.splits)
qed

function translate_expr :: "string \<Rightarrow> string option" and translate_plain :: "string \<Rightarrow> string option" where
  "translate_expr raw =
     (case literal_expr (trim raw) of
        Some r \<Rightarrow> r
      | None \<Rightarrow>
          (case ternary_parts (trim raw) of
             None \<Rightarrow> translate_plain (trim raw)
           | Some (c, a, b) \<Rightarrow>
               (case combine3 (translate_expr (trim c)) (translate_expr (trim a)) (translate_expr (trim b)) of
                  Some r \<Rightarrow> Some r
                | None \<Rightarrow> translate_plain (trim raw))))"
| "translate_plain expr =
     (case view_expr expr of
        Binary lhs op rhs \<Rightarrow>
          (case translate_expr lhs of
             None \<Rightarrow> None
           | Some l \<Rightarrow> map_option (\<lambda>r. l @ op @ r) (translate_expr rhs))
      | Prefixed c inner \<Rightarrow> map_option (\<lambda>t. c # t) (translate_expr inner)
      | CastTo ty inner \<Rightarrow> map_option (\<lambda>t. t @ '' as '' @ ty) (translate_expr inner)
      | CallOf nm args \<Rightarrow>
          map_option (\<lambda>ts. nm @ ''('' @ join '', '' ts @ '')'') (those (map (\<lambda>a. translate_expr a) args))
      | Parens inner \<Rightarrow> map_option (\<lambda>t. ''('' @ t @ '')'') (translate_expr inner)
      | TooComplex \<Rightarrow> None)"
  by pat_completeness auto
termination
proof (relation "measures [\<lambda>x. case x of Inl raw \<Rightarrow> length raw | Inr e \<Rightarrow> length e, \<lambda>x. case x of Inl _ \<Rightarrow> 1 | Inr _ \<Rightarrow> 0]",
    goal_cases)
qed (use length_trim ternary_parts_length view_expr_length in \<open>fastforce simp: le_less intro: length_trim_less less_le_trans\<close>)+

declare translate_expr.simps [simp del] translate_plain.simps [simp del]

section \<open>Expressions as trees\<close>

text \<open>
  The expressions the translator covers, how C writes them with parentheses around every operand
  that is not a name or a number, and the Rust texts they stand for.
\<close>

datatype c_expr =
    Name string
  | Num nat
  | Bin string c_expr c_expr
  | Pre char c_expr
  | Cast string c_expr
  | Call string "c_expr list"
  | Cond c_expr c_expr c_expr

fun is_leaf :: "c_expr \<Rightarrow> bool" where
  "is_leaf (Name _) = True"
| "is_leaf (Num _) = True"
| "is_leaf _ = False"

definition in_parens :: "c_expr \<Rightarrow> string \<Rightarrow> string" where
  "in_parens e t = (if is_leaf e then t else ''('' @ t @ '')'')"

fun c_text :: "c_expr \<Rightarrow> string" where
  "c_text (Name x) = x"
| "c_text (Num n) = show_nat n"
| "c_text (Bin op a b) = in_parens a (c_text a) @ op @ in_parens b (c_text b)"
| "c_text (Pre c a) = c # in_parens a (c_text a)"
| "c_text (Cast ty a) = ''('' @ ty @ '')'' @ in_parens a (c_text a)"
| "c_text (Call f args) = f @ ''('' @ join '', '' (map c_text args) @ '')''"
| "c_text (Cond c a b) =
     in_parens c (c_text c) @ '' ? '' @ in_parens a (c_text a) @ '' : '' @ in_parens b (c_text b)"

fun rust_text :: "c_expr \<Rightarrow> string" where
  "rust_text (Name x) = x"
| "rust_text (Num n) = show_nat n"
| "rust_text (Bin op a b) = in_parens a (rust_text a) @ op @ in_parens b (rust_text b)"
| "rust_text (Pre c a) = c # in_parens a (rust_text a)"
| "rust_text (Cast ty a) = in_parens a (rust_text a) @ '' as '' @ the (c_type_to_rust ty)"
| "rust_text (Call f args) = f @ ''('' @ join '', '' (map rust_text args) @ '')''"
| "rust_text (Cond c a b) =
     ''if '' @ in_parens c (rust_text c) @ '' { '' @ in_parens a (rust_text a) @ '' } else { ''
     @ in_parens b (rust_text b) @ '' }''"

text \<open>A name is a word that does not start with a digit and is no number (as \<open>inf\<close> is).\<close>

definition is_name :: "string \<Rightarrow> bool" where
  "is_name x \<longleftrightarrow> x \<noteq> [] \<and> list_all is_word_char x \<and> \<not> is_digit (hd x) \<and> \<not> is_numeric_literal x"

fun covered :: "c_expr \<Rightarrow> bool" where
  "covered (Name x) = is_name x"
| "covered (Num n) = True"
| "covered (Bin op a b) = (op \<in> set binary_ops \<and> covered a \<and> covered b)"
| "covered (Pre c a) = ((c = CHR ''!'' \<or> c = CHR ''-'') \<and> covered a)"
| "covered (Cast ty a) = (ty \<in> fst ` set c_types \<and> covered a)"
| "covered (Call f args) = (is_name f \<and> args \<noteq> [] \<and> (\<forall>a \<in> set args. covered a))"
| "covered (Cond c a b) = (covered c \<and> covered a \<and> covered b)"

subsection \<open>Scanning past balanced text\<close>

text \<open>
  A text that opens no parenthesis it does not close, closes none it did not open, and has commas
  only inside parentheses.
\<close>

fun nested :: "int \<Rightarrow> string \<Rightarrow> bool" where
  "nested d [] = (d = 0)"
| "nested d (c # cs) = (0 \<le> d + paren_depth c \<and> (c = CHR '','' \<longrightarrow> 0 < d) \<and> nested (d + paren_depth c) cs)"

lemma nested_append: "nested d xs \<Longrightarrow> nested 0 ys \<Longrightarrow> nested d (xs @ ys)"
  by (induction xs arbitrary: d) auto

lemma nested_plain: "\<forall>c \<in> set xs. paren_depth c = 0 \<and> c \<noteq> CHR '','' \<Longrightarrow> nested 0 xs"
  by (induction xs) auto

lemma nested_inside: "nested d xs \<Longrightarrow> 0 < k \<Longrightarrow> nested k ys \<Longrightarrow> nested (d + k) (xs @ ys)"
proof (induction xs arbitrary: d)
  case (Cons c cs)
  have step: "d + k + paren_depth c = d + paren_depth c + k" by simp
  show ?case
    using Cons.IH [of "d + paren_depth c"] Cons.prems unfolding append_Cons nested.simps step by auto
qed simp

lemma nested_close: "nested 1 '')''"
  by (simp add: paren_depth_def)

lemma nested_parens: "nested 0 xs \<Longrightarrow> nested 0 (''('' @ xs @ '')'')"
  using nested_inside [of 0 xs 1 "'')''"] nested_close by (simp add: paren_depth_def)

lemma nested_join: "\<forall>t \<in> set ts. nested 0 t \<Longrightarrow> nested 1 ys \<Longrightarrow> nested 1 (join '', '' ts @ ys)"
proof (induction ts)
  case (Cons t ts)
  show ?case
  proof (cases "ts = []")
    case True
    with Cons.prems nested_inside [of 0 t 1 ys] show ?thesis by simp
  next
    case False
    have "nested 1 ('', '' @ join '', '' ts @ ys)" using Cons by (simp add: paren_depth_def)
    with False Cons.prems nested_inside [of 0 t 1] show ?thesis by (simp add: join_Cons)
  qed
qed simp

lemma nested_balanced: "nested d xs \<Longrightarrow> parens_balanced_from d xs"
  by (induction xs arbitrary: d) auto

lemma word_char_depth: "is_word_char c \<Longrightarrow> paren_depth c = 0 \<and> c \<noteq> CHR '','' \<and> \<not> is_whitespace c"
  by (auto simp: paren_depth_def is_whitespace_def Let_def is_word_char_def is_alphanumeric_def is_digit_def is_uppercase_def is_lowercase_def)

text \<open>A text inside parentheses: the depth stays positive.\<close>

fun deep :: "int \<Rightarrow> string \<Rightarrow> bool" where
  "deep d [] = (d = 1)"
| "deep d (c # cs) = (1 \<le> d + paren_depth c \<and> deep (d + paren_depth c) cs)"

lemma nested_deep: "nested d s \<Longrightarrow> deep (d + 1) s"
proof (induction s arbitrary: d)
  case (Cons c cs)
  have step: "d + 1 + paren_depth c = d + paren_depth c + 1" by simp
  show ?case using Cons.IH [of "d + paren_depth c"] Cons.prems unfolding deep.simps step by auto
qed simp

lemma deep_append: "deep d xs \<Longrightarrow> deep 1 ys \<Longrightarrow> deep d (xs @ ys)"
  by (induction xs arbitrary: d) auto

lemma deep_join: "\<forall>t \<in> set ts. nested 0 t \<Longrightarrow> deep 1 (join '', '' ts)"
proof (induction ts)
  case (Cons t ts)
  then have t: "deep 1 t" using nested_deep [of 0 t] by simp
  show ?case
  proof (cases "ts = []")
    case False
    have "deep 1 ('', '' @ join '', '' ts)" using Cons by (simp add: paren_depth_def)
    with False t show ?thesis by (simp add: join_Cons deep_append)
  qed (use t in simp)
qed simp

lemma deep_nested: "deep d s \<Longrightarrow> 1 \<le> d \<Longrightarrow> nested d (s @ '')'')"
  by (induction s arbitrary: d) (auto simp: paren_depth_def)

lemma find_operator_deep:
  "deep d xs \<Longrightarrow> find_operator_from d i (xs @ ys) op = find_operator_from 1 (i + length xs) ys op"
  by (induction xs arbitrary: d i) (auto simp: Let_def)

text \<open>The texts an operator with blanks around it is never found in: words and parenthesised texts.\<close>

definition solid :: "string \<Rightarrow> bool" where
  "solid t \<longleftrightarrow> (t \<noteq> [] \<and> list_all is_word_char t) \<or> (\<exists>s. t = ''('' @ s @ '')'' \<and> deep 1 s)"

lemma find_operator_solid:
  assumes "solid t" and "starts_with op '' ''"
  shows "find_operator_from 0 i (t @ ys) op = find_operator_from 0 (i + length t) ys op"
proof -
  obtain op' where op: "op = CHR '' '' # op'" using assms(2) by (auto simp: starts_with_iff)
  from assms(1) consider "list_all is_word_char t" | s where "t = ''('' @ s @ '')''" "deep 1 s"
    by (auto simp: solid_def)
  then show ?thesis
  proof cases
    case 1
    have "is_word_char c \<Longrightarrow> c \<noteq> CHR '' ''" for c
      by (auto simp: is_word_char_def is_alphanumeric_def is_digit_def is_uppercase_def is_lowercase_def)
    with 1 show ?thesis
      by (induction t arbitrary: i) (auto simp: op word_char_depth)
  next
    case 2
    have "find_operator_from 0 i (t @ ys) op = find_operator_from 1 (Suc i) (s @ CHR '')'' # ys) op"
      by (simp add: 2 op paren_depth_def)
    also have "\<dots> = find_operator_from 1 (Suc i + length s) (CHR '')'' # ys) op"
      by (rule find_operator_deep [OF 2(2)])
    also have "\<dots> = find_operator_from 0 (i + length t) ys op"
      by (simp add: 2 op paren_depth_def)
    finally show ?thesis .
  qed
qed

lemma solid_hd: "solid t \<Longrightarrow> t \<noteq> [] \<and> (is_word_char (hd t) \<or> hd t = CHR ''('')"
  by (cases t) (auto simp: solid_def)

text \<open>The blank-separated operators: no two of them are the beginning of one another.\<close>

definition is_op_char :: "char \<Rightarrow> bool" where
  "is_op_char c \<longleftrightarrow> c \<in> set ''&|=!<>^+-*/%?:''"

definition spaced :: "string \<Rightarrow> bool" where
  "spaced op \<longleftrightarrow> (\<exists>m. op = CHR '' '' # m @ '' '' \<and> m \<noteq> [] \<and> list_all is_op_char m)"

lemma op_char_facts: "is_op_char c \<Longrightarrow> \<not> is_word_char c \<and> c \<noteq> CHR '' '' \<and> c \<noteq> CHR ''('' \<and> paren_depth c = 0"
  by (auto simp: is_op_char_def is_word_char_def is_alphanumeric_def is_digit_def is_uppercase_def is_lowercase_def
      paren_depth_def)

lemma spacedI: "m \<noteq> [] \<Longrightarrow> list_all is_op_char m \<Longrightarrow> op = CHR '' '' # m @ '' '' \<Longrightarrow> spaced op"
  by (auto simp: spaced_def)

lemma spaced_binary: "op \<in> set binary_ops \<Longrightarrow> spaced op"
proof -
  have "list_all (\<lambda>op. op = CHR '' '' # butlast (tl op) @ '' '' \<and> butlast (tl op) \<noteq> [] \<and> list_all is_op_char (butlast (tl op)))
      binary_ops"
    by (simp add: binary_ops_def is_op_char_def)
  then show "op \<in> set binary_ops \<Longrightarrow> spaced op" by (auto simp: list_all_iff intro: spacedI)
qed

lemma spaced_ternary: "spaced '' ? ''" "spaced '' : ''"
  by (rule spacedI [of "''?''"], simp_all add: is_op_char_def) (rule spacedI [of "'':''"], simp_all add: is_op_char_def)

lemma spaced_starts: "spaced op \<Longrightarrow> starts_with op '' ''"
  by (auto simp: spaced_def)

lemma split_at_space:
  "CHR '' '' \<notin> set m \<Longrightarrow> CHR '' '' \<notin> set m' \<Longrightarrow> m @ CHR '' '' # t = m' @ CHR '' '' # t' \<Longrightarrow> m = m'"
proof (induction m arbitrary: m')
  case Nil
  then show ?case by (cases m') auto
next
  case (Cons c m)
  then show ?case by (cases m') auto
qed

lemma starts_with_spaced:
  assumes "spaced op" and "spaced op'"
  shows "starts_with (op @ t) op' \<longleftrightarrow> op = op'"
proof
  assume "starts_with (op @ t) op'"
  moreover obtain m m' where "op = CHR '' '' # m @ '' ''" "list_all is_op_char m"
    "op' = CHR '' '' # m' @ '' ''" "list_all is_op_char m'"
    using assms by (auto simp: spaced_def)
  moreover from this have "CHR '' '' \<notin> set m" "CHR '' '' \<notin> set m'"
    using op_char_facts by (auto simp: list_all_iff)
  ultimately show "op = op'"
    using split_at_space [of m m'] by (auto simp: starts_with_iff)
qed simp

lemma find_operator_op_chars:
  "list_all is_op_char m \<Longrightarrow> spaced op \<Longrightarrow>
     find_operator_from 0 i (m @ ys) op = find_operator_from 0 (i + length m) ys op"
proof (induction m arbitrary: i)
  case (Cons c m)
  then have "\<not> starts_with (c # m @ ys) op" using op_char_facts [of c] by (auto simp: spaced_def)
  with Cons show ?case using op_char_facts [of c] by (simp add: Let_def)
qed simp

lemma find_operator_spaced:
  assumes ops: "spaced op" "spaced op'" and y: "solid y"
  shows "find_operator_from 0 i (op @ y @ ys) op' =
     (if op = op' then Some i else find_operator_from 0 (i + length op + length y) ys op')"
proof (cases "op = op'")
  case True
  have "starts_with (op @ y @ ys) op" by simp
  moreover obtain m where "op = CHR '' '' # m @ '' ''" using ops by (auto simp: spaced_def)
  ultimately show ?thesis using True by (simp add: Let_def paren_depth_def)
next
  case False
  obtain m where m: "op = CHR '' '' # m @ '' ''" "list_all is_op_char m" using ops by (auto simp: spaced_def)
  obtain m' where m': "op' = CHR '' '' # m' @ '' ''" "m' \<noteq> []" "list_all is_op_char m'"
    using ops by (auto simp: spaced_def)
  have "\<not> starts_with (op @ y @ ys) op'" using False starts_with_spaced [OF ops] by simp
  then have "find_operator_from 0 i (op @ y @ ys) op' = find_operator_from 0 (Suc i) (m @ CHR '' '' # y @ ys) op'"
    by (simp add: m Let_def paren_depth_def)
  also have "\<dots> = find_operator_from 0 (Suc i + length m) (CHR '' '' # y @ ys) op'"
    by (rule find_operator_op_chars [OF m(2) ops(2)])
  also have "\<dots> = find_operator_from 0 (Suc (Suc i + length m)) (y @ ys) op'"
  proof -
    obtain a r where a: "m' = a # r" "is_op_char a" using m' by (cases m') auto
    have "y \<noteq> []" "hd y \<noteq> a" using solid_hd [OF y] op_char_facts [OF a(2)] by auto
    then have "\<not> starts_with (CHR '' '' # y @ ys) op'" by (cases y) (auto simp: m'(1) a(1))
    then show ?thesis by (simp add: Let_def paren_depth_def)
  qed
  also have "\<dots> = find_operator_from 0 (Suc (Suc i + length m) + length y) ys op'"
    by (rule find_operator_solid [OF y spaced_starts [OF ops(2)]])
  finally show ?thesis using False by (simp add: m)
qed

lemma find_operator_single: "solid x \<Longrightarrow> spaced op \<Longrightarrow> find_operator x op = None"
  using find_operator_solid [of x op 0 "[]"] by (simp add: find_operator_def spaced_starts)

lemma find_operator_binary:
  "solid x \<Longrightarrow> solid y \<Longrightarrow> spaced op \<Longrightarrow> spaced op' \<Longrightarrow>
     find_operator (x @ op @ y) op' = (if op = op' then Some (length x) else None)"
  using find_operator_solid [of x op' 0 "op @ y"] find_operator_spaced [of op op' y "length x" "[]"]
  by (simp add: find_operator_def spaced_starts)

lemma find_operator_three:
  assumes "solid x" "solid y" "solid z" and "spaced op1" "spaced op2" "spaced op"
  shows "find_operator (x @ op1 @ y @ op2 @ z) op =
     (if op1 = op then Some (length x)
      else if op2 = op then Some (length x + length op1 + length y) else None)"
  using assms find_operator_solid [of x op 0 "op1 @ y @ op2 @ z"]
    find_operator_spaced [of op1 op y "length x" "op2 @ z"]
    find_operator_spaced [of op2 op z "length x + length op1 + length y" "[]"]
  by (simp add: find_operator_def spaced_starts)

subsection \<open>Numbers and names\<close>

definition number_char :: "char \<Rightarrow> bool" where
  "number_char c \<longleftrightarrow> is_word_char c \<or> c \<in> set ''+-.''"

lemma is_digit_word: "is_digit c \<Longrightarrow> is_word_char c"
  by (simp add: is_word_char_def is_alphanumeric_def)

text \<open>Membership in a concrete text is used through \<open>list_all\<close>, so that it is not split into cases.\<close>

lemma number_char_classes:
  "is_digit c \<Longrightarrow> number_char c" "is_hexdigit c \<Longrightarrow> number_char c" "int_suffix c \<Longrightarrow> number_char c"
  "number_suffix c \<Longrightarrow> number_char c" "is_exponent_mark c \<Longrightarrow> number_char c"
proof -
  show digit: "is_digit c \<Longrightarrow> number_char c" by (simp add: number_char_def is_digit_word)
  have hex: "list_all number_char ''abcdefABCDEF''" and int: "list_all number_char ''uUlL''"
    and num: "list_all number_char ''lLuUfF''" and mark: "list_all number_char ''eE''"
    by code_simp+
  show "is_hexdigit c \<Longrightarrow> number_char c"
    using hex digit unfolding is_hexdigit_def list_all_iff by blast
  show "int_suffix c \<Longrightarrow> number_char c" using int unfolding int_suffix_def list_all_iff by blast
  show "number_suffix c \<Longrightarrow> number_char c" using num unfolding number_suffix_def list_all_iff by blast
  show "is_exponent_mark c \<Longrightarrow> number_char c" using mark by (auto simp: is_exponent_mark_def)
qed

lemma number_char_signs:
  "number_char (CHR ''+'')" "number_char (CHR ''-'')" "number_char (CHR ''.'')" "number_char (CHR ''_'')"
  by (simp_all add: number_char_def is_word_char_def)

lemma list_all_sign: "list_all P (drop_sign s) \<Longrightarrow> P (CHR ''+'') \<Longrightarrow> P (CHR ''-'') \<Longrightarrow> list_all P s"
  by (auto simp: drop_sign_def split: list.splits if_splits)

lemma list_all_dropWhile: "list_all P (dropWhile Q s) \<Longrightarrow> (\<And>c. Q c \<Longrightarrow> P c) \<Longrightarrow> list_all P s"
  by (induction s) (auto split: if_splits)

lemma mantissa_chars: "is_mantissa s \<Longrightarrow> list_all number_char s"
proof -
  assume s: "is_mantissa s"
  have digit: "is_digit c \<Longrightarrow> number_char c" for c by (simp add: number_char_def is_digit_word)
  have "list_all number_char (dropWhile is_digit s)"
  proof (cases "dropWhile is_digit s")
    case (Cons c cs)
    then have "c = CHR ''.''" "list_all is_digit cs" using s by (simp_all add: is_mantissa_def)
    then show ?thesis using number_char_classes(1) number_char_signs by (simp add: Cons list_all_iff)
  next
    case Nil
    show ?thesis unfolding Nil by simp
  qed
  then show ?thesis using digit by (rule list_all_dropWhile)
qed

lemma word_lower: "to_lowercase t = w \<Longrightarrow> list_all is_lowercase w \<Longrightarrow> list_all number_char t"
proof -
  have "is_lowercase (lower_char c) \<Longrightarrow> number_char c" for c
    by (auto simp: lower_char_def number_char_def is_word_char_def is_alphanumeric_def split: if_splits)
  then show "to_lowercase t = w \<Longrightarrow> list_all is_lowercase w \<Longrightarrow> list_all number_char t"
    by (auto simp: to_lowercase_def list_all_iff)
qed

lemma float_chars: "is_float_text s \<Longrightarrow> list_all number_char s"
proof -
  assume s: "is_float_text s"
  let ?t = "drop_sign s" and ?e = "\<lambda>c. \<not> is_exponent_mark c"
  have digit: "is_digit c \<Longrightarrow> number_char c" for c by (simp add: number_char_def is_digit_word)
  note mark = number_char_classes(5) and sign = number_char_signs(1,2)
  have words: "list_all (list_all is_lowercase) float_words" by code_simp
  have "list_all number_char ?t"
  proof (cases "to_lowercase ?t \<in> set float_words")
    case True
    then have "list_all is_lowercase (to_lowercase ?t)" using words by (simp add: list_all_iff)
    then show ?thesis using word_lower [OF refl] by blast
  next
    case False
    show ?thesis
    proof (cases "dropWhile ?e ?t")
      case Nil
      have "is_mantissa ?t" using s False unfolding is_float_text_def Let_def Nil by simp
      then show ?thesis by (rule mantissa_chars)
    next
      case (Cons c e)
      have "is_mantissa (takeWhile ?e ?t)" "is_digits (drop_sign e)"
        using s False unfolding is_float_text_def Let_def Cons by simp_all
      then have "list_all number_char e"
        using digit sign list_all_sign [of number_char e] by (simp add: is_digits_def list_all_iff)
      moreover have "number_char c"
      proof -
        have "\<not> ?e (hd (dropWhile ?e ?t))" by (rule hd_dropWhile) (simp add: Cons)
        then show ?thesis using mark by (simp add: Cons)
      qed
      moreover have "list_all number_char (takeWhile ?e ?t)" by (rule mantissa_chars) fact
      ultimately have "list_all number_char (takeWhile ?e ?t @ dropWhile ?e ?t)" by (simp add: Cons)
      then show ?thesis by simp
    qed
  qed
  then show ?thesis using sign by (rule list_all_sign)
qed

lemma trim_end_matches_split: "\<exists>t. s = trim_end_matches P s @ t \<and> list_all P t"
proof -
  have "rev s = takeWhile P (rev s) @ dropWhile P (rev s)" by simp
  then have "s = trim_end_matches P s @ rev (takeWhile P (rev s))"
    unfolding trim_end_matches_def by (metis rev_append rev_rev_ident)
  moreover have "list_all P (rev (takeWhile P (rev s)))" by (auto simp: list_all_iff dest: set_takeWhileD)
  ultimately show ?thesis by blast
qed

lemma numeric_chars: "is_numeric_literal s \<Longrightarrow> list_all number_char s"
proof -
  assume num: "is_numeric_literal s"
  show ?thesis
  proof (cases "starts_with s ''0x'' \<or> starts_with s ''0X''")
    case True
    define hex where "hex = trim_end_matches int_suffix s"
    obtain t where t: "s = hex @ t" "list_all int_suffix t"
      using trim_end_matches_split unfolding hex_def by blast
    have hex: "2 < length hex" "list_all (\<lambda>c. is_hexdigit c \<or> c = CHR ''_'') (drop 2 hex)"
      using num True unfolding is_numeric_literal_def hex_def [symmetric] by (auto simp: Let_def)
    have "take 2 hex = take 2 s" using t(1) hex(1) by simp
    then have "take 2 hex = ''0x'' \<or> take 2 hex = ''0X''" using True unfolding starts_with_take by (simp add: numeral_2_eq_2)
    moreover have "list_all number_char ''0x''" "list_all number_char ''0X''" by code_simp+
    ultimately have "list_all number_char (take 2 hex)" by metis
    moreover have "list_all number_char (drop 2 hex)"
      using hex(2) number_char_classes(2) number_char_signs(4) unfolding list_all_iff by blast
    moreover have "list_all number_char t" using t(2) number_char_classes(3) unfolding list_all_iff by blast
    ultimately show ?thesis using t(1) by (metis append_take_drop_id list_all_append)
  next
    case False
    obtain t where t: "s = trim_end_matches number_suffix s @ t" "list_all number_suffix t"
      using trim_end_matches_split by blast
    have "list_all number_char (trim_end_matches number_suffix s)"
      using num False unfolding is_numeric_literal_def by (metis float_chars)
    moreover have "list_all number_char t" using t(2) number_char_classes(4) unfolding list_all_iff by blast
    ultimately show ?thesis using t(1) by (metis list_all_append)
  qed
qed

lemma not_numeric:
  "c \<in> set s \<Longrightarrow> \<not> number_char c \<Longrightarrow> \<not> is_numeric_literal s"
  "\<not> number_char (CHR '' '')" "\<not> number_char (CHR ''('')" "\<not> number_char (CHR ''!'')"
  using numeric_chars [of s]
  by (auto simp: list_all_iff number_char_def is_word_char_def is_alphanumeric_def is_digit_def is_uppercase_def
      is_lowercase_def)

lemma show_nat_digits: "list_all is_digit (show_nat n) \<and> show_nat n \<noteq> []"
proof (induction n rule: show_nat.induct)
  case (1 n)
  have digit: "m < 10 \<Longrightarrow> is_digit (char_of (48 + m :: nat))" for m by (simp add: is_digit_def Let_def)
  show ?case
  proof (cases "n < 10")
    case True
    with digit [of n] show ?thesis by (subst (1 2) show_nat.simps) simp
  next
    case False
    with 1 digit [of "n mod 10"] show ?thesis by (subst (1 2) show_nat.simps) simp
  qed
qed

declare show_nat.simps [simp del]

lemma show_nat_word: "list_all is_word_char (show_nat n)" "show_nat n \<noteq> []"
  using show_nat_digits [of n] is_digit_word by (auto simp: list_all_iff)

lemma name_word: "is_name x \<Longrightarrow> list_all is_word_char x \<and> x \<noteq> []"
  by (simp add: is_name_def)

lemma word_solid: "list_all is_word_char w \<Longrightarrow> w \<noteq> [] \<Longrightarrow> solid w"
  by (simp add: solid_def)

lemma deep_solid: "deep 1 s \<Longrightarrow> solid (''('' @ s @ '')'')"
  by (auto simp: solid_def)

lemma parens_solid: "nested 0 s \<Longrightarrow> solid (''('' @ s @ '')'')"
  using nested_deep [of 0 s] by (intro deep_solid) simp

lemma solid_nested: "solid t \<Longrightarrow> nested 0 t"
  using deep_nested [of 1] nested_plain word_char_depth by (auto simp: solid_def list_all_iff paren_depth_def)

lemma type_word: "ty \<in> fst ` set c_types \<Longrightarrow> CHR ''('' \<notin> set ty \<and> CHR '')'' \<notin> set ty \<and> nested 0 ty \<and> trim ty = ty"
proof -
  have "list_all (\<lambda>(ty, _). CHR ''('' \<notin> set ty \<and> CHR '')'' \<notin> set ty \<and> nested 0 ty \<and> trim ty = ty) c_types"
    by code_simp
  then show "ty \<in> fst ` set c_types \<Longrightarrow> CHR ''('' \<notin> set ty \<and> CHR '')'' \<notin> set ty \<and> nested 0 ty \<and> trim ty = ty"
    unfolding list_all_iff by fastforce
qed

lemma op_nested: "op \<in> set binary_ops \<Longrightarrow> nested 0 op"
proof -
  have "list_all (nested 0) binary_ops" by code_simp
  then show "op \<in> set binary_ops \<Longrightarrow> nested 0 op" unfolding list_all_iff by blast
qed

lemma in_parens_solid:
  assumes "covered e" and "nested 0 (c_text e)"
  shows "solid (in_parens e (c_text e))"
proof (cases "is_leaf e")
  case True
  then show ?thesis
    using assms(1) show_nat_word name_word by (cases e) (auto simp: in_parens_def intro: word_solid)
next
  case False
  with parens_solid [OF assms(2)] show ?thesis by (simp add: in_parens_def)
qed

lemma covered_nested: "covered e \<Longrightarrow> nested 0 (c_text e)"
proof (induction e)
  case (Name x)
  then have "solid x" using name_word [of x] by (auto intro: word_solid)
  then show ?case by (simp add: solid_nested)
next
  case (Num n)
  have "solid (show_nat n)" using show_nat_word [of n] by (auto intro: word_solid)
  then show ?case by (simp add: solid_nested)
next
  case (Bin op a b)
  then have "nested 0 (in_parens a (c_text a))" "nested 0 (in_parens b (c_text b))" "nested 0 op"
    by (simp_all add: solid_nested in_parens_solid op_nested)
  then show ?case by (simp add: nested_append)
next
  case (Pre c a)
  then have "paren_depth c = 0" "c \<noteq> CHR '',''" by (auto simp: paren_depth_def)
  with Pre show ?case by (simp add: solid_nested in_parens_solid)
next
  case (Cast ty a)
  then have "nested 0 (in_parens a (c_text a))" "nested 0 ty"
    using type_word [of ty] by (simp_all add: solid_nested in_parens_solid)
  then show ?case using nested_append [OF nested_parens] by simp
next
  case (Call f args)
  have "nested 1 (join '', '' (map c_text args) @ '')'')"
    using Call nested_close by (intro nested_join) auto
  then have "nested 0 (''('' @ join '', '' (map c_text args) @ '')'')" by (simp add: paren_depth_def)
  moreover have "nested 0 f" using Call.prems name_word [of f] by (auto intro: solid_nested word_solid)
  ultimately show ?case using nested_append by simp
next
  case (Cond c a b)
  then have parts: "nested 0 (in_parens c (c_text c))" "nested 0 (in_parens a (c_text a))"
      "nested 0 (in_parens b (c_text b))"
    by (simp_all add: solid_nested in_parens_solid)
  have "nested 0 ('' ? '' @ in_parens a (c_text a) @ '' : '' @ in_parens b (c_text b))"
    using nested_append [OF parts(2), of "'' : '' @ in_parens b (c_text b)"] parts(3)
    by (simp add: paren_depth_def)
  with nested_append [OF parts(1) this] show ?case by simp
qed

lemma operand_solid: "covered e \<Longrightarrow> solid (in_parens e (c_text e))"
  by (rule in_parens_solid [OF _ covered_nested])

subsection \<open>The parts of a printed expression\<close>

lemma trim_id:
  assumes "s \<noteq> []" "\<not> is_whitespace (hd s)" "\<not> is_whitespace (last s)"
  shows "trim s = s"
proof -
  have "trim_start s = s" using assms by (cases s) (auto simp: trim_start_def)
  moreover have "dropWhile is_whitespace (rev s) = rev s"
    using assms by (cases "rev s") (auto simp: hd_rev [symmetric])
  ultimately show ?thesis by (simp add: trim_def trim_end_def)
qed

lemma solid_ends:
  assumes "solid t"
  shows "t \<noteq> []" "\<not> is_whitespace (hd t)" "\<not> is_whitespace (last t)" "hd t \<noteq> CHR ''-''" "hd t \<noteq> CHR ''!''" "trim t = t"
proof -
  from assms consider "t \<noteq> []" "list_all is_word_char t" | s where "t = ''('' @ s @ '')''"
    by (auto simp: solid_def)
  then have "t \<noteq> [] \<and> \<not> is_whitespace (hd t) \<and> \<not> is_whitespace (last t)"
  proof cases
    case 1
    then show ?thesis using word_char_depth hd_in_set [of t] last_in_set [of t] by (auto simp: list_all_iff)
  qed (simp add: is_whitespace_def)
  then show "t \<noteq> []" "\<not> is_whitespace (hd t)" "\<not> is_whitespace (last t)" "trim t = t"
    by (simp_all add: trim_id)
  show "hd t \<noteq> CHR ''-''" "hd t \<noteq> CHR ''!''"
    using solid_hd [OF assms] op_char_facts [of "CHR ''-''"] op_char_facts [of "CHR ''!''"]
    by (auto simp: is_op_char_def)
qed

lemma starts_with_single: "starts_with s [c] \<longleftrightarrow> s \<noteq> [] \<and> hd s = c"
  by (cases s) auto

lemma ends_with_single: "ends_with s [c] \<longleftrightarrow> s \<noteq> [] \<and> last s = c"
  by (cases s rule: rev_cases) (auto simp: ends_with_def)

text \<open>A text that is no literal: it holds a character no number has and does not start with a minus.\<close>

lemma not_literal:
  assumes "s \<noteq> []" "c \<in> set s" "\<not> number_char c" "hd s \<noteq> CHR ''-''"
  shows "literal_expr s = None"
proof -
  have "\<not> is_word_char c" using assms(3) by (auto simp: number_char_def)
  then have "\<not> list_all is_word_char s" using assms(2) by (auto simp: list_all_iff)
  moreover from this have "s \<noteq> ''true''" "s \<noteq> ''false''"
    by (auto simp: is_word_char_def is_alphanumeric_def is_lowercase_def)
  moreover have "\<not> is_numeric_literal s" using not_numeric(1) [OF assms(2,3)] .
  ultimately show ?thesis using assms(1,4) by (simp add: literal_expr_def starts_with_single)
qed

lemma no_ternary: "find_operator s '' ? '' = None \<Longrightarrow> ternary_parts s = None"
  by (simp add: ternary_parts_def)

lemma first_operator_None: "\<forall>op \<in> set ops. find_operator s op = None \<Longrightarrow> first_operator ops s = None"
  by (induction ops) auto

lemma first_operator_unique:
  "\<forall>op' \<in> set ops. find_operator s op' = (if op = op' then Some n else None) \<Longrightarrow> op \<in> set ops \<Longrightarrow>
     first_operator ops s = Some (op, n)"
  by (induction ops) auto

lemma view_binary:
  assumes "solid x" "solid y" "op \<in> set binary_ops"
  shows "view_expr (x @ op @ y) = Binary x op y" and "ternary_parts (x @ op @ y) = None"
    and "literal_expr (trim (x @ op @ y)) = None" and "trim (x @ op @ y) = x @ op @ y"
proof -
  have op: "spaced op" by (rule spaced_binary [OF assms(3)])
  have "first_operator binary_ops (x @ op @ y) = Some (op, length x)"
    using assms find_operator_binary [OF assms(1,2) op] spaced_binary by (intro first_operator_unique) auto
  then show "view_expr (x @ op @ y) = Binary x op y" by (simp add: view_expr_def)
  have "op \<noteq> '' ? ''" using assms(3) by (auto simp: binary_ops_def)
  then show "ternary_parts (x @ op @ y) = None"
    using find_operator_binary [OF assms(1,2) op spaced_ternary(1)] by (simp add: no_ternary)
  show trim: "trim (x @ op @ y) = x @ op @ y"
    using solid_ends [OF assms(1)] solid_ends [OF assms(2)] by (intro trim_id) auto
  have "CHR '' '' \<in> set op" using op by (auto simp: spaced_def)
  then show "literal_expr (trim (x @ op @ y)) = None"
    unfolding trim using solid_ends [OF assms(1)]
    by (intro not_literal [of _ "CHR '' ''"] not_numeric) auto
qed

lemma no_operator_solid:
  "solid x \<Longrightarrow> first_operator binary_ops x = None" "solid x \<Longrightarrow> ternary_parts x = None"
  "solid x \<Longrightarrow> solid y \<Longrightarrow> first_operator binary_ops (x @ y) = None"
  "solid x \<Longrightarrow> solid y \<Longrightarrow> ternary_parts (x @ y) = None"
proof -
  have two: "solid x \<Longrightarrow> solid y \<Longrightarrow> spaced op \<Longrightarrow> find_operator (x @ y) op = None" for op
    using find_operator_solid [of x op 0 y] find_operator_solid [of y op "length x" "[]"]
    by (simp add: find_operator_def spaced_starts)
  show "solid x \<Longrightarrow> first_operator binary_ops x = None" "solid x \<Longrightarrow> ternary_parts x = None"
    by (auto intro!: first_operator_None no_ternary simp: find_operator_single spaced_binary spaced_ternary)
  show "solid x \<Longrightarrow> solid y \<Longrightarrow> first_operator binary_ops (x @ y) = None"
    "solid x \<Longrightarrow> solid y \<Longrightarrow> ternary_parts (x @ y) = None"
    by (auto intro!: first_operator_None no_ternary simp: two spaced_binary spaced_ternary)
qed

text \<open>The candidate for a type in front of a parenthesised expression is no type.\<close>

lemma type_no_paren: "c_type_to_rust s = Some ty \<Longrightarrow> CHR ''('' \<notin> set s"
proof
  assume ty: "c_type_to_rust s = Some ty" and paren: "CHR ''('' \<in> set s"
  have trimmed: "c \<in> set s \<Longrightarrow> \<not> is_whitespace c \<Longrightarrow> c \<in> set (trim s)" for c
  proof -
    have "set t = set (takeWhile is_whitespace t) \<union> set (dropWhile is_whitespace t)" for t
      by (metis set_append takeWhile_dropWhile_id)
    then show "c \<in> set s \<Longrightarrow> \<not> is_whitespace c \<Longrightarrow> c \<in> set (trim s)"
      unfolding trim_def trim_end_def trim_start_def by (metis UnE set_rev set_takeWhileD)
  qed
  from ty have "trim s \<in> fst ` set c_types" by (force simp: c_type_to_rust_def dest: map_of_SomeD)
  then have "CHR ''('' \<notin> set (trim s)" using type_word by blast
  with trimmed [OF paren] show False by (simp add: is_whitespace_def)
qed

lemma nested_close_open:
  "nested d (xs @ CHR '')'' # ys) \<Longrightarrow> d = 0 \<Longrightarrow> CHR ''('' \<in> set xs"
proof -
  have "nested d (xs @ CHR '')'' # ys) \<Longrightarrow> CHR ''('' \<notin> set xs \<Longrightarrow> d \<noteq> 0"
  proof (induction xs arbitrary: d)
    case (Cons c cs)
    then have "paren_depth c \<le> 0" by (auto simp: paren_depth_def)
    with Cons show ?case by fastforce
  qed (simp add: paren_depth_def)
  then show "nested d (xs @ CHR '')'' # ys) \<Longrightarrow> d = 0 \<Longrightarrow> CHR ''('' \<in> set xs" by blast
qed

lemma position_split: "position P s = Some i \<Longrightarrow> s = take i s @ s ! i # drop (Suc i) s \<and> P (s ! i)"
  using position_Some [of P s i] id_take_nth_drop [of i s] by auto

lemma view_parens:
  assumes t: "nested 0 t"
  shows "view_expr (''('' @ t @ '')'') = Parens t" and "ternary_parts (''('' @ t @ '')'') = None"
    and "literal_expr (''('' @ t @ '')'') = None"
proof -
  let ?s = "''('' @ t @ '')''"
  have solid: "solid ?s" by (rule parens_solid [OF t])
  show "ternary_parts ?s = None" using solid by (rule no_operator_solid)
  show "literal_expr ?s = None" by (rule not_literal [of _ "CHR ''(''"]) (use not_numeric in auto)
  have cast: "cast_parts ?s = None"
  proof (cases "find_char ?s (CHR '')'')")
    case (Some i)
    then have i: "?s = take i ?s @ CHR '')'' # drop (Suc i) ?s" "i < length ?s"
      using position_split [of "\<lambda>x. x = CHR '')''" ?s i] position_Some [of "\<lambda>x. x = CHR '')''" ?s i]
      by (auto simp: find_char_def)
    have "0 < i" using i(1) by (cases i) auto
    show ?thesis
    proof (cases "i + 1 < length ?s")
      case True
      have "i - 1 < length t" using True \<open>0 < i\<close> by simp
      have "t ! (i - 1) = CHR '')''"
        using Some position_Some [of "\<lambda>x. x = CHR '')''" ?s i] \<open>0 < i\<close> \<open>i - 1 < length t\<close>
        by (auto simp: find_char_def nth_append nth_Cons')
      then have "t = take (i - 1) t @ CHR '')'' # drop i t"
        using id_take_nth_drop [OF \<open>i - 1 < length t\<close>] \<open>0 < i\<close> by simp
      then have "CHR ''('' \<in> set (take (i - 1) t)"
        using t nested_close_open [of 0 "take (i - 1) t" "drop i t"] by simp
      then have "CHR ''('' \<in> set (take (i - 1) (tl ?s))" using \<open>i - 1 < length t\<close> by simp
      moreover have "c_type_to_rust (trim x) = c_type_to_rust x" for x
        by (simp add: c_type_to_rust_def)
      ultimately have "c_type_to_rust (trim (take (i - 1) (tl ?s))) = None"
        using type_no_paren by (cases "c_type_to_rust (trim (take (i - 1) (tl ?s)))") force+
      then show ?thesis using Some by (simp add: cast_parts_def)
    next
      case False
      with Some show ?thesis by (auto simp: cast_parts_def split: option.splits)
    qed
  qed (simp add: cast_parts_def)
  have call: "call_parts ?s = None"
    by (simp add: call_parts_def find_char_def)
  have "paren_inner ?s = Some t"
    using nested_balanced [OF t] by (simp add: paren_inner_def ends_with_single parens_balanced_def butlast_append)
  then show "view_expr ?s = Parens t"
    using no_operator_solid(1) [OF solid] cast call
    by (simp add: view_expr_def)
qed

lemma text_ends:
  assumes "covered e"
  shows "c_text e \<noteq> []" "\<not> is_whitespace (hd (c_text e))" "\<not> is_whitespace (last (c_text e))"
proof -
  have word: "list_all is_word_char w \<Longrightarrow> w \<noteq> [] \<Longrightarrow> \<not> is_whitespace (hd w) \<and> \<not> is_whitespace (last w)" for w
    using solid_ends(2,3) word_solid by blast
  have "c_text e \<noteq> [] \<and> \<not> is_whitespace (hd (c_text e)) \<and> \<not> is_whitespace (last (c_text e))"
  proof (cases e)
    case (Name x)
    with assms word [of x] name_word [of x] show ?thesis by simp
  next
    case (Num n)
    with word [of "show_nat n"] show_nat_word [of n] show ?thesis by simp
  next
    case (Bin op a b)
    with assms solid_ends(1-3) [OF operand_solid [of a]] solid_ends(1-3) [OF operand_solid [of b]]
    show ?thesis by simp
  next
    case (Pre c a)
    with assms solid_ends(1-3) [OF operand_solid [of a]] show ?thesis by (auto simp: is_whitespace_def)
  next
    case (Cast ty a)
    with assms solid_ends(1-3) [OF operand_solid [of a]] show ?thesis by (auto simp: is_whitespace_def)
  next
    case (Call f args)
    with assms word [of f] name_word [of f] show ?thesis by (auto simp: is_whitespace_def)
  next
    case (Cond c a b)
    with assms solid_ends(1-3) [OF operand_solid [of c]] solid_ends(1-3) [OF operand_solid [of b]]
    show ?thesis by simp
  qed
  then show "c_text e \<noteq> []" "\<not> is_whitespace (hd (c_text e))" "\<not> is_whitespace (last (c_text e))" by auto
qed

lemma split_args_nested:
  "nested d t \<Longrightarrow> 0 \<le> d \<Longrightarrow> split_args_from d cur (t @ rest) = split_args_from 0 (cur @ t) rest"
proof (induction t arbitrary: d cur)
  case (Cons c t)
  then show ?case by (cases "c = CHR '',''") (auto simp: paren_depth_def)
qed simp

lemma split_args_join:
  assumes "\<forall>t \<in> set ts. nested 0 t \<and> t \<noteq> [] \<and> trim t = t" and "ws = [] \<or> ws = '' ''"
  shows "split_args_from 0 ws (join '', '' ts) = ts"
  using assms
proof (induction ts arbitrary: ws)
  case Nil
  then show ?case by (auto simp: trim_Cons is_whitespace_def)
next
  case (Cons t ts)
  have t: "trim (ws @ t) = t" "t \<noteq> []" using Cons.prems by (auto simp: trim_Cons is_whitespace_def)
  show ?case
  proof (cases "ts = []")
    case True
    with Cons.prems t split_args_nested [of 0 t ws "[]"] show ?thesis by simp
  next
    case False
    have "split_args_from 0 ws (t @ '', '' @ join '', '' ts) = split_args_from 0 (ws @ t) ('', '' @ join '', '' ts)"
      using Cons.prems split_args_nested [of 0 t ws] by simp
    also have "\<dots> = t # split_args_from 0 '' '' (join '', '' ts)" using t by (simp add: paren_depth_def)
    finally show ?thesis using False Cons by (simp add: join_Cons)
  qed
qed

lemma those_map: "\<forall>x \<in> set xs. f x = Some (g x) \<Longrightarrow> those (map f xs) = Some (map g xs)"
  by (induction xs) auto

text \<open>An operand is translated as itself, in its parentheses.\<close>

lemma translate_operand:
  assumes e: "covered e" and t: "translate_expr (c_text e) = Some (rust_text e)"
  shows "translate_expr (in_parens e (c_text e)) = Some (in_parens e (rust_text e))"
proof (cases "is_leaf e")
  case False
  have trim: "trim (''('' @ c_text e @ '')'') = ''('' @ c_text e @ '')''"
    using solid_ends(6) [OF parens_solid [OF covered_nested [OF e]]] .
  note v = view_parens [OF covered_nested [OF e]]
  have "translate_expr (''('' @ c_text e @ '')'') = translate_plain (''('' @ c_text e @ '')'')"
    unfolding translate_expr.simps [of "''('' @ c_text e @ '')''"] trim v by simp
  also have "\<dots> = Some (''('' @ rust_text e @ '')'')"
    unfolding translate_plain.simps [of "''('' @ c_text e @ '')''"] v using t by simp
  finally show ?thesis using False by (simp add: in_parens_def)
qed (simp add: in_parens_def t)

lemma translate_literal: "literal_expr (trim s) = Some r \<Longrightarrow> translate_expr s = r"
  by (simp add: translate_expr.simps [of s])

lemma translate_view:
  "literal_expr (trim s) = None \<Longrightarrow> ternary_parts (trim s) = None \<Longrightarrow> translate_expr s = translate_plain (trim s)"
  by (simp add: translate_expr.simps [of s])

lemma trim_end_matches_Cons: "\<not> P c \<Longrightarrow> trim_end_matches P (c # s) = c # trim_end_matches P s"
  by (induction "rev s") (auto simp: trim_end_matches_def dropWhile_append)

lemma name_minus: "is_name x \<Longrightarrow> \<not> is_numeric_literal (CHR ''-'' # x)"
proof
  assume x: "is_name x" and num: "is_numeric_literal (CHR ''-'' # x)"
  let ?u = "trim_end_matches number_suffix x"
  have "\<not> number_suffix (CHR ''-'')" by (simp add: number_suffix_def)
  with num have "is_float_text (CHR ''-'' # ?u)"
    by (simp add: is_numeric_literal_def trim_end_matches_Cons)
  moreover have "drop_sign ?u = ?u"
  proof (cases "?u")
    case (Cons c cs)
    obtain t where "x = ?u @ t" using trim_end_matches_split by blast
    then have "c \<in> set x" using Cons by (metis Un_iff list.set_intros(1) set_append)
    then have "is_word_char c" using x by (auto simp: is_name_def list_all_iff)
    then have "c \<noteq> CHR ''+''" "c \<noteq> CHR ''-''"
      by (auto simp: is_word_char_def is_alphanumeric_def is_digit_def is_uppercase_def is_lowercase_def)
    then show ?thesis using Cons by (simp add: drop_sign_def)
  qed (simp add: drop_sign_def)
  ultimately have "is_float_text ?u" by (simp add: is_float_text_def drop_sign_def [of "_ # _"])
  moreover have "\<not> starts_with x ''0x''" "\<not> starts_with x ''0X''"
    using x by (cases x; auto simp: is_name_def is_digit_def)+
  ultimately have "is_numeric_literal x" by (simp add: is_numeric_literal_def)
  with x show False by (simp add: is_name_def)
qed

lemma clean_digits: "list_all is_digit s \<Longrightarrow> clean_numeric_literal (CHR ''-'' # s) = CHR ''-'' # s \<and> clean_numeric_literal s = s"
proof -
  have digit: "is_digit c \<Longrightarrow> \<not> number_suffix c" for c by (auto simp: number_suffix_def is_digit_def)
  assume "list_all is_digit s"
  then have "dropWhile number_suffix (rev s) = rev s"
    using digit by (cases "rev s") (auto simp: list_all_iff dest: arg_cong [of _ _ set])
  then have "trim_end_matches number_suffix s = s" by (simp add: trim_end_matches_def)
  moreover have "\<not> number_suffix (CHR ''-'')" by (simp add: number_suffix_def)
  ultimately show ?thesis by (simp add: clean_numeric_literal_def trim_end_matches_Cons)
qed

lemma view_prefix:
  assumes c: "c = CHR ''!'' \<or> c = CHR ''-''" and y: "solid y"
  shows "view_expr (c # y) = Prefixed c y" and "ternary_parts (c # y) = None" and "trim (c # y) = c # y"
proof -
  have "spaced op \<Longrightarrow> find_operator (c # y) op = None" for op
    using find_operator_op_chars [of "[c]" op 0 y] find_operator_solid [of y op 1 "[]"] c y
    by (auto simp: find_operator_def is_op_char_def spaced_starts)
  then have "first_operator binary_ops (c # y) = None" and ternary: "ternary_parts (c # y) = None"
    by (auto intro!: first_operator_None no_ternary simp: spaced_binary spaced_ternary)
  then show "view_expr (c # y) = Prefixed c y"
    using c solid_ends(1) [OF y] by (auto simp: view_expr_def starts_with_single)
  show "ternary_parts (c # y) = None" by (rule ternary)
  show "trim (c # y) = c # y"
    using c solid_ends [OF y] by (intro trim_id) (auto simp: is_whitespace_def)
qed

lemma translate_prefix:
  assumes c: "c = CHR ''!'' \<or> c = CHR ''-''" and a: "covered a"
    and t: "translate_expr (in_parens a (c_text a)) = Some (in_parens a (rust_text a))"
  shows "translate_expr (c_text (Pre c a)) = Some (rust_text (Pre c a))"
proof -
  let ?y = "in_parens a (c_text a)"
  note v = view_prefix [OF c operand_solid [OF a]]
  have plain: "translate_plain (c # ?y) = Some (c # in_parens a (rust_text a))"
    using t by (simp add: translate_plain.simps [of "c # ?y"] v)
  have lit: "\<not> (\<exists>n. c = CHR ''-'' \<and> a = Num n) \<longrightarrow> literal_expr (c # ?y) = None"
  proof
    assume no: "\<not> (\<exists>n. c = CHR ''-'' \<and> a = Num n)"
    show "literal_expr (c # ?y) = None"
    proof (cases "c = CHR ''!''")
      case True
      then show ?thesis by (intro not_literal [of _ c]) (use not_numeric in auto)
    next
      case False
      with c have minus: "c = CHR ''-''" by simp
      have "\<not> is_numeric_literal (c # ?y) \<and> \<not> is_numeric_literal ?y"
      proof (cases "is_leaf a")
        case True
        with no minus obtain x where "a = Name x" by (cases a) auto
        with a name_minus [of x] minus show ?thesis by (simp add: in_parens_def is_name_def)
      next
        case False
        then have "CHR ''('' \<in> set ?y" "CHR ''('' \<in> set (c # ?y)" by (simp_all add: in_parens_def)
        then show ?thesis using not_numeric(1,3) by blast
      qed
      then show ?thesis using minus by (simp add: literal_expr_def is_word_char_def is_alphanumeric_def is_digit_def
            is_uppercase_def is_lowercase_def)
    qed
  qed
  consider n where "c = CHR ''-''" "a = Num n" | "literal_expr (c # ?y) = None" using lit by metis
  then show ?thesis
  proof cases
    case (1 n)
    have "literal_expr (c # ?y) = None \<or> literal_expr (c # ?y) = Some (Some (c # ?y))"
      using clean_digits [of "show_nat n"] show_nat_digits [of n] 1
      by (auto simp: literal_expr_def in_parens_def is_word_char_def is_alphanumeric_def is_digit_def
          is_uppercase_def is_lowercase_def)
    then show ?thesis
      using 1 plain translate_literal [of "c # ?y" "Some (c # ?y)"] translate_view [of "c # ?y"] v
      by (auto simp: in_parens_def)
  next
    case 2
    then show ?thesis using plain translate_view [of "c # ?y"] v by simp
  qed
qed

lemma position_first: "\<forall>x \<in> set a. \<not> P x \<Longrightarrow> P c \<Longrightarrow> position P (a @ c # b) = Some (length a)"
  by (induction a) auto

lemma translate_cast:
  assumes ty: "ty \<in> fst ` set c_types" and a: "covered a"
    and t: "translate_expr (in_parens a (c_text a)) = Some (in_parens a (rust_text a))"
  shows "translate_expr (c_text (Cast ty a)) = Some (rust_text (Cast ty a))"
proof -
  let ?y = "in_parens a (c_text a)" and ?s = "''('' @ ty @ '')'' @ in_parens a (c_text a)"
  have y: "solid ?y" by (rule operand_solid [OF a])
  note tw = type_word [OF ty]
  have x: "solid (''('' @ ty @ '')'')" using tw by (intro parens_solid) simp
  have trim: "trim ?s = ?s" using solid_ends [OF y] by (intro trim_id) (auto simp: is_whitespace_def)
  have lit: "literal_expr ?s = None" by (rule not_literal [of _ "CHR ''(''"]) (use not_numeric in auto)
  have ops: "first_operator binary_ops ?s = None" "ternary_parts ?s = None"
    using no_operator_solid(3,4) [OF x y] by simp_all
  have "trim ty = ty" using tw by simp
  moreover have "map_of c_types ty \<noteq> None" using ty by (simp add: map_of_eq_None_iff)
  ultimately obtain rty where rty: "c_type_to_rust ty = Some rty" by (auto simp: c_type_to_rust_def)
  have "find_char ?s (CHR '')'') = Some (length (''('' @ ty))"
    unfolding find_char_def using tw position_first [of "''('' @ ty" "\<lambda>x. x = CHR '')''" "CHR '')''" ?y] by auto
  then have cast: "cast_parts ?s = Some (rty, ?y)"
    using rty tw solid_ends(1) [OF y] by (simp add: cast_parts_def)
  have view: "view_expr ?s = CastTo rty ?y" using ops cast by (simp add: view_expr_def)
  have "translate_expr ?s = translate_plain ?s" using translate_view [of ?s] lit ops by (simp only: trim)
  also have "\<dots> = Some (in_parens a (rust_text a) @ '' as '' @ rty)"
    unfolding translate_plain.simps [of ?s] view using t by simp
  finally show ?thesis using rty by simp
qed

lemma translate_call:
  assumes f: "is_name f" and args: "\<forall>a \<in> set args. covered a"
    and t: "\<forall>a \<in> set args. translate_expr (c_text a) = Some (rust_text a)"
  shows "translate_expr (c_text (Call f args)) = Some (rust_text (Call f args))"
proof -
  let ?j = "join '', '' (map c_text args)" let ?y = "''('' @ ?j @ '')''" let ?s = "f @ ?y"
  have x: "solid f" using name_word [OF f] by (auto intro: word_solid)
  have nested: "\<forall>t \<in> set (map c_text args). nested 0 t" using args covered_nested by auto
  have y: "solid ?y" by (rule deep_solid [OF deep_join [OF nested]])
  have trim: "trim ?s = ?s" using solid_ends [OF x] by (intro trim_id) (auto simp: is_whitespace_def)
  have lit: "literal_expr ?s = None"
    by (rule not_literal [of _ "CHR ''(''"]) (use solid_ends [OF x] not_numeric in auto)
  have ops: "first_operator binary_ops ?s = None" "ternary_parts ?s = None"
    using no_operator_solid(3,4) [OF x y] by simp_all
  have no_paren: "\<forall>c \<in> set f. c \<noteq> CHR ''(''"
    using name_word [OF f] word_char_depth by (fastforce simp: list_all_iff paren_depth_def)
  have "split_args ?j = map c_text args"
    unfolding split_args_def using args nested text_ends trim_id
    by (intro split_args_join) auto
  then have call: "call_parts ?s = Some (f, map c_text args)"
    using position_first [of f "\<lambda>x. x = CHR ''(''" "CHR ''(''" "?j @ '')''"] no_paren name_word [OF f]
    by (simp add: call_parts_def find_char_def ends_with_single butlast_append)
  have "map trim (map c_text args) = map c_text args" "\<forall>a \<in> set (map c_text args). a \<noteq> []"
    using args text_ends trim_id by auto
  then have "filter (\<lambda>a. a \<noteq> []) (map trim (map c_text args)) = map c_text args"
    by (metis (mono_tags, lifting) filter_True)
  moreover have "cast_parts ?s = None"
    using no_paren solid_ends(1) [OF x] by (cases f) (auto simp: cast_parts_def starts_with_single)
  ultimately have view: "view_expr ?s = CallOf f (map c_text args)"
    using ops call solid_ends [OF x] by (simp add: view_expr_def starts_with_single)
  have "translate_expr ?s = translate_plain ?s" using translate_view [of ?s] lit ops by (simp only: trim)
  also have "\<dots> = Some (f @ ''('' @ join '', '' (map rust_text args) @ '')'')"
    unfolding translate_plain.simps [of ?s] view
    using those_map [of args "\<lambda>a. translate_expr (c_text a)" rust_text] t by (simp add: comp_def)
  finally show ?thesis by simp
qed

lemma translate_cond:
  assumes solid: "solid x" "solid y" "solid z"
    and t: "translate_expr x = Some x'" "translate_expr y = Some y'" "translate_expr z = Some z'"
  shows "translate_expr (x @ '' ? '' @ y @ '' : '' @ z) = combine3 (Some x') (Some y') (Some z')"
proof -
  let ?s = "x @ '' ? '' @ y @ '' : '' @ z"
  have trim: "trim ?s = ?s" using solid_ends [OF solid(1)] solid_ends [OF solid(3)] by (intro trim_id) auto
  have lit: "literal_expr ?s = None"
    by (rule not_literal [of _ "CHR '' ''"]) (use solid_ends [OF solid(1)] not_numeric in auto)
  have "ternary_parts ?s = Some (x, y, z)"
    using find_operator_three [OF solid spaced_ternary spaced_ternary(1)]
      find_operator_binary [OF solid(2,3) spaced_ternary(2) spaced_ternary(2)]
    by (simp add: ternary_parts_def)
  then show ?thesis
    unfolding translate_expr.simps [of ?s] trim lit
    using t by (simp add: solid_ends(6) [OF solid(1)] solid_ends(6) [OF solid(2)] solid_ends(6) [OF solid(3)]
        combine3_def)
qed

text \<open>
  C22: The translator understands expressions: for every expression built from names, numbers,
  the eighteen binary operators, negations, casts to known types, calls and conditionals, the C
  text (with parentheses around compound operands) is translated, and the result is the Rust text
  of the same tree. Operators are never found inside parentheses, arguments are never split inside
  nested calls, and no operand is lost.
\<close>

theorem translate_expr_tree: "covered e \<Longrightarrow> translate_expr (c_text e) = Some (rust_text e)"
proof (induction e)
  case (Name x)
  then have "literal_expr (trim x) = Some (Some x)"
    using name_word [of x] solid_ends(6) [OF word_solid, of x] by (simp add: literal_expr_def)
  then show ?case by (simp add: translate_literal)
next
  case (Num n)
  have "literal_expr (trim (show_nat n)) = Some (Some (show_nat n))"
    using show_nat_word [of n] solid_ends(6) [OF word_solid, of "show_nat n"] by (simp add: literal_expr_def)
  then show ?case by (simp add: translate_literal)
next
  case (Bin op a b)
  then have ab: "covered a" "covered b" "op \<in> set binary_ops" by simp_all
  let ?x = "in_parens a (c_text a)" and ?y = "in_parens b (c_text b)"
  note v = view_binary [OF operand_solid [OF ab(1)] operand_solid [OF ab(2)] ab(3)]
  have "translate_expr (?x @ op @ ?y) = translate_plain (?x @ op @ ?y)"
    using translate_view [of "?x @ op @ ?y"] v by (simp only: v(4))
  also have "\<dots> = Some (in_parens a (rust_text a) @ op @ in_parens b (rust_text b))"
    unfolding translate_plain.simps [of "?x @ op @ ?y"] v(1)
    using translate_operand [OF ab(1)] translate_operand [OF ab(2)] Bin by simp
  finally show ?case by simp
next
  case (Pre c a)
  then show ?case using translate_operand [of a] by (intro translate_prefix) auto
next
  case (Cast ty a)
  then show ?case using translate_operand [of a] by (intro translate_cast) auto
next
  case (Call f args)
  then show ?case by (intro translate_call) auto
next
  case (Cond c a b)
  then show ?case
    using translate_cond [OF operand_solid operand_solid operand_solid, of c a b] translate_operand [of a]
      translate_operand [of b] translate_operand [of c]
    by (simp add: combine3_def)
qed

theorem translate_expr_tree_witness:
  "translate_expr ''(a + 2) * (max(b, -1))'' = Some ''(a + 2) * (max(b, -1))''"
proof -
  let ?e = "Bin '' * '' (Bin '' + '' (Name ''a'') (Num 2)) (Call ''max'' [Name ''b'', Pre (CHR ''-'') (Num 1)])"
  have "covered ?e" by code_simp
  moreover have "c_text ?e = ''(a + 2) * (max(b, -1))''" by code_simp
  moreover have "rust_text ?e = ''(a + 2) * (max(b, -1))''" by code_simp
  ultimately show ?thesis using translate_expr_tree [of ?e] by (simp only:)
qed

text \<open>
  Two translations that change the value: a negative hexadecimal literal loses its trailing \<open>F\<close>,
  which is taken for a float suffix, and C's logical negation of a number is written with Rust's
  bitwise one.
\<close>

lemma hex_literal_truncated: "translate_expr ''-0x1F'' = Some ''-0x1''"
  by code_simp

lemma logical_not_kept: "translate_expr ''!x'' = Some ''!x''"
  by code_simp

end
