(* ===== verification/Rule_Statement.thy ===== *)
theory Rule_Statement
  imports Rule_Expr
begin

text \<open>
  Statements and the text scanning of the rule-based translator
  (\<open>rule_translate/statements.rs\<close>, \<open>parsing.rs\<close>, and from \<open>blocks.rs\<close> and \<open>functions.rs\<close> what
  needs no recursion over bodies). \<open>None\<close> means that the text is too complex for the rules.
\<close>

section \<open>Matching brackets and blocks\<close>

text \<open>
  The position at which the bracket opened at the start of the text is closed; \<open>i\<close> is the position
  reached and \<open>depth\<close> the number of open brackets.
\<close>

fun closing_position :: "char \<Rightarrow> char \<Rightarrow> int \<Rightarrow> nat \<Rightarrow> string \<Rightarrow> nat option" where
  "closing_position opening closing depth i [] = None"
| "closing_position opening closing depth i (c # cs) =
     (if c = opening then closing_position opening closing (depth + 1) (i + 1) cs
      else if c = closing then
        (if depth - 1 = 0 then Some i else closing_position opening closing (depth - 1) (i + 1) cs)
      else closing_position opening closing depth (i + 1) cs)"

definition find_brace_line :: "string list \<Rightarrow> nat \<Rightarrow> nat option" where
  "find_brace_line ls start = map_option ((+) start) (position (\<lambda>l. contains l ''{'') (drop start ls))"

definition push_line :: "string \<Rightarrow> string \<Rightarrow> string" where
  "push_line text l = (if text = [] then l else text @ newline # l)"

definition extract_braced_block :: "string list \<Rightarrow> nat \<Rightarrow> (string \<times> nat) option" where
  "extract_braced_block ls start =
     (let text = foldl push_line [] (drop start ls)
      in case find_char text (CHR ''{'') of
           None \<Rightarrow> None
         | Some open_pos \<Rightarrow>
             (case closing_position (CHR ''{'') (CHR ''}'') 0 0 (drop open_pos text) of
                None \<Rightarrow> None
              | Some pos \<Rightarrow>
                  Some (take (pos - 1) (drop (open_pos + 1) text),
                        start + count_matches (take (open_pos + pos + 1) text) [newline])))"

definition extract_balanced_parens :: "string \<Rightarrow> nat \<Rightarrow> string option" where
  "extract_balanced_parens s start =
     (if get s start \<noteq> Some (CHR ''('') then None
      else map_option (\<lambda>i. take (i - 1) (drop (start + 1) s))
             (closing_position (CHR ''('') (CHR '')'') 0 0 (drop start s)))"

definition extract_paren_condition :: "string \<Rightarrow> string option" where
  "extract_paren_condition line =
     (case find_char line (CHR ''('') of None \<Rightarrow> None | Some p \<Rightarrow> extract_balanced_parens line p)"

definition extract_block_body :: "string list \<Rightarrow> nat \<Rightarrow> (string \<times> nat) option" where
  "extract_block_body ls start =
     (if contains (ls ! start) ''{'' then extract_braced_block ls start
      else if start + 1 < length ls \<and> starts_with (trim (ls ! (start + 1))) ''{''
        then extract_braced_block ls (start + 1)
      else None)"

section \<open>Function headers\<close>

type_synonym rule_param = "string \<times> string"

definition type_and_name :: "string list \<Rightarrow> string \<times> string" where
  "type_and_name parts = (join '' '' (butlast parts), trim_start_matches (\<lambda>c. c = CHR ''*'') (last parts))"

definition rule_params :: "string \<Rightarrow> rule_param list" where
  "rule_params params_str =
     (let trimmed = trim params_str
      in if trimmed = [] \<or> trimmed = ''void'' then []
         else map type_and_name
                (filter (\<lambda>parts. 2 \<le> length parts)
                  (map (\<lambda>p. split_whitespace (trim p)) (split_char (CHR '','') trimmed))))"

definition not_return_types :: "string list" where
  "not_return_types =
     [''typedef'', ''struct'', ''enum'', ''union'', ''if'', ''while'', ''for'', ''switch'']"

definition try_parse_function_start :: "string \<Rightarrow> (string \<times> string \<times> rule_param list) option" where
  "try_parse_function_start line =
     (case (find_char line (CHR ''(''), find_char line (CHR '')'')) of
        (Some paren_open, Some paren_close) \<Rightarrow>
          if paren_close \<le> paren_open then None
          else
            (let parts = split_whitespace (trim (take paren_open line))
             in if length parts < 2 then None
                else
                  (case type_and_name parts of
                     (return_type, nm) \<Rightarrow>
                       if return_type \<in> set not_return_types then None
                       else Some (nm, return_type,
                                  rule_params (take (paren_close - (paren_open + 1)) (drop (paren_open + 1) line)))))
      | _ \<Rightarrow> None)"

section \<open>Variables that a body changes\<close>

definition is_ident :: "string \<Rightarrow> bool" where
  "is_ident s \<longleftrightarrow> s \<noteq> [] \<and> list_all is_word_char s"

definition assignment_ops :: "string list" where
  "assignment_ops = [''='', ''+='', ''-='', ''*='', ''/='', ''%='']"

definition not_plain_assignment :: "string \<Rightarrow> nat \<Rightarrow> bool" where
  "not_plain_assignment line pos \<longleftrightarrow>
     0 < pos \<and> line ! (pos - 1) \<in> set ''!<>+-*/%''
     \<or> pos + 1 < length line \<and> line ! (pos + 1) = CHR ''=''"

fun assigned_var :: "string list \<Rightarrow> string \<Rightarrow> string list" where
  "assigned_var [] line = []"
| "assigned_var (op # ops) line =
     (case find_str line op of
        None \<Rightarrow> assigned_var ops line
      | Some pos \<Rightarrow>
          if op = ''='' \<and> not_plain_assignment line pos then assigned_var ops line
          else if is_ident (trim (take pos line)) then [trim (take pos line)] else [])"

definition strip_semicolon :: "string \<Rightarrow> string option" where
  "strip_semicolon stmt = map_option trim (strip_suffix stmt '';'')"

definition stepped_vars :: "string \<Rightarrow> string list" where
  "stepped_vars line =
     (let no_semi = trim (unwrap_or (strip_suffix line '';'') line)
      in filter is_ident
           (List.map_filter id
              [strip_suffix no_semi ''++'', strip_suffix no_semi ''--'',
               strip_prefix no_semi ''++'', strip_prefix no_semi ''--'']))"

definition add_var :: "string list \<Rightarrow> string \<Rightarrow> string list" where
  "add_var vars nm = (if nm \<in> set vars then vars else vars @ [nm])"

definition find_mutated_vars :: "string \<Rightarrow> string list" where
  "find_mutated_vars body =
     foldl add_var [] (concat (map (\<lambda>l. assigned_var assignment_ops (trim l) @ stepped_vars (trim l)) (lines body)))"

section \<open>Statements\<close>

definition complex_markers :: "string list" where
  "complex_markers =
     [''malloc'', ''free('', ''->'', ''void *'', ''goto '', ''switch '', ''sizeof'', ''memcpy'', ''memset'',
      ''strcpy'', ''strcat'']"

definition is_complex :: "string \<Rightarrow> bool" where
  "is_complex stmt = list_ex (contains stmt) complex_markers"

definition is_boolean_expr :: "string \<Rightarrow> bool" where
  "is_boolean_expr expr = list_ex (contains expr) [''=='', ''!='', ''<='', ''>='', ''<'', ''>'', ''&&'', ''||'']"

definition try_translate_inc_dec :: "string \<Rightarrow> string option" where
  "try_translate_inc_dec stmt =
     (case strip_semicolon stmt of
        None \<Rightarrow> None
      | Some no_semi \<Rightarrow>
          map_option (\<lambda>(v, op). v @ '' '' @ op @ '' 1;'')
            (List.find (\<lambda>(v, _). is_ident v)
              (List.map_filter id
                [map_option (\<lambda>v. (v, ''+='')) (strip_suffix no_semi ''++''),
                 map_option (\<lambda>v. (v, ''-='')) (strip_suffix no_semi ''--''),
                 map_option (\<lambda>v. (v, ''+='')) (strip_prefix no_semi ''++''),
                 map_option (\<lambda>v. (v, ''-='')) (strip_prefix no_semi ''--'')])))"

definition compound_ops :: "string list" where
  "compound_ops =
     [''+='', ''-='', ''*='', ''/='', ''%='', ''&='', ''|='', ''^='', ''<<='', ''>>='']"

fun compound_assign :: "string list \<Rightarrow> string \<Rightarrow> string option" where
  "compound_assign [] no_semi = None"
| "compound_assign (op # ops) no_semi =
     (case find_str no_semi op of
        None \<Rightarrow> compound_assign ops no_semi
      | Some pos \<Rightarrow>
          map_option (\<lambda>rhs. trim (take pos no_semi) @ '' '' @ op @ '' '' @ rhs @ '';'')
            (translate_expr (trim (drop (pos + length op) no_semi))))"

definition try_translate_compound_assign :: "string \<Rightarrow> string option" where
  "try_translate_compound_assign stmt =
     (case strip_semicolon stmt of None \<Rightarrow> None | Some no_semi \<Rightarrow> compound_assign compound_ops no_semi)"

text \<open>The longest prefix of words that names a known type.\<close>

fun longest_type :: "nat \<Rightarrow> string list \<Rightarrow> (string \<times> string) option" where
  "longest_type 0 words = None"
| "longest_type (Suc len) words =
     (let candidate = join '' '' (take (Suc len) words)
      in if c_type_to_rust candidate \<noteq> None then Some (candidate, join '' '' (drop (Suc len) words))
         else longest_type len words)"

definition split_type_and_rest :: "string \<Rightarrow> (string \<times> string) option" where
  "split_type_and_rest decl =
     (let words = split_whitespace decl
      in if length words < 2 then None else longest_type (length words - 1) words)"

definition translate_var_decl :: "string \<Rightarrow> string option" where
  "translate_var_decl stmt =
     (case strip_semicolon stmt of
        None \<Rightarrow> None
      | Some no_semi \<Rightarrow>
          (case split_type_and_rest no_semi of
             None \<Rightarrow> None
           | Some (c_type, raw_rest) \<Rightarrow>
               (case c_type_to_rust c_type of
                  None \<Rightarrow> None
                | Some rust_type \<Rightarrow>
                    (let rest = trim raw_rest
                     in case find_char rest (CHR ''='') of
                          Some eq_pos \<Rightarrow>
                            map_option
                              (\<lambda>expr. ''let '' @ trim (take eq_pos rest) @ '': '' @ rust_type @ '' = '' @ expr @ '';'')
                              (translate_expr (trim (drop (eq_pos + 1) rest)))
                        | None \<Rightarrow>
                            Some (''let mut '' @ rest @ '': '' @ rust_type @ '' = ''
                                  @ default_for_type rust_type @ '';'')))))"

text \<open>The format string of \<open>printf\<close>: each pair is replaced everywhere, in this order.\<close>

definition fmt_map :: "(string \<times> string) list" where
  "fmt_map =
     [(''%lld'', ''{}''), (''%llu'', ''{}''), (''%ld'', ''{}''), (''%lu'', ''{}''), (''%lf'', ''{}''),
      (''%zu'', ''{}''), (''%d'', ''{}''), (''%i'', ''{}''), (''%u'', ''{}''), (''%f'', ''{}''),
      (''%s'', ''{}''), (''%c'', ''{}''), (''%x'', ''{:x}''), (''%X'', ''{:X}''), (''%o'', ''{:o}''),
      (''%p'', ''{:p}''), (''%%'', ''%''), ([backslash, CHR ''n''], [])]"

definition rust_format :: "string \<Rightarrow> string" where
  "rust_format fmt_str = foldl (\<lambda>s (from, to). replace_all s from to) fmt_str fmt_map"

definition printf_inner :: "string \<Rightarrow> string option" where
  "printf_inner stmt =
     (case strip_prefix stmt ''printf('' of
        None \<Rightarrow> None | Some r \<Rightarrow> map_option trim (strip_suffix r '');''))"

definition println_text :: "string \<Rightarrow> string \<Rightarrow> string" where
  "println_text fmt args = ''println!('' @ [quote] @ fmt @ [quote] @ args @ '');''"

definition translate_printf :: "string \<Rightarrow> string option" where
  "translate_printf stmt =
     (case printf_inner stmt of
        None \<Rightarrow> None
      | Some inner \<Rightarrow>
          (case find_char inner quote of
             None \<Rightarrow> None
           | Some fmt_start \<Rightarrow>
               (case find_char (drop (fmt_start + 1) inner) quote of
                  None \<Rightarrow> None
                | Some len \<Rightarrow>
                    (let rust_fmt = rust_format (take len (drop (fmt_start + 1) inner));
                         after_fmt = drop (fmt_start + 1 + len + 1) inner;
                         args_str = trim (unwrap_or (strip_prefix (trim after_fmt) '','') [])
                     in if args_str = [] then Some (println_text rust_fmt [])
                        else map_option (\<lambda>args. println_text rust_fmt ('', '' @ join '', '' args))
                               (those (map (\<lambda>a. translate_expr (trim a)) (split_args args_str)))))))"

definition type_prefixes :: "string list" where
  "type_prefixes =
     [''int '', ''double '', ''float '', ''long '', ''short '', ''unsigned '', ''char '', ''size_t '',
      ''bool '', ''_Bool '', ''int32_t '', ''uint32_t '', ''int64_t '', ''uint64_t '']"

definition not_assignment :: "string list" where
  "not_assignment = [''=='', ''!='', ''+='', ''-='', ''*='', ''/='', ''%='', ''<='', ''>='']"

definition is_simple_assign :: "string \<Rightarrow> bool" where
  "is_simple_assign stmt \<longleftrightarrow>
     contains stmt ''='' \<and> ends_with stmt '';'' \<and> list_all (\<lambda>op. \<not> contains stmt op) not_assignment"

definition translate_return :: "string \<Rightarrow> string option" where
  "translate_return rest =
     (case strip_semicolon rest of
        None \<Rightarrow> None
      | Some expr \<Rightarrow>
          map_option
            (\<lambda>r. if is_boolean_expr expr then ''return ('' @ r @ '') as i32;'' else ''return '' @ r @ '';'')
            (translate_expr expr))"

definition translate_call_stmt :: "string \<Rightarrow> string option" where
  "translate_call_stmt stmt =
     (case strip_semicolon stmt of
        None \<Rightarrow> None
      | Some call \<Rightarrow>
          (case call_parts call of
             None \<Rightarrow> None
           | Some (nm, args) \<Rightarrow>
               map_option (\<lambda>ts. nm @ ''('' @ join '', '' ts @ '');'')
                 (those (map translate_expr (filter (\<lambda>a. a \<noteq> []) (map trim args))))))"

definition translate_assign :: "string \<Rightarrow> string option" where
  "translate_assign stmt =
     (case strip_semicolon stmt of
        None \<Rightarrow> None
      | Some no_semi \<Rightarrow>
          (case find_char no_semi (CHR ''='') of
             None \<Rightarrow> None
           | Some p \<Rightarrow>
               map_option (\<lambda>rhs. trim (take p no_semi) @ '' = '' @ rhs @ '';'')
                 (translate_expr (trim (drop (p + 1) no_semi)))))"

definition translate_statement :: "string \<Rightarrow> string option" where
  "translate_statement raw =
     (let stmt = trim raw
      in if stmt = '';'' \<or> stmt = [] then Some []
         else case strip_prefix stmt ''return '' of
           Some rest \<Rightarrow> translate_return rest
         | None \<Rightarrow>
             if stmt = ''return;'' then Some ''return;''
             else if list_ex (starts_with stmt) type_prefixes then translate_var_decl stmt
             else case try_translate_inc_dec stmt of
               Some inc \<Rightarrow> Some inc
             | None \<Rightarrow>
                 case try_translate_compound_assign stmt of
                   Some compound \<Rightarrow> Some compound
                 | None \<Rightarrow>
                     if is_simple_assign stmt then translate_assign stmt
                     else if starts_with stmt ''printf('' then translate_printf stmt
                     else if ends_with stmt '');'' then translate_call_stmt stmt
                     else None)"

end
