(* ===== verification/Rule_Translate.thy ===== *)
theory Rule_Translate
  imports Rule_Statement
begin

text \<open>
  Bodies, functions and files in the rule-based translator (\<open>rule_translate/statements.rs\<close>,
  \<open>blocks.rs\<close>, \<open>functions.rs\<close> and \<open>mod.rs\<close>). The loops over the lines of a body need not end, so they
  take an amount of fuel; the outer option of a result says whether the fuel was enough, the inner one
  is the source's.
\<close>

section \<open>Results that may be missing\<close>

type_synonym 'a outcome = "'a option option"

text \<open>The \<open>?\<close> operator on a value at hand, and on the outcome of a loop.\<close>

definition need :: "'a option \<Rightarrow> ('a \<Rightarrow> 'b outcome) \<Rightarrow> 'b outcome" where
  "need x f = (case x of None \<Rightarrow> Some None | Some a \<Rightarrow> f a)"

definition after :: "'a outcome \<Rightarrow> ('a \<Rightarrow> 'b outcome) \<Rightarrow> 'b outcome" where
  "after x f = (case x of None \<Rightarrow> None | Some y \<Rightarrow> need y f)"

lemma need_simps [simp]: "need None f = Some None" "need (Some a) f = f a"
  by (simp_all add: need_def)

lemma after_simps [simp]: "after None f = None" "after (Some None) f = Some None" "after (Some (Some a)) f = f a"
  by (simp_all add: after_def)

section \<open>Blocks\<close>

definition indented :: "string \<Rightarrow> string" where
  "indented indent = indent @ ''    ''"

text \<open>A keyword with its condition and block; the caller adds what stands before and after.\<close>

definition block_text :: "string \<Rightarrow> string \<Rightarrow> string \<Rightarrow> string" where
  "block_text header body indent = header @ '' {'' @ [newline] @ body @ [newline] @ indent @ ''}''"

text \<open>
  The loop over \<open>else if\<close> and \<open>else\<close>: \<open>i\<close> is the line reached. A block that ends on a line with
  \<open>else\<close> leaves the loop on that line.
\<close>

fun else_chain ::
  "(string \<Rightarrow> string \<Rightarrow> string outcome) \<Rightarrow> nat \<Rightarrow> string list \<Rightarrow> nat \<Rightarrow> string \<Rightarrow> string \<Rightarrow> (string \<times> nat) outcome" where
  "else_chain body_of 0 ls i indent result = None"
| "else_chain body_of (Suc n) ls i indent result =
     (if i < length ls then
        (if contains (trim (ls ! i)) ''else if'' then
           need (extract_paren_condition (trim (ls ! i))) (\<lambda>cond.
           need (translate_expr cond) (\<lambda>rust_cond.
           need (extract_block_body ls i) (\<lambda>(body_str, body_end).
           after (body_of body_str (indented indent)) (\<lambda>body.
             else_chain body_of n ls
               (if contains (trim (ls ! body_end)) ''else'' then body_end else body_end + 1)
               indent (result @ block_text ('' else if '' @ rust_cond) body indent)))))
         else if contains (trim (ls ! i)) ''else'' then
           need (extract_block_body ls i) (\<lambda>(body_str, body_end).
           after (body_of body_str (indented indent)) (\<lambda>body.
             Some (Some (result @ block_text '' else'' body indent, body_end + 1))))
         else Some (Some (result, i)))
      else Some (Some (result, i)))"

definition translate_if_chain ::
  "(string \<Rightarrow> string \<Rightarrow> string outcome) \<Rightarrow> nat \<Rightarrow> string list \<Rightarrow> nat \<Rightarrow> string \<Rightarrow> (string \<times> nat) outcome" where
  "translate_if_chain body_of n ls start indent =
     need (extract_paren_condition (trim (ls ! start))) (\<lambda>cond.
     need (translate_expr cond) (\<lambda>rust_cond.
     need (extract_block_body ls start) (\<lambda>(body_str, body_end).
     after (body_of body_str (indented indent)) (\<lambda>body.
     after (else_chain body_of n ls
              (if contains (trim (ls ! body_end)) ''else'' then body_end else body_end + 1) indent
              (block_text (indent @ ''if '' @ rust_cond) body indent)) (\<lambda>(result, i).
       Some (Some (result @ [newline], i - start)))))))"

definition translate_while_block ::
  "(string \<Rightarrow> string \<Rightarrow> string outcome) \<Rightarrow> string list \<Rightarrow> nat \<Rightarrow> string \<Rightarrow> (string \<times> nat) outcome" where
  "translate_while_block body_of ls start indent =
     need (extract_paren_condition (trim (ls ! start))) (\<lambda>cond.
     need (translate_expr cond) (\<lambda>rust_cond.
     need (extract_block_body ls start) (\<lambda>(body_str, body_end).
     after (body_of body_str (indented indent)) (\<lambda>body.
       Some (Some (block_text (indent @ ''while '' @ rust_cond) body indent @ [newline], body_end + 1 - start))))))"

text \<open>The header of a \<open>for\<close>: exactly the three parts of \<open>splitn(3, ';')\<close>.\<close>

definition for_parts :: "string \<Rightarrow> (string \<times> string \<times> string) option" where
  "for_parts header =
     (case find_char header (CHR '';'') of
        None \<Rightarrow> None
      | Some p \<Rightarrow>
          (case find_char (drop (p + 1) header) (CHR '';'') of
             None \<Rightarrow> None
           | Some q \<Rightarrow>
               Some (trim (take p header), trim (take q (drop (p + 1) header)),
                     trim (drop (q + 1) (drop (p + 1) header)))))"

definition for_init :: "string \<Rightarrow> string option" where
  "for_init init =
     (if init = [] then Some []
      else if CHR '' '' \<in> set init
        then map_option (\<lambda>decl. replace_first decl ''let '' ''let mut '') (translate_var_decl (init @ '';''))
      else translate_statement (init @ '';''))"

definition for_cond :: "string \<Rightarrow> string option" where
  "for_cond cond = (if cond = [] then Some ''true'' else translate_expr cond)"

definition for_step :: "string \<Rightarrow> string option" where
  "for_step step = (if step = [] then Some [] else translate_statement (step @ '';''))"

definition for_text :: "string \<Rightarrow> string \<Rightarrow> string \<Rightarrow> string \<Rightarrow> string \<Rightarrow> string" where
  "for_text rust_init rust_cond rust_step body indent =
     (if rust_init = [] then [] else indent @ rust_init @ [newline])
     @ indent @ ''while '' @ rust_cond @ '' {'' @ [newline] @ body @ [newline]
     @ (if rust_step = [] then [] else indented indent @ rust_step @ [newline])
     @ indent @ ''}'' @ [newline]"

definition translate_for_block ::
  "(string \<Rightarrow> string \<Rightarrow> string outcome) \<Rightarrow> string list \<Rightarrow> nat \<Rightarrow> string \<Rightarrow> (string \<times> nat) outcome" where
  "translate_for_block body_of ls start indent =
     need (extract_paren_condition (trim (ls ! start))) (\<lambda>header.
     need (for_parts header) (\<lambda>(init, cond, step).
     need (for_init init) (\<lambda>rust_init.
     need (for_cond cond) (\<lambda>rust_cond.
     need (for_step step) (\<lambda>rust_step.
     need (extract_block_body ls start) (\<lambda>(body_str, body_end).
     after (body_of body_str (indented indent)) (\<lambda>body.
       Some (Some (for_text rust_init rust_cond rust_step body indent, body_end + 1 - start)))))))))"

section \<open>Bodies\<close>

definition starts_keyword :: "string \<Rightarrow> string \<Rightarrow> bool" where
  "starts_keyword line keyword \<longleftrightarrow> starts_with line (keyword @ '' '') \<or> starts_with line (keyword @ ''('')"

text \<open>
  The text that the line \<open>i\<close> starts and the number of lines it takes: \<open>None\<close> within the result
  stands for a line that is skipped.
\<close>

definition body_step ::
  "(string \<Rightarrow> string \<Rightarrow> string outcome) \<Rightarrow> nat \<Rightarrow> string list \<Rightarrow> nat \<Rightarrow> string \<Rightarrow> (string list \<times> nat) outcome" where
  "body_step body_of n ls i indent =
     (let trimmed = trim (ls ! i);
          whole = (\<lambda>r. after r (\<lambda>(block, consumed). Some (Some ([block], consumed))))
      in if trimmed = [] then Some (Some ([], 1))
         else if is_complex trimmed then Some None
         else if starts_keyword trimmed ''if'' then whole (translate_if_chain body_of n ls i indent)
         else if starts_keyword trimmed ''while'' then whole (translate_while_block body_of ls i indent)
         else if starts_keyword trimmed ''for'' then whole (translate_for_block body_of ls i indent)
         else if trimmed = ''}'' \<or> starts_with trimmed ''} else'' then Some (Some ([], 1))
         else need (translate_statement trimmed) (\<lambda>translated. Some (Some ([indent @ translated], 1))))"

fun body_loop ::
  "(string \<Rightarrow> string \<Rightarrow> string outcome) \<Rightarrow> nat \<Rightarrow> nat \<Rightarrow> string list \<Rightarrow> nat \<Rightarrow> string \<Rightarrow> string list \<Rightarrow> string list outcome" where
  "body_loop body_of n 0 ls i indent out = None"
| "body_loop body_of n (Suc k) ls i indent out =
     (if i < length ls then
        after (body_step body_of n ls i indent) (\<lambda>(texts, consumed).
          body_loop body_of n k ls (i + consumed) indent (out @ texts))
      else Some (Some out))"

text \<open>Declarations of variables that change get \<open>mut\<close>.\<close>

definition mark_mutable :: "string list \<Rightarrow> string \<Rightarrow> string" where
  "mark_mutable vars text =
     foldl (\<lambda>t nm. replace_all t (''let '' @ nm @ '':'') (''let mut '' @ nm @ '':'')) text vars"

primrec translate_body :: "nat \<Rightarrow> string \<Rightarrow> string \<Rightarrow> string outcome" where
  "translate_body 0 = (\<lambda>body indent. None)"
| "translate_body (Suc n) = (\<lambda>body indent.
     after (body_loop (translate_body n) (Suc n) (Suc n) (lines body) 0 indent [])
       (\<lambda>out. Some (Some (mark_mutable (find_mutated_vars body) (unlines out)))))"

section \<open>Functions and files\<close>

record rule_function =
  fn_title :: string
  fn_result :: string
  fn_params :: "rule_param list"
  fn_body :: string

definition translate_params_with_mut :: "rule_param list \<Rightarrow> string list \<Rightarrow> string option" where
  "translate_params_with_mut params mutated =
     map_option (join '', '')
       (those (map (\<lambda>(ty, nm).
          map_option (\<lambda>rust_ty. (if nm \<in> set mutated then ''mut '' else []) @ nm @ '': '' @ rust_ty)
            (c_type_to_rust ty)) params))"

definition translate_function :: "nat \<Rightarrow> rule_function \<Rightarrow> string outcome" where
  "translate_function n func =
     need (c_type_to_rust (fn_result func)) (\<lambda>rust_ret.
     need (translate_params_with_mut (fn_params func) (find_mutated_vars (fn_body func))) (\<lambda>rust_params.
     after (translate_body n (fn_body func) ''    '') (\<lambda>rust_body.
       Some (Some (''pub fn '' @ fn_title func @ ''('' @ rust_params @ '')''
                   @ (if rust_ret = ''()'' then [] else '' -> '' @ rust_ret)
                   @ '' {'' @ [newline] @ rust_body @ [newline] @ ''}'')))))"

definition translate_main :: "nat \<Rightarrow> string \<Rightarrow> string outcome" where
  "translate_main n body =
     after (translate_body n (replace_all body ''return 0;'' []) ''    '') (\<lambda>b.
       Some (Some (''fn main() {'' @ [newline] @ b @ [newline] @ ''}'')))"

definition function_at :: "string list \<Rightarrow> nat \<Rightarrow> (rule_function \<times> nat) option" where
  "function_at ls i =
     (case try_parse_function_start (trim (ls ! i)) of
        None \<Rightarrow> None
      | Some (nm, ret, params) \<Rightarrow>
          (case find_brace_line ls i of
             None \<Rightarrow> None
           | Some start \<Rightarrow>
               (case extract_braced_block ls start of
                  None \<Rightarrow> None
                | Some (body, block_last) \<Rightarrow>
                    Some (\<lparr>fn_title = nm, fn_result = ret, fn_params = params, fn_body = body\<rparr>, block_last))))"

definition not_function_line :: "string \<Rightarrow> bool" where
  "not_function_line line \<longleftrightarrow> starts_with line ''#'' \<or> starts_with line ''//'' \<or> line = []"

lemma find_brace_line_after: "find_brace_line ls i = Some start \<Longrightarrow> i \<le> start"
  by (auto simp: find_brace_line_def)

lemma braced_block_after: "extract_braced_block ls start = Some (body, e) \<Longrightarrow> start \<le> e"
  by (auto simp: extract_braced_block_def Let_def split: option.splits)

lemma function_at_after: "function_at ls i = Some (f, e) \<Longrightarrow> i \<le> e"
  using find_brace_line_after braced_block_after
  by (fastforce simp: function_at_def split: option.splits)

function rule_functions_from :: "string list \<Rightarrow> nat \<Rightarrow> rule_function list" where
  "rule_functions_from ls i =
     (if i < length ls then
        (if not_function_line (trim (ls ! i)) then rule_functions_from ls (i + 1)
         else case function_at ls i of
           Some (f, e) \<Rightarrow> f # rule_functions_from ls (e + 1)
         | None \<Rightarrow> rule_functions_from ls (i + 1))
      else [])"
  by pat_completeness auto
termination
  by (relation "measure (\<lambda>(ls, i). length ls - i)") (auto dest: function_at_after)

declare rule_functions_from.simps [simp del]

definition rule_functions :: "string \<Rightarrow> rule_function list" where
  "rule_functions source = rule_functions_from (lines source) 0"

text \<open>A \<open>main\<close> that is too complex is left out; any other such function ends the translation.\<close>

fun translate_functions ::
  "nat \<Rightarrow> rule_function list \<Rightarrow> string list \<Rightarrow> string option \<Rightarrow> (string list \<times> string option) outcome" where
  "translate_functions n [] parts main_body = Some (Some (parts, main_body))"
| "translate_functions n (func # funcs) parts main_body =
     (if fn_title func = ''main'' then
        (case translate_main n (fn_body func) of
           None \<Rightarrow> None
         | Some m \<Rightarrow> translate_functions n funcs parts m)
      else after (translate_function n func) (\<lambda>rust_fn. translate_functions n funcs (parts @ [rust_fn]) main_body))"

definition rule_output :: "string list \<Rightarrow> string option \<Rightarrow> string option" where
  "rule_output parts main_body =
     (if parts = [] \<and> main_body = None then None
      else Some (trim (concat (map (\<lambda>p. p @ [newline, newline]) parts)
                       @ (case main_body of None \<Rightarrow> [] | Some m \<Rightarrow> m @ [newline]))))"

definition try_translate :: "nat \<Rightarrow> string \<Rightarrow> string outcome" where
  "try_translate n c_source =
     (if rule_functions c_source = [] then Some None
      else after (translate_functions n (rule_functions c_source) [] None)
             (\<lambda>(parts, main_body). Some (rule_output parts main_body)))"

section \<open>Blocks of a list of lines\<close>

lemma push_lines: "foldl push_line t ls = (if t = [] then unlines (dropWhile (\<lambda>l. l = []) ls) else unlines (t # ls))"
proof (induction ls arbitrary: t)
  case (Cons l ls)
  then show ?case by (cases ls) (auto simp: push_line_def)
qed simp

lemma count_newlines: "count_matches s [newline] = length (filter (\<lambda>c. c = newline) s)"
proof (induction s)
  case (Cons c s)
  then show ?case by (subst count_matches.simps) auto
qed (simp add: count_matches.simps)

lemma newlines_unlines:
  "\<forall>l \<in> set ls. newline \<notin> set l \<Longrightarrow> length (filter (\<lambda>c. c = newline) (unlines ls)) = length ls - 1"
proof (induction ls)
  case (Cons l ls)
  then have "filter (\<lambda>c. c = newline) l = []" by (auto simp: filter_empty_conv)
  with Cons show ?case by (cases ls) (auto simp: join_Cons)
qed simp

lemma closing_position_bound:
  "closing_position x y d i s = Some p \<Longrightarrow> i \<le> p \<and> p < i + length s \<and> s ! (p - i) = y"
proof (induction s arbitrary: d i)
  case (Cons c cs)
  show ?case
  proof (cases "p = i")
    case True
    then have "c = y" using Cons by (fastforce split: if_splits)
    with True show ?thesis by simp
  next
    case False
    then obtain d' where "closing_position x y d' (i + 1) cs = Some p" using Cons.prems by (auto split: if_splits)
    from Cons.IH [OF this] show ?thesis by (auto simp: nth_Cons' Suc_diff_Suc)
  qed
qed simp

text \<open>The parts of an extracted block: what stands before it, its content and what follows.\<close>

lemma find_char_split: "find_char s c = Some p \<Longrightarrow> s = take p s @ c # drop (p + 1) s \<and> c \<notin> set (take p s) \<and> p < length s"
  using position_Some [of "\<lambda>x. x = c" s p] id_take_nth_drop [of p s] by (auto simp: find_char_def in_set_conv_nth)

lemma extract_braced_block_parts:
  assumes "extract_braced_block ls start = Some (inner, e)"
  obtains a b where "unlines (dropWhile (\<lambda>l. l = []) (drop start ls)) = a @ ''{'' @ inner @ ''}'' @ b"
    and "CHR ''{'' \<notin> set a" and "e = start + length (filter (\<lambda>c. c = newline) (a @ inner))"
proof -
  define t where "t = unlines (dropWhile (\<lambda>l. l = []) (drop start ls))"
  from assms obtain p q where p: "find_char t (CHR ''{'') = Some p"
    and q: "closing_position (CHR ''{'') (CHR ''}'') 0 0 (drop p t) = Some q"
    and inner: "inner = take (q - 1) (drop (p + 1) t)"
    and e: "e = start + count_matches (take (p + q + 1) t) [newline]"
    by (auto simp: extract_braced_block_def push_lines Let_def t_def split: option.splits)
  define a r where "a = take p t" and "r = drop (p + 1) t"
  have t: "t = a @ CHR ''{'' # r" and a: "CHR ''{'' \<notin> set a" "length a = p"
    using find_char_split [OF p] by (auto simp: a_def r_def)
  have "drop p t = CHR ''{'' # r" using t a by simp
  with q have "closing_position (CHR ''{'') (CHR ''}'') 1 1 r = Some q" by simp
  from closing_position_bound [OF this] have close: "1 \<le> q" "q - 1 < length r" "r ! (q - 1) = CHR ''}''" by auto
  then obtain b where r: "r = inner @ CHR ''}'' # b"
    using id_take_nth_drop [of "q - 1" r] inner by (auto simp: r_def)
  have "length inner = q - 1" using inner close by (simp add: r_def)
  then have len: "length (a @ ''{'' @ inner @ ''}'') = p + q + 1" using a close by simp
  have whole: "t = (a @ ''{'' @ inner @ ''}'') @ b" using t r by simp
  have taken: "take (p + q + 1) t = a @ ''{'' @ inner @ ''}''"
    unfolding whole len [symmetric] by simp
  have "e = start + length (filter (\<lambda>c. c = newline) (a @ inner))"
    unfolding e taken count_newlines by (simp add: newline_def)
  moreover have "t = a @ ''{'' @ inner @ ''}'' @ b" using whole by simp
  ultimately show thesis using that [of a b] a(1) unfolding t_def by blast
qed


lemma brace_line_not_empty:
  assumes "start < length ls" and "contains (ls ! start) ''{''"
  shows "dropWhile (\<lambda>l. l = []) (drop start ls) = drop start ls \<and> drop start ls = ls ! start # drop (Suc start) ls"
proof -
  have "drop start ls = ls ! start # drop (Suc start) ls" using assms(1) by (simp add: Cons_nth_drop_Suc)
  moreover have "ls ! start \<noteq> []" using assms(2) by auto
  ultimately show ?thesis by simp
qed

lemma contains_brace: "contains l [c] \<longleftrightarrow> c \<in> set l"
  by (auto simp: contains_iff in_set_conv_decomp)

lemma contains_trans: "contains s t \<Longrightarrow> contains t u \<Longrightarrow> contains s u"
  by (metis contains_iff append.assoc)

lemma contains_trim: "contains (trim s) t \<Longrightarrow> contains s t"
  using split_trim [of s] contains_trans contains_infix by metis

text \<open>Where a block ends: within the lines, and on its first line only when it is closed there.\<close>

definition closed_block :: "string \<Rightarrow> bool" where
  "closed_block l \<longleftrightarrow> CHR ''}'' \<in> set (dropWhile (\<lambda>c. c \<noteq> CHR ''{'') l)"

lemma closed_block_mono: "contains l m \<Longrightarrow> closed_block m \<Longrightarrow> closed_block l"
proof -
  assume "contains l m" and m: "closed_block m"
  then obtain u v where l: "l = u @ m @ v" by (auto simp: contains_iff)
  have "CHR ''{'' \<in> set m"
  proof (rule ccontr)
    assume "CHR ''{'' \<notin> set m"
    then have "dropWhile (\<lambda>c. c \<noteq> CHR ''{'') m = []" by auto
    with m show False by (simp add: closed_block_def)
  qed
  then have "dropWhile (\<lambda>c. c \<noteq> CHR ''{'') (m @ v) = dropWhile (\<lambda>c. c \<noteq> CHR ''{'') m @ v" by simp
  with m show ?thesis by (cases "CHR ''{'' \<in> set u") (auto simp: l closed_block_def dropWhile_append dest: set_dropWhileD)
qed

lemma braced_block_end:
  assumes block: "extract_braced_block ls start = Some (inner, e)" and start: "start < length ls"
    and brace: "contains (ls ! start) ''{''" and plain: "\<forall>l \<in> set ls. newline \<notin> set l"
  shows "start \<le> e \<and> e < length ls \<and> (e = start \<longrightarrow> closed_block (ls ! start))"
proof -
  obtain a b where whole: "unlines (drop start ls) = a @ ''{'' @ inner @ ''}'' @ b" and a: "CHR ''{'' \<notin> set a"
    and e: "e = start + length (filter (\<lambda>c. c = newline) (a @ inner))"
    using extract_braced_block_parts [OF block] brace_line_not_empty [OF start brace] by metis
  have plain': "\<forall>l \<in> set (drop start ls). newline \<notin> set l" using plain by (meson in_set_dropD)
  have "length (filter (\<lambda>c. c = newline) (unlines (drop start ls))) = length ls - start - 1"
    using newlines_unlines [OF plain'] by simp
  then have "e < length ls" using start by (simp add: whole e split: if_splits)
  moreover have "closed_block (ls ! start)" if "e = start"
  proof -
    have none: "newline \<notin> set (a @ ''{'' @ inner @ ''}'')" using that e by (auto simp: filter_empty_conv newline_def)
    have "unlines (drop start ls) = ls ! start \<or> (\<exists>r. unlines (drop start ls) = ls ! start @ newline # r)"
      using brace_line_not_empty [OF start brace] by (cases "drop (Suc start) ls") auto
    then have "\<exists>r. a @ ''{'' @ inner @ ''}'' @ b = ls ! start @ r \<and> (r = [] \<or> hd r = newline)"
      unfolding whole by auto
    then obtain r where r: "(a @ ''{'' @ inner @ ''}'') @ b = ls ! start @ r" "r = [] \<or> hd r = newline" by auto
    have "contains (ls ! start) (a @ ''{'' @ inner @ ''}'')"
    proof -
      from r(1) consider u where "a @ ''{'' @ inner @ ''}'' = ls ! start @ u" "u @ b = r"
        | u where "(a @ ''{'' @ inner @ ''}'') @ u = ls ! start" unfolding append_eq_append_conv2 by metis
      then show ?thesis
      proof cases
        case (1 u)
        then have "u = []" using r(2) none by (cases u) auto
        with 1 show ?thesis by (metis append_Nil append_Nil2 contains_iff)
      next
        case (2 u)
        then show ?thesis by (metis append_Nil contains_iff)
      qed
    qed
    moreover have "closed_block (a @ ''{'' @ inner @ ''}'')" using a by (simp add: closed_block_def dropWhile_append)
    ultimately show ?thesis by (rule closed_block_mono)
  qed
  ultimately show ?thesis using e by simp
qed


lemma extract_block_end:
  assumes block: "extract_block_body ls i = Some (inner, e)" and i: "i < length ls"
    and plain: "\<forall>l \<in> set ls. newline \<notin> set l"
  shows "i \<le> e \<and> e < length ls \<and> (e = i \<longrightarrow> closed_block (ls ! i))"
proof (cases "contains (ls ! i) ''{''")
  case True
  then show ?thesis using braced_block_end [of ls i inner e] block i plain by (simp add: extract_block_body_def)
next
  case False
  with block have next_line: "i + 1 < length ls" "starts_with (trim (ls ! (i + 1))) ''{''"
      "extract_braced_block ls (i + 1) = Some (inner, e)"
    by (auto simp: extract_block_body_def split: if_splits)
  then have "contains (trim (ls ! (i + 1))) ''{''"
    by (metis append_Nil contains_iff starts_with_iff)
  then have "contains (ls ! (i + 1)) ''{''" by (rule contains_trim)
  from braced_block_end [OF next_line(3,1) this plain] show ?thesis by simp
qed

lemma extract_block_inner:
  assumes "extract_block_body ls i = Some (inner, e)"
  shows "contains (unlines ls) inner \<and> length inner + 2 \<le> length (unlines ls)"
proof -
  obtain start where "extract_braced_block ls start = Some (inner, e)"
    using assms by (auto simp: extract_block_body_def split: if_splits)
  then obtain a b where whole: "unlines (dropWhile (\<lambda>l. l = []) (drop start ls)) = a @ ''{'' @ inner @ ''}'' @ b"
    by (rule extract_braced_block_parts)
  have "\<exists>u. unlines (zs @ ys) = u @ unlines ys" for zs ys
    by (cases "zs = []"; cases "ys = []") (auto simp: join_append)
  then have "\<exists>u. unlines xs = u @ unlines (dropWhile p xs)" and "\<exists>u. unlines xs = u @ unlines (drop n xs)" for p xs n
    by (metis takeWhile_dropWhile_id, metis append_take_drop_id)
  then obtain u where "unlines ls = u @ unlines (dropWhile (\<lambda>l. l = []) (drop start ls))"
    by (metis append.assoc)
  then have ls: "unlines ls = (u @ a @ ''{'') @ inner @ (''}'' @ b)" unfolding whole by simp
  show ?thesis unfolding ls by (simp only: contains_infix length_append) simp
qed

lemma length_unlines_lines: "length (unlines (lines s)) \<le> length s"
proof (induction s rule: lines_induct)
  case (Single s)
  then show ?case by (simp add: lines_no_newline)
next
  case (Newline l r)
  have "length (strip_cr l) \<le> length l" by (simp add: strip_cr_def)
  with Newline show ?case by (cases "lines r") (auto simp: lines_append_newline)
qed simp

lemma length_lines: "length (lines s) \<le> length s"
proof (induction s rule: lines_induct)
  case (Single s)
  then show ?case by (cases s) (auto simp: lines_no_newline)
qed (auto simp: lines_append_newline)

lemma lines_contained: "l \<in> set (lines s) \<Longrightarrow> contains s l"
proof (induction s rule: lines_induct)
  case (Single s)
  then show ?case using contains_infix [of "[]" s "[]"] by (simp add: lines_no_newline)
next
  case (Newline k r)
  have "contains k (strip_cr k)"
    by (cases k rule: rev_cases) (auto simp: strip_cr_def contains_iff)
  moreover have "contains ((k @ [newline]) @ r) m" if "contains r m" for m using that by (rule contains_prepend)
  moreover have "contains (k @ newline # r) k" using contains_infix [of "[]" k] by simp
  ultimately show ?case
    using Newline contains_trans by (auto simp: lines_append_newline)
qed simp

lemma contained_in_line:
  "contains (unlines ls) l \<Longrightarrow> newline \<notin> set l \<Longrightarrow> ls \<noteq> [] \<Longrightarrow> \<exists>k \<in> set ls. contains k l"
proof (induction ls)
  case (Cons k ls)
  consider "l = []" | "ls = []" | "l \<noteq> []" "ls \<noteq> []" by blast
  then show ?case
  proof cases
    case 1
    then show ?thesis using contains_infix [of "[]" "[]" k] by auto
  next
    case 3
    with Cons.prems obtain u v where uv: "k @ newline # unlines ls = u @ l @ v"
      by (auto simp: join_Cons contains_iff)
    then consider w where "u = k @ newline # w" "unlines ls = w @ l @ v" | w where "k = u @ w" "w @ newline # unlines ls = l @ v"
      using 3 by (auto simp: append_eq_append_conv2 Cons_eq_append_conv append_eq_Cons_conv)
    then show ?thesis
    proof cases
      case (1 w)
      then have "contains (unlines ls) l" by (auto simp: contains_iff)
      with Cons 3 show ?thesis by auto
    next
      case (2 w)
      from 2(2) [unfolded append_eq_append_conv2] obtain us
        where us: "w = l @ us \<or> w @ us = l \<and> newline # unlines ls = us @ v" by auto
      then have "\<exists>x. w = l @ x" using Cons.prems(2) by (cases us) auto
      with 2 show ?thesis by (auto simp: contains_iff)
    qed
  qed (use Cons in auto)
qed simp


text \<open>
  A line on which the loop over \<open>else if\<close> would stay for ever: it holds \<open>else if\<close> and a block that
  is closed before the line ends.
\<close>

definition stuck_line :: "string \<Rightarrow> bool" where
  "stuck_line l \<longleftrightarrow> contains l ''else if'' \<and> closed_block l"

definition unstuck :: "string \<Rightarrow> bool" where
  "unstuck body \<longleftrightarrow> list_all (\<lambda>l. \<not> stuck_line l) (lines body)"

lemma stuck_line_mono: "contains l m \<Longrightarrow> stuck_line m \<Longrightarrow> stuck_line l"
  using contains_trans closed_block_mono by (auto simp: stuck_line_def)

lemma unstuck_block:
  assumes "list_all (\<lambda>l. \<not> stuck_line l) ls" and "extract_block_body ls i = Some (inner, e)" and "ls \<noteq> []"
  shows "unstuck inner"
  unfolding unstuck_def list_all_iff
proof
  fix l
  assume l: "l \<in> set (lines inner)"
  then have "contains (unlines ls) l"
    using extract_block_inner [OF assms(2)] lines_contained contains_trans by blast
  then obtain k where "k \<in> set ls" "contains k l"
    using contained_in_line [of ls l] lines_no_newline_in [OF l] assms(3) by blast
  then show "\<not> stuck_line l" using assms(1) stuck_line_mono by (auto simp: list_all_iff)
qed

section \<open>Termination\<close>

text \<open>A loop that returns, with what holds of its result.\<close>

definition returns :: "('a \<Rightarrow> bool) \<Rightarrow> 'a outcome \<Rightarrow> bool" where
  "returns P r \<longleftrightarrow> r \<noteq> None \<and> (\<forall>a. r = Some (Some a) \<longrightarrow> P a)"

lemma returns_need: "(\<And>a. x = Some a \<Longrightarrow> returns P (f a)) \<Longrightarrow> returns P (need x f)"
  by (cases x) (auto simp: returns_def)

lemma returns_after: "returns Q x \<Longrightarrow> (\<And>a. Q a \<Longrightarrow> returns P (f a)) \<Longrightarrow> returns P (after x f)"
  by (cases x; cases "the x") (auto simp: returns_def)

lemma returns_simple [simp]: "returns P (Some None)" "returns P (Some (Some a)) \<longleftrightarrow> P a"
  by (auto simp: returns_def)

lemma returns_mono: "returns P r \<Longrightarrow> (\<And>a. P a \<Longrightarrow> Q a) \<Longrightarrow> returns Q r"
  by (auto simp: returns_def)

lemma else_chain_returns:
  assumes bodies: "\<And>b ind. unstuck b \<Longrightarrow> length b + 2 \<le> length (unlines ls) \<Longrightarrow> body_of b ind \<noteq> None"
    and unstuck: "list_all (\<lambda>l. \<not> stuck_line l) ls" and plain: "\<forall>l \<in> set ls. newline \<notin> set l"
  shows "length ls - i < n \<Longrightarrow>
    returns (\<lambda>(r, j). i \<le> j \<and> (i < length ls \<and> contains (trim (ls ! i)) ''else'' \<longrightarrow> i < j))
      (else_chain body_of n ls i indent result)"
proof (induction n arbitrary: i result)
  case (Suc n)
  let ?t = "trim (ls ! i)"
  have body: "returns (\<lambda>_. True) (body_of b ind)" "i \<le> e" "e < length ls"
      "contains ?t ''else if'' \<Longrightarrow> i < e"
    if "i < length ls" "extract_block_body ls i = Some (b, e)" for b e ind
  proof -
    have nonempty: "ls \<noteq> []" using that(1) by auto
    show "returns (\<lambda>_. True) (body_of b ind)"
      using bodies [OF unstuck_block [OF unstuck that(2) nonempty]] extract_block_inner [OF that(2)]
      by (simp add: returns_def)
    have e: "i \<le> e \<and> e < length ls \<and> (e = i \<longrightarrow> closed_block (ls ! i))"
      by (rule extract_block_end [OF that(2,1) plain])
    then show "i \<le> e" "e < length ls" by simp_all
    have "\<not> stuck_line (ls ! i)" using unstuck that(1) by (simp add: list_all_length)
    with e show "i < e" if "contains ?t ''else if''"
      using contains_trim [OF that] by (cases "e = i") (auto simp: stuck_line_def)
  qed
  consider "i < length ls" "contains ?t ''else if''"
    | "i < length ls" "\<not> contains ?t ''else if''" "contains ?t ''else''"
    | "i < length ls" "\<not> contains ?t ''else if''" "\<not> contains ?t ''else''" | "length ls \<le> i" by linarith
  then show ?case
  proof cases
    case 1
    have chain: "returns (\<lambda>(r, j). i \<le> j \<and> (i < length ls \<and> contains ?t ''else'' \<longrightarrow> i < j))
        (else_chain body_of n ls (if contains (trim (ls ! e)) ''else'' then e else e + 1) indent t)"
      if "extract_block_body ls i = Some (b, e)" for b e t
    proof -
      have "i < e" using body(4) [OF 1(1) that 1(2)] .
      then have next_line: "i < (if contains (trim (ls ! e)) ''else'' then e else e + 1)" by simp
      have "length ls - (if contains (trim (ls ! e)) ''else'' then e else e + 1) < n"
        using Suc.prems 1(1) next_line by linarith
      from returns_mono [OF Suc.IH [OF this]] show ?thesis using next_line by auto
    qed
    have step: "else_chain body_of (Suc n) ls i indent result =
        need (extract_paren_condition ?t) (\<lambda>cond.
        need (translate_expr cond) (\<lambda>rust_cond.
        need (extract_block_body ls i) (\<lambda>(body_str, body_end).
        after (body_of body_str (indented indent)) (\<lambda>body.
          else_chain body_of n ls
            (if contains (trim (ls ! body_end)) ''else'' then body_end else body_end + 1)
            indent (result @ block_text ('' else if '' @ rust_cond) body indent)))))"
      using 1 by simp
    show ?thesis
      unfolding step by (intro returns_need) (auto simp only: prod.case intro!: returns_after [OF body(1) [OF 1(1)]] chain)
  next
    case 2
    then show ?thesis
      by (auto intro!: returns_need returns_after [OF body(1) [OF 2(1)]] dest: body(2) [OF 2(1)])
  qed auto
qed simp

text \<open>The same for the blocks and for the steps of a body: they return, and take at least one line.\<close>

abbreviation good_step :: "('a \<times> nat) outcome \<Rightarrow> bool" where
  "good_step \<equiv> returns (\<lambda>(_, consumed). 0 < consumed)"

lemma body_step_good:
  assumes bodies: "\<And>b ind. unstuck b \<Longrightarrow> length b + 2 \<le> length (unlines ls) \<Longrightarrow> body_of b ind \<noteq> None"
    and unstuck: "list_all (\<lambda>l. \<not> stuck_line l) ls" and plain: "\<forall>l \<in> set ls. newline \<notin> set l"
    and i: "i < length ls" and n: "length ls < n"
  shows "good_step (body_step body_of n ls i indent)"
proof -
  have nonempty: "ls \<noteq> []" using i by auto
  have body: "returns (\<lambda>_. True) (body_of b ind)" "i \<le> e" if "extract_block_body ls i = Some (b, e)" for b e ind
    using bodies [OF unstuck_block [OF unstuck that nonempty]] extract_block_inner [OF that]
      extract_block_end [OF that i plain] by (auto simp: returns_def)
  have "good_step (translate_while_block body_of ls i indent)"
    unfolding translate_while_block_def using body
    by (auto intro!: returns_need returns_after [OF body(1)] simp: Suc_diff_le dest: body(2))
  moreover have "good_step (translate_for_block body_of ls i indent)"
    unfolding translate_for_block_def using body
    by (auto intro!: returns_need returns_after [OF body(1)] simp: Suc_diff_le dest: body(2))
  moreover have "good_step (translate_if_chain body_of n ls i indent)"
    unfolding translate_if_chain_def
  proof (intro returns_need, clarify, rule returns_after)
    fix cond rust_cond b e
    assume block: "extract_block_body ls i = Some (b, e)"
    show "returns (\<lambda>_. True) (body_of b (indented indent))" by (rule body(1) [OF block])
    fix body
    let ?next = "if contains (trim (ls ! e)) ''else'' then e else e + 1"
    have "length ls - ?next < n" using n by linarith
    then have "returns (\<lambda>(r, j). ?next \<le> j \<and> (?next < length ls \<and> contains (trim (ls ! ?next)) ''else'' \<longrightarrow> ?next < j))
        (else_chain body_of n ls ?next indent (block_text (indent @ ''if '' @ rust_cond) body indent))"
      using bodies by (intro else_chain_returns unstuck plain) auto
    moreover have "i \<le> e" "e < length ls" using extract_block_end [OF block i plain] by auto
    ultimately show "good_step (after
        (else_chain body_of n ls ?next indent (block_text (indent @ ''if '' @ rust_cond) body indent))
        (\<lambda>(result, i'). Some (Some (result @ [newline], i' - i))))"
      by (elim returns_after) (auto split: if_splits)
  qed
  moreover have "good_step (after r (\<lambda>(block, consumed). Some (Some ([block], consumed))))"
    if "good_step r" for r :: "(string \<times> nat) outcome"
    using that by (rule returns_after) auto
  ultimately show ?thesis
    unfolding body_step_def Let_def by (auto intro!: returns_need)
qed

lemma body_loop_returns:
  assumes "\<And>i. i < length ls \<Longrightarrow> good_step (body_step body_of n ls i indent)"
  shows "length ls - i < k \<Longrightarrow> body_loop body_of n k ls i indent out \<noteq> None"
proof (induction k arbitrary: i out)
  case (Suc k)
  show ?case
  proof (cases "i < length ls")
    case True
    from assms [OF this] have good: "good_step (body_step body_of n ls i indent)" .
    have "body_loop body_of n k ls (i + c) indent t \<noteq> None" if "0 < c" for c t
      using Suc True that by (intro Suc.IH) linarith
    then have "returns (\<lambda>_. True) (after (body_step body_of n ls i indent)
        (\<lambda>(texts, consumed). body_loop body_of n k ls (i + consumed) indent (out @ texts)))"
      using good by (elim returns_after) (auto simp: returns_def)
    with True show ?thesis by (simp add: returns_def)
  qed simp
qed simp

lemma translate_body_returns: "unstuck body \<Longrightarrow> length body < n \<Longrightarrow> translate_body n body indent \<noteq> None"
proof (induction n arbitrary: body indent)
  case (Suc n)
  let ?ls = "lines body"
  have "translate_body n b ind \<noteq> None" if "unstuck b" "length b + 2 \<le> length (unlines ?ls)" for b ind
    using Suc that length_unlines_lines [of body] by (intro Suc.IH) auto
  then have "good_step (body_step (translate_body n) (Suc n) ?ls i indent)" if "i < length ?ls" for i
    using Suc.prems that length_lines [of body] lines_no_newline_in
    by (intro body_step_good) (auto simp: unstuck_def)
  then have "body_loop (translate_body n) (Suc n) (Suc n) ?ls 0 indent [] \<noteq> None"
    using Suc.prems length_lines [of body] by (intro body_loop_returns) auto
  then have "returns (\<lambda>_. True) (body_loop (translate_body n) (Suc n) (Suc n) ?ls 0 indent [])"
    by (simp add: returns_def)
  then have "returns (\<lambda>_. True) (translate_body (Suc n) body indent)"
    unfolding translate_body.simps by (rule returns_after) simp
  then show ?case by (simp add: returns_def)
qed simp

section \<open>Fuel\<close>

text \<open>More fuel does not change a result.\<close>

definition below :: "'a outcome \<Rightarrow> 'a outcome \<Rightarrow> bool" where
  "below x y \<longleftrightarrow> x = None \<or> x = y"

lemma below_need: "(\<And>a. below (f a) (g a)) \<Longrightarrow> below (need x f) (need x g)"
  by (cases x) (auto simp: below_def)

lemma below_after: "below x y \<Longrightarrow> (\<And>a. below (f a) (g a)) \<Longrightarrow> below (after x f) (after y g)"
  by (cases x; cases y) (auto simp: below_def after_def intro!: below_need [unfolded below_def])

lemma below_case:
  "below x y \<Longrightarrow> (\<And>a. below (f a) (g a)) \<Longrightarrow>
     below (case x of None \<Rightarrow> None | Some a \<Rightarrow> f a) (case y of None \<Rightarrow> None | Some a \<Rightarrow> g a)"
  by (cases x; cases y) (auto simp: below_def)

lemma below_simple [simp]: "below x x" "below None x"
  by (simp_all add: below_def)

lemma else_chain_below:
  "(\<And>b ind. below (f b ind) (g b ind)) \<Longrightarrow> n \<le> m \<Longrightarrow>
     below (else_chain f n ls i indent result) (else_chain g m ls i indent result)"
proof (induction n arbitrary: m i result)
  case (Suc n)
  then obtain k where k: "m = Suc k" "n \<le> k" by (metis Suc_le_D Suc_le_mono)
  show ?case
    unfolding k(1) else_chain.simps
    using Suc.IH [OF Suc.prems(1) k(2)] Suc.prems(1)
    by (auto intro!: below_need below_after split: prod.split)
qed simp

lemma body_step_below:
  assumes "\<And>b ind. below (f b ind) (g b ind)" "n \<le> m"
  shows "below (body_step f n ls i indent) (body_step g m ls i indent)"
proof -
  have "below (translate_if_chain f n ls i indent) (translate_if_chain g m ls i indent)"
    unfolding translate_if_chain_def using assms else_chain_below [OF assms]
    by (auto intro!: below_need below_after split: prod.split)
  moreover have "below (translate_while_block f ls i indent) (translate_while_block g ls i indent)"
    unfolding translate_while_block_def using assms by (auto intro!: below_need below_after split: prod.split)
  moreover have "below (translate_for_block f ls i indent) (translate_for_block g ls i indent)"
    unfolding translate_for_block_def using assms by (auto intro!: below_need below_after split: prod.split)
  ultimately show ?thesis unfolding body_step_def Let_def by (auto intro!: below_after)
qed

lemma body_loop_below:
  "(\<And>b ind. below (f b ind) (g b ind)) \<Longrightarrow> n \<le> m \<Longrightarrow> k \<le> l \<Longrightarrow>
     below (body_loop f n k ls i indent out) (body_loop g m l ls i indent out)"
proof (induction k arbitrary: l i out)
  case (Suc k)
  then obtain l' where l: "l = Suc l'" "k \<le> l'" by (metis Suc_le_D Suc_le_mono)
  show ?case
    unfolding l(1) body_loop.simps
    using Suc.IH [OF Suc.prems(1,2) l(2)] body_step_below [OF Suc.prems(1,2)]
    by (auto intro!: below_after split: prod.split)
qed simp

lemma translate_body_below: "n \<le> m \<Longrightarrow> below (translate_body n body indent) (translate_body m body indent)"
proof (induction n arbitrary: m body indent)
  case (Suc n)
  then obtain k where k: "m = Suc k" "n \<le> k" by (metis Suc_le_D Suc_le_mono)
  show ?case
    unfolding k(1) translate_body.simps using Suc.IH [OF k(2)] k(2)
    by (intro below_after body_loop_below) auto
qed simp

lemma translate_body_any_fuel: "translate_body n body indent = Some r \<Longrightarrow> translate_body m body indent \<in> {None, Some r}"
  using translate_body_below [of n m body indent] translate_body_below [of m n body indent]
  unfolding below_def by (metis insert_iff linear option.distinct(1))

lemma translate_functions_below:
  "n \<le> m \<Longrightarrow> below (translate_functions n funcs parts main_body) (translate_functions m funcs parts main_body)"
proof (induction funcs arbitrary: parts main_body)
  case (Cons func funcs)
  have "below (translate_main n (fn_body func)) (translate_main m (fn_body func))"
    unfolding translate_main_def using translate_body_below [OF Cons.prems] by (intro below_after) auto
  moreover have "below (translate_function n func) (translate_function m func)"
    unfolding translate_function_def using translate_body_below [OF Cons.prems] by (intro below_need below_after) auto
  ultimately show ?case
    unfolding translate_functions.simps
    using Cons.IH [OF Cons.prems] by (auto intro: below_case below_after)
qed simp

lemma try_translate_below: "n \<le> m \<Longrightarrow> below (try_translate n src) (try_translate m src)"
  unfolding try_translate_def using translate_functions_below by (auto intro!: below_after split: prod.split)

text \<open>The text of a function that the loops run over.\<close>

definition translated_text :: "rule_function \<Rightarrow> string" where
  "translated_text func =
     (if fn_title func = ''main'' then replace_all (fn_body func) ''return 0;'' [] else fn_body func)"

lemma length_replace_empty: "length (replace_all s p []) \<le> length s"
proof (induction s p "[]::string" rule: replace_all.induct)
  case (1 s p)
  show ?case
  proof (cases "p = [] \<or> s = []")
    case False
    then obtain c cs where s: "s = c # cs" by (cases s) auto
    have "length (drop (length p) s) \<le> length s" by simp
    with 1 False s show ?thesis
      by (cases "starts_with s p") (auto simp: replace_all.simps [of "c # cs" p] simp del: length_drop)
  qed (auto simp: replace_all.simps [of s p "[]"] concat_map_singleton)
qed

lemma braced_block_length:
  assumes "extract_braced_block ls start = Some (inner, e)"
  shows "length inner \<le> length (unlines ls)"
proof -
  obtain a b where whole: "unlines (dropWhile (\<lambda>l. l = []) (drop start ls)) = a @ ''{'' @ inner @ ''}'' @ b"
    using assms by (rule extract_braced_block_parts)
  have "length (unlines ys) \<le> length (unlines (zs @ ys))" for zs ys
    by (cases "zs = []"; cases "ys = []") (auto simp: join_append)
  then have "length (unlines (dropWhile p xs)) \<le> length (unlines xs)" "length (unlines (drop n xs)) \<le> length (unlines xs)"
    for p xs n
    by (metis takeWhile_dropWhile_id, metis append_take_drop_id)
  from this(1) [of "\<lambda>l. l = []" "drop start ls"] this(2) [of start ls] show ?thesis unfolding whole by simp
qed

lemma rule_functions_length: "func \<in> set (rule_functions src) \<Longrightarrow> length (translated_text func) \<le> length src"
proof -
  have "length (fn_body func) \<le> length (unlines ls)" if "func \<in> set (rule_functions_from ls i)" for ls i
    using that
  proof (induction ls i rule: rule_functions_from.induct)
    case (1 ls i)
    have "length (fn_body f) \<le> length (unlines ls)" if "function_at ls i = Some (f, e)" for f e
      using that braced_block_length by (auto simp: function_at_def split: option.splits)
    with 1 show ?case
      by (subst (asm) (3) rule_functions_from.simps) (auto split: if_splits option.splits)
  qed
  moreover assume "func \<in> set (rule_functions src)"
  ultimately have "length (fn_body func) \<le> length (unlines (lines src))" by (auto simp: rule_functions_def)
  then show ?thesis
    using length_unlines_lines [of src] length_replace_empty [of "fn_body func" "''return 0;''"]
    by (auto simp: translated_text_def)
qed

lemma translate_functions_returns:
  "\<forall>func \<in> set funcs. unstuck (translated_text func) \<and> length (translated_text func) < n \<Longrightarrow>
     returns (\<lambda>_. True) (translate_functions n funcs parts main_body)"
proof (induction funcs arbitrary: parts main_body)
  case (Cons func funcs)
  then have body: "returns (\<lambda>_. True) (translate_body n (translated_text func) ''    '')"
    using translate_body_returns by (simp add: returns_def)
  show ?case
  proof (cases "fn_title func = ''main''")
    case True
    then have "returns (\<lambda>_. True) (translate_main n (fn_body func))"
      using body by (auto simp: translate_main_def translated_text_def intro: returns_after)
    with True Cons show ?thesis by (auto simp: returns_def)
  next
    case False
    then have "returns (\<lambda>_. True) (translate_function n func)"
      using body by (auto simp: translate_function_def translated_text_def intro!: returns_need intro: returns_after)
    with False Cons show ?thesis by (auto intro!: returns_after)
  qed
qed simp

text \<open>
  C23: The rule-based translator ends. When no line of a function body holds both \<open>else if\<close> and a
  block that is closed on that line, one and the same result is returned for every amount of fuel
  above the length of the source.
\<close>

theorem try_translate_returns:
  "\<forall>func \<in> set (rule_functions src). unstuck (translated_text func) \<Longrightarrow>
     \<exists>r. \<forall>n > length src. try_translate n src = Some r"
proof -
  assume unstuck: "\<forall>func \<in> set (rule_functions src). unstuck (translated_text func)"
  have "returns (\<lambda>_. True) (translate_functions n (rule_functions src) [] None)" if "length src < n" for n
    using unstuck that rule_functions_length by (intro translate_functions_returns) fastforce
  then have "try_translate n src \<noteq> None" if "length src < n" for n
    using that by (fastforce simp: returns_def try_translate_def after_def need_def split: option.splits)
  then obtain r where "try_translate (Suc (length src)) src = Some r" by blast
  moreover have "below (try_translate (Suc (length src)) src) (try_translate n src)" if "length src < n" for n
    using that by (intro try_translate_below) simp
  ultimately show ?thesis unfolding below_def by (metis option.distinct(1))
qed

definition sign_source :: string where
  "sign_source =
     unlines [''int sign(int a) {'',
              ''    if (a > 0) {'',
              ''        return 1;'',
              ''    } else if (a < 0) {'',
              ''        return -1;'',
              ''    }'',
              ''    return 0;'',
              ''}'']"

theorem try_translate_returns_witness:
  "\<exists>r. \<forall>n > length sign_source. try_translate n sign_source = Some r"
proof -
  have "list_all (\<lambda>func. unstuck (translated_text func)) (rule_functions sign_source)" by code_simp
  then show ?thesis by (intro try_translate_returns) (simp add: list_all_iff)
qed

text \<open>
  Without the hypothesis the translator may not end: an \<open>else if\<close> on one line with its block keeps the
  loop on that line, whatever the fuel.
\<close>

lemma else_chain_stuck:
  assumes "i < length ls" "contains (trim (ls ! i)) ''else if''"
    and "extract_paren_condition (trim (ls ! i)) = Some cond" "translate_expr cond = Some rust_cond"
    and "extract_block_body ls i = Some (b, i)" and "body_of b (indented indent) \<in> {None, Some (Some t)}"
  shows "else_chain body_of n ls i indent result = None"
proof (induction n arbitrary: result)
  case (Suc n)
  have "contains (trim (ls ! i)) ''else''" using assms(2) contains_trans [of _ "''else if''" "''else''"] by simp
  with assms Suc show ?case by auto
qed simp

definition stuck_source :: string where
  "stuck_source =
     unlines [''int sign(int a) {'',
              ''    if (a > 0) { return 1; } else if (a < 0) { return 2; }'',
              ''    return 0;'',
              ''}'']"

definition stuck_body :: string where
  "stuck_body = fn_body (hd (rule_functions stuck_source))"

text \<open>
  The rule-based translator does not end on this source, whose \<open>else if\<close> stands on one line with
  its block: no amount of fuel gives a result.
\<close>

theorem stuck_source_diverges: "try_translate n stuck_source = None"
proof -
  let ?ls = "lines stuck_body"
  have facts: "length ?ls = 3" "trim (?ls ! 0) = []"
    "trim (?ls ! 1) = ''if (a > 0) { return 1; } else if (a < 0) { return 2; }''"
    "extract_block_body ?ls 1 = Some ('' return 1; '', 1)"
    "extract_paren_condition (trim (?ls ! 1)) = Some ''a > 0''" "translate_expr ''a > 0'' = Some ''a > 0''"
    by code_simp+
  have block: "translate_body k '' return 1; '' ''        '' \<in> {None, Some (Some ''        return 1;'')}" for k
  proof -
    have "translate_body 3 '' return 1; '' ''        '' = Some (Some ''        return 1;'')" by code_simp
    then show ?thesis by (rule translate_body_any_fuel)
  qed
  have kw: "trim (?ls ! 1) \<noteq> []" "\<not> is_complex (trim (?ls ! 1))" "starts_keyword (trim (?ls ! 1)) ''if''"
    "contains (trim (?ls ! 1)) ''else''" "contains (trim (?ls ! 1)) ''else if''"
    unfolding facts by code_simp+
  have chain: "else_chain (translate_body k) m ?ls 1 ''    '' r = None" for k m r
    using facts kw block [of k] by (intro else_chain_stuck) (auto simp: indented_def)
  have one: "body_step (translate_body k) m ?ls 1 ''    '' = None" for k m
  proof -
    have "translate_if_chain (translate_body k) m ?ls 1 ''    '' = None"
      unfolding translate_if_chain_def facts(4,5) need_simps facts(6) prod.case
      using block [of k] chain kw by (auto simp: indented_def)
    then show ?thesis using kw by (simp add: body_step_def Let_def)
  qed
  have zero: "body_step f m ?ls 0 ''    '' = Some (Some ([], 1))" for f m
    using facts by (simp add: body_step_def)
  have "body_loop (translate_body k) m l ?ls 0 ''    '' [] = None" for k m l
    using facts one zero by (cases l; cases "l - 1") (auto)
  then have body: "translate_body k stuck_body ''    '' = None" for k
    by (cases k) (simp_all del: body_loop.simps)
  have fn: "rule_functions stuck_source =
      [\<lparr>fn_title = ''sign'', fn_result = ''int'', fn_params = [(''int'', ''a'')], fn_body = stuck_body\<rparr>]"
    unfolding stuck_body_def by code_simp
  have "c_type_to_rust ''int'' = Some ''i32''"
    "translate_params_with_mut [(''int'', ''a'')] (find_mutated_vars stuck_body) = Some ''a: i32''"
    by code_simp+
  then show ?thesis using body by (simp add: try_translate_def fn translate_function_def)
qed

text \<open>
  Three translations that lose or change statements: the \<open>else\<close> branch of a statement on one line is the
  block of the \<open>if\<close>; a line after a block that holds the letters of \<open>else\<close> is taken for an \<open>else\<close>; a
  prototype takes the body of the function that follows it.
\<close>

lemma one_line_else_repeats_block:
  "translate_body 4 ''if (a > 0) { b = 1; } else { b = 2; }'' []
     = Some (Some (unlines [''if a > 0 {'', ''    b = 1;'', ''} else {'', ''    b = 1;'', ''}'', []]))"
  by code_simp

lemma else_letters_become_else:
  "translate_body 9 (unlines [''if (a > 0) {'', ''b = 1;'', ''}'', ''while (a < elsewhere) {'', ''a++;'', ''}'']) []
     = Some (Some (unlines [''if a > 0 {'', ''    b = 1;'', ''} else {'', ''    a += 1;'', ''}'', []]))"
  by code_simp

lemma prototype_takes_next_body:
  "try_translate 5 (unlines [''int f(int a);'', ''int g(int b) {'', ''return b;'', ''}''])
     = Some (Some (unlines [''pub fn f(a: i32) -> i32 {'', ''    return b;'', ''}'']))"
  by code_simp

end
