(* ===== verification/Semantic_Patterns.thy ===== *)
theory Semantic_Patterns
  imports C_Ast Regex_Engine
begin

text \<open>
  Semantic pattern detection (\<open>crates/noricum-tools/src/semantic_patterns.rs\<close>): keyword and regular
  expression heuristics that turn a C source into hints for the translation prompt. The regex package is
  a parameter, and so is the order in which a hash set is listed.
\<close>

record detector =
  det_regex :: regex_engine
  hash_order :: "string list \<Rightarrow> string list"

text \<open>The first group of every match.\<close>

definition group_one :: "detector \<Rightarrow> string \<Rightarrow> string \<Rightarrow> string list" where
  "group_one dt pat src = map (\<lambda>c. cap_index c 1) (re_captures_iter (det_regex dt) (raw pat) src)"

definition matches :: "detector \<Rightarrow> string \<Rightarrow> string \<Rightarrow> bool" where
  "matches dt pat src = re_is_match (det_regex dt) (raw pat) src"

definition present :: "string \<Rightarrow> string list \<Rightarrow> string list" where
  "present src keywords = filter (contains src) keywords"

section \<open>Memory management\<close>

record memory_scan =
  current_fn :: "string option"
  scan_depth :: int
  alloc_fns :: "string list"
  free_fns :: "string list"

definition allocates :: "string \<Rightarrow> bool" where
  "allocates s \<longleftrightarrow> contains s ''malloc('' \<or> contains s ''calloc('' \<or> contains s ''realloc(''"

definition add_name :: "string list \<Rightarrow> string \<Rightarrow> string list" where
  "add_name ns n = (if n \<in> set ns then ns else ns @ [n])"

definition function_pattern :: string where
  "function_pattern = ''(?m)^%w[%w%s%*]*%s+(%w+)%s*%([^)]*%)%s*%{''"

definition memory_step :: "detector \<Rightarrow> memory_scan \<Rightarrow> string \<Rightarrow> memory_scan" where
  "memory_step dt st line =
     (let trimmed = trim line;
          current = (if scan_depth st = 0 then
                       (case re_captures (det_regex dt) (raw function_pattern) trimmed of
                          Some c \<Rightarrow> Some (cap_index c 1)
                        | None \<Rightarrow> current_fn st)
                     else current_fn st);
          depth = max 0 (scan_depth st
                         + int (length (filter (\<lambda>c. c = CHR ''{'') trimmed))
                         - int (length (filter (\<lambda>c. c = CHR ''}'') trimmed)))
      in \<lparr>current_fn = (if depth = 0 then None else current),
          scan_depth = depth,
          alloc_fns = (case current of
                         Some f \<Rightarrow> if allocates trimmed then add_name (alloc_fns st) f else alloc_fns st
                       | None \<Rightarrow> alloc_fns st),
          free_fns = (case current of
                        Some f \<Rightarrow> if contains trimmed ''free('' then add_name (free_fns st) f else free_fns st
                      | None \<Rightarrow> free_fns st)\<rparr>)"

definition memory_functions :: "detector \<Rightarrow> string \<Rightarrow> string list" where
  "memory_functions dt src =
     (let st = foldl (memory_step dt) \<lparr>current_fn = None, scan_depth = 0, alloc_fns = [], free_fns = []\<rparr> (lines src)
      in sort_dedup (alloc_fns st @ free_fns st))"

definition memory_suggestion :: "string \<Rightarrow> string" where
  "memory_suggestion src =
     (if contains src ''realloc('' then ''Vec<T> with push/resize (realloc pattern detected)''
      else if contains src ''malloc('' \<and> contains src ''free('' then
        ''RAII with Vec<T>, Box<T>, or String '' @ em_dash @ '' malloc/free pairs detected''
      else if contains src ''calloc('' then ''vec![0; n] for zero-initialized allocation''
      else ''RAII ownership (Vec, Box, String)'')"

definition detect_memory_management :: "detector \<Rightarrow> string \<Rightarrow> semantic_hint list" where
  "detect_memory_management dt src =
     (if \<not> allocates src \<and> \<not> contains src ''free('' then []
      else if memory_functions dt src = [] then []
      else [MemoryManagement (memory_functions dt src) (memory_suggestion src)])"

section \<open>Data structures\<close>

definition or_default :: "string list \<Rightarrow> string \<Rightarrow> string list" where
  "or_default xs d = (if xs = [] then [d] else xs)"

definition detect_linked_list :: "detector \<Rightarrow> string \<Rightarrow> semantic_hint list" where
  "detect_linked_list dt src =
     (if matches dt ''struct%s+%w+%s*%*%s*next%s*;'' src \<and> contains src ''->next'' then
        [DataStructure
           (if contains src ''*prev;'' \<or> contains src ''->prev'' then ''doubly_linked_list'' else ''linked_list'')
           (or_default
              (group_one dt ''(?s)(?:typedef%s+)?struct%s+(%w+)%s*%{[^}]*%*%s*next%s*;[^}]*%}'' src)
              ''(struct with ->next)'')
           ''Vec<T> (flatten the linked structure)'']
      else [])"

definition detect_hash_table :: "detector \<Rightarrow> string \<Rightarrow> semantic_hint list" where
  "detect_hash_table dt src =
     (let lower = to_lowercase src;
          has_buckets = (contains src ''**buckets'' \<or> contains src ''** buckets'');
          has_hash_fn = matches dt ''(?i)%b(hash|djb2|fnv|murmur)%b'' src;
          has_capacity = (contains lower ''capacity'' \<and> contains lower ''size'')
      in if (has_buckets \<or> has_hash_fn \<and> has_capacity) \<and> (contains src ''hash'' \<or> contains src ''Hash'') then
           [DataStructure ''hash_table''
              (or_default (group_one dt ''(?:typedef%s+)?struct%s+(%w*[Hh]ash%w*)'' src) ''(hash table structs)'')
              ''HashMap<K, V> from std::collections'']
         else [])"

definition detect_tree :: "detector \<Rightarrow> string \<Rightarrow> semantic_hint list" where
  "detect_tree dt src =
     (if (contains src ''*left'' \<or> contains src ''-> left'') \<and> (contains src ''*right'' \<or> contains src ''-> right'') then
        [DataStructure ''tree''
           (or_default
              (group_one dt
                 ''(?s)(?:typedef%s+)?struct%s+(%w+)%s*%{[^}]*%*%s*left%s*;[^}]*%*%s*right%s*;[^}]*%}'' src)
              ''(struct with left/right)'')
           ''Box<TreeNode> with Option<Box<TreeNode>> children, or arena-based'']
      else [])"

definition detect_stack :: "detector \<Rightarrow> string \<Rightarrow> semantic_hint list" where
  "detect_stack dt src =
     (let lower = to_lowercase src
      in if matches dt ''%bpush%s*%('' src \<and> matches dt ''%bpop%s*%('' src
            \<and> (contains lower ''top'' \<or> contains lower ''->sp'') then
           [DataStructure ''stack'' [''push'', ''pop''] ''Vec<T> with push()/pop()'']
         else [])"

definition detect_queue :: "string \<Rightarrow> semantic_hint list" where
  "detect_queue src =
     (let lower = to_lowercase src
      in if (contains lower ''enqueue'' \<or> contains lower ''queue_push'')
            \<and> (contains lower ''dequeue'' \<or> contains lower ''queue_pop'') then
           [DataStructure ''queue'' [''enqueue'', ''dequeue''] ''VecDeque<T> from std::collections'']
         else [])"

definition detect_data_structures :: "detector \<Rightarrow> string \<Rightarrow> semantic_hint list" where
  "detect_data_structures dt src =
     detect_linked_list dt src @ detect_hash_table dt src @ detect_tree dt src @ detect_stack dt src
     @ detect_queue src"

section \<open>Algorithms\<close>

definition detect_sort :: "detector \<Rightarrow> string \<Rightarrow> semantic_hint list" where
  "detect_sort dt src =
     (let lower = to_lowercase src
      in if contains src ''qsort('' then
           [Algorithm ''sort'' (''qsort'' # group_one dt ''int%s+(%w+)%s*%(%s*const%s+void'' src)
              ''slice::sort_unstable_by() with typed comparison closure'']
         else if (contains lower ''swap'' \<or> contains src ''temp ='')
                 \<and> matches dt ''for%s*%([^)]*%)%s*%{[^}]*for%s*%('' src then
           [Algorithm ''sort'' [''(manual sort detected)'']
              (''slice::sort() or sort_unstable_by() '' @ em_dash @ '' avoid manual swap loops'')]
         else [])"

definition detect_binary_search :: "detector \<Rightarrow> string \<Rightarrow> semantic_hint list" where
  "detect_binary_search dt src =
     (let lower = to_lowercase src
      in if (contains lower ''low'' \<or> contains lower ''left'') \<and> (contains lower ''high'' \<or> contains lower ''right'')
            \<and> (matches dt ''%bmid%b%s*=.*[/+].*2'' src \<or> contains src ''>> 1'') then
           [Algorithm ''binary_search''
              (or_default (group_one dt ''(?i)%b(%w*search%w*)%s*%('' src) ''(binary search pattern)'')
              ''slice::binary_search() or partition_point()'']
         else [])"

definition keyword_hint :: "string \<Rightarrow> string \<Rightarrow> string list \<Rightarrow> string \<Rightarrow> semantic_hint list" where
  "keyword_hint label suggestion keywords src =
     (let found = present src keywords in if found = [] then [] else [Algorithm label found suggestion])"

definition compression_keywords :: "string list" where
  "compression_keywords = [''deflate'', ''inflate'', ''compress'', ''decompress'', ''lz77'', ''huffman'', ''zlib'']"

definition checksum_keywords :: "string list" where
  "checksum_keywords = [''crc32'', ''crc16'', ''adler32'', ''checksum'']"

definition crypto_keywords :: "string list" where
  "crypto_keywords = [''sha256'', ''sha1'', ''md5'', ''aes'', ''encrypt'', ''decrypt'', ''hmac'', ''pbkdf'']"

definition detect_algorithms :: "detector \<Rightarrow> string \<Rightarrow> semantic_hint list" where
  "detect_algorithms dt src =
     (let lower = to_lowercase src
      in detect_sort dt src @ detect_binary_search dt src
         @ keyword_hint ''compression'' ''use flate2 crate or reimplement with byte slices and iterators''
             compression_keywords lower
         @ keyword_hint ''checksum'' ''wrapping arithmetic (wrapping_add, wrapping_shl) for bit-exact results''
             checksum_keywords lower
         @ keyword_hint ''crypto''
             ''use ring or sha2 crate for standard algorithms, or reimplement with wrapping ops for custom''
             crypto_keywords lower)"

section \<open>Control flow\<close>

definition detect_state_machine :: "detector \<Rightarrow> string \<Rightarrow> semantic_hint list" where
  "detect_state_machine dt src =
     (if (matches dt ''(?i)%bSTATE_%w+'' src \<or> matches dt ''enum%s+%w*[Ss]tate%w*'' src)
         \<and> (matches dt ''switch%s*%(%s*%w*->?%s*state'' src
            \<or> matches dt ''%w*->?%s*state%s*=%s*STATE_'' src \<or> matches dt ''%w*->?%s*state%s*=%s*%w+_STATE'' src) then
        [ControlFlow ''state_machine''
           [show_nat (length (remdups (group_one dt ''STATE_(%w+)'' src))) @ '' states detected'']
           (''enum State + match expression '' @ em_dash @ '' one branch per state, no goto'')]
      else [])"

definition parser_keywords :: "string list" where
  "parser_keywords = [''expression'', ''term'', ''factor'', ''primary'', ''unary'', ''atom'', ''statement'']"

definition detect_parser :: "detector \<Rightarrow> string \<Rightarrow> semantic_hint list" where
  "detect_parser dt src =
     (let parse_fns = remdups (group_one dt ''%b(parse_%w+)%s*%('' src)
      in if 3 \<le> length parse_fns
            \<and> 2 \<le> length (filter (\<lambda>f. list_ex (contains f) parser_keywords) parse_fns) then
           [ControlFlow ''recursive_descent_parser'' (hash_order dt parse_fns)
              ''Rust enum for AST nodes + recursive functions returning Result<Expr, ParseError>'']
         else [])"

definition event_keywords :: "string list" where
  "event_keywords = [''select('', ''poll('', ''epoll'', ''kqueue'', ''event_loop'', ''dispatch'']"

definition detect_event_loop :: "string \<Rightarrow> semantic_hint list" where
  "detect_event_loop src =
     (if list_ex (contains (to_lowercase src)) event_keywords then
        [ControlFlow ''event_loop'' [''(event dispatch)''] ''tokio/async or mio for event-driven I/O'']
      else [])"

definition detect_goto_cleanup :: "detector \<Rightarrow> string \<Rightarrow> semantic_hint list" where
  "detect_goto_cleanup dt src =
     (if matches dt ''%bgoto%s+%w+'' src \<and> matches dt ''(?m)^%w+:%s*$'' src then
        [ControlFlow ''goto_cleanup'' [''(goto-based resource cleanup)'']
           ''Drop trait for RAII cleanup + ? operator for early returns'']
      else [])"

definition detect_control_flow :: "detector \<Rightarrow> string \<Rightarrow> semantic_hint list" where
  "detect_control_flow dt src =
     detect_state_machine dt src @ detect_parser dt src @ detect_event_loop src @ detect_goto_cleanup dt src"

section \<open>Input and output, concurrency\<close>

definition file_fns :: "string list" where
  "file_fns = [''fopen'', ''fclose'', ''fread'', ''fwrite'', ''fprintf'', ''fscanf'', ''fgets'', ''fputs'']"

definition detect_io_patterns :: "string \<Rightarrow> semantic_hint list" where
  "detect_io_patterns src =
     (let lower = to_lowercase src;
          detected = filter (\<lambda>f. contains src (f @ ''('')) file_fns
      in (if 2 \<le> length detected then
            [IoPattern ''file_readwrite'' detected
               ''std::fs::read_to_string / std::io::BufReader / BufWriter with Read/Write traits'']
          else [])
         @ (if (contains lower ''buffer'' \<or> contains lower ''buf_size'')
               \<and> (contains lower ''read('' \<or> contains lower ''recv('')
               \<and> (contains lower ''write('' \<or> contains lower ''send('') then
              [IoPattern ''buffer_management'' [''(buffered I/O)'']
                 ''Vec<u8> as growable buffer + std::io::Cursor for in-memory I/O'']
            else [])
         @ (if contains lower ''serialize'' \<or> contains lower ''deserialize''
               \<or> contains lower ''json'' \<and> (contains lower ''parse'' \<or> contains lower ''print'') then
              [IoPattern ''serialization'' [''(serialization/deserialization)'']
                 ''serde with Serialize/Deserialize derives, or manual Display/FromStr'']
            else []))"

definition mutex_fns :: "string list" where
  "mutex_fns =
     [''pthread_mutex_lock'', ''pthread_mutex_unlock'', ''pthread_mutex_init'', ''EnterCriticalSection'',
      ''LeaveCriticalSection'']"

definition atomic_keywords :: "string list" where
  "atomic_keywords =
     [''atomic_load'', ''atomic_store'', ''atomic_fetch_add'', ''__atomic'', ''__sync_fetch'',
      ''InterlockedIncrement'']"

definition detect_concurrency :: "string \<Rightarrow> semantic_hint list" where
  "detect_concurrency src =
     (let mutexes = present src mutex_fns;
          atomics = filter (\<lambda>kw. contains (to_lowercase src) (to_lowercase kw)) atomic_keywords
      in (if mutexes \<noteq> [] then
            [Concurrency ''mutex'' mutexes
               (''std::sync::Mutex<T> with RAII MutexGuard '' @ em_dash @ '' lock scope = guard lifetime'')]
          else [])
         @ (if contains src ''pthread_create'' \<or> contains src ''CreateThread'' then
              [Concurrency ''thread_creation'' (present src [''pthread_create'', ''pthread_join'', ''CreateThread''])
                 ''std::thread::spawn with JoinHandle, or tokio::spawn for async tasks'']
            else [])
         @ (if atomics \<noteq> [] then
              [Concurrency ''atomic'' atomics
                 ''std::sync::atomic::{AtomicUsize, AtomicBool, etc.} with Ordering'']
            else []))"

definition detect_semantic_patterns :: "detector \<Rightarrow> string \<Rightarrow> semantic_hint list" where
  "detect_semantic_patterns dt src =
     detect_memory_management dt src @ detect_data_structures dt src @ detect_algorithms dt src
     @ detect_control_flow dt src @ detect_io_patterns src @ detect_concurrency src"

section \<open>Facts\<close>

lemma at_most_one [intro]: "length (if P then [h] else []) \<le> 1" "length (if P then [] else [h]) \<le> 1"
  by simp_all

lemma five:
  "length a \<le> 1 \<Longrightarrow> length b \<le> 1 \<Longrightarrow> length c \<le> 1 \<Longrightarrow> length d \<le> 1 \<Longrightarrow> length e \<le> 1 \<Longrightarrow>
     length (a @ b @ c @ d @ e) \<le> 5"
  by simp

lemma group_bounds:
  "length (detect_memory_management dt src) \<le> 1"
  "length (detect_linked_list dt src) \<le> 1" "length (detect_hash_table dt src) \<le> 1"
  "length (detect_tree dt src) \<le> 1" "length (detect_stack dt src) \<le> 1" "length (detect_queue src) \<le> 1"
  "length (detect_sort dt src) \<le> 1" "length (detect_binary_search dt src) \<le> 1"
  "length (keyword_hint l s ks src) \<le> 1"
  "length (detect_state_machine dt src) \<le> 1" "length (detect_parser dt src) \<le> 1"
  "length (detect_event_loop src) \<le> 1" "length (detect_goto_cleanup dt src) \<le> 1"
  by (simp_all add: detect_memory_management_def detect_linked_list_def detect_hash_table_def detect_tree_def
      detect_stack_def detect_queue_def detect_sort_def detect_binary_search_def keyword_hint_def
      detect_state_machine_def detect_parser_def detect_event_loop_def detect_goto_cleanup_def Let_def)

definition header_names :: "detector \<Rightarrow> string list \<Rightarrow> string set" where
  "header_names dt ls =
     {cap_index c 1 | c l. l \<in> set ls \<and> re_captures (det_regex dt) (raw function_pattern) (trim l) = Some c}"

lemma memory_step_names:
  "set (alloc_fns (memory_step dt st l)) \<union> set (free_fns (memory_step dt st l)) \<union> set_option (current_fn (memory_step dt st l))
     \<subseteq> set (alloc_fns st) \<union> set (free_fns st) \<union> set_option (current_fn st) \<union> header_names dt [l]"
proof -
  define cur where "cur = (if scan_depth st = 0 then
      (case re_captures (det_regex dt) (raw function_pattern) (trim l) of
         Some c \<Rightarrow> Some (cap_index c 1) | None \<Rightarrow> current_fn st) else current_fn st)"
  have cur: "set_option cur \<subseteq> set_option (current_fn st) \<union> header_names dt [l]"
    by (auto simp: cur_def header_names_def split: option.splits if_splits)
  have "set_option (current_fn (memory_step dt st l)) \<subseteq> set_option cur"
    by (simp add: memory_step_def Let_def cur_def)
  moreover have "set (alloc_fns (memory_step dt st l)) \<subseteq> set (alloc_fns st) \<union> set_option cur"
    by (cases cur) (simp_all add: memory_step_def Let_def cur_def [symmetric] add_name_def, blast)
  moreover have "set (free_fns (memory_step dt st l)) \<subseteq> set (free_fns st) \<union> set_option cur"
    by (cases cur) (simp_all add: memory_step_def Let_def cur_def [symmetric] add_name_def, blast)
  ultimately show ?thesis using cur by blast
qed

lemma memory_scan_names:
  "set (alloc_fns (foldl (memory_step dt) st ls)) \<union> set (free_fns (foldl (memory_step dt) st ls))
     \<subseteq> set (alloc_fns st) \<union> set (free_fns st) \<union> set_option (current_fn st) \<union> header_names dt ls"
proof (induction ls arbitrary: st)
  case (Cons l ls)
  have "header_names dt [l] \<union> header_names dt ls \<subseteq> header_names dt (l # ls)" by (auto simp: header_names_def)
  with Cons.IH [of "memory_step dt st l"] memory_step_names [of dt st l] show ?case by simp blast
qed auto

text \<open>
  The hints are bounded and grounded: a source gets at most 21 hints, and the functions of a memory
  management hint are listed once, in order, and each of them has a header line in the source.
\<close>

theorem semantic_hints_bounded:
  "length (detect_semantic_patterns dt src) \<le> 21
   \<and> distinct (memory_functions dt src) \<and> sorted (memory_functions dt src)
   \<and> set (memory_functions dt src)
       \<subseteq> header_names dt (lines src)"
proof (intro conjI)
  have data: "length (detect_data_structures dt src) \<le> 5"
    unfolding detect_data_structures_def by (rule five; rule group_bounds)
  have alg: "length (detect_algorithms dt src) \<le> 5"
    unfolding detect_algorithms_def Let_def by (rule five; rule group_bounds)
  have flow: "length (detect_control_flow dt src) \<le> 4"
    using group_bounds(10,11,13) [of dt src] group_bounds(12) [of src]
    unfolding detect_control_flow_def length_append by linarith
  have three: "length (a @ b @ c) \<le> 3" if "length a \<le> 1" "length b \<le> 1" "length c \<le> 1" for a b c :: "semantic_hint list"
    using that by simp
  have io: "length (detect_io_patterns src) \<le> 3"
    unfolding detect_io_patterns_def Let_def by (rule three; rule at_most_one)
  have conc: "length (detect_concurrency src) \<le> 3"
    unfolding detect_concurrency_def Let_def by (rule three; rule at_most_one)
  show "length (detect_semantic_patterns dt src) \<le> 21"
    using group_bounds(1) [of dt src] data alg flow io conc
    unfolding detect_semantic_patterns_def length_append by linarith
  show "distinct (memory_functions dt src)" "sorted (memory_functions dt src)"
    by (simp_all add: memory_functions_def Let_def)
  show "set (memory_functions dt src)
       \<subseteq> header_names dt (lines src)"
    using memory_scan_names [of dt "\<lparr>current_fn = None, scan_depth = 0, alloc_fns = [], free_fns = []\<rparr>" "lines src"]
    by (simp add: memory_functions_def Let_def)
qed

end
