(* ===== verification/Sync_Pipeline.thy ===== *)
theory Sync_Pipeline
  imports Repair_Stage Front_Tools Rule_Translate Semantic_Patterns Pipeline_Agents Fuzz_Test
begin

text \<open>
  The pipeline without a language model (\<open>migrate_file_sync\<close> and \<open>migrate_directory_sync\<close> in
  \<open>crates/noricum-core/src/orchestrator.rs\<close>): C2Rust, the rule-based translator, validation. The
  environment collects what the pipeline finds outside: files, compilers, C2Rust, the clients. A result
  is \<open>None\<close> when the rule-based translator does not return.
\<close>

section \<open>Environment\<close>

record ('exe, 'g) file_environment = "'exe environment" +
  read_source :: "string \<Rightarrow> (string, string) result"
  read_directory :: "string \<Rightarrow> (string, string list) result"
  c2_tools :: c2rust_tools
  pp_env :: pp_tools
  detecting :: detector
  spec_env :: "'exe spec_tools"
  analysis_of_json :: "string \<Rightarrow> (string, analysis_result) result"
  analysis_preamble :: string
  add_hints :: "semantic_hint list \<Rightarrow> analysis_result \<Rightarrow> analysis_result"
  debug_analysis :: "analysis_result \<Rightarrow> string"
  source_hash :: "string \<Rightarrow> string"
  fuzz_rng :: "'g rng"
  fuzz_start :: "u64 \<Rightarrow> 'g"
  clock :: "nat \<Rightarrow> u64"
  has_client :: bool
  audit_at :: "audit_level option"

definition max_c_source_size :: nat where "max_c_source_size = 10 * 1024 * 1024"

definition size_error :: "string \<Rightarrow> core_error" where
  "size_error src =
     Orchestration (''source file exceeds maximum size of '' @ show_nat max_c_source_size @ '' bytes (''
                    @ show_nat (length src) @ '' bytes)'')"

definition read_checked :: "('exe, 'g) file_environment \<Rightarrow> string \<Rightarrow> (core_error, string) result" where
  "read_checked env c_file =
     (case read_source env c_file of
        Inl e \<Rightarrow> Inl (IoError e)
      | Inr src \<Rightarrow> if max_c_source_size < length src then Inl (size_error src) else Inr src)"

definition file_name_stem :: "('exe, 'g) file_environment \<Rightarrow> string \<Rightarrow> string" where
  "file_name_stem env c_file = unwrap_or (stem_of (c2_tools env) c_file) ''unknown''"

section \<open>One file\<close>

text \<open>
  The unit before validation and whether there is something to validate. The rule-based translation is
  preferred to the output of C2Rust.
\<close>

definition sync_translation ::
  "nat \<Rightarrow> ('exe, 'g) file_environment \<Rightarrow> string \<Rightarrow> function_unit \<Rightarrow> (bool \<times> function_unit) option" where
  "sync_translation fuel env c_file u =
     (case (transpile (c2_tools env) c_file, try_translate fuel (c_source u)) of
        (_, None) \<Rightarrow> None
      | (Inr out, Some (Some rust)) \<Rightarrow>
          Some (True, u\<lparr>c2rust_output := Some (c2_source out), rust_output := Some rust, unit_state := Refined\<rparr>)
      | (Inr out, Some None) \<Rightarrow>
          Some (True, u\<lparr>c2rust_output := Some (c2_source out), rust_output := Some (c2_source out),
                        unit_state := C2RustDone\<rparr>)
      | (Inl _, Some (Some rust)) \<Rightarrow> Some (True, u\<lparr>rust_output := Some rust, unit_state := Refined\<rparr>)
      | (Inl _, Some None) \<Rightarrow> Some (False, u\<lparr>unit_state := Extracted\<rparr>))"

definition lift_validation :: "(validation_error, 'a) result \<Rightarrow> (core_error, 'a) result" where
  "lift_validation r = (case r of Inl e \<Rightarrow> Inl (ValidationFailure e) | Inr v \<Rightarrow> Inr v)"

definition sync_unit ::
  "nat \<Rightarrow> ('exe, 'g) file_environment \<Rightarrow> string \<Rightarrow> string \<Rightarrow> (core_error, function_unit) result option" where
  "sync_unit fuel env c_file src =
     map_option (\<lambda>(translated, u).
         if translated
         then bind_result (lift_validation (validate (bench env) u)) (\<lambda>v. Inr (apply_validation u v))
         else Inr u)
       (sync_translation fuel env c_file
          ((new_unit (file_name_stem env c_file) c_file src)\<lparr>unit_state := Extracted\<rparr>))"

definition migrate_file_sync ::
  "nat \<Rightarrow> ('exe, 'g) file_environment \<Rightarrow> string \<Rightarrow> (core_error, function_unit) result option" where
  "migrate_file_sync fuel env c_file =
     (case read_checked env c_file of
        Inl e \<Rightarrow> Some (Inl e)
      | Inr src \<Rightarrow> sync_unit fuel env c_file src)"

section \<open>A directory\<close>

text \<open>\<open>path.extension() == "c"\<close>: the last component ends in \<open>.c\<close> and is more than that.\<close>

definition is_c_file :: "('exe, 'g) file_environment \<Rightarrow> string \<Rightarrow> bool" where
  "is_c_file env path \<longleftrightarrow>
     (let nm = last_component (pp_env env) path in ends_with nm ''.c'' \<and> nm \<noteq> ''.c'')"

text \<open>The loop over the entries; the first error ends it.\<close>

fun migrate_entries ::
  "nat \<Rightarrow> ('exe, 'g) file_environment \<Rightarrow> string list \<Rightarrow> migration_project \<Rightarrow> (core_error, migration_project) result option" where
  "migrate_entries fuel env [] project = Some (Inr project)"
| "migrate_entries fuel env (path # paths) project =
     (if is_c_file env path then
        (case migrate_file_sync fuel env path of
           None \<Rightarrow> None
         | Some (Inl e) \<Rightarrow> Some (Inl e)
         | Some (Inr u) \<Rightarrow> migrate_entries fuel env paths (add_unit project u))
      else migrate_entries fuel env paths project)"

definition migrate_directory_sync ::
  "nat \<Rightarrow> ('exe, 'g) file_environment \<Rightarrow> string \<Rightarrow> (core_error, migration_project) result option" where
  "migrate_directory_sync fuel env dir =
     (case read_directory env dir of
        Inl e \<Rightarrow> Some (Inl (IoError e))
      | Inr paths \<Rightarrow>
          (case migrate_entries fuel env paths
                  (new_project (case last_component (pp_env env) dir of [] \<Rightarrow> ''project'' | nm \<Rightarrow> nm) dir) of
             None \<Rightarrow> None
           | Some (Inl e) \<Rightarrow> Some (Inl e)
           | Some (Inr project) \<Rightarrow>
               Some (if list_ex (is_c_file env) paths then Inr project else Inl (NoSourceFiles dir))))"

end
