(* ===== verification/Chunk_Translation.thy ===== *)
theory Chunk_Translation
  imports Llm_Agents Chunking Line_Fold
begin

text \<open>
  Multi-pass translation (second part of \<open>crates/noricum-agents/src/translation.rs\<close>): a large C
  file is translated chunk by chunk with the signatures and types agreed so far, and functions
  that are missing afterwards are added in completion passes. The compilation of the partial
  output between chunks is only logged and left out.
\<close>

section \<open>Combining chunk outputs\<close>

definition is_use_line :: "string \<Rightarrow> bool" where
  "is_use_line line = starts_with (trim line) ''use ''"

definition push_import :: "string list \<Rightarrow> string \<Rightarrow> string list" where
  "push_import xs x = (if x \<in> set xs then xs else xs @ [x])"

text \<open>The loop over the parts: the \<open>use\<close> statements and the code parts collected.\<close>

definition combine_step :: "string list \<times> string list \<Rightarrow> string \<Rightarrow> string list \<times> string list" where
  "combine_step st part =
     (let (use_statements, code_parts) = st;
          uses = foldl push_import use_statements (map trim (filter is_use_line (lines part)));
          code = trim (unlines (filter (\<lambda>l. \<not> is_use_line l) (lines part)))
      in (uses, if code \<noteq> [] then code_parts @ [code] else code_parts))"

definition combine_accumulated_chunks :: "string list \<Rightarrow> string" where
  "combine_accumulated_chunks parts =
     (let (use_statements, code_parts) = foldl combine_step ([], []) parts
      in concat (map (\<lambda>s. s @ [newline]) use_statements)
         @ (if use_statements \<noteq> [] then [newline] else [])
         @ join [newline, newline] code_parts)"

section \<open>Quick counts\<close>

definition is_quick_fn :: "string \<Rightarrow> bool" where
  "is_quick_fn t = ((starts_with t ''fn '' \<or> starts_with t ''pub fn '') \<and> CHR ''('' \<in> set t)"

definition quick_body :: "string list \<Rightarrow> string" where
  "quick_body next_lines =
     (case filter (\<lambda>l. l \<noteq> ''{'' \<and> l \<noteq> ''}'' \<and> l \<noteq> []) (map trim (take 4 next_lines)) of
        [] \<Rightarrow> [] | l # _ \<Rightarrow> l)"

definition quick_empty :: "string \<Rightarrow> string list \<Rightarrow> bool" where
  "quick_empty t next_lines =
     (let b = quick_body next_lines
      in b = [] \<or> b = ''todo!()'' \<or> b = ''unimplemented!()'' \<or> ends_with t ''{}'' \<or> ends_with t ''{ }'')"

fun count_empty_from :: "string list \<Rightarrow> nat" where
  "count_empty_from [] = 0"
| "count_empty_from (l # ls) =
     (if is_quick_fn (trim l) \<and> quick_empty (trim l) ls then 1 else 0) + count_empty_from ls"

definition count_empty_fns_quick :: "string \<Rightarrow> nat" where
  "count_empty_fns_quick src = count_empty_from (lines src)"

definition count_total_fns_quick :: "string \<Rightarrow> nat" where
  "count_total_fns_quick src =
     length (filter (\<lambda>l. let t = trim l
                         in (starts_with t ''fn '' \<or> starts_with t ''pub fn '' \<or> starts_with t ''pub(crate) fn '')
                            \<and> CHR ''('' \<in> set t) (lines src))"

definition chunk_is_stub :: "nat \<Rightarrow> string \<Rightarrow> bool" where
  "chunk_is_stub c_lines rust =
     ((10 < c_lines \<and> nonblank_line_count rust < c_lines div 4)
      \<or> (let total = count_total_fns_quick rust
          in 2 < total \<and> 3 * total < 10 * count_empty_fns_quick rust))"

section \<open>The C2Rust output of a chunk\<close>

definition snake_case_name :: "string \<Rightarrow> string" where
  "snake_case_name name =
     concat (map (\<lambda>(i, c). (if is_uppercase c \<and> 0 < i then ''_'' else []) @ [lower_char c]) (enumerate (0::nat) name))"

definition is_header_line :: "string \<Rightarrow> bool" where
  "is_header_line l =
     (let t = trim l
      in starts_with t ''use '' \<or> starts_with t ''extern '' \<or> starts_with t ''#['' \<or> starts_with t ''//'' \<or> t = [])"

definition is_c2rust_type :: "string \<Rightarrow> bool" where
  "is_c2rust_type t =
     list_ex (starts_with t)
       [''pub struct '', ''pub enum '', ''pub type '', ''pub union '', ''struct '', ''enum '', ''type '', ''#[repr('']"

definition line_braces :: "string \<Rightarrow> int" where
  "line_braces t = char_count (CHR ''{'') t - char_count (CHR ''}'') t"

fun c2rust_types :: "bool \<Rightarrow> int \<Rightarrow> string list \<Rightarrow> string list" where
  "c2rust_types in_type_def depth [] = []"
| "c2rust_types in_type_def depth (l # ls) =
     (let t = trim l
      in if is_c2rust_type t \<or> in_type_def then
           (let depth' = depth + line_braces t in l # c2rust_types (0 < depth') depth' ls)
         else c2rust_types in_type_def depth ls)"

definition is_matching_fn :: "string list \<Rightarrow> string \<Rightarrow> bool" where
  "is_matching_fn names t =
     (list_ex (starts_with t) [''pub unsafe extern '', ''pub extern '', ''unsafe extern '', ''pub fn '', ''fn '']
      \<and> list_ex (\<lambda>name. contains t (''fn '' @ name @ ''('') \<or> contains t (''fn '' @ snake_case_name name @ ''('')
                        \<or> contains t (''fn '' @ name @ '' ('')) names)"

text \<open>The lines of the function being collected, or \<open>None\<close> outside a function.\<close>

fun c2rust_functions :: "string list \<Rightarrow> (string list \<times> int) option \<Rightarrow> string list \<Rightarrow> string list" where
  "c2rust_functions names cur [] = []"
| "c2rust_functions names cur (l # ls) =
     (let t = trim l;
          cur' = (case cur of Some c \<Rightarrow> Some c
                  | None \<Rightarrow> if is_matching_fn names t then Some ([], 0) else None)
      in case cur' of
           None \<Rightarrow> c2rust_functions names None ls
         | Some (fn_lines, depth) \<Rightarrow>
             (let fn_lines' = fn_lines @ [l]; depth' = depth + line_braces t
              in if depth' \<le> 0 \<and> 1 < length fn_lines'
                 then [] # fn_lines' @ c2rust_functions names None ls
                 else c2rust_functions names (Some (fn_lines', depth')) ls))"

definition max_c2rust_lines_chunk :: nat where "max_c2rust_lines_chunk = 1500"

definition extract_c2rust_for_chunk :: "string \<Rightarrow> string list \<Rightarrow> bool \<Rightarrow> string" where
  "extract_c2rust_for_chunk c2rust names include_types =
     (let ls = lines c2rust;
          header = takeWhile is_header_line ls; body = dropWhile is_header_line ls;
          found = header @ (if include_types then c2rust_types False 0 body else [])
                  @ c2rust_functions names None body
      in if max_c2rust_lines_chunk < length found then
           unlines (take max_c2rust_lines_chunk found) @ [newline] @ ''// ... (''
           @ show_nat (length found - max_c2rust_lines_chunk) @ '' more lines truncated)''
         else unlines found)"

section \<open>Chunks\<close>

record chunk_output =
  chunk_index :: nat
  chunk_rust :: string

record chunked_result =
  combined :: string
  chunk_outputs :: "chunk_output list"
  agreed_signatures :: "string option"
  foundation :: "string option"

text \<open>What the calls of a translation share.\<close>

record translation_task =
  tt_client :: llm_client
  tt_preamble :: string
  tt_model :: string
  tt_c2rust :: "string option"
  tt_analysis :: analysis_result
  tt_patterns :: "migration_pattern list"
  tt_temperature :: "rat option"

definition translate_source ::
  "translation_task \<Rightarrow> string \<Rightarrow> string option \<Rightarrow> rat option \<Rightarrow> nat \<Rightarrow> (agent_error, string) result \<times> nat" where
  "translate_source tt src c2rust temp n =
     translate_function_with_patterns_and_temperature (tt_client tt) (tt_preamble tt) (tt_model tt) src c2rust
       (tt_analysis tt) (tt_patterns tt) temp n"

text \<open>P11: the signatures of all chunks are agreed on before the bodies are translated.\<close>

definition is_declaration_like :: "string \<Rightarrow> bool" where
  "is_declaration_like t =
     (\<not> starts_with t ''//'' \<and> \<not> starts_with t ''#'' \<and> CHR ''('' \<in> set t
      \<and> (ends_with t ''{'' \<or> ends_with t '')'' \<or> ends_with t '');'')
      \<and> \<not> starts_with t ''if'' \<and> \<not> starts_with t ''while'' \<and> \<not> starts_with t ''for''
      \<and> \<not> starts_with t ''return'')"

definition chunk_signatures :: "c_chunk \<Rightarrow> string list" where
  "chunk_signatures c =
     (if is_data_chunk c then []
      else filter (\<lambda>sig. sig \<noteq> [] \<and> CHR ''('' \<in> set sig)
             (map before_brace (filter is_declaration_like (map trim (lines (functions_source c))))))"

definition signature_prompt :: "string \<Rightarrow> string \<Rightarrow> string" where
  "signature_prompt context all_sigs =
     context @ [newline, newline] @ ''## C function signatures'' @ [newline]
     @ fenced_block ''c'' all_sigs @ [newline]
     @ ''Produce ONLY the Rust function signatures (fn declarations without bodies) for all functions above.'' @ [newline]
     @ ''Use idiomatic Rust types: &str instead of *const char, Vec<T> instead of *T + length, ''
     @ ''Option<T> for nullable pointers, &mut T for output pointers.'' @ [newline]
     @ ''Output ONLY the Rust signatures, one per line, no bodies, no explanation.''"

definition agree_signatures :: "translation_task \<Rightarrow> c_chunk list \<Rightarrow> nat \<Rightarrow> string option \<times> nat" where
  "agree_signatures tt cs n =
     (let all_sigs = concat (map (\<lambda>s. s @ [newline]) (concat (map chunk_signatures cs)))
      in if length cs \<le> 2 \<or> all_sigs = [] then (None, n)
         else (case tt_client tt n
                  \<lparr>pr_model = tt_model tt, pr_preamble = tt_preamble tt, pr_temperature = 2/10,
                   pr_max_tokens = 4096, pr_message = signature_prompt (chunk_context (hd cs)) all_sigs\<rparr> of
                 Inr response \<Rightarrow> (let sigs = extract_rust_code response
                                 in (if contains sigs ''fn '' then Some sigs else None, n + 1))
               | Inl e \<Rightarrow> (None, n + 1)))"

definition data_source :: "c_chunk \<Rightarrow> string" where
  "data_source c =
     chunk_context c @ [newline, newline]
     @ ''// === INSTRUCTION: This chunk contains ONLY static data (arrays, lookup tables). ==='' @ [newline]
     @ ''// Transcribe each C array to an equivalent Rust const array.'' @ [newline]
     @ ''// Use `const NAME: [[type; N]; M] = [...]` syntax.'' @ [newline]
     @ ''// Preserve all values exactly. Do NOT add functions.'' @ [newline]
     @ [newline, newline] @ ''// === Data to transcribe ==='' @ [newline]
     @ functions_source c"

definition is_foundation_line :: "string \<Rightarrow> bool" where
  "is_foundation_line l =
     (let t = trim l
      in list_ex (starts_with t)
           [''pub struct '', ''struct '', ''pub enum '', ''enum '', ''pub type '', ''type '', ''pub const '',
            ''const '', ''impl '', ''pub fn new('', ''    pub '']
         \<or> t = ''}'' \<or> t = ''{'')"

definition chunk_source :: "nat \<Rightarrow> c_chunk \<Rightarrow> string option \<Rightarrow> string list \<Rightarrow> string option \<Rightarrow> string" where
  "chunk_source i c found_types sigs agreed =
     chunk_context c
     @ (if i = 0 \<and> contains (chunk_context c) ''struct '' then
          [newline, newline] @ ''// === INSTRUCTION: Translate data model to idiomatic Rust types FIRST. ==='' @ [newline]
          @ ''// Use enum variants instead of type tags. Convert linked-lists to Vec.'' @ [newline]
          @ ''// Use String instead of *char. Replace malloc/free with RAII.'' @ [newline] else [])
     @ [newline, newline] @ ''// === Functions to translate ==='' @ [newline]
     @ functions_source c
     @ (case found_types of
          Some f \<Rightarrow>
            (let type_lines = filter is_foundation_line (lines f)
             in if 0 < i \<and> type_lines \<noteq> [] then
                  [newline, newline] @ ''// === P9: Rust types from data model (already translated) ==='' @ [newline]
                  @ unlines type_lines else [])
        | None \<Rightarrow> [])
     @ (if sigs \<noteq> [] then
          [newline, newline] @ ''// === Already translated Rust signatures (for reference) ==='' @ [newline]
          @ unlines sigs else [])
     @ (case agreed of
          Some a \<Rightarrow> [newline, newline] @ ''// === P11: Agreed Rust function signatures (use these exact types) ===''
                    @ [newline] @ a
        | None \<Rightarrow> [])"

text \<open>The state of the loop over the chunks.\<close>

record chunk_state =
  accumulated_rust :: "string list"
  accumulated_sigs :: "string list"
  foundation_rust :: "string option"
  outputs :: "chunk_output list"

definition add_output :: "nat \<Rightarrow> string \<Rightarrow> chunk_state \<Rightarrow> chunk_state" where
  "add_output i rust st =
     st\<lparr>accumulated_rust := accumulated_rust st @ [rust],
        outputs := outputs st @ [\<lparr>chunk_index = i, chunk_rust = rust\<rparr>]\<rparr>"

text \<open>One code chunk: the translation, and one more attempt when it is mostly stubs.\<close>

definition translate_code_chunk ::
  "translation_task \<Rightarrow> string option \<Rightarrow> nat \<Rightarrow> c_chunk \<Rightarrow> chunk_state \<Rightarrow> nat \<Rightarrow> (agent_error, string) result \<times> nat" where
  "translate_code_chunk tt agreed i c st n =
     (let src = chunk_source i c (foundation_rust st) (accumulated_sigs st) agreed;
          c2rust = (case tt_c2rust tt of
                      None \<Rightarrow> None
                    | Some s \<Rightarrow> (let x = extract_c2rust_for_chunk s (chunk_names c) (i = 0)
                                in if x = [] then None else Some x));
          c_lines = nonblank_line_count (functions_source c)
      in case translate_source tt src c2rust (tt_temperature tt) n of
           (Inl e, n') \<Rightarrow> (Inl e, n')
         | (Inr rust, n') \<Rightarrow>
             if chunk_is_stub c_lines rust then
               (case translate_source tt src c2rust (Some (5/10)) n' of
                  (Inl e, n'') \<Rightarrow> (Inl e, n'')
                | (Inr retry, n'') \<Rightarrow> (Inr (if chunk_is_stub c_lines retry then rust else retry), n''))
             else (Inr rust, n'))"

fun translate_chunks ::
  "translation_task \<Rightarrow> string option \<Rightarrow> nat \<Rightarrow> c_chunk list \<Rightarrow> chunk_state \<Rightarrow> nat
   \<Rightarrow> (agent_error, chunk_state) result \<times> nat" where
  "translate_chunks tt agreed i [] st n = (Inr st, n)"
| "translate_chunks tt agreed i (c # cs) st n =
     (if is_data_chunk c then
        (case translate_source tt (data_source c) None (tt_temperature tt) n of
           (Inl e, n') \<Rightarrow> (Inl e, n')
         | (Inr rust, n') \<Rightarrow> translate_chunks tt agreed (i + 1) cs (add_output i rust st) n')
      else
        (case translate_code_chunk tt agreed i c st n of
           (Inl e, n') \<Rightarrow> (Inl e, n')
         | (Inr rust, n') \<Rightarrow>
             translate_chunks tt agreed (i + 1) cs
               ((add_output i rust st)
                  \<lparr>accumulated_sigs := accumulated_sigs st @ extract_rust_signatures rust,
                   foundation_rust := (if i = 0 \<and> foundation_rust st = None then Some rust else foundation_rust st)\<rparr>)
               n'))"

definition translate_chunked ::
  "translation_task \<Rightarrow> c_chunk list \<Rightarrow> nat \<Rightarrow> (agent_error, chunked_result) result \<times> nat" where
  "translate_chunked tt cs n =
     (let (agreed, n1) = agree_signatures tt cs n
      in case translate_chunks tt agreed 0 cs
                \<lparr>accumulated_rust = [], accumulated_sigs = [], foundation_rust = None, outputs = []\<rparr> n1 of
           (Inl e, n2) \<Rightarrow> (Inl e, n2)
         | (Inr st, n2) \<Rightarrow>
             (Inr \<lparr>combined = combine_accumulated_chunks (accumulated_rust st), chunk_outputs = outputs st,
                   agreed_signatures = agreed, foundation = foundation_rust st\<rparr>, n2))"

section \<open>Completion passes\<close>

record completion_result =
  completed :: string
  passes :: nat
  total_c_functions :: nat
  missing_after :: "string list"

text \<open>The length of the block that starts with an opening brace: 0 when it is not closed.\<close>

fun block_length :: "int \<Rightarrow> nat \<Rightarrow> string \<Rightarrow> nat" where
  "block_length depth i [] = 0"
| "block_length depth i (ch # rest) =
     (if ch = CHR ''{'' then block_length (depth + 1) (i + 1) rest
      else if ch = CHR ''}'' then (if depth - 1 = 0 then i + 1 else block_length (depth - 1) (i + 1) rest)
      else block_length depth (i + 1) rest)"

definition rfind_newline :: "string \<Rightarrow> nat option" where
  "rfind_newline s = map_option (\<lambda>i. length s - 1 - i) (find_char (rev s) newline)"

definition c_function_text :: "string \<Rightarrow> string \<Rightarrow> string" where
  "c_function_text c_src name =
     (case find_str c_src (name @ ''('') of
        None \<Rightarrow> []
      | Some start \<Rightarrow>
          (let line_start = (case rfind_newline (take start c_src) of Some p \<Rightarrow> p + 1 | None \<Rightarrow> 0)
           in case find_char (drop start c_src) (CHR ''{'') of
                None \<Rightarrow> []
              | Some body_start \<Rightarrow>
                  (let abs_body_start = start + body_start;
                       stop = abs_body_start + block_length 0 0 (drop abs_body_start c_src)
                   in slice c_src line_start stop @ [newline, newline])))"

text \<open>The batch of missing functions: source, names, number of lines.\<close>

fun fill_batch :: "nat \<Rightarrow> string \<Rightarrow> pending \<Rightarrow> c_function list \<Rightarrow> pending" where
  "fill_batch max_loc c_src batch [] = batch"
| "fill_batch max_loc c_src (src, names, loc) (cf # cfs) =
     (let fn_loc = max (length (lines (fn_body cf))) 1
      in if max_loc < loc + fn_loc \<and> names \<noteq> [] then (src, names, loc)
         else fill_batch max_loc c_src (src @ c_function_text c_src (fn_name cf), names @ [fn_name cf], loc + fn_loc) cfs)"

definition completion_prompt :: "string \<Rightarrow> string \<Rightarrow> string list \<Rightarrow> string" where
  "completion_prompt rust batch names =
     ''You are completing a C-to-Rust migration. The following Rust code has already been ''
     @ ''translated and compiles. You need to add the MISSING functions listed below.'' @ [newline, newline]
     @ ''## Existing Rust code (DO NOT repeat this, only add new functions)'' @ [newline]
     @ fenced_block ''rust'' rust @ [newline]
     @ ''## Missing C functions to translate'' @ [newline]
     @ fenced_block ''c'' batch @ [newline]
     @ ''## Instructions'' @ [newline]
     @ ''- Translate ONLY the missing functions listed above to idiomatic, safe Rust.'' @ [newline]
     @ ''- Use the types and patterns from the existing Rust code (e.g., the enum, struct, impl blocks).'' @ [newline]
     @ ''- Add new functions as standalone `fn` or inside existing `impl` blocks as appropriate.'' @ [newline]
     @ ''- Do NOT redefine any existing types, enums, or structs.'' @ [newline]
     @ ''- Do NOT repeat any existing functions.'' @ [newline]
     @ ''- Output ONLY the new Rust functions, nothing else.'' @ [newline]
     @ ''- Missing functions to add: '' @ join '', '' names @ [newline]"

definition skipped_addition :: "string \<Rightarrow> string \<Rightarrow> bool" where
  "skipped_addition rust line =
     (let t = trim line
      in (starts_with t ''use '' \<and> contains rust t)
         \<or> (list_ex (starts_with t) [''pub enum '', ''enum '', ''pub struct '', ''struct ''] \<and> contains rust t))"

definition merge_additions :: "string \<Rightarrow> string \<Rightarrow> string" where
  "merge_additions rust new_code =
     (let additions = trim (concat (map (\<lambda>l. l @ [newline]) (filter (\<lambda>l. \<not> skipped_addition rust l) (lines new_code))))
      in if additions \<noteq> [] then rust @ [newline, newline] @ additions else rust)"

fun completion_loop ::
  "parsers \<Rightarrow> translation_task \<Rightarrow> string \<Rightarrow> c_function list \<Rightarrow> nat \<Rightarrow> rat \<Rightarrow> nat \<Rightarrow> nat \<Rightarrow> string \<Rightarrow> nat \<Rightarrow> nat
   \<Rightarrow> (agent_error, string \<times> nat) result \<times> nat" where
  "completion_loop ps tt c_src cfs max_loc temp 0 pass rust passes_done n = (Inr (rust, passes_done), n)"
| "completion_loop ps tt c_src cfs max_loc temp (Suc left) pass rust passes_done n =
     (let missing = find_missing_c_functions ps cfs rust
      in if missing = [] then (Inr (rust, passes_done), n)
         else (let (batch, names, loc) = fill_batch max_loc c_src ([], [], 0) missing
               in if names = [] then (Inr (rust, passes_done), n)
                  else (case tt_client tt n
                           \<lparr>pr_model = tt_model tt, pr_preamble = tt_preamble tt, pr_temperature = temp,
                            pr_max_tokens = max 4096 (min 16384 (of_nat loc * 8)),
                            pr_message = completion_prompt rust batch names\<rparr> of
                          Inl e \<Rightarrow> (Inl e, n + 1)
                        | Inr response \<Rightarrow>
                            (let new_code = extract_rust_code response
                             in if is_blank new_code then (Inr (rust, passes_done), n + 1)
                                else completion_loop ps tt c_src cfs max_loc temp left (pass + 1)
                                       (merge_additions rust new_code) (pass + 1) (n + 1)))))"

definition translate_completion_pass ::
  "parsers \<Rightarrow> translation_task \<Rightarrow> string \<Rightarrow> string \<Rightarrow> nat \<Rightarrow> nat \<Rightarrow> rat \<Rightarrow> nat
   \<Rightarrow> (agent_error, completion_result) result \<times> nat" where
  "translate_completion_pass ps tt c_src existing max_loc max_passes temp n =
     (let cfs = extract_c_functions ps c_src
      in case completion_loop ps tt c_src cfs max_loc temp max_passes 0 existing 0 n of
           (Inl e, n') \<Rightarrow> (Inl e, n')
         | (Inr (rust, done_passes), n') \<Rightarrow>
             (Inr \<lparr>completed = rust, passes = done_passes, total_c_functions = length cfs,
                   missing_after = map fn_name (find_missing_c_functions ps cfs rust)\<rparr>, n'))"

section \<open>The combined output\<close>

definition code_line :: "string \<Rightarrow> string list" where
  "code_line l = (if trim l \<noteq> [] \<and> \<not> is_use_line l then [trim l] else [])"

definition use_line :: "string \<Rightarrow> string list" where
  "use_line l = (if is_use_line l then [trim l] else [])"

text \<open>The code lines and the imports of a text, without the white space around them.\<close>

definition code_lines :: "string \<Rightarrow> string list" where
  "code_lines s = concat (map code_line (lines s))"

definition use_lines :: "string \<Rightarrow> string list" where
  "use_lines s = concat (map use_line (lines s))"

interpretation code: trim_fold code_line "(@)" "[]"
  by unfold_locales (simp_all add: code_line_def is_use_line_def trim_strip_cr trim_eq_Nil)

interpretation uses: trim_fold use_line "(@)" "[]"
  by unfold_locales (simp_all add: use_line_def is_use_line_def trim_strip_cr)

lemma code_lines_fold: "code_lines s = foldr (\<lambda>l. (@) (code_line l)) (lines s) []"
  by (simp add: code_lines_def foldr_append_concat)

lemma use_lines_fold: "use_lines s = foldr (\<lambda>l. (@) (use_line l)) (lines s) []"
  by (simp add: use_lines_def foldr_append_concat)

lemmas line_kinds = code_lines_fold use_lines_fold

lemma kinds_trim: "code_lines (trim s) = code_lines s" "use_lines (trim s) = use_lines s"
  by (simp_all add: line_kinds code.fold_trim uses.fold_trim)

lemma kinds_unlines:
  assumes "\<forall>l \<in> set ls. newline \<notin> set l"
  shows "code_lines (unlines ls) = concat (map code_line ls)" "use_lines (unlines ls) = concat (map use_line ls)"
  unfolding line_kinds code.fold_unlines [OF assms] uses.fold_unlines [OF assms]
  by (simp_all add: foldr_append_concat)

lemma kinds_newline: "code_lines (newline # t) = code_lines t" "use_lines (newline # t) = use_lines t"
  unfolding line_kinds by (rule code.fold_newline uses.fold_newline)+

lemma kinds_blocks:
  "code_lines (join [newline, newline] cs) = concat (map code_lines cs)"
  "use_lines (join [newline, newline] cs) = concat (map use_lines cs)"
  unfolding line_kinds code.fold_blocks uses.fold_blocks by (simp_all add: foldr_append_concat)

lemma kinds_statements:
  "code_lines (concat (map (\<lambda>s. s @ [newline]) us) @ t) = concat (map code_lines us) @ code_lines t"
  "use_lines (concat (map (\<lambda>s. s @ [newline]) us) @ t) = concat (map use_lines us) @ use_lines t"
  unfolding line_kinds code.fold_statements uses.fold_statements by (simp_all add: foldr_append_concat)

lemma kinds_output:
  "code_lines (concat (map (\<lambda>s. s @ [newline]) us) @ (if us \<noteq> [] then [newline] else []) @ join [newline, newline] cs)
     = concat (map code_lines us) @ concat (map code_lines cs)"
  "use_lines (concat (map (\<lambda>s. s @ [newline]) us) @ (if us \<noteq> [] then [newline] else []) @ join [newline, newline] cs)
     = concat (map use_lines us) @ concat (map use_lines cs)"
  by (simp_all add: kinds_statements kinds_newline kinds_blocks)

text \<open>What the loop collects.\<close>

definition part_code :: "string \<Rightarrow> string" where
  "part_code part = trim (unlines (filter (\<lambda>l. \<not> is_use_line l) (lines part)))"

lemma map_trim_uses: "map trim (filter is_use_line ls) = concat (map use_line ls)"
  by (induction ls) (simp_all add: use_line_def)

lemma combine_fold:
  "foldl combine_step (us, cs) parts
     = (foldl push_import us (concat (map use_lines parts)), cs @ filter (\<lambda>c. c \<noteq> []) (map part_code parts))"
proof (induction parts arbitrary: us cs)
  case (Cons p parts)
  then show ?case
    by (simp add: combine_step_def part_code_def map_trim_uses use_lines_def Let_def)
qed simp

lemma part_code_kinds: "code_lines (part_code p) = code_lines p" "use_lines (part_code p) = []"
proof -
  have plain: "\<forall>l \<in> set (filter (\<lambda>l. \<not> is_use_line l) (lines p)). newline \<notin> set l"
    by (auto dest: lines_no_newline_in)
  have "concat (map code_line (filter (\<lambda>l. \<not> is_use_line l) ls)) = concat (map code_line ls)"
    "concat (map use_line (filter (\<lambda>l. \<not> is_use_line l) ls)) = []" for ls
    by (induction ls) (auto simp: code_line_def use_line_def)
  then show "code_lines (part_code p) = code_lines p" "use_lines (part_code p) = []"
    by (simp_all only: part_code_def kinds_trim kinds_unlines [OF plain]) (simp add: code_lines_def)
qed

lemma concat_filter_nonempty: "(f [] = []) \<Longrightarrow> concat (map f (filter (\<lambda>c. c \<noteq> []) xs)) = concat (map f xs)"
  by (induction xs) auto

lemma set_push_import: "set (foldl push_import xs ys) = set xs \<union> set ys"
  by (induction ys arbitrary: xs) (auto simp: push_import_def)

lemma distinct_push_import: "distinct xs \<Longrightarrow> distinct (foldl push_import xs ys)"
  by (induction ys arbitrary: xs) (auto simp: push_import_def)

text \<open>An import found in a text is its own only line.\<close>

lemma use_line_kinds:
  assumes "u \<in> set (use_lines p)"
  shows "use_lines u = [u]" "code_lines u = []"
proof -
  obtain l where l: "l \<in> set (lines p)" "is_use_line l" "u = trim l"
    using assms by (auto simp: use_lines_def use_line_def split: if_splits)
  have "newline \<notin> set l" using l(1) by (rule lines_no_newline_in)
  then have nl: "newline \<notin> set u"
    using set_trim [of l] by (auto simp: l(3))
  have "u \<noteq> []" using l by (auto simp: is_use_line_def)
  with nl have "lines u = [u]" by (simp add: lines_no_newline)
  moreover have "is_use_line u" using l by (simp add: is_use_line_def)
  ultimately show "use_lines u = [u]" "code_lines u = []"
    using l(3) by (simp_all add: use_lines_def use_line_def code_lines_def code_line_def)
qed

lemma combine_kinds:
  "code_lines (combine_accumulated_chunks parts) = concat (map code_lines parts)
   \<and> use_lines (combine_accumulated_chunks parts) = foldl push_import [] (concat (map use_lines parts))"
proof -
  define us where "us = foldl push_import [] (concat (map use_lines parts))"
  define cs where "cs = filter (\<lambda>c. c \<noteq> []) (map part_code parts)"
  have out: "combine_accumulated_chunks parts
      = concat (map (\<lambda>s. s @ [newline]) us) @ (if us \<noteq> [] then [newline] else []) @ join [newline, newline] cs"
    using combine_fold [of "[]" "[]" parts]
    by (simp add: combine_accumulated_chunks_def us_def cs_def Let_def)
  have us: "set us = (\<Union>p \<in> set parts. set (use_lines p))" by (simp add: us_def set_push_import)
  have kinds: "use_lines u = [u]" "code_lines u = []" if "u \<in> set us" for u
    using that us use_line_kinds by auto
  have uses: "concat (map use_lines us) = us" "concat (map code_lines us) = []"
    using kinds by (induction us) simp_all
  have "concat (map code_lines cs) = concat (map code_lines parts)" "concat (map use_lines cs) = []"
    unfolding cs_def
    by (simp_all add: concat_filter_nonempty [of code_lines] concat_filter_nonempty [of use_lines]
        part_code_kinds comp_def code_lines_def [of "[]"] use_lines_def [of "[]"])
  with uses have "code_lines (combine_accumulated_chunks parts) = concat (map code_lines parts)"
    "use_lines (combine_accumulated_chunks parts) = us"
    unfolding out kinds_output by simp_all
  then show ?thesis by (simp add: us_def)
qed

lemmas combined_code = combine_kinds [THEN conjunct1]

text \<open>
  Combining the outputs of the chunks loses no code and repeats no import: the lines that
  are not imports appear in the combined output in the order of the chunks, and the imports of
  all chunks appear exactly once each.
\<close>

theorem combine_keeps_code:
  "code_lines (combine_accumulated_chunks parts) = concat (map code_lines parts)
   \<and> distinct (use_lines (combine_accumulated_chunks parts))
   \<and> set (use_lines (combine_accumulated_chunks parts)) = (\<Union>p \<in> set parts. set (use_lines p))"
  by (simp add: combine_kinds distinct_push_import set_push_import)

section \<open>The loop over the chunks\<close>

text \<open>How many calls of the client one translation, chunk or agreement makes.\<close>

lemma translate_source_calls: "snd (translate_source tt src c2 temp n) \<le> n + 4"
  using run_with_retries_calls [of n "tt_client tt" _ "length retry_delays"]
  by (auto simp: translate_source_def translate_function_with_patterns_and_temperature_def
      prompt_with_retries_def retry_delays_def split: prod.splits sum.splits)

lemma translate_source_le: "translate_source tt src c2 temp n = (r, n') \<Longrightarrow> n' \<le> n + 4"
  using translate_source_calls [of tt src c2 temp n] by simp

lemma translate_code_chunk_calls: "snd (translate_code_chunk tt agreed i c st n) \<le> n + 8"
  by (force simp: translate_code_chunk_def Let_def split: prod.splits sum.splits option.splits
      dest: translate_source_le)

lemma agree_signatures_calls: "snd (agree_signatures tt cs n) \<le> n + 1"
  by (auto simp: agree_signatures_def Let_def split: sum.splits)

lemma translate_chunks_calls: "snd (translate_chunks tt agreed i cs st n) \<le> n + 8 * length cs"
proof (induction tt agreed i cs st n rule: translate_chunks.induct)
  case (2 tt agreed i c cs st n)
  have src: "snd (translate_source tt (data_source c) None (tt_temperature tt) n) \<le> n + 8"
    using translate_source_calls [of tt "data_source c" None "tt_temperature tt" n] by simp
  have code: "snd (translate_code_chunk tt agreed i c st n) \<le> n + 8" by (rule translate_code_chunk_calls)
  show ?case
  proof (cases "is_data_chunk c")
    case True
    with 2(1) src show ?thesis by (fastforce split: prod.splits sum.splits)
  next
    case False
    with 2(2) code show ?thesis by (fastforce split: prod.splits sum.splits)
  qed
qed simp

text \<open>The chunks translated so far: their indices count up and their texts are the accumulated ones.\<close>

definition outputs_ok :: "nat \<Rightarrow> chunk_state \<Rightarrow> bool" where
  "outputs_ok i st \<longleftrightarrow> map chunk_index (outputs st) = [0..<i] \<and> map chunk_rust (outputs st) = accumulated_rust st"

lemma add_output_ok:
  assumes "outputs_ok i st"
  shows "outputs_ok (Suc i) (add_output i rust st)"
    "outputs_ok (Suc i) ((add_output i rust st)\<lparr>accumulated_sigs := x, foundation_rust := y\<rparr>)"
  using assms by (simp_all add: outputs_ok_def add_output_def)

lemma translate_chunks_outputs:
  "translate_chunks tt agreed i cs st n = (Inr st', n') \<Longrightarrow> outputs_ok i st \<Longrightarrow> outputs_ok (i + length cs) st'"
proof (induction tt agreed i cs st n rule: translate_chunks.induct)
  case (2 tt agreed i c cs st n)
  show ?case
  proof (cases "is_data_chunk c")
    case True
    with "2.prems" obtain rust n1 where
      "translate_source tt (data_source c) None (tt_temperature tt) n = (Inr rust, n1)"
      by (auto split: prod.splits sum.splits)
    with True "2.IH"(1) "2.prems" add_output_ok show ?thesis by simp
  next
    case False
    with "2.prems" obtain rust n1 where "translate_code_chunk tt agreed i c st n = (Inr rust, n1)"
      by (auto split: prod.splits sum.splits)
    with False "2.IH"(2) "2.prems" add_output_ok show ?thesis by simp
  qed
qed simp

text \<open>
  A chunked translation that succeeds has one output per chunk, numbered in order, and its
  result is the combination of exactly these outputs, so no code line of any chunk is lost. It
  makes at most eight calls of the model per chunk and one for the signatures, whatever the
  model answers.
\<close>

theorem translate_chunked_complete:
  assumes "translate_chunked tt cs n = (Inr r, n')"
  shows "map chunk_index (chunk_outputs r) = [0..<length cs]
     \<and> code_lines (combined r) = concat (map code_lines (map chunk_rust (chunk_outputs r)))
     \<and> n' \<le> n + 1 + 8 * length cs"
proof -
  obtain agreed n1 where agree: "agree_signatures tt cs n = (agreed, n1)" by fastforce
  define st0 where "st0 = \<lparr>accumulated_rust = [], accumulated_sigs = [], foundation_rust = None, outputs = []\<rparr>"
  obtain st where chunks: "translate_chunks tt agreed 0 cs st0 n1 = (Inr st, n')"
    and r: "combined r = combine_accumulated_chunks (accumulated_rust st)" "chunk_outputs r = outputs st"
    using assms agree by (auto simp: translate_chunked_def st0_def split: prod.splits sum.splits)
  have "outputs_ok 0 st0" by (simp add: outputs_ok_def st0_def)
  with chunks have ok: "outputs_ok (length cs) st"
    using translate_chunks_outputs [of tt agreed 0 cs st0 n1 st n'] by simp
  have "n1 \<le> n + 1" using agree_signatures_calls [of tt cs n] agree by simp
  moreover have "n' \<le> n1 + 8 * length cs"
    using translate_chunks_calls [of tt agreed 0 cs st0 n1] chunks by simp
  ultimately show ?thesis
    using ok combined_code by (simp add: r outputs_ok_def)
qed

section \<open>Completion\<close>

lemma merge_additions_extends: "\<exists>t. merge_additions rust new = rust @ t"
  by (simp add: merge_additions_def Let_def)

lemma completion_loop_result:
  "completion_loop ps tt c_src cfs max_loc temp k pass rust done_passes n = (Inr (rust', passes'), n')
   \<Longrightarrow> done_passes = pass
   \<Longrightarrow> (\<exists>t. rust' = rust @ t) \<and> pass \<le> passes' \<and> passes' \<le> pass + k \<and> n + (passes' - pass) \<le> n' \<and> n' \<le> n + k
       \<and> (passes' < pass + k \<longrightarrow> n' \<le> n + (passes' - pass) + 1)"
proof (induction k arbitrary: pass rust done_passes n)
  case (Suc k)
  let ?missing = "find_missing_c_functions ps cfs rust"
  obtain batch names loc where batch: "fill_batch max_loc c_src ([], [], 0) ?missing = (batch, names, loc)"
    by (cases "fill_batch max_loc c_src ([], [], 0) ?missing")
  show ?case
  proof (cases "?missing = [] \<or> names = []")
    case True
    with Suc.prems batch show ?thesis by (auto simp: Let_def split: if_splits)
  next
    case False
    then obtain response where answer: "tt_client tt n
        \<lparr>pr_model = tt_model tt, pr_preamble = tt_preamble tt, pr_temperature = temp,
         pr_max_tokens = max 4096 (min 16384 (of_nat loc * 8)),
         pr_message = completion_prompt rust batch names\<rparr> = Inr response"
      using Suc.prems batch by (auto simp: Let_def split: sum.splits)
    show ?thesis
    proof (cases "is_blank (extract_rust_code response)")
      case True
      with Suc.prems batch False answer show ?thesis by (auto simp: Let_def)
    next
      case more: False
      let ?rust = "merge_additions rust (extract_rust_code response)"
      have "completion_loop ps tt c_src cfs max_loc temp k (pass + 1) ?rust (pass + 1) (n + 1) = (Inr (rust', passes'), n')"
        using Suc.prems batch False answer more by (simp add: Let_def)
      from Suc.IH [OF this] have "\<exists>t. rust' = ?rust @ t" "pass + 1 \<le> passes'" "passes' \<le> pass + 1 + k"
        "n + 1 + (passes' - (pass + 1)) \<le> n'" "n' \<le> n + 1 + k"
        "passes' < pass + 1 + k \<longrightarrow> n' \<le> n + 1 + (passes' - (pass + 1)) + 1" by auto
      moreover obtain t where "?rust = rust @ t" using merge_additions_extends by blast
      ultimately show ?thesis by auto
    qed
  qed
qed auto

text \<open>
  A completion pass only adds: its result starts with the Rust source it was given, it makes
  at most the allowed number of passes, every pass is one call of the model (and there may be one
  more call, the one with an empty answer that ends it), and the functions it reports as missing
  are those missing from its result.
\<close>

theorem completion_extends:
  assumes "translate_completion_pass ps tt c_src existing max_loc max_passes temp n = (Inr r, n')"
  shows "(\<exists>t. completed r = existing @ t) \<and> passes r \<le> max_passes
     \<and> n + passes r \<le> n' \<and> n' \<le> n + passes r + 1
     \<and> missing_after r = map fn_name (find_missing_c_functions ps (extract_c_functions ps c_src) (completed r))"
proof -
  obtain rust k where loop: "completion_loop ps tt c_src (extract_c_functions ps c_src) max_loc temp max_passes 0 existing 0 n
      = (Inr (rust, k), n')"
    and r: "completed r = rust" "passes r = k"
      "missing_after r = map fn_name (find_missing_c_functions ps (extract_c_functions ps c_src) rust)"
    using assms by (auto simp: translate_completion_pass_def Let_def split: prod.splits sum.splits)
  from completion_loop_result [OF loop] have "\<exists>t. rust = existing @ t" "k \<le> max_passes" "n + k \<le> n'"
    "n' \<le> n + max_passes" "k < max_passes \<longrightarrow> n' \<le> n + k + 1" by auto
  moreover from this have "n' \<le> n + k + 1" by (cases "k < max_passes") simp_all
  ultimately show ?thesis unfolding r by blast
qed

text \<open>A client that always gives the same answer.\<close>

definition constant_task :: "string \<Rightarrow> translation_task" where
  "constant_task answer =
     \<lparr>tt_client = (\<lambda>n p. Inr answer), tt_preamble = [], tt_model = ''m'', tt_c2rust = None,
      tt_analysis = \<lparr>an_difficulty = ''easy'', an_patterns = [], an_json = ''{}''\<rparr>, tt_patterns = [],
      tt_temperature = None\<rparr>"

lemma constant_source: "translate_source (constant_task a) src c2 temp n = (Inr (extract_rust_code a), n + 1)"
  by (simp add: translate_source_def translate_function_with_patterns_and_temperature_def
      prompt_with_retries_def retry_delays_def constant_task_def)

theorem translate_chunked_complete_witness:
  "\<exists>r n'. translate_chunked (constant_task ''fn f() {}'')
       [\<lparr>chunk_context = [], functions_source = ''int f(void) {}'', chunk_names = [''f''], chunk_lines = 1,
         is_data_chunk = False\<rparr>] 0 = (Inr r, n')
     \<and> map chunk_index (chunk_outputs r) = [0] \<and> n' \<le> 9"
proof -
  let ?t = "constant_task ''fn f() {}''"
  let ?c = "\<lparr>chunk_context = [], functions_source = ''int f(void) {}'', chunk_names = [''f''], chunk_lines = 1,
         is_data_chunk = False\<rparr>"
  have none: "agree_signatures ?t [?c] 0 = (None, 0)" by (simp add: agree_signatures_def Let_def)
  have "\<exists>rust n'. translate_code_chunk ?t None 0 ?c st 0 = (Inr rust, n')" for st
    by (simp add: translate_code_chunk_def constant_source Let_def)
  then obtain rust n' where "translate_code_chunk ?t None 0 ?c
      \<lparr>accumulated_rust = [], accumulated_sigs = [], foundation_rust = None, outputs = []\<rparr> 0 = (Inr rust, n')"
    by blast
  then obtain r where run: "translate_chunked ?t [?c] 0 = (Inr r, n')"
    by (simp add: translate_chunked_def none del: One_nat_def)
  from translate_chunked_complete [OF this] run show ?thesis by auto
qed

theorem completion_extends_witness:
  "\<exists>r n'. translate_completion_pass two_functions (constant_task ''fn g() {}'') ''int f(){} int g(){}'' ''fn f() {}'' 400 1 (3/10) 0
       = (Inr r, n') \<and> (\<exists>t. completed r = ''fn f() {}'' @ t) \<and> passes r \<le> 1"
proof -
  have "\<exists>x n'. completion_loop two_functions (constant_task ''fn g() {}'') c cfs 400 (3/10) 1 0 rust 0 0 = (Inr x, n')" for c cfs rust
    by (cases "fill_batch 400 c ([], [], 0) (find_missing_c_functions two_functions cfs rust)")
       (simp add: constant_task_def Let_def)
  then obtain x n' where "completion_loop two_functions (constant_task ''fn g() {}'') ''int f(){} int g(){}''
      (extract_c_functions two_functions ''int f(){} int g(){}'') 400 (3/10) 1 0 ''fn f() {}'' 0 0 = (Inr x, n')"
    by blast
  then obtain r where run: "translate_completion_pass two_functions (constant_task ''fn g() {}'')
      ''int f(){} int g(){}'' ''fn f() {}'' 400 1 (3/10) 0 = (Inr r, n')"
    by (cases x) (simp add: translate_completion_pass_def Let_def del: One_nat_def completion_loop.simps)
  from completion_extends [OF run] run show ?thesis by blast
qed

end
