(* ===== verification/File_Pipeline.thy ===== *)
theory File_Pipeline
  imports Sync_Pipeline Chunk_Translation
begin

text \<open>
  The pipeline with a language model for one file (\<open>migrate_file\<close> in
  \<open>crates/noricum-core/src/orchestrator.rs\<close>), one definition per stage, composed in the order of the
  code. The state is the pipeline state of the repair loop with the translation cache on disk. A stage
  that gives up on the model answers \<open>Fallback\<close>, and the file is migrated without a model. The modular
  migration of large files is a parameter of the whole.
\<close>

section \<open>State and outcomes\<close>

record file_state = pipeline +
  cache_files :: "string \<rightharpoonup> string"
  cache_writable :: bool

datatype 'a stage_result = Fallback | Proceed 'a

text \<open>The outcome of a stage: an error of the pipeline, a fallback, or a value.\<close>

type_synonym 'a stage = "(core_error, 'a stage_result) result"

definition then_stage :: "'a stage \<Rightarrow> ('a \<Rightarrow> 'b stage) \<Rightarrow> 'b stage" where
  "then_stage r f = bind_result r (\<lambda>x. case x of Fallback \<Rightarrow> Inr Fallback | Proceed a \<Rightarrow> f a)"

lemma then_stage_simps [simp]:
  "then_stage (Inl e) f = Inl e" "then_stage (Inr Fallback) f = Inr Fallback" "then_stage (Inr (Proceed a)) f = f a"
  by (simp_all add: then_stage_def)

lemma then_stage_Proceed:
  "then_stage r f = Inr (Proceed b) \<longleftrightarrow> (\<exists>a. r = Inr (Proceed a) \<and> f a = Inr (Proceed b))"
  by (cases r) (auto simp: then_stage_def split: stage_result.splits)

definition proceed :: "(core_error, 'a) result \<Rightarrow> 'a stage" where
  "proceed r = bind_result r (\<lambda>a. Inr (Proceed a))"

section \<open>Before the translation\<close>

text \<open>The estimate of the whole migration in tokens, and whether it is above 80 percent of the budget.\<close>

definition preflight_estimate :: "migration_config \<Rightarrow> string \<Rightarrow> u64" where
  "preflight_estimate cfg src =
     (let c_tokens = estimate_tokens src;
          iters = effective_repair_iterations (max_repair_iterations cfg) (length (lines src)) False
      in (c_tokens + 500) + (c_tokens * 2 + c_tokens * 3 div 2) + c_tokens * 4 * ucast iters + c_tokens * 3)"

definition preflight_warns :: "migration_config \<Rightarrow> string \<Rightarrow> bool" where
  "preflight_warns cfg src =
     (case max_tokens_budget cfg of
        None \<Rightarrow> False
      | Some budget \<Rightarrow> budget * 80 div 100 < preflight_estimate cfg src)"

definition initial_state ::
  "('exe, 'g) file_environment \<Rightarrow> (string \<rightharpoonup> string) \<Rightarrow> bool \<Rightarrow> string \<Rightarrow> string \<Rightarrow> file_state" where
  "initial_state env cache writable c_file src =
     (let nm = file_name_stem env c_file
      in save (SavedCSource src)
           (audit (PipelineStart nm c_file (as_u32 (length (lines src))))
             \<lparr>work = (new_unit nm c_file src)\<lparr>unit_state := Extracted\<rparr>, calls_made = 0,
              trail = map_option (\<lambda>l. \<lparr>audit_level_of = l, written = []\<rparr>) (audit_at env), saves = [],
              cache_files = cache, cache_writable = writable\<rparr>))"

definition preprocess_stage ::
  "('exe, 'g) file_environment \<Rightarrow> migration_config \<Rightarrow> string \<Rightarrow> file_state \<Rightarrow> file_state" where
  "preprocess_stage env cfg c_file st =
     (if preprocess cfg then
        (case preprocess_file (pp_env env) c_file default_preprocessor of
           Inr pp \<Rightarrow>
             if was_preprocessed pp
             then update_work (\<lambda>u. u\<lparr>preprocessed_source := Some (pp_source pp)\<rparr>) st else st
         | Inl _ \<Rightarrow> st)
      else st)"

definition debug_difficulty :: "difficulty \<Rightarrow> string" where
  "debug_difficulty d = (case d of Easy \<Rightarrow> ''Easy'' | Medium \<Rightarrow> ''Medium'' | Hard \<Rightarrow> ''Hard'')"

definition classify_stage :: "('exe, 'g) file_environment \<Rightarrow> file_state \<Rightarrow> difficulty \<times> file_state" where
  "classify_stage env st =
     (let u = work st;
          d = classify_difficulty (grammars (bench env)) (unwrap_or (preprocessed_source u) (c_source u))
      in (d, audit (DifficultyClassified (unit_name u) (debug_difficulty d))
               (update_work (\<lambda>u. u\<lparr>unit_difficulty := Some d\<rparr>) st)))"

definition c2rust_stage ::
  "('exe, 'g) file_environment \<Rightarrow> migration_config \<Rightarrow> string \<Rightarrow> file_state \<Rightarrow> file_state" where
  "c2rust_stage env cfg c_file st =
     (if skip_c2rust cfg then st
      else case transpile (c2_tools env) c_file of
        Inl _ \<Rightarrow> st
      | Inr out \<Rightarrow>
          update_work
            (\<lambda>u. u\<lparr>c2rust_output := Some (c2_source out), rust_output := Some (c2_source out), unit_state := C2RustDone\<rparr>)
            (save (SavedC2Rust (c2_source out)) st))"

definition debug_provider :: "provider_kind \<Rightarrow> string" where
  "debug_provider p = (case p of Anthropic \<Rightarrow> ''Anthropic'' | DeepSeek \<Rightarrow> ''DeepSeek'' | Ollama \<Rightarrow> ''Ollama'')"

definition add_tokens :: "u64 \<Rightarrow> u64 \<Rightarrow> migration_metrics \<Rightarrow> migration_metrics" where
  "add_tokens i out m = m\<lparr>input_tokens := input_tokens m + i, output_tokens := output_tokens m + out\<rparr>"

definition budget_stage :: "migration_config \<Rightarrow> file_state \<Rightarrow> (core_error, file_state) result" where
  "budget_stage cfg st =
     bind_result (check_budget (max_tokens_budget cfg) (max_llm_calls cfg) (metrics (work st))) (\<lambda>_. Inr st)"

definition analysis_stage ::
  "('exe, 'g) file_environment \<Rightarrow> migration_config \<Rightarrow> difficulty \<Rightarrow> file_state \<Rightarrow> (analysis_result \<times> file_state) stage" where
  "analysis_stage env cfg d st =
     then_stage (proceed (lift_agent (select_model (providers cfg) d ''analysis''))) (\<lambda>sel.
       let u = work st;
           st1 = update_metrics (\<lambda>m. m\<lparr>metrics_provider := Some (debug_provider (sel_provider sel)),
                                       metrics_model := Some (sel_model sel)\<rparr>) st
       in case analyze_function_with_temperature (client env) (analysis_of_json env) (analysis_preamble env)
                 (sel_model sel) (c_source u) (unit_name u) (analysis_temperature cfg) (calls_made st) of
            (Inl _, n) \<Rightarrow> Inr Fallback
          | (Inr plain, n) \<Rightarrow>
              (let analysis = add_hints env (detect_semantic_patterns (detecting env) (c_source u)) plain;
                   st2 = update_work (\<lambda>u. u\<lparr>unit_state := Analyzed\<rparr>)
                           (save (SavedAnalysis analysis) (st1\<lparr>calls_made := n\<rparr>));
                   st3 = update_metrics
                           (\<lambda>m. add_tokens (estimate_tokens (c_source u)) (estimate_tokens (debug_analysis env analysis))
                                  (count_llm_call (m\<lparr>analysis_ms := clock env 0\<rparr>))) st2
               in then_stage (proceed (budget_stage cfg st3)) (\<lambda>st4.
                    Inr (Proceed (analysis, audit (StateTransition (unit_name u) ''Extracted'' ''Analyzed'') st4)))))"

text \<open>Stage 4.5. The outer option is a panic of the signature reader.\<close>

definition spec_stage ::
  "('exe, 'g) file_environment \<Rightarrow> file_state \<Rightarrow> (function_trace list \<times> file_state) option" where
  "spec_stage env st =
     (if contains (c_source (work st)) ''int main('' then
        (case mine_specs (grammars (bench env)) (spec_env env) (c_source (work st)) of
           None \<Rightarrow> None
         | Some (Inr traces) \<Rightarrow> Some (traces, save (SavedTraces traces) st)
         | Some (Inl _) \<Rightarrow> Some ([], st))
      else Some ([], st))"

section \<open>The translation cache\<close>

definition cache_path :: "('exe, 'g) file_environment \<Rightarrow> string \<Rightarrow> string" where
  "cache_path env src = path_join ''.noricum-cache'' (source_hash env src @ ''.rs'')"

definition cache_get :: "('exe, 'g) file_environment \<Rightarrow> string \<Rightarrow> file_state \<Rightarrow> string option" where
  "cache_get env src st =
     (case cache_files st (cache_path env src) of
        Some text \<Rightarrow> if text \<noteq> [] then Some text else None
      | None \<Rightarrow> None)"

definition cache_put :: "('exe, 'g) file_environment \<Rightarrow> string \<Rightarrow> string \<Rightarrow> file_state \<Rightarrow> file_state" where
  "cache_put env src rust st =
     (if cache_writable st then st\<lparr>cache_files := (cache_files st)(cache_path env src \<mapsto> rust)\<rparr> else st)"

definition cache_stage :: "('exe, 'g) file_environment \<Rightarrow> file_state \<Rightarrow> file_state" where
  "cache_stage env st =
     (case cache_get env (c_source (work st)) st of
        Some rust \<Rightarrow> update_work (\<lambda>u. u\<lparr>rust_output := Some rust, unit_state := Refined\<rparr>) st
      | None \<Rightarrow> st)"

section \<open>Translation\<close>

definition format_semantic_hints :: "semantic_hint list \<Rightarrow> string option" where
  "format_semantic_hints hints =
     (if hints = [] then None
      else Some (''## Semantic Hints'' @ [newline] @ unlines (map to_prompt_line hints) @ [newline]))"

definition hinted_source :: "('exe, 'g) file_environment \<Rightarrow> string \<Rightarrow> string" where
  "hinted_source env src =
     (case format_semantic_hints (detect_semantic_patterns (detecting env) src) of
        Some section_text \<Rightarrow> section_text @ [newline] @ src
      | None \<Rightarrow> src)"

definition chunk_target :: "nat \<Rightarrow> nat" where
  "chunk_target c_lines =
     (if massive_file_loc < c_lines then 600 else if very_large_file_loc < c_lines then 500 else 400)"

definition has_data_model :: "analysis_result \<Rightarrow> bool" where
  "has_data_model analysis =
     list_ex (\<lambda>p. contains p ''struct'' \<or> contains p ''linked_list'' \<or> contains p ''recursive'') (an_patterns analysis)"

definition choose_chunks :: "parsers \<Rightarrow> analysis_result \<Rightarrow> string \<Rightarrow> nat \<Rightarrow> c_chunk list" where
  "choose_chunks ps analysis src target =
     (if has_data_model analysis \<and> 1 < length (chunk_c_source_structural ps src target)
      then chunk_c_source_structural ps src target
      else chunk_c_source ps src target)"

definition translation_task_of ::
  "('exe, 'g) file_environment \<Rightarrow> migration_config \<Rightarrow> string \<Rightarrow> analysis_result \<Rightarrow> file_state \<Rightarrow> translation_task" where
  "translation_task_of env cfg model analysis st =
     \<lparr>tt_client = client env, tt_preamble = translation_preamble env, tt_model = model,
      tt_c2rust = c2rust_output (work st), tt_analysis = analysis,
      tt_patterns = find_relevant (load_seed_patterns (pattern_files env)) (c_source (work st)) 3,
      tt_temperature = translation_temperature cfg\<rparr>"

definition save_chunks :: "chunked_result \<Rightarrow> file_state \<Rightarrow> file_state" where
  "save_chunks r st =
     (let st1 = foldl (\<lambda>s c. save (SavedChunk (chunk_index c) (chunk_rust c)) s) st (chunk_outputs r);
          st2 = (case agreed_signatures r of Some t \<Rightarrow> save (SavedSignatures t) st1 | None \<Rightarrow> st1)
      in case foundation r of Some t \<Rightarrow> save (SavedFoundation t) st2 | None \<Rightarrow> st2)"

text \<open>The first translation: chunk by chunk above 800 lines, in one call otherwise.\<close>

definition first_translation ::
  "('exe, 'g) file_environment \<Rightarrow> translation_task \<Rightarrow> file_state \<Rightarrow> (string \<times> file_state) stage_result" where
  "first_translation env tt st =
     (let src = c_source (work st); hinted = hinted_source env src; c_lines = length (lines src)
      in if medium_file_loc < c_lines then
           (case translate_chunked tt (choose_chunks (grammars (bench env)) (tt_analysis tt) hinted (chunk_target c_lines))
                   (calls_made st) of
              (Inl _, n) \<Rightarrow> Fallback
            | (Inr r, n) \<Rightarrow> Proceed (combined r, save_chunks r (st\<lparr>calls_made := n\<rparr>)))
         else
           (case translate_source tt hinted (tt_c2rust tt) (tt_temperature tt) (calls_made st) of
              (Inl _, n) \<Rightarrow> Fallback
            | (Inr rust, n) \<Rightarrow> Proceed (rust, st\<lparr>calls_made := n\<rparr>)))"

text \<open>P6: a translation that is mostly empty; the quotient is compared as in the validation.\<close>

definition is_stub :: "nat \<Rightarrow> string \<Rightarrow> bool" where
  "is_stub c_lines rust \<longleftrightarrow>
     20 < c_lines \<and> nonblank_line_count rust < c_lines div 4
     \<or> 3 < count_total_functions rust \<and> 3 * count_total_functions rust < 10 * count_empty_functions rust"

text \<open>
  A gate asks for a second translation at temperature 0.5 when the first is bad, and takes it only when
  it is acceptable.
\<close>

definition second_attempt ::
  "translation_task \<Rightarrow> string \<Rightarrow> bool \<Rightarrow> (string \<Rightarrow> bool) \<Rightarrow> string \<times> file_state \<Rightarrow> string \<times> file_state" where
  "second_attempt tt reason bad acceptable translated =
     (let (rust, st) = translated
      in if \<not> bad then (rust, st)
         else
           (let st1 = update_metrics count_llm_call st
            in case translate_source tt (c_source (work st)) (tt_c2rust tt) (Some (5/10)) (calls_made st) of
                 (Inr again, n) \<Rightarrow>
                   if acceptable again then (again, save (SavedRetranslation reason again) (st1\<lparr>calls_made := n\<rparr>))
                   else (rust, st1\<lparr>calls_made := n\<rparr>)
               | (Inl _, n) \<Rightarrow> (rust, st1\<lparr>calls_made := n\<rparr>)))"

definition substance_gate :: "translation_task \<Rightarrow> string \<times> file_state \<Rightarrow> string \<times> file_state" where
  "substance_gate tt translated =
     (let c_lines = nonblank_line_count (c_source (work (snd translated)))
      in second_attempt tt ''stub'' (is_stub c_lines (fst translated)) (\<lambda>again. \<not> is_stub c_lines again) translated)"

definition unsafe_gate ::
  "('exe, 'g) file_environment \<Rightarrow> translation_task \<Rightarrow> string \<times> file_state \<Rightarrow> string \<times> file_state" where
  "unsafe_gate env tt translated =
     (let unsafes = count_unsafe_blocks_ast (bench env) (fst translated)
      in second_attempt tt ''unsafe'' (5 < unsafes) (\<lambda>again. count_unsafe_blocks_ast (bench env) again < unsafes) translated)"

definition record_translation :: "('exe, 'g) file_environment \<Rightarrow> string \<times> file_state \<Rightarrow> file_state" where
  "record_translation env translated =
     (let (rust, st) = translated
      in update_metrics
           (\<lambda>m. add_tokens (estimate_tokens (c_source (work st))) (estimate_tokens rust)
                  (count_llm_call (m\<lparr>translation_ms := clock env 1\<rparr>)))
           (update_work (\<lambda>u. u\<lparr>unit_state := Refined\<rparr>)
             (save (SavedTranslation rust) (update_work (\<lambda>u. u\<lparr>rust_output := Some rust\<rparr>) st))))"

definition translation_stage ::
  "('exe, 'g) file_environment \<Rightarrow> migration_config \<Rightarrow> difficulty \<Rightarrow> analysis_result \<Rightarrow> file_state \<Rightarrow> file_state stage" where
  "translation_stage env cfg d analysis st =
     (if unit_state (work st) = Refined then Inr (Proceed st)
      else
        then_stage (proceed (lift_agent (select_model (providers cfg) d ''translation''))) (\<lambda>sel.
          let tt = translation_task_of env cfg (sel_model sel) analysis st
          in case first_translation env tt st of
               Fallback \<Rightarrow> Inr Fallback
             | Proceed translated \<Rightarrow>
                 proceed (budget_stage cfg
                   (record_translation env (unsafe_gate env tt (substance_gate tt translated))))))"

text \<open>
  P34: completion passes when less than four fifths of the C functions are found in the output. An
  error of the model keeps the translation as it is.
\<close>

definition completion_stage ::
  "('exe, 'g) file_environment \<Rightarrow> migration_config \<Rightarrow> difficulty \<Rightarrow> analysis_result \<Rightarrow> file_state
   \<Rightarrow> (core_error, file_state) result" where
  "completion_stage env cfg d analysis st =
     (case rust_output (work st) of
        None \<Rightarrow> Inr st
      | Some rust \<Rightarrow>
          (let ps = grammars (bench env);
               functions = extract_c_functions ps (c_source (work st));
               missing = find_missing_c_functions ps functions rust
           in if missing = [] \<or> 5 * length missing \<le> length functions then Inr st
              else bind_result (lift_agent (select_model (providers cfg) d ''translation'')) (\<lambda>sel.
                case translate_completion_pass ps (translation_task_of env cfg (sel_model sel) analysis st)
                       (c_source (work st)) rust 400 5 (3/10) (calls_made st) of
                  (Inl _, n) \<Rightarrow> Inr (st\<lparr>calls_made := n\<rparr>)
                | (Inr r, n) \<Rightarrow>
                    Inr (save (SavedTranslation (completed r))
                      (update_metrics (\<lambda>m. m\<lparr>llm_calls := llm_calls m + as_u32 (passes r)\<rparr>)
                        (update_work (\<lambda>u. u\<lparr>rust_output := Some (completed r)\<rparr>) (st\<lparr>calls_made := n\<rparr>)))))))"

section \<open>Modular migration\<close>

text \<open>
  P3: large files that are not in the cache are given to the modular migration, a parameter here. It
  answers with its result, the number of calls of the model it has made and the artifacts it has saved.
\<close>

datatype modular_result = ModularSuccess string migration_metrics bool | FallbackToChunked

type_synonym modular_migration =
  "difficulty \<Rightarrow> analysis_result \<Rightarrow> function_unit \<Rightarrow> nat \<Rightarrow> (core_error, modular_result \<times> nat \<times> artifact_save list) result"

definition add_modular_metrics :: "migration_metrics \<Rightarrow> migration_metrics \<Rightarrow> migration_metrics" where
  "add_modular_metrics mm m =
     m\<lparr>llm_calls := llm_calls m + llm_calls mm, input_tokens := input_tokens m + input_tokens mm,
       output_tokens := output_tokens m + output_tokens mm, translation_ms := translation_ms m + translation_ms mm,
       repair_ms := repair_ms m + repair_ms mm\<rparr>"

definition modular_stage ::
  "modular_migration \<Rightarrow> difficulty \<Rightarrow> analysis_result \<Rightarrow> file_state \<Rightarrow> (core_error, file_state) result" where
  "modular_stage modular d analysis st =
     (if unit_state (work st) \<noteq> Refined \<and> modular_file_loc < length (lines (c_source (work st))) then
        bind_result (modular d analysis (work st) (calls_made st)) (\<lambda>(outcome, n, saved).
          let st1 = st\<lparr>calls_made := n, saves := saves st @ saved\<rparr>
          in case outcome of
               ModularSuccess rust mm all_validated \<Rightarrow>
                 Inr (update_metrics (add_modular_metrics mm)
                       (update_work (\<lambda>u. u\<lparr>rust_output := Some rust, unit_state := Refined\<rparr>) st1))
             | FallbackToChunked \<Rightarrow> Inr st1)
      else Inr st)"

section \<open>Validation and repair\<close>

definition repair_limit :: "migration_config \<Rightarrow> string \<Rightarrow> u32" where
  "repair_limit cfg src =
     (let c_lines = length (lines src)
      in effective_repair_iterations (max_repair_iterations cfg) c_lines (medium_file_loc < c_lines))"

definition validation_stage ::
  "('exe, 'g) file_environment \<Rightarrow> migration_config \<Rightarrow> file_state \<Rightarrow> (core_error, validation_result \<times> file_state) result" where
  "validation_stage env cfg st =
     bind_result (validate_unit (environment.truncate env) (min_idiomatic_score cfg) (work st)) (\<lambda>v.
       let st1 = save (SavedValidation v)
                   (update_work (\<lambda>u. apply_validation_with_max u v (repair_limit cfg (c_source (work st)))) st)
       in Inr (v, audit (ValidationResultEvent (unit_name (work st1)) (compiles v) (vr_idiomatic_score v)
                           (vr_unsafe_count v) (diff_test_passed v) (passed v)) st1))"

text \<open>Stage 6.5: the mined specifications, only reported and fed back to the repair.\<close>

definition spec_feedback :: "spec_validation_result \<Rightarrow> function_unit \<Rightarrow> function_unit" where
  "spec_feedback r u =
     u\<lparr>metrics := (metrics u)\<lparr>spec_count := total_specs r, specs_passed := specs_ok r\<rparr>,
       last_diff_feedback := last_diff_feedback u
         @ (if 0 < specs_failed r then map (\<lambda>f. ''Spec failure: '' @ f) (spec_failures r) else [])\<rparr>"

definition spec_validation_stage ::
  "('exe, 'g) file_environment \<Rightarrow> function_trace list \<Rightarrow> validation_result \<Rightarrow> file_state \<Rightarrow> file_state" where
  "spec_validation_stage env traces v st =
     (case rust_output (work st) of
        None \<Rightarrow> st
      | Some rust \<Rightarrow>
          if traces \<noteq> [] \<and> compiles v then
            (case validate_against_specs (spec_env env) rust traces of
               Inr r \<Rightarrow> update_work (spec_feedback r) st
             | Inl _ \<Rightarrow> st)
          else st)"

text \<open>The repair works on the pipeline state without the cache.\<close>

definition after_repair :: "file_state \<Rightarrow> pipeline \<Rightarrow> file_state" where
  "after_repair st p =
     st\<lparr>work := work p, calls_made := calls_made p, trail := trail p, saves := saves p\<rparr>"

definition run_repair ::
  "nat \<Rightarrow> ('exe, 'g) file_environment \<Rightarrow> migration_config \<Rightarrow> difficulty \<Rightarrow> analysis_result \<Rightarrow> validation_result
   \<Rightarrow> file_state \<Rightarrow> (core_error, file_state) result option" where
  "run_repair fuel env cfg d analysis v st =
     (let src = c_source (work st)
      in map_option (map_sum id (after_repair st))
           (repair_stage fuel (environment.truncate env) cfg d analysis (repair_limit cfg src) (length (lines src)) v
              (pipeline.truncate st)))"

section \<open>After the repair\<close>

definition test_gen_stage ::
  "('exe, 'g) file_environment \<Rightarrow> migration_config \<Rightarrow> difficulty \<Rightarrow> file_state \<Rightarrow> (core_error, file_state) result" where
  "test_gen_stage env cfg d st =
     (let u = work st
      in if unit_state u = Validated \<and> generate_tests cfg then
           bind_result (lift_agent (select_model (providers cfg) d ''test_gen'')) (\<lambda>sel.
             case generate_tests_with_temperature (client env) (sel_model sel) (c_source u)
                    (unwrap_or (rust_output u) []) (unit_name u) (test_gen_temperature cfg) (calls_made st) of
               (Inl _, n) \<Rightarrow> Inr (st\<lparr>calls_made := n\<rparr>)
             | (Inr tests, n) \<Rightarrow>
                 Inr (update_work (\<lambda>u. u\<lparr>generated_tests := Some tests\<rparr>)
                   (update_metrics
                     (\<lambda>m. add_tokens (estimate_tokens (c_source u)) (estimate_tokens tests)
                            (count_llm_call (m\<lparr>test_gen_ms := clock env 2\<rparr>))) (st\<lparr>calls_made := n\<rparr>))))
         else Inr st)"

definition pattern_tag_table :: "(string \<times> string) list" where
  "pattern_tag_table =
     [(''malloc'', ''memory''), (''free'', ''memory''), (''calloc'', ''memory''), (''realloc'', ''memory''),
      (''struct '', ''struct''), (''enum '', ''enum''), (''typedef'', ''typedef''), (''FILE'', ''file_io''),
      (''fopen'', ''file_io''), (''printf'', ''printf''), (''strcmp'', ''string''), (''strcpy'', ''string''),
      (''strlen'', ''string''), (''strdup'', ''string''), (''NULL'', ''null''), (''->'', ''pointer''),
      (''*)'', ''pointer''), (''void*'', ''pointer''), (''for ('', ''loop''), (''while ('', ''loop''),
      (''switch ('', ''switch'')]"

definition derive_pattern_tags :: "string \<Rightarrow> string list" where
  "derive_pattern_tags src = sort_dedup (map snd (filter (\<lambda>(kw, tag). contains src kw) pattern_tag_table))"

text \<open>
  A validated output is cached. The pattern learned from it is added to a store that is loaded for this
  purpose and dropped.
\<close>

definition learned_store :: "('exe, 'g) file_environment \<Rightarrow> function_unit \<Rightarrow> string \<Rightarrow> pattern_store" where
  "learned_store env u rust =
     add_pattern (load_seed_patterns (pattern_files env))
       \<lparr>mp_name = unit_name u, c_pattern = c_source u, rust_pattern = rust,
        mp_tags = derive_pattern_tags (c_source u), usage_count = 0\<rparr>"

definition keep_stage :: "('exe, 'g) file_environment \<Rightarrow> file_state \<Rightarrow> file_state" where
  "keep_stage env st =
     (case rust_output (work st) of
        Some rust \<Rightarrow>
          if unit_state (work st) = Validated
          then (let _ = learned_store env (work st) rust in cache_put env (c_source (work st)) rust st)
          else st
      | None \<Rightarrow> st)"

definition fuzz_feedback :: "fuzz_result \<Rightarrow> function_unit \<Rightarrow> function_unit" where
  "fuzz_feedback r u =
     u\<lparr>metrics := (metrics u)\<lparr>fuzz_test_passed := Some (fuzz_all_passed r), fuzz_divergence_count := failures r\<rparr>,
       last_diff_feedback := last_diff_feedback u
         @ (case first_divergence r of
              Some dv \<Rightarrow>
                if fuzz_all_passed r then []
                else [''Fuzz divergence (input '' @ debug_str (input_label (div_input dv)) @ ''): C=''
                      @ debug_str (div_c_output dv) @ '' Rust='' @ debug_str (div_rust_output dv)]
            | None \<Rightarrow> [])\<rparr>"

definition fuzz_stage :: "('exe, 'g) file_environment \<Rightarrow> migration_config \<Rightarrow> file_state \<Rightarrow> file_state" where
  "fuzz_stage env cfg st =
     (case rust_output (work st) of
        Some rust \<Rightarrow>
          if fuzz_test cfg \<and> unit_state (work st) = Validated then
            (case run_fuzz_test (chain (bench env)) (fuzz_rng env) (fuzz_start env) (clock env 3) (clock env 4)
                    (c_source (work st)) rust
                    (fuzz_config_default\<lparr>iterations := fuzz_iterations cfg, seed_opt := Some 42\<rparr>) of
               Inr r \<Rightarrow> update_work (fuzz_feedback r) st
             | Inl _ \<Rightarrow> st)
          else st
      | None \<Rightarrow> st)"

text \<open>The test outcome recorded in the metrics is that of the first validation, also after a repair.\<close>

definition finalize_metrics :: "u64 \<Rightarrow> validation_result \<Rightarrow> function_unit \<Rightarrow> function_unit" where
  "finalize_metrics elapsed v u =
     u\<lparr>metrics := compute_cost ((metrics u)
         \<lparr>total_ms := elapsed, m_c_lines := as_u32 (length (lines (c_source u))),
          m_rust_lines := (case rust_output u of Some s \<Rightarrow> as_u32 (length (lines s)) | None \<Rightarrow> 0),
          metrics_diff_test_passed := diff_test_passed v\<rparr>)\<rparr>"

definition debug_state :: "migration_state \<Rightarrow> string" where
  "debug_state s =
     (case s of
        Pending \<Rightarrow> ''Pending'' | Extracted \<Rightarrow> ''Extracted'' | Characterized \<Rightarrow> ''Characterized''
      | C2RustDone \<Rightarrow> ''C2RustDone'' | Analyzed \<Rightarrow> ''Analyzed'' | Refined \<Rightarrow> ''Refined''
      | Validated \<Rightarrow> ''Validated'' | Repairing n \<Rightarrow> ''Repairing('' @ show_nat (unat n) @ '')''
      | CompilesUnsafe \<Rightarrow> ''CompilesUnsafe'' | CompilesLowScore \<Rightarrow> ''CompilesLowScore''
      | NearlyCompiles \<Rightarrow> ''NearlyCompiles'' | FallbackUnsafe \<Rightarrow> ''FallbackUnsafe'')"

definition save_option :: "('a \<Rightarrow> artifact_save) \<Rightarrow> 'a option \<Rightarrow> file_state \<Rightarrow> file_state" where
  "save_option mk x st = (case x of Some t \<Rightarrow> save (mk t) st | None \<Rightarrow> st)"

definition finish_stage :: "('exe, 'g) file_environment \<Rightarrow> validation_result \<Rightarrow> file_state \<Rightarrow> file_state" where
  "finish_stage env v st =
     (let st1 = update_work (finalize_metrics (clock env 5) v) st; u = work st1;
          st2 = audit (PipelineComplete (unit_name u) (debug_state (unit_state u)) (total_ms (metrics u))
                         (llm_calls (metrics u))) st1
      in save (SavedManifest u)
           (save_option SavedTests (generated_tests u) (save_option SavedOutput (rust_output u) st2)))"

section \<open>The whole pipeline\<close>

text \<open>From the validation on there is no fallback; \<open>None\<close> when the fuel of the repair is used up.\<close>

definition validated_tail ::
  "nat \<Rightarrow> ('exe, 'g) file_environment \<Rightarrow> migration_config \<Rightarrow> difficulty \<Rightarrow> analysis_result \<Rightarrow> function_trace list
   \<Rightarrow> file_state \<Rightarrow> (core_error, file_state) result option" where
  "validated_tail fuel env cfg d analysis traces st =
     (case validation_stage env cfg st of
        Inl e \<Rightarrow> Some (Inl e)
      | Inr (v, st1) \<Rightarrow>
          map_option
            (\<lambda>r. bind_result r (\<lambda>st2. bind_result (test_gen_stage env cfg d st2) (\<lambda>st3.
               Inr (finish_stage env v (fuzz_stage env cfg (keep_stage env st3))))))
            (run_repair fuel env cfg d analysis v (spec_validation_stage env traces v st1)))"

text \<open>From the cache to the completion of the translation.\<close>

definition translated ::
  "('exe, 'g) file_environment \<Rightarrow> migration_config \<Rightarrow> modular_migration \<Rightarrow> difficulty \<Rightarrow> analysis_result \<Rightarrow> file_state
   \<Rightarrow> file_state stage" where
  "translated env cfg modular d analysis st =
     then_stage (proceed (modular_stage modular d analysis (cache_stage env st))) (\<lambda>st1.
       then_stage (translation_stage env cfg d analysis st1) (\<lambda>st2.
         proceed (completion_stage env cfg d analysis st2)))"

definition migrate_with_client ::
  "nat \<Rightarrow> ('exe, 'g) file_environment \<Rightarrow> migration_config \<Rightarrow> modular_migration \<Rightarrow> string \<Rightarrow> file_state
   \<Rightarrow> file_state stage option" where
  "migrate_with_client fuel env cfg modular c_file st0 =
     (let (d, st1) = classify_stage env (preprocess_stage env cfg c_file st0)
      in case analysis_stage env cfg d (c2rust_stage env cfg c_file st1) of
           Inl e \<Rightarrow> Some (Inl e)
         | Inr Fallback \<Rightarrow> Some (Inr Fallback)
         | Inr (Proceed (analysis, st2)) \<Rightarrow>
             (case spec_stage env st2 of
                None \<Rightarrow> None
              | Some (traces, st3) \<Rightarrow>
                  (case translated env cfg modular d analysis st3 of
                     Inl e \<Rightarrow> Some (Inl e)
                   | Inr Fallback \<Rightarrow> Some (Inr Fallback)
                   | Inr (Proceed st4) \<Rightarrow>
                       map_option proceed (validated_tail fuel env cfg d analysis traces st4))))"

text \<open>
  The migrated unit and the cache afterwards. Without a client, or when the analysis or the translation
  fails, the file is migrated without a model.
\<close>

definition without_model ::
  "nat \<Rightarrow> ('exe, 'g) file_environment \<Rightarrow> (string \<rightharpoonup> string) \<Rightarrow> string
   \<Rightarrow> (core_error, function_unit \<times> (string \<rightharpoonup> string)) result option" where
  "without_model fuel env cache c_file = map_option (map_sum id (\<lambda>u. (u, cache))) (migrate_file_sync fuel env c_file)"

definition migrate_file ::
  "nat \<Rightarrow> ('exe, 'g) file_environment \<Rightarrow> migration_config \<Rightarrow> modular_migration \<Rightarrow> (string \<rightharpoonup> string) \<Rightarrow> bool \<Rightarrow> string
   \<Rightarrow> (core_error, function_unit \<times> (string \<rightharpoonup> string)) result option" where
  "migrate_file fuel env cfg modular cache writable c_file =
     (case read_checked env c_file of
        Inl e \<Rightarrow> Some (Inl e)
      | Inr src \<Rightarrow>
          if \<not> has_client env then without_model fuel env cache c_file
          else (case migrate_with_client fuel env cfg modular c_file (initial_state env cache writable c_file src) of
                  None \<Rightarrow> None
                | Some (Inl e) \<Rightarrow> Some (Inl e)
                | Some (Inr Fallback) \<Rightarrow> without_model fuel env cache c_file
                | Some (Inr (Proceed st)) \<Rightarrow> Some (Inr (work st, cache_files st))))"

end
