(* ===== verification/Type_Contract.thy ===== *)
theory Type_Contract
  imports Sync_Pipeline Assembly Artifacts
begin

text \<open>
  The type contract of a modular migration (\<open>crates/noricum-core/src/type_contract.rs\<close>): the Rust types
  that the modules share are translated once, by a model, from the C definitions and the local headers.
  The answer is cleaned by rules and accepted only when it compiles; after three attempts the migration
  goes on without a contract. Reading headers and the positions of regular expression matches are
  parameters.
\<close>

section \<open>Headers\<close>

text \<open>\<open>Path::join\<close>.\<close>

definition join_dir :: "string \<Rightarrow> string \<Rightarrow> string" where
  "join_dir dir file =
     (if dir = [] \<or> starts_with file ''/'' then file
      else if ends_with dir ''/'' then dir @ file else path_join dir file)"

definition skipped_directives :: "string list" where
  "skipped_directives =
     [''#pragma'', ''#ifndef'', ''#define _'', ''#endif'', ''#include'', ''#ifdef'', ''#else'', ''#if '']"

definition is_type_line :: "string \<Rightarrow> bool" where
  "is_type_line t =
     (list_ex (starts_with t) [''typedef '', ''struct '', ''enum '', ''#define '', ''extern '']
      \<or> contains t ''typedef'' \<and> contains t ''(*)'')"

text \<open>The scan keeps whether it is in a block and the brace depth, which a block may leave negative.\<close>

fun type_lines :: "bool \<Rightarrow> int \<Rightarrow> string list \<Rightarrow> string list" where
  "type_lines in_block depth [] = []"
| "type_lines in_block depth (l # ls) =
     (let t = trim l; depth' = depth + net_braces t
      in if list_ex (starts_with t) skipped_directives then type_lines in_block depth ls
         else if in_block then l # type_lines (0 < depth') depth' ls
         else if is_type_line t then l # type_lines (0 < depth') depth' ls
         else type_lines False depth ls)"

definition extract_type_lines_from_header :: "string \<Rightarrow> string" where
  "extract_type_lines_from_header header = unlines (type_lines False 0 (lines header))"

definition max_header_lines :: nat where "max_header_lines = 1500"

definition local_include :: "string \<Rightarrow> string option" where
  "local_include line =
     (case strip_prefix (trim line) ''#include'' of
        None \<Rightarrow> None
      | Some rest \<Rightarrow>
          (case strip_prefix (trim rest) [quote] of None \<Rightarrow> None | Some r \<Rightarrow> strip_suffix r [quote]))"

definition add_header :: "(string \<Rightarrow> (string, string) result) \<Rightarrow> string \<Rightarrow> string \<Rightarrow> string \<times> nat \<Rightarrow> string \<times> nat" where
  "add_header read dir file acc =
     (case read (join_dir dir file) of
        Inl _ \<Rightarrow> acc
      | Inr body \<Rightarrow>
          (let ts = extract_type_lines_from_header body; k = length (lines ts)
           in if snd acc + k \<le> max_header_lines then
                ((if fst acc \<noteq> [] then fst acc @ [newline, newline] else [])
                 @ ''// === From '' @ file @ '' ==='' @ [newline] @ ts, snd acc + k)
              else acc))"

definition resolve_header_types :: "(string \<Rightarrow> (string, string) result) \<Rightarrow> string \<Rightarrow> string \<Rightarrow> string" where
  "resolve_header_types read shared_context c_path =
     (case parent_dir c_path of
        None \<Rightarrow> []
      | Some dir \<Rightarrow> fst (fold (add_header read dir) (List.map_filter local_include (lines shared_context)) ([], 0)))"

section \<open>The prompt\<close>

definition contract_preamble :: string where
  "contract_preamble =
     ''You are an expert C-to-Rust type translator. ''
     @ ''You translate C type definitions to idiomatic Rust. You output ONLY valid Rust code.''"

definition contract_c_context_max_lines :: nat where "contract_c_context_max_lines = 2000"

definition abbreviate_c_for_context :: "string \<Rightarrow> nat \<Rightarrow> string" where
  "abbreviate_c_for_context c_src max_lines =
     (let ls = lines c_src in if length ls \<le> max_lines then c_src else unlines (take max_lines ls))"

definition arrow :: string where "arrow = '' '' @ [CHR 0xE2, CHR 0x86, CHR 0x92] @ '' ''"

definition contract_rules :: "string list" where
  "contract_rules =
     [''Translate the C type definitions below to Rust. Output ONLY valid, compilable Rust code.'', [],
      ''RULES (follow exactly to ensure compilation):'',
      ''1. Every struct must have ALL fields from the C definition. No empty structs.'',
      ''2. Field types '' @ em_dash @ '' use these EXACT mappings:'',
      ''- void*'' @ arrow @ ''usize (opaque handle, cast later)'',
      ''- char*'' @ arrow @ ''String'',
      ''- T* with length'' @ arrow @ ''Vec<T>'',
      ''- Nullable T*'' @ arrow @ ''Option<Box<T>>'',
      ''- FILE*'' @ arrow @ ''usize (opaque file handle)'',
      ''- Function pointers'' @ arrow @ ''Option<usize> (opaque callback, cast later)'',
      ''- Integer types'' @ arrow @ ''use u8/u16/u32/u64/usize/i32/i64 directly'',
      ''- bool'' @ arrow @ ''bool'',
      ''3. Do NOT use: trait objects (dyn), raw pointers (*mut/*const), type aliases, Box<dyn Any>.'',
      ''4. Do NOT add #[derive(Clone)] on structs that contain usize handles. Use #[derive(Debug)] only.'',
      ''5. Struct names: CamelCase (e.g., MzZipArchive). Field names: snake_case.'',
      ''6. Enum variants: CamelCase. Use #[repr(i32)] if C enum has explicit values.'',
      ''7. Size/offset constants: pub const NAME: usize = value;'',
      ''8. NO impl blocks, NO fn definitions, NO type aliases.'',
      ''9. No markdown fences. No explanations. ONLY Rust code.'', []]"

definition build_type_contract_prompt :: "string \<Rightarrow> string \<Rightarrow> string \<Rightarrow> string" where
  "build_type_contract_prompt shared_context header_types c_abbreviated =
     (let header_section =
            (if header_types = [] then []
             else [newline, newline] @ ''Header type definitions (from #included files '' @ em_dash
                  @ '' these contain the REAL struct/enum definitions):'' @ [newline] @ fenced_block ''c'' header_types)
      in unlines contract_rules @ [newline]
         @ ''C source definitions:'' @ [newline] @ fenced_block ''c'' shared_context
         @ header_section @ [newline]
         @ ''C source (for field usage context):'' @ [newline] @ fence_mark @ ''c'' @ [newline] @ c_abbreviated
         @ [newline] @ fence_mark)"

section \<open>Cleaning an answer\<close>

definition strip_markdown_fences :: "string \<Rightarrow> string" where
  "strip_markdown_fences src = unlines (filter (\<lambda>l. \<not> starts_with (trim l) fence_mark) (lines src))"

text \<open>The lines after a braced block; the test for its end is only made from the second line on.\<close>

fun after_block :: "bool \<Rightarrow> int \<Rightarrow> string list \<Rightarrow> string list" where
  "after_block first depth [] = []"
| "after_block first depth (l # ls) =
     (let depth' = depth + net_braces l in if depth' \<le> 0 \<and> \<not> first then ls else after_block False depth' ls)"

definition skip_braced_block_lines :: "string list \<Rightarrow> string list" where
  "skip_braced_block_lines ls = after_block True 0 ls"

lemma after_block_length: "length (after_block b d ls) \<le> length ls"
proof (induction b d ls rule: after_block.induct)
  case (2 first depth l ls)
  then show ?case by (auto simp: Let_def)
qed simp

lemma skip_block_length: "length (skip_braced_block_lines (l # ls)) \<le> length ls"
  using after_block_length [of False "net_braces l" ls] by (simp add: skip_braced_block_lines_def)

definition is_impl_line :: "string \<Rightarrow> bool" where
  "is_impl_line l = starts_with (trim l) ''impl ''"

definition is_fn_line :: "string \<Rightarrow> bool" where
  "is_fn_line l = ((starts_with (trim l) ''pub fn '' \<or> starts_with (trim l) ''fn '') \<and> CHR ''('' \<in> set (trim l))"

function strip_impl_lines :: "string list \<Rightarrow> string list" where
  "strip_impl_lines [] = []"
| "strip_impl_lines (l # ls) =
     (if is_impl_line l then strip_impl_lines (skip_braced_block_lines (l # ls))
      else if is_fn_line l then
        (if CHR ''{'' \<in> set (trim l) then strip_impl_lines (skip_braced_block_lines (l # ls)) else strip_impl_lines ls)
      else l # strip_impl_lines ls)"
  by pat_completeness auto
termination
  by (relation "measure length") (auto simp: skip_block_length less_Suc_eq_le)

definition strip_impl_blocks :: "string \<Rightarrow> string" where
  "strip_impl_blocks src = unlines (strip_impl_lines (lines src))"

section \<open>Repairs of the answer\<close>

definition multi_trait_pattern :: string where
  "multi_trait_pattern = raw ''(?:Box<|Option<Box<)?dyn%s+[%w:]+(?:%s*%+%s*[%w:]+)+>?>?''"
definition bare_dyn_pattern :: string where "bare_dyn_pattern = raw ''dyn%s+[%w:]+''"
definition raw_ptr_pattern :: string where "raw_ptr_pattern = raw ''%*(?:mut|const)%s+[%w:]+''"

text \<open>The matches of \<open>dyn\<close>, given by their spans, that do not stand behind an angle or a parenthesis.\<close>

fun replace_bare_dyn :: "string \<Rightarrow> nat \<Rightarrow> (nat \<times> nat) list \<Rightarrow> string" where
  "replace_bare_dyn s last_end [] = drop last_end s"
| "replace_bare_dyn s last_end ((a, b) # ms) =
     take (a - last_end) (drop last_end s)
     @ (if 0 < a \<and> (s ! (a - 1) = CHR ''<'' \<or> s ! (a - 1) = CHR ''('') then take (b - a) (drop a s) else ''usize'')
     @ replace_bare_dyn s b ms"

definition fix_pointers :: "regex_engine \<Rightarrow> string \<Rightarrow> string" where
  "fix_pointers re s =
     (if contains s ''*mut '' \<or> contains s ''*const '' then
        re_replace_all re raw_ptr_pattern
          (replace_all (replace_all (replace_all (replace_all s ''*mut std::ffi::c_void'' ''usize'')
             ''*const std::ffi::c_void'' ''usize'') ''*mut c_void'' ''usize'') ''*const c_void'' ''usize'')
          (\<lambda>_. ''usize'')
      else s)"

definition fix_derive :: "string \<Rightarrow> string" where
  "fix_derive s =
     replace_all (replace_all
       (replace_all (replace_all (replace_all s '', Clone'' []) ''Clone, '' []) ''Clone'' ''Debug'')
       ''Debug, Debug'' ''Debug'') ''(Debug, )'' ''(Debug)''"

definition is_type_alias :: "string \<Rightarrow> bool" where
  "is_type_alias t =
     ((starts_with t ''pub type '' \<or> starts_with t ''type '') \<and> CHR ''='' \<in> set t \<and> ends_with t '';'')"

definition fix_contract_line :: "regex_engine \<Rightarrow> (string \<Rightarrow> string \<Rightarrow> (nat \<times> nat) list) \<Rightarrow> string \<Rightarrow> string" where
  "fix_contract_line re find_iter line =
     (let t = trim line
      in if is_type_alias t then ''// P33: stripped alias: '' @ t
         else
           (let s = (if contains line ''dyn '' \<and> contains line '' + ''
                     then re_replace_all re multi_trait_pattern line (\<lambda>_. ''usize'') else line);
                s = (if contains s '': dyn '' \<or> contains s ''(dyn ''
                     then replace_bare_dyn s 0 (find_iter bare_dyn_pattern s) else s);
                s = fix_pointers re s
            in if starts_with t ''#[derive('' \<and> contains s ''Clone'' then fix_derive s else s))"

definition fix_contract_compilation_issues ::
  "regex_engine \<Rightarrow> (string \<Rightarrow> string \<Rightarrow> (nat \<times> nat) list) \<Rightarrow> string \<Rightarrow> string" where
  "fix_contract_compilation_issues re find_iter src =
     concat (map (\<lambda>l. fix_contract_line re find_iter l @ [newline]) (lines src))"

section \<open>Generating the contract\<close>

record contract_tools =
  read_header :: "string \<Rightarrow> (string, string) result"
  find_iter :: "string \<Rightarrow> string \<Rightarrow> (nat \<times> nat) list"

definition clean_contract :: "regex_engine \<Rightarrow> contract_tools \<Rightarrow> string \<Rightarrow> string" where
  "clean_contract re ct answer =
     fix_contract_compilation_issues re (find_iter ct) (strip_impl_blocks (strip_markdown_fences answer))"

definition max_contract_retries :: nat where "max_contract_retries = 3"

definition contract_attempt_prompt :: "string \<Rightarrow> nat \<Rightarrow> string \<Rightarrow> string" where
  "contract_attempt_prompt user_prompt attempt errors =
     (if attempt = 0 then user_prompt
      else user_prompt @ [newline, newline] @ ''PREVIOUS ATTEMPT FAILED TO COMPILE. Fix these errors:'' @ [newline]
           @ errors @ [newline, newline] @ ''Output ONLY corrected Rust code.'')"

text \<open>The check of one cleaned answer: the accepted contract, or the errors to report next time, if any.\<close>

datatype contract_check = Accepted string | Refused "string option"

definition check_contract :: "'exe environment \<Rightarrow> string \<Rightarrow> contract_check" where
  "check_contract env contract =
     (if is_blank contract then Refused None
      else case check_rust_compiles (bench env) contract of
        Inl _ \<Rightarrow> Refused None
      | Inr r \<Rightarrow>
          if success r then Accepted contract
          else
            (let fixed = apply_all_rules (regexes env) contract (parse_rustc_errors (regexes env) (cr_stderr r))
             in if fixed \<noteq> contract
                   \<and> (case check_rust_compiles (bench env) fixed of Inr r2 \<Rightarrow> success r2 | Inl _ \<Rightarrow> False)
                then Accepted fixed else Refused (Some (cr_stderr r))))"

fun contract_loop ::
  "'exe environment \<Rightarrow> contract_tools \<Rightarrow> string \<Rightarrow> string \<Rightarrow> nat list \<Rightarrow> string \<Rightarrow> nat \<Rightarrow> string option \<times> nat" where
  "contract_loop env ct model user_prompt [] errors n = (None, n)"
| "contract_loop env ct model user_prompt (attempt # rest) errors n =
     (case client env n \<lparr>pr_model = model, pr_preamble = contract_preamble, pr_temperature = 2/10,
                         pr_max_tokens = 16384, pr_message = contract_attempt_prompt user_prompt attempt errors\<rparr> of
        Inl _ \<Rightarrow> contract_loop env ct model user_prompt rest errors (n + 1)
      | Inr answer \<Rightarrow>
          (case check_contract env (clean_contract (regexes env) ct answer) of
             Accepted c \<Rightarrow> (Some c, n + 1)
           | Refused e \<Rightarrow> contract_loop env ct model user_prompt rest (unwrap_or e errors) (n + 1)))"

text \<open>The contract, the number of calls made so far and the artifact.\<close>

definition generate_type_contract ::
  "'exe environment \<Rightarrow> contract_tools \<Rightarrow> provider_config \<Rightarrow> string \<Rightarrow> string \<Rightarrow> string option \<Rightarrow> nat
   \<Rightarrow> (core_error, string option \<times> nat \<times> artifact_save list) result" where
  "generate_type_contract env ct pc shared_context c_src c_path n =
     (if is_blank shared_context then Inr (None, n, [])
      else
        (let headers = (case c_path of
                          Some p \<Rightarrow> resolve_header_types (read_header ct) shared_context p | None \<Rightarrow> [])
         in case select_model pc Easy ''type_contract'' of
              Inl e \<Rightarrow> Inl (Orchestration (''P33 model selection: '' @ show_agent_error e))
            | Inr sel \<Rightarrow>
                (let (contract, n') =
                   contract_loop env ct (sel_model sel)
                     (build_type_contract_prompt shared_context headers
                        (abbreviate_c_for_context c_src contract_c_context_max_lines))
                     [0..<max_contract_retries] [] n
                 in Inr (contract, n', case contract of Some c \<Rightarrow> [SavedContract c] | None \<Rightarrow> []))))"

section \<open>Facts about the cleaning\<close>

lemma after_block_subseq: "subseq (after_block b d ls) ls"
  by (induction b d ls rule: after_block.induct) (auto simp: Let_def intro: subseq_order.order_trans)

lemma strip_impl_subseq: "subseq (strip_impl_lines ls) ls"
proof (induction ls rule: strip_impl_lines.induct)
  case (2 l ls)
  have "subseq (skip_braced_block_lines (l # ls)) (l # ls)"
    unfolding skip_braced_block_lines_def by (rule after_block_subseq)
  with 2 show ?case by (auto intro: subseq_order.order_trans)
qed simp

lemma strip_impl_no_blocks: "l \<in> set (strip_impl_lines ls) \<Longrightarrow> \<not> is_impl_line l \<and> \<not> is_fn_line l"
  by (induction ls rule: strip_impl_lines.induct) (auto split: if_splits)

text \<open>Reading joined lines back only drops line ends.\<close>

lemma lines_unlines_trim:
  "\<forall>l \<in> set ls. newline \<notin> set l \<Longrightarrow> m \<in> set (lines (unlines ls)) \<Longrightarrow> \<exists>l \<in> set ls. trim m = trim l"
proof (induction ls)
  case (Cons x xs)
  show ?case
  proof (cases "xs = []")
    case True
    with Cons.prems show ?thesis by (cases "x = []") (auto simp: lines_no_newline)
  next
    case False
    then have "lines (unlines (x # xs)) = strip_cr x # lines (unlines xs)"
      using Cons.prems(1) by (simp add: join_Cons lines_append_newline)
    with Cons show ?thesis by (auto simp: trim_strip_cr)
  qed
qed simp

lemma strip_impl_blocks_clean:
  assumes "l \<in> set (lines (strip_impl_blocks src))"
  shows "\<not> is_impl_line l \<and> \<not> is_fn_line l"
proof -
  have "\<forall>k \<in> set (strip_impl_lines (lines src)). newline \<notin> set k"
    using list_emb_set [OF strip_impl_subseq] lines_no_newline_in by metis
  from lines_unlines_trim [OF this assms [unfolded strip_impl_blocks_def]]
  obtain k where "k \<in> set (strip_impl_lines (lines src))" "trim l = trim k" by blast
  with strip_impl_no_blocks show ?thesis by (metis is_impl_line_def is_fn_line_def)
qed

lemma strip_markdown_fences_clean:
  assumes "l \<in> set (lines (strip_markdown_fences src))"
  shows "\<not> starts_with (trim l) fence_mark"
proof -
  have "\<forall>k \<in> set (filter (\<lambda>l. \<not> starts_with (trim l) fence_mark) (lines src)). newline \<notin> set k"
    by (auto dest: lines_no_newline_in)
  from lines_unlines_trim [OF this assms [unfolded strip_markdown_fences_def]] show ?thesis by auto
qed

text \<open>A block that is opened and closed on one line takes the following item with it.\<close>

lemma one_line_block_swallows_next:
  "strip_impl_lines [''impl A {}'', ''struct S {'', ''  a: u8,'', ''}'', ''const N: usize = 1;'']
   = [''const N: usize = 1;'']"
  by code_simp

text \<open>A function whose body opens on the next line loses only its signature.\<close>

lemma body_on_next_line_stays:
  "strip_impl_lines [''fn f()'', ''{'', ''}''] = [''{'', ''}'']"
  by code_simp

section \<open>Facts about the contract\<close>

lemma check_contract_Accepted:
  "check_contract env c = Accepted c' \<Longrightarrow> \<exists>r. check_rust_compiles (bench env) c' = Inr r \<and> success r"
  by (auto simp: check_contract_def Let_def split: if_splits sum.splits)

lemma contract_loop_sound:
  "contract_loop env ct model p as errs n = (res, n') \<Longrightarrow>
   n \<le> n' \<and> n' \<le> n + length as
   \<and> (\<forall>c. res = Some c \<longrightarrow> n < n' \<and> (\<exists>r. check_rust_compiles (bench env) c = Inr r \<and> success r))"
proof (induction as arbitrary: errs n)
  case (Cons a as)
  then show ?case
    by (force split: sum.splits contract_check.splits dest: check_contract_Accepted)
qed simp

lemma generate_type_contract_sound:
  assumes "generate_type_contract env ct pc ctx src path n = Inr (res, n', saved)"
  shows "n \<le> n' \<and> n' \<le> n + 3 \<and> saved = (case res of Some c \<Rightarrow> [SavedContract c] | None \<Rightarrow> [])
    \<and> (\<forall>c. res = Some c \<longrightarrow> \<not> is_blank ctx \<and> (\<exists>r. check_rust_compiles (bench env) c = Inr r \<and> success r))"
  using assms
  by (auto simp: generate_type_contract_def Let_def max_contract_retries_def split: if_splits sum.splits prod.splits
      dest!: contract_loop_sound)

lemma generate_type_contract_total: "\<exists>x. generate_type_contract env ct pc ctx src path n = Inr x"
  by (auto simp: generate_type_contract_def Let_def select_model_def split: prod.splits)

end
