(* ===== verification/Crate_Builder.thy ===== *)
theory Crate_Builder
  imports Artifacts Validation
begin

text \<open>
  The crate of a modular migration (\<open>crates/noricum-tools/src/crate_builder.rs\<close> and
  \<open>check_crate_compiles\<close> of \<open>compiler.rs\<close>): the files of the crate on the disk of \<open>Artifacts\<close>, the names
  of modules made into identifiers, the module list and the assembly back into one text. A path that
  cannot be created refuses the write. Cargo is a parameter.
\<close>

section \<open>Names\<close>

definition rust_keywords :: "string list" where
  "rust_keywords =
     [''as'', ''async'', ''await'', ''break'', ''const'', ''continue'', ''crate'', ''dyn'', ''else'', ''enum'', ''extern'',
      ''false'', ''fn'', ''for'', ''if'', ''impl'', ''in'', ''let'', ''loop'', ''match'', ''mod'', ''move'', ''mut'', ''pub'',
      ''ref'', ''return'', ''self'', ''Self'', ''static'', ''struct'', ''super'', ''trait'', ''true'', ''type'',
      ''unsafe'', ''use'', ''where'', ''while'', ''yield'']"

definition first_is_digit :: "string \<Rightarrow> bool" where
  "first_is_digit s = (case s of [] \<Rightarrow> False | c # _ \<Rightarrow> is_digit c)"

definition sanitize_crate_name :: "string \<Rightarrow> string" where
  "sanitize_crate_name nm =
     (let r = map (\<lambda>c. if is_word_char c \<or> c = CHR ''-'' then lower_char c else CHR ''_'') nm;
          r = (if first_is_digit r then ''crate_'' @ r else r)
      in if r = [] then ''output'' else r)"

definition sanitize_module_name :: "string \<Rightarrow> string" where
  "sanitize_module_name nm =
     (let r = map (\<lambda>c. if is_word_char c then lower_char c else CHR ''_'') nm;
          r = (if first_is_digit r then ''mod_'' @ r else r)
      in if r = [] then ''unnamed'' else r)"

section \<open>The builder\<close>

record crate_builder =
  cb_dir :: string
  cb_name :: string
  cb_modules :: "string list"
  cb_has_types :: bool

definition write_file :: "string \<Rightarrow> string \<Rightarrow> disk \<Rightarrow> (tool_error, disk) result" where
  "write_file path text d =
     (case write_fault d path of
        Some e \<Rightarrow> Inl (Io e)
      | None \<Rightarrow> Inr (d\<lparr>files := (files d)(path \<mapsto> text)\<rparr>))"

definition read_file :: "string \<Rightarrow> disk \<Rightarrow> (tool_error, string) result" where
  "read_file path d = ok_or (files d path) (Io ''not found'')"

definition new_builder :: "string \<Rightarrow> string \<Rightarrow> disk \<Rightarrow> (tool_error, crate_builder) result" where
  "new_builder dir nm d =
     (case write_fault d (path_join dir ''src'') of
        Some e \<Rightarrow> Inl (Io e)
      | None \<Rightarrow> Inr \<lparr>cb_dir = dir, cb_name = sanitize_crate_name nm, cb_modules = [], cb_has_types = False\<rparr>)"

definition types_file :: "crate_builder \<Rightarrow> string" where
  "types_file b = path_join (cb_dir b) ''src/types.rs''"

definition lib_file :: "crate_builder \<Rightarrow> string" where
  "lib_file b = path_join (cb_dir b) ''src/lib.rs''"

definition cargo_toml_path :: "crate_builder \<Rightarrow> string" where
  "cargo_toml_path b = path_join (cb_dir b) ''Cargo.toml''"

definition module_file :: "crate_builder \<Rightarrow> string \<Rightarrow> string" where
  "module_file b nm = path_join (cb_dir b) (''src/'' @ sanitize_module_name nm @ ''.rs'')"

definition write_types :: "crate_builder \<Rightarrow> string \<Rightarrow> disk \<Rightarrow> (tool_error, crate_builder \<times> disk) result" where
  "write_types b contract d =
     bind_result (write_file (types_file b) contract d) (\<lambda>d'. Inr (b\<lparr>cb_has_types := True\<rparr>, d'))"

definition module_prelude :: string where
  "module_prelude = ''#![allow(unused_imports)]'' @ [newline] @ ''use crate::types::*;'' @ [newline, newline]"

definition module_content :: "crate_builder \<Rightarrow> string \<Rightarrow> string" where
  "module_content b src = (if cb_has_types b then module_prelude @ src else src)"

definition note_module :: "string \<Rightarrow> crate_builder \<Rightarrow> crate_builder" where
  "note_module safe b = (if safe \<in> set (cb_modules b) then b else b\<lparr>cb_modules := cb_modules b @ [safe]\<rparr>)"

definition write_module ::
  "crate_builder \<Rightarrow> string \<Rightarrow> string \<Rightarrow> disk \<Rightarrow> (tool_error, crate_builder \<times> disk) result" where
  "write_module b nm src d =
     bind_result (write_file (module_file b nm) (module_content b src) d)
       (\<lambda>d'. Inr (note_module (sanitize_module_name nm) b, d'))"

definition read_module :: "crate_builder \<Rightarrow> string \<Rightarrow> disk \<Rightarrow> (tool_error, string) result" where
  "read_module b nm d = read_file (module_file b nm) d"

definition module_declaration :: "string \<Rightarrow> string" where
  "module_declaration m = ''pub mod '' @ (if m \<in> set rust_keywords then ''r#'' else []) @ m @ '';'' @ [newline]"

definition lib_content :: "crate_builder \<Rightarrow> string" where
  "lib_content b =
     (if cb_has_types b then ''pub mod types;'' @ [newline] else []) @ concat (map module_declaration (cb_modules b))"

definition write_lib_rs :: "crate_builder \<Rightarrow> disk \<Rightarrow> (tool_error, disk) result" where
  "write_lib_rs b d = write_file (lib_file b) (lib_content b) d"

definition toml_entry :: "string \<Rightarrow> string \<Rightarrow> string" where
  "toml_entry key v = key @ '' = '' @ [quote] @ v @ [quote]"

definition cargo_toml :: "string \<Rightarrow> string" where
  "cargo_toml nm =
     unlines [''[package]'', toml_entry ''name'' nm, toml_entry ''version'' ''0.1.0'', toml_entry ''edition'' ''2024'', [],
              ''[lib]'', toml_entry ''name'' nm, toml_entry ''path'' ''src/lib.rs'', [],
              ''[[bin]]'', toml_entry ''name'' nm, toml_entry ''path'' ''src/main.rs'',
              ''required-features = ['' @ [quote] @ ''bin'' @ [quote] @ '']'', [],
              ''[features]'', ''bin = []''] @ [newline]"

definition write_cargo_toml :: "crate_builder \<Rightarrow> disk \<Rightarrow> (tool_error, disk) result" where
  "write_cargo_toml b d = write_file (cargo_toml_path b) (cargo_toml (cb_name b)) d"

definition write_main :: "crate_builder \<Rightarrow> string \<Rightarrow> disk \<Rightarrow> (tool_error, disk) result" where
  "write_main b main_src d =
     write_file (path_join (cb_dir b) ''src/main.rs'')
       ((if cb_has_types b then ''use crate::types::*;'' @ [newline] else [])
        @ concat (map (\<lambda>m. ''use '' @ cb_name b @ ''::'' @ m @ ''::*;'' @ [newline]) (cb_modules b))
        @ [newline] @ main_src) d"

section \<open>Assembling the crate\<close>

definition is_crate_line :: "string \<Rightarrow> bool" where
  "is_crate_line l = (starts_with (trim l) ''use crate::types::'' \<or> trim l = ''#![allow(unused_imports)]'')"

definition flat_module :: "string \<Rightarrow> string \<Rightarrow> string" where
  "flat_module m src =
     ''// --- Module: '' @ m @ '' ---'' @ [newline]
     @ unlines (filter (\<lambda>l. \<not> is_crate_line l) (lines src)) @ [newline, newline]"

fun assemble_modules :: "crate_builder \<Rightarrow> disk \<Rightarrow> string list \<Rightarrow> (tool_error, string) result" where
  "assemble_modules b d [] = Inr []"
| "assemble_modules b d (m # ms) =
     bind_result (read_module b m d) (\<lambda>src.
     bind_result (assemble_modules b d ms) (\<lambda>rest. Inr (flat_module m src @ rest)))"

definition assemble_all :: "crate_builder \<Rightarrow> disk \<Rightarrow> (tool_error, string) result" where
  "assemble_all b d =
     bind_result (if cb_has_types b
                  then bind_result (read_file (types_file b) d) (\<lambda>t. Inr (t @ [newline, newline])) else Inr [])
       (\<lambda>types. bind_result (assemble_modules b d (cb_modules b)) (\<lambda>rest. Inr (types @ rest)))"

section \<open>Cargo\<close>

text \<open>\<open>cargo\<close> runs the check on the files of a directory: \<open>None\<close> when the command is not found.\<close>

definition check_crate_compiles ::
  "(string \<Rightarrow> disk \<Rightarrow> compile_result option) \<Rightarrow> string \<Rightarrow> disk \<Rightarrow> (tool_error, compile_result) result" where
  "check_crate_compiles cargo dir d =
     (let toml = path_join dir ''Cargo.toml''
      in if files d toml = None then Inl (CompilationFailed (''Cargo.toml not found at '' @ toml))
         else ok_or (cargo dir d) (CommandNotFound ''cargo''))"

definition check_module_compiles ::
  "(string \<Rightarrow> disk \<Rightarrow> compile_result option) \<Rightarrow> string \<Rightarrow> string \<Rightarrow> disk \<Rightarrow> (tool_error, compile_result) result" where
  "check_module_compiles cargo dir nm d =
     bind_result (check_crate_compiles cargo dir d) (\<lambda>r.
       if success r then Inr r
       else
         (let filtered = unlines (filter (\<lambda>l. contains l (''src/'' @ nm @ ''.rs'') \<or> starts_with l ''error''
                                              \<or> starts_with l ''warning'') (lines (cr_stderr r)))
          in Inr (r\<lparr>cr_stderr := (if filtered = [] then cr_stderr r else filtered)\<rparr>)))"

section \<open>Facts about names\<close>

lemma lower_char_cases: "is_uppercase c \<Longrightarrow> is_lowercase (lower_char c)"
  by (simp add: lower_char_def is_uppercase_def is_lowercase_def Let_def of_char_of take_bit_nat_eq_self)

definition module_char :: "char \<Rightarrow> bool" where
  "module_char c = (is_digit c \<or> is_lowercase c \<or> c = CHR ''_'')"

lemma module_char_safe: "module_char (if is_word_char c then lower_char c else CHR ''_'')"
  using lower_char_cases [of c]
  by (auto simp: module_char_def is_word_char_def is_alphanumeric_def lower_char_def)

lemma lower_module_char: "module_char c \<Longrightarrow> is_word_char c \<and> lower_char c = c"
  by (auto simp: module_char_def is_word_char_def is_alphanumeric_def lower_char_def is_digit_def is_lowercase_def
      is_uppercase_def Let_def)

lemma name_chars:
  "module_char (CHR ''m'')" "module_char (CHR ''o'')" "module_char (CHR ''d'')" "module_char (CHR ''_'')"
  "module_char (CHR ''u'')" "module_char (CHR ''n'')" "module_char (CHR ''a'')" "module_char (CHR ''e'')"
  "\<not> is_digit (CHR ''m'')" "\<not> is_digit (CHR ''u'')"
  by code_simp+

lemma first_is_digit_Cons [simp]: "first_is_digit (c # s) = is_digit c"
  by (simp add: first_is_digit_def)

text \<open>A module name consists of lower case letters, digits and underscores and starts with no digit.\<close>

lemma sanitize_module_valid:
  "sanitize_module_name nm \<noteq> [] \<and> list_all module_char (sanitize_module_name nm)
   \<and> \<not> first_is_digit (sanitize_module_name nm)"
proof -
  have "list_all module_char (map (\<lambda>c. if is_word_char c then lower_char c else CHR ''_'') nm)"
    unfolding list_all_iff set_map using module_char_safe by blast
  then show ?thesis by (simp add: sanitize_module_name_def Let_def name_chars)
qed

lemma sanitize_module_fixed:
  assumes "s \<noteq> []" "list_all module_char s" "\<not> first_is_digit s"
  shows "sanitize_module_name s = s"
proof -
  have "map (\<lambda>c. if is_word_char c then lower_char c else CHR ''_'') s = s"
    using assms(2) lower_module_char by (auto simp: list_all_iff intro: map_idI)
  with assms show ?thesis by (simp add: sanitize_module_name_def)
qed

lemma sanitize_module_idem [simp]: "sanitize_module_name (sanitize_module_name nm) = sanitize_module_name nm"
  using sanitize_module_valid sanitize_module_fixed by blast

lemma module_file_sanitized [simp]: "module_file b (sanitize_module_name nm) = module_file b nm"
  by (simp add: module_file_def)

lemma module_file_eq: "module_file b nm = module_file b nm' \<longleftrightarrow> sanitize_module_name nm = sanitize_module_name nm'"
  by (simp add: module_file_def path_join_def)

abbreviation file_name :: "string \<times> string \<Rightarrow> string" where
  "file_name m \<equiv> sanitize_module_name (fst m)"

lemma module_file_image: "module_file b n \<in> module_file b ` fst ` S \<longleftrightarrow> sanitize_module_name n \<in> file_name ` S"
  by (force simp: module_file_eq image_iff)

text \<open>Different module names may share a file, and a module may take the name of a file of the crate.\<close>

lemma modules_share_file: "module_file b ''A.b'' = module_file b ''a_b''"
  by (simp add: module_file_eq) code_simp

lemma module_takes_crate_file: "module_file b ''types'' = types_file b" "module_file b ''Lib'' = lib_file b"
proof -
  have "sanitize_module_name ''types'' = ''types''" "sanitize_module_name ''Lib'' = ''lib''" by code_simp+
  then show "module_file b ''types'' = types_file b" "module_file b ''Lib'' = lib_file b"
    by (simp_all add: module_file_def types_file_def lib_file_def)
qed

text \<open>Crate names keep hyphens, which Cargo refuses for a library and Rust in a path.\<close>

lemma crate_name_keeps_hyphen: "sanitize_crate_name ''my-prog'' = ''my-prog''"
  by code_simp

section \<open>Facts about the files\<close>

lemma write_file_Inr: "write_file p t d = Inr d' \<longleftrightarrow> write_fault d p = None \<and> d' = d\<lparr>files := (files d)(p \<mapsto> t)\<rparr>"
  by (auto simp: write_file_def split: option.splits)

lemma write_module_Inr:
  "write_module b nm src d = Inr (b', d') \<longleftrightarrow>
   write_file (module_file b nm) (module_content b src) d = Inr d' \<and> b' = note_module (sanitize_module_name nm) b"
  by (auto simp: write_module_def bind_result_Inr_iff)

lemma note_module_fields [simp]:
  "cb_dir (note_module m b) = cb_dir b" "cb_name (note_module m b) = cb_name b"
  "cb_has_types (note_module m b) = cb_has_types b"
  "set (cb_modules (note_module m b)) = insert m (set (cb_modules b))"
  by (auto simp: note_module_def)

lemma note_module_paths [simp]:
  "module_file (note_module m b) = module_file b" "module_content (note_module m b) = module_content b"
  "types_file (note_module m b) = types_file b" "lib_file (note_module m b) = lib_file b"
  by (simp_all add: fun_eq_iff module_file_def module_content_def types_file_def lib_file_def)

text \<open>The invariant: every module is listed once, under the name of its file.\<close>

definition modules_listed :: "crate_builder \<Rightarrow> bool" where
  "modules_listed b = (distinct (cb_modules b) \<and> list_all (\<lambda>m. sanitize_module_name m = m) (cb_modules b))"

lemma write_module_listed: "write_module b nm src d = Inr (b', d') \<Longrightarrow> modules_listed b \<Longrightarrow> modules_listed b'"
  by (auto simp: write_module_Inr note_module_def modules_listed_def list_all_iff)

text \<open>A module that was written is read back with the preamble of the crate.\<close>

lemma read_written_module:
  "write_module b nm src d = Inr (b', d') \<Longrightarrow> read_module b' nm d' = Inr (module_content b src)"
  by (auto simp: write_module_Inr read_module_def read_file_def write_file_Inr ok_or_def)

fun write_modules ::
  "crate_builder \<Rightarrow> disk \<Rightarrow> (string \<times> string) list \<Rightarrow> (tool_error, crate_builder \<times> disk) result" where
  "write_modules b d [] = Inr (b, d)"
| "write_modules b d ((nm, src) # ms) = bind_result (write_module b nm src d) (\<lambda>(b', d'). write_modules b' d' ms)"

lemma write_modules_spec:
  assumes "write_modules b d ms = Inr (b', d')" and "distinct (map file_name ms)"
    and "set (cb_modules b) \<inter> file_name ` set ms = {}"
  shows "b' = b\<lparr>cb_modules := cb_modules b @ map file_name ms\<rparr>
    \<and> (\<forall>m \<in> set ms. files d' (module_file b (fst m)) = Some (module_content b (snd m)))
    \<and> (\<forall>p. p \<notin> module_file b ` fst ` set ms \<longrightarrow> files d' p = files d p)"
  using assms
proof (induction ms arbitrary: b d)
  case (Cons m ms)
  obtain nm src where m: "m = (nm, src)" by (cases m)
  from Cons.prems(1) obtain b1 d1 where
    w: "write_module b nm src d = Inr (b1, d1)" and r: "write_modules b1 d1 ms = Inr (b', d')"
    by (auto simp: m bind_result_Inr_iff)
  from w have d1: "d1 = d\<lparr>files := (files d)(module_file b nm \<mapsto> module_content b src)\<rparr>"
    and b1: "b1 = note_module (sanitize_module_name nm) b"
    by (auto simp: write_module_Inr write_file_Inr)
  have new: "sanitize_module_name nm \<notin> set (cb_modules b)" using Cons.prems(3) by (auto simp: m)
  then have b1': "b1 = b\<lparr>cb_modules := cb_modules b @ [sanitize_module_name nm]\<rparr>"
    by (simp add: b1 note_module_def)
  have "set (cb_modules b1) \<inter> file_name ` set ms = {}"
    using Cons.prems(2,3) by (auto simp: m b1)
  from Cons.IH [OF r _ this] Cons.prems(2)
  have ih: "b' = b1\<lparr>cb_modules := cb_modules b1 @ map file_name ms\<rparr>"
    "\<forall>m \<in> set ms. files d' (module_file b (fst m)) = Some (module_content b (snd m))"
    "\<forall>p. p \<notin> module_file b ` fst ` set ms \<longrightarrow> files d' p = files d1 p"
    by (auto simp: m b1)
  have "module_file b nm \<notin> module_file b ` fst ` set ms"
    using Cons.prems(2) by (simp add: m module_file_image del: image_image)
  with ih(3) have "files d' (module_file b nm) = Some (module_content b src)" by (simp add: d1)
  with ih show ?case by (auto simp: m b1' d1)
qed simp

lemma assemble_modules_written:
  assumes "\<forall>m \<in> set ms. files d (module_file b (fst m)) = Some (f m)"
  shows "assemble_modules b d (map file_name ms) = Inr (concat (map (\<lambda>m. flat_module (file_name m) (f m)) ms))"
  using assms by (induction ms) (auto simp: read_module_def read_file_def ok_or_def)

definition start_crate ::
  "string \<Rightarrow> string \<Rightarrow> string option \<Rightarrow> disk \<Rightarrow> (tool_error, crate_builder \<times> disk) result" where
  "start_crate dir nm contract d =
     bind_result (new_builder dir nm d) (\<lambda>b.
     bind_result (case contract of None \<Rightarrow> Inr (b, d) | Some c \<Rightarrow> write_types b c d) (\<lambda>(b1, d1).
     bind_result (write_cargo_toml b1 d1) (\<lambda>d2. Inr (b1, d2))))"

lemma crate_files_differ:
  "types_file b \<noteq> cargo_toml_path b" "types_file b \<noteq> lib_file b" "cargo_toml_path b \<noteq> lib_file b"
  by (simp_all add: types_file_def cargo_toml_path_def lib_file_def path_join_def)

lemma start_crate_spec:
  assumes "start_crate dir nm contract d = Inr (b, d')"
  shows "b = \<lparr>cb_dir = dir, cb_name = sanitize_crate_name nm, cb_modules = [], cb_has_types = (contract \<noteq> None)\<rparr>
    \<and> (\<forall>c. contract = Some c \<longrightarrow> files d' (types_file b) = Some c)"
  using assms crate_files_differ(1) [of b]
  by (auto simp: start_crate_def new_builder_def write_types_def write_cargo_toml_def bind_result_Inr_iff write_file_Inr
      types_file_def cargo_toml_path_def split: option.splits)

lemma crate_files_kept:
  assumes "{''types'', ''lib''} \<inter> file_name ` set ms = {}"
  shows "types_file b \<notin> module_file b ` fst ` set ms" "lib_file b \<notin> module_file b ` fst ` set ms"
proof -
  have fixed: "sanitize_module_name ''types'' = ''types''" "sanitize_module_name ''lib'' = ''lib''" by code_simp+
  have "types_file b = module_file b ''types''" "lib_file b = module_file b ''lib''"
    by (simp_all add: module_file_def types_file_def lib_file_def fixed)
  with assms show "types_file b \<notin> module_file b ` fst ` set ms" "lib_file b \<notin> module_file b ` fst ` set ms"
    by (simp_all add: module_file_image fixed)
qed

lemma crate_line_prelude: "is_crate_line ''#![allow(unused_imports)]''" "is_crate_line ''use crate::types::*;''"
  "\<not> is_crate_line []" "newline \<notin> set ''#![allow(unused_imports)]''" "newline \<notin> set ''use crate::types::*;''"
  "strip_cr ''#![allow(unused_imports)]'' = ''#![allow(unused_imports)]''"
  "strip_cr ''use crate::types::*;'' = ''use crate::types::*;''" "strip_cr [] = []"
  by code_simp+

lemma module_content_lines:
  "filter (\<lambda>l. \<not> is_crate_line l) (lines (module_content b src))
   = (if cb_has_types b then [[]] else []) @ filter (\<lambda>l. \<not> is_crate_line l) (lines src)"
proof -
  define a u where "a = ''#![allow(unused_imports)]''" and "u = ''use crate::types::*;''"
  note facts = crate_line_prelude [folded a_def u_def]
  have "lines (newline # src) = [] # lines src" using lines_append_newline [of "[]" src] by (simp add: facts)
  then have "lines (a @ newline # (u @ newline # newline # src)) = [a, u, []] @ lines src"
    by (simp add: lines_append_newline facts)
  then show ?thesis by (simp add: module_content_def module_prelude_def facts flip: a_def u_def)
qed

section \<open>The crate as a whole\<close>

text \<open>
  C25: The crate of a migration holds its modules. Let a crate be started with an optional type contract, the
  modules be written to it and the library file at the end, without an error; let the names of the modules
  give different file names, none of them that of the contract or of the library file. Then the library file
  declares the contract and every module once, in order, and assembling the crate returns the contract and
  every module source in order under its header, without the import lines of a crate.
\<close>

theorem crate_roundtrip:
  assumes "start_crate dir nm contract d0 = Inr (b0, d1)"
    and "write_modules b0 d1 ms = Inr (b, d2)"
    and "distinct (map (\<lambda>m. sanitize_module_name (fst m)) ms)"
    and "{''types'', ''lib''} \<inter> (\<lambda>m. sanitize_module_name (fst m)) ` set ms = {}"
    and "write_lib_rs b d2 = Inr d3"
  shows "assemble_all b d3 =
           Inr ((case contract of None \<Rightarrow> [] | Some c \<Rightarrow> c @ [newline, newline])
             @ concat (map (\<lambda>(m, src).
                 ''// --- Module: '' @ sanitize_module_name m @ '' ---'' @ [newline]
                 @ unlines ((if contract = None then [] else [[]]) @ filter (\<lambda>l. \<not> is_crate_line l) (lines src))
                 @ [newline, newline]) ms))
    \<and> files d3 (lib_file b) =
        Some ((if contract = None then [] else ''pub mod types;'' @ [newline])
              @ concat (map (\<lambda>m. module_declaration (sanitize_module_name (fst m))) ms))"
proof -
  note b0 = start_crate_spec [OF assms(1)]
  have spec: "b = b0\<lparr>cb_modules := map file_name ms\<rparr>"
    "\<forall>m \<in> set ms. files d2 (module_file b0 (fst m)) = Some (module_content b0 (snd m))"
    "\<forall>p. p \<notin> module_file b0 ` fst ` set ms \<longrightarrow> files d2 p = files d1 p"
    using write_modules_spec [OF assms(2,3)] b0 by auto
  have same: "module_file b = module_file b0" "types_file b = types_file b0" "lib_file b = lib_file b0"
    "cb_has_types b = (contract \<noteq> None)" "cb_modules b = map file_name ms" "module_content b = module_content b0"
    by (simp_all add: spec(1) b0 fun_eq_iff module_file_def types_file_def lib_file_def module_content_def)
  have d3: "d3 = d2\<lparr>files := (files d2)(lib_file b0 \<mapsto> lib_content b)\<rparr>"
    using assms(5) by (simp add: write_lib_rs_def write_file_Inr same)
  note kept = crate_files_kept [OF assms(4), of b0]
  have "files d3 (module_file b (fst m)) = Some (module_content b (snd m))" if "m \<in> set ms" for m
  proof -
    have "module_file b0 (fst m) \<noteq> lib_file b0" using kept(2) that by (metis imageI)
    with spec(2) that show ?thesis by (simp add: d3 same)
  qed
  then have modules: "assemble_modules b d3 (cb_modules b)
      = Inr (concat (map (\<lambda>m. flat_module (file_name m) (module_content b (snd m))) ms))"
    by (simp add: same(5) assemble_modules_written)
  have "files d3 (types_file b) = Some c" if "contract = Some c" for c
  proof -
    have "files d1 (types_file b0) = Some c" using b0 that by blast
    then show ?thesis using kept(1) spec(3) crate_files_differ(2) [of b0] by (simp add: d3 same)
  qed
  then have "assemble_all b d3 = Inr ((case contract of None \<Rightarrow> [] | Some c \<Rightarrow> c @ [newline, newline])
      @ concat (map (\<lambda>m. flat_module (file_name m) (module_content b (snd m))) ms))"
    using modules by (auto simp: assemble_all_def same read_file_def ok_or_def split: option.splits)
  moreover have "(\<lambda>m. flat_module (file_name m) (module_content b (snd m)))
      = (\<lambda>(m, src). ''// --- Module: '' @ sanitize_module_name m @ '' ---'' @ [newline]
          @ unlines ((if contract = None then [] else [[]]) @ filter (\<lambda>l. \<not> is_crate_line l) (lines src))
          @ [newline, newline])"
    using module_content_lines [of b] by (auto simp: fun_eq_iff flat_module_def same)
  moreover have "files d3 (lib_file b) =
      Some ((if contract = None then [] else ''pub mod types;'' @ [newline])
            @ concat (map (\<lambda>m. module_declaration (file_name m)) ms))"
    by (simp add: d3 same lib_content_def o_def)
  ultimately show ?thesis by simp
qed

definition empty_disk :: disk where
  "empty_disk = \<lparr>files = Map.empty, write_fault = (\<lambda>_. None)\<rparr>"

definition crate_start :: "crate_builder \<times> disk" where
  "crate_start = projr (start_crate ''out'' ''prog'' (Some ''struct S;'') empty_disk)"

definition crate_modules :: "(string \<times> string) list" where
  "crate_modules = [(''A'', ''fn f() {}''), (''match'', ''fn g() {}'')]"

definition demo_crate :: "crate_builder \<times> disk" where
  "demo_crate = projr (write_modules (fst crate_start) (snd crate_start) crate_modules)"

lemma crate_start_eq: "start_crate ''out'' ''prog'' (Some ''struct S;'') empty_disk = Inr (fst crate_start, snd crate_start)"
  by (simp add: crate_start_def start_crate_def new_builder_def write_types_def write_cargo_toml_def write_file_def
      empty_disk_def)

lemma demo_crate_eq: "write_modules (fst crate_start) (snd crate_start) crate_modules = Inr (fst demo_crate, snd demo_crate)"
  by (simp add: demo_crate_def crate_modules_def write_module_def write_file_def crate_start_def start_crate_def
      new_builder_def write_types_def write_cargo_toml_def empty_disk_def)

lemma demo_names: "map (\<lambda>m. sanitize_module_name (fst m)) crate_modules = [''a'', ''match'']"
  by code_simp

theorem crate_roundtrip_witness:
  "\<exists>d. write_lib_rs (fst demo_crate) (snd demo_crate) = Inr d
     \<and> assemble_all (fst demo_crate) d =
         Inr (''struct S;'' @ [newline, newline]
           @ concat (map (\<lambda>(m, src).
                ''// --- Module: '' @ sanitize_module_name m @ '' ---'' @ [newline]
                @ unlines ([[]] @ filter (\<lambda>l. \<not> is_crate_line l) (lines src)) @ [newline, newline]) crate_modules))"
proof -
  have lib: "write_lib_rs (fst demo_crate) (snd demo_crate) = Inr (projr (write_lib_rs (fst demo_crate) (snd demo_crate)))"
    by (simp add: demo_crate_def crate_modules_def write_module_def write_file_def crate_start_def start_crate_def
        new_builder_def write_types_def write_cargo_toml_def empty_disk_def write_lib_rs_def)
  have names: "(\<lambda>m. sanitize_module_name (fst m)) ` set crate_modules = {''a'', ''match''}"
    using demo_names by (metis image_set list.set(1) list.set(2))
  from crate_roundtrip [OF crate_start_eq demo_crate_eq _ _ lib] lib show ?thesis
    by (auto simp: demo_names names)
qed

end
