(* ===== verification/Modular_Module.thy ===== *)
theory Modular_Module
  imports File_Pipeline Type_Contract Crate_Builder Dependency
begin

text \<open>
  The migration of one module of a large file (\<open>migrate_single_module\<close> in
  \<open>crates/noricum-core/src/orchestrator.rs\<close>): reuse of an earlier run, translation with the context of the
  modules before, validation in the assembly, a repair loop of at most five iterations with the best version,
  and the check for truncated output. The state is a pipeline state whose calls are numbered within the
  module, with the metrics of the module.
\<close>

section \<open>What a module is given\<close>

text \<open>
  Modules of a wave run concurrently: \<open>schedule i k\<close> is the number that call \<open>k\<close> of module \<open>i\<close> has among all
  calls of the run, a parameter, as are the elapsed times of translation and repair of a module.
\<close>

record modular_tools =
  contract_env :: contract_tools
  run_cargo :: "string \<Rightarrow> disk \<Rightarrow> compile_result option"
  manifest_of_json :: "string \<Rightarrow> (string, artifact_manifest) result"
  path_exists :: "string \<Rightarrow> bool"
  schedule :: "nat \<Rightarrow> nat \<Rightarrow> nat"
  module_times :: "nat \<Rightarrow> u64 \<times> u64"
  set_order :: "nat list \<Rightarrow> nat list"

record module_task =
  mt_module :: c_module
  mt_index :: nat
  mt_parent :: string
  mt_analysis :: analysis_result
  mt_difficulty :: difficulty
  mt_context :: string
  mt_outputs :: "module_output list"
  mt_contract :: "string option"

record warm_source =
  wm_manifest :: "artifact_manifest option"
  wm_store :: "artifact_store option"
  wm_disk :: disk

record module_state = pipeline +
  local_metrics :: migration_metrics

record module_result =
  mr_name :: string
  mr_index :: nat
  mr_unit :: "function_unit option"
  mr_artifact :: module_artifact
  mr_metrics :: migration_metrics
  mr_validated :: bool
  was_skip :: bool

definition module_title :: "module_task \<Rightarrow> string" where
  "module_title t = mt_parent t @ ''::'' @ cm_name (mt_module t)"

definition module_client :: "('exe, 'g) file_environment \<Rightarrow> modular_tools \<Rightarrow> module_task \<Rightarrow> llm_client" where
  "module_client env tools t = (\<lambda>k p. client env (schedule tools (mt_index t) k) p)"

definition update_local :: "(migration_metrics \<Rightarrow> migration_metrics) \<Rightarrow> 'z module_state_scheme \<Rightarrow> 'z module_state_scheme" where
  "update_local f st = st\<lparr>local_metrics := f (local_metrics st)\<rparr>"

section \<open>Warm start\<close>

definition previous_module :: "warm_source \<Rightarrow> c_module \<Rightarrow> module_artifact option" where
  "previous_module w m =
     (case wm_manifest w of
        None \<Rightarrow> None
      | Some manifest \<Rightarrow> List.find (\<lambda>a. ma_name a = cm_name m) (am_modules manifest))"

definition previous_code :: "warm_source \<Rightarrow> c_module \<Rightarrow> string option" where
  "previous_code w m =
     (case wm_store w of
        None \<Rightarrow> None
      | Some store \<Rightarrow>
          (case load_translation_module store (cm_name m) (wm_disk w) of Inr body \<Rightarrow> body | Inl _ \<Rightarrow> None))"

text \<open>\<open>f64 as u32\<close>: truncation, with saturation at both ends.\<close>

definition score_as_u32 :: "rat \<Rightarrow> u32" where
  "score_as_u32 r =
     (if r \<le> 0 then 0 else if of_nat (2 ^ 32 - 1) \<le> r then - 1 else of_nat (nat \<lfloor>r\<rfloor>))"

definition skipped_result :: "module_task \<Rightarrow> module_artifact \<Rightarrow> string \<Rightarrow> module_result" where
  "skipped_result t prev body =
     (let m = mt_module t
      in \<lparr>mr_name = cm_name m, mr_index = mt_index t,
          mr_unit = Some ((new_unit (module_title t) [] (module_source m))
                      \<lparr>rust_output := Some body, unit_state := Validated,
                       idiomatic_score := Some (score_as_u32 (ma_score prev))\<rparr>),
          mr_artifact = \<lparr>ma_name = cm_name m, ma_state = ''Validated'', ma_score = ma_score prev,
                         ma_compiles = True, ma_unsafe_count = ma_unsafe_count prev\<rparr>,
          mr_metrics = metrics_default, mr_validated = True, was_skip = True\<rparr>)"

definition warm_skip :: "warm_source \<Rightarrow> module_task \<Rightarrow> (module_artifact \<times> string) option" where
  "warm_skip w t =
     (case previous_module w (mt_module t) of
        None \<Rightarrow> None
      | Some prev \<Rightarrow>
          if warm_start_action prev = Skip
          then map_option (\<lambda>body. (prev, body)) (previous_code w (mt_module t)) else None)"

definition warm_seed :: "warm_source \<Rightarrow> module_task \<Rightarrow> string option" where
  "warm_seed w t =
     (case previous_module w (mt_module t) of
        None \<Rightarrow> None
      | Some prev \<Rightarrow>
          if warm_start_action prev = SeedRepair then previous_code w (mt_module t) else None)"

section \<open>Translation\<close>

definition contract_notice :: "string \<Rightarrow> string" where
  "contract_notice contract =
     ''/* P33 TYPE CONTRACT: The Rust types below are ALREADY DEFINED. Use them EXACTLY.'' @ [newline]
     @ ''CRITICAL:'' @ [newline]
     @ ''- Do NOT redefine ANY struct, enum, or const.'' @ [newline]
     @ ''- Use the EXACT field names from the structs below (e.g., archive_size, NOT m_archive_size).'' @ [newline]
     @ ''- Access struct fields using the EXACT names shown. If the contract says `pub archive_size: u64`, ''
     @ ''write `zip.archive_size`, NOT `zip.m_archive_size` or `zip.size`.'' @ [newline]
     @ ''- Only write functions and impl blocks that USE these types.'' @ [newline, newline]
     @ fenced_block ''rust'' contract @ ''*/'' @ [newline, newline]"

definition context_notice :: string where
  "context_notice =
     ''/* MIGRATION CONTEXT: The following Rust types and functions have already been migrated ''
     @ ''from earlier modules in this same file.'' @ [newline, newline]
     @ ''CRITICAL: Do NOT redefine any struct, enum, const, or type alias that appears below. ''
     @ ''Use them directly '' @ em_dash @ '' they are already defined and available in scope. ''
     @ ''Only define NEW types that don't exist yet. If you need a type that's listed below, ''
     @ ''just use it (e.g., `ZipArchive`, `ZipError`). Do NOT create your own version.'' @ [newline, newline]"

definition augmented_source :: "module_task \<Rightarrow> string" where
  "augmented_source t =
     (let src = module_source (mt_module t); ctx = mt_context t
      in case mt_contract t of
           Some contract \<Rightarrow>
             contract_notice contract
             @ (if ctx = [] then []
                else ''/* Already migrated function signatures (use these, do not redefine):'' @ [newline] @ ctx
                     @ [newline] @ ''*/'')
             @ [newline, newline] @ src
         | None \<Rightarrow>
             if ctx \<noteq> [] then context_notice @ ctx @ [newline] @ ''*/'' @ [newline, newline] @ src else src)"

definition hinted_augmented :: "('exe, 'g) file_environment \<Rightarrow> module_task \<Rightarrow> string" where
  "hinted_augmented env t =
     (case format_semantic_hints (detect_semantic_patterns (detecting env) (module_source (mt_module t))) of
        Some hints \<Rightarrow> hints @ [newline] @ augmented_source t
      | None \<Rightarrow> augmented_source t)"

definition module_translation_task ::
  "('exe, 'g) file_environment \<Rightarrow> modular_tools \<Rightarrow> migration_config \<Rightarrow> module_task \<Rightarrow> string \<Rightarrow> translation_task" where
  "module_translation_task env tools cfg t model =
     \<lparr>tt_client = module_client env tools t, tt_preamble = translation_preamble env, tt_model = model,
      tt_c2rust = None, tt_analysis = mt_analysis t,
      tt_patterns = find_relevant (load_seed_patterns (pattern_files env)) (module_source (mt_module t)) 3,
      tt_temperature = translation_temperature cfg\<rparr>"

definition start_module :: "module_task \<Rightarrow> module_state" where
  "start_module t =
     \<lparr>work = (new_unit (module_title t) [] (module_source (mt_module t)))\<lparr>unit_difficulty := Some (mt_difficulty t)\<rparr>,
      calls_made = 0, trail = None, saves = [], local_metrics = metrics_default\<rparr>"

text \<open>P12: the first translation of a module; \<open>None\<close> when the model gives none.\<close>

definition count_chunk_tokens :: "chunked_result \<Rightarrow> migration_metrics \<Rightarrow> migration_metrics" where
  "count_chunk_tokens r m =
     m\<lparr>llm_calls := llm_calls m + as_u32 (length (chunk_outputs r)),
       input_tokens := input_tokens m + sum_list (map (\<lambda>c. estimate_tokens (chunk_rust c)) (chunk_outputs r))\<rparr>"

definition translate_module ::
  "('exe, 'g) file_environment \<Rightarrow> modular_tools \<Rightarrow> translation_task \<Rightarrow> module_task \<Rightarrow> module_state
   \<Rightarrow> string option \<times> module_state" where
  "translate_module env tools tt t st =
     (let m = mt_module t; src = hinted_augmented env t;
          timed = (\<lambda>mm. mm\<lparr>translation_ms := translation_ms mm + fst (module_times tools (mt_index t))\<rparr>)
      in if medium_file_loc < module_lines m then
           (case translate_chunked tt (chunk_c_source (grammars (bench env)) src (chunk_target (module_lines m)))
                   (calls_made st) of
              (Inl _, n) \<Rightarrow> (None, st\<lparr>calls_made := n\<rparr>)
            | (Inr r, n) \<Rightarrow> (Some (combined r), update_local (timed \<circ> count_chunk_tokens r) (st\<lparr>calls_made := n\<rparr>)))
         else
           (case translate_source tt src None (tt_temperature tt) (calls_made st) of
              (Inl _, n) \<Rightarrow> (None, st\<lparr>calls_made := n\<rparr>)
            | (Inr rust, n) \<Rightarrow>
                (Some rust,
                 update_local (timed \<circ> add_tokens (estimate_tokens src) (estimate_tokens rust) \<circ> count_llm_call)
                   (st\<lparr>calls_made := n\<rparr>))))"

text \<open>P6: a translation without substance is replaced by a second one that has some.\<close>

definition module_substance ::
  "('exe, 'g) file_environment \<Rightarrow> translation_task \<Rightarrow> module_task \<Rightarrow> string \<times> module_state \<Rightarrow> string \<times> module_state" where
  "module_substance env tt t answer =
     (let (rust, st) = answer; src = module_source (mt_module t)
      in if has_substance rust src then (rust, st)
         else
           (let st1 = update_local count_llm_call st
            in case translate_source tt (hinted_augmented env t) None (Some (5/10)) (calls_made st) of
                 (Inr again, n) \<Rightarrow> (if has_substance again src then again else rust, st1\<lparr>calls_made := n\<rparr>)
               | (Inl _, n) \<Rightarrow> (rust, st1\<lparr>calls_made := n\<rparr>)))"

definition adopt_module_output :: "module_task \<Rightarrow> string \<times> module_state \<Rightarrow> module_state" where
  "adopt_module_output t answer =
     (let (rust, st) = answer
      in save (SavedModule (cm_name (mt_module t)) rust)
           (update_work (\<lambda>u. u\<lparr>rust_output := Some rust, unit_state := Refined\<rparr>) st))"

section \<open>Validation\<close>

text \<open>P24 and P25: a module is validated together with the compiling modules before it, at a lower threshold.\<close>

definition module_min_score :: "migration_config \<Rightarrow> u32" where
  "module_min_score cfg = min (min_idiomatic_score cfg) 50"

definition validate_module ::
  "('exe, 'g) file_environment \<Rightarrow> migration_config \<Rightarrow> module_task \<Rightarrow> u32 \<Rightarrow> 'z module_state_scheme
   \<Rightarrow> (core_error, validation_result \<times> 'z module_state_scheme) result" where
  "validate_module env cfg t max_repair st =
     (case validate_module_with_assembly (bench env) (work st) (cm_name (mt_module t)) (mt_outputs t)
             (module_min_score cfg) of
        Inl e \<Rightarrow> Inl (ValidationFailure e)
      | Inr v \<Rightarrow> Inr (v, update_work (\<lambda>u. apply_validation_with_max u v max_repair) st))"

text \<open>P13: more than a hundred errors lead to one new translation.\<close>

definition retranslate_module ::
  "('exe, 'g) file_environment \<Rightarrow> migration_config \<Rightarrow> translation_task \<Rightarrow> module_task \<Rightarrow> validation_result \<times> module_state
   \<Rightarrow> (core_error, validation_result \<times> module_state) result" where
  "retranslate_module env cfg tt t validated =
     (let (v, st) = validated; m = mt_module t
      in if passed v \<or> \<not> should_retranslate (length (compiler_errors v)) 0 then Inr (v, st)
         else
           (let st1 = (case rust_output (work st) of
                         Some rust \<Rightarrow> save (SavedModuleRejected (cm_name m) 0 rust) st | None \<Rightarrow> st);
                (answer, n) = translate_source tt (hinted_augmented env t) None (Some (5/10)) (calls_made st1);
                st2 = update_local count_llm_call (st1\<lparr>calls_made := n\<rparr>)
            in case answer of
                 Inl _ \<Rightarrow> Inr (v, st2)
               | Inr fresh \<Rightarrow>
                   if has_substance fresh (module_source m)
                   then validate_module env cfg t (max_repair_iterations cfg)
                          (update_work (\<lambda>u. u\<lparr>rust_output := Some fresh\<rparr>) st2)
                   else Inr (v, st2)))"

section \<open>The repair loop\<close>

record module_repair = module_state +
  mb_version :: "string option"
  mb_score :: u32
  mb_compiles :: bool

definition module_ceiling :: "migration_config \<Rightarrow> validation_result \<Rightarrow> u32" where
  "module_ceiling cfg v = unsafe_ceiling cfg v"

definition repair_json :: "string \<Rightarrow> u32 \<Rightarrow> validation_result \<Rightarrow> string" where
  "repair_json nm i v =
     (let key = (\<lambda>k. [quote] @ k @ [quote] @ '':'')
      in ''{'' @ key ''module'' @ [quote] @ nm @ [quote] @ '','' @ key ''iter'' @ show_nat (unat i) @ '',''
         @ key ''compiles'' @ show_bool (compiles v) @ '','' @ key ''score'' @ show_nat (unat (vr_idiomatic_score v))
         @ '','' @ key ''unsafe'' @ show_nat (unat (vr_unsafe_count v)) @ ''}'')"

text \<open>P1: the best version within the ceiling.\<close>

definition track_module_best :: "u32 \<Rightarrow> validation_result \<Rightarrow> module_repair \<Rightarrow> module_repair" where
  "track_module_best cap v st =
     (if vr_unsafe_count v \<le> cap \<and> (mb_score st < vr_idiomatic_score v \<or> (compiles v \<and> \<not> mb_compiles st))
      then st\<lparr>mb_version := rust_output (work st), mb_score := vr_idiomatic_score v, mb_compiles := compiles v\<rparr>
      else st)"

definition adopt_module_repair ::
  "('exe, 'g) file_environment \<Rightarrow> migration_config \<Rightarrow> module_task \<Rightarrow> u32 \<Rightarrow> u32 \<Rightarrow> u32 \<Rightarrow> string \<Rightarrow> module_repair
   \<Rightarrow> (core_error, control \<times> module_repair) result" where
  "adopt_module_repair env cfg t max_iters cap i repaired st =
     bind_result
       (validate_module env cfg t max_iters
          (update_work (\<lambda>u. u\<lparr>rust_output := Some repaired, unit_state := Repairing i\<rparr>) st)) (\<lambda>(v, st1).
     (let nm = cm_name (mt_module t);
          st2 = save (SavedModuleRepair nm i (unwrap_or (rust_output (work st1)) []) (repair_json nm i v)) st1;
          st3 = track_module_best cap v st2
      in if passed v then Inr (Break, st3)
         else bind_result (check_budget (max_tokens_budget cfg) (max_llm_calls cfg) (local_metrics st3))
                (\<lambda>_. Inr (Continue, st3))))"

definition module_repair_step ::
  "('exe, 'g) file_environment \<Rightarrow> modular_tools \<Rightarrow> migration_config \<Rightarrow> module_task \<Rightarrow> string \<Rightarrow> u32 \<Rightarrow> u32 \<Rightarrow> u32
   \<Rightarrow> module_repair \<Rightarrow> (core_error, control \<times> module_repair) result" where
  "module_repair_step env tools cfg t model max_iters cap i st =
     (let u = work st; errors = last_errors u; feedback = effective_feedback cfg u;
          current_rust = unwrap_or (rust_output u) []
      in if errors = [] \<and> feedback = [] \<and> min_idiomatic_score cfg \<le> unwrap_or (idiomatic_score u) 0
         then Inr (Break, st)
         else
           (let feedback' = (if errors \<noteq> [] \<and> 3 \<le> i \<and> 0 < cap
                             then feedback @ [unsafe_permission cap] else feedback);
                (answer, n) = repair_function_full (module_client env tools t) (repair_preamble env) model current_rust
                                errors feedback' (module_source (mt_module t)) i max_iters
                                (repair_base_temperature cfg) None (calls_made st);
                st1 = st\<lparr>calls_made := n\<rparr>
            in case answer of
                 Inl _ \<Rightarrow> Inr (Break, st1)
               | Inr repaired \<Rightarrow>
                   (let st2 = update_local (add_tokens (estimate_tokens current_rust) (estimate_tokens repaired)
                                            \<circ> count_llm_call) st1
                    in if cap < count_unsafe_blocks_ast (bench env) repaired
                       then Inr (Continue, save (SavedModuleRejected (cm_name (mt_module t)) i repaired) st2)
                       else adopt_module_repair env cfg t max_iters cap i repaired st2)))"

fun module_repair_loop ::
  "('exe, 'g) file_environment \<Rightarrow> modular_tools \<Rightarrow> migration_config \<Rightarrow> module_task \<Rightarrow> string \<Rightarrow> u32 \<Rightarrow> u32 \<Rightarrow> u32 list
   \<Rightarrow> module_repair \<Rightarrow> (core_error, module_repair) result" where
  "module_repair_loop env tools cfg t model max_iters cap [] st = Inr st"
| "module_repair_loop env tools cfg t model max_iters cap (i # is) st =
     (case module_repair_step env tools cfg t model max_iters cap i st of
        Inl e \<Rightarrow> Inl e
      | Inr (Break, st') \<Rightarrow> Inr st'
      | Inr (Continue, st') \<Rightarrow> module_repair_loop env tools cfg t model max_iters cap is st')"

text \<open>
  P23: a module that is not validated gets the best version and its score; the number of unsafe blocks in
  the grade is that of the last version validated.
\<close>

definition finish_module_repair :: "module_repair \<Rightarrow> module_repair" where
  "finish_module_repair st =
     (if unit_state (work st) = Validated then st
      else update_work (\<lambda>u.
             (let u1 = (case mb_version st of
                          Some b \<Rightarrow> u\<lparr>rust_output := Some b, idiomatic_score := Some (mb_score st)\<rparr> | None \<Rightarrow> u)
              in u1\<lparr>unit_state := graduated_state (mb_compiles st) (unwrap_or (unsafe_count u) 0) (mb_score st) 80
                                  (length (last_errors u))\<rparr>)) st)"

definition module_iterations :: "u32 \<Rightarrow> u32 list" where
  "module_iterations k = map of_nat [1..<Suc (unat k)]"

definition repair_module ::
  "('exe, 'g) file_environment \<Rightarrow> modular_tools \<Rightarrow> migration_config \<Rightarrow> module_task \<Rightarrow> validation_result \<times> module_state
   \<Rightarrow> (core_error, module_state) result" where
  "repair_module env tools cfg t validated =
     (let (v, st) = validated
      in if passed v then Inr st
         else bind_result (lift_agent (select_repair_model (providers cfg) (mt_difficulty t))) (\<lambda>sel.
           (let max_iters = min (max_repair_iterations cfg) 5;
                cap = module_ceiling cfg v;
                start = module_state.extend st
                          \<lparr>mb_version = rust_output (work st), mb_score = vr_idiomatic_score v,
                           mb_compiles = compiles v\<rparr>
            in bind_result (module_repair_loop env tools cfg t (sel_model sel) max_iters cap
                              (module_iterations max_iters) start) (\<lambda>st'.
                 Inr (module_state.truncate
                   (finish_module_repair
                     (update_local (\<lambda>mm. mm\<lparr>repair_ms := repair_ms mm + snd (module_times tools (mt_index t))\<rparr>)
                       st')))))))"

section \<open>Truncated output\<close>

definition truncation_hint :: "string \<Rightarrow> string" where
  "truncation_hint src =
     ''/* IMPORTANT: Your previous translation of this code was TRUNCATED. ''
     @ ''Ensure ALL function bodies have matching closing braces. ''
     @ ''Output the COMPLETE translation. */'' @ [newline, newline] @ src"

definition truncation_error :: "int \<Rightarrow> string" where
  "truncation_error depth = ''P32: truncated '' @ show_nat (nat depth) @ '' unclosed brace(s)''"

text \<open>
  P32: an output with open braces is translated once more; when that is not balanced either, the braces are
  closed and an error is recorded. Neither text is validated again.
\<close>

definition balance_module :: "translation_task \<Rightarrow> module_task \<Rightarrow> module_state \<Rightarrow> module_state" where
  "balance_module tt t st =
     (case rust_output (work st) of
        None \<Rightarrow> st
      | Some rust \<Rightarrow>
          (let depth = check_brace_balance rust
           in if depth \<le> 0 then st
              else
                (let (answer, n) = translate_source tt (truncation_hint (module_source (mt_module t))) None (Some (3/10))
                                     (calls_made st);
                     st1 = st\<lparr>calls_made := n\<rparr>;
                     closed = (\<lambda>s. update_work (\<lambda>u. u\<lparr>rust_output := Some (auto_close_braces rust),
                                 last_errors := last_errors u @ [truncation_error depth]\<rparr>) s)
                 in case answer of
                      Inl _ \<Rightarrow> closed st1
                    | Inr fresh \<Rightarrow>
                        if check_brace_balance fresh = 0
                        then update_local count_llm_call (update_work (\<lambda>u. u\<lparr>rust_output := Some fresh\<rparr>) st1)
                        else closed (update_local count_llm_call st1))))"

section \<open>The module as a whole\<close>

definition failed_module :: "module_task \<Rightarrow> module_state \<Rightarrow> module_result" where
  "failed_module t st =
     \<lparr>mr_name = cm_name (mt_module t), mr_index = mt_index t, mr_unit = None,
      mr_artifact = \<lparr>ma_name = cm_name (mt_module t), ma_state = ''TranslationFailed'', ma_score = 0,
                     ma_compiles = False, ma_unsafe_count = 0\<rparr>,
      mr_metrics = local_metrics st, mr_validated = False, was_skip = False\<rparr>"

definition module_outcome :: "module_task \<Rightarrow> module_state \<Rightarrow> module_result" where
  "module_outcome t st =
     (let u = work st
      in \<lparr>mr_name = cm_name (mt_module t), mr_index = mt_index t, mr_unit = Some u,
          mr_artifact = \<lparr>ma_name = cm_name (mt_module t), ma_state = debug_state (unit_state u),
                         ma_score = of_nat (unat (unwrap_or (idiomatic_score u) 0)),
                         ma_compiles = (unit_state u = Validated \<or> last_errors u = []),
                         ma_unsafe_count = unwrap_or (unsafe_count u) 0\<rparr>,
          mr_metrics = local_metrics st,
          mr_validated = (unit_state u = Validated \<or> unit_state u = CompilesUnsafe), was_skip = False\<rparr>)"

text \<open>The output that is validated: the seed of an earlier run, or a translation with substance if possible.\<close>

definition first_module_output ::
  "('exe, 'g) file_environment \<Rightarrow> modular_tools \<Rightarrow> translation_task \<Rightarrow> module_task \<Rightarrow> string option \<Rightarrow> module_state
   \<Rightarrow> string option \<times> module_state" where
  "first_module_output env tools tt t seed st =
     (case seed of
        Some s \<Rightarrow> (Some s, st)
      | None \<Rightarrow>
          (case translate_module env tools tt t st of
             (None, st1) \<Rightarrow> (None, st1)
           | (Some rust, st1) \<Rightarrow> map_prod Some id (module_substance env tt t (rust, st1))))"

definition finish_module ::
  "('exe, 'g) file_environment \<Rightarrow> modular_tools \<Rightarrow> migration_config \<Rightarrow> translation_task \<Rightarrow> module_task \<Rightarrow> module_state
   \<Rightarrow> (core_error, module_state) result" where
  "finish_module env tools cfg tt t st =
     bind_result (validate_module env cfg t (max_repair_iterations cfg) st) (\<lambda>validated.
     bind_result (retranslate_module env cfg tt t validated) (\<lambda>validated2.
     bind_result (repair_module env tools cfg t validated2) (\<lambda>st2.
     Inr (balance_module tt t st2))))"

text \<open>The result, the number of calls of the module and its artifacts.\<close>

definition migrate_single_module ::
  "('exe, 'g) file_environment \<Rightarrow> modular_tools \<Rightarrow> migration_config \<Rightarrow> warm_source \<Rightarrow> module_task
   \<Rightarrow> (core_error, module_result \<times> nat \<times> artifact_save list) result" where
  "migrate_single_module env tools cfg w t =
     (case warm_skip w t of
        Some (prev, body) \<Rightarrow> Inr (skipped_result t prev body, 0, [SavedModule (cm_name (mt_module t)) body])
      | None \<Rightarrow>
          bind_result (lift_agent (select_model (providers cfg) (mt_difficulty t) ''translation'')) (\<lambda>sel.
          (let tt = module_translation_task env tools cfg t (sel_model sel)
           in case first_module_output env tools tt t (warm_seed w t) (start_module t) of
                (None, st) \<Rightarrow> Inr (failed_module t st, calls_made st, saves st)
              | (Some rust, st) \<Rightarrow>
                  bind_result (finish_module env tools cfg tt t (adopt_module_output t (rust, st))) (\<lambda>st'.
                    Inr (module_outcome t st', calls_made st', saves st')))))"

end
