(* ===== verification/Modular_Pipeline.thy ===== *)
theory Modular_Pipeline
  imports Modular_Module
begin

text \<open>
  The modular migration of a large file (\<open>migrate_file_modular\<close> in
  \<open>crates/noricum-core/src/orchestrator.rs\<close>): the type contract, the crate, the modules wave by wave, the
  merge of the results of a wave, the budget after every wave and the assembly. A wave is given the context
  before it, so the order in which its modules run does not matter for what they are asked. Files that fail
  here are translated in chunks.
\<close>

section \<open>State\<close>

record modular_state =
  mo_outputs :: "module_output list"
  mo_context :: string
  mo_metrics :: migration_metrics
  mo_all_validated :: bool
  mo_any_succeeded :: bool
  mo_score :: u32
  mo_artifacts :: "module_artifact list"
  mo_builder :: "crate_builder option"
  mo_disk :: disk
  mo_config :: migration_config
  mo_calls :: nat
  mo_saves :: "artifact_save list"

text \<open>What all modules of a run share.\<close>

record modular_run =
  run_modules :: "c_module list"
  run_name :: string
  run_analysis :: analysis_result
  run_difficulty :: difficulty
  run_contract :: "string option"
  run_warm :: warm_source

definition lift_tool_error :: "string \<Rightarrow> (tool_error, 'a) result \<Rightarrow> (core_error, 'a) result" where
  "lift_tool_error what r =
     (case r of Inl e \<Rightarrow> Inl (Orchestration (what @ '': '' @ show_tool_error e)) | Inr a \<Rightarrow> Inr a)"

text \<open>The crate is started with the contract and its \<open>Cargo.toml\<close>.\<close>

definition start_modular_crate ::
  "migration_config \<Rightarrow> string \<Rightarrow> string option \<Rightarrow> disk \<Rightarrow> (core_error, crate_builder option \<times> disk) result" where
  "start_modular_crate cfg nm contract d =
     (case crate_output_dir cfg of
        None \<Rightarrow> Inr (None, d)
      | Some dir \<Rightarrow>
          bind_result (lift_tool_error ''CrateBuilder init'' (new_builder dir nm d)) (\<lambda>b.
          bind_result (case contract of
                         None \<Rightarrow> Inr (b, d)
                       | Some c \<Rightarrow> lift_tool_error ''write types.rs'' (write_types b c d)) (\<lambda>(b1, d1).
          bind_result (lift_tool_error ''write Cargo.toml'' (write_cargo_toml b1 d1)) (\<lambda>d2. Inr (Some b1, d2)))))"

text \<open>P19: the manifest of the run named in the configuration, if it can be read.\<close>

definition load_warm :: "modular_tools \<Rightarrow> migration_config \<Rightarrow> disk \<Rightarrow> warm_source" where
  "load_warm tools cfg d =
     (let store = (case warm_start cfg of
                     None \<Rightarrow> None
                   | Some path \<Rightarrow>
                       (case from_existing path (path_exists tools path) of Inr s \<Rightarrow> Some s | Inl _ \<Rightarrow> None))
      in \<lparr>wm_manifest = (case store of
                           None \<Rightarrow> None
                         | Some s \<Rightarrow>
                             (case load_manifest (manifest_of_json tools) s d of Inr m \<Rightarrow> Some m | Inl _ \<Rightarrow> None)),
          wm_store = store, wm_disk = d\<rparr>)"

section \<open>A wave\<close>

definition task_of :: "modular_run \<Rightarrow> modular_state \<Rightarrow> nat \<Rightarrow> module_task" where
  "task_of run st i =
     \<lparr>mt_module = run_modules run ! i, mt_index = i, mt_parent = run_name run, mt_analysis = run_analysis run,
      mt_difficulty = run_difficulty run, mt_context = mo_context st, mt_outputs = mo_outputs st,
      mt_contract = run_contract run\<rparr>"

text \<open>
  The results of a wave in its order; the first exceeded token budget ends the migration, other errors only
  lose the module.
\<close>

fun collect_module_results ::
  "(core_error, 'a) result list \<Rightarrow> (core_error, 'a list \<times> bool) result" where
  "collect_module_results [] = Inr ([], True)"
| "collect_module_results (Inr r # rs) = bind_result (collect_module_results rs) (\<lambda>(xs, ok). Inr (r # xs, ok))"
| "collect_module_results (Inl e # rs) =
     (case e of
        BudgetExceeded _ _ \<Rightarrow> Inl e
      | _ \<Rightarrow> bind_result (collect_module_results rs) (\<lambda>(xs, ok). Inr (xs, False)))"

definition merge_metrics :: "migration_metrics \<Rightarrow> migration_metrics \<Rightarrow> migration_metrics" where
  "merge_metrics before m = add_modular_metrics m before"

text \<open>P33 and P27: what later modules are told of an output.\<close>

definition extended_context :: "string option \<Rightarrow> string \<Rightarrow> string \<Rightarrow> string" where
  "extended_context contract rust ctx =
     (let types = extract_rust_type_definitions rust; sigs = extract_rust_signatures rust;
          ctx1 = (if contract = None \<and> types \<noteq> [] then ctx @ join [newline, newline] types @ [newline] else ctx)
      in if sigs \<noteq> [] then ctx1 @ unlines sigs @ [newline] else ctx1)"

definition write_crate_module :: "string \<Rightarrow> string \<Rightarrow> modular_state \<Rightarrow> modular_state" where
  "write_crate_module nm rust st =
     (case mo_builder st of
        None \<Rightarrow> st
      | Some b \<Rightarrow>
          (case write_module b nm rust (mo_disk st) of
             Inr (b', d') \<Rightarrow> st\<lparr>mo_builder := Some b', mo_disk := d'\<rparr>
           | Inl _ \<Rightarrow> st))"

definition merge_output :: "string option \<Rightarrow> module_result \<Rightarrow> function_unit \<Rightarrow> string \<Rightarrow> modular_state \<Rightarrow> modular_state" where
  "merge_output contract r u rust st =
     write_crate_module (mr_name r) rust
       (st\<lparr>mo_context := extended_context contract rust (mo_context st),
           mo_outputs := mo_outputs st @ [(mr_name r, rust, ma_compiles (mr_artifact r))],
           mo_any_succeeded := True, mo_score := mo_score st + unwrap_or (idiomatic_score u) 0\<rparr>)"

definition merge_result :: "string option \<Rightarrow> module_result \<Rightarrow> modular_state \<Rightarrow> modular_state" where
  "merge_result contract r st =
     (let st1 = st\<lparr>mo_metrics := merge_metrics (mo_metrics st) (mr_metrics r),
                   mo_artifacts := mo_artifacts st @ [mr_artifact r],
                   mo_all_validated := (mo_all_validated st \<and> (mr_validated r \<or> was_skip r))\<rparr>
      in case mr_unit r of
           None \<Rightarrow> st1
         | Some u \<Rightarrow> (case rust_output u of None \<Rightarrow> st1 | Some rust \<Rightarrow> merge_output contract r u rust st1))"

text \<open>The calls and artifacts of the modules that ended without an error are added up.\<close>

definition run_wave ::
  "('exe, 'g) file_environment \<Rightarrow> modular_tools \<Rightarrow> modular_run \<Rightarrow> nat list \<Rightarrow> modular_state
   \<Rightarrow> (core_error, modular_state) result" where
  "run_wave env tools run wave st =
     bind_result
       (collect_module_results
         (map (\<lambda>i. migrate_single_module env tools (mo_config st) (run_warm run) (task_of run st i)) wave))
       (\<lambda>(results, ok).
         let st1 = st\<lparr>mo_all_validated := (mo_all_validated st \<and> ok),
                      mo_calls := mo_calls st + sum_list (map (\<lambda>(r, n, s). n) results),
                      mo_saves := mo_saves st @ concat (map (\<lambda>(r, n, s). s) results)\<rparr>
         in Inr (fold (merge_result (run_contract run)) (sort_key mr_index (map fst results)) st1))"

text \<open>P34: the budget after a wave: stop, go on without repairs, or go on.\<close>

fun run_waves ::
  "('exe, 'g) file_environment \<Rightarrow> modular_tools \<Rightarrow> modular_run \<Rightarrow> nat list list \<Rightarrow> modular_state
   \<Rightarrow> (core_error, modular_state) result" where
  "run_waves env tools run [] st = Inr st"
| "run_waves env tools run (wave # waves) st =
     bind_result (run_wave env tools run wave st) (\<lambda>st1.
       case budget_phase (max_llm_calls (mo_config st1)) (llm_calls (mo_metrics st1)) of
         AssembleNow \<Rightarrow> Inr st1
       | SaveAndExit \<Rightarrow> Inr st1
       | phase \<Rightarrow>
           (let cfg = (if phase = SkipRepairs then (mo_config st1)\<lparr>max_repair_iterations := 0\<rparr> else mo_config st1)
            in bind_result (check_budget (max_tokens_budget cfg) (max_llm_calls cfg) (mo_metrics st1)) (\<lambda>_.
                 run_waves env tools run waves (st1\<lparr>mo_config := cfg\<rparr>))))"

section \<open>The whole\<close>

text \<open>The library file is written and Cargo run; the result of the check is only reported.\<close>

definition finish_modular_crate :: "modular_tools \<Rightarrow> modular_state \<Rightarrow> (core_error, modular_state) result" where
  "finish_modular_crate tools st =
     (case mo_builder st of
        None \<Rightarrow> Inr st
      | Some b \<Rightarrow>
          bind_result (lift_tool_error ''write lib.rs'' (write_lib_rs b (mo_disk st))) (\<lambda>d.
          case check_crate_compiles (run_cargo tools) (cb_dir b) d of
            Inl e \<Rightarrow> Inl (ToolFailure e)
          | Inr _ \<Rightarrow> Inr (st\<lparr>mo_disk := d\<rparr>)))"

definition modular_start ::
  "migration_config \<Rightarrow> nat \<Rightarrow> crate_builder option \<Rightarrow> disk \<Rightarrow> nat \<Rightarrow> artifact_save list \<Rightarrow> modular_state" where
  "modular_start cfg module_count builder d n saved =
     \<lparr>mo_outputs = [], mo_context = [], mo_metrics = metrics_default, mo_all_validated = True,
      mo_any_succeeded = False, mo_score = 0, mo_artifacts = [], mo_builder = builder, mo_disk = d,
      mo_config = cfg\<lparr>max_llm_calls := Some (compute_adaptive_budget module_count (max_llm_calls cfg))\<rparr>,
      mo_calls = n, mo_saves = saved\<rparr>"

definition assemble_run ::
  "('exe, 'g) file_environment \<Rightarrow> modular_run \<Rightarrow> modular_state \<Rightarrow> modular_result \<times> nat \<times> artifact_save list \<times> disk" where
  "assemble_run env run st =
     (ModularSuccess (assemble_module_outputs (regexes env) (mo_outputs st) (run_contract run)) (mo_metrics st)
        (mo_all_validated st),
      mo_calls st, mo_saves st @ [SavedModuleManifest (run_name run) (mo_artifacts st)], mo_disk st)"

definition run_modular ::
  "('exe, 'g) file_environment \<Rightarrow> modular_tools \<Rightarrow> modular_run \<Rightarrow> nat list list \<Rightarrow> modular_state
   \<Rightarrow> (core_error, modular_result \<times> nat \<times> artifact_save list \<times> disk) result" where
  "run_modular env tools run waves st =
     bind_result (run_waves env tools run waves st) (\<lambda>st1.
       if \<not> mo_any_succeeded st1 then Inr (FallbackToChunked, mo_calls st1, mo_saves st1, mo_disk st1)
       else bind_result (finish_modular_crate tools st1) (\<lambda>st2. Inr (assemble_run env run st2)))"

definition migrate_file_modular ::
  "('exe, 'g) file_environment \<Rightarrow> modular_tools \<Rightarrow> migration_config \<Rightarrow> disk \<Rightarrow> string \<Rightarrow> string \<Rightarrow> string option
   \<Rightarrow> analysis_result \<Rightarrow> difficulty \<Rightarrow> nat
   \<Rightarrow> (core_error, modular_result \<times> nat \<times> artifact_save list \<times> disk) result" where
  "migrate_file_modular env tools cfg d src nm c_path analysis diff n =
     (let ps = grammars (bench env); split = split_into_modules ps src (module_target_loc cfg);
          ms = split_modules split
      in if length ms \<le> 1 then Inr (FallbackToChunked, n, [], d)
         else
           bind_result (generate_type_contract (environment.truncate env) (contract_env tools) (providers cfg)
                          (split_context split) src c_path n) (\<lambda>(contract, n1, saved).
           bind_result (start_modular_crate cfg nm contract d) (\<lambda>(builder, d1).
             run_modular env tools
               \<lparr>run_modules = ms, run_name = nm, run_analysis = analysis, run_difficulty = diff,
                run_contract = contract, run_warm = load_warm tools cfg d1\<rparr>
               (module_waves (set_order tools) (from_source ps src) ms)
               (modular_start cfg (length ms) builder d1 n1 saved))))"

text \<open>As the parameter of \<open>migrate_file\<close>.\<close>

definition modular_of :: "('exe, 'g) file_environment \<Rightarrow> modular_tools \<Rightarrow> migration_config \<Rightarrow> disk \<Rightarrow> modular_migration" where
  "modular_of env tools cfg d =
     (\<lambda>diff analysis u n.
       map_sum id (\<lambda>(r, n', saved, _). (r, n', saved))
         (migrate_file_modular env tools cfg d (c_source u) (unit_name u) (Some (source_path u)) analysis diff n))"

end
