(* ===== verification/Repair_Outcome.thy ===== *)
theory Repair_Outcome
  imports Repair_Stage
begin

text \<open>
  What the repair stage leaves behind, on all its branches: with enough fuel it ends, it keeps the C
  source, and a unit it calls validated has an output that compiles.
\<close>

lemma pipeline_work [simp]:
  fixes p :: "'z pipeline_scheme"
  shows "work (update_work f p) = f (work p)" "work (save a p) = work p" "work (audit e p) = work p"
  by (simp_all add: update_work_def save_def audit_def)

definition output_compiles :: "'exe workbench \<Rightarrow> function_unit \<Rightarrow> bool" where
  "output_compiles wb u =
     (case rust_output u of
        Some rust \<Rightarrow> (case check_rust_compiles wb rust of Inr r \<Rightarrow> success r | Inl _ \<Rightarrow> False)
      | None \<Rightarrow> False)"

lemma output_compilesI:
  "rust_output u = Some rust \<Longrightarrow> check_rust_compiles wb rust = Inr r \<Longrightarrow> success r \<Longrightarrow> output_compiles wb u"
  by (simp add: output_compiles_def)

lemma verdict_compiles: "verdict ok score m d \<Longrightarrow> ok"
  by (auto simp: verdict_def Let_def split: if_splits)

lemma passed_compiles:
  assumes "validate_unit env m u = Inr v" and "passed v"
  shows "output_compiles (bench env) u"
proof -
  have "validate_with_threshold (bench env) u m = Inr v"
    using assms(1) by (auto simp: validate_unit_def split: sum.splits)
  then show ?thesis using assms(2)
    by (auto simp: validate_Inr Let_def output_compiles_def dest: verdict_compiles)
qed

lemma passes_compiles: "passes env cfg u \<Longrightarrow> output_compiles (bench env) u"
  by (auto simp: passes_def dest: passed_compiles)

lemma output_compiles_same: "rust_output u' = rust_output u \<Longrightarrow> output_compiles wb u' = output_compiles wb u"
  by (simp add: output_compiles_def)

text \<open>The states that tell the user the output compiles, and the states no stage works on any more.\<close>

definition claims_build :: "migration_state \<Rightarrow> bool" where
  "claims_build s \<longleftrightarrow> s = Validated \<or> s = CompilesUnsafe \<or> s = CompilesLowScore"

definition final_state :: "migration_state \<Rightarrow> bool" where
  "final_state s \<longleftrightarrow> claims_build s \<or> s = NearlyCompiles \<or> s = FallbackUnsafe"

lemma claims_next_state: "claims_build (next_state s ok mx) \<longleftrightarrow> ok"
  by (simp add: next_state_def claims_build_def split: migration_state.splits)

lemma next_state_Validated: "next_state s ok mx = Validated \<longleftrightarrow> ok"
  by (simp add: next_state_def split: migration_state.splits)

lemma claims_graduated: "claims_build (graduated_state b u s t e) \<Longrightarrow> b"
  by (auto simp: graduated_state_def claims_build_def split: if_splits)

lemma final_graduated: "final_state (graduated_state b u s t e)"
  by (auto simp: graduated_state_def final_state_def claims_build_def)

lemma apply_validation_fields [simp]:
  "rust_output (apply_validation_with_max u v mx) = rust_output u"
  "c_source (apply_validation_with_max u v mx) = c_source u"
  "unit_name (apply_validation_with_max u v mx) = unit_name u"
  by (simp_all add: apply_validation_with_max_def)

lemma apply_validated_compiles:
  assumes "validate_unit env m u = Inr v" and "claims_build (unit_state (apply_validation_with_max u v mx))"
  shows "output_compiles (bench env) (apply_validation_with_max u v mx)"
  using assms passed_compiles [OF assms(1)] by (simp add: claims_next_state output_compiles_def)

lemma graded_compiles: "graded_as wb c b score unsafes True \<Longrightarrow> rust_output u = Some b \<Longrightarrow> output_compiles wb u"
  by (auto simp: graded_as_def output_compiles_def)

lemma finish_repair_compiles:
  assumes "best_is_graded env cap st" and "unit_state (work st) \<noteq> Validated"
    and "claims_build (unit_state (work (finish_repair st)))"
  shows "output_compiles (bench env) (work (finish_repair st))"
proof -
  have "best_compiles st"
    using assms(2,3) by (auto simp: finish_repair_def pipeline_simps Let_def dest!: claims_graduated split: option.splits)
  then obtain b where "best_version st = Some b"
      "graded_as (bench env) (c_source (work st)) b (best_score st) (best_unsafe st) True"
    using assms(1) by (auto simp: best_is_graded_def)
  then show ?thesis using assms(2)
    by (intro graded_compiles [of _ "c_source (work st)" b]) (simp_all add: finish_repair_def pipeline_simps Let_def)
qed

lemma finish_repair_source [simp]: "c_source (work (finish_repair st)) = c_source (work st)"
  by (simp add: finish_repair_def pipeline_simps Let_def split: option.splits)

lemma finish_repair_final: "final_state (unit_state (work (finish_repair st)))"
  by (simp add: finish_repair_def pipeline_simps Let_def final_graduated)
     (simp add: final_state_def claims_build_def)

lemma legacy_repair_outcome:
  assumes "validate_unit env (min_idiomatic_score cfg) (work p) = Inr v" "unit_state (work p) \<noteq> Validated"
    and "unat mx + 1 < 2 ^ 32" "unat mx \<le> fuel"
  shows "\<exists>r. legacy_repair fuel env cfg d analysis mx n v p = Some r
    \<and> (\<forall>st. r = Inr st \<longrightarrow> c_source (work st) = c_source (work p)
         \<and> final_state (unit_state (work st))
         \<and> (claims_build (unit_state (work st)) \<longrightarrow> output_compiles (bench env) (work st)))"
proof -
  obtain r where r: "legacy_repair fuel env cfg d analysis mx n v p = Some r"
    and out: "\<And>st. r = Inr st \<Longrightarrow> \<exists>st0. st = finish_repair st0
        \<and> (loop_inv env (unsafe_ceiling cfg v) st0
           \<or> best_is_graded env (unsafe_ceiling cfg v) st0 \<and> passes env cfg (work st0))
        \<and> c_source (work st0) = c_source (work p)"
    using legacy_repair_result [OF assms, of d analysis n] by blast
  have "c_source (work st) = c_source (work p) \<and> final_state (unit_state (work st))
      \<and> (claims_build (unit_state (work st)) \<longrightarrow> output_compiles (bench env) (work st))" if "r = Inr st" for st
  proof -
    from out [OF that] obtain st0 where st0: "st = finish_repair st0" "c_source (work st0) = c_source (work p)"
      and inv: "loop_inv env (unsafe_ceiling cfg v) st0
           \<or> best_is_graded env (unsafe_ceiling cfg v) st0 \<and> passes env cfg (work st0)"
      by blast
    show ?thesis
    proof (cases "unit_state (work st0) = Validated")
      case True
      with inv have "passes env cfg (work st0)" by (simp add: loop_inv_def)
      with True st0 show ?thesis
        by (simp add: finish_repair_def passes_compiles) (simp add: final_state_def claims_build_def)
    next
      case False
      with inv have "best_is_graded env (unsafe_ceiling cfg v) st0" by (auto simp: loop_inv_def)
      with False st0 show ?thesis by (auto intro: finish_repair_compiles finish_repair_final)
    qed
  qed
  with r show ?thesis by blast
qed

text \<open>
  The whole stage: it ends, keeps the C source, a unit whose state claims it builds does, and outputs that
  are not large end in a final state.
\<close>

definition repaired :: "'exe workbench \<Rightarrow> string \<Rightarrow> bool \<Rightarrow> function_unit \<Rightarrow> bool" where
  "repaired wb src large u \<longleftrightarrow>
     c_source u = src \<and> (\<not> large \<longrightarrow> final_state (unit_state u))
     \<and> (claims_build (unit_state u) \<longrightarrow> output_compiles wb u)"

lemma hybrid_branch_outcome:
  assumes run: "bind_result (hybrid_repair env cfg d p) (\<lambda>(resolved, p1).
          if resolved then
            bind_result (validate_unit env (min_idiomatic_score cfg) (work p1)) (\<lambda>v'.
              Inr (update_work (\<lambda>u. apply_validation_with_max u v' mx) p1))
          else Inr p1) = Inr q"
    and state: "\<not> claims_build (unit_state (work p))"
  shows "repaired (bench env) (c_source (work p)) True (work q)"
proof -
  obtain resolved p1 where h: "hybrid_repair env cfg d p = Inr (resolved, p1)"
    using run by (auto simp: bind_result_Inr_iff)
  note keep = hybrid_repair_result [OF h]
  show ?thesis
  proof (cases resolved)
    case False
    with run h have "q = p1" by simp
    with keep state show ?thesis by (simp add: repaired_def)
  next
    case True
    with run h obtain v' where "validate_unit env (min_idiomatic_score cfg) (work p1) = Inr v'"
        "q = update_work (\<lambda>u. apply_validation_with_max u v' mx) p1"
      by (auto simp: bind_result_Inr_iff)
    moreover from this(1) have "claims_build (unit_state (apply_validation_with_max (work p1) v' mx))
        \<Longrightarrow> output_compiles (bench env) (apply_validation_with_max (work p1) v' mx)"
      by (rule apply_validated_compiles)
    ultimately show ?thesis using keep by (simp add: repaired_def)
  qed
qed

lemma repair_stage_outcome:
  assumes v: "validate_unit env (min_idiomatic_score cfg) (work p) = Inr v"
    and state: "unit_state (work p) = next_state s (passed v) mx"
    and fuel: "unat mx + 1 < 2 ^ 32" "unat mx \<le> fuel"
  shows "\<exists>r. repair_stage fuel env cfg d analysis mx n v p = Some r
    \<and> (\<forall>q. r = Inr q \<longrightarrow> repaired (bench env) (c_source (work p)) (modular_file_loc < n) (work q))"
proof (cases "passed v")
  case True
  with v show ?thesis
    by (simp add: repair_stage_def passed_compiles repaired_def final_state_def claims_next_state state)
next
  case failed: False
  then have open_state: "\<not> claims_build (unit_state (work p))" "unit_state (work p) \<noteq> Validated"
    by (simp_all add: state claims_next_state next_state_Validated)
  show ?thesis
  proof (cases "modular_file_loc < n")
    case True
    from hybrid_branch_outcome [OF _ open_state(1)] True failed show ?thesis
      unfolding repair_stage_def by (simp only: if_True if_False simp_thms) blast
  next
    case False
    obtain r where r: "legacy_repair fuel env cfg d analysis mx n v p = Some r"
      and out: "\<And>st. r = Inr st \<Longrightarrow> c_source (work st) = c_source (work p) \<and> final_state (unit_state (work st))
         \<and> (claims_build (unit_state (work st)) \<longrightarrow> output_compiles (bench env) (work st))"
      using legacy_repair_outcome [OF v open_state(2) fuel, of d analysis] by blast
    have "repair_stage fuel env cfg d analysis mx n v p = Some (map_sum id pipeline.truncate r)"
      using False failed r by (simp add: repair_stage_def)
    moreover have "repaired (bench env) (c_source (work p)) (modular_file_loc < n) (work q)"
      if "map_sum id pipeline.truncate r = Inr q" for q
      using that out False by (cases r) (auto simp: pipeline.defs repaired_def)
    ultimately show ?thesis by blast
  qed
qed

end
