(* ===== verification/File_Facts.thy ===== *)
theory File_Facts
  imports File_Pipeline Repair_Outcome
begin

text \<open>
  Facts about the stages of the file pipeline: what each stage keeps, what a finished migration looks
  like with and without a model, and when the cache changes.
\<close>

section \<open>What the stages leave alone\<close>

text \<open>The part of a unit the validation looks at, with the state of the unit.\<close>

definition result_of :: "function_unit \<Rightarrow> string \<times> string \<times> string option \<times> migration_state" where
  "result_of u = (unit_name u, c_source u, rust_output u, unit_state u)"

text \<open>The source and the cache, which all stages before the end keep.\<close>

definition base_of :: "file_state \<Rightarrow> string \<times> (string \<rightharpoonup> string) \<times> bool" where
  "base_of st = (c_source (work st), cache_files st, cache_writable st)"

lemma base_work: "base_of st' = base_of st \<Longrightarrow> c_source (work st') = c_source (work st)"
  by (simp add: base_of_def)

lemma base_update_work [simp]:
  "c_source (f (work st)) = c_source (work st) \<Longrightarrow> base_of (update_work f st) = base_of st"
  by (simp add: base_of_def update_work_def)

lemma base_update_metrics [simp]: "base_of (update_metrics f st) = base_of st"
  by (simp add: update_metrics_def)

lemma result_update_metrics [simp]: "result_of (work (update_metrics f st)) = result_of (work st)"
  by (simp add: update_metrics_def result_of_def)

lemma base_save [simp]: "base_of (save a st) = base_of st" "base_of (audit e st) = base_of st"
  "base_of (st\<lparr>calls_made := n\<rparr>) = base_of st"
  by (simp_all add: base_of_def save_def audit_def)

lemma base_save_more [simp]: "base_of (st\<lparr>calls_made := n, saves := l\<rparr>) = base_of st"
  by (simp add: base_of_def)

lemma then_stage_keeps:
  assumes "then_stage r f = Inr (Proceed b)" and "\<And>a. r = Inr (Proceed a) \<Longrightarrow> f a = Inr (Proceed b) \<Longrightarrow> P"
  shows P
  using assms by (auto simp: then_stage_Proceed)

lemma proceed_Inr [simp]: "proceed r = Inr (Proceed a) \<longleftrightarrow> r = Inr a" "proceed r \<noteq> Inr Fallback"
  by (cases r; simp add: proceed_def)+

lemma proceed_simps [simp]: "proceed (Inr x) = Inr (Proceed x)" "proceed (Inl e) = Inl e"
  by (simp_all add: proceed_def)

lemma preprocess_base: "base_of (preprocess_stage env cfg c st) = base_of st"
  by (simp add: preprocess_stage_def split: sum.splits)

lemma classify_base: "base_of (snd (classify_stage env st)) = base_of st"
  by (simp add: classify_stage_def Let_def)

lemma c2rust_base: "base_of (c2rust_stage env cfg c st) = base_of st"
  by (simp add: c2rust_stage_def split: sum.splits)

lemma budget_stage_Inr: "budget_stage cfg st = Inr st' \<Longrightarrow> st' = st"
  by (auto simp: budget_stage_def bind_result_Inr_iff)

lemma analysis_base:
  assumes "analysis_stage env cfg d st = Inr (Proceed (a, st'))"
  shows "base_of st' = base_of st"
proof -
  from assms obtain sel where sel: "lift_agent (select_model (providers cfg) d ''analysis'') = Inr sel"
    by (auto simp: analysis_stage_def then_stage_Proceed)
  obtain r n where run: "analyze_function_with_temperature (client env) (analysis_of_json env) (analysis_preamble env)
      (sel_model sel) (c_source (work st)) (unit_name (work st)) (analysis_temperature cfg) (calls_made st) = (r, n)"
    by fastforce
  show ?thesis
    using assms by (cases r) (auto simp: analysis_stage_def then_stage_Proceed sel run Let_def dest!: budget_stage_Inr)
qed

lemma spec_base: "spec_stage env st = Some (traces, st') \<Longrightarrow> base_of st' = base_of st"
  by (auto simp: spec_stage_def split: if_splits option.splits sum.splits)

lemma cache_stage_base: "base_of (cache_stage env st) = base_of st"
  by (simp add: cache_stage_def split: option.splits)

lemma modular_base:
  assumes "modular_stage modular d a st = Inr st'"
  shows "base_of st' = base_of st"
proof (cases "unit_state (work st) \<noteq> Refined \<and> modular_file_loc < length (lines (c_source (work st)))")
  case True
  with assms obtain outcome n saved where "modular d a (work st) (calls_made st) = Inr (outcome, n, saved)"
    by (auto simp: modular_stage_def bind_result_Inr_iff)
  with assms True show ?thesis by (cases outcome) (auto simp: modular_stage_def Let_def)
qed (use assms in \<open>auto simp: modular_stage_def split: if_splits\<close>)

lemma save_chunks_base: "base_of (save_chunks r st) = base_of st"
proof -
  have "base_of (foldl (\<lambda>s c. save (SavedChunk (chunk_index c) (chunk_rust c)) s) st cs) = base_of st" for cs
    by (induction cs arbitrary: st) (simp_all only: foldl.simps base_save)
  then show ?thesis by (auto simp: save_chunks_def Let_def split: option.splits)
qed

lemma first_translation_base: "first_translation env tt st = Proceed (rust, st') \<Longrightarrow> base_of st' = base_of st"
  by (auto simp: first_translation_def Let_def save_chunks_base split: if_splits prod.splits sum.splits)

lemma second_attempt_base: "base_of (snd (second_attempt tt reason bad ok x)) = base_of (snd x)"
  by (auto simp: second_attempt_def Let_def split: prod.splits sum.splits)

lemma record_translation_base: "base_of (record_translation env x) = base_of (snd x)"
  by (cases x) (simp add: record_translation_def Let_def)

lemma translation_stage_cases:
  assumes "translation_stage env cfg d a st = Inr (Proceed st')"
  obtains (cached) "unit_state (work st) = Refined" "st' = st"
  | (fresh) tt rust st0 where "unit_state (work st) \<noteq> Refined" "first_translation env tt st = Proceed (rust, st0)"
      "st' = record_translation env (unsafe_gate env tt (substance_gate tt (rust, st0)))"
      "check_budget (max_tokens_budget cfg) (max_llm_calls cfg) (metrics (work st')) = Inr ()"
proof (cases "unit_state (work st) = Refined")
  case True
  have "Inr (Proceed st) = (Inr (Proceed st') :: file_state stage)"
    using assms unfolding translation_stage_def by (simp only: True if_True simp_thms)
  then have "st' = st" by simp
  with True show thesis by (rule cached)
next
  case False
  define pick where "pick = lift_agent (select_model (providers cfg) d ''translation'')"
  define run where "run = (\<lambda>sel :: model_selection. let tt = translation_task_of env cfg (sel_model sel) a st
          in case first_translation env tt st of
               Fallback \<Rightarrow> Inr Fallback
             | Proceed x \<Rightarrow> proceed (budget_stage cfg (record_translation env (unsafe_gate env tt (substance_gate tt x)))))"
  have "then_stage (proceed pick) run = Inr (Proceed st')"
    using assms False unfolding translation_stage_def pick_def run_def by (simp only: if_False)
  then obtain sel where "run sel = Inr (Proceed st')"
    by (cases pick) simp_all
  then obtain x where first: "first_translation env (translation_task_of env cfg (sel_model sel) a st) st = Proceed x"
    and budget: "budget_stage cfg (record_translation env (unsafe_gate env (translation_task_of env cfg (sel_model sel) a st)
          (substance_gate (translation_task_of env cfg (sel_model sel) a st) x))) = Inr st'"
    unfolding run_def Let_def
    by (cases "first_translation env (translation_task_of env cfg (sel_model sel) a st) st") simp_all
  have st': "st' = record_translation env (unsafe_gate env (translation_task_of env cfg (sel_model sel) a st)
          (substance_gate (translation_task_of env cfg (sel_model sel) a st) x))"
    using budget by (rule budget_stage_Inr)
  have ok: "check_budget (max_tokens_budget cfg) (max_llm_calls cfg) (metrics (work st')) = Inr ()"
    using budget unfolding st' [symmetric] by (simp add: budget_stage_def bind_result_Inr_iff)
  obtain rust st0 where x: "x = (rust, st0)" by fastforce
  show thesis by (rule fresh [OF False first [unfolded x] st' [unfolded x] ok])
qed

lemma translation_base:
  assumes "translation_stage env cfg d a st = Inr (Proceed st')"
  shows "base_of st' = base_of st"
  using assms
proof (cases rule: translation_stage_cases)
  case (fresh tt rust st0)
  then show ?thesis using first_translation_base [OF fresh(2)]
    by (simp add: record_translation_base unsafe_gate_def substance_gate_def second_attempt_base Let_def)
qed simp

text \<open>The completion answers with the unit as it was or with a completed output.\<close>

lemma completion_cases:
  assumes "completion_stage env cfg d a st = Inr st'"
  obtains (same) n where "st' = st\<lparr>calls_made := n\<rparr>"
  | (more) r :: completion_result and n where "st' = save (SavedTranslation (completed r))
        (update_metrics (\<lambda>m. m\<lparr>llm_calls := llm_calls m + as_u32 (passes r)\<rparr>)
          (update_work (\<lambda>u. u\<lparr>rust_output := Some (completed r)\<rparr>) (st\<lparr>calls_made := n\<rparr>)))"
proof (cases "rust_output (work st)")
  case None
  with assms have "st' = st\<lparr>calls_made := calls_made st\<rparr>" by (simp add: completion_stage_def)
  then show thesis by (rule same)
next
  case (Some rust)
  define missing where "missing = find_missing_c_functions (grammars (bench env))
      (extract_c_functions (grammars (bench env)) (c_source (work st))) rust"
  define enough where "enough \<longleftrightarrow> missing = []
      \<or> 5 * length missing \<le> length (extract_c_functions (grammars (bench env)) (c_source (work st)))"
  show thesis
  proof (cases enough)
    case True
    with assms Some have "st' = st\<lparr>calls_made := calls_made st\<rparr>"
      by (simp add: completion_stage_def Let_def missing_def [symmetric] enough_def [symmetric])
    then show thesis by (rule same)
  next
    case False
    with assms Some obtain sel where sel: "lift_agent (select_model (providers cfg) d ''translation'') = Inr sel"
      by (auto simp: completion_stage_def Let_def missing_def [symmetric] enough_def [symmetric] bind_result_Inr_iff)
    obtain r n where run: "translate_completion_pass (grammars (bench env)) (translation_task_of env cfg (sel_model sel) a st)
        (c_source (work st)) rust 400 5 (3/10) (calls_made st) = (r, n)"
      by fastforce
    show thesis
    proof (cases r)
      case (Inl e)
      with assms Some False sel run have "st' = st\<lparr>calls_made := n\<rparr>"
        by (simp add: completion_stage_def Let_def missing_def [symmetric] enough_def [symmetric])
      then show thesis by (rule same)
    next
      case (Inr c)
      with assms Some False sel run show thesis
        by (intro more [of c n]) (simp add: completion_stage_def Let_def missing_def [symmetric] enough_def [symmetric])
    qed
  qed
qed

lemma completion_base:
  assumes "completion_stage env cfg d a st = Inr st'"
  shows "base_of st' = base_of st"
  using assms
proof (cases rule: completion_cases)
  case (same n)
  then show ?thesis by simp
next
  case (more r n)
  show ?thesis unfolding more(1) by (simp add: base_of_def update_work_def update_metrics_def save_def)
qed

lemma translated_base: "translated env cfg modular d a st = Inr (Proceed st') \<Longrightarrow> base_of st' = base_of st"
  by (auto simp: translated_def then_stage_Proceed dest!: completion_base translation_base modular_base
      simp: cache_stage_base)

section \<open>The repair and what follows\<close>

lemma bench_truncate [simp]: "bench (environment.truncate env) = bench env"
  by (simp add: environment.defs)

lemma work_truncate [simp]: "work (pipeline.truncate p) = work p"
  by (simp add: pipeline.defs)

definition enough_fuel :: "migration_config \<Rightarrow> string \<Rightarrow> nat \<Rightarrow> bool" where
  "enough_fuel cfg src fuel \<longleftrightarrow> unat (repair_limit cfg src) + 1 < 2 ^ 32 \<and> unat (repair_limit cfg src) \<le> fuel"

definition is_large :: "string \<Rightarrow> bool" where
  "is_large src \<longleftrightarrow> modular_file_loc < length (lines src)"

lemma repaired_same: "result_of u' = result_of u \<Longrightarrow> repaired wb src large u' = repaired wb src large u"
  by (simp add: repaired_def result_of_def output_compiles_def)

lemma validation_stage_Inr:
  assumes "validation_stage env cfg st = Inr (v, st')"
  shows "validate_unit (environment.truncate env) (min_idiomatic_score cfg) (work st) = Inr v"
    and "work st' = apply_validation_with_max (work st) v (repair_limit cfg (c_source (work st)))"
    and "base_of st' = base_of st"
  using assms by (auto simp: validation_stage_def bind_result_Inr_iff Let_def)

lemma spec_validation_keeps:
  "result_of (work (spec_validation_stage env traces v st)) = result_of (work st)"
  "base_of (spec_validation_stage env traces v st) = base_of st"
  by (auto simp: spec_validation_stage_def spec_feedback_def result_of_def split: option.splits sum.splits)

lemma after_repair_keeps:
  "work (after_repair st p) = work p"
  "c_source (work p) = c_source (work st) \<Longrightarrow> base_of (after_repair st p) = base_of st"
  by (simp_all add: after_repair_def base_of_def)

lemma run_repair_outcome:
  assumes v: "validate_unit (environment.truncate env) (min_idiomatic_score cfg) (work st) = Inr v"
    and state: "unit_state (work st) = next_state s (passed v) (repair_limit cfg (c_source (work st)))"
    and fuel: "enough_fuel cfg (c_source (work st)) fuel"
  shows "\<exists>r. run_repair fuel env cfg d analysis v st = Some r
    \<and> (\<forall>q. r = Inr q \<longrightarrow> base_of q = base_of st
         \<and> repaired (bench env) (c_source (work st)) (is_large (c_source (work st))) (work q))"
proof -
  let ?p = "pipeline.truncate st" and ?src = "c_source (work st)"
  obtain r where r: "repair_stage fuel (environment.truncate env) cfg d analysis (repair_limit cfg ?src)
        (length (lines ?src)) v ?p = Some r"
    and out: "\<And>q. r = Inr q \<Longrightarrow> repaired (bench env) ?src (is_large ?src) (work q)"
    using repair_stage_outcome [of "environment.truncate env" cfg ?p v s "repair_limit cfg ?src" fuel d analysis
        "length (lines ?src)"] v state fuel
    unfolding work_truncate enough_fuel_def is_large_def bench_truncate by blast
  have "base_of (after_repair st q) = base_of st
      \<and> repaired (bench env) ?src (is_large ?src) (work (after_repair st q))" if "r = Inr q" for q
    using out [OF that] by (simp add: after_repair_keeps repaired_def)
  with r show ?thesis
    by (intro exI [of _ "map_sum id (after_repair st) r"], cases r) (auto simp: run_repair_def Let_def)
qed

lemma test_gen_keeps:
  assumes "test_gen_stage env cfg d st = Inr st'"
  shows "result_of (work st') = result_of (work st)" and "base_of st' = base_of st"
proof -
  have "result_of (work st') = result_of (work st) \<and> base_of st' = base_of st"
  proof (cases "unit_state (work st) = Validated \<and> generate_tests cfg")
    case False
    with assms show ?thesis by (auto simp: test_gen_stage_def Let_def split: if_splits)
  next
    case True
    with assms obtain sel :: model_selection where
      sel: "lift_agent (select_model (providers cfg) d ''test_gen'') = Inr sel"
      by (auto simp: test_gen_stage_def Let_def bind_result_Inr_iff)
    obtain r n where "generate_tests_with_temperature (client env) (sel_model sel) (c_source (work st))
        (unwrap_or (rust_output (work st)) []) (unit_name (work st)) (test_gen_temperature cfg) (calls_made st) = (r, n)"
      by fastforce
    with assms True sel show ?thesis
      by (cases r) (auto simp: test_gen_stage_def Let_def result_of_def update_metrics_def)
  qed
  then show "result_of (work st') = result_of (work st)" "base_of st' = base_of st" by auto
qed

lemma fuzz_keeps:
  "result_of (work (fuzz_stage env cfg st)) = result_of (work st)"
  "base_of (fuzz_stage env cfg st) = base_of st"
  by (auto simp: fuzz_stage_def fuzz_feedback_def result_of_def split: option.splits sum.splits)

lemma save_option_keeps [simp]:
  "work (save_option mk x st) = work st" "base_of (save_option mk x st) = base_of st"
  by (simp_all add: save_option_def split: option.splits)

lemma finish_keeps:
  "result_of (work (finish_stage env v st)) = result_of (work st)"
  "base_of (finish_stage env v st) = base_of st"
  by (simp_all add: finish_stage_def Let_def finalize_metrics_def result_of_def)

text \<open>The cache changes only for a validated unit, and then at the entry of its source.\<close>

definition cache_step :: "('exe, 'g) file_environment \<Rightarrow> string \<Rightarrow> bool \<Rightarrow> (string \<rightharpoonup> string) \<Rightarrow> function_unit
    \<Rightarrow> (string \<rightharpoonup> string) \<Rightarrow> bool" where
  "cache_step env src writable old u new \<longleftrightarrow>
     (case rust_output u of
        Some rust \<Rightarrow>
          new = (if unit_state u = Validated \<and> writable then old(cache_path env src \<mapsto> rust) else old)
      | None \<Rightarrow> new = old)"

lemma keep_stage_cache:
  "work (keep_stage env st) = work st"
  "cache_step env (c_source (work st)) (cache_writable st) (cache_files st) (work st) (cache_files (keep_stage env st))"
  by (auto simp: keep_stage_def cache_put_def cache_step_def split: option.splits)

lemma cache_step_same:
  "result_of u' = result_of u \<Longrightarrow> cache_step env src w old u' new = cache_step env src w old u new"
  by (auto simp: cache_step_def result_of_def split: option.splits)

lemma result_source: "result_of u' = result_of u \<Longrightarrow> c_source u' = c_source u"
  by (simp add: result_of_def)

text \<open>From the validation on: it ends, and what it ends with.\<close>

lemma validated_tail_outcome:
  assumes "enough_fuel cfg (c_source (work st)) fuel"
  shows "\<exists>r. validated_tail fuel env cfg d analysis traces st = Some r
    \<and> (\<forall>st'. r = Inr st' \<longrightarrow> repaired (bench env) (c_source (work st)) (is_large (c_source (work st))) (work st')
         \<and> cache_step env (c_source (work st)) (cache_writable st) (cache_files st) (work st') (cache_files st'))"
proof (cases "validation_stage env cfg st")
  case (Inl e)
  then show ?thesis by (simp add: validated_tail_def)
next
  case (Inr vst)
  then obtain v st1 where run: "validation_stage env cfg st = Inr (v, st1)" by (cases vst) auto
  note first = validation_stage_Inr [OF run]
  define st2 where "st2 = spec_validation_stage env traces v st1"
  have st2: "result_of (work st2) = result_of (work st1)" "base_of st2 = base_of st"
    by (simp_all add: st2_def spec_validation_keeps first(3))
  have src: "c_source (work st2) = c_source (work st)" using st2(2) by (rule base_work)
  have v2: "validate_unit (environment.truncate env) (min_idiomatic_score cfg) (work st2) = Inr v"
    using first(1,2) st2(1) validate_same_sources [of "work st2" "work st" "environment.truncate env" "min_idiomatic_score cfg"]
    by (simp add: result_of_def)
  have state: "unit_state (work st2) = next_state (unit_state (work st)) (passed v) (repair_limit cfg (c_source (work st2)))"
    using st2(1) first(2) src by (simp add: result_of_def)
  obtain r where r: "run_repair fuel env cfg d analysis v st2 = Some r"
    and out: "\<And>q. r = Inr q \<Longrightarrow> base_of q = base_of st2
        \<and> repaired (bench env) (c_source (work st)) (is_large (c_source (work st))) (work q)"
    using run_repair_outcome [OF v2 state, of fuel d analysis] assms src by auto
  define finish where "finish = (\<lambda>q. bind_result (test_gen_stage env cfg d q) (\<lambda>q'.
      Inr (finish_stage env v (fuzz_stage env cfg (keep_stage env q')))))"
  have tail: "validated_tail fuel env cfg d analysis traces st = Some (bind_result r finish)"
    by (simp add: validated_tail_def run r [unfolded st2_def] finish_def)
  moreover have "repaired (bench env) (c_source (work st)) (is_large (c_source (work st))) (work st')
      \<and> cache_step env (c_source (work st)) (cache_writable st) (cache_files st) (work st') (cache_files st')"
    if end_state: "bind_result r finish = Inr st'" for st'
  proof -
    obtain q q' where q: "r = Inr q" "test_gen_stage env cfg d q = Inr q'"
      and st': "st' = finish_stage env v (fuzz_stage env cfg (keep_stage env q'))"
      using end_state by (auto simp: bind_result_Inr_iff finish_def)
    note keep = test_gen_keeps [OF q(2)]
    have res: "result_of (work st') = result_of (work q')"
      by (simp add: st' finish_keeps fuzz_keeps keep_stage_cache)
    have base: "base_of q' = base_of st" using out [OF q(1)] keep(2) st2(2) by simp
    have cache: "cache_files st' = cache_files (keep_stage env q')"
      using finish_keeps(2) [of env v "fuzz_stage env cfg (keep_stage env q')"] fuzz_keeps(2) [of env cfg "keep_stage env q'"]
      by (simp add: st' base_of_def)
    have "repaired (bench env) (c_source (work st)) (is_large (c_source (work st))) (work st')"
      using out [OF q(1)] by (simp add: repaired_same [OF res] repaired_same [OF keep(1)])
    moreover have "cache_step env (c_source (work st)) (cache_writable st) (cache_files st) (work st') (cache_files st')"
      using keep_stage_cache(2) [of env q'] base
      by (simp add: cache cache_step_same [OF res] base_of_def)
    ultimately show ?thesis by blast
  qed
  ultimately show ?thesis by blast
qed

section \<open>The whole pipeline\<close>

lemma migrate_with_client_cases:
  assumes "migrate_with_client fuel env cfg modular c_file st0 = Some (Inr (Proceed st))"
  obtains d analysis traces st4 where "base_of st4 = base_of st0"
    "validated_tail fuel env cfg d analysis traces st4 = Some (Inr st)"
proof -
  obtain d st1 where classify: "classify_stage env (preprocess_stage env cfg c_file st0) = (d, st1)" by fastforce
  have b1: "base_of st1 = base_of st0"
    using classify_base [of env "preprocess_stage env cfg c_file st0"] by (simp add: classify preprocess_base)
  obtain x where "analysis_stage env cfg d (c2rust_stage env cfg c_file st1) = Inr (Proceed x)"
    using assms by (auto simp: migrate_with_client_def classify split: sum.splits stage_result.splits)
  then obtain analysis st2 where an: "analysis_stage env cfg d (c2rust_stage env cfg c_file st1) = Inr (Proceed (analysis, st2))"
    by (cases x) simp
  have b2: "base_of st2 = base_of st0" using analysis_base [OF an] b1 by (simp add: c2rust_base)
  obtain y where "spec_stage env st2 = Some y"
    using assms by (auto simp: migrate_with_client_def classify an split: option.splits)
  then obtain traces st3 where sp: "spec_stage env st2 = Some (traces, st3)" by (cases y) simp
  have b3: "base_of st3 = base_of st0" using spec_base [OF sp] b2 by simp
  obtain st4 where tr: "translated env cfg modular d analysis st3 = Inr (Proceed st4)"
    using assms by (auto simp: migrate_with_client_def classify an sp split: sum.splits stage_result.splits)
  have b4: "base_of st4 = base_of st0" using translated_base [OF tr] b3 by simp
  obtain r where r: "validated_tail fuel env cfg d analysis traces st4 = Some r" "proceed r = Inr (Proceed st)"
    using assms by (auto simp: migrate_with_client_def classify an sp tr)
  from b4 r show thesis using that by simp
qed

text \<open>Without a model the unit is left alone, validated, or in its first repair state.\<close>

definition sync_result :: "'exe workbench \<Rightarrow> function_unit \<Rightarrow> bool" where
  "sync_result wb u \<longleftrightarrow>
     (unit_state u = Extracted \<and> rust_output u = None)
     \<or> (unit_state u = Validated \<and> output_compiles wb u)
     \<or> (unit_state u = Repairing 1 \<and> rust_output u \<noteq> None)"

lemma validated_sync_result:
  assumes "validate wb u = Inr v" and "unit_state u = Refined \<or> unit_state u = C2RustDone"
  shows "sync_result wb (apply_validation u v)"
proof -
  have "rust_output u \<noteq> None" "passed v \<Longrightarrow> output_compiles wb u"
    using assms(1) verdict_compiles by (auto simp: validate_def validate_Inr Let_def output_compiles_def)
  with assms(2) show ?thesis
    by (auto simp: sync_result_def apply_validation_def next_state_def output_compiles_def)
qed

lemma sync_translation_result:
  assumes "sync_translation fuel env c_file u = Some (b, u')"
  shows "c_source u' = c_source u"
    and "if b then unit_state u' = Refined \<or> unit_state u' = C2RustDone
         else unit_state u' = Extracted \<and> rust_output u' = rust_output u"
  using assms by (auto simp: sync_translation_def split: sum.splits option.splits)

lemma sync_unit_result:
  assumes "sync_unit fuel env c_file src = Some (Inr u)"
  shows "c_source u = src \<and> sync_result (bench env) u"
proof -
  obtain b u0 where tr: "sync_translation fuel env c_file
          ((new_unit (file_name_stem env c_file) c_file src)\<lparr>unit_state := Extracted\<rparr>) = Some (b, u0)"
    and run: "(if b then bind_result (lift_validation (validate (bench env) u0)) (\<lambda>v. Inr (apply_validation u0 v)) else Inr u0)
        = Inr u"
    using assms by (auto simp: sync_unit_def)
  note r = sync_translation_result [OF tr]
  have src: "c_source u0 = src" using r(1) by (simp add: new_unit_def)
  show ?thesis
  proof (cases b)
    case True
    with run obtain v where v: "validate (bench env) u0 = Inr v" "u = apply_validation u0 v"
      by (auto simp: bind_result_Inr_iff lift_validation_def split: sum.splits)
    with r(2) True validated_sync_result [OF v(1)] src show ?thesis by (simp add: apply_validation_def)
  next
    case False
    with run r(2) src show ?thesis by (simp add: sync_result_def new_unit_def)
  qed
qed

end
