(* ===== verification/File_Outcome.thy ===== *)
theory File_Outcome
  imports File_Facts
begin

text \<open>
  What a migration of a file or a directory guarantees: the states it ends in, the cache, termination, the
  gates of the translation, the path without a model; with a concrete environment in which a run is followed.
\<close>

section \<open>A run with a model\<close>

definition demo_tools :: "string spec_tools" where
  "demo_tools = \<lparr>spec_chain = echo_toolchain, write_text = (\<lambda>_. Inr ()), rustc_test = (\<lambda>_. None),
     trace_of_json = (\<lambda>_. None)\<rparr>"

definition demo_environment :: "(string, unit) file_environment" where
  "demo_environment =
     \<lparr>bench = clean_workbench, client = (\<lambda>n p. Inr ''{}''), regexes = example_engine, repair_preamble = [],
      translation_preamble = [], pattern_files = [],
      read_source = (\<lambda>_. Inr ''int main(void);''), read_directory = (\<lambda>_. Inr [''m.c'']),
      c2_tools = \<lparr>canonical = (\<lambda>_. Inl []), write_compile_commands = (\<lambda>_. Inr ()), run_c2rust = (\<lambda>_. None),
                  stem_of = (\<lambda>_. Some ''m'')\<rparr>,
      pp_env = \<lparr>read_c_file = (\<lambda>_. Inr ''int main(void);''), run_command = (\<lambda>_ _. None), last_component = id,
                temp_c_file = Inr\<rparr>,
      detecting = \<lparr>det_regex = example_engine, hash_order = id\<rparr>, spec_env = demo_tools,
      analysis_of_json = (\<lambda>_. Inr plain_analysis), analysis_preamble = [], add_hints = (\<lambda>_ a. a),
      debug_analysis = (\<lambda>_. []), source_hash = (\<lambda>_. ''h''), fuzz_rng = low_rng, fuzz_start = (\<lambda>_. ()),
      clock = (\<lambda>_. 0), has_client = True, audit_at = None\<rparr>"

definition demo_cache :: "string \<rightharpoonup> string" where
  "demo_cache = [cache_path demo_environment ''int main(void);'' \<mapsto> ''fn main() {}'']"

definition no_modular :: modular_migration where
  "no_modular = (\<lambda>d a u n. Inr (FallbackToChunked, n, []))"

definition demo_start :: file_state where
  "demo_start = initial_state demo_environment demo_cache True ''m.c'' ''int main(void);''"

lemma main_validates_at:
  assumes "rust_output u = Some ''fn main() {}''" "c_source u = ''int main(void);''" "m \<le> 60"
  shows "\<exists>v. validate_with_threshold clean_workbench u m = Inr v \<and> passed v"
proof -
  have c: "contains ''int main(void);'' ''int main(''" by code_simp
  obtain d where "run_diff_test echo_toolchain ''int main(void);'' ''fn main() {}'' = Inr d" "dt_passed d"
    using echo_diff_test by blast
  then have "diff_step clean_workbench u ''fn main() {}'' True = (Some True, [])"
    using c assms by (simp add: diff_step_def test_c_source_def clean_workbench_def)
  then show ?thesis using order.trans [OF assms(3) main_unit_score] assms
    by (auto simp: validate_Inr Let_def check_rust_compiles_def run_clippy_on_source_def
        count_unsafe_blocks_def clean_workbench_def verdict_def as_u32_def)
qed

lemmas main_validates = main_validates_at [OF _ _ order.refl]

lemma no_functions: "extract_c_functions no_parsers src = []"
  by (simp add: extract_c_functions_def extract_c_functions_ast_def extract_c_functions_regex_def no_parsers_def)

lemma demo_analysis: "\<exists>a st'. analysis_stage demo_environment plain_config d st = Inr (Proceed (a, st'))"
proof -
  have "\<exists>sel. lift_agent (select_model (providers plain_config) d ''analysis'') = Inr sel"
    by (simp add: select_model_def plain_config_def lift_agent_def)
  then obtain sel where sel: "lift_agent (select_model (providers plain_config) d ''analysis'') = Inr sel" ..
  have budget: "budget_stage plain_config st1 = Inr st1" for st1
    by (simp add: budget_stage_def check_budget_def plain_config_def)
  show ?thesis
    by (simp add: analysis_stage_def sel analyze_function_with_temperature_def parse_analysis_response_def
        demo_environment_def budget Let_def)
qed


lemma demo_specs: "\<exists>traces. spec_stage demo_environment st = Some (traces, st) \<or>
    spec_stage demo_environment st = Some (traces, save (SavedTraces traces) st)"
proof -
  have "grammars (bench demo_environment) = no_parsers" by (simp add: demo_environment_def clean_workbench_def)
  then show ?thesis
    by (auto simp: spec_stage_def mine_specs_def generate_instrumented_source_def find_instrumentable_functions_def
        no_functions instrument_def)
qed

lemma demo_translated:
  assumes "base_of st = base_of demo_start"
  shows "\<exists>st'. translated demo_environment plain_config no_modular d a st = Inr (Proceed st')
     \<and> base_of st' = base_of demo_start \<and> rust_output (work st') = Some ''fn main() {}''"
proof -
  have start: "c_source (work demo_start) = ''int main(void);''" "cache_files demo_start = demo_cache"
    by (simp_all add: demo_start_def initial_state_def Let_def new_unit_def save_def audit_def)
  have get: "cache_get demo_environment (c_source (work st)) st = Some ''fn main() {}''"
    using assms start by (simp add: base_of_def cache_get_def demo_cache_def)
  define st1 where "st1 = cache_stage demo_environment st"
  have st1: "unit_state (work st1) = Refined" "rust_output (work st1) = Some ''fn main() {}''" "base_of st1 = base_of st"
    using get cache_stage_base [of demo_environment st] by (simp_all add: st1_def cache_stage_def)
  have "completion_stage demo_environment plain_config d a st1 = Inr st1"
    using st1(2) by (simp add: completion_stage_def Let_def demo_environment_def clean_workbench_def no_functions
        find_missing_c_functions_def)
  then have "translated demo_environment plain_config no_modular d a st = Inr (Proceed st1)"
    using st1(1) by (simp add: translated_def st1_def [symmetric] modular_stage_def translation_stage_def)
  with st1 assms show ?thesis by auto
qed

lemma demo_tail:
  assumes "c_source (work st) = ''int main(void);''" "rust_output (work st) = Some ''fn main() {}''"
  shows "\<exists>st'. validated_tail fuel demo_environment plain_config d a traces st = Some (Inr st')
     \<and> unit_state (work st') = Validated \<and> rust_output (work st') = Some ''fn main() {}''
     \<and> c_source (work st') = ''int main(void);''"
proof -
  obtain v where v: "validate_with_threshold clean_workbench (work st) 60 = Inr v" "passed v"
    using main_validates [OF assms(2,1)] by blast
  have unit: "validate_unit (environment.truncate demo_environment) (min_idiomatic_score plain_config) (work st) = Inr v"
    using v(1) by (simp add: validate_unit_def plain_config_def demo_environment_def)
  then obtain st1 where st1: "validation_stage demo_environment plain_config st = Inr (v, st1)"
    by (simp add: validation_stage_def Let_def)
  define st2 where "st2 = spec_validation_stage demo_environment traces v st1"
  define st3 where "st3 = after_repair st2 (pipeline.truncate st2)"
  have ok: "unit_state (work st3) = Validated \<and> rust_output (work st3) = Some ''fn main() {}''
      \<and> c_source (work st3) = ''int main(void);''"
    using assms validation_stage_Inr [OF st1] v(2) spec_validation_keeps(1) [of demo_environment traces v st1]
    by (simp add: st3_def st2_def after_repair_keeps result_of_def next_state_Validated)
  have "run_repair fuel demo_environment plain_config d a v st2 = Some (Inr st3)"
    using v(2) by (simp add: run_repair_def Let_def repair_stage_def st3_def)
  moreover have "test_gen_stage demo_environment plain_config d st3 = Inr st3"
    by (simp add: test_gen_stage_def plain_config_def Let_def)
  ultimately have "validated_tail fuel demo_environment plain_config d a traces st
      = Some (Inr (finish_stage demo_environment v (fuzz_stage demo_environment plain_config (keep_stage demo_environment st3))))"
    by (simp add: validated_tail_def st1 st2_def [symmetric])
  moreover have "result_of (work (finish_stage demo_environment v (fuzz_stage demo_environment plain_config
      (keep_stage demo_environment st3)))) = result_of (work st3)"
    using finish_keeps(1) [of demo_environment v "fuzz_stage demo_environment plain_config (keep_stage demo_environment st3)"]
      fuzz_keeps(1) [of demo_environment plain_config "keep_stage demo_environment st3"]
    by (simp add: keep_stage_cache)
  ultimately show ?thesis using ok by (auto simp: result_of_def)
qed

lemma demo_run:
  "\<exists>st. migrate_with_client fuel demo_environment plain_config no_modular ''m.c'' demo_start = Some (Inr (Proceed st))
     \<and> unit_state (work st) = Validated \<and> rust_output (work st) = Some ''fn main() {}''
     \<and> c_source (work st) = ''int main(void);''"
proof -
  obtain d st1 where classify: "classify_stage demo_environment (preprocess_stage demo_environment plain_config ''m.c'' demo_start) = (d, st1)"
    by fastforce
  have b1: "base_of st1 = base_of demo_start"
    using classify_base [of demo_environment "preprocess_stage demo_environment plain_config ''m.c'' demo_start"]
    by (simp add: classify preprocess_base)
  obtain a st2 where an: "analysis_stage demo_environment plain_config d (c2rust_stage demo_environment plain_config ''m.c'' st1)
      = Inr (Proceed (a, st2))"
    using demo_analysis by blast
  have b2: "base_of st2 = base_of demo_start" using analysis_base [OF an] b1 by (simp add: c2rust_base)
  obtain traces st3 where sp: "spec_stage demo_environment st2 = Some (traces, st3)" "base_of st3 = base_of demo_start"
    using demo_specs [of st2] b2 by fastforce
  obtain st4 where tr: "translated demo_environment plain_config no_modular d a st3 = Inr (Proceed st4)"
    "base_of st4 = base_of demo_start" "rust_output (work st4) = Some ''fn main() {}''"
    using demo_translated [OF sp(2)] by blast
  have "c_source (work st4) = ''int main(void);''"
    using base_work [OF tr(2)] by (simp add: demo_start_def initial_state_def Let_def new_unit_def)
  then obtain st where st: "validated_tail fuel demo_environment plain_config d a traces st4 = Some (Inr st)"
      "unit_state (work st) = Validated" "rust_output (work st) = Some ''fn main() {}''"
      "c_source (work st) = ''int main(void);''"
    using demo_tail [OF _ tr(3)] by blast
  then show ?thesis
    by (simp add: migrate_with_client_def classify an sp tr)
qed


lemma demo_limit: "repair_limit plain_config ''int main(void);'' = 5"
proof -
  have "length (lines ''int main(void);'') = 1" by code_simp
  then show ?thesis
    by (simp add: repair_limit_def effective_repair_iterations_def plain_config_def medium_file_loc_def
        massive_file_loc_def very_large_file_loc_def large_file_loc_def)
qed

lemma demo_fuel: "5 \<le> fuel \<Longrightarrow> enough_fuel plain_config ''int main(void);'' fuel"
  by (simp add: enough_fuel_def demo_limit)

lemma demo_read: "read_source demo_environment f = Inr ''int main(void);''"
  by (simp add: demo_environment_def)

lemma demo_checked: "read_checked demo_environment f = Inr ''int main(void);''"
  by (simp add: read_checked_def demo_read max_c_source_size_def)

lemma demo_migrates:
  "\<exists>u cache'. migrate_file 5 demo_environment plain_config no_modular demo_cache True ''m.c'' = Some (Inr (u, cache'))
     \<and> unit_state u = Validated"
proof -
  have "has_client demo_environment" by (simp add: demo_environment_def)
  with demo_run [of 5] show ?thesis by (auto simp: migrate_file_def demo_checked demo_start_def [symmetric])
qed

section \<open>What a migration ends with\<close>

lemma without_model_Inr:
  "without_model fuel env cache c_file = Some (Inr (u, cache')) \<longleftrightarrow>
     migrate_file_sync fuel env c_file = Some (Inr u) \<and> cache' = cache"
proof (cases "migrate_file_sync fuel env c_file")
  case (Some r)
  then show ?thesis by (cases r) (auto simp: without_model_def)
qed (simp add: without_model_def)

lemma migrate_file_cases:
  assumes "migrate_file fuel env cfg modular cache writable c_file = Some (Inr (u, cache'))"
    and "read_source env c_file = Inr src" and "enough_fuel cfg src fuel"
  obtains (model) "repaired (bench env) src (is_large src) u" "cache_step env src writable cache u cache'"
  | (plain) "migrate_file_sync fuel env c_file = Some (Inr u)" "cache' = cache"
proof -
  have read: "read_checked env c_file = Inr src"
    using assms(1,2) by (auto simp: migrate_file_def read_checked_def split: if_splits)
  define run where "run = migrate_with_client fuel env cfg modular c_file (initial_state env cache writable c_file src)"
  have result: "(if \<not> has_client env then without_model fuel env cache c_file
      else (case run of None \<Rightarrow> None | Some (Inl e) \<Rightarrow> Some (Inl e)
            | Some (Inr Fallback) \<Rightarrow> without_model fuel env cache c_file
            | Some (Inr (Proceed st)) \<Rightarrow> Some (Inr (work st, cache_files st)))) = Some (Inr (u, cache'))"
    using assms(1) unfolding migrate_file_def read run_def by simp
  consider (sync) "without_model fuel env cache c_file = Some (Inr (u, cache'))"
    | (client) st where "run = Some (Inr (Proceed st))" "u = work st" "cache' = cache_files st"
  proof (cases "has_client env")
    case False
    with result sync show ?thesis by simp
  next
    case True
    with result sync client show ?thesis
      by (cases run rule: option.exhaust, simp)
         (rename_tac res, case_tac res, simp, rename_tac x, case_tac x, simp_all)
  qed
  then show thesis
  proof cases
    case sync
    then show thesis by (intro plain) (simp_all add: without_model_Inr)
  next
    case (client st)
    from client(1) [unfolded run_def] obtain d analysis traces st4 where
      base: "base_of st4 = base_of (initial_state env cache writable c_file src)"
      and tail: "validated_tail fuel env cfg d analysis traces st4 = Some (Inr st)"
      by (rule migrate_with_client_cases)
    have start: "c_source (work st4) = src" "cache_files st4 = cache" "cache_writable st4 = writable"
      using base by (simp_all add: base_of_def initial_state_def Let_def new_unit_def save_def audit_def)
    from validated_tail_outcome [of cfg st4 fuel env d analysis traces] tail start assms(3)
    show thesis using client by (intro model) auto
  qed
qed

text \<open>
  C5: What the state of a migrated unit claims is true. Whatever route a file takes through the pipeline,
  when the unit ends as validated, as compiling with unsafe code or as compiling with a low score, the
  compiler accepts the Rust text the unit holds; and the unit still holds the C source that was read.
\<close>

theorem migrated_unit_compiles:
  assumes "migrate_file fuel env cfg modular cache writable c_file = Some (Inr (u, cache'))"
    and "read_source env c_file = Inr src" and "enough_fuel cfg src fuel"
  shows "c_source u = src \<and> (claims_build (unit_state u) \<longrightarrow> output_compiles (bench env) u)"
  using assms
proof (cases rule: migrate_file_cases)
  case model
  then show ?thesis by (simp add: repaired_def)
next
  case plain
  then have "sync_unit fuel env c_file src = Some (Inr u)"
    using assms(2) by (auto simp: migrate_file_sync_def read_checked_def split: if_splits)
  from sync_unit_result [OF this] show ?thesis by (auto simp: sync_result_def claims_build_def)
qed

theorem migrated_unit_compiles_witness:
  "\<exists>u cache'. migrate_file 5 demo_environment plain_config no_modular demo_cache True ''m.c'' = Some (Inr (u, cache'))
     \<and> unit_state u = Validated \<and> output_compiles (bench demo_environment) u"
proof -
  obtain u cache' where run: "migrate_file 5 demo_environment plain_config no_modular demo_cache True ''m.c'' = Some (Inr (u, cache'))"
      "unit_state u = Validated"
    using demo_migrates by blast
  from migrated_unit_compiles [OF run(1) demo_read demo_fuel [OF order_refl]] run show ?thesis by (auto simp: claims_build_def)
qed

definition cache_compiles :: "'exe workbench \<Rightarrow> (string \<rightharpoonup> string) \<Rightarrow> bool" where
  "cache_compiles wb cache \<longleftrightarrow>
     (\<forall>path rust. cache path = Some rust \<longrightarrow> (\<exists>r. check_rust_compiles wb rust = Inr r \<and> success r))"

text \<open>
  C13: The cache holds only texts that compile: a migration that starts with such a cache ends with one, and
  it changes at most the entry of its own source.
\<close>

theorem cache_stays_sound:
  assumes "migrate_file fuel env cfg modular cache writable c_file = Some (Inr (u, cache'))"
    and "read_source env c_file = Inr src" and "enough_fuel cfg src fuel"
    and "cache_compiles (bench env) cache"
  shows "cache_compiles (bench env) cache' \<and> (\<forall>path. path \<noteq> cache_path env src \<longrightarrow> cache' path = cache path)"
  using assms(1-3)
proof (cases rule: migrate_file_cases)
  case plain
  with assms(4) show ?thesis by simp
next
  case model
  show ?thesis
  proof (cases "cache' = cache")
    case True
    with assms(4) show ?thesis by simp
  next
    case False
    with model(2) obtain rust where "rust_output u = Some rust" "unit_state u = Validated"
        "cache' = cache(cache_path env src \<mapsto> rust)"
      by (auto simp: cache_step_def split: option.splits if_splits)
    moreover from this model(1) have "\<exists>r. check_rust_compiles (bench env) rust = Inr r \<and> success r"
      by (auto simp: repaired_def claims_build_def output_compiles_def split: sum.splits)
    ultimately show ?thesis using assms(4) by (auto simp: cache_compiles_def)
  qed
qed

theorem cache_stays_sound_witness:
  "\<exists>u cache'. migrate_file 5 demo_environment plain_config no_modular demo_cache True ''m.c'' = Some (Inr (u, cache'))
     \<and> cache_compiles (bench demo_environment) cache'"
proof -
  obtain u cache' where run: "migrate_file 5 demo_environment plain_config no_modular demo_cache True ''m.c'' = Some (Inr (u, cache'))"
    using demo_migrates by blast
  have "cache_compiles (bench demo_environment) demo_cache"
    by (simp add: cache_compiles_def demo_environment_def clean_workbench_def check_rust_compiles_def)
  from cache_stays_sound [OF run demo_read demo_fuel [OF order_refl] this] run show ?thesis by blast
qed

section \<open>That a migration ends\<close>

lemma sync_returns:
  assumes "read_source env c_file = Inr src" and "try_translate fuel src \<noteq> None"
  shows "\<exists>r. migrate_file_sync fuel env c_file = Some r"
proof (cases "read_checked env c_file")
  case (Inl e)
  then show ?thesis by (simp add: migrate_file_sync_def)
next
  case (Inr src')
  then have "src' = src" using assms(1) by (simp add: read_checked_def split: if_splits)
  moreover obtain t where "try_translate fuel src = Some t" using assms(2) by blast
  ultimately show ?thesis using Inr
    by (cases t) (auto simp: migrate_file_sync_def sync_unit_def sync_translation_def new_unit_def split: sum.splits)
qed

lemma spec_stage_returns:
  assumes "mine_specs (grammars (bench env)) (spec_env env) (c_source (work st)) \<noteq> None"
  shows "\<exists>traces st'. spec_stage env st = Some (traces, st')"
proof -
  obtain r where "mine_specs (grammars (bench env)) (spec_env env) (c_source (work st)) = Some r" using assms by blast
  then show ?thesis by (cases r) (simp_all add: spec_stage_def)
qed

lemma with_client_returns:
  assumes src: "c_source (work st0) = src"
    and "enough_fuel cfg src fuel" and specs: "mine_specs (grammars (bench env)) (spec_env env) src \<noteq> None"
  shows "\<exists>r. migrate_with_client fuel env cfg modular c_file st0 = Some r"
proof -
  obtain d st1 where classify: "classify_stage env (preprocess_stage env cfg c_file st0) = (d, st1)" by fastforce
  have b1: "base_of st1 = base_of st0"
    using classify_base [of env "preprocess_stage env cfg c_file st0"] by (simp add: classify preprocess_base)
  show ?thesis
  proof (cases "\<exists>a st2. analysis_stage env cfg d (c2rust_stage env cfg c_file st1) = Inr (Proceed (a, st2))")
    case False
    then show ?thesis
      by (cases "analysis_stage env cfg d (c2rust_stage env cfg c_file st1)")
         (auto simp: migrate_with_client_def classify split: stage_result.split)
  next
    case True
    then obtain a st2 where an: "analysis_stage env cfg d (c2rust_stage env cfg c_file st1) = Inr (Proceed (a, st2))"
      by blast
    have b2: "base_of st2 = base_of st0" using analysis_base [OF an] b1 by (simp add: c2rust_base)
    have "c_source (work st2) = src" using base_work [OF b2] src by simp
    then obtain traces st3 where sp: "spec_stage env st2 = Some (traces, st3)"
      using specs spec_stage_returns [of env st2] by auto
    have b3: "base_of st3 = base_of st0" using spec_base [OF sp] b2 by simp
    show ?thesis
    proof (cases "\<exists>st4. translated env cfg modular d a st3 = Inr (Proceed st4)")
      case False
      then show ?thesis
        by (cases "translated env cfg modular d a st3")
           (auto simp: migrate_with_client_def classify an sp split: stage_result.split)
    next
      case True
      then obtain st4 where tr: "translated env cfg modular d a st3 = Inr (Proceed st4)" by blast
      have "c_source (work st4) = src" using translated_base [OF tr] b3 src by (simp add: base_of_def)
      with validated_tail_outcome [of cfg st4 fuel env d a traces] assms(2)
      show ?thesis by (auto simp: migrate_with_client_def classify an sp tr)
    qed
  qed
qed

text \<open>
  C7: A migration always ends. With at least as much fuel as the repair limit of the file, it returns an error
  or a unit, for every model, compiler and cache, unless the rule-based translator itself does not return on
  the file or the signature reader panics.
\<close>

theorem migrate_file_returns:
  assumes "read_source env c_file = Inr src" and "enough_fuel cfg src fuel"
    and "try_translate fuel src \<noteq> None" and "mine_specs (grammars (bench env)) (spec_env env) src \<noteq> None"
  shows "\<exists>r. migrate_file fuel env cfg modular cache writable c_file = Some r"
proof (cases "read_checked env c_file")
  case (Inl e)
  then show ?thesis by (simp add: migrate_file_def)
next
  case (Inr src')
  then have read: "read_checked env c_file = Inr src" using assms(1) by (simp add: read_checked_def split: if_splits)
  obtain s where s: "migrate_file_sync fuel env c_file = Some s" using sync_returns [OF assms(1,3)] by blast
  have "c_source (work (initial_state env cache writable c_file src)) = src"
    by (simp add: initial_state_def Let_def new_unit_def)
  from with_client_returns [OF this assms(2,4)] obtain r where
    r: "migrate_with_client fuel env cfg modular c_file (initial_state env cache writable c_file src) = Some r"
    by blast
  show ?thesis
  proof (cases r)
    case (Inl e)
    then show ?thesis by (simp add: migrate_file_def read without_model_def s r)
  next
    case (Inr x)
    then show ?thesis by (cases x) (simp_all add: migrate_file_def read without_model_def s r)
  qed
qed

theorem migrate_file_returns_witness:
  "\<exists>r. migrate_file 20 demo_environment plain_config no_modular demo_cache True ''m.c'' = Some r"
proof -
  have rules: "try_translate 20 ''int main(void);'' \<noteq> None" by code_simp
  have specs: "mine_specs (grammars (bench demo_environment)) (spec_env demo_environment) ''int main(void);'' \<noteq> None"
    by (simp add: demo_environment_def clean_workbench_def mine_specs_def generate_instrumented_source_def
        find_instrumentable_functions_def no_functions)
  have "(5::nat) \<le> 20" by simp
  from migrate_file_returns [OF demo_read demo_fuel [OF this] rules specs] show ?thesis .
qed

text \<open>
  C6: A file of at most 2000 lines that a model migrates reaches a final state: the unit is validated, has one
  of the graduated states or the fallback, never a state that waits for further repair; and the last artifact
  saved is the manifest of exactly the unit that is returned.
\<close>

theorem small_file_reaches_final_state:
  assumes "migrate_with_client fuel env cfg modular c_file (initial_state env cache writable c_file src)
      = Some (Inr (Proceed st))"
    and "length (lines src) \<le> modular_file_loc" and "enough_fuel cfg src fuel"
  shows "final_state (unit_state (work st)) \<and> last (saves st) = SavedManifest (work st)"
proof -
  from assms(1) obtain d analysis traces st4 where
    base: "base_of st4 = base_of (initial_state env cache writable c_file src)"
    and tail: "validated_tail fuel env cfg d analysis traces st4 = Some (Inr st)"
    by (rule migrate_with_client_cases)
  have src: "c_source (work st4) = src"
    using base by (simp add: base_of_def initial_state_def Let_def new_unit_def)
  have "repaired (bench env) src (is_large src) (work st)"
    using validated_tail_outcome [of cfg st4 fuel env d analysis traces] tail src assms(3) by auto
  moreover obtain v q where "st = finish_stage env v q"
    using tail by (auto simp: validated_tail_def bind_result_Inr_iff split: sum.splits)
  then have "last (saves st) = SavedManifest (work st)"
    by (auto simp: finish_stage_def Let_def save_def)
  ultimately show ?thesis using assms(2) by (simp add: repaired_def is_large_def)
qed

theorem small_file_reaches_final_state_witness:
  "\<exists>st. migrate_with_client 5 demo_environment plain_config no_modular ''m.c'' demo_start = Some (Inr (Proceed st))
     \<and> final_state (unit_state (work st))"
proof -
  obtain st where run: "migrate_with_client 5 demo_environment plain_config no_modular ''m.c'' demo_start
      = Some (Inr (Proceed st))"
    using demo_run by blast
  have "length (lines ''int main(void);'') = 1" by code_simp
  then have "length (lines ''int main(void);'') \<le> modular_file_loc" by (simp add: modular_file_loc_def)
  from small_file_reaches_final_state [OF run [unfolded demo_start_def] this demo_fuel [OF order_refl]] run
  show ?thesis by blast
qed

text \<open>
  C14: The cache round trip: when a migration ends with a validated unit whose output is not empty, a later run on
  the same source with the cache it leaves takes that output from the cache and makes no translation call.
\<close>

theorem cached_translation_reused:
  assumes "migrate_with_client fuel env cfg modular c_file (initial_state env cache True c_file src)
      = Some (Inr (Proceed st))"
    and "enough_fuel cfg src fuel" and "unit_state (work st) = Validated" and "rust_output (work st) = Some rust"
    and "rust \<noteq> []" and "c_source (work later) = src" and "cache_files later = cache_files st"
  shows "translation_stage env cfg' d a (cache_stage env later) = Inr (Proceed (cache_stage env later))
     \<and> rust_output (work (cache_stage env later)) = Some rust
     \<and> calls_made (cache_stage env later) = calls_made later"
proof -
  from assms(1) obtain d' analysis traces st4 where
    base: "base_of st4 = base_of (initial_state env cache True c_file src)"
    and tail: "validated_tail fuel env cfg d' analysis traces st4 = Some (Inr st)"
    by (rule migrate_with_client_cases)
  have start: "c_source (work st4) = src" "cache_writable st4"
    using base by (simp_all add: base_of_def initial_state_def Let_def new_unit_def save_def audit_def)
  have "cache_step env src True (cache_files st4) (work st) (cache_files st)"
    using validated_tail_outcome [of cfg st4 fuel env d' analysis traces] tail start assms(2) by auto
  with assms(3-7) have "cache_get env (c_source (work later)) later = Some rust"
    by (simp add: cache_step_def cache_get_def)
  then show ?thesis by (simp add: cache_stage_def translation_stage_def update_work_def)
qed

theorem cached_translation_reused_witness:
  "\<exists>st. migrate_with_client 5 demo_environment plain_config no_modular ''m.c'' demo_start = Some (Inr (Proceed st))
     \<and> rust_output (work (cache_stage demo_environment st)) = Some ''fn main() {}''"
proof -
  obtain st where run: "migrate_with_client 5 demo_environment plain_config no_modular ''m.c'' demo_start
      = Some (Inr (Proceed st))" "unit_state (work st) = Validated" "rust_output (work st) = Some ''fn main() {}''"
      "c_source (work st) = ''int main(void);''"
    using demo_run by blast
  from cached_translation_reused [OF run(1) [unfolded demo_start_def] demo_fuel [OF order_refl] run(2,3) _ run(4) refl,
      of plain_config Easy plain_analysis] run
  show ?thesis by auto
qed

section \<open>Without a model\<close>

text \<open>
  C37: A migration without a model has three outcomes: the unit is left as extracted and has no output, it is
  validated and its output compiles, or it is in its first repair state with an output. Its source is the one read.
\<close>

theorem sync_outcomes:
  assumes "migrate_file_sync fuel env c_file = Some (Inr u)" and "read_source env c_file = Inr src"
  shows "c_source u = src
     \<and> ((unit_state u = Extracted \<and> rust_output u = None)
        \<or> (unit_state u = Validated \<and> output_compiles (bench env) u)
        \<or> (unit_state u = Repairing 1 \<and> rust_output u \<noteq> None))"
proof -
  have "sync_unit fuel env c_file src = Some (Inr u)"
    using assms by (auto simp: migrate_file_sync_def read_checked_def split: if_splits)
  from sync_unit_result [OF this] show ?thesis by (simp add: sync_result_def)
qed

lemma migrate_entries_run:
  "migrate_entries fuel env paths project = Some (Inr project') \<Longrightarrow>
     \<exists>us. units project' = units project @ us
        \<and> list_all2 (\<lambda>path u. migrate_file_sync fuel env path = Some (Inr u)) (filter (is_c_file env) paths) us"
proof (induction paths arbitrary: project)
  case (Cons path paths)
  show ?case
  proof (cases "is_c_file env path")
    case False
    with Cons show ?thesis by simp
  next
    case True
    with Cons.prems obtain u where u: "migrate_file_sync fuel env path = Some (Inr u)"
        "migrate_entries fuel env paths (add_unit project u) = Some (Inr project')"
      by (auto split: option.splits sum.splits)
    from Cons.IH [OF u(2)] obtain us where "units project' = units project @ u # us"
        "list_all2 (\<lambda>path u. migrate_file_sync fuel env path = Some (Inr u)) (filter (is_c_file env) paths) us"
      by (auto simp: add_unit_def)
    with True u(1) show ?thesis by (intro exI [of _ "u # us"]) simp
  qed
qed simp

text \<open>
  A directory that migrates has at least one C file, and its project holds exactly one unit per C file, in
  the order of the directory, each the result of migrating that file alone.
\<close>

theorem directory_units:
  assumes "migrate_directory_sync fuel env dir = Some (Inr project)" and "read_directory env dir = Inr paths"
  shows "filter (is_c_file env) paths \<noteq> []
     \<and> list_all2 (\<lambda>path u. migrate_file_sync fuel env path = Some (Inr u)) (filter (is_c_file env) paths) (units project)"
proof -
  let ?start = "new_project (case last_component (pp_env env) dir of [] \<Rightarrow> ''project'' | nm \<Rightarrow> nm) dir"
  have "migrate_entries fuel env paths ?start = Some (Inr project)" "list_ex (is_c_file env) paths"
    using assms by (auto simp: migrate_directory_sync_def split: option.splits sum.splits if_splits)
  with migrate_entries_run [of fuel env paths ?start project] show ?thesis
    by (auto simp: new_project_def list_ex_iff filter_empty_conv)
qed


lemma demo_rules: "try_translate 20 ''int main(void);'' = Some None" by code_simp

lemma demo_sync: "\<exists>u. migrate_file_sync 20 demo_environment f = Some (Inr u) \<and> unit_state u = Extracted"
proof -
  have "transpile (c2_tools demo_environment) g = Inl (C2RustFailed ''source file not found: '')" for g
    by (simp add: transpile_def demo_environment_def)
  then show ?thesis
    by (simp add: migrate_file_sync_def demo_checked sync_unit_def sync_translation_def new_unit_def demo_rules)
qed

theorem sync_outcomes_witness:
  "\<exists>u. migrate_file_sync 20 demo_environment ''m.c'' = Some (Inr u) \<and> unit_state u = Extracted \<and> rust_output u = None"
proof -
  obtain u where run: "migrate_file_sync 20 demo_environment ''m.c'' = Some (Inr u)" "unit_state u = Extracted"
    using demo_sync by blast
  from sync_outcomes [OF run(1) demo_read] run show ?thesis by auto
qed

theorem directory_units_witness:
  "\<exists>project. migrate_directory_sync 20 demo_environment ''d'' = Some (Inr project) \<and> length (units project) = 1"
proof -
  obtain u where u: "migrate_file_sync 20 demo_environment ''m.c'' = Some (Inr u)"
    using demo_sync by blast
  have c: "is_c_file demo_environment ''m.c''" by (simp add: is_c_file_def demo_environment_def ends_with_def)
  have dir: "read_directory demo_environment ''d'' = Inr [''m.c'']" by (simp add: demo_environment_def)
  obtain project where run: "migrate_directory_sync 20 demo_environment ''d'' = Some (Inr project)"
    by (simp add: migrate_directory_sync_def dir c u)
  from directory_units [OF run dir] c have "length (units project) = 1" by (auto dest: list_all2_lengthD)
  with run show ?thesis by blast
qed

section \<open>The gates of the translation\<close>

lemma second_attempt_choice:
  "fst (second_attempt tt reason bad ok x) = fst x \<or> (bad \<and> ok (fst (second_attempt tt reason bad ok x)))"
proof (cases bad)
  case True
  obtain rust st where x: "x = (rust, st)" by fastforce
  obtain r n where run: "translate_source tt (c_source (work st)) (tt_c2rust tt) (Some (5/10)) (calls_made st) = (r, n)"
    by fastforce
  from True run show ?thesis
    by (cases r) (auto simp: second_attempt_def x Let_def update_metrics_def update_work_def)
qed (simp add: second_attempt_def split: prod.splits)

lemma second_attempt_calls:
  "calls_made (snd (second_attempt tt reason bad ok x)) \<le> calls_made (snd x) + 4"
proof -
  obtain rust st where x: "x = (rust, st)" by fastforce
  obtain r n where run: "translate_source tt (c_source (work st)) (tt_c2rust tt) (Some (5/10)) (calls_made st) = (r, n)"
    by fastforce
  have "n \<le> calls_made st + 4" using run by (rule translate_source_le)
  with run show ?thesis
    by (cases r) (auto simp: second_attempt_def x Let_def update_metrics_def update_work_def save_def)
qed

text \<open>
  The gates never make a translation worse. The substance gate replaces the first translation only by one
  that is not a stub, the unsafe gate only by one with fewer unsafe blocks, and both together make at most eight
  calls of the model.
\<close>

theorem gates_never_worse:
  "(fst (substance_gate tt x) = fst x
      \<or> \<not> is_stub (nonblank_line_count (c_source (work (snd x)))) (fst (substance_gate tt x)))
   \<and> (fst (unsafe_gate env tt x) = fst x
      \<or> count_unsafe_blocks_ast (bench env) (fst (unsafe_gate env tt x)) < count_unsafe_blocks_ast (bench env) (fst x))
   \<and> calls_made (snd (unsafe_gate env tt (substance_gate tt x))) \<le> calls_made (snd x) + 8"
proof (intro conjI)
  show "fst (substance_gate tt x) = fst x
      \<or> \<not> is_stub (nonblank_line_count (c_source (work (snd x)))) (fst (substance_gate tt x))"
    unfolding substance_gate_def Let_def using second_attempt_choice by blast
  show "fst (unsafe_gate env tt x) = fst x
      \<or> count_unsafe_blocks_ast (bench env) (fst (unsafe_gate env tt x)) < count_unsafe_blocks_ast (bench env) (fst x)"
    unfolding unsafe_gate_def Let_def using second_attempt_choice by blast
  have "calls_made (snd (unsafe_gate env tt (substance_gate tt x))) \<le> calls_made (snd (substance_gate tt x)) + 4"
    unfolding unsafe_gate_def Let_def by (rule second_attempt_calls)
  moreover have "calls_made (snd (substance_gate tt x)) \<le> calls_made (snd x) + 4"
    unfolding substance_gate_def Let_def by (rule second_attempt_calls)
  ultimately show "calls_made (snd (unsafe_gate env tt (substance_gate tt x))) \<le> calls_made (snd x) + 8" by linarith
qed


definition demo_task :: translation_task where
  "demo_task = translation_task_of demo_environment plain_config ''m'' plain_analysis demo_start"

theorem gates_never_worse_witness:
  "fst (unsafe_gate demo_environment demo_task (''fn main() {}'', demo_start)) = ''fn main() {}''
   \<and> calls_made (snd (unsafe_gate demo_environment demo_task (substance_gate demo_task (''fn main() {}'', demo_start)))) \<le> 8"
proof -
  let ?x = "(''fn main() {}'', demo_start)"
  have none: "count_unsafe_blocks_ast (bench demo_environment) ''fn main() {}'' = 0"
    by (simp add: count_unsafe_blocks_ast_def count_unsafe_blocks_ts_def demo_environment_def clean_workbench_def
        no_parsers_def walk_tree_def counts_as_unsafe_def)
  have "calls_made demo_start = 0" by (simp add: demo_start_def initial_state_def Let_def save_def audit_def)
  with gates_never_worse [where x = ?x and tt = demo_task and env = demo_environment] none show ?thesis by auto
qed

end
