(* ===== verification/Modular_Facts.thy ===== *)
theory Modular_Facts
  imports Modular_Pipeline File_Outcome
begin

text \<open>
  What a migrated module is: the text it comes from compiles with the modules before it when its state says so,
  no brace is left open, and the number of calls of the model is bounded. Also what is saved of it for a later
  run.
\<close>

section \<open>Validation in the assembly\<close>

text \<open>The text that is compiled for a module: the compiling modules before it and its own output.\<close>

definition assembly_text :: "module_task \<Rightarrow> string \<Rightarrow> string" where
  "assembly_text t rust =
     (let ctx = build_assembly_context (mt_outputs t)
      in if ctx = [] then rust else ctx @ [newline, newline] @ module_header (cm_name (mt_module t)) @ rust)"

definition builds_in :: "'exe workbench \<Rightarrow> module_task \<Rightarrow> string \<Rightarrow> bool" where
  "builds_in wb t rust \<longleftrightarrow>
     (case check_rust_compiles wb (assembly_text t rust) of Inr r \<Rightarrow> success r | Inl _ \<Rightarrow> False)"

lemma update_work_more [simp]:
  "local_metrics (update_work f st) = local_metrics st" "calls_made (update_work f st) = calls_made st"
  "calls_made (save a st) = calls_made st" "calls_made (update_local g st) = calls_made st"
  "work (update_local g st) = work st" "saves (update_work f st) = saves st"
  by (simp_all add: update_work_def save_def update_local_def)

lemma repair_fields_kept [simp]:
  "mb_version (update_work f st) = mb_version st" "mb_compiles (update_work f st) = mb_compiles st"
  "mb_version (save a st) = mb_version st" "mb_compiles (save a st) = mb_compiles st"
  "mb_version (update_local g st) = mb_version st" "mb_compiles (update_local g st) = mb_compiles st"
  by (simp_all add: update_work_def save_def update_local_def)

lemma validate_module_Inr:
  assumes "validate_module env cfg t mx st = Inr (v, st')" and "rust_output (work st) = Some rust"
  shows "st' = update_work (\<lambda>u. apply_validation_with_max u v mx) st
    \<and> (compiles v \<longrightarrow> builds_in (bench env) t rust) \<and> (passed v \<longrightarrow> compiles v)"
  using assms
  by (auto simp: validate_module_def validate_module_with_assembly_def validate_Inr builds_in_def assembly_text_def Let_def
      split: sum.splits if_splits dest: verdict_compiles)

section \<open>The outcome of a module\<close>

definition holds_output :: "function_unit \<Rightarrow> bool" where
  "holds_output u \<longleftrightarrow> (\<exists>rust. rust_output u = Some rust)"

text \<open>A unit has an output, and one that builds when its state says so.\<close>

definition unit_builds :: "'exe workbench \<Rightarrow> module_task \<Rightarrow> function_unit \<Rightarrow> bool" where
  "unit_builds wb t u \<longleftrightarrow>
     (\<exists>rust. rust_output u = Some rust \<and> (claims_build (unit_state u) \<longrightarrow> builds_in wb t rust))"

definition validated_builds ::
  "'exe workbench \<Rightarrow> module_task \<Rightarrow> validation_result \<Rightarrow> function_unit \<Rightarrow> bool" where
  "validated_builds wb t v u \<longleftrightarrow>
     (\<exists>rust. rust_output u = Some rust \<and> (compiles v \<longrightarrow> builds_in wb t rust) \<and> (passed v \<longrightarrow> compiles v)
        \<and> (claims_build (unit_state u) \<longleftrightarrow> passed v))"

lemma validated_unit_builds: "validated_builds wb t v u \<Longrightarrow> unit_builds wb t u"
  by (auto simp: validated_builds_def unit_builds_def)

lemma validate_module_builds:
  assumes "validate_module env cfg t mx st = Inr (v, st')" and "holds_output (work st)"
  shows "validated_builds (bench env) t v (work st')"
proof -
  obtain rust where rust: "rust_output (work st) = Some rust" using assms(2) by (auto simp: holds_output_def)
  from validate_module_Inr [OF assms(1) rust] rust show ?thesis
    by (auto simp: validated_builds_def claims_next_state)
qed

lemma retranslate_module_builds:
  assumes "retranslate_module env cfg tt t (v, st) = Inr (v', st')" and "validated_builds (bench env) t v (work st)"
  shows "validated_builds (bench env) t v' (work st')"
  using assms
  by (auto simp: retranslate_module_def Let_def holds_output_def split: if_splits prod.splits sum.splits option.splits
      elim!: validate_module_builds)

text \<open>The invariant of the repair loop: the current and the best version.\<close>

definition module_inv :: "'exe workbench \<Rightarrow> module_task \<Rightarrow> module_repair \<Rightarrow> bool" where
  "module_inv wb t st \<longleftrightarrow>
     unit_builds wb t (work st) \<and> (\<exists>b. mb_version st = Some b \<and> (mb_compiles st \<longrightarrow> builds_in wb t b))"

lemma track_module_best_inv:
  assumes "module_inv wb t st" and "\<And>rust. rust_output (work st) = Some rust \<Longrightarrow> compiles v \<Longrightarrow> builds_in wb t rust"
  shows "module_inv wb t (track_module_best cap v st)"
  using assms by (auto simp: module_inv_def track_module_best_def unit_builds_def)

lemma adopt_module_repair_inv:
  assumes "adopt_module_repair env cfg t mx cap i fresh st = Inr (c, st')" and inv: "module_inv (bench env) t st"
  shows "module_inv (bench env) t st'"
proof -
  define st0 where "st0 = update_work (\<lambda>u. u\<lparr>rust_output := Some fresh, unit_state := Repairing i\<rparr>) st"
  obtain v st1 where val: "validate_module env cfg t mx st0 = Inr (v, st1)"
    and st': "\<exists>js. st' = track_module_best cap v
                (save (SavedModuleRepair (cm_name (mt_module t)) i (unwrap_or (rust_output (work st1)) []) js) st1)"
    using assms(1) by (auto simp: adopt_module_repair_def bind_result_Inr_iff Let_def st0_def split: if_splits)
  have out: "rust_output (work st0) = Some fresh" by (simp add: st0_def)
  note v = validate_module_Inr [OF val out]
  have "unit_builds (bench env) t (work st1)"
    using validate_module_builds [OF val] out by (auto simp: holds_output_def intro: validated_unit_builds)
  moreover have "mb_version st1 = mb_version st" "mb_compiles st1 = mb_compiles st" using v by (simp_all add: st0_def)
  ultimately have "module_inv (bench env) t st1" using inv by (simp add: module_inv_def)
  then have saved: "module_inv (bench env) t (save a st1)" for a by (simp add: module_inv_def)
  from st' obtain js where st'': "st' = track_module_best cap v
      (save (SavedModuleRepair (cm_name (mt_module t)) i (unwrap_or (rust_output (work st1)) []) js) st1)"
    by blast
  show ?thesis unfolding st'' using v out by (intro track_module_best_inv saved) simp
qed

lemma module_repair_step_inv:
  "module_repair_step env tools cfg t model mx cap i st = Inr (c, st') \<Longrightarrow> module_inv (bench env) t st \<Longrightarrow>
   module_inv (bench env) t st'"
  by (auto simp: module_repair_step_def Let_def module_inv_def split: if_splits prod.splits sum.splits
      dest!: adopt_module_repair_inv)

lemma module_repair_loop_inv:
  "module_repair_loop env tools cfg t model mx cap is st = Inr st' \<Longrightarrow> module_inv (bench env) t st \<Longrightarrow>
   module_inv (bench env) t st'"
proof (induction "is" arbitrary: st)
  case (Cons i "is")
  from Cons.prems(1) obtain c st1 where step: "module_repair_step env tools cfg t model mx cap i st = Inr (c, st1)"
    by (auto split: sum.splits)
  with Cons.prems have "module_inv (bench env) t st1" by (blast intro: module_repair_step_inv)
  with Cons step show ?case by (cases c) auto
qed simp

lemma finish_module_repair_builds: "module_inv wb t st \<Longrightarrow> unit_builds wb t (work (finish_module_repair st))"
  by (auto simp: finish_module_repair_def module_inv_def unit_builds_def Let_def dest: claims_graduated)

lemma repair_module_builds:
  assumes "repair_module env tools cfg t (v, st) = Inr st'" and val: "validated_builds (bench env) t v (work st)"
  shows "unit_builds (bench env) t (work st')"
proof (cases "passed v")
  case True
  with assms show ?thesis by (auto simp: repair_module_def validated_unit_builds)
next
  case False
  define start where "start = module_state.extend st
      \<lparr>mb_version = rust_output (work st), mb_score = vr_idiomatic_score v, mb_compiles = compiles v\<rparr>"
  obtain model st1 where loop: "module_repair_loop env tools cfg t model (min (max_repair_iterations cfg) 5)
        (module_ceiling cfg v) (module_iterations (min (max_repair_iterations cfg) 5)) start = Inr st1"
    and st': "\<exists>g. st' = module_state.truncate (finish_module_repair (update_local g st1))"
    using assms(1) False by (auto simp: repair_module_def bind_result_Inr_iff Let_def start_def)
  have "work start = work st" "mb_version start = rust_output (work st)" "mb_compiles start = compiles v"
    by (simp_all add: start_def module_state.extend_def)
  with val have "module_inv (bench env) t start"
    using validated_unit_builds [OF val] by (auto simp: module_inv_def validated_builds_def)
  from module_repair_loop_inv [OF loop this] have "module_inv (bench env) t (update_local g st1)" for g
    by (simp add: module_inv_def)
  from finish_module_repair_builds [OF this] st' show ?thesis by (auto simp: module_state.truncate_def)
qed

text \<open>After the check of the braces: balanced, and a text that builds if nothing had to be closed.\<close>

definition balanced_from :: "string \<Rightarrow> string \<Rightarrow> bool" where
  "balanced_from v out \<longleftrightarrow>
     (if check_brace_balance v \<le> 0 then out = v else check_brace_balance out = 0)"

lemma balance_module_output:
  assumes "rust_output (work st) = Some v"
  shows "\<exists>out. rust_output (work (balance_module tt t st)) = Some out \<and> balanced_from v out"
  using assms
  by (auto simp: balance_module_def Let_def balanced_from_def balance_auto_close split: prod.splits sum.splits)

lemma balance_module_state [simp]: "unit_state (work (balance_module tt t st)) = unit_state (work st)"
  by (auto simp: balance_module_def Let_def split: prod.splits sum.splits option.splits)

definition module_sound :: "'exe workbench \<Rightarrow> module_task \<Rightarrow> function_unit \<Rightarrow> bool" where
  "module_sound wb t u \<longleftrightarrow>
     (\<exists>v out. rust_output u = Some out \<and> balanced_from v out \<and> (claims_build (unit_state u) \<longrightarrow> builds_in wb t v))"

lemma finish_module_sound:
  assumes "finish_module env tools cfg tt t st = Inr st'" and "holds_output (work st)"
  shows "module_sound (bench env) t (work st')"
proof -
  obtain v st1 v2 st2 st3 where run: "validate_module env cfg t (max_repair_iterations cfg) st = Inr (v, st1)"
      "retranslate_module env cfg tt t (v, st1) = Inr (v2, st2)" "repair_module env tools cfg t (v2, st2) = Inr st3"
      "st' = balance_module tt t st3"
    using assms(1) by (auto simp: finish_module_def bind_result_Inr_iff)
  note val = validate_module_builds [OF run(1) assms(2)]
  note again = retranslate_module_builds [OF run(2) val]
  note fixed = repair_module_builds [OF run(3) again]
  from fixed obtain rust where rust: "rust_output (work st3) = Some rust"
      "claims_build (unit_state (work st3)) \<longrightarrow> builds_in (bench env) t rust"
    by (auto simp: unit_builds_def)
  with balance_module_output [of st3 rust tt t] run(4) show ?thesis unfolding module_sound_def by auto
qed

lemma adopt_module_output_work [simp]: "rust_output (work (adopt_module_output t (rust, st))) = Some rust"
  by (simp add: adopt_module_output_def)

lemma migrate_single_module_cases:
  assumes "migrate_single_module env tools cfg w t = Inr (r, n, saved)"
  obtains (skipped) prev body where "warm_skip w t = Some (prev, body)" "r = skipped_result t prev body" "n = 0"
      "saved = [SavedModule (cm_name (mt_module t)) body]"
  | (failed) tt st where "warm_skip w t = None"
      "first_module_output env tools tt t (warm_seed w t) (start_module t) = (None, st)"
      "r = failed_module t st" "n = calls_made st"
  | (migrated) tt rust st st' where "warm_skip w t = None"
      "first_module_output env tools tt t (warm_seed w t) (start_module t) = (Some rust, st)"
      "finish_module env tools cfg tt t (adopt_module_output t (rust, st)) = Inr st'"
      "r = module_outcome t st'" "n = calls_made st'" "saved = saves st'"
proof (cases "warm_skip w t")
  case (Some x)
  with assms skipped show ?thesis by (cases x) (simp add: migrate_single_module_def)
next
  case None
  obtain model where run: "(case first_module_output env tools (module_translation_task env tools cfg t model) t
        (warm_seed w t) (start_module t) of
      (None, st) \<Rightarrow> Inr (failed_module t st, calls_made st, saves st)
    | (Some rust, st) \<Rightarrow>
        bind_result (finish_module env tools cfg (module_translation_task env tools cfg t model) t
                       (adopt_module_output t (rust, st))) (\<lambda>st'.
          Inr (module_outcome t st', calls_made st', saves st'))) = Inr (r, n, saved)"
    using assms None by (auto simp: migrate_single_module_def bind_result_Inr_iff Let_def)
  obtain o1 st where first: "first_module_output env tools (module_translation_task env tools cfg t model) t
        (warm_seed w t) (start_module t) = (o1, st)"
    by fastforce
  show ?thesis
  proof (cases o1)
    case None
    with run first have "r = failed_module t st" "n = calls_made st" by auto
    with failed [OF \<open>warm_skip w t = None\<close>] first None show ?thesis by blast
  next
    case (Some rust)
    with run first obtain st' where "finish_module env tools cfg (module_translation_task env tools cfg t model) t
        (adopt_module_output t (rust, st)) = Inr st'" "r = module_outcome t st'" "n = calls_made st'" "saved = saves st'"
      by (auto simp: bind_result_Inr_iff)
    with migrated [OF \<open>warm_skip w t = None\<close>] first Some show ?thesis by blast
  qed
qed

section \<open>Calls of a module\<close>

lemma validate_module_calls: "validate_module env cfg t mx st = Inr (v, st') \<Longrightarrow> calls_made st' = calls_made st"
  by (auto simp: validate_module_def split: sum.splits)

lemma module_substance_calls:
  "module_substance env tt t (rust, st) = (r, st') \<Longrightarrow> calls_made st' \<le> calls_made st + 4"
  by (auto simp: module_substance_def Let_def split: if_splits prod.splits sum.splits dest: translate_source_le)

lemma retranslate_module_calls:
  "retranslate_module env cfg tt t (v, st) = Inr (v', st') \<Longrightarrow> calls_made st' \<le> calls_made st + 4"
  by (fastforce simp: retranslate_module_def Let_def split: if_splits prod.splits sum.splits option.splits
      dest: translate_source_le validate_module_calls)

lemma repair_function_le: "repair_function_full c p m rs es fb cs i mx base limit n = (r, n') \<Longrightarrow> n' \<le> n + 4"
  using repair_calls [of c p m rs es fb cs i mx base limit n] by simp

lemma track_module_best_calls [simp]: "calls_made (track_module_best cap v st) = calls_made st"
  by (simp add: track_module_best_def)

lemma adopt_module_repair_calls:
  "adopt_module_repair env cfg t mx cap i fresh st = Inr (c, st') \<Longrightarrow> calls_made st' = calls_made st"
  by (auto simp: adopt_module_repair_def bind_result_Inr_iff Let_def split: if_splits dest!: validate_module_calls)

lemma module_repair_step_calls:
  "module_repair_step env tools cfg t model mx cap i st = Inr (c, st') \<Longrightarrow> calls_made st' \<le> calls_made st + 4"
  by (auto simp: module_repair_step_def Let_def split: if_splits prod.splits sum.splits
      dest!: adopt_module_repair_calls repair_function_le)

lemma module_repair_loop_calls:
  "module_repair_loop env tools cfg t model mx cap is st = Inr st' \<Longrightarrow>
   calls_made st' \<le> calls_made st + 4 * length is"
proof (induction "is" arbitrary: st)
  case (Cons i "is")
  from Cons.prems obtain c st1 where step: "module_repair_step env tools cfg t model mx cap i st = Inr (c, st1)"
    by (auto split: sum.splits)
  with Cons.prems Cons.IH [of st1] module_repair_step_calls [OF step] show ?case by (cases c) auto
qed simp

lemma module_iterations_length: "length (module_iterations k) = unat k"
  by (simp add: module_iterations_def)

lemma repair_module_calls:
  assumes "repair_module env tools cfg t (v, st) = Inr st'"
  shows "calls_made st' \<le> calls_made st + 20"
proof (cases "passed v")
  case True
  with assms show ?thesis by (simp add: repair_module_def)
next
  case False
  define mx where "mx = min (max_repair_iterations cfg) 5"
  define start where "start = module_state.extend st
      \<lparr>mb_version = rust_output (work st), mb_score = vr_idiomatic_score v, mb_compiles = compiles v\<rparr>"
  obtain model st1 where loop: "module_repair_loop env tools cfg t model mx (module_ceiling cfg v)
        (module_iterations mx) start = Inr st1"
    and st': "\<exists>g. st' = module_state.truncate (finish_module_repair (update_local g st1))"
    using assms False by (auto simp: repair_module_def bind_result_Inr_iff Let_def mx_def start_def)
  have start: "calls_made start = calls_made st" by (simp add: start_def module_state.extend_def)
  have "mx \<le> 5" by (simp add: mx_def)
  then have "unat mx \<le> 5" by (simp add: word_le_nat_alt)
  with module_repair_loop_calls [OF loop] start have "calls_made st1 \<le> calls_made st + 20"
    by (simp add: module_iterations_length)
  with st' show ?thesis by (auto simp: module_state.truncate_def finish_module_repair_def)
qed

lemma balance_module_calls: "calls_made (balance_module tt t st) \<le> calls_made st + 4"
  by (auto simp: balance_module_def Let_def split: prod.splits sum.splits option.splits dest: translate_source_le)

lemma finish_module_calls:
  assumes "finish_module env tools cfg tt t st = Inr st'"
  shows "calls_made st' \<le> calls_made st + 28"
proof -
  obtain v st1 v2 st2 st3 where run: "validate_module env cfg t (max_repair_iterations cfg) st = Inr (v, st1)"
      "retranslate_module env cfg tt t (v, st1) = Inr (v2, st2)" "repair_module env tools cfg t (v2, st2) = Inr st3"
      "st' = balance_module tt t st3"
    using assms by (auto simp: finish_module_def bind_result_Inr_iff)
  from validate_module_calls [OF run(1)] retranslate_module_calls [OF run(2)] repair_module_calls [OF run(3)]
    balance_module_calls [of tt t st3]
  show ?thesis unfolding run(4) by simp
qed

lemma translate_module_calls:
  "translate_module env tools tt t st = (o1, st') \<Longrightarrow> module_lines (mt_module t) \<le> medium_file_loc \<Longrightarrow>
   calls_made st' \<le> calls_made st + 4"
  by (auto simp: translate_module_def Let_def split: prod.splits sum.splits dest: translate_source_le)

lemma first_module_output_calls:
  assumes "first_module_output env tools tt t seed st = (o2, st')"
    and "module_lines (mt_module t) \<le> medium_file_loc"
  shows "calls_made st' \<le> calls_made st + 8"
proof (cases seed)
  case None
  obtain o1 st1 where tr: "translate_module env tools tt t st = (o1, st1)" by fastforce
  note le = translate_module_calls [OF tr assms(2)]
  show ?thesis
  proof (cases o1)
    case None
    with assms(1) tr \<open>seed = None\<close> le show ?thesis by (simp add: first_module_output_def)
  next
    case (Some rust)
    obtain r st2 where sub: "module_substance env tt t (rust, st1) = (r, st2)" by fastforce
    with assms(1) tr Some \<open>seed = None\<close> have "st' = st2" by (simp add: first_module_output_def)
    with module_substance_calls [OF sub] le show ?thesis by simp
  qed
qed (use assms in \<open>simp add: first_module_output_def\<close>)

section \<open>The properties of a module\<close>

text \<open>
  C9: The output of a module that was migrated leaves no brace open, and when the state of the module says
  that it compiles, the text it comes from does compile together with the modules before it. The output is that
  text itself when its braces are balanced; otherwise it is a new translation or the text with its braces
  closed, neither of which is compiled again.
\<close>

theorem module_output_builds:
  assumes "migrate_single_module env tools cfg w t = Inr (r, n, saved)"
    and "mr_unit r = Some u" and "\<not> was_skip r"
  shows "\<exists>v out. rust_output u = Some out \<and> check_brace_balance out \<le> 0
    \<and> (check_brace_balance v \<le> 0 \<longrightarrow> out = v)
    \<and> (unit_state u \<in> {Validated, CompilesUnsafe, CompilesLowScore} \<longrightarrow> builds_in (bench env) t v)"
  using assms(1)
proof (cases rule: migrate_single_module_cases)
  case (migrated tt rust st st')
  have "holds_output (work (adopt_module_output t (rust, st)))" by (simp add: holds_output_def)
  from finish_module_sound [OF migrated(3) this] have "module_sound (bench env) t u"
    using assms(2) migrated(4) by (simp add: module_outcome_def Let_def)
  then show ?thesis
    by (auto simp: module_sound_def balanced_from_def claims_build_def split: if_splits)
qed (use assms in \<open>auto simp: skipped_result_def failed_module_def Let_def\<close>)

text \<open>
  C10: A module of at most 800 lines makes at most 36 calls of the model, retries included; one that is taken from
  an earlier run makes none.
\<close>

theorem module_calls_bounded:
  assumes "migrate_single_module env tools cfg w t = Inr (r, n, saved)"
    and "module_lines (mt_module t) \<le> medium_file_loc"
  shows "n \<le> 36 \<and> (was_skip r \<longrightarrow> n = 0)"
  using assms(1)
proof (cases rule: migrate_single_module_cases)
  case (failed tt st)
  from first_module_output_calls [OF failed(2) assms(2)] failed(3,4) show ?thesis
    by (simp add: start_module_def failed_module_def)
next
  case (migrated tt rust st st')
  have "calls_made (adopt_module_output t (rust, st)) = calls_made st" by (simp add: adopt_module_output_def)
  with first_module_output_calls [OF migrated(2) assms(2)] finish_module_calls [OF migrated(3)] migrated(4,5)
  show ?thesis by (simp add: start_module_def module_outcome_def Let_def)
qed simp

section \<open>What is saved of a module\<close>

definition is_module_save :: "artifact_save \<Rightarrow> bool" where
  "is_module_save a \<longleftrightarrow> (\<exists>nm body. a = SavedModule nm body)"

definition module_saves :: "'z pipeline_scheme \<Rightarrow> artifact_save list" where
  "module_saves st = filter is_module_save (saves st)"

lemma module_saves_simps [simp]:
  "module_saves (update_work f st) = module_saves st" "module_saves (st\<lparr>calls_made := n\<rparr>) = module_saves st"
  "module_saves (save (SavedModuleRejected nm i body) st) = module_saves st"
  "module_saves (save (SavedModuleRepair nm i body js) st) = module_saves st"
  "module_saves (save (SavedModule nm body) st) = module_saves st @ [SavedModule nm body]"
  by (simp_all add: module_saves_def update_work_def save_def is_module_save_def)

lemma module_saves_local [simp]: "module_saves (update_local g (s :: 'y module_state_scheme)) = module_saves s"
  by (simp add: module_saves_def update_local_def)

lemma module_saves_best [simp]: "module_saves (track_module_best cap v st) = module_saves st"
  by (simp add: module_saves_def track_module_best_def)

lemma validate_module_saves: "validate_module env cfg t mx st = Inr (v, st') \<Longrightarrow> module_saves st' = module_saves st"
  by (auto simp: validate_module_def split: sum.splits)

lemma retranslate_module_saves:
  "retranslate_module env cfg tt t (v, st) = Inr (v', st') \<Longrightarrow> module_saves st' = module_saves st"
  by (fastforce simp: retranslate_module_def Let_def split: if_splits prod.splits sum.splits option.splits
      dest: validate_module_saves)

lemma adopt_module_repair_saves:
  "adopt_module_repair env cfg t mx cap i fresh st = Inr (c, st') \<Longrightarrow> module_saves st' = module_saves st"
  by (auto simp: adopt_module_repair_def bind_result_Inr_iff Let_def split: if_splits dest!: validate_module_saves)

lemma module_repair_step_saves:
  "module_repair_step env tools cfg t model mx cap i st = Inr (c, st') \<Longrightarrow> module_saves st' = module_saves st"
  by (auto simp: module_repair_step_def Let_def split: if_splits prod.splits sum.splits dest!: adopt_module_repair_saves)

lemma module_repair_loop_saves:
  "module_repair_loop env tools cfg t model mx cap is st = Inr st' \<Longrightarrow> module_saves st' = module_saves st"
proof (induction "is" arbitrary: st)
  case (Cons i "is")
  from Cons.prems obtain c st1 where step: "module_repair_step env tools cfg t model mx cap i st = Inr (c, st1)"
    by (auto split: sum.splits)
  with Cons module_repair_step_saves [OF step] show ?case by (cases c) auto
qed simp

lemma repair_module_saves:
  assumes "repair_module env tools cfg t (v, st) = Inr st'"
  shows "module_saves st' = module_saves st"
proof (cases "passed v")
  case False
  define mx where "mx = min (max_repair_iterations cfg) 5"
  define start where "start = module_state.extend st
      \<lparr>mb_version = rust_output (work st), mb_score = vr_idiomatic_score v, mb_compiles = compiles v\<rparr>"
  obtain model st1 where loop: "module_repair_loop env tools cfg t model mx (module_ceiling cfg v)
        (module_iterations mx) start = Inr st1"
    and st': "\<exists>g. st' = module_state.truncate (finish_module_repair (update_local g st1))"
    using assms False by (auto simp: repair_module_def bind_result_Inr_iff Let_def mx_def start_def)
  have "saves (module_state.truncate s) = saves s" for s :: module_repair by (simp add: module_state.truncate_def)
  then have "module_saves st' = module_saves st1" using st'
    by (auto simp: module_saves_def finish_module_repair_def update_local_def)
  moreover have "module_saves start = module_saves st" by (simp add: start_def module_state.extend_def module_saves_def)
  ultimately show ?thesis using module_repair_loop_saves [OF loop] by simp
qed (use assms in \<open>simp add: repair_module_def\<close>)

lemma balance_module_saves [simp]: "module_saves (balance_module tt t st) = module_saves st"
  by (auto simp: balance_module_def Let_def split: prod.splits sum.splits option.splits)

lemma finish_module_saves:
  assumes "finish_module env tools cfg tt t st = Inr st'"
  shows "module_saves st' = module_saves st"
proof -
  obtain v st1 v2 st2 st3 where run: "validate_module env cfg t (max_repair_iterations cfg) st = Inr (v, st1)"
      "retranslate_module env cfg tt t (v, st1) = Inr (v2, st2)" "repair_module env tools cfg t (v2, st2) = Inr st3"
      "st' = balance_module tt t st3"
    using assms by (auto simp: finish_module_def bind_result_Inr_iff)
  from validate_module_saves [OF run(1)] retranslate_module_saves [OF run(2)] repair_module_saves [OF run(3)]
  show ?thesis by (simp add: run(4))
qed

lemma first_module_output_saves:
  "first_module_output env tools tt t seed st = (o2, st') \<Longrightarrow> module_saves st' = module_saves st"
  by (auto simp: first_module_output_def translate_module_def module_substance_def Let_def map_prod_def
      split: option.splits prod.splits sum.splits if_splits)

text \<open>
  The file of a module, which a warm start reads, holds the first output: neither a new translation nor a
  repair is written to it, although the manifest records the state they reached.
\<close>

lemma only_first_output_saved:
  assumes "migrate_single_module env tools cfg w t = Inr (r, n, saved)" and "\<not> was_skip r" and "mr_unit r = Some u"
  shows "\<exists>tt first st. first_module_output env tools tt t (warm_seed w t) (start_module t) = (Some first, st)
    \<and> filter is_module_save saved = [SavedModule (cm_name (mt_module t)) first]"
  using assms(1)
proof (cases rule: migrate_single_module_cases)
  case (migrated tt rust st st')
  have "module_saves st = []"
    using first_module_output_saves [OF migrated(2)] by (simp add: start_module_def module_saves_def)
  then have "module_saves (adopt_module_output t (rust, st)) = [SavedModule (cm_name (mt_module t)) rust]"
    by (simp add: adopt_module_output_def)
  with finish_module_saves [OF migrated(3)] migrated(2,6) show ?thesis by (auto simp: module_saves_def)
qed (use assms in \<open>auto simp: skipped_result_def failed_module_def Let_def\<close>)

section \<open>Warm start\<close>

text \<open>A module that the manifest lists as finished is taken from the store, and no call is made.\<close>

lemma warm_start_reuses:
  assumes "save_translation_module store (cm_name (mt_module t)) body d = Inr (wm_disk w)"
    and "wm_store w = Some store" and "previous_module w (mt_module t) = Some prev" and "warm_start_action prev = Skip"
  shows "migrate_single_module env tools cfg w t
    = Inr (skipped_result t prev body, 0, [SavedModule (cm_name (mt_module t)) body])"
proof -
  have "load_translation_module store (cm_name (mt_module t)) (wm_disk w) = Inr (Some body)"
    using assms(1) by (rule modules.load_saved)
  then show ?thesis using assms(2-4)
    by (simp add: migrate_single_module_def warm_skip_def previous_code_def)
qed

section \<open>A module\<close>

definition demo_modular_tools :: modular_tools where
  "demo_modular_tools =
     \<lparr>contract_env = \<lparr>read_header = (\<lambda>_. Inl ''none''), find_iter = (\<lambda>_ _. [])\<rparr>,
      run_cargo = (\<lambda>_ _. None), manifest_of_json = (\<lambda>_. Inl ''bad''), path_exists = (\<lambda>_. False),
      schedule = (\<lambda>i k. k), module_times = (\<lambda>_. (0, 0)), set_order = (\<lambda>xs. xs)\<rparr>"

definition main_module_task :: module_task where
  "main_module_task =
     \<lparr>mt_module = \<lparr>cm_name = ''main'', module_source = ''int main(void);'', module_functions = [''main''], module_lines = 1\<rparr>,
      mt_index = 0, mt_parent = ''m'', mt_analysis = plain_analysis, mt_difficulty = Easy, mt_context = [],
      mt_outputs = [], mt_contract = None\<rparr>"

definition seed_source :: warm_source where
  "seed_source =
     \<lparr>wm_manifest = Some \<lparr>am_version = 2, am_function_name = ''m'', am_timestamp = [],
        am_modules = [\<lparr>ma_name = ''main'', ma_state = ''NearlyCompiles'', ma_score = 60, ma_compiles = False,
                       ma_unsafe_count = 0\<rparr>]\<rparr>,
      wm_store = Some \<lparr>run_dir = ''old''\<rparr>,
      wm_disk = empty_disk\<lparr>files := [path_join ''old'' (module_path ''main'') \<mapsto> ''fn main() {}'']\<rparr>\<rparr>"

lemma seed_found: "warm_skip seed_source main_module_task = None"
  "warm_seed seed_source main_module_task = Some ''fn main() {}''"
  by (simp_all add: warm_skip_def warm_seed_def previous_module_def previous_code_def seed_source_def
      main_module_task_def warm_start_action_def load_translation_module_def read_to_string_def ok_or_def)

lemma main_module_run:
  "\<exists>r saved. migrate_single_module demo_environment tools plain_config seed_source main_module_task = Inr (r, 0, saved)
     \<and> \<not> was_skip r \<and> (\<exists>u. mr_unit r = Some u \<and> unit_state u = Validated \<and> rust_output u = Some ''fn main() {}'')"
proof -
  obtain sel where sel: "lift_agent (select_model (providers plain_config) (mt_difficulty main_module_task) ''translation'')
      = Inr sel"
    by (simp add: select_model_def plain_config_def lift_agent_def)
  define tt where "tt = module_translation_task demo_environment tools plain_config main_module_task (sel_model sel)"
  define st where "st = adopt_module_output main_module_task (''fn main() {}'', start_module main_module_task)"
  have work: "rust_output (work st) = Some ''fn main() {}''" "c_source (work st) = ''int main(void);''" "calls_made st = 0"
    by (simp_all add: st_def adopt_module_output_def start_module_def main_module_task_def new_unit_def)
  have bench: "bench demo_environment = clean_workbench" by (simp add: demo_environment_def)
  have score: "module_min_score plain_config \<le> 60" by (simp add: module_min_score_def plain_config_def)
  from main_validates_at [OF work(1,2) score] obtain v where
    v: "validate_with_threshold clean_workbench (work st) (module_min_score plain_config) = Inr v" "passed v" by blast
  have none: "build_assembly_context (mt_outputs main_module_task) = []"
    by (simp add: main_module_task_def build_assembly_context_def)
  define st1 where "st1 = update_work (\<lambda>u. apply_validation_with_max u v (max_repair_iterations plain_config)) st"
  have "validate_module demo_environment plain_config main_module_task (max_repair_iterations plain_config) st = Inr (v, st1)"
    by (simp add: validate_module_def validate_module_with_assembly_def none bench v(1) st1_def)
  moreover have "retranslate_module demo_environment plain_config tt main_module_task (v, st1) = Inr (v, st1)"
    by (simp add: retranslate_module_def v(2))
  moreover have "repair_module demo_environment tools plain_config main_module_task (v, st1) = Inr st1"
    by (simp add: repair_module_def v(2))
  moreover have "check_brace_balance ''fn main() {}'' = 0" by code_simp
  then have "balance_module tt main_module_task st1 = st1" by (simp add: balance_module_def st1_def work(1))
  ultimately have "finish_module demo_environment tools plain_config tt main_module_task st = Inr st1"
    by (simp add: finish_module_def)
  moreover have "unit_state (work st1) = Validated" by (simp add: st1_def v(2) next_state_Validated)
  moreover have "rust_output (work st1) = Some ''fn main() {}''" "calls_made st1 = 0" by (simp_all add: st1_def work)
  ultimately show ?thesis
    by (simp add: migrate_single_module_def seed_found sel first_module_output_def module_outcome_def Let_def
        flip: tt_def st_def)
qed

theorem module_output_builds_witness:
  "\<exists>r n saved u v. migrate_single_module demo_environment demo_modular_tools plain_config seed_source main_module_task
       = Inr (r, n, saved)
     \<and> mr_unit r = Some u \<and> unit_state u = Validated \<and> builds_in clean_workbench main_module_task v"
proof -
  obtain r saved u where run: "migrate_single_module demo_environment demo_modular_tools plain_config seed_source
        main_module_task = Inr (r, 0, saved)" "\<not> was_skip r" "mr_unit r = Some u" "unit_state u = Validated"
    using main_module_run by blast
  from module_output_builds [OF run(1,3,2)] run(4) obtain v where "builds_in (bench demo_environment) main_module_task v"
    by auto
  then show ?thesis using run by (auto simp: demo_environment_def)
qed

theorem module_calls_bounded_witness:
  "\<exists>r n saved. migrate_single_module demo_environment demo_modular_tools plain_config seed_source main_module_task
       = Inr (r, n, saved) \<and> n \<le> 36"
proof -
  obtain r saved where run: "migrate_single_module demo_environment demo_modular_tools plain_config seed_source
        main_module_task = Inr (r, 0, saved)"
    using main_module_run by blast
  have "module_lines (mt_module main_module_task) \<le> medium_file_loc"
    by (simp add: main_module_task_def medium_file_loc_def)
  from module_calls_bounded [OF run this] run show ?thesis by blast
qed

end
