(* ===== verification/File_Errors.thy ===== *)
theory File_Errors
  imports File_Outcome
begin

text \<open>
  The errors of a migration: none of them comes from a model. Every stage is shown free of such errors by the
  rules collected in \<open>model_free\<close>.
\<close>

section \<open>Errors\<close>

definition model_error :: "core_error \<Rightarrow> bool" where
  "model_error e \<longleftrightarrow> (\<exists>s. e = AgentError s)"

text \<open>A computation whose errors never come from a model.\<close>

definition no_model_error :: "(core_error, 'a) result \<Rightarrow> bool" where
  "no_model_error r \<longleftrightarrow> (\<forall>e. r = Inl e \<longrightarrow> \<not> model_error e)"

named_theorems model_free \<open>computations without errors of a model\<close>

lemma model_free_Inr [model_free]: "no_model_error (Inr a)" by (simp add: no_model_error_def)

lemma model_free_bind [model_free]:
  "no_model_error r \<Longrightarrow> (\<And>a. r = Inr a \<Longrightarrow> no_model_error (f a)) \<Longrightarrow> no_model_error (bind_result r f)"
  by (cases r) (simp_all add: no_model_error_def)

lemma model_free_then [model_free]:
  "no_model_error r \<Longrightarrow> (\<And>a. r = Inr (Proceed a) \<Longrightarrow> no_model_error (f a)) \<Longrightarrow> no_model_error (then_stage r f)"
  unfolding then_stage_def by (rule model_free_bind) (auto simp: no_model_error_def split: stage_result.splits)

lemma model_free_proceed [model_free]: "no_model_error r \<Longrightarrow> no_model_error (proceed r)"
  by (cases r) (simp_all add: no_model_error_def)

lemma model_free_if [model_free]: "no_model_error r \<Longrightarrow> no_model_error s \<Longrightarrow> no_model_error (if b then r else s)"
  by simp

lemma model_free_select [model_free]:
  "no_model_error (lift_agent (select_model cfg d t))" "no_model_error (lift_agent (select_repair_model cfg d))"
  by (simp_all add: no_model_error_def lift_agent_def select_model_def select_repair_model_def)

lemma model_free_budget [model_free]: "no_model_error (check_budget mt mc m)"
  by (auto simp: no_model_error_def model_error_def check_budget_def Let_def split: option.splits if_splits)

lemma model_free_budget_stage [model_free]: "no_model_error (budget_stage cfg st)"
  unfolding budget_stage_def by (intro model_free)

lemma model_free_validate [model_free]: "no_model_error (validate_unit env m u)" "no_model_error (check_unit env' s)"
  by (auto simp: no_model_error_def model_error_def validate_unit_def check_unit_def split: sum.splits)

lemma model_free_revalidate [model_free]: "no_model_error (revalidate env cfg mx st)"
  unfolding revalidate_def by (intro model_free)


lemma model_free_prod:
  "(\<And>a b. p = (a, b) \<Longrightarrow> no_model_error (f a b)) \<Longrightarrow> no_model_error (case p of (a, b) \<Rightarrow> f a b)"
  by (cases p) simp

lemma model_free_adopt [model_free]:
  "no_model_error (adopt_retranslation env cfg mx cap fresh st)"
  "no_model_error (adopt_repair env cfg mx cap cur rep st)"
  unfolding adopt_retranslation_def adopt_repair_def Let_def
  by (intro model_free model_free_prod allI | simp)+

lemma model_free_sum:
  "(\<And>e. r = Inl e \<Longrightarrow> no_model_error (f e)) \<Longrightarrow> (\<And>a. r = Inr a \<Longrightarrow> no_model_error (g a)) \<Longrightarrow>
     no_model_error (case r of Inl e \<Rightarrow> f e | Inr a \<Rightarrow> g a)"
  by (cases r) simp_all

lemma model_free_option:
  "no_model_error f \<Longrightarrow> (\<And>a. r = Some a \<Longrightarrow> no_model_error (g a)) \<Longrightarrow>
     no_model_error (case r of None \<Rightarrow> f | Some a \<Rightarrow> g a)"
  by (cases r) simp_all

lemmas model_free_cases = model_free_prod model_free_sum model_free_option

lemma model_free_step [model_free]: "no_model_error (repair_step env cfg model mx cap n fb st)"
  unfolding repair_step_def Let_def by (intro model_free model_free_cases)

lemma model_free_iteration [model_free]: "no_model_error (repair_iteration env cfg model a mx cap n st)"
  unfolding repair_iteration_def Let_def by (intro model_free model_free_cases)

lemma model_free_loop:
  "repair_loop fuel env cfg model a mx cap n st = Some r \<Longrightarrow> no_model_error r"
proof (induction fuel arbitrary: st)
  case 0
  then show ?case by (auto simp: repair_loop.simps [of 0] no_model_error_def split: if_splits)
next
  case (Suc k)
  have it: "no_model_error (repair_iteration env cfg model a mx cap n st)" by (rule model_free)
  show ?case
  proof (cases "mx < iteration st")
    case True
    with Suc.prems show ?thesis by (subst (asm) repair_loop.simps) (auto simp: no_model_error_def)
  next
    case False
    show ?thesis
    proof (cases "repair_iteration env cfg model a mx cap n st")
      case (Inl e)
      with Suc.prems False it show ?thesis by (subst (asm) repair_loop.simps) (auto simp: no_model_error_def)
    next
      case (Inr out)
      obtain ctl st' where out: "out = (ctl, st')" by fastforce
      show ?thesis
      proof (cases ctl)
        case Break
        with Suc.prems False Inr out show ?thesis by (subst (asm) repair_loop.simps) (auto simp: no_model_error_def)
      next
        case Continue
        with Suc.prems False Inr out have "repair_loop k env cfg model a mx cap n st' = Some r"
          by (subst (asm) repair_loop.simps) simp
        then show ?thesis by (rule Suc.IH)
      qed
    qed
  qed
qed

lemma model_free_map: "no_model_error r \<Longrightarrow> no_model_error (map_sum id f r)"
  by (cases r) (simp_all add: no_model_error_def)

lemma model_free_legacy:
  assumes "legacy_repair fuel env cfg d a mx n v p = Some r"
  shows "no_model_error r"
proof -
  obtain model mx' where "legacy_repair fuel env cfg d a mx n v p
       = map_option (map_sum id finish_repair)
           (repair_loop fuel env cfg model a mx' (unsafe_ceiling cfg v) n (start_repair p v))"
    by (rule legacy_repair_loop)
  with assms obtain r' where "repair_loop fuel env cfg model a mx' (unsafe_ceiling cfg v) n (start_repair p v) = Some r'"
      "r = map_sum id finish_repair r'"
    by auto
  then show ?thesis using model_free_loop model_free_map by blast
qed

lemma model_free_cycles [model_free]: "no_model_error (surgical_cycles k env model src p)"
proof (induction k arbitrary: src p)
  case (Suc k)
  show ?case unfolding surgical_cycles.simps Let_def
    by (intro model_free model_free_cases) (auto intro!: model_free model_free_cases Suc.IH split: list.split)
qed (simp add: no_model_error_def)

lemma model_free_hybrid [model_free]: "no_model_error (hybrid_repair env cfg d p)"
  unfolding hybrid_repair_def Let_def by (intro model_free model_free_cases)

lemma model_free_repair:
  assumes "repair_stage fuel env cfg d a mx n v p = Some r"
  shows "no_model_error r"
proof (cases "passed v")
  case True
  with assms show ?thesis by (auto simp: repair_stage_def no_model_error_def)
next
  case False
  show ?thesis
  proof (cases "modular_file_loc < n")
    case True
    have "no_model_error (bind_result (hybrid_repair env cfg d p) (\<lambda>(resolved, p1).
          if resolved then
            bind_result (validate_unit env (min_idiomatic_score cfg) (work p1)) (\<lambda>v'.
              Inr (update_work (\<lambda>u. apply_validation_with_max u v' mx) p1))
          else Inr p1))"
      by (intro model_free model_free_cases)
    with assms False True show ?thesis by (simp add: repair_stage_def)
  next
    case small: False
    with assms False obtain r' where "legacy_repair fuel env cfg d a mx n v p = Some r'" "r = map_sum id pipeline.truncate r'"
      by (auto simp: repair_stage_def)
    then show ?thesis using model_free_legacy model_free_map by blast
  qed
qed


lemma model_free_stage_result:
  "no_model_error f \<Longrightarrow> (\<And>a. r = Proceed a \<Longrightarrow> no_model_error (g a)) \<Longrightarrow>
     no_model_error (case r of Fallback \<Rightarrow> f | Proceed a \<Rightarrow> g a)"
  by (cases r) simp_all

lemma model_free_analysis: "no_model_error (analysis_stage env cfg d st)"
  unfolding analysis_stage_def Let_def by (intro model_free model_free_cases)

lemma model_free_translation: "no_model_error (translation_stage env cfg d a st)"
  unfolding translation_stage_def Let_def by (intro model_free model_free_cases model_free_stage_result)

lemma model_free_completion: "no_model_error (completion_stage env cfg d a st)"
  unfolding completion_stage_def Let_def by (intro model_free model_free_cases)

text \<open>A modular migration whose errors never come from a model.\<close>

definition modular_model_free :: "modular_migration \<Rightarrow> bool" where
  "modular_model_free modular \<longleftrightarrow> (\<forall>d a u n. no_model_error (modular d a u n))"

lemma model_free_modular:
  "modular_model_free modular \<Longrightarrow> no_model_error (modular_stage modular d a st)"
  unfolding modular_stage_def by (intro model_free model_free_cases) (simp_all add: modular_model_free_def Let_def
    no_model_error_def split: modular_result.split)

lemma model_free_translated:
  "modular_model_free modular \<Longrightarrow> no_model_error (translated env cfg modular d a st)"
  unfolding translated_def
  by (intro model_free model_free_translation model_free_completion model_free_modular)

lemma model_free_test_gen: "no_model_error (test_gen_stage env cfg d st)"
  unfolding test_gen_stage_def Let_def by (intro model_free model_free_cases)

lemma model_free_validation: "no_model_error (validation_stage env cfg st)"
  unfolding validation_stage_def Let_def by (intro model_free)

lemma model_free_tail:
  assumes "validated_tail fuel env cfg d a traces st = Some r"
  shows "no_model_error r"
proof (cases "validation_stage env cfg st")
  case (Inl e)
  with assms model_free_validation [of env cfg st] show ?thesis by (auto simp: validated_tail_def no_model_error_def)
next
  case (Inr x)
  then obtain v st1 where x: "validation_stage env cfg st = Inr (v, st1)" by (cases x) simp
  with assms obtain r' where r': "run_repair fuel env cfg d a v (spec_validation_stage env traces v st1) = Some r'"
      and r: "r = bind_result r' (\<lambda>st2. bind_result (test_gen_stage env cfg d st2) (\<lambda>st3.
               Inr (finish_stage env v (fuzz_stage env cfg (keep_stage env st3)))))"
    by (auto simp: validated_tail_def)
  have "no_model_error r'"
    using r' model_free_repair model_free_map by (fastforce simp: run_repair_def Let_def)
  then show ?thesis unfolding r by (intro model_free model_free_test_gen)
qed

lemma model_free_client:
  assumes "migrate_with_client fuel env cfg modular c_file st0 = Some r"
    and "modular_model_free modular"
  shows "no_model_error r"
proof -
  obtain d st1 where classify: "classify_stage env (preprocess_stage env cfg c_file st0) = (d, st1)" by fastforce
  have b1: "base_of st1 = base_of st0"
    using classify_base [of env "preprocess_stage env cfg c_file st0"] by (simp add: classify preprocess_base)
  show ?thesis
  proof (cases "\<exists>a st2. analysis_stage env cfg d (c2rust_stage env cfg c_file st1) = Inr (Proceed (a, st2))")
    case False
    with assms(1) model_free_analysis [of env cfg d "c2rust_stage env cfg c_file st1"] show ?thesis
      by (cases "analysis_stage env cfg d (c2rust_stage env cfg c_file st1)")
         (auto simp: migrate_with_client_def classify no_model_error_def split: stage_result.splits)
  next
    case True
    then obtain a st2 where an: "analysis_stage env cfg d (c2rust_stage env cfg c_file st1) = Inr (Proceed (a, st2))"
      by blast
    have b2: "base_of st2 = base_of st0" using analysis_base [OF an] b1 by (simp add: c2rust_base)
    obtain traces st3 where sp: "spec_stage env st2 = Some (traces, st3)"
      using assms(1) by (auto simp: migrate_with_client_def classify an split: option.splits)
    from assms(2) have tr: "no_model_error (translated env cfg modular d a st3)" by (rule model_free_translated)
    show ?thesis
    proof (cases "\<exists>st4. translated env cfg modular d a st3 = Inr (Proceed st4)")
      case False
      with assms(1) tr show ?thesis
        by (cases "translated env cfg modular d a st3")
           (auto simp: migrate_with_client_def classify an sp no_model_error_def split: stage_result.splits)
    next
      case True
      then obtain st4 r' where "validated_tail fuel env cfg d a traces st4 = Some r'" "r = proceed r'"
        using assms(1) by (auto simp: migrate_with_client_def classify an sp)
      then show ?thesis using model_free_tail model_free_proceed by blast
    qed
  qed
qed

lemma model_free_sync: "migrate_file_sync fuel env c_file = Some r \<Longrightarrow> no_model_error r"
  by (auto simp: migrate_file_sync_def read_checked_def sync_unit_def no_model_error_def model_error_def size_error_def
      bind_result_def lift_validation_def split: sum.splits if_splits)

lemma model_free_without: "without_model fuel env cache c_file = Some r \<Longrightarrow> no_model_error r"
  using model_free_sync model_free_map by (fastforce simp: without_model_def)

lemma migrate_file_model_free:
  assumes "migrate_file fuel env cfg modular cache writable c_file = Some (Inl e)" and "modular_model_free modular"
  shows "\<not> model_error e"
proof (cases "read_checked env c_file")
  case (Inl e')
  with assms(1) show ?thesis
    by (auto simp: migrate_file_def read_checked_def model_error_def size_error_def split: sum.splits if_splits)
next
  case (Inr src)
  show ?thesis
  proof (cases "has_client env")
    case False
    with assms(1) have "without_model fuel env cache c_file = Some (Inl e)" by (simp add: migrate_file_def Inr)
    then show ?thesis using model_free_without by (fastforce simp: no_model_error_def)
  next
    case True
    define run where "run = migrate_with_client fuel env cfg modular c_file (initial_state env cache writable c_file src)"
    have result: "(case run of None \<Rightarrow> None | Some (Inl e) \<Rightarrow> Some (Inl e)
          | Some (Inr Fallback) \<Rightarrow> without_model fuel env cache c_file
          | Some (Inr (Proceed st)) \<Rightarrow> Some (Inr (work st, cache_files st))) = Some (Inl e)"
      using assms(1) True unfolding migrate_file_def Inr run_def by simp
    obtain r where r: "run = Some r" using result by (cases run) simp_all
    have free: "no_model_error r" using model_free_client [OF r [unfolded run_def] assms(2)] .
    show ?thesis
    proof (cases r)
      case (Inl e')
      with free result r show ?thesis by (simp add: no_model_error_def)
    next
      case (Inr x)
      with result r have "without_model fuel env cache c_file = Some (Inl e)" by (cases x) simp_all
      then show ?thesis using model_free_without by (fastforce simp: no_model_error_def)
    qed
  qed
qed

section \<open>A run that ends with an error\<close>

definition tight_config :: migration_config where
  "tight_config = plain_config\<lparr>max_llm_calls := Some 0\<rparr>"

definition limit_error :: core_error where
  "limit_error = Orchestration (''LLM call hard limit exceeded: '' @ show_nat 1 @ '' calls (max '' @ show_nat 0
                    @ '' + 20% grace)'')"

lemma tight_analysis:
  assumes "llm_calls (metrics (work st)) = 0"
  shows "analysis_stage demo_environment tight_config d st = Inl limit_error"
proof -
  obtain sel where sel: "lift_agent (select_model (providers tight_config) d ''analysis'') = Inr sel"
    by (simp add: select_model_def tight_config_def plain_config_def lift_agent_def)
  have limits: "max_tokens_budget tight_config = None" "max_llm_calls tight_config = Some 0"
    by (simp_all add: tight_config_def plain_config_def)
  have over: "budget_stage tight_config st1 = Inl limit_error" if "llm_calls (metrics (work st1)) = 1" for st1
    using that by (simp add: budget_stage_def limits check_budget_def limit_error_def)
  have client: "client demo_environment n p = Inr ''{}''" "analysis_of_json demo_environment t = Inr plain_analysis" for n p t
    by (simp_all add: demo_environment_def)
  show ?thesis
    using assms over
    by (auto simp: analysis_stage_def sel analyze_function_with_temperature_def parse_analysis_response_def client Let_def
        update_metrics_def update_work_def save_def count_llm_call_def add_tokens_def)
qed

lemma tight_run:
  "migrate_file 5 demo_environment tight_config modular demo_cache True ''m.c'' = Some (Inl limit_error)"
proof -
  obtain d st1 where classify: "classify_stage demo_environment (preprocess_stage demo_environment tight_config ''m.c'' demo_start)
      = (d, st1)"
    by fastforce
  have "llm_calls (metrics (work st1)) = 0"
    using classify by (auto simp: classify_stage_def preprocess_stage_def tight_config_def plain_config_def Let_def
        demo_start_def initial_state_def new_unit_def metrics_default_def)
  then have "llm_calls (metrics (work (c2rust_stage demo_environment tight_config ''m.c'' st1))) = 0"
    by (simp add: c2rust_stage_def tight_config_def plain_config_def)
  from tight_analysis [OF this, of d]
  have "migrate_with_client 5 demo_environment tight_config modular ''m.c'' demo_start = Some (Inl limit_error)"
    by (simp add: migrate_with_client_def classify)
  moreover have "has_client demo_environment" by (simp add: demo_environment_def)
  ultimately show ?thesis by (simp add: migrate_file_def demo_checked demo_start_def [symmetric])
qed

end
