(* ===== verification/Modular_Outcome.thy ===== *)
theory Modular_Outcome
  imports Modular_Facts File_Errors
begin

text \<open>
  The properties of a modular migration: no error of a model ends it, the order of the modules within a wave
  does not matter, and the result is assembled from the texts the modules of the waves run were migrated to
  (\<open>wave_done\<close> says what a wave adds). The last section is a run on two modules.
\<close>

section \<open>Errors\<close>

lemma model_free_validate_module [model_free]: "no_model_error (validate_module env cfg t mx st)"
  by (auto simp: no_model_error_def model_error_def validate_module_def split: sum.splits)

lemma model_free_retranslate_module [model_free]: "no_model_error (retranslate_module env cfg tt t vst)"
  unfolding retranslate_module_def Let_def by (intro model_free model_free_cases)

lemma model_free_adopt_module [model_free]: "no_model_error (adopt_module_repair env cfg t mx cap i fresh st)"
  unfolding adopt_module_repair_def Let_def by (intro model_free model_free_cases)

lemma model_free_module_step [model_free]: "no_model_error (module_repair_step env tools cfg t model mx cap i st)"
  unfolding module_repair_step_def Let_def by (intro model_free model_free_cases)

lemma model_free_module_loop [model_free]: "no_model_error (module_repair_loop env tools cfg t model mx cap is st)"
proof (induction "is" arbitrary: st)
  case (Cons i "is")
  have "no_model_error (module_repair_step env tools cfg t model mx cap i st)" by (rule model_free)
  with Cons show ?case by (auto simp: no_model_error_def split: sum.splits control.splits)
qed (simp add: no_model_error_def)

lemma model_free_repair_module [model_free]: "no_model_error (repair_module env tools cfg t vst)"
  unfolding repair_module_def Let_def by (intro model_free model_free_cases)

lemma model_free_finish_module [model_free]: "no_model_error (finish_module env tools cfg tt t st)"
  unfolding finish_module_def by (intro model_free model_free_cases)

lemma model_free_single_module [model_free]: "no_model_error (migrate_single_module env tools cfg w t)"
  unfolding migrate_single_module_def Let_def by (intro model_free model_free_cases)

lemma model_free_collect [model_free]:
  "\<forall>r \<in> set rs. no_model_error r \<Longrightarrow> no_model_error (collect_module_results rs)"
  by (induction rs rule: collect_module_results.induct)
     (auto simp: no_model_error_def model_error_def bind_result_def split: core_error.splits sum.splits)

lemma model_free_wave [model_free]: "no_model_error (run_wave env tools run wave st)"
  unfolding run_wave_def Let_def by (intro model_free model_free_cases) (auto intro: model_free)

lemma model_free_waves [model_free]: "no_model_error (run_waves env tools run waves st)"
proof (induction waves arbitrary: st)
  case (Cons wave waves)
  then show ?case
    by (auto simp: Let_def intro!: model_free split: budget_phase_t.split)
qed (simp add: no_model_error_def)

lemma model_free_lift_tool [model_free]: "no_model_error (lift_tool_error what r)"
  by (auto simp: no_model_error_def model_error_def lift_tool_error_def split: sum.splits)

lemma model_free_start_crate [model_free]: "no_model_error (start_modular_crate cfg nm contract d)"
  unfolding start_modular_crate_def by (intro model_free model_free_cases)

lemma model_free_finish_crate [model_free]: "no_model_error (finish_modular_crate tools st)"
  unfolding finish_modular_crate_def
  by (intro model_free model_free_cases) (simp add: no_model_error_def model_error_def)

lemma model_free_contract [model_free]: "no_model_error (generate_type_contract env' ct pc ctx src path n)"
  using generate_type_contract_total [of env' ct pc ctx src path n] by (auto simp: no_model_error_def)

lemma model_free_run_modular [model_free]: "no_model_error (run_modular env tools run waves st)"
  unfolding run_modular_def by (intro model_free)

lemma model_free_migrate_modular [model_free]:
  "no_model_error (migrate_file_modular env tools cfg d src nm path a diff n)"
  unfolding migrate_file_modular_def Let_def by (intro model_free model_free_cases)

lemma modular_of_model_free: "modular_model_free (modular_of env tools cfg d)"
  unfolding modular_model_free_def modular_of_def
  using model_free_map [OF model_free_migrate_modular] by blast

text \<open>
  C8: A failing model never fails a migration, whatever the size of the file: when a migration ends with an
  error, the error comes from reading the file, from its size, from a compiler, from writing the crate or from
  the budget.
\<close>

theorem model_errors_not_fatal:
  assumes "migrate_file fuel env cfg (modular_of env tools cfg d) cache writable c_file = Some (Inl e)"
  shows "e \<noteq> AgentError s"
  using migrate_file_model_free [OF assms modular_of_model_free] by (auto simp: model_error_def)

theorem model_errors_not_fatal_witness:
  "migrate_file 5 demo_environment tight_config (modular_of demo_environment demo_modular_tools tight_config empty_disk)
     demo_cache True ''m.c'' = Some (Inl limit_error) \<and> limit_error \<noteq> AgentError []"
  using tight_run model_errors_not_fatal [OF tight_run, of "[]"] by blast

section \<open>The order within a wave\<close>

lemma collect_module_results_Inr:
  "collect_module_results rs = Inr (xs, ok) \<longleftrightarrow>
     (\<forall>a b. Inl (BudgetExceeded a b) \<notin> set rs)
     \<and> xs = List.map_filter (\<lambda>r. case r of Inr x \<Rightarrow> Some x | Inl _ \<Rightarrow> None) rs \<and> ok = (\<forall>r \<in> set rs. \<not> isl r)"
proof (induction rs arbitrary: xs ok rule: collect_module_results.induct)
  case (3 e rs)
  then show ?case by (cases e) (auto simp: bind_result_Inr_iff map_filter_simps)
qed (auto simp: bind_result_Inr_iff map_filter_simps)

lemma mset_map_filter: "mset xs = mset ys \<Longrightarrow> mset (List.map_filter f xs) = mset (List.map_filter f ys)"
  by (metis List.map_filter_def mset_filter mset_map)

lemma merge_result_saves: "merge_result c r (st\<lparr>mo_saves := s\<rparr>) = (merge_result c r st)\<lparr>mo_saves := s\<rparr>"
  by (simp add: merge_result_def Let_def merge_output_def write_crate_module_def split: option.splits sum.splits)

lemma fold_merge_saves: "fold (merge_result c) rs (st\<lparr>mo_saves := s\<rparr>) = (fold (merge_result c) rs st)\<lparr>mo_saves := s\<rparr>"
  by (induction rs arbitrary: st) (simp_all add: merge_result_saves)

lemma module_index: "migrate_single_module env tools cfg w t = Inr (r, n, s) \<Longrightarrow> mr_index r = mt_index t"
  by (erule migrate_single_module_cases)
     (simp_all add: skipped_result_def failed_module_def module_outcome_def Let_def)

definition ended :: "('e, 'a) result list \<Rightarrow> 'a list" where
  "ended rs = List.map_filter (\<lambda>r. case r of Inr x \<Rightarrow> Some x | Inl _ \<Rightarrow> None) rs"

lemma ended_simps [simp]: "ended [] = []" "ended (Inr x # rs) = x # ended rs" "ended (Inl e # rs) = ended rs"
  by (simp_all add: ended_def map_filter_simps)

abbreviation wave_runs :: "('exe, 'g) file_environment \<Rightarrow> modular_tools \<Rightarrow> modular_run \<Rightarrow> modular_state \<Rightarrow> nat list
    \<Rightarrow> (module_result \<times> nat \<times> artifact_save list) list" where
  "wave_runs env tools run st wave \<equiv>
     ended (map (\<lambda>i. migrate_single_module env tools (mo_config st) (run_warm run) (task_of run st i)) wave)"

lemma wave_indices:
  "subseq (map (mr_index \<circ> fst) (wave_runs env tools run st wave)) wave"
proof (induction wave)
  case (Cons i wave)
  then show ?case
    by (cases "migrate_single_module env tools (mo_config st) (run_warm run) (task_of run st i)")
       (auto dest: module_index simp: task_of_def)
qed simp

definition wave_start :: "modular_state \<Rightarrow> bool \<Rightarrow> (module_result \<times> nat \<times> artifact_save list) list \<Rightarrow> modular_state" where
  "wave_start st ok results =
     st\<lparr>mo_all_validated := (mo_all_validated st \<and> ok),
        mo_calls := mo_calls st + sum_list (map (\<lambda>(r, n, s). n) results),
        mo_saves := mo_saves st @ concat (map (\<lambda>(r, n, s). s) results)\<rparr>"

lemma run_wave_Inr:
  "run_wave env tools run wave st = Inr st1 \<longleftrightarrow>
     (let rs = map (\<lambda>i. migrate_single_module env tools (mo_config st) (run_warm run) (task_of run st i)) wave
      in (\<forall>a b. Inl (BudgetExceeded a b) \<notin> set rs)
         \<and> st1 = fold (merge_result (run_contract run)) (sort_key mr_index (map fst (ended rs)))
                   (wave_start st (\<forall>r \<in> set rs. \<not> isl r) (ended rs)))"
  by (auto simp: run_wave_def bind_result_Inr_iff collect_module_results_Inr Let_def wave_start_def simp flip: ended_def)

lemma subseq_distinct: "subseq xs ys \<Longrightarrow> distinct ys \<Longrightarrow> distinct xs"
  by (auto simp: subseq_conv_nths intro: distinct_nthsI)

lemma merge_result_keeps_saves [simp]: "mo_saves (merge_result c r st) = mo_saves st"
  by (simp add: merge_result_def Let_def merge_output_def write_crate_module_def split: option.splits sum.splits)

lemma fold_merge_keeps_saves [simp]: "mo_saves (fold (merge_result c) rs st) = mo_saves st"
  by (induction rs arbitrary: st) simp_all

text \<open>
  C12: The modules of a wave may run in any order: another order of the same wave ends with the same outputs,
  context, metrics, artifacts of the manifest, crate and number of calls; only the log of saved files is
  written in another order.
\<close>

theorem wave_order_irrelevant:
  assumes "run_wave env tools run wave st = Inr st1" and "distinct wave" and "mset wave' = mset wave"
  shows "\<exists>st2. run_wave env tools run wave' st = Inr st2 \<and> st2\<lparr>mo_saves := mo_saves st1\<rparr> = st1
    \<and> mset (mo_saves st2) = mset (mo_saves st1)"
proof -
  define f where "f = (\<lambda>i. migrate_single_module env tools (mo_config st) (run_warm run) (task_of run st i))"
  define xs ys where "xs = ended (map f wave)" and "ys = ended (map f wave')"
  have same: "mset (map f wave') = mset (map f wave)" using assms(3) by simp
  then have sets: "set (map f wave') = set (map f wave)" by (metis set_mset_mset)
  have m: "mset ys = mset xs" unfolding xs_def ys_def ended_def using same by (rule mset_map_filter)
  have "distinct (map (mr_index \<circ> fst) xs)"
    using wave_indices [of env tools st run wave] assms(2) unfolding xs_def f_def by (metis subseq_distinct)
  then have inj: "inj_on mr_index (set (map fst xs))" by (auto simp: distinct_map inj_on_def)
  have sorted: "sort_key mr_index (map fst ys) = sort_key mr_index (map fst xs)"
  proof (rule sort_key_inj_key_eq)
    show "mset (map fst ys) = mset (sort_key mr_index (map fst xs))" using m by simp
    show "inj_on mr_index (set (map fst ys))" using inj m by (metis set_map set_mset_mset)
  qed simp
  have sums: "sum_list (map g ys) = sum_list (map g xs)" for g :: "_ \<Rightarrow> 'z::comm_monoid_add"
  proof -
    have "mset (map g ys) = mset (map g xs)" using m by simp
    then show ?thesis by (simp only: sum_mset_sum_list [symmetric])
  qed
  have calls: "sum_list (map (\<lambda>(r, n, s). n) ys) = sum_list (map (\<lambda>(r, n, s). n) xs)" by (rule sums)
  have logs: "mset (concat (map (\<lambda>(r, n, s). s) ys)) = mset (concat (map (\<lambda>(r, n, s). s) xs))"
    using sums [of "mset \<circ> (\<lambda>(r, n, s). s)"] by (simp add: mset_concat)
  define ok where "ok = (\<forall>r \<in> set (map f wave). \<not> isl r)"
  define run' where "run' = (\<lambda>rs. fold (merge_result (run_contract run)) (sort_key mr_index (map fst xs)) (wave_start st ok rs))"
  have st1: "st1 = run' xs" and legal: "\<forall>a b. Inl (BudgetExceeded a b) \<notin> set (map f wave)"
    using assms(1) unfolding run_wave_Inr Let_def f_def [symmetric] xs_def [symmetric] ok_def [symmetric] run'_def by simp_all
  have "run_wave env tools run wave' st = Inr (run' ys)"
    unfolding run_wave_Inr Let_def f_def [symmetric] ys_def [symmetric] sets ok_def [symmetric] run'_def
    using legal sorted by simp
  moreover have "wave_start st ok ys = (wave_start st ok xs)\<lparr>mo_saves := mo_saves (wave_start st ok ys)\<rparr>"
    by (simp add: wave_start_def calls)
  then have "run' ys = (run' xs)\<lparr>mo_saves := mo_saves (wave_start st ok ys)\<rparr>"
    unfolding run'_def by (metis fold_merge_saves)
  ultimately show ?thesis using logs by (simp add: st1 run'_def wave_start_def)
qed

section \<open>What a run assembles\<close>

lemma merge_result_fields:
  "map fst (mo_outputs (merge_result c r st)) =
     map fst (mo_outputs st) @ (case mr_unit r of Some u \<Rightarrow> if rust_output u = None then [] else [mr_name r] | None \<Rightarrow> [])"
  "mo_any_succeeded (merge_result c r st) \<longleftrightarrow>
     mo_any_succeeded st \<or> (case mr_unit r of Some u \<Rightarrow> rust_output u \<noteq> None | None \<Rightarrow> False)"
  "mo_all_validated (merge_result c r st) \<longleftrightarrow> mo_all_validated st \<and> (mr_validated r \<or> was_skip r)"
  by (auto simp: merge_result_def Let_def merge_output_def write_crate_module_def split: option.splits sum.splits)

text \<open>A result that counts as validated has an output.\<close>

definition has_output :: "module_result \<Rightarrow> bool" where
  "has_output r \<longleftrightarrow> (case mr_unit r of Some u \<Rightarrow> rust_output u \<noteq> None | None \<Rightarrow> False)"

lemma module_result_facts:
  assumes "migrate_single_module env tools cfg w t = Inr (r, n, s)"
  shows "mr_name r = cm_name (mt_module t) \<and> mr_index r = mt_index t \<and> (mr_validated r \<or> was_skip r \<longrightarrow> has_output r)"
  using assms
proof (cases rule: migrate_single_module_cases)
  case (migrated tt rust st st')
  have "holds_output (work (adopt_module_output t (rust, st)))" by (simp add: holds_output_def)
  from finish_module_sound [OF migrated(3) this] have "rust_output (work st') \<noteq> None" by (auto simp: module_sound_def)
  with migrated(4) show ?thesis by (simp add: module_outcome_def has_output_def Let_def)
qed (auto simp: skipped_result_def failed_module_def has_output_def Let_def)

lemma fold_merge_fields:
  "mo_any_succeeded (fold (merge_result c) rs st) \<longleftrightarrow> mo_any_succeeded st \<or> filter has_output rs \<noteq> []"
  "mo_all_validated (fold (merge_result c) rs st) \<longleftrightarrow>
     mo_all_validated st \<and> (\<forall>r \<in> set rs. mr_validated r \<or> was_skip r)"
  by (induction rs arbitrary: st) (auto simp: merge_result_fields has_output_def split: option.splits)

text \<open>After a wave that used up the budget no other is run.\<close>

definition budget_stop :: "modular_state \<Rightarrow> bool" where
  "budget_stop st \<longleftrightarrow>
     budget_phase (max_llm_calls (mo_config st)) (llm_calls (mo_metrics st)) \<in> {AssembleNow, SaveAndExit}"

text \<open>A wave does not change the configuration.\<close>

lemma merge_result_config [simp]: "mo_config (merge_result c r st) = mo_config st"
  by (simp add: merge_result_def Let_def merge_output_def write_crate_module_def split: option.splits sum.splits)

lemma fold_merge_config [simp]: "mo_config (fold (merge_result c) rs st) = mo_config st"
  by (induction rs arbitrary: st) simp_all

lemma run_wave_config: "run_wave env tools run wave st = Inr st1 \<Longrightarrow> mo_config st1 = mo_config st"
  by (auto simp: run_wave_Inr Let_def wave_start_def)

text \<open>What a wave adds to a state: the outputs of its modules that have one, in the order of the modules.\<close>

definition module_run ::
  "('exe, 'g) file_environment \<Rightarrow> modular_tools \<Rightarrow> modular_run \<Rightarrow> modular_state \<Rightarrow> nat \<Rightarrow> module_result option" where
  "module_run env tools run st i =
     (case migrate_single_module env tools (mo_config st) (run_warm run) (task_of run st i) of
        Inr (r, _, _) \<Rightarrow> Some r | Inl _ \<Rightarrow> None)"

definition result_output :: "module_result \<Rightarrow> module_output option" where
  "result_output r =
     (case mr_unit r of
        Some u \<Rightarrow> map_option (\<lambda>rust. (mr_name r, rust, ma_compiles (mr_artifact r))) (rust_output u)
      | None \<Rightarrow> None)"

definition module_text ::
  "('exe, 'g) file_environment \<Rightarrow> modular_tools \<Rightarrow> modular_run \<Rightarrow> modular_state \<Rightarrow> nat \<Rightarrow> module_output option" where
  "module_text env tools run st i =
     (case module_run env tools run st i of
        Some r \<Rightarrow>
          (case mr_unit r of
             Some u \<Rightarrow> map_option (\<lambda>rust. (cm_name (run_modules run ! i), rust, ma_compiles (mr_artifact r))) (rust_output u)
           | None \<Rightarrow> None)
      | None \<Rightarrow> None)"

definition module_counts_validated ::
  "('exe, 'g) file_environment \<Rightarrow> modular_tools \<Rightarrow> modular_run \<Rightarrow> modular_state \<Rightarrow> nat \<Rightarrow> bool" where
  "module_counts_validated env tools run st i =
     (case module_run env tools run st i of Some r \<Rightarrow> mr_validated r \<or> was_skip r | None \<Rightarrow> False)"

definition wave_done ::
  "('exe, 'g) file_environment \<Rightarrow> modular_tools \<Rightarrow> modular_run \<Rightarrow> modular_state \<Rightarrow> nat list \<Rightarrow> modular_state \<Rightarrow> bool" where
  "wave_done env tools run st wave st1 \<longleftrightarrow>
     (let outs = List.map_filter (module_text env tools run st) (sort wave)
      in mo_outputs st1 = mo_outputs st @ outs
         \<and> mo_context st1 = fold (\<lambda>(_, rust, _). extended_context (run_contract run) rust) outs (mo_context st)
         \<and> (mo_all_validated st1 \<longleftrightarrow>
              mo_all_validated st \<and> (\<forall>i \<in> set wave. module_counts_validated env tools run st i))
         \<and> (mo_any_succeeded st1 \<longleftrightarrow> mo_any_succeeded st \<or> outs \<noteq> [])
         \<and> mo_config st1 \<in> {mo_config st, (mo_config st)\<lparr>max_repair_iterations := 0\<rparr>})"

lemma merge_result_adds:
  "mo_outputs (merge_result c r st) = mo_outputs st @ (case result_output r of Some x \<Rightarrow> [x] | None \<Rightarrow> [])"
  "mo_context (merge_result c r st)
     = (case result_output r of Some (_, rust, _) \<Rightarrow> extended_context c rust (mo_context st) | None \<Rightarrow> mo_context st)"
  "mo_any_succeeded (merge_result c r st) \<longleftrightarrow> mo_any_succeeded st \<or> result_output r \<noteq> None"
  by (auto simp: merge_result_def Let_def merge_output_def write_crate_module_def result_output_def
      split: option.splits sum.splits)

lemma fold_merge_adds:
  "mo_outputs (fold (merge_result c) rs st) = mo_outputs st @ List.map_filter result_output rs"
  "mo_context (fold (merge_result c) rs st)
     = fold (\<lambda>(_, rust, _). extended_context c rust) (List.map_filter result_output rs) (mo_context st)"
  "mo_any_succeeded (fold (merge_result c) rs st) \<longleftrightarrow> mo_any_succeeded st \<or> List.map_filter result_output rs \<noteq> []"
proof -
  show "mo_outputs (fold (merge_result c) rs st) = mo_outputs st @ List.map_filter result_output rs"
    by (induction rs arbitrary: st) (auto simp: merge_result_adds map_filter_simps split: option.splits)
  show "mo_context (fold (merge_result c) rs st)
     = fold (\<lambda>(_, rust, _). extended_context c rust) (List.map_filter result_output rs) (mo_context st)"
    by (induction rs arbitrary: st) (auto simp: merge_result_adds map_filter_simps split: option.splits)
  show "mo_any_succeeded (fold (merge_result c) rs st) \<longleftrightarrow> mo_any_succeeded st \<or> List.map_filter result_output rs \<noteq> []"
    by (induction rs arbitrary: st) (auto simp: merge_result_adds map_filter_simps split: option.splits)
qed

lemma in_map_filter: "y \<in> set (List.map_filter g xs) \<longleftrightarrow> (\<exists>x \<in> set xs. g x = Some y)"
  by (induction xs) (auto simp: map_filter_simps split: option.splits)

text \<open>The results of a wave, sorted by index, are those of its sorted modules.\<close>

lemma wave_results_sorted:
  assumes "\<And>i r n s. i \<in> set wave \<Longrightarrow> f i = Inr (r, n, s) \<Longrightarrow> mr_index r = i"
  shows "sort_key mr_index (map fst (ended (map f wave)))
    = List.map_filter (\<lambda>i. case f i of Inr (r, _, _) \<Rightarrow> Some r | Inl _ \<Rightarrow> None) (sort wave)"
proof -
  define g where "g = (\<lambda>i. case f i of Inr (r, _, _) \<Rightarrow> Some r | Inl _ \<Rightarrow> None)"
  have results: "map fst (ended (map f xs)) = List.map_filter g xs" for xs
    by (induction xs) (auto simp: map_filter_simps g_def split: sum.splits)
  have idx: "i \<in> set wave \<Longrightarrow> g i = Some r \<Longrightarrow> mr_index r = i" for i r
    using assms by (auto simp: g_def split: sum.splits)
  have insert: "List.map_filter g (insort i xs) = (case g i of Some r \<Rightarrow> insort_key mr_index r (List.map_filter g xs) | None \<Rightarrow> List.map_filter g xs)"
    if "insert i (set xs) \<subseteq> set wave" "sorted xs" for i xs
    using that
  proof (induction xs)
    case Nil
    then show ?case by (simp add: map_filter_simps split: option.splits)
  next
    case (Cons y ys)
    show ?case
    proof (cases "i \<le> y")
      case True
      have le: "i \<le> mr_index r" if "r \<in> set (List.map_filter g (y # ys))" for r
      proof -
        from that obtain z where z: "z \<in> set (y # ys)" "g z = Some r" unfolding in_map_filter by blast
        then have "mr_index r = z" using idx Cons.prems(1) by auto
        with z(1) Cons.prems(2) True show ?thesis by auto
      qed
      show ?thesis
      proof (cases "g i")
        case (Some r)
        then have r: "mr_index r = i" using idx Cons.prems(1) by auto
        have "insort_key mr_index r zs = r # zs" if "\<forall>z \<in> set zs. i \<le> mr_index z" for zs
          using that r by (cases zs) auto
        then have "insort_key mr_index r (List.map_filter g (y # ys)) = r # List.map_filter g (y # ys)"
          using le by blast
        with True Some show ?thesis by (simp add: map_filter_simps(1))
      qed (use True in \<open>simp add: map_filter_simps(1)\<close>)
    next
      case False
      then have ih: "List.map_filter g (insort i ys) = (case g i of Some r \<Rightarrow> insort_key mr_index r (List.map_filter g ys)
          | None \<Rightarrow> List.map_filter g ys)"
        using Cons by auto
      have "mr_index s = y" if "g y = Some s" for s using idx that Cons.prems(1) by auto
      moreover have "mr_index r = i" if "g i = Some r" for r using idx that Cons.prems(1) by auto
      ultimately show ?thesis using False ih by (auto simp: map_filter_simps split: option.splits)
    qed
  qed
  have "set xs \<subseteq> set wave \<Longrightarrow> List.map_filter g (sort xs) = sort_key mr_index (List.map_filter g xs)" for xs
  proof (induction xs)
    case (Cons i xs)
    then have "List.map_filter g (sort (i # xs)) = (case g i of Some r \<Rightarrow> insort_key mr_index r (List.map_filter g (sort xs))
        | None \<Rightarrow> List.map_filter g (sort xs))"
      using insert [of i "sort xs"] by simp
    with Cons show ?case by (auto simp: map_filter_simps split: option.splits)
  qed (simp add: map_filter_simps)
  from this [of wave] show ?thesis unfolding results by (simp add: g_def)
qed

lemma map_filter_compose: "List.map_filter h (List.map_filter g xs) = List.map_filter (\<lambda>x. Option.bind (g x) h) xs"
  by (induction xs) (auto simp: map_filter_simps split: option.splits)

lemma run_wave_done:
  assumes "run_wave env tools run wave st = Inr st1"
  shows "wave_done env tools run st wave st1"
proof -
  define f where "f = (\<lambda>i. migrate_single_module env tools (mo_config st) (run_warm run) (task_of run st i))"
  have index: "mr_index r = i \<and> mr_name r = cm_name (run_modules run ! i)" if "f i = Inr (r, n, s)" for i r n s
    using module_result_facts [OF that [unfolded f_def]] by (simp add: task_of_def)
  have run: "module_run env tools run st = (\<lambda>i. case f i of Inr (r, _, _) \<Rightarrow> Some r | Inl _ \<Rightarrow> None)"
    by (simp add: fun_eq_iff module_run_def f_def)
  define rs where "rs = sort_key mr_index (map fst (ended (map f wave)))"
  have rs: "rs = List.map_filter (module_run env tools run st) (sort wave)"
    unfolding rs_def run by (rule wave_results_sorted) (use index in blast)
  have "Option.bind (module_run env tools run st i) result_output = module_text env tools run st i" for i
    using index by (auto simp: run module_text_def result_output_def split: sum.splits option.splits)
  then have outs: "List.map_filter result_output rs = List.map_filter (module_text env tools run st) (sort wave)"
    unfolding rs map_filter_compose by simp
  have st1: "st1 = fold (merge_result (run_contract run)) rs (wave_start st (\<forall>r \<in> set (map f wave). \<not> isl r) (ended (map f wave)))"
    using assms unfolding run_wave_Inr Let_def f_def [symmetric] rs_def [symmetric] by simp
  have ran: "(\<forall>r \<in> set (map f wave). \<not> isl r) \<longleftrightarrow> (\<forall>i \<in> set wave. module_run env tools run st i \<noteq> None)"
    by (auto simp: run isl_def split: sum.splits)
  have good: "(\<forall>r \<in> set rs. mr_validated r \<or> was_skip r)
      \<longleftrightarrow> (\<forall>i \<in> set wave. \<forall>r. module_run env tools run st i = Some r \<longrightarrow> mr_validated r \<or> was_skip r)"
    unfolding Ball_def rs in_map_filter by auto
  have "(\<forall>r \<in> set (map f wave). \<not> isl r) \<and> (\<forall>r \<in> set rs. mr_validated r \<or> was_skip r)
      \<longleftrightarrow> (\<forall>i \<in> set wave. module_counts_validated env tools run st i)"
    unfolding ran good module_counts_validated_def by (auto split: option.splits)
  then show ?thesis
    unfolding wave_done_def Let_def outs [symmetric] st1
    by (auto simp: fold_merge_adds fold_merge_fields(2) wave_start_def)
qed

text \<open>Between two waves the configuration may only lose its repairs.\<close>

lemma run_waves_step:
  assumes "run_waves env tools run (wave # waves) st = Inr st'" "run_wave env tools run wave st = Inr st1" "\<not> budget_stop st1"
  shows "\<exists>cfg. cfg \<in> {mo_config st1, (mo_config st1)\<lparr>max_repair_iterations := 0\<rparr>}
    \<and> run_waves env tools run waves (st1\<lparr>mo_config := cfg\<rparr>) = Inr st'"
proof -
  define phase where "phase = budget_phase (max_llm_calls (mo_config st1)) (llm_calls (mo_metrics st1))"
  have stop: "phase \<noteq> AssembleNow" "phase \<noteq> SaveAndExit" using assms(3) by (simp_all add: budget_stop_def phase_def)
  show ?thesis
  proof (cases "phase = SkipRepairs")
    case True
    with assms(1,2) show ?thesis
      by (intro exI [of _ "mo_config st1\<lparr>max_repair_iterations := 0\<rparr>"]) (simp add: phase_def [symmetric] Let_def bind_result_Inr_iff)
  next
    case False
    with assms(1,2) stop show ?thesis
      by (intro exI [of _ "mo_config st1"])
        (cases phase; simp add: phase_def [symmetric] Let_def bind_result_Inr_iff)
  qed
qed

lemma wave_done_config:
  assumes "run_wave env tools run wave st = Inr st1"
    and "cfg \<in> {mo_config st1, (mo_config st1)\<lparr>max_repair_iterations := 0\<rparr>}"
  shows "wave_done env tools run st wave (st1\<lparr>mo_config := cfg\<rparr>)"
  using run_wave_done [OF assms(1)] run_wave_config [OF assms(1)] assms(2) by (simp add: wave_done_def Let_def)

lemma run_waves_trace:
  assumes "run_waves env tools run waves st = Inr st'"
  shows "\<exists>before after sts. waves = before @ after \<and> length sts = Suc (length before) \<and> sts ! 0 = st \<and> last sts = st'
    \<and> (\<forall>k < length before. wave_done env tools run (sts ! k) (before ! k) (sts ! Suc k))
    \<and> (\<forall>k. Suc k < length before \<longrightarrow> \<not> budget_stop (sts ! Suc k)) \<and> (after \<noteq> [] \<longrightarrow> budget_stop st')"
  using assms
proof (induction waves arbitrary: st)
  case Nil
  then show ?case by (intro exI [of _ "[]"] exI [of _ "[]"] exI [of _ "[st]"]) simp
next
  case (Cons wave waves)
  then obtain st1 where w: "run_wave env tools run wave st = Inr st1" by (auto simp: bind_result_Inr_iff)
  show ?case
  proof (cases "budget_stop st1")
    case True
    with Cons.prems(1) w have "st' = st1" by (auto simp: budget_stop_def)
    with run_wave_done [OF w] True show ?thesis
      by (intro exI [of _ "[wave]"] exI [of _ waves] exI [of _ "[st, st1]"]) simp
  next
    case False
    then obtain cfg where cfg: "cfg \<in> {mo_config st1, (mo_config st1)\<lparr>max_repair_iterations := 0\<rparr>}"
      and rest: "run_waves env tools run waves (st1\<lparr>mo_config := cfg\<rparr>) = Inr st'"
      using run_waves_step [OF Cons.prems(1) w] by blast
    let ?st2 = "st1\<lparr>mo_config := cfg\<rparr>"
    from Cons.IH [OF rest] obtain before after sts where ih: "waves = before @ after" "length sts = Suc (length before)"
      "sts ! 0 = ?st2" "last sts = st'" "\<forall>k < length before. wave_done env tools run (sts ! k) (before ! k) (sts ! Suc k)"
      "\<forall>k. Suc k < length before \<longrightarrow> \<not> budget_stop (sts ! Suc k)" "after \<noteq> [] \<longrightarrow> budget_stop st'"
      by blast
    have here: "wave_done env tools run st wave ?st2"
      using wave_done_config [OF w cfg] .
    have "wave_done env tools run ((st # sts) ! k) ((wave # before) ! k) ((st # sts) ! Suc k)" if "k < Suc (length before)" for k
      using that ih(3,5) here by (cases k) auto
    moreover have "\<not> budget_stop ((st # sts) ! Suc k)" if "Suc k < Suc (length before)" for k
      using that ih(3,6) False cfg by (cases k) (auto simp: budget_stop_def)
    moreover have "sts \<noteq> []" using ih(2) by auto
    ultimately show ?thesis
      using ih by (intro exI [of _ "wave # before"] exI [of _ after] exI [of _ "st # sts"]) simp
  qed
qed

lemma finish_modular_crate_keeps:
  assumes "finish_modular_crate tools st = Inr st'"
  shows "st' = st\<lparr>mo_disk := mo_disk st'\<rparr>"
proof (cases "mo_builder st")
  case (Some b)
  with assms obtain d where "(case check_crate_compiles (run_cargo tools) (cb_dir b) d of
      Inl e \<Rightarrow> Inl (ToolFailure e) | Inr _ \<Rightarrow> Inr (st\<lparr>mo_disk := d\<rparr>)) = Inr st'"
    by (auto simp: finish_modular_crate_def bind_result_Inr_iff)
  then show ?thesis by (cases "check_crate_compiles (run_cargo tools) (cb_dir b) d") auto
qed (use assms in \<open>simp add: finish_modular_crate_def\<close>)

text \<open>
  C11: A modular migration that succeeds assembles what its modules were migrated to. The waves hold every module
  once; they are run in turn, each on the state the one before has left, until all are run or, for the first time,
  the calls of the model have used up 95 percent of the budget. Each wave adds, in the order of the modules, the name
  and the text of every module whose migration has produced one, and nothing else, and hands these texts on as context;
  the run counts as validated exactly if every module of the waves run does. The result is the assembly of all these
  texts with the contract that was generated for the file.
\<close>

theorem modular_run_assembles:
  assumes "migrate_file_modular env tools cfg d src nm path a diff n = Inr (ModularSuccess rust mm ok, n', saved, d')"
    and "\<forall>xs. set (set_order tools xs) = set xs"
  shows "\<exists>contract n1 saved1 builder d1 run before after sts.
      generate_type_contract (environment.truncate env) (contract_env tools) (providers cfg)
        (split_context (split_into_modules (grammars (bench env)) src (module_target_loc cfg))) src path n
        = Inr (contract, n1, saved1)
    \<and> start_modular_crate cfg nm contract d = Inr (builder, d1)
    \<and> run = \<lparr>run_modules = split_modules (split_into_modules (grammars (bench env)) src (module_target_loc cfg)),
             run_name = nm, run_analysis = a, run_difficulty = diff, run_contract = contract,
             run_warm = load_warm tools cfg d1\<rparr>
    \<and> module_waves (set_order tools) (from_source (grammars (bench env)) src) (run_modules run) = before @ after
    \<and> mset (concat (before @ after)) = mset [0..<length (run_modules run)]
    \<and> length sts = Suc (length before)
    \<and> sts ! 0 = modular_start cfg (length (run_modules run)) builder d1 n1 saved1
    \<and> mo_outputs (sts ! 0) = [] \<and> mo_context (sts ! 0) = [] \<and> mo_all_validated (sts ! 0)
    \<and> mo_config (sts ! 0) = cfg\<lparr>max_llm_calls := Some (compute_adaptive_budget (length (run_modules run)) (max_llm_calls cfg))\<rparr>
    \<and> (\<forall>k < length before. wave_done env tools run (sts ! k) (before ! k) (sts ! Suc k))
    \<and> (\<forall>k. Suc k < length before \<longrightarrow> \<not> budget_stop (sts ! Suc k))
    \<and> (after \<noteq> [] \<longrightarrow> budget_stop (last sts))
    \<and> mo_outputs (last sts) \<noteq> [] \<and> ok = mo_all_validated (last sts) \<and> mm = mo_metrics (last sts)
    \<and> rust = assemble_module_outputs (regexes env) (mo_outputs (last sts)) contract"
proof -
  define ms where "ms = split_modules (split_into_modules (grammars (bench env)) src (module_target_loc cfg))"
  define waves where "waves = module_waves (set_order tools) (from_source (grammars (bench env)) src) ms"
  obtain contract n1 saved1 builder d1 where contract: "generate_type_contract (environment.truncate env) (contract_env tools)
      (providers cfg) (split_context (split_into_modules (grammars (bench env)) src (module_target_loc cfg))) src path n
        = Inr (contract, n1, saved1)"
    and crate: "start_modular_crate cfg nm contract d = Inr (builder, d1)"
    and run: "run_modular env tools
        \<lparr>run_modules = ms, run_name = nm, run_analysis = a, run_difficulty = diff, run_contract = contract,
         run_warm = load_warm tools cfg d1\<rparr>
        waves (modular_start cfg (length ms) builder d1 n1 saved1) = Inr (ModularSuccess rust mm ok, n', saved, d')"
    using assms(1)
    by (auto simp: migrate_file_modular_def Let_def bind_result_Inr_iff ms_def waves_def split: if_splits)
  define r where "r = \<lparr>run_modules = ms, run_name = nm, run_analysis = a, run_difficulty = diff, run_contract = contract,
         run_warm = load_warm tools cfg d1\<rparr>"
  define st0 where "st0 = modular_start cfg (length ms) builder d1 n1 saved1"
  obtain st1 st2 where w: "run_waves env tools r waves st0 = Inr st1" and any: "mo_any_succeeded st1"
    and fin: "finish_modular_crate tools st1 = Inr st2"
    and res: "ModularSuccess rust mm ok = fst (assemble_run env r st2)"
    using run unfolding run_modular_def r_def [symmetric] st0_def [symmetric]
    by (auto simp: bind_result_Inr_iff split: if_splits)
  have keep: "mo_outputs st2 = mo_outputs st1" "mo_metrics st2 = mo_metrics st1" "mo_all_validated st2 = mo_all_validated st1"
    using finish_modular_crate_keeps [OF fin] by (metis modular_state.select_convs modular_state.update_convs(9) modular_state.surjective)+
  from run_waves_trace [OF w] obtain before after sts where t: "waves = before @ after" "length sts = Suc (length before)"
    "sts ! 0 = st0" "last sts = st1" "\<forall>k < length before. wave_done env tools r (sts ! k) (before ! k) (sts ! Suc k)"
    "\<forall>k. Suc k < length before \<longrightarrow> \<not> budget_stop (sts ! Suc k)" "after \<noteq> [] \<longrightarrow> budget_stop st1"
    by blast
  have start: "mo_outputs st0 = []" "mo_context st0 = []" "mo_all_validated st0" "\<not> mo_any_succeeded st0"
    "mo_config st0 = cfg\<lparr>max_llm_calls := Some (compute_adaptive_budget (length ms) (max_llm_calls cfg))\<rparr>"
    by (simp_all add: st0_def modular_start_def)
  have "k \<le> length before \<Longrightarrow> mo_any_succeeded (sts ! k) \<longleftrightarrow> mo_outputs (sts ! k) \<noteq> []" for k
  proof (induction k)
    case 0
    then show ?case by (simp add: t(3) start)
  next
    case (Suc k)
    then have "wave_done env tools r (sts ! k) (before ! k) (sts ! Suc k)" using t(5) by simp
    with Suc show ?case by (auto simp: wave_done_def Let_def)
  qed
  moreover have "last sts = sts ! length before" using t(2) by (metis Suc_neq_Zero diff_Suc_1 last_conv_nth length_0_conv)
  ultimately have ne: "mo_outputs st1 \<noteq> []" using any t(4) by auto
  have perm: "mset (concat (before @ after)) = mset [0..<length ms]"
    using module_waves_partition [OF assms(2), of "from_source (grammars (bench env)) src" ms] t(1)
    unfolding waves_def by metis
  have ms_r: "run_modules r = ms" by (simp add: r_def)
  show ?thesis
    using contract crate t perm ne res start
    by (intro exI [of _ contract] exI [of _ n1] exI [of _ saved1] exI [of _ builder] exI [of _ d1] exI [of _ r]
        exI [of _ before] exI [of _ after] exI [of _ sts])
      (simp add: ms_r st0_def [symmetric] waves_def [symmetric] ms_def [symmetric] assemble_run_def keep r_def)
qed

section \<open>A run\<close>

text \<open>Two modules, both reused from an earlier run.\<close>

definition four_functions :: parsers where
  "four_functions = no_parsers\<lparr>re_c_function := (\<lambda>_. [''aa_f'', ''aa_g'', ''bb_f'', ''bb_g''])\<rparr>"

definition modular_environment :: "(string, unit) file_environment" where
  "modular_environment =
     demo_environment\<lparr>bench := clean_workbench\<lparr>grammars := four_functions\<rparr>, client := (\<lambda>n p. Inl MaxRetries)\<rparr>"

definition old_artifact :: "string \<Rightarrow> string \<Rightarrow> module_artifact" where
  "old_artifact nm state_name =
     \<lparr>ma_name = nm, ma_state = state_name, ma_score = 80, ma_compiles = True, ma_unsafe_count = 0\<rparr>"

definition old_manifest :: artifact_manifest where
  "old_manifest = \<lparr>am_version = 2, am_function_name = ''m'', am_timestamp = [],
     am_modules = [old_artifact ''aa'' ''Validated'', old_artifact ''bb'' ''Validated'']\<rparr>"

definition old_file :: "string \<Rightarrow> string" where
  "old_file nm = path_join ''old'' (module_path nm)"

definition old_disk :: disk where
  "old_disk = empty_disk\<lparr>files := [path_join ''old'' ''manifest.json'' \<mapsto> ''{}'',
     old_file ''aa'' \<mapsto> ''fn a() {}'', old_file ''bb'' \<mapsto> ''fn b() {}'']\<rparr>"

definition warm_tools :: modular_tools where
  "warm_tools = demo_modular_tools\<lparr>manifest_of_json := (\<lambda>_. Inr old_manifest), path_exists := (\<lambda>_. True)\<rparr>"

definition warm_config :: migration_config where
  "warm_config = plain_config\<lparr>warm_start := Some ''old''\<rparr>"

definition demo_module_list :: "c_module list" where
  "demo_module_list = split_modules (split_into_modules four_functions ''int x;'' None)"

lemma demo_module_names: "map cm_name demo_module_list = [''aa'', ''bb'']"
  by code_simp

lemma demo_waves: "module_waves (\<lambda>xs. xs) (from_source four_functions ''int x;'') demo_module_list = [[0, 1]]"
  by code_simp

lemma old_files_differ: "old_file ''aa'' \<noteq> old_file ''bb''" "old_file ''aa'' \<noteq> path_join ''old'' ''manifest.json''"
  "old_file ''bb'' \<noteq> path_join ''old'' ''manifest.json''"
  by code_simp+

definition old_warm :: warm_source where
  "old_warm = \<lparr>wm_manifest = Some old_manifest, wm_store = Some \<lparr>run_dir = ''old''\<rparr>, wm_disk = old_disk\<rparr>"

lemma load_old_warm: "load_warm warm_tools warm_config old_disk = old_warm"
  using old_files_differ
  by (simp add: load_warm_def warm_tools_def warm_config_def from_existing_def load_manifest_def read_to_string_def
      ok_or_def old_disk_def old_warm_def)

lemma skips_aa: "cm_name (mt_module t) = ''aa'' \<Longrightarrow>
   warm_skip old_warm t = Some (old_artifact ''aa'' ''Validated'', ''fn a() {}'')"
  using old_files_differ
  by (simp add: warm_skip_def previous_module_def old_warm_def old_manifest_def old_artifact_def warm_start_action_def
      previous_code_def load_translation_module_def old_disk_def read_to_string_def ok_or_def old_file_def)

lemma skips_bb: "cm_name (mt_module t) = ''bb'' \<Longrightarrow>
   warm_skip old_warm t = Some (old_artifact ''bb'' ''Validated'', ''fn b() {}'')"
  using old_files_differ
  by (simp add: warm_skip_def previous_module_def old_warm_def old_manifest_def old_artifact_def warm_start_action_def
      previous_code_def load_translation_module_def old_disk_def read_to_string_def ok_or_def old_file_def)

definition demo_modular_run :: modular_run where
  "demo_modular_run =
     \<lparr>run_modules = demo_module_list, run_name = ''m'', run_analysis = plain_analysis, run_difficulty = Easy,
      run_contract = None, run_warm = old_warm\<rparr>"

definition skipped_at :: "modular_state \<Rightarrow> nat \<Rightarrow> module_result \<times> nat \<times> artifact_save list" where
  "skipped_at st i =
     (let t = task_of demo_modular_run st i; body = (if i = 0 then ''fn a() {}'' else ''fn b() {}'')
      in (skipped_result t (old_artifact (cm_name (mt_module t)) ''Validated'') body, 0,
          [SavedModule (cm_name (mt_module t)) body]))"

lemma demo_module_at: "cm_name (demo_module_list ! 0) = ''aa''" "cm_name (demo_module_list ! 1) = ''bb''"
  "length demo_module_list = 2"
  by code_simp+

lemma demo_modules_skip:
  assumes "i \<in> {0, 1}"
  shows "migrate_single_module env tools cfg old_warm (task_of demo_modular_run st i) = Inr (skipped_at st i)"
proof -
  have "cm_name (mt_module (task_of demo_modular_run st i)) = (if i = 0 then ''aa'' else ''bb'')"
    using assms demo_module_at by (auto simp: task_of_def demo_modular_run_def)
  then show ?thesis using assms
    by (cases "i = 0") (simp_all add: migrate_single_module_def skips_aa skips_bb skipped_at_def Let_def)
qed

lemma skipped_at_facts: "mr_index (fst (skipped_at st i)) = i" "has_output (fst (skipped_at st i))"
  "was_skip (fst (skipped_at st i))" "mr_metrics (fst (skipped_at st i)) = metrics_default"
  by (simp_all add: skipped_at_def skipped_result_def task_of_def has_output_def Let_def)

lemma demo_warm: "run_warm demo_modular_run = old_warm"
  by (simp add: demo_modular_run_def)

lemma demo_wave:
  assumes "set wave \<subseteq> {0, 1}"
  shows "\<exists>st1. run_wave modular_environment warm_tools demo_modular_run wave st = Inr st1"
proof -
  have "map (\<lambda>i. migrate_single_module modular_environment warm_tools (mo_config st) (run_warm demo_modular_run)
          (task_of demo_modular_run st i)) wave = map (\<lambda>i. Inr (skipped_at st i)) wave"
    unfolding demo_warm by (intro map_cong refl demo_modules_skip) (use assms in blast)
  then show ?thesis by (auto simp: run_wave_Inr Let_def)
qed

definition demo_wave_state :: modular_state where
  "demo_wave_state = modular_start warm_config 2 None old_disk 0 []"

theorem wave_order_irrelevant_witness:
  "\<exists>st1 st2. run_wave modular_environment warm_tools demo_modular_run [0, 1] demo_wave_state = Inr st1
     \<and> run_wave modular_environment warm_tools demo_modular_run [1, 0] demo_wave_state = Inr st2
     \<and> mo_outputs st2 = mo_outputs st1"
proof -
  obtain st1 where st1: "run_wave modular_environment warm_tools demo_modular_run [0, 1] demo_wave_state = Inr st1"
    using demo_wave [of "[0, 1]"] by auto
  have "mset [1, 0] = mset [0, 1 :: nat]" by simp
  from wave_order_irrelevant [OF st1 _ this] obtain st2 where
    "run_wave modular_environment warm_tools demo_modular_run [1, 0] demo_wave_state = Inr st2"
    and eq: "st2\<lparr>mo_saves := mo_saves st1\<rparr> = st1"
    by auto
  moreover have "mo_outputs (st2\<lparr>mo_saves := mo_saves st1\<rparr>) = mo_outputs st2" by simp
  ultimately show ?thesis using st1 eq by metis
qed

text \<open>Merging reused modules costs nothing.\<close>

definition no_cost :: "modular_state \<Rightarrow> modular_state \<Rightarrow> bool" where
  "no_cost st st' \<longleftrightarrow>
     mo_builder st' = None \<and> llm_calls (mo_metrics st') = llm_calls (mo_metrics st)
     \<and> input_tokens (mo_metrics st') = input_tokens (mo_metrics st)
     \<and> output_tokens (mo_metrics st') = output_tokens (mo_metrics st)"

lemma merge_no_cost:
  assumes "mr_metrics r = metrics_default" "mo_builder st = None"
  shows "no_cost st (merge_result c r st)"
  using assms
  by (auto simp: no_cost_def merge_result_def Let_def merge_output_def write_crate_module_def merge_metrics_def
      add_modular_metrics_def metrics_default_def split: option.splits)

lemma fold_no_cost:
  "\<forall>r \<in> set rs. mr_metrics r = metrics_default \<Longrightarrow> mo_builder st = None \<Longrightarrow> no_cost st (fold (merge_result c) rs st)"
proof (induction rs arbitrary: st)
  case (Cons r rs)
  with merge_no_cost [of r st c] have "no_cost st (merge_result c r st)" by simp
  with Cons.IH [of "merge_result c r st"] Cons.prems(1) show ?case by (simp add: no_cost_def)
qed (simp add: no_cost_def)

lemma demo_wave_result:
  assumes "mo_builder st = None"
  shows "\<exists>st1. run_wave modular_environment warm_tools demo_modular_run [0, 1] st = Inr st1
    \<and> mo_any_succeeded st1 \<and> mo_config st1 = mo_config st \<and> no_cost st st1"
proof -
  define rs where "rs = sort_key mr_index (map fst (map (skipped_at st) [0, 1]))"
  have runs: "map (\<lambda>i. migrate_single_module modular_environment warm_tools (mo_config st) (run_warm demo_modular_run)
          (task_of demo_modular_run st i)) [0, 1] = map Inr (map (skipped_at st) [0, 1])"
    by (simp add: demo_warm demo_modules_skip)
  have ended: "ended (map Inr xs) = xs" for xs :: "'z list" by (induction xs) simp_all
  have "run_wave modular_environment warm_tools demo_modular_run [0, 1] st
      = Inr (fold (merge_result None) rs (wave_start st True (map (skipped_at st) [0, 1])))"
    unfolding run_wave_Inr Let_def runs ended rs_def by (auto simp: demo_modular_run_def)
  moreover have "set rs = fst ` skipped_at st ` {0, 1}" by (auto simp: rs_def)
  then have "filter has_output rs \<noteq> []" "\<forall>r \<in> set rs. mr_metrics r = metrics_default"
    by (auto simp: filter_empty_conv skipped_at_facts)
  ultimately show ?thesis
    using fold_no_cost [of rs "wave_start st True (map (skipped_at st) [0, 1])" None] assms
    by (auto simp: fold_merge_fields(1) wave_start_def no_cost_def)
qed

lemma demo_contract:
  "generate_type_contract (environment.truncate modular_environment) ct (providers warm_config) ctx src path n
   = Inr (None, if is_blank ctx then n else n + 3, [])"
proof -
  have c: "client (environment.truncate modular_environment) = (\<lambda>n p. Inl MaxRetries)"
    by (simp add: environment.truncate_def modular_environment_def)
  have "contract_loop (environment.truncate modular_environment) ct model p xs errs n = (None, n + length xs)" for model p xs errs n
    by (induction xs arbitrary: errs n) (simp_all add: c)
  moreover obtain sel where "select_model (providers warm_config) Easy ''type_contract'' = Inr sel"
    by (simp add: select_model_def warm_config_def plain_config_def)
  ultimately show ?thesis by (simp add: generate_type_contract_def max_contract_retries_def Let_def)
qed

lemma demo_modular_succeeds:
  "\<exists>rust mm ok n saved d. migrate_file_modular modular_environment warm_tools warm_config old_disk ''int x;'' ''m'' None
     plain_analysis Easy 0 = Inr (ModularSuccess rust mm ok, n, saved, d)"
proof -
  define ms where "ms = split_modules (split_into_modules (grammars (bench modular_environment)) ''int x;''
                          (module_target_loc warm_config))"
  have ps: "grammars (bench modular_environment) = four_functions" by (simp add: modular_environment_def)
  have ms: "ms = demo_module_list"
    by (simp add: ms_def ps demo_module_list_def warm_config_def plain_config_def)
  define st0 where "st0 = modular_start warm_config 2 None old_disk (if is_blank (split_context (split_into_modules
      four_functions ''int x;'' None)) then 0 else 3) []"
  have b: "mo_builder st0 = None" "llm_calls (mo_metrics st0) = 0" "input_tokens (mo_metrics st0) = 0"
      "output_tokens (mo_metrics st0) = 0"
      "mo_config st0 = warm_config\<lparr>max_llm_calls := Some (compute_adaptive_budget 2 None)\<rparr>"
    by (simp_all add: st0_def modular_start_def metrics_default_def warm_config_def plain_config_def)
  obtain st1 where w: "run_wave modular_environment warm_tools demo_modular_run [0, 1] st0 = Inr st1"
      "mo_any_succeeded st1" "mo_config st1 = mo_config st0" "no_cost st0 st1"
    using demo_wave_result [OF b(1)] by blast
  have limits: "max_llm_calls (mo_config st1) = Some (as_u32 2 * 10 + 25)" "max_tokens_budget (mo_config st1) = None"
    by (simp_all add: w(3) b compute_adaptive_budget_def Let_def warm_config_def plain_config_def)
  have "budget_phase (max_llm_calls (mo_config st1)) (llm_calls (mo_metrics st1)) = Normal"
    using w(4) by (simp add: limits no_cost_def b budget_phase_def as_u32_def Let_def)
  moreover have "check_budget (max_tokens_budget (mo_config st1)) (max_llm_calls (mo_config st1)) (mo_metrics st1) = Inr ()"
    using w(4) by (simp add: limits no_cost_def b check_budget_def as_u32_def)
  ultimately have "run_waves modular_environment warm_tools demo_modular_run [[0, 1]] st0 = Inr st1"
    using w(1) by simp
  moreover have "mo_builder st1 = None" using w(4) by (simp add: no_cost_def)
  ultimately have run: "\<exists>x. run_modular modular_environment warm_tools demo_modular_run [[0, 1]] st0
      = Inr (fst x, fst (snd x), fst (snd (snd x)), snd (snd (snd x))) \<and> (\<exists>rust mm ok. fst x = ModularSuccess rust mm ok)"
    using w(2) by (simp add: run_modular_def finish_modular_crate_def assemble_run_def)
  have "migrate_file_modular modular_environment warm_tools warm_config old_disk ''int x;'' ''m'' None plain_analysis Easy 0
      = run_modular modular_environment warm_tools demo_modular_run [[0, 1]] st0"
  proof -
    have order: "set_order warm_tools = (\<lambda>xs. xs)" by (simp add: warm_tools_def demo_modular_tools_def)
    have cfg: "module_target_loc warm_config = None" "crate_output_dir warm_config = None"
      by (simp_all add: warm_config_def plain_config_def)
    have split: "split_modules (split_into_modules four_functions ''int x;'' None) = demo_module_list"
      by (simp add: demo_module_list_def)
    show ?thesis
      unfolding migrate_file_modular_def Let_def ps cfg split order demo_waves demo_contract start_modular_crate_def
      by (simp add: demo_module_at demo_modular_run_def st0_def load_old_warm)
  qed
  with run show ?thesis by (metis prod.collapse)
qed

lemma demo_module_text:
  assumes "i \<in> {0, 1}"
  shows "module_text env tools demo_modular_run st i =
    Some (if i = 0 then (''aa'', ''fn a() {}'', True) else (''bb'', ''fn b() {}'', True))"
proof -
  have "module_run env tools demo_modular_run st i = Some (fst (skipped_at st i))"
    unfolding module_run_def demo_warm demo_modules_skip [OF assms] by (simp add: skipped_at_def Let_def)
  then show ?thesis
    using assms demo_module_at
    by (auto simp: module_text_def skipped_at_def skipped_result_def task_of_def demo_modular_run_def old_artifact_def Let_def)
qed

theorem modular_run_assembles_witness:
  "\<exists>mm ok n saved d.
     migrate_file_modular modular_environment warm_tools warm_config old_disk ''int x;'' ''m'' None plain_analysis Easy 0
       = Inr (ModularSuccess (assemble_module_outputs (regexes modular_environment)
                [(''aa'', ''fn a() {}'', True), (''bb'', ''fn b() {}'', True)] None) mm ok, n, saved, d)"
proof -
  obtain rust mm ok n saved d where run: "migrate_file_modular modular_environment warm_tools warm_config old_disk
      ''int x;'' ''m'' None plain_analysis Easy 0 = Inr (ModularSuccess rust mm ok, n, saved, d)"
    using demo_modular_succeeds by blast
  have order: "\<forall>xs. set (set_order warm_tools xs) = set xs" "set_order warm_tools = (\<lambda>xs. xs)"
    by (simp_all add: warm_tools_def demo_modular_tools_def)
  from modular_run_assembles [OF run order(1)] obtain contract n1 saved1 builder d1 r before after sts where
    contract: "generate_type_contract (environment.truncate modular_environment) (contract_env warm_tools) (providers warm_config)
        (split_context (split_into_modules (grammars (bench modular_environment)) ''int x;'' (module_target_loc warm_config)))
        ''int x;'' None 0 = Inr (contract, n1, saved1)"
    and crate: "start_modular_crate warm_config ''m'' contract old_disk = Inr (builder, d1)"
    and r: "r = \<lparr>run_modules = split_modules (split_into_modules (grammars (bench modular_environment)) ''int x;''
             (module_target_loc warm_config)), run_name = ''m'', run_analysis = plain_analysis, run_difficulty = Easy,
             run_contract = contract, run_warm = load_warm warm_tools warm_config d1\<rparr>"
    and waves: "module_waves (set_order warm_tools) (from_source (grammars (bench modular_environment)) ''int x;'')
        (run_modules r) = before @ after"
    and sts: "length sts = Suc (length before)" "mo_outputs (sts ! 0) = []"
      "\<forall>k < length before. wave_done modular_environment warm_tools r (sts ! k) (before ! k) (sts ! Suc k)"
    and out: "mo_outputs (last sts) \<noteq> []"
      "rust = assemble_module_outputs (regexes modular_environment) (mo_outputs (last sts)) contract"
    by blast
  have facts: "grammars (bench modular_environment) = four_functions" "module_target_loc warm_config = None"
    "crate_output_dir warm_config = None"
    by (simp_all add: modular_environment_def warm_config_def plain_config_def)
  have none: "contract = None" using contract by (simp add: demo_contract)
  have "d1 = old_disk" using crate by (simp add: none start_modular_crate_def facts)
  then have eq: "r = demo_modular_run"
    by (simp add: r none facts demo_modular_run_def demo_module_list_def load_old_warm)
  have "before @ after = [[0, 1]]"
    using waves by (simp add: eq order(2) facts demo_waves demo_modular_run_def)
  moreover have "before \<noteq> []" using sts(1,2) out(1) by (cases sts) auto
  ultimately have b: "before = [[0, 1]]" by (cases before) auto
  then obtain s0 s1 where two: "sts = [s0, s1]" using sts(1) by (auto simp: length_Suc_conv)
  have "wave_done modular_environment warm_tools demo_modular_run s0 [0, 1] s1" using sts(3) by (simp add: b two eq)
  moreover have "mo_outputs s0 = []" using sts(2) by (simp add: two)
  ultimately have "mo_outputs s1 = [(''aa'', ''fn a() {}'', True), (''bb'', ''fn b() {}'', True)]"
    by (simp add: wave_done_def Let_def map_filter_simps demo_module_text)
  then show ?thesis using run out(2) by (auto simp: none two)
qed

end
