(* ===== verification/Directory_Pipeline.thy ===== *)
theory Directory_Pipeline
  imports Modular_Outcome
begin

text \<open>
  The migration of a directory with a language model (\<open>migrate_directory\<close> in
  \<open>crates/noricum-core/src/orchestrator.rs\<close>): the C files are ordered by the dependency graph of the
  directory, or by name, and migrated one after the other; the cache is carried from file to file. The
  signatures collected on the way are only reported.
\<close>

section \<open>Order of the files\<close>

definition file_rank :: "('exe, 'g) file_environment \<Rightarrow> string list \<Rightarrow> string \<Rightarrow> nat" where
  "file_rank env ordered path =
     unwrap_or (position (\<lambda>n. n = unwrap_or (stem_of (c2_tools env) path) []) ordered) (2 ^ 64 - 1)"

definition order_files :: "('exe, 'g) file_environment \<Rightarrow> string list \<Rightarrow> string list \<Rightarrow> string list" where
  "order_files env ordered c_files =
     (if ordered \<noteq> [] then sort_key (file_rank env ordered) c_files else sort c_files)"

text \<open>The functions in topological order; a directory whose files cannot be read gives no order.\<close>

definition ordered_names :: "parsers \<Rightarrow> dir_entry list \<Rightarrow> string list" where
  "ordered_names ps entries =
     (case from_directory ps entries of
        Inl _ \<Rightarrow> []
      | Inr graph \<Rightarrow> unwrap_or (topological_sort graph) [])"

section \<open>The files one after the other\<close>

text \<open>
  The environment and the modular migration of file \<open>k\<close> are parameters, since the answers of the model and the
  clock differ from file to file.
\<close>

fun migrate_files ::
  "nat \<Rightarrow> (nat \<Rightarrow> ('exe, 'g) file_environment) \<Rightarrow> migration_config \<Rightarrow> (nat \<Rightarrow> modular_migration) \<Rightarrow> bool \<Rightarrow> nat \<Rightarrow> string list
   \<Rightarrow> (string \<rightharpoonup> string) \<Rightarrow> string list \<Rightarrow> migration_project
   \<Rightarrow> (core_error, migration_project \<times> (string \<rightharpoonup> string) \<times> string list) result option" where
  "migrate_files fuel env_at cfg modular_at writable k sigs cache [] project = Some (Inr (project, cache, sigs))"
| "migrate_files fuel env_at cfg modular_at writable k sigs cache (path # paths) project =
     (case migrate_file fuel (env_at k) cfg (modular_at k) cache writable path of
        None \<Rightarrow> None
      | Some (Inl e) \<Rightarrow> Some (Inl e)
      | Some (Inr (u, cache')) \<Rightarrow>
          (let new = (case rust_output u of
                        Some rust \<Rightarrow> if unit_state u = Validated then extract_rust_signatures rust else []
                      | None \<Rightarrow> [])
           in migrate_files fuel env_at cfg modular_at writable (Suc k) (sigs @ new) cache' paths (add_unit project u)))"

definition migrate_directory ::
  "nat \<Rightarrow> (nat \<Rightarrow> ('exe, 'g) file_environment) \<Rightarrow> migration_config \<Rightarrow> (nat \<Rightarrow> modular_migration) \<Rightarrow> bool
   \<Rightarrow> dir_entry list \<Rightarrow> (string \<rightharpoonup> string) \<Rightarrow> string \<Rightarrow> (core_error, migration_project \<times> (string \<rightharpoonup> string)) result option" where
  "migrate_directory fuel env_at cfg modular_at writable entries cache dir =
     (let env = env_at 0
      in case read_directory env dir of
        Inl e \<Rightarrow> Some (Inl (IoError e))
      | Inr paths \<Rightarrow>
          (let c_files = filter (is_c_file env) paths
           in if c_files = [] then Some (Inl (NoSourceFiles dir))
              else map_option (map_sum id (\<lambda>(project, cache', _). (project, cache')))
                (migrate_files fuel env_at cfg modular_at writable 0 [] cache
                  (order_files env (ordered_names (grammars (bench env)) entries) c_files)
                  (new_project (case last_component (pp_env env) dir of [] \<Rightarrow> ''project'' | nm \<Rightarrow> nm) dir))))"

section \<open>Facts\<close>

lemma migrate_files_run:
  "migrate_files fuel env_at cfg modular_at writable k sigs cache paths project = Some (Inr (project', cache', sigs')) \<Longrightarrow>
   \<exists>us caches. units project' = units project @ us \<and> length us = length paths \<and> length caches = Suc (length paths)
     \<and> caches ! 0 = cache \<and> last caches = cache'
     \<and> (\<forall>i < length paths. migrate_file fuel (env_at (k + i)) cfg (modular_at (k + i)) (caches ! i) writable (paths ! i)
            = Some (Inr (us ! i, caches ! Suc i)))"
proof (induction paths arbitrary: k sigs cache project)
  case Nil
  then show ?case by (intro exI [of _ "[]"] exI [of _ "[cache]"]) simp
next
  case (Cons path paths)
  then obtain u c1 sigs1 where step: "migrate_file fuel (env_at k) cfg (modular_at k) cache writable path = Some (Inr (u, c1))"
    and rest: "migrate_files fuel env_at cfg modular_at writable (Suc k) sigs1 c1 paths (add_unit project u)
      = Some (Inr (project', cache', sigs'))"
    by (auto simp: Let_def split: option.splits sum.splits)
  from Cons.IH [OF rest] obtain us caches where ih: "units project' = units (add_unit project u) @ us"
      "length us = length paths" "length caches = Suc (length paths)" "caches ! 0 = c1" "last caches = cache'"
      "\<forall>i < length paths. migrate_file fuel (env_at (Suc k + i)) cfg (modular_at (Suc k + i)) (caches ! i) writable (paths ! i)
            = Some (Inr (us ! i, caches ! Suc i))"
    by blast
  have "migrate_file fuel (env_at (k + i)) cfg (modular_at (k + i)) ((cache # caches) ! i) writable ((path # paths) ! i)
      = Some (Inr ((u # us) ! i, (cache # caches) ! Suc i))" if "i < length (path # paths)" for i
  proof (cases i)
    case 0
    with step ih(4) show ?thesis by simp
  next
    case (Suc j)
    with ih(6) that show ?thesis by simp
  qed
  then show ?case
    using ih(1-5) by (intro exI [of _ "u # us"] exI [of _ "cache # caches"]) (auto simp: add_unit_def)
qed

lemma order_files_perm: "mset (order_files env ordered c_files) = mset c_files"
  by (simp add: order_files_def)

text \<open>
  C24: The migration of a directory migrates every C file exactly once. The units of the project are the results
  of migrating the files one after the other, each with the cache the file before it has left, in the order of
  their ranks when the dependency graph gives an order and by name otherwise.
\<close>

theorem directory_run:
  assumes "migrate_directory fuel env_at cfg modular_at writable entries cache dir = Some (Inr (project, cache'))"
    and "read_directory (env_at 0) dir = Inr paths"
  shows "\<exists>files caches. mset files = mset (filter (is_c_file (env_at 0)) paths) \<and> files \<noteq> []
    \<and> (let ordered = ordered_names (grammars (bench (env_at 0))) entries
       in if ordered = [] then sorted files else sorted (map (file_rank (env_at 0) ordered) files))
    \<and> length (units project) = length files \<and> length caches = Suc (length files)
    \<and> caches ! 0 = cache \<and> last caches = cache'
    \<and> (\<forall>i < length files. migrate_file fuel (env_at i) cfg (modular_at i) (caches ! i) writable (files ! i)
          = Some (Inr (units project ! i, caches ! Suc i)))"
proof -
  define ordered where "ordered = ordered_names (grammars (bench (env_at 0))) entries"
  define files where "files = order_files (env_at 0) ordered (filter (is_c_file (env_at 0)) paths)"
  obtain nm where made: "migrate_directory fuel env_at cfg modular_at writable entries cache dir =
      (if filter (is_c_file (env_at 0)) paths = [] then Some (Inl (NoSourceFiles dir))
       else map_option (map_sum id (\<lambda>(project, cache', _). (project, cache')))
         (migrate_files fuel env_at cfg modular_at writable 0 [] cache files (new_project nm dir)))"
    using assms(2) unfolding migrate_directory_def Let_def files_def ordered_def by auto
  with assms(1) have ne: "filter (is_c_file (env_at 0)) paths \<noteq> []"
    and ran: "map_option (map_sum id (\<lambda>(project, cache', _). (project, cache')))
      (migrate_files fuel env_at cfg modular_at writable 0 [] cache files (new_project nm dir)) = Some (Inr (project, cache'))"
    by (auto split: if_splits)
  obtain sigs where run: "migrate_files fuel env_at cfg modular_at writable 0 [] cache files (new_project nm dir)
      = Some (Inr (project, cache', sigs))"
  proof (cases "migrate_files fuel env_at cfg modular_at writable 0 [] cache files (new_project nm dir)")
    case (Some r)
    with ran that show thesis by (cases r) auto
  qed (use ran in simp)
  have perm: "mset files = mset (filter (is_c_file (env_at 0)) paths)" by (simp add: files_def order_files_perm)
  with ne have "files \<noteq> []" by (metis mset.simps(1) mset_zero_iff)
  moreover have "if ordered = [] then sorted files else sorted (map (file_rank (env_at 0) ordered) files)"
    by (simp add: files_def order_files_def)
  ultimately show ?thesis
    using migrate_files_run [OF run] perm unfolding ordered_def by (auto simp: new_project_def)
qed

text \<open>The ranks compare names of functions with names of files: a file that is called otherwise comes last.\<close>

lemma unnamed_file_last:
  "unwrap_or (stem_of (c2_tools env) path) [] \<notin> set ordered \<Longrightarrow> file_rank env ordered path = 2 ^ 64 - 1"
proof -
  assume "unwrap_or (stem_of (c2_tools env) path) [] \<notin> set ordered"
  then have "position (\<lambda>n. n = unwrap_or (stem_of (c2_tools env) path) []) ordered = None"
    by (auto simp: position_None)
  then show ?thesis by (simp add: file_rank_def)
qed

lemma no_entries: "ordered_names ps [] = []"
proof -
  have "from_directory ps [] = Inr []" by (simp add: from_directory_def read_matching_def dedup_edges_def sort_dedup_def)
  moreover have "topological_sort [] = Some []" by code_simp
  ultimately show ?thesis by (simp add: ordered_names_def)
qed

theorem directory_run_witness:
  "\<exists>project cache'. migrate_directory 5 (\<lambda>_. demo_environment) plain_config (\<lambda>_. no_modular) True [] demo_cache ''d''
     = Some (Inr (project, cache')) \<and> length (units project) = 1"
proof -
  obtain u cache' where u: "migrate_file 5 demo_environment plain_config no_modular demo_cache True ''m.c'' = Some (Inr (u, cache'))"
      "unit_state u = Validated"
    using demo_migrates by blast
  have c: "is_c_file demo_environment ''m.c''" by (simp add: is_c_file_def demo_environment_def ends_with_def)
  have dir: "read_directory demo_environment ''d'' = Inr [''m.c'']" by (simp add: demo_environment_def)
  obtain project where run: "migrate_directory 5 (\<lambda>_. demo_environment) plain_config (\<lambda>_. no_modular) True [] demo_cache ''d''
      = Some (Inr (project, cache'))"
    unfolding migrate_directory_def Let_def dir by (simp add: c no_entries order_files_def u(1))
  from directory_run [OF run dir] c have "length (units project) = 1" by auto
  with run show ?thesis by blast
qed

end
