(* ===== verification/Crate_Repair.thy ===== *)
theory Crate_Repair
  imports Modular_Facts
begin

text \<open>
  The repair of one module of a crate (\<open>repair_module_in_crate\<close> in
  \<open>crates/noricum-core/src/module_migration.rs\<close>): the crate is checked by Cargo, the module is repaired by the
  rules and then by the model, and written back, until the crate compiles or the iterations are used up.
\<close>

section \<open>State and steps\<close>

record crate_repair =
  cr_builder :: crate_builder
  cr_disk :: disk
  cr_calls :: nat

text \<open>What does not change during the repair.\<close>

record crate_task =
  ct_name :: string
  ct_source :: string
  ct_model :: string
  ct_iterations :: u32
  ct_temperature :: "rat option"
  ct_ceiling :: u32

definition crate_unsafe_ceiling :: "u32 option \<Rightarrow> u32 \<Rightarrow> u32" where
  "crate_unsafe_ceiling limit baseline = max (unwrap_or limit baseline) baseline"

definition error_text :: "compiler_error \<Rightarrow> string" where
  "error_text e = code e @ '': '' @ message e @ '' (line '' @ show_nat (err_line e) @ '')''"

definition write_repaired :: "string \<Rightarrow> string \<Rightarrow> crate_repair \<Rightarrow> (core_error, crate_repair) result" where
  "write_repaired nm src st =
     bind_result (lift_tool_error ''write module'' (write_module (cr_builder st) nm src (cr_disk st)))
       (\<lambda>(b, d). Inr (st\<lparr>cr_builder := b, cr_disk := d\<rparr>))"

definition check_module ::
  "(string \<Rightarrow> disk \<Rightarrow> compile_result option) \<Rightarrow> string \<Rightarrow> crate_repair \<Rightarrow> (core_error, compile_result) result" where
  "check_module cargo nm st =
     (case check_module_compiles cargo (cb_dir (cr_builder st)) nm (cr_disk st) of
        Inl e \<Rightarrow> Inl (ToolFailure e) | Inr r \<Rightarrow> Inr r)"

text \<open>The rules: a changed text is written and the crate checked again.\<close>

definition rules_in_crate ::
  "(string \<Rightarrow> disk \<Rightarrow> compile_result option) \<Rightarrow> string \<Rightarrow> string \<Rightarrow> string \<Rightarrow> crate_repair
   \<Rightarrow> (core_error, bool \<times> crate_repair) result" where
  "rules_in_crate cargo nm current_src fixed st =
     (if fixed = current_src then Inr (False, st)
      else bind_result (write_repaired nm fixed st) (\<lambda>st'.
           bind_result (check_module cargo nm st') (\<lambda>r. Inr (success r, st'))))"

text \<open>The model gets the text from before the rules; its answer is written when it keeps the ceiling.\<close>

definition model_in_crate ::
  "'exe environment \<Rightarrow> crate_task \<Rightarrow> string \<Rightarrow> string list \<Rightarrow> u32 \<Rightarrow> crate_repair
   \<Rightarrow> (core_error, crate_repair) result" where
  "model_in_crate env t current_src errors i st =
     (let (answer, n) = repair_function_full (client env) (repair_preamble env) (ct_model t) current_src errors []
                          (ct_source t) (i + 1) (ct_iterations t) (ct_temperature t) None (cr_calls st);
          st1 = st\<lparr>cr_calls := n\<rparr>
      in case answer of
           Inl _ \<Rightarrow> Inr st1
         | Inr fresh \<Rightarrow>
             if count_unsafe_blocks_ast (bench env) fresh \<le> ct_ceiling t
             then write_repaired (ct_name t) fresh st1 else Inr st1)"

definition crate_repair_step ::
  "'exe environment \<Rightarrow> (string \<Rightarrow> disk \<Rightarrow> compile_result option) \<Rightarrow> crate_task \<Rightarrow> u32 \<Rightarrow> crate_repair
   \<Rightarrow> (core_error, bool \<times> crate_repair) result" where
  "crate_repair_step env cargo t i st =
     bind_result (check_module cargo (ct_name t) st) (\<lambda>r.
       if success r then Inr (True, st)
       else
         bind_result (lift_tool_error ''read module'' (read_module (cr_builder st) (ct_name t) (cr_disk st))) (\<lambda>current_src.
           (let errors = parse_rustc_errors (regexes env) (cr_stderr r);
                fixed = apply_all_rules (regexes env) current_src errors
            in bind_result (rules_in_crate cargo (ct_name t) current_src fixed st) (\<lambda>(ok, st1).
                 if ok then Inr (True, st1)
                 else bind_result (model_in_crate env t current_src (map error_text errors) i st1)
                        (\<lambda>st2. Inr (False, st2))))))"

fun crate_repair_loop ::
  "'exe environment \<Rightarrow> (string \<Rightarrow> disk \<Rightarrow> compile_result option) \<Rightarrow> crate_task \<Rightarrow> u32 list \<Rightarrow> crate_repair
   \<Rightarrow> (core_error, bool \<times> crate_repair) result" where
  "crate_repair_loop env cargo t [] st = Inr (False, st)"
| "crate_repair_loop env cargo t (i # rest) st =
     bind_result (crate_repair_step env cargo t i st) (\<lambda>(ok, st').
       if ok then Inr (True, st') else crate_repair_loop env cargo t rest st')"

definition crate_iterations :: "u32 \<Rightarrow> u32 list" where
  "crate_iterations k = map of_nat [0..<unat k]"

definition repair_module_in_crate ::
  "'exe environment \<Rightarrow> (string \<Rightarrow> disk \<Rightarrow> compile_result option) \<Rightarrow> string \<Rightarrow> string \<Rightarrow> string \<Rightarrow> u32 \<Rightarrow> rat option
   \<Rightarrow> u32 option \<Rightarrow> crate_repair \<Rightarrow> (core_error, bool \<times> crate_repair) result" where
  "repair_module_in_crate env cargo nm c_src model max_iters temperature max_unsafe st =
     bind_result (lift_tool_error ''read module'' (read_module (cr_builder st) nm (cr_disk st))) (\<lambda>src.
       crate_repair_loop env cargo
         \<lparr>ct_name = nm, ct_source = c_src, ct_model = model, ct_iterations = max_iters, ct_temperature = temperature,
          ct_ceiling = crate_unsafe_ceiling max_unsafe (count_unsafe_blocks_ast (bench env) src)\<rparr>
         (crate_iterations max_iters) st)"

section \<open>Facts\<close>

text \<open>What a repair may change: the file of its module and the list of modules.\<close>

definition touches_only :: "string \<Rightarrow> crate_repair \<Rightarrow> crate_repair \<Rightarrow> bool" where
  "touches_only nm st st' \<longleftrightarrow>
     (\<forall>p. p \<noteq> module_file (cr_builder st) nm \<longrightarrow> files (cr_disk st') p = files (cr_disk st) p)
     \<and> write_fault (cr_disk st') = write_fault (cr_disk st)
     \<and> cr_builder st' \<in> {cr_builder st, note_module (sanitize_module_name nm) (cr_builder st)}"

lemma touches_only_refl [simp]: "touches_only nm st st"
  by (simp add: touches_only_def)

lemma note_module_again [simp]: "note_module m (note_module m b) = note_module m b"
  by (simp add: note_module_def)

lemma touches_only_trans: "touches_only nm st st' \<Longrightarrow> touches_only nm st' st'' \<Longrightarrow> touches_only nm st st''"
  by (auto simp: touches_only_def)

lemma touches_only_calls [simp]: "touches_only nm st (st'\<lparr>cr_calls := n\<rparr>) = touches_only nm st st'"
    "touches_only nm (st\<lparr>cr_calls := n\<rparr>) st' = touches_only nm st st'"
  by (simp_all add: touches_only_def)

lemma lift_tool_error_Inr [simp]: "lift_tool_error what r = Inr a \<longleftrightarrow> r = Inr a"
  by (auto simp: lift_tool_error_def split: sum.splits)

lemma write_repaired_only:
  "write_repaired nm src st = Inr st' \<Longrightarrow> touches_only nm st st' \<and> cr_calls st' = cr_calls st"
  by (auto simp: write_repaired_def bind_result_Inr_iff write_module_Inr write_file_Inr touches_only_def)

text \<open>A successful check of the module is one of the whole crate.\<close>

definition crate_builds :: "(string \<Rightarrow> disk \<Rightarrow> compile_result option) \<Rightarrow> crate_repair \<Rightarrow> bool" where
  "crate_builds cargo st \<longleftrightarrow>
     (\<exists>r. check_crate_compiles cargo (cb_dir (cr_builder st)) (cr_disk st) = Inr r \<and> success r)"

lemma check_module_builds: "check_module cargo nm st = Inr r \<Longrightarrow> success r \<Longrightarrow> crate_builds cargo st"
  by (auto simp: check_module_def check_module_compiles_def crate_builds_def bind_result_Inr_iff Let_def
      split: sum.splits if_splits)

lemma rules_in_crate_only:
  assumes "rules_in_crate cargo nm s fixed st = Inr (ok, st')"
  shows "touches_only nm st st' \<and> cr_calls st' = cr_calls st \<and> (ok \<longrightarrow> crate_builds cargo st')"
proof (cases "fixed = s")
  case False
  with assms obtain r where "write_repaired nm fixed st = Inr st'" "check_module cargo nm st' = Inr r" "ok = success r"
    by (auto simp: rules_in_crate_def bind_result_Inr_iff)
  then show ?thesis using write_repaired_only check_module_builds by blast
qed (use assms in \<open>simp add: rules_in_crate_def\<close>)

lemma model_in_crate_only:
  assumes "model_in_crate env t s es i st = Inr st'"
  shows "touches_only (ct_name t) st st' \<and> cr_calls st' \<le> cr_calls st + 4"
proof -
  obtain answer n where a: "repair_function_full (client env) (repair_preamble env) (ct_model t) s es []
      (ct_source t) (i + 1) (ct_iterations t) (ct_temperature t) None (cr_calls st) = (answer, n)"
    by fastforce
  then have n: "n \<le> cr_calls st + 4" by (rule repair_function_le)
  show ?thesis
  proof (cases answer)
    case Inl
    with assms a n show ?thesis by (auto simp: model_in_crate_def)
  next
    case (Inr fresh)
    show ?thesis
    proof (cases "count_unsafe_blocks_ast (bench env) fresh \<le> ct_ceiling t")
      case True
      with assms a Inr have "write_repaired (ct_name t) fresh (st\<lparr>cr_calls := n\<rparr>) = Inr st'"
        by (simp add: model_in_crate_def)
      from write_repaired_only [OF this] n show ?thesis by simp
    next
      case False
      with assms a Inr n show ?thesis by (auto simp: model_in_crate_def)
    qed
  qed
qed

lemma crate_repair_step_only:
  assumes "crate_repair_step env cargo t i st = Inr (ok, st')"
  shows "touches_only (ct_name t) st st' \<and> cr_calls st' \<le> cr_calls st + 4 \<and> (ok \<longrightarrow> crate_builds cargo st')"
proof -
  from assms obtain r where r: "check_module cargo (ct_name t) st = Inr r"
    by (auto simp: crate_repair_step_def bind_result_Inr_iff)
  show ?thesis
  proof (cases "success r")
    case True
    with assms r check_module_builds show ?thesis by (auto simp: crate_repair_step_def bind_result_Inr_iff)
  next
    case False
    with assms r obtain s ok1 st1 where rules: "rules_in_crate cargo (ct_name t) s
        (apply_all_rules (regexes env) s (parse_rustc_errors (regexes env) (cr_stderr r))) st = Inr (ok1, st1)"
      and rest: "if ok1 then ok \<and> st' = st1
        else \<not> ok \<and> model_in_crate env t s (map error_text (parse_rustc_errors (regexes env) (cr_stderr r))) i st1 = Inr st'"
      by (auto simp: crate_repair_step_def bind_result_Inr_iff Let_def split: if_splits)
    from rules_in_crate_only [OF rules] rest model_in_crate_only touches_only_trans show ?thesis
      by (fastforce split: if_splits)
  qed
qed

lemma crate_repair_loop_only:
  "crate_repair_loop env cargo t is st = Inr (ok, st') \<Longrightarrow>
   touches_only (ct_name t) st st' \<and> cr_calls st' \<le> cr_calls st + 4 * length is \<and> (ok \<longrightarrow> crate_builds cargo st')"
proof (induction "is" arbitrary: st)
  case (Cons i rest)
  from Cons.prems obtain ok1 st1 where step: "crate_repair_step env cargo t i st = Inr (ok1, st1)"
    and tail: "if ok1 then ok \<and> st' = st1 else crate_repair_loop env cargo t rest st1 = Inr (ok, st')"
    by (auto simp: bind_result_Inr_iff split: if_splits)
  note first = crate_repair_step_only [OF step]
  show ?case
  proof (cases ok1)
    case True
    with first tail show ?thesis by simp
  next
    case False
    with tail have "crate_repair_loop env cargo t rest st1 = Inr (ok, st')" by simp
    from Cons.IH [OF this] first show ?thesis using touches_only_trans by fastforce
  qed
qed simp

text \<open>
  C26: The repair of a module in its crate is local and honest. It changes no file of the crate but that of the
  module, makes at most four calls of the model per iteration, retries included, and when it reports success
  Cargo accepts the crate as it then stands.
\<close>

theorem crate_repair_sound:
  assumes "repair_module_in_crate env cargo nm c_src model max_iters temperature max_unsafe st = Inr (ok, st')"
  shows "(\<forall>p. p \<noteq> module_file (cr_builder st) nm \<longrightarrow> files (cr_disk st') p = files (cr_disk st) p)
    \<and> set (cb_modules (cr_builder st')) \<subseteq> insert (sanitize_module_name nm) (set (cb_modules (cr_builder st)))
    \<and> cr_calls st' \<le> cr_calls st + 4 * unat max_iters
    \<and> (ok \<longrightarrow> (\<exists>r. check_crate_compiles cargo (cb_dir (cr_builder st')) (cr_disk st') = Inr r \<and> success r))"
proof -
  from assms obtain t where "crate_repair_loop env cargo t (crate_iterations max_iters) st = Inr (ok, st')" "ct_name t = nm"
    by (auto simp: repair_module_in_crate_def bind_result_Inr_iff)
  from crate_repair_loop_only [OF this(1)] this(2) show ?thesis
    by (auto simp: crate_iterations_def touches_only_def crate_builds_def)
qed

definition content_crate :: crate_repair where
  "content_crate = \<lparr>cr_builder = fst demo_crate, cr_disk = snd demo_crate, cr_calls = 0\<rparr>"

definition accepting_cargo :: "string \<Rightarrow> disk \<Rightarrow> compile_result option" where
  "accepting_cargo dir d = Some \<lparr>success = True, cr_stdout = [], cr_stderr = []\<rparr>"

theorem crate_repair_sound_witness:
  "\<exists>st. repair_module_in_crate failing_environment accepting_cargo ''A'' ''int f;'' ''m'' 2 None None content_crate = Inr (True, st)
     \<and> (\<exists>r. check_crate_compiles accepting_cargo (cb_dir (cr_builder st)) (cr_disk st) = Inr r \<and> success r)"
proof -
  have read: "\<exists>src. read_module (fst demo_crate) ''A'' (snd demo_crate) = Inr src"
    and toml: "files (snd demo_crate) (path_join (cb_dir (fst demo_crate)) ''Cargo.toml'') \<noteq> None"
    by (simp_all add: demo_crate_def crate_modules_def write_module_def write_file_def crate_start_def start_crate_def
        new_builder_def write_types_def write_cargo_toml_def empty_disk_def read_module_def read_file_def ok_or_def
        cargo_toml_path_def)
  obtain src where src: "read_module (fst demo_crate) ''A'' (snd demo_crate) = Inr src" using read by blast
  have check: "check_module accepting_cargo nm content_crate = Inr \<lparr>success = True, cr_stdout = [], cr_stderr = []\<rparr>" for nm
    using toml by (simp add: check_module_def check_module_compiles_def check_crate_compiles_def content_crate_def
        accepting_cargo_def bind_result_def ok_or_def Let_def)
  have two: "crate_iterations 2 = [0, 1]" by (simp add: crate_iterations_def upt_rec)
  have "repair_module_in_crate failing_environment accepting_cargo ''A'' ''int f;'' ''m'' 2 None None content_crate
      = Inr (True, content_crate)"
    using src check unfolding repair_module_in_crate_def two
    by (simp add: content_crate_def lift_tool_error_def crate_repair_step_def bind_result_def)
  from crate_repair_sound [OF this] this show ?thesis by blast
qed

text \<open>
  A crate with a contract: reading a module and writing it back puts the prelude in front of it once more, and
  the second inner attribute is an error of its own, so no iteration that writes can end with a crate that
  compiles unless the model removes it.
\<close>

lemma rewriting_repeats_prelude:
  assumes "cb_has_types b" "write_module b nm src d = Inr (b1, d1)"
    and "read_module b1 nm d1 = Inr again" "write_module b1 nm again d1 = Inr (b2, d2)"
  shows "read_module b2 nm d2 = Inr (module_prelude @ module_prelude @ src)"
  using assms by (auto simp: write_module_Inr write_file_Inr read_module_def read_file_def module_content_def ok_or_def)

end
