(* ===== verification/Keyed_Store.thy ===== *)
theory Keyed_Store
  imports Pattern_Store
begin

text \<open>
  The contract that the two stores of experience share (\<open>translation_memory.rs\<close>,
  \<open>repair_pattern_store.rs\<close>): a list of entries with a key each, in which an entry whose key is there is
  merged into the old one and any other is appended; and the choice of the best entries of a list.
\<close>

section \<open>Merging by key\<close>

definition upsert :: "('a \<Rightarrow> 'k) \<Rightarrow> ('a \<Rightarrow> 'a \<Rightarrow> 'a) \<Rightarrow> 'a \<Rightarrow> 'a list \<Rightarrow> 'a list" where
  "upsert key merge x xs =
     (if list_ex (\<lambda>y. key y = key x) xs then update_first (\<lambda>y. key y = key x) (\<lambda>y. merge y x) xs else xs @ [x])"

lemma update_first_member: "y \<in> set xs \<Longrightarrow> \<not> p y \<Longrightarrow> y \<in> set (update_first p f xs)"
  by (induction xs) auto

lemma update_first_hit: "list_ex p xs \<Longrightarrow> \<exists>y \<in> set xs. p y \<and> f y \<in> set (update_first p f xs)"
  by (induction xs) auto

lemma update_first_source: "x \<in> set (update_first p f xs) \<Longrightarrow> \<exists>y \<in> set xs. x = y \<or> x = f y"
  by (induction xs) (auto split: if_splits)

locale keyed_store =
  fixes key :: "'a \<Rightarrow> 'k" and merge :: "'a \<Rightarrow> 'a \<Rightarrow> 'a"
  assumes merge_key: "key old = key new \<Longrightarrow> key (merge old new) = key new"
begin

lemma keys_update: "map key (update_first (\<lambda>y. key y = key x) (\<lambda>y. merge y x) xs) = map key xs"
  by (induction xs) (auto simp: merge_key)

lemma upsert_keys:
  "map key (upsert key merge x xs) = (if key x \<in> key ` set xs then map key xs else map key xs @ [key x])"
proof -
  have "list_ex (\<lambda>y. key y = key x) xs \<longleftrightarrow> key x \<in> key ` set xs" unfolding list_ex_iff image_iff by metis
  then show ?thesis by (simp add: upsert_def keys_update)
qed

lemma upsert_distinct: "distinct (map key xs) \<Longrightarrow> distinct (map key (upsert key merge x xs))"
  by (auto simp: upsert_keys)

lemma upsert_key_set: "key ` set (upsert key merge x xs) = insert (key x) (key ` set xs)"
proof -
  have "key ` set (upsert key merge x xs) = set (map key (upsert key merge x xs))" by simp
  also have "\<dots> = insert (key x) (key ` set xs)" by (auto simp: upsert_keys)
  finally show ?thesis .
qed

lemma upsert_other: "y \<in> set xs \<Longrightarrow> key y \<noteq> key x \<Longrightarrow> y \<in> set (upsert key merge x xs)"
  by (auto simp: upsert_def intro: update_first_member)

lemma upsert_members: "set (upsert key merge x xs) \<subseteq> set xs \<union> {x} \<union> (\<lambda>y. merge y x) ` {y \<in> set xs. key y = key x}"
  using set_update_first [of "\<lambda>y. key y = key x" "\<lambda>y. merge y x" xs] by (auto simp: upsert_def)

lemma upsert_own: "key x \<notin> key ` set xs \<and> x \<in> set (upsert key merge x xs)
   \<or> (\<exists>y \<in> set xs. key y = key x \<and> merge y x \<in> set (upsert key merge x xs))"
proof (cases "list_ex (\<lambda>y. key y = key x) xs")
  case True
  from update_first_hit [OF True, of "\<lambda>y. merge y x"] True show ?thesis by (auto simp: upsert_def)
qed (auto simp: upsert_def list_ex_iff)

text \<open>The entry of a key after an update, in a list with distinct keys.\<close>

lemma upsert_merged:
  assumes "distinct (map key xs)" "y \<in> set xs" "key y = key x"
  shows "merge y x \<in> set (upsert key merge x xs)"
  using upsert_own [of x xs] assms by (metis image_eqI inj_on_def distinct_map)

lemma length_upsert: "length (upsert key merge x xs) \<le> Suc (length xs)"
  by (simp add: upsert_def)

end

section \<open>The best entries\<close>

definition best_first :: "('a \<Rightarrow> nat) \<Rightarrow> 'a list \<Rightarrow> 'a list" where
  "best_first f xs = sort_key (\<lambda>x. - int (f x)) xs"

lemma set_best_first [simp]: "set (best_first f xs) = set xs"
  and length_best_first [simp]: "length (best_first f xs) = length xs"
  and mset_best_first [simp]: "mset (best_first f xs) = mset xs"
  by (simp_all add: best_first_def)

lemma distinct_best_first [simp]: "distinct (map k (best_first f xs)) = distinct (map k xs)"
proof -
  have "mset (map k (best_first f xs)) = mset (map k xs)" by simp
  then show ?thesis by (rule mset_eq_imp_distinct_iff)
qed

lemma best_first_splits:
  "x \<in> set (take n (best_first f xs)) \<Longrightarrow> y \<in> set (drop n (best_first f xs)) \<Longrightarrow> f y \<le> f x"
  using sorted_take_best [of x n "\<lambda>x. - int (f x)" xs y] by (simp add: best_first_def)

text \<open>What is cut off is no better than anything that stays.\<close>

lemma best_first_dropped:
  assumes "y \<in> set xs" "y \<notin> set (take n (best_first f xs))"
  shows "n < length xs \<and> (\<forall>x \<in> set (take n (best_first f xs)). f y \<le> f x)"
proof -
  have "set xs = set (take n (best_first f xs)) \<union> set (drop n (best_first f xs))"
    by (metis append_take_drop_id set_append set_best_first)
  with assms have "y \<in> set (drop n (best_first f xs))" by blast
  then show ?thesis using best_first_splits [of _ n f xs y] by (metis drop_eq_Nil empty_iff length_best_first linorder_not_le list.set(1))
qed

end
