(* ===== verification/Translation_Memory.thy ===== *)
theory Translation_Memory
  imports Keyed_Store Artifacts Regex_Engine
begin

text \<open>
  The translation memory (\<open>crates/noricum-tools/src/translation_memory.rs\<close>): at most a thousand validated
  translations, one per normalised signature, from which the most similar ones are chosen as examples. JSON
  text, the hash and the regular expression package are parameters; files are those of a disk.
\<close>

section \<open>Entries\<close>

record translation_entry =
  te_signature :: string
  te_c_source :: string
  te_rust :: string
  te_hash :: string
  te_score :: u32
  te_project :: string
  te_created :: string

record translation_memory =
  tm_entries :: "translation_entry list"

definition max_entries :: nat where "max_entries = 1000"

definition new_memory :: translation_memory where
  "new_memory = \<lparr>tm_entries = []\<rparr>"

definition add_entry :: "translation_entry \<Rightarrow> translation_memory \<Rightarrow> translation_memory" where
  "add_entry e m =
     (let es = tm_entries m
      in if list_ex (\<lambda>old. te_hash old = te_hash e) es
         then m\<lparr>tm_entries := update_first (\<lambda>old. te_hash old = te_hash e)
                                (\<lambda>old. if te_score old < te_score e then e else old) es\<rparr>
         else
           (let es' = es @ [e]
            in m\<lparr>tm_entries := (if max_entries < length es'
                                then take max_entries (best_first (\<lambda>x. unat (te_score x)) es') else es')\<rparr>))"

section \<open>Signatures\<close>

definition blanks_pattern :: string where "blanks_pattern = raw ''%s+''"
definition punctuation_pattern :: string where "punctuation_pattern = raw ''%s*([(),])%s*''"
definition parameter_pattern :: string where "parameter_pattern = raw ''(%w+)%s+%w+([,)])''"

definition normalize_signature :: "regex_engine \<Rightarrow> string \<Rightarrow> string" where
  "normalize_signature re sig =
     (let collapsed = re_replace_all re blanks_pattern sig (\<lambda>_. '' '');
          normalized = re_replace_all re punctuation_pattern collapsed (\<lambda>c. cap_index c 1);
          normalized = replace_all normalized '','' '', '';
          no_names = re_replace_all re parameter_pattern normalized (\<lambda>c. cap_index c 1 @ cap_index c 2)
      in trim no_names)"

text \<open>The hash of the normalised signature: eight bytes in hexadecimal.\<close>

definition signature_hash :: "regex_engine \<Rightarrow> (string \<Rightarrow> u8 list) \<Rightarrow> string \<Rightarrow> string" where
  "signature_hash re sha sig =
     (let digits = hex_digits (foldl (\<lambda>v b. v * 256 + unat b) 0 (take 8 (sha (normalize_signature re sig))))
      in replicate (16 - length digits) (CHR ''0'') @ digits)"

record parsed_signature =
  ps_return :: string
  ps_params :: "string list"

text \<open>\<open>rsplitn(2, ' ')\<close>: the part before the last space, or the whole text.\<close>

definition before_last_space :: "string \<Rightarrow> string" where
  "before_last_space s =
     (case find_char (rev s) (CHR '' '') of None \<Rightarrow> s | Some k \<Rightarrow> take (length s - Suc k) s)"

definition return_type_of :: "string \<Rightarrow> string" where
  "return_type_of normalized =
     (case find_char normalized (CHR ''('') of
        None \<Rightarrow> ''void''
      | Some p \<Rightarrow> before_last_space (trim (take p normalized)))"

definition param_type :: "string \<Rightarrow> string" where
  "param_type p =
     (let t = trim p; ws = split_whitespace t
      in if 2 \<le> length ws then join '' '' (butlast ws) else t)"

text \<open>\<open>None\<close> is the panic of the slice when the only closing parenthesis stands before the opening one.\<close>

definition param_text :: "string \<Rightarrow> string option" where
  "param_text normalized =
     (case (find_char normalized (CHR ''(''), find_char (rev normalized) (CHR '')'')) of
        (Some start, Some k) \<Rightarrow>
          (let end = length normalized - Suc k
           in if start + 1 \<le> end then Some (take (end - (start + 1)) (drop (start + 1) normalized)) else None)
      | _ \<Rightarrow> Some [])"

definition parse_signature :: "regex_engine \<Rightarrow> string \<Rightarrow> parsed_signature option" where
  "parse_signature re sig =
     (let normalized = normalize_signature re sig
      in map_option (\<lambda>ps. \<lparr>ps_return = return_type_of normalized,
                          ps_params = (if trim ps = [] \<or> trim ps = ''void'' then []
                                       else map param_type (split_char (CHR '','') ps))\<rparr>)
           (param_text normalized))"

section \<open>Similar translations\<close>

text \<open>Scores stay far below the range of \<open>u32\<close> and are naturals here.\<close>

definition similarity :: "parsed_signature \<Rightarrow> parsed_signature \<Rightarrow> u32 \<Rightarrow> nat" where
  "similarity query stored idiomatic =
     (if ps_return query = ps_return stored then 10 else 0)
     + (if length (ps_params query) = length (ps_params stored) then 5 else 0)
     + 3 * length (filter (\<lambda>qt. qt \<in> set (ps_params stored)) (ps_params query))
     + unat (idiomatic div 10)"

fun score_entries ::
  "regex_engine \<Rightarrow> parsed_signature \<Rightarrow> translation_entry list \<Rightarrow> (nat \<times> translation_entry) list option" where
  "score_entries re query [] = Some []"
| "score_entries re query (e # es) =
     (case parse_signature re (te_signature e) of
        None \<Rightarrow> None
      | Some stored \<Rightarrow>
          map_option (\<lambda>rest. (similarity query stored (te_score e), e) # rest) (score_entries re query es))"

definition find_similar :: "regex_engine \<Rightarrow> translation_memory \<Rightarrow> string \<Rightarrow> nat \<Rightarrow> translation_entry list option" where
  "find_similar re m sig max_results =
     (case parse_signature re sig of
        None \<Rightarrow> None
      | Some query \<Rightarrow>
          map_option (\<lambda>scored. map snd (take max_results (best_first fst scored)))
            (score_entries re query (tm_entries m)))"

definition truncate_to_lines :: "string \<Rightarrow> nat \<Rightarrow> string" where
  "truncate_to_lines src max_lines =
     (let ls = lines src
      in if length ls \<le> max_lines then src
         else unlines (take max_lines ls) @ [newline] @ ''// ... ('' @ show_nat (length ls - max_lines) @ '' more lines)'')"

section \<open>Files\<close>

text \<open>\<open>create_dir_all\<close> on the parent, then \<open>write\<close>; used by both stores.\<close>

definition save_text :: "string \<Rightarrow> (string, string) result \<Rightarrow> disk \<Rightarrow> (string, disk) result" where
  "save_text path json d =
     (case (case parent_dir path of Some (c # dir) \<Rightarrow> write_fault d (c # dir) | _ \<Rightarrow> None) of
        Some e \<Rightarrow> Inl e
      | None \<Rightarrow>
          bind_result json (\<lambda>text.
            case write_fault d path of Some e \<Rightarrow> Inl e | None \<Rightarrow> Inr (d\<lparr>files := (files d)(path \<mapsto> text)\<rparr>)))"

definition load_text :: "'a \<Rightarrow> (string \<Rightarrow> (string, 'a) result) \<Rightarrow> string \<Rightarrow> disk \<Rightarrow> (string, 'a) result" where
  "load_text fresh of_json path d = (case files d path of None \<Rightarrow> Inr fresh | Some text \<Rightarrow> of_json text)"

definition load_memory :: "(string \<Rightarrow> (string, translation_memory) result) \<Rightarrow> string \<Rightarrow> disk \<Rightarrow> (string, translation_memory) result" where
  "load_memory of_json path d = load_text new_memory of_json path d"

definition save_memory :: "(translation_memory \<Rightarrow> (string, string) result) \<Rightarrow> translation_memory \<Rightarrow> string \<Rightarrow> disk \<Rightarrow> (string, disk) result" where
  "save_memory to_json m path d = save_text path (to_json m) d"

definition memory_path :: string where "memory_path = ''.noricum-cache/translation-memory.json''"

definition load_default_memory :: "(string \<Rightarrow> (string, translation_memory) result) \<Rightarrow> disk \<Rightarrow> translation_memory" where
  "load_default_memory of_json d = (case load_memory of_json memory_path d of Inr m \<Rightarrow> m | Inl _ \<Rightarrow> new_memory)"

definition save_default_memory :: "(translation_memory \<Rightarrow> (string, string) result) \<Rightarrow> translation_memory \<Rightarrow> disk \<Rightarrow> disk" where
  "save_default_memory to_json m d = (case save_memory to_json m memory_path d of Inr d' \<Rightarrow> d' | Inl _ \<Rightarrow> d)"

section \<open>What the memory keeps\<close>

definition keep_better :: "translation_entry \<Rightarrow> translation_entry \<Rightarrow> translation_entry" where
  "keep_better old new = (if te_score old < te_score new then new else old)"

interpretation memory: keyed_store te_hash keep_better
  by unfold_locales (simp add: keep_better_def)

lemma add_entry_upsert:
  "tm_entries (add_entry e m) =
     (let es = upsert te_hash keep_better e (tm_entries m)
      in if max_entries < length es then take max_entries (best_first (\<lambda>x. unat (te_score x)) es) else es)"
  if "length (tm_entries m) \<le> max_entries"
  using that by (simp add: add_entry_def upsert_def keep_better_def Let_def)

text \<open>The invariant of a memory that was given the entries \<open>es\<close>.\<close>

definition remembers :: "translation_entry \<Rightarrow> translation_memory \<Rightarrow> bool" where
  "remembers e m \<longleftrightarrow>
     (\<exists>x \<in> set (tm_entries m). te_hash x = te_hash e \<and> te_score e \<le> te_score x)
     \<or> length (tm_entries m) = max_entries \<and> (\<forall>x \<in> set (tm_entries m). te_score e \<le> te_score x)"

definition well_formed :: "translation_memory \<Rightarrow> bool" where
  "well_formed m \<longleftrightarrow> length (tm_entries m) \<le> max_entries \<and> distinct (map te_hash (tm_entries m))"

lemma add_entry_well_formed:
  assumes "well_formed m"
  shows "well_formed (add_entry e m) \<and> set (tm_entries (add_entry e m)) \<subseteq> insert e (set (tm_entries m))"
proof -
  define es where "es = upsert te_hash keep_better e (tm_entries m)"
  have len: "length (tm_entries m) \<le> max_entries" and dist: "distinct (map te_hash (tm_entries m))"
    using assms by (simp_all add: well_formed_def)
  have d: "distinct (map te_hash es)" unfolding es_def by (rule memory.upsert_distinct [OF dist])
  have s: "set es \<subseteq> insert e (set (tm_entries m))"
    using memory.upsert_members [of e "tm_entries m"] by (auto simp: es_def keep_better_def)
  show ?thesis
  proof (cases "max_entries < length es")
    case True
    then have eq: "tm_entries (add_entry e m) = take max_entries (best_first (\<lambda>x. unat (te_score x)) es)"
      by (simp add: add_entry_upsert [OF len] es_def Let_def)
    have "distinct (map te_hash (take max_entries (best_first (\<lambda>x. unat (te_score x)) es)))"
      using d by (metis distinct_best_first distinct_take take_map)
    moreover have "set (take max_entries (best_first (\<lambda>x. unat (te_score x)) es)) \<subseteq> set es"
      by (metis set_best_first set_take_subset)
    ultimately show ?thesis using s by (auto simp: well_formed_def eq)
  next
    case False
    then have "tm_entries (add_entry e m) = es" by (simp add: add_entry_upsert [OF len] es_def Let_def)
    with d s False show ?thesis by (simp add: well_formed_def)
  qed
qed

text \<open>Replacing and evicting entries only lets worse ones go.\<close>

lemma remembers_upsert:
  assumes "distinct (map te_hash (tm_entries m))" "x \<in> set (tm_entries m)"
  shows "\<exists>y \<in> set (upsert te_hash keep_better e (tm_entries m)). te_hash y = te_hash x \<and> te_score x \<le> te_score y"
proof (cases "te_hash x = te_hash e")
  case True
  from memory.upsert_merged [OF assms True] True show ?thesis
    by (intro bexI [of _ "keep_better x e"]) (auto simp: keep_better_def)
next
  case False
  from memory.upsert_other [OF assms(2) False] show ?thesis by blast
qed

lemma remembers_kept:
  assumes "well_formed m" and "y \<in> set (upsert te_hash keep_better e (tm_entries m))"
    and "te_hash y = te_hash x" "te_score x \<le> te_score y"
  shows "remembers x (add_entry e m)"
proof -
  define es where "es = upsert te_hash keep_better e (tm_entries m)"
  define kept where "kept = take max_entries (best_first (\<lambda>x. unat (te_score x)) es)"
  have entries: "tm_entries (add_entry e m) = (if max_entries < length es then kept else es)"
    using assms(1) by (simp add: well_formed_def add_entry_upsert es_def kept_def Let_def)
  consider "y \<in> set (tm_entries (add_entry e m))" | "max_entries < length es" "y \<notin> set kept"
    using assms(2) entries by (auto simp: es_def split: if_splits)
  then show ?thesis
  proof cases
    case 1
    with assms(3,4) show ?thesis by (auto simp: remembers_def)
  next
    case 2
    have "length kept = max_entries" using 2(1) by (simp add: kept_def)
    moreover have "te_score x \<le> te_score z" if "z \<in> set kept" for z
    proof -
      from best_first_dropped [of y es max_entries "\<lambda>x. unat (te_score x)"] assms(2) 2(2) that have "unat (te_score y) \<le> unat (te_score z)"
        by (simp add: es_def kept_def)
      with assms(4) show ?thesis by (simp add: word_le_nat_alt)
    qed
    ultimately show ?thesis using 2(1) entries by (simp add: remembers_def)
  qed
qed

lemma add_entry_remembers_new:
  assumes "well_formed m"
  shows "remembers e (add_entry e m)"
  using memory.upsert_own [of e "tm_entries m"]
proof (elim disjE conjE bexE)
  assume "e \<in> set (upsert te_hash keep_better e (tm_entries m))"
  then show ?thesis by (rule remembers_kept [OF assms]) simp_all
next
  fix y assume "te_hash y = te_hash e" "keep_better y e \<in> set (upsert te_hash keep_better e (tm_entries m))"
  from this(1) show ?thesis
    by (intro remembers_kept [OF assms \<open>keep_better y e \<in> _\<close>]) (auto simp: keep_better_def)
qed

text \<open>A full memory stays full, and its lowest score does not sink.\<close>

lemma full_memory_rises:
  assumes "well_formed m" "length (tm_entries m) = max_entries" "\<forall>x \<in> set (tm_entries m). s \<le> te_score x"
  shows "length (tm_entries (add_entry e m)) = max_entries \<and> (\<forall>x \<in> set (tm_entries (add_entry e m)). s \<le> te_score x)"
proof (cases "list_ex (\<lambda>old. te_hash old = te_hash e) (tm_entries m)")
  case True
  then have "tm_entries (add_entry e m) = update_first (\<lambda>old. te_hash old = te_hash e)
      (\<lambda>old. if te_score old < te_score e then e else old) (tm_entries m)"
    by (simp add: add_entry_def)
  moreover have "s \<le> te_score x" if "x \<in> set (tm_entries (add_entry e m))" for x
  proof -
    from that calculation have "x \<in> set (update_first (\<lambda>old. te_hash old = te_hash e)
        (\<lambda>old. if te_score old < te_score e then e else old) (tm_entries m))" by simp
    from update_first_source [OF this] obtain old where "old \<in> set (tm_entries m)" "te_score old \<le> te_score x"
      by (auto split: if_splits)
    with assms(3) show ?thesis by (meson order.trans)
  qed
  ultimately show ?thesis using assms(2) by simp
next
  case False
  define ranked where "ranked = best_first (\<lambda>x. unat (te_score x)) (tm_entries m @ [e])"
  have entries: "tm_entries (add_entry e m) = take max_entries ranked"
    using False assms(2) by (simp add: add_entry_def ranked_def Let_def)
  have "e \<notin> set (tm_entries m)" "distinct (tm_entries m)"
    using False assms(1) by (auto simp: list_ex_iff well_formed_def distinct_map)
  then have dist: "distinct ranked"
    using distinct_best_first [of id "\<lambda>x. unat (te_score x)" "tm_entries m @ [e]"] by (simp add: ranked_def)
  have members: "set ranked = insert e (set (tm_entries m))" by (simp add: ranked_def)
  have len: "length ranked = Suc max_entries" using assms(2) by (simp add: ranked_def)
  then have "drop max_entries ranked \<noteq> []" by simp
  then obtain y where y: "y \<in> set (drop max_entries ranked)" by (meson list.set_sel(1))
  have "s \<le> te_score x" if x: "x \<in> set (take max_entries ranked)" for x
  proof (cases "x \<in> set (tm_entries m)")
    case True
    with assms(3) show ?thesis by blast
  next
    case False
    with x members have "x = e" by (auto dest: in_set_takeD)
    have "set (take max_entries ranked) \<inter> set (drop max_entries ranked) = {}"
      using dist by (metis append_take_drop_id distinct_append)
    with x y \<open>x = e\<close> members have "y \<in> set (tm_entries m)" by (auto dest: in_set_dropD)
    moreover have "unat (te_score y) \<le> unat (te_score x)"
      using best_first_splits [of x max_entries "\<lambda>x. unat (te_score x)" "tm_entries m @ [e]" y] x y
      by (simp add: ranked_def)
    ultimately show ?thesis using assms(3) by (meson order.trans word_le_nat_alt)
  qed
  then show ?thesis using len by (simp add: entries)
qed

lemma add_entry_remembers_old:
  assumes "well_formed m" "remembers x m"
  shows "remembers x (add_entry e m)"
proof (cases "\<exists>y \<in> set (tm_entries m). te_hash y = te_hash x \<and> te_score x \<le> te_score y")
  case True
  then obtain y where y: "y \<in> set (tm_entries m)" "te_hash y = te_hash x" "te_score x \<le> te_score y" by blast
  have "distinct (map te_hash (tm_entries m))" using assms(1) by (simp add: well_formed_def)
  from remembers_upsert [OF this y(1), of e] y(2,3) obtain z where
    "z \<in> set (upsert te_hash keep_better e (tm_entries m))" "te_hash z = te_hash x" "te_score x \<le> te_score z"
    by (metis order.trans)
  then show ?thesis by (rule remembers_kept [OF assms(1)])
next
  case False
  with assms(2) have "length (tm_entries m) = max_entries" "\<forall>y \<in> set (tm_entries m). te_score x \<le> te_score y"
    by (auto simp: remembers_def)
  from full_memory_rises [OF assms(1) this] show ?thesis by (simp add: remembers_def)
qed

text \<open>
  C27: The translation memory keeps the best translations. Whatever entries it is given, it holds at most a thousand of
  them, one per hash; and every entry it was given is still there, or one of the same hash with at least its
  score is, or the memory is full of entries whose scores are at least as high.
\<close>

theorem memory_keeps_best:
  fixes es
  defines "m \<equiv> fold add_entry es new_memory"
  shows "length (tm_entries m) \<le> max_entries \<and> distinct (map te_hash (tm_entries m)) \<and> set (tm_entries m) \<subseteq> set es
    \<and> (\<forall>e. e \<in> set es \<longrightarrow> remembers e m)"
proof -
  have "well_formed (fold add_entry es m0) \<and> set (tm_entries (fold add_entry es m0)) \<subseteq> set es \<union> set (tm_entries m0)
      \<and> (\<forall>e. e \<in> set es \<or> remembers e m0 \<longrightarrow> remembers e (fold add_entry es m0))" if "well_formed m0" for m0
    using that
  proof (induction es arbitrary: m0)
    case (Cons e es)
    note first = add_entry_well_formed [OF Cons.prems, of e]
    then have "well_formed (add_entry e m0)" by blast
    from Cons.IH [OF this] first add_entry_remembers_new [OF Cons.prems] add_entry_remembers_old [OF Cons.prems]
    show ?case by auto
  qed simp
  from this [of new_memory] show ?thesis by (auto simp: m_def well_formed_def new_memory_def)
qed

definition demo_entry :: "string \<Rightarrow> u32 \<Rightarrow> translation_entry" where
  "demo_entry rust n = \<lparr>te_signature = ''int f(int a)'', te_c_source = ''int f;'', te_rust = rust, te_hash = ''00'',
     te_score = n, te_project = ''p'', te_created = ''d''\<rparr>"

theorem memory_keeps_best_witness:
  "tm_entries (fold add_entry [demo_entry ''a'' 90, demo_entry ''b'' 70] new_memory) = [demo_entry ''a'' 90]
   \<and> remembers (demo_entry ''b'' 70) (fold add_entry [demo_entry ''a'' 90, demo_entry ''b'' 70] new_memory)"
proof -
  have "tm_entries (fold add_entry [demo_entry ''a'' 90, demo_entry ''b'' 70] new_memory) = [demo_entry ''a'' 90]"
    by (simp add: add_entry_def new_memory_def demo_entry_def max_entries_def)
  with memory_keeps_best [of "[demo_entry ''a'' 90, demo_entry ''b'' 70]"] show ?thesis by simp
qed

section \<open>Facts about the search\<close>

lemma score_entries_snd: "score_entries re query es = Some scored \<Longrightarrow> map snd scored = es"
  by (induction es arbitrary: scored) (auto split: option.splits)

lemma score_entries_fst:
  "score_entries re query es = Some scored \<Longrightarrow> x \<in> set scored \<Longrightarrow>
   \<exists>stored. parse_signature re (te_signature (snd x)) = Some stored \<and> fst x = similarity query stored (te_score (snd x))"
  by (induction es arbitrary: scored) (auto split: option.splits)

text \<open>The examples found are entries of the memory, and none that is left out is more similar.\<close>

lemma find_similar_best:
  assumes "find_similar re m sig n = Some found" and "parse_signature re sig = Some query"
  shows "\<exists>rest. mset found + mset rest = mset (tm_entries m) \<and> length found = min n (length (tm_entries m))
    \<and> (\<forall>x \<in> set found. \<forall>y \<in> set rest. \<exists>p q. parse_signature re (te_signature x) = Some p
         \<and> parse_signature re (te_signature y) = Some q
         \<and> similarity query q (te_score y) \<le> similarity query p (te_score x))"
proof -
  from assms obtain scored where scored: "score_entries re query (tm_entries m) = Some scored"
    and found: "found = map snd (take n (best_first fst scored))"
    by (auto simp: find_similar_def)
  define rest where "rest = map snd (drop n (best_first fst scored))"
  have "mset found + mset rest = mset (map snd (best_first fst scored))"
    unfolding found rest_def by (metis append_take_drop_id map_append mset_append)
  also have "\<dots> = mset (tm_entries m)" using score_entries_snd [OF scored] by (metis mset_best_first mset_map)
  finally have parts: "mset found + mset rest = mset (tm_entries m)" .
  have "length scored = length (tm_entries m)" using score_entries_snd [OF scored] by (metis length_map)
  then have len: "length found = min n (length (tm_entries m))" by (simp add: found)
  have "\<exists>p q. parse_signature re (te_signature x) = Some p \<and> parse_signature re (te_signature y) = Some q
      \<and> similarity query q (te_score y) \<le> similarity query p (te_score x)"
    if x: "x \<in> set found" and y: "y \<in> set rest" for x y
  proof -
    from x y obtain a b where ab: "(a, x) \<in> set (take n (best_first fst scored))" "(b, y) \<in> set (drop n (best_first fst scored))"
      by (auto simp: found rest_def)
    then have "b \<le> a" using best_first_splits [of "(a, x)" n fst scored "(b, y)"] by simp
    moreover have "(a, x) \<in> set scored" "(b, y) \<in> set scored"
      using ab by (metis in_set_takeD set_best_first, metis in_set_dropD set_best_first)
    ultimately show ?thesis
      using score_entries_fst [OF scored, of "(a, x)"] score_entries_fst [OF scored, of "(b, y)"] by auto
  qed
  with parts len show ?thesis by blast
qed

lemma saved_memory_loads:
  assumes "save_memory to_json m path d = Inr d'" and "\<And>text. to_json m = Inr text \<Longrightarrow> of_json text = Inr m"
  shows "load_memory of_json path d' = Inr m"
  using assms by (auto simp: save_memory_def save_text_def load_memory_def load_text_def bind_result_Inr_iff
      split: option.splits list.splits)

text \<open>
  A text whose parentheses stand the wrong way round makes the parser panic; and since names of parameters are already
  removed, a type of two words loses its second word.
\<close>

lemma reversed_parentheses_panic: "param_text ''f) (int'' = None"
  by code_simp

lemma unnamed_type_loses_word: "param_type ''unsigned int'' = ''unsigned''" "param_type ''unsigned char'' = ''unsigned''"
  by code_simp+

end
