(* ===== verification/Repair_Store.thy ===== *)
theory Repair_Store
  imports Translation_Memory Repair_Rules
begin

text \<open>
  The store of repair patterns (\<open>crates/noricum-tools/src/repair_pattern_store.rs\<close>): fixes of earlier repairs, one
  per error code and message pattern, with counts of successes and failures; the reliable ones that match an
  error are offered to the repair agent. JSON text and the regular expression package are parameters.
\<close>

section \<open>Patterns\<close>

record repair_pattern =
  rp_error_code :: string
  rp_regex :: string
  rp_description :: string
  rp_diff :: string
  success_count :: u32
  failure_count :: u32
  rp_project :: string
  rp_created :: string

record repair_store =
  rs_patterns :: "repair_pattern list"

text \<open>
  Both counts are exact as \<open>f64\<close>, so the comparison with one half is that of the rationals; their sum is a
  \<open>u32\<close>, and a quotient with divisor zero is infinite.
\<close>

definition is_reliable :: "repair_pattern \<Rightarrow> bool" where
  "is_reliable p =
     (let s = success_count p; f = failure_count p; total_count = s + f
      in 0 < s \<and> (f = 0 \<or> total_count = 0 \<or> unat total_count \<le> 2 * unat s))"

text \<open>\<open>re_valid\<close> tells whether the package accepts a text as an expression.\<close>

definition pattern_matches :: "regex_engine \<Rightarrow> (string \<Rightarrow> bool) \<Rightarrow> repair_pattern \<Rightarrow> string \<Rightarrow> string \<Rightarrow> bool" where
  "pattern_matches re re_valid p ecode msg =
     (if rp_error_code p \<noteq> ecode then False
      else contains msg (rp_regex p) \<or> (re_valid (rp_regex p) \<and> re_is_match re (rp_regex p) msg))"

section \<open>The store\<close>

definition new_repair_store :: repair_store where
  "new_repair_store = \<lparr>rs_patterns = []\<rparr>"

definition same_key :: "string \<Rightarrow> string \<Rightarrow> repair_pattern \<Rightarrow> bool" where
  "same_key ecode regex p = (rp_error_code p = ecode \<and> rp_regex p = regex)"

definition add_counts :: "repair_pattern \<Rightarrow> repair_pattern \<Rightarrow> repair_pattern" where
  "add_counts old new =
     old\<lparr>success_count := success_count old + success_count new, failure_count := failure_count old + failure_count new\<rparr>"

definition add_repair_pattern :: "repair_pattern \<Rightarrow> repair_store \<Rightarrow> repair_store" where
  "add_repair_pattern p st =
     (let same = same_key (rp_error_code p) (rp_regex p)
      in if list_ex same (rs_patterns st)
         then st\<lparr>rs_patterns := update_first same (\<lambda>old. add_counts old p) (rs_patterns st)\<rparr>
         else st\<lparr>rs_patterns := rs_patterns st @ [p]\<rparr>)"

definition find_matching :: "regex_engine \<Rightarrow> (string \<Rightarrow> bool) \<Rightarrow> repair_store \<Rightarrow> string \<Rightarrow> string \<Rightarrow> repair_pattern list" where
  "find_matching re re_valid st ecode msg =
     best_first (\<lambda>p. unat (success_count p))
       (filter (\<lambda>p. is_reliable p \<and> pattern_matches re re_valid p ecode msg) (rs_patterns st))"

definition record_success :: "string \<Rightarrow> string \<Rightarrow> repair_store \<Rightarrow> repair_store" where
  "record_success ecode regex st =
     st\<lparr>rs_patterns := update_first (same_key ecode regex) (\<lambda>p. p\<lparr>success_count := success_count p + 1\<rparr>) (rs_patterns st)\<rparr>"

definition record_failure :: "string \<Rightarrow> string \<Rightarrow> repair_store \<Rightarrow> repair_store" where
  "record_failure ecode regex st =
     st\<lparr>rs_patterns := update_first (same_key ecode regex) (\<lambda>p. p\<lparr>failure_count := failure_count p + 1\<rparr>) (rs_patterns st)\<rparr>"

section \<open>Files and seeds\<close>

definition load_repair_store :: "(string \<Rightarrow> (string, repair_store) result) \<Rightarrow> string \<Rightarrow> disk \<Rightarrow> (string, repair_store) result" where
  "load_repair_store of_json path d = load_text new_repair_store of_json path d"

definition save_repair_store :: "(repair_store \<Rightarrow> (string, string) result) \<Rightarrow> repair_store \<Rightarrow> string \<Rightarrow> disk \<Rightarrow> (string, disk) result" where
  "save_repair_store to_json st path d = save_text path (to_json st) d"

definition repair_store_path :: string where "repair_store_path = ''.noricum-cache/repair-patterns.json''"

definition load_default_patterns :: "(string \<Rightarrow> (string, repair_store) result) \<Rightarrow> disk \<Rightarrow> repair_store" where
  "load_default_patterns of_json d =
     (case load_repair_store of_json repair_store_path d of Inr st \<Rightarrow> st | Inl _ \<Rightarrow> new_repair_store)"

definition save_default_patterns :: "(repair_store \<Rightarrow> (string, string) result) \<Rightarrow> repair_store \<Rightarrow> disk \<Rightarrow> disk" where
  "save_default_patterns to_json st d =
     (case save_repair_store to_json st repair_store_path d of Inr d' \<Rightarrow> d' | Inl _ \<Rightarrow> d)"

definition seed :: "string \<Rightarrow> string \<Rightarrow> string \<Rightarrow> string \<Rightarrow> u32 \<Rightarrow> u32 \<Rightarrow> string \<Rightarrow> repair_pattern" where
  "seed ecode regex description diff s f created =
     \<lparr>rp_error_code = ecode, rp_regex = regex, rp_description = description, rp_diff = diff, success_count = s,
      failure_count = f, rp_project = ''miniz_zip'', rp_created = created\<rparr>"

definition seeds :: "repair_pattern list" where
  "seeds =
     [seed ''E0599'' ''trait bounds were not satisfied'' ''R1: Add Clone bound to generic type parameter''
        ''fn foo<T: Trait>(x: T) -> fn foo<T: Trait + Clone>(x: T)'' 50 0 ''2026-03-10'',
      seed ''E0428'' ''the name .+ is defined multiple times''
        ''R2: Remove duplicate function/struct definition (keep first)''
        ''Remove second definition of the duplicated item'' 30 0 ''2026-03-10'',
      seed ''E0382'' ''use of moved value.*Option<&mut''
        ''R3: Change Option<&mut T> parameter to use ref mut in match''
        ''p: Option<&mut T> -> mut p: Option<&mut T>, match uses ref mut'' 15 0 ''2026-03-10'',
      seed ''E0753'' ''inner attributes.*not permitted in this context''
        ''R5: Convert inner attribute #![...] to outer attribute #[...]''
        ''#![allow(...)] -> #[allow(...)]'' 20 0 ''2026-03-10'',
      seed ''E0252'' ''the name .+ is defined multiple times'' ''R7: Remove duplicate use/import statement''
        ''Remove second `use` statement importing the same item'' 40 0 ''2026-03-10'',
      seed ''E0119'' ''conflicting implementations of trait'' ''R9: Remove duplicate trait impl (keep first)''
        ''Remove second `impl Trait for Type` block'' 10 0 ''2026-03-10'',
      seed ''E0463'' ''can't find crate for''
        ''R10: Strip external crate imports not available in standalone compilation''
        ''Remove `use external_crate::...;` or `extern crate ...;`'' 25 0 ''2026-03-10'',
      seed ''E0425'' ''cannot find value .+ in this scope''
        (''R13: Field name prefix normalization '' @ em_dash @ '' m_xyz vs xyz mismatch'')
        ''self.m_field -> self.field (or vice versa, matching struct definition)'' 20 2 ''2026-03-17'',
      seed ''E0599'' ''no method named .+ found for .+ in the current scope''
        (''R14: Method-to-free-function '' @ em_dash @ '' self.fn() -> fn(self)'')
        ''self.some_fn(args) -> some_fn(&mut self, args)'' 17 3 ''2026-03-17'']"

definition add_seed :: "repair_pattern \<Rightarrow> repair_store \<Rightarrow> repair_store" where
  "add_seed s st =
     (if list_ex (same_key (rp_error_code s) (rp_regex s)) (rs_patterns st) then st
      else st\<lparr>rs_patterns := rs_patterns st @ [s]\<rparr>)"

definition load_with_seeds :: "(string \<Rightarrow> (string, repair_store) result) \<Rightarrow> string \<Rightarrow> disk \<Rightarrow> repair_store" where
  "load_with_seeds of_json path d =
     fold add_seed seeds (case load_repair_store of_json path d of Inr st \<Rightarrow> st | Inl _ \<Rightarrow> new_repair_store)"

definition load_default_with_seeds :: "(string \<Rightarrow> (string, repair_store) result) \<Rightarrow> disk \<Rightarrow> repair_store" where
  "load_default_with_seeds of_json d = load_with_seeds of_json repair_store_path d"

section \<open>Learning from a repair\<close>

definition is_fixed :: "compiler_error list \<Rightarrow> compiler_error \<Rightarrow> bool" where
  "is_fixed errors_after eb =
     (\<not> list_ex (\<lambda>ea. code ea = code eb \<and> \<bar>int (err_line ea) - int (err_line eb)\<bar> \<le> 5) errors_after)"

text \<open>\<open>lines.get(start..end)\<close> with its default, around a line with three lines of context.\<close>

definition region :: "nat \<Rightarrow> string list \<Rightarrow> string" where
  "region l ls =
     (let start = l - 4; end = min (l + 3) (length ls)
      in if start \<le> end then unlines (take (end - start) (drop start ls)) else [])"

definition backtick_pattern :: string where
  "backtick_pattern = ''`[^`]+`''"

definition simplify_error_message :: "regex_engine \<Rightarrow> string \<Rightarrow> string" where
  "simplify_error_message re msg = re_replace_all re backtick_pattern (re_escape re msg) (\<lambda>_. ''`.+`'')"

definition pad_zeros :: "nat \<Rightarrow> nat \<Rightarrow> string" where
  "pad_zeros width n = replicate (width - length (show_nat n)) (CHR ''0'') @ show_nat n"

text \<open>The date of a time in seconds since 1970, with years of 365 and months of 30 days.\<close>

definition iso_month :: "nat \<Rightarrow> nat" where
  "iso_month secs = (secs div 86400) mod 365 div 30 + 1"

definition today_iso :: "nat \<Rightarrow> string" where
  "today_iso secs =
     (let days = secs div 86400; year = 1970 + days div 365; remaining = days mod 365
      in pad_zeros 4 year @ ''-'' @ pad_zeros 2 (iso_month secs) @ ''-'' @ pad_zeros 2 (remaining mod 30 + 1))"

definition pattern_of_fix :: "regex_engine \<Rightarrow> nat \<Rightarrow> string \<Rightarrow> string list \<Rightarrow> string list \<Rightarrow> compiler_error \<Rightarrow> repair_pattern option" where
  "pattern_of_fix re now project before_lines after_lines e =
     (let l = err_line e; before_region = region l before_lines; after_region = region l after_lines
      in if before_region \<noteq> after_region then
           Some \<lparr>rp_error_code = code e, rp_regex = simplify_error_message re (message e),
                 rp_description = ''Fix '' @ code e @ '' at line '' @ show_nat l @ '': '' @ message e,
                 rp_diff = ''--- before (line '' @ show_nat l @ '')'' @ [newline] @ before_region @ [newline]
                           @ ''+++ after'' @ [newline] @ after_region,
                 success_count = 1, failure_count = 0, rp_project = project, rp_created = today_iso now\<rparr>
         else None)"

definition extract_patterns_from_diff ::
  "regex_engine \<Rightarrow> nat \<Rightarrow> string \<Rightarrow> string \<Rightarrow> compiler_error list \<Rightarrow> compiler_error list \<Rightarrow> string \<Rightarrow> repair_pattern list" where
  "extract_patterns_from_diff re now before_text after_text errors_before errors_after project =
     List.map_filter (pattern_of_fix re now project (lines before_text) (lines after_text))
       (filter (is_fixed errors_after) errors_before)"

definition known_fix :: "string \<Rightarrow> repair_pattern \<Rightarrow> string" where
  "known_fix ecode p =
     [newline] @ ''## Known fix for '' @ ecode @ '' (from previous project: '' @ rp_project p @ '')'' @ [newline]
     @ rp_description p @ [newline] @ fence_mark @ [newline] @ rp_diff p @ [newline] @ fence_mark @ [newline]"

definition build_repair_pattern_context :: "regex_engine \<Rightarrow> (string \<Rightarrow> bool) \<Rightarrow> compiler_error list \<Rightarrow> repair_store \<Rightarrow> string" where
  "build_repair_pattern_context re re_valid errors st =
     concat (map (\<lambda>e. case find_matching re re_valid st (code e) (message e) of
                        [] \<Rightarrow> [] | p # _ \<Rightarrow> known_fix (code e) p) (take 5 errors))"

section \<open>What the store learns\<close>

definition pattern_key :: "repair_pattern \<Rightarrow> string \<times> string" where
  "pattern_key p = (rp_error_code p, rp_regex p)"

lemma same_key_iff: "same_key ecode regex p \<longleftrightarrow> pattern_key p = (ecode, regex)"
  by (auto simp: same_key_def pattern_key_def)

lemma pattern_key_counts [simp]:
  "pattern_key (p\<lparr>success_count := s\<rparr>) = pattern_key p" "pattern_key (p\<lparr>failure_count := f\<rparr>) = pattern_key p"
  by (simp_all add: pattern_key_def)

lemma add_counts_key [simp]: "pattern_key (add_counts old new) = pattern_key old"
  by (simp add: add_counts_def)

interpretation repairs: keyed_store pattern_key add_counts
  by unfold_locales simp

lemma same_key_fun: "same_key ecode regex = (\<lambda>p. pattern_key p = (ecode, regex))"
  by (auto simp: same_key_iff)

lemma add_repair_pattern_upsert:
  "rs_patterns (add_repair_pattern p st) = upsert pattern_key add_counts p (rs_patterns st)"
proof -
  have "same_key (rp_error_code p) (rp_regex p) = (\<lambda>q. pattern_key q = pattern_key p)"
    by (auto simp: same_key_iff pattern_key_def)
  then show ?thesis by (simp add: add_repair_pattern_def upsert_def Let_def)
qed

text \<open>The operations of a run on the store.\<close>

datatype store_op = AddPattern repair_pattern | Success string string | Failure string string

fun store_step :: "store_op \<Rightarrow> repair_store \<Rightarrow> repair_store" where
  "store_step (AddPattern p) st = add_repair_pattern p st"
| "store_step (Success ecode regex) st = record_success ecode regex st"
| "store_step (Failure ecode regex) st = record_failure ecode regex st"

text \<open>What an operation adds to the counts of a key.\<close>

fun gained :: "string \<times> string \<Rightarrow> store_op \<Rightarrow> u32 \<times> u32" where
  "gained k (AddPattern p) = (if pattern_key p = k then (success_count p, failure_count p) else (0, 0))"
| "gained k (Success ecode regex) = (if (ecode, regex) = k then (1, 0) else (0, 0))"
| "gained k (Failure ecode regex) = (if (ecode, regex) = k then (0, 1) else (0, 0))"

definition gain :: "u32 \<times> u32 \<Rightarrow> repair_pattern \<Rightarrow> repair_pattern" where
  "gain g p = p\<lparr>success_count := success_count p + fst g, failure_count := failure_count p + snd g\<rparr>"

lemma gain_simps [simp]:
  "gain (0, 0) p = p" "gain g (gain h p) = gain (fst h + fst g, snd h + snd g) p" "pattern_key (gain g p) = pattern_key p"
  by (simp_all add: gain_def pattern_key_def ac_simps)

lemma update_keys:
  "(\<And>p. pattern_key (f p) = pattern_key p) \<Longrightarrow> map pattern_key (update_first q f ps) = map pattern_key ps"
  by (rule map_update_first)

lemma update_first_same:
  assumes "distinct (map pattern_key ps)" "p \<in> set ps" "pattern_key p = k"
  shows "f p \<in> set (update_first (\<lambda>q. pattern_key q = k) f ps)"
  using assms by (induction ps) (auto simp: image_iff)

lemma store_step_keys: "distinct (map pattern_key (rs_patterns st)) \<Longrightarrow> distinct (map pattern_key (rs_patterns (store_step op st)))"
  by (cases op) (simp_all add: add_repair_pattern_upsert repairs.upsert_distinct record_success_def record_failure_def update_keys)

lemma store_step_gains:
  assumes "distinct (map pattern_key (rs_patterns st))" "p \<in> set (rs_patterns st)"
  shows "gain (gained (pattern_key p) op) p \<in> set (rs_patterns (store_step op st))"
proof (cases op)
  case (AddPattern new)
  show ?thesis
  proof (cases "pattern_key new = pattern_key p")
    case True
    from repairs.upsert_merged [OF assms, of new] True AddPattern show ?thesis
      by (simp add: add_repair_pattern_upsert add_counts_def gain_def)
  next
    case False
    with repairs.upsert_other [OF assms(2), of new] AddPattern show ?thesis by (simp add: add_repair_pattern_upsert)
  qed
next
  case (Success ecode regex)
  then show ?thesis
    using update_first_same [OF assms refl, of "\<lambda>p. p\<lparr>success_count := success_count p + 1\<rparr>"]
      update_first_member [OF assms(2), of "\<lambda>q. pattern_key q = (ecode, regex)"]
    by (cases "pattern_key p = (ecode, regex)") (auto simp: record_success_def same_key_fun gain_def)
next
  case (Failure ecode regex)
  then show ?thesis
    using update_first_same [OF assms refl, of "\<lambda>p. p\<lparr>failure_count := failure_count p + 1\<rparr>"]
      update_first_member [OF assms(2), of "\<lambda>q. pattern_key q = (ecode, regex)"]
    by (cases "pattern_key p = (ecode, regex)") (auto simp: record_failure_def same_key_fun gain_def)
qed

text \<open>
  The repair patterns add up what is recorded. Through any sequence of additions, successes and failures a store
  keeps one pattern per error code and message pattern; a pattern it held at the start is still there with its
  description, and its counts have grown by exactly what the operations on its key recorded.
\<close>

theorem recorded_counts_add_up:
  assumes "distinct (map pattern_key (rs_patterns st))"
  shows "distinct (map pattern_key (rs_patterns (fold store_step ops st)))
    \<and> (\<forall>p \<in> set (rs_patterns st).
         p\<lparr>success_count := success_count p + sum_list (map (\<lambda>op. fst (gained (pattern_key p) op)) ops),
           failure_count := failure_count p + sum_list (map (\<lambda>op. snd (gained (pattern_key p) op)) ops)\<rparr>
         \<in> set (rs_patterns (fold store_step ops st)))"
  using assms
proof (induction ops arbitrary: st)
  case (Cons op ops)
  have keys: "distinct (map pattern_key (rs_patterns (store_step op st)))" by (rule store_step_keys [OF Cons.prems])
  show ?case
  proof (intro conjI ballI)
    fix p assume p: "p \<in> set (rs_patterns st)"
    from Cons.IH [OF keys] store_step_gains [OF Cons.prems p, of op]
    show "p\<lparr>success_count := success_count p + sum_list (map (\<lambda>op. fst (gained (pattern_key p) op)) (op # ops)),
           failure_count := failure_count p + sum_list (map (\<lambda>op. snd (gained (pattern_key p) op)) (op # ops))\<rparr>
         \<in> set (rs_patterns (fold store_step (op # ops) st))"
      by (auto simp: gain_def add.assoc dest!: bspec)
  qed (use Cons.IH [OF keys] in simp)
qed simp

section \<open>Seeds\<close>

lemma add_seed_keys:
  "distinct (map pattern_key (rs_patterns st)) \<Longrightarrow> distinct (map pattern_key (rs_patterns (add_seed s st)))
   \<and> pattern_key s \<in> pattern_key ` set (rs_patterns (add_seed s st))
   \<and> (\<exists>more. rs_patterns (add_seed s st) = rs_patterns st @ more)"
proof -
  have "list_ex (same_key (rp_error_code s) (rp_regex s)) (rs_patterns st)
      \<longleftrightarrow> pattern_key s \<in> pattern_key ` set (rs_patterns st)"
    unfolding list_ex_iff image_iff same_key_iff pattern_key_def by metis
  then show "distinct (map pattern_key (rs_patterns st)) \<Longrightarrow> ?thesis" by (simp add: add_seed_def)
qed

text \<open>Loading with seeds keeps what was learned, in front, and covers every seed, once each.\<close>

lemma add_seeds_keys:
  "distinct (map pattern_key (rs_patterns st)) \<Longrightarrow> distinct (map pattern_key (rs_patterns (fold add_seed ss st)))
   \<and> pattern_key ` set ss \<subseteq> pattern_key ` set (rs_patterns (fold add_seed ss st))
   \<and> (\<exists>more. rs_patterns (fold add_seed ss st) = rs_patterns st @ more)"
proof (induction ss arbitrary: st)
  case (Cons s ss)
  note first = add_seed_keys [OF Cons.prems, of s]
  with Cons.IH [of "add_seed s st"] show ?case by fastforce
qed simp

lemma load_with_seeds_learned:
  assumes "load_repair_store of_json path d = Inr st" "distinct (map pattern_key (rs_patterns st))"
  shows "distinct (map pattern_key (rs_patterns (load_with_seeds of_json path d)))
   \<and> pattern_key ` set seeds \<subseteq> pattern_key ` set (rs_patterns (load_with_seeds of_json path d))
   \<and> (\<exists>more. rs_patterns (load_with_seeds of_json path d) = rs_patterns st @ more)"
  using add_seeds_keys [OF assms(2), of seeds] assms(1) by (simp add: load_with_seeds_def)

theorem recorded_counts_add_up_witness:
  "\<exists>p \<in> set (rs_patterns (fold store_step [Success ''E1'' ''x'', Failure ''E1'' ''x'', Success ''E1'' ''x'']
      \<lparr>rs_patterns = [seed ''E1'' ''x'' [] [] 1 0 []]\<rparr>)). success_count p = 3 \<and> failure_count p = 1"
  using recorded_counts_add_up [of "\<lparr>rs_patterns = [seed ''E1'' ''x'' [] [] 1 0 []]\<rparr>"
      "[Success ''E1'' ''x'', Failure ''E1'' ''x'', Success ''E1'' ''x'']"]
  by (force simp: seed_def pattern_key_def)

section \<open>Matching and learning\<close>

text \<open>The patterns offered are exactly the reliable ones that match, the most proven first.\<close>

lemma find_matching_spec:
  "set (find_matching re re_valid st ecode msg)
     = {p \<in> set (rs_patterns st). is_reliable p \<and> pattern_matches re re_valid p ecode msg}"
  "sorted (map (\<lambda>p. - int (unat (success_count p))) (find_matching re re_valid st ecode msg))"
  by (auto simp: find_matching_def best_first_def)

lemma reliable_iff:
  assumes "unat (success_count p) + unat (failure_count p) < 2 ^ 32"
  shows "is_reliable p \<longleftrightarrow> 0 < success_count p \<and> failure_count p \<le> success_count p"
proof -
  have "unat (success_count p + failure_count p) = unat (success_count p) + unat (failure_count p)"
    using assms unat_add_lem [of "success_count p" "failure_count p"] by simp
  then show ?thesis
    by (auto simp: is_reliable_def Let_def word_le_nat_alt unat_eq_zero word_gt_0 simp flip: unat_eq_zero)
qed

text \<open>The sum of the counts wraps: a pattern with one success and the greatest number of failures is reliable.\<close>

lemma reliability_wraps: "is_reliable (seed e r d x 1 (- 1) c)"
  by (simp add: is_reliable_def seed_def)

lemma extracted_patterns_fixed:
  assumes "p \<in> set (extract_patterns_from_diff re now before_text after_text es es' project)"
  shows "\<exists>e \<in> set es. rp_error_code p = code e \<and> is_fixed es' e
    \<and> region (err_line e) (lines before_text) \<noteq> region (err_line e) (lines after_text)"
  using assms by (auto simp: extract_patterns_from_diff_def map_filter_def pattern_of_fix_def Let_def split: if_splits)

lemma nothing_changed_nothing_learned: "extract_patterns_from_diff re now t t es es' project = []"
  by (simp add: extract_patterns_from_diff_def map_filter_def pattern_of_fix_def)

text \<open>The last days of a year of 365 days fall into a thirteenth month.\<close>

lemma iso_month_bounds: "1 \<le> iso_month secs \<and> iso_month secs \<le> 13"
proof -
  have "(secs div 86400) mod 365 div 30 \<le> 364 div 30" by (intro div_le_mono) (simp add: less_Suc_eq_le [symmetric])
  then show ?thesis by (simp add: iso_month_def)
qed

lemma thirteenth_month: "iso_month (360 * 86400) = 13" "today_iso (360 * 86400) = ''1970-13-01''"
proof -
  show month: "iso_month (360 * 86400) = 13" by (simp add: iso_month_def)
  have "pad_zeros 4 1970 = ''1970''" "pad_zeros 2 13 = ''13''" "pad_zeros 2 1 = ''01''" by code_simp+
  then show "today_iso (360 * 86400) = ''1970-13-01''" using month by (simp add: today_iso_def)
qed

end
