(* ===== verification/Bench_Projects.thy ===== *)
theory Bench_Projects
  imports Artifacts Llm_Agents Validation
begin

text \<open>
  The projects of the benchmark runner (\<open>crates/noricum-cli/src/crust_bench.rs\<close>): the directory trees of C sources
  and Rust interfaces, the prompts, and the text form of several files in one answer. Directories are trees whose
  files hold contents; the parameter \<open>readable\<close> gives the text of a content, or the error of
  \<open>read_to_string\<close> when it is not text.
\<close>

section \<open>Directories\<close>

text \<open>\<open>Path::extension\<close> of a file name: the text behind the last point, if it is not the first character.\<close>

definition file_extension :: "string \<Rightarrow> string option" where
  "file_extension nm =
     (case find_char (rev nm) (CHR ''.'') of
        None \<Rightarrow> None
      | Some k \<Rightarrow> if Suc k = length nm then None else Some (drop (length nm - k) nm))"

definition dir_entries :: "fs_node \<Rightarrow> (string \<times> fs_node) list" where
  "dir_entries n = (case n of FileNode _ \<Rightarrow> [] | DirNode es \<Rightarrow> es)"

definition sub_dir :: "fs_node \<Rightarrow> string \<Rightarrow> fs_node option" where
  "sub_dir n nm = (case map_of (dir_entries n) nm of Some d \<Rightarrow> if is_dir d then Some d else None | None \<Rightarrow> None)"

fun collect_c_files :: "string list \<Rightarrow> fs_node \<Rightarrow> (string list \<times> string) list" where
  "collect_c_files path (FileNode text) =
     (if path \<noteq> [] \<and> file_extension (last path) \<in> {Some ''c'', Some ''h''} then [(path, text)] else [])"
| "collect_c_files path (DirNode es) = concat (map (\<lambda>(nm, n). collect_c_files (path @ [nm]) n) es)"

text \<open>Paths are compared component by component.\<close>

definition read_c_file :: "(string \<Rightarrow> (string, string) result) \<Rightarrow> string \<Rightarrow> string list \<times> string \<Rightarrow> (string, string) result" where
  "read_c_file readable cbench_path f =
     (let nm = join ''/'' (fst f)
      in case readable (snd f) of
           Inl _ \<Rightarrow> Inl (''reading '' @ path_join cbench_path nm)
         | Inr text \<Rightarrow> Inr (''// === '' @ nm @ '' ==='' @ [newline] @ text @ [newline, newline]))"

definition read_c_sources :: "(string \<Rightarrow> (string, string) result) \<Rightarrow> string \<Rightarrow> fs_node \<Rightarrow> (string, string) result" where
  "read_c_sources readable cbench_path cbench_dir =
     bind_result (collect_results (read_c_file readable cbench_path) (sort_key fst (collect_c_files [] cbench_dir)))
       (\<lambda>parts. Inr (concat parts))"

text \<open>The interface files by name; a directory with the extension \<open>rs\<close> cannot be read.\<close>

type_synonym rust_interface = "string \<times> string"

definition interface_file ::
  "(string \<Rightarrow> (string, string) result) \<Rightarrow> string \<times> fs_node \<Rightarrow> (string, rust_interface) result" where
  "interface_file readable e =
     (case snd e of
        FileNode content \<Rightarrow> bind_result (readable content) (\<lambda>text. Inr (fst e, text))
      | DirNode _ \<Rightarrow> Inl ''Is a directory (os error 21)'')"

definition read_interface_skeletons ::
  "(string \<Rightarrow> (string, string) result) \<Rightarrow> string \<Rightarrow> fs_node \<Rightarrow> (string, rust_interface list) result" where
  "read_interface_skeletons readable rbench_path rbench_dir =
     (case Option.bind (sub_dir rbench_dir ''src'') (\<lambda>src. sub_dir src ''interfaces'') of
        None \<Rightarrow> Inl (''interfaces directory not found: '' @ path_join rbench_path ''src/interfaces'')
      | Some dir \<Rightarrow>
          bind_result
            (collect_results (interface_file readable)
               (filter (\<lambda>(nm, _). file_extension nm = Some ''rs'') (dir_entries dir)))
            (\<lambda>fs. Inr (sort_key fst fs)))"

text \<open>
  \<open>copy_dir_recursive\<close>, after the old directory has been removed: the files it writes, one by one. A file that
  cannot be written ends the copy; those before it stay.
\<close>

fun bench_copies :: "string \<Rightarrow> fs_node \<Rightarrow> (string \<times> string) list" where
  "bench_copies dest (FileNode content) = [(dest, content)]"
| "bench_copies dest (DirNode es) = concat (map (\<lambda>(nm, n). bench_copies (path_join dest nm) n) es)"

fun copy_files :: "(string \<times> string) list \<Rightarrow> disk \<Rightarrow> string option \<times> disk" where
  "copy_files [] d = (None, d)"
| "copy_files ((p, t) # ws) d =
     (case write_fault d p of Some e \<Rightarrow> (Some e, d) | None \<Rightarrow> copy_files ws (d\<lparr>files := (files d)(p \<mapsto> t)\<rparr>))"

definition remove_dir_all :: "string \<Rightarrow> disk \<Rightarrow> disk" where
  "remove_dir_all dir d = d\<lparr>files := (\<lambda>p. if starts_with p (dir @ ''/'') then None else files d p)\<rparr>"

definition copy_rbench_to_workdir :: "fs_node \<Rightarrow> string \<Rightarrow> disk \<Rightarrow> string option \<times> disk" where
  "copy_rbench_to_workdir rbench_dir workdir d = copy_files (bench_copies workdir rbench_dir) d"

record crust_project =
  cp_name :: string
  cp_cbench :: fs_node
  cp_cbench_path :: string
  cp_rbench :: fs_node
  cp_rbench_path :: string

definition dir_names :: "fs_node \<Rightarrow> (string \<times> fs_node) list" where
  "dir_names n = filter (\<lambda>(_, d). is_dir d) (dir_entries n)"

definition rbench_match :: "fs_node \<Rightarrow> string \<Rightarrow> (string \<times> fs_node) option" where
  "rbench_match rbench nm =
     (let other = map (\<lambda>c. if c = CHR ''-'' then CHR ''_'' else c) nm; dirs = map_of (dir_names rbench)
      in case dirs nm of
           Some r \<Rightarrow> Some (nm, r)
         | None \<Rightarrow> map_option (\<lambda>r. (other, r)) (dirs other))"

definition matching_project :: "string \<Rightarrow> string \<Rightarrow> fs_node \<Rightarrow> string \<times> fs_node \<Rightarrow> crust_project option" where
  "matching_project cbench_path rbench_path rbench e =
     map_option (\<lambda>(other, r). \<lparr>cp_name = fst e, cp_cbench = snd e, cp_cbench_path = path_join cbench_path (fst e),
                               cp_rbench = r, cp_rbench_path = path_join rbench_path other\<rparr>)
       (rbench_match rbench (fst e))"

definition discover_projects :: "string \<Rightarrow> fs_node \<Rightarrow> (string, crust_project list) result" where
  "discover_projects dataset_path dataset =
     (case sub_dir dataset ''CBench'' of
        None \<Rightarrow> Inl (''CBench directory not found at '' @ path_join dataset_path ''CBench'')
      | Some cbench \<Rightarrow>
          (case sub_dir dataset ''RBench'' of
             None \<Rightarrow> Inl (''RBench directory not found at '' @ path_join dataset_path ''RBench'')
           | Some rbench \<Rightarrow>
               Inr (sort_key cp_name
                 (List.map_filter
                    (matching_project (path_join dataset_path ''CBench'') (path_join dataset_path ''RBench'') rbench)
                    (dir_names cbench)))))"

section \<open>Limits\<close>

definition base_repair_iterations :: u32 where "base_repair_iterations = 5"
definition max_bench_iterations :: u32 where "max_bench_iterations = 10"

definition effective_max_repairs :: "nat \<Rightarrow> u32 \<Rightarrow> u32" where
  "effective_max_repairs interface_count c_loc =
     (let module_bonus = as_u32 (interface_count div 3);
          size_bonus = (if 2000 < c_loc then 2 else if 1000 < c_loc then 1 else 0)
      in min (base_repair_iterations + module_bonus + size_bonus) max_bench_iterations)"

definition bench_line_count :: "string \<Rightarrow> u32" where
  "bench_line_count s = as_u32 (length (lines s))"

definition clamp_between :: "u64 \<Rightarrow> u64 \<Rightarrow> nat \<Rightarrow> u64" where
  "clamp_between low high len = max low (min high (of_nat len div 4 * 3))"

text \<open>The model of a whole project or of one module; the limits are 300 and 1500, or 100 and 500 lines.\<close>

definition bench_model :: "u32 \<Rightarrow> u32 \<Rightarrow> string option \<Rightarrow> string option \<Rightarrow> u32 \<Rightarrow> string" where
  "bench_model small large ollama primary loc =
     (case ollama of
        Some m \<Rightarrow> m
      | None \<Rightarrow>
          if unwrap_or primary ''anthropic'' = ''deepseek'' then ''deepseek-chat''
          else if loc \<le> small then ''claude-haiku-4-5-20251001''
          else if loc \<le> large then ''claude-sonnet-4-6'' else ''claude-opus-4-6'')"

section \<open>Prompts\<close>

definition tagged :: "string \<Rightarrow> string \<Rightarrow> string" where
  "tagged tag body = ''<'' @ tag @ ''>'' @ [newline] @ body @ [newline] @ ''</'' @ tag @ ''>'' @ [newline, newline]"

definition keep_signatures :: string where
  "keep_signatures =
     ''Replace every `unimplemented!()` with a correct implementation. ''
     @ ''Do NOT change any function signatures, struct definitions, or field types.'' @ [newline, newline]"

definition c_source_section :: "string \<Rightarrow> string \<Rightarrow> string" where
  "c_source_section title c_src = ''## '' @ title @ [newline] @ tagged ''c_source'' c_src"

definition build_single_module_prompt :: "string \<Rightarrow> rust_interface \<Rightarrow> rust_interface list \<Rightarrow> string" where
  "build_single_module_prompt c_src target others =
     c_source_section ''C Source Code'' c_src
     @ ''## Target: implement '' @ fst target @ [newline] @ keep_signatures
     @ tagged ''rust_interface'' (snd target)
     @ (if others \<noteq> [] then
          ''## Other module interfaces (read-only context '' @ em_dash @ '' do NOT implement these, ''
          @ ''but you may call their public functions):'' @ [newline]
          @ concat (map (\<lambda>(nm, text). ''### '' @ nm @ [newline] @ tagged ''rust_interface'' text) others)
        else [])
     @ ''Output ONLY the complete Rust implementation for `'' @ fst target @ ''`. No explanations.''"

definition build_translation_prompt :: "string \<Rightarrow> rust_interface list \<Rightarrow> string" where
  "build_translation_prompt c_src skeletons =
     c_source_section ''C Source Code'' c_src
     @ ''## Rust Interface Skeletons'' @ [newline] @ keep_signatures
     @ concat (map (\<lambda>(nm, text). ''### File: '' @ nm @ [newline] @ tagged ''rust_interface'' text) skeletons)
     @ ''Output the complete implementation for each interface file. ''
     @ ''If there are multiple files, separate them with `// === filename.rs ===` headers.'' @ [newline]
     @ ''Output ONLY Rust code.''"

definition repair_heading :: "u32 \<Rightarrow> u32 \<Rightarrow> string" where
  "repair_heading i max_iterations =
     ''## Repair iteration '' @ show_nat (unat i) @ ''/'' @ show_nat (unat max_iterations) @ [newline, newline]"

definition bench_fence :: "string \<Rightarrow> string \<Rightarrow> string" where
  "bench_fence lang body =
     fence_mark @ lang @ [newline] @ body @ [newline] @ fence_mark @ [newline, newline]"

definition repair_context :: "string \<Rightarrow> rust_interface list \<Rightarrow> string \<Rightarrow> string" where
  "repair_context c_src skeletons current_impl =
     ''## Current Rust implementation'' @ [newline] @ bench_fence ''rust'' current_impl
     @ c_source_section ''Original C source'' c_src
     @ ''## Interface contract (signatures MUST NOT change)'' @ [newline]
     @ concat (map (\<lambda>(nm, text). tagged ''rust_interface'' (''// '' @ nm @ [newline] @ text)) skeletons)"

definition build_bench_repair_prompt :: "string \<Rightarrow> rust_interface list \<Rightarrow> string \<Rightarrow> string \<Rightarrow> u32 \<Rightarrow> u32 \<Rightarrow> string" where
  "build_bench_repair_prompt c_src skeletons current_impl errors i max_iterations =
     repair_heading i max_iterations
     @ ''## Error output'' @ [newline] @ bench_fence [] (take 8000 errors)
     @ repair_context c_src skeletons current_impl
     @ ''Fix ALL errors. Output the complete corrected Rust file. No explanations.''"

record test_binary_result =
  tb_name :: string
  tb_passed :: bool
  tb_output :: string

definition build_targeted_repair_prompt ::
  "string \<Rightarrow> rust_interface list \<Rightarrow> string \<Rightarrow> test_binary_result list \<Rightarrow> u32 \<Rightarrow> u32 \<Rightarrow> string" where
  "build_targeted_repair_prompt c_src skeletons current_impl failed_tests i max_iterations =
     repair_heading i max_iterations
     @ ''## Failing tests ('' @ show_nat (length failed_tests) @ '' of '' @ show_nat (length failed_tests)
     @ '' binaries failed)'' @ [newline]
     @ concat (map (\<lambda>t. ''### Test binary: '' @ tb_name t @ [newline] @ bench_fence [] (take 3000 (tb_output t))) failed_tests)
     @ repair_context c_src skeletons current_impl
     @ ''Focus on fixing the specific failing test binaries listed above. ''
     @ ''Analyze the test names and error messages to identify which module(s) need repair. ''
     @ ''Fix ALL errors. Output the complete corrected Rust file. No explanations.''"

section \<open>Several files in one text\<close>

definition is_file_header :: "string \<Rightarrow> bool" where
  "is_file_header line = (starts_with line ''// === '' \<and> ends_with line '' ==='')"

definition header_name :: "string \<Rightarrow> string" where
  "header_name line = trim (strip_suffixes '' ==='' (strip_prefixes ''// === '' line))"

text \<open>
  The loop over the lines: the file that is being collected, if its name is known, and its content. The content is
  only emptied when a file is finished.
\<close>

fun split_files :: "string list \<Rightarrow> string option \<Rightarrow> string \<Rightarrow> string list \<Rightarrow> (string \<times> string) list" where
  "split_files names current content [] =
     (case current of Some nm \<Rightarrow> [(nm, trim content)] | None \<Rightarrow> [])"
| "split_files names current content (line # ls) =
     (if is_file_header line then
        (let next = List.find (\<lambda>nm. nm = header_name line) names
         in case current of
              Some nm \<Rightarrow> (nm, trim content) # split_files names next [] ls
            | None \<Rightarrow> split_files names next content ls)
      else split_files names current (content @ line @ [newline]) ls)"

definition parse_multi_file_output :: "string \<Rightarrow> rust_interface list \<Rightarrow> (string \<times> string) list" where
  "parse_multi_file_output output interface_files =
     (let rust = extract_rust_code output
      in case interface_files of
           [f] \<Rightarrow> [(fst f, rust)]
         | _ \<Rightarrow>
             (let found = split_files (map fst interface_files) None [] (lines rust)
              in case (found, interface_files) of
                   ([], f # _) \<Rightarrow> [(fst f, rust)]
                 | _ \<Rightarrow> found))"

end
