(* ===== verification/Task_Routing.thy ===== *)
theory Task_Routing
  imports Llm_Agents Regex_Engine
begin

text \<open>
  Providers and task routing (\<open>crates/noricum-agents/src/providers.rs\<close>, and the part of the configuration in
  \<open>crates/noricum-core/src/orchestrator.rs\<close> it is made from): which client is created, the pool of clients, the
  overrides per task and their text form. The constructors of the clients and the parser of floating point
  numbers belong to packages and are parameters; \<open>'c\<close> stands for their client objects.
\<close>

section \<open>Configuration\<close>

text \<open>The fields of \<open>MigrationConfig\<close> that the provider configuration is made from.\<close>

record provider_settings =
  ps_primary :: "string option"
  ps_anthropic_key :: "string option"
  ps_deepseek_key :: "string option"
  ps_ollama_url :: "string option"
  ps_ollama_model :: "string option"
  ps_num_ctx :: "u64 option"

definition default_ollama_url :: string where "default_ollama_url = ''http://localhost:11434''"
definition default_ollama_model :: string where "default_ollama_model = ''qwen2.5-coder:32b''"
definition default_num_ctx :: u64 where "default_num_ctx = 131072"

definition provider_config_default :: "(string \<Rightarrow> string option) \<Rightarrow> provider_config" where
  "provider_config_default env_var =
     \<lparr>primary_provider = ''anthropic'', anthropic_api_key = env_var ''ANTHROPIC_API_KEY'',
      deepseek_api_key = env_var ''DEEPSEEK_API_KEY'', ollama_url = default_ollama_url,
      ollama_model = default_ollama_model, ollama_num_ctx = default_num_ctx\<rparr>"

definition primary_of :: "provider_settings \<Rightarrow> string" where
  "primary_of s =
     (case ps_primary s of
        Some p \<Rightarrow> p
      | None \<Rightarrow>
          if ps_anthropic_key s \<noteq> None then ''anthropic''
          else if ps_deepseek_key s \<noteq> None then ''deepseek'' else ''ollama'')"

definition provider_config_of :: "provider_settings \<Rightarrow> provider_config" where
  "provider_config_of s =
     \<lparr>primary_provider = primary_of s, anthropic_api_key = ps_anthropic_key s,
      deepseek_api_key = ps_deepseek_key s,
      ollama_url = unwrap_or (ps_ollama_url s) default_ollama_url,
      ollama_model = unwrap_or (ps_ollama_model s) default_ollama_model,
      ollama_num_ctx = unwrap_or (ps_num_ctx s) default_num_ctx\<rparr>"

section \<open>Tasks\<close>

record task_model_config =
  tc_provider :: "string option"
  tc_model :: "string option"
  tc_temperature :: "rat option"
  tc_num_ctx :: "u64 option"

datatype pipeline_task =
  AnalysisTask | TypeContractTask | TranslationTask | RepairTask | CompletionTask | TestGenTask

definition show_task :: "pipeline_task \<Rightarrow> string" where
  "show_task t =
     (case t of
        AnalysisTask \<Rightarrow> ''analysis'' | TypeContractTask \<Rightarrow> ''type_contract'' | TranslationTask \<Rightarrow> ''translation''
      | RepairTask \<Rightarrow> ''repair'' | CompletionTask \<Rightarrow> ''completion'' | TestGenTask \<Rightarrow> ''test_gen'')"

definition task_from_str :: "string \<Rightarrow> (string, pipeline_task) result" where
  "task_from_str s =
     (let l = to_lowercase s
      in if l = ''analysis'' then Inr AnalysisTask
         else if l \<in> set [''type_contract'', ''type-contract'', ''contract''] then Inr TypeContractTask
         else if l \<in> set [''translation'', ''translate''] then Inr TranslationTask
         else if l \<in> set [''repair'', ''fix''] then Inr RepairTask
         else if l \<in> set [''completion'', ''complete''] then Inr CompletionTask
         else if l \<in> set [''test_gen'', ''test-gen'', ''testgen'', ''test''] then Inr TestGenTask
         else Inl (''unknown pipeline task: '' @ s))"

record task_routing =
  tr_analysis :: "task_model_config option"
  tr_type_contract :: "task_model_config option"
  tr_translation :: "task_model_config option"
  tr_repair :: "task_model_config option"
  tr_completion :: "task_model_config option"
  tr_test_gen :: "task_model_config option"

definition no_routing :: task_routing where
  "no_routing =
     \<lparr>tr_analysis = None, tr_type_contract = None, tr_translation = None, tr_repair = None, tr_completion = None,
      tr_test_gen = None\<rparr>"

definition routing_get :: "task_routing \<Rightarrow> pipeline_task \<Rightarrow> task_model_config option" where
  "routing_get r t =
     (case t of
        AnalysisTask \<Rightarrow> tr_analysis r | TypeContractTask \<Rightarrow> tr_type_contract r
      | TranslationTask \<Rightarrow> tr_translation r | RepairTask \<Rightarrow> tr_repair r | CompletionTask \<Rightarrow> tr_completion r
      | TestGenTask \<Rightarrow> tr_test_gen r)"

definition routing_set :: "pipeline_task \<Rightarrow> task_model_config \<Rightarrow> task_routing \<Rightarrow> task_routing" where
  "routing_set t cfg r =
     (case t of
        AnalysisTask \<Rightarrow> r\<lparr>tr_analysis := Some cfg\<rparr> | TypeContractTask \<Rightarrow> r\<lparr>tr_type_contract := Some cfg\<rparr>
      | TranslationTask \<Rightarrow> r\<lparr>tr_translation := Some cfg\<rparr> | RepairTask \<Rightarrow> r\<lparr>tr_repair := Some cfg\<rparr>
      | CompletionTask \<Rightarrow> r\<lparr>tr_completion := Some cfg\<rparr> | TestGenTask \<Rightarrow> r\<lparr>tr_test_gen := Some cfg\<rparr>)"

definition has_overrides :: "task_routing \<Rightarrow> bool" where
  "has_overrides r =
     (tr_analysis r \<noteq> None \<or> tr_type_contract r \<noteq> None \<or> tr_translation r \<noteq> None \<or> tr_repair r \<noteq> None
      \<or> tr_completion r \<noteq> None \<or> tr_test_gen r \<noteq> None)"

section \<open>Clients\<close>

datatype 'c backend = AnthropicClient 'c | DeepSeekClient 'c | OllamaClient 'c u64

text \<open>The constructors of the packages: from a key, from a key, from a URL.\<close>

record 'c client_makers =
  make_anthropic :: "string \<Rightarrow> (string, 'c) result"
  make_deepseek :: "string \<Rightarrow> (string, 'c) result"
  make_ollama :: "string \<Rightarrow> (string, 'c) result"

definition create_anthropic_client :: "'c client_makers \<Rightarrow> string \<Rightarrow> (agent_error, 'c backend) result" where
  "create_anthropic_client mk key =
     (case make_anthropic mk key of
        Inl e \<Rightarrow> Inl (Provider (''failed to create Anthropic client: '' @ e)) | Inr c \<Rightarrow> Inr (AnthropicClient c))"

definition create_deepseek_client :: "'c client_makers \<Rightarrow> string \<Rightarrow> (agent_error, 'c backend) result" where
  "create_deepseek_client mk key =
     (case make_deepseek mk key of
        Inl e \<Rightarrow> Inl (Provider (''failed to create DeepSeek client: '' @ e)) | Inr c \<Rightarrow> Inr (DeepSeekClient c))"

definition create_ollama_client :: "'c client_makers \<Rightarrow> string \<Rightarrow> u64 \<Rightarrow> (agent_error, 'c backend) result" where
  "create_ollama_client mk url ctx =
     (case make_ollama mk url of
        Inl e \<Rightarrow> Inl (Provider (''failed to create Ollama client at '' @ url @ '': '' @ e))
      | Inr c \<Rightarrow> Inr (OllamaClient c ctx))"

definition create_llm_client :: "'c client_makers \<Rightarrow> provider_config \<Rightarrow> (agent_error, 'c backend) result" where
  "create_llm_client mk cfg =
     (let ollama = create_ollama_client mk (ollama_url cfg) (ollama_num_ctx cfg);
          others = (case anthropic_api_key cfg of
                      Some key \<Rightarrow> create_anthropic_client mk key
                    | None \<Rightarrow>
                        (case deepseek_api_key cfg of Some key \<Rightarrow> create_deepseek_client mk key | None \<Rightarrow> ollama))
      in if primary_provider cfg = ''ollama'' then ollama
         else if primary_provider cfg = ''deepseek'' then
           (case deepseek_api_key cfg of Some key \<Rightarrow> create_deepseek_client mk key | None \<Rightarrow> others)
         else others)"

definition create_client :: "'c client_makers \<Rightarrow> provider_settings \<Rightarrow> 'c backend option" where
  "create_client mk s =
     (case create_llm_client mk (provider_config_of s) of Inr c \<Rightarrow> Some c | Inl _ \<Rightarrow> None)"

section \<open>The pool\<close>

record 'c client_pool =
  pool_anthropic :: "'c backend option"
  pool_deepseek :: "'c backend option"
  pool_ollama :: "'c backend option"
  pool_config :: provider_config

definition ok_result :: "('e, 'a) result \<Rightarrow> 'a option" where
  "ok_result r = (case r of Inr a \<Rightarrow> Some a | Inl _ \<Rightarrow> None)"

definition pool_from_config :: "'c client_makers \<Rightarrow> provider_config \<Rightarrow> (agent_error, 'c client_pool) result" where
  "pool_from_config mk cfg =
     (let anthropic = Option.bind (anthropic_api_key cfg) (\<lambda>key. ok_result (create_anthropic_client mk key));
          deepseek = Option.bind (deepseek_api_key cfg) (\<lambda>key. ok_result (create_deepseek_client mk key));
          ollama = ok_result (create_ollama_client mk (ollama_url cfg) (ollama_num_ctx cfg))
      in if anthropic = None \<and> deepseek = None \<and> ollama = None
         then Inl (Provider ''no LLM providers available (no API keys, Ollama unreachable)'')
         else Inr \<lparr>pool_anthropic = anthropic, pool_deepseek = deepseek, pool_ollama = ollama, pool_config = cfg\<rparr>)"

definition get_by_provider :: "'c client_pool \<Rightarrow> string \<Rightarrow> 'c backend option" where
  "get_by_provider pool nm =
     (if nm = ''anthropic'' then pool_anthropic pool
      else if nm = ''deepseek'' then pool_deepseek pool
      else if nm = ''ollama'' then pool_ollama pool else None)"

definition default_client :: "'c client_pool \<Rightarrow> 'c backend option" where
  "default_client pool =
     (let p = primary_provider (pool_config pool)
      in if p = ''ollama'' then pool_ollama pool
         else if p = ''deepseek'' then first_some [pool_deepseek pool, pool_anthropic pool, pool_ollama pool]
         else first_some [pool_anthropic pool, pool_deepseek pool, pool_ollama pool])"

section \<open>Resolving a task\<close>

record 'c resolved_task =
  rt_client :: "'c backend"
  rt_model :: string
  rt_temperature :: rat
  rt_provider :: provider_kind

definition provider_name :: "provider_kind \<Rightarrow> string" where
  "provider_name k = (case k of Anthropic \<Rightarrow> ''anthropic'' | DeepSeek \<Rightarrow> ''deepseek'' | Ollama \<Rightarrow> ''ollama'')"

definition kind_of_name :: "string \<Rightarrow> provider_kind" where
  "kind_of_name nm = (if nm = ''anthropic'' then Anthropic else if nm = ''deepseek'' then DeepSeek else Ollama)"

definition debug_kind :: "provider_kind \<Rightarrow> string" where
  "debug_kind k = (case k of Anthropic \<Rightarrow> ''Anthropic'' | DeepSeek \<Rightarrow> ''DeepSeek'' | Ollama \<Rightarrow> ''Ollama'')"

definition default_model :: "provider_config \<Rightarrow> provider_kind \<Rightarrow> difficulty \<Rightarrow> string" where
  "default_model cfg k d =
     (case k of
        Ollama \<Rightarrow> ollama_model cfg
      | DeepSeek \<Rightarrow> deepseek_model d
      | Anthropic \<Rightarrow>
          (case d of Hard \<Rightarrow> ''claude-opus-4-6'' | Medium \<Rightarrow> ''claude-sonnet-4-6'' | Easy \<Rightarrow> ''claude-haiku-4-5-20251001''))"

text \<open>An override of the context size replaces that of an Ollama client.\<close>

definition patch_num_ctx :: "string \<Rightarrow> u64 option \<Rightarrow> 'c backend \<Rightarrow> 'c backend" where
  "patch_num_ctx nm num_ctx c =
     (if nm = ''ollama'' then
        (case (num_ctx, c) of (Some n, OllamaClient oc _) \<Rightarrow> OllamaClient oc n | _ \<Rightarrow> c)
      else c)"

definition resolve_named ::
  "'c client_pool \<Rightarrow> pipeline_task \<Rightarrow> difficulty \<Rightarrow> rat \<Rightarrow> task_model_config \<Rightarrow> string \<Rightarrow> (agent_error, 'c resolved_task) result" where
  "resolve_named pool t d temp tc nm =
     bind_result
       (ok_or (get_by_provider pool nm)
          (Provider (''P35: task '' @ show_task t @ '' requests provider '' @ [CHR 0x27] @ nm @ [CHR 0x27]
                     @ '' but it is not available'')))
       (\<lambda>c. Inr \<lparr>rt_client = patch_num_ctx nm (tc_num_ctx tc) c,
                 rt_model = unwrap_or (tc_model tc) (default_model (pool_config pool) (kind_of_name nm) d),
                 rt_temperature = temp, rt_provider = kind_of_name nm\<rparr>)"

definition resolve_selected ::
  "'c client_pool \<Rightarrow> pipeline_task \<Rightarrow> difficulty \<Rightarrow> rat \<Rightarrow> string option \<Rightarrow> (agent_error, 'c resolved_task) result" where
  "resolve_selected pool t d temp model =
     bind_result (select_model (pool_config pool) d (show_task t)) (\<lambda>sel.
     bind_result
       (ok_or (get_by_provider pool (provider_name (sel_provider sel)))
          (Provider (''provider '' @ debug_kind (sel_provider sel) @ '' not available in pool'')))
       (\<lambda>c. Inr \<lparr>rt_client = c, rt_model = unwrap_or model (sel_model sel), rt_temperature = temp,
                 rt_provider = sel_provider sel\<rparr>))"

definition resolve_task ::
  "'c client_pool \<Rightarrow> task_routing \<Rightarrow> pipeline_task \<Rightarrow> difficulty \<Rightarrow> rat \<Rightarrow> (agent_error, 'c resolved_task) result" where
  "resolve_task pool routing t d default_temperature =
     (case routing_get routing t of
        None \<Rightarrow> resolve_selected pool t d default_temperature None
      | Some tc \<Rightarrow>
          (let temp = unwrap_or (tc_temperature tc) default_temperature
           in case tc_provider tc of
                Some nm \<Rightarrow> resolve_named pool t d temp tc nm
              | None \<Rightarrow> resolve_selected pool t d temp (tc_model tc)))"

section \<open>The text form of an override\<close>

definition parse_task_routing_spec ::
  "(string \<Rightarrow> rat option) \<Rightarrow> string \<Rightarrow> (string, pipeline_task \<times> task_model_config) result" where
  "parse_task_routing_spec parse_f64 spec =
     (case find_char spec (CHR '':'') of
        None \<Rightarrow> Inl (''invalid task routing spec '' @ [CHR 0x27] @ spec @ [CHR 0x27]
                     @ '': expected '' @ [CHR 0x27] @ ''task:provider/model/temp/num_ctx'' @ [CHR 0x27])
      | Some k \<Rightarrow>
          bind_result (task_from_str (take k spec)) (\<lambda>t.
            (let parts = split_char (CHR ''/'') (drop (Suc k) spec)
             in Inr (t, \<lparr>tc_provider = Some (hd parts),
                         tc_model = (case get parts 1 of Some m \<Rightarrow> if m \<noteq> [] then Some m else None | None \<Rightarrow> None),
                         tc_temperature = Option.bind (get parts 2) parse_f64,
                         tc_num_ctx = map_option of_nat (Option.bind (get parts 3) parse_usize)\<rparr>))))"

section \<open>The client and the model fit\<close>

definition backend_kind :: "'c backend \<Rightarrow> provider_kind" where
  "backend_kind c = (case c of AnthropicClient _ \<Rightarrow> Anthropic | DeepSeekClient _ \<Rightarrow> DeepSeek | OllamaClient _ _ \<Rightarrow> Ollama)"

lemma created_kinds:
  "create_anthropic_client mk key = Inr c \<Longrightarrow> backend_kind c = Anthropic"
  "create_deepseek_client mk key = Inr c \<Longrightarrow> backend_kind c = DeepSeek"
  "create_ollama_client mk url ctx = Inr c \<Longrightarrow> backend_kind c = Ollama"
  by (auto simp: create_anthropic_client_def create_deepseek_client_def create_ollama_client_def backend_kind_def
      split: sum.splits)

text \<open>
  C28: The client and the model names fit together. The client that is created and the models that are selected for
  translation, for any other task and for repair belong to the same provider, for every configuration: although
  the three functions decide on their own, no model is asked for at another provider.
\<close>

theorem client_fits_model:
  assumes "create_llm_client mk cfg = Inr c"
  shows "(\<exists>sel. select_model cfg d task = Inr sel \<and> sel_provider sel = backend_kind c)
    \<and> (\<exists>sel. select_repair_model cfg d = Inr sel \<and> sel_provider sel = backend_kind c)"
  using assms
  by (auto simp: create_llm_client_def select_model_def select_repair_model_def Let_def created_kinds
      split: if_splits option.splits)

definition demo_makers :: "string client_makers" where
  "demo_makers = \<lparr>make_anthropic = Inr, make_deepseek = Inr, make_ollama = Inr\<rparr>"

definition demo_providers :: provider_config where
  "demo_providers = provider_config_of \<lparr>ps_primary = Some ''deepseek'', ps_anthropic_key = Some ''k'',
     ps_deepseek_key = None, ps_ollama_url = None, ps_ollama_model = None, ps_num_ctx = None\<rparr>"

theorem client_fits_model_witness:
  "\<exists>sel. select_model demo_providers Hard ''translation'' = Inr sel \<and> sel_provider sel = Anthropic"
proof -
  have "create_llm_client demo_makers demo_providers = Inr (AnthropicClient ''k'')"
    by (simp add: create_llm_client_def demo_providers_def provider_config_of_def primary_of_def demo_makers_def
        create_anthropic_client_def)
  from client_fits_model [OF this] show ?thesis by (auto simp: backend_kind_def)
qed

section \<open>Routing\<close>

lemma routing_get_set: "routing_get (routing_set t cfg r) t' = (if t' = t then Some cfg else routing_get r t')"
  by (cases t; cases t') (simp_all add: routing_get_def routing_set_def)

lemma has_overrides_iff: "has_overrides r \<longleftrightarrow> (\<exists>t. routing_get r t \<noteq> None)"
proof
  assume "has_overrides r"
  then have "\<exists>t \<in> {AnalysisTask, TypeContractTask, TranslationTask, RepairTask, CompletionTask, TestGenTask}. routing_get r t \<noteq> None"
    by (simp add: has_overrides_def routing_get_def)
  then show "\<exists>t. routing_get r t \<noteq> None" by blast
next
  assume "\<exists>t. routing_get r t \<noteq> None"
  then obtain t where "routing_get r t \<noteq> None" by blast
  then show "has_overrides r" by (cases t) (simp_all add: has_overrides_def routing_get_def)
qed

lemma task_from_str_show: "task_from_str (show_task t) = Inr t"
proof -
  have "task_from_str (show_task AnalysisTask) = Inr AnalysisTask"
    "task_from_str (show_task TypeContractTask) = Inr TypeContractTask"
    "task_from_str (show_task TranslationTask) = Inr TranslationTask"
    "task_from_str (show_task RepairTask) = Inr RepairTask"
    "task_from_str (show_task CompletionTask) = Inr CompletionTask"
    "task_from_str (show_task TestGenTask) = Inr TestGenTask"
    by code_simp+
  then show ?thesis by (cases t) simp_all
qed

lemma show_task_chars: "CHR '':'' \<notin> set (show_task t)"
  by (cases t) (simp_all add: show_task_def)

lemma find_char_append: "c \<notin> set a \<Longrightarrow> find_char (a @ c # b) c = Some (length a)"
  by (induction a) (auto simp: find_char_def)

lemma split_char_append: "d \<notin> set a \<Longrightarrow> split_char d (a @ d # b) = a # split_char d b"
  by (induction a) auto

lemma split_char_plain: "d \<notin> set a \<Longrightarrow> split_char d a = [a]"
  by (induction a) auto

text \<open>An override of provider and model is read back from its text.\<close>

lemma routing_spec_roundtrip:
  assumes "CHR ''/'' \<notin> set nm" "CHR ''/'' \<notin> set model" "model \<noteq> []"
  shows "parse_task_routing_spec parse_f64 (show_task t @ '':'' @ nm @ ''/'' @ model)
    = Inr (t, \<lparr>tc_provider = Some nm, tc_model = Some model, tc_temperature = None, tc_num_ctx = None\<rparr>)"
proof -
  have "find_char (show_task t @ '':'' @ nm @ ''/'' @ model) (CHR '':'') = Some (length (show_task t))"
    using find_char_append [OF show_task_chars] by simp
  moreover have "split_char (CHR ''/'') (nm @ ''/'' @ model) = [nm, model]"
    using split_char_append [OF assms(1)] split_char_plain [OF assms(2)] by simp
  ultimately show ?thesis
    using assms(3) by (simp add: parse_task_routing_spec_def task_from_str_show bind_result_def get_def)
qed

lemma ok_result_Some [simp]: "ok_result r = Some a \<longleftrightarrow> r = Inr a"
  by (auto simp: ok_result_def split: sum.splits)

lemma pool_kinds:
  assumes "pool_from_config mk cfg = Inr pool" "get_by_provider pool nm = Some c"
  shows "backend_kind c = kind_of_name nm \<and> nm = provider_name (kind_of_name nm) \<and> pool_config pool = cfg"
  using assms
  by (auto simp: pool_from_config_def Let_def get_by_provider_def kind_of_name_def provider_name_def created_kinds
      bind_eq_Some_conv split: if_splits)

lemma patch_kind [simp]: "backend_kind (patch_num_ctx nm n c) = backend_kind c"
  by (simp add: patch_num_ctx_def backend_kind_def split: option.splits backend.splits)

lemma kind_of_provider_name [simp]: "kind_of_name (provider_name k) = k"
  by (cases k) (simp_all add: kind_of_name_def provider_name_def)

text \<open>
  A task is sent where it should be. A task resolved in a pool gets a client of the provider it names; an
  override of provider, model or temperature is obeyed; and without an override the model is the one selected for
  the difficulty, at the default temperature.
\<close>

theorem resolved_task_obeys:
  assumes "pool_from_config mk cfg = Inr pool" and "resolve_task pool routing t d temp = Inr r"
  shows "backend_kind (rt_client r) = rt_provider r
    \<and> (case routing_get routing t of
         None \<Rightarrow> select_model cfg d (show_task t) = Inr \<lparr>sel_provider = rt_provider r, sel_model = rt_model r\<rparr>
                 \<and> rt_temperature r = temp
       | Some tc \<Rightarrow> rt_temperature r = unwrap_or (tc_temperature tc) temp
                 \<and> tc_provider tc \<in> {None, Some (provider_name (rt_provider r))}
                 \<and> tc_model tc \<in> {None, Some (rt_model r)})"
proof -
  have selected: "backend_kind (rt_client r) = rt_provider r \<and> rt_temperature r = tmp \<and> m \<in> {None, Some (rt_model r)}
      \<and> (m = None \<longrightarrow> select_model cfg d (show_task t) = Inr \<lparr>sel_provider = rt_provider r, sel_model = rt_model r\<rparr>)"
    if "resolve_selected pool t d tmp m = Inr r" for tmp m
  proof -
    from that obtain sel c where sel: "select_model (pool_config pool) d (show_task t) = Inr sel"
      and c: "get_by_provider pool (provider_name (sel_provider sel)) = Some c"
      and r: "r = \<lparr>rt_client = c, rt_model = unwrap_or m (sel_model sel), rt_temperature = tmp, rt_provider = sel_provider sel\<rparr>"
      by (auto simp: resolve_selected_def bind_result_Inr_iff ok_or_def split: option.splits)
    from pool_kinds [OF assms(1) c] sel r show ?thesis by (cases m) auto
  qed
  have named: "backend_kind (rt_client r) = rt_provider r \<and> rt_temperature r = tmp \<and> nm = provider_name (rt_provider r)
      \<and> tc_model tc \<in> {None, Some (rt_model r)}"
    if "resolve_named pool t d tmp tc nm = Inr r" for tmp tc nm
  proof -
    from that obtain c where c: "get_by_provider pool nm = Some c"
      and r: "r = \<lparr>rt_client = patch_num_ctx nm (tc_num_ctx tc) c,
                 rt_model = unwrap_or (tc_model tc) (default_model (pool_config pool) (kind_of_name nm) d),
                 rt_temperature = tmp, rt_provider = kind_of_name nm\<rparr>"
      by (auto simp: resolve_named_def bind_result_Inr_iff ok_or_def split: option.splits)
    from pool_kinds [OF assms(1) c] r show ?thesis by (cases "tc_model tc") auto
  qed
  show ?thesis
  proof (cases "routing_get routing t")
    case None
    with assms(2) selected [of temp None] show ?thesis by (simp add: resolve_task_def)
  next
    case (Some tc)
    show ?thesis
    proof (cases "tc_provider tc")
      case None
      with assms(2) Some selected [of "unwrap_or (tc_temperature tc) temp" "tc_model tc"] show ?thesis
        by (simp add: resolve_task_def Let_def)
    next
      case (Some nm)
      with assms(2) \<open>routing_get routing t = Some tc\<close> named [of "unwrap_or (tc_temperature tc) temp" tc nm] show ?thesis
        by (simp add: resolve_task_def Let_def)
    qed
  qed
qed

definition demo_override :: task_model_config where
  "demo_override = \<lparr>tc_provider = Some ''ollama'', tc_model = None, tc_temperature = Some (1/2), tc_num_ctx = Some 7\<rparr>"

theorem resolved_task_obeys_witness:
  "\<exists>pool r. pool_from_config demo_makers demo_providers = Inr pool
     \<and> resolve_task pool (routing_set RepairTask demo_override no_routing) RepairTask Easy (3/10) = Inr r
     \<and> rt_temperature r = 1/2 \<and> backend_kind (rt_client r) = Ollama"
proof -
  obtain pool where pool: "pool_from_config demo_makers demo_providers = Inr pool"
    and ollama: "pool_ollama pool = Some (OllamaClient default_ollama_url default_num_ctx)"
    by (simp add: pool_from_config_def demo_makers_def demo_providers_def provider_config_of_def primary_of_def
        create_anthropic_client_def create_ollama_client_def ok_result_def Let_def)
  obtain r where r: "resolve_task pool (routing_set RepairTask demo_override no_routing) RepairTask Easy (3/10) = Inr r"
    by (simp add: resolve_task_def routing_get_set demo_override_def resolve_named_def get_by_provider_def ollama ok_or_def
        bind_result_def)
  from resolved_task_obeys [OF pool r] have "rt_temperature r = 1/2" "backend_kind (rt_client r) = Ollama"
    by (auto simp: routing_get_set demo_override_def provider_name_def split: provider_kind.splits)
  with pool r show ?thesis by blast
qed

text \<open>An override of the context size alone has no effect.\<close>

lemma context_size_ignored:
  assumes "routing_get routing t = Some tc" "tc_provider tc = None"
  shows "resolve_task pool (routing_set t (tc\<lparr>tc_num_ctx := n\<rparr>) routing) t d temp = resolve_task pool routing t d temp"
  using assms by (simp add: resolve_task_def routing_get_set)

end
