(* ===== verification/Json_Value.thy ===== *)
theory Json_Value
  imports Migration_Ir
begin

text \<open>
  The values of the package \<open>serde_json\<close> as the code uses them: construction, the accessors \<open>get\<close>, \<open>as_str\<close> and
  \<open>as_bool\<close>, the JSON forms of options and lists, and
  the decoders of structs. Parsing and printing of texts are parameters where they are
  used.
\<close>

datatype json =
  JsonNull | JsonBool bool | JsonNumber rat | JsonString string | JsonArray "json list"
  | JsonObject "(string \<times> json) list"

definition json_get :: "json \<Rightarrow> string \<Rightarrow> json option" where
  "json_get v k = (case v of JsonObject members \<Rightarrow> map_of members k | _ \<Rightarrow> None)"

definition json_str :: "json \<Rightarrow> string option" where
  "json_str v = (case v of JsonString s \<Rightarrow> Some s | _ \<Rightarrow> None)"

definition json_bool :: "json \<Rightarrow> bool option" where
  "json_bool v = (case v of JsonBool b \<Rightarrow> Some b | _ \<Rightarrow> None)"

definition json_option :: "('a \<Rightarrow> json) \<Rightarrow> 'a option \<Rightarrow> json" where
  "json_option f x = (case x of Some a \<Rightarrow> f a | None \<Rightarrow> JsonNull)"

definition json_nat :: "nat \<Rightarrow> json" where
  "json_nat n = JsonNumber (of_nat n)"

definition json_u32 :: "u32 \<Rightarrow> json" where
  "json_u32 n = json_nat (unat n)"

definition json_strings :: "string list \<Rightarrow> json" where
  "json_strings xs = JsonArray (map JsonString xs)"

text \<open>
  The derived decoders of a struct with the given fields: an object that repeats none of them, or an array that has
  them in order. A field that is missing is \<open>None\<close>; other members of an object are ignored.
\<close>

definition no_repeats :: "string list \<Rightarrow> (string \<times> json) list \<Rightarrow> bool" where
  "no_repeats ks ms = distinct (filter (\<lambda>k. k \<in> set ks) (map fst ms))"

definition struct_fields :: "string list \<Rightarrow> json \<Rightarrow> json option list option" where
  "struct_fields ks v =
     (case v of
        JsonObject ms \<Rightarrow> if no_repeats ks ms then Some (map (map_of ms) ks) else None
      | JsonArray xs \<Rightarrow>
          if length xs \<le> length ks then Some (map Some xs @ replicate (length ks - length xs) None) else None
      | _ \<Rightarrow> None)"

text \<open>The values of a field of type \<open>String\<close>, and of one of type \<open>Option<String>\<close> with a default.\<close>

definition string_field :: "json option \<Rightarrow> string option" where
  "string_field x = Option.bind x json_str"

definition optional_string_field :: "json option \<Rightarrow> string option option" where
  "optional_string_field x =
     (case x of None \<Rightarrow> Some None | Some JsonNull \<Rightarrow> Some None | Some v \<Rightarrow> map_option Some (json_str v))"

lemma json_get_object [simp]: "json_get (JsonObject ms) k = map_of ms k"
  by (simp add: json_get_def)

end
