(* ===== verification/Crust_Bench.thy ===== *)
theory Crust_Bench
  imports Bench_Projects Task_Routing Json_Value
begin

text \<open>
  The benchmark runner (\<open>crates/noricum-cli/src/crust_bench.rs\<close>): cargo in the working copy of a project, the
  implementations on disk, the run of a project with its translation and its two repair loops, and the report.
\<close>

section \<open>Cargo\<close>

text \<open>
  Processes in a directory: the build, the tests, the list of test binaries and one binary. Each gives the
  error of the start or whether it succeeded, with its output. \<open>parse_json\<close> is that of the package.
\<close>

record bench_cargo =
  cargo_build :: "string \<Rightarrow> disk \<Rightarrow> (string, bool \<times> string) result"
  cargo_test :: "string \<Rightarrow> disk \<Rightarrow> (string, bool \<times> string \<times> string) result"
  cargo_test_no_run :: "string \<Rightarrow> disk \<Rightarrow> (string, string) result"
  run_binary :: "string \<Rightarrow> string \<Rightarrow> disk \<Rightarrow> (string, bool \<times> string \<times> string) result"
  parse_json :: "string \<Rightarrow> json option"

definition run_cargo_test :: "bench_cargo \<Rightarrow> string \<Rightarrow> disk \<Rightarrow> bool \<times> string" where
  "run_cargo_test cg dir d =
     (case cargo_test cg dir d of
        Inr (ok, out, err) \<Rightarrow> (ok, err @ [newline] @ out)
      | Inl e \<Rightarrow> (False, ''Failed to run cargo test: '' @ e))"

definition run_cargo_build :: "bench_cargo \<Rightarrow> string \<Rightarrow> disk \<Rightarrow> bool \<times> string" where
  "run_cargo_build cg dir d =
     (case cargo_build cg dir d of
        Inr (ok, err) \<Rightarrow> (ok, err)
      | Inl e \<Rightarrow> (False, ''Failed to run cargo build: '' @ e))"

definition test_executable :: "json \<Rightarrow> string option" where
  "test_executable v =
     Option.bind (Option.bind (json_get v ''reason'') json_str) (\<lambda>reason.
       if reason \<noteq> ''compiler-artifact'' then None
       else Option.bind (Option.bind (Option.bind (json_get v ''profile'') (\<lambda>p. json_get p ''test'')) json_bool)
              (\<lambda>test. if test then Option.bind (json_get v ''executable'') json_str else None))"

definition test_binaries :: "bench_cargo \<Rightarrow> string \<Rightarrow> disk \<Rightarrow> string list" where
  "test_binaries cg dir d =
     (case cargo_test_no_run cg dir d of
        Inr out \<Rightarrow> List.map_filter (\<lambda>line. Option.bind (parse_json cg line) test_executable) (lines out)
      | Inl _ \<Rightarrow> [])"

definition binary_name :: "string \<Rightarrow> string" where
  "binary_name p = (case find_char (rev p) (CHR ''/'') of None \<Rightarrow> p | Some k \<Rightarrow> drop (length p - k) p)"

definition run_test_binary :: "bench_cargo \<Rightarrow> string \<Rightarrow> disk \<Rightarrow> string \<Rightarrow> test_binary_result" where
  "run_test_binary cg dir d bin =
     (let nm = binary_name bin; heading = ''--- '' @ nm @ '' ---'' @ [newline]
      in case run_binary cg bin dir d of
           Inr (ok, out, err) \<Rightarrow>
             \<lparr>tb_name = nm, tb_passed = ok, tb_output = heading @ err @ [newline] @ out @ [newline]\<rparr>
         | Inl e \<Rightarrow>
             \<lparr>tb_name = nm, tb_passed = False, tb_output = heading @ ''Failed to run: '' @ e @ [newline]\<rparr>)"

definition run_cargo_test_per_binary ::
  "bench_cargo \<Rightarrow> string \<Rightarrow> disk \<Rightarrow> bool \<times> string \<times> test_binary_result list" where
  "run_cargo_test_per_binary cg dir d =
     (let bins = test_binaries cg dir d
      in if bins = [] then (let (ok, out) = run_cargo_test cg dir d in (ok, out, []))
         else (let rs = map (run_test_binary cg dir d) bins
               in (list_all tb_passed rs, concat (map tb_output rs), rs)))"

section \<open>Implementations on disk\<close>

definition impl_path :: "string \<Rightarrow> string \<Rightarrow> string" where
  "impl_path workdir nm = path_join (path_join workdir ''src'') nm"

definition file_part :: "string \<Rightarrow> string \<Rightarrow> string" where
  "file_part nm text = ''// === '' @ nm @ '' ==='' @ [newline] @ text"

definition add_impl ::
  "(string \<Rightarrow> (string, string) result) \<Rightarrow> string \<Rightarrow> disk \<Rightarrow> string \<Rightarrow> string \<Rightarrow> string" where
  "add_impl readable workdir d nm combined =
     (case Option.bind (files d (impl_path workdir nm)) (\<lambda>c. ok_result (readable c)) of
        Some text \<Rightarrow> (if combined \<noteq> [] then combined @ [newline, newline] else combined) @ file_part nm text
      | None \<Rightarrow> combined)"

definition read_current_impls ::
  "(string \<Rightarrow> (string, string) result) \<Rightarrow> string \<Rightarrow> rust_interface list \<Rightarrow> disk \<Rightarrow> string" where
  "read_current_impls readable workdir fs d = fold (\<lambda>f. add_impl readable workdir d (fst f)) fs []"

text \<open>A write whose error is ignored.\<close>

definition try_write :: "string \<Rightarrow> string \<Rightarrow> disk \<Rightarrow> disk" where
  "try_write p text d = (if write_fault d p = None then d\<lparr>files := (files d)(p \<mapsto> text)\<rparr> else d)"

definition write_impls :: "string \<Rightarrow> (string \<times> string) list \<Rightarrow> disk \<Rightarrow> disk" where
  "write_impls workdir parsed d = fold (\<lambda>(nm, text). try_write (impl_path workdir nm) text) parsed d"

definition write_and_read_impls ::
  "(string \<Rightarrow> (string, string) result) \<Rightarrow> string \<Rightarrow> (string \<times> string) list \<Rightarrow> rust_interface list \<Rightarrow> disk
   \<Rightarrow> string \<times> disk" where
  "write_and_read_impls readable workdir parsed fs d =
     (let d' = write_impls workdir parsed d in (read_current_impls readable workdir fs d', d'))"

section \<open>A project\<close>

record project_result =
  br_name :: string
  br_c_loc :: u32
  br_rust_loc :: u32
  br_compilation_success :: bool
  br_tests_passed :: bool
  br_test_output :: "string option"
  br_idiomatic_score :: rat
  br_unsafe_count :: u32
  br_repair_iterations :: u32
  br_llm_calls :: u32
  br_total_ms :: u64
  br_error :: "string option"

text \<open>
  What a run uses: the text of contents, cargo, the counter of unsafe blocks, the constructors of the clients and
  their calls, the two system prompts, the directory for temporary files, and the time a project takes.
\<close>

record ('c, 'exe) bench_env =
  be_readable :: "string \<Rightarrow> (string, string) result"
  be_cargo :: bench_cargo
  be_workbench :: "'exe workbench"
  be_makers :: "'c client_makers"
  be_call :: "'c backend \<Rightarrow> llm_client"
  be_translation_preamble :: string
  be_repair_preamble :: string
  be_temp_dir :: string
  be_elapsed :: "string \<Rightarrow> u64"

definition make_error_result :: "string \<Rightarrow> u32 \<Rightarrow> u64 \<Rightarrow> u32 \<Rightarrow> string \<Rightarrow> project_result" where
  "make_error_result nm c_loc elapsed calls e =
     \<lparr>br_name = nm, br_c_loc = c_loc, br_rust_loc = 0, br_compilation_success = False, br_tests_passed = False,
      br_test_output = None, br_idiomatic_score = 0, br_unsafe_count = 0, br_repair_iterations = 0,
      br_llm_calls = calls, br_total_ms = elapsed, br_error = Some e\<rparr>"

definition bench_provider_config :: "provider_settings \<Rightarrow> provider_config" where
  "bench_provider_config s =
     \<lparr>primary_provider = unwrap_or (ps_primary s) ''auto'', anthropic_api_key = ps_anthropic_key s,
      deepseek_api_key = ps_deepseek_key s, ollama_url = default_ollama_url,
      ollama_model = unwrap_or (ps_ollama_model s) default_ollama_model,
      ollama_num_ctx = unwrap_or (ps_num_ctx s) default_num_ctx\<rparr>"

definition bench_create_client :: "'c client_makers \<Rightarrow> provider_settings \<Rightarrow> (string, 'c backend) result" where
  "bench_create_client mk s =
     (case create_llm_client mk (bench_provider_config s) of
        Inl e \<Rightarrow> Inl (''failed to create LLM client: '' @ show_agent_error e) | Inr c \<Rightarrow> Inr c)"

text \<open>The locals of a run that change: the disk, the number of the next call, and the mutable variables.\<close>

record bench_state =
  bs_disk :: disk
  bs_next_call :: nat
  bs_llm_calls :: u32
  bs_repairs :: u32
  bs_impl :: string
  bs_errors :: string
  bs_compiled :: bool
  bs_passed :: bool
  bs_test_output :: "string option"

text \<open>What stays the same in a run.\<close>

record bench_task =
  bt_workdir :: string
  bt_c_source :: string
  bt_c_loc :: u32
  bt_interfaces :: "rust_interface list"
  bt_settings :: provider_settings
  bt_max_repairs :: u32

definition bench_select_model :: "provider_settings \<Rightarrow> u32 \<Rightarrow> string" where
  "bench_select_model s loc = bench_model 300 1500 (ps_ollama_model s) (ps_primary s) loc"

definition select_module_model :: "provider_settings \<Rightarrow> u32 \<Rightarrow> string" where
  "select_module_model s loc = bench_model 100 500 (ps_ollama_model s) (ps_primary s) loc"

text \<open>A call of the client, and its two counters.\<close>

definition bench_call :: "llm_client \<Rightarrow> prompt \<Rightarrow> bench_state \<Rightarrow> (agent_error, string) result \<times> bench_state" where
  "bench_call llm p st =
     (llm (bs_next_call st) p, st\<lparr>bs_next_call := Suc (bs_next_call st), bs_llm_calls := bs_llm_calls st + 1\<rparr>)"

definition module_prompt :: "('c, 'exe) bench_env \<Rightarrow> bench_task \<Rightarrow> nat \<Rightarrow> rust_interface \<Rightarrow> prompt" where
  "module_prompt env t idx target =
     \<lparr>pr_model = select_module_model (bt_settings t) (bench_line_count (snd target)),
      pr_preamble = be_translation_preamble env, pr_temperature = 3/10,
      pr_max_tokens = clamp_between 4096 32768 (length (snd target)),
      pr_message = build_single_module_prompt (bt_c_source t) target
        (take idx (bt_interfaces t) @ drop (Suc idx) (bt_interfaces t))\<rparr>"

definition translate_bench_module ::
  "('c, 'exe) bench_env \<Rightarrow> llm_client \<Rightarrow> bench_task \<Rightarrow> nat \<times> rust_interface \<Rightarrow> bench_state \<Rightarrow> bench_state" where
  "translate_bench_module env llm t e st =
     (case bench_call llm (module_prompt env t (fst e) (snd e)) st of
        (Inr response, st') \<Rightarrow>
          st'\<lparr>bs_disk := try_write (impl_path (bt_workdir t) (fst (snd e))) (extract_rust_code response) (bs_disk st')\<rparr>
      | (Inl _, st') \<Rightarrow> st')"

definition translate_modules ::
  "('c, 'exe) bench_env \<Rightarrow> llm_client \<Rightarrow> bench_task \<Rightarrow> bench_state \<Rightarrow> bench_state" where
  "translate_modules env llm t st = fold (translate_bench_module env llm t) (enumerate 0 (bt_interfaces t)) st"

definition project_tokens :: "bench_task \<Rightarrow> u64" where
  "project_tokens t = clamp_between 8192 65536 (length (bt_c_source t))"

definition project_prompt :: "('c, 'exe) bench_env \<Rightarrow> bench_task \<Rightarrow> prompt" where
  "project_prompt env t =
     \<lparr>pr_model = bench_select_model (bt_settings t) (bt_c_loc t), pr_preamble = be_translation_preamble env,
      pr_temperature = 3/10, pr_max_tokens = project_tokens t,
      pr_message = build_translation_prompt (bt_c_source t) (bt_interfaces t)\<rparr>"

text \<open>The translation in one call; a failed call ends the project.\<close>

definition translate_whole ::
  "('c, 'exe) bench_env \<Rightarrow> llm_client \<Rightarrow> bench_task \<Rightarrow> bench_state \<Rightarrow> agent_error option \<times> bench_state" where
  "translate_whole env llm t st =
     (case bench_call llm (project_prompt env t) st of
        (Inl e, st') \<Rightarrow> (Some e, st')
      | (Inr translation, st') \<Rightarrow>
          (let parsed = parse_multi_file_output translation (bt_interfaces t);
               d1 = write_impls (bt_workdir t) parsed (bs_disk st');
               d2 = (case (parsed, bt_interfaces t) of
                       ([], f # _) \<Rightarrow> try_write (impl_path (bt_workdir t) (fst f)) (extract_rust_code translation) d1
                     | _ \<Rightarrow> d1)
           in (None, st'\<lparr>bs_disk := d2\<rparr>)))"

section \<open>The repair loops\<close>

definition bench_temperature :: "u32 \<Rightarrow> rat" where
  "bench_temperature i = 3/10 + (of_nat (unat i) - 1) * (1/10)"

definition repair_call_prompt :: "('c, 'exe) bench_env \<Rightarrow> bench_task \<Rightarrow> u32 \<Rightarrow> string \<Rightarrow> prompt" where
  "repair_call_prompt env t i message =
     \<lparr>pr_model = bench_select_model (bt_settings t) (bt_c_loc t), pr_preamble = be_repair_preamble env,
      pr_temperature = bench_temperature i, pr_max_tokens = project_tokens t, pr_message = message\<rparr>"

text \<open>An answer is written to the files of the project, which are read again.\<close>

definition apply_answer :: "('c, 'exe) bench_env \<Rightarrow> bench_task \<Rightarrow> string \<Rightarrow> bench_state \<Rightarrow> bench_state" where
  "apply_answer env t response st =
     (let (text, d) = write_and_read_impls (be_readable env) (bt_workdir t)
                        (parse_multi_file_output response (bt_interfaces t)) (bt_interfaces t) (bs_disk st)
      in st\<lparr>bs_disk := d, bs_impl := text\<rparr>)"

definition check_build :: "('c, 'exe) bench_env \<Rightarrow> bench_task \<Rightarrow> bench_state \<Rightarrow> bool \<times> string" where
  "check_build env t st = run_cargo_build (be_cargo env) (bt_workdir t) (bs_disk st)"

fun build_repairs ::
  "('c, 'exe) bench_env \<Rightarrow> llm_client \<Rightarrow> bench_task \<Rightarrow> u32 list \<Rightarrow> bench_state \<Rightarrow> bench_state" where
  "build_repairs env llm t [] st = st"
| "build_repairs env llm t (i # is) st =
     (let message = build_bench_repair_prompt (bt_c_source t) (bt_interfaces t) (bs_impl st) (bs_errors st) i
                      (bt_max_repairs t)
      in case bench_call llm (repair_call_prompt env t i message) (st\<lparr>bs_repairs := i\<rparr>) of
           (Inl _, st') \<Rightarrow> st'
         | (Inr response, st') \<Rightarrow>
             (let st2 = apply_answer env t response st'; (ok, errors) = check_build env t st2;
                  st3 = st2\<lparr>bs_compiled := ok, bs_errors := errors\<rparr>
              in if ok then st3 else build_repairs env llm t is st3))"

definition test_repair_message ::
  "bench_task \<Rightarrow> test_binary_result list \<Rightarrow> string \<Rightarrow> u32 \<Rightarrow> bench_state \<Rightarrow> string" where
  "test_repair_message t failed_binaries test_out i st =
     (let failed_only = filter (\<lambda>b. \<not> tb_passed b) failed_binaries
      in if failed_only \<noteq> []
         then build_targeted_repair_prompt (bt_c_source t) (bt_interfaces t) (bs_impl st) failed_only i (bt_max_repairs t)
         else build_bench_repair_prompt (bt_c_source t) (bt_interfaces t) (bs_impl st) test_out i (bt_max_repairs t))"

text \<open>The offsets of the loop are added to the number of repairs so far, which the loop changes itself.\<close>

fun test_repairs ::
  "('c, 'exe) bench_env \<Rightarrow> llm_client \<Rightarrow> bench_task \<Rightarrow> test_binary_result list \<Rightarrow> string \<Rightarrow> u32 list \<Rightarrow> bench_state
   \<Rightarrow> bench_state" where
  "test_repairs env llm t failed_binaries test_out [] st = st"
| "test_repairs env llm t failed_binaries test_out (offset # is) st =
     (let i = bs_repairs st + offset
      in case bench_call llm (repair_call_prompt env t i (test_repair_message t failed_binaries test_out i st))
                (st\<lparr>bs_repairs := i\<rparr>) of
           (Inl _, st') \<Rightarrow> st'
         | (Inr response, st') \<Rightarrow>
             (let st2 = apply_answer env t response st'; (ok, errors) = check_build env t st2
              in if \<not> ok
                 then test_repairs env llm t failed_binaries test_out is (st2\<lparr>bs_errors := errors, bs_compiled := False\<rparr>)
                 else
                   (let (tests_ok, out, _) = run_cargo_test_per_binary (be_cargo env) (bt_workdir t) (bs_disk st2);
                        st3 = st2\<lparr>bs_compiled := True, bs_passed := tests_ok, bs_test_output := Some out\<rparr>
                    in if tests_ok then st3
                       else test_repairs env llm t failed_binaries test_out is (st3\<lparr>bs_errors := out\<rparr>))))"

definition counting :: "u32 \<Rightarrow> u32 list" where
  "counting n = map of_nat [1..<Suc (unat n)]"

definition build_phase :: "('c, 'exe) bench_env \<Rightarrow> llm_client \<Rightarrow> bench_task \<Rightarrow> bench_state \<Rightarrow> bench_state" where
  "build_phase env llm t st =
     (let st1 = st\<lparr>bs_impl := read_current_impls (be_readable env) (bt_workdir t) (bt_interfaces t) (bs_disk st)\<rparr>;
          (ok, errors) = check_build env t st1;
          st2 = st1\<lparr>bs_errors := errors, bs_compiled := ok\<rparr>
      in if ok then st2 else build_repairs env llm t (counting (bt_max_repairs t)) st2)"

definition test_phase :: "('c, 'exe) bench_env \<Rightarrow> llm_client \<Rightarrow> bench_task \<Rightarrow> bench_state \<Rightarrow> bench_state" where
  "test_phase env llm t st =
     (if \<not> bs_compiled st then st
      else
        (let (tests_ok, out, failed_binaries) = run_cargo_test_per_binary (be_cargo env) (bt_workdir t) (bs_disk st);
             st1 = st\<lparr>bs_passed := tests_ok, bs_test_output := Some out\<rparr>
         in if tests_ok then st1
            else test_repairs env llm t failed_binaries out
                   (counting (saturating_sub (bt_max_repairs t) (bs_repairs st))) st1))"

definition bench_score :: "bool \<Rightarrow> bool \<Rightarrow> u32 \<Rightarrow> rat" where
  "bench_score built tests_ok unsafes =
     (let base = 100 - of_nat (unat unsafes) * 10
      in if built then (if tests_ok then max base 0 else max (base / 2) 0) else 0)"

definition bench_result :: "('c, 'exe) bench_env \<Rightarrow> string \<Rightarrow> u32 \<Rightarrow> bench_state \<Rightarrow> project_result" where
  "bench_result env nm c_loc st =
     (let unsafes = count_unsafe_blocks (be_workbench env) (bs_impl st)
      in \<lparr>br_name = nm, br_c_loc = c_loc, br_rust_loc = bench_line_count (bs_impl st),
          br_compilation_success = bs_compiled st, br_tests_passed = bs_passed st,
          br_test_output = bs_test_output st, br_idiomatic_score = bench_score (bs_compiled st) (bs_passed st) unsafes,
          br_unsafe_count = unsafes, br_repair_iterations = bs_repairs st, br_llm_calls = bs_llm_calls st,
          br_total_ms = be_elapsed env nm,
          br_error = (if bs_compiled st then None else Some (bs_errors st))\<rparr>)"

definition bench_start :: "disk \<Rightarrow> nat \<Rightarrow> bench_state" where
  "bench_start d k =
     \<lparr>bs_disk = d, bs_next_call = k, bs_llm_calls = 0, bs_repairs = 0, bs_impl = [], bs_errors = [],
      bs_compiled = False, bs_passed = False, bs_test_output = None\<rparr>"

text \<open>The translation of a project and the phases behind it.\<close>

definition bench_translate ::
  "('c, 'exe) bench_env \<Rightarrow> llm_client \<Rightarrow> bench_task \<Rightarrow> bench_state \<Rightarrow> agent_error option \<times> bench_state" where
  "bench_translate env llm t st =
     (if 1 < length (bt_interfaces t) then (None, translate_modules env llm t st) else translate_whole env llm t st)"

definition run_task ::
  "('c, 'exe) bench_env \<Rightarrow> llm_client \<Rightarrow> bench_task \<Rightarrow> string \<Rightarrow> bench_state \<Rightarrow> project_result \<times> nat \<times> disk" where
  "run_task env llm t nm st =
     (case bench_translate env llm t st of
        (Some e, st') \<Rightarrow>
          (make_error_result nm (bt_c_loc t) (be_elapsed env nm) 1 (''translation failed: '' @ show_agent_error e),
           bs_next_call st', bs_disk st')
      | (None, st') \<Rightarrow>
          (let st2 = test_phase env llm t (build_phase env llm t st')
           in (bench_result env nm (bt_c_loc t) st2, bs_next_call st2, bs_disk st2)))"

definition bench_workdir :: "('c, 'exe) bench_env \<Rightarrow> string \<Rightarrow> string" where
  "bench_workdir env nm = path_join (path_join (be_temp_dir env) ''noricum-crust-bench'') nm"

definition bench_task_of :: "string \<Rightarrow> string \<Rightarrow> u32 \<Rightarrow> rust_interface list \<Rightarrow> provider_settings \<Rightarrow> bench_task" where
  "bench_task_of workdir c_src c_loc fs settings =
     \<lparr>bt_workdir = workdir, bt_c_source = c_src, bt_c_loc = c_loc, bt_interfaces = fs, bt_settings = settings,
      bt_max_repairs = effective_max_repairs (length fs) c_loc\<rparr>"

definition run_project ::
  "('c, 'exe) bench_env \<Rightarrow> provider_settings \<Rightarrow> crust_project \<Rightarrow> nat \<Rightarrow> disk \<Rightarrow> project_result \<times> nat \<times> disk" where
  "run_project env settings p k d =
     (let nm = cp_name p; elapsed = be_elapsed env nm; workdir = bench_workdir env nm
      in case read_c_sources (be_readable env) (cp_cbench_path p) (cp_cbench p) of
           Inl e \<Rightarrow> (make_error_result nm 0 elapsed 0 e, k, d)
         | Inr c_src \<Rightarrow>
             (let c_loc = bench_line_count c_src
              in case read_interface_skeletons (be_readable env) (cp_rbench_path p) (cp_rbench p) of
                   Inl e \<Rightarrow> (make_error_result nm c_loc elapsed 0 e, k, d)
                 | Inr fs \<Rightarrow>
                     (case copy_rbench_to_workdir (cp_rbench p) workdir (remove_dir_all workdir d) of
                        (Some e, d1) \<Rightarrow> (make_error_result nm c_loc elapsed 0 (''copy failed: '' @ e), k, d1)
                      | (None, d1) \<Rightarrow>
                          (case bench_create_client (be_makers env) settings of
                             Inl e \<Rightarrow> (make_error_result nm c_loc elapsed 0 (''no LLM: '' @ e), k, d1)
                           | Inr c \<Rightarrow>
                               run_task env (be_call env c) (bench_task_of workdir c_src c_loc fs settings) nm
                                 (bench_start d1 k)))))"

section \<open>The report\<close>

record crust_report =
  cr_total_projects :: nat
  cr_compilation_rate :: rat
  cr_test_pass_rate :: rat
  cr_avg_score :: rat
  cr_total_calls :: u32
  cr_total_repairs :: u32
  cr_projects :: "project_result list"

fun run_projects ::
  "('c, 'exe) bench_env \<Rightarrow> provider_settings \<Rightarrow> crust_project list \<Rightarrow> nat \<Rightarrow> disk \<Rightarrow> project_result list" where
  "run_projects env settings [] k d = []"
| "run_projects env settings (p # ps) k d =
     (case run_project env settings p k d of (r, k', d') \<Rightarrow> r # run_projects env settings ps k' d')"

definition rate :: "nat \<Rightarrow> nat \<Rightarrow> rat" where
  "rate n whole = (if 0 < whole then of_nat n / of_nat whole else 0)"

definition crust_report_of :: "project_result list \<Rightarrow> crust_report" where
  "crust_report_of rs =
     \<lparr>cr_total_projects = length rs,
      cr_compilation_rate = rate (length (filter br_compilation_success rs)) (length rs),
      cr_test_pass_rate = rate (length (filter br_tests_passed rs)) (length rs),
      cr_avg_score = (if 0 < length rs then sum_list (map br_idiomatic_score rs) / of_nat (length rs) else 0),
      cr_total_calls = sum_list (map br_llm_calls rs), cr_total_repairs = sum_list (map br_repair_iterations rs),
      cr_projects = rs\<rparr>"

definition selected_projects :: "string option \<Rightarrow> nat option \<Rightarrow> crust_project list \<Rightarrow> crust_project list" where
  "selected_projects name_filter limit ps =
     (let kept = (case name_filter of Some f \<Rightarrow> filter (\<lambda>p. contains (cp_name p) f) ps | None \<Rightarrow> ps)
      in case limit of Some n \<Rightarrow> take n kept | None \<Rightarrow> kept)"

definition run_crust_bench ::
  "('c, 'exe) bench_env \<Rightarrow> provider_settings \<Rightarrow> string option \<Rightarrow> nat option \<Rightarrow> string \<Rightarrow> fs_node \<Rightarrow> disk
   \<Rightarrow> (string, crust_report) result" where
  "run_crust_bench env settings name_filter limit dataset_path dataset d =
     bind_result (discover_projects dataset_path dataset) (\<lambda>ps.
       Inr (crust_report_of (run_projects env settings (selected_projects name_filter limit ps) 0 d)))"

section \<open>The verdict\<close>

text \<open>What holds of the variables of a run and the disk: the outcome of the build is that of the files as they are.\<close>

definition verdict_holds :: "('c, 'exe) bench_env \<Rightarrow> bench_task \<Rightarrow> bench_state \<Rightarrow> bool" where
  "verdict_holds env t st =
     (bs_compiled st = fst (check_build env t st) \<and> (\<not> bs_compiled st \<longrightarrow> bs_errors st = snd (check_build env t st))
      \<and> (bs_passed st \<longrightarrow> bs_compiled st
           \<and> fst (run_cargo_test_per_binary (be_cargo env) (bt_workdir t) (bs_disk st))))"

lemma bench_call_frame:
  assumes "bench_call llm p st = (r, st')"
  shows "bs_disk st' = bs_disk st" "bs_compiled st' = bs_compiled st" "bs_passed st' = bs_passed st"
    "bs_errors st' = bs_errors st" "bs_repairs st' = bs_repairs st" "bs_next_call st' = Suc (bs_next_call st)"
    "bs_llm_calls st' = bs_llm_calls st + 1" "bs_impl st' = bs_impl st"
  using assms by (auto simp: bench_call_def)

lemma apply_answer_frame [simp]:
  "bs_passed (apply_answer env t a st) = bs_passed st" "bs_repairs (apply_answer env t a st) = bs_repairs st"
  "bs_next_call (apply_answer env t a st) = bs_next_call st" "bs_llm_calls (apply_answer env t a st) = bs_llm_calls st"
  by (simp_all add: apply_answer_def split: prod.splits)

lemma check_build_disk: "bs_disk st' = bs_disk st \<Longrightarrow> check_build env t st' = check_build env t st"
  by (simp add: check_build_def)

lemma build_repairs_verdict:
  assumes "verdict_holds env t st" "\<not> bs_passed st"
  shows "verdict_holds env t (build_repairs env llm t is st) \<and> \<not> bs_passed (build_repairs env llm t is st)"
  using assms
proof (induction "is" arbitrary: st)
  case Nil
  then show ?case by simp
next
  case (Cons i "is")
  define call where "call = bench_call llm (repair_call_prompt env t i
    (build_bench_repair_prompt (bt_c_source t) (bt_interfaces t) (bs_impl st) (bs_errors st) i (bt_max_repairs t)))
    (st\<lparr>bs_repairs := i\<rparr>)"
  obtain r st' where call: "call = (r, st')" by (cases call)
  note frame = bench_call_frame [OF call [unfolded call_def]]
  show ?case
  proof (cases r)
    case (Inl e)
    with Cons.prems call frame show ?thesis
      by (simp add: Let_def flip: call_def) (simp add: verdict_holds_def check_build_def)
  next
    case (Inr response)
    define st2 where "st2 = apply_answer env t response st'"
    obtain ok errors where build: "check_build env t st2 = (ok, errors)" by (cases "check_build env t st2")
    define st3 where "st3 = st2\<lparr>bs_compiled := ok, bs_errors := errors\<rparr>"
    have "check_build env t st3 = (ok, errors)" using build by (simp add: st3_def check_build_def)
    moreover have passed3: "\<not> bs_passed st3" using Cons.prems(2) frame(3) by (simp add: st3_def st2_def)
    ultimately have "verdict_holds env t st3" by (simp add: verdict_holds_def) (simp add: st3_def)
    moreover have "build_repairs env llm t (i # is) st = (if ok then st3 else build_repairs env llm t is st3)"
      using call Inr build by (cases ok) (simp_all add: Let_def st3_def flip: call_def st2_def)
    ultimately show ?thesis using Cons.IH [of st3] passed3 by simp
  qed
qed

lemma test_repairs_verdict:
  assumes "verdict_holds env t st" "\<not> bs_passed st"
  shows "verdict_holds env t (test_repairs env llm t failed out is st)"
  using assms
proof (induction "is" arbitrary: st)
  case Nil
  then show ?case by simp
next
  case (Cons offset "is")
  define i where "i = bs_repairs st + offset"
  define call where "call = bench_call llm (repair_call_prompt env t i (test_repair_message t failed out i st))
    (st\<lparr>bs_repairs := i\<rparr>)"
  obtain r st' where call: "call = (r, st')" by (cases call)
  note frame = bench_call_frame [OF call [unfolded call_def]]
  show ?case
  proof (cases r)
    case (Inl e)
    with Cons.prems call frame show ?thesis
      by (simp add: Let_def flip: i_def call_def) (simp add: verdict_holds_def check_build_def)
  next
    case (Inr response)
    define st2 where "st2 = apply_answer env t response st'"
    obtain ok errors where build: "check_build env t st2 = (ok, errors)" by (cases "check_build env t st2")
    obtain tests_ok tout rs where tests:
      "run_cargo_test_per_binary (be_cargo env) (bt_workdir t) (bs_disk st2) = (tests_ok, tout, rs)"
      by (cases "run_cargo_test_per_binary (be_cargo env) (bt_workdir t) (bs_disk st2)")
    define broken where "broken = st2\<lparr>bs_errors := errors, bs_compiled := False\<rparr>"
    define st3 where "st3 = st2\<lparr>bs_compiled := True, bs_passed := tests_ok, bs_test_output := Some tout\<rparr>"
    have step: "test_repairs env llm t failed out (offset # is) st =
        (if \<not> ok then test_repairs env llm t failed out is broken
         else if tests_ok then st3 else test_repairs env llm t failed out is (st3\<lparr>bs_errors := tout\<rparr>))"
      using call Inr build tests by (simp add: Let_def broken_def st3_def flip: i_def call_def st2_def)
    have passed2: "\<not> bs_passed st2" using Cons.prems(2) frame(3) by (simp add: st2_def)
    have same: "check_build env t broken = (ok, errors)" "check_build env t st3 = (ok, errors)"
      "check_build env t (st3\<lparr>bs_errors := tout\<rparr>) = (ok, errors)"
      using build by (simp_all add: broken_def st3_def check_build_def)
    have "verdict_holds env t broken \<and> \<not> bs_passed broken" if "\<not> ok"
      using that same(1) passed2 by (simp add: verdict_holds_def) (simp add: broken_def)
    moreover have "verdict_holds env t st3" if ok
      using that same(2) tests by (simp add: verdict_holds_def) (simp add: st3_def)
    moreover have "verdict_holds env t (st3\<lparr>bs_errors := tout\<rparr>)" if ok "\<not> tests_ok"
      using that same(3) by (simp add: verdict_holds_def) (simp add: st3_def)
    moreover have "\<not> tests_ok \<Longrightarrow> \<not> bs_passed (st3\<lparr>bs_errors := tout\<rparr>)" by (simp add: st3_def)
    ultimately show ?thesis using step Cons.IH by (cases ok; cases tests_ok) simp_all
  qed
qed

lemma phases_verdict:
  assumes "\<not> bs_passed st"
  shows "verdict_holds env t (test_phase env llm t (build_phase env llm t st))"
proof -
  define st1 where "st1 = st\<lparr>bs_impl := read_current_impls (be_readable env) (bt_workdir t) (bt_interfaces t) (bs_disk st)\<rparr>"
  obtain ok errors where build: "check_build env t st1 = (ok, errors)" by (cases "check_build env t st1")
  define st2 where "st2 = st1\<lparr>bs_errors := errors, bs_compiled := ok\<rparr>"
  have "check_build env t st2 = (ok, errors)" using build by (simp add: st2_def check_build_def)
  moreover have passed2: "\<not> bs_passed st2" using assms by (simp add: st2_def st1_def)
  ultimately have st2: "verdict_holds env t st2" by (simp add: verdict_holds_def) (simp add: st2_def)
  define st3 where "st3 = build_phase env llm t st"
  have "st3 = (if ok then st2 else build_repairs env llm t (counting (bt_max_repairs t)) st2)"
    using build by (cases ok) (simp_all add: st3_def st2_def build_phase_def Let_def flip: st1_def)
  with st2 passed2 build_repairs_verdict [OF st2 passed2]
  have st3: "verdict_holds env t st3" "\<not> bs_passed st3" by auto
  show ?thesis
  proof (cases "bs_compiled st3")
    case False
    with st3 show ?thesis by (simp add: test_phase_def st3_def)
  next
    case True
    obtain tests_ok out rs where tests:
      "run_cargo_test_per_binary (be_cargo env) (bt_workdir t) (bs_disk st3) = (tests_ok, out, rs)"
      by (cases "run_cargo_test_per_binary (be_cargo env) (bt_workdir t) (bs_disk st3)")
    define st4 where "st4 = st3\<lparr>bs_passed := tests_ok, bs_test_output := Some out\<rparr>"
    have "check_build env t st4 = check_build env t st3" by (simp add: st4_def check_build_def)
    then have "verdict_holds env t st4"
      using st3(1) True tests by (simp add: verdict_holds_def) (simp add: st4_def)
    moreover have "test_phase env llm t st3 =
        (if tests_ok then st4
         else test_repairs env llm t rs out (counting (saturating_sub (bt_max_repairs t) (bs_repairs st3))) st4)"
      using True tests by (cases tests_ok) (simp_all add: test_phase_def st4_def Let_def)
    moreover have "\<not> tests_ok \<Longrightarrow> \<not> bs_passed st4" by (simp add: st4_def)
    ultimately show ?thesis using test_repairs_verdict [of env t st4] by (cases tests_ok) (simp_all flip: st3_def)
  qed
qed

lemma translated_not_passed:
  assumes "bench_translate env llm t st = (e, st')"
  shows "bs_passed st' = bs_passed st"
proof -
  have "bs_passed (translate_bench_module env llm t x s) = bs_passed s" for x s
    by (auto simp: translate_bench_module_def bench_call_def split: sum.splits)
  then have "bs_passed (fold (translate_bench_module env llm t) xs s) = bs_passed s" for xs s
    by (induction xs arbitrary: s) simp_all
  moreover have "translate_whole env llm t s = (e, s') \<Longrightarrow> bs_passed s' = bs_passed s" for s s'
    by (auto simp: translate_whole_def bench_call_def Let_def split: sum.splits)
  ultimately show ?thesis using assms by (auto simp: bench_translate_def translate_modules_def split: if_splits)
qed

lemma bench_score_bounds: "0 \<le> bench_score built tests_ok n \<and> bench_score built tests_ok n \<le> 100"
proof -
  have "0 \<le> (of_nat (unat n) :: rat)" by (rule of_nat_0_le_iff)
  then show ?thesis unfolding bench_score_def Let_def by (auto simp: max_def simp del: of_nat_unat)
qed

lemma bench_result_fields [simp]:
  "br_compilation_success (bench_result env nm loc st) = bs_compiled st"
  "br_tests_passed (bench_result env nm loc st) = bs_passed st"
  "br_error (bench_result env nm loc st) = (if bs_compiled st then None else Some (bs_errors st))"
  "br_idiomatic_score (bench_result env nm loc st)
    = bench_score (bs_compiled st) (bs_passed st) (count_unsafe_blocks (be_workbench env) (bs_impl st))"
  by (simp_all add: bench_result_def Let_def)

lemma bench_score_broken [simp]: "bench_score False tests_ok n = 0"
  by (simp add: bench_score_def)

text \<open>A project ends with an error result, or with the outcome of the two phases.\<close>

definition bench_failed :: "project_result \<Rightarrow> bool" where
  "bench_failed r =
     (\<not> br_compilation_success r \<and> \<not> br_tests_passed r \<and> br_error r \<noteq> None \<and> br_idiomatic_score r = 0
      \<and> br_repair_iterations r = 0)"

lemma make_error_result_failed: "bench_failed (make_error_result nm loc el n e)"
  by (simp add: bench_failed_def make_error_result_def)

lemma make_error_result_calls [simp]: "br_llm_calls (make_error_result nm loc el n e) = n"
  by (simp add: make_error_result_def)

lemma run_task_cases:
  assumes "run_task env llm t nm st = (r, k', d')" "\<not> bs_passed st"
  obtains e st1 where "bench_failed r" "bench_translate env llm t st = (Some e, st1)" "br_llm_calls r = 1"
      "d' = bs_disk st1" "k' = bs_next_call st1"
    | st1 st2 where "bench_translate env llm t st = (None, st1)" "st2 = test_phase env llm t (build_phase env llm t st1)"
        "verdict_holds env t st2" "r = bench_result env nm (bt_c_loc t) st2" "k' = bs_next_call st2" "d' = bs_disk st2"
proof (cases "bench_translate env llm t st")
  case (Pair e st1)
  show ?thesis
  proof (cases e)
    case None
    with assms Pair phases_verdict [of st1 env t llm] translated_not_passed [OF Pair] show ?thesis
      by (intro that(2) [of st1]) (auto simp: run_task_def Let_def)
  next
    case (Some x)
    with assms Pair show ?thesis
      by (intro that(1)) (auto simp: run_task_def make_error_result_failed)
  qed
qed

lemma run_project_cases:
  assumes "run_project env settings p k d = (r, k', d')"
  obtains "bench_failed r" "k' = k" "br_llm_calls r = 0"
    | fs c_src c d1 where "read_interface_skeletons (be_readable env) (cp_rbench_path p) (cp_rbench p) = Inr fs"
        "read_c_sources (be_readable env) (cp_cbench_path p) (cp_cbench p) = Inr c_src"
        "run_task env (be_call env c) (bench_task_of (bench_workdir env (cp_name p)) c_src (bench_line_count c_src) fs settings)
           (cp_name p) (bench_start d1 k) = (r, k', d')"
proof (cases "read_c_sources (be_readable env) (cp_cbench_path p) (cp_cbench p)")
  case (Inl e)
  with assms show ?thesis by (intro that(1)) (auto simp: run_project_def Let_def make_error_result_failed)
next
  case c_src: (Inr c_src)
  show ?thesis
  proof (cases "read_interface_skeletons (be_readable env) (cp_rbench_path p) (cp_rbench p)")
    case (Inl e)
    with assms c_src show ?thesis by (intro that(1)) (auto simp: run_project_def Let_def make_error_result_failed)
  next
    case fs: (Inr fs)
    let ?w = "bench_workdir env (cp_name p)"
    obtain e d1 where copy: "copy_rbench_to_workdir (cp_rbench p) ?w (remove_dir_all ?w d) = (e, d1)"
      by (cases "copy_rbench_to_workdir (cp_rbench p) ?w (remove_dir_all ?w d)")
    show ?thesis
    proof (cases e)
      case (Some x)
      with assms c_src fs copy show ?thesis
        by (intro that(1)) (auto simp: run_project_def Let_def make_error_result_failed)
    next
      case None
      with assms c_src fs copy show ?thesis
        by (cases "bench_create_client (be_makers env) settings")
          (auto simp: run_project_def Let_def make_error_result_failed intro: that)
    qed
  qed
qed

text \<open>
  C29: The verdict on a project is that of its files. When a project of the benchmark is reported as built, cargo
  builds the directory as the run leaves it; when it is reported as passing, it is reported as built and all its test
  binaries pass there; and a project that is not built has an error and no score.
\<close>

theorem bench_verdict:
  assumes "run_project env settings p k d = (r, k', d')"
  shows "(br_compilation_success r \<longrightarrow>
        fst (run_cargo_build (be_cargo env) (bench_workdir env (cp_name p)) d') \<and> br_error r = None)
    \<and> (br_tests_passed r \<longrightarrow> br_compilation_success r
        \<and> fst (run_cargo_test_per_binary (be_cargo env) (bench_workdir env (cp_name p)) d'))
    \<and> (\<not> br_compilation_success r \<longrightarrow> br_error r \<noteq> None \<and> br_idiomatic_score r = 0)"
  using assms
proof (cases rule: run_project_cases)
  case 1
  then show ?thesis by (simp add: bench_failed_def)
next
  case (2 fs c_src c d1)
  have "\<not> bs_passed (bench_start d1 k)" by (simp add: bench_start_def)
  from 2(3) this show ?thesis
  proof (cases rule: run_task_cases)
    case 1
    then show ?thesis by (simp add: bench_failed_def)
  next
    case (2 st1 st2)
    from 2(3) have "bs_compiled st2 = fst (run_cargo_build (be_cargo env) (bench_workdir env (cp_name p)) (bs_disk st2))"
      "bs_passed st2 \<longrightarrow> bs_compiled st2
        \<and> fst (run_cargo_test_per_binary (be_cargo env) (bench_workdir env (cp_name p)) (bs_disk st2))"
      by (auto simp: verdict_holds_def check_build_def bench_task_of_def)
    with 2(4,6) show ?thesis by simp
  qed
qed

lemma run_project_grades:
  assumes "run_project env settings p k d = (r, k', d')"
  shows "(br_tests_passed r \<longrightarrow> br_compilation_success r) \<and> 0 \<le> br_idiomatic_score r \<and> br_idiomatic_score r \<le> 100"
  using assms
proof (cases rule: run_project_cases)
  case 1
  then show ?thesis by (simp add: bench_failed_def)
next
  case (2 fs c_src c d1)
  have "\<not> bs_passed (bench_start d1 k)" by (simp add: bench_start_def)
  from 2(3) this show ?thesis
  proof (cases rule: run_task_cases)
    case 1
    then show ?thesis by (simp add: bench_failed_def)
  next
    case (2 st1 st2)
    from 2(3) have "bs_passed st2 \<longrightarrow> bs_compiled st2" unfolding verdict_holds_def by blast
    with 2(4) show ?thesis by (simp add: bench_score_bounds)
  qed
qed

lemma run_projects_grades:
  "r \<in> set (run_projects env settings ps k d)
   \<Longrightarrow> (br_tests_passed r \<longrightarrow> br_compilation_success r) \<and> 0 \<le> br_idiomatic_score r \<and> br_idiomatic_score r \<le> 100"
proof (induction ps arbitrary: k d)
  case Nil
  then show ?case by simp
next
  case (Cons p ps)
  obtain r' k' d' where "run_project env settings p k d = (r', k', d')" by (cases "run_project env settings p k d")
  with Cons run_project_grades [OF this] show ?case by auto
qed

lemma length_run_projects: "length (run_projects env settings ps k d) = length ps"
  by (induction ps arbitrary: k d) (simp_all split: prod.splits)

lemma rate_mono: "n \<le> m \<Longrightarrow> rate n whole \<le> rate m whole"
  by (simp add: rate_def divide_right_mono)

lemma rate_bounds: "n \<le> whole \<Longrightarrow> 0 \<le> rate n whole \<and> rate n whole \<le> 1"
  by (simp add: rate_def)

lemma filter_shorter: "(\<And>x. x \<in> set xs \<Longrightarrow> P x \<Longrightarrow> Q x) \<Longrightarrow> length (filter P xs) \<le> length (filter Q xs)"
  by (induction xs) (auto simp: le_SucI)

lemma average_bounds:
  assumes "\<And>x. x \<in> set xs \<Longrightarrow> 0 \<le> f x \<and> f x \<le> (100::rat)"
  shows "0 \<le> sum_list (map f xs) \<and> sum_list (map f xs) \<le> 100 * of_nat (length xs)"
  using assms by (induction xs) (auto simp: algebra_simps, force intro: add_mono)

text \<open>
  The figures of a report are consistent. It has one result for each selected project; the share of
  projects that pass their tests is at most the share that is built, both are rates between 0 and 1, and the average
  score is between 0 and 100, also when no project is selected.
\<close>

theorem bench_report_consistent:
  assumes "run_crust_bench env settings name_filter limit dataset_path dataset d = Inr rep"
  shows "0 \<le> cr_test_pass_rate rep \<and> cr_test_pass_rate rep \<le> cr_compilation_rate rep
    \<and> cr_compilation_rate rep \<le> 1 \<and> 0 \<le> cr_avg_score rep \<and> cr_avg_score rep \<le> 100
    \<and> (\<exists>ps. discover_projects dataset_path dataset = Inr ps
         \<and> cr_total_projects rep = length (selected_projects name_filter limit ps))"
proof -
  from assms obtain ps where ps: "discover_projects dataset_path dataset = Inr ps"
    and rep: "rep = crust_report_of (run_projects env settings (selected_projects name_filter limit ps) 0 d)"
    by (auto simp: run_crust_bench_def bind_result_Inr_iff)
  define rs where "rs = run_projects env settings (selected_projects name_filter limit ps) 0 d"
  have grades: "r \<in> set rs \<Longrightarrow> (br_tests_passed r \<longrightarrow> br_compilation_success r) \<and> 0 \<le> br_idiomatic_score r
      \<and> br_idiomatic_score r \<le> 100" for r
    unfolding rs_def by (rule run_projects_grades)
  have "length (filter br_tests_passed rs) \<le> length (filter br_compilation_success rs)"
    by (rule filter_shorter) (use grades in blast)
  then have "cr_test_pass_rate rep \<le> cr_compilation_rate rep"
    unfolding rep crust_report_of_def by (simp add: rate_mono flip: rs_def)
  moreover have "0 \<le> cr_test_pass_rate rep" "cr_compilation_rate rep \<le> 1"
    unfolding rep crust_report_of_def by (simp_all add: rate_bounds flip: rs_def)
  moreover have "0 \<le> sum_list (map br_idiomatic_score rs) \<and> sum_list (map br_idiomatic_score rs) \<le> 100 * of_nat (length rs)"
    by (rule average_bounds) (use grades in blast)
  then have "0 \<le> cr_avg_score rep \<and> cr_avg_score rep \<le> 100"
    unfolding rep crust_report_of_def by (simp add: divide_le_eq flip: rs_def)
  moreover have "cr_total_projects rep = length (selected_projects name_filter limit ps)"
    unfolding rep crust_report_of_def by (simp add: length_run_projects)
  ultimately show ?thesis using ps by blast
qed

section \<open>Calls of the model\<close>

text \<open>The calls since number \<open>k\<close> are counted.\<close>

definition calls_counted :: "nat \<Rightarrow> bench_state \<Rightarrow> bool" where
  "calls_counted k st = (k \<le> bs_next_call st \<and> bs_llm_calls st = of_nat (bs_next_call st - k))"

lemma counted_call:
  assumes "calls_counted k st" "bench_call llm p st = (r, st')"
  shows "calls_counted k st'"
  using assms by (auto simp: calls_counted_def bench_call_def Suc_diff_le)

lemma counted_cong:
  "bs_next_call st' = bs_next_call st \<Longrightarrow> bs_llm_calls st' = bs_llm_calls st
   \<Longrightarrow> calls_counted k st' = calls_counted k st"
  by (simp add: calls_counted_def)

lemma build_repairs_calls:
  assumes "bs_repairs st = of_nat j" "j + n < 2 ^ 32" "calls_counted k st"
    "st' = build_repairs env llm t (map of_nat [Suc j..<Suc (j + n)]) st"
  shows "bs_next_call st' + j = bs_next_call st + unat (bs_repairs st') \<and> unat (bs_repairs st') \<le> j + n
    \<and> calls_counted k st'"
  using assms
proof (induction n arbitrary: j st)
  case 0
  then show ?case by (simp add: unat_of_nat)
next
  case (Suc n)
  define i :: u32 where "i = of_nat (Suc j)"
  define call where "call = bench_call llm (repair_call_prompt env t i
    (build_bench_repair_prompt (bt_c_source t) (bt_interfaces t) (bs_impl st) (bs_errors st) i (bt_max_repairs t)))
    (st\<lparr>bs_repairs := i\<rparr>)"
  obtain r st1 where call: "call = (r, st1)" by (cases call)
  note frame = bench_call_frame [OF call [unfolded call_def]]
  have i: "unat i = Suc j" using Suc.prems(2) unfolding i_def by (simp add: unat_of_nat del: of_nat_Suc)
  have "calls_counted k (st\<lparr>bs_repairs := i\<rparr>)" using Suc.prems(3) by (simp add: calls_counted_def)
  from counted_call [OF this call [unfolded call_def]] have st1: "calls_counted k st1" .
  have "[Suc j..<Suc (j + Suc n)] = Suc j # [Suc (Suc j)..<Suc (Suc j + n)]" by (simp add: upt_rec)
  then have upt: "map of_nat [Suc j..<Suc (j + Suc n)] = i # map of_nat [Suc (Suc j)..<Suc (Suc j + n)]"
    unfolding i_def by (simp only: list.map)
  show ?case
  proof (cases r)
    case (Inl e)
    then have "build_repairs env llm t (map of_nat [Suc j..<Suc (j + Suc n)]) st = st1"
      unfolding upt using call by (simp add: Let_def del: upt_Suc flip: call_def)
    with Suc.prems(4) show ?thesis using frame i st1 by simp
  next
    case (Inr response)
    define st2 where "st2 = apply_answer env t response st1"
    obtain ok errors where build: "check_build env t st2 = (ok, errors)" by (cases "check_build env t st2")
    define st3 where "st3 = st2\<lparr>bs_compiled := ok, bs_errors := errors\<rparr>"
    have step: "build_repairs env llm t (map of_nat [Suc j..<Suc (j + Suc n)]) st
        = (if ok then st3 else build_repairs env llm t (map of_nat [Suc (Suc j)..<Suc (Suc j + n)]) st3)"
      unfolding upt using call Inr build
      by (cases ok) (simp_all add: Let_def st3_def del: upt_Suc flip: call_def st2_def)
    have st3: "bs_repairs st3 = of_nat (Suc j)" "bs_next_call st3 = Suc (bs_next_call st)" "calls_counted k st3"
      using frame st1 by (simp_all add: st3_def st2_def calls_counted_def i_def)
    show ?thesis
    proof (cases ok)
      case True
      with step Suc.prems(4) have "st' = st3" by simp
      moreover have "bs_repairs st3 = i" using st3(1) by (simp add: i_def)
      ultimately show ?thesis using st3 i by simp
    next
      case False
      with step Suc.prems(4) have "st' = build_repairs env llm t (map of_nat [Suc (Suc j)..<Suc (Suc j + n)]) st3" by simp
      from Suc.IH [OF st3(1) _ st3(3) this] Suc.prems(2) st3(2) show ?thesis by simp
    qed
  qed
qed

lemma test_repairs_calls:
  assumes "calls_counted k st"
  shows "calls_counted k (test_repairs env llm t failed out is st)
    \<and> bs_next_call (test_repairs env llm t failed out is st) \<le> bs_next_call st + length is"
  using assms
proof (induction "is" arbitrary: st)
  case Nil
  then show ?case by simp
next
  case (Cons offset "is")
  define i where "i = bs_repairs st + offset"
  define call where "call = bench_call llm (repair_call_prompt env t i (test_repair_message t failed out i st))
    (st\<lparr>bs_repairs := i\<rparr>)"
  obtain r st' where call: "call = (r, st')" by (cases call)
  note frame = bench_call_frame [OF call [unfolded call_def]]
  have "calls_counted k (st\<lparr>bs_repairs := i\<rparr>)" using Cons.prems by (simp add: calls_counted_def)
  from counted_call [OF this call [unfolded call_def]] have st': "calls_counted k st'" .
  show ?case
  proof (cases r)
    case (Inl e)
    with call frame st' show ?thesis by (simp add: Let_def flip: i_def call_def)
  next
    case (Inr response)
    define st2 where "st2 = apply_answer env t response st'"
    obtain ok errors where build: "check_build env t st2 = (ok, errors)" by (cases "check_build env t st2")
    obtain tests_ok tout rs where tests:
      "run_cargo_test_per_binary (be_cargo env) (bt_workdir t) (bs_disk st2) = (tests_ok, tout, rs)"
      by (cases "run_cargo_test_per_binary (be_cargo env) (bt_workdir t) (bs_disk st2)")
    define broken where "broken = st2\<lparr>bs_errors := errors, bs_compiled := False\<rparr>"
    define st3 where "st3 = st2\<lparr>bs_compiled := True, bs_passed := tests_ok, bs_test_output := Some tout\<rparr>"
    have "test_repairs env llm t failed out (offset # is) st =
        (if \<not> ok then test_repairs env llm t failed out is broken
         else if tests_ok then st3 else test_repairs env llm t failed out is (st3\<lparr>bs_errors := tout\<rparr>))"
      using call Inr build tests by (simp add: Let_def broken_def st3_def flip: i_def call_def st2_def)
    moreover have "calls_counted k broken" "calls_counted k st3" "calls_counted k (st3\<lparr>bs_errors := tout\<rparr>)"
      "bs_next_call broken = Suc (bs_next_call st)" "bs_next_call st3 = Suc (bs_next_call st)"
      "bs_next_call (st3\<lparr>bs_errors := tout\<rparr>) = Suc (bs_next_call st)"
      using st' frame by (simp_all add: broken_def st3_def st2_def calls_counted_def)
    ultimately show ?thesis using Cons.IH [of broken] Cons.IH [of "st3\<lparr>bs_errors := tout\<rparr>"]
      by (cases ok; cases tests_ok) simp_all
  qed
qed

lemma length_counting [simp]: "length (counting n) = unat n"
  by (simp add: counting_def)

lemma phases_calls:
  assumes "bs_repairs st = 0" "calls_counted k st" and st': "st' = test_phase env llm t (build_phase env llm t st)"
  shows "calls_counted k st' \<and> bs_next_call st' \<le> bs_next_call st + unat (bt_max_repairs t)"
proof -
  define st1 where "st1 = st\<lparr>bs_impl := read_current_impls (be_readable env) (bt_workdir t) (bt_interfaces t) (bs_disk st)\<rparr>"
  obtain ok errors where build: "check_build env t st1 = (ok, errors)" by (cases "check_build env t st1")
  define st2 where "st2 = st1\<lparr>bs_errors := errors, bs_compiled := ok\<rparr>"
  define st3 where "st3 = build_phase env llm t st"
  have st2: "bs_repairs st2 = of_nat 0" "calls_counted k st2" "bs_next_call st2 = bs_next_call st"
    using assms(1,2) by (simp_all add: st2_def st1_def calls_counted_def)
  have eq: "st3 = (if ok then st2 else build_repairs env llm t (map of_nat [Suc 0..<Suc (0 + unat (bt_max_repairs t))]) st2)"
    using build by (cases ok) (simp_all add: st3_def st2_def build_phase_def counting_def Let_def flip: st1_def)
  have small: "0 + unat (bt_max_repairs t) < 2 ^ 32" using unsigned_less [of "bt_max_repairs t"] by simp
  have st3: "calls_counted k st3" "bs_next_call st3 = bs_next_call st + unat (bs_repairs st3)"
    "unat (bs_repairs st3) \<le> unat (bt_max_repairs t)"
    using build_repairs_calls [OF st2(1) small st2(2), of st3 env llm t] st2 eq by (cases ok; simp)+
  show ?thesis
  proof (cases "bs_compiled st3")
    case False
    with st3 show ?thesis by (simp add: st' test_phase_def flip: st3_def)
  next
    case True
    obtain tests_ok out rs where tests:
      "run_cargo_test_per_binary (be_cargo env) (bt_workdir t) (bs_disk st3) = (tests_ok, out, rs)"
      by (cases "run_cargo_test_per_binary (be_cargo env) (bt_workdir t) (bs_disk st3)")
    define st4 where "st4 = st3\<lparr>bs_passed := tests_ok, bs_test_output := Some out\<rparr>"
    define rest where "rest = counting (saturating_sub (bt_max_repairs t) (bs_repairs st3))"
    have "st' = (if tests_ok then st4 else test_repairs env llm t rs out rest st4)"
      using True tests by (cases tests_ok) (simp_all add: st' test_phase_def st4_def rest_def Let_def flip: st3_def)
    moreover have "length rest = unat (bt_max_repairs t) - unat (bs_repairs st3)"
      by (simp add: rest_def unat_saturating_sub)
    moreover have "calls_counted k st4" "bs_next_call st4 = bs_next_call st3"
      using st3(1) by (simp_all add: st4_def calls_counted_def)
    ultimately show ?thesis
      using test_repairs_calls [of k st4 env llm t rs out rest] st3 by (cases tests_ok) auto
  qed
qed

lemma translate_bench_module_calls:
  "bs_next_call (translate_bench_module env llm t x st) = Suc (bs_next_call st)"
  "bs_repairs (translate_bench_module env llm t x st) = bs_repairs st"
  "calls_counted k st \<Longrightarrow> calls_counted k (translate_bench_module env llm t x st)"
  by (auto simp: translate_bench_module_def bench_call_def calls_counted_def Suc_diff_le split: sum.splits)

lemma fold_modules_calls:
  assumes "calls_counted k st"
  shows "bs_next_call (fold (translate_bench_module env llm t) xs st) = bs_next_call st + length xs
    \<and> bs_repairs (fold (translate_bench_module env llm t) xs st) = bs_repairs st
    \<and> calls_counted k (fold (translate_bench_module env llm t) xs st)"
  using assms by (induction xs arbitrary: st) (simp_all add: translate_bench_module_calls)

lemma bench_translate_calls:
  assumes "bench_translate env llm t st = (e, st')" "calls_counted k st"
  shows "bs_next_call st' = bs_next_call st + max 1 (length (bt_interfaces t)) \<and> bs_repairs st' = bs_repairs st
    \<and> calls_counted k st' \<and> (e \<noteq> None \<longrightarrow> length (bt_interfaces t) \<le> 1)"
proof (cases "1 < length (bt_interfaces t)")
  case True
  with assms fold_modules_calls [OF assms(2), of env llm t "enumerate 0 (bt_interfaces t)"] show ?thesis
    by (auto simp: bench_translate_def translate_modules_def)
next
  case False
  with assms show ?thesis
    by (auto simp: bench_translate_def translate_whole_def bench_call_def calls_counted_def Suc_diff_le Let_def split: sum.splits)
qed

lemma effective_max_repairs_bound: "unat (effective_max_repairs n loc) \<le> 10"
proof -
  have "effective_max_repairs n loc \<le> max_bench_iterations" by (simp add: effective_max_repairs_def Let_def)
  then show ?thesis by (simp add: max_bench_iterations_def word_le_nat_alt)
qed

text \<open>
  The calls of a project are counted and bounded. The number of calls in the result is the number of calls
  made, and a project with \<open>n\<close> interface files makes at most one call for each file (or one in all) and ten repair
  calls, the repairs of the build and those of the tests together.
\<close>

theorem bench_calls_bounded:
  assumes "run_project env settings p k d = (r, k', d')"
    and "read_interface_skeletons (be_readable env) (cp_rbench_path p) (cp_rbench p) = Inr fs"
  shows "k \<le> k' \<and> k' \<le> k + max 1 (length fs) + 10 \<and> br_llm_calls r = of_nat (k' - k)"
  using assms(1)
proof (cases rule: run_project_cases)
  case 1
  then show ?thesis by simp
next
  case (2 fs' c_src c d1)
  define t where "t = bench_task_of (bench_workdir env (cp_name p)) c_src (bench_line_count c_src) fs settings"
  have t: "bt_interfaces t = fs" "unat (bt_max_repairs t) \<le> 10"
    by (simp_all add: t_def bench_task_of_def effective_max_repairs_bound)
  have start: "calls_counted k (bench_start d1 k)" "bs_repairs (bench_start d1 k) = 0" "\<not> bs_passed (bench_start d1 k)"
    "bs_next_call (bench_start d1 k) = k"
    by (simp_all add: bench_start_def calls_counted_def)
  from 2 assms(2) have "run_task env (be_call env c) t (cp_name p) (bench_start d1 k) = (r, k', d')"
    by (simp add: t_def)
  from this start(3) show ?thesis
  proof (cases rule: run_task_cases)
    case (1 e st1)
    from bench_translate_calls [OF 1(2) start(1)] 1 start(4) t show ?thesis by simp
  next
    case (2 st1 st2)
    from bench_translate_calls [OF 2(1) start(1)] start t have st1:
      "bs_next_call st1 = k + max 1 (length fs)" "bs_repairs st1 = 0" "calls_counted k st1" by simp_all
    from phases_calls [OF st1(2,3) 2(2)] st1(1) t(2) 2(4,5) show ?thesis
      by (simp add: calls_counted_def bench_result_def Let_def)
  qed
qed

section \<open>An example\<close>

definition demo_cargo :: bench_cargo where
  "demo_cargo =
     \<lparr>cargo_build = (\<lambda>_ _. Inr (True, [])), cargo_test = (\<lambda>_ _. Inr (True, [], [])),
      cargo_test_no_run = (\<lambda>_ _. Inr []), run_binary = (\<lambda>_ _ _. Inl ''no binary''), parse_json = (\<lambda>_. None)\<rparr>"

definition demo_bench :: "'exe workbench \<Rightarrow> (string, 'exe) bench_env" where
  "demo_bench wb =
     \<lparr>be_readable = Inr, be_cargo = demo_cargo, be_workbench = wb, be_makers = demo_makers,
      be_call = (\<lambda>_ _ _. Inr ''fn x() {}''), be_translation_preamble = [], be_repair_preamble = [],
      be_temp_dir = ''tmp'', be_elapsed = (\<lambda>_. 0)\<rparr>"

definition demo_bench_settings :: provider_settings where
  "demo_bench_settings =
     \<lparr>ps_primary = None, ps_anthropic_key = None, ps_deepseek_key = None, ps_ollama_url = None,
      ps_ollama_model = None, ps_num_ctx = None\<rparr>"

definition demo_cbench :: fs_node where "demo_cbench = DirNode [(''a.c'', FileNode ''void x();'')]"

definition demo_rbench :: fs_node where
  "demo_rbench = DirNode [(''src'', DirNode [(''interfaces'', DirNode [(''a.rs'', FileNode ''fn x();'')])])]"

definition demo_dataset :: fs_node where
  "demo_dataset =
     DirNode [(''CBench'', DirNode [(''p'', demo_cbench)]), (''RBench'', DirNode [(''p'', demo_rbench)])]"

definition demo_crust_project :: crust_project where
  "demo_crust_project =
     \<lparr>cp_name = ''p'', cp_cbench = demo_cbench, cp_cbench_path = ''set/CBench/p'', cp_rbench = demo_rbench,
      cp_rbench_path = ''set/RBench/p''\<rparr>"

lemma demo_discovered: "discover_projects ''set'' demo_dataset = Inr [demo_crust_project]"
  by code_simp

lemma demo_interfaces:
  "read_interface_skeletons Inr ''set/RBench/p'' demo_rbench = Inr [(''a.rs'', ''fn x();'')]"
  by code_simp

lemma demo_c_sources: "\<exists>s. read_c_sources Inr ''set/CBench/p'' demo_cbench = Inr s"
  by (rule exI) code_simp

lemma demo_bench_run:
  "\<exists>r d'. run_project (demo_bench wb) demo_bench_settings demo_crust_project 0 free_disk = (r, 1, d') \<and> br_tests_passed r"
proof -
  let ?w = "bench_workdir (demo_bench wb) ''p''"
  obtain s where s: "read_c_sources Inr ''set/CBench/p'' demo_cbench = Inr s" using demo_c_sources ..
  obtain d1 where copy: "copy_rbench_to_workdir demo_rbench ?w (remove_dir_all ?w free_disk) = (None, d1)"
    by (simp add: copy_rbench_to_workdir_def demo_rbench_def remove_dir_all_def free_disk_def)
  have client: "bench_create_client demo_makers demo_bench_settings = Inr (OllamaClient default_ollama_url default_num_ctx)"
    by (simp add: bench_create_client_def create_llm_client_def bench_provider_config_def demo_bench_settings_def
        demo_makers_def create_ollama_client_def)
  define t where "t = bench_task_of ?w s (bench_line_count s) [(''a.rs'', ''fn x();'')] demo_bench_settings"
  define llm :: llm_client where "llm = (\<lambda>_ _. Inr ''fn x() {}'')"
  obtain st1 where st1: "bench_translate (demo_bench wb) llm t (bench_start d1 0) = (None, st1)" "bs_next_call st1 = 1"
    by (simp add: bench_translate_def translate_whole_def t_def bench_task_of_def llm_def bench_call_def bench_start_def Let_def)
  define st2 where "st2 = test_phase (demo_bench wb) llm t (build_phase (demo_bench wb) llm t st1)"
  have ok: "check_build (demo_bench wb) t st = (True, [])"
    "run_cargo_test_per_binary (be_cargo (demo_bench wb)) (bt_workdir t) d = (True, [newline], [])" for st d
    by (simp_all add: check_build_def demo_bench_def demo_cargo_def run_cargo_build_def run_cargo_test_per_binary_def
        test_binaries_def run_cargo_test_def map_filter_simps)
  then have "bs_passed st2" "bs_next_call st2 = 1"
    using st1(2) by (simp_all add: st2_def test_phase_def build_phase_def Let_def)
  moreover have "run_project (demo_bench wb) demo_bench_settings demo_crust_project 0 free_disk
      = (bench_result (demo_bench wb) ''p'' (bench_line_count s) st2, bs_next_call st2, bs_disk st2)"
    using s copy client demo_interfaces st1(1)
    by (simp add: run_project_def demo_crust_project_def run_task_def Let_def st2_def t_def llm_def demo_bench_def
        bench_task_of_def)
  ultimately show ?thesis by simp
qed

theorem bench_verdict_witness:
  "\<forall>wb :: unit workbench. \<exists>r k' d'. run_project (demo_bench wb) demo_bench_settings demo_crust_project 0 free_disk = (r, k', d')
     \<and> br_tests_passed r \<and> br_error r = None \<and> fst (run_cargo_test_per_binary demo_cargo ''tmp/noricum-crust-bench/p'' d')"
proof
  fix wb :: "unit workbench"
  obtain r d' where run: "run_project (demo_bench wb) demo_bench_settings demo_crust_project 0 free_disk = (r, 1, d')"
    and tests: "br_tests_passed r" using demo_bench_run [of wb] by blast
  from bench_verdict [OF run] tests have "br_error r = None"
    "fst (run_cargo_test_per_binary demo_cargo ''tmp/noricum-crust-bench/p'' d')"
    by (simp_all add: demo_bench_def bench_workdir_def demo_crust_project_def path_join_def)
  with run tests show "\<exists>r k' d'. run_project (demo_bench wb) demo_bench_settings demo_crust_project 0 free_disk = (r, k', d')
     \<and> br_tests_passed r \<and> br_error r = None \<and> fst (run_cargo_test_per_binary demo_cargo ''tmp/noricum-crust-bench/p'' d')" by blast
qed

theorem bench_calls_bounded_witness:
  "\<forall>wb :: unit workbench. \<exists>r d'. run_project (demo_bench wb) demo_bench_settings demo_crust_project 0 free_disk = (r, 1, d') \<and> br_llm_calls r = 1"
proof
  fix wb :: "unit workbench"
  obtain r d' where run: "run_project (demo_bench wb) demo_bench_settings demo_crust_project 0 free_disk = (r, 1, d')"
    using demo_bench_run [of wb] by blast
  from bench_calls_bounded [OF run, of "[(''a.rs'', ''fn x();'')]"] demo_interfaces have "br_llm_calls r = 1"
    by (simp add: demo_bench_def demo_crust_project_def)
  with run show "\<exists>r d'. run_project (demo_bench wb) demo_bench_settings demo_crust_project 0 free_disk = (r, 1, d') \<and> br_llm_calls r = 1" by blast
qed

theorem bench_report_consistent_witness:
  "\<forall>wb :: unit workbench. \<exists>rep. run_crust_bench (demo_bench wb) demo_bench_settings None None ''set'' demo_dataset free_disk = Inr rep
     \<and> cr_total_projects rep = 1 \<and> cr_test_pass_rate rep \<le> cr_compilation_rate rep"
proof
  fix wb :: "unit workbench"
  obtain rep where rep: "run_crust_bench (demo_bench wb) demo_bench_settings None None ''set'' demo_dataset free_disk = Inr rep"
    by (simp add: run_crust_bench_def demo_discovered bind_result_def)
  from bench_report_consistent [OF rep] have "cr_total_projects rep = 1" "cr_test_pass_rate rep \<le> cr_compilation_rate rep"
    by (auto simp: demo_discovered selected_projects_def)
  with rep show "\<exists>rep. run_crust_bench (demo_bench wb) demo_bench_settings None None ''set'' demo_dataset free_disk = Inr rep
     \<and> cr_total_projects rep = 1 \<and> cr_test_pass_rate rep \<le> cr_compilation_rate rep" by blast
qed

section \<open>The number of repairs\<close>

text \<open>
  While the tests are repaired the number of repairs grows by the offset of the loop, which itself grows: five failing
  repairs are reported as fifteen, and the temperature rises as fast.
\<close>

lemma test_repairs_count:
  assumes "\<And>n q. llm n q = Inr a" "\<And>d. fst (run_cargo_build (be_cargo env) (bt_workdir t) d) = False"
  shows "bs_repairs (test_repairs env llm t failed out is st) = bs_repairs st + sum_list is"
proof (induction "is" arbitrary: st)
  case (Cons offset "is")
  define i where "i = bs_repairs st + offset"
  define st1 where "st1 = snd (bench_call llm (repair_call_prompt env t i (test_repair_message t failed out i st))
    (st\<lparr>bs_repairs := i\<rparr>))"
  have call: "bench_call llm (repair_call_prompt env t i (test_repair_message t failed out i st)) (st\<lparr>bs_repairs := i\<rparr>)
      = (Inr a, st1)"
    by (simp add: st1_def bench_call_def assms(1))
  obtain e where "check_build env t (apply_answer env t a st1) = (False, e)"
    using assms(2) by (metis check_build_def prod.collapse)
  moreover have "bs_repairs st1 = i" using bench_call_frame(5) [OF call] by simp
  ultimately show ?case using call by (simp add: Let_def Cons.IH i_def flip: i_def)
qed simp

lemma five_repairs_reported_as_fifteen: "sum_list (counting base_repair_iterations) = 15"
  by code_simp

end
