(* ===== verification/Http_Api.thy ===== *)
theory Http_Api
  imports Json_Value File_Outcome Task_Routing
begin

text \<open>
  The HTTP interface (\<open>crates/noricum-cli/src/api.rs\<close>): the limit of requests per address, the check of the key, the
  headers of every response and the six endpoints over the pipeline. The package \<open>axum\<close> finds the endpoint, reads
  the body and sends the response: a request is an endpoint with its headers and what the package made of the body.
\<close>

section \<open>The limit of requests per address\<close>

text \<open>Instants are nanoseconds. The accepted requests of each address in the last minute are kept.\<close>

record 'ip ip_limiter =
  max_rpm :: nat
  requests :: "'ip \<rightharpoonup> nat list"

definition new_limiter :: "nat \<Rightarrow> 'ip ip_limiter" where
  "new_limiter n = \<lparr>max_rpm = n, requests = Map.empty\<rparr>"

definition minute :: nat where "minute = 60 * 10 ^ 9"

text \<open>
  The instant is an argument: the code reads the clock before it takes the lock, so requests that are handled at the
  same time may be recorded in another order than that of their instants.
\<close>

definition limiter_check :: "'ip \<Rightarrow> nat \<Rightarrow> 'ip ip_limiter \<Rightarrow> bool \<times> 'ip ip_limiter" where
  "limiter_check ip now l =
     (let kept = filter (\<lambda>t. now - t < minute) (unwrap_or (requests l ip) [])
      in if max_rpm l \<le> length kept then (False, l\<lparr>requests := (requests l)(ip \<mapsto> kept)\<rparr>)
         else (True, l\<lparr>requests := (requests l)(ip \<mapsto> kept @ [now])\<rparr>))"

section \<open>Requests and responses\<close>

datatype endpoint = Health | Migrate | Analyze | Check | Score | DiffTest

text \<open>Headers with their names in lower case; the body is the value read, or the response of the package.\<close>

record api_response =
  ar_status :: nat
  ar_headers :: "(string \<times> string) list"
  ar_body :: json

record api_request =
  aq_endpoint :: endpoint
  aq_headers :: "(string \<times> string) list"
  aq_body :: "(api_response, json) result"

definition visible_ascii :: "char \<Rightarrow> bool" where
  "visible_ascii c = (of_char c = (9::nat) \<or> (32 \<le> (of_char c :: nat) \<and> (of_char c :: nat) < 127))"

text \<open>\<open>HeaderMap::get\<close> and \<open>HeaderValue::to_str\<close>.\<close>

definition header_text :: "(string \<times> string) list \<Rightarrow> string \<Rightarrow> string option" where
  "header_text hs nm =
     (case map_of hs nm of Some v \<Rightarrow> if list_all visible_ascii v then Some v else None | None \<Rightarrow> None)"

definition json_response :: "nat \<Rightarrow> json \<Rightarrow> api_response" where
  "json_response status body = \<lparr>ar_status = status, ar_headers = [(''content-type'', ''application/json'')], ar_body = body\<rparr>"

definition error_response :: "nat \<Rightarrow> string \<Rightarrow> api_response" where
  "error_response status msg = json_response status (JsonObject [(''error'', JsonString msg)])"

text \<open>\<open>HeaderMap::insert\<close> replaces the values of a name.\<close>

definition insert_header :: "string \<times> string \<Rightarrow> (string \<times> string) list \<Rightarrow> (string \<times> string) list" where
  "insert_header h hs = filter (\<lambda>(nm, _). nm \<noteq> fst h) hs @ [h]"

definition security_headers :: "(string \<times> string) list" where
  "security_headers =
     [(''x-content-type-options'', ''nosniff''), (''x-frame-options'', ''DENY''),
      (''content-security-policy'', ''default-src '' @ [CHR 0x27] @ ''none'' @ [CHR 0x27]
         @ ''; frame-ancestors '' @ [CHR 0x27] @ ''none'' @ [CHR 0x27]),
      (''x-xss-protection'', ''1; mode=block''), (''cache-control'', ''no-store, no-cache, must-revalidate'')]"

definition add_security_headers :: "api_response \<Rightarrow> api_response" where
  "add_security_headers r = r\<lparr>ar_headers := fold insert_header security_headers (ar_headers r)\<rparr>"

section \<open>The key\<close>

text \<open>The comparison in constant time: both keys are padded with zeros to the same length.\<close>

definition pad_to :: "nat \<Rightarrow> string \<Rightarrow> string" where
  "pad_to n s = s @ replicate (n - length s) (CHR 0x00)"

definition keys_match :: "string \<Rightarrow> string \<Rightarrow> bool" where
  "keys_match key expected =
     (let max_len = max (length key) (length expected)
      in length key = length expected \<and> pad_to max_len key = pad_to max_len expected)"

definition provided_key :: "(string \<times> string) list \<Rightarrow> string option" where
  "provided_key hs =
     (case header_text hs ''x-api-key'' of
        Some k \<Rightarrow> Some k
      | None \<Rightarrow> Option.bind (header_text hs ''authorization'') (\<lambda>v.
                  if starts_with v ''Bearer '' then Some (drop 7 v) else None))"

definition check_api_key :: "string option \<Rightarrow> bool \<Rightarrow> (string \<times> string) list \<Rightarrow> (api_response, unit) result" where
  "check_api_key api_key is_public hs =
     (case api_key of
        Some expected \<Rightarrow>
          (case provided_key hs of
             Some key \<Rightarrow> if keys_match key expected then Inr () else Inl (error_response 401 ''invalid or missing API key'')
           | None \<Rightarrow> Inl (error_response 401 ''invalid or missing API key''))
      | None \<Rightarrow>
          if is_public
          then Inl (error_response 401 ''API key required when serving on non-localhost. Set NORICUM_API_KEY env var.'')
          else Inr ())"

definition max_source_size :: nat where "max_source_size = 10 * 1024 * 1024"

definition check_source_size :: "string \<Rightarrow> (api_response, unit) result" where
  "check_source_size src =
     (if max_source_size < length src
      then Inl (error_response 413 (''source exceeds maximum size of '' @ show_nat max_source_size @ '' bytes''))
      else Inr ())"

section \<open>Endpoints\<close>

record ('exe, 'g, 'ip) api_env =
  ae_files :: "nat \<Rightarrow> ('exe, 'g) file_environment"
  ae_modular :: "nat \<Rightarrow> modular_migration"
  ae_config :: migration_config
  ae_fuel :: nat
  ae_key :: "string option"
  ae_public :: bool
  ae_temp_dir :: "nat \<Rightarrow> (string, string) result"
  ae_pipeline_writes :: "nat \<Rightarrow> (string \<times> string) list"
  ae_parse_ip :: "string \<Rightarrow> 'ip option"
  ae_localhost :: 'ip
  ae_decode_error :: "json \<Rightarrow> api_response"
  ae_core_error :: "core_error \<Rightarrow> string"
  ae_version :: string

record 'ip api_state =
  as_limiter :: "'ip ip_limiter"
  as_disk :: disk
  as_cache :: "string \<rightharpoonup> string"

abbreviation ae_bench :: "('exe, 'g, 'ip) api_env \<Rightarrow> nat \<Rightarrow> 'exe workbench" where
  "ae_bench env i \<equiv> bench (ae_files env i)"

text \<open>The checks of a handler: the key, and the size of its sources.\<close>

definition api_guard ::
  "('exe, 'g, 'ip) api_env \<Rightarrow> (string \<times> string) list \<Rightarrow> string list \<Rightarrow> (api_response, unit) result" where
  "api_guard env hs sources =
     bind_result (check_api_key (ae_key env) (ae_public env) hs) (\<lambda>_.
     bind_result (collect_results check_source_size sources) (\<lambda>_. Inr ()))"

definition health :: "('exe, 'g, 'ip) api_env \<Rightarrow> api_response" where
  "health env = json_response 200 (JsonObject [(''status'', JsonString ''ok''), (''version'', JsonString (ae_version env))])"

definition analyze :: "('exe, 'g, 'ip) api_env \<Rightarrow> nat \<Rightarrow> string \<Rightarrow> api_response" where
  "analyze env i src =
     json_response 200
       (JsonObject [(''difficulty'', JsonString (debug_difficulty (classify_difficulty (grammars (ae_bench env i)) src))),
                    (''lines'', json_nat (length (lines src)))])"

definition check_endpoint :: "('exe, 'g, 'ip) api_env \<Rightarrow> nat \<Rightarrow> string \<Rightarrow> api_response" where
  "check_endpoint env i src =
     (case check_rust_compiles (ae_bench env i) src of
        Inr r \<Rightarrow>
          json_response 200
            (JsonObject
               [(''success'', JsonBool (success r)),
                (''errors'', json_strings
                   (if success r then [] else filter (\<lambda>l. contains l ''error'') (lines (cr_stderr r))))])
      | Inl e \<Rightarrow> error_response 500 (show_tool_error e))"

definition score_endpoint :: "('exe, 'g, 'ip) api_env \<Rightarrow> nat \<Rightarrow> string \<Rightarrow> string option \<Rightarrow> api_response" where
  "score_endpoint env i src c_arg =
     (let unsafes = count_unsafe_blocks (ae_bench env i) src;
          warnings = (case run_clippy_on_source (ae_bench env i) src of Inr ws \<Rightarrow> ws | Inl _ \<Rightarrow> []);
          grade = compute_idiomatic_score_from_source unsafes (as_u32 (length warnings)) src (unwrap_or c_arg [])
      in json_response 200 (JsonObject [(''score'', json_u32 grade), (''unsafe_count'', json_u32 unsafes)]))"

definition json_i32 :: "i32 \<Rightarrow> json" where
  "json_i32 n = JsonNumber (of_int (sint n))"

definition diff_test_endpoint :: "('exe, 'g, 'ip) api_env \<Rightarrow> nat \<Rightarrow> string \<Rightarrow> string \<Rightarrow> api_response" where
  "diff_test_endpoint env i c_src rust_src =
     (case run_diff_test (chain (ae_bench env i)) c_src rust_src of
        Inr r \<Rightarrow>
          json_response 200
            (JsonObject
               [(''passed'', JsonBool (dt_passed r)), (''c_output'', JsonString (c_output r)),
                (''rust_output'', JsonString (rust_stdout r)), (''c_compiled'', JsonBool (c_compiled r)),
                (''rust_compiled'', JsonBool (rust_compiled r)), (''c_exit_code'', json_i32 (c_exit_code r)),
                (''rust_exit_code'', json_i32 (rust_exit_code r))])
      | Inl e \<Rightarrow> error_response 500 (show_tool_error e))"

text \<open>\<open>Path::join\<close>: an absolute path replaces the directory.\<close>

definition join_path :: "string \<Rightarrow> string \<Rightarrow> string" where
  "join_path dir p = (if starts_with p ''/'' then p else path_join dir p)"

definition migrate_response :: "function_unit \<Rightarrow> api_response" where
  "migrate_response u =
     json_response 200
       (JsonObject
          [(''name'', JsonString (unit_name u)), (''state'', JsonString (debug_state (unit_state u))),
           (''rust_output'', json_option JsonString (rust_output u)),
           (''idiomatic_score'', json_option json_u32 (idiomatic_score u)),
           (''unsafe_count'', json_option json_u32 (unsafe_count u))])"

text \<open>
  The files that the pipeline itself writes with a model: the artifacts of the run, the audit log, the crate. What it
  saves is modelled in \<open>File_Pipeline\<close> and \<open>Modular_Pipeline\<close>; the names hold the time of the run, so the list is
  part of the environment here. A write that fails is only logged.
\<close>

definition leave_files :: "(string \<times> string) list \<Rightarrow> disk \<Rightarrow> disk" where
  "leave_files ws d =
     fold (\<lambda>(p, text) d. if write_fault d p = None then d\<lparr>files := (files d)(p \<mapsto> text)\<rparr> else d) ws d"

lemma leave_files_other: "f \<notin> fst ` set ws \<Longrightarrow> files (leave_files ws d) f = files d f"
  by (induction ws arbitrary: d) (auto simp: leave_files_def)

lemma leave_files_faults [simp]: "write_fault (leave_files ws d) = write_fault d"
  by (induction ws arbitrary: d) (auto simp: leave_files_def)

text \<open>The directory for temporary files is removed with all files in it when the handler returns.\<close>

definition path_parts :: "string \<Rightarrow> string list" where
  "path_parts p =
     foldl (\<lambda>ps c. if c = [] \<or> c = ''.'' then ps else if c = ''..'' then butlast ps else ps @ [c]) []
       (split_char (CHR ''/'') p)"

definition in_temp_dir :: "string \<Rightarrow> string \<Rightarrow> bool" where
  "in_temp_dir dir p \<longleftrightarrow> take (length (path_parts dir)) (path_parts p) = path_parts dir"

definition drop_temp_dir :: "string \<Rightarrow> disk \<Rightarrow> disk" where
  "drop_temp_dir dir d = d\<lparr>files := (\<lambda>p. if in_temp_dir dir p then None else files d p)\<rparr>"

text \<open>The file is written, and the pipeline reads it; \<open>None\<close> when the pipeline does not return.\<close>

definition run_pipeline ::
  "('exe, 'g, 'ip) api_env \<Rightarrow> nat \<Rightarrow> string \<Rightarrow> string \<Rightarrow> 'ip api_state
   \<Rightarrow> ((core_error, function_unit) result \<times> 'ip api_state) option" where
  "run_pipeline env i c_file src st =
     (let fe = (ae_files env i)\<lparr>read_source := (\<lambda>p. if p = c_file then Inr src else read_source (ae_files env i) p)\<rparr>
      in if anthropic_api_key (providers (ae_config env)) \<noteq> None
         then map_option
                (\<lambda>r. let st1 = st\<lparr>as_disk := leave_files (ae_pipeline_writes env i) (as_disk st)\<rparr>
                     in case r of Inr (u, cache) \<Rightarrow> (Inr u, st1\<lparr>as_cache := cache\<rparr>) | Inl e \<Rightarrow> (Inl e, st1))
                (migrate_file (ae_fuel env) fe (ae_config env) (ae_modular env i) (as_cache st) True c_file)
         else map_option (\<lambda>r. (r, st)) (migrate_file_sync (ae_fuel env) fe c_file))"

definition migrate_endpoint ::
  "('exe, 'g, 'ip) api_env \<Rightarrow> nat \<Rightarrow> string \<Rightarrow> string option \<Rightarrow> 'ip api_state \<Rightarrow> (api_response \<times> 'ip api_state) option" where
  "migrate_endpoint env i src name_arg st =
     (case ae_temp_dir env i of
        Inl e \<Rightarrow> Some (error_response 500 e, st)
      | Inr dir \<Rightarrow>
          (let c_file = join_path dir (unwrap_or name_arg ''input'' @ ''.c'')
           in case write_fault (as_disk st) c_file of
                Some e \<Rightarrow> Some (error_response 500 e, st)
              | None \<Rightarrow>
                  (let st' = st\<lparr>as_disk := (as_disk st)\<lparr>files := (files (as_disk st))(c_file \<mapsto> src)\<rparr>\<rparr>
                   in map_option
                        (\<lambda>(r, st2). (case r of Inr u \<Rightarrow> migrate_response u | Inl e \<Rightarrow> error_response 500 (ae_core_error env e),
                                     st2\<lparr>as_disk := drop_temp_dir dir (as_disk st2)\<rparr>))
                        (run_pipeline env i c_file src st'))))"

text \<open>The body as the fields of the request of an endpoint.\<close>

definition required_fields :: "endpoint \<Rightarrow> string list" where
  "required_fields ep = (if ep = DiffTest then [''c_source'', ''rust_source''] else [''source''])"

definition optional_field :: "endpoint \<Rightarrow> string list" where
  "optional_field ep = (if ep = Score then [''c_source''] else if ep = Migrate then [''name''] else [])"

definition decode_body :: "endpoint \<Rightarrow> json \<Rightarrow> (string list \<times> string option) option" where
  "decode_body ep v =
     Option.bind (struct_fields (required_fields ep @ optional_field ep) v) (\<lambda>fs.
       (let n = length (required_fields ep); needed = map string_field (take n fs)
        in if None \<in> set needed then None
           else Option.bind (case drop n fs of x # _ \<Rightarrow> optional_string_field x | [] \<Rightarrow> Some None)
                  (\<lambda>opt. Some (map the needed, opt))))"

definition run_endpoint ::
  "('exe, 'g, 'ip) api_env \<Rightarrow> nat \<Rightarrow> endpoint \<Rightarrow> string list \<Rightarrow> string option \<Rightarrow> 'ip api_state
   \<Rightarrow> (api_response \<times> 'ip api_state) option" where
  "run_endpoint env i ep sources opt st =
     (case (ep, sources) of
        (Analyze, [src]) \<Rightarrow> Some (analyze env i src, st)
      | (Check, [src]) \<Rightarrow> Some (check_endpoint env i src, st)
      | (Score, [src]) \<Rightarrow> Some (score_endpoint env i src opt, st)
      | (DiffTest, [c_src, rust_src]) \<Rightarrow> Some (diff_test_endpoint env i c_src rust_src, st)
      | (Migrate, [src]) \<Rightarrow> migrate_endpoint env i src opt st
      | _ \<Rightarrow> Some (health env, st))"

definition handle_endpoint ::
  "('exe, 'g, 'ip) api_env \<Rightarrow> nat \<Rightarrow> api_request \<Rightarrow> 'ip api_state \<Rightarrow> (api_response \<times> 'ip api_state) option" where
  "handle_endpoint env i q st =
     (if aq_endpoint q = Health then Some (health env, st)
      else
        (case aq_body q of
           Inl r \<Rightarrow> Some (r, st)
         | Inr v \<Rightarrow>
             (case decode_body (aq_endpoint q) v of
                None \<Rightarrow> Some (ae_decode_error env v, st)
              | Some (sources, opt) \<Rightarrow>
                  (case api_guard env (aq_headers q) sources of
                     Inl r \<Rightarrow> Some (r, st)
                   | Inr _ \<Rightarrow> run_endpoint env i (aq_endpoint q) sources opt st))))"

definition client_ip :: "('exe, 'g, 'ip) api_env \<Rightarrow> (string \<times> string) list \<Rightarrow> 'ip" where
  "client_ip env hs =
     unwrap_or
       (Option.bind (header_text hs ''x-forwarded-for'') (\<lambda>v. ae_parse_ip env (trim (hd (split_char (CHR '','') v)))))
       (ae_localhost env)"

definition serve_request ::
  "('exe, 'g, 'ip) api_env \<Rightarrow> nat \<Rightarrow> nat \<Rightarrow> api_request \<Rightarrow> 'ip api_state \<Rightarrow> (api_response \<times> 'ip api_state) option" where
  "serve_request env i now q st =
     (let (ok, l) = limiter_check (client_ip env (aq_headers q)) now (as_limiter st); st' = st\<lparr>as_limiter := l\<rparr>
      in map_option (\<lambda>(r, st2). (add_security_headers r, st2))
           (if ok then handle_endpoint env i q st'
            else Some (error_response 429 (''rate limit exceeded '' @ em_dash @ '' try again later''), st')))"

section \<open>The limit holds in every minute\<close>

text \<open>The accepted ones of a sequence of requests, each an address and an instant.\<close>

fun limited :: "('ip \<times> nat) list \<Rightarrow> 'ip ip_limiter \<Rightarrow> ('ip \<times> nat) list" where
  "limited [] l = []"
| "limited ((ip, t) # qs) l =
     (case limiter_check ip t l of (ok, l') \<Rightarrow> if ok then (ip, t) # limited qs l' else limited qs l')"

text \<open>The same for the instants of one address, with the list that is kept for it.\<close>

fun single_limit :: "nat \<Rightarrow> nat list \<Rightarrow> nat list \<Rightarrow> nat list" where
  "single_limit n [] ks = []"
| "single_limit n (t # ts) ks =
     (let kept = filter (\<lambda>s. t - s < minute) ks
      in if n \<le> length kept then single_limit n ts kept else t # single_limit n ts (kept @ [t]))"

lemma limited_single:
  "map snd (filter (\<lambda>q. fst q = ip) (limited qs l))
    = single_limit (max_rpm l) (map snd (filter (\<lambda>q. fst q = ip) qs)) (unwrap_or (requests l ip) [])"
proof (induction qs arbitrary: l)
  case Nil
  then show ?case by simp
next
  case (Cons q qs)
  obtain a t where q: "q = (a, t)" by (cases q)
  obtain ok l' where step: "limiter_check a t l = (ok, l')" by (cases "limiter_check a t l")
  have same: "max_rpm l' = max_rpm l" "a \<noteq> ip \<Longrightarrow> requests l' ip = requests l ip"
    using step by (auto simp: limiter_check_def Let_def split: if_splits)
  show ?case
  proof (cases "a = ip")
    case False
    with Cons.IH [of l'] same q step show ?thesis by simp
  next
    case True
    define kept where "kept = filter (\<lambda>s. t - s < minute) (unwrap_or (requests l ip) [])"
    have "ok \<longleftrightarrow> \<not> max_rpm l \<le> length kept" "requests l' ip = Some (if ok then kept @ [t] else kept)"
      using step True by (auto simp: limiter_check_def Let_def kept_def split: if_splits)
    with Cons.IH [of l'] same(1) q step True show ?thesis
      by (cases ok) (simp_all add: Let_def flip: kept_def)
  qed
qed

definition in_minute :: "nat \<Rightarrow> nat \<Rightarrow> bool" where
  "in_minute u s = (s \<le> u \<and> u - s < minute)"

lemma single_limit_subset: "set (single_limit n ts ks) \<subseteq> set ts"
  by (induction ts arbitrary: ks) (auto simp: Let_def)

lemma single_limit_bound:
  assumes "sorted ts" "\<forall>k \<in> set ks. \<forall>t \<in> set ts. k \<le> t" "\<And>v. length (filter (in_minute v) ks) \<le> n"
  shows "length (filter (in_minute u) (ks @ single_limit n ts ks)) \<le> n"
  using assms
proof (induction ts arbitrary: ks)
  case Nil
  then show ?case by simp
next
  case (Cons t ts)
  define kept where "kept = filter (\<lambda>s. t - s < minute) ks"
  define ks' where "ks' = (if n \<le> length kept then kept else kept @ [t])"
  have rest: "single_limit n (t # ts) ks = (if n \<le> length kept then [] else [t]) @ single_limit n ts ks'"
    by (simp add: kept_def ks'_def Let_def)
  show ?case
  proof (cases "u < t")
    case True
    have "\<not> in_minute u s" if "s \<in> set (single_limit n (t # ts) ks)" for s
    proof -
      have "s \<in> set (t # ts)" using single_limit_subset that by (rule subsetD)
      then show ?thesis using True Cons.prems(1) by (auto simp: in_minute_def)
    qed
    then have "filter (in_minute u) (single_limit n (t # ts) ks) = []" by (simp add: filter_empty_conv)
    then show ?thesis using Cons.prems(3) [of u] by simp
  next
    case False
    have "filter (in_minute u) ks = filter (in_minute u) kept"
      unfolding kept_def using False Cons.prems(2) by (auto simp: in_minute_def intro!: filter_cong)
    then have eq: "filter (in_minute u) (ks @ single_limit n (t # ts) ks) = filter (in_minute u) (ks' @ single_limit n ts ks')"
      unfolding rest by (simp add: ks'_def)
    have "length (filter (in_minute v) ks') \<le> n" for v
    proof (cases "n \<le> length kept")
      case True
      have "length (filter (in_minute v) kept) \<le> length (filter (in_minute v) ks)"
        unfolding kept_def by (induction ks) auto
      with True Cons.prems(3) [of v] show ?thesis by (simp add: ks'_def)
    next
      case False
      have "length (filter (in_minute v) ks') \<le> length ks'" by (rule length_filter_le)
      with False show ?thesis by (simp add: ks'_def)
    qed
    moreover have "\<forall>k \<in> set ks'. \<forall>x \<in> set ts. k \<le> x"
      using Cons.prems(1,2) by (auto simp: ks'_def kept_def split: if_splits)
    ultimately show ?thesis unfolding eq using Cons.prems(1) by (intro Cons.IH) auto
  qed
qed

text \<open>
  C32: The limit of requests holds in every minute. Of the requests of one address, at most as many are accepted in
  any minute as the limit says, wherever the minute begins and whatever the requests of other addresses are, as long
  as the clock does not go back.
\<close>

theorem ip_limit_sound:
  fixes qs :: "('ip \<times> nat) list"
  assumes "sorted (map snd qs)"
  shows "length (filter (\<lambda>q. fst q = ip \<and> in_minute u (snd q)) (limited qs (new_limiter n))) \<le> n"
proof -
  have "sorted (map snd (filter (\<lambda>q. fst q = ip) qs))" using assms by (rule sorted_filter)
  then have bound: "length (filter (in_minute u) (single_limit n (map snd (filter (\<lambda>q. fst q = ip) qs)) [])) \<le> n"
    using single_limit_bound [of _ "[]" n u] by simp
  have one: "map snd (filter (\<lambda>q. fst q = ip) (limited qs (new_limiter n)))
      = single_limit n (map snd (filter (\<lambda>q. fst q = ip) qs)) []"
    by (simp add: limited_single new_limiter_def)
  have count: "length (filter (\<lambda>q. fst q = ip \<and> in_minute u (snd q)) xs)
      = length (filter (in_minute u) (map snd (filter (\<lambda>q. fst q = ip) xs)))" for xs :: "('ip \<times> nat) list"
    by (induction xs) auto
  show ?thesis unfolding count one by (rule bound)
qed

section \<open>The key is required\<close>

text \<open>The health is told without a key; it changes nothing but the record of the limit.\<close>

lemma health_request:
  assumes "serve_request env i now q st = Some (r, st')" and "aq_endpoint q = Health"
  shows "as_disk st' = as_disk st \<and> as_cache st' = as_cache st
    \<and> (if fst (limiter_check (client_ip env (aq_headers q)) now (as_limiter st))
       then r = add_security_headers (health env) else ar_status r = 429)"
proof -
  obtain ok l where limit: "limiter_check (client_ip env (aq_headers q)) now (as_limiter st) = (ok, l)"
    by (cases "limiter_check (client_ip env (aq_headers q)) now (as_limiter st)")
  then show ?thesis
    using assms by (cases ok) (auto simp: serve_request_def handle_endpoint_def add_security_headers_def error_response_def json_response_def)
qed

text \<open>The comparison in constant time is equality.\<close>

lemma keys_match_iff: "keys_match key expected \<longleftrightarrow> key = expected"
  by (auto simp: keys_match_def pad_to_def Let_def)

text \<open>A request whose guard refuses every body changes nothing and is answered with an error.\<close>

lemma refused_request:
  assumes "serve_request env i now q st = Some (r, st')" and "aq_endpoint q \<noteq> Health"
    and guard: "\<And>sources. \<exists>m. api_guard env (aq_headers q) sources = Inl (error_response 401 m)"
  shows "as_disk st' = as_disk st \<and> as_cache st' = as_cache st
    \<and> (ar_status r \<in> {401, 429}
      \<or> (\<exists>r0. (aq_body q = Inl r0 \<or> (\<exists>v. aq_body q = Inr v \<and> decode_body (aq_endpoint q) v = None \<and> r0 = ae_decode_error env v)) \<and> r = add_security_headers r0))"
proof -
  obtain ok l where limit: "limiter_check (client_ip env (aq_headers q)) now (as_limiter st) = (ok, l)"
    by (cases "limiter_check (client_ip env (aq_headers q)) now (as_limiter st)")
  define st1 where "st1 = st\<lparr>as_limiter := l\<rparr>"
  have st1: "as_disk st1 = as_disk st" "as_cache st1 = as_cache st" by (simp_all add: st1_def)
  have status: "ar_status (add_security_headers (error_response n m)) = n" for n m
    by (simp add: add_security_headers_def error_response_def json_response_def)
  show ?thesis
  proof (cases ok)
    case False
    with assms(1) limit st1 show ?thesis
      by (auto simp: serve_request_def status simp flip: st1_def)
  next
    case True
    with assms(1) limit obtain r0 where r0: "handle_endpoint env i q st1 = Some (r0, st')" "r = add_security_headers r0"
      by (auto simp: serve_request_def simp flip: st1_def)
    show ?thesis
    proof (cases "aq_body q")
      case (Inl x)
      with r0 assms(2) st1 show ?thesis by (auto simp: handle_endpoint_def)
    next
      case (Inr v)
      show ?thesis
      proof (cases "decode_body (aq_endpoint q) v")
        case None
        with Inr r0 assms(2) st1 show ?thesis by (auto simp: handle_endpoint_def)
      next
        case (Some d)
        obtain sources opt where d: "d = (sources, opt)" by (cases d)
        obtain m where "api_guard env (aq_headers q) sources = Inl (error_response 401 m)" using guard by blast
        with Some d Inr r0 assms(2) st1 status show ?thesis by (auto simp: handle_endpoint_def)
      qed
    qed
  qed
qed

text \<open>
  No work is done without the key. When a key is configured, a request to any endpoint but the health check that
  does not carry it changes neither files nor cache; it is answered with status 401 or 429, or with the response of the
  package for a body that cannot be read.
\<close>

theorem api_key_enforced:
  assumes "serve_request env i now q st = Some (r, st')" and "ae_key env = Some expected"
    and "aq_endpoint q \<noteq> Health" and "provided_key (aq_headers q) \<noteq> Some expected"
  shows "as_disk st' = as_disk st \<and> as_cache st' = as_cache st
    \<and> (ar_status r \<in> {401, 429}
      \<or> (\<exists>r0. (aq_body q = Inl r0 \<or> (\<exists>v. aq_body q = Inr v \<and> decode_body (aq_endpoint q) v = None \<and> r0 = ae_decode_error env v)) \<and> r = add_security_headers r0))"
proof -
  have "\<exists>m. api_guard env (aq_headers q) sources = Inl (error_response 401 m)" for sources
    using assms(2,4) by (auto simp: api_guard_def check_api_key_def keys_match_iff bind_result_def split: option.splits)
  from refused_request [OF assms(1,3) this] show ?thesis .
qed

text \<open>Every response carries the security headers.\<close>

lemma insert_header_set: "set (insert_header h hs) = {x \<in> set hs. fst x \<noteq> fst h} \<union> {h}"
  by (auto simp: insert_header_def)

lemma fold_insert_header:
  "distinct (map fst new_hs) \<Longrightarrow> set (fold insert_header new_hs hs)
    = {x \<in> set hs. fst x \<notin> fst ` set new_hs} \<union> set new_hs"
proof (induction new_hs arbitrary: hs)
  case Nil
  then show ?case by simp
next
  case (Cons h new_hs)
  then show ?case by (auto simp: insert_header_set)
qed

lemma responses_carry_security_headers:
  assumes "serve_request env i now q st = Some (r, st')"
  shows "set security_headers \<subseteq> set (ar_headers r)"
proof -
  have "distinct (map fst security_headers)" by code_simp
  then have "set security_headers \<subseteq> set (ar_headers (add_security_headers r0))" for r0
    by (simp add: add_security_headers_def fold_insert_header)
  with assms show ?thesis by (auto simp: serve_request_def Let_def split: prod.splits)
qed

section \<open>Names and addresses of the client\<close>

text \<open>A migration without a model whose file is in the directory for temporary files leaves no file behind.\<close>

lemma migrate_endpoint_cleans:
  assumes "migrate_endpoint env i src name_arg st = Some (r, st')" "ae_temp_dir env i = Inr dir"
    and "anthropic_api_key (providers (ae_config env)) = None"
    and "in_temp_dir dir (join_path dir (unwrap_or name_arg ''input'' @ ''.c''))"
    and "\<And>p. in_temp_dir dir p \<Longrightarrow> files (as_disk st) p = None"
  shows "files (as_disk st') = files (as_disk st)"
  using assms
  by (auto simp: migrate_endpoint_def run_pipeline_def drop_temp_dir_def Let_def fun_eq_iff split: option.splits)

text \<open>The name of a migration is a path: an absolute one leaves the directory for temporary files.\<close>

lemma migrate_name_leaves_directory: "join_path dir (''/home/user/main'' @ ''.c'') = ''/home/user/main.c''"
  by (simp add: join_path_def)

text \<open>The address is what the client writes into its header.\<close>

lemma client_chooses_address:
  assumes "list_all visible_ascii a" "CHR '','' \<notin> set a" "ae_parse_ip env (trim a) = Some ip"
  shows "client_ip env ((''x-forwarded-for'', a) # hs) = ip"
proof -
  have "split_char (CHR '','') a = [a]" using assms(2) by (rule split_char_plain)
  with assms show ?thesis by (simp add: client_ip_def header_text_def)
qed

section \<open>Examples\<close>

theorem ip_limit_sound_witness:
  "length (filter (\<lambda>q. fst q = (1::nat) \<and> in_minute 5 (snd q)) (limited [(1, 0), (1, 3), (2, 4), (1, 5)] (new_limiter 2))) \<le> 2"
  using ip_limit_sound [of "[(1::nat, 0), (1, 3), (2, 4), (1, 5)]" 1 5 2] by (simp del: limited.simps)

definition demo_api :: "(string, unit, nat) api_env" where
  "demo_api =
     \<lparr>ae_files = (\<lambda>_. demo_environment), ae_modular = (\<lambda>_. no_modular), ae_config = plain_config, ae_fuel = 20,
      ae_key = Some ''secret'', ae_public = True, ae_temp_dir = (\<lambda>_. Inr ''tmp''), ae_pipeline_writes = (\<lambda>_. []), ae_parse_ip = (\<lambda>_. None),
      ae_localhost = 0, ae_decode_error = (\<lambda>_. error_response 422 []), ae_core_error = (\<lambda>_. []), ae_version = ''0.1.0''\<rparr>"

definition demo_api_state :: "nat api_state" where
  "demo_api_state = \<lparr>as_limiter = new_limiter 60, as_disk = free_disk, as_cache = Map.empty\<rparr>"

definition demo_api_request :: api_request where
  "demo_api_request =
     \<lparr>aq_endpoint = Migrate, aq_headers = [(''authorization'', ''Bearer secreT'')],
      aq_body = Inr (JsonObject [(''source'', JsonString ''int main(void);'')])\<rparr>"

theorem api_key_enforced_witness:
  "\<exists>r st'. serve_request demo_api 0 7 demo_api_request demo_api_state = Some (r, st') \<and> as_disk st' = free_disk"
proof -
  have key: "provided_key (aq_headers demo_api_request) = Some ''secreT''" by code_simp
  have body: "decode_body Migrate (JsonObject [(''source'', JsonString ''int main(void);'')])
      = Some ([''int main(void);''], None)" by code_simp
  have "check_api_key (Some ''secret'') True (aq_headers demo_api_request) = Inl (error_response 401 ''invalid or missing API key'')"
    by (simp add: check_api_key_def key keys_match_iff)
  then have "api_guard demo_api (aq_headers demo_api_request) [''int main(void);'']
      = Inl (error_response 401 ''invalid or missing API key'')"
    by (simp add: api_guard_def demo_api_def)
  then have "handle_endpoint demo_api 0 demo_api_request st = Some (error_response 401 ''invalid or missing API key'', st)" for st
    using body by (simp add: handle_endpoint_def demo_api_request_def)
  then have "\<exists>x. serve_request demo_api 0 7 demo_api_request demo_api_state = Some x"
    by (cases "limiter_check (client_ip demo_api (aq_headers demo_api_request)) 7 (as_limiter demo_api_state)")
      (simp add: serve_request_def Let_def)
  then obtain r st' where run: "serve_request demo_api 0 7 demo_api_request demo_api_state = Some (r, st')" by auto
  have "ae_key demo_api = Some ''secret''" "aq_endpoint demo_api_request \<noteq> Health"
    by (simp_all add: demo_api_def demo_api_request_def)
  from api_key_enforced [OF run this] key have "as_disk st' = free_disk" by (simp add: demo_api_state_def)
  with run show ?thesis by blast
qed

end
