(* ===== verification/Html_Report.thy ===== *)
theory Html_Report
  imports File_Pipeline
begin

text \<open>
  The HTML reports (\<open>crates/noricum-cli/src/report.rs\<close>) of a unit and of a project: the templates of the source with
  their arguments, and the escaping of texts. In the literals a tilde stands for a double quote and a circumflex for
  an apostrophe.
\<close>

section \<open>Escaping\<close>

definition html_escape :: "string \<Rightarrow> string" where
  "html_escape s =
     replace_all (replace_all (replace_all (replace_all s ''&'' ''&amp;'') ''<'' ''&lt;'') ''>'' ''&gt;'') [quote] ''&quot;''"

definition escape_char :: "char \<Rightarrow> string" where
  "escape_char c =
     (if c = CHR ''&'' then ''&amp;'' else if c = CHR ''<'' then ''&lt;'' else if c = CHR ''>'' then ''&gt;''
      else if c = quote then ''&quot;'' else [c])"

lemma replace_char: "replace_all s [c] r = concat (map (\<lambda>x. if x = c then r else [x]) s)"
proof (induction s)
  case Nil
  then show ?case by (simp add: replace_all.simps)
next
  case (Cons x xs)
  then show ?case by (simp add: replace_all.simps [of "x # xs"])
qed

text \<open>The four replacements one after the other escape each character once.\<close>

lemma html_escape_chars: "html_escape s = concat (map escape_char s)"
  by (induction s) (simp_all add: html_escape_def replace_char escape_char_def quote_def)

text \<open>What a browser reads: the four entities are decoded, everything else stays.\<close>

fun html_unescape :: "string \<Rightarrow> string" where
  "html_unescape [] = []"
| "html_unescape (c # cs) =
     (if starts_with (c # cs) ''&amp;'' then CHR ''&'' # html_unescape (drop 4 cs)
      else if starts_with (c # cs) ''&lt;'' then CHR ''<'' # html_unescape (drop 3 cs)
      else if starts_with (c # cs) ''&gt;'' then CHR ''>'' # html_unescape (drop 3 cs)
      else if starts_with (c # cs) ''&quot;'' then quote # html_unescape (drop 5 cs)
      else c # html_unescape cs)"

text \<open>
  The escaping of texts loses nothing. A browser that decodes the entities of an escaped text reads the text
  itself, whatever it contains, also when it contains entities.
\<close>

theorem html_escape_roundtrip: "html_unescape (html_escape s) = s"
  unfolding html_escape_chars
  by (induction s) (auto simp: escape_char_def quote_def)

section \<open>Templates\<close>

definition right_arrow :: string where "right_arrow = [CHR 0xE2, CHR 0x86, CHR 0x92]"

definition html :: "string list \<Rightarrow> string" where
  "html ls = map (\<lambda>c. if c = CHR ''~'' then quote else if c = CHR ''^'' then CHR 0x27 else c) (join [newline] ls)"

text \<open>The arguments of a template stand between its parts.\<close>

fun fill :: "string list \<Rightarrow> string list \<Rightarrow> string" where
  "fill (s # ss) (a # as) = s @ a @ fill ss as"
| "fill ss as = concat ss"

definition report_template :: "string list" where
  "report_template =
     [html [''<!DOCTYPE html>'', ''<html lang=~en~>'', ''<head>'', ''<meta charset=~utf-8~>'',
         ''<meta name=~viewport~ content=~width=device-width, initial-scale=1~>'',
         ''<title>Noricum Migration Report: ''],
      html [''</title>'', ''<style>'', '':root {'',
         ''  --bg: #0d1117; --fg: #e6edf3; --card: #161b22; --border: #30363d;'',
         ''  --accent: #58a6ff; --pass: #3fb950; --fail: #f85149; --warn: #d29922;'', ''}'',
         ''* { margin: 0; padding: 0; box-sizing: border-box; }'',
         ''body { font-family: -apple-system, BlinkMacSystemFont, ^Segoe UI^, sans-serif; background: var(--bg); color: var(--fg); padding: 2rem; }'',
         ''h1 { color: var(--accent); margin-bottom: 1rem; font-size: 1.8rem; }'',
         ''h2 { color: var(--accent); margin: 1.5rem 0 0.75rem; font-size: 1.2rem; border-bottom: 1px solid var(--border); padding-bottom: 0.5rem; }'',
         ''.header { display: flex; justify-content: space-between; align-items: center; flex-wrap: wrap; gap: 1rem; }'',
         ''.badge { display: inline-block; padding: 0.25rem 0.75rem; border-radius: 2rem; font-weight: 600; font-size: 0.85rem; }'',
         ''.pass { background: #1a3a2a; color: var(--pass); }'',
         ''.fail { background: #3a1a1a; color: var(--fail); }'',
         ''.state { background: #1a2a3a; color: var(--accent); }'',
         ''.metrics { display: grid; grid-template-columns: repeat(auto-fit, minmax(180px, 1fr)); gap: 1rem; margin: 1rem 0; }'',
         ''.metric { background: var(--card); border: 1px solid var(--border); border-radius: 8px; padding: 1rem; text-align: center; }'',
         ''.metric .value { font-size: 1.8rem; font-weight: 700; }'',
         ''.metric .label { font-size: 0.8rem; color: #8b949e; margin-top: 0.25rem; }'',
         ''.score-high .value { color: var(--pass); }'', ''.score-mid .value { color: var(--warn); }'',
         ''.score-low .value { color: var(--fail); }'',
         ''.side-by-side { display: grid; grid-template-columns: 1fr 1fr; gap: 1rem; margin: 1rem 0; }'',
         ''.code-panel { background: var(--card); border: 1px solid var(--border); border-radius: 8px; overflow: hidden; }'',
         ''.code-panel h3 { background: var(--border); padding: 0.5rem 1rem; font-size: 0.9rem; }'',
         ''.code-panel pre { padding: 1rem; overflow-x: auto; font-size: 0.85rem; line-height: 1.5; }'',
         ''code { font-family: ^JetBrains Mono^, ^Fira Code^, ^Cascadia Code^, monospace; }'',
         ''section { margin-bottom: 2rem; }'',
         ''.footer { margin-top: 3rem; padding-top: 1rem; border-top: 1px solid var(--border); color: #8b949e; font-size: 0.8rem; }'',
         ''@media (max-width: 768px) { .side-by-side { grid-template-columns: 1fr; } }'', ''</style>'',
         ''</head>'', ''<body>'', ''<div class=~header~>'', ''  <h1>Noricum Migration Report</h1>'',
         ''  <div>'', ''    <span class=~badge state~>''],
      html [''</span>'', ''  </div>'', ''</div>'', [], ''<section>'', ''<h2>Summary</h2>'',
         ''<div class=~metrics~>'', ''  <div class=~metric~>'', ''    <div class=~value~>''],
      html [''</div>'', ''    <div class=~label~>Function</div>'', ''  </div>'', ''  <div class=~metric~>'',
         ''    <div class=~value~>''],
      html [''</div>'', ''    <div class=~label~>Difficulty</div>'', ''  </div>'', ''  <div class=~metric ''],
      html [''~>'', ''    <div class=~value~>''],
      html [''</div>'', ''    <div class=~label~>Idiomatic Score</div>'', ''  </div>'',
         ''  <div class=~metric~>'', ''    <div class=~value~>''],
      html [''</div>'', ''    <div class=~label~>Unsafe Blocks</div>'', ''  </div>'',
         ''  <div class=~metric~>'', ''    <div class=~value~>''],
      html [''</div>'', ''    <div class=~label~>Diff Test</div>'', ''  </div>'', ''</div>'', ''</section>'',
         [], ''<section>'', ''<h2>Source Code</h2>'', ''<div class=~side-by-side~>'',
         ''  <div class=~code-panel~>'', ''    <h3>C (Original)</h3>'', ''    <pre><code class=~language-c~>''],
      html [''</code></pre>'', ''  </div>'', ''  <div class=~code-panel~>'', ''    <h3>Rust (Migrated)</h3>'',
         ''    <pre><code class=~language-rust~>''],
      html [''</code></pre>'', ''  </div>'', ''</div>'', ''</section>'', [], ''<section>'',
         ''<h2>Pipeline Metrics</h2>'', ''<div class=~metrics~>'', ''  <div class=~metric~>'',
         ''    <div class=~value~>''],
      html [''ms</div>'', ''    <div class=~label~>Total Time</div>'', ''  </div>'',
         ''  <div class=~metric~>'', ''    <div class=~value~>''],
      html [''</div>'', ''    <div class=~label~>LLM Calls</div>'', ''  </div>'', ''  <div class=~metric~>'',
         ''    <div class=~value~>''],
      html [''</div>'', ''    <div class=~label~>Repair Iterations</div>'', ''  </div>'',
         ''  <div class=~metric~>'', ''    <div class=~value~>''],
      html [''L ''],
      html ['' ''],
      html [''L</div>'', ''    <div class=~label~>C Lines ''],
      html ['' Rust Lines</div>'', ''  </div>'', ''</div>'', ''</section>'', [], []],
      html [[], [], ''<div class=~footer~>'', ''  Generated by <strong>Noricum</strong> ''],
      html ['' Autonomous C/C++ to Rust Migration Agent'', ''</div>'', ''</body>'', ''</html>'']]"

definition project_template :: "string list" where
  "project_template =
     [html [''<!DOCTYPE html>'', ''<html lang=~en~>'', ''<head>'', ''<meta charset=~utf-8~>'',
         ''<meta name=~viewport~ content=~width=device-width, initial-scale=1~>'',
         ''<title>Noricum Project Report: ''],
      html [''</title>'', ''<style>'', '':root {'',
         ''  --bg: #0d1117; --fg: #e6edf3; --card: #161b22; --border: #30363d;'',
         ''  --accent: #58a6ff; --pass: #3fb950; --fail: #f85149; --warn: #d29922;'', ''}'',
         ''* { margin: 0; padding: 0; box-sizing: border-box; }'',
         ''body { font-family: -apple-system, BlinkMacSystemFont, ^Segoe UI^, sans-serif; background: var(--bg); color: var(--fg); padding: 2rem; }'',
         ''h1 { color: var(--accent); margin-bottom: 0.5rem; }'',
         ''h2 { color: var(--accent); margin: 1.5rem 0 0.75rem; border-bottom: 1px solid var(--border); padding-bottom: 0.5rem; }'',
         ''.summary { font-size: 1.1rem; margin-bottom: 1.5rem; color: #8b949e; }'',
         ''table { width: 100%; border-collapse: collapse; margin: 1rem 0; }'',
         ''th, td { padding: 0.75rem 1rem; text-align: left; border-bottom: 1px solid var(--border); }'',
         ''th { background: var(--card); font-weight: 600; }'', ''tr:hover { background: var(--card); }'',
         ''.badge { display: inline-block; padding: 0.2rem 0.6rem; border-radius: 2rem; font-weight: 600; font-size: 0.8rem; }'',
         ''.pass { color: var(--pass); } .fail { color: var(--fail); } .warn { color: var(--warn); }'',
         ''.state { background: #1a2a3a; color: var(--accent); }'',
         ''.footer { margin-top: 3rem; padding-top: 1rem; border-top: 1px solid var(--border); color: #8b949e; font-size: 0.8rem; }'',
         ''</style>'', ''</head>'', ''<body>'', ''<h1>Noricum Project Report</h1>'', ''<p class=~summary~>''],
      html ['' ''],
      html ['' ''],
      html [''/''],
      html ['' functions validated</p>'', [], ''<h2>Migration Results</h2>'', ''<table>'', ''<thead><tr>'',
         ''  <th>Function</th><th>State</th><th>Score</th><th>Unsafe</th><th>Diff Test</th><th>Time</th><th>LLM Calls</th>'',
         ''</tr></thead>'', ''<tbody>'', []],
      html [[], ''</tbody>'', ''</table>'', [], ''<div class=~footer~>'',
         ''  Generated by <strong>Noricum</strong> ''],
      html ['' Autonomous C/C++ to Rust Migration Agent'', ''</div>'', ''</body>'', ''</html>'']]"

definition row_template :: "string list" where
  "row_template =
     [html [''<tr>'', ''  <td>''],
      html [''</td>'', ''  <td><span class=~badge state~>''],
      html [''</span></td>'', ''  <td><span class=~''],
      html [''~>''],
      html [''/100</span></td>'', ''  <td>''],
      html [''</td>'', ''  <td>''],
      html [''</td>'', ''  <td>''],
      html [''ms</td>'', ''  <td>''],
      html [''</td>'', ''</tr>'', []]]"

section \<open>Reports\<close>

definition show_u32_option :: "u32 option \<Rightarrow> string \<Rightarrow> string" where
  "show_u32_option x unit_text = (case x of Some n \<Rightarrow> show_nat (unat n) @ unit_text | None \<Rightarrow> ''N/A'')"

definition diff_test_html :: "string \<Rightarrow> string \<Rightarrow> bool option \<Rightarrow> string" where
  "diff_test_html pass_text fail_text d =
     (case d of
        Some True \<Rightarrow> html [''<span class=~pass~>''] @ pass_text @ ''</span>''
      | Some False \<Rightarrow> html [''<span class=~fail~>''] @ fail_text @ ''</span>''
      | None \<Rightarrow> ''N/A'')"

definition score_class :: "string \<Rightarrow> string \<Rightarrow> string \<Rightarrow> u32 \<Rightarrow> string" where
  "score_class high mid low n = (if 90 \<le> n then high else if 70 \<le> n then mid else low)"

definition tests_html :: "string option \<Rightarrow> string" where
  "tests_html t =
     (case t of
        Some text \<Rightarrow>
          html [''<section><h2>Generated Tests</h2><pre><code class=~language-rust~>''] @ html_escape text
          @ ''</code></pre></section>''
      | None \<Rightarrow> [])"

definition report_arguments :: "function_unit \<Rightarrow> string list" where
  "report_arguments u =
     (let nm = html_escape (unit_name u); m = metrics u
      in [nm, debug_state (unit_state u), nm,
          (case unit_difficulty u of Some d \<Rightarrow> debug_difficulty d | None \<Rightarrow> ''N/A''),
          score_class ''score-high'' ''score-mid'' ''score-low'' (unwrap_or (idiomatic_score u) 0),
          show_u32_option (idiomatic_score u) ''/100'', show_u32_option (unsafe_count u) [],
          diff_test_html ''PASSED'' ''FAILED'' (metrics_diff_test_passed m), html_escape (c_source u),
          (case rust_output u of Some r \<Rightarrow> html_escape r | None \<Rightarrow> ''(no output)''),
          show_nat (unat (total_ms m)), show_nat (unat (llm_calls m)), show_nat (unat (repair_iterations m)),
          show_nat (unat (m_c_lines m)), right_arrow, show_nat (unat (m_rust_lines m)), right_arrow,
          tests_html (generated_tests u), em_dash])"

definition generate_html_report :: "function_unit \<Rightarrow> string" where
  "generate_html_report u = fill report_template (report_arguments u)"

definition project_row :: "function_unit \<Rightarrow> string" where
  "project_row u =
     (let n = unwrap_or (idiomatic_score u) 0; m = metrics u
      in fill row_template
           [html_escape (unit_name u), debug_state (unit_state u), score_class ''pass'' ''warn'' ''fail'' n, show_nat (unat n),
            show_nat (unat (unwrap_or (unsafe_count u) 0)), diff_test_html ''PASS'' ''FAIL'' (metrics_diff_test_passed m),
            show_nat (unat (total_ms m)), show_nat (unat (llm_calls m))])"

definition generate_project_html_report :: "function_unit list \<Rightarrow> string \<Rightarrow> string" where
  "generate_project_html_report us title =
     (let nm = html_escape title
      in fill project_template
           [nm, nm, em_dash, show_nat (length (filter (\<lambda>u. unit_state u = Validated) us)), show_nat (length us),
            concat (map project_row us), em_dash])"

section \<open>Texts cannot become markup\<close>

definition is_markup :: "char \<Rightarrow> bool" where
  "is_markup c = (c = CHR ''<'' \<or> c = CHR ''>'' \<or> c = quote)"

abbreviation markup :: "string \<Rightarrow> string" where
  "markup s \<equiv> filter is_markup s"

lemma markup_escaped [simp]: "markup (html_escape s) = []"
  unfolding html_escape_chars
  by (induction s) (simp_all add: escape_char_def is_markup_def quote_def)

lemma digit_not_markup: "is_digit c \<Longrightarrow> \<not> is_markup c"
  by (auto simp: is_markup_def is_digit_def quote_def)

lemma markup_show_nat [simp]: "markup (show_nat n) = []"
  using show_nat_digits [of n] digit_not_markup by (auto simp: filter_empty_conv list_all_iff)

lemma markup_debug_state [simp]: "markup (debug_state s) = []"
  by (cases s) (simp_all add: debug_state_def is_markup_def quote_def)

lemma markup_fill: "map (filter is_markup) as = map (filter is_markup) bs \<Longrightarrow> markup (fill ss as) = markup (fill ss bs)"
proof (induction ss arbitrary: as bs)
  case Nil
  then show ?case by simp
next
  case (Cons s ss)
  show ?case
  proof (cases as)
    case Nil
    with Cons.prems show ?thesis by simp
  next
    case (Cons a as')
    then obtain b bs' where "bs = b # bs'" "markup a = markup b" "map (filter is_markup) as' = map (filter is_markup) bs'"
      using \<open>map (filter is_markup) as = map (filter is_markup) bs\<close> by (cases bs) auto
    with Cons Cons.IH [of as' bs'] show ?thesis by simp
  qed
qed

text \<open>
  C33: No text of a unit becomes markup. The tags and quotes of a report, in their order, are the same for any two
  units that agree in the outcome of the differential test and in whether tests were generated, whatever their names,
  sources, outputs and tests contain.
\<close>

theorem report_markup_fixed:
  assumes "metrics_diff_test_passed (metrics u) = metrics_diff_test_passed (metrics v)"
    and "(generated_tests u = None) = (generated_tests v = None)"
  shows "filter is_markup (generate_html_report u) = filter is_markup (generate_html_report v)"
  unfolding generate_html_report_def
proof (rule markup_fill)
  have plain: "markup (show_u32_option x ''/100'') = []" "markup (show_u32_option x []) = []" for x
    by (cases x; simp add: show_u32_option_def; simp add: is_markup_def quote_def)+
  have level: "markup (score_class ''score-high'' ''score-mid'' ''score-low'' n) = []" for n
    by (simp add: score_class_def is_markup_def quote_def)
  have difficulty_text: "markup (case d of Some x \<Rightarrow> debug_difficulty x | None \<Rightarrow> ''N/A'') = []" for d
    by (cases d) (auto simp: debug_difficulty_def is_markup_def quote_def split: difficulty.splits)
  have output_text: "markup (case r of Some x \<Rightarrow> html_escape x | None \<Rightarrow> ''(no output)'') = []" for r
    by (cases r) (simp_all add: is_markup_def quote_def)
  have tests: "markup (tests_html (generated_tests u)) = markup (tests_html (generated_tests v))"
    using assms(2) by (cases "generated_tests u"; cases "generated_tests v") (simp_all add: tests_html_def)
  show "map (filter is_markup) (report_arguments u) = map (filter is_markup) (report_arguments v)"
    using assms(1) tests by (simp add: report_arguments_def Let_def plain level difficulty_text output_text)
qed

lemma project_row_markup:
  assumes "metrics_diff_test_passed (metrics u) = metrics_diff_test_passed (metrics v)"
  shows "markup (project_row u) = markup (project_row v)"
proof -
  have level: "markup (score_class ''pass'' ''warn'' ''fail'' n) = []" for n
    by (simp add: score_class_def is_markup_def quote_def)
  show ?thesis unfolding project_row_def Let_def by (rule markup_fill) (simp add: level assms)
qed

text \<open>The same for a project: names of the project and of its functions add no markup.\<close>

lemma project_report_markup_fixed:
  assumes "map (\<lambda>u. metrics_diff_test_passed (metrics u)) us = map (\<lambda>u. metrics_diff_test_passed (metrics u)) vs"
  shows "markup (generate_project_html_report us t) = markup (generate_project_html_report vs t')"
proof -
  have "markup (concat (map project_row us)) = markup (concat (map project_row vs))"
    using assms
  proof (induction us arbitrary: vs)
    case Nil
    then show ?case by simp
  next
    case (Cons u us)
    then obtain v vs' where vs: "vs = v # vs'"
      and same: "metrics_diff_test_passed (metrics u) = metrics_diff_test_passed (metrics v)"
      and rest: "map (\<lambda>u. metrics_diff_test_passed (metrics u)) us = map (\<lambda>u. metrics_diff_test_passed (metrics u)) vs'"
      by (cases vs) auto
    from Cons.IH [OF rest] project_row_markup [OF same] vs show ?case by simp
  qed
  then show ?thesis unfolding generate_project_html_report_def Let_def by (intro markup_fill) simp
qed

definition demo_unit :: function_unit where
  "demo_unit = (new_unit ''a<b>'' ''a.c'' ''if (a < b) { puts(x); }'')\<lparr>rust_output := Some ''</pre>''\<rparr>"

theorem report_markup_fixed_witness:
  "filter is_markup (generate_html_report demo_unit) = filter is_markup (generate_html_report (new_unit [] [] []))"
  using report_markup_fixed [of demo_unit "new_unit [] [] []"] by (simp add: demo_unit_def new_unit_def)

end
