(* ===== verification/Doc_Gen.thy ===== *)
theory Doc_Gen
  imports Regex_Engine Line_Fold
begin

text \<open>
  The generator of documentation (\<open>crates/noricum-tools/src/doc_gen.rs\<close>): the comments above a C function, and
  the doc comments in front of Rust functions.
\<close>

lemma set_lines_chars: "l \<in> set (lines s) \<Longrightarrow> set l \<subseteq> set s"
proof (induction s rule: lines_induct)
  case (Newline k r)
  then show ?case by (auto simp: lines_append_newline strip_cr_def split: if_splits dest: in_set_butlastD)
qed (auto simp: lines_no_newline)

lemma set_strip_prefixes: "set (strip_prefixes p s) \<subseteq> set s"
proof (induction p s rule: strip_prefixes.induct)
  case (1 p s)
  then show ?case by (subst strip_prefixes.simps) (auto dest: in_set_dropD)
qed

lemma set_strip_suffixes: "set (strip_suffixes p s) \<subseteq> set s"
  using set_strip_prefixes [of "rev p" "rev s"] by (simp add: strip_suffixes_def)

section \<open>Comments of the C source\<close>

text \<open>The lines of a block comment from its end upwards.\<close>

fun block_lines :: "string list \<Rightarrow> nat \<Rightarrow> string list" where
  "block_lines ls i =
     (let t = trim (ls ! i);
          cleaned = trim (strip_prefixes ''*'' (strip_suffixes ''*/'' (strip_prefixes ''/*'' t)));
          here = (if cleaned \<noteq> [] then [cleaned] else [])
      in case i of
           0 \<Rightarrow> here
         | Suc k \<Rightarrow> if contains t ''/*'' then here else here @ block_lines ls k)"

declare block_lines.simps [simp del]

definition extract_block_comment :: "string list \<Rightarrow> nat \<Rightarrow> string list" where
  "extract_block_comment ls i = rev (block_lines ls i)"

fun comments_above :: "string list \<Rightarrow> nat \<Rightarrow> string list" where
  "comments_above ls i =
     (let t = trim (ls ! i); more = (case i of 0 \<Rightarrow> [] | Suc k \<Rightarrow> comments_above ls k)
      in if starts_with t ''//'' then trim (strip_prefixes ''//'' t) # more
         else if ends_with t ''*/'' then extract_block_comment ls i
         else if t \<noteq> [] then [] else more)"

declare comments_above.simps [simp del]

definition mentions_function :: "string \<Rightarrow> string \<Rightarrow> bool" where
  "mentions_function nm line =
     (let t = trim line in contains t nm \<and> CHR ''('' \<in> set t \<and> \<not> starts_with t ''//'')"

definition extract_c_comments :: "string \<Rightarrow> string \<Rightarrow> string list" where
  "extract_c_comments c_src nm =
     (let ls = lines c_src
      in case position (mentions_function nm) ls of
           None \<Rightarrow> []
         | Some k \<Rightarrow> rev (comments_above ls (k - 1)))"

section \<open>Doc comments\<close>

definition already_has_doc_comment :: "string \<Rightarrow> bool" where
  "already_has_doc_comment text =
     (case List.find (\<lambda>l. trim l \<noteq> []) (rev (lines text)) of
        Some l \<Rightarrow> starts_with (trim l) ''///''
      | None \<Rightarrow> False)"

definition signature_pattern :: string where
  "signature_pattern = raw ''fn%s+%w+%(([^)]*)%)(?:%s*->%s*(%S+))?''"

text \<open>The second group is optional and not empty when it takes part.\<close>

definition generate_brief_from_signature :: "regex_engine \<Rightarrow> string \<Rightarrow> string \<Rightarrow> string" where
  "generate_brief_from_signature eng sig nm =
     (let intro = ''Migrated from C function '' @ [backtick] @ nm @ [backtick]
      in case re_captures eng signature_pattern sig of
           None \<Rightarrow> intro @ ''.''
         | Some c \<Rightarrow>
             (let ps = cap_index c 1; ret = cap_index c 2;
                  names = map (\<lambda>p. trim (hd (split_char (CHR '':'') p))) (split_char (CHR '','') ps)
              in intro @ (if ps = [] then [] else '' with '' @ join '', '' names)
                 @ (if ret \<noteq> [] \<and> ret \<noteq> ''()'' then '', returning '' @ [backtick] @ ret @ [backtick] else []) @ ''.''))"

definition is_fn_decl :: "string \<Rightarrow> bool" where
  "is_fn_decl t =
     list_ex (starts_with t) [''pub fn '', ''fn '', ''pub unsafe fn '', ''unsafe fn '']"

text \<open>The lines that are put in front of a declaration.\<close>

definition doc_lines :: "regex_engine \<Rightarrow> string list \<Rightarrow> string \<Rightarrow> string \<Rightarrow> string \<Rightarrow> string list" where
  "doc_lines eng c_comments rust nm sig =
     (if c_comments \<noteq> [] then map (\<lambda>c. ''/// '' @ c) c_comments
      else [''/// '' @ generate_brief_from_signature eng sig nm])
     @ (if contains rust ''unsafe ''
        then [''///'', ''/// # Safety'', ''/// This function contains unsafe code.''] else [])"

definition end_lines :: "string list \<Rightarrow> string" where
  "end_lines ls = concat (map (\<lambda>l. l @ [newline]) ls)"

fun document_lines ::
  "regex_engine \<Rightarrow> string list \<Rightarrow> string \<Rightarrow> string \<Rightarrow> string list \<Rightarrow> string \<Rightarrow> string" where
  "document_lines eng c_comments rust nm [] text = text"
| "document_lines eng c_comments rust nm (line # ls) text =
     (let t = trim line;
          docs = (if is_fn_decl t \<and> \<not> already_has_doc_comment text then doc_lines eng c_comments rust nm t else [])
      in document_lines eng c_comments rust nm ls (text @ end_lines docs @ line @ [newline]))"

definition add_docs_to_rust :: "regex_engine \<Rightarrow> string \<Rightarrow> string \<Rightarrow> string \<Rightarrow> string" where
  "add_docs_to_rust eng rust c_src nm = document_lines eng (extract_c_comments c_src nm) rust nm (lines rust) []"

section \<open>The code stays\<close>

lemma lines_end_lines: "\<forall>l \<in> set ls. newline \<notin> set l \<Longrightarrow> lines (end_lines ls @ rest) = map strip_cr ls @ lines rest"
  by (induction ls) (simp_all add: end_lines_def lines_append_newline)

text \<open>The documented text is the sequence of its lines, and those that are not doc comments are those of the code.\<close>

definition is_doc :: "string \<Rightarrow> bool" where
  "is_doc l = starts_with l ''///''"

lemma document_lines_code:
  assumes "\<And>sig. newline \<notin> set sig \<Longrightarrow> \<forall>l \<in> set (doc_lines eng cs rust nm sig). newline \<notin> set l"
    and "\<forall>l \<in> set ls. newline \<notin> set l"
  shows "\<exists>out. document_lines eng cs rust nm ls (end_lines done_lines) = end_lines (done_lines @ out)
    \<and> (\<forall>l \<in> set out. newline \<notin> set l) \<and> filter (\<lambda>l. \<not> is_doc l) out = filter (\<lambda>l. \<not> is_doc l) ls"
  using assms(2)
proof (induction ls arbitrary: done_lines)
  case Nil
  then show ?case by (intro exI [of _ "[]"]) simp
next
  case (Cons line ls)
  define docs where "docs = (if is_fn_decl (trim line) \<and> \<not> already_has_doc_comment (end_lines done_lines)
    then doc_lines eng cs rust nm (trim line) else [])"
  have "newline \<notin> set (trim line)" using Cons.prems set_trim by auto
  then have plain: "\<forall>l \<in> set docs. newline \<notin> set l" using assms(1) by (simp add: docs_def)
  have doc: "filter (\<lambda>l. \<not> is_doc l) docs = []"
    by (auto simp: docs_def doc_lines_def is_doc_def filter_empty_conv)
  have step: "end_lines done_lines @ end_lines docs @ line @ [newline] = end_lines (done_lines @ docs @ [line])"
    by (simp add: end_lines_def)
  obtain out where out: "document_lines eng cs rust nm ls (end_lines (done_lines @ docs @ [line]))
      = end_lines ((done_lines @ docs @ [line]) @ out)"
    "\<forall>l \<in> set out. newline \<notin> set l" "filter (\<lambda>l. \<not> is_doc l) out = filter (\<lambda>l. \<not> is_doc l) ls"
    using Cons.IH [of "done_lines @ docs @ [line]"] Cons.prems by auto
  have "document_lines eng cs rust nm (line # ls) (end_lines done_lines) = end_lines (done_lines @ (docs @ line # out))"
    using out(1) by (simp add: Let_def step flip: docs_def)
  with out plain doc Cons.prems show ?case by (intro exI [of _ "docs @ line # out"]) auto
qed

lemma block_lines_plain:
  assumes "\<forall>l \<in> set ls. newline \<notin> set l" "i < length ls"
  shows "\<forall>c \<in> set (block_lines ls i). newline \<notin> set c"
  using assms(2)
proof (induction i)
  case 0
  have "newline \<notin> set (ls ! 0)" using assms(1) 0 nth_mem by blast
  then have "newline \<notin> set (trim (strip_prefixes ''*'' (strip_suffixes ''*/'' (strip_prefixes ''/*'' (trim (ls ! 0))))))"
    using set_trim set_strip_prefixes set_strip_suffixes by blast
  then show ?case by (simp add: block_lines.simps [of ls 0] Let_def)
next
  case (Suc k)
  have "newline \<notin> set (ls ! Suc k)" using assms(1) Suc.prems nth_mem by blast
  then have "newline \<notin> set (trim (strip_prefixes ''*'' (strip_suffixes ''*/'' (strip_prefixes ''/*'' (trim (ls ! Suc k))))))"
    using set_trim set_strip_prefixes set_strip_suffixes by blast
  with Suc show ?case by (auto simp: block_lines.simps [of ls "Suc k"] Let_def)
qed

lemma comments_above_plain:
  assumes "\<forall>l \<in> set ls. newline \<notin> set l" "i < length ls"
  shows "\<forall>c \<in> set (comments_above ls i). newline \<notin> set c"
  using assms(2)
proof (induction i)
  case 0
  have "newline \<notin> set (ls ! 0)" using assms(1) 0 nth_mem by blast
  then have "newline \<notin> set (trim (strip_prefixes ''//'' (trim (ls ! 0))))"
    using set_trim set_strip_prefixes by blast
  with block_lines_plain [OF assms(1) 0] show ?case
    by (simp add: comments_above.simps [of ls 0] extract_block_comment_def Let_def)
next
  case (Suc k)
  have "newline \<notin> set (ls ! Suc k)" using assms(1) Suc.prems nth_mem by blast
  then have "newline \<notin> set (trim (strip_prefixes ''//'' (trim (ls ! Suc k))))"
    using set_trim set_strip_prefixes by blast
  with Suc block_lines_plain [OF assms(1) Suc.prems] show ?case
    by (auto simp: comments_above.simps [of ls "Suc k"] extract_block_comment_def Let_def)
qed

lemma extract_c_comments_plain: "\<forall>c \<in> set (extract_c_comments c_src nm). newline \<notin> set c"
proof (cases "position (mentions_function nm) (lines c_src)")
  case None
  then show ?thesis by (simp add: extract_c_comments_def)
next
  case (Some k)
  then have "k - 1 < length (lines c_src)" using position_Some [OF Some] by linarith
  then show ?thesis
    using comments_above_plain [of "lines c_src" "k - 1"] lines_no_newline_in Some
    by (simp add: extract_c_comments_def)
qed

lemma newline_join: "newline \<notin> set sep \<Longrightarrow> \<forall>x \<in> set xs. newline \<notin> set x \<Longrightarrow> newline \<notin> set (join sep xs)"
  by (induction xs rule: induct_list012) auto

lemma set_split_char: "p \<in> set (split_char d s) \<Longrightarrow> set p \<subseteq> set s"
proof (induction s arbitrary: p)
  case Nil
  then show ?case by simp
next
  case (Cons c cs)
  obtain q qs where "split_char d cs = q # qs" by (cases "split_char d cs") auto
  with Cons show ?case by (auto split: if_splits) blast+
qed

lemma brief_plain:
  assumes "newline \<notin> set nm"
    and "\<And>c. re_captures eng signature_pattern sig = Some c \<Longrightarrow> newline \<notin> set (cap_index c 1) \<and> newline \<notin> set (cap_index c 2)"
  shows "newline \<notin> set (generate_brief_from_signature eng sig nm)"
proof (cases "re_captures eng signature_pattern sig")
  case None
  with assms(1) show ?thesis by (simp add: generate_brief_from_signature_def backtick_def newline_def)
next
  case (Some c)
  note groups = assms(2) [OF Some]
  have "newline \<notin> set (trim (hd (split_char (CHR '':'') p)))" if "p \<in> set (split_char (CHR '','') (cap_index c 1))" for p
  proof -
    have "hd (split_char (CHR '':'') p) \<in> set (split_char (CHR '':'') p)" by (rule hd_in_set) simp
    then have "set (hd (split_char (CHR '':'') p)) \<subseteq> set p" by (rule set_split_char)
    with set_split_char [OF that] set_trim [of "hd (split_char (CHR '':'') p)"] groups show ?thesis by blast
  qed
  then have "newline \<notin> set (join '', '' (map (\<lambda>p. trim (hd (split_char (CHR '':'') p))) (split_char (CHR '','') (cap_index c 1))))"
    by (intro newline_join) (auto simp: newline_def)
  with Some groups assms(1) show ?thesis
    by (simp add: generate_brief_from_signature_def Let_def backtick_def newline_def)
qed

lemma is_doc_strip_cr: "is_doc (strip_cr l) = is_doc l"
proof (cases "l \<noteq> [] \<and> last l = cr")
  case False
  then show ?thesis by (auto simp: strip_cr_def)
next
  case True
  then obtain k where "l = k @ [cr]" by (metis append_butlast_last_id)
  moreover have "starts_with (k @ [cr]) ''///'' = starts_with k ''///''"
    by (cases k rule: list.exhaust; cases "tl k"; cases "tl (tl k)") (auto simp: cr_def)
  ultimately show ?thesis by (simp add: is_doc_def strip_cr_def)
qed

text \<open>
  C34: Documentation does not touch the code. The lines of a documented text that are not doc comments are those of
  the text itself, in their order; what the generator adds are doc comments only, whatever the C source contains.
\<close>

theorem docs_keep_code:
  assumes "newline \<notin> set nm" "cr \<notin> set rust"
    and "\<And>sig c. newline \<notin> set sig \<Longrightarrow> re_captures eng signature_pattern sig = Some c
      \<Longrightarrow> newline \<notin> set (cap_index c 1) \<and> newline \<notin> set (cap_index c 2)"
  shows "filter (\<lambda>l. \<not> is_doc l) (lines (add_docs_to_rust eng rust c_src nm)) = filter (\<lambda>l. \<not> is_doc l) (lines rust)"
proof -
  let ?cs = "extract_c_comments c_src nm"
  have docs: "\<forall>l \<in> set (doc_lines eng ?cs rust nm sig). newline \<notin> set l" if "newline \<notin> set sig" for sig
    using extract_c_comments_plain [of c_src nm] brief_plain [of nm eng sig] assms(1) assms(3) [OF that]
    by (auto simp: doc_lines_def newline_def)
  obtain out where out: "add_docs_to_rust eng rust c_src nm = end_lines out" "\<forall>l \<in> set out. newline \<notin> set l"
    "filter (\<lambda>l. \<not> is_doc l) out = filter (\<lambda>l. \<not> is_doc l) (lines rust)"
    using document_lines_code [of eng ?cs rust nm "lines rust" "[]", OF docs] lines_no_newline_in
    by (auto simp: add_docs_to_rust_def end_lines_def)
  have "lines (end_lines out) = map strip_cr out" using lines_end_lines [OF out(2), of "[]"] by simp
  then have "filter (\<lambda>l. \<not> is_doc l) (lines (end_lines out)) = map strip_cr (filter (\<lambda>l. \<not> is_doc l) out)"
    by (simp add: filter_map comp_def is_doc_strip_cr)
  also have "\<dots> = filter (\<lambda>l. \<not> is_doc l) (lines rust)"
  proof -
    have "strip_cr l = l" if "l \<in> set (lines rust)" for l
      using set_lines_chars [OF that] assms(2) by (auto simp: strip_cr_def dest: last_in_set)
    then show ?thesis unfolding out(3) by (intro map_idI) simp
  qed
  finally show ?thesis by (simp add: out(1))
qed

text \<open>The lines of a block comment come out in reverse order.\<close>

lemma block_comment_reversed:
  "extract_c_comments (unlines [''/* first'', '' * second */'', ''int f(void) {'', ''}'']) ''f'' = [''second'', ''first'']"
  by code_simp

definition plain_engine :: regex_engine where
  "plain_engine =
     \<lparr>re_is_match = (\<lambda>_ _. False), re_find = (\<lambda>_ _. None), re_captures = (\<lambda>_ _. None), re_captures_iter = (\<lambda>_ _. []),
      re_replace = (\<lambda>_ s _. s), re_replace_all = (\<lambda>_ s _. s), re_escape = id\<rparr>"

definition demo_rust :: string where "demo_rust = unlines [''fn f() {'', ''    g();'', ''}'']"

theorem docs_keep_code_witness:
  "filter (\<lambda>l. \<not> is_doc l) (lines (add_docs_to_rust plain_engine demo_rust ''// runs g'' ''f'')) = lines demo_rust"
proof -
  have "newline \<notin> set ''f''" "cr \<notin> set demo_rust" "filter (\<lambda>l. \<not> is_doc l) (lines demo_rust) = lines demo_rust"
    by code_simp+
  with docs_keep_code [of "''f''" demo_rust plain_engine "''// runs g''"] show ?thesis
    by (simp add: plain_engine_def)
qed

end
