(* ===== verification/Migrate_Command.thy ===== *)
theory Migrate_Command
  imports Http_Api Directory_Pipeline Html_Report Doc_Gen
begin

text \<open>
  The command \<open>noricum migrate\<close> (\<open>crates/noricum-cli/src/commands/migrate.rs\<close>): the configuration its options stand
  for, the run of the pipeline on a file or a directory, and what is printed and written. The environment variables,
  the file system and the pretty printer of JSON are parameters.
\<close>

section \<open>Options and configuration\<close>

record migrate_params =
  mp_path :: string
  mp_no_llm :: bool
  mp_output :: string
  mp_diff_test :: bool
  mp_json :: bool
  mp_report :: "string option"
  mp_fuzz :: bool
  mp_fuzz_iterations :: u32
  mp_audit_log :: "string option"
  mp_audit_level :: string
  mp_docs :: bool
  mp_max_tokens :: "u64 option"
  mp_max_llm_calls :: "u32 option"
  mp_ollama_model :: "string option"
  mp_skip_c2rust :: bool
  mp_provider :: "string option"
  mp_artifacts_dir :: string
  mp_module_target_loc :: "nat option"
  mp_warm_start :: "string option"
  mp_max_unsafe :: "u32 option"
  mp_crate_output :: "string option"
  mp_ensemble :: bool
  mp_task_configs :: "string list"

text \<open>
  The whole of \<open>MigrationConfig\<close>: \<open>kc_core\<close> holds the fields the pipeline reads, the others are \<open>kc_settings\<close>, from
  which the providers in \<open>kc_core\<close> are made, and those kept for the audit trail and the artifacts.
\<close>

record command_config =
  kc_settings :: provider_settings
  kc_core :: migration_config
  kc_audit_log :: "string option"
  kc_audit_level :: audit_level
  kc_docs :: bool
  kc_artifacts_dir :: string
  kc_ensemble :: bool
  kc_routing :: task_routing

definition default_core :: "provider_settings \<Rightarrow> migration_config" where
  "default_core s =
     \<lparr>max_repair_iterations = 5, min_idiomatic_score = 60, generate_tests = True, fuzz_test = False,
      fuzz_iterations = 100, preprocess = False, analysis_temperature = None, translation_temperature = None,
      repair_base_temperature = None, test_gen_temperature = None, max_tokens_budget = Some 2000000,
      max_llm_calls = Some 50, skip_c2rust = False, module_target_loc = None, max_unsafe_blocks = None,
      warm_start = None, crate_output_dir = None, providers = provider_config_of s\<rparr>"

definition default_command_config :: "(string \<Rightarrow> string option) \<Rightarrow> command_config" where
  "default_command_config env_var =
     (let s = \<lparr>ps_primary = None, ps_anthropic_key = env_var ''ANTHROPIC_API_KEY'',
               ps_deepseek_key = env_var ''DEEPSEEK_API_KEY'', ps_ollama_url = None, ps_ollama_model = None,
               ps_num_ctx = None\<rparr>
      in \<lparr>kc_settings = s, kc_core = default_core s, kc_audit_log = None, kc_audit_level = Summary, kc_docs = False,
          kc_artifacts_dir = ''.noricum-artifacts'', kc_ensemble = False, kc_routing = no_routing\<rparr>)"

definition force_ollama :: "migrate_params \<Rightarrow> bool" where
  "force_ollama p = (mp_ollama_model p \<noteq> None \<or> mp_provider p = Some ''ollama'')"

definition migrate_settings :: "(string \<Rightarrow> string option) \<Rightarrow> migrate_params \<Rightarrow> provider_settings" where
  "migrate_settings env_var p =
     (kc_settings (default_command_config env_var))
       \<lparr>ps_primary := mp_provider p,
        ps_anthropic_key := (if force_ollama p then None else env_var ''ANTHROPIC_API_KEY''),
        ps_deepseek_key := (if force_ollama p then None else env_var ''DEEPSEEK_API_KEY''),
        ps_ollama_model := mp_ollama_model p\<rparr>"

text \<open>The limits: zero stands for none, a missing option for the default.\<close>

definition limit_of :: "'a::zero option \<Rightarrow> 'a option \<Rightarrow> 'a option" where
  "limit_of given default_limit =
     (case given of Some n \<Rightarrow> if n = 0 then None else Some n | None \<Rightarrow> default_limit)"

fun apply_specs ::
  "(string \<Rightarrow> rat option) \<Rightarrow> string list \<Rightarrow> task_routing \<Rightarrow> (string list, task_routing) result" where
  "apply_specs parse_f64 [] r = Inr r"
| "apply_specs parse_f64 (spec # specs) r =
     (case parse_task_routing_spec parse_f64 spec of
        Inr (t, tc) \<Rightarrow> apply_specs parse_f64 specs (routing_set t tc r)
      | Inl e \<Rightarrow> Inl [''invalid --task-config '' @ [CHR 0x27] @ spec @ [CHR 0x27] @ '': '' @ e])"

definition command_level :: "migrate_params \<Rightarrow> audit_level" where
  "command_level p = (case audit_level_from_str (mp_audit_level p) of Inr l \<Rightarrow> l | Inl _ \<Rightarrow> Summary)"

definition migrate_config ::
  "(string \<Rightarrow> string option) \<Rightarrow> (string \<Rightarrow> rat option) \<Rightarrow> migrate_params \<Rightarrow> (string list, command_config) result" where
  "migrate_config env_var parse_f64 p =
     (let s = migrate_settings env_var p; d = default_core s
      in bind_result (apply_specs parse_f64 (mp_task_configs p) no_routing) (\<lambda>routing.
         Inr \<lparr>kc_settings = s,
              kc_core = d\<lparr>fuzz_test := mp_fuzz p, fuzz_iterations := mp_fuzz_iterations p, skip_c2rust := mp_skip_c2rust p,
                          module_target_loc := mp_module_target_loc p, warm_start := mp_warm_start p,
                          max_unsafe_blocks := mp_max_unsafe p, crate_output_dir := mp_crate_output p,
                          max_tokens_budget := limit_of (mp_max_tokens p) (max_tokens_budget d),
                          max_llm_calls := limit_of (mp_max_llm_calls p) (max_llm_calls d)\<rparr>,
              kc_audit_log = mp_audit_log p, kc_audit_level = command_level p, kc_docs = mp_docs p,
              kc_artifacts_dir = mp_artifacts_dir p, kc_ensemble = mp_ensemble p, kc_routing = routing\<rparr>))"

section \<open>Environment and state\<close>

text \<open>
  \<open>ke_files k\<close> is what the pipeline meets when it migrates file \<open>k\<close>, \<open>ke_checks k\<close> what the tools answer when the
  result of unit \<open>k\<close> is printed. \<open>ke_pipeline_writes k\<close> are the files run \<open>k\<close> of the pipeline writes itself. \<open>ke_audit_opens\<close> tells whether the audit file can be created. Errors are lists:
  the message and its causes.
\<close>

record ('exe, 'g) command_env =
  ke_canonical :: "string \<Rightarrow> (string, string) result"
  ke_is_file :: "string \<Rightarrow> bool"
  ke_is_dir :: "string \<Rightarrow> bool"
  ke_env_var :: "string \<Rightarrow> string option"
  ke_parse_f64 :: "string \<Rightarrow> rat option"
  ke_fuel :: nat
  ke_files :: "nat \<Rightarrow> ('exe, 'g) file_environment"
  ke_checks :: "nat \<Rightarrow> ('exe, 'g) file_environment"
  ke_modular :: "nat \<Rightarrow> modular_migration"
  ke_entries :: "dir_entry list"
  ke_cache_writable :: bool
  ke_pipeline_writes :: "nat \<Rightarrow> (string \<times> string) list"
  ke_audit_opens :: "string \<Rightarrow> bool"
  ke_regex :: regex_engine
  ke_causes :: "core_error \<Rightarrow> string list"
  ke_unit_json :: "function_unit \<Rightarrow> string"
  ke_project_json :: "migration_project \<Rightarrow> string"

record command_state =
  cs_out :: string
  cs_disk :: disk
  cs_cache :: "string \<rightharpoonup> string"

text \<open>\<open>println!\<close>.\<close>

definition say :: "string \<Rightarrow> command_state \<Rightarrow> command_state" where
  "say l st = st\<lparr>cs_out := cs_out st @ l @ [newline]\<rparr>"

definition say_all :: "string list \<Rightarrow> command_state \<Rightarrow> command_state" where
  "say_all ls st = fold say ls st"

text \<open>\<open>create_dir_all\<close> on the directory of a file, and \<open>write\<close>: the fault of the path stands for that of either.\<close>

definition write_text :: "string \<Rightarrow> string \<Rightarrow> command_state \<Rightarrow> (string list, unit) result \<times> command_state" where
  "write_text path text st =
     (case write_fault (cs_disk st) path of
        Some e \<Rightarrow> (Inl [e], st)
      | None \<Rightarrow> (Inr (), st\<lparr>cs_disk := (cs_disk st)\<lparr>files := (files (cs_disk st))(path \<mapsto> text)\<rparr>\<rparr>))"

text \<open>The operator \<open>?\<close> between steps.\<close>

definition and_then ::
  "('e, 'a) result \<times> 's \<Rightarrow> ('a \<Rightarrow> 's \<Rightarrow> ('e, 'b) result \<times> 's) \<Rightarrow> ('e, 'b) result \<times> 's" where
  "and_then r f = (case r of (Inl e, st) \<Rightarrow> (Inl e, st) | (Inr a, st) \<Rightarrow> f a st)"

section \<open>Printing and writing a unit\<close>

definition output_path :: "string \<Rightarrow> function_unit \<Rightarrow> string" where
  "output_path dir u = join_path dir (unit_name u @ ''.rs'')"

definition write_unit_output ::
  "string \<Rightarrow> function_unit \<Rightarrow> command_state \<Rightarrow> (string list, unit) result \<times> command_state" where
  "write_unit_output dir u st =
     (case rust_output u of Some rust \<Rightarrow> write_text (output_path dir u) rust st | None \<Rightarrow> (Inr (), st))"

definition unit_head :: "function_unit \<Rightarrow> string list" where
  "unit_head u =
     [''Migration result for: '' @ unit_name u, ''  State: '' @ debug_state (unit_state u)]
     @ (case unit_difficulty u of Some d \<Rightarrow> [''  Difficulty: '' @ debug_difficulty d] | None \<Rightarrow> [])
     @ (case idiomatic_score u of Some n \<Rightarrow> [''  Idiomatic score: '' @ show_nat (unat n) @ ''/100''] | None \<Rightarrow> [])
     @ (case unsafe_count u of Some n \<Rightarrow> [''  Unsafe blocks: '' @ show_nat (unat n)] | None \<Rightarrow> [])"

definition diff_report :: "(tool_error, diff_test_result) result \<Rightarrow> string list" where
  "diff_report r =
     (newline # ''--- Differential Test ---'')
     # (case r of
          Inr d \<Rightarrow>
            if dt_passed d then [''  PASSED: C and Rust outputs match'']
            else ''  FAILED:''
                 # (if c_compiled d then [] else [''    C compilation failed''])
                 @ (if rust_compiled d then [] else [''    Rust compilation failed''])
                 @ (if c_output d = [] then [] else [''    C output:    '' @ debug_str (c_output d)])
                 @ (if rust_stdout d = [] then [] else [''    Rust output: '' @ debug_str (rust_stdout d)])
        | Inl e \<Rightarrow> [''  Error running diff test: '' @ show_tool_error e])"

definition command_fuzz_config :: "u32 \<Rightarrow> fuzz_config" where
  "command_fuzz_config n = fuzz_config_default\<lparr>iterations := n, seed_opt := Some 42\<rparr>"

definition fuzz_report :: "u32 \<Rightarrow> (tool_error, fuzz_result) result \<Rightarrow> string list" where
  "fuzz_report n r =
     (newline # ''--- Fuzz Test ---'')
     # (case r of
          Inr f \<Rightarrow>
            if fuzz_all_passed f
            then [''  PASSED: '' @ show_nat (unat (iterations_run f)) @ ''/'' @ show_nat (unat n) @ '' iterations match'']
            else [''  FAILED: '' @ show_nat (unat (failures f)) @ '' divergences in '' @ show_nat (unat (iterations_run f))
                  @ '' iterations'']
                 @ (case first_divergence f of
                      Some v \<Rightarrow>
                        [''  First divergence:'', ''    Input: '' @ debug_str (input_label (div_input v)),
                         ''    C output:    '' @ debug_str (div_c_output v),
                         ''    Rust output: '' @ debug_str (div_rust_output v)]
                    | None \<Rightarrow> [])
        | Inl e \<Rightarrow> [''  Error running fuzz test: '' @ show_tool_error e])"

definition unit_body ::
  "('exe, 'g) file_environment \<Rightarrow> string \<Rightarrow> bool \<Rightarrow> bool \<Rightarrow> u32 \<Rightarrow> function_unit \<Rightarrow> string list" where
  "unit_body fe dir run_diff fuzz n u =
     (case rust_output u of
        Some rust \<Rightarrow>
          [''  Output: '' @ output_path dir u, newline # ''--- Generated Rust ---'', rust]
          @ (if run_diff then diff_report (run_diff_test (chain (bench fe)) (c_source u) rust) else [])
          @ (if fuzz \<and> 0 < n
             then fuzz_report n (run_fuzz_test (chain (bench fe)) (fuzz_rng fe) (fuzz_start fe) (clock fe 3) (clock fe 4)
                    (c_source u) rust (command_fuzz_config n))
             else [])
      | None \<Rightarrow>
          [newline # ''  (no Rust output generated)'',
           ''  Run '' @ [backtick] @ ''noricum doctor'' @ [backtick] @ '' to check tool availability.''])
     @ (case generated_tests u of Some t \<Rightarrow> [newline # ''--- Generated Tests ---'', t] | None \<Rightarrow> [])
     @ (if rust_output u \<noteq> None
        then [[], ''Note: This code was generated by an LLM and verified by differential testing'',
              ''against specific inputs. Review before deploying to production.'']
        else [])"

text \<open>Bool and number of the options of the fuzz test, as the code passes them on.\<close>

definition print_unit_result ::
  "('exe, 'g) command_env \<Rightarrow> nat \<Rightarrow> migrate_params \<Rightarrow> function_unit \<Rightarrow> command_state \<Rightarrow> (string list, unit) result \<times> command_state" where
  "print_unit_result env k p u st =
     (if mp_json p then write_unit_output (mp_output p) u (say (ke_unit_json env u) st)
      else and_then (write_unit_output (mp_output p) u (say_all (unit_head u) st)) (\<lambda>_ st.
             (Inr (), say_all (unit_body (ke_checks env k) (mp_output p) (mp_diff_test p) (mp_fuzz p) (mp_fuzz_iterations p) u) st)))"

text \<open>The report, when one is asked for.\<close>

definition write_report :: "string option \<Rightarrow> string \<Rightarrow> command_state \<Rightarrow> (string list, unit) result \<times> command_state" where
  "write_report path text st =
     (case path of
        Some p \<Rightarrow> and_then (write_text p text st) (\<lambda>_ st. (Inr (), say (''  HTML report: '' @ p) st))
      | None \<Rightarrow> (Inr (), st))"

section \<open>The command\<close>

text \<open>The doc comments of the option \<open>--docs\<close>.\<close>

definition document_unit :: "('exe, 'g) command_env \<Rightarrow> bool \<Rightarrow> function_unit \<Rightarrow> function_unit" where
  "document_unit env docs u =
     (if docs
      then u\<lparr>rust_output := map_option (\<lambda>rust. add_docs_to_rust (ke_regex env) rust (c_source u) (unit_name u)) (rust_output u)\<rparr>
      else u)"

definition summary_lines :: "migration_project \<Rightarrow> string list" where
  "summary_lines project =
     (let s = progress_summary_of project
      in [''Migration complete: '' @ project_name project,
          ''  Total functions: '' @ show_nat (total_count s), ''  Validated: '' @ show_nat (validated_count s),
          ''  Failed (fallback unsafe): '' @ show_nat (failed_count s), ''  In progress: '' @ show_nat (in_progress s)])"

text \<open>The loops over the units of a project; the first error ends them.\<close>

fun print_units ::
  "('exe, 'g) command_env \<Rightarrow> nat \<Rightarrow> migrate_params \<Rightarrow> function_unit list \<Rightarrow> command_state
   \<Rightarrow> (string list, unit) result \<times> command_state" where
  "print_units env k p [] st = (Inr (), st)"
| "print_units env k p (u # us) st =
     and_then (print_unit_result env k p u (say [] st)) (\<lambda>_ st. print_units env (Suc k) p us st)"

fun write_units ::
  "string \<Rightarrow> function_unit list \<Rightarrow> command_state \<Rightarrow> (string list, unit) result \<times> command_state" where
  "write_units dir [] st = (Inr (), st)"
| "write_units dir (u # us) st = and_then (write_unit_output dir u st) (\<lambda>_ st. write_units dir us st)"

definition finish_file ::
  "('exe, 'g) command_env \<Rightarrow> migrate_params \<Rightarrow> function_unit \<Rightarrow> command_state \<Rightarrow> (string list, unit) result \<times> command_state" where
  "finish_file env p u st =
     and_then (print_unit_result env 0 p u st) (\<lambda>_ st. write_report (mp_report p) (generate_html_report u) st)"

definition finish_directory ::
  "('exe, 'g) command_env \<Rightarrow> migrate_params \<Rightarrow> migration_project \<Rightarrow> command_state
   \<Rightarrow> (string list, unit) result \<times> command_state" where
  "finish_directory env p project st =
     and_then
       (if mp_json p then (Inr (), say (ke_project_json env project) st)
        else print_units env 0 p (units project) (say_all (summary_lines project) st)) (\<lambda>_ st.
     and_then (write_units (mp_output p) (units project) st) (\<lambda>_ st.
     write_report (mp_report p) (generate_project_html_report (units project) (project_name project)) st))"

definition migration_failed :: "('exe, 'g) command_env \<Rightarrow> string \<Rightarrow> core_error \<Rightarrow> string list" where
  "migration_failed env path e = (''migration failed for '' @ path) # ke_causes env e"

definition not_a_path :: "string \<Rightarrow> string list" where
  "not_a_path path = [''path is neither a file nor directory: '' @ path]"

text \<open>Without a model. \<open>None\<close> when the pipeline does not return.\<close>

definition cmd_migrate_sync ::
  "('exe, 'g) command_env \<Rightarrow> migrate_params \<Rightarrow> string \<Rightarrow> command_state
   \<Rightarrow> ((string list, unit) result \<times> command_state) option" where
  "cmd_migrate_sync env p path st =
     (if ke_is_file env path
      then map_option
             (\<lambda>r. case r of Inr u \<Rightarrow> finish_file env p u st | Inl e \<Rightarrow> (Inl (migration_failed env path e), st))
             (migrate_file_sync (ke_fuel env) (ke_files env 0) path)
      else if ke_is_dir env path
      then map_option
             (\<lambda>r. case r of Inr project \<Rightarrow> finish_directory env p project st | Inl e \<Rightarrow> (Inl (migration_failed env path e), st))
             (migrate_directory_sync (ke_fuel env) (ke_files env 0) path)
      else Some (Inl (not_a_path path), st))"

text \<open>The audit trail is kept when a file for it is named and can be created.\<close>

definition audited :: "('exe, 'g) command_env \<Rightarrow> command_config \<Rightarrow> ('exe, 'g) file_environment \<Rightarrow> ('exe, 'g) file_environment" where
  "audited env cfg fe =
     fe\<lparr>audit_at := (case kc_audit_log cfg of
                       Some f \<Rightarrow> if ke_audit_opens env f then Some (kc_audit_level cfg) else None
                     | None \<Rightarrow> None)\<rparr>"

definition pipeline_left :: "('exe, 'g) command_env \<Rightarrow> nat \<Rightarrow> command_state \<Rightarrow> command_state" where
  "pipeline_left env k st = st\<lparr>cs_disk := leave_files (ke_pipeline_writes env k) (cs_disk st)\<rparr>"

definition migrate_with_model ::
  "('exe, 'g) command_env \<Rightarrow> migrate_params \<Rightarrow> command_config \<Rightarrow> string \<Rightarrow> command_state
   \<Rightarrow> ((string list, unit) result \<times> command_state) option" where
  "migrate_with_model env p cfg path st =
     (let files_at = (\<lambda>k. audited env cfg (ke_files env k)); st1 = pipeline_left env 0 st
      in if ke_is_file env path
         then map_option
                (\<lambda>r. case r of
                       Inr (u, cache) \<Rightarrow> finish_file env p (document_unit env (mp_docs p) u) (st1\<lparr>cs_cache := cache\<rparr>)
                     | Inl e \<Rightarrow> (Inl (migration_failed env path e), st1))
                (migrate_file (ke_fuel env) (files_at 0) (kc_core cfg) (ke_modular env 0) (cs_cache st)
                   (ke_cache_writable env) path)
         else if ke_is_dir env path
         then map_option
                (\<lambda>r. case r of
                       Inr (project, cache) \<Rightarrow>
                         finish_directory env p (project\<lparr>units := map (document_unit env (mp_docs p)) (units project)\<rparr>)
                           (st1\<lparr>cs_cache := cache\<rparr>)
                     | Inl e \<Rightarrow> (Inl (migration_failed env path e), st1))
                (migrate_directory (ke_fuel env) files_at (kc_core cfg) (ke_modular env)
                   (ke_cache_writable env) (ke_entries env) (cs_cache st) path)
         else Some (Inl (not_a_path path), st))"

definition cmd_migrate ::
  "('exe, 'g) command_env \<Rightarrow> migrate_params \<Rightarrow> command_state \<Rightarrow> ((string list, unit) result \<times> command_state) option" where
  "cmd_migrate env p st =
     (case ke_canonical env (mp_path p) of
        Inl e \<Rightarrow> Some (Inl [''path not found: '' @ mp_path p, e], st)
      | Inr path \<Rightarrow>
          (if mp_no_llm p then cmd_migrate_sync env p path st
           else (case migrate_config (ke_env_var env) (ke_parse_f64 env) p of
                   Inl e \<Rightarrow> Some (Inl e, st)
                 | Inr cfg \<Rightarrow> migrate_with_model env p cfg path st)))"

section \<open>The provider\<close>

text \<open>
  Ollama is used when it is asked for. With the option for an Ollama model, or with Ollama as the provider, the
  client that is created is that of Ollama and every task is given the Ollama model named, or the default one, whatever
  keys the environment holds and whatever provider is named beside the model.
\<close>

theorem ollama_is_forced:
  assumes "migrate_config env_var parse_f64 p = Inr cfg" "force_ollama p"
  shows "(case create_client mk (kc_settings cfg) of
            Some c \<Rightarrow> backend_kind c = Ollama | None \<Rightarrow> \<exists>e. make_ollama mk default_ollama_url = Inl e)
    \<and> select_model (providers (kc_core cfg)) d task
        = Inr \<lparr>sel_provider = Ollama, sel_model = unwrap_or (mp_ollama_model p) default_ollama_model\<rparr>"
proof -
  have cfg: "kc_settings cfg = migrate_settings env_var p" "providers (kc_core cfg) = provider_config_of (migrate_settings env_var p)"
    using assms(1) by (auto simp: migrate_config_def Let_def bind_result_Inr_iff default_core_def)
  have keys: "ps_anthropic_key (migrate_settings env_var p) = None" "ps_deepseek_key (migrate_settings env_var p) = None"
    and url: "ps_ollama_url (migrate_settings env_var p) = None" "ps_num_ctx (migrate_settings env_var p) = None"
    and model: "ps_ollama_model (migrate_settings env_var p) = mp_ollama_model p"
    using assms(2) by (simp_all add: migrate_settings_def default_command_config_def Let_def)
  have "create_llm_client mk (provider_config_of (migrate_settings env_var p))
      = create_ollama_client mk default_ollama_url default_num_ctx"
    by (simp add: create_llm_client_def provider_config_of_def keys url Let_def)
  then have "case create_client mk (kc_settings cfg) of
      Some c \<Rightarrow> backend_kind c = Ollama | None \<Rightarrow> \<exists>e. make_ollama mk default_ollama_url = Inl e"
    by (auto simp: cfg create_client_def create_ollama_client_def backend_kind_def split: sum.splits)
  moreover have "select_model (providers (kc_core cfg)) d task
      = Inr \<lparr>sel_provider = Ollama, sel_model = unwrap_or (mp_ollama_model p) default_ollama_model\<rparr>"
    by (simp add: cfg select_model_def provider_config_of_def keys model Let_def)
  ultimately show ?thesis by blast
qed

section \<open>What is written\<close>

text \<open>The files a list of units stands for.\<close>

definition outputs :: "string \<Rightarrow> function_unit list \<Rightarrow> (string \<times> string) list" where
  "outputs dir us = List.map_filter (\<lambda>u. map_option (\<lambda>rust. (output_path dir u, rust)) (rust_output u)) us"

definition saved :: "string \<Rightarrow> function_unit list \<Rightarrow> (string \<rightharpoonup> string) \<Rightarrow> string \<rightharpoonup> string" where
  "saved dir us fs = fs ++ map_of (rev (outputs dir us))"

lemma outputs_simps [simp]:
  "outputs dir [] = []"
  "outputs dir (u # us) = (case rust_output u of Some t \<Rightarrow> [(output_path dir u, t)] | None \<Rightarrow> []) @ outputs dir us"
  by (simp_all add: outputs_def map_filter_simps split: option.splits)

lemma saved_Nil [simp]: "saved dir [] fs = fs"
  by (simp add: saved_def)

lemma saved_Cons: "saved dir us (saved dir [u] fs) = saved dir (u # us) fs"
  by (simp add: saved_def split: option.splits)

lemma saved_again [simp]: "saved dir us (saved dir us fs) = saved dir us fs"
  by (simp add: saved_def map_add_assoc flip: map_add_assoc) (simp add: map_add_def fun_eq_iff split: option.splits)

lemma saved_result:
  assumes "u \<in> set us" "rust_output u = Some t" "\<And>v. v \<in> set us \<Longrightarrow> output_path dir v = output_path dir u \<Longrightarrow> v = u"
  shows "saved dir us fs (output_path dir u) = Some t"
proof -
  have mem: "(output_path dir u, t) \<in> set (outputs dir us)"
    using assms(1,2) by (induction us) (auto split: option.splits)
  have only: "t' = t" if "(output_path dir u, t') \<in> set (outputs dir vs)" "set vs \<subseteq> set us" for t' vs
    using that assms(2,3) by (induction vs) (auto split: option.splits)
  obtain t' where t': "map_of (rev (outputs dir us)) (output_path dir u) = Some t'"
    using mem by (metis map_of_eq_None_iff fst_conv image_eqI option.exhaust set_rev)
  then have "(output_path dir u, t') \<in> set (outputs dir us)" by (metis map_of_SomeD set_rev)
  with only [of t' us] t' show ?thesis by (simp add: saved_def map_add_def)
qed

abbreviation disk_files :: "command_state \<Rightarrow> (string \<rightharpoonup> string)" where
  "disk_files st \<equiv> files (cs_disk st)"

lemma disk_say_all [simp]: "cs_disk (say l st) = cs_disk st" "cs_disk (say_all ls st) = cs_disk st"
proof -
  show "cs_disk (say l st) = cs_disk st" for l st by (simp add: say_def)
  then show "cs_disk (say_all ls st) = cs_disk st" by (induction ls arbitrary: st) (simp_all add: say_all_def)
qed

lemma and_then_Inr: "and_then r f = (Inr b, st') \<longleftrightarrow> (\<exists>a st1. r = (Inr a, st1) \<and> f a st1 = (Inr b, st'))"
  by (auto simp: and_then_def split: prod.splits sum.splits)

lemma write_text_files: "write_text p t st = (Inr (), st') \<Longrightarrow> disk_files st' = (disk_files st)(p \<mapsto> t)"
  by (auto simp: write_text_def split: option.splits)

lemma write_unit_files: "write_unit_output dir u st = (Inr (), st') \<Longrightarrow> disk_files st' = saved dir [u] (disk_files st)"
  by (auto simp: write_unit_output_def saved_def dest: write_text_files split: option.splits)

lemma print_unit_files:
  "print_unit_result env k p u st = (Inr (), st') \<Longrightarrow> disk_files st' = saved (mp_output p) [u] (disk_files st)"
  by (auto simp: print_unit_result_def and_then_Inr dest!: write_unit_files split: if_splits)

lemma print_units_files:
  "print_units env k p us st = (Inr (), st') \<Longrightarrow> disk_files st' = saved (mp_output p) us (disk_files st)"
proof (induction us arbitrary: k st)
  case (Cons u us)
  then obtain st1 where "print_unit_result env k p u (say [] st) = (Inr (), st1)"
    and rest: "print_units env (Suc k) p us st1 = (Inr (), st')"
    by (auto simp: and_then_Inr)
  then have "disk_files st1 = saved (mp_output p) [u] (disk_files st)" using print_unit_files by fastforce
  with Cons.IH [OF rest] show ?case by (simp add: saved_Cons)
qed simp

lemma write_units_files: "write_units dir us st = (Inr (), st') \<Longrightarrow> disk_files st' = saved dir us (disk_files st)"
proof (induction us arbitrary: st)
  case (Cons u us)
  then obtain st1 where "write_unit_output dir u st = (Inr (), st1)" and rest: "write_units dir us st1 = (Inr (), st')"
    by (auto simp: and_then_Inr)
  with Cons.IH [OF rest] write_unit_files show ?case by (metis saved_Cons)
qed simp

definition reported :: "string option \<Rightarrow> string \<Rightarrow> (string \<rightharpoonup> string) \<Rightarrow> string \<rightharpoonup> string" where
  "reported r text fs = (case r of Some f \<Rightarrow> fs(f \<mapsto> text) | None \<Rightarrow> fs)"

lemma write_report_files:
  "write_report r text st = (Inr (), st') \<Longrightarrow> disk_files st' = reported r text (disk_files st)"
  by (auto simp: write_report_def reported_def and_then_Inr dest: write_text_files split: option.splits)

lemma finish_file_files:
  "finish_file env p u st = (Inr (), st') \<Longrightarrow>
   disk_files st' = reported (mp_report p) (generate_html_report u) (saved (mp_output p) [u] (disk_files st))"
  by (auto simp: finish_file_def and_then_Inr dest!: write_report_files print_unit_files)

lemma finish_directory_files:
  assumes "finish_directory env p project st = (Inr (), st')"
  shows "disk_files st' = reported (mp_report p) (generate_project_html_report (units project) (project_name project))
    (saved (mp_output p) (units project) (disk_files st))"
proof -
  from assms obtain st1 st2 where
    first: "(if mp_json p then (Inr (), say (ke_project_json env project) st)
        else print_units env 0 p (units project) (say_all (summary_lines project) st)) = (Inr (), st1)"
    and "write_units (mp_output p) (units project) st1 = (Inr (), st2)"
    and "write_report (mp_report p) (generate_project_html_report (units project) (project_name project)) st2 = (Inr (), st')"
    by (auto simp: finish_directory_def and_then_Inr simp del: write_units.simps print_units.simps)
  moreover have "saved (mp_output p) (units project) (disk_files st1) = saved (mp_output p) (units project) (disk_files st)"
    using first print_units_files [of env 0 p "units project" "say_all (summary_lines project) st" st1]
    by (auto split: if_splits)
  ultimately show ?thesis by (auto dest!: write_units_files write_report_files)
qed

text \<open>The units a run of the pipeline delivers, with their documentation, and the report on them.\<close>

definition delivered ::
  "('exe, 'g) command_env \<Rightarrow> migrate_params \<Rightarrow> (string \<rightharpoonup> string) \<Rightarrow> string \<Rightarrow> function_unit list \<Rightarrow> string \<Rightarrow> bool" where
  "delivered env p cache path us report_text \<longleftrightarrow>
     (if mp_no_llm p
      then (if ke_is_file env path
            then \<exists>u. migrate_file_sync (ke_fuel env) (ke_files env 0) path = Some (Inr u) \<and> us = [u]
              \<and> report_text = generate_html_report u
            else \<exists>project. migrate_directory_sync (ke_fuel env) (ke_files env 0) path = Some (Inr project) \<and> us = units project
              \<and> report_text = generate_project_html_report us (project_name project))
      else \<exists>cfg. migrate_config (ke_env_var env) (ke_parse_f64 env) p = Inr cfg
        \<and> (if ke_is_file env path
           then \<exists>u c. migrate_file (ke_fuel env) (audited env cfg (ke_files env 0)) (kc_core cfg) (ke_modular env 0) cache
                        (ke_cache_writable env) path = Some (Inr (u, c)) \<and> us = [document_unit env (mp_docs p) u]
             \<and> report_text = generate_html_report (document_unit env (mp_docs p) u)
           else \<exists>project c. migrate_directory (ke_fuel env) (\<lambda>k. audited env cfg (ke_files env k)) (kc_core cfg)
                              (ke_modular env) (ke_cache_writable env) (ke_entries env) cache path = Some (Inr (project, c))
                            \<and> us = map (document_unit env (mp_docs p)) (units project)
             \<and> report_text = generate_project_html_report us (project_name project)))"

lemma mapped_result:
  "map_option (\<lambda>r. case r of Inl e \<Rightarrow> (Inl (g e), s) | Inr a \<Rightarrow> f a) x = Some (Inr b, s')
    \<Longrightarrow> \<exists>a. x = Some (Inr a) \<and> f a = (Inr b, s')"
  by (cases x) (auto split: sum.splits)

lemma sync_files:
  assumes "cmd_migrate_sync env p path st = Some (Inr (), st')" "mp_no_llm p"
  shows "\<exists>us report_text. delivered env p (cs_cache st) path us report_text
    \<and> disk_files st' = reported (mp_report p) report_text (saved (mp_output p) us (disk_files st))"
proof (cases "ke_is_file env path")
  case True
  with assms(1) have "\<exists>u. migrate_file_sync (ke_fuel env) (ke_files env 0) path = Some (Inr u)
      \<and> finish_file env p u st = (Inr (), st')"
    unfolding cmd_migrate_sync_def by (intro mapped_result) simp
  then obtain u where u: "migrate_file_sync (ke_fuel env) (ke_files env 0) path = Some (Inr u)"
    "finish_file env p u st = (Inr (), st')" by blast
  from u(1) True assms(2) have "delivered env p (cs_cache st) path [u] (generate_html_report u)" by (simp add: delivered_def)
  with finish_file_files [OF u(2)] show ?thesis by blast
next
  case False
  with assms(1) have "\<exists>project. migrate_directory_sync (ke_fuel env) (ke_files env 0) path = Some (Inr project)
      \<and> finish_directory env p project st = (Inr (), st')"
    unfolding cmd_migrate_sync_def by (intro mapped_result) (simp split: if_splits)
  then obtain project where u: "migrate_directory_sync (ke_fuel env) (ke_files env 0) path = Some (Inr project)"
    "finish_directory env p project st = (Inr (), st')" by blast
  from u(1) False assms(2) have "delivered env p (cs_cache st) path (units project)
      (generate_project_html_report (units project) (project_name project))" by (simp add: delivered_def)
  with finish_directory_files [OF u(2)] show ?thesis by blast
qed

lemma model_files:
  assumes "migrate_with_model env p cfg path st = Some (Inr (), st')" "\<not> mp_no_llm p"
    and cfg: "migrate_config (ke_env_var env) (ke_parse_f64 env) p = Inr cfg"
  shows "\<exists>us report_text. delivered env p (cs_cache st) path us report_text
    \<and> disk_files st' = reported (mp_report p) report_text (saved (mp_output p) us (disk_files (pipeline_left env 0 st)))"
proof (cases "ke_is_file env path")
  case True
  with assms(1) have "\<exists>r. migrate_file (ke_fuel env) (audited env cfg (ke_files env 0)) (kc_core cfg) (ke_modular env 0)
        (cs_cache st) (ke_cache_writable env) path = Some (Inr r)
      \<and> (case r of (u, c) \<Rightarrow> finish_file env p (document_unit env (mp_docs p) u) ((pipeline_left env 0 st)\<lparr>cs_cache := c\<rparr>)) = (Inr (), st')"
    unfolding migrate_with_model_def Let_def by (intro mapped_result) simp
  then obtain u c where u: "migrate_file (ke_fuel env) (audited env cfg (ke_files env 0)) (kc_core cfg) (ke_modular env 0)
        (cs_cache st) (ke_cache_writable env) path = Some (Inr (u, c))"
    "finish_file env p (document_unit env (mp_docs p) u) ((pipeline_left env 0 st)\<lparr>cs_cache := c\<rparr>) = (Inr (), st')" by auto
  from u(1) True assms(2) cfg have "delivered env p (cs_cache st) path [document_unit env (mp_docs p) u]
      (generate_html_report (document_unit env (mp_docs p) u))"
    by (simp add: delivered_def)
  with finish_file_files [OF u(2)] show ?thesis by auto
next
  case False
  with assms(1) have "\<exists>r. migrate_directory (ke_fuel env) (\<lambda>k. audited env cfg (ke_files env k)) (kc_core cfg)
        (ke_modular env) (ke_cache_writable env) (ke_entries env) (cs_cache st) path = Some (Inr r)
      \<and> (case r of (project, c) \<Rightarrow> finish_directory env p
           (project\<lparr>units := map (document_unit env (mp_docs p)) (units project)\<rparr>) ((pipeline_left env 0 st)\<lparr>cs_cache := c\<rparr>)) = (Inr (), st')"
    unfolding migrate_with_model_def Let_def by (intro mapped_result) (simp split: if_splits)
  then obtain project c where u: "migrate_directory (ke_fuel env) (\<lambda>k. audited env cfg (ke_files env k)) (kc_core cfg)
        (ke_modular env) (ke_cache_writable env) (ke_entries env) (cs_cache st) path = Some (Inr (project, c))"
    "finish_directory env p (project\<lparr>units := map (document_unit env (mp_docs p)) (units project)\<rparr>) ((pipeline_left env 0 st)\<lparr>cs_cache := c\<rparr>)
      = (Inr (), st')" by auto
  from u(1) False assms(2) cfg have "delivered env p (cs_cache st) path (map (document_unit env (mp_docs p)) (units project))
      (generate_project_html_report (map (document_unit env (mp_docs p)) (units project)) (project_name project))"
    by (simp add: delivered_def)
  with finish_directory_files [OF u(2)] show ?thesis by auto
qed

text \<open>
  C35: A successful command writes what the pipeline delivered. Where no other unit has the same name and the report has
  another path, the file of a unit holds its output, with its documentation; the file of the report, when one is asked
  for, holds the report on these units. Every other file is as the pipeline has left it: without a model it is
  unchanged, and with one unless the pipeline itself has written it, as an artifact, for the audit or into the crate.
\<close>

theorem migrate_writes_outputs:
  assumes "cmd_migrate env p st = Some (Inr (), st')"
  shows "\<exists>path us report_text. ke_canonical env (mp_path p) = Inr path \<and> delivered env p (cs_cache st) path us report_text
    \<and> (\<forall>u \<in> set us. \<forall>t. rust_output u = Some t \<longrightarrow> mp_report p \<noteq> Some (output_path (mp_output p) u)
         \<longrightarrow> (\<forall>v \<in> set us. output_path (mp_output p) v = output_path (mp_output p) u \<longrightarrow> v = u)
         \<longrightarrow> files (cs_disk st') (output_path (mp_output p) u) = Some t)
    \<and> (\<forall>f. mp_report p = Some f \<longrightarrow> files (cs_disk st') f = Some report_text)
    \<and> (\<forall>f. f \<notin> output_path (mp_output p) ` set us \<longrightarrow> mp_report p \<noteq> Some f \<longrightarrow>
         files (cs_disk st') f = files (if mp_no_llm p then cs_disk st else leave_files (ke_pipeline_writes env 0) (cs_disk st)) f
         \<and> (mp_no_llm p \<or> f \<notin> fst ` set (ke_pipeline_writes env 0) \<longrightarrow> files (cs_disk st') f = files (cs_disk st) f))"
proof -
  from assms obtain path where path: "ke_canonical env (mp_path p) = Inr path"
    by (auto simp: cmd_migrate_def split: sum.splits)
  let ?left = "if mp_no_llm p then cs_disk st else leave_files (ke_pipeline_writes env 0) (cs_disk st)"
  obtain us report_text where us: "delivered env p (cs_cache st) path us report_text"
    and fs: "disk_files st' = reported (mp_report p) report_text (saved (mp_output p) us (files ?left))"
  proof (cases "mp_no_llm p")
    case True
    with assms path sync_files [of env p path st st'] that show thesis by (auto simp: cmd_migrate_def)
  next
    case False
    with assms path that show thesis
      by (auto simp: cmd_migrate_def pipeline_left_def split: sum.splits dest!: model_files)
  qed
  have outs: "disk_files st' (output_path (mp_output p) u) = Some t"
    if "u \<in> set us" "rust_output u = Some t" "mp_report p \<noteq> Some (output_path (mp_output p) u)"
      "\<forall>v \<in> set us. output_path (mp_output p) v = output_path (mp_output p) u \<longrightarrow> v = u" for u t
    using saved_result [OF that(1,2), of "mp_output p" "files ?left"] that(3,4)
    by (auto simp: fs reported_def split: option.splits)
  have report: "disk_files st' f = Some report_text" if "mp_report p = Some f" for f
    using that by (simp add: fs reported_def)
  have other: "disk_files st' f = files ?left f"
    if "f \<notin> output_path (mp_output p) ` set us" "mp_report p \<noteq> Some f" for f
  proof -
    have "f \<notin> fst ` set (outputs (mp_output p) us)"
      using that(1) by (induction us) (auto split: option.splits)
    then have "saved (mp_output p) us fs0 f = fs0 f" for fs0
      by (metis (no_types) saved_def map_add_dom_app_simps(3) dom_map_of_conv_image_fst set_rev)
    with that(2) show ?thesis by (auto simp: fs reported_def split: option.splits)
  qed
  have left: "files ?left f = files (cs_disk st) f" if "mp_no_llm p \<or> f \<notin> fst ` set (ke_pipeline_writes env 0)" for f
    using that by (auto simp: leave_files_other)
  show ?thesis
    by (rule exI [of _ path], rule exI [of _ us], rule exI [of _ report_text])
      (use path us outs report other left in simp)
qed

section \<open>Examples\<close>

definition demo_params :: migrate_params where
  "demo_params =
     \<lparr>mp_path = ''m.c'', mp_no_llm = True, mp_output = ''out'', mp_diff_test = False, mp_json = False, mp_report = None,
      mp_fuzz = False, mp_fuzz_iterations = 100, mp_audit_log = None, mp_audit_level = ''summary'', mp_docs = False,
      mp_max_tokens = Some 0, mp_max_llm_calls = None, mp_ollama_model = Some ''qwen'', mp_skip_c2rust = False,
      mp_provider = Some ''anthropic'', mp_artifacts_dir = ''a'', mp_module_target_loc = None, mp_warm_start = None,
      mp_max_unsafe = None, mp_crate_output = None, mp_ensemble = False, mp_task_configs = []\<rparr>"

theorem ollama_is_forced_witness:
  "\<exists>cfg. migrate_config (\<lambda>_. Some ''key'') (\<lambda>_. None) demo_params = Inr cfg
    \<and> max_tokens_budget (kc_core cfg) = None
    \<and> select_model (providers (kc_core cfg)) Hard ''repair'' = Inr \<lparr>sel_provider = Ollama, sel_model = ''qwen''\<rparr>"
proof -
  obtain cfg where cfg: "migrate_config (\<lambda>_. Some ''key'') (\<lambda>_. None) demo_params = Inr cfg"
    "max_tokens_budget (kc_core cfg) = None"
    by (simp add: migrate_config_def demo_params_def limit_of_def Let_def)
  have "force_ollama demo_params" by (simp add: force_ollama_def demo_params_def)
  from ollama_is_forced [OF cfg(1) this] cfg show ?thesis by (auto simp: demo_params_def)
qed

text \<open>An environment where C2Rust translates the file.\<close>

definition transpiling_environment :: "(string, unit) file_environment" where
  "transpiling_environment = demo_environment
     \<lparr>c2_tools := \<lparr>canonical = Inr, write_compile_commands = (\<lambda>_. Inr ()),
                  run_c2rust = (\<lambda>_. Some (True, [], [], [(''m.rs'', FileNode ''fn main() {}'')])),
                  stem_of = (\<lambda>_. Some ''m'')\<rparr>\<rparr>"

definition demo_command :: "(string, unit) command_env" where
  "demo_command =
     \<lparr>ke_canonical = Inr, ke_is_file = (\<lambda>_. True), ke_is_dir = (\<lambda>_. False), ke_env_var = (\<lambda>_. None),
      ke_parse_f64 = (\<lambda>_. None), ke_fuel = 20, ke_files = (\<lambda>_. transpiling_environment),
      ke_checks = (\<lambda>_. transpiling_environment), ke_modular = (\<lambda>_. no_modular), ke_entries = [],
      ke_cache_writable = True, ke_pipeline_writes = (\<lambda>_. []), ke_audit_opens = (\<lambda>_. True), ke_regex = example_engine, ke_causes = (\<lambda>_. []),
      ke_unit_json = (\<lambda>_. []), ke_project_json = (\<lambda>_. [])\<rparr>"

lemma transpiled_unit:
  "\<exists>u. migrate_file_sync 20 transpiling_environment ''m.c'' = Some (Inr u) \<and> unit_name u = ''m''
    \<and> rust_output u = Some ''fn main() {}''"
proof -
  have out: "transpile (c2_tools transpiling_environment) ''m.c'' = Inr \<lparr>c2_source = ''fn main() {}'', c2_warnings = []\<rparr>"
    by (simp add: transpile_def transpiling_environment_def find_rust_output_def)
  have read: "read_checked transpiling_environment ''m.c'' = Inr ''int main(void);''"
    by (simp add: read_checked_def transpiling_environment_def demo_environment_def max_c_source_size_def)
  define u where "u = (new_unit ''m'' ''m.c'' ''int main(void);'')
    \<lparr>c2rust_output := Some ''fn main() {}'', rust_output := Some ''fn main() {}'', unit_state := C2RustDone\<rparr>"
  have "\<exists>v. validate_with_threshold clean_workbench u 60 = Inr v \<and> passed v"
    by (rule main_validates) (simp_all add: u_def new_unit_def)
  then obtain v where v: "validate clean_workbench u = Inr v" by (auto simp: validate_def)
  have "sync_translation 20 transpiling_environment ''m.c'' ((new_unit ''m'' ''m.c'' ''int main(void);'')\<lparr>unit_state := Extracted\<rparr>)
      = Some (True, u)"
    by (simp add: sync_translation_def out u_def new_unit_def demo_rules)
  moreover have "file_name_stem transpiling_environment ''m.c'' = ''m''" "bench transpiling_environment = clean_workbench"
    by (simp_all add: file_name_stem_def transpiling_environment_def demo_environment_def)
  ultimately have "migrate_file_sync 20 transpiling_environment ''m.c'' = Some (Inr (apply_validation u v))"
    by (simp add: migrate_file_sync_def read sync_unit_def v lift_validation_def)
  then show ?thesis by (simp add: apply_validation_def apply_validation_with_max_def u_def new_unit_def)
qed

theorem migrate_writes_outputs_witness:
  "\<exists>st' u. cmd_migrate demo_command (demo_params\<lparr>mp_report := Some ''r.html''\<rparr>)
        \<lparr>cs_out = [], cs_disk = free_disk, cs_cache = Map.empty\<rparr> = Some (Inr (), st')
    \<and> migrate_file_sync 20 transpiling_environment ''m.c'' = Some (Inr u)
    \<and> files (cs_disk st') ''out/m.rs'' = Some ''fn main() {}'' \<and> files (cs_disk st') ''r.html'' = Some (generate_html_report u)"
proof -
  let ?st = "\<lparr>cs_out = [], cs_disk = free_disk, cs_cache = Map.empty\<rparr>" and ?p = "demo_params\<lparr>mp_report := Some ''r.html''\<rparr>"
  obtain u where u: "migrate_file_sync 20 transpiling_environment ''m.c'' = Some (Inr u)" "unit_name u = ''m''"
    "rust_output u = Some ''fn main() {}''"
    using transpiled_unit by blast
  have path: "output_path ''out'' u = ''out/m.rs''" by (simp add: output_path_def u(2) join_path_def path_join_def)
  have free: "write_fault free_disk = (\<lambda>_. None)" by (simp add: free_disk_def)
  have "\<exists>st'. cmd_migrate demo_command ?p ?st = Some (Inr (), st')"
    by (simp add: cmd_migrate_def cmd_migrate_sync_def demo_command_def demo_params_def u finish_file_def
        print_unit_result_def write_unit_output_def write_text_def and_then_def write_report_def free)
  then obtain st' where run: "cmd_migrate demo_command ?p ?st = Some (Inr (), st')" ..
  from migrate_writes_outputs [OF run] obtain path us report_text where us: "delivered demo_command ?p Map.empty path us report_text"
    and p: "ke_canonical demo_command (mp_path ?p) = Inr path"
    and written: "\<forall>u \<in> set us. \<forall>t. rust_output u = Some t \<longrightarrow> mp_report ?p \<noteq> Some (output_path (mp_output ?p) u)
         \<longrightarrow> (\<forall>v \<in> set us. output_path (mp_output ?p) v = output_path (mp_output ?p) u \<longrightarrow> v = u)
         \<longrightarrow> files (cs_disk st') (output_path (mp_output ?p) u) = Some t"
    and report: "\<forall>f. mp_report ?p = Some f \<longrightarrow> files (cs_disk st') f = Some report_text"
    by auto
  from us p u(1) have "us = [u]" "report_text = generate_html_report u"
    by (auto simp: delivered_def demo_command_def demo_params_def)
  with written report u(3) path have "files (cs_disk st') ''out/m.rs'' = Some ''fn main() {}''"
    "files (cs_disk st') ''r.html'' = Some (generate_html_report u)"
    by (auto simp: demo_params_def)
  with run u(1) show ?thesis by blast
qed

end
