(* ===== verification/Bench_Command.thy ===== *)
theory Bench_Command
  imports Migrate_Command
begin

text \<open>
  The commands \<open>noricum bench\<close> and \<open>noricum compare\<close> (\<open>commands/bench.rs\<close> and \<open>commands/compare.rs\<close> in
  \<open>crates/noricum-cli/src\<close>): the migration of the files of a directory with a report as a JSON value, its comparison
  with an earlier report, and two reports side by side. Parsing and printing of JSON and of floating point numbers are
  parameters; floating point numbers are rationals.
\<close>

section \<open>Formats and accessors\<close>

text \<open>The widths of the format strings.\<close>

definition pad_right :: "nat \<Rightarrow> string \<Rightarrow> string" where
  "pad_right n s = s @ replicate (n - length s) (CHR '' '')"

definition pad_left :: "nat \<Rightarrow> string \<Rightarrow> string" where
  "pad_left n s = replicate (n - length s) (CHR '' '') @ s"

text \<open>Indexing of a value gives \<open>null\<close> where there is no member.\<close>

definition json_at :: "json \<Rightarrow> string \<Rightarrow> json" where
  "json_at v k = unwrap_or (json_get v k) JsonNull"

definition json_array :: "json \<Rightarrow> json list option" where
  "json_array v = (case v of JsonArray xs \<Rightarrow> Some xs | _ \<Rightarrow> None)"

definition json_f64 :: "json \<Rightarrow> rat option" where
  "json_f64 v = (case v of JsonNumber r \<Rightarrow> Some r | _ \<Rightarrow> None)"

definition json_u64 :: "json \<Rightarrow> nat option" where
  "json_u64 v =
     (case v of
        JsonNumber r \<Rightarrow> if \<lfloor>r\<rfloor> = \<lceil>r\<rceil> \<and> 0 \<le> r \<and> r < 2 ^ 64 then Some (nat \<lfloor>r\<rfloor>) else None
      | _ \<Rightarrow> None)"

definition named_str :: "string \<Rightarrow> json \<Rightarrow> string option" where
  "named_str k v = json_str (json_at v k)"

section \<open>The configuration\<close>

text \<open>Only the Anthropic key is cleared by the option for an Ollama model.\<close>

definition bench_settings ::
  "(string \<Rightarrow> string option) \<Rightarrow> string option \<Rightarrow> string option \<Rightarrow> provider_settings" where
  "bench_settings env_var ollama provider =
     (kc_settings (default_command_config env_var))
       \<lparr>ps_anthropic_key := (if ollama \<noteq> None then None else env_var ''ANTHROPIC_API_KEY''),
        ps_primary := provider, ps_ollama_model := ollama\<rparr>"

definition bench_uses_model :: "provider_settings \<Rightarrow> bool" where
  "bench_uses_model s = (ps_anthropic_key s \<noteq> None \<or> ps_ollama_model s \<noteq> None)"

section \<open>A file\<close>

definition show_option_debug :: "('a \<Rightarrow> string) \<Rightarrow> 'a option \<Rightarrow> string" where
  "show_option_debug f x = (case x of Some a \<Rightarrow> ''Some('' @ f a @ '')'' | None \<Rightarrow> ''None'')"

definition json_u64_of :: "u64 \<Rightarrow> json" where
  "json_u64_of n = json_nat (unat n)"

definition unit_entry :: "function_unit \<Rightarrow> json" where
  "unit_entry u =
     (let m = metrics u
      in JsonObject
           [(''name'', JsonString (unit_name u)), (''state'', JsonString (debug_state (unit_state u))),
            (''difficulty'', JsonString (show_option_debug debug_difficulty (unit_difficulty u))),
            (''idiomatic_score'', json_option json_u32 (idiomatic_score u)),
            (''unsafe_count'', json_option json_u32 (unsafe_count u)),
            (''diff_test_passed'', json_option JsonBool (metrics_diff_test_passed m)),
            (''repair_iterations'', json_u32 (repair_iterations m)), (''llm_calls'', json_u32 (llm_calls m)),
            (''total_ms'', json_u64_of (total_ms m)), (''analysis_ms'', json_u64_of (analysis_ms m)),
            (''translation_ms'', json_u64_of (translation_ms m)), (''repair_ms'', json_u64_of (repair_ms m)),
            (''test_gen_ms'', json_u64_of (test_gen_ms m)), (''c_lines'', json_u32 (m_c_lines m)),
            (''rust_lines'', json_u32 (m_rust_lines m)), (''input_tokens'', json_u64_of (input_tokens m)),
            (''output_tokens'', json_u64_of (output_tokens m)), (''estimated_cost_usd'', JsonNumber (estimated_cost_usd m)),
            (''provider'', json_option JsonString (metrics_provider m)),
            (''model'', json_option JsonString (metrics_model m))])"





section \<open>The command\<close>

text \<open>What the command uses besides \<open>command_env\<close>: the time it takes in milliseconds, and the texts of JSON and numbers.\<close>

record ('exe, 'g) bench_command_env = "('exe, 'g) command_env" +
  kb_elapsed :: nat
  kb_fixed :: "nat \<Rightarrow> rat \<Rightarrow> string"
  kb_pretty :: "json \<Rightarrow> string"
  kb_parse :: "string \<Rightarrow> (string, json) result"












section \<open>The baseline\<close>

text \<open>An entry of the baseline that was validated and whose file, found by its name, is not any more.\<close>

definition regression_line :: "json list \<Rightarrow> json \<Rightarrow> string option" where
  "regression_line results base =
     (let nm = unwrap_or (named_str ''name'' base) []; base_state = unwrap_or (named_str ''state'' base) []
      in if base_state = ''Validated''
         then (case List.find (\<lambda>r. named_str ''name'' r = Some nm) results of
                 Some current \<Rightarrow>
                   (let cur_state = unwrap_or (named_str ''state'' current) []
                    in if cur_state \<noteq> ''Validated'' then Some (nm @ '': '' @ base_state @ '' -> '' @ cur_state) else None)
               | None \<Rightarrow> None)
         else None)"

definition regressions :: "json list \<Rightarrow> json list \<Rightarrow> string list" where
  "regressions base_results results = List.map_filter (regression_line results) base_results"


definition read_text :: "string \<Rightarrow> string \<Rightarrow> command_state \<Rightarrow> (string list, string) result" where
  "read_text what path st =
     (case files (cs_disk st) path of
        Some s \<Rightarrow> Inr s | None \<Rightarrow> Inl [''cannot read '' @ what @ '': '' @ path, ''No such file or directory (os error 2)''])"





section \<open>Two reports side by side\<close>

record compare_side =
  cmp_count :: u32
  cmp_pass :: u32
  cmp_score :: u64
  cmp_ms :: u64
  cmp_cost :: rat

definition no_side :: compare_side where
  "no_side = \<lparr>cmp_count = 0, cmp_pass = 0, cmp_score = 0, cmp_ms = 0, cmp_cost = 0\<rparr>"

definition named_entry :: "string \<Rightarrow> json list \<Rightarrow> json option" where
  "named_entry nm results = List.find (\<lambda>r. named_str ''name'' r = Some nm) results"

definition add_entry_side :: "json option \<Rightarrow> compare_side \<Rightarrow> compare_side" where
  "add_entry_side entry c =
     (case entry of
        Some e \<Rightarrow>
          c\<lparr>cmp_count := cmp_count c + 1,
            cmp_pass := cmp_pass c + (if named_str ''state'' e = Some ''Validated'' then 1 else 0),
            cmp_score := cmp_score c + of_nat (unwrap_or (json_u64 (json_at e ''idiomatic_score'')) 0),
            cmp_ms := cmp_ms c + of_nat (unwrap_or (json_u64 (json_at e ''total_ms'')) 0),
            cmp_cost := cmp_cost c + unwrap_or (json_f64 (json_at e ''estimated_cost_usd'')) 0\<rparr>
      | None \<Rightarrow> c)"

definition format_entry :: "(nat \<Rightarrow> rat \<Rightarrow> string) \<Rightarrow> json option \<Rightarrow> string" where
  "format_entry fixed entry =
     (case entry of
        None \<Rightarrow> ''---''
      | Some e \<Rightarrow>
          (if unwrap_or (named_str ''state'' e) ''?'' = ''Validated'' then ''PASS'' else ''FAIL'')
          @ '' score='' @ pad_left 3 (show_nat (unwrap_or (json_u64 (json_at e ''idiomatic_score'')) 0)) @ '' ''
          @ pad_left 5 (fixed 1 (of_nat (unwrap_or (json_u64 (json_at e ''total_ms'')) 0) / 1000)) @ ''s'')"

text \<open>The names of both reports, each once, sorted: those of the first with its repetitions.\<close>

definition first_names :: "json list \<Rightarrow> string list" where
  "first_names results = List.map_filter (named_str ''name'') results"

definition all_names :: "json list \<Rightarrow> json list \<Rightarrow> string list" where
  "all_names as bs = sort (fold (\<lambda>nm ns. if nm \<in> set ns then ns else ns @ [nm]) (first_names bs) (first_names as))"

definition table_row :: "string \<Rightarrow> string \<Rightarrow> string \<Rightarrow> string" where
  "table_row x y z = pad_right 20 x @ '' | '' @ pad_right 22 y @ '' | '' @ pad_right 22 z"

definition table_rule :: string where
  "table_rule = replicate 20 (CHR ''-'') @ ''-+-'' @ replicate 22 (CHR ''-'') @ ''-+-'' @ replicate 22 (CHR ''-'')"

definition average :: "nat \<Rightarrow> u32 \<Rightarrow> rat" where
  "average x n = (if 0 < n then of_nat x / of_nat (unat n) else 0)"

definition side_of :: "json list \<Rightarrow> string list \<Rightarrow> compare_side" where
  "side_of results names = fold (\<lambda>nm. add_entry_side (named_entry nm results)) names no_side"

definition provider_of :: "json list \<Rightarrow> string" where
  "provider_of results =
     unwrap_or (case results of r # _ \<Rightarrow> named_str ''provider'' r | [] \<Rightarrow> None) ''unknown''"

definition compare_lines ::
  "(nat \<Rightarrow> rat \<Rightarrow> string) \<Rightarrow> string \<Rightarrow> string \<Rightarrow> json list \<Rightarrow> json list \<Rightarrow> string list" where
  "compare_lines fixed label_a label_b as bs =
     (let names = all_names as bs; a = side_of as names; b = side_of bs names;
          row = (\<lambda>title f. table_row title (f a) (f b))
      in [table_row ''File'' label_a label_b, table_rule]
         @ map (\<lambda>nm. table_row nm (format_entry fixed (named_entry nm as)) (format_entry fixed (named_entry nm bs))) names
         @ [[], ''Summary'', table_row ''Metric'' label_a label_b, table_rule,
            row ''Pass Rate'' (\<lambda>c. fixed 1 (average (unat (cmp_pass c)) (cmp_count c) * 100) @ ''%''),
            row ''Avg Score'' (\<lambda>c. fixed 1 (average (unat (cmp_score c)) (cmp_count c))),
            row ''Avg Time'' (\<lambda>c. fixed 1 (average (unat (cmp_ms c)) (cmp_count c) / 1000) @ ''s''),
            row ''Total Cost'' (\<lambda>c. ''$'' @ fixed 4 (cmp_cost c)),
            table_row ''Provider'' (provider_of as) (provider_of bs)])"

definition load_results ::
  "('exe, 'g) bench_command_env \<Rightarrow> string \<Rightarrow> json \<Rightarrow> (string list, json list) result" where
  "load_results env side v =
     ok_or (json_array (json_at v ''results'')) [''baseline '' @ side @ '' has no '' @ [CHR 0x27] @ ''results'' @ [CHR 0x27] @ '' array'']"

definition parse_json :: "('exe, 'g) bench_command_env \<Rightarrow> string \<Rightarrow> (string list, json) result" where
  "parse_json env s = map_sum (\<lambda>e. [e]) id (kb_parse env s)"

definition cmd_compare ::
  "('exe, 'g) bench_command_env \<Rightarrow> string \<Rightarrow> string \<Rightarrow> string \<Rightarrow> string \<Rightarrow> command_state
   \<Rightarrow> (string list, unit) result \<times> command_state" where
  "cmd_compare env path_a label_a path_b label_b st =
     (let shown =
        bind_result (read_text ''baseline A'' path_a st) (\<lambda>a_str.
        bind_result (read_text ''baseline B'' path_b st) (\<lambda>b_str.
        bind_result (parse_json env a_str) (\<lambda>a.
        bind_result (parse_json env b_str) (\<lambda>b.
        bind_result (load_results env ''A'' a) (\<lambda>as.
        bind_result (load_results env ''B'' b) (\<lambda>bs.
          Inr (compare_lines (kb_fixed env) label_a label_b as bs)))))))
      in case shown of Inl e \<Rightarrow> (Inl e, st) | Inr ls \<Rightarrow> (Inr (), say_all ls st))"

section \<open>The report is true\<close>









text \<open>A run compared with itself has no regression, when the names of its files differ.\<close>

lemma no_regression_against_itself:
  assumes "distinct (map unit_name us)"
  shows "regressions (map unit_entry us) (map unit_entry us) = []"
proof -
  have "regression_line (map unit_entry us) (unit_entry u) = None" if "u \<in> set us" for u
  proof -
    have fields: "named_str ''name'' (unit_entry v) = Some (unit_name v)"
      "named_str ''state'' (unit_entry v) = Some (debug_state (unit_state v))" for v
      by (simp_all add: named_str_def json_at_def unit_entry_def Let_def json_str_def)
    have "List.find (\<lambda>r. named_str ''name'' r = Some (unit_name u)) (map unit_entry us) = Some (unit_entry u)"
      using that assms by (induction us) (auto simp: fields)
    then show ?thesis by (simp add: regression_line_def fields Let_def)
  qed
  then show ?thesis by (auto simp: regressions_def List.map_filter_def filter_empty_conv)
qed

text \<open>With a DeepSeek key in the environment the model named for Ollama is not used: the client is that of DeepSeek.\<close>

lemma bench_leaves_ollama:
  assumes "env_var ''DEEPSEEK_API_KEY'' = Some key" "make_deepseek mk key = Inr c"
  shows "create_client mk (bench_settings env_var (Some model) None) = Some (DeepSeekClient c)"
  using assms
  by (simp add: create_client_def create_llm_client_def provider_config_of_def primary_of_def bench_settings_def
      default_command_config_def create_deepseek_client_def Let_def)

text \<open>A DeepSeek key alone is not taken for a model: nothing is asked of it, whatever provider is named.\<close>

lemma bench_ignores_deepseek:
  "env_var ''ANTHROPIC_API_KEY'' = None \<Longrightarrow> \<not> bench_uses_model (bench_settings env_var None provider)"
  by (simp add: bench_uses_model_def bench_settings_def)

section \<open>Example\<close>



end
