(* ===== verification/Mcp_Server.thy ===== *)
theory Mcp_Server
  imports Json_Value File_Outcome Pipeline_Agents Task_Routing Crate_Builder
begin

text \<open>
  The MCP server (\<open>crates/noricum-mcp/src/protocol.rs\<close>, \<open>server.rs\<close>): messages of JSON-RPC and their decoding,
  the limit of calls per minute, the tools over the components of the pipeline, dispatch, and the loop over the
  lines of the input. A call that does not return (a migration of a source on which the rule-based translator
  loops) has the value \<open>None\<close>. The texts of JSON values, decoding errors and core errors, temporary files, time and
  the environment are parameters; those that change with time are functions of the number of the line.
\<close>

section \<open>Protocol\<close>

record rpc_request =
  rq_jsonrpc :: string
  rq_id :: json
  rq_method :: string
  rq_params :: json

record rpc_error =
  re_code :: int
  re_message :: string
  re_data :: "json option"

record rpc_response =
  rs_jsonrpc :: string
  rs_id :: json
  rs_result :: "json option"
  rs_error :: "rpc_error option"

definition rpc_success :: "json \<Rightarrow> json \<Rightarrow> rpc_response" where
  "rpc_success i v = \<lparr>rs_jsonrpc = ''2.0'', rs_id = i, rs_result = Some v, rs_error = None\<rparr>"

definition rpc_failure :: "json \<Rightarrow> int \<Rightarrow> string \<Rightarrow> rpc_response" where
  "rpc_failure i c msg =
     \<lparr>rs_jsonrpc = ''2.0'', rs_id = i, rs_result = None, rs_error = Some \<lparr>re_code = c, re_message = msg, re_data = None\<rparr>\<rparr>"

definition method_not_found :: int where "method_not_found = -32601"
definition invalid_params :: int where "invalid_params = -32602"
definition parse_error_code :: int where "parse_error_code = -32700"

definition request_of_json :: "json \<Rightarrow> rpc_request option" where
  "request_of_json v =
     (case struct_fields [''jsonrpc'', ''id'', ''method'', ''params''] v of
        Some [j, Some i, m, p] \<Rightarrow>
          Option.bind (string_field j) (\<lambda>js. map_option (\<lambda>ms.
            \<lparr>rq_jsonrpc = js, rq_id = i, rq_method = ms, rq_params = unwrap_or p JsonNull\<rparr>) (string_field m))
      | _ \<Rightarrow> None)"

record tool_call_params =
  tp_name :: string
  tp_arguments :: json

definition call_params_of_json :: "json \<Rightarrow> tool_call_params option" where
  "call_params_of_json v =
     (case struct_fields [''name'', ''arguments''] v of
        Some [nm, args] \<Rightarrow> map_option (\<lambda>s. \<lparr>tp_name = s, tp_arguments = unwrap_or args JsonNull\<rparr>) (string_field nm)
      | _ \<Rightarrow> None)"

record tool_result =
  tr_content :: "string list"
  tr_is_error :: bool

definition tool_text :: "string \<Rightarrow> tool_result" where
  "tool_text s = \<lparr>tr_content = [s], tr_is_error = False\<rparr>"

definition tool_fails :: "string \<Rightarrow> tool_result" where
  "tool_fails s = \<lparr>tr_content = [s], tr_is_error = True\<rparr>"

definition json_of_tool_result :: "tool_result \<Rightarrow> json" where
  "json_of_tool_result r =
     JsonObject
       [(''content'', JsonArray (map (\<lambda>s. JsonObject [(''type'', JsonString ''text''), (''text'', JsonString s)]) (tr_content r))),
        (''isError'', JsonBool (tr_is_error r))]"

definition json_of_rpc_error :: "rpc_error \<Rightarrow> json" where
  "json_of_rpc_error e =
     JsonObject
       ([(''code'', JsonNumber (of_int (re_code e))), (''message'', JsonString (re_message e))]
        @ (case re_data e of Some d \<Rightarrow> [(''data'', d)] | None \<Rightarrow> []))"

definition json_of_response :: "rpc_response \<Rightarrow> json" where
  "json_of_response r =
     JsonObject
       ([(''jsonrpc'', JsonString (rs_jsonrpc r)), (''id'', rs_id r)]
        @ (case rs_result r of Some v \<Rightarrow> [(''result'', v)] | None \<Rightarrow> [])
        @ (case rs_error r of Some e \<Rightarrow> [(''error'', json_of_rpc_error e)] | None \<Rightarrow> []))"

section \<open>The limit of calls\<close>

record mcp_state =
  rl_window :: u64
  rl_count :: u64
  mcp_cache :: "string \<rightharpoonup> string"

definition max_calls_per_minute :: u64 where "max_calls_per_minute = 60"

definition check_rate_limit :: "u64 \<Rightarrow> mcp_state \<Rightarrow> (string, unit) result \<times> mcp_state" where
  "check_rate_limit now st =
     (if 60 \<le> saturating_sub now (rl_window st) then (Inr (), st\<lparr>rl_window := now, rl_count := 1\<rparr>)
      else
        (let n = rl_count st + 1; st' = st\<lparr>rl_count := n\<rparr>
         in if max_calls_per_minute < n
            then (Inl (''rate limit exceeded: max '' @ show_nat (unat max_calls_per_minute) @ '' tool calls per minute''), st')
            else (Inr (), st')))"

section \<open>Tools\<close>

text \<open>\<open>MigrationConfig::default\<close>.\<close>

definition default_settings :: "(string \<Rightarrow> string option) \<Rightarrow> provider_settings" where
  "default_settings env_var =
     \<lparr>ps_primary = None, ps_anthropic_key = env_var ''ANTHROPIC_API_KEY'', ps_deepseek_key = env_var ''DEEPSEEK_API_KEY'',
      ps_ollama_url = None, ps_ollama_model = None, ps_num_ctx = None\<rparr>"

definition default_migration_config :: "(string \<Rightarrow> string option) \<Rightarrow> migration_config" where
  "default_migration_config env_var =
     \<lparr>max_repair_iterations = 5, min_idiomatic_score = 60, generate_tests = True, fuzz_test = False,
      fuzz_iterations = 100, preprocess = False, analysis_temperature = None, translation_temperature = None,
      repair_base_temperature = None, test_gen_temperature = None, max_tokens_budget = Some 2000000,
      max_llm_calls = Some 50, skip_c2rust = False, module_target_loc = None, max_unsafe_blocks = None,
      warm_start = None, crate_output_dir = None, providers = provider_config_of (default_settings env_var)\<rparr>"

record ('exe, 'g, 'c) mcp_env =
  me_files :: "nat \<Rightarrow> ('exe, 'g) file_environment"
  me_modular :: "nat \<Rightarrow> modular_migration"
  me_fuel :: nat
  me_now :: "nat \<Rightarrow> u64"
  me_temp_dir :: "nat \<Rightarrow> (string, string) result"
  me_temp_write :: "nat \<Rightarrow> string option"
  me_var :: "string \<Rightarrow> string option"
  me_runtime :: bool
  me_in_time :: "nat \<Rightarrow> bool"
  me_disk :: disk
  me_cargo :: "string \<Rightarrow> disk \<Rightarrow> compile_result option"
  me_makers :: "'c client_makers"
  me_call :: "nat \<Rightarrow> 'c backend \<Rightarrow> llm_client"
  me_review_preamble :: string
  me_pretty :: "json \<Rightarrow> (string, string) result"
  me_compact :: "json \<Rightarrow> (string, string) result"
  me_parse :: "string \<Rightarrow> (string, json) result"
  me_decode_error :: "json \<Rightarrow> string"
  me_core_error :: "core_error \<Rightarrow> string"
  me_version :: string

abbreviation me_bench :: "('exe, 'g, 'c) mcp_env \<Rightarrow> nat \<Rightarrow> 'exe workbench" where
  "me_bench env i \<equiv> bench (me_files env i)"

definition max_mcp_source_size :: nat where "max_mcp_source_size = 10 * 1024 * 1024"

definition quoted_name :: "string \<Rightarrow> string" where
  "quoted_name s = [CHR 0x27] @ s @ [CHR 0x27]"

text \<open>The checks at the head of every tool: the parameter is given, and not too large.\<close>

definition given :: "string \<Rightarrow> string option \<Rightarrow> (tool_result, string) result" where
  "given nm x = ok_or x (tool_fails (''missing '' @ quoted_name nm @ '' parameter''))"

definition sized :: "string \<Rightarrow> string \<Rightarrow> (tool_result, unit) result" where
  "sized nm s =
     (if max_mcp_source_size < length s
      then Inl (tool_fails (nm @ '' exceeds maximum size of '' @ show_nat max_mcp_source_size @ '' bytes''))
      else Inr ())"

definition result_value :: "('a, 'a) result \<Rightarrow> 'a" where
  "result_value r = (case r of Inl a \<Rightarrow> a | Inr a \<Rightarrow> a)"

definition mcp_source :: "string option \<Rightarrow> (string \<Rightarrow> tool_result) \<Rightarrow> tool_result" where
  "mcp_source source_arg k =
     result_value
       (bind_result (given ''source'' source_arg) (\<lambda>s. bind_result (sized ''source'' s) (\<lambda>_. Inr (k s))))"

definition mcp_sources :: "string option \<Rightarrow> string option \<Rightarrow> (string \<Rightarrow> string \<Rightarrow> tool_result) \<Rightarrow> tool_result" where
  "mcp_sources c_arg rust_arg k =
     result_value
       (bind_result (given ''c_source'' c_arg) (\<lambda>c.
        bind_result (given ''rust_source'' rust_arg) (\<lambda>r.
        bind_result (sized ''c_source'' c) (\<lambda>_.
        bind_result (sized ''rust_source'' r) (\<lambda>_. Inr (k c r))))))"

definition json_to_tool_result :: "('exe, 'g, 'c) mcp_env \<Rightarrow> json \<Rightarrow> tool_result" where
  "json_to_tool_result env v =
     (case me_pretty env v of Inr s \<Rightarrow> tool_text s | Inl e \<Rightarrow> tool_fails (''serialization error: '' @ e))"

definition migration_json :: "difficulty \<Rightarrow> function_unit \<Rightarrow> json" where
  "migration_json d u =
     JsonObject
       [(''difficulty'', JsonString (debug_difficulty d)), (''state'', JsonString (debug_state (unit_state u))),
        (''rust_source'', JsonString (unwrap_or (rust_output u) [])),
        (''idiomatic_score'', json_option json_u32 (idiomatic_score u)),
        (''unsafe_count'', json_option json_u32 (unsafe_count u)),
        (''diff_test_passed'', json_option JsonBool (metrics_diff_test_passed (metrics u)))]"

text \<open>The pipeline on a file that holds the source.\<close>

definition with_input ::
  "('exe, 'g) file_environment \<Rightarrow> string \<Rightarrow> string \<Rightarrow> ('exe, 'g) file_environment" where
  "with_input fe c_file src = fe\<lparr>read_source := (\<lambda>p. if p = c_file then Inr src else read_source fe p)\<rparr>"

definition migrate_input ::
  "('exe, 'g, 'c) mcp_env \<Rightarrow> nat \<Rightarrow> string \<Rightarrow> string \<Rightarrow> (string \<rightharpoonup> string)
   \<Rightarrow> ((tool_result, function_unit) result \<times> (string \<rightharpoonup> string)) option" where
  "migrate_input env i c_file src cache =
     (let fe = with_input (me_files env i) c_file src;
          failed = (\<lambda>e. (Inl (tool_fails (''migration failed: '' @ me_core_error env e)), cache))
      in if me_var env ''ANTHROPIC_API_KEY'' \<noteq> None
         then
           if \<not> me_runtime env
           then Some (Inl (tool_fails ''runtime initialization failed: MCP tokio runtime unavailable''), cache)
           else if \<not> me_in_time env i
           then Some (Inl (tool_fails ''migration timed out (5 minute limit)''), cache)
           else map_option
                  (\<lambda>r. case r of Inr (u, cache') \<Rightarrow> (Inr u, cache') | Inl e \<Rightarrow> failed e)
                  (migrate_file (me_fuel env) fe (default_migration_config (me_var env)) (me_modular env i) cache True c_file)
         else map_option (\<lambda>r. case r of Inr u \<Rightarrow> (Inr u, cache) | Inl e \<Rightarrow> failed e)
                (migrate_file_sync (me_fuel env) fe c_file))"

definition tool_migrate_function ::
  "('exe, 'g, 'c) mcp_env \<Rightarrow> nat \<Rightarrow> string option \<Rightarrow> (string \<rightharpoonup> string) \<Rightarrow> (tool_result \<times> (string \<rightharpoonup> string)) option" where
  "tool_migrate_function env i source_arg cache =
     (case bind_result (given ''source'' source_arg) (\<lambda>s. bind_result (sized ''source'' s) (\<lambda>_. Inr s)) of
        Inl e \<Rightarrow> Some (e, cache)
      | Inr src \<Rightarrow>
          (let d = classify_difficulty (grammars (me_bench env i)) src
           in case me_temp_dir env i of
                Inl e \<Rightarrow> Some (tool_fails (''failed to create temp dir: '' @ e), cache)
              | Inr dir \<Rightarrow>
                  (case me_temp_write env i of
                     Some e \<Rightarrow> Some (tool_fails (''failed to write temp file: '' @ e), cache)
                   | None \<Rightarrow>
                       map_option
                         (\<lambda>(r, cache'). (case r of Inl e \<Rightarrow> e | Inr u \<Rightarrow> json_to_tool_result env (migration_json d u), cache'))
                         (migrate_input env i (path_join dir ''input.c'') src cache))))"

definition tool_analyze_function :: "('exe, 'g, 'c) mcp_env \<Rightarrow> nat \<Rightarrow> string option \<Rightarrow> tool_result" where
  "tool_analyze_function env i source_arg =
     mcp_source source_arg (\<lambda>src.
       json_to_tool_result env
         (JsonObject
            [(''difficulty'', JsonString (debug_difficulty (classify_difficulty (grammars (me_bench env i)) src))),
             (''line_count'', json_nat (length (lines src))),
             (''characteristics'',
              JsonObject
                [(''has_pointers'', JsonBool (contains src ''*'' \<and> \<not> contains src ''/*'')),
                 (''has_malloc'', JsonBool (contains src ''malloc'' \<or> contains src ''calloc'')),
                 (''has_goto'', JsonBool (contains src ''goto ''))])]))"

definition is_crate_dir :: "disk \<Rightarrow> string \<Rightarrow> bool" where
  "is_crate_dir d p = (p \<noteq> [] \<and> files d (path_join p ''Cargo.toml'') \<noteq> None)"

definition tool_check_compilation :: "('exe, 'g, 'c) mcp_env \<Rightarrow> nat \<Rightarrow> string option \<Rightarrow> tool_result" where
  "tool_check_compilation env i source_arg =
     mcp_source source_arg (\<lambda>src.
       if is_crate_dir (me_disk env) src
       then (case check_crate_compiles (me_cargo env) src (me_disk env) of
               Inr r \<Rightarrow>
                 json_to_tool_result env
                   (JsonObject [(''success'', JsonBool (success r)), (''errors'', JsonString (cr_stderr r)),
                                (''mode'', JsonString ''crate'')])
             | Inl e \<Rightarrow> tool_fails (''crate compilation check failed: '' @ show_tool_error e))
       else (case check_rust_compiles (me_bench env i) src of
               Inr r \<Rightarrow>
                 json_to_tool_result env
                   (JsonObject [(''success'', JsonBool (success r)), (''errors'', JsonString (cr_stderr r))])
             | Inl e \<Rightarrow> tool_fails (''compilation check failed: '' @ show_tool_error e)))"

definition clippy_or_none :: "'exe workbench \<Rightarrow> string \<Rightarrow> string list" where
  "clippy_or_none wb src = (case run_clippy_on_source wb src of Inr ws \<Rightarrow> ws | Inl _ \<Rightarrow> [])"

definition tool_get_idiomatic_score :: "('exe, 'g, 'c) mcp_env \<Rightarrow> nat \<Rightarrow> string option \<Rightarrow> tool_result" where
  "tool_get_idiomatic_score env i source_arg =
     mcp_source source_arg (\<lambda>src.
       (let unsafes = count_unsafe_blocks (me_bench env i) src; warnings = clippy_or_none (me_bench env i) src;
            grade = compute_idiomatic_score unsafes (as_u32 (length warnings))
        in json_to_tool_result env
             (JsonObject
                [(''score'', json_u32 grade), (''unsafe_count'', json_u32 unsafes),
                 (''clippy_warning_count'', json_nat (length warnings)),
                 (''clippy_warnings'', json_strings warnings)])))"

definition tool_diff_test :: "('exe, 'g, 'c) mcp_env \<Rightarrow> nat \<Rightarrow> string option \<Rightarrow> string option \<Rightarrow> tool_result" where
  "tool_diff_test env i c_arg rust_arg =
     mcp_sources c_arg rust_arg (\<lambda>c_src rust_src.
       case run_diff_test (chain (me_bench env i)) c_src rust_src of
         Inr r \<Rightarrow>
           json_to_tool_result env
             (JsonObject
                [(''passed'', JsonBool (dt_passed r)), (''c_compiled'', JsonBool (c_compiled r)),
                 (''rust_compiled'', JsonBool (rust_compiled r)), (''c_output'', JsonString (c_output r)),
                 (''rust_output'', JsonString (rust_stdout r))])
       | Inl e \<Rightarrow> tool_fails (''diff test failed: '' @ show_tool_error e))"

definition suggestion :: "bool \<Rightarrow> string" where
  "suggestion ok =
     (if ok then ''Code compiles. Check clippy warnings for further improvements.''
      else ''Code has compilation errors. Review the compiler_output for details.'')"

definition tool_repair :: "('exe, 'g, 'c) mcp_env \<Rightarrow> nat \<Rightarrow> string option \<Rightarrow> string option \<Rightarrow> tool_result" where
  "tool_repair env i source_arg errors_arg =
     mcp_source source_arg (\<lambda>src.
       case check_rust_compiles (me_bench env i) src of
         Inl e \<Rightarrow> tool_fails (''compilation check failed: '' @ show_tool_error e)
       | Inr r \<Rightarrow>
           json_to_tool_result env
             (JsonObject
                [(''compiles'', JsonBool (success r)), (''compiler_output'', JsonString (cr_stderr r)),
                 (''clippy_warnings'', json_strings (clippy_or_none (me_bench env i) src)),
                 (''unsafe_count'', json_u32 (count_unsafe_blocks (me_bench env i) src)),
                 (''original_errors'', JsonString (unwrap_or errors_arg [])),
                 (''suggestion'', JsonString (suggestion (success r)))]))"

definition review_providers :: "(string \<Rightarrow> string option) \<Rightarrow> provider_config" where
  "review_providers env_var =
     (provider_config_default env_var)
       \<lparr>anthropic_api_key := env_var ''ANTHROPIC_API_KEY'', deepseek_api_key := env_var ''DEEPSEEK_API_KEY'',
        ollama_url := unwrap_or (env_var ''OLLAMA_URL'') default_ollama_url,
        ollama_model := unwrap_or (env_var ''OLLAMA_MODEL'') default_ollama_model\<rparr>"

definition diff_context :: "'exe workbench \<Rightarrow> string \<Rightarrow> string \<Rightarrow> string option" where
  "diff_context wb c_src rust_src =
     (case run_diff_test (chain wb) c_src rust_src of
        Inr r \<Rightarrow>
          Some (''Status: '' @ (if dt_passed r then ''PASS'' else ''FAIL'') @ [newline] @ ''C output: ''
                @ debug_str (c_output r) @ [newline] @ ''Rust output: '' @ debug_str (rust_stdout r))
      | Inl _ \<Rightarrow> None)"

definition review_json :: "review_result \<Rightarrow> json" where
  "review_json r =
     JsonObject
       [(''verdict'', JsonString (verdict_text r)), (''confidence'', json_u32 (confidence r)),
        (''summary'', JsonString (rv_summary r)), (''full_review'', JsonString (full_review r))]"

definition tool_behavioral_review ::
  "('exe, 'g, 'c) mcp_env \<Rightarrow> nat \<Rightarrow> string option \<Rightarrow> string option \<Rightarrow> tool_result" where
  "tool_behavioral_review env i c_arg rust_arg =
     mcp_sources c_arg rust_arg (\<lambda>c_src rust_src.
       if me_var env ''ANTHROPIC_API_KEY'' = None
       then tool_fails ''behavioral_review requires ANTHROPIC_API_KEY to be set''
       else if \<not> me_runtime env
       then tool_fails ''runtime initialization failed: MCP tokio runtime unavailable''
       else
         (let cfg = review_providers (me_var env)
          in case create_llm_client (me_makers env) cfg of
               Inl e \<Rightarrow> tool_fails (''failed to create LLM client: '' @ show_agent_error e)
             | Inr c \<Rightarrow>
                 (case select_model cfg (classify_difficulty (grammars (me_bench env i)) c_src) ''behavioral_review'' of
                    Inl e \<Rightarrow> tool_fails (''failed to select model: '' @ show_agent_error e)
                  | Inr sel \<Rightarrow>
                      if \<not> me_in_time env i then tool_fails ''behavioral review timed out (5 minute limit)''
                      else
                        (case fst (review_behavioral_equivalence_with_temperature (me_call env i c) (me_review_preamble env)
                                     (sel_model sel) c_src rust_src (diff_context (me_bench env i) c_src rust_src) None 0) of
                           Inr r \<Rightarrow> json_to_tool_result env (review_json r)
                         | Inl e \<Rightarrow> tool_fails (''behavioral review failed: '' @ show_agent_error e)))))"

section \<open>Dispatch\<close>

text \<open>The tools of \<open>tools/list\<close>: name, description, and the required string parameters with their descriptions.\<close>

definition tool_definitions :: "(string \<times> string \<times> (string \<times> string) list) list" where
  "tool_definitions =
     [(''migrate_function'', ''Migrate a C function to idiomatic Rust. Returns the translated Rust source code.'',
       [(''source'', ''The C source code to migrate'')]),
      (''analyze_function'', ''Analyze a C function and return its difficulty classification and characteristics.'',
       [(''source'', ''The C source code to analyze'')]),
      (''check_compilation'', ''Check if Rust source code compiles. Returns success/failure and any compiler errors.'',
       [(''source'', ''The Rust source code to compile-check'')]),
      (''get_idiomatic_score'',
       ''Score Rust source code for idiomatic quality (0-100). Checks unsafe usage and clippy warnings.'',
       [(''source'', ''The Rust source code to score'')]),
      (''diff_test'',
       ''Run differential test: compile C and Rust source, run both, compare outputs byte-by-byte.'',
       [(''c_source'', ''The C source code (must have main())''), (''rust_source'', ''The Rust source code (must have main())'')]),
      (''repair'', ''Attempt to fix Rust code that has compiler errors or test failures. Uses rule-based fixes.'',
       [(''source'', ''The Rust source code to repair''), (''errors'', ''Compiler errors or test failure descriptions'')]),
      (''behavioral_review'',
       ''Review behavioral equivalence between original C and migrated Rust code. Uses LLM to analyze all possible ''
       @ ''inputs, not just diff test cases. Requires ANTHROPIC_API_KEY.'',
       [(''c_source'', ''The original C source code''), (''rust_source'', ''The migrated Rust source code'')])]"

definition schema_json :: "(string \<times> string) list \<Rightarrow> json" where
  "schema_json ps =
     JsonObject
       [(''type'', JsonString ''object''),
        (''properties'', JsonObject (map (\<lambda>(nm, d).
            (nm, JsonObject [(''type'', JsonString ''string''), (''description'', JsonString d)])) ps)),
        (''required'', json_strings (map fst ps))]"

definition handle_tools_list :: "json \<Rightarrow> rpc_response" where
  "handle_tools_list i =
     rpc_success i
       (JsonObject [(''tools'', JsonArray (map (\<lambda>(nm, d, ps).
          JsonObject [(''name'', JsonString nm), (''description'', JsonString d), (''inputSchema'', schema_json ps)])
          tool_definitions))])"

definition handle_initialize :: "('exe, 'g, 'c) mcp_env \<Rightarrow> json \<Rightarrow> rpc_response" where
  "handle_initialize env i =
     rpc_success i
       (JsonObject
          [(''protocolVersion'', JsonString ''2024-11-05''),
           (''capabilities'', JsonObject [(''tools'', JsonObject [(''listChanged'', JsonBool False)])]),
           (''serverInfo'', JsonObject [(''name'', JsonString ''noricum''), (''version'', JsonString (me_version env))])])"

definition string_argument :: "tool_call_params \<Rightarrow> string \<Rightarrow> string option" where
  "string_argument p k = Option.bind (json_get (tp_arguments p) k) json_str"

definition call_tool ::
  "('exe, 'g, 'c) mcp_env \<Rightarrow> nat \<Rightarrow> tool_call_params \<Rightarrow> (string \<rightharpoonup> string) \<Rightarrow> (tool_result \<times> (string \<rightharpoonup> string)) option" where
  "call_tool env i p cache =
     (let arg = string_argument p; nm = tp_name p
      in if nm = ''migrate_function'' then tool_migrate_function env i (arg ''source'') cache
         else Some
           (if nm = ''analyze_function'' then tool_analyze_function env i (arg ''source'')
            else if nm = ''check_compilation'' then tool_check_compilation env i (arg ''source'')
            else if nm = ''get_idiomatic_score'' then tool_get_idiomatic_score env i (arg ''source'')
            else if nm = ''diff_test'' then tool_diff_test env i (arg ''c_source'') (arg ''rust_source'')
            else if nm = ''repair'' then tool_repair env i (arg ''source'') (arg ''errors'')
            else if nm = ''behavioral_review'' then tool_behavioral_review env i (arg ''c_source'') (arg ''rust_source'')
            else tool_fails (''unknown tool: '' @ nm),
            cache))"

definition handle_tools_call ::
  "('exe, 'g, 'c) mcp_env \<Rightarrow> nat \<Rightarrow> json \<Rightarrow> json \<Rightarrow> mcp_state \<Rightarrow> (rpc_response \<times> mcp_state) option" where
  "handle_tools_call env i req_id ps st =
     (case check_rate_limit (me_now env i) st of
        (Inl msg, st') \<Rightarrow> Some (rpc_failure req_id (-32000) msg, st')
      | (Inr _, st') \<Rightarrow>
          (case call_params_of_json ps of
             None \<Rightarrow> Some (rpc_failure req_id invalid_params (''invalid tool call params: '' @ me_decode_error env ps), st')
           | Some p \<Rightarrow>
               map_option (\<lambda>(r, cache'). (rpc_success req_id (json_of_tool_result r), st'\<lparr>mcp_cache := cache'\<rparr>))
                 (call_tool env i p (mcp_cache st'))))"

definition dispatch ::
  "('exe, 'g, 'c) mcp_env \<Rightarrow> nat \<Rightarrow> rpc_request \<Rightarrow> mcp_state \<Rightarrow> (rpc_response \<times> mcp_state) option" where
  "dispatch env i q st =
     (if rq_method q = ''initialize'' then Some (handle_initialize env (rq_id q), st)
      else if rq_method q = ''initialized'' then Some (rpc_success (rq_id q) (JsonObject []), st)
      else if rq_method q = ''tools/list'' then Some (handle_tools_list (rq_id q), st)
      else if rq_method q = ''tools/call'' then handle_tools_call env i (rq_id q) (rq_params q) st
      else Some (rpc_failure (rq_id q) method_not_found (''method not found: '' @ rq_method q), st))"

definition handle_message ::
  "('exe, 'g, 'c) mcp_env \<Rightarrow> nat \<Rightarrow> string \<Rightarrow> mcp_state \<Rightarrow> (rpc_response \<times> mcp_state) option" where
  "handle_message env i text st =
     (let unreadable = (\<lambda>e. Some (rpc_failure JsonNull parse_error_code (''parse error: '' @ e), st))
      in case me_parse env text of
           Inl e \<Rightarrow> unreadable e
         | Inr v \<Rightarrow> (case request_of_json v of None \<Rightarrow> unreadable (me_decode_error env v) | Some q \<Rightarrow> dispatch env i q st))"

definition serialization_failure :: string where
  "serialization_failure =
     map (\<lambda>c. if c = CHR 0x27 then CHR 0x22 else c)
       (concat [''{'', quoted_name ''jsonrpc'', '':'', quoted_name ''2.0'', '','', quoted_name ''id'', '':null,'',
                quoted_name ''error'', '':{'', quoted_name ''code'', '':-32603,'', quoted_name ''message'', '':'',
                quoted_name ''serialization error'', ''}}''])"

definition response_line :: "('exe, 'g, 'c) mcp_env \<Rightarrow> rpc_response \<Rightarrow> string" where
  "response_line env r = (case me_compact env (json_of_response r) of Inr s \<Rightarrow> s | Inl _ \<Rightarrow> serialization_failure)"

text \<open>The loop: the lines, the number of the next one, the state; the responses, and whether the loop ended.\<close>

fun serve :: "('exe, 'g, 'c) mcp_env \<Rightarrow> nat \<Rightarrow> string list \<Rightarrow> mcp_state \<Rightarrow> rpc_response list \<times> bool" where
  "serve env i [] st = ([], True)"
| "serve env i (line # ls) st =
     (let text = trim line
      in if text = [] then serve env (Suc i) ls st
         else (case handle_message env i text st of
                 None \<Rightarrow> ([], False)
               | Some (r, st') \<Rightarrow> (let (rs, done_all) = serve env (Suc i) ls st' in (r # rs, done_all))))"

definition initial_mcp_state :: "(string \<rightharpoonup> string) \<Rightarrow> mcp_state" where
  "initial_mcp_state cache = \<lparr>rl_window = 0, rl_count = 0, mcp_cache = cache\<rparr>"

definition run_server :: "('exe, 'g, 'c) mcp_env \<Rightarrow> string list \<Rightarrow> (string \<rightharpoonup> string) \<Rightarrow> string list \<times> bool" where
  "run_server env input cache = map_prod (map (response_line env)) id (serve env 0 input (initial_mcp_state cache))"

section \<open>Every line is answered\<close>

text \<open>The identifier a line is answered with.\<close>

definition request_id :: "('exe, 'g, 'c) mcp_env \<Rightarrow> string \<Rightarrow> json" where
  "request_id env text =
     (case me_parse env text of
        Inr v \<Rightarrow> (case request_of_json v of Some q \<Rightarrow> rq_id q | None \<Rightarrow> JsonNull)
      | Inl _ \<Rightarrow> JsonNull)"

definition answers :: "('exe, 'g, 'c) mcp_env \<Rightarrow> string \<Rightarrow> rpc_response \<Rightarrow> bool" where
  "answers env text r \<longleftrightarrow>
     rs_jsonrpc r = ''2.0'' \<and> rs_id r = request_id env text \<and> (rs_result r = None) = (rs_error r \<noteq> None)"

lemma handle_tools_call_answer:
  assumes "handle_tools_call env i req ps st = Some (r, st')"
  shows "rs_jsonrpc r = ''2.0'' \<and> rs_id r = req \<and> (rs_result r = None) = (rs_error r \<noteq> None)"
proof (cases "check_rate_limit (me_now env i) st")
  case (Pair limit st1)
  show ?thesis
  proof (cases limit)
    case (Inl msg)
    with assms Pair show ?thesis by (auto simp: handle_tools_call_def rpc_failure_def)
  next
    case (Inr u)
    show ?thesis
    proof (cases "call_params_of_json ps")
      case None
      with assms Pair Inr show ?thesis by (auto simp: handle_tools_call_def rpc_failure_def)
    next
      case (Some p)
      with assms Pair Inr show ?thesis by (auto simp: handle_tools_call_def rpc_success_def)
    qed
  qed
qed

lemma dispatch_answer:
  assumes "dispatch env i q st = Some (r, st')"
  shows "rs_jsonrpc r = ''2.0'' \<and> rs_id r = rq_id q \<and> (rs_result r = None) = (rs_error r \<noteq> None)"
  using assms handle_tools_call_answer [of env i "rq_id q" "rq_params q" st r st']
  by (auto simp: dispatch_def handle_initialize_def handle_tools_list_def rpc_success_def rpc_failure_def split: if_splits)

lemma handle_message_answer:
  assumes "handle_message env i text st = Some (r, st')"
  shows "answers env text r"
proof (cases "me_parse env text")
  case (Inl e)
  with assms show ?thesis by (auto simp: handle_message_def answers_def request_id_def rpc_failure_def)
next
  case (Inr v)
  show ?thesis
  proof (cases "request_of_json v")
    case None
    with assms Inr show ?thesis by (auto simp: handle_message_def answers_def request_id_def rpc_failure_def)
  next
    case (Some q)
    with assms Inr have "dispatch env i q st = Some (r, st')" by (simp add: handle_message_def)
    from dispatch_answer [OF this] Some Inr show ?thesis by (simp add: answers_def request_id_def)
  qed
qed

text \<open>
  C30: Every line of the input is answered, in order. When the server comes to the end of its input, it has given
  exactly one response for each line that is not blank: the \<open>n\<close>-th response belongs to the \<open>n\<close>-th such line, has its
  identifier (or null, if the line is no request), the version 2.0, and either a result or an error, never both.
\<close>

theorem mcp_answers_every_line:
  assumes "serve env i input st = (rs, True)"
  shows "list_all2 (answers env) (filter (\<lambda>t. t \<noteq> []) (map trim input)) rs"
  using assms
proof (induction input arbitrary: i st rs)
  case Nil
  then show ?case by simp
next
  case (Cons line ls)
  show ?case
  proof (cases "trim line = []")
    case True
    with Cons show ?thesis by simp
  next
    case False
    show ?thesis
    proof (cases "handle_message env i (trim line) st")
      case None
      with Cons.prems False show ?thesis by simp
    next
      case (Some x)
      obtain r st' where x: "x = (r, st')" by (cases x)
      obtain rs' ended where rest: "serve env (Suc i) ls st' = (rs', ended)" by (cases "serve env (Suc i) ls st'")
      with Cons.prems False Some x have "rs = r # rs'" "ended" by simp_all
      with Cons.IH [of "Suc i" st' rs'] rest handle_message_answer [of env i "trim line" st r st'] Some x False
      show ?thesis by simp
    qed
  qed
qed

section \<open>The limit of calls in any minute\<close>

fun accepted :: "u64 list \<Rightarrow> mcp_state \<Rightarrow> nat" where
  "accepted [] st = 0"
| "accepted (t # ts) st =
     (case check_rate_limit t st of (Inr _, st') \<Rightarrow> Suc (accepted ts st') | (Inl _, st') \<Rightarrow> accepted ts st')"

lemma rate_count_step:
  assumes "unat (rl_count st) + Suc n < 2 ^ 64"
  shows "unat (rl_count st + 1) = Suc (unat (rl_count st))"
  using assms by (simp add: unat_word_ariths)

lemma accepted_in_window:
  assumes "\<forall>t \<in> set ts. \<not> 60 \<le> saturating_sub t (rl_window st)" "unat (rl_count st) + length ts < 2 ^ 64"
  shows "accepted ts st \<le> 60 - unat (rl_count st)"
  using assms
proof (induction ts arbitrary: st)
  case Nil
  then show ?case by simp
next
  case (Cons t ts)
  define n where "n = rl_count st + 1"
  have n: "unat n = Suc (unat (rl_count st))" unfolding n_def using Cons.prems(2) by (intro rate_count_step) simp
  have "accepted ts (st\<lparr>rl_count := n\<rparr>) \<le> 60 - unat n"
    using Cons.IH [of "st\<lparr>rl_count := n\<rparr>"] Cons.prems n by simp
  moreover have "max_calls_per_minute < n \<longleftrightarrow> 60 < unat n"
    by (simp add: max_calls_per_minute_def word_less_nat_alt)
  ultimately show ?case using Cons.prems(1) n by (auto simp: check_rate_limit_def Let_def n_def [symmetric])
qed

text \<open>
  The limit of calls. Of all tool calls whose times lie within one minute, in whatever order the clock
  gives them, at most 120 are accepted: the window is fixed, so that two windows can meet in the minute.
\<close>

theorem rate_limit_any_minute:
  assumes "\<forall>t \<in> set ts. lo \<le> t \<and> unat t < unat lo + 60" and "unat (rl_count st) + length ts < 2 ^ 64"
  shows "accepted ts st \<le> (60 - unat (rl_count st)) + 60"
  using assms
proof (induction ts arbitrary: st)
  case Nil
  then show ?case by simp
next
  case (Cons t ts)
  show ?case
  proof (cases "60 \<le> saturating_sub t (rl_window st)")
    case True
    define st1 where "st1 = st\<lparr>rl_window := t, rl_count := 1\<rparr>"
    have "\<not> 60 \<le> saturating_sub t' (rl_window st1)" if "t' \<in> set ts" for t'
    proof -
      have "unat lo \<le> unat t" "unat t' < unat lo + 60" using Cons.prems(1) that by (auto simp: word_le_nat_alt)
      then show ?thesis by (simp add: st1_def word_le_nat_alt unat_saturating_sub)
    qed
    then have "accepted ts st1 \<le> 60 - unat (rl_count st1)"
      using Cons.prems(2) by (intro accepted_in_window) (auto simp: st1_def)
    then show ?thesis using True by (simp add: check_rate_limit_def flip: st1_def) (simp add: st1_def)
  next
    case False
    define n where "n = rl_count st + 1"
    have n: "unat n = Suc (unat (rl_count st))" unfolding n_def using Cons.prems(2) by (intro rate_count_step) simp
    have "accepted ts (st\<lparr>rl_count := n\<rparr>) \<le> (60 - unat n) + 60"
      using Cons.IH [of "st\<lparr>rl_count := n\<rparr>"] Cons.prems n by simp
    moreover have "max_calls_per_minute < n \<longleftrightarrow> 60 < unat n"
      by (simp add: max_calls_per_minute_def word_less_nat_alt)
    ultimately show ?thesis using False n by (auto simp: check_rate_limit_def Let_def n_def [symmetric])
  qed
qed

text \<open>The bound is nearly reached: 119 calls within two seconds, 59 at the end of a window and 60 behind it.\<close>

definition burst :: "u64 list" where "burst = replicate 59 1059 @ replicate 60 1060"

definition burst_state :: mcp_state where
  "burst_state = \<lparr>rl_window = 1000, rl_count = 1, mcp_cache = Map.empty\<rparr>"

fun accepted_counts :: "u64 list \<Rightarrow> u64 \<Rightarrow> u64 \<Rightarrow> nat" where
  "accepted_counts [] w n = 0"
| "accepted_counts (t # ts) w n =
     (if 60 \<le> saturating_sub t w then Suc (accepted_counts ts t 1)
      else if max_calls_per_minute < n + 1 then accepted_counts ts w (n + 1) else Suc (accepted_counts ts w (n + 1)))"

lemma accepted_eq: "accepted ts st = accepted_counts ts (rl_window st) (rl_count st)"
  by (induction ts arbitrary: st) (simp_all add: check_rate_limit_def Let_def)

lemma burst_accepted: "accepted burst burst_state = 119"
proof -
  have "accepted_counts burst 1000 1 = 119" by code_simp
  then show ?thesis by (simp add: accepted_eq burst_state_def)
qed

theorem rate_limit_any_minute_witness: "accepted burst burst_state \<le> 119"
  using rate_limit_any_minute [of burst 1001 burst_state] by (simp add: burst_def burst_state_def)

section \<open>Input that is too large\<close>

lemma mcp_source_large:
  "max_mcp_source_size < length s \<Longrightarrow> tr_is_error (mcp_source (Some s) k)"
  by (simp add: mcp_source_def given_def ok_or_def sized_def result_value_def bind_result_def tool_fails_def)

lemma mcp_sources_large:
  assumes "max_mcp_source_size < length c \<or> max_mcp_source_size < length r"
  shows "tr_is_error (mcp_sources (Some c) (Some r) k)"
  using assms
  by (auto simp: mcp_sources_def given_def ok_or_def sized_def result_value_def bind_result_def tool_fails_def)

text \<open>No tool reads an input above the limit: the answer is an error and the cache stays as it is.\<close>

lemma large_source_rejected:
  assumes "tp_name p \<in> {''migrate_function'', ''analyze_function'', ''check_compilation'', ''get_idiomatic_score'', ''repair''}"
    and "string_argument p ''source'' = Some s" "max_mcp_source_size < length s"
  shows "\<exists>r. call_tool env i p cache = Some (r, cache) \<and> tr_is_error r"
proof -
  have "tool_migrate_function env i (Some s) cache
      = Some (tool_fails (''source exceeds maximum size of '' @ show_nat max_mcp_source_size @ '' bytes''), cache)"
    using assms(3) by (simp add: tool_migrate_function_def given_def ok_or_def sized_def bind_result_def)
  then show ?thesis
    using assms mcp_source_large [OF assms(3)]
    by (auto simp: call_tool_def Let_def tool_analyze_function_def tool_check_compilation_def
        tool_get_idiomatic_score_def tool_repair_def tool_fails_def)
qed

section \<open>An example\<close>

definition demo_mcp :: "(string, unit, string) mcp_env" where
  "demo_mcp =
     \<lparr>me_files = (\<lambda>_. demo_environment), me_modular = (\<lambda>_. no_modular), me_fuel = 20, me_now = (\<lambda>i. 1000 + of_nat i),
      me_temp_dir = (\<lambda>_. Inr ''tmp''), me_temp_write = (\<lambda>_. None), me_var = (\<lambda>_. None), me_runtime = True,
      me_in_time = (\<lambda>_. True), me_disk = empty_disk, me_cargo = (\<lambda>_ _. None), me_makers = demo_makers,
      me_call = (\<lambda>_ _ _ _. Inr []), me_review_preamble = [], me_pretty = (\<lambda>_. Inr []), me_compact = (\<lambda>_. Inr []),
      me_parse = (\<lambda>s. if s = ''init'' then Inr (JsonArray [JsonString ''2.0'', JsonNumber 7, JsonString ''initialize''])
                     else Inl ''expected value''),
      me_decode_error = (\<lambda>_. []), me_core_error = (\<lambda>_. []), me_version = ''0.1.0''\<rparr>"

theorem mcp_answers_every_line_witness:
  "\<exists>rs. serve demo_mcp 0 [''init'', '' '', ''x''] burst_state = (rs, True) \<and> list_all2 (answers demo_mcp) [''init'', ''x''] rs"
proof -
  have texts: "trim ''init'' = ''init''" "trim '' '' = []" "trim ''x'' = ''x''" by code_simp+
  have "\<exists>rs. serve demo_mcp 0 [''init'', '' '', ''x''] burst_state = (rs, True)"
    by (simp add: texts handle_message_def demo_mcp_def request_of_json_def struct_fields_def string_field_def json_str_def dispatch_def)
  then obtain rs where rs: "serve demo_mcp 0 [''init'', '' '', ''x''] burst_state = (rs, True)" ..
  from mcp_answers_every_line [OF rs] rs texts show ?thesis by simp
qed

end
