(* ===== verification/Cli_Main.thy ===== *)
theory Cli_Main
  imports Bench_Command Crust_Bench Mcp_Server
begin

text \<open>
  The program \<open>noricum\<close> (\<open>crates/noricum-cli/src/main.rs\<close>): its commands, the exit code and the messages of errors,
  the start of the server, and the commands \<open>analyze\<close>, \<open>doctor\<close>, \<open>review\<close> and \<open>crust-bench\<close>. The reading of the
  arguments, the logging and the network are those of packages.
\<close>

section \<open>Commands\<close>



record crust_options =
  co_dataset :: string
  co_filter :: "string option"
  co_limit :: "nat option"
  co_json :: bool
  co_output :: "string option"
  co_ollama :: "string option"
  co_provider :: "string option"




section \<open>Analyze\<close>


section \<open>Doctor\<close>










section \<open>Review\<close>






section \<open>The benchmark\<close>

definition crust_settings :: "(string \<Rightarrow> string option) \<Rightarrow> crust_options \<Rightarrow> provider_settings" where
  "crust_settings env_var opts =
     (let s = kc_settings (default_command_config env_var);
          s1 = (if co_ollama opts \<noteq> None then s\<lparr>ps_anthropic_key := None, ps_ollama_model := co_ollama opts\<rparr> else s)
      in s1\<lparr>ps_primary := co_provider opts\<rparr>)"




section \<open>The server\<close>









section \<open>The program\<close>




section \<open>Only requests with the key are served\<close>






text \<open>The option for an Ollama model leaves a DeepSeek key in place here as well.\<close>

lemma crust_keeps_deepseek: "ps_deepseek_key (crust_settings env_var opts) = env_var ''DEEPSEEK_API_KEY''"
  by (simp add: crust_settings_def default_command_config_def Let_def)

section \<open>Example\<close>



end
