(* ===== verification/Agent_Tools.thy ===== *)
theory Agent_Tools
  imports Json_Value Validation
begin

text \<open>
  The tools that are offered to agents (\<open>crates/noricum-tools/src/rig_tools.rs\<close>): the check of paths, the reading and
  writing of files, and the tools over the compiler. The file system has directories, files and symbolic links, and is
  walked the way the operating system walks it; permissions are left out.
\<close>

section \<open>Files and links\<close>

text \<open>A link leads to components, from the root or from the directory the link is in.\<close>

datatype file_node = PlainFile string | Folder | Link bool "string list"

text \<open>\<open>fs_nodes\<close> takes paths without links; the root is the empty one. \<open>os_text\<close> is the text of an error for a path.\<close>

record file_system =
  fs_nodes :: "string list \<rightharpoonup> file_node"
  fs_cwd :: "string list option"
  os_text :: "string \<Rightarrow> string"

text \<open>
  Where a path leads: links are followed, at most as many as the fuel says; only the last component may be missing,
  and then the path is that of the file that would be created.
\<close>

function locate :: "nat \<Rightarrow> (string list \<rightharpoonup> file_node) \<Rightarrow> string list \<Rightarrow> string list \<Rightarrow> string list option" where
  "locate n fs cur [] = Some cur"
| "locate n fs cur (c # cs) =
     (if c = ''..'' then locate n fs (butlast cur) cs
      else case fs (cur @ [c]) of
             None \<Rightarrow> if cs = [] then Some (cur @ [c]) else None
           | Some (PlainFile _) \<Rightarrow> if cs = [] then Some (cur @ [c]) else None
           | Some Folder \<Rightarrow> locate n fs (cur @ [c]) cs
           | Some (Link from_root t) \<Rightarrow>
               (case n of 0 \<Rightarrow> None | Suc m \<Rightarrow> locate m fs (if from_root then [] else cur) (t @ cs)))"
  by pat_completeness auto
termination
  by (relation "inv_image (less_than <*lex*> less_than) (\<lambda>(n, fs, cur, cs). (n, length cs))") auto

declare locate.simps [simp del]

definition max_links :: nat where "max_links = 40"

text \<open>
  The components of a path: empty ones and single dots are left out. So a slash at the end is ignored, where the
  operating system fails on a plain file.
\<close>

definition components :: "string \<Rightarrow> string list" where
  "components p = filter (\<lambda>c. c \<noteq> [] \<and> c \<noteq> ''.'') (split_char (CHR ''/'') p)"

definition is_absolute :: "string \<Rightarrow> bool" where
  "is_absolute p = starts_with p ''/''"

text \<open>Where the operating system is led by a path; a relative path starts from the current directory.\<close>

definition os_path :: "file_system \<Rightarrow> string \<Rightarrow> string list option" where
  "os_path fs p =
     (if p = [] then None
      else if is_absolute p then locate max_links (fs_nodes fs) [] (components p)
      else Option.bind (fs_cwd fs) (\<lambda>d. locate max_links (fs_nodes fs) d (components p)))"

definition node_at :: "file_system \<Rightarrow> string list \<Rightarrow> file_node option" where
  "node_at fs p = (if p = [] then Some Folder else fs_nodes fs p)"

text \<open>\<open>canonicalize\<close> of an absolute path given by its components: it has to exist.\<close>

definition canonical_path :: "file_system \<Rightarrow> string list \<Rightarrow> string list option" where
  "canonical_path fs cs =
     (case locate max_links (fs_nodes fs) [] cs of
        Some p \<Rightarrow> if node_at fs p \<noteq> None then Some p else None | None \<Rightarrow> None)"

section \<open>The check of paths\<close>

datatype rig_tool_error = Compilation string | RigIo string | RigTool tool_error | PathViolation string

definition below_dir :: "string list \<Rightarrow> string list \<Rightarrow> bool" where
  "below_dir d p = (take (length d) p = d)"

definition tmp_dir :: "file_system \<Rightarrow> string list" where
  "tmp_dir fs = unwrap_or (canonical_path fs [''tmp'']) [''tmp'']"

definition var_tmp_dir :: "file_system \<Rightarrow> string list" where
  "var_tmp_dir fs = unwrap_or (canonical_path fs [''var'', ''tmp'']) [''var'', ''tmp'']"

definition allowed_path :: "file_system \<Rightarrow> string list \<Rightarrow> bool" where
  "allowed_path fs p =
     (below_dir (tmp_dir fs) p \<or> below_dir (var_tmp_dir fs) p \<or> (case fs_cwd fs of Some d \<Rightarrow> below_dir d p | None \<Rightarrow> False))"

text \<open>The path that is checked: the path itself when it exists, else its name in the directory it is in.\<close>

definition checked_path :: "file_system \<Rightarrow> string \<Rightarrow> (rig_tool_error, string list) result" where
  "checked_path fs path =
     (let cs = components path
      in case canonical_path fs cs of
           Some p \<Rightarrow> Inr p
         | None \<Rightarrow>
             (if cs = [] then Inl (PathViolation (''cannot resolve path '' @ path @ '': no parent directory''))
              else (case canonical_path fs (butlast cs) of
                      None \<Rightarrow> Inl (PathViolation (''cannot resolve parent of '' @ path @ '': '' @ os_text fs path))
                    | Some d \<Rightarrow> Inr (d @ [last cs]))))"

definition validate_file_path :: "file_system \<Rightarrow> string \<Rightarrow> (rig_tool_error, unit) result" where
  "validate_file_path fs path =
     (if ''..'' \<in> set (components path)
      then Inl (PathViolation (''path contains '' @ [CHR 0x27] @ ''..'' @ [CHR 0x27] @ '' traversal''))
      else if is_absolute path
      then bind_result (checked_path fs path) (\<lambda>p.
             if allowed_path fs p then Inr () else Inl (PathViolation (''absolute path outside allowed directories: '' @ path)))
      else Inr ())"

section \<open>Reading and writing\<close>

definition read_file_text :: "file_system \<Rightarrow> string \<Rightarrow> (rig_tool_error, string) result" where
  "read_file_text fs path =
     (case os_path fs path of
        Some p \<Rightarrow> (case node_at fs p of Some (PlainFile s) \<Rightarrow> Inr s | _ \<Rightarrow> Inl (RigIo (os_text fs path)))
      | None \<Rightarrow> Inl (RigIo (os_text fs path)))"

definition write_to :: "file_system \<Rightarrow> string \<Rightarrow> string \<Rightarrow> (rig_tool_error, file_system) result" where
  "write_to fs path text =
     (case os_path fs path of
        Some p \<Rightarrow>
          (case node_at fs p of
             Some Folder \<Rightarrow> Inl (RigIo (os_text fs path))
           | _ \<Rightarrow> Inr (fs\<lparr>fs_nodes := (fs_nodes fs)(p \<mapsto> PlainFile text)\<rparr>))
      | None \<Rightarrow> Inl (RigIo (os_text fs path)))"

definition read_source_tool :: "file_system \<Rightarrow> string \<Rightarrow> (rig_tool_error, string) result" where
  "read_source_tool fs path = bind_result (validate_file_path fs path) (\<lambda>_. read_file_text fs path)"

definition write_source_tool ::
  "file_system \<Rightarrow> string \<Rightarrow> string \<Rightarrow> (rig_tool_error, (bool \<times> nat)) result \<times> file_system" where
  "write_source_tool fs path text =
     (case bind_result (validate_file_path fs path) (\<lambda>_. write_to fs path text) of
        Inl e \<Rightarrow> (Inl e, fs)
      | Inr fs' \<Rightarrow> (Inr (True, length text), fs'))"

section \<open>Tools over the compiler\<close>

definition compile_check_tool :: "'exe workbench \<Rightarrow> string \<Rightarrow> (rig_tool_error, bool \<times> string) result" where
  "compile_check_tool wb src = map_sum RigTool (\<lambda>r. (success r, cr_stderr r)) (check_rust_compiles wb src)"

definition clippy_check_tool :: "'exe workbench \<Rightarrow> string \<Rightarrow> (rig_tool_error, string list \<times> nat) result" where
  "clippy_check_tool wb src = map_sum RigTool (\<lambda>ws. (ws, length ws)) (run_clippy_on_source wb src)"

definition unsafe_count_tool :: "'exe workbench \<Rightarrow> string \<Rightarrow> (rig_tool_error, u32) result" where
  "unsafe_count_tool wb src = Inr (count_unsafe_blocks wb src)"

text \<open>What an agent is told of a tool: its name, its description and its parameters, all strings and required.\<close>

definition parameters_of :: "(string \<times> string) list \<Rightarrow> json" where
  "parameters_of ps =
     JsonObject
       [(''type'', JsonString ''object''),
        (''properties'',
         JsonObject (map (\<lambda>(nm, d). (nm, JsonObject [(''type'', JsonString ''string''), (''description'', JsonString d)])) ps)),
        (''required'', json_strings (map fst ps))]"

definition rig_definitions :: "(string \<times> string \<times> json) list" where
  "rig_definitions =
     [(''compile_check'', ''Compile-check Rust source code with rustc. Returns success/failure and any compiler errors.'',
       parameters_of [(''source_code'', ''The Rust source code to compile-check'')]),
      (''read_source'', ''Read the contents of a source file from disk.'',
       parameters_of [(''file_path'', ''Path to the source file to read'')]),
      (''write_source'', ''Write content to a source file on disk.'',
       parameters_of [(''file_path'', ''Path where the file should be written''), (''content'', ''The content to write to the file'')]),
      (''clippy_check'', ''Run Clippy on Rust source code and return a list of warnings.'',
       parameters_of [(''source_code'', ''The Rust source code to lint with Clippy'')]),
      (''unsafe_count'', ''Count the number of unsafe blocks and unsafe fn declarations in Rust source code.'',
       parameters_of [(''source_code'', ''The Rust source code to analyze for unsafe usage'')])]"

section \<open>Absolute paths are confined\<close>

lemma locate_last:
  "locate n fs cur (as @ [c]) = Some p \<Longrightarrow> locate n fs cur as = Some d \<Longrightarrow> c \<noteq> ''..'' \<Longrightarrow>
   p = d @ [c] \<or> (\<exists>k t. fs (d @ [c]) = Some (Link k t))"
proof (induction n fs cur as rule: locate.induct)
  case (1 n fs cur)
  then show ?case by (auto simp: locate.simps split: option.splits file_node.splits)
next
  case (2 n fs cur a as)
  show ?case
  proof (cases "a = ''..''")
    case True
    with 2 show ?thesis by (simp add: locate.simps(2))
  next
    case False
    show ?thesis
    proof (cases "fs (cur @ [a])")
      case None
      with 2(4) False show ?thesis by (simp add: locate.simps(2))
    next
      case (Some node)
      show ?thesis
      proof (cases node)
        case (PlainFile s)
        with Some 2(4) False show ?thesis by (simp add: locate.simps(2))
      next
        case Folder
        with Some False 2(4-6) show ?thesis by (intro "2.IH"(2)) (simp_all add: locate.simps(2))
      next
        case (Link k t)
        with Some False 2(4) obtain m where m: "n = Suc m" by (cases n) (simp_all add: locate.simps(2))
        with Some False Link 2(4-6) show ?thesis by (intro "2.IH"(3)) (simp_all add: locate.simps(2))
      qed
    qed
  qed
qed

text \<open>A path that does not exist because its last component is a link to nowhere.\<close>

definition dangling_link :: "file_system \<Rightarrow> string \<Rightarrow> bool" where
  "dangling_link fs path =
     (canonical_path fs (components path) = None
      \<and> (case canonical_path fs (butlast (components path)) of
           Some d \<Rightarrow> (case fs_nodes fs (d @ [last (components path)]) of Some (Link _ _) \<Rightarrow> True | _ \<Rightarrow> False)
         | None \<Rightarrow> False))"

lemma canonical_located: "canonical_path fs cs = Some p \<Longrightarrow> locate max_links (fs_nodes fs) [] cs = Some p \<and> node_at fs p \<noteq> None"
  by (auto simp: canonical_path_def split: option.splits if_splits)

lemma validated_path_allowed:
  assumes "validate_file_path fs path = Inr ()" "is_absolute path" "os_path fs path = Some p" "\<not> dangling_link fs path"
  shows "allowed_path fs p"
proof -
  let ?cs = "components path"
  have located: "locate max_links (fs_nodes fs) [] ?cs = Some p"
    using assms(2,3) by (simp add: os_path_def split: if_splits)
  from assms(1,2) obtain q where q: "checked_path fs path = Inr q" "allowed_path fs q" and up: "''..'' \<notin> set ?cs"
    by (auto simp: validate_file_path_def bind_result_Inr_iff split: if_splits)
  show ?thesis
  proof (cases "canonical_path fs ?cs")
    case (Some p')
    with canonical_located [OF Some] located q show ?thesis by (simp add: checked_path_def Let_def)
  next
    case None
    with q(1) obtain d where ne: "?cs \<noteq> []" and d: "canonical_path fs (butlast ?cs) = Some d" "q = d @ [last ?cs]"
      by (auto simp: checked_path_def Let_def split: if_splits option.splits)
    have "p = d @ [last ?cs] \<or> (\<exists>k t. fs_nodes fs (d @ [last ?cs]) = Some (Link k t))"
    proof (rule locate_last)
      show "locate max_links (fs_nodes fs) [] (butlast ?cs @ [last ?cs]) = Some p" using located ne by simp
      show "locate max_links (fs_nodes fs) [] (butlast ?cs) = Some d" using canonical_located [OF d(1)] by simp
      show "last ?cs \<noteq> ''..''" using up ne last_in_set by metis
    qed
    with assms(4) None d q(2) show ?thesis by (auto simp: dangling_link_def)
  qed
qed

lemma readable_path_allowed:
  assumes "validate_file_path fs path = Inr ()" "is_absolute path" "os_path fs path = Some p" "node_at fs p \<noteq> None"
  shows "allowed_path fs p"
proof (rule validated_path_allowed [OF assms(1-3)])
  have "canonical_path fs (components path) = Some p"
    using assms(2-4) by (simp add: os_path_def canonical_path_def split: if_splits)
  then show "\<not> dangling_link fs path" by (simp add: dangling_link_def)
qed

text \<open>
  C36: An absolute path keeps agents in the allowed directories. What the tool for reading returns for one is the text
  of a file below the directories for temporary files or the current one, and unless the last component of the path
  is a link to nowhere, the tool for writing writes exactly its text to one such file or changes nothing; links
  within the path do not lead out.
\<close>

theorem agent_files_confined:
  assumes "is_absolute path"
  shows "(case read_source_tool fs path of
            Inr s \<Rightarrow> \<exists>p. allowed_path fs p \<and> node_at fs p = Some (PlainFile s) | Inl _ \<Rightarrow> True)
    \<and> (case write_source_tool fs path content of
         (Inl _, fs') \<Rightarrow> fs' = fs
       | (Inr (ok, n), fs') \<Rightarrow>
           ok \<and> n = length content
           \<and> (\<exists>p. (allowed_path fs p \<or> dangling_link fs path)
                \<and> fs' = fs\<lparr>fs_nodes := (fs_nodes fs)(p \<mapsto> PlainFile content)\<rparr>))"
proof -
  have "\<exists>p. allowed_path fs p \<and> node_at fs p = Some (PlainFile s)" if "read_source_tool fs path = Inr s" for s
  proof -
    from that have valid: "validate_file_path fs path = Inr ()" and "read_file_text fs path = Inr s"
      by (auto simp: read_source_tool_def bind_result_Inr_iff)
    then obtain p where p: "os_path fs path = Some p" "node_at fs p = Some (PlainFile s)"
      by (auto simp: read_file_text_def split: option.splits file_node.splits)
    with readable_path_allowed [OF valid assms p(1)] show ?thesis by auto
  qed
  moreover have "\<exists>p. (allowed_path fs p \<or> dangling_link fs path) \<and> fs' = fs\<lparr>fs_nodes := (fs_nodes fs)(p \<mapsto> PlainFile content)\<rparr>"
    if "validate_file_path fs path = Inr ()" "write_to fs path content = Inr fs'" for fs'
  proof -
    from that(2) obtain p where p: "os_path fs path = Some p" "fs' = fs\<lparr>fs_nodes := (fs_nodes fs)(p \<mapsto> PlainFile content)\<rparr>"
      by (auto simp: write_to_def split: option.splits file_node.splits)
    with validated_path_allowed [OF that(1) assms p(1)] show ?thesis by blast
  qed
  ultimately show ?thesis
    by (auto simp: write_source_tool_def bind_result_def split: sum.splits)
qed

section \<open>Ways out\<close>

definition escape_fs :: file_system where
  "escape_fs =
     \<lparr>fs_nodes = [[''work''] \<mapsto> Folder, [''work'', ''out''] \<mapsto> Link True [''etc''], [''etc''] \<mapsto> Folder, [''tmp''] \<mapsto> Folder,
                  [''tmp'', ''new''] \<mapsto> Link True [''etc'', ''new'']],
      fs_cwd = Some [''work''], os_text = (\<lambda>_. [])\<rparr>"

text \<open>A relative path is not resolved: a link in the current directory leads out of it.\<close>

lemma relative_link_escapes:
  "fs_nodes (snd (write_source_tool escape_fs ''out/x'' ''text'')) [''etc'', ''x''] = Some (PlainFile ''text'')
   \<and> \<not> allowed_path escape_fs [''etc'', ''x'']"
  by code_simp

text \<open>A link to nowhere does not exist for the check, but writing follows it and creates its target.\<close>

lemma dangling_link_escapes:
  "fs_nodes (snd (write_source_tool escape_fs ''/tmp/new'' ''text'')) [''etc'', ''new''] = Some (PlainFile ''text'')
   \<and> \<not> allowed_path escape_fs [''etc'', ''new'']"
  by code_simp

theorem agent_files_confined_witness:
  "case write_source_tool escape_fs ''/work/out/x'' ''text'' of
     (r, fs') \<Rightarrow> r = Inl (PathViolation ''absolute path outside allowed directories: /work/out/x'') \<and> fs' = escape_fs"
proof -
  have "is_absolute ''/work/out/x''" by (simp add: is_absolute_def)
  moreover have "fst (write_source_tool escape_fs ''/work/out/x'' ''text'')
      = Inl (PathViolation ''absolute path outside allowed directories: /work/out/x'')" by code_simp
  ultimately show ?thesis
    using agent_files_confined [of "''/work/out/x''" escape_fs "''text''"] by (auto split: prod.splits)
qed

end
