(* ===== verification/Ffi_Bridge.thy ===== *)
theory Ffi_Bridge
  imports C_Ast Artifacts Doc_Gen Validation
begin

text \<open>
  Calls between migrated and unmigrated functions (\<open>ffi_bridge.rs\<close> and \<open>mixed_build.rs\<close> in
  \<open>crates/noricum-tools/src\<close>): the declarations of either side for the other, and the commands that build both
  together. The compilers are a parameter: what a command does to the files and how it ends.
\<close>

section \<open>Declarations\<close>

definition c_type_table :: "(string \<times> string) list" where
  "c_type_table =
     [(''void'', ''()''), (''int'', ''i32''), (''unsigned int'', ''u32''), (''unsigned'', ''u32''), (''long'', ''i64''),
      (''unsigned long'', ''u64''), (''char'', ''i8''), (''unsigned char'', ''u8''), (''float'', ''f32''), (''double'', ''f64''),
      (''size_t'', ''usize''), (''bool'', ''bool''), (''_Bool'', ''bool'')]"

definition ffi_c_type_to_rust :: "string \<Rightarrow> string" where
  "ffi_c_type_to_rust c_type =
     (let t = trim c_type
      in case map_of c_type_table t of
           Some r \<Rightarrow> r
         | None \<Rightarrow> if CHR ''*'' \<in> set t then ''*mut std::ffi::c_void'' else ''std::ffi::c_int'')"

definition c_sig_to_rust_extern :: "string \<Rightarrow> string \<Rightarrow> string" where
  "c_sig_to_rust_extern nm ret_type =
     (let r = ffi_c_type_to_rust ret_type
      in if r = [] \<or> r = ''()'' then ''fn '' @ nm @ ''();'' else ''fn '' @ nm @ ''() -> '' @ r @ '';'')"

definition extern_head :: string where
  "extern_head = ''extern '' @ [quote] @ ''C'' @ [quote] @ '' {''"

definition generate_rust_extern_block :: "c_function list \<Rightarrow> string" where
  "generate_rust_extern_block fs =
     (if fs = [] then []
      else end_lines ([extern_head] @ map (\<lambda>f. ''    '' @ c_sig_to_rust_extern (fn_name f) (fn_return_type f)) fs @ [''}'']))"

definition rust_sig_to_c_decl :: "string \<Rightarrow> string \<Rightarrow> string" where
  "rust_sig_to_c_decl nm sig =
     (if contains sig ''-> i32'' then ''int '' @ nm @ ''()''
      else if contains sig ''-> f64'' then ''double '' @ nm @ ''()'' else ''void '' @ nm @ ''()'')"

definition generate_c_header_for_rust :: "(string \<times> string) list \<Rightarrow> string" where
  "generate_c_header_for_rust fs =
     end_lines
       ([''/* Auto-generated by Noricum for incremental migration */'', ''#ifndef NORICUM_FFI_H'', ''#define NORICUM_FFI_H'', []]
        @ map (\<lambda>(nm, sig). rust_sig_to_c_decl nm sig @ '';'') fs @ [[], ''#endif /* NORICUM_FFI_H */''])"

definition generate_mixed_rust_module :: "(string \<times> string) list \<Rightarrow> c_function list \<Rightarrow> string" where
  "generate_mixed_rust_module done_fs unmigrated =
     (if unmigrated = [] then [] else generate_rust_extern_block unmigrated @ [newline])
     @ concat (map (\<lambda>(_, code). code @ [newline, newline]) done_fs)"

section \<open>Builds\<close>

record command_result =
  cmd_ok :: bool
  cmd_stdout :: string
  cmd_stderr :: string

text \<open>A command with its arguments changes the files; \<open>None\<close> when it cannot be started.\<close>

type_synonym shell = "string \<Rightarrow> string list \<Rightarrow> (string \<rightharpoonup> string) \<Rightarrow> (command_result \<times> (string \<rightharpoonup> string)) option"

record mixed_build_result =
  mb_success :: bool
  mb_stdout :: string
  mb_stderr :: string

definition run_shell ::
  "shell \<Rightarrow> string \<Rightarrow> string list \<Rightarrow> (string \<rightharpoonup> string) \<Rightarrow> (tool_error, command_result \<times> (string \<rightharpoonup> string)) result" where
  "run_shell sh cmd args fs = ok_or (sh cmd args fs) (CommandNotFound cmd)"

definition cc_args :: "string \<Rightarrow> string \<Rightarrow> string list" where
  "cc_args obj c_file = [''-std=gnu11'', ''-c'', ''-o'', obj, c_file]"

definition rustc_args :: "string \<Rightarrow> string list" where
  "rustc_args dir =
     [''--edition=2024'', ''-o'', path_join dir ''mixed'', path_join dir ''migrated.rs'', ''-L'', dir, ''-l'', ''static=unmigrated'']"

text \<open>
  The files of the temporary directory, before the C compiler runs; making the directory and writing them can fail
  (the argument \<open>prepared\<close>).
\<close>

definition mixed_sources :: "string \<Rightarrow> string \<Rightarrow> string \<Rightarrow> string \<rightharpoonup> string" where
  "mixed_sources dir c_src rust_src = [path_join dir ''unmigrated.c'' \<mapsto> c_src, path_join dir ''migrated.rs'' \<mapsto> rust_src]"

definition build_mixed_project ::
  "shell \<Rightarrow> (tool_error, string) result \<Rightarrow> string \<Rightarrow> string \<Rightarrow> (tool_error, mixed_build_result) result" where
  "build_mixed_project sh prepared c_src rust_src =
     bind_result prepared (\<lambda>dir. bind_result
       (run_shell sh ''cc'' (cc_args (path_join dir ''unmigrated.o'') (path_join dir ''unmigrated.c''))
          (mixed_sources dir c_src rust_src)) (\<lambda>(c_result, fs).
     if \<not> cmd_ok c_result then Inr \<lparr>mb_success = False, mb_stdout = [], mb_stderr = cmd_stderr c_result\<rparr>
     else bind_result (run_shell sh ''rustc'' (rustc_args dir) fs) (\<lambda>(r, _).
       Inr \<lparr>mb_success = cmd_ok r, mb_stdout = cmd_stdout r, mb_stderr = cmd_stderr r\<rparr>)))"

definition compile_c_static_lib ::
  "shell \<Rightarrow> (tool_error, unit) result \<Rightarrow> string \<Rightarrow> string \<Rightarrow> string \<Rightarrow> (string \<rightharpoonup> string) \<Rightarrow> (tool_error, bool \<times> (string \<rightharpoonup> string)) result" where
  "compile_c_static_lib sh stored c_src dir lib fs =
     (let c_file = path_join dir (lib @ ''.c''); obj = path_join dir (lib @ ''.o''); archive = path_join dir (''lib'' @ lib @ ''.a'')
      in bind_result stored (\<lambda>_. bind_result (run_shell sh ''cc'' (cc_args obj c_file) (fs(c_file \<mapsto> c_src))) (\<lambda>(c_result, fs1).
         if \<not> cmd_ok c_result then Inr (False, fs1)
         else bind_result (run_shell sh ''ar'' [''rcs'', archive, obj] fs1) (\<lambda>(r, fs2). Inr (cmd_ok r, fs2)))))"

section \<open>Facts\<close>

lemma contains_line: "l \<in> set ls \<Longrightarrow> contains (end_lines ls) l"
proof -
  assume "l \<in> set ls"
  then obtain as bs where "ls = as @ l # bs" by (meson split_list)
  then have "end_lines ls = end_lines as @ l @ ([newline] @ end_lines bs)" by (simp add: end_lines_def)
  then show ?thesis by (simp only: contains_infix)
qed

text \<open>Every unmigrated function is declared on a line of its own, without its parameters.\<close>

lemma extern_block_declares:
  assumes "f \<in> set fs"
  shows "\<exists>tail. contains (generate_rust_extern_block fs) (''    fn '' @ fn_name f @ ''()'' @ tail)
    \<and> tail \<in> {'';'', '' -> '' @ ffi_c_type_to_rust (fn_return_type f) @ '';''}"
proof -
  let ?l = "''    '' @ c_sig_to_rust_extern (fn_name f) (fn_return_type f)"
  have "contains (generate_rust_extern_block fs) ?l"
    using assms by (auto simp: generate_rust_extern_block_def intro!: contains_line)
  moreover have "\<exists>tail. ?l = ''    fn '' @ fn_name f @ ''()'' @ tail
      \<and> tail \<in> {'';'', '' -> '' @ ffi_c_type_to_rust (fn_return_type f) @ '';''}"
    by (simp add: c_sig_to_rust_extern_def Let_def)
  ultimately show ?thesis by metis
qed

text \<open>
  The linker is told to find the static library of the C code, but no command has made one: when the C compiler writes
  nothing but the object file it is asked for, the archive is not there.
\<close>

lemma no_archive_for_linker:
  assumes "sh ''cc'' (cc_args (path_join dir ''unmigrated.o'') (path_join dir ''unmigrated.c'')) (mixed_sources dir c_src rust_src) = Some (r, fs)"
    and "dom fs \<subseteq> insert (path_join dir ''unmigrated.o'') (dom (mixed_sources dir c_src rust_src))"
  shows "fs (path_join dir ''libunmigrated.a'') = None"
  using assms(2) by (auto simp: mixed_sources_def path_join_def dom_def split: if_splits)

text \<open>The other function makes it.\<close>

lemma static_lib_made:
  assumes "compile_c_static_lib sh stored c_src dir lib fs = Inr (True, fs')"
    and "\<And>archive obj gs r gs'. sh ''ar'' [''rcs'', archive, obj] gs = Some (r, gs') \<Longrightarrow> cmd_ok r \<Longrightarrow> gs' archive \<noteq> None"
  shows "fs' (path_join dir (''lib'' @ lib @ ''.a'')) \<noteq> None"
  using assms(1) assms(2) by (auto simp: compile_c_static_lib_def Let_def bind_result_Inr_iff run_shell_def ok_or_def
      split: if_splits option.splits prod.splits)

end
