(* ===== verification/Zip_Contract.thy ===== *)
theory Zip_Contract
  imports Prelude
begin

text \<open>
  The types of the ZIP experiment (\<open>noricum-spike-miniz/src/contract.rs\<close>) and what its reader and
  writer use of the standard library: little-endian integers, lossy UTF-8 decoding, and a byte
  source with a position. Bytes are \<open>u8\<close>; a Rust string is the list of its UTF-8 bytes. Header
  fields keep their widths; lengths of buffers and positions are \<open>nat\<close>. A panic is a value of its
  own. Disk failures of a file are not modelled: a source fails only when it is read past its end.
\<close>

unbundle bit_operations_syntax

type_synonym bytes = "u8 list"

section \<open>Little-endian integers\<close>

primrec to_le :: "nat \<Rightarrow> 'a::len word \<Rightarrow> bytes" where
  "to_le 0 w = []"
| "to_le (Suc n) w = ucast w # to_le n (drop_bit 8 w)"

primrec from_le :: "bytes \<Rightarrow> 'a::len word" where
  "from_le [] = 0"
| "from_le (b # bs) = ucast b OR push_bit 8 (from_le bs)"

definition u16_le :: "u16 \<Rightarrow> bytes" where "u16_le = to_le 2"
definition u32_le :: "u32 \<Rightarrow> bytes" where "u32_le = to_le 4"

text \<open>The readers are only used at offsets whose bytes lie inside the buffer.\<close>

definition read_le :: "nat \<Rightarrow> bytes \<Rightarrow> nat \<Rightarrow> 'a::len word" where
  "read_le n buf off = from_le (take n (drop off buf))"

definition read_u16_le :: "bytes \<Rightarrow> nat \<Rightarrow> u16" where "read_u16_le = read_le 2"
definition read_u32_le :: "bytes \<Rightarrow> nat \<Rightarrow> u32" where "read_u32_le = read_le 4"
definition read_u64_le :: "bytes \<Rightarrow> nat \<Rightarrow> u64" where "read_u64_le = read_le 8"

lemma length_to_le [simp]: "length (to_le n w) = n"
  by (induction n arbitrary: w) auto

lemma from_to_le: "from_le (to_le n w) = take_bit (8 * n) (w :: 'a::len word)"
proof (induction n arbitrary: w)
  case (Suc n)
  show ?case
    by (rule bit_word_eqI) (auto simp: Suc.IH bit_simps)
qed simp

lemma u16_le_fields: "length (u16_le w) = 2" "from_le (u16_le w) = w"
  by (simp_all add: u16_le_def from_to_le take_bit_word_eq_self)

lemma u32_le_fields: "length (u32_le w) = 4" "from_le (u32_le w) = w"
  by (simp_all add: u32_le_def from_to_le take_bit_word_eq_self)

text \<open>Reading a field at its place in a concatenation of fields.\<close>

lemma read_field:
  "length a = off \<Longrightarrow> read_u16_le (a @ u16_le w @ c) off = w"
  "length a = off \<Longrightarrow> read_u32_le (a @ u32_le v @ c) off = v"
  by (auto simp: read_u16_le_def read_u32_le_def read_le_def u16_le_fields u32_le_fields)

section \<open>Lossy UTF-8\<close>

text \<open>The length of the sequence a lead byte opens and the range of its second byte.\<close>

definition utf8_lead :: "u8 \<Rightarrow> (nat \<times> u8 \<times> u8) option" where
  "utf8_lead b =
     (if 0xC2 \<le> b \<and> b \<le> 0xDF then Some (2, 0x80, 0xBF)
      else if b = 0xE0 then Some (3, 0xA0, 0xBF)
      else if b = 0xED then Some (3, 0x80, 0x9F)
      else if 0xE1 \<le> b \<and> b \<le> 0xEF then Some (3, 0x80, 0xBF)
      else if b = 0xF0 then Some (4, 0x90, 0xBF)
      else if 0xF1 \<le> b \<and> b \<le> 0xF3 then Some (4, 0x80, 0xBF)
      else if b = 0xF4 then Some (4, 0x80, 0x8F)
      else None)"

definition byte_in :: "bytes \<Rightarrow> nat \<Rightarrow> u8 \<Rightarrow> u8 \<Rightarrow> bool" where
  "byte_in bs i lo hi = (i < length bs \<and> lo \<le> bs ! i \<and> bs ! i \<le> hi)"

text \<open>Whether a text starts with a whole character, and how many bytes are taken.\<close>

definition utf8_char :: "bytes \<Rightarrow> bool \<times> nat" where
  "utf8_char bs =
     (let b = hd bs
      in if b < 0x80 then (True, 1)
         else (case utf8_lead b of
                 None \<Rightarrow> (False, 1)
               | Some (w, lo, hi) \<Rightarrow>
                   if \<not> byte_in bs 1 lo hi then (False, 1)
                   else if w = 2 then (True, 2)
                   else if \<not> byte_in bs 2 0x80 0xBF then (False, 2)
                   else if w = 3 then (True, 3)
                   else if \<not> byte_in bs 3 0x80 0xBF then (False, 3)
                   else (True, 4)))"

lemma utf8_char_pos: "0 < snd (utf8_char bs)"
  by (simp add: utf8_char_def Let_def split: option.splits prod.splits)

function from_utf8_lossy :: "bytes \<Rightarrow> bytes" where
  "from_utf8_lossy bs =
     (if bs = [] then []
      else (case utf8_char bs of (ok, n) \<Rightarrow>
              (if ok then take n bs else [0xEF, 0xBF, 0xBD]) @ from_utf8_lossy (drop n bs)))"
  by pat_completeness auto
termination
proof (relation "measure length", goal_cases)
  case (2 bs x y)
  then show ?case using utf8_char_pos [of bs] by (cases "utf8_char bs") auto
qed simp

declare from_utf8_lossy.simps [simp del]

function valid_utf8 :: "bytes \<Rightarrow> bool" where
  "valid_utf8 bs =
     (if bs = [] then True else (case utf8_char bs of (ok, n) \<Rightarrow> if ok then valid_utf8 (drop n bs) else False))"
  by pat_completeness auto
termination
proof (relation "measure length", goal_cases)
  case (2 bs x y)
  then show ?case using utf8_char_pos [of bs] by (cases "utf8_char bs") auto
qed simp

declare valid_utf8.simps [simp del]

lemma from_utf8_lossy_valid: "valid_utf8 bs \<Longrightarrow> from_utf8_lossy bs = bs"
proof (induction bs rule: from_utf8_lossy.induct)
  case (1 bs)
  show ?case
  proof (cases "bs = []")
    case True
    then show ?thesis by (simp add: from_utf8_lossy.simps)
  next
    case False
    with "1.prems" obtain n where n: "utf8_char bs = (True, n)" "valid_utf8 (drop n bs)"
      by (subst (asm) valid_utf8.simps) (auto split: if_splits)
    with False "1.IH" have "from_utf8_lossy (drop n bs) = drop n bs" by simp
    with False n show ?thesis by (subst from_utf8_lossy.simps) simp
  qed
qed

section \<open>Errors\<close>

datatype io_error = UnexpectedEof | InvalidInput | NotFound | PermissionDenied | OtherIo

datatype zip_error =
    UndefinedError | TooManyFiles | FileTooLarge | UnsupportedMethod | UnsupportedEncryption
  | UnsupportedFeature | FailedFindingCentralDir | NotAnArchive | InvalidHeaderOrCorrupted
  | UnsupportedMultidisk | DecompressionFailed | CompressionFailed | UnexpectedDecompressedSize
  | CrcCheckFailed | UnsupportedCdirSize | AllocFailed | FileOpenFailed | FileCreateFailed
  | FileWriteFailed | FileReadFailed | FileCloseFailed | FileSeekFailed | FileStatFailed
  | InvalidParameter | InvalidFilename | BufTooSmall | InternalError | FileNotFound
  | ArchiveTooLarge | ValidationFailed | WriteCallbackFailed | Io io_error

text \<open>A run ends with an error or with a panic.\<close>

datatype zip_failure = Fails zip_error | Panics

type_synonym 'a zip_result = "(zip_failure, 'a) result"

section \<open>The byte source\<close>

record byte_stream =
  stream_bytes :: bytes
  stream_pos :: nat

datatype zip_source = FileSource byte_stream | MemSource byte_stream

fun stream_of :: "zip_source \<Rightarrow> byte_stream" where
  "stream_of (FileSource f) = f"
| "stream_of (MemSource c) = c"

fun on_stream :: "(byte_stream \<Rightarrow> byte_stream) \<Rightarrow> zip_source \<Rightarrow> zip_source" where
  "on_stream g (FileSource f) = FileSource (g f)"
| "on_stream g (MemSource c) = MemSource (g c)"

definition seek_to :: "nat \<Rightarrow> zip_source \<Rightarrow> zip_source" where
  "seek_to pos = on_stream (\<lambda>s. s\<lparr>stream_pos := pos\<rparr>)"

definition stream_position :: "zip_source \<Rightarrow> nat" where
  "stream_position src = stream_pos (stream_of src)"

text \<open>\<open>seek(SeekFrom::Start(pos))\<close>: the offset of a file is an \<open>i64\<close>, that of a cursor is not.\<close>

definition seek_start :: "u64 \<Rightarrow> zip_source \<Rightarrow> zip_source zip_result" where
  "seek_start pos src =
     (case src of
        FileSource _ \<Rightarrow> if 2 ^ 63 \<le> unat pos then Inl (Fails (Io InvalidInput)) else Inr (seek_to (unat pos) src)
      | MemSource _ \<Rightarrow> Inr (seek_to (unat pos) src))"

text \<open>
  \<open>read_exact\<close> fills a buffer or fails at the end of the data; the position after a failed read
  does not matter, since every read of the crate is preceded by a seek.
\<close>

definition read_exact :: "nat \<Rightarrow> zip_source \<Rightarrow> (bytes \<times> zip_source) zip_result" where
  "read_exact n src =
     (let s = stream_of src
      in if stream_pos s + n \<le> length (stream_bytes s)
         then Inr (take n (drop (stream_pos s) (stream_bytes s)), seek_to (stream_pos s + n) src)
         else Inl (Fails (Io UnexpectedEof)))"

definition write_all :: "bytes \<Rightarrow> zip_source \<Rightarrow> zip_source" where
  "write_all bs =
     on_stream (\<lambda>s.
       (let d = stream_bytes s; p = stream_pos s
        in s\<lparr>stream_bytes := take p d @ replicate (p - length d) 0 @ bs @ drop (p + length bs) d,
             stream_pos := p + length bs\<rparr>))"

text \<open>An allocation of more than \<open>isize::MAX\<close> bytes panics; one header takes 128 bytes.\<close>

definition alloc_limit :: nat where "alloc_limit = 2 ^ 63 - 1"
definition header_size :: nat where "header_size = 128"

definition allocate :: "nat \<Rightarrow> unit zip_result" where
  "allocate n = (if alloc_limit < n then Inl Panics else Inr ())"

section \<open>Headers and archives\<close>

datatype compression_method = Stored | Deflated | Unsupported u16

definition from_wire :: "u16 \<Rightarrow> compression_method" where
  "from_wire v = (if v = 0 then Stored else if v = 8 then Deflated else Unsupported v)"

fun to_wire :: "compression_method \<Rightarrow> u16" where
  "to_wire Stored = 0"
| "to_wire Deflated = 8"
| "to_wire (Unsupported v) = v"

lemma to_from_wire [simp]: "to_wire (from_wire v) = v"
  by (simp add: from_wire_def)

datatype zip_mode = Invalid | Reading | Writing | WritingFinalized

record central_dir_header =
  version_made_by :: u16
  version_needed :: u16
  cd_flags :: u16
  compression_method :: compression_method
  last_mod_time :: u16
  last_mod_date :: u16
  cd_crc32 :: u32
  compressed_size :: u64
  uncompressed_size :: u64
  disk_number_start :: u16
  internal_attributes :: u16
  external_attributes :: u32
  local_header_offset :: u64
  file_name :: bytes
  extra_field :: bytes
  comment :: bytes

record zip_archive =
  source :: zip_source
  archive_size :: u64
  central_directory_offset :: u64
  total_files :: u32
  archive_mode :: zip_mode
  last_error :: "zip_error option"
  archive_entries :: "central_dir_header list"

record zip_writer =
  sink :: zip_source
  writer_entries :: "central_dir_header list"
  writer_size :: u64
  file_offset_alignment :: u64
  writer_mode :: zip_mode

end
