(* ===== verification/Zip_Aes.thy ===== *)
theory Zip_Aes
  imports Zip_Contract
begin

text \<open>
  AES-encrypted ZIP entries (\<open>noricum-spike-miniz/src/aes.rs\<close>): the extra field that announces
  them, password verification, authentication and counter-mode decryption. The primitives of the
  cryptographic packages are the fields of \<open>zip_packages\<close>, together with the checksum and the
  compressor that the reader and writer use.
\<close>

unbundle bit_operations_syntax

datatype aes_strength = Aes128 | Aes192 | Aes256

record zip_packages =
  crc_hash :: "bytes \<Rightarrow> u32"
  inflate :: "bytes \<Rightarrow> bytes option"
  deflate :: "bytes \<Rightarrow> bytes"
  pbkdf2_sha1 :: "bytes \<Rightarrow> bytes \<Rightarrow> nat \<Rightarrow> nat \<Rightarrow> bytes"
  hmac_sha1 :: "bytes \<Rightarrow> bytes \<Rightarrow> bytes"
  encrypt_block :: "aes_strength \<Rightarrow> bytes \<Rightarrow> bytes \<Rightarrow> bytes"

section \<open>The extra field\<close>

definition zip64_extra_header_id :: u16 where "zip64_extra_header_id = 1"
definition aes_extra_header_id :: u16 where "aes_extra_header_id = 0x9901"
definition aes_compression_method :: u16 where "aes_compression_method = 99"
definition pwd_verify_length :: nat where "pwd_verify_length = 2"
definition auth_code_length :: nat where "auth_code_length = 10"
definition pbkdf2_iterations :: nat where "pbkdf2_iterations = 1000"

text \<open>
  The walk over the blocks of an extra field: offset and size of the data of the first block that
  is looked for. It stops at a block that runs over the end.
\<close>

function walk_extra :: "(u16 \<Rightarrow> nat \<Rightarrow> bool) \<Rightarrow> bytes \<Rightarrow> nat \<Rightarrow> (nat \<times> nat) option" where
  "walk_extra wanted extra i =
     (if i + 4 \<le> length extra then
        (let header_id = read_u16_le extra i; data_size = unat (read_u16_le extra (i + 2))
         in if length extra < i + 4 + data_size then None
            else if wanted header_id data_size then Some (i + 4, data_size)
            else walk_extra wanted extra (i + 4 + data_size))
      else None)"
  by pat_completeness auto
termination
  by (relation "measure (\<lambda>(w, extra, i). length extra - i)") auto

declare walk_extra.simps [simp del]

fun strength_from_wire :: "u8 \<Rightarrow> aes_strength option" where
  "strength_from_wire v =
     (if v = 1 then Some Aes128 else if v = 2 then Some Aes192 else if v = 3 then Some Aes256 else None)"

fun key_len :: "aes_strength \<Rightarrow> nat" where
  "key_len Aes128 = 16"
| "key_len Aes192 = 24"
| "key_len Aes256 = 32"

definition salt_len :: "aes_strength \<Rightarrow> nat" where
  "salt_len s = key_len s div 2"

record aes_extra_info =
  aes_version :: u16
  vendor :: "u8 \<times> u8"
  strength :: aes_strength
  real_compression_method :: u16

definition find_aes_extra :: "bytes \<Rightarrow> aes_extra_info option" where
  "find_aes_extra extra =
     (case walk_extra (\<lambda>header size. header = aes_extra_header_id \<and> 7 \<le> size) extra 0 of
        None \<Rightarrow> None
      | Some (off, _) \<Rightarrow>
          (case strength_from_wire (extra ! (off + 4)) of
             None \<Rightarrow> None
           | Some s \<Rightarrow> Some \<lparr>aes_version = read_u16_le extra off, vendor = (extra ! (off + 2), extra ! (off + 3)),
                            strength = s, real_compression_method = read_u16_le extra (off + 5)\<rparr>))"

section \<open>Decryption\<close>

definition counter_block :: "u32 \<Rightarrow> bytes" where
  "counter_block counter = u32_le counter @ replicate 12 0"

function ctr_blocks :: "(bytes \<Rightarrow> bytes) \<Rightarrow> u32 \<Rightarrow> bytes \<Rightarrow> bytes" where
  "ctr_blocks encrypt counter data =
     (if data = [] then []
      else map2 (XOR) (take 16 data) (encrypt (counter_block counter))
           @ ctr_blocks encrypt (counter + 1) (drop 16 data))"
  by pat_completeness auto
termination
  by (relation "measure (\<lambda>(e, c, d). length d)") auto

declare ctr_blocks.simps [simp del]

definition decrypt_ctr :: "zip_packages \<Rightarrow> aes_strength \<Rightarrow> bytes \<Rightarrow> bytes \<Rightarrow> bytes" where
  "decrypt_ctr pk s key data = ctr_blocks (encrypt_block pk s key) 1 data"

definition decrypt :: "zip_packages \<Rightarrow> bytes \<Rightarrow> aes_extra_info \<Rightarrow> bytes \<Rightarrow> bytes zip_result" where
  "decrypt pk raw info password =
     (let salt_length = salt_len (strength info); key_length = key_len (strength info);
          prefix_len = salt_length + pwd_verify_length;
          min_len = prefix_len + auth_code_length
      in if length raw < min_len then Inl (Fails InvalidHeaderOrCorrupted)
         else (let salt = take salt_length raw;
                   archive_pwd_verify = take pwd_verify_length (drop salt_length raw);
                   ciphertext = take (length raw - auth_code_length - prefix_len) (drop prefix_len raw);
                   archive_auth_code = drop (length raw - auth_code_length) raw;
                   derived = pbkdf2_sha1 pk password salt pbkdf2_iterations (2 * key_length + pwd_verify_length);
                   enc_key = take key_length derived;
                   mac_key = take key_length (drop key_length derived);
                   pwd_verify = drop (2 * key_length) derived
               in if pwd_verify \<noteq> archive_pwd_verify then Inl (Fails InvalidParameter)
                  else if take auth_code_length (hmac_sha1 pk mac_key ciphertext) \<noteq> archive_auth_code
                    then Inl (Fails CrcCheckFailed)
                  else Inr (decrypt_ctr pk (strength info) enc_key ciphertext)))"

section \<open>Facts\<close>

lemma walk_extra_in_range:
  "walk_extra wanted extra i = Some (off, n) \<Longrightarrow> off + n \<le> length extra \<and> (\<exists>h. wanted h n)"
  by (induction wanted extra i rule: walk_extra.induct)
     (subst (asm) walk_extra.simps, auto simp: Let_def split: if_splits)

lemma length_ctr_blocks:
  "(\<And>b. length (encrypt b) = 16) \<Longrightarrow> length (ctr_blocks encrypt c data) = length data"
proof (induction encrypt c data rule: ctr_blocks.induct)
  case (1 encrypt c data)
  then show ?case by (subst ctr_blocks.simps) (auto simp: min_def)
qed

lemma ctr_blocks_step:
  "data \<noteq> [] \<Longrightarrow> ctr_blocks encrypt c data =
     map2 (XOR) (take 16 data) (encrypt (counter_block c)) @ ctr_blocks encrypt (c + 1) (drop 16 data)"
  by (subst ctr_blocks.simps) simp

lemma map2_xor_twice:
  "length xs \<le> length ks \<Longrightarrow> map2 (XOR) (map2 (XOR) xs ks) ks = (xs :: u8 list)"
proof (induction xs ks rule: list_induct2')
  case (4 x xs k ks)
  then show ?case by (simp add: xor.assoc)
qed simp_all

lemma ctr_blocks_twice:
  "(\<And>b. length (encrypt b) = 16) \<Longrightarrow> ctr_blocks encrypt c (ctr_blocks encrypt c data) = data"
proof (induction encrypt c data rule: ctr_blocks.induct)
  case (1 encrypt c data)
  show ?case
  proof (cases "data = []")
    case True
    then show ?thesis by (simp add: ctr_blocks.simps)
  next
    case False
    let ?k = "encrypt (counter_block c)"
    define first where "first = map2 (XOR) (take 16 data) ?k"
    define rest where "rest = ctr_blocks encrypt (c + 1) (drop 16 data)"
    have enc: "ctr_blocks encrypt c data = first @ rest"
      using False by (simp add: ctr_blocks_step first_def rest_def)
    have k: "length ?k = 16" using "1.prems" .
    have len: "length first = min 16 (length data)" using k by (simp add: first_def)
    have rest: "length rest = length data - 16" using "1.prems" by (simp add: rest_def length_ctr_blocks)
    have first: "map2 (XOR) first ?k = take 16 data"
      unfolding first_def using k by (intro map2_xor_twice) simp
    have cut: "take 16 (first @ rest) = first" "drop 16 (first @ rest) = rest"
    proof -
      show "take 16 (first @ rest) = first" "drop 16 (first @ rest) = rest"
        using len rest by (cases "16 \<le> length data"; simp)+
    qed
    have "first @ rest \<noteq> []" using len False by (auto simp: min_def split: if_splits)
    then have "ctr_blocks encrypt c (first @ rest) = map2 (XOR) first ?k @ ctr_blocks encrypt (c + 1) rest"
      by (simp only: ctr_blocks_step cut not_False_eq_True)
    also have "\<dots> = data" using "1.IH" [OF False "1.prems"] first by (simp add: rest_def)
    finally show ?thesis by (simp add: enc)
  qed
qed

section \<open>The encryption that is undone\<close>

text \<open>
  The blob the format prescribes for a plain text: salt, password verification, counter-mode
  ciphertext, authentication code.
\<close>

definition seal :: "zip_packages \<Rightarrow> aes_strength \<Rightarrow> bytes \<Rightarrow> bytes \<Rightarrow> bytes \<Rightarrow> bytes" where
  "seal pk s salt password plain =
     (let derived = pbkdf2_sha1 pk password salt pbkdf2_iterations (2 * key_len s + pwd_verify_length);
          ciphertext = ctr_blocks (encrypt_block pk s (take (key_len s) derived)) 1 plain
      in salt @ drop (2 * key_len s) derived @ ciphertext
         @ take auth_code_length (hmac_sha1 pk (take (key_len s) (drop (key_len s) derived)) ciphertext))"

text \<open>What the documentation of the packages says about lengths.\<close>

definition package_lengths :: "zip_packages \<Rightarrow> bool" where
  "package_lengths pk \<longleftrightarrow>
     (\<forall>pw salt k n. length (pbkdf2_sha1 pk pw salt k n) = n)
     \<and> (\<forall>k t. length (hmac_sha1 pk k t) = 20)
     \<and> (\<forall>s k b. length (encrypt_block pk s k b) = 16)"

lemma split_blob:
  assumes "a + v + c + m = length raw"
  shows "raw = take a raw @ take v (drop a raw) @ take c (drop (a + v) raw) @ drop (a + v + c) raw"
  by (metis append_take_drop_id drop_drop add.commute)

lemma blob_parts:
  assumes "length salt = a" "length verify = v" "length mac = m"
  shows "take a (salt @ verify @ cipher @ mac) = salt"
    and "take v (drop a (salt @ verify @ cipher @ mac)) = verify"
    and "take (length (salt @ verify @ cipher @ mac) - m - (a + v)) (drop (a + v) (salt @ verify @ cipher @ mac)) = cipher"
    and "drop (length (salt @ verify @ cipher @ mac) - m) (salt @ verify @ cipher @ mac) = mac"
  using assms by auto

lemma decrypt_seal_aux:
  assumes "package_lengths pk" and "length salt = salt_len (strength info)"
  shows "decrypt pk (seal pk (strength info) salt password plain) info password = Inr plain"
proof -
  let ?s = "strength info"
  define derived where "derived = pbkdf2_sha1 pk password salt pbkdf2_iterations (2 * key_len ?s + pwd_verify_length)"
  define encrypt where "encrypt = encrypt_block pk ?s (take (key_len ?s) derived)"
  define cipher where "cipher = ctr_blocks encrypt 1 plain"
  define mac where "mac = take auth_code_length (hmac_sha1 pk (take (key_len ?s) (drop (key_len ?s) derived)) cipher)"
  define verify where "verify = drop (2 * key_len ?s) derived"
  have len: "length verify = pwd_verify_length" "length mac = auth_code_length"
    using assms(1) by (simp_all add: package_lengths_def verify_def derived_def mac_def auth_code_length_def)
  have raw: "seal pk ?s salt password plain = salt @ verify @ cipher @ mac"
    by (simp add: seal_def Let_def derived_def encrypt_def cipher_def mac_def verify_def)
  have block: "length (encrypt b) = 16" for b using assms(1) by (simp add: package_lengths_def encrypt_def)
  have plain: "ctr_blocks encrypt 1 cipher = plain" unfolding cipher_def using block by (rule ctr_blocks_twice)
  have long: "\<not> length (salt @ verify @ cipher @ mac) < salt_len ?s + pwd_verify_length + auth_code_length"
    using assms(2) len by simp
  show ?thesis
    unfolding raw decrypt_def Let_def blob_parts [OF assms(2) len]
    unfolding derived_def [symmetric] verify_def [symmetric] mac_def [symmetric] decrypt_ctr_def
      encrypt_def [symmetric] plain
    using long by simp
qed

lemma decrypt_sound_aux:
  assumes "package_lengths pk" and "decrypt pk raw info password = Inr plain"
  shows "raw = seal pk (strength info) (take (salt_len (strength info)) raw) password plain
     \<and> salt_len (strength info) + 12 \<le> length raw"
proof -
  let ?s = "strength info"
  let ?a = "salt_len ?s"
  define salt where "salt = take ?a raw"
  define derived where "derived = pbkdf2_sha1 pk password salt pbkdf2_iterations (2 * key_len ?s + pwd_verify_length)"
  define encrypt where "encrypt = encrypt_block pk ?s (take (key_len ?s) derived)"
  define cipher where
    "cipher = take (length raw - auth_code_length - (?a + pwd_verify_length)) (drop (?a + pwd_verify_length) raw)"
  have len: "?a + pwd_verify_length + auth_code_length \<le> length raw"
    and verify: "drop (2 * key_len ?s) derived = take pwd_verify_length (drop ?a raw)"
    and mac: "take auth_code_length (hmac_sha1 pk (take (key_len ?s) (drop (key_len ?s) derived)) cipher)
       = drop (length raw - auth_code_length) raw"
    and plain: "plain = ctr_blocks encrypt 1 cipher"
    using assms(2)
    unfolding decrypt_def Let_def salt_def [symmetric] cipher_def [symmetric] derived_def [symmetric]
      decrypt_ctr_def encrypt_def [symmetric]
    by (auto split: if_splits)
  have block: "length (encrypt b) = 16" for b using assms(1) by (simp add: package_lengths_def encrypt_def)
  have "ctr_blocks encrypt 1 plain = cipher" unfolding plain using block by (rule ctr_blocks_twice)
  then have "seal pk ?s salt password plain
      = salt @ take pwd_verify_length (drop ?a raw) @ cipher @ drop (length raw - auth_code_length) raw"
    unfolding seal_def Let_def derived_def [symmetric] encrypt_def [symmetric] by (simp add: verify mac)
  also have "\<dots> = raw"
  proof -
    define c where "c = length raw - auth_code_length - (?a + pwd_verify_length)"
    have "?a + pwd_verify_length + c = length raw - auth_code_length" using len by (simp add: c_def)
    moreover have "?a + pwd_verify_length + c + auth_code_length = length raw" using len by (simp add: c_def)
    ultimately show ?thesis
      using split_blob [of ?a pwd_verify_length c auth_code_length raw]
      unfolding salt_def cipher_def c_def [symmetric] by metis
  qed
  finally show ?thesis using len by (simp add: salt_def pwd_verify_length_def auth_code_length_def)
qed

text \<open>
  Decryption undoes the format's encryption and accepts nothing else: an encrypted entry
  decrypts to a plain text exactly when the stored bytes are the salt, the verification bytes
  derived from the password, the counter-mode ciphertext of that text and its authentication code.
\<close>

theorem decrypt_iff_sealed:
  assumes "package_lengths pk"
  shows "decrypt pk raw info password = Inr plain
     \<longleftrightarrow> (\<exists>salt. length salt = salt_len (strength info) \<and> raw = seal pk (strength info) salt password plain)"
  using decrypt_seal_aux [OF assms] decrypt_sound_aux [OF assms, of raw info password plain]
  by (metis add_leD1 length_take min.absorb2)

text \<open>Packages with the documented lengths.\<close>

definition plain_packages :: zip_packages where
  "plain_packages =
     \<lparr>crc_hash = (\<lambda>d. of_nat (length d) + 1), inflate = Some, deflate = (\<lambda>d. d),
      pbkdf2_sha1 = (\<lambda>pw salt k n. replicate n 7), hmac_sha1 = (\<lambda>k t. replicate 20 (of_nat (length t))),
      encrypt_block = (\<lambda>s k b. take 16 (b @ replicate 16 0))\<rparr>"

lemma plain_package_lengths: "package_lengths plain_packages"
  by (auto simp: package_lengths_def plain_packages_def min_def)

theorem decrypt_iff_sealed_witness:
  "decrypt plain_packages (seal plain_packages Aes128 [1, 2, 3, 4, 5, 6, 7, 8] [42] [10, 20, 30])
     \<lparr>aes_version = 2, vendor = (65, 69), strength = Aes128, real_compression_method = 0\<rparr> [42] = Inr [10, 20, 30]"
  using decrypt_iff_sealed [OF plain_package_lengths,
      of "seal plain_packages Aes128 [1, 2, 3, 4, 5, 6, 7, 8] [42] [10, 20, 30]"
        "\<lparr>aes_version = 2, vendor = (65, 69), strength = Aes128, real_compression_method = 0\<rparr>" "[42]" "[10, 20, 30]"]
  by (auto simp: salt_len_def intro: exI [of _ "[1, 2, 3, 4, 5, 6, 7, 8]"])

end
