(* ===== verification/Zip_Reader.thy ===== *)
theory Zip_Reader
  imports Zip_Aes
begin

text \<open>
  The ZIP reader (\<open>noricum-spike-miniz/src/reader.rs\<close>): the end-of-central-directory record is
  found by a backward scan and widened by its zip64 companion, every central directory entry is
  parsed and widened by its zip64 extra field, and an entry is extracted through the local header,
  the optional decryption, the decompressor and the checksum. Every read is checked against the
  end of the data; a count that makes an allocation impossible is a panic.
\<close>

section \<open>Signatures and sizes\<close>

definition eocd_signature :: u32 where "eocd_signature = 0x06054b50"
definition central_dir_signature :: u32 where "central_dir_signature = 0x02014b50"
definition zip64_eocd_locator_signature :: u32 where "zip64_eocd_locator_signature = 0x07064b50"
definition zip64_eocd_signature :: u32 where "zip64_eocd_signature = 0x06064b50"
definition local_header_signature :: u32 where "local_header_signature = 0x04034b50"
definition eocd_fixed_size :: nat where "eocd_fixed_size = 22"
definition central_entry_fixed_size :: nat where "central_entry_fixed_size = 46"
definition zip64_eocd_locator_size :: nat where "zip64_eocd_locator_size = 20"
definition zip64_eocd_min_size :: nat where "zip64_eocd_min_size = 56"
definition local_header_fixed_size :: nat where "local_header_fixed_size = 30"
definition max_eocd_comment :: nat where "max_eocd_comment = 65535"

definition read_at :: "u64 \<Rightarrow> nat \<Rightarrow> zip_source \<Rightarrow> (bytes \<times> zip_source) zip_result" where
  "read_at pos n src = bind_result (seek_start pos src) (read_exact n)"

section \<open>The end-of-central-directory record\<close>

record eocd_info =
  eocd_entries :: u64
  eocd_dir_size :: u64
  eocd_dir_offset :: u64

definition upgrade_eocd_to_zip64 :: "zip_source \<Rightarrow> u64 \<Rightarrow> (eocd_info \<times> zip_source) zip_result" where
  "upgrade_eocd_to_zip64 src std_eocd_offset =
     (if unat std_eocd_offset < zip64_eocd_locator_size then Inl (Fails FailedFindingCentralDir)
      else bind_result (read_at (std_eocd_offset - of_nat zip64_eocd_locator_size) zip64_eocd_locator_size src)
        (\<lambda>(locator, src1).
           if read_u32_le locator 0 \<noteq> zip64_eocd_locator_signature then Inl (Fails FailedFindingCentralDir)
           else bind_result (read_at (read_u64_le locator 8) zip64_eocd_min_size src1) (\<lambda>(z64, src2).
             if read_u32_le z64 0 \<noteq> zip64_eocd_signature then Inl (Fails InvalidHeaderOrCorrupted)
             else Inr (\<lparr>eocd_entries = read_u64_le z64 32, eocd_dir_size = read_u64_le z64 40,
                        eocd_dir_offset = read_u64_le z64 48\<rparr>, src2))))"

text \<open>The backward scan; its argument is one more than the index looked at.\<close>

definition eocd_at :: "bytes \<Rightarrow> nat \<Rightarrow> bool" where
  "eocd_at buf idx =
     (read_u32_le buf idx = eocd_signature
      \<and> idx + eocd_fixed_size + unat (read_u16_le buf (idx + 20)) = length buf)"

primrec scan_eocd :: "bytes \<Rightarrow> nat \<Rightarrow> nat option" where
  "scan_eocd buf 0 = None"
| "scan_eocd buf (Suc idx) = (if eocd_at buf idx then Some idx else scan_eocd buf idx)"

definition needs_zip64 :: "eocd_info \<Rightarrow> bool" where
  "needs_zip64 info =
     (eocd_entries info = 0xFFFF \<or> eocd_dir_size info = 0xFFFFFFFF \<or> eocd_dir_offset info = 0xFFFFFFFF)"

definition eocd_fields :: "bytes \<Rightarrow> nat \<Rightarrow> eocd_info" where
  "eocd_fields buf idx =
     \<lparr>eocd_entries = ucast (read_u16_le buf (idx + 10)), eocd_dir_size = ucast (read_u32_le buf (idx + 12)),
      eocd_dir_offset = ucast (read_u32_le buf (idx + 16))\<rparr>"

definition find_eocd :: "zip_source \<Rightarrow> u64 \<Rightarrow> (eocd_info \<times> u64 \<times> zip_source) zip_result" where
  "find_eocd src file_size =
     (if unat file_size < eocd_fixed_size then Inl (Fails NotAnArchive)
      else (let search_start = saturating_sub file_size (of_nat (eocd_fixed_size + max_eocd_comment));
                search_len = unat (file_size - search_start)
            in bind_result (read_at search_start search_len src) (\<lambda>(buf, src1).
                 case scan_eocd buf (Suc (search_len - eocd_fixed_size)) of
                   None \<Rightarrow> Inl (Fails FailedFindingCentralDir)
                 | Some idx \<Rightarrow>
                     (let info = eocd_fields buf idx; absolute = search_start + of_nat idx
                      in if needs_zip64 info
                         then bind_result (upgrade_eocd_to_zip64 src1 absolute)
                                (\<lambda>(wide, src2). Inr (wide, absolute, src2))
                         else Inr (info, absolute, src1)))))"

section \<open>Central directory entries\<close>

definition widen_field :: "bytes \<Rightarrow> nat \<Rightarrow> u64 \<Rightarrow> nat \<Rightarrow> u64 \<times> nat" where
  "widen_field extra stop v off =
     (if v = 0xFFFFFFFF \<and> off + 8 \<le> stop then (read_u64_le extra off, off + 8) else (v, off))"

definition apply_zip64_extra :: "bytes \<Rightarrow> u64 \<Rightarrow> u64 \<Rightarrow> u64 \<Rightarrow> u16 \<Rightarrow> u64 \<times> u64 \<times> u64 \<times> u16" where
  "apply_zip64_extra extra csize usize offset disk =
     (case walk_extra (\<lambda>header size. header = zip64_extra_header_id) extra 0 of
        None \<Rightarrow> (csize, usize, offset, disk)
      | Some (start, width) \<Rightarrow>
          (let stop = start + width;
               (usize1, off1) = widen_field extra stop usize start;
               (csize1, off2) = widen_field extra stop csize off1;
               (offset1, off3) = widen_field extra stop offset off2;
               disk1 = (if disk = 0xFFFF \<and> off3 + 4 \<le> stop then read_u16_le extra off3 else disk)
           in (csize1, usize1, offset1, disk1)))"

definition parse_central_entry :: "bytes \<Rightarrow> nat \<Rightarrow> (central_dir_header \<times> nat) zip_result" where
  "parse_central_entry buf cursor =
     (if length buf < cursor + central_entry_fixed_size then Inl (Fails InvalidHeaderOrCorrupted)
      else let b = drop cursor buf in
        if read_u32_le b 0 \<noteq> central_dir_signature then Inl (Fails InvalidHeaderOrCorrupted)
        else let name_length = unat (read_u16_le b 28);
                 extra_length = unat (read_u16_le b 30);
                 comment_length = unat (read_u16_le b 32);
                 consumed = central_entry_fixed_size + name_length + extra_length + comment_length
             in if length buf < cursor + consumed then Inl (Fails InvalidHeaderOrCorrupted)
                else let name_start = cursor + central_entry_fixed_size;
                         extra_start = name_start + name_length;
                         comment_start = extra_start + extra_length;
                         extra = take extra_length (drop extra_start buf);
                         (csize, usize, offset, disk) =
                           apply_zip64_extra extra (ucast (read_u32_le b 20)) (ucast (read_u32_le b 24))
                             (ucast (read_u32_le b 42)) (read_u16_le b 34)
                     in Inr (\<lparr>version_made_by = read_u16_le b 4, version_needed = read_u16_le b 6,
                              cd_flags = read_u16_le b 8, compression_method = from_wire (read_u16_le b 10),
                              last_mod_time = read_u16_le b 12, last_mod_date = read_u16_le b 14,
                              cd_crc32 = read_u32_le b 16, compressed_size = csize, uncompressed_size = usize,
                              disk_number_start = disk, internal_attributes = read_u16_le b 36,
                              external_attributes = read_u32_le b 38, local_header_offset = offset,
                              file_name = from_utf8_lossy (take name_length (drop name_start buf)),
                              extra_field = extra,
                              comment = from_utf8_lossy (take comment_length (drop comment_start buf))\<rparr>,
                            consumed))"

primrec parse_entries :: "bytes \<Rightarrow> nat \<Rightarrow> nat \<Rightarrow> central_dir_header list zip_result" where
  "parse_entries buf 0 cursor = Inr []"
| "parse_entries buf (Suc n) cursor =
     bind_result (parse_central_entry buf cursor) (\<lambda>(hdr, consumed).
       bind_result (parse_entries buf n (cursor + consumed)) (\<lambda>hdrs. Inr (hdr # hdrs)))"

definition parse_central_directory ::
  "zip_source \<Rightarrow> eocd_info \<Rightarrow> (central_dir_header list \<times> zip_source) zip_result" where
  "parse_central_directory src eocd =
     bind_result (seek_start (eocd_dir_offset eocd) src) (\<lambda>src1.
     bind_result (allocate (unat (eocd_dir_size eocd))) (\<lambda>_.
     bind_result (read_exact (unat (eocd_dir_size eocd)) src1) (\<lambda>(buf, src2).
     bind_result (allocate (unat (eocd_entries eocd) * header_size)) (\<lambda>_.
     bind_result (parse_entries buf (unat (eocd_entries eocd)) 0) (\<lambda>hdrs. Inr (hdrs, src2))))))"

section \<open>The reader\<close>

record zip_reader =
  archive :: zip_archive

text \<open>What opening a path yields: the bytes of the file, or the error of the system.\<close>

definition open_archive :: "(io_error, bytes) result \<Rightarrow> zip_reader zip_result" where
  "open_archive opened =
     (case opened of
        Inl e \<Rightarrow> Inl (Fails (if e = NotFound then FileNotFound else FileOpenFailed))
      | Inr content \<Rightarrow>
          (let file_size = of_nat (length content)
           in bind_result (find_eocd (FileSource \<lparr>stream_bytes = content, stream_pos = 0\<rparr>) file_size)
                (\<lambda>(eocd, _, src).
                   bind_result (parse_central_directory src eocd) (\<lambda>(hdrs, src1).
                     Inr \<lparr>archive =
                       \<lparr>source = src1, archive_size = file_size, central_directory_offset = eocd_dir_offset eocd,
                        total_files = (if unat (eocd_entries eocd) < 2 ^ 32 then ucast (eocd_entries eocd) else - 1),
                        archive_mode = Reading, last_error = None, archive_entries = hdrs\<rparr>\<rparr>))))"

definition num_entries :: "zip_reader \<Rightarrow> nat" where
  "num_entries r = length (archive_entries (archive r))"

definition locate_file :: "zip_reader \<Rightarrow> bytes \<Rightarrow> nat zip_result" where
  "locate_file r name = ok_or (position (\<lambda>e. file_name e = name) (archive_entries (archive r))) (Fails FileNotFound)"

definition stat_entry :: "zip_reader \<Rightarrow> nat \<Rightarrow> central_dir_header zip_result" where
  "stat_entry r i = ok_or (get (archive_entries (archive r)) i) (Fails InvalidParameter)"

section \<open>Extraction\<close>

definition find_data_start :: "zip_source \<Rightarrow> u64 \<Rightarrow> (u64 \<times> zip_source) zip_result" where
  "find_data_start src offset =
     bind_result (read_at offset local_header_fixed_size src) (\<lambda>(hdr, src1).
       if read_u32_le hdr 0 \<noteq> local_header_signature then Inl (Fails InvalidHeaderOrCorrupted)
       else Inr (offset + of_nat local_header_fixed_size + ucast (read_u16_le hdr 26) + ucast (read_u16_le hdr 28),
                 src1))"

definition read_raw :: "zip_source \<Rightarrow> u64 \<Rightarrow> u64 \<Rightarrow> (bytes \<times> zip_source) zip_result" where
  "read_raw src data_start csize =
     bind_result (seek_start data_start src) (\<lambda>src1.
     bind_result (allocate (unat csize)) (\<lambda>_.
       if 0 < csize
       then (case read_exact (unat csize) src1 of Inl _ \<Rightarrow> Inl (Fails FileReadFailed) | Inr x \<Rightarrow> Inr x)
       else Inr ([], src1)))"

definition aes_info_of :: "central_dir_header \<Rightarrow> aes_extra_info option" where
  "aes_info_of entry =
     (case compression_method entry of
        Unsupported wire \<Rightarrow> if wire = aes_compression_method then find_aes_extra (extra_field entry) else None
      | _ \<Rightarrow> None)"

definition decompress :: "zip_packages \<Rightarrow> compression_method \<Rightarrow> bytes \<Rightarrow> bytes zip_result" where
  "decompress pk m input =
     (case m of
        Stored \<Rightarrow> Inr input
      | Deflated \<Rightarrow> ok_or (inflate pk input) (Fails DecompressionFailed)
      | Unsupported _ \<Rightarrow> Inl (Fails UnsupportedMethod))"

definition check_output :: "zip_packages \<Rightarrow> central_dir_header \<Rightarrow> bytes \<Rightarrow> bytes zip_result" where
  "check_output pk entry out =
     (if of_nat (length out) \<noteq> uncompressed_size entry then Inl (Fails UnexpectedDecompressedSize)
      else if cd_crc32 entry \<noteq> 0 \<and> crc_hash pk out \<noteq> cd_crc32 entry then Inl (Fails CrcCheckFailed)
      else Inr out)"

definition with_source :: "zip_source \<Rightarrow> zip_reader \<Rightarrow> zip_reader" where
  "with_source src r = r\<lparr>archive := (archive r)\<lparr>source := src\<rparr>\<rparr>"

definition extract_to_mem_inner ::
  "zip_packages \<Rightarrow> zip_reader \<Rightarrow> nat \<Rightarrow> bytes option \<Rightarrow> (bytes \<times> zip_reader) zip_result" where
  "extract_to_mem_inner pk r file_index password =
     bind_result (stat_entry r file_index) (\<lambda>entry.
       let aes_info = aes_info_of entry in
       if aes_info \<noteq> None \<and> password = None then Inl (Fails UnsupportedEncryption)
       else if uncompressed_size entry = 0 \<and> aes_info = None then Inr ([], r)
       else
         bind_result (find_data_start (source (archive r)) (local_header_offset entry)) (\<lambda>(data_start, src1).
         bind_result (read_raw src1 data_start (compressed_size entry)) (\<lambda>(raw, src2).
         bind_result (case aes_info of
                        None \<Rightarrow> Inr (raw, compression_method entry)
                      | Some info \<Rightarrow>
                          bind_result (ok_or password (Fails UnsupportedEncryption)) (\<lambda>pw.
                          bind_result (decrypt pk raw info pw) (\<lambda>plain.
                            Inr (plain, from_wire (real_compression_method info))))) (\<lambda>(input, m).
         bind_result (allocate (unat (uncompressed_size entry))) (\<lambda>_.
         bind_result (decompress pk m input) (\<lambda>out.
         bind_result (check_output pk entry out) (\<lambda>out'. Inr (out', with_source src2 r))))))))"

definition extract_to_mem :: "zip_packages \<Rightarrow> zip_reader \<Rightarrow> nat \<Rightarrow> (bytes \<times> zip_reader) zip_result" where
  "extract_to_mem pk r file_index = extract_to_mem_inner pk r file_index None"

definition extract_to_mem_with_password ::
  "zip_packages \<Rightarrow> zip_reader \<Rightarrow> nat \<Rightarrow> bytes \<Rightarrow> (bytes \<times> zip_reader) zip_result" where
  "extract_to_mem_with_password pk r file_index password = extract_to_mem_inner pk r file_index (Some password)"

section \<open>What extraction promises\<close>

lemma bytes_kept:
  "seek_start pos src = Inr src' \<Longrightarrow> stream_bytes (stream_of src') = stream_bytes (stream_of src)"
  "read_exact n src = Inr (bs, src') \<Longrightarrow> stream_bytes (stream_of src') = stream_bytes (stream_of src)"
  by (cases src; auto simp: seek_start_def seek_to_def read_exact_def Let_def split: if_splits)+

lemma read_at_kept:
  "read_at pos n src = Inr (bs, src') \<Longrightarrow> stream_bytes (stream_of src') = stream_bytes (stream_of src)"
  by (auto simp: read_at_def bind_result_Inr_iff bytes_kept)

lemma find_data_start_kept:
  "find_data_start src off = Inr (p, src') \<Longrightarrow> stream_bytes (stream_of src') = stream_bytes (stream_of src)"
  by (auto simp: find_data_start_def bind_result_Inr_iff read_at_kept split: if_splits)

lemma read_raw_kept:
  "read_raw src p n = Inr (bs, src') \<Longrightarrow> stream_bytes (stream_of src') = stream_bytes (stream_of src)"
  by (auto simp: read_raw_def bind_result_Inr_iff bytes_kept split: if_splits sum.splits)

lemma check_output_Inr:
  "check_output pk entry out = Inr out' \<longleftrightarrow>
     out' = out \<and> of_nat (length out) = uncompressed_size entry \<and> (cd_crc32 entry = 0 \<or> crc_hash pk out = cd_crc32 entry)"
  by (auto simp: check_output_def)

lemma ok_or_Inr: "ok_or x e = Inr a \<longleftrightarrow> x = Some a"
  by (cases x) simp_all

text \<open>
  Extraction is checked: a successful extraction yields exactly as many bytes as the central
  directory declares, bytes whose checksum is the declared one unless the declared checksum is
  zero or the entry is declared empty; an encrypted entry is only extracted with a password;
  neither the entries nor the bytes of the archive change.
\<close>

theorem extract_sound:
  assumes "extract_to_mem_inner pk r i password = Inr (out, r')"
  shows "\<exists>entry. stat_entry r i = Inr entry \<and> of_nat (length out) = uncompressed_size entry
     \<and> (crc_hash pk out = cd_crc32 entry \<or> cd_crc32 entry = 0 \<or> uncompressed_size entry = 0)
     \<and> (aes_info_of entry = None \<or> password \<noteq> None)
     \<and> archive_entries (archive r') = archive_entries (archive r)
     \<and> stream_bytes (stream_of (source (archive r'))) = stream_bytes (stream_of (source (archive r)))"
proof -
  from assms obtain entry where entry: "stat_entry r i = Inr entry"
    by (auto simp: extract_to_mem_inner_def bind_result_Inr_iff)
  show ?thesis
  proof (cases "uncompressed_size entry = 0 \<and> aes_info_of entry = None")
    case True
    with assms entry show ?thesis by (simp add: extract_to_mem_inner_def)
  next
    case False
    have pw: "aes_info_of entry = None \<or> password \<noteq> None"
    proof (rule ccontr)
      assume "\<not> (aes_info_of entry = None \<or> password \<noteq> None)"
      with assms entry show False by (auto simp: extract_to_mem_inner_def Let_def)
    qed
    then have open_entry: "\<not> (aes_info_of entry \<noteq> None \<and> password = None)" by auto
    from assms [unfolded extract_to_mem_inner_def entry bind_result_simps Let_def if_not_P [OF open_entry] if_not_P [OF False]]
    obtain p src1 raw src2 where
      "find_data_start (source (archive r)) (local_header_offset entry) = Inr (p, src1)"
      "read_raw src1 p (compressed_size entry) = Inr (raw, src2)" "r' = with_source src2 r"
      and out: "of_nat (length out) = uncompressed_size entry"
        "cd_crc32 entry = 0 \<or> crc_hash pk out = cd_crc32 entry"
      by (auto simp: bind_result_Inr_iff check_output_Inr)
    then have "archive_entries (archive r') = archive_entries (archive r)"
      "stream_bytes (stream_of (source (archive r'))) = stream_bytes (stream_of (source (archive r)))"
      by (simp_all add: with_source_def find_data_start_kept read_raw_kept)
    with entry pw out show ?thesis by blast
  qed
qed

text \<open>An archive of one stored entry of two bytes, whose central directory is already parsed.\<close>

definition two_byte_reader :: zip_reader where
  "two_byte_reader =
     \<lparr>archive = \<lparr>source = MemSource \<lparr>stream_bytes = u32_le local_header_signature @ replicate 26 0 @ [104, 105],
                                     stream_pos = 0\<rparr>,
        archive_size = 32, central_directory_offset = 32, total_files = 1, archive_mode = Reading, last_error = None,
        archive_entries = [\<lparr>version_made_by = 20, version_needed = 20, cd_flags = 0, compression_method = Stored,
          last_mod_time = 0, last_mod_date = 0, cd_crc32 = 3, compressed_size = 2, uncompressed_size = 2,
          disk_number_start = 0, internal_attributes = 0, external_attributes = 0, local_header_offset = 0,
          file_name = [97], extra_field = [], comment = []\<rparr>]\<rparr>\<rparr>"

lemma from_le_zeros: "from_le (replicate n 0) = 0"
  by (induction n) simp_all

lemma two_byte_extract: "\<exists>r'. extract_to_mem_inner plain_packages two_byte_reader 0 None = Inr ([104, 105], r')"
proof -
  define hdr where "hdr = u32_le local_header_signature @ replicate 26 0"
  have hdr: "length hdr = 30" "read_u32_le hdr 0 = local_header_signature"
    "read_u16_le hdr 26 = 0" "read_u16_le hdr 28 = 0"
    using read_field(2) [of "[]" 0 local_header_signature "replicate 26 0"]
    by (simp_all add: hdr_def u32_le_fields read_u16_le_def read_le_def from_le_zeros)
  have "find_data_start (MemSource \<lparr>stream_bytes = hdr @ [104, 105], stream_pos = 0\<rparr>) 0
      = Inr (30, MemSource \<lparr>stream_bytes = hdr @ [104, 105], stream_pos = 30\<rparr>)"
    by (simp add: find_data_start_def read_at_def seek_start_def seek_to_def read_exact_def Let_def
        local_header_fixed_size_def hdr)
  then show ?thesis
    by (simp add: two_byte_reader_def extract_to_mem_inner_def stat_entry_def get_def aes_info_of_def read_raw_def
        seek_start_def seek_to_def read_exact_def Let_def allocate_def alloc_limit_def decompress_def
        check_output_def plain_packages_def hdr flip: hdr_def append_assoc)
qed

theorem extract_sound_witness:
  "of_nat (length [104 :: u8, 105]) = (2 :: u64) \<and> crc_hash plain_packages [104, 105] = 3"
  using two_byte_extract extract_sound [of plain_packages two_byte_reader 0 None "[104, 105]"]
  by (auto simp: two_byte_reader_def stat_entry_def get_def)

section \<open>What opening promises\<close>

lemma scan_eocd_None: "scan_eocd buf n = None \<longleftrightarrow> (\<forall>idx < n. \<not> eocd_at buf idx)"
  by (induction n) (auto simp: less_Suc_eq)

lemma scan_eocd_Some:
  "scan_eocd buf n = Some idx \<Longrightarrow> idx < n \<and> eocd_at buf idx \<and> (\<forall>j. idx < j \<and> j < n \<longrightarrow> \<not> eocd_at buf j)"
  by (induction n) (auto simp: less_Suc_eq split: if_splits)

lemma length_parse_entries: "parse_entries buf n cursor = Inr hdrs \<Longrightarrow> length hdrs = n"
  by (induction n arbitrary: cursor hdrs) (auto simp: bind_result_Inr_iff)

text \<open>The last bytes of a file, where the end record is looked for.\<close>

definition search_window :: "bytes \<Rightarrow> bytes" where
  "search_window content = drop (length content - (eocd_fixed_size + max_eocd_comment)) content"

lemma find_eocd_window:
  assumes len: "length content < 2 ^ 63" and long: "eocd_fixed_size \<le> length content"
  defines "buf \<equiv> search_window content"
  shows "\<exists>base src. find_eocd (FileSource \<lparr>stream_bytes = content, stream_pos = p\<rparr>) (of_nat (length content)) =
     (case scan_eocd buf (Suc (length buf - eocd_fixed_size)) of
        None \<Rightarrow> Inl (Fails FailedFindingCentralDir)
      | Some idx \<Rightarrow>
          if needs_zip64 (eocd_fields buf idx)
          then bind_result (upgrade_eocd_to_zip64 src (base + of_nat idx))
                 (\<lambda>(wide, src2). Inr (wide, base + of_nat idx, src2))
          else Inr (eocd_fields buf idx, base + of_nat idx, src))"
proof -
  define file_size :: u64 where "file_size = of_nat (length content)"
  define base where "base = saturating_sub file_size (of_nat (eocd_fixed_size + max_eocd_comment))"
  define n where "n = unat (file_size - base)"
  have size: "unat file_size = length content" using len by (simp add: file_size_def unat_of_nat)
  have base: "unat base = length content - (eocd_fixed_size + max_eocd_comment)"
    by (simp add: base_def unat_saturating_sub size eocd_fixed_size_def max_eocd_comment_def)
  then have "base \<le> file_size" by (simp add: word_le_nat_alt size)
  then have n: "n = length content - unat base" by (simp add: n_def unat_sub size)
  then have n_buf: "n = length buf" by (simp add: buf_def search_window_def base)
  have "unat base < 2 ^ 63" using base len by linarith
  moreover have "unat base + n \<le> length content" using n base by simp
  ultimately have read: "read_at base n (FileSource \<lparr>stream_bytes = content, stream_pos = p\<rparr>)
      = Inr (buf, FileSource \<lparr>stream_bytes = content, stream_pos = unat base + n\<rparr>)"
    by (simp add: read_at_def seek_start_def seek_to_def read_exact_def Let_def n buf_def search_window_def base)
  have "\<not> unat file_size < eocd_fixed_size" using long by (simp add: size)
  then show ?thesis
    unfolding find_eocd_def Let_def file_size_def [symmetric] base_def [symmetric] n_def [symmetric] read
    by (intro exI [of _ base] exI [of _ "FileSource \<lparr>stream_bytes = content, stream_pos = unat base + length buf\<rparr>"])
       (simp add: n_buf del: scan_eocd.simps)
qed

lemma open_archive_Inr:
  assumes "open_archive (Inr content) = Inr r"
  obtains eocd at src where
    "find_eocd (FileSource \<lparr>stream_bytes = content, stream_pos = 0\<rparr>) (of_nat (length content)) = Inr (eocd, at, src)"
    "num_entries r = unat (eocd_entries eocd)"
  using assms
  by (auto simp: open_archive_def Let_def bind_result_Inr_iff num_entries_def parse_central_directory_def
      dest: length_parse_entries)

lemma open_archive_outcomes_aux:
  assumes "length content < 2 ^ 63"
  shows "open_archive (Inl e) = Inl (Fails (if e = NotFound then FileNotFound else FileOpenFailed))"
    and "length content < eocd_fixed_size \<Longrightarrow> open_archive (Inr content) = Inl (Fails NotAnArchive)"
    and "eocd_fixed_size \<le> length content \<Longrightarrow>
           \<forall>idx \<le> length (search_window content) - eocd_fixed_size. \<not> eocd_at (search_window content) idx \<Longrightarrow>
           open_archive (Inr content) = Inl (Fails FailedFindingCentralDir)"
    and "open_archive (Inr content) = Inr r \<Longrightarrow>
           \<exists>idx. eocd_at (search_window content) idx
             \<and> (\<forall>j. idx < j \<and> j \<le> length (search_window content) - eocd_fixed_size \<longrightarrow> \<not> eocd_at (search_window content) j)
             \<and> (needs_zip64 (eocd_fields (search_window content) idx)
                \<or> num_entries r = unat (read_u16_le (search_window content) (idx + 10)))"
proof -
  let ?w = "search_window content"
  have size: "unat (of_nat (length content) :: u64) = length content" using assms by (simp add: unat_of_nat)
  show "open_archive (Inl e) = Inl (Fails (if e = NotFound then FileNotFound else FileOpenFailed))"
    by (simp add: open_archive_def)
  show short: "length content < eocd_fixed_size \<Longrightarrow> open_archive (Inr content) = Inl (Fails NotAnArchive)"
    by (simp add: open_archive_def Let_def find_eocd_def size)
  show "open_archive (Inr content) = Inl (Fails FailedFindingCentralDir)"
    if "eocd_fixed_size \<le> length content" "\<forall>idx \<le> length ?w - eocd_fixed_size. \<not> eocd_at ?w idx"
  proof -
    have "scan_eocd ?w (Suc (length ?w - eocd_fixed_size)) = None"
      using that(2) unfolding scan_eocd_None by (simp add: less_Suc_eq_le)
    then show ?thesis
      using find_eocd_window [OF assms that(1), of 0] by (auto simp: open_archive_def Let_def simp del: scan_eocd.simps)
  qed
  show "\<exists>idx. eocd_at ?w idx \<and> (\<forall>j. idx < j \<and> j \<le> length ?w - eocd_fixed_size \<longrightarrow> \<not> eocd_at ?w j)
      \<and> (needs_zip64 (eocd_fields ?w idx) \<or> num_entries r = unat (read_u16_le ?w (idx + 10)))"
    if opened: "open_archive (Inr content) = Inr r"
  proof -
    have long: "eocd_fixed_size \<le> length content" using short opened by (metis Inl_Inr_False not_le)
    obtain eocd at src where eocd:
      "find_eocd (FileSource \<lparr>stream_bytes = content, stream_pos = 0\<rparr>) (of_nat (length content)) = Inr (eocd, at, src)"
      "num_entries r = unat (eocd_entries eocd)"
      by (rule open_archive_Inr [OF opened])
    with find_eocd_window [OF assms long, of 0] obtain idx where
      idx: "scan_eocd ?w (Suc (length ?w - eocd_fixed_size)) = Some idx"
      and "needs_zip64 (eocd_fields ?w idx) \<or> eocd = eocd_fields ?w idx"
      by (auto simp del: scan_eocd.simps split: option.splits if_splits)
    with eocd(2) scan_eocd_Some [OF idx] show ?thesis
      by (intro exI [of _ idx]) (auto simp: less_Suc_eq_le eocd_fields_def unsigned_ucast_eq take_bit_nat_eq_self
          order.strict_trans [OF unsigned_less])
  qed
qed

text \<open>
  Opening fails in the documented ways: a missing file is reported as such and any other
  failure of the system as a failed opening; a file shorter than an end record is not an archive; a
  file whose last 65557 bytes hold no end record that closes exactly at the end of the file has no
  central directory. An archive that opens has such a record, and lists as many entries as the
  last one declares unless that record points to zip64 values.
\<close>

theorem open_archive_outcomes:
  assumes "length content < 2 ^ 63"
  shows "open_archive (Inl e) = Inl (Fails (if e = NotFound then FileNotFound else FileOpenFailed))
     \<and> (length content < eocd_fixed_size \<longrightarrow> open_archive (Inr content) = Inl (Fails NotAnArchive))
     \<and> (eocd_fixed_size \<le> length content
          \<and> (\<forall>idx \<le> length (search_window content) - eocd_fixed_size. \<not> eocd_at (search_window content) idx)
        \<longrightarrow> open_archive (Inr content) = Inl (Fails FailedFindingCentralDir))
     \<and> (\<forall>r. open_archive (Inr content) = Inr r \<longrightarrow>
          (\<exists>idx. eocd_at (search_window content) idx
             \<and> (\<forall>j. idx < j \<and> j \<le> length (search_window content) - eocd_fixed_size \<longrightarrow> \<not> eocd_at (search_window content) j)
             \<and> (needs_zip64 (eocd_fields (search_window content) idx)
                \<or> num_entries r = unat (read_u16_le (search_window content) (idx + 10)))))"
  using open_archive_outcomes_aux [OF assms] by blast

theorem open_archive_outcomes_witness:
  "open_archive (Inr [80, 75, 5, 6]) = Inl (Fails NotAnArchive)"
  using open_archive_outcomes [of "[80, 75, 5, 6]"] by (simp add: eocd_fixed_size_def)

end
