(* ===== verification/Zip_Writer.thy ===== *)
theory Zip_Writer
  imports Zip_Reader
begin

text \<open>
  The ZIP writer (\<open>noricum-spike-miniz/src/writer.rs\<close>) and its contract with the reader. The bytes
  a finished writer has produced are given by a reference layout (\<open>archive_bytes\<close>: local records,
  central directory, end record), which the writer's operations implement step by step; the reader
  opened on that layout yields the entries and their data.
\<close>

section \<open>Operations\<close>

definition dos_date_2026_01_01 :: u16 where "dos_date_2026_01_01 = 23585"
definition dos_time_midnight :: u16 where "dos_time_midnight = 0"

definition write_fields :: "bytes list \<Rightarrow> zip_source \<Rightarrow> zip_source" where
  "write_fields = fold write_all"

text \<open>Creating the file may fail; a created file is empty.\<close>

definition create_writer :: "io_error option \<Rightarrow> zip_writer zip_result" where
  "create_writer failure =
     (case failure of
        Some e \<Rightarrow> Inl (Fails FileCreateFailed)
      | None \<Rightarrow> Inr \<lparr>sink = FileSource \<lparr>stream_bytes = [], stream_pos = 0\<rparr>, writer_entries = [], writer_size = 0,
                     file_offset_alignment = 0, writer_mode = Writing\<rparr>)"

definition choose_method :: "zip_packages \<Rightarrow> bytes \<Rightarrow> compression_method \<times> bytes" where
  "choose_method pk data =
     (if data = [] then (Stored, [])
      else let compressed = deflate pk data
           in if length data \<le> length compressed then (Stored, data) else (Deflated, compressed))"

definition local_fields :: "compression_method \<Rightarrow> u32 \<Rightarrow> u64 \<Rightarrow> u64 \<Rightarrow> bytes \<Rightarrow> bytes \<Rightarrow> bytes list" where
  "local_fields m crc csize usize name compressed =
     [u32_le local_header_signature, u16_le 20, u16_le 0, u16_le (to_wire m), u16_le dos_time_midnight,
      u16_le dos_date_2026_01_01, u32_le crc, u32_le (ucast csize), u32_le (ucast usize),
      u16_le (of_nat (length name)), u16_le 0, name, compressed]"

definition new_entry :: "compression_method \<Rightarrow> u32 \<Rightarrow> u64 \<Rightarrow> u64 \<Rightarrow> u64 \<Rightarrow> bytes \<Rightarrow> central_dir_header" where
  "new_entry m crc csize usize offset name =
     \<lparr>version_made_by = 20, version_needed = 20, cd_flags = 0, compression_method = m,
      last_mod_time = dos_time_midnight, last_mod_date = dos_date_2026_01_01, cd_crc32 = crc,
      compressed_size = csize, uncompressed_size = usize, disk_number_start = 0, internal_attributes = 0,
      external_attributes = 0, local_header_offset = offset, file_name = name, extra_field = [], comment = []\<rparr>"

text \<open>An operation returns the writer it leaves behind with its result.\<close>

definition add_mem :: "zip_packages \<Rightarrow> bytes \<Rightarrow> bytes \<Rightarrow> zip_writer \<Rightarrow> zip_writer \<times> unit zip_result" where
  "add_mem pk name data w =
     (if writer_mode w \<noteq> Writing then (w, Inl (Fails InvalidParameter))
      else if 65535 < length name then (w, Inl (Fails InvalidFilename))
      else
        (let usize = of_nat (length data);
             crc = crc_hash pk data;
             (m, compressed) = choose_method pk data;
             csize = of_nat (length compressed);
             offset = of_nat (stream_position (sink w));
             out = write_fields (local_fields m crc csize usize name compressed) (sink w)
         in (w\<lparr>sink := out, writer_entries := writer_entries w @ [new_entry m crc csize usize offset name],
               writer_size := of_nat (stream_position out)\<rparr>, Inr ())))"

definition central_fields :: "central_dir_header \<Rightarrow> bytes list" where
  "central_fields e =
     [u32_le central_dir_signature, u16_le (version_made_by e), u16_le (version_needed e), u16_le (cd_flags e),
      u16_le (to_wire (compression_method e)), u16_le (last_mod_time e), u16_le (last_mod_date e),
      u32_le (cd_crc32 e), u32_le (ucast (compressed_size e)), u32_le (ucast (uncompressed_size e)),
      u16_le (of_nat (length (file_name e))), u16_le (of_nat (length (extra_field e))),
      u16_le (of_nat (length (comment e))), u16_le (disk_number_start e), u16_le (internal_attributes e),
      u32_le (external_attributes e), u32_le (ucast (local_header_offset e)), file_name e, extra_field e, comment e]"

fun write_central :: "central_dir_header list \<Rightarrow> zip_source \<Rightarrow> zip_source \<times> unit zip_result" where
  "write_central [] out = (out, Inr ())"
| "write_central (e # es) out =
     (if 65535 < length (file_name e) then (out, Inl (Fails InvalidFilename))
      else write_central es (write_fields (central_fields e) out))"

definition eocd_record :: "nat \<Rightarrow> nat \<Rightarrow> nat \<Rightarrow> bytes list" where
  "eocd_record n dir_size dir_offset =
     [u32_le eocd_signature, u16_le 0, u16_le 0, u16_le (of_nat n), u16_le (of_nat n),
      u32_le (of_nat dir_size), u32_le (of_nat dir_offset), u16_le 0]"

definition finalize_archive :: "zip_writer \<Rightarrow> zip_writer \<times> unit zip_result" where
  "finalize_archive w =
     (if writer_mode w \<noteq> Writing then (w, Inl (Fails InvalidParameter))
      else
        (let dir_offset = stream_position (sink w);
             (out, r) = write_central (writer_entries w) (sink w)
         in case r of
              Inl e \<Rightarrow> (w\<lparr>sink := out\<rparr>, Inl e)
            | Inr _ \<Rightarrow>
                (let dir_size = stream_position out - dir_offset
                 in if 65535 < length (writer_entries w) then (w\<lparr>sink := out\<rparr>, Inl (Fails TooManyFiles))
                    else if 2 ^ 32 - 1 < dir_size \<or> 2 ^ 32 - 1 < dir_offset
                      then (w\<lparr>sink := out\<rparr>, Inl (Fails ArchiveTooLarge))
                    else (let out' = write_fields (eocd_record (length (writer_entries w)) dir_size dir_offset) out
                          in (w\<lparr>sink := out', writer_size := of_nat (stream_position out'),
                                writer_mode := WritingFinalized\<rparr>, Inr ())))))"

text \<open>The file left behind when the writer is dropped.\<close>

definition close_writer :: "zip_writer \<Rightarrow> bytes" where
  "close_writer w = stream_bytes (stream_of (sink w))"

text \<open>Adding a list of entries, stopping at the first error.\<close>

fun add_all :: "zip_packages \<Rightarrow> (bytes \<times> bytes) list \<Rightarrow> zip_writer \<Rightarrow> zip_writer \<times> unit zip_result" where
  "add_all pk [] w = (w, Inr ())"
| "add_all pk ((name, data) # items) w =
     (case add_mem pk name data w of
        (w', Inl e) \<Rightarrow> (w', Inl e)
      | (w', Inr _) \<Rightarrow> add_all pk items w')"

section \<open>The reference layout\<close>

definition local_bytes :: "zip_packages \<Rightarrow> bytes \<times> bytes \<Rightarrow> bytes" where
  "local_bytes pk item =
     (case item of (name, data) \<Rightarrow>
        (case choose_method pk data of (m, compressed) \<Rightarrow>
           concat (local_fields m (crc_hash pk data) (of_nat (length compressed)) (of_nat (length data)) name compressed)))"

definition entry_of :: "zip_packages \<Rightarrow> nat \<Rightarrow> bytes \<times> bytes \<Rightarrow> central_dir_header" where
  "entry_of pk offset item =
     (case item of (name, data) \<Rightarrow>
        (case choose_method pk data of (m, compressed) \<Rightarrow>
           new_entry m (crc_hash pk data) (of_nat (length compressed)) (of_nat (length data)) (of_nat offset) name))"

fun entries_from :: "zip_packages \<Rightarrow> nat \<Rightarrow> (bytes \<times> bytes) list \<Rightarrow> central_dir_header list" where
  "entries_from pk offset [] = []"
| "entries_from pk offset (item # items) =
     entry_of pk offset item # entries_from pk (offset + length (local_bytes pk item)) items"

definition body_bytes :: "zip_packages \<Rightarrow> (bytes \<times> bytes) list \<Rightarrow> bytes" where
  "body_bytes pk items = concat (map (local_bytes pk) items)"

definition directory_bytes :: "central_dir_header list \<Rightarrow> bytes" where
  "directory_bytes es = concat (map (\<lambda>e. concat (central_fields e)) es)"

definition archive_bytes :: "zip_packages \<Rightarrow> (bytes \<times> bytes) list \<Rightarrow> bytes" where
  "archive_bytes pk items =
     (let body = body_bytes pk items; dir = directory_bytes (entries_from pk 0 items)
      in body @ dir @ concat (eocd_record (length items) (length dir) (length body)))"

section \<open>The writer implements the layout\<close>

definition at_end :: "zip_source \<Rightarrow> bool" where
  "at_end src \<longleftrightarrow> stream_pos (stream_of src) = length (stream_bytes (stream_of src))"

definition appended :: "zip_source \<Rightarrow> bytes \<Rightarrow> zip_source" where
  "appended src bs =
     on_stream (\<lambda>s. s\<lparr>stream_bytes := stream_bytes s @ bs, stream_pos := stream_pos s + length bs\<rparr>) src"

lemma stream_of_on_stream [simp]: "stream_of (on_stream g src) = g (stream_of src)"
  by (cases src) simp_all

lemma on_stream_twice: "on_stream f (on_stream g src) = on_stream (\<lambda>s. f (g s)) src"
  by (cases src) simp_all

lemma on_stream_cong: "f (stream_of src) = g (stream_of src) \<Longrightarrow> on_stream f src = on_stream g src"
  by (cases src) simp_all

lemma at_end_appended [simp]: "at_end src \<Longrightarrow> at_end (appended src bs)"
  by (simp add: at_end_def appended_def)

lemma appended_twice [simp]: "appended (appended src xs) ys = appended src (xs @ ys)"
  by (simp add: appended_def on_stream_twice add.assoc)

lemma appended_Nil [simp]: "appended src [] = src"
  by (cases src) (simp_all add: appended_def)

lemma appended_observed:
  "stream_position (appended src bs) = stream_position src + length bs"
  "stream_bytes (stream_of (appended src bs)) = stream_bytes (stream_of src) @ bs"
  by (simp_all add: appended_def stream_position_def)

lemma write_all_at_end: "at_end src \<Longrightarrow> write_all bs src = appended src bs"
  unfolding write_all_def appended_def by (rule on_stream_cong) (simp add: at_end_def Let_def)

lemma write_fields_at_end: "at_end src \<Longrightarrow> write_fields fs src = appended src (concat fs)"
  by (induction fs arbitrary: src) (simp_all add: write_fields_def write_all_at_end)

lemma write_central_ok:
  "at_end src \<Longrightarrow> \<forall>e \<in> set es. length (file_name e) \<le> 65535 \<Longrightarrow>
     write_central es src = (appended src (directory_bytes es), Inr ())"
  by (induction es arbitrary: src) (simp_all add: directory_bytes_def write_fields_at_end not_less)

text \<open>The entries written so far and the bytes of the sink agree with the layout.\<close>

definition holds_items :: "zip_packages \<Rightarrow> (bytes \<times> bytes) list \<Rightarrow> zip_writer \<Rightarrow> bool" where
  "holds_items pk items w \<longleftrightarrow>
     writer_mode w = Writing \<and> at_end (sink w) \<and> close_writer w = body_bytes pk items
     \<and> writer_entries w = entries_from pk 0 items"

lemma entries_from_snoc:
  "entries_from pk off (items @ [item])
     = entries_from pk off items @ [entry_of pk (off + length (body_bytes pk items)) item]"
  by (induction items arbitrary: off) (simp_all add: body_bytes_def add.assoc)

lemma length_entries_from [simp]: "length (entries_from pk off items) = length items"
  by (induction items arbitrary: off) simp_all

lemma add_mem_holds:
  assumes w: "holds_items pk items w" and "length name \<le> 65535"
  shows "snd (add_mem pk name data w) = Inr () \<and> holds_items pk (items @ [(name, data)]) (fst (add_mem pk name data w))"
proof -
  obtain m compressed where m: "choose_method pk data = (m, compressed)" by fastforce
  have pos: "stream_position (sink w) = length (body_bytes pk items)"
    using w by (simp add: holds_items_def at_end_def stream_position_def close_writer_def)
  show ?thesis
    using w assms(2)
    by (simp add: add_mem_def Let_def m holds_items_def write_fields_at_end close_writer_def appended_observed
        entries_from_snoc entry_of_def pos local_bytes_def body_bytes_def)
qed

lemma add_all_holds:
  "holds_items pk done_items w \<Longrightarrow> \<forall>(name, data) \<in> set items. length name \<le> 65535 \<Longrightarrow>
     \<exists>w'. add_all pk items w = (w', Inr ()) \<and> holds_items pk (done_items @ items) w'"
proof (induction items arbitrary: done_items w)
  case (Cons item items)
  obtain name data where item: "item = (name, data)" by fastforce
  with Cons.prems have name: "length name \<le> 65535" by simp
  obtain w1 where w1: "add_mem pk name data w = (w1, Inr ())" "holds_items pk (done_items @ [item]) w1"
    using add_mem_holds [OF Cons.prems(1) name, of data] item by (cases "add_mem pk name data w") auto
  show ?case using Cons.IH [OF w1(2)] Cons.prems(2) by (simp add: item w1(1))
qed simp

lemma entries_from_names: "map file_name (entries_from pk off items) = map fst items"
  by (induction items arbitrary: off) (auto simp: entry_of_def new_entry_def split: prod.splits)

definition archivable :: "zip_packages \<Rightarrow> (bytes \<times> bytes) list \<Rightarrow> bool" where
  "archivable pk items \<longleftrightarrow>
     (\<forall>(name, data) \<in> set items. length name \<le> 65535 \<and> valid_utf8 name \<and> length data < 2 ^ 32)
     \<and> length items < 65535 \<and> length (body_bytes pk items) < 2 ^ 32 - 1
     \<and> length (directory_bytes (entries_from pk 0 items)) < 2 ^ 32 - 1"

lemma finalize_holds:
  assumes w: "holds_items pk items w" and names: "\<forall>(name, data) \<in> set items. length name \<le> 65535"
    and bounds: "length items \<le> 65535" "length (body_bytes pk items) \<le> 2 ^ 32 - 1"
      "length (directory_bytes (entries_from pk 0 items)) \<le> 2 ^ 32 - 1"
  shows "snd (finalize_archive w) = Inr () \<and> close_writer (fst (finalize_archive w)) = archive_bytes pk items
     \<and> writer_mode (fst (finalize_archive w)) = WritingFinalized"
proof -
  have "file_name ` set (entries_from pk 0 items) = fst ` set items"
    using arg_cong [OF entries_from_names [of pk 0 items], of set] by simp
  then have short: "\<forall>e \<in> set (entries_from pk 0 items). length (file_name e) \<le> 65535"
    using names by (metis (no_types, lifting) case_prod_unfold imageE imageI)
  have pos: "stream_position (sink w) = length (body_bytes pk items)"
    using w by (simp add: holds_items_def at_end_def stream_position_def close_writer_def)
  show ?thesis
    using w bounds write_central_ok [OF _ short]
    by (simp add: finalize_archive_def holds_items_def Let_def appended_observed pos write_fields_at_end
        archive_bytes_def close_writer_def)
qed

lemma created_holds: "create_writer None = Inr w \<Longrightarrow> holds_items pk [] w"
  by (auto simp: create_writer_def holds_items_def at_end_def close_writer_def body_bytes_def)

section \<open>Reading fields back\<close>

lemma field_reads:
  "read_u16_le (u16_le w @ c) 0 = w"
  "read_u32_le (u32_le v @ c) 0 = v"
  "2 \<le> k \<Longrightarrow> read_u16_le (u16_le w @ c) k = read_u16_le c (k - 2)"
  "4 \<le> k \<Longrightarrow> read_u16_le (u32_le v @ c) k = read_u16_le c (k - 4)"
  "2 \<le> k \<Longrightarrow> read_u32_le (u16_le w @ c) k = read_u32_le c (k - 2)"
  "4 \<le> k \<Longrightarrow> read_u32_le (u32_le v @ c) k = read_u32_le c (k - 4)"
  using read_field(1) [of "[]" 0 w c] read_field(2) [of "[]" 0 v c]
  by (simp_all add: read_u16_le_def read_u32_le_def read_le_def u16_le_fields u32_le_fields)

lemma last_field_reads:
  "read_u16_le (u16_le w) 0 = w" "read_u32_le (u32_le v) 0 = v"
  using field_reads(1) [of w "[]"] field_reads(2) [of v "[]"] by simp_all

lemma field_lengths [simp]: "length (u16_le w) = 2" "length (u32_le v) = 4"
  by (simp_all add: u16_le_fields u32_le_fields)

lemma field_drops:
  "2 \<le> k \<Longrightarrow> drop k (u16_le w @ c) = drop (k - 2) c"
  "4 \<le> k \<Longrightarrow> drop k (u32_le v @ c) = drop (k - 4) c"
  by simp_all

lemma unat_of_nat_small: "n \<le> 65535 \<Longrightarrow> unat (of_nat n :: u16) = n"
  by (simp add: unat_of_nat)

lemma ucast_u32_u64: "unat v < 2 ^ 32 \<Longrightarrow> ucast (ucast v :: u32) = (v :: u64)"
  by (simp add: word_eq_iff_unsigned [where 'a = nat] unsigned_ucast_eq unsigned_take_bit_eq take_bit_nat_eq_self)

definition plain_entry :: "central_dir_header \<Rightarrow> bool" where
  "plain_entry e \<longleftrightarrow>
     extra_field e = [] \<and> comment e = [] \<and> length (file_name e) \<le> 65535 \<and> valid_utf8 (file_name e)
     \<and> unat (compressed_size e) < 2 ^ 32 \<and> unat (uncompressed_size e) < 2 ^ 32
     \<and> unat (local_header_offset e) < 2 ^ 32 \<and> from_wire (to_wire (compression_method e)) = compression_method e"

lemma no_zip64_extra: "apply_zip64_extra [] csize usize offset disk = (csize, usize, offset, disk)"
  by (simp add: apply_zip64_extra_def walk_extra.simps)

lemma from_utf8_lossy_Nil [simp]: "from_utf8_lossy [] = []"
  by (simp add: from_utf8_lossy.simps)

lemma length_central_fields:
  "plain_entry e \<Longrightarrow> length (concat (central_fields e)) = 46 + length (file_name e)"
  by (simp add: central_fields_def plain_entry_def)

lemma parse_central_entry_fields:
  assumes e: "plain_entry e" and b: "drop cursor buf = concat (central_fields e) @ rest"
  shows "parse_central_entry buf cursor = Inr (e, length (concat (central_fields e)))"
proof -
  have "length (drop cursor buf) = 46 + length (file_name e) + length rest"
    unfolding b using length_central_fields [OF e] by simp
  then have len: "cursor + (46 + length (file_name e)) \<le> length buf"
    by (simp only: length_drop)
  have name: "take (length (file_name e)) (drop (cursor + 46) buf) = file_name e"
  proof -
    have "drop (cursor + 46) buf = drop 46 (concat (central_fields e) @ rest)"
      using b by (metis add.commute drop_drop)
    also have "\<dots> = file_name e @ rest"
      using e by (simp add: central_fields_def plain_entry_def field_drops del: drop_append)
    finally show ?thesis by simp
  qed
  show ?thesis
    using e len
    unfolding parse_central_entry_def Let_def b
    by (simp add: central_fields_def plain_entry_def field_reads central_entry_fixed_size_def unat_of_nat_small
        name no_zip64_extra from_utf8_lossy_valid ucast_u32_u64)
qed

lemma parse_entries_directory:
  "\<forall>e \<in> set es. plain_entry e \<Longrightarrow> drop cursor buf = directory_bytes es \<Longrightarrow>
     parse_entries buf (length es) cursor = Inr es"
proof (induction es arbitrary: cursor)
  case (Cons e es)
  have b: "drop cursor buf = concat (central_fields e) @ directory_bytes es"
    using Cons.prems(2) by (simp add: directory_bytes_def)
  have "drop (cursor + length (concat (central_fields e))) buf = directory_bytes es"
    using b by (metis add.commute append_eq_conv_conj drop_drop)
  then show ?case
    using Cons parse_central_entry_fields [OF _ b] by simp
qed simp

lemma entries_from_nth:
  "i < length items \<Longrightarrow>
     entries_from pk off items ! i = entry_of pk (off + length (body_bytes pk (take i items))) (items ! i)"
proof (induction items arbitrary: off i)
  case (Cons item items)
  then show ?case by (cases i) (simp_all add: body_bytes_def add.assoc)
qed simp

lemma body_split:
  "i < length items \<Longrightarrow>
     body_bytes pk items = body_bytes pk (take i items) @ local_bytes pk (items ! i) @ body_bytes pk (drop (Suc i) items)"
  unfolding body_bytes_def by (metis Cons_nth_drop_Suc append_take_drop_id concat.simps(2) concat_append list.simps(9) map_append)

lemma choose_method_props:
  "choose_method pk data = (m, compressed) \<Longrightarrow>
     length compressed \<le> length data \<and> from_wire (to_wire m) = m \<and> (m = Stored \<or> m = Deflated)"
  by (auto simp: choose_method_def Let_def from_wire_def split: if_splits)

lemma archivable_plain:
  assumes "archivable pk items"
  shows "\<forall>e \<in> set (entries_from pk 0 items). plain_entry e"
proof
  fix e assume "e \<in> set (entries_from pk 0 items)"
  then obtain i where i: "i < length items" and e: "e = entries_from pk 0 items ! i"
    by (metis in_set_conv_nth length_entries_from)
  obtain name data where item: "items ! i = (name, data)" by fastforce
  have "(name, data) \<in> set items" using i item by (metis nth_mem)
  then have ok: "length name \<le> 65535" "valid_utf8 name" "length data < 2 ^ 32"
    using assms by (auto simp: archivable_def)
  obtain m compressed where m: "choose_method pk data = (m, compressed)" by fastforce
  have "length (body_bytes pk (take i items)) \<le> length (body_bytes pk items)"
    using body_split [OF i, of pk] by simp
  then have off: "length (body_bytes pk (take i items)) < 2 ^ 32 - 1"
    using assms by (simp add: archivable_def)
  show "plain_entry e"
    using ok choose_method_props [OF m] off
    by (simp add: e entries_from_nth [OF i] item entry_of_def m plain_entry_def new_entry_def unat_of_nat)
qed

section \<open>Opening the layout\<close>

lemma read_at_file:
  "unat pos + n \<le> length content \<Longrightarrow> unat pos < 2 ^ 63 \<Longrightarrow>
     read_at pos n (FileSource \<lparr>stream_bytes = content, stream_pos = p\<rparr>)
       = Inr (take n (drop (unat pos) content), FileSource \<lparr>stream_bytes = content, stream_pos = unat pos + n\<rparr>)"
  by (simp add: read_at_def seek_start_def seek_to_def read_exact_def Let_def)

lemma length_eocd_record [simp]: "length (concat (eocd_record n ds off)) = 22"
  by (simp add: eocd_record_def)

lemma eocd_record_reads:
  assumes "drop idx buf = concat (eocd_record n ds off)" and "n < 65535" and "ds < 2 ^ 32 - 1" and "off < 2 ^ 32 - 1"
  shows "idx + 22 = length buf \<Longrightarrow> eocd_at buf idx"
    and "eocd_fields buf idx = \<lparr>eocd_entries = of_nat n, eocd_dir_size = of_nat ds, eocd_dir_offset = of_nat off\<rparr>"
proof -
  have shift: "read_u16_le buf (idx + k) = read_u16_le (drop idx buf) k"
    "read_u32_le buf (idx + k) = read_u32_le (drop idx buf) k" for k
    by (simp_all add: read_u16_le_def read_u32_le_def read_le_def add.commute)
  show "eocd_at buf idx" if "idx + 22 = length buf"
    using that shift(2) [of 0]
    by (simp add: eocd_at_def shift assms(1) eocd_record_def field_reads last_field_reads eocd_fixed_size_def)
  have "(ucast (of_nat n :: u16) :: u64) = of_nat n" "(ucast (of_nat ds :: u32) :: u64) = of_nat ds"
    "(ucast (of_nat off :: u32) :: u64) = of_nat off"
    using assms(2-4)
    by (simp_all add: word_eq_iff_unsigned [where 'a = nat] unsigned_ucast_eq unat_of_nat take_bit_nat_eq_self)
  then show "eocd_fields buf idx = \<lparr>eocd_entries = of_nat n, eocd_dir_size = of_nat ds, eocd_dir_offset = of_nat off\<rparr>"
    by (simp add: eocd_fields_def shift assms(1) eocd_record_def field_reads)
qed

lemma find_eocd_layout:
  assumes content: "content = pre @ concat (eocd_record n ds off)"
    and bounds: "n < 65535" "ds < 2 ^ 32 - 1" "off < 2 ^ 32 - 1" and len: "length content < 2 ^ 63"
  shows "\<exists>p at. find_eocd (FileSource \<lparr>stream_bytes = content, stream_pos = q\<rparr>) (of_nat (length content))
     = Inr (\<lparr>eocd_entries = of_nat n, eocd_dir_size = of_nat ds, eocd_dir_offset = of_nat off\<rparr>, at,
            FileSource \<lparr>stream_bytes = content, stream_pos = p\<rparr>)"
proof -
  define size :: u64 where "size = of_nat (length content)"
  define start where "start = saturating_sub size (of_nat (eocd_fixed_size + max_eocd_comment))"
  define n_search where "n_search = unat (size - start)"
  have size: "unat size = length content" using len by (simp add: size_def unat_of_nat)
  have start: "unat start = length content - 65557"
    by (simp add: start_def unat_saturating_sub size eocd_fixed_size_def max_eocd_comment_def)
  then have "start \<le> size" by (simp add: word_le_nat_alt size)
  then have n_search: "n_search = length content - unat start"
    by (simp add: n_search_def unat_sub size)
  have len22: "22 \<le> length content" by (simp add: content)
  define buf where "buf = take n_search (drop (unat start) content)"
  have buf: "buf = drop (unat start) content" by (simp add: buf_def n_search)
  have lbuf: "length buf = n_search" by (simp add: buf n_search)
  have search22: "22 \<le> n_search" using n_search start len22 by linarith
  have at_idx: "drop (n_search - 22) buf = concat (eocd_record n ds off)"
  proof -
    have "unat start + (n_search - 22) = length pre" using n_search search22 content start by auto
    then have "drop (n_search - 22) buf = drop (length pre) content"
      by (simp add: buf add.commute)
    then show ?thesis by (simp add: content)
  qed
  have eocd: "eocd_at buf (n_search - 22)"
    using eocd_record_reads(1) [OF at_idx bounds] search22 lbuf by simp
  have fields: "eocd_fields buf (n_search - 22)
      = \<lparr>eocd_entries = of_nat n, eocd_dir_size = of_nat ds, eocd_dir_offset = of_nat off\<rparr>"
    by (rule eocd_record_reads(2) [OF at_idx bounds])
  have scan: "scan_eocd buf (Suc (n_search - eocd_fixed_size)) = Some (n_search - 22)"
    using eocd by (simp add: eocd_fixed_size_def)
  have plain: "\<not> needs_zip64 (eocd_fields buf (n_search - 22))"
    using bounds by (simp add: needs_zip64_def fields word_eq_iff_unsigned [where 'a = nat] unat_of_nat)
  have read: "read_at start n_search (FileSource \<lparr>stream_bytes = content, stream_pos = q\<rparr>)
      = Inr (buf, FileSource \<lparr>stream_bytes = content, stream_pos = unat start + n_search\<rparr>)"
    unfolding buf_def using n_search start len by (intro read_at_file) auto
  have "\<not> unat size < eocd_fixed_size" using len22 by (simp add: size eocd_fixed_size_def)
  then show ?thesis
    unfolding size_def [symmetric] find_eocd_def Let_def start_def [symmetric] n_search_def [symmetric] read
    using plain scan by (simp add: fields del: scan_eocd.simps)
qed

lemma open_layout:
  assumes items: "archivable pk items"
  shows "\<exists>r p. open_archive (Inr (archive_bytes pk items)) = Inr r
     \<and> archive_entries (archive r) = entries_from pk 0 items
     \<and> source (archive r) = FileSource \<lparr>stream_bytes = archive_bytes pk items, stream_pos = p\<rparr>"
proof -
  define content where "content = archive_bytes pk items"
  define body where "body = body_bytes pk items"
  define dir where "dir = directory_bytes (entries_from pk 0 items)"
  define n where "n = length items"
  have content_eq: "content = body @ dir @ concat (eocd_record n (length dir) (length body))"
    by (simp add: content_def archive_bytes_def Let_def body_def dir_def n_def)
  have bounds: "n < 65535" "length dir < 2 ^ 32 - 1" "length body < 2 ^ 32 - 1"
    using items by (simp_all add: archivable_def n_def dir_def body_def)
  have len: "length content < 2 ^ 63" using bounds by (simp add: content_eq)
  have split: "content = (body @ dir) @ concat (eocd_record n (length dir) (length body))"
    by (simp add: content_eq)
  obtain p ea where eocd: "find_eocd (FileSource \<lparr>stream_bytes = content, stream_pos = 0\<rparr>) (of_nat (length content))
      = Inr (\<lparr>eocd_entries = of_nat n, eocd_dir_size = of_nat (length dir), eocd_dir_offset = of_nat (length body)\<rparr>,
             ea, FileSource \<lparr>stream_bytes = content, stream_pos = p\<rparr>)"
    using find_eocd_layout [OF split bounds len] by blast
  have words: "unat (of_nat n :: u64) = n" "unat (of_nat (length dir) :: u64) = length dir"
    "unat (of_nat (length body) :: u64) = length body"
    using bounds by (simp_all add: unat_of_nat)
  have entries: "parse_entries dir n 0 = Inr (entries_from pk 0 items)"
    using parse_entries_directory [OF archivable_plain [OF items], of 0 dir] by (simp add: dir_def n_def)
  have parse: "parse_central_directory (FileSource \<lparr>stream_bytes = content, stream_pos = p\<rparr>)
       \<lparr>eocd_entries = of_nat n, eocd_dir_size = of_nat (length dir), eocd_dir_offset = of_nat (length body)\<rparr>
     = Inr (entries_from pk 0 items, FileSource \<lparr>stream_bytes = content, stream_pos = length body + length dir\<rparr>)"
    using bounds
    by (simp add: parse_central_directory_def words seek_start_def seek_to_def allocate_def alloc_limit_def
        header_size_def read_exact_def Let_def content_eq entries)
  show ?thesis
    unfolding content_def [symmetric] open_archive_def Let_def
    by (simp add: eocd parse)
qed

section \<open>Extracting from the layout\<close>

lemma length_local_bytes:
  "choose_method pk data = (m, compressed) \<Longrightarrow>
     length (local_bytes pk (name, data)) = 30 + length name + length compressed"
  by (simp add: local_bytes_def local_fields_def)

lemma find_data_start_local:
  assumes m: "choose_method pk data = (m, compressed)" and name: "length name \<le> 65535"
    and content: "content = pre @ local_bytes pk (name, data) @ post" and len: "length content < 2 ^ 32 * 4"
  shows "find_data_start (FileSource \<lparr>stream_bytes = content, stream_pos = q\<rparr>) (of_nat (length pre))
     = Inr (of_nat (length pre + 30 + length name),
            FileSource \<lparr>stream_bytes = content, stream_pos = length pre + 30\<rparr>)"
proof -
  define hdr where
    "hdr = concat (take 11 (local_fields m (crc_hash pk data) (of_nat (length compressed)) (of_nat (length data)) name compressed))"
  have pre: "unat (of_nat (length pre) :: u64) = length pre"
    using len content by (simp add: unat_of_nat)
  have local_eq: "local_bytes pk (name, data) = hdr @ name @ compressed" and hdr_len: "length hdr = 30"
    by (simp_all add: local_bytes_def local_fields_def m hdr_def)
  have reads: "read_u32_le hdr 0 = local_header_signature" "read_u16_le hdr 26 = of_nat (length name)"
    "read_u16_le hdr 28 = 0"
    by (simp_all add: hdr_def local_fields_def field_reads last_field_reads)
  have "(ucast (of_nat (length name) :: u16) :: u64) = of_nat (length name)"
    using name by (simp add: word_eq_iff_unsigned [where 'a = nat] unsigned_ucast_eq unat_of_nat take_bit_nat_eq_self)
  moreover have "read_at (of_nat (length pre)) 30 (FileSource \<lparr>stream_bytes = content, stream_pos = q\<rparr>)
      = Inr (hdr, FileSource \<lparr>stream_bytes = content, stream_pos = length pre + 30\<rparr>)"
    using len read_at_file [of "of_nat (length pre)" 30 content q] by (simp add: pre content local_eq hdr_len)
  ultimately have "find_data_start (FileSource \<lparr>stream_bytes = content, stream_pos = q\<rparr>) (of_nat (length pre))
     = Inr (of_nat (length pre) + of_nat 30 + of_nat (length name),
            FileSource \<lparr>stream_bytes = content, stream_pos = length pre + 30\<rparr>)"
    by (simp add: find_data_start_def local_header_fixed_size_def reads)
  then show ?thesis by simp
qed

lemma read_raw_local:
  assumes m: "choose_method pk data = (m, compressed)" and name: "length name \<le> 65535"
    and content: "content = pre @ local_bytes pk (name, data) @ post" and len: "length content < 2 ^ 32 * 4"
  shows "\<exists>p. read_raw (FileSource \<lparr>stream_bytes = content, stream_pos = q\<rparr>) (of_nat (length pre + 30 + length name))
       (of_nat (length compressed)) = Inr (compressed, FileSource \<lparr>stream_bytes = content, stream_pos = p\<rparr>)"
proof -
  define hdr where
    "hdr = concat (take 11 (local_fields m (crc_hash pk data) (of_nat (length compressed)) (of_nat (length data)) name compressed))"
  have local_eq: "local_bytes pk (name, data) = hdr @ name @ compressed" and hdr_len: "length hdr = 30"
    by (simp_all add: local_bytes_def local_fields_def m hdr_def)
  have pos: "unat (of_nat (length pre + 30 + length name) :: u64) = length pre + 30 + length name"
    and size: "unat (of_nat (length compressed) :: u64) = length compressed"
    using len by (simp_all only: unat_of_nat) (simp_all add: content local_eq hdr_len)
  have "content = (pre @ hdr @ name) @ compressed @ post" by (simp add: content local_eq)
  then have data_at: "take (length compressed) (drop (length pre + 30 + length name) content) = compressed"
    using hdr_len by (simp add: add.assoc)
  have total: "length pre + 30 + length name + length compressed \<le> length content"
    by (simp add: content local_eq hdr_len)
  have small: "length pre + 30 + length name < 2 ^ 63" "length compressed \<le> 2 ^ 63 - 1"
    using len total by simp_all
  have empty: "0 < (of_nat (length compressed) :: u64) \<longleftrightarrow> compressed \<noteq> []"
    using size by (simp add: word_less_nat_alt)
  show ?thesis
    unfolding read_raw_def seek_start_def pos size allocate_def alloc_limit_def empty
    using small total data_at
    by (auto simp: seek_to_def read_exact_def Let_def)
qed

lemma extract_layout:
  assumes codec: "\<And>d. inflate pk (deflate pk d) = Some d" and items: "archivable pk items"
    and r: "archive_entries (archive r) = entries_from pk 0 items"
      "source (archive r) = FileSource \<lparr>stream_bytes = archive_bytes pk items, stream_pos = q\<rparr>"
    and i: "i < length items"
  shows "\<exists>r'. extract_to_mem pk r i = Inr (snd (items ! i), r')"
proof -
  obtain name data where item: "items ! i = (name, data)" by fastforce
  obtain m compressed where m: "choose_method pk data = (m, compressed)" by fastforce
  define content where "content = archive_bytes pk items"
  define pre where "pre = body_bytes pk (take i items)"
  have "(name, data) \<in> set items" using i item by (metis nth_mem)
  then have ok: "length name \<le> 65535" "length data < 2 ^ 32" using items by (auto simp: archivable_def)
  obtain post where content_eq: "content = pre @ local_bytes pk (name, data) @ post"
    by (simp add: content_def archive_bytes_def Let_def body_split [OF i, of pk] pre_def item)
  have len: "length content < 2 ^ 32 * 4"
    using items by (simp add: archivable_def content_def archive_bytes_def Let_def)
  have entry: "stat_entry r i = Inr (new_entry m (crc_hash pk data) (of_nat (length compressed)) (of_nat (length data))
      (of_nat (length pre)) name)"
    using i by (simp add: stat_entry_def get_def r entries_from_nth item entry_of_def m pre_def)
  obtain p where raw: "read_raw (FileSource \<lparr>stream_bytes = content, stream_pos = length pre + 30\<rparr>)
      (of_nat (length pre + 30 + length name)) (of_nat (length compressed))
        = Inr (compressed, FileSource \<lparr>stream_bytes = content, stream_pos = p\<rparr>)"
    using read_raw_local [OF m ok(1) content_eq len] by blast
  have unpack: "decompress pk m compressed = Inr data"
    using m codec by (auto simp: decompress_def choose_method_def Let_def split: if_splits)
  have size: "unat (of_nat (length data) :: u64) = length data" using ok(2) by (simp add: unat_of_nat)
  have empty: "(of_nat (length data) :: u64) = 0 \<longleftrightarrow> data = []"
    using size by (metis length_0_conv unat_eq_zero)
  have no_aes: "aes_info_of (new_entry m crc cs us off name) = None" for crc cs us off
    using choose_method_props [OF m] by (auto simp: aes_info_of_def new_entry_def)
  show ?thesis
    using r(2) find_data_start_local [OF m ok(1) content_eq len, of q] raw unpack ok(2)
    by (simp add: extract_to_mem_def extract_to_mem_inner_def entry Let_def no_aes content_def [symmetric] item
        check_output_def allocate_def alloc_limit_def size empty)
      (simp add: new_entry_def size empty)
qed

section \<open>The contract of the writer\<close>

datatype writer_op = AddMem bytes bytes | Finalize

fun writer_step :: "zip_packages \<Rightarrow> writer_op \<Rightarrow> zip_writer \<Rightarrow> zip_writer \<times> unit zip_result" where
  "writer_step pk (AddMem name data) w = add_mem pk name data w"
| "writer_step pk Finalize w = finalize_archive w"

fun writer_run :: "zip_packages \<Rightarrow> writer_op list \<Rightarrow> zip_writer \<Rightarrow> zip_writer \<times> unit zip_result list" where
  "writer_run pk [] w = (w, [])"
| "writer_run pk (c # cs) w =
     (case writer_step pk c w of (w1, r) \<Rightarrow> (case writer_run pk cs w1 of (w2, rs) \<Rightarrow> (w2, r # rs)))"

text \<open>The specification: the entries accepted so far and whether the archive is closed.\<close>

record archive_spec =
  spec_items :: "(bytes \<times> bytes) list"
  spec_closed :: bool

fun spec_step :: "writer_op \<Rightarrow> archive_spec \<Rightarrow> archive_spec \<times> unit zip_result" where
  "spec_step (AddMem name data) a =
     (if spec_closed a then (a, Inl (Fails InvalidParameter))
      else if 65535 < length name then (a, Inl (Fails InvalidFilename))
      else (a\<lparr>spec_items := spec_items a @ [(name, data)]\<rparr>, Inr ()))"
| "spec_step Finalize a =
     (if spec_closed a then (a, Inl (Fails InvalidParameter)) else (a\<lparr>spec_closed := True\<rparr>, Inr ()))"

fun spec_run :: "writer_op list \<Rightarrow> archive_spec \<Rightarrow> archive_spec \<times> unit zip_result list" where
  "spec_run [] a = (a, [])"
| "spec_run (c # cs) a = (case spec_step c a of (a1, r) \<Rightarrow> (case spec_run cs a1 of (a2, rs) \<Rightarrow> (a2, r # rs)))"

definition spec_bytes :: "zip_packages \<Rightarrow> archive_spec \<Rightarrow> bytes" where
  "spec_bytes pk a = (if spec_closed a then archive_bytes pk (spec_items a) else body_bytes pk (spec_items a))"

definition implements :: "zip_packages \<Rightarrow> zip_writer \<Rightarrow> archive_spec \<Rightarrow> bool" where
  "implements pk w a \<longleftrightarrow>
     (\<forall>(name, data) \<in> set (spec_items a). length name \<le> 65535)
     \<and> (if spec_closed a then writer_mode w = WritingFinalized \<and> close_writer w = archive_bytes pk (spec_items a)
        else holds_items pk (spec_items a) w)"

definition within_limits :: "zip_packages \<Rightarrow> (bytes \<times> bytes) list \<Rightarrow> bool" where
  "within_limits pk items \<longleftrightarrow>
     length items \<le> 65535 \<and> length (body_bytes pk items) \<le> 2 ^ 32 - 1
     \<and> length (directory_bytes (entries_from pk 0 items)) \<le> 2 ^ 32 - 1"

lemma entries_from_append:
  "entries_from pk off (xs @ ys)
     = entries_from pk off xs @ entries_from pk (off + length (body_bytes pk xs)) ys"
  by (induction xs arbitrary: off) (simp_all add: body_bytes_def add.assoc)

lemma within_limits_append: "within_limits pk (xs @ ys) \<Longrightarrow> within_limits pk xs"
  by (auto simp: within_limits_def body_bytes_def entries_from_append directory_bytes_def)

lemma spec_step_grows: "\<exists>more. spec_items (fst (spec_step c a)) = spec_items a @ more"
  by (cases c) auto

lemma spec_run_grows: "\<exists>more. spec_items (fst (spec_run cs a)) = spec_items a @ more"
proof (induction cs arbitrary: a)
  case (Cons c cs)
  obtain more where "spec_items (fst (spec_step c a)) = spec_items a @ more" using spec_step_grows by blast
  moreover obtain rest where
    "spec_items (fst (spec_run cs (fst (spec_step c a)))) = spec_items (fst (spec_step c a)) @ rest"
    using Cons.IH by blast
  ultimately show ?case by (simp add: split_beta)
qed simp

lemma writer_step_simulates:
  assumes "implements pk w a" and "within_limits pk (spec_items a)"
  shows "snd (writer_step pk c w) = snd (spec_step c a) \<and> implements pk (fst (writer_step pk c w)) (fst (spec_step c a))"
proof (cases c)
  case (AddMem name data)
  show ?thesis
  proof (cases "spec_closed a \<or> 65535 < length name")
    case True
    then show ?thesis using assms(1)
      by (auto simp: AddMem implements_def add_mem_def holds_items_def split: if_splits)
  next
    case False
    with assms(1) have "holds_items pk (spec_items a) w" by (simp add: implements_def)
    from add_mem_holds [OF this, of name data] False assms(1) show ?thesis
      by (simp add: AddMem implements_def)
  qed
next
  case Finalize
  show ?thesis
  proof (cases "spec_closed a")
    case True
    then show ?thesis using assms(1) by (simp add: Finalize implements_def finalize_archive_def)
  next
    case False
    with assms finalize_holds [of pk "spec_items a" w] show ?thesis
      by (simp add: Finalize implements_def within_limits_def)
  qed
qed

lemma writer_run_simulates:
  assumes "implements pk w a" and "within_limits pk (spec_items (fst (spec_run cs a)))"
  shows "snd (writer_run pk cs w) = snd (spec_run cs a) \<and> implements pk (fst (writer_run pk cs w)) (fst (spec_run cs a))"
  using assms
proof (induction cs arbitrary: w a)
  case (Cons c cs)
  let ?a = "fst (spec_step c a)" and ?w = "fst (writer_step pk c w)"
  have run: "fst (spec_run (c # cs) a) = fst (spec_run cs ?a)" by (simp add: split_beta)
  have limits: "within_limits pk (spec_items (fst (spec_run cs ?a)))" using Cons.prems(2) unfolding run .
  obtain more where "spec_items (fst (spec_run (c # cs) a)) = spec_items a @ more" using spec_run_grows by blast
  then have "within_limits pk (spec_items a)" using Cons.prems(2) within_limits_append by metis
  from writer_step_simulates [OF Cons.prems(1) this, of c] have step:
    "snd (writer_step pk c w) = snd (spec_step c a)" "implements pk ?w ?a" by simp_all
  from Cons.IH [OF step(2) limits] step(1) show ?case by (simp add: split_beta)
qed simp

text \<open>
  C20: The writer refines its specification: from a freshly created archive, any sequence of
  additions and finalizations that stays within the format's limits gives the results of the
  specification (every operation on a finalized archive is an invalid parameter, a long name an
  invalid file name), and the file holds the reference layout of the accepted entries, with the
  central directory exactly when the archive was finalized.
\<close>

theorem writer_refines_spec:
  assumes "create_writer None = Inr w" and "spec_run ops \<lparr>spec_items = [], spec_closed = False\<rparr> = (a, results)"
    and "within_limits pk (spec_items a)"
  shows "\<exists>w'. writer_run pk ops w = (w', results) \<and> close_writer w' = spec_bytes pk a
     \<and> (writer_mode w' = WritingFinalized \<longleftrightarrow> spec_closed a)"
proof -
  have "implements pk w \<lparr>spec_items = [], spec_closed = False\<rparr>"
    using created_holds [OF assms(1)] by (simp add: implements_def)
  from writer_run_simulates [OF this, of ops] assms(2,3)
  have "snd (writer_run pk ops w) = results \<and> implements pk (fst (writer_run pk ops w)) a" by simp
  then show ?thesis
    by (intro exI [of _ "fst (writer_run pk ops w)"])
       (auto simp: implements_def spec_bytes_def holds_items_def prod_eq_iff split: if_splits)
qed

theorem writer_refines_spec_witness:
  "\<exists>w'. writer_run plain_packages [AddMem [97] [1, 2], Finalize, AddMem [98] []]
       \<lparr>sink = FileSource \<lparr>stream_bytes = [], stream_pos = 0\<rparr>, writer_entries = [], writer_size = 0,
        file_offset_alignment = 0, writer_mode = Writing\<rparr> = (w', [Inr (), Inr (), Inl (Fails InvalidParameter)])
     \<and> close_writer w' = archive_bytes plain_packages [([97], [1, 2])]"
  using writer_refines_spec [of _ "[AddMem [97] [1, 2], Finalize, AddMem [98] []]"
      "\<lparr>spec_items = [([97], [1, 2])], spec_closed = True\<rparr>" "[Inr (), Inr (), Inl (Fails InvalidParameter)]" plain_packages]
  by (force simp: create_writer_def within_limits_def body_bytes_def local_bytes_def local_fields_def
      choose_method_def plain_packages_def directory_bytes_def central_fields_def entry_of_def new_entry_def spec_bytes_def)

section \<open>Writing and reading back\<close>

text \<open>
  C21: What is written is read back: an archive created, filled and finalized opens, lists the
  entries under their names in the order they were added, and every entry extracts to its data,
  for fewer than 65535 entries with UTF-8 names of at most 65535 bytes, entries under 4 GiB and
  an archive under the format's 32-bit offsets, and a compressor whose output decompresses.
\<close>

theorem zip_roundtrip:
  assumes "\<And>d. inflate pk (deflate pk d) = Some d" and "archivable pk items" and "create_writer None = Inr w"
  shows "\<exists>w1 w2 r. add_all pk items w = (w1, Inr ()) \<and> finalize_archive w1 = (w2, Inr ())
     \<and> open_archive (Inr (close_writer w2)) = Inr r
     \<and> map file_name (archive_entries (archive r)) = map fst items
     \<and> (\<forall>i < length items. \<exists>r'. extract_to_mem pk r i = Inr (snd (items ! i), r'))"
proof -
  have names: "\<forall>(name, data) \<in> set items. length name \<le> 65535"
    using assms(2) by (auto simp: archivable_def)
  obtain w1 where w1: "add_all pk items w = (w1, Inr ())" "holds_items pk items w1"
    using add_all_holds [OF created_holds [OF assms(3)] names] by auto
  obtain w2 where w2: "finalize_archive w1 = (w2, Inr ())" "close_writer w2 = archive_bytes pk items"
    using finalize_holds [OF w1(2) names] assms(2) by (cases "finalize_archive w1") (auto simp: archivable_def)
  obtain r p where r: "open_archive (Inr (archive_bytes pk items)) = Inr r"
    "archive_entries (archive r) = entries_from pk 0 items"
    "source (archive r) = FileSource \<lparr>stream_bytes = archive_bytes pk items, stream_pos = p\<rparr>"
    using open_layout [OF assms(2)] by blast
  have "map file_name (archive_entries (archive r)) = map fst items"
    by (simp add: r(2) entries_from_names)
  with w1(1) w2 r(1) show ?thesis
    using extract_layout [OF assms(1,2) r(2,3)] by metis
qed

theorem zip_roundtrip_witness:
  "\<exists>w1 w2 r. add_all plain_packages [([97], [1, 2]), ([98], [])]
        \<lparr>sink = FileSource \<lparr>stream_bytes = [], stream_pos = 0\<rparr>, writer_entries = [], writer_size = 0,
         file_offset_alignment = 0, writer_mode = Writing\<rparr> = (w1, Inr ())
     \<and> finalize_archive w1 = (w2, Inr ()) \<and> open_archive (Inr (close_writer w2)) = Inr r
     \<and> map file_name (archive_entries (archive r)) = [[97], [98]]
     \<and> (\<exists>r'. extract_to_mem plain_packages r 0 = Inr ([1, 2], r'))"
  using zip_roundtrip [of plain_packages "[([97], [1, 2]), ([98], [])]"
      "\<lparr>sink = FileSource \<lparr>stream_bytes = [], stream_pos = 0\<rparr>, writer_entries = [], writer_size = 0,
        file_offset_alignment = 0, writer_mode = Writing\<rparr>"]
  by (fastforce simp: create_writer_def archivable_def body_bytes_def local_bytes_def local_fields_def
      choose_method_def plain_packages_def directory_bytes_def central_fields_def entry_of_def new_entry_def
      valid_utf8.simps utf8_char_def)

end
