(* ===== verification/Spec2Isabelle.thy ===== *)
theory Spec2Isabelle
  imports Fuzz_Test Dependency Pipeline_Control Artifacts Assembly Directory_Pipeline Crate_Repair Repair_Store Crust_Bench Cli_Main Agent_Tools Ffi_Bridge Zip_Writer
begin

text \<open>
  A verification library of noricum, a pipeline that migrates C programs to Rust with language
  models and checks what they answer. The crates are under \<open>crates/\<close>: \<open>noricum-ir\<close> (the data),
  \<open>noricum-tools\<close> (compilers, tests, source analysis, repair rules), \<open>noricum-validation\<close>,
  \<open>noricum-agents\<close> (prompts and model calls) and \<open>noricum-core\<close> (the pipeline).

  The program. A C file becomes a function unit (\<open>FunctionUnit\<close>). It is analysed, translated by a
  model, and validated: compiled, linted, counted for unsafe blocks, scored, and run against the
  C program. A unit that fails is repaired: by mechanical rules, by surgical repairs of single
  functions, or by a loop that sends the errors back to the model, keeps the best version seen and
  grades it in the end. Large files are split into modules, ordered by their calls, migrated one
  by one and assembled.

  The theories, in the order of their dependencies, and the files they model:

  \<^item> \<open>Prelude\<close>: the result type (a sum, \<open>Inl\<close> the error), saturating arithmetic and generic
    lemmas. \<open>Rust_Text\<close>: what the code uses of Rust's string library, on lists of characters.
    \<open>Line_Fold\<close>: a locale for scans over the lines of a text that do not depend on how the lines
    were joined, interpreted on the brace count and on the definitions of an assembly.
  \<^item> \<open>Migration_Ir\<close>: \<open>noricum-ir/src/lib.rs\<close>. States, difficulty, units, projects, the summary.
    \<open>Pattern_Store\<close>: \<open>noricum-ir/src/pattern_store.rs\<close>.
  \<^item> \<open>Diff_Test\<close>, \<open>Fuzz_Test\<close>, \<open>Harness_Gen\<close>: the differential, multi-input and fuzz tests and
    the generated harnesses (\<open>diff_test.rs\<close>, \<open>multi_input_test.rs\<close>, \<open>fuzz_test.rs\<close>,
    \<open>harness_gen.rs\<close>).
  \<^item> \<open>C_Ast\<close>, \<open>Chunking\<close>: \<open>ast.rs\<close>. Functions, calls, types, difficulty and unsafe blocks from
    syntax trees or regular expressions; chunks and modules of a C source.
  \<^item> \<open>Brace_Balance\<close>, \<open>Regex_Engine\<close>, \<open>Repair_Rules\<close>: \<open>repair_rules.rs\<close>. The locale
    \<open>guarded_rule\<close> states the contract of a rule (no change without its errors) and is
    interpreted on the rules of the fixed sequence.
  \<^item> \<open>Validation\<close>: \<open>compiler.rs\<close> and \<open>noricum-validation/src/lib.rs\<close>.
  \<^item> \<open>Kahn\<close>, \<open>Dependency\<close>: \<open>dependency.rs\<close>. The graph of calls, topological sort, the order of
    the modules and their waves.
  \<^item> \<open>Ensemble\<close>: \<open>ensemble_translation.rs\<close> and \<open>ensemble.rs\<close>. \<open>Pipeline_Control\<close>: errors, budget,
    warm start, graduated states, incremental state, audit, router. \<open>Artifacts\<close>: \<open>artifacts.rs\<close>.
  \<^item> \<open>Surgical_Repair\<close>, \<open>Assembly\<close>: \<open>surgical_repair.rs\<close> and \<open>assembly.rs\<close>.
  \<^item> \<open>Llm_Agents\<close>, \<open>Repair_Agent\<close>: model selection, token estimates, code extraction, retries,
    and the translation and repair prompts of \<open>noricum-agents\<close>. \<open>Chunk_Translation\<close>: the
    chunked translation and the completion pass of \<open>translation.rs\<close>. \<open>Pipeline_Agents\<close>: the
    analysis, test generation, idiomatic and review agents.
  \<^item> \<open>Spec_Mining\<close>, \<open>Semantic_Patterns\<close>, \<open>Front_Tools\<close>: \<open>spec_mining.rs\<close>,
    \<open>semantic_patterns.rs\<close>, and the preprocessor, the external translator and the caches.
  \<^item> \<open>Rule_Expr\<close>, \<open>Rule_Statement\<close>, \<open>Rule_Translate\<close>: \<open>rule_translate/\<close>. Expressions,
    statements, blocks and functions of the translator that needs no model.
  \<^item> \<open>Repair_Loop\<close>, \<open>Repair_Stage\<close>: stages 7 and 8 of \<open>migrate_file\<close> and \<open>hybrid_repair\<close> of
    \<open>orchestrator.rs\<close>. \<open>Repair_Outcome\<close>: what the two leave behind (final states, outputs that
    compile).
  \<^item> \<open>Sync_Pipeline\<close>: \<open>migrate_file_sync\<close> and \<open>migrate_directory_sync\<close>, the pipeline without a
    model. \<open>File_Pipeline\<close>: \<open>migrate_file\<close> with all its stages, one definition per stage and one
    for their sequence. \<open>File_Facts\<close>, \<open>File_Outcome\<close>, \<open>File_Errors\<close>: frame lemmas of the
    stages, the properties of a whole migration, and the errors that can end one.
  \<^item> \<open>Type_Contract\<close>: \<open>type_contract.rs\<close>, the types that the modules of a large file share.
    \<open>Crate_Builder\<close>: \<open>crate_builder.rs\<close> and the Cargo checks of \<open>compiler.rs\<close>, over a disk that
    maps paths to contents.
  \<^item> \<open>Modular_Module\<close>: \<open>migrate_single_module\<close>, from the warm start over translation, validation
    and repair to the brace balance. \<open>Modular_Pipeline\<close>: \<open>migrate_file_modular\<close>, the waves, the
    merge of their results and the assembly; \<open>modular_of\<close> makes it the modular migration that
    \<open>migrate_file\<close> takes. \<open>Modular_Facts\<close>, \<open>Modular_Outcome\<close>: the properties of a module, of a
    wave and of the run. \<open>Directory_Pipeline\<close>: \<open>migrate_directory\<close>.
  \<^item> \<open>Keyed_Store\<close>: a locale for the stores that merge an entry into the one with its key, or
    append it, and for the choice of the best entries. \<open>Translation_Memory\<close>, \<open>Repair_Store\<close>:
    \<open>translation_memory.rs\<close> and \<open>repair_pattern_store.rs\<close>, its interpretations. \<open>Crate_Repair\<close>: the repair of a module
    in its crate, of \<open>module_migration.rs\<close>. \<open>Task_Routing\<close>: \<open>providers.rs\<close>, which client is created and
    which client and model a task gets.
  \<^item> \<open>Bench_Projects\<close>, \<open>Crust_Bench\<close>: \<open>crust_bench.rs\<close> of the command line, the benchmark that fills
    Rust interfaces from C projects and judges the result with cargo.
  \<^item> \<open>Json_Value\<close>: the JSON values of the package, as the code builds and reads them.
    \<open>Mcp_Server\<close>: \<open>noricum-mcp\<close>, the server that offers the tools and the pipeline over JSON-RPC.
    \<open>Http_Api\<close>: \<open>api.rs\<close> of the command line, the same over HTTP with a key and limits.
  \<^item> \<open>Html_Report\<close>: \<open>report.rs\<close>, the reports as HTML. \<open>Doc_Gen\<close>: \<open>doc_gen.rs\<close>, doc comments from C
    comments. \<open>Migrate_Command\<close>: \<open>commands/migrate.rs\<close>, the configuration its options stand for and
    what is printed and written. \<open>Bench_Command\<close>: \<open>commands/bench.rs\<close> and \<open>compare.rs\<close>.
    \<open>Cli_Main\<close>: \<open>main.rs\<close> with the start of the server, and the remaining commands.
  \<^item> \<open>Agent_Tools\<close>: \<open>rig_tools.rs\<close>, the tools of agents with the check of paths on a file system with
    links. \<open>Ffi_Bridge\<close>: \<open>ffi_bridge.rs\<close> and \<open>mixed_build.rs\<close>, declarations and builds across both languages.
  \<^item> \<open>Zip_Contract\<close>, \<open>Zip_Aes\<close>, \<open>Zip_Reader\<close>, \<open>Zip_Writer\<close>: the ZIP library
    \<open>noricum-spike-miniz\<close>, its errors, encryption, reader and writer.

  State and effects. A unit is a record with the fields of the struct. Code that mutates a unit, a
  store, an audit trail or counters becomes a function that returns the new value; the repair
  stage threads a record of the unit, the locals of the loop, the number of client calls and a log
  of the artifact saves (whose failures the code ignores). Errors are values of a sum; every \<open>?\<close>
  and early return is a branch. Counters of fixed width are words, with the wrap-around of a
  release build; sizes and line numbers are naturals; brace counters are integers; floats that are
  only scaled and compared are exact rationals. Characters are those of HOL, so character counts
  and byte counts agree; sources are taken to be ASCII. Elapsed times are read from a
  clock that is a parameter, the time of the repair stage and logging are left out. The cache is a
  map from paths to texts.

  Parameters. The regular expression package (\<open>regex_engine\<close>), the syntax-tree parsers
  (\<open>parsers\<close>), the Rust compiler and linter (\<open>workbench\<close>), the C and Rust executables and their
  processes (\<open>toolchain\<close>), the model clients (\<open>llm_client\<close>, a function of the number of the call
  and the prompt, so that equal prompts may be answered differently), the random generator, JSON
  text, prompt files and directory listings. The pipeline is a function of what it reads and keeps a log of what it
  saves; the names of these files hold the time of the run, so the commands and the server, which model the disk, take
  the list of files the pipeline writes itself (artifacts, audit log, crate) from their environment. No theorem assumes anything of them unless its
  statement says so.

  Bounds and fuel. \<open>run_exe\<close> polls at most 202 times, which is proved to be enough for its
  deadline. Kahn's algorithm gets the number of nodes as fuel, proved to be enough for every graph.
  The repair loop gets \<open>max_iters\<close>, and \<open>legacy_repair_terminates\<close> shows that it ends with it.
  The surgical repair runs its five cycles. \<open>migrate_file\<close> hands one fuel to the repair loop and to
  the rule-based translator; \<open>migrate_file_returns\<close> shows that the repair limit is enough. For the
  translator the length of the source is enough (\<open>try_translate_returns\<close>), except for sources on
  which it does loop for ever (\<open>stuck_source_diverges\<close>). All other recursions are structural or have a measure.

  What the lemmas show. For the validation: a unit that passes did compile, reach the threshold
  and agree with the C program, and failed validations count up to the fallback. For the tests:
  what a passing result means and that running a program returns. For the source analysis: that
  splitting gives every function with its text to one module. For the graph: that every order is a
  permutation, that a wave holds independent modules and no wave is needless, that callers come before what they
  call (the comments of the code say the opposite), and that the algorithms end. For
  the rules: that no brace is left open and that deduplication removes the later definitions and nothing else. For
  the repair: that it ends, that the outcome is validated or the best version with its own
  grades, that surgical repairs are local. For assembly: that names are defined once. For a whole
  migration: that it returns, that a small file reaches a final state, that no error of a model is
  fatal, that an output of a compiling state compiles, and that the cache holds compiling texts
  only. For a modular migration: that a module's output builds with the modules before it, how many calls a
  module makes, that the order within a wave is irrelevant and what the result is assembled from.
  For the interfaces: that every line gets its answer, that only requests with the key are served and limits
  hold, that a command writes what was delivered and the report on it, that a baseline is true, that texts do not become markup, and that the tools of
  agents stay in their directories for absolute paths.
  For a crate: that it declares and returns its modules. For the archives: that the writer refines a layout, that reading returns what was written,
  and that an extraction is checked. Lemmas whose
  names end in \<open>_wraps\<close>, \<open>_collide\<close>, \<open>_dropped\<close> or \<open>_lose_compilation\<close>, and
  \<open>graduated_to_validated\<close>, record behaviour that differs from what the code means to do.

  Concurrency. The modules of a wave run concurrently on a snapshot of the state before the wave and
  share only the model. \<open>schedule\<close> gives each of their calls its number among all calls of the
  run, so that every interleaving is an instance; \<open>wave_order_irrelevant\<close> shows that the order in
  which the modules are taken does not change the state after the wave.

  Not modelled: the reading of arguments, the logging, and the network beneath the server and the clients
  of providers, which belong to packages; the foreign functions and the benchmark of the ZIP library; the
  harnesses of the fuzzer, the tests, and the outputs of earlier migrations kept as examples, which are not
  part of the program.
\<close>

end
